(* ===== verification/Cxpr_Prelude.thy ===== *)
theory Cxpr_Prelude
  imports Main "HOL-Library.Word"
begin

text \<open>
  Shared vocabulary of the development: the machine types of the C sources, the
  character classes of \<^verbatim>\<open><ctype.h>\<close> in the C locale, the public error codes of
  \<^verbatim>\<open>include/cxpr/types.h\<close>, and the generic lemmas on lists, modular arithmetic and
  partial results that the component theories use. The collections declared here
  (\<open>cx_wf\<close>, \<open>cx_len\<close>, \<open>cx_simps\<close>) are filled by the components.
\<close>

named_theorems cx_wf "preservation of well-formedness"
named_theorems cx_len "length and bound facts"
named_theorems cx_simps "characteristic equations of the model's operations"

section \<open>Machine types\<close>

type_synonym ulong = "64 word"

text \<open>\<open>INT64_MIN\<close>, \<open>INT64_MAX\<close> and the range of \<open>int64_t\<close>, whose values are kept as \<open>int\<close>.\<close>

abbreviation INT64_MIN :: int where "INT64_MIN \<equiv> - 9223372036854775808"
abbreviation INT64_MAX :: int where "INT64_MAX \<equiv> 9223372036854775807"

definition int64_range :: "int \<Rightarrow> bool" where
  "int64_range i \<longleftrightarrow> INT64_MIN \<le> i \<and> i \<le> INT64_MAX"

text \<open>\<open>SIZE_MAX\<close> of a 64-bit target.\<close>

abbreviation SIZE_MAX :: nat where "SIZE_MAX \<equiv> 18446744073709551615"

section \<open>Characters\<close>

text \<open>The byte value of a character (\<open>(unsigned char)c\<close>).\<close>

abbreviation byte :: "char \<Rightarrow> nat" where "byte c \<equiv> of_char c"

definition isdigit :: "char \<Rightarrow> bool" where
  "isdigit c \<longleftrightarrow> 48 \<le> byte c \<and> byte c \<le> 57"

definition isalpha :: "char \<Rightarrow> bool" where
  "isalpha c \<longleftrightarrow> (65 \<le> byte c \<and> byte c \<le> 90) \<or> (97 \<le> byte c \<and> byte c \<le> 122)"

definition isalnum :: "char \<Rightarrow> bool" where
  "isalnum c \<longleftrightarrow> isalpha c \<or> isdigit c"

definition isspace :: "char \<Rightarrow> bool" where
  "isspace c \<longleftrightarrow> byte c = 32 \<or> (9 \<le> byte c \<and> byte c \<le> 13)"

lemmas ctype_defs = isdigit_def isalpha_def isalnum_def isspace_def

text \<open>The terminating NUL of a C string.\<close>

abbreviation NUL :: char where "NUL \<equiv> CHR 0x00"

section \<open>Error codes\<close>

datatype cxpr_error_code =
    CXPR_OK
  | CXPR_ERR_SYNTAX
  | CXPR_ERR_UNKNOWN_IDENTIFIER
  | CXPR_ERR_UNKNOWN_FUNCTION
  | CXPR_ERR_WRONG_ARITY
  | CXPR_ERR_DIVISION_BY_ZERO
  | CXPR_ERR_CIRCULAR_DEPENDENCY
  | CXPR_ERR_TYPE_MISMATCH
  | CXPR_ERR_OUT_OF_MEMORY
  | CXPR_ERR_INVALID_INDEX
  | CXPR_ERR_INDEX_OUT_OF_RANGE

section \<open>Generic lemmas\<close>

lemma mod_add_Suc: "(i + Suc k) mod n = Suc ((i + k) mod n) mod n" for n :: nat
  by (simp add: mod_Suc_eq)

text \<open>Cyclic positions: every slot of a ring is reached from every start, exactly once per round.\<close>

lemma ring_reach:
  fixes h j n :: nat
  assumes "h < n" "j < n"
  obtains k where "k < n" "(h + k) mod n = j"
proof (cases "h \<le> j")
  case True
  with assms show thesis by (intro that [of "j - h"]) auto
next
  case False
  with assms have "(h + (n - h + j)) mod n = j" by simp
  with False assms show thesis by (intro that [of "n - h + j"]) auto
qed

lemma ring_inj:
  fixes h i j n :: nat
  assumes "i < n" "j < n" "(h + i) mod n = (h + j) mod n"
  shows "i = j"
proof -
  have "int i mod int n = int j mod int n"
  proof -
    have "(int h + int i) mod int n = (int h + int j) mod int n"
      using assms(3) by (metis of_nat_add zmod_int)
    then have "(int h + int i - int h) mod int n = (int h + int j - int h) mod int n"
      by (rule mod_diff_cong) simp
    then show ?thesis by simp
  qed
  with assms(1,2) show ?thesis by simp
qed

lemma int_div_lessI:
  fixes x y k :: int
  assumes "0 < y" "x < k * y"
  shows "x div y < k"
proof (rule ccontr)
  assume "\<not> x div y < k"
  then have "k * y \<le> x div y * y" using assms(1) by (intro mult_right_mono) simp_all
  also have "\<dots> \<le> x" using assms(1) by (simp add: minus_mod_eq_div_mult [symmetric])
  finally show False using assms(2) by simp
qed

lemma int_le_divI:
  fixes x y k :: int
  assumes "0 < y" "k * y \<le> x"
  shows "k \<le> x div y"
  using zdiv_mono1 [OF assms(2,1)] assms(1) by simp

lemma int_div_halve: "0 < y \<Longrightarrow> (2 * x div y) div 2 = x div y" for x y :: int
proof -
  have "(2 * x div y) div 2 = (2 * x) div (y * 2)" by (simp add: zdiv_zmult2_eq)
  also have "\<dots> = (2 * x) div (2 * y)" by (simp only: mult.commute)
  also have "\<dots> = x div y" by simp
  finally show ?thesis by simp
qed

lemma filter_length_update_new:
  assumes "i < length xs" "\<not> P (xs ! i)" "P v"
  shows "length (filter P (xs[i := v])) = Suc (length (filter P xs))"
  using assms by (induction xs arbitrary: i) (auto simp: less_Suc_eq_0_disj split: nat.splits)

lemma filter_length_update_same:
  assumes "i < length xs" "P (xs ! i) = P v"
  shows "length (filter P (xs[i := v])) = length (filter P xs)"
  using assms by (induction xs arbitrary: i) (auto simp: less_Suc_eq_0_disj split: nat.splits)

lemma filter_length_lt_ex:
  assumes "length (filter P xs) < length xs"
  shows "\<exists>i < length xs. \<not> P (xs ! i)"
  using assms by (metis filter_True in_set_conv_nth less_irrefl)

end
