(* ===== verification/Cxpr_Double.thy ===== *)
theory Cxpr_Double
  imports Cxpr_Prelude
begin

text \<open>
  The C type \<open>double\<close> as the sources use it: IEEE-754 binary64 with round-to-nearest,
  ties to even. A value is NaN (payloads are not observable in cxpr), a signed infinity,
  or \<open>DFin s m e\<close>, the number \<open>(-1)^s * m * 2^e\<close>. \<open>dbl_wf\<close> picks the canonical
  representation: \<open>m < 2^53\<close>, \<open>-1074 \<le> e \<le> 971\<close>, and \<open>2^52 \<le> m\<close> unless
  \<open>e = -1074\<close>. All operations compute on exact integers and round once; the functions of
  \<^verbatim>\<open><math.h>\<close> that are exact or correctly rounded in the standard (\<open>fmod\<close>,
  \<open>floor\<close>, \<open>ceil\<close>, \<open>round\<close>, \<open>sqrt\<close>, \<open>fabs\<close>, \<open>llround\<close>) are defined here.
  Those whose accuracy C leaves to the implementation (\<open>pow\<close>, \<open>exp\<close>, \<open>sin\<close>, ...)
  are fields of the record \<open>libm\<close>, a parameter of the definitions that call them.
\<close>

section \<open>Values\<close>

datatype double = DNaN | DInf bool | DFin bool int int

definition dbl_wf :: "double \<Rightarrow> bool" where
  "dbl_wf x = (case x of DNaN \<Rightarrow> True | DInf _ \<Rightarrow> True
     | DFin _ m e \<Rightarrow> 0 \<le> m \<and> m < 2 ^ 53 \<and> - 1074 \<le> e \<and> e \<le> 971 \<and> (2 ^ 52 \<le> m \<or> e = - 1074))"

definition dbl_zero :: double where "dbl_zero = DFin False 0 (- 1074)"

section \<open>Rounding\<close>

text \<open>The number of binary digits, and powers of two by repeated squaring (1 below zero).\<close>

function int_bits :: "int \<Rightarrow> int" where
  "int_bits n = (if n \<le> 0 then 0 else 1 + int_bits (n div 2))"
  by pat_completeness auto
termination by (relation "measure nat") auto

function pow2 :: "int \<Rightarrow> int" where
  "pow2 k = (if k \<le> 0 then 1
     else let h = pow2 (k div 2) in if even k then h * h else 2 * (h * h))"
  by pat_completeness auto
termination by (relation "measure nat") auto

declare int_bits.simps [simp del] pow2.simps [simp del]

text \<open>The quotient \<open>n / d\<close>, rounded to the nearest integer, ties to even.\<close>

definition div_rne :: "int \<Rightarrow> int \<Rightarrow> int" where
  "div_rne n d =
     (let q = n div d; r = n mod d in
      if d < 2 * r \<or> (2 * r = d \<and> odd q) then q + 1 else q)"

text \<open>\<open>n / (d * 2 ^ e)\<close> as a fraction of integers.\<close>

definition scale_num :: "int \<Rightarrow> int \<Rightarrow> int" where
  "scale_num n e = n * pow2 (- e)"

definition scale_den :: "int \<Rightarrow> int \<Rightarrow> int" where
  "scale_den d e = d * pow2 e"

text \<open>The exponent of the binary64 number below \<open>n / d\<close> (for \<open>n, d > 0\<close>).\<close>

definition ratio_exp :: "int \<Rightarrow> int \<Rightarrow> int" where
  "ratio_exp n d =
     (let e = max (- 1074) (int_bits n - int_bits d - 53) in
      if 2 ^ 53 \<le> scale_num n e div scale_den d e then e + 1 else e)"

definition dbl_pack :: "bool \<Rightarrow> int \<Rightarrow> int \<Rightarrow> double" where
  "dbl_pack s m e =
     (if m = 2 ^ 53 then (if 971 < e + 1 then DInf s else DFin s (2 ^ 52) (e + 1))
      else if 971 < e then DInf s else DFin s m e)"

definition dbl_of_ratio :: "bool \<Rightarrow> int \<Rightarrow> int \<Rightarrow> double" where
  "dbl_of_ratio s n d =
     (if n = 0 then DFin s 0 (- 1074)
      else let e = ratio_exp n d in dbl_pack s (div_rne (scale_num n e) (scale_den d e)) e)"

text \<open>\<open>(-1)^s * n * 2^e\<close>, rounded.\<close>

definition dbl_of_scaled :: "bool \<Rightarrow> int \<Rightarrow> int \<Rightarrow> double" where
  "dbl_of_scaled s n e = dbl_of_ratio s (n * pow2 e) (pow2 (- e))"

text \<open>Conversion of an integer (\<open>(double)i\<close>).\<close>

definition dbl_of_int :: "int \<Rightarrow> double" where
  "dbl_of_int i = dbl_of_ratio (i < 0) \<bar>i\<bar> 1"

abbreviation dbl_one :: double where "dbl_one \<equiv> DFin False 4503599627370496 (- 52)"

section \<open>Arithmetic\<close>

definition signed :: "bool \<Rightarrow> int \<Rightarrow> int" where
  "signed s m = (if s then - m else m)"

text \<open>Two finite operands on a common exponent.\<close>

definition align :: "int \<Rightarrow> int \<Rightarrow> int \<Rightarrow> int" where
  "align m e e0 = m * pow2 (e - e0)"

fun dbl_neg :: "double \<Rightarrow> double" where
  "dbl_neg DNaN = DNaN"
| "dbl_neg (DInf s) = DInf (\<not> s)"
| "dbl_neg (DFin s m e) = DFin (\<not> s) m e"

fun dbl_abs :: "double \<Rightarrow> double" where
  "dbl_abs DNaN = DNaN"
| "dbl_abs (DInf s) = DInf False"
| "dbl_abs (DFin s m e) = DFin False m e"

fun dbl_add :: "double \<Rightarrow> double \<Rightarrow> double" where
  "dbl_add DNaN _ = DNaN"
| "dbl_add _ DNaN = DNaN"
| "dbl_add (DInf s) (DInf t) = (if s = t then DInf s else DNaN)"
| "dbl_add (DInf s) (DFin _ _ _) = DInf s"
| "dbl_add (DFin _ _ _) (DInf t) = DInf t"
| "dbl_add (DFin s m e) (DFin t n f) =
     (let e0 = min e f;
          x = signed s (align m e e0) + signed t (align n f e0) in
      if x = 0 then DFin (s \<and> t) 0 (- 1074)
      else dbl_of_scaled (x < 0) \<bar>x\<bar> e0)"

definition dbl_sub :: "double \<Rightarrow> double \<Rightarrow> double" where
  "dbl_sub x y = dbl_add x (dbl_neg y)"

fun dbl_mul :: "double \<Rightarrow> double \<Rightarrow> double" where
  "dbl_mul DNaN _ = DNaN"
| "dbl_mul _ DNaN = DNaN"
| "dbl_mul (DInf s) (DInf t) = DInf (s \<noteq> t)"
| "dbl_mul (DInf s) (DFin t n _) = (if n = 0 then DNaN else DInf (s \<noteq> t))"
| "dbl_mul (DFin s m _) (DInf t) = (if m = 0 then DNaN else DInf (s \<noteq> t))"
| "dbl_mul (DFin s m e) (DFin t n f) = dbl_of_scaled (s \<noteq> t) (m * n) (e + f)"

fun dbl_div :: "double \<Rightarrow> double \<Rightarrow> double" where
  "dbl_div DNaN _ = DNaN"
| "dbl_div _ DNaN = DNaN"
| "dbl_div (DInf s) (DInf t) = DNaN"
| "dbl_div (DInf s) (DFin t _ _) = DInf (s \<noteq> t)"
| "dbl_div (DFin s _ _) (DInf t) = DFin (s \<noteq> t) 0 (- 1074)"
| "dbl_div (DFin s m e) (DFin t n f) =
     (if n = 0 then (if m = 0 then DNaN else DInf (s \<noteq> t))
      else dbl_of_ratio (s \<noteq> t) (scale_num m (f - e)) (scale_den n (f - e)))"

section \<open>Comparison\<close>

fun dbl_lt :: "double \<Rightarrow> double \<Rightarrow> bool" where
  "dbl_lt DNaN _ = False"
| "dbl_lt _ DNaN = False"
| "dbl_lt (DInf s) (DInf t) = (s \<and> \<not> t)"
| "dbl_lt (DInf s) (DFin _ _ _) = s"
| "dbl_lt (DFin _ _ _) (DInf t) = (\<not> t)"
| "dbl_lt (DFin s m e) (DFin t n f) =
     (let e0 = min e f in signed s (align m e e0) < signed t (align n f e0))"

fun dbl_eq :: "double \<Rightarrow> double \<Rightarrow> bool" where
  "dbl_eq DNaN _ = False"
| "dbl_eq _ DNaN = False"
| "dbl_eq (DInf s) (DInf t) = (s = t)"
| "dbl_eq (DInf s) (DFin _ _ _) = False"
| "dbl_eq (DFin _ _ _) (DInf t) = False"
| "dbl_eq (DFin s m e) (DFin t n f) =
     (let e0 = min e f in signed s (align m e e0) = signed t (align n f e0))"

definition dbl_le :: "double \<Rightarrow> double \<Rightarrow> bool" where
  "dbl_le x y \<longleftrightarrow> dbl_lt x y \<or> dbl_eq x y"

fun isnan :: "double \<Rightarrow> bool" where
  "isnan DNaN = True"
| "isnan _ = False"

fun isfinite :: "double \<Rightarrow> bool" where
  "isfinite (DFin _ _ _) = True"
| "isfinite _ = False"

section \<open>Integral parts\<close>

text \<open>\<open>m * 2^e\<close> truncated, whether a fraction was cut, and the magnitude rounded to an
  integer with halves away from zero.\<close>

definition trunc_abs :: "int \<Rightarrow> int \<Rightarrow> int" where
  "trunc_abs m e = (m * pow2 e) div pow2 (- e)"

definition has_frac :: "int \<Rightarrow> int \<Rightarrow> bool" where
  "has_frac m e \<longleftrightarrow> m mod pow2 (- e) \<noteq> 0"

definition round_abs :: "int \<Rightarrow> int \<Rightarrow> int" where
  "round_abs m e = (2 * (m * pow2 e) + pow2 (- e)) div (2 * pow2 (- e))"

fun dbl_floor :: "double \<Rightarrow> double" where
  "dbl_floor (DFin s m e) =
     dbl_of_ratio s (trunc_abs m e + (if s \<and> has_frac m e then 1 else 0)) 1"
| "dbl_floor x = x"

fun dbl_ceil :: "double \<Rightarrow> double" where
  "dbl_ceil (DFin s m e) =
     dbl_of_ratio s (trunc_abs m e + (if \<not> s \<and> has_frac m e then 1 else 0)) 1"
| "dbl_ceil x = x"

fun dbl_round :: "double \<Rightarrow> double" where
  "dbl_round (DFin s m e) = dbl_of_ratio s (round_abs m e) 1"
| "dbl_round x = x"

fun dbl_fmod :: "double \<Rightarrow> double \<Rightarrow> double" where
  "dbl_fmod DNaN _ = DNaN"
| "dbl_fmod _ DNaN = DNaN"
| "dbl_fmod (DInf _) _ = DNaN"
| "dbl_fmod (DFin s m e) (DInf _) = DFin s m e"
| "dbl_fmod (DFin s m e) (DFin _ n f) =
     (if n = 0 then DNaN
      else let e0 = min e f in dbl_of_scaled s (align m e e0 mod align n f e0) e0)"

text \<open>Truncation to an integer (the C conversion), defined for finite values.\<close>

fun dbl_trunc_int :: "double \<Rightarrow> int option" where
  "dbl_trunc_int (DFin s m e) = Some (signed s (trunc_abs m e))"
| "dbl_trunc_int _ = None"

text \<open>\<open>llround\<close>: the nearest integer, halves away from zero; \<open>None\<close> where C leaves the
  result unspecified (NaN, infinities, values outside \<open>int64_t\<close>).\<close>

fun llround :: "double \<Rightarrow> int option" where
  "llround (DFin s m e) =
     (let i = signed s (round_abs m e) in if int64_range i then Some i else None)"
| "llround _ = None"

text \<open>Integer square root, and the correctly rounded \<open>sqrt\<close> (a sticky bit below 60 exact
  binary digits decides the rounding).\<close>

function isqrt :: "int \<Rightarrow> int" where
  "isqrt n = (if n \<le> 0 then 0
     else let r = 2 * isqrt (n div 4) in if (r + 1) * (r + 1) \<le> n then r + 1 else r)"
  by pat_completeness auto
termination by (relation "measure nat") auto

declare isqrt.simps [simp del]

fun dbl_sqrt :: "double \<Rightarrow> double" where
  "dbl_sqrt DNaN = DNaN"
| "dbl_sqrt (DInf s) = (if s then DNaN else DInf False)"
| "dbl_sqrt (DFin s m e) =
     (if m = 0 then DFin s m e
      else if s then DNaN
      else let n = (if even e then m else 2 * m) * 2 ^ 120;
               r = isqrt n
           in dbl_of_scaled False (2 * r + (if r * r = n then 0 else 1)) (e div 2 - 61))"

section \<open>The mathematical library\<close>

text \<open>The functions of \<^verbatim>\<open><math.h>\<close> whose rounding the C standard does not fix.\<close>

record libm =
  libm_pow :: "double \<Rightarrow> double \<Rightarrow> double"
  libm_unary :: "string \<Rightarrow> double \<Rightarrow> double"

section \<open>Canonical results\<close>

lemma pow2_eq: "pow2 k = 2 ^ nat k"
proof (induction k rule: pow2.induct)
  case (1 k)
  show ?case
  proof (cases "k \<le> 0")
    case False
    then have IH: "pow2 (k div 2) = 2 ^ nat (k div 2)" using 1 by simp
    have "nat k = nat (k div 2) + nat (k div 2) + (if even k then 0 else 1)"
      using False by (auto elim!: evenE oddE simp: nat_add_distrib nat_mult_distrib)
    then have "(2 :: int) ^ nat k = 2 ^ nat (k div 2) * 2 ^ nat (k div 2) * (if even k then 1 else 2)"
      by (simp add: power_add)
    with False IH show ?thesis by (subst pow2.simps) (simp add: Let_def)
  qed (simp add: pow2.simps)
qed

lemma pow2_pos [simp]: "0 < pow2 k"
  by (simp add: pow2_eq)

lemma pow2_nonneg [simp]: "0 \<le> pow2 k"
  by (simp add: pow2_eq)

lemma pow2_neq0 [simp]: "pow2 k \<noteq> 0"
  by (simp add: pow2_eq)

lemma pow2_ge1 [simp]: "1 \<le> pow2 k"
  by (simp add: pow2_eq)

lemma int_bits_nonneg: "0 \<le> int_bits n"
proof (induction n rule: int_bits.induct)
  case (1 n)
  then show ?case by (subst int_bits.simps) auto
qed

lemma int_bits_upper: "n < 2 ^ nat (int_bits n)"
proof (induction n rule: int_bits.induct)
  case (1 n)
  show ?case
  proof (cases "n \<le> 0")
    case False
    with 1 have "n div 2 < 2 ^ nat (int_bits (n div 2))" by blast
    then have "n < 2 * 2 ^ nat (int_bits (n div 2))" by linarith
    with False show ?thesis
      by (subst int_bits.simps) (simp add: nat_add_distrib int_bits_nonneg)
  qed (simp add: int_bits.simps)
qed

lemma int_bits_pos: "0 < n \<Longrightarrow> 0 < int_bits n"
  using int_bits_nonneg [of "n div 2"] by (subst int_bits.simps) simp

lemma int_bits_lower: "0 < n \<Longrightarrow> 2 ^ nat (int_bits n - 1) \<le> n"
proof (induction n rule: int_bits.induct)
  case (1 n)
  show ?case
  proof (cases "n = 1")
    case True
    then show ?thesis by (simp add: int_bits.simps)
  next
    case False
    with "1.prems" have pos: "0 < n div 2" by simp
    with 1 have "2 ^ nat (int_bits (n div 2) - 1) \<le> n div 2" by simp
    moreover from int_bits_pos [OF pos]
    have "(2::int) ^ nat (int_bits (n div 2)) = 2 * 2 ^ nat (int_bits (n div 2) - 1)"
      by (metis Suc_nat_eq_nat_zadd1 add.commute diff_add_cancel int_one_le_iff_zero_less
          diff_ge_0_iff_ge power_Suc)
    ultimately have "2 ^ nat (int_bits (n div 2)) \<le> n" by linarith
    then show ?thesis using "1.prems" by (subst int_bits.simps) simp
  qed
qed

lemma div_rne_bounds: "n div d \<le> div_rne n d" "div_rne n d \<le> n div d + 1"
  by (auto simp: div_rne_def Let_def)

text \<open>
  The quotient at exponent \<open>e\<close>, and what makes \<open>e\<close> the exponent of the result:
  53 binary digits, or fewer at the smallest exponent.
\<close>

definition quot_at :: "int \<Rightarrow> int \<Rightarrow> int \<Rightarrow> int" where
  "quot_at n d e = scale_num n e div scale_den d e"

definition exp_fits :: "int \<Rightarrow> int \<Rightarrow> int \<Rightarrow> bool" where
  "exp_fits n d e \<longleftrightarrow> - 1074 \<le> e \<and> quot_at n d e < 2 ^ 53 \<and> (2 ^ 52 \<le> quot_at n d e \<or> e = - 1074)"

lemma scale_pos [simp]: "0 < n \<Longrightarrow> 0 < scale_num n e" "0 < d \<Longrightarrow> 0 < scale_den d e"
  by (simp_all add: scale_num_def scale_den_def)

lemma quot_at_nonneg: "0 < n \<Longrightarrow> 0 < d \<Longrightarrow> 0 \<le> quot_at n d e"
  by (simp add: quot_at_def scale_num_def scale_den_def pos_imp_zdiv_nonneg_iff)

lemma quot_at_Suc: "0 < d \<Longrightarrow> quot_at n d (e + 1) = quot_at n d e div 2"
proof (cases "e < 0")
  case True
  then have "nat (- e) = Suc (nat (- (e + 1)))" by simp
  then have "scale_num n e = 2 * scale_num n (e + 1)" by (simp add: scale_num_def pow2_eq)
  moreover have "scale_den d (e + 1) = scale_den d e" using True by (simp add: scale_den_def pow2_eq)
  ultimately show "0 < d \<Longrightarrow> ?thesis" by (simp add: quot_at_def int_div_halve)
next
  case False
  then have "nat (e + 1) = Suc (nat e)" by (simp add: nat_add_distrib)
  then have "scale_den d (e + 1) = scale_den d e * 2" by (simp add: scale_den_def pow2_eq)
  moreover have "scale_num n (e + 1) = scale_num n e" using False by (simp add: scale_num_def pow2_eq)
  ultimately show "0 < d \<Longrightarrow> ?thesis" by (simp add: quot_at_def zdiv_zmult2_eq)
qed

lemma quot_at_antimono:
  assumes "0 < n" "0 < d" "e \<le> f"
  shows "quot_at n d f \<le> quot_at n d e"
  using assms(3)
proof (induction f rule: int_ge_induct)
  case (step i)
  have "quot_at n d (i + 1) \<le> quot_at n d i"
    using quot_at_Suc [of d n i] quot_at_nonneg [of n d i] assms by simp
  with step show ?case by simp
qed simp

lemma exp_fits_unique:
  assumes "0 < n" "0 < d" "exp_fits n d e" "exp_fits n d f"
  shows "e = f"
proof -
  have *: "\<not> a < b" if "exp_fits n d a" "exp_fits n d b" for a b
  proof
    assume "a < b"
    then have "quot_at n d b \<le> quot_at n d a div 2"
      using quot_at_antimono [of n d "a + 1" b] quot_at_Suc [of d n a] assms by simp
    with that \<open>a < b\<close> show False by (auto simp: exp_fits_def)
  qed
  from * [OF assms(3,4)] * [OF assms(4,3)] show ?thesis by simp
qed

lemma quot_at_upper:
  assumes "0 < n" "0 < d" "int_bits n - int_bits d - 53 \<le> e"
  shows "quot_at n d e < 2 ^ 54"
proof -
  have "0 < int_bits d" by (rule int_bits_pos) fact
  then have len: "nat (int_bits n) + nat (- e) \<le> 54 + (nat (int_bits d - 1) + nat e)"
    using assms(3) int_bits_nonneg [of n] by linarith
  have "scale_num n e < 2 ^ nat (int_bits n) * 2 ^ nat (- e)"
    unfolding scale_num_def pow2_eq by (intro mult_strict_right_mono int_bits_upper) simp
  also have "\<dots> \<le> 2 ^ (54 + (nat (int_bits d - 1) + nat e))"
    unfolding power_add [symmetric] by (rule power_increasing [OF len]) simp
  also have "\<dots> = 2 ^ 54 * (2 ^ nat (int_bits d - 1) * 2 ^ nat e)"
    by (simp only: power_add)
  also have "\<dots> \<le> 2 ^ 54 * scale_den d e"
    unfolding scale_den_def pow2_eq
    by (intro mult_left_mono mult_right_mono int_bits_lower assms) simp_all
  finally show ?thesis
    using assms(2) by (simp add: quot_at_def int_div_lessI)
qed

lemma quot_at_lower:
  assumes "0 < n" "0 < d" "e = int_bits n - int_bits d - 53"
  shows "2 ^ 52 \<le> quot_at n d e"
proof -
  have "0 < int_bits n" by (rule int_bits_pos) fact
  then have len: "52 + (nat (int_bits d) + nat e) = nat (int_bits n - 1) + nat (- e)"
    using assms(3) int_bits_nonneg [of d] by linarith
  have "2 ^ 52 * scale_den d e \<le> 2 ^ 52 * (2 ^ nat (int_bits d) * 2 ^ nat e)"
    unfolding scale_den_def pow2_eq
    by (intro mult_left_mono mult_right_mono less_imp_le [OF int_bits_upper]) simp_all
  also have "\<dots> = 2 ^ nat (int_bits n - 1) * 2 ^ nat (- e)"
    by (simp only: power_add [symmetric] len)
  also have "\<dots> \<le> scale_num n e"
    unfolding scale_num_def pow2_eq by (intro mult_right_mono int_bits_lower assms) simp
  finally show ?thesis
    using assms(2) by (simp add: quot_at_def int_le_divI)
qed

lemma ratio_exp_fits:
  assumes "0 < n" "0 < d"
  shows "exp_fits n d (ratio_exp n d)"
proof -
  define e where "e = max (- 1074) (int_bits n - int_bits d - 53)"
  have le: "int_bits n - int_bits d - 53 \<le> e" "- 1074 \<le> e" by (auto simp: e_def)
  have up: "quot_at n d e < 2 ^ 54" using quot_at_upper assms le(1) by blast
  have lo: "2 ^ 52 \<le> quot_at n d e \<or> e = - 1074"
    using quot_at_lower [OF assms] by (auto simp: e_def max_def)
  have eq: "ratio_exp n d = (if 2 ^ 53 \<le> quot_at n d e then e + 1 else e)"
    by (simp add: ratio_exp_def e_def quot_at_def Let_def)
  show ?thesis
  proof (cases "2 ^ 53 \<le> quot_at n d e")
    case True
    then have "quot_at n d e div 2 < 2 ^ 53" "2 ^ 52 \<le> quot_at n d e div 2" using up by simp_all
    with True le(2) eq assms show ?thesis by (simp add: exp_fits_def quot_at_Suc)
  next
    case False
    with lo le(2) eq show ?thesis by (simp add: exp_fits_def)
  qed
qed

lemma dbl_of_ratio_wf [cx_wf, simp]:
  assumes "0 \<le> n" "0 < d"
  shows "dbl_wf (dbl_of_ratio s n d)"
proof (cases "n = 0")
  case False
  define e where "e = ratio_exp n d"
  define m where "m = div_rne (scale_num n e) (scale_den d e)"
  have "exp_fits n d e" using ratio_exp_fits assms False by (simp add: e_def)
  moreover have "quot_at n d e \<le> m" "m \<le> quot_at n d e + 1"
    by (simp_all add: m_def quot_at_def div_rne_bounds)
  moreover have "0 \<le> quot_at n d e" using quot_at_nonneg assms False by simp
  ultimately have "dbl_wf (dbl_pack s m e)"
    by (auto simp: exp_fits_def dbl_wf_def dbl_pack_def)
  with False show ?thesis by (simp add: dbl_of_ratio_def e_def m_def Let_def)
qed (simp add: dbl_of_ratio_def dbl_wf_def)

text \<open>Rounding is exact on what is representable: the quotient of the chosen exponent has no
  remainder.\<close>

lemma dbl_of_ratio_exact:
  assumes "0 < n" "0 < d" "exp_fits n d e" "e \<le> 971" "scale_num n e = m * scale_den d e"
  shows "dbl_of_ratio s n d = DFin s m e"
proof -
  have e: "ratio_exp n d = e"
    using exp_fits_unique ratio_exp_fits assms by blast
  have pos: "0 < scale_den d e" using assms(2) by simp
  have "quot_at n d e = m" using assms(5) pos by (simp add: quot_at_def)
  moreover have "div_rne (scale_num n e) (scale_den d e) = m"
    using assms(5) pos by (simp add: div_rne_def Let_def)
  ultimately show ?thesis
    using assms(1,3,4) e by (auto simp: dbl_of_ratio_def dbl_pack_def Let_def exp_fits_def)
qed

lemma dbl_of_scaled_canonical:
  assumes "dbl_wf (DFin s m e)"
  shows "dbl_of_scaled s m e = DFin s m e"
proof (cases "m = 0")
  case True
  with assms show ?thesis by (simp add: dbl_of_scaled_def dbl_of_ratio_def dbl_wf_def)
next
  case False
  with assms have m: "0 < m" by (simp add: dbl_wf_def)
  have eq: "scale_num (m * pow2 e) e = m * scale_den (pow2 (- e)) e"
    by (simp add: scale_num_def scale_den_def mult.assoc mult.left_commute mult.commute)
  have q: "quot_at (m * pow2 e) (pow2 (- e)) e = m"
    unfolding quot_at_def eq by (simp add: scale_den_def)
  then have "exp_fits (m * pow2 e) (pow2 (- e)) e"
    using assms by (simp add: exp_fits_def dbl_wf_def)
  with m eq assms show ?thesis
    unfolding dbl_of_scaled_def by (intro dbl_of_ratio_exact) (simp_all add: dbl_wf_def)
qed

text \<open>Integers up to \<open>2^53\<close> survive the conversion to \<open>double\<close> and back.\<close>

lemma int_bits_le_53: "0 < n \<Longrightarrow> n < 2 ^ 53 \<Longrightarrow> int_bits n \<le> 53"
proof (rule ccontr)
  assume "0 < n" "n < 2 ^ 53" "\<not> int_bits n \<le> 53"
  then have "(2::int) ^ 53 \<le> 2 ^ nat (int_bits n - 1)"
    by (intro power_increasing) (auto simp: le_nat_iff)
  also have "\<dots> \<le> n" by (rule int_bits_lower) fact
  finally show False using \<open>n < 2 ^ 53\<close> by simp
qed

lemma dbl_of_ratio_int:
  assumes "0 < n" "n < 2 ^ 53"
  obtains k where "0 \<le> k" "k \<le> 1074" "dbl_of_ratio s n 1 = DFin s (n * pow2 k) (- k)"
proof -
  define e where "e = ratio_exp n 1"
  have fits: "exp_fits n 1 e" using ratio_exp_fits assms by (simp add: e_def)
  have "int_bits 1 = 1" by (simp add: int_bits.simps)
  then have e: "e \<le> 0" "- 1074 \<le> e"
    using int_bits_le_53 [OF assms] fits by (auto simp: e_def ratio_exp_def exp_fits_def Let_def max_def split: if_splits)
  have "dbl_of_ratio s n 1 = DFin s (n * pow2 (- e)) e"
  proof (rule dbl_of_ratio_exact)
    show "scale_num n e = n * pow2 (- e) * scale_den 1 e"
      using e by (simp add: scale_num_def scale_den_def pow2.simps [of e])
  qed (use assms fits e in simp_all)
  then show thesis using e by (intro that [of "- e"]) simp_all
qed

lemma dbl_trunc_int_of_int:
  assumes "\<bar>i\<bar> < 2 ^ 53"
  shows "dbl_trunc_int (dbl_of_int i) = Some i"
proof (cases "i = 0")
  case True
  then show ?thesis
    by (simp add: dbl_of_int_def dbl_of_ratio_def signed_def trunc_abs_def)
next
  case False
  then obtain k where k: "0 \<le> k" "dbl_of_ratio (i < 0) \<bar>i\<bar> 1 = DFin (i < 0) (\<bar>i\<bar> * pow2 k) (- k)"
    using dbl_of_ratio_int [of "\<bar>i\<bar>" "i < 0"] assms by (metis zero_less_abs_iff)
  have "trunc_abs (\<bar>i\<bar> * pow2 k) (- k) = \<bar>i\<bar>"
    using k(1) by (simp add: trunc_abs_def pow2.simps [of "- k"])
  then show ?thesis by (simp add: dbl_of_int_def k(2) signed_def)
qed

text \<open>The quotient of two converted integers is the rounded exact quotient.\<close>

lemma dbl_div_of_int:
  assumes "0 < a" "a < 2 ^ 53" "0 < c" "c < 2 ^ 53"
  obtains t where "0 < t" "dbl_div (dbl_of_int a) (dbl_of_int c) = dbl_of_ratio False (a * t) (c * t)"
proof -
  obtain k where k: "0 \<le> k" "dbl_of_ratio False a 1 = DFin False (a * pow2 k) (- k)"
    using dbl_of_ratio_int [OF assms(1,2)] by metis
  obtain j where j: "0 \<le> j" "dbl_of_ratio False c 1 = DFin False (c * pow2 j) (- j)"
    using dbl_of_ratio_int [OF assms(3,4)] by metis
  have "nat k + nat (j - k) = nat j + nat (k - j)" using k(1) j(1) by linarith
  then have pw: "pow2 k * pow2 (j - k) = pow2 j * pow2 (k - j)"
    by (simp only: pow2_eq power_add [symmetric])
  have "dbl_div (dbl_of_int a) (dbl_of_int c) =
      dbl_of_ratio False (a * pow2 k * pow2 (j - k)) (c * pow2 j * pow2 (k - j))"
    using assms by (simp add: dbl_of_int_def k j scale_num_def scale_den_def)
  then show thesis
    using that [of "pow2 j * pow2 (k - j)"] by (simp add: mult.assoc pw)
qed

section \<open>Operations keep values canonical\<close>

lemma dbl_wf_Fin_nonneg: "dbl_wf (DFin s m e) \<Longrightarrow> 0 \<le> m"
  by (simp add: dbl_wf_def)

lemma dbl_of_scaled_wf [cx_wf, simp]: "0 \<le> n \<Longrightarrow> dbl_wf (dbl_of_scaled s n e)"
  by (simp add: dbl_of_scaled_def)

lemma dbl_wf_simple [cx_wf, simp]:
  "dbl_wf DNaN" "dbl_wf (DInf s)" "dbl_wf (DFin s 0 (- 1074))" "dbl_wf dbl_zero" "dbl_wf dbl_one"
  by (simp_all add: dbl_wf_def dbl_zero_def)

lemma dbl_neg_wf [cx_wf, simp]: "dbl_wf (dbl_neg x) = dbl_wf x"
  by (cases x) (simp_all add: dbl_wf_def)

lemma dbl_abs_wf [cx_wf, simp]: "dbl_wf (dbl_abs x) = dbl_wf x"
  by (cases x) (simp_all add: dbl_wf_def)

lemma dbl_of_int_wf [cx_wf, simp]: "dbl_wf (dbl_of_int i)"
  by (simp add: dbl_of_int_def)

lemma dbl_add_wf [cx_wf, simp]: "dbl_wf (dbl_add x y)"
  by (cases x; cases y) (simp_all add: Let_def)

lemma dbl_sub_wf [cx_wf, simp]: "dbl_wf (dbl_sub x y)"
  by (simp add: dbl_sub_def)

lemma dbl_mul_wf [cx_wf]: "dbl_wf x \<Longrightarrow> dbl_wf y \<Longrightarrow> dbl_wf (dbl_mul x y)"
  by (cases x; cases y) (auto dest!: dbl_wf_Fin_nonneg)

lemma dbl_div_wf [cx_wf]: "dbl_wf x \<Longrightarrow> dbl_wf y \<Longrightarrow> dbl_wf (dbl_div x y)"
  by (cases x; cases y) (auto dest!: dbl_wf_Fin_nonneg simp: scale_num_def scale_den_def)

end
