(* ===== verification/Cxpr_Lexer.thy ===== *)
theory Cxpr_Lexer
  imports Cxpr_Double
begin

text \<open>
  The tokenizer of \<^verbatim>\<open>src/lexer/lexer.c\<close>. The lexer state is the C struct; the pointer
  \<open>current\<close> is the suffix of the source it points at, and reading at or past the end gives
  the terminating NUL. \<open>cxpr_lexer_advance\<close> at the terminator still counts a position, so
  a read past the end of the buffer would show up as \<open>position > length source\<close>; the
  invariant \<open>lx_ok\<close> excludes it. Each token carries the text its \<open>start\<close> and
  \<open>length\<close> delimit.
\<close>

section \<open>Tokens and state\<close>

datatype cxpr_token_type =
    CXPR_TOK_NUMBER | CXPR_TOK_IDENTIFIER | CXPR_TOK_VARIABLE | CXPR_TOK_TRUE | CXPR_TOK_FALSE
  | CXPR_TOK_STRING
  | CXPR_TOK_PLUS | CXPR_TOK_MINUS | CXPR_TOK_STAR | CXPR_TOK_SLASH | CXPR_TOK_PERCENT
  | CXPR_TOK_POWER
  | CXPR_TOK_ASSIGN | CXPR_TOK_EQ | CXPR_TOK_NEQ | CXPR_TOK_LT | CXPR_TOK_GT | CXPR_TOK_LTE
  | CXPR_TOK_GTE
  | CXPR_TOK_AND | CXPR_TOK_OR | CXPR_TOK_NOT | CXPR_TOK_IN
  | CXPR_TOK_LPAREN | CXPR_TOK_RPAREN | CXPR_TOK_LBRACKET | CXPR_TOK_RBRACKET | CXPR_TOK_LBRACE
  | CXPR_TOK_RBRACE | CXPR_TOK_COMMA | CXPR_TOK_DOT | CXPR_TOK_PIPE | CXPR_TOK_QUESTION
  | CXPR_TOK_COLON
  | CXPR_TOK_EOF | CXPR_TOK_ERROR

record cxpr_token =
  tok_type :: cxpr_token_type
  tok_text :: string
  tok_number_value :: double
  tok_int64_value :: int
  tok_is_int64 :: bool
  tok_position :: nat
  tok_line :: nat
  tok_column :: nat

record cxpr_lexer =
  lx_source :: string
  lx_current :: string
  lx_line :: nat
  lx_column :: nat
  lx_position :: nat

section \<open>Helpers\<close>

definition cxpr_is_ident_start :: "char \<Rightarrow> bool" where
  "cxpr_is_ident_start c \<longleftrightarrow> isalpha c \<or> c = CHR ''_''"

definition cxpr_is_ident_char :: "char \<Rightarrow> bool" where
  "cxpr_is_ident_char c \<longleftrightarrow> isalnum c \<or> c = CHR ''_''"

text \<open>\<open>lexer->current[i]\<close>.\<close>

definition lx_at :: "cxpr_lexer \<Rightarrow> nat \<Rightarrow> char" where
  "lx_at l i = (if i < length (lx_current l) then lx_current l ! i else NUL)"

definition cxpr_lexer_advance :: "cxpr_lexer \<Rightarrow> cxpr_lexer" where
  "cxpr_lexer_advance l =
     (let l' = (if lx_at l 0 = CHR 0x0A then l\<lparr>lx_line := lx_line l + 1, lx_column := 1\<rparr>
                else l\<lparr>lx_column := lx_column l + 1\<rparr>) in
      l'\<lparr>lx_current := tl (lx_current l), lx_position := lx_position l + 1\<rparr>)"

definition cxpr_lexer_peek_next :: "cxpr_lexer \<Rightarrow> char" where
  "cxpr_lexer_peek_next l = (if lx_at l 0 = NUL then NUL else lx_at l 1)"

text \<open>\<open>while (p(*lexer->current)) cxpr_lexer_advance(lexer);\<close> for a condition that fails at
  the terminator.\<close>

function advance_while :: "(char \<Rightarrow> bool) \<Rightarrow> cxpr_lexer \<Rightarrow> cxpr_lexer" where
  "advance_while p l =
     (if lx_current l \<noteq> [] \<and> p (lx_at l 0) then advance_while p (cxpr_lexer_advance l) else l)"
  by pat_completeness auto
termination
  by (relation "measure (\<lambda>(p, l). length (lx_current l))") (auto simp: cxpr_lexer_advance_def Let_def)

definition is_space_char :: "char \<Rightarrow> bool" where
  "is_space_char c \<longleftrightarrow> c \<noteq> NUL \<and> isspace c"

definition not_newline :: "char \<Rightarrow> bool" where
  "not_newline c \<longleftrightarrow> c \<noteq> NUL \<and> c \<noteq> CHR 0x0A"

text \<open>The loop inside a block comment, up to and including the closing \<^verbatim>\<open>*/\<close>.\<close>

function block_comment :: "cxpr_lexer \<Rightarrow> cxpr_lexer" where
  "block_comment l =
     (if lx_current l = [] \<or> lx_at l 0 = NUL then l
      else if lx_at l 0 = CHR ''*'' \<and> lx_at l 1 = CHR ''/''
      then cxpr_lexer_advance (cxpr_lexer_advance l)
      else block_comment (cxpr_lexer_advance l))"
  by pat_completeness auto
termination
  by (relation "measure (\<lambda>l. length (lx_current l))") (auto simp: cxpr_lexer_advance_def Let_def)

declare advance_while.simps [simp del] block_comment.simps [simp del]

lemma advance_current [simp]: "lx_current (cxpr_lexer_advance l) = tl (lx_current l)"
  by (simp add: cxpr_lexer_advance_def Let_def)

lemma advance_source [simp]: "lx_source (cxpr_lexer_advance l) = lx_source l"
  by (simp add: cxpr_lexer_advance_def Let_def)

lemma advance_position [simp]: "lx_position (cxpr_lexer_advance l) = lx_position l + 1"
  by (simp add: cxpr_lexer_advance_def Let_def)

lemma advance_while_length [cx_len]: "length (lx_current (advance_while p l)) \<le> length (lx_current l)"
proof (induction p l rule: advance_while.induct)
  case (1 p l)
  then show ?case by (subst advance_while.simps) auto
qed

lemma block_comment_length [cx_len]: "length (lx_current (block_comment l)) \<le> length (lx_current l)"
proof (induction l rule: block_comment.induct)
  case (1 l)
  then show ?case by (subst block_comment.simps) auto
qed

lemma lx_at_nonempty: "lx_at l i \<noteq> NUL \<Longrightarrow> i < length (lx_current l)"
  by (auto simp: lx_at_def split: if_splits)

lemma lx_at_0: "lx_current l \<noteq> [] \<Longrightarrow> lx_at l 0 = hd (lx_current l)"
  by (simp add: lx_at_def hd_conv_nth)

lemma advance_while_less:
  assumes "lx_at l 0 \<noteq> NUL" "p (lx_at l 0)"
  shows "length (lx_current (advance_while p l)) < length (lx_current l)"
proof -
  have "lx_current l \<noteq> []" using lx_at_nonempty [OF assms(1)] by auto
  then show ?thesis
    using advance_while_length [of p "cxpr_lexer_advance l"] assms
    by (subst advance_while.simps) (auto intro: le_less_trans)
qed

text \<open>\<open>cxpr_lexer_skip_whitespace\<close>: each turn of the outer loop skips blanks and then at most
  one comment.\<close>

function cxpr_lexer_skip_whitespace :: "cxpr_lexer \<Rightarrow> cxpr_lexer" where
  "cxpr_lexer_skip_whitespace l0 =
     (let l = advance_while is_space_char l0 in
      if lx_at l 0 = CHR ''#'' then cxpr_lexer_skip_whitespace (advance_while not_newline l)
      else if lx_at l 0 = CHR ''/'' \<and> lx_at l 1 = CHR ''/''
      then cxpr_lexer_skip_whitespace (advance_while not_newline l)
      else if lx_at l 0 = CHR ''/'' \<and> lx_at l 1 = CHR ''*''
      then cxpr_lexer_skip_whitespace (block_comment (cxpr_lexer_advance (cxpr_lexer_advance l)))
      else l)"
  by pat_completeness auto
termination
proof (relation "measure (\<lambda>l. length (lx_current l))", goal_cases)
  case (2 l0 l)
  then have "length (lx_current (advance_while not_newline l)) < length (lx_current l)"
    by (intro advance_while_less) (auto simp: not_newline_def)
  with 2 advance_while_length [of is_space_char l0] show ?case by simp
next
  case (3 l0 l)
  then have "length (lx_current (advance_while not_newline l)) < length (lx_current l)"
    by (intro advance_while_less) (auto simp: not_newline_def)
  with 3 advance_while_length [of is_space_char l0] show ?case by simp
next
  case (4 l0 l)
  then have "0 < length (lx_current l)" using lx_at_nonempty [of l 0] by simp
  moreover have "length (lx_current (block_comment (cxpr_lexer_advance (cxpr_lexer_advance l)))) \<le> length (lx_current l) - 1"
    using block_comment_length [of "cxpr_lexer_advance (cxpr_lexer_advance l)"] by simp
  ultimately show ?case
    using advance_while_length [of is_space_char l0] unfolding in_measure 4(1) by linarith
qed simp

declare cxpr_lexer_skip_whitespace.simps [simp del]

definition cxpr_make_token :: "cxpr_token_type \<Rightarrow> string \<Rightarrow> nat \<Rightarrow> nat \<Rightarrow> nat \<Rightarrow> nat \<Rightarrow> cxpr_token" where
  "cxpr_make_token ty start len position line column =
     \<lparr>tok_type = ty, tok_text = take len start, tok_number_value = dbl_zero, tok_int64_value = 0,
      tok_is_int64 = False, tok_position = position, tok_line = line, tok_column = column\<rparr>"

definition cxpr_make_error_token :: "string \<Rightarrow> cxpr_lexer \<Rightarrow> cxpr_token" where
  "cxpr_make_error_token message l =
     \<lparr>tok_type = CXPR_TOK_ERROR, tok_text = message, tok_number_value = dbl_zero, tok_int64_value = 0,
      tok_is_int64 = False, tok_position = lx_position l, tok_line = lx_line l, tok_column = lx_column l\<rparr>"

section \<open>Keywords\<close>

definition cxpr_keywords :: "(string \<times> cxpr_token_type) list" where
  "cxpr_keywords =
     [(''and'', CXPR_TOK_AND), (''AND'', CXPR_TOK_AND), (''or'', CXPR_TOK_OR), (''OR'', CXPR_TOK_OR),
      (''not'', CXPR_TOK_NOT), (''NOT'', CXPR_TOK_NOT), (''in'', CXPR_TOK_IN), (''IN'', CXPR_TOK_IN),
      (''true'', CXPR_TOK_TRUE), (''TRUE'', CXPR_TOK_TRUE),
      (''false'', CXPR_TOK_FALSE), (''FALSE'', CXPR_TOK_FALSE),
      (''eq'', CXPR_TOK_EQ), (''EQ'', CXPR_TOK_EQ), (''ne'', CXPR_TOK_NEQ), (''NE'', CXPR_TOK_NEQ),
      (''neq'', CXPR_TOK_NEQ), (''NEQ'', CXPR_TOK_NEQ), (''lt'', CXPR_TOK_LT), (''LT'', CXPR_TOK_LT),
      (''gt'', CXPR_TOK_GT), (''GT'', CXPR_TOK_GT), (''le'', CXPR_TOK_LTE), (''LE'', CXPR_TOK_LTE),
      (''lte'', CXPR_TOK_LTE), (''LTE'', CXPR_TOK_LTE), (''ge'', CXPR_TOK_GTE), (''GE'', CXPR_TOK_GTE),
      (''gte'', CXPR_TOK_GTE), (''GTE'', CXPR_TOK_GTE)]"

fun check_keyword_in :: "(string \<times> cxpr_token_type) list \<Rightarrow> string \<Rightarrow> cxpr_token_type" where
  "check_keyword_in [] text = CXPR_TOK_IDENTIFIER"
| "check_keyword_in ((kw, ty) # kws) text = (if kw = text then ty else check_keyword_in kws text)"

definition cxpr_check_keyword :: "string \<Rightarrow> cxpr_token_type" where
  "cxpr_check_keyword text = check_keyword_in cxpr_keywords text"

section \<open>Numbers\<close>

definition digit_val :: "char \<Rightarrow> int" where
  "digit_val c = int (byte c) - 48"

fun digits_value :: "int \<Rightarrow> string \<Rightarrow> int" where
  "digits_value a [] = a"
| "digits_value a (c # cs) = digits_value (10 * a + digit_val c) cs"

text \<open>\<open>strtod\<close> on text without sign, hexadecimal prefix, infinity or NaN: the longest prefix
  of the form digits, fraction, exponent, correctly rounded; zero when there is none.\<close>

definition strtod_exponent :: "string \<Rightarrow> int" where
  "strtod_exponent s =
     (case s of
        (e # r) \<Rightarrow>
          if e = CHR ''e'' \<or> e = CHR ''E'' then
            (let neg = (r \<noteq> [] \<and> hd r = CHR ''-'');
                 ds = takeWhile isdigit (if r \<noteq> [] \<and> (hd r = CHR ''+'' \<or> hd r = CHR ''-'') then tl r else r) in
             if neg then - digits_value 0 ds else digits_value 0 ds)
          else 0
      | [] \<Rightarrow> 0)"

definition strtod :: "string \<Rightarrow> double" where
  "strtod s =
     (let ip = takeWhile isdigit s;
          r1 = dropWhile isdigit s;
          dot = (r1 \<noteq> [] \<and> hd r1 = CHR ''.'');
          fp = (if dot then takeWhile isdigit (tl r1) else []);
          r2 = (if dot then dropWhile isdigit (tl r1) else r1);
          ex = strtod_exponent r2 - int (length fp);
          n = digits_value 0 (ip @ fp) in
      if ip @ fp = [] then dbl_zero
      else dbl_of_ratio False (n * 10 ^ nat ex) (10 ^ nat (- ex)))"

text \<open>\<open>strtoimax(buf, &end, 10)\<close> on digits: the value, or \<open>None\<close> with \<open>ERANGE\<close>.\<close>

definition strtoimax :: "string \<Rightarrow> int option" where
  "strtoimax s = (let n = digits_value 0 s in if n \<le> INT64_MAX then Some n else None)"

text \<open>The size of the scratch buffer \<open>buf\<close>.\<close>

definition number_buf_size :: nat where "number_buf_size = 64"

definition lex_fraction :: "cxpr_lexer \<Rightarrow> cxpr_lexer \<times> bool" where
  "lex_fraction l =
     (if lx_at l 0 = CHR ''.'' \<and> isdigit (lx_at l 1)
      then (advance_while isdigit (cxpr_lexer_advance l), True) else (l, False))"

text \<open>The exponent: \<open>None\<close> is the error return.\<close>

definition lex_exponent :: "cxpr_lexer \<Rightarrow> (cxpr_lexer \<times> bool) \<times> bool" where
  "lex_exponent l =
     (if lx_at l 0 = CHR ''e'' \<or> lx_at l 0 = CHR ''E'' then
        (let l1 = cxpr_lexer_advance l;
             l2 = (if lx_at l1 0 = CHR ''+'' \<or> lx_at l1 0 = CHR ''-'' then cxpr_lexer_advance l1 else l1) in
         if \<not> isdigit (lx_at l2 0) then ((l2, True), False)
         else ((advance_while isdigit l2, True), True))
      else ((l, False), True))"

text \<open>The suffix \<^verbatim>\<open>i64\<close>, not followed by an identifier character.\<close>

definition at_i64_suffix :: "cxpr_lexer \<Rightarrow> bool" where
  "at_i64_suffix l \<longleftrightarrow> lx_at l 0 = CHR ''i'' \<and> lx_at l 1 = CHR ''6'' \<and> lx_at l 2 = CHR ''4'' \<and>
     \<not> isalnum (lx_at l 3) \<and> lx_at l 3 \<noteq> CHR ''_''"

definition cxpr_lexer_number :: "cxpr_lexer \<Rightarrow> cxpr_token \<times> cxpr_lexer" where
  "cxpr_lexer_number l =
     (let l1 = advance_while isdigit l;
          (l2, frac) = lex_fraction l1;
          ((l3, expo), ok) = lex_exponent l2;
          integer_syntax = (\<not> frac \<and> \<not> expo);
          len = lx_position l3 - lx_position l in
      if \<not> ok then (cxpr_make_error_token ''Invalid scientific notation'' l3, l3)
      else
        let suffix = (integer_syntax \<and> at_i64_suffix l3);
            l4 = (if suffix then cxpr_lexer_advance (cxpr_lexer_advance (cxpr_lexer_advance l3)) else l3);
            tok = cxpr_make_token CXPR_TOK_NUMBER (lx_current l) (lx_position l4 - lx_position l)
                    (lx_position l) (lx_line l) (lx_column l) in
        if suffix then
          (if number_buf_size \<le> len then (cxpr_make_error_token ''int64 literal is too long'' l4, l4)
           else case strtoimax (take len (lx_current l)) of
               None \<Rightarrow> (cxpr_make_error_token ''int64 literal is out of range'' l4, l4)
             | Some i \<Rightarrow> (tok\<lparr>tok_int64_value := i, tok_is_int64 := True\<rparr>, l4))
        else
          (let len' = length (tok_text tok);
               len'' = (if number_buf_size \<le> len' then number_buf_size - 1 else len') in
           (tok\<lparr>tok_number_value := strtod (take len'' (lx_current l))\<rparr>, l4)))"

section \<open>Identifiers, variables, strings\<close>

definition cxpr_lexer_identifier :: "cxpr_lexer \<Rightarrow> cxpr_token \<times> cxpr_lexer" where
  "cxpr_lexer_identifier l =
     (let l1 = advance_while cxpr_is_ident_char l;
          len = lx_position l1 - lx_position l;
          text = take len (lx_current l) in
      if text \<in> {''null'', ''NULL'', ''Null''}
      then ((cxpr_make_token CXPR_TOK_NUMBER (lx_current l) len (lx_position l) (lx_line l) (lx_column l))
              \<lparr>tok_number_value := DNaN\<rparr>, l1)
      else (cxpr_make_token (cxpr_check_keyword text) (lx_current l) len (lx_position l) (lx_line l)
              (lx_column l), l1))"

text \<open>The loop over the dotted segments of \<^verbatim>\<open>$group.name\<close>; \<open>False\<close> is the error return.\<close>

function variable_path :: "cxpr_lexer \<Rightarrow> cxpr_lexer \<times> bool" where
  "variable_path l =
     (if lx_current l \<noteq> [] \<and> lx_at l 0 = CHR ''.'' then
        (if \<not> cxpr_is_ident_start (cxpr_lexer_peek_next l) then (l, False)
         else variable_path (advance_while cxpr_is_ident_char (cxpr_lexer_advance l)))
      else (l, True))"
  by pat_completeness auto
termination
proof (relation "measure (\<lambda>l. length (lx_current l))", goal_cases)
  case (2 l)
  then have "length (tl (lx_current l)) < length (lx_current l)" by simp
  then show ?case
    using advance_while_length [of cxpr_is_ident_char "cxpr_lexer_advance l"] by simp
qed simp

declare variable_path.simps [simp del]

definition cxpr_lexer_variable :: "cxpr_lexer \<Rightarrow> cxpr_token \<times> cxpr_lexer" where
  "cxpr_lexer_variable l =
     (let l1 = cxpr_lexer_advance l in
      if \<not> cxpr_is_ident_start (lx_at l1 0)
      then (cxpr_make_error_token (''Expected identifier after '' @ [CHR 0x27, CHR ''$'', CHR 0x27]) l1, l1)
      else let (l3, ok) = variable_path (advance_while cxpr_is_ident_char l1) in
        if \<not> ok then (cxpr_make_error_token
                           (''Expected identifier after '' @ [CHR 0x27, CHR ''.'', CHR 0x27] @ '' in variable'') l3, l3)
        else (cxpr_make_token CXPR_TOK_VARIABLE (lx_current l1) (lx_position l3 - lx_position l1)
                (lx_position l) (lx_line l) (lx_column l), l3))"

text \<open>The loop over the characters of a string literal.\<close>

function string_body :: "char \<Rightarrow> cxpr_lexer \<Rightarrow> cxpr_lexer" where
  "string_body quote l =
     (if lx_current l \<noteq> [] \<and> lx_at l 0 \<noteq> NUL \<and> lx_at l 0 \<noteq> quote then
        string_body quote
          (cxpr_lexer_advance
            (if lx_at l 0 = CHR 0x5C \<and> lx_at l 1 \<noteq> NUL then cxpr_lexer_advance l else l))
      else l)"
  by pat_completeness auto
termination
  by (relation "measure (\<lambda>(q, l). length (lx_current l))") (auto intro: diff_less)

declare string_body.simps [simp del]

definition cxpr_lexer_string :: "cxpr_lexer \<Rightarrow> cxpr_token \<times> cxpr_lexer" where
  "cxpr_lexer_string l =
     (let quote = lx_at l 0;
          l1 = cxpr_lexer_advance l;
          l2 = string_body quote l1 in
      if lx_at l2 0 \<noteq> quote then (cxpr_make_error_token ''Unterminated string literal'' l2, l2)
      else (cxpr_make_token CXPR_TOK_STRING (lx_current l1) (lx_position l2 - lx_position l1)
              (lx_position l) (lx_line l) (lx_column l), cxpr_lexer_advance l2))"

section \<open>The public operations\<close>

definition cxpr_lexer_init :: "string \<Rightarrow> cxpr_lexer" where
  "cxpr_lexer_init source =
     \<lparr>lx_source = source, lx_current = source, lx_line = 1, lx_column = 1, lx_position = 0\<rparr>"

text \<open>The operator \<open>switch\<close>: the token type and whether a second character belongs to it;
  \<open>None\<close> where the \<open>switch\<close> breaks out to the error return.\<close>

definition operator_token :: "char \<Rightarrow> char \<Rightarrow> (cxpr_token_type \<times> bool) option" where
  "operator_token c d =
     (if c = CHR ''+'' then Some (CXPR_TOK_PLUS, False)
      else if c = CHR ''-'' then Some (CXPR_TOK_MINUS, False)
      else if c = CHR ''*'' then (if d = CHR ''*'' then Some (CXPR_TOK_POWER, True) else Some (CXPR_TOK_STAR, False))
      else if c = CHR ''/'' then Some (CXPR_TOK_SLASH, False)
      else if c = CHR ''%'' then Some (CXPR_TOK_PERCENT, False)
      else if c = CHR ''^'' then Some (CXPR_TOK_POWER, False)
      else if c = CHR ''('' then Some (CXPR_TOK_LPAREN, False)
      else if c = CHR '')'' then Some (CXPR_TOK_RPAREN, False)
      else if c = CHR ''['' then Some (CXPR_TOK_LBRACKET, False)
      else if c = CHR '']'' then Some (CXPR_TOK_RBRACKET, False)
      else if c = CHR ''{'' then Some (CXPR_TOK_LBRACE, False)
      else if c = CHR ''}'' then Some (CXPR_TOK_RBRACE, False)
      else if c = CHR '','' then Some (CXPR_TOK_COMMA, False)
      else if c = CHR ''.'' then Some (CXPR_TOK_DOT, False)
      else if c = CHR '':'' then Some (CXPR_TOK_COLON, False)
      else if c = CHR ''?'' then Some (CXPR_TOK_QUESTION, False)
      else if c = CHR ''!'' then (if d = CHR ''='' then Some (CXPR_TOK_NEQ, True) else Some (CXPR_TOK_NOT, False))
      else if c = CHR ''='' then (if d = CHR ''='' then Some (CXPR_TOK_EQ, True) else Some (CXPR_TOK_ASSIGN, False))
      else if c = CHR ''<'' then (if d = CHR ''='' then Some (CXPR_TOK_LTE, True) else Some (CXPR_TOK_LT, False))
      else if c = CHR ''>'' then (if d = CHR ''='' then Some (CXPR_TOK_GTE, True) else Some (CXPR_TOK_GT, False))
      else if c = CHR ''&'' then (if d = CHR ''&'' then Some (CXPR_TOK_AND, True) else None)
      else if c = CHR ''|'' then
        (if d = CHR ''|'' then Some (CXPR_TOK_OR, True)
         else if d = CHR ''>'' then Some (CXPR_TOK_PIPE, True) else None)
      else None)"

definition cxpr_lexer_next :: "cxpr_lexer \<Rightarrow> cxpr_token \<times> cxpr_lexer" where
  "cxpr_lexer_next l0 =
     (let l = cxpr_lexer_skip_whitespace l0; c = lx_at l 0 in
      if c = NUL then (cxpr_make_token CXPR_TOK_EOF (lx_current l) 0 (lx_position l) (lx_line l) (lx_column l), l)
      else if isdigit c \<or> (c = CHR ''.'' \<and> isdigit (cxpr_lexer_peek_next l)) then cxpr_lexer_number l
      else if cxpr_is_ident_start c then cxpr_lexer_identifier l
      else if c = CHR ''$'' then cxpr_lexer_variable l
      else if c = CHR 0x22 \<or> c = CHR 0x27 then cxpr_lexer_string l
      else let l1 = cxpr_lexer_advance l in
        case operator_token c (lx_at l1 0) of
          Some (ty, True) \<Rightarrow>
            (cxpr_make_token ty (lx_current l) 2 (lx_position l) (lx_line l) (lx_column l), cxpr_lexer_advance l1)
        | Some (ty, False) \<Rightarrow>
            (cxpr_make_token ty (lx_current l) 1 (lx_position l) (lx_line l) (lx_column l), l1)
        | None \<Rightarrow> (cxpr_make_error_token ''Unexpected character'' l1, l1))"

definition cxpr_lexer_peek :: "cxpr_lexer \<Rightarrow> cxpr_token" where
  "cxpr_lexer_peek l = fst (cxpr_lexer_next l)"

section \<open>Invariant\<close>

text \<open>Line and column of an offset, counted over the characters before it.\<close>

definition line_at :: "string \<Rightarrow> nat \<Rightarrow> nat" where
  "line_at src p = Suc (count_list (take p src) (CHR 0x0A))"

definition column_at :: "string \<Rightarrow> nat \<Rightarrow> nat" where
  "column_at src p = Suc (length (takeWhile (\<lambda>c. c \<noteq> CHR 0x0A) (rev (take p src))))"

definition lx_ok :: "cxpr_lexer \<Rightarrow> bool" where
  "lx_ok l \<longleftrightarrow> NUL \<notin> set (lx_source l) \<and> lx_position l \<le> length (lx_source l) \<and>
     lx_current l = drop (lx_position l) (lx_source l) \<and>
     lx_line l = line_at (lx_source l) (lx_position l) \<and>
     lx_column l = column_at (lx_source l) (lx_position l)"

text \<open>\<open>l'\<close> is a later state of the same run.\<close>

definition lx_le :: "cxpr_lexer \<Rightarrow> cxpr_lexer \<Rightarrow> bool" where
  "lx_le l l' \<longleftrightarrow> lx_ok l' \<and> lx_source l' = lx_source l \<and> lx_position l \<le> lx_position l'"

lemma lx_le_refl: "lx_ok l \<Longrightarrow> lx_le l l"
  by (simp add: lx_le_def)

lemma lx_le_trans: "lx_le a b \<Longrightarrow> lx_le b c \<Longrightarrow> lx_le a c"
  by (auto simp: lx_le_def)

lemma lx_le_ok: "lx_le a b \<Longrightarrow> lx_ok b"
  by (simp add: lx_le_def)

lemma init_ok [cx_wf]: "NUL \<notin> set src \<Longrightarrow> lx_ok (cxpr_lexer_init src)"
  by (simp add: lx_ok_def cxpr_lexer_init_def line_at_def column_at_def)

lemma lx_ok_nonempty: "lx_ok l \<Longrightarrow> lx_current l \<noteq> [] \<longleftrightarrow> lx_at l 0 \<noteq> NUL"
proof
  assume ok: "lx_ok l" and ne: "lx_current l \<noteq> []"
  then have "hd (lx_current l) \<in> set (lx_source l)"
    by (metis hd_in_set in_set_dropD lx_ok_def)
  with ok ne show "lx_at l 0 \<noteq> NUL" by (auto simp: lx_at_0 lx_ok_def)
qed (auto simp: lx_at_def)

lemma lx_ok_at_end: "lx_ok l \<Longrightarrow> lx_at l 0 = NUL \<Longrightarrow> lx_position l = length (lx_source l)"
  using lx_ok_nonempty by (fastforce simp: lx_ok_def)

lemma advance_le:
  assumes ok: "lx_ok l" and ne: "lx_at l 0 \<noteq> NUL"
  shows "lx_le l (cxpr_lexer_advance l)" "lx_position l < lx_position (cxpr_lexer_advance l)"
proof -
  let ?p = "lx_position l" and ?s = "lx_source l"
  have cur: "lx_current l = drop ?p ?s" using ok by (simp add: lx_ok_def)
  moreover have "lx_current l \<noteq> []" using lx_ok_nonempty [OF ok] ne by simp
  ultimately have p: "?p < length ?s" by auto
  have c: "lx_at l 0 = ?s ! ?p" using cur p by (simp add: lx_at_def)
  have tk: "take (Suc ?p) ?s = take ?p ?s @ [?s ! ?p]" using p by (rule take_Suc_conv_app_nth)
  show "lx_le l (cxpr_lexer_advance l)"
    using ok p cur c tk
    by (auto simp: lx_le_def lx_ok_def cxpr_lexer_advance_def Let_def line_at_def column_at_def drop_Suc
        tl_drop)
  show "lx_position l < lx_position (cxpr_lexer_advance l)" by simp
qed

lemma advance_while_le:
  assumes "lx_ok l"
  shows "lx_le l (advance_while p l)"
  using assms
proof (induction p l rule: advance_while.induct)
  case (1 p l)
  show ?case
  proof (cases "lx_current l \<noteq> [] \<and> p (lx_at l 0)")
    case True
    with 1 have "lx_le l (cxpr_lexer_advance l)" using advance_le lx_ok_nonempty by blast
    with 1 True show ?thesis
      using lx_le_trans lx_le_ok by (subst advance_while.simps) auto
  next
    case False
    with 1 show ?thesis by (subst advance_while.simps) (auto simp: lx_le_refl)
  qed
qed

lemma advance_while_lt:
  assumes "lx_ok l" "lx_at l 0 \<noteq> NUL" "p (lx_at l 0)"
  shows "lx_position l < lx_position (advance_while p l)"
proof -
  have "lx_current l \<noteq> []" using assms lx_ok_nonempty by blast
  then have "advance_while p l = advance_while p (cxpr_lexer_advance l)"
    using assms by (subst advance_while.simps) simp
  moreover have "lx_le (cxpr_lexer_advance l) (advance_while p (cxpr_lexer_advance l))"
    using advance_le [OF assms(1,2)] advance_while_le lx_le_ok by blast
  ultimately show ?thesis by (simp add: lx_le_def)
qed

lemma advance_while_stop:
  "lx_current (advance_while p l) \<noteq> [] \<Longrightarrow> \<not> p (lx_at (advance_while p l) 0)"
proof (induction p l rule: advance_while.induct)
  case (1 p l)
  then show ?case
    by (cases "lx_current l \<noteq> [] \<and> p (lx_at l 0)") (auto simp: advance_while.simps [of p l])
qed

lemma block_comment_le: "lx_ok l \<Longrightarrow> lx_le l (block_comment l)"
proof (induction l rule: block_comment.induct)
  case (1 l)
  show ?case
  proof (cases "lx_current l = [] \<or> lx_at l 0 = NUL")
    case True
    with 1 show ?thesis by (subst block_comment.simps) (auto simp: lx_le_refl)
  next
    case False
    then have adv: "lx_le l (cxpr_lexer_advance l)" using advance_le 1 by blast
    show ?thesis
    proof (cases "lx_at l 0 = CHR ''*'' \<and> lx_at l 1 = CHR ''/''")
      case True
      then have "lx_at (cxpr_lexer_advance l) 0 \<noteq> NUL"
        using lx_at_nonempty [of l 1] by (auto simp: lx_at_def nth_tl split: if_splits)
      with adv have "lx_le (cxpr_lexer_advance l) (cxpr_lexer_advance (cxpr_lexer_advance l))"
        using advance_le lx_le_ok by blast
      with adv True False show ?thesis
        using lx_le_trans by (subst block_comment.simps) auto
    next
      case no: False
      with 1 False adv show ?thesis
        using lx_le_trans lx_le_ok by (subst block_comment.simps) auto
    qed
  qed
qed

lemma lx_at_advance: "lx_at (cxpr_lexer_advance l) i = lx_at l (Suc i)"
  by (auto simp: lx_at_def nth_tl)

lemma skip_whitespace_le: "lx_ok l \<Longrightarrow> lx_le l (cxpr_lexer_skip_whitespace l)"
proof (induction l rule: cxpr_lexer_skip_whitespace.induct)
  case (1 l0)
  define l where "l = advance_while is_space_char l0"
  have l: "lx_le l0 l" using advance_while_le 1 by (simp add: l_def)
  then have ok: "lx_ok l" by (rule lx_le_ok)
  consider (hash) "lx_at l 0 = CHR ''#''" | (line) "lx_at l 0 = CHR ''/''" "lx_at l 1 = CHR ''/''"
    | (block) "lx_at l 0 = CHR ''/''" "lx_at l 1 = CHR ''*''"
    | (none) "cxpr_lexer_skip_whitespace l0 = l"
    using cxpr_lexer_skip_whitespace.simps [of l0, folded l_def] by (auto simp: Let_def split: if_splits)
  then show ?case
  proof cases
    case hash
    have "lx_le (advance_while not_newline l) (cxpr_lexer_skip_whitespace (advance_while not_newline l))"
      by (rule "1.IH"(1) [OF l_def hash lx_le_ok [OF advance_while_le [OF ok]]])
    moreover have "cxpr_lexer_skip_whitespace l0 = cxpr_lexer_skip_whitespace (advance_while not_newline l)"
      using hash cxpr_lexer_skip_whitespace.simps [of l0, folded l_def] by (simp add: Let_def)
    ultimately show ?thesis
      using lx_le_trans [OF lx_le_trans [OF l advance_while_le [OF ok]]] by metis
  next
    case line
    then have "lx_le (advance_while not_newline l) (cxpr_lexer_skip_whitespace (advance_while not_newline l))"
      by (intro "1.IH"(2) [OF l_def] lx_le_ok [OF advance_while_le [OF ok]]) simp_all
    moreover have "cxpr_lexer_skip_whitespace l0 = cxpr_lexer_skip_whitespace (advance_while not_newline l)"
      using line cxpr_lexer_skip_whitespace.simps [of l0, folded l_def] by (simp add: Let_def)
    ultimately show ?thesis
      using lx_le_trans [OF lx_le_trans [OF l advance_while_le [OF ok]]] by metis
  next
    case block
    let ?a = "cxpr_lexer_advance (cxpr_lexer_advance l)"
    have a1: "lx_le l (cxpr_lexer_advance l)" using advance_le ok block by simp
    have "lx_at (cxpr_lexer_advance l) 0 \<noteq> NUL" using block by (simp add: lx_at_advance)
    then have a2: "lx_le (cxpr_lexer_advance l) ?a" by (rule advance_le(1) [OF lx_le_ok [OF a1]])
    have a3: "lx_le l (block_comment ?a)"
      by (rule lx_le_trans [OF a1 lx_le_trans [OF a2 block_comment_le [OF lx_le_ok [OF a2]]]])
    then have "lx_le (block_comment ?a) (cxpr_lexer_skip_whitespace (block_comment ?a))"
      using block by (intro "1.IH"(3) [OF l_def]) (auto intro: lx_le_ok)
    moreover have "cxpr_lexer_skip_whitespace l0 = cxpr_lexer_skip_whitespace (block_comment ?a)"
      using block cxpr_lexer_skip_whitespace.simps [of l0, folded l_def] by (simp add: Let_def)
    ultimately show ?thesis using lx_le_trans [OF lx_le_trans [OF l a3]] by metis
  next
    case none
    with l show ?thesis by simp
  qed
qed

lemma variable_path_le: "lx_ok l \<Longrightarrow> lx_le l (fst (variable_path l))"
proof (induction l rule: variable_path.induct)
  case (1 l)
  show ?case
  proof (cases "lx_current l \<noteq> [] \<and> lx_at l 0 = CHR ''.'' \<and> cxpr_is_ident_start (cxpr_lexer_peek_next l)")
    case True
    then have "lx_le l (cxpr_lexer_advance l)" using advance_le 1 by simp
    then have a: "lx_le l (advance_while cxpr_is_ident_char (cxpr_lexer_advance l))"
      using advance_while_le lx_le_ok lx_le_trans by blast
    with 1 True have "lx_le (advance_while cxpr_is_ident_char (cxpr_lexer_advance l))
        (fst (variable_path (advance_while cxpr_is_ident_char (cxpr_lexer_advance l))))"
      using lx_le_ok by blast
    with a True show ?thesis using lx_le_trans by (subst variable_path.simps) auto
  next
    case False
    with 1 show ?thesis by (subst variable_path.simps) (auto simp: lx_le_refl)
  qed
qed

lemma string_body_le: "lx_ok l \<Longrightarrow> lx_le l (string_body q l)"
proof (induction q l rule: string_body.induct)
  case (1 q l)
  show ?case
  proof (cases "lx_current l \<noteq> [] \<and> lx_at l 0 \<noteq> NUL \<and> lx_at l 0 \<noteq> q")
    case True
    define m where "m = (if lx_at l 0 = CHR 0x5C \<and> lx_at l 1 \<noteq> NUL then cxpr_lexer_advance l else l)"
    have m: "lx_le l m" using advance_le(1) [OF "1.prems"] lx_le_refl [OF "1.prems"] True by (simp add: m_def)
    have "lx_at m 0 \<noteq> NUL" using True by (auto simp: m_def lx_at_advance)
    then have step: "lx_le l (cxpr_lexer_advance m)"
      using lx_le_trans [OF m advance_le(1) [OF lx_le_ok [OF m]]] by simp
    have "lx_le (cxpr_lexer_advance m) (string_body q (cxpr_lexer_advance m))"
      using "1.IH" [OF True, folded m_def] lx_le_ok [OF step] by simp
    moreover have "string_body q l = string_body q (cxpr_lexer_advance m)"
      using True string_body.simps [of q l, folded m_def] by simp
    ultimately show ?thesis using lx_le_trans [OF step] by metis
  next
    case False
    with 1 show ?thesis by (subst string_body.simps) (auto simp: lx_le_refl)
  qed
qed

section \<open>One call of the lexer\<close>

text \<open>
  What a token must satisfy when the lexer moved from \<open>l\<close> (after blanks) to \<open>l'\<close>: it
  starts where \<open>l\<close> stood, and the characters consumed are its text, with the dollar sign of a
  variable and the quotes of a string put back. An error token points at \<open>l'\<close>.
\<close>

definition raw_text :: "cxpr_lexer \<Rightarrow> cxpr_token \<Rightarrow> string" where
  "raw_text l t =
     (if tok_type t = CXPR_TOK_VARIABLE then CHR ''$'' # tok_text t
      else if tok_type t = CXPR_TOK_STRING then lx_at l 0 # tok_text t @ [lx_at l 0]
      else tok_text t)"

definition token_ok :: "cxpr_lexer \<Rightarrow> cxpr_token \<Rightarrow> cxpr_lexer \<Rightarrow> bool" where
  "token_ok l t l' \<longleftrightarrow>
     (if tok_type t = CXPR_TOK_ERROR
      then tok_position t = lx_position l' \<and> tok_line t = lx_line l' \<and> tok_column t = lx_column l'
      else tok_position t = lx_position l \<and> tok_line t = lx_line l \<and> tok_column t = lx_column l \<and>
        raw_text l t = take (lx_position l' - lx_position l) (lx_current l))"

lemma token_ok_error [simp]: "token_ok l (cxpr_make_error_token msg l') l'"
  by (simp add: token_ok_def cxpr_make_error_token_def)

lemma tok_type_simps [simp]:
  "tok_type (cxpr_make_error_token msg l) = CXPR_TOK_ERROR"
  "tok_type (cxpr_make_token ty st n p ln col) = ty"
  by (simp_all add: cxpr_make_error_token_def cxpr_make_token_def)

lemma token_ok_make:
  assumes "ty \<notin> {CXPR_TOK_ERROR, CXPR_TOK_VARIABLE, CXPR_TOK_STRING}"
    and "tok_type t = ty" "tok_text t = take (lx_position l' - lx_position l) (lx_current l)"
    and "tok_position t = lx_position l" "tok_line t = lx_line l" "tok_column t = lx_column l"
  shows "token_ok l t l'"
  using assms by (simp add: token_ok_def raw_text_def)

lemmas token_fields = cxpr_make_token_def cxpr_make_error_token_def

lemma lex_fraction_le: "lx_ok l \<Longrightarrow> lx_le l (fst (lex_fraction l))"
proof -
  assume ok: "lx_ok l"
  show ?thesis
  proof (cases "lx_at l 0 = CHR ''.'' \<and> isdigit (lx_at l 1)")
    case True
    then have a: "lx_le l (cxpr_lexer_advance l)" using advance_le(1) [OF ok] by simp
    show ?thesis
      using True lx_le_trans [OF a advance_while_le [OF lx_le_ok [OF a]]] by (simp add: lex_fraction_def)
  qed (auto simp: lex_fraction_def lx_le_refl ok)
qed

lemma isdigit_NUL [simp]: "\<not> isdigit NUL"
  by (simp add: isdigit_def)

lemma ident_NUL [simp]: "\<not> cxpr_is_ident_start NUL" "\<not> cxpr_is_ident_char NUL"
  by (simp_all add: cxpr_is_ident_start_def cxpr_is_ident_char_def ctype_defs)

lemma isdigit_not_NUL: "isdigit c \<Longrightarrow> c \<noteq> NUL"
  by (auto simp: isdigit_def)

lemma lex_exponent_le: "lx_ok l \<Longrightarrow> lx_le l (fst (fst (lex_exponent l)))"
proof -
  assume ok: "lx_ok l"
  show ?thesis
  proof (cases "lx_at l 0 = CHR ''e'' \<or> lx_at l 0 = CHR ''E''")
    case True
    define l1 where "l1 = cxpr_lexer_advance l"
    define l2 where "l2 = (if lx_at l1 0 = CHR ''+'' \<or> lx_at l1 0 = CHR ''-'' then cxpr_lexer_advance l1 else l1)"
    have l1: "lx_le l l1" using True advance_le(1) [OF ok] by (auto simp: l1_def)
    then have "lx_le l1 l2"
      using advance_le(1) [of l1] lx_le_ok lx_le_refl by (auto simp: l2_def)
    then have l2: "lx_le l l2" using lx_le_trans l1 by blast
    have "fst (fst (lex_exponent l)) = (if isdigit (lx_at l2 0) then advance_while isdigit l2 else l2)"
      using True by (auto simp: lex_exponent_def l1_def l2_def Let_def)
    with lx_le_trans [OF l2 advance_while_le [OF lx_le_ok [OF l2]]] l2 show ?thesis by simp
  qed (simp add: lex_exponent_def lx_le_refl ok)
qed

lemma suffix_le:
  assumes "lx_ok l" "at_i64_suffix l"
  shows "lx_le l (cxpr_lexer_advance (cxpr_lexer_advance (cxpr_lexer_advance l)))"
proof -
  let ?a = "cxpr_lexer_advance l"
  have at: "lx_at l 0 \<noteq> NUL" "lx_at ?a 0 \<noteq> NUL" "lx_at (cxpr_lexer_advance ?a) 0 \<noteq> NUL"
    using assms(2) by (auto simp: at_i64_suffix_def lx_at_advance numeral_2_eq_2)
  have a: "lx_le l ?a" by (rule advance_le(1) [OF assms(1) at(1)])
  have b: "lx_le l (cxpr_lexer_advance ?a)"
    by (rule lx_le_trans [OF a advance_le(1) [OF lx_le_ok [OF a] at(2)]])
  show ?thesis by (rule lx_le_trans [OF b advance_le(1) [OF lx_le_ok [OF b] at(3)]])
qed

lemma lexer_number_ok:
  assumes ok: "lx_ok l" and start: "isdigit (lx_at l 0) \<or> lx_at l 0 = CHR ''.'' \<and> isdigit (lx_at l 1)"
    and eq: "cxpr_lexer_number l = (t, l')"
  shows "lx_le l l' \<and> lx_position l < lx_position l' \<and> tok_type t \<in> {CXPR_TOK_NUMBER, CXPR_TOK_ERROR} \<and>
    token_ok l t l'"
proof -
  define l1 where "l1 = advance_while isdigit l"
  define l2 where "l2 = fst (lex_fraction l1)"
  define l3 where "l3 = fst (fst (lex_exponent l2))"
  have l1: "lx_le l l1" using advance_while_le [OF ok] by (simp add: l1_def)
  have l2: "lx_le l1 l2" using lex_fraction_le lx_le_ok [OF l1] by (simp add: l2_def)
  have l3: "lx_le l2 l3" using lex_exponent_le lx_le_ok [OF l2] by (simp add: l3_def)
  have "lx_position l < lx_position l2"
  proof (cases "isdigit (lx_at l 0)")
    case True
    then have "lx_position l < lx_position l1"
      using advance_while_lt [OF ok] isdigit_not_NUL by (simp add: l1_def)
    with l2 show ?thesis by (simp add: lx_le_def)
  next
    case False
    then have "l1 = l" by (simp add: l1_def advance_while.simps [of isdigit l])
    moreover have "lx_le l (cxpr_lexer_advance l)" using start False by (intro advance_le(1) ok) auto
    then have "lx_le (cxpr_lexer_advance l) (advance_while isdigit (cxpr_lexer_advance l))"
      by (intro advance_while_le lx_le_ok)
    ultimately show ?thesis using start False by (simp add: l2_def lex_fraction_def lx_le_def)
  qed
  then have pos: "lx_position l < lx_position l3" using l3 by (simp add: lx_le_def)
  have le3: "lx_le l l3" by (rule lx_le_trans [OF l1 lx_le_trans [OF l2 l3]])
  obtain fr where fr: "lex_fraction l1 = (l2, fr)" by (metis l2_def prod.collapse)
  obtain ex good where ex: "lex_exponent l2 = ((l3, ex), good)" by (metis l3_def prod.collapse)
  define suffix where "suffix = ((\<not> fr \<and> \<not> ex) \<and> at_i64_suffix l3)"
  define l4 where "l4 = (if suffix then cxpr_lexer_advance (cxpr_lexer_advance (cxpr_lexer_advance l3)) else l3)"
  have le4: "lx_le l l4" "lx_position l < lx_position l4"
    using le3 pos lx_le_trans [OF le3 suffix_le [OF lx_le_ok [OF le3]]] by (auto simp: l4_def suffix_def)
  define tok where "tok = cxpr_make_token CXPR_TOK_NUMBER (lx_current l) (lx_position l4 - lx_position l)
      (lx_position l) (lx_line l) (lx_column l)"
  define upd where "upd n i b = tok\<lparr>tok_number_value := n, tok_int64_value := i, tok_is_int64 := b\<rparr>" for n i b
  have keep: "tok\<lparr>tok_number_value := n\<rparr> = upd n 0 False"
      "tok\<lparr>tok_int64_value := i, tok_is_int64 := True\<rparr> = upd dbl_zero i True" for n i
    by (simp_all add: upd_def tok_def cxpr_make_token_def)
  have shape: "(\<exists>msg. t = cxpr_make_error_token msg l' \<and> l' \<in> {l3, l4}) \<or> (\<exists>n i b. l' = l4 \<and> t = upd n i b)"
  proof (cases good)
    case False
    with eq show ?thesis
      by (auto simp: cxpr_lexer_number_def l1_def [symmetric] fr ex simp del: list.simps)
  next
    case True
    with eq keep show ?thesis
      unfolding cxpr_lexer_number_def l1_def [symmetric] Let_def fr ex prod.case
        suffix_def [symmetric] l4_def [symmetric] tok_def [symmetric]
      by (auto split: if_splits option.splits simp del: list.simps) blast+
  qed
  from shape show ?thesis
  proof (elim disjE exE conjE)
    fix msg assume "t = cxpr_make_error_token msg l'" "l' \<in> {l3, l4}"
    then show ?thesis using le3 pos le4 by auto
  next
    fix n i b assume l': "l' = l4" and t: "t = upd n i b"
    have f: "tok_type t = CXPR_TOK_NUMBER" "tok_text t = take (lx_position l4 - lx_position l) (lx_current l)"
        "tok_position t = lx_position l" "tok_line t = lx_line l" "tok_column t = lx_column l"
      by (simp_all add: t upd_def tok_def cxpr_make_token_def)
    have "token_ok l t l4" by (rule token_ok_make [OF _ f]) simp
    with l' f(1) le4 show ?thesis by simp
  qed
qed

lemma check_keyword_range:
  "cxpr_check_keyword text \<in>
     {CXPR_TOK_IDENTIFIER, CXPR_TOK_AND, CXPR_TOK_OR, CXPR_TOK_NOT, CXPR_TOK_IN, CXPR_TOK_TRUE,
      CXPR_TOK_FALSE, CXPR_TOK_EQ, CXPR_TOK_NEQ, CXPR_TOK_LT, CXPR_TOK_GT, CXPR_TOK_LTE, CXPR_TOK_GTE}"
  by (simp add: cxpr_check_keyword_def cxpr_keywords_def)

lemma lexer_identifier_ok:
  assumes ok: "lx_ok l" and start: "cxpr_is_ident_start (lx_at l 0)"
    and eq: "cxpr_lexer_identifier l = (t, l')"
  shows "lx_le l l' \<and> lx_position l < lx_position l' \<and> tok_type t \<noteq> CXPR_TOK_EOF \<and> token_ok l t l'"
proof -
  have "lx_at l 0 \<noteq> NUL" "cxpr_is_ident_char (lx_at l 0)"
    using start ident_NUL(1) by (metis, auto simp: cxpr_is_ident_char_def cxpr_is_ident_start_def isalnum_def)
  then have pos: "lx_position l < lx_position (advance_while cxpr_is_ident_char l)"
    by (rule advance_while_lt [OF ok])
  define ty where "ty = cxpr_check_keyword (take (lx_position l' - lx_position l) (lx_current l))"
  have "ty \<notin> {CXPR_TOK_ERROR, CXPR_TOK_VARIABLE, CXPR_TOK_STRING, CXPR_TOK_EOF}"
    using check_keyword_range [of "take (lx_position l' - lx_position l) (lx_current l)"]
    unfolding ty_def [symmetric] by auto
  moreover have "l' = advance_while cxpr_is_ident_char l"
    using eq by (auto simp: cxpr_lexer_identifier_def Let_def split: if_splits)
  moreover have "tok_type t \<in> {CXPR_TOK_NUMBER, ty}"
      "tok_text t = take (lx_position l' - lx_position l) (lx_current l)"
      "tok_position t = lx_position l" "tok_line t = lx_line l" "tok_column t = lx_column l"
    using eq by (auto simp: cxpr_lexer_identifier_def Let_def cxpr_make_token_def ty_def split: if_splits)
  ultimately show ?thesis
    using pos advance_while_le [OF ok, of cxpr_is_ident_char] by (auto simp: token_ok_def raw_text_def)
qed

lemma take_Cons_advance:
  assumes "lx_at l 0 \<noteq> NUL" "lx_position l < p"
  shows "take (p - lx_position l) (lx_current l) =
    lx_at l 0 # take (p - lx_position (cxpr_lexer_advance l)) (lx_current (cxpr_lexer_advance l))"
proof -
  obtain c cs where c: "lx_current l = c # cs" using lx_at_nonempty [OF assms(1)] by (cases "lx_current l") auto
  have "p - lx_position l = Suc (p - (lx_position l + 1))" using assms(2) by simp
  then show ?thesis using c by (simp add: lx_at_def)
qed

lemma lexer_variable_ok:
  assumes ok: "lx_ok l" and start: "lx_at l 0 = CHR ''$''" and eq: "cxpr_lexer_variable l = (t, l')"
  shows "lx_le l l' \<and> lx_position l < lx_position l' \<and> tok_type t \<noteq> CXPR_TOK_EOF \<and> token_ok l t l'"
proof -
  define l1 where "l1 = cxpr_lexer_advance l"
  define l2 where "l2 = advance_while cxpr_is_ident_char l1"
  define l3 where "l3 = fst (variable_path l2)"
  have l1: "lx_le l l1" "lx_position l < lx_position l1"
    using advance_le [OF ok] start by (simp_all add: l1_def)
  have l2: "lx_le l1 l2" using advance_while_le lx_le_ok [OF l1(1)] by (simp add: l2_def)
  have l3: "lx_le l2 l3" using variable_path_le lx_le_ok [OF l2] by (simp add: l3_def)
  have le: "lx_le l1 l3" by (rule lx_le_trans [OF l2 l3])
  obtain good where vp: "variable_path l2 = (l3, good)" by (metis l3_def prod.collapse)
  have "(l' = l1 \<or> l' = l3) \<and> ((\<exists>msg. t = cxpr_make_error_token msg l') \<or>
      l' = l3 \<and> t = cxpr_make_token CXPR_TOK_VARIABLE (lx_current l1) (lx_position l3 - lx_position l1)
                (lx_position l) (lx_line l) (lx_column l))"
    using eq unfolding cxpr_lexer_variable_def Let_def l1_def [symmetric] l2_def [symmetric] vp prod.case
    by (auto split: if_splits simp del: list.simps)
  moreover have "lx_le l l3" by (rule lx_le_trans [OF l1(1) le])
  moreover have "lx_position l < lx_position l3" using le l1(2) by (simp add: lx_le_def)
  ultimately consider msg where "t = cxpr_make_error_token msg l'" "lx_le l l'" "lx_position l < lx_position l'"
    | "l' = l3" "lx_le l l3" "lx_position l < lx_position l3"
      "t = cxpr_make_token CXPR_TOK_VARIABLE (lx_current l1) (lx_position l3 - lx_position l1)
         (lx_position l) (lx_line l) (lx_column l)"
    using l1 by blast
  then show ?thesis
  proof cases
    case 2
    with start take_Cons_advance [of l "lx_position l3", folded l1_def]
    show ?thesis by (simp add: token_ok_def raw_text_def cxpr_make_token_def)
  qed simp
qed

lemma lexer_string_ok:
  assumes ok: "lx_ok l" and start: "lx_at l 0 \<noteq> NUL" and eq: "cxpr_lexer_string l = (t, l')"
  shows "lx_le l l' \<and> lx_position l < lx_position l' \<and> tok_type t \<noteq> CXPR_TOK_EOF \<and> token_ok l t l'"
proof -
  define l1 where "l1 = cxpr_lexer_advance l"
  define l2 where "l2 = string_body (lx_at l 0) l1"
  have l1: "lx_le l l1" "lx_position l < lx_position l1"
    using advance_le [OF ok start] by (simp_all add: l1_def)
  have l2: "lx_le l1 l2" using string_body_le lx_le_ok [OF l1(1)] by (simp add: l2_def)
  have le: "lx_le l l2" "lx_position l < lx_position l2"
    using lx_le_trans [OF l1(1) l2] l1(2) l2 by (simp_all add: lx_le_def)
  show ?thesis
  proof (cases "lx_at l2 0 = lx_at l 0")
    case False
    with eq have "t = cxpr_make_error_token ''Unterminated string literal'' l2" "l' = l2"
      unfolding cxpr_lexer_string_def Let_def l1_def [symmetric] l2_def [symmetric] by (auto simp del: list.simps)
    with le show ?thesis by simp
  next
    case True
    with eq have t: "t = cxpr_make_token CXPR_TOK_STRING (lx_current l1) (lx_position l2 - lx_position l1)
        (lx_position l) (lx_line l) (lx_column l)" and l': "l' = cxpr_lexer_advance l2"
      unfolding cxpr_lexer_string_def Let_def l1_def [symmetric] l2_def [symmetric] by (auto simp del: list.simps)
    have adv: "lx_le l2 l'" "lx_position l2 < lx_position l'"
      using advance_le [OF lx_le_ok [OF le(1)]] True start l' by simp_all
    let ?d = "lx_position l2 - lx_position l1"
    have cur: "lx_current l2 = drop ?d (lx_current l1)"
      using l2 lx_le_ok [OF l1(1)] by (auto simp: lx_le_def lx_ok_def)
    have ne: "lx_current l2 \<noteq> []" using lx_at_nonempty [of l2 0] True start by auto
    have "take (Suc ?d) (lx_current l1) = take ?d (lx_current l1) @ [lx_at l2 0]"
      using cur ne by (simp add: take_Suc_conv_app_nth lx_at_def)
    moreover have "lx_position l' - lx_position l1 = Suc ?d"
      using l' l2 by (simp add: lx_le_def Suc_diff_le)
    ultimately have "token_ok l t l'"
      using take_Cons_advance [OF start, of "lx_position l'", folded l1_def] le(2) l' True t
      by (simp add: token_ok_def raw_text_def cxpr_make_token_def)
    then show ?thesis using lx_le_trans [OF le(1) adv(1)] le(2) adv(2) t by simp
  qed
qed

lemma operator_token_range:
  "operator_token c d = Some (ty, two) \<Longrightarrow>
     ty \<notin> {CXPR_TOK_ERROR, CXPR_TOK_VARIABLE, CXPR_TOK_STRING, CXPR_TOK_EOF} \<and> (two \<longrightarrow> d \<noteq> NUL)"
  by (auto simp: operator_token_def split: if_splits)

lemma lexer_operator_ok:
  assumes ok: "lx_ok l" and start: "lx_at l 0 \<noteq> NUL"
    and op: "operator_token c (lx_at (cxpr_lexer_advance l) 0) = Some (ty, two)"
    and l': "l' = (if two then cxpr_lexer_advance (cxpr_lexer_advance l) else cxpr_lexer_advance l)"
    and t: "t = cxpr_make_token ty (lx_current l) (if two then 2 else 1) (lx_position l) (lx_line l) (lx_column l)"
  shows "lx_le l l' \<and> lx_position l < lx_position l' \<and> tok_type t \<noteq> CXPR_TOK_EOF \<and> token_ok l t l'"
proof -
  note r = operator_token_range [OF op]
  have a: "lx_le l (cxpr_lexer_advance l)" by (rule advance_le(1) [OF ok start])
  have "lx_le l l'"
    using lx_le_trans [OF a advance_le(1) [OF lx_le_ok [OF a]]] a r l' by auto
  moreover have "token_ok l t l'"
    using r by (intro token_ok_make [of ty]) (auto simp: t l' cxpr_make_token_def)
  ultimately show ?thesis using r by (auto simp: t l')
qed

text \<open>The cases of \<open>cxpr_lexer_next\<close>, once blanks are skipped.\<close>

lemma lexer_next_cases:
  assumes ok: "lx_ok l0" and eq: "cxpr_lexer_next l0 = (t, l')" and l: "l = cxpr_lexer_skip_whitespace l0"
  shows "lx_at l 0 = NUL \<and> l' = l \<and>
        t = cxpr_make_token CXPR_TOK_EOF (lx_current l) 0 (lx_position l) (lx_line l) (lx_column l) \<or>
     lx_at l 0 \<noteq> NUL \<and> lx_le l l' \<and> lx_position l < lx_position l' \<and> tok_type t \<noteq> CXPR_TOK_EOF \<and> token_ok l t l'"
    (is "?eof \<or> ?tok")
proof -
  have okl: "lx_ok l" using skip_whitespace_le [OF ok] l lx_le_ok by simp
  define c where "c = lx_at l 0"
  define c2 where "c2 = lx_at (cxpr_lexer_advance l) 0"
  have c1: "c \<noteq> NUL \<Longrightarrow> cxpr_lexer_peek_next l = lx_at l 1" by (simp add: cxpr_lexer_peek_next_def c_def)
  note eq' = eq [unfolded cxpr_lexer_next_def Let_def l [symmetric] c_def [symmetric] c2_def [symmetric]]
  show ?thesis
  proof (cases "c = NUL")
    case True
    with eq' show ?thesis by (auto simp: c_def)
  next
    case ne: False
    note eq1 = eq' [unfolded if_not_P [OF ne] c1 [OF ne]]
    have start: "lx_at l 0 \<noteq> NUL" using ne by (simp add: c_def)
    have "lx_le l l' \<and> lx_position l < lx_position l' \<and> tok_type t \<noteq> CXPR_TOK_EOF \<and> token_ok l t l'"
    proof (cases "isdigit c \<or> c = CHR ''.'' \<and> isdigit (lx_at l 1)")
      case True
      with eq1 have "cxpr_lexer_number l = (t, l')" by (simp only: if_P)
      from lexer_number_ok [OF okl True [unfolded c_def] this] show ?thesis by auto
    next
      case False
      note eq2 = eq1 [unfolded if_not_P [OF False]]
      show ?thesis
      proof (cases "cxpr_is_ident_start c")
        case True
        with eq2 have "cxpr_lexer_identifier l = (t, l')" by (simp only: if_P)
        from lexer_identifier_ok [OF okl True [unfolded c_def] this] show ?thesis .
      next
        case False
        note eq3 = eq2 [unfolded if_not_P [OF False]]
        show ?thesis
        proof (cases "c = CHR ''$''")
          case True
          with eq3 have "cxpr_lexer_variable l = (t, l')" by (simp only: if_P)
          from lexer_variable_ok [OF okl True [unfolded c_def] this] show ?thesis .
        next
          case False
          note eq4 = eq3 [unfolded if_not_P [OF False]]
          show ?thesis
          proof (cases "c = CHR 0x22 \<or> c = CHR 0x27")
            case True
            with eq4 have "cxpr_lexer_string l = (t, l')" by (simp only: if_P)
            from lexer_string_ok [OF okl start this] show ?thesis .
          next
            case False
            note eq5 = eq4 [unfolded if_not_P [OF False]]
            show ?thesis
            proof (cases "operator_token c c2")
              case None
              with eq5 have "t = cxpr_make_error_token ''Unexpected character'' l'" "l' = cxpr_lexer_advance l"
                by (auto simp del: list.simps)
              with advance_le [OF okl start] show ?thesis by simp
            next
              case (Some p)
              obtain ty two where p: "p = (ty, two)" by (cases p)
              have "l' = (if two then cxpr_lexer_advance (cxpr_lexer_advance l) else cxpr_lexer_advance l)"
                "t = cxpr_make_token ty (lx_current l) (if two then 2 else 1) (lx_position l) (lx_line l) (lx_column l)"
                using eq5 Some p by (auto split: bool.splits)
              from lexer_operator_ok [OF okl start Some [unfolded p c2_def] this] show ?thesis .
            qed
          qed
        qed
      qed
    qed
    with start show ?thesis by simp
  qed
qed

text \<open>The state after a token.\<close>

definition lexer_rest :: "cxpr_lexer \<Rightarrow> cxpr_lexer" where
  "lexer_rest l = snd (cxpr_lexer_next l)"

lemma lexer_next_le:
  assumes "lx_ok l" "cxpr_lexer_next l = (t, l')"
  shows "lx_le l l'" "token_ok (cxpr_lexer_skip_whitespace l) t l'"
    "tok_type t = CXPR_TOK_EOF \<Longrightarrow> lx_position l' = length (lx_source l)"
    "tok_type t \<noteq> CXPR_TOK_EOF \<Longrightarrow> lx_position l < lx_position l'"
proof -
  define m where "m = cxpr_lexer_skip_whitespace l"
  have m: "lx_le l m" using skip_whitespace_le [OF assms(1)] by (simp add: m_def)
  note c = lexer_next_cases [OF assms m_def]
  show "lx_le l l'" using c m lx_le_trans by blast
  show "token_ok (cxpr_lexer_skip_whitespace l) t l'"
    using c by (auto simp: m_def [symmetric] intro!: token_ok_make [of CXPR_TOK_EOF])
      (simp_all add: cxpr_make_token_def)
  show "tok_type t = CXPR_TOK_EOF \<Longrightarrow> lx_position l' = length (lx_source l)"
    using c m lx_ok_at_end [OF lx_le_ok [OF m]] by (auto simp: lx_le_def)
  show "tok_type t \<noteq> CXPR_TOK_EOF \<Longrightarrow> lx_position l < lx_position l'"
    using c m by (auto simp: lx_le_def)
qed

lemma lexer_rest_progress:
  assumes "lx_ok l"
    and "\<forall>m < n. tok_type (fst (cxpr_lexer_next ((lexer_rest ^^ m) l))) \<noteq> CXPR_TOK_EOF"
  shows "lx_le l ((lexer_rest ^^ n) l) \<and> lx_position l + n \<le> lx_position ((lexer_rest ^^ n) l)"
  using assms(2)
proof (induction n)
  case 0
  then show ?case using assms(1) lx_le_refl by simp
next
  case (Suc n)
  define k where "k = (lexer_rest ^^ n) l"
  have k: "lx_le l k" "lx_position l + n \<le> lx_position k" using Suc by (simp_all add: k_def)
  obtain t k' where n: "cxpr_lexer_next k = (t, k')" by (cases "cxpr_lexer_next k")
  have t: "tok_type t \<noteq> CXPR_TOK_EOF" using Suc.prems n by (auto simp: k_def)
  have "(lexer_rest ^^ Suc n) l = k'" using n by (simp add: k_def [symmetric] lexer_rest_def)
  with lexer_next_le(4) [OF lx_le_ok [OF k(1)] n t] k lx_le_trans [OF k(1) lexer_next_le(1) [OF lx_le_ok [OF k(1)] n]]
  show ?case by simp
qed

lemma advance_while_run:
  assumes "lx_current l = xs @ ys" "\<forall>x \<in> set xs. p x" "ys = [] \<or> \<not> p (hd ys)"
  shows "lx_current (advance_while p l) = ys \<and> lx_position (advance_while p l) = lx_position l + length xs"
  using assms
proof (induction xs arbitrary: l)
  case Nil
  then show ?case by (auto simp: advance_while.simps [of p l] lx_at_0)
next
  case (Cons x xs)
  then have "advance_while p l = advance_while p (cxpr_lexer_advance l)"
    by (auto simp: advance_while.simps [of p l] lx_at_0)
  with Cons.IH [of "cxpr_lexer_advance l"] Cons.prems show ?case by simp
qed

lemma skip_whitespace_id:
  assumes "lx_current l = c # cs" "\<not> isspace c" "c \<noteq> CHR ''#''" "c \<noteq> CHR ''/''"
  shows "cxpr_lexer_skip_whitespace l = l"
proof -
  have "advance_while is_space_char l = l"
    using assms by (auto simp: advance_while.simps [of _ l] lx_at_0 is_space_char_def)
  then show ?thesis using assms by (simp add: cxpr_lexer_skip_whitespace.simps [of l] lx_at_0)
qed

lemma digits_value_nonneg: "0 \<le> a \<Longrightarrow> \<forall>c \<in> set ds. isdigit c \<Longrightarrow> 0 \<le> digits_value a ds"
  by (induction ds arbitrary: a) (auto simp: digit_val_def isdigit_def)

lemma strtod_digits:
  assumes "ds \<noteq> []" "\<forall>c \<in> set ds. isdigit c"
  shows "strtod ds = dbl_of_int (digits_value 0 ds)"
proof -
  have run: "takeWhile isdigit ds = ds" "dropWhile isdigit ds = []"
    using assms(2) by (simp_all add: takeWhile_eq_all_conv dropWhile_eq_Nil_conv)
  from assms digits_value_nonneg [of 0 ds] show ?thesis
    unfolding strtod_def run by (simp add: strtod_exponent_def dbl_of_int_def)
qed

lemma isdigit_special:
  "isdigit c \<Longrightarrow> \<not> isspace c \<and> c \<noteq> CHR ''#'' \<and> c \<noteq> CHR ''/'' \<and> c \<noteq> NUL"
  by (auto simp: isdigit_def isspace_def)

text \<open>A run of digits up to the first other character.\<close>

lemma lexer_next_digits:
  assumes "ds \<noteq> []" "\<forall>c \<in> set ds. isdigit c" "lx_current l = ds @ rest" "rest = [] \<or> \<not> isdigit (hd rest)"
  shows "cxpr_lexer_next l = cxpr_lexer_number l"
    "lx_current (advance_while isdigit l) = rest"
    "lx_position (advance_while isdigit l) = lx_position l + length ds"
proof -
  obtain c cs where ds: "ds = c # cs" using assms(1) by (cases ds) auto
  then have c: "isdigit c" "lx_current l = c # cs @ rest" using assms by auto
  have "cxpr_lexer_skip_whitespace l = l"
    by (rule skip_whitespace_id [OF c(2)]) (use isdigit_special [OF c(1)] in auto)
  then show "cxpr_lexer_next l = cxpr_lexer_number l"
    using c isdigit_special [OF c(1)] by (simp add: cxpr_lexer_next_def lx_at_0)
  show "lx_current (advance_while isdigit l) = rest"
    "lx_position (advance_while isdigit l) = lx_position l + length ds"
    using advance_while_run [of l ds rest isdigit] assms by auto
qed

definition is_lower :: "char \<Rightarrow> bool" where
  "is_lower c \<longleftrightarrow> 97 \<le> byte c \<and> byte c \<le> 122"

definition is_upper :: "char \<Rightarrow> bool" where
  "is_upper c \<longleftrightarrow> 65 \<le> byte c \<and> byte c \<le> 90"

lemma check_keyword_mem:
  "check_keyword_in kws w \<noteq> CXPR_TOK_IDENTIFIER \<Longrightarrow> \<exists>ty. (w, ty) \<in> set kws"
  by (induction kws w rule: check_keyword_in.induct) (auto split: if_splits)

section \<open>Properties\<close>

text \<open>C14: one call of \<open>cxpr_lexer_next\<close> on any well-formed state keeps the state well formed
  (the pointer never leaves the source and agrees with position, line and column), never skips or
  invents a character (the consumed text is exactly the token's lexeme, starting where the blanks
  and comments end, with the right line and column), reports end of input only at the end of the
  source and otherwise moves strictly forward.\<close>

theorem lexer_next_sound:
  assumes "lx_ok l" "cxpr_lexer_next l = (t, l')"
  shows "lx_ok l' \<and> lx_source l' = lx_source l \<and> token_ok (cxpr_lexer_skip_whitespace l) t l' \<and>
    (if tok_type t = CXPR_TOK_EOF then lx_position l' = length (lx_source l)
     else lx_position l < lx_position l')"
  using lexer_next_le [OF assms] by (auto simp: lx_le_def)

theorem lexer_next_sound_witness:
  "lx_ok (cxpr_lexer_init ''# note\<newline> $a.b'') \<and>
   (let (t, l') = cxpr_lexer_next (cxpr_lexer_init ''# note\<newline> $a.b'') in
    tok_text t = ''a.b'' \<and> tok_line t = 2 \<and> tok_column t = 2 \<and> lx_ok l')"
proof -
  let ?l = "cxpr_lexer_init ''# note\<newline> $a.b''"
  have ok: "lx_ok ?l" by (rule init_ok) simp
  obtain t l' where e: "cxpr_lexer_next ?l = (t, l')" by (cases "cxpr_lexer_next ?l")
  have "fst (cxpr_lexer_next ?l) = \<lparr>tok_type = CXPR_TOK_VARIABLE, tok_text = ''a.b'', tok_number_value = dbl_zero,
      tok_int64_value = 0, tok_is_int64 = False, tok_position = 8, tok_line = 2, tok_column = 2\<rparr>"
    by code_simp
  with lexer_next_sound [OF ok e] ok e show ?thesis by simp
qed

text \<open>C24: reading tokens from any source ends: after at most as many tokens as the source has
  characters the lexer reports end of input.\<close>

theorem lexer_reaches_eof:
  assumes "NUL \<notin> set src"
  shows "\<exists>n \<le> length src.
    tok_type (fst (cxpr_lexer_next ((lexer_rest ^^ n) (cxpr_lexer_init src)))) = CXPR_TOK_EOF"
proof (rule ccontr)
  let ?l = "cxpr_lexer_init src"
  define k where "k = (lexer_rest ^^ Suc (length src)) ?l"
  assume "\<not> ?thesis"
  then have "\<forall>m < Suc (length src). tok_type (fst (cxpr_lexer_next ((lexer_rest ^^ m) ?l))) \<noteq> CXPR_TOK_EOF"
    by auto
  from lexer_rest_progress [OF init_ok [OF assms] this]
  have "lx_le ?l k" "Suc (length src) \<le> lx_position k"
    unfolding k_def [symmetric] by simp_all
  then show False by (auto simp: lx_le_def lx_ok_def cxpr_lexer_init_def)
qed

theorem lexer_reaches_eof_witness:
  "\<exists>n \<le> length ''1 + x''.
    tok_type (fst (cxpr_lexer_next ((lexer_rest ^^ n) (cxpr_lexer_init ''1 + x'')))) = CXPR_TOK_EOF"
  by (rule lexer_reaches_eof) simp

text \<open>C25: a decimal literal of at most 63 digits, not followed by a fraction, an exponent or a
  suffix, is lexed as one NUMBER token whose text is the digits and whose value is the integer
  correctly rounded to double.\<close>

theorem lexer_decimal_literal:
  assumes "ds \<noteq> []" "\<forall>c \<in> set ds. isdigit c" "length ds < number_buf_size"
    and "rest = [] \<or> \<not> isdigit (hd rest) \<and> hd rest \<notin> {CHR ''.'', CHR ''e'', CHR ''E'', CHR ''i''}"
    and "lx_current l = ds @ rest" "cxpr_lexer_next l = (t, l')"
  shows "tok_type t = CXPR_TOK_NUMBER \<and> tok_text t = ds \<and> \<not> tok_is_int64 t \<and>
    tok_number_value t = dbl_of_int (digits_value 0 ds) \<and> lx_current l' = rest"
proof -
  define l1 where "l1 = advance_while isdigit l"
  note d = lexer_next_digits [OF assms(1,2,5), folded l1_def]
  have rest: "rest = [] \<or> \<not> isdigit (hd rest)" using assms(4) by auto
  have at: "lx_at l1 0 = (if rest = [] then NUL else hd rest)"
    using d(2) [OF rest] by (auto simp: lx_at_def hd_conv_nth)
  have "lex_fraction l1 = (l1, False)" "lex_exponent l1 = ((l1, False), True)" "\<not> at_i64_suffix l1"
    using at assms(4) by (auto simp: lex_fraction_def lex_exponent_def at_i64_suffix_def)
  then have "cxpr_lexer_number l =
      ((cxpr_make_token CXPR_TOK_NUMBER (lx_current l) (length ds) (lx_position l) (lx_line l) (lx_column l))
        \<lparr>tok_number_value := strtod ds\<rparr>, l1)"
    using assms(3,5) d(3) [OF rest]
    by (simp add: cxpr_lexer_number_def l1_def [symmetric] cxpr_make_token_def del: list.simps)
  then show ?thesis
    using d(1,2) [OF rest] assms(5,6) strtod_digits [OF assms(1,2)] by (auto simp: cxpr_make_token_def)
qed

theorem lexer_decimal_literal_witness:
  "tok_number_value (fst (cxpr_lexer_next (cxpr_lexer_init ''1234)''))) = dbl_of_int 1234"
proof -
  let ?l = "cxpr_lexer_init (''1234'' @ '')'')"
  obtain t l' where e: "cxpr_lexer_next ?l = (t, l')" by (cases "cxpr_lexer_next ?l")
  from lexer_decimal_literal [OF _ _ _ _ _ e, of "''1234''" "'')''"] e
  show ?thesis by (simp add: number_buf_size_def isdigit_def cxpr_lexer_init_def digit_val_def)
qed

text \<open>C26: an integer literal with the suffix \<^verbatim>\<open>i64\<close> of at most 63 digits is exact when it fits a
  signed 64-bit integer and an error token otherwise; no literal is rounded or wrapped.\<close>

theorem lexer_int64_literal:
  assumes "ds \<noteq> []" "\<forall>c \<in> set ds. isdigit c" "length ds < number_buf_size"
    and "rest = [] \<or> \<not> isalnum (hd rest) \<and> hd rest \<noteq> CHR ''_''"
    and "lx_current l = ds @ ''i64'' @ rest" "cxpr_lexer_next l = (t, l')"
  shows "lx_current l' = rest \<and>
    (if digits_value 0 ds \<le> INT64_MAX
     then tok_type t = CXPR_TOK_NUMBER \<and> tok_is_int64 t \<and> tok_int64_value t = digits_value 0 ds
     else tok_type t = CXPR_TOK_ERROR)"
proof -
  define l1 where "l1 = advance_while isdigit l"
  define l4 where "l4 = cxpr_lexer_advance (cxpr_lexer_advance (cxpr_lexer_advance l1))"
  have i: "\<not> isdigit (CHR ''i'')" by (simp add: isdigit_def)
  have cur: "lx_current l = ds @ (''i64'' @ rest)" using assms(5) by simp
  have "''i64'' @ rest = [] \<or> \<not> isdigit (hd (''i64'' @ rest))" using i by simp
  note d = lexer_next_digits [OF assms(1,2) cur this, folded l1_def]
  have at: "lx_at l1 0 = CHR ''i''" "lx_at l1 1 = CHR ''6''" "lx_at l1 2 = CHR ''4''"
      "lx_at l1 3 = (if rest = [] then NUL else hd rest)"
    using d(2) by (auto simp: lx_at_def hd_conv_nth)
  have "\<not> isalnum NUL" by (simp add: ctype_defs)
  then have "lex_fraction l1 = (l1, False)" "lex_exponent l1 = ((l1, False), True)" "at_i64_suffix l1"
    using at assms(4) by (auto simp: lex_fraction_def lex_exponent_def at_i64_suffix_def)
  then have "cxpr_lexer_number l = (case strtoimax ds of
        None \<Rightarrow> (cxpr_make_error_token ''int64 literal is out of range'' l4, l4)
      | Some i \<Rightarrow> ((cxpr_make_token CXPR_TOK_NUMBER (lx_current l) (lx_position l4 - lx_position l)
            (lx_position l) (lx_line l) (lx_column l))\<lparr>tok_int64_value := i, tok_is_int64 := True\<rparr>, l4))"
    using assms(3,5) d(3)
    by (cases "strtoimax ds")
      (simp_all add: cxpr_lexer_number_def l1_def [symmetric] l4_def Let_def del: list.simps)
  moreover have "lx_current l4 = rest" using d(2) by (simp add: l4_def)
  ultimately show ?thesis
    using d(1) assms(6) by (auto simp: strtoimax_def cxpr_make_token_def)
qed

theorem lexer_int64_literal_witness:
  "tok_int64_value (fst (cxpr_lexer_next (cxpr_lexer_init ''9223372036854775807i64''))) = INT64_MAX \<and>
   tok_type (fst (cxpr_lexer_next (cxpr_lexer_init ''9223372036854775808i64''))) = CXPR_TOK_ERROR"
proof -
  let ?a = "cxpr_lexer_init (''9223372036854775807'' @ ''i64'' @ [])"
  let ?b = "cxpr_lexer_init (''9223372036854775808'' @ ''i64'' @ [])"
  obtain t l' where e: "cxpr_lexer_next ?a = (t, l')" by (cases "cxpr_lexer_next ?a")
  obtain u k' where f: "cxpr_lexer_next ?b = (u, k')" by (cases "cxpr_lexer_next ?b")
  from lexer_int64_literal [OF _ _ _ _ _ e, of "''9223372036854775807''" "[]"]
    lexer_int64_literal [OF _ _ _ _ _ f, of "''9223372036854775808''" "[]"] e f
  show ?thesis
    by (simp add: number_buf_size_def isdigit_def cxpr_lexer_init_def digit_val_def)
qed

text \<open>A decimal literal of 64 digits or more is accepted and silently replaced by the value of
  its first 63 digits, so its value no longer is the value of its text.\<close>

theorem lexer_long_literal_truncated:
  assumes "\<forall>c \<in> set ds. isdigit c" "number_buf_size \<le> length ds" "lx_current l = ds"
    and "cxpr_lexer_next l = (t, l')"
  shows "tok_type t = CXPR_TOK_NUMBER \<and> tok_text t = ds \<and>
    tok_number_value t = dbl_of_int (digits_value 0 (take 63 ds))"
proof -
  define l1 where "l1 = advance_while isdigit l"
  have ne: "ds \<noteq> []" using assms(2) by (auto simp: number_buf_size_def)
  note d = lexer_next_digits [OF ne assms(1), of l "[]", folded l1_def]
  have at: "lx_at l1 i = NUL" for i using d(2) assms(3) by (simp add: lx_at_def)
  have "lex_fraction l1 = (l1, False)" "lex_exponent l1 = ((l1, False), True)" "\<not> at_i64_suffix l1"
    by (auto simp: at lex_fraction_def lex_exponent_def at_i64_suffix_def)
  then have "cxpr_lexer_number l =
      ((cxpr_make_token CXPR_TOK_NUMBER (lx_current l) (length ds) (lx_position l) (lx_line l) (lx_column l))
        \<lparr>tok_number_value := strtod (take 63 ds)\<rparr>, l1)"
    using assms(2,3) d(3)
    by (simp add: cxpr_lexer_number_def l1_def [symmetric] cxpr_make_token_def number_buf_size_def del: list.simps)
  moreover have "strtod (take 63 ds) = dbl_of_int (digits_value 0 (take 63 ds))"
    using assms(1,2) ne by (intro strtod_digits) (auto dest: in_set_takeD)
  ultimately show ?thesis using d(1) assms(3,4) by (auto simp: cxpr_make_token_def)
qed

theorem lexer_long_literal_truncated_witness:
  "let t = fst (cxpr_lexer_next (cxpr_lexer_init (CHR ''1'' # replicate 63 (CHR ''0'')))) in
   tok_number_value t = dbl_of_int (10 ^ 62) \<and> digits_value 0 (tok_text t) = 10 ^ 63"
proof -
  let ?ds = "CHR ''1'' # replicate 63 (CHR ''0'')"
  let ?l = "cxpr_lexer_init ?ds"
  obtain t l' where e: "cxpr_lexer_next ?l = (t, l')" by (cases "cxpr_lexer_next ?l")
  have v: "digits_value 0 (take 63 ?ds) = 10 ^ 62" "digits_value 0 ?ds = 10 ^ 63"
    by code_simp+
  have "lx_current ?l = ?ds" by (simp add: cxpr_lexer_init_def)
  from lexer_long_literal_truncated [OF _ _ this e] v e show ?thesis
    by (simp add: number_buf_size_def isdigit_def del: take_Cons_numeral)
qed

text \<open>The keyword table is matched exactly, so only the all-lower-case and the all-upper-case
  spelling of a keyword is a keyword; a mixed-case spelling is an ordinary identifier.\<close>

theorem keywords_one_case:
  assumes "cxpr_check_keyword w \<noteq> CXPR_TOK_IDENTIFIER"
  shows "list_all is_lower w \<or> list_all is_upper w"
proof -
  have "list_all (\<lambda>(k, ty). list_all is_lower k \<or> list_all is_upper k) cxpr_keywords" by code_simp
  with check_keyword_mem [of cxpr_keywords w] assms show ?thesis
    by (auto simp: cxpr_check_keyword_def list_all_iff)
qed

theorem keywords_one_case_witness:
  "cxpr_check_keyword ''and'' = CXPR_TOK_AND \<and> cxpr_check_keyword ''And'' = CXPR_TOK_IDENTIFIER"
proof -
  have "\<not> (list_all is_lower ''And'' \<or> list_all is_upper ''And'')" by code_simp
  moreover have "cxpr_check_keyword ''and'' = CXPR_TOK_AND" by code_simp
  ultimately show ?thesis using keywords_one_case [of "''And''"] by blast
qed

end
