(* ===== verification/Cxpr_Ast.thy ===== *)
theory Cxpr_Ast
  imports Cxpr_Lexer "HOL-Library.Monad_Syntax"
begin

text \<open>
  The expression trees of \<^verbatim>\<open>src/ast\<close>: the node type of \<open>ast/internal.h\<close>, its constructors
  (\<open>construct.c\<close>), the deep copy of \<open>parser/helpers.c\<close> and the read accessors
  (\<open>inspect.c\<close>). A node is its optional source span and the member of the C union its kind
  selects. The caches inside a node (compiled program, typecheck result, lookup slots) are
  memo fields that no function of these files reads and are left out; \<open>full_key\<close> and the
  hashes are functions of the names stored beside them. An argument-name array is the list of
  its entries; the NULL array stands for the list without names, which is how every reader in
  the sources treats it. Allocation succeeds.
\<close>

section \<open>Nodes\<close>

record cxpr_source_pos =
  sp_offset :: nat
  sp_line :: nat
  sp_column :: nat

record cxpr_source_span =
  span_start :: cxpr_source_pos
  span_end :: cxpr_source_pos

datatype cxpr_expr_ast = Ast (ast_span: "cxpr_source_span option") (ast_data: cxpr_expr_data)
and cxpr_expr_data =
    CXPR_NODE_NUMBER double
  | CXPR_NODE_INT64 int
  | CXPR_NODE_BOOL bool
  | CXPR_NODE_ARRAY "cxpr_expr_ast list"
  | CXPR_NODE_RECORD "string list" "cxpr_expr_ast list"
  | CXPR_NODE_STRING string
  | CXPR_NODE_IDENTIFIER string
  | CXPR_NODE_VARIABLE string
  | CXPR_NODE_FIELD_ACCESS string string
  | CXPR_NODE_FIELD_EXPR cxpr_expr_ast string
  | CXPR_NODE_CHAIN_ACCESS "string list"
  | CXPR_NODE_PRODUCER_ACCESS string "cxpr_expr_ast list" "string option list" string
  | CXPR_NODE_BINARY_OP cxpr_token_type cxpr_expr_ast cxpr_expr_ast
  | CXPR_NODE_UNARY_OP cxpr_token_type cxpr_expr_ast
  | CXPR_NODE_FUNCTION_CALL string "cxpr_expr_ast list" "string option list"
  | CXPR_NODE_INDEX cxpr_expr_ast cxpr_expr_ast
  | CXPR_NODE_TERNARY cxpr_expr_ast cxpr_expr_ast cxpr_expr_ast

text \<open>
  \<open>CXPR_NODE_FIELD_EXPR\<close> is the field access with a \<open>base\<close> expression; in C it shares the
  kind \<open>CXPR_NODE_FIELD_ACCESS\<close>, told apart by \<open>base\<close> not being NULL.
\<close>

section \<open>Constructors\<close>

definition cxpr_expr_ast_join_with_dot :: "string \<Rightarrow> string \<Rightarrow> string" where
  "cxpr_expr_ast_join_with_dot left right = left @ CHR ''.'' # right"

definition cxpr_expr_ast_inherit_range ::
  "cxpr_expr_data \<Rightarrow> cxpr_expr_ast \<Rightarrow> cxpr_expr_ast \<Rightarrow> cxpr_expr_ast" where
  "cxpr_expr_ast_inherit_range d first_node last_node =
     (case (ast_span first_node, ast_span last_node) of
        (Some f, Some l) \<Rightarrow> Ast (Some \<lparr>span_start = span_start f, span_end = span_end l\<rparr>) d
      | _ \<Rightarrow> Ast None d)"

definition cxpr_expr_ast_number_new :: "double \<Rightarrow> cxpr_expr_ast" where
  "cxpr_expr_ast_number_new value = Ast None (CXPR_NODE_NUMBER value)"

definition cxpr_expr_ast_int64_new :: "int \<Rightarrow> cxpr_expr_ast" where
  "cxpr_expr_ast_int64_new value = Ast None (CXPR_NODE_INT64 value)"

definition cxpr_expr_ast_bool_new :: "bool \<Rightarrow> cxpr_expr_ast" where
  "cxpr_expr_ast_bool_new value = Ast None (CXPR_NODE_BOOL value)"

definition cxpr_expr_ast_array_new :: "cxpr_expr_ast list \<Rightarrow> cxpr_expr_ast" where
  "cxpr_expr_ast_array_new elements = Ast None (CXPR_NODE_ARRAY elements)"

definition cxpr_expr_ast_record_new :: "string list \<Rightarrow> cxpr_expr_ast list \<Rightarrow> cxpr_expr_ast" where
  "cxpr_expr_ast_record_new field_names field_values = Ast None (CXPR_NODE_RECORD field_names field_values)"

definition cxpr_expr_ast_new_string :: "string \<Rightarrow> cxpr_expr_ast" where
  "cxpr_expr_ast_new_string value = Ast None (CXPR_NODE_STRING value)"

definition cxpr_expr_ast_identifier_new :: "string \<Rightarrow> cxpr_expr_ast" where
  "cxpr_expr_ast_identifier_new name = Ast None (CXPR_NODE_IDENTIFIER name)"

definition cxpr_expr_ast_param_new :: "string \<Rightarrow> cxpr_expr_ast" where
  "cxpr_expr_ast_param_new name = Ast None (CXPR_NODE_VARIABLE name)"

definition cxpr_expr_ast_field_new :: "string \<Rightarrow> string \<Rightarrow> cxpr_expr_ast" where
  "cxpr_expr_ast_field_new object field = Ast None (CXPR_NODE_FIELD_ACCESS object field)"

definition cxpr_expr_ast_field_expr_new :: "cxpr_expr_ast \<Rightarrow> string \<Rightarrow> cxpr_expr_ast" where
  "cxpr_expr_ast_field_expr_new base field = Ast None (CXPR_NODE_FIELD_EXPR base field)"

definition cxpr_expr_ast_new_chain_access :: "string list \<Rightarrow> cxpr_expr_ast option" where
  "cxpr_expr_ast_new_chain_access path =
     (if length path < 2 then None else Some (Ast None (CXPR_NODE_CHAIN_ACCESS path)))"

definition cxpr_expr_ast_producer_field_named_new ::
  "string \<Rightarrow> cxpr_expr_ast list \<Rightarrow> string option list \<Rightarrow> string \<Rightarrow> cxpr_expr_ast" where
  "cxpr_expr_ast_producer_field_named_new name args arg_names field =
     Ast None (CXPR_NODE_PRODUCER_ACCESS name args arg_names field)"

definition cxpr_expr_ast_binary_new :: "cxpr_token_type \<Rightarrow> cxpr_expr_ast \<Rightarrow> cxpr_expr_ast \<Rightarrow> cxpr_expr_ast" where
  "cxpr_expr_ast_binary_new op left right =
     cxpr_expr_ast_inherit_range (CXPR_NODE_BINARY_OP op left right) left right"

definition cxpr_expr_ast_unary_new :: "cxpr_token_type \<Rightarrow> cxpr_expr_ast \<Rightarrow> cxpr_expr_ast" where
  "cxpr_expr_ast_unary_new op operand = Ast (ast_span operand) (CXPR_NODE_UNARY_OP op operand)"

definition cxpr_expr_ast_call_named_new ::
  "string \<Rightarrow> cxpr_expr_ast list \<Rightarrow> string option list \<Rightarrow> cxpr_expr_ast" where
  "cxpr_expr_ast_call_named_new name args arg_names = Ast None (CXPR_NODE_FUNCTION_CALL name args arg_names)"

definition cxpr_expr_ast_call_new :: "string \<Rightarrow> cxpr_expr_ast list \<Rightarrow> cxpr_expr_ast" where
  "cxpr_expr_ast_call_new name args =
     cxpr_expr_ast_call_named_new name args (replicate (length args) None)"

definition cxpr_expr_ast_index_new :: "cxpr_expr_ast \<Rightarrow> cxpr_expr_ast \<Rightarrow> cxpr_expr_ast" where
  "cxpr_expr_ast_index_new target index =
     cxpr_expr_ast_inherit_range (CXPR_NODE_INDEX target index) target index"

definition cxpr_expr_ast_ternary_new ::
  "cxpr_expr_ast \<Rightarrow> cxpr_expr_ast \<Rightarrow> cxpr_expr_ast \<Rightarrow> cxpr_expr_ast" where
  "cxpr_expr_ast_ternary_new condition true_branch false_branch =
     cxpr_expr_ast_inherit_range (CXPR_NODE_TERNARY condition true_branch false_branch) condition false_branch"

lemmas ast_new_defs =
  cxpr_expr_ast_number_new_def cxpr_expr_ast_int64_new_def cxpr_expr_ast_bool_new_def
  cxpr_expr_ast_array_new_def cxpr_expr_ast_record_new_def cxpr_expr_ast_new_string_def
  cxpr_expr_ast_identifier_new_def cxpr_expr_ast_param_new_def cxpr_expr_ast_field_new_def
  cxpr_expr_ast_field_expr_new_def cxpr_expr_ast_new_chain_access_def
  cxpr_expr_ast_producer_field_named_new_def cxpr_expr_ast_binary_new_def
  cxpr_expr_ast_unary_new_def cxpr_expr_ast_call_named_new_def cxpr_expr_ast_call_new_def
  cxpr_expr_ast_index_new_def cxpr_expr_ast_ternary_new_def

text \<open>\<open>cxpr_expr_ast_set_source_span\<close>.\<close>

definition cxpr_expr_ast_set_source_span :: "cxpr_expr_ast \<Rightarrow> cxpr_source_span \<Rightarrow> cxpr_expr_ast" where
  "cxpr_expr_ast_set_source_span ast span = Ast (Some span) (ast_data ast)"

section \<open>Deep copy\<close>

text \<open>
  \<open>cxpr_eval_clone_ast\<close> and \<open>cxpr_expr_parser_clone_ast\<close> are the same function, written out
  twice; both give NULL when the chain constructor rejects a path.
\<close>

fun cxpr_eval_clone_ast :: "cxpr_expr_ast \<Rightarrow> cxpr_expr_ast option" where
  "cxpr_eval_clone_ast (Ast sp d) =
     (case d of
        CXPR_NODE_NUMBER v \<Rightarrow> Some (cxpr_expr_ast_number_new v)
      | CXPR_NODE_INT64 v \<Rightarrow> Some (cxpr_expr_ast_int64_new v)
      | CXPR_NODE_BOOL v \<Rightarrow> Some (cxpr_expr_ast_bool_new v)
      | CXPR_NODE_ARRAY es \<Rightarrow>
          do { es' \<leftarrow> those (map cxpr_eval_clone_ast es); Some (cxpr_expr_ast_array_new es') }
      | CXPR_NODE_RECORD ns vs \<Rightarrow>
          do { vs' \<leftarrow> those (map cxpr_eval_clone_ast vs); Some (cxpr_expr_ast_record_new ns vs') }
      | CXPR_NODE_STRING s \<Rightarrow> Some (cxpr_expr_ast_new_string s)
      | CXPR_NODE_IDENTIFIER n \<Rightarrow> Some (cxpr_expr_ast_identifier_new n)
      | CXPR_NODE_VARIABLE n \<Rightarrow> Some (cxpr_expr_ast_param_new n)
      | CXPR_NODE_FIELD_EXPR b f \<Rightarrow>
          do { b' \<leftarrow> cxpr_eval_clone_ast b; Some (cxpr_expr_ast_field_expr_new b' f) }
      | CXPR_NODE_FIELD_ACCESS ob f \<Rightarrow> Some (cxpr_expr_ast_field_new ob f)
      | CXPR_NODE_CHAIN_ACCESS path \<Rightarrow> cxpr_expr_ast_new_chain_access path
      | CXPR_NODE_UNARY_OP op a \<Rightarrow>
          do { a' \<leftarrow> cxpr_eval_clone_ast a; Some (cxpr_expr_ast_unary_new op a') }
      | CXPR_NODE_BINARY_OP op a b \<Rightarrow>
          do { a' \<leftarrow> cxpr_eval_clone_ast a; b' \<leftarrow> cxpr_eval_clone_ast b;
               Some (cxpr_expr_ast_binary_new op a' b') }
      | CXPR_NODE_FUNCTION_CALL n args names \<Rightarrow>
          do { args' \<leftarrow> those (map cxpr_eval_clone_ast args);
               Some (cxpr_expr_ast_call_named_new n args' names) }
      | CXPR_NODE_PRODUCER_ACCESS n args names f \<Rightarrow>
          do { args' \<leftarrow> those (map cxpr_eval_clone_ast args);
               Some (cxpr_expr_ast_producer_field_named_new n args' names f) }
      | CXPR_NODE_INDEX a b \<Rightarrow>
          do { a' \<leftarrow> cxpr_eval_clone_ast a; b' \<leftarrow> cxpr_eval_clone_ast b;
               Some (cxpr_expr_ast_index_new a' b') }
      | CXPR_NODE_TERNARY a b c \<Rightarrow>
          do { a' \<leftarrow> cxpr_eval_clone_ast a; b' \<leftarrow> cxpr_eval_clone_ast b; c' \<leftarrow> cxpr_eval_clone_ast c;
               Some (cxpr_expr_ast_ternary_new a' b' c') })"

declare cxpr_eval_clone_ast.simps [simp del]

definition cxpr_expr_parser_clone_ast :: "cxpr_expr_ast \<Rightarrow> cxpr_expr_ast option" where
  "cxpr_expr_parser_clone_ast ast = cxpr_eval_clone_ast ast"

lemma zip_size_list: "(x, y) \<in> set (zip xs ys) \<Longrightarrow> size x < Suc (size_list size xs)"
  by (metis le_imp_less_Suc order_refl set_zip_leftD size_list_estimation')

function cxpr_expr_ast_copy_spans :: "cxpr_expr_ast \<Rightarrow> cxpr_expr_ast \<Rightarrow> cxpr_expr_ast" where
  "cxpr_expr_ast_copy_spans (Ast sp d) (Ast sp' d') =
     Ast (if sp = None then sp' else sp)
       (case (d, d') of
          (CXPR_NODE_ARRAY es, CXPR_NODE_ARRAY es') \<Rightarrow>
            CXPR_NODE_ARRAY (map (\<lambda>(x, y). cxpr_expr_ast_copy_spans x y) (zip es es'))
        | (CXPR_NODE_RECORD _ vs, CXPR_NODE_RECORD ns' vs') \<Rightarrow>
            CXPR_NODE_RECORD ns' (map (\<lambda>(x, y). cxpr_expr_ast_copy_spans x y) (zip vs vs'))
        | (CXPR_NODE_FIELD_EXPR b _, CXPR_NODE_FIELD_EXPR b' f') \<Rightarrow>
            CXPR_NODE_FIELD_EXPR (cxpr_expr_ast_copy_spans b b') f'
        | (CXPR_NODE_UNARY_OP _ a, CXPR_NODE_UNARY_OP op' a') \<Rightarrow>
            CXPR_NODE_UNARY_OP op' (cxpr_expr_ast_copy_spans a a')
        | (CXPR_NODE_BINARY_OP _ a b, CXPR_NODE_BINARY_OP op' a' b') \<Rightarrow>
            CXPR_NODE_BINARY_OP op' (cxpr_expr_ast_copy_spans a a') (cxpr_expr_ast_copy_spans b b')
        | (CXPR_NODE_FUNCTION_CALL _ args _, CXPR_NODE_FUNCTION_CALL n' args' names') \<Rightarrow>
            CXPR_NODE_FUNCTION_CALL n' (map (\<lambda>(x, y). cxpr_expr_ast_copy_spans x y) (zip args args')) names'
        | (CXPR_NODE_PRODUCER_ACCESS _ args _ _, CXPR_NODE_PRODUCER_ACCESS n' args' names' f') \<Rightarrow>
            CXPR_NODE_PRODUCER_ACCESS n' (map (\<lambda>(x, y). cxpr_expr_ast_copy_spans x y) (zip args args')) names' f'
        | (CXPR_NODE_INDEX a b, CXPR_NODE_INDEX a' b') \<Rightarrow>
            CXPR_NODE_INDEX (cxpr_expr_ast_copy_spans a a') (cxpr_expr_ast_copy_spans b b')
        | (CXPR_NODE_TERNARY a b c, CXPR_NODE_TERNARY a' b' c') \<Rightarrow>
            CXPR_NODE_TERNARY (cxpr_expr_ast_copy_spans a a') (cxpr_expr_ast_copy_spans b b')
              (cxpr_expr_ast_copy_spans c c')
        | _ \<Rightarrow> d')"
  by pat_completeness auto

termination
  by (relation "measure (size \<circ> fst)")
    (auto dest!: zip_size_list simp: less_Suc_eq)

declare cxpr_expr_ast_copy_spans.simps [simp del]

definition cxpr_expr_ast_clone :: "cxpr_expr_ast \<Rightarrow> cxpr_expr_ast option" where
  "cxpr_expr_ast_clone ast = map_option (cxpr_expr_ast_copy_spans ast) (cxpr_eval_clone_ast ast)"

section \<open>Accessors\<close>

definition cxpr_expr_ast_named_args_present :: "string option list \<Rightarrow> bool" where
  "cxpr_expr_ast_named_args_present arg_names \<longleftrightarrow> (\<exists>n \<in> set arg_names. n \<noteq> None)"

definition cxpr_expr_ast_call_uses_named_args :: "cxpr_expr_ast \<Rightarrow> bool" where
  "cxpr_expr_ast_call_uses_named_args ast =
     (case ast_data ast of
        CXPR_NODE_FUNCTION_CALL _ _ names \<Rightarrow> cxpr_expr_ast_named_args_present names
      | CXPR_NODE_PRODUCER_ACCESS _ _ names _ \<Rightarrow> cxpr_expr_ast_named_args_present names
      | _ \<Rightarrow> False)"

text \<open>The segments of a path with a dot between two of them (\<open>full_key\<close> of a chain).\<close>

fun join_dots :: "string list \<Rightarrow> string" where
  "join_dots [] = []"
| "join_dots [s] = s"
| "join_dots (s # ss) = s @ CHR ''.'' # join_dots ss"

definition cxpr_expr_ast_full_reference :: "cxpr_expr_ast \<Rightarrow> string option" where
  "cxpr_expr_ast_full_reference ast =
     (case ast_data ast of
        CXPR_NODE_FIELD_ACCESS ob f \<Rightarrow> Some (cxpr_expr_ast_join_with_dot ob f)
      | CXPR_NODE_CHAIN_ACCESS path \<Rightarrow> Some (join_dots path)
      | _ \<Rightarrow> None)"

definition cxpr_expr_ast_string_value :: "cxpr_expr_ast \<Rightarrow> string option" where
  "cxpr_expr_ast_string_value ast = (case ast_data ast of CXPR_NODE_STRING s \<Rightarrow> Some s | _ \<Rightarrow> None)"

definition cxpr_expr_ast_record_field_name :: "cxpr_expr_ast \<Rightarrow> nat \<Rightarrow> string option" where
  "cxpr_expr_ast_record_field_name ast i =
     (case ast_data ast of
        CXPR_NODE_RECORD ns vs \<Rightarrow> if i \<ge> length vs then None else Some (ns ! i)
      | _ \<Rightarrow> None)"

definition cxpr_expr_ast_record_field_value :: "cxpr_expr_ast \<Rightarrow> nat \<Rightarrow> cxpr_expr_ast option" where
  "cxpr_expr_ast_record_field_value ast i =
     (case ast_data ast of
        CXPR_NODE_RECORD ns vs \<Rightarrow> if i \<ge> length vs then None else Some (vs ! i)
      | _ \<Rightarrow> None)"

definition cxpr_expr_ast_call_arg :: "cxpr_expr_ast \<Rightarrow> nat \<Rightarrow> cxpr_expr_ast option" where
  "cxpr_expr_ast_call_arg ast i =
     (case ast_data ast of
        CXPR_NODE_FUNCTION_CALL _ args _ \<Rightarrow> if i \<ge> length args then None else Some (args ! i)
      | _ \<Rightarrow> None)"

definition cxpr_expr_ast_call_arg_name :: "cxpr_expr_ast \<Rightarrow> nat \<Rightarrow> string option" where
  "cxpr_expr_ast_call_arg_name ast i =
     (case ast_data ast of
        CXPR_NODE_FUNCTION_CALL _ args names \<Rightarrow> if i \<ge> length args then None else names ! i
      | _ \<Rightarrow> None)"

definition cxpr_expr_ast_producer_arg :: "cxpr_expr_ast \<Rightarrow> nat \<Rightarrow> cxpr_expr_ast option" where
  "cxpr_expr_ast_producer_arg ast i =
     (case ast_data ast of
        CXPR_NODE_PRODUCER_ACCESS _ args _ _ \<Rightarrow> if i \<ge> length args then None else Some (args ! i)
      | _ \<Rightarrow> None)"

definition cxpr_expr_ast_producer_arg_name :: "cxpr_expr_ast \<Rightarrow> nat \<Rightarrow> string option" where
  "cxpr_expr_ast_producer_arg_name ast i =
     (case ast_data ast of
        CXPR_NODE_PRODUCER_ACCESS _ args names _ \<Rightarrow> if i \<ge> length args then None else names ! i
      | _ \<Rightarrow> None)"

definition cxpr_expr_ast_chain_segment :: "cxpr_expr_ast \<Rightarrow> nat \<Rightarrow> string option" where
  "cxpr_expr_ast_chain_segment ast i =
     (case ast_data ast of
        CXPR_NODE_CHAIN_ACCESS path \<Rightarrow> if i \<ge> length path then None else Some (path ! i)
      | _ \<Rightarrow> None)"

text \<open>The boolean-shape test used by the tools that classify expressions.\<close>

fun cxpr_expr_ast_is_boolean_expression :: "cxpr_expr_ast \<Rightarrow> bool" where
  "cxpr_expr_ast_is_boolean_expression (Ast sp d) =
     (case d of
        CXPR_NODE_BOOL _ \<Rightarrow> True
      | CXPR_NODE_BINARY_OP op _ _ \<Rightarrow>
          op \<in> {CXPR_TOK_EQ, CXPR_TOK_NEQ, CXPR_TOK_LT, CXPR_TOK_GT, CXPR_TOK_LTE, CXPR_TOK_GTE,
                CXPR_TOK_AND, CXPR_TOK_OR, CXPR_TOK_IN}
      | CXPR_NODE_UNARY_OP op _ \<Rightarrow> op = CXPR_TOK_NOT
      | CXPR_NODE_FUNCTION_CALL name _ _ \<Rightarrow>
          name = ''contains'' \<or> name = ''within'' \<or> name = ''cross_above'' \<or> name = ''cross_below''
      | CXPR_NODE_TERNARY c t f \<Rightarrow>
          cxpr_expr_ast_is_boolean_expression c \<and>
          (cxpr_expr_ast_is_boolean_expression t \<and> cxpr_expr_ast_is_boolean_expression f)
      | _ \<Rightarrow> False)"

section \<open>Well-formedness and the deep copy\<close>

text \<open>
  The invariant of the node type: a chain has at least two segments, every argument has a slot
  in the name array and every record field a name; recursively for the children.
\<close>

fun ast_children :: "cxpr_expr_ast \<Rightarrow> cxpr_expr_ast list" where
  "ast_children (Ast sp d) =
     (case d of
        CXPR_NODE_ARRAY es \<Rightarrow> es
      | CXPR_NODE_RECORD _ vs \<Rightarrow> vs
      | CXPR_NODE_FIELD_EXPR b _ \<Rightarrow> [b]
      | CXPR_NODE_PRODUCER_ACCESS _ args _ _ \<Rightarrow> args
      | CXPR_NODE_BINARY_OP _ a b \<Rightarrow> [a, b]
      | CXPR_NODE_UNARY_OP _ a \<Rightarrow> [a]
      | CXPR_NODE_FUNCTION_CALL _ args _ \<Rightarrow> args
      | CXPR_NODE_INDEX a b \<Rightarrow> [a, b]
      | CXPR_NODE_TERNARY a b c \<Rightarrow> [a, b, c]
      | _ \<Rightarrow> [])"

lemma ast_children_size: "c \<in> set (ast_children a) \<Longrightarrow> size c < size a"
  by (cases a rule: ast_children.cases)
    (auto split: cxpr_expr_data.splits simp: less_Suc_eq_le dest!: size_list_estimation' [OF _ order_refl]
      intro: le_SucI trans_le_add1 trans_le_add2)

fun node_wf :: "cxpr_expr_data \<Rightarrow> bool" where
  "node_wf (CXPR_NODE_CHAIN_ACCESS path) \<longleftrightarrow> 2 \<le> length path"
| "node_wf (CXPR_NODE_RECORD ns vs) \<longleftrightarrow> length ns = length vs"
| "node_wf (CXPR_NODE_FUNCTION_CALL _ args names) \<longleftrightarrow> length names = length args"
| "node_wf (CXPR_NODE_PRODUCER_ACCESS _ args names _) \<longleftrightarrow> length names = length args"
| "node_wf _ \<longleftrightarrow> True"

function ast_all :: "(cxpr_expr_ast \<Rightarrow> bool) \<Rightarrow> cxpr_expr_ast \<Rightarrow> bool" where
  "ast_all P a \<longleftrightarrow> P a \<and> (\<forall>c \<in> set (ast_children a). ast_all P c)"
  by pat_completeness auto
termination
  by (relation "measure (size \<circ> snd)") (auto dest: ast_children_size)

declare ast_all.simps [simp del]

definition ast_wf :: "cxpr_expr_ast \<Rightarrow> bool" where
  "ast_wf = ast_all (\<lambda>a. node_wf (ast_data a))"

lemma ast_induct [case_names node]:
  assumes "\<And>a. (\<And>c. c \<in> set (ast_children a) \<Longrightarrow> P c) \<Longrightarrow> P a"
  shows "P a"
  by (induction a rule: measure_induct_rule [of size]) (use assms ast_children_size in blast)

lemma ast_all_children: "ast_all P a \<Longrightarrow> c \<in> set (ast_children a) \<Longrightarrow> ast_all P c"
  by (simp add: ast_all.simps [of P a])

lemma ast_all_here: "ast_all P a \<Longrightarrow> P a"
  by (simp add: ast_all.simps [of P a])

lemma ast_all_mono: "ast_all P a \<Longrightarrow> (\<And>x. P x \<Longrightarrow> Q x) \<Longrightarrow> ast_all Q a"
proof (induction a rule: ast_induct)
  case (node a)
  then show ?case
    by (subst ast_all.simps) (blast dest: ast_all_here ast_all_children)
qed

lemma ast_wf_Ast [simp]:
  "ast_wf (Ast sp d) \<longleftrightarrow> node_wf d \<and> (\<forall>c \<in> set (ast_children (Ast sp d)). ast_wf c)"
  by (simp add: ast_wf_def ast_all.simps [of _ "Ast sp d"] del: ast_children.simps)

text \<open>The tree without its spans.\<close>

fun ast_strip :: "cxpr_expr_ast \<Rightarrow> cxpr_expr_ast" where
  "ast_strip (Ast sp d) = Ast None
     (case d of
        CXPR_NODE_ARRAY es \<Rightarrow> CXPR_NODE_ARRAY (map ast_strip es)
      | CXPR_NODE_RECORD ns vs \<Rightarrow> CXPR_NODE_RECORD ns (map ast_strip vs)
      | CXPR_NODE_FIELD_EXPR b f \<Rightarrow> CXPR_NODE_FIELD_EXPR (ast_strip b) f
      | CXPR_NODE_PRODUCER_ACCESS n args names f \<Rightarrow> CXPR_NODE_PRODUCER_ACCESS n (map ast_strip args) names f
      | CXPR_NODE_BINARY_OP op a b \<Rightarrow> CXPR_NODE_BINARY_OP op (ast_strip a) (ast_strip b)
      | CXPR_NODE_UNARY_OP op a \<Rightarrow> CXPR_NODE_UNARY_OP op (ast_strip a)
      | CXPR_NODE_FUNCTION_CALL n args names \<Rightarrow> CXPR_NODE_FUNCTION_CALL n (map ast_strip args) names
      | CXPR_NODE_INDEX a b \<Rightarrow> CXPR_NODE_INDEX (ast_strip a) (ast_strip b)
      | CXPR_NODE_TERNARY a b c \<Rightarrow> CXPR_NODE_TERNARY (ast_strip a) (ast_strip b) (ast_strip c)
      | _ \<Rightarrow> d)"

lemma ast_strip_span [simp]: "ast_span (ast_strip a) = None"
  by (cases a) simp

lemma those_map_Some: "(\<And>x. x \<in> set xs \<Longrightarrow> f x = Some (g x)) \<Longrightarrow> those (map f xs) = Some (map g xs)"
  by (induction xs) auto

lemma eval_clone_strip:
  assumes "ast_wf a"
  shows "cxpr_eval_clone_ast a = Some (ast_strip a)"
  using assms
proof (induction a rule: ast_induct)
  case (node a)
  obtain sp d where a: "a = Ast sp d" by (cases a)
  have child: "cxpr_eval_clone_ast c = Some (ast_strip c)" if "c \<in> set (ast_children (Ast sp d))" for c
    using node that by (simp add: a)
  from node.prems child show ?case
    by (cases d)
      (simp_all add: a cxpr_eval_clone_ast.simps ast_new_defs those_map_Some cxpr_expr_ast_inherit_range_def)
qed

lemma map_zip_restore:
  "(\<And>x. x \<in> set xs \<Longrightarrow> f x (g x) = x) \<Longrightarrow> map (\<lambda>(x, y). f x y) (zip xs (map g xs)) = xs"
  by (induction xs) auto

lemma copy_spans_strip: "cxpr_expr_ast_copy_spans a (ast_strip a) = a"
proof (induction a rule: ast_induct)
  case (node a)
  obtain sp d where a: "a = Ast sp d" by (cases a)
  have child: "cxpr_expr_ast_copy_spans c (ast_strip c) = c" if "c \<in> set (ast_children (Ast sp d))" for c
    using node that by (simp add: a)
  from child show ?case
    by (cases d) (simp_all add: a cxpr_expr_ast_copy_spans.simps map_zip_restore)
qed

text \<open>C32: the deep copy \<open>cxpr_expr_ast_clone\<close> of a well-formed tree is the tree itself, spans,
  argument names and record fields included, although it is built in two passes, the first of
  which drops every span; the parser's own copy keeps everything but the spans.\<close>

theorem ast_clone_exact:
  assumes "ast_wf a"
  shows "cxpr_expr_ast_clone a = Some a \<and> cxpr_expr_parser_clone_ast a = Some (ast_strip a)"
  using eval_clone_strip [OF assms] copy_spans_strip [of a]
  by (simp add: cxpr_expr_ast_clone_def cxpr_expr_parser_clone_ast_def)

theorem ast_clone_exact_witness:
  "let sp = \<lparr>span_start = \<lparr>sp_offset = 0, sp_line = 1, sp_column = 0\<rparr>,
             span_end = \<lparr>sp_offset = 3, sp_line = 1, sp_column = 3\<rparr>\<rparr>;
       a = Ast None (CXPR_NODE_FUNCTION_CALL ''f''
             [Ast (Some sp) (CXPR_NODE_CHAIN_ACCESS [''a'', ''b'', ''c'']), Ast None (CXPR_NODE_BOOL True)]
             [None, Some ''flag''])
   in cxpr_expr_ast_clone a = Some a"
  unfolding Let_def by (rule conjunct1 [OF ast_clone_exact]) simp

end
