(* ===== verification/Cxpr_Parser.thy ===== *)
theory Cxpr_Parser
  imports Cxpr_Ast
begin

text \<open>
  The recursive-descent parser of \<^verbatim>\<open>src/parser\<close>. Every C function \<open>cxpr_parse_X\<close> is one
  definition of the same name. The functions call each other recursively, and the loops of the
  C code are recursion too, so each definition takes the two call tables \<open>call\<close> (the functions
  that return a node, and the loops inside them) and \<open>items\<close> (the loops that collect arguments,
  array elements and record fields) and makes its recursive calls through them; \<open>parse\<close> and
  \<open>parse_items\<close> at the end tie the knot with a fuel that bounds the depth of the calls.

  A call returns \<open>Some (node, parser)\<close>, where the node is \<open>None\<close> for the C result NULL. The
  outer \<open>None\<close> stands for running out of fuel or reading outside the source buffer; it is proved
  not to occur. Allocation succeeds, so the branches that test an allocator's result are left out.
\<close>

section \<open>State and token primitives\<close>

record cxpr_error =
  err_code :: cxpr_error_code
  err_message :: string
  err_position :: nat
  err_line :: nat
  err_column :: nat

record cxpr_expr_parser =
  ps_lexer :: cxpr_lexer
  ps_current :: cxpr_token
  ps_previous :: cxpr_token
  ps_had_error :: bool
  ps_last_error :: cxpr_error

type_synonym node_result = "(cxpr_expr_ast option \<times> cxpr_expr_parser) option"
type_synonym items_result = "((string option list \<times> cxpr_expr_ast list) option \<times> cxpr_expr_parser) option"

abbreviation current_type :: "cxpr_expr_parser \<Rightarrow> cxpr_token_type" where
  "current_type p \<equiv> tok_type (ps_current p)"

definition cxpr_expr_parser_advance :: "cxpr_expr_parser \<Rightarrow> cxpr_expr_parser" where
  "cxpr_expr_parser_advance p =
     (let (t, l) = cxpr_lexer_next (ps_lexer p);
          p' = p\<lparr>ps_previous := ps_current p, ps_current := t, ps_lexer := l\<rparr> in
      if tok_type t = CXPR_TOK_ERROR
      then p'\<lparr>ps_had_error := True,
              ps_last_error := \<lparr>err_code = CXPR_ERR_SYNTAX, err_message = tok_text t,
                err_position = tok_position t, err_line = tok_line t, err_column = tok_column t\<rparr>\<rparr>
      else p')"

definition cxpr_expr_parser_check :: "cxpr_expr_parser \<Rightarrow> cxpr_token_type \<Rightarrow> bool" where
  "cxpr_expr_parser_check p ty \<longleftrightarrow> current_type p = ty"

definition cxpr_expr_parser_set_error :: "cxpr_expr_parser \<Rightarrow> string \<Rightarrow> cxpr_expr_parser" where
  "cxpr_expr_parser_set_error p message =
     p\<lparr>ps_had_error := True,
       ps_last_error := \<lparr>err_code = CXPR_ERR_SYNTAX, err_message = message,
         err_position = tok_position (ps_current p), err_line = tok_line (ps_current p),
         err_column = tok_column (ps_current p)\<rparr>\<rparr>"

text \<open>The fields of an out-of-memory report, as set by the callers that take a NULL for one.\<close>

definition set_out_of_memory :: "cxpr_expr_parser \<Rightarrow> cxpr_expr_parser" where
  "set_out_of_memory p =
     p\<lparr>ps_had_error := True,
       ps_last_error := \<lparr>err_code = CXPR_ERR_OUT_OF_MEMORY, err_message = ''Out of memory'',
         err_position = tok_position (ps_current p), err_line = tok_line (ps_current p),
         err_column = tok_column (ps_current p)\<rparr>\<rparr>"

definition cxpr_expr_parser_expect ::
  "cxpr_expr_parser \<Rightarrow> cxpr_token_type \<Rightarrow> string \<Rightarrow> bool \<times> cxpr_expr_parser" where
  "cxpr_expr_parser_expect p ty message =
     (if cxpr_expr_parser_check p ty then (True, cxpr_expr_parser_advance p)
      else (False, cxpr_expr_parser_set_error p message))"

definition cxpr_expr_parser_token_to_string :: "cxpr_token \<Rightarrow> string" where
  "cxpr_expr_parser_token_to_string tok = tok_text tok"

definition cxpr_expr_parser_peek_next :: "cxpr_expr_parser \<Rightarrow> cxpr_token" where
  "cxpr_expr_parser_peek_next p = cxpr_lexer_peek (ps_lexer p)"

definition cxpr_expr_parser_token_starts_primary :: "cxpr_token_type \<Rightarrow> bool" where
  "cxpr_expr_parser_token_starts_primary ty \<longleftrightarrow>
     ty \<in> {CXPR_TOK_NUMBER, CXPR_TOK_IDENTIFIER, CXPR_TOK_VARIABLE, CXPR_TOK_STRING, CXPR_TOK_TRUE,
           CXPR_TOK_FALSE, CXPR_TOK_LPAREN}"

text \<open>\<open>if (!x || p->had_error) return x;\<close> and \<open>if (!x || p->had_error) { ...; return NULL; }\<close>.\<close>

definition or_return :: "node_result \<Rightarrow> (cxpr_expr_ast \<Rightarrow> cxpr_expr_parser \<Rightarrow> node_result) \<Rightarrow> node_result" where
  "or_return r k =
     (case r of None \<Rightarrow> None
      | Some (None, p) \<Rightarrow> Some (None, p)
      | Some (Some x, p) \<Rightarrow> if ps_had_error p then Some (Some x, p) else k x p)"

definition or_null ::
  "node_result \<Rightarrow> (cxpr_expr_ast \<Rightarrow> cxpr_expr_parser \<Rightarrow> ('a option \<times> cxpr_expr_parser) option) \<Rightarrow>
   ('a option \<times> cxpr_expr_parser) option" where
  "or_null r k =
     (case r of None \<Rightarrow> None
      | Some (None, p) \<Rightarrow> Some (None, p)
      | Some (Some x, p) \<Rightarrow> if ps_had_error p then Some (None, p) else k x p)"

text \<open>\<open>if (!cxpr_expr_parser_expect(p, ty, message)) { ...; return NULL; }\<close>.\<close>

definition expect_or_null ::
  "cxpr_expr_parser \<Rightarrow> cxpr_token_type \<Rightarrow> string \<Rightarrow>
   (cxpr_expr_parser \<Rightarrow> ('a option \<times> cxpr_expr_parser) option) \<Rightarrow> ('a option \<times> cxpr_expr_parser) option" where
  "expect_or_null p ty message k =
     (case cxpr_expr_parser_expect p ty message of (True, p') \<Rightarrow> k p' | (False, p') \<Rightarrow> Some (None, p'))"

section \<open>Calls\<close>

datatype nonterm =
    NT_expression | NT_pipe_loop cxpr_expr_ast | NT_ternary
  | NT_or | NT_or_loop cxpr_expr_ast | NT_and | NT_and_loop cxpr_expr_ast | NT_not
  | NT_equality | NT_relational
  | NT_relational_loop "cxpr_expr_ast option" cxpr_token_type cxpr_expr_ast cxpr_expr_ast
  | NT_arithmetic | NT_arithmetic_loop cxpr_expr_ast | NT_term | NT_term_loop cxpr_expr_ast
  | NT_unary | NT_power | NT_primary | NT_index_loop cxpr_expr_ast

datatype item_loop =
    IL_args "string option list" "cxpr_expr_ast list"
  | IL_array "cxpr_expr_ast list"
  | IL_record "string list" "cxpr_expr_ast list"

type_synonym node_calls = "nonterm \<Rightarrow> cxpr_expr_parser \<Rightarrow> node_result"
type_synonym item_calls = "item_loop \<Rightarrow> cxpr_expr_parser \<Rightarrow> items_result"

section \<open>Operators (expression.c)\<close>

definition cxpr_expr_parser_is_relational_token :: "cxpr_token_type \<Rightarrow> bool" where
  "cxpr_expr_parser_is_relational_token ty \<longleftrightarrow>
     ty = CXPR_TOK_LT \<or> ty = CXPR_TOK_GT \<or> ty = CXPR_TOK_LTE \<or> ty = CXPR_TOK_GTE"

definition cxpr_expr_parser_is_subject_node :: "cxpr_expr_ast \<Rightarrow> bool" where
  "cxpr_expr_parser_is_subject_node ast =
     (case ast_data ast of
        CXPR_NODE_IDENTIFIER _ \<Rightarrow> True | CXPR_NODE_VARIABLE _ \<Rightarrow> True
      | CXPR_NODE_FIELD_ACCESS _ _ \<Rightarrow> True | CXPR_NODE_FIELD_EXPR _ _ \<Rightarrow> True
      | CXPR_NODE_CHAIN_ACCESS _ \<Rightarrow> True | CXPR_NODE_INDEX _ _ \<Rightarrow> True
      | CXPR_NODE_PRODUCER_ACCESS _ _ _ _ \<Rightarrow> True
      | _ \<Rightarrow> False)"

definition cxpr_expr_parser_is_threshold_node :: "cxpr_expr_ast \<Rightarrow> bool" where
  "cxpr_expr_parser_is_threshold_node ast =
     (case ast_data ast of CXPR_NODE_NUMBER _ \<Rightarrow> True | CXPR_NODE_VARIABLE _ \<Rightarrow> True | _ \<Rightarrow> False)"

definition cxpr_expr_parser_relational_ops_cross_bounds :: "cxpr_token_type \<Rightarrow> cxpr_token_type \<Rightarrow> bool" where
  "cxpr_expr_parser_relational_ops_cross_bounds first_op next_op \<longleftrightarrow>
     ((first_op = CXPR_TOK_GT \<or> first_op = CXPR_TOK_GTE) \<and> (next_op = CXPR_TOK_LT \<or> next_op = CXPR_TOK_LTE)) \<or>
     ((first_op = CXPR_TOK_LT \<or> first_op = CXPR_TOK_LTE) \<and> (next_op = CXPR_TOK_GT \<or> next_op = CXPR_TOK_GTE))"

definition cxpr_expr_parser_pipe_inject_argument ::
  "cxpr_expr_parser \<Rightarrow> cxpr_expr_ast \<Rightarrow> cxpr_expr_ast \<Rightarrow> cxpr_expr_ast option \<times> cxpr_expr_parser" where
  "cxpr_expr_parser_pipe_inject_argument p stage piped =
     (case ast_data stage of
        CXPR_NODE_IDENTIFIER name \<Rightarrow> (Some (cxpr_expr_ast_call_named_new name [piped] [None]), p)
      | CXPR_NODE_FUNCTION_CALL name args arg_names \<Rightarrow>
          (Some (cxpr_expr_ast_call_named_new name (piped # args) (None # arg_names)), p)
      | CXPR_NODE_PRODUCER_ACCESS name args arg_names field \<Rightarrow>
          (Some (cxpr_expr_ast_producer_field_named_new name (piped # args) (None # arg_names) field), p)
      | _ \<Rightarrow> (None, cxpr_expr_parser_set_error p
               ''Expected callable after '|>' (identifier or function call)''))"

definition cxpr_parse_pipe :: "node_calls \<Rightarrow> cxpr_expr_parser \<Rightarrow> node_result" where
  "cxpr_parse_pipe call p = or_return (call NT_ternary p) (\<lambda>left p. call (NT_pipe_loop left) p)"

definition pipe_loop :: "node_calls \<Rightarrow> cxpr_expr_ast \<Rightarrow> cxpr_expr_parser \<Rightarrow> node_result" where
  "pipe_loop call left p =
     (if cxpr_expr_parser_check p CXPR_TOK_PIPE
      then or_null (call NT_ternary (cxpr_expr_parser_advance p)) (\<lambda>stage p.
             or_null (Some (cxpr_expr_parser_pipe_inject_argument p stage left)) (\<lambda>left p.
               call (NT_pipe_loop left) p))
      else Some (Some left, p))"

definition cxpr_parse_expression :: "node_calls \<Rightarrow> cxpr_expr_parser \<Rightarrow> node_result" where
  "cxpr_parse_expression call p = cxpr_parse_pipe call p"

definition cxpr_parse_ternary :: "node_calls \<Rightarrow> cxpr_expr_parser \<Rightarrow> node_result" where
  "cxpr_parse_ternary call p =
     or_return (call NT_or p) (\<lambda>condition p.
       if cxpr_expr_parser_check p CXPR_TOK_QUESTION
       then or_null (call NT_expression (cxpr_expr_parser_advance p)) (\<lambda>true_branch p.
              expect_or_null p CXPR_TOK_COLON ''Expected ':' in ternary expression'' (\<lambda>p.
                or_null (call NT_expression p) (\<lambda>false_branch p.
                  Some (Some (cxpr_expr_ast_ternary_new condition true_branch false_branch), p))))
       else Some (Some condition, p))"

text \<open>The body shared by the four left-associative operator loops.\<close>

definition binary_loop ::
  "node_calls \<Rightarrow> cxpr_token_type set \<Rightarrow> nonterm \<Rightarrow> (cxpr_expr_ast \<Rightarrow> nonterm) \<Rightarrow> cxpr_expr_ast \<Rightarrow>
   cxpr_expr_parser \<Rightarrow> node_result" where
  "binary_loop call ops operand loop left p =
     (if current_type p \<in> ops
      then or_null (call operand (cxpr_expr_parser_advance p)) (\<lambda>right p'.
             call (loop (cxpr_expr_ast_binary_new (current_type p) left right)) p')
      else Some (Some left, p))"

definition cxpr_parse_or :: "node_calls \<Rightarrow> cxpr_expr_parser \<Rightarrow> node_result" where
  "cxpr_parse_or call p = or_return (call NT_and p) (\<lambda>left p. call (NT_or_loop left) p)"

definition cxpr_parse_and :: "node_calls \<Rightarrow> cxpr_expr_parser \<Rightarrow> node_result" where
  "cxpr_parse_and call p = or_return (call NT_not p) (\<lambda>left p. call (NT_and_loop left) p)"

definition cxpr_parse_not :: "node_calls \<Rightarrow> cxpr_expr_parser \<Rightarrow> node_result" where
  "cxpr_parse_not call p =
     (if cxpr_expr_parser_check p CXPR_TOK_NOT
      then or_null (call NT_not (cxpr_expr_parser_advance p)) (\<lambda>operand p.
             Some (Some (cxpr_expr_ast_unary_new CXPR_TOK_NOT operand), p))
      else call NT_equality p)"

definition cxpr_parse_equality :: "node_calls \<Rightarrow> cxpr_expr_parser \<Rightarrow> node_result" where
  "cxpr_parse_equality call p =
     or_return (call NT_relational p) (\<lambda>left p.
       if cxpr_expr_parser_check p CXPR_TOK_EQ \<or> cxpr_expr_parser_check p CXPR_TOK_NEQ
       then or_null (call NT_relational (cxpr_expr_parser_advance p)) (\<lambda>right p'.
              Some (Some (cxpr_expr_ast_binary_new (current_type p) left right), p'))
       else Some (Some left, p))"

definition cxpr_parse_set_membership ::
  "node_calls \<Rightarrow> cxpr_expr_ast \<Rightarrow> bool \<Rightarrow> cxpr_expr_parser \<Rightarrow> node_result" where
  "cxpr_parse_set_membership call left negated p =
     (if \<not> cxpr_expr_parser_check p CXPR_TOK_LBRACKET
      then Some (None, cxpr_expr_parser_set_error p (''Expected '[' to start set after 'in'' @ [CHR 0x27]))
      else if tok_type (cxpr_expr_parser_peek_next p) = CXPR_TOK_RBRACKET
      then Some (None, cxpr_expr_parser_set_error p ''Set membership requires at least one element'')
      else or_null (call NT_arithmetic p) (\<lambda>array p.
        let contains = cxpr_expr_ast_call_new ''contains'' [left, array] in
        if negated then Some (Some (cxpr_expr_ast_unary_new CXPR_TOK_NOT contains), p)
        else Some (Some contains, p)))"

text \<open>The \<open>while\<close> loop over a chain of comparisons: \<open>chain_subject\<close> and \<open>first_op\<close> are fixed
  before the loop, \<open>left\<close> is the conjunction so far and \<open>right\<close> its last operand.\<close>

definition relational_loop ::
  "node_calls \<Rightarrow> cxpr_expr_ast option \<Rightarrow> cxpr_token_type \<Rightarrow> cxpr_expr_ast \<Rightarrow> cxpr_expr_ast \<Rightarrow>
   cxpr_expr_parser \<Rightarrow> node_result" where
  "relational_loop call chain_subject first_op left right p =
     (if cxpr_expr_parser_is_relational_token (current_type p)
      then let next_op = current_type p;
               subject = (case chain_subject of
                            Some s \<Rightarrow> if cxpr_expr_parser_relational_ops_cross_bounds first_op next_op then s else right
                          | None \<Rightarrow> right) in
        (case cxpr_expr_parser_clone_ast subject of
           None \<Rightarrow> Some (None, set_out_of_memory p)
         | Some next_left \<Rightarrow>
             or_null (call NT_arithmetic (cxpr_expr_parser_advance p)) (\<lambda>next_right p.
               call (NT_relational_loop chain_subject first_op
                      (cxpr_expr_ast_binary_new CXPR_TOK_AND left
                        (cxpr_expr_ast_binary_new next_op next_left next_right)) next_right) p))
      else Some (Some left, p))"

definition cxpr_parse_relational :: "node_calls \<Rightarrow> cxpr_expr_parser \<Rightarrow> node_result" where
  "cxpr_parse_relational call p =
     or_return (call NT_arithmetic p) (\<lambda>left p.
       if cxpr_expr_parser_is_relational_token (current_type p)
       then let op = current_type p in
         or_null (call NT_arithmetic (cxpr_expr_parser_advance p)) (\<lambda>right p.
           if cxpr_expr_parser_is_subject_node left \<and> cxpr_expr_parser_is_threshold_node right
           then (case cxpr_expr_parser_clone_ast left of
                   None \<Rightarrow> Some (None, set_out_of_memory p)
                 | Some s \<Rightarrow> call (NT_relational_loop (Some s) op (cxpr_expr_ast_binary_new op left right) right) p)
           else call (NT_relational_loop None op (cxpr_expr_ast_binary_new op left right) right) p)
       else if (cxpr_expr_parser_check p CXPR_TOK_NOT \<and> tok_type (cxpr_expr_parser_peek_next p) = CXPR_TOK_IN) \<or>
               cxpr_expr_parser_check p CXPR_TOK_IN
       then (if cxpr_expr_parser_check p CXPR_TOK_NOT
             then cxpr_parse_set_membership call left True
                    (cxpr_expr_parser_advance (cxpr_expr_parser_advance p))
             else cxpr_parse_set_membership call left False (cxpr_expr_parser_advance p))
       else Some (Some left, p))"

definition cxpr_parse_arithmetic :: "node_calls \<Rightarrow> cxpr_expr_parser \<Rightarrow> node_result" where
  "cxpr_parse_arithmetic call p = or_return (call NT_term p) (\<lambda>left p. call (NT_arithmetic_loop left) p)"

definition cxpr_parse_term :: "node_calls \<Rightarrow> cxpr_expr_parser \<Rightarrow> node_result" where
  "cxpr_parse_term call p = or_return (call NT_unary p) (\<lambda>left p. call (NT_term_loop left) p)"

definition cxpr_parse_unary :: "node_calls \<Rightarrow> cxpr_expr_parser \<Rightarrow> node_result" where
  "cxpr_parse_unary call p =
     (if cxpr_expr_parser_check p CXPR_TOK_MINUS
      then or_null (call NT_unary (cxpr_expr_parser_advance p)) (\<lambda>operand p.
             Some (Some (cxpr_expr_ast_unary_new CXPR_TOK_MINUS operand), p))
      else if cxpr_expr_parser_check p CXPR_TOK_PLUS then call NT_unary (cxpr_expr_parser_advance p)
      else call NT_power p)"

definition cxpr_parse_power :: "node_calls \<Rightarrow> cxpr_expr_parser \<Rightarrow> node_result" where
  "cxpr_parse_power call p =
     or_return (call NT_primary p) (\<lambda>left p.
       if cxpr_expr_parser_check p CXPR_TOK_POWER
       then or_null (call NT_unary (cxpr_expr_parser_advance p)) (\<lambda>right p.
              Some (Some (cxpr_expr_ast_binary_new CXPR_TOK_POWER left right), p))
       else Some (Some left, p))"

section \<open>Primary expressions (primary.c)\<close>

definition cxpr_window_reduction_name :: "string \<Rightarrow> string option" where
  "cxpr_window_reduction_name name =
     (if name = ''max'' then Some ''__cxpr_window_highest''
      else if name = ''min'' then Some ''__cxpr_window_lowest''
      else if name = ''sum'' then Some ''__cxpr_window_sum''
      else if name = ''mean'' then Some ''__cxpr_window_mean''
      else if name = ''stddev'' then Some ''__cxpr_window_stddev''
      else if name = ''wma'' then Some ''__cxpr_window_wma''
      else if name = ''roc'' then Some ''__cxpr_window_roc''
      else None)"

text \<open>The splice of the window's two arguments in front of the remaining ones.\<close>

definition splice_window :: "cxpr_source_span option \<Rightarrow> string \<Rightarrow> cxpr_expr_ast list \<Rightarrow> string option list \<Rightarrow>
    cxpr_expr_ast list \<Rightarrow> string option list \<Rightarrow> cxpr_expr_ast" where
  "splice_window sp lowered_name wargs wnames args arg_names =
     (let lowered_names = wnames @ tl arg_names in
      Ast sp (CXPR_NODE_FUNCTION_CALL lowered_name (wargs @ tl args)
        (case lowered_names of
           Some n # ns \<Rightarrow> if n = ''expr'' then Some ''value'' # ns else lowered_names
         | _ \<Rightarrow> lowered_names)))"

definition cxpr_parse_lower_window_reduction :: "cxpr_expr_ast \<Rightarrow> cxpr_expr_ast" where
  "cxpr_parse_lower_window_reduction node =
     (case ast_data node of
        CXPR_NODE_FUNCTION_CALL name args arg_names \<Rightarrow>
          if name = ''roc'' \<and> length args = 2
          then Ast (ast_span node) (CXPR_NODE_FUNCTION_CALL ''__cxpr_window_roc'' args arg_names)
          else if \<not> (name = ''mean_absdev'' \<and> length args = 2) \<and> length args \<noteq> 1 then node
          else (case (if name = ''mean_absdev'' \<and> length args = 2 then Some ''__cxpr_window_mean_absdev''
                      else cxpr_window_reduction_name name, ast_data (hd args)) of
                  (Some lowered_name, CXPR_NODE_FUNCTION_CALL wname wargs wnames) \<Rightarrow>
                    if wname = ''window'' \<and> length wargs = 2
                    then splice_window (ast_span node) lowered_name wargs wnames args arg_names
                    else node
                | _ \<Rightarrow> node)
      | _ \<Rightarrow> node)"

definition cxpr_parse_call_argument ::
  "node_calls \<Rightarrow> cxpr_expr_parser \<Rightarrow> ((string option \<times> cxpr_expr_ast) option \<times> cxpr_expr_parser) option" where
  "cxpr_parse_call_argument call p =
     (if cxpr_expr_parser_check p CXPR_TOK_IDENTIFIER \<and>
         tok_type (cxpr_expr_parser_peek_next p) = CXPR_TOK_ASSIGN
      then let name = cxpr_expr_parser_token_to_string (ps_current p) in
        expect_or_null (cxpr_expr_parser_advance p) CXPR_TOK_ASSIGN ''Expected '=' after named argument'' (\<lambda>p.
          or_null (call NT_expression p) (\<lambda>arg p. Some (Some (Some name, arg), p)))
      else or_null (call NT_expression p) (\<lambda>arg p. Some (Some (None, arg), p)))"

text \<open>One argument, then the \<open>while\<close> loop over the commas and the closing parenthesis.\<close>

definition argument_then_loop ::
  "node_calls \<Rightarrow> item_calls \<Rightarrow> string option list \<Rightarrow> cxpr_expr_ast list \<Rightarrow> cxpr_expr_parser \<Rightarrow> items_result" where
  "argument_then_loop call items names args p =
     (case cxpr_parse_call_argument call p of
        None \<Rightarrow> None
      | Some (None, p) \<Rightarrow> Some (None, p)
      | Some (Some (name, arg), p) \<Rightarrow> items (IL_args (names @ [name]) (args @ [arg])) p)"

definition args_end :: "string option list \<Rightarrow> cxpr_expr_ast list \<Rightarrow> cxpr_expr_parser \<Rightarrow> items_result" where
  "args_end names args p =
     expect_or_null p CXPR_TOK_RPAREN ''Expected ')' after function arguments'' (\<lambda>p. Some (Some (names, args), p))"

definition args_loop ::
  "node_calls \<Rightarrow> item_calls \<Rightarrow> string option list \<Rightarrow> cxpr_expr_ast list \<Rightarrow> cxpr_expr_parser \<Rightarrow> items_result" where
  "args_loop call items names args p =
     (if cxpr_expr_parser_check p CXPR_TOK_COMMA
      then argument_then_loop call items names args (cxpr_expr_parser_advance p)
      else args_end names args p)"

definition cxpr_expr_parser_parse_arg_list ::
  "node_calls \<Rightarrow> item_calls \<Rightarrow> cxpr_expr_parser \<Rightarrow> items_result" where
  "cxpr_expr_parser_parse_arg_list call items p =
     (let p = cxpr_expr_parser_advance p in
      if cxpr_expr_parser_check p CXPR_TOK_RPAREN then args_end [] [] p
      else argument_then_loop call items [] [] p)"

text \<open>The \<open>do ... while\<close> loop of an array literal, from one element on.\<close>

definition array_loop ::
  "node_calls \<Rightarrow> item_calls \<Rightarrow> cxpr_expr_ast list \<Rightarrow> cxpr_expr_parser \<Rightarrow> items_result" where
  "array_loop call items elements p =
     or_null (call NT_expression p) (\<lambda>e p.
       if cxpr_expr_parser_check p CXPR_TOK_COMMA
       then items (IL_array (elements @ [e])) (cxpr_expr_parser_advance p)
       else Some (Some ([], elements @ [e]), p))"

definition cxpr_parse_array_literal :: "node_calls \<Rightarrow> item_calls \<Rightarrow> cxpr_expr_parser \<Rightarrow> node_result" where
  "cxpr_parse_array_literal call items p =
     expect_or_null p CXPR_TOK_LBRACKET (''Expected '['' @ [CHR 0x27]) (\<lambda>p.
       case (if cxpr_expr_parser_check p CXPR_TOK_RBRACKET then Some (Some ([], []), p)
             else items (IL_array []) p) of
         None \<Rightarrow> None
       | Some (None, p) \<Rightarrow> Some (None, p)
       | Some (Some (_, elements), p) \<Rightarrow>
           expect_or_null p CXPR_TOK_RBRACKET ''Expected ']' to close array'' (\<lambda>p.
             Some (Some (cxpr_expr_ast_array_new elements), p)))"

text \<open>The \<open>do ... while\<close> loop of a record literal, from one field on. A NULL value is reported as
  out of memory, whatever made the value's parse fail; the position is not reset.\<close>

definition record_value_null :: "cxpr_expr_parser \<Rightarrow> cxpr_expr_parser" where
  "record_value_null p =
     p\<lparr>ps_had_error := True,
       ps_last_error := (ps_last_error p)\<lparr>err_code := CXPR_ERR_OUT_OF_MEMORY, err_message := ''Out of memory''\<rparr>\<rparr>"

definition record_value :: "node_calls \<Rightarrow> string \<Rightarrow> cxpr_expr_parser \<Rightarrow> node_result" where
  "record_value call name p =
     (if cxpr_expr_parser_check p CXPR_TOK_ASSIGN \<or> cxpr_expr_parser_check p CXPR_TOK_COLON
      then call NT_expression (cxpr_expr_parser_advance p)
      else Some (Some (cxpr_expr_ast_identifier_new name), p))"

definition record_loop ::
  "node_calls \<Rightarrow> item_calls \<Rightarrow> string list \<Rightarrow> cxpr_expr_ast list \<Rightarrow> cxpr_expr_parser \<Rightarrow> items_result" where
  "record_loop call items names values p =
     (if \<not> cxpr_expr_parser_check p CXPR_TOK_IDENTIFIER
      then Some (None, cxpr_expr_parser_set_error p ''Expected record field name'')
      else let name = cxpr_expr_parser_token_to_string (ps_current p) in
        (case record_value call name (cxpr_expr_parser_advance p) of
           None \<Rightarrow> None
         | Some (None, p) \<Rightarrow> Some (None, record_value_null p)
         | Some (Some v, p) \<Rightarrow>
             if ps_had_error p then Some (None, p)
             else if cxpr_expr_parser_check p CXPR_TOK_COMMA
             then items (IL_record (names @ [name]) (values @ [v])) (cxpr_expr_parser_advance p)
             else Some (Some (map Some (names @ [name]), values @ [v]), p)))"

definition cxpr_parse_record_literal :: "node_calls \<Rightarrow> item_calls \<Rightarrow> cxpr_expr_parser \<Rightarrow> node_result" where
  "cxpr_parse_record_literal call items p =
     expect_or_null p CXPR_TOK_LBRACE (''Expected '{'' @ [CHR 0x27]) (\<lambda>p.
       case (if cxpr_expr_parser_check p CXPR_TOK_RBRACE then Some (Some ([], []), p)
             else items (IL_record [] []) p) of
         None \<Rightarrow> None
       | Some (None, p) \<Rightarrow> Some (None, p)
       | Some (Some (names, values), p) \<Rightarrow>
           expect_or_null p CXPR_TOK_RBRACE ''Expected '}' to close record'' (\<lambda>p.
             Some (Some (cxpr_expr_ast_record_new (map the names) values), p)))"

definition cxpr_expr_parser_join_segments :: "string list \<Rightarrow> string" where
  "cxpr_expr_parser_join_segments segments = join_dots segments"

text \<open>The \<open>while\<close> loop over \<open>.name\<close>; every round consumes two tokens, so the characters left to
  the lexer bound the rounds. The result carries the segments.\<close>

fun dotted_loop :: "nat \<Rightarrow> string \<Rightarrow> string list \<Rightarrow> cxpr_expr_parser \<Rightarrow>
    (string list option \<times> cxpr_expr_parser) option" where
  "dotted_loop 0 message segments p = None"
| "dotted_loop (Suc n) message segments p =
     (if cxpr_expr_parser_check p CXPR_TOK_DOT
      then let p1 = cxpr_expr_parser_advance p in
        if \<not> cxpr_expr_parser_check p1 CXPR_TOK_IDENTIFIER
        then Some (None, cxpr_expr_parser_set_error p1 message)
        else dotted_loop n message (segments @ [cxpr_expr_parser_token_to_string (ps_current p1)])
               (cxpr_expr_parser_advance p1)
      else Some (Some segments, p))"

definition dotted_segments :: "string \<Rightarrow> string \<Rightarrow> cxpr_expr_parser \<Rightarrow>
    (string list option \<times> cxpr_expr_parser) option" where
  "dotted_segments message name p = dotted_loop (Suc (Suc (length (lx_current (ps_lexer p))))) message [name] p"

text \<open>The end position of a token: the scan of its characters in the source buffer. \<open>None\<close> is a
  read at or past the end of the buffer.\<close>

fun scan_end :: "nat \<Rightarrow> string \<Rightarrow> cxpr_source_pos \<Rightarrow> cxpr_source_pos option" where
  "scan_end 0 cs pos = Some pos"
| "scan_end (Suc n) [] pos = None"
| "scan_end (Suc n) (c # cs) pos =
     scan_end n cs
       (if c = CHR 0x0A
        then \<lparr>sp_offset = Suc (sp_offset pos), sp_line = Suc (sp_line pos), sp_column = 0\<rparr>
        else \<lparr>sp_offset = Suc (sp_offset pos), sp_line = sp_line pos, sp_column = Suc (sp_column pos)\<rparr>)"

definition token_start :: "cxpr_token \<Rightarrow> cxpr_source_pos" where
  "token_start t = \<lparr>sp_offset = tok_position t, sp_line = tok_line t, sp_column = tok_column t - 1\<rparr>"

definition token_width :: "cxpr_token \<Rightarrow> nat" where
  "token_width t =
     length (tok_text t) +
     (if tok_type t = CXPR_TOK_STRING then 2 else if tok_type t = CXPR_TOK_VARIABLE then 1 else 0)"

definition cxpr_expr_parser_token_end :: "cxpr_expr_parser \<Rightarrow> cxpr_token \<Rightarrow> cxpr_source_pos option" where
  "cxpr_expr_parser_token_end p t =
     scan_end (token_width t) (drop (tok_position t) (lx_source (ps_lexer p))) (token_start t)"

text \<open>The field name after a call or a parenthesised expression.\<close>

definition field_after_dot ::
  "cxpr_expr_parser \<Rightarrow> (string \<Rightarrow> cxpr_expr_ast) \<Rightarrow> node_result" where
  "field_after_dot p mk =
     (let p1 = cxpr_expr_parser_advance p in
      if \<not> cxpr_expr_parser_check p1 CXPR_TOK_IDENTIFIER
      then Some (None, cxpr_expr_parser_set_error p1 (''Expected field name after '.'' @ [CHR 0x27]))
      else Some (Some (mk (cxpr_expr_parser_token_to_string (ps_current p1))), cxpr_expr_parser_advance p1))"

text \<open>A call, once the name is known and the current token is the opening parenthesis;
  \<open>lower\<close> is the window lowering for a plain name and the identity for a dotted one.\<close>

definition primary_call ::
  "node_calls \<Rightarrow> item_calls \<Rightarrow> (cxpr_expr_ast \<Rightarrow> cxpr_expr_ast) \<Rightarrow> string \<Rightarrow> cxpr_expr_parser \<Rightarrow> node_result" where
  "primary_call call items lower name p =
     (case cxpr_expr_parser_parse_arg_list call items p of
        None \<Rightarrow> None
      | Some (None, p) \<Rightarrow> Some (None, p)
      | Some (Some (names, args), p) \<Rightarrow>
          if cxpr_expr_parser_check p CXPR_TOK_DOT
          then field_after_dot p (cxpr_expr_ast_producer_field_named_new name args names)
          else Some (Some (lower (cxpr_expr_ast_call_named_new name args names)), p))"

definition primary_variable :: "cxpr_expr_parser \<Rightarrow> node_result" where
  "primary_variable p =
     (let name = cxpr_expr_parser_token_to_string (ps_current p); p1 = cxpr_expr_parser_advance p in
      if cxpr_expr_parser_check p1 CXPR_TOK_DOT
      then (case dotted_segments (''Expected parameter segment after '.'' @ [CHR 0x27]) name p1 of
              None \<Rightarrow> None
            | Some (None, p2) \<Rightarrow> Some (None, p2)
            | Some (Some segments, p2) \<Rightarrow>
                Some (Some (cxpr_expr_ast_param_new (cxpr_expr_parser_join_segments segments)), p2))
      else Some (Some (cxpr_expr_ast_param_new name), p1))"

definition primary_identifier :: "node_calls \<Rightarrow> item_calls \<Rightarrow> cxpr_expr_parser \<Rightarrow> node_result" where
  "primary_identifier call items p =
     (let name = cxpr_expr_parser_token_to_string (ps_current p); p1 = cxpr_expr_parser_advance p in
      if cxpr_expr_parser_check p1 CXPR_TOK_LPAREN
      then primary_call call items cxpr_parse_lower_window_reduction name p1
      else if cxpr_expr_parser_check p1 CXPR_TOK_DOT
      then (case dotted_segments (''Expected field name after '.'' @ [CHR 0x27]) name p1 of
              None \<Rightarrow> None
            | Some (None, p2) \<Rightarrow> Some (None, p2)
            | Some (Some segments, p2) \<Rightarrow>
                if cxpr_expr_parser_check p2 CXPR_TOK_LPAREN
                then primary_call call items (\<lambda>n. n) (cxpr_expr_parser_join_segments segments) p2
                else if length segments = 2
                then Some (Some (cxpr_expr_ast_field_new (segments ! 0) (segments ! 1)), p2)
                else Some (cxpr_expr_ast_new_chain_access segments, p2))
      else Some (Some (cxpr_expr_ast_identifier_new name), p1))"

definition primary_paren :: "node_calls \<Rightarrow> cxpr_expr_parser \<Rightarrow> node_result" where
  "primary_paren call p =
     or_null (call NT_expression p) (\<lambda>node p.
       expect_or_null p CXPR_TOK_RPAREN (''Expected closing ')'' @ [CHR 0x27]) (\<lambda>p.
         if cxpr_expr_parser_check p CXPR_TOK_DOT
         then field_after_dot p (cxpr_expr_ast_field_expr_new node)
         else Some (Some node, p)))"

text \<open>The token dispatch, up to the label \<open>primary_done\<close>.\<close>

definition primary_atom :: "node_calls \<Rightarrow> item_calls \<Rightarrow> cxpr_expr_parser \<Rightarrow> node_result" where
  "primary_atom call items p =
     (let t = ps_current p; p1 = cxpr_expr_parser_advance p in
      case tok_type t of
        CXPR_TOK_NUMBER \<Rightarrow>
          Some (Some (if tok_is_int64 t then cxpr_expr_ast_int64_new (tok_int64_value t)
                      else cxpr_expr_ast_number_new (tok_number_value t)), p1)
      | CXPR_TOK_TRUE \<Rightarrow> Some (Some (cxpr_expr_ast_bool_new True), p1)
      | CXPR_TOK_FALSE \<Rightarrow> Some (Some (cxpr_expr_ast_bool_new False), p1)
      | CXPR_TOK_STRING \<Rightarrow> Some (Some (cxpr_expr_ast_new_string (tok_text t)), p1)
      | CXPR_TOK_VARIABLE \<Rightarrow> primary_variable p
      | CXPR_TOK_IDENTIFIER \<Rightarrow> primary_identifier call items p
      | CXPR_TOK_LPAREN \<Rightarrow> primary_paren call p1
      | CXPR_TOK_LBRACKET \<Rightarrow> cxpr_parse_array_literal call items p
      | CXPR_TOK_LBRACE \<Rightarrow> cxpr_parse_record_literal call items p
      | _ \<Rightarrow> Some (None, cxpr_expr_parser_set_error p ''Unexpected token''))"

definition index_loop :: "node_calls \<Rightarrow> cxpr_expr_ast \<Rightarrow> cxpr_expr_parser \<Rightarrow> node_result" where
  "index_loop call node p =
     (if cxpr_expr_parser_check p CXPR_TOK_LBRACKET
      then or_null (call NT_expression (cxpr_expr_parser_advance p)) (\<lambda>index_expr p.
             expect_or_null p CXPR_TOK_RBRACKET ''Expected closing ']' after index expression'' (\<lambda>p.
               call (NT_index_loop (cxpr_expr_ast_index_new node index_expr)) p))
      else Some (Some node, p))"

definition cxpr_parse_primary :: "node_calls \<Rightarrow> item_calls \<Rightarrow> cxpr_expr_parser \<Rightarrow> node_result" where
  "cxpr_parse_primary call items p =
     (case primary_atom call items p of
        None \<Rightarrow> None
      | Some (None, p1) \<Rightarrow> Some (None, p1)
      | Some (Some node, p1) \<Rightarrow>
          (case call (NT_index_loop node) p1 of
             None \<Rightarrow> None
           | Some (None, p2) \<Rightarrow> Some (None, p2)
           | Some (Some node, p2) \<Rightarrow>
               (case cxpr_expr_parser_token_end p2 (ps_previous p2) of
                  None \<Rightarrow> None
                | Some e \<Rightarrow>
                    Some (Some (cxpr_expr_ast_set_source_span node
                            \<lparr>span_start = token_start (ps_current p), span_end = e\<rparr>), p2))))"

section \<open>Tying the knot\<close>

definition parse_step :: "node_calls \<Rightarrow> item_calls \<Rightarrow> node_calls" where
  "parse_step call items nt p =
     (case nt of
        NT_expression \<Rightarrow> cxpr_parse_expression call p
      | NT_pipe_loop left \<Rightarrow> pipe_loop call left p
      | NT_ternary \<Rightarrow> cxpr_parse_ternary call p
      | NT_or \<Rightarrow> cxpr_parse_or call p
      | NT_or_loop left \<Rightarrow> binary_loop call {CXPR_TOK_OR} NT_and NT_or_loop left p
      | NT_and \<Rightarrow> cxpr_parse_and call p
      | NT_and_loop left \<Rightarrow> binary_loop call {CXPR_TOK_AND} NT_not NT_and_loop left p
      | NT_not \<Rightarrow> cxpr_parse_not call p
      | NT_equality \<Rightarrow> cxpr_parse_equality call p
      | NT_relational \<Rightarrow> cxpr_parse_relational call p
      | NT_relational_loop s op l r \<Rightarrow> relational_loop call s op l r p
      | NT_arithmetic \<Rightarrow> cxpr_parse_arithmetic call p
      | NT_arithmetic_loop left \<Rightarrow>
          binary_loop call {CXPR_TOK_PLUS, CXPR_TOK_MINUS} NT_term NT_arithmetic_loop left p
      | NT_term \<Rightarrow> cxpr_parse_term call p
      | NT_term_loop left \<Rightarrow>
          binary_loop call {CXPR_TOK_STAR, CXPR_TOK_SLASH, CXPR_TOK_PERCENT} NT_unary NT_term_loop left p
      | NT_unary \<Rightarrow> cxpr_parse_unary call p
      | NT_power \<Rightarrow> cxpr_parse_power call p
      | NT_primary \<Rightarrow> cxpr_parse_primary call items p
      | NT_index_loop node \<Rightarrow> index_loop call node p)"

definition items_step :: "node_calls \<Rightarrow> item_calls \<Rightarrow> item_calls" where
  "items_step call items il p =
     (case il of
        IL_args names args \<Rightarrow> args_loop call items names args p
      | IL_array elements \<Rightarrow> array_loop call items elements p
      | IL_record names values \<Rightarrow> record_loop call items names values p)"

fun parse :: "nat \<Rightarrow> node_calls" and parse_items :: "nat \<Rightarrow> item_calls" where
  "parse 0 nt p = None"
| "parse (Suc n) nt p = parse_step (parse n) (parse_items n) nt p"
| "parse_items 0 il p = None"
| "parse_items (Suc n) il p = items_step (parse n) (parse_items n) il p"

text \<open>A bound on the depth of the calls for a source of a given length.\<close>

definition parser_fuel :: "string \<Rightarrow> nat" where
  "parser_fuel source = 16 * (length source + 2)"

definition cxpr_error_zero :: cxpr_error where
  "cxpr_error_zero = \<lparr>err_code = CXPR_OK, err_message = [], err_position = 0, err_line = 0, err_column = 0\<rparr>"

text \<open>
  The public entry point, for a parser object in any state and an expression that is not NULL:
  the tree or NULL, the error the caller's \<open>err\<close> receives (\<open>None\<close> where only its code is set to
  \<open>CXPR_OK\<close>), and the parser object afterwards.
\<close>

definition cxpr_expr_ast_parse ::
  "cxpr_expr_parser \<Rightarrow> string \<Rightarrow> (cxpr_expr_ast option \<times> cxpr_error option \<times> cxpr_expr_parser) option" where
  "cxpr_expr_ast_parse p expression =
     (let p1 = cxpr_expr_parser_advance
                 (p\<lparr>ps_lexer := cxpr_lexer_init expression, ps_had_error := False,
                    ps_last_error := cxpr_error_zero\<rparr>) in
      if ps_had_error p1 then Some (None, Some (ps_last_error p1), p1)
      else (case parse (parser_fuel expression) NT_expression p1 of
              None \<Rightarrow> None
            | Some (ast, p2) \<Rightarrow>
                if ps_had_error p2 then Some (None, Some (ps_last_error p2), p2)
                else if \<not> cxpr_expr_parser_check p2 CXPR_TOK_EOF
                then let p3 = cxpr_expr_parser_set_error p2
                           (if cxpr_expr_parser_token_starts_primary (current_type p2)
                            then ''Implicit multiplication is not supported; use '*' explicitly''
                            else ''Unexpected token after expression'') in
                     Some (None, Some (ps_last_error p3), p3)
                else Some (ast, None, p2)))"

end
