(* ===== verification/Cxpr_Parser_Safety.thy ===== *)
theory Cxpr_Parser_Safety
  imports Cxpr_Parser
begin

text \<open>
  What holds of every run of the parser: the calls stay within the fuel, so parsing returns; the
  reads of the source stay inside it; a NULL comes with an error that has a position in the
  source; the tree is well formed and its spans are ranges of the source. The contract every
  parsing function relies on and keeps is the locale \<open>parser_calls\<close>; \<open>knot\<close> interprets it on the
  parser itself, for every fuel.
\<close>

section \<open>Positions and tokens of a source\<close>

definition pos_ok :: "string \<Rightarrow> cxpr_source_pos \<Rightarrow> bool" where
  "pos_ok src pos \<longleftrightarrow> sp_offset pos \<le> length src \<and> sp_line pos = line_at src (sp_offset pos) \<and>
     Suc (sp_column pos) = column_at src (sp_offset pos)"

definition span_ok :: "string \<Rightarrow> cxpr_source_span \<Rightarrow> bool" where
  "span_ok src sp \<longleftrightarrow> pos_ok src (span_start sp) \<and> pos_ok src (span_end sp) \<and>
     sp_offset (span_start sp) \<le> sp_offset (span_end sp)"

text \<open>A token lies at its position, and inside the source unless it carries an error message.\<close>

definition tok_ok :: "string \<Rightarrow> cxpr_token \<Rightarrow> bool" where
  "tok_ok src t \<longleftrightarrow> tok_position t \<le> length src \<and> tok_line t = line_at src (tok_position t) \<and>
     tok_column t = column_at src (tok_position t) \<and>
     (tok_type t \<noteq> CXPR_TOK_ERROR \<longrightarrow> tok_position t + token_width t \<le> length src)"

lemma line_at_Suc:
  "k < length src \<Longrightarrow> line_at src (Suc k) = (if src ! k = CHR 0x0A then Suc (line_at src k) else line_at src k)"
  by (simp add: line_at_def take_Suc_conv_app_nth)

lemma column_at_Suc:
  "k < length src \<Longrightarrow> column_at src (Suc k) = (if src ! k = CHR 0x0A then 1 else Suc (column_at src k))"
  by (simp add: column_at_def take_Suc_conv_app_nth)

lemma column_at_pos: "0 < column_at src k"
  by (simp add: column_at_def)

lemma token_start_ok: "tok_ok src t \<Longrightarrow> pos_ok src (token_start t) \<and> sp_offset (token_start t) = tok_position t"
  using column_at_pos [of src "tok_position t"] by (simp add: tok_ok_def pos_ok_def token_start_def)

lemma scan_end_ok:
  assumes "pos_ok src pos" "sp_offset pos + n \<le> length src"
  shows "\<exists>e. scan_end n (drop (sp_offset pos) src) pos = Some e \<and> pos_ok src e \<and> sp_offset e = sp_offset pos + n"
  using assms
proof (induction n arbitrary: pos)
  case (Suc n)
  let ?k = "sp_offset pos"
  have k: "?k < length src" using Suc.prems by simp
  then have d: "drop ?k src = src ! ?k # drop (Suc ?k) src" by (rule Cons_nth_drop_Suc [symmetric])
  let ?q = "if src ! ?k = CHR 0x0A
            then \<lparr>sp_offset = Suc ?k, sp_line = Suc (sp_line pos), sp_column = 0\<rparr>
            else \<lparr>sp_offset = Suc ?k, sp_line = sp_line pos, sp_column = Suc (sp_column pos)\<rparr>"
  have q: "sp_offset ?q = Suc ?k" by simp
  have "pos_ok src ?q" using Suc.prems k by (auto simp: pos_ok_def line_at_Suc column_at_Suc)
  from Suc.IH [OF this] Suc.prems(2) show ?case unfolding d scan_end.simps q by simp
qed simp

lemma token_end_ok:
  assumes "tok_ok (lx_source (ps_lexer p)) t" "tok_type t \<noteq> CXPR_TOK_ERROR"
  obtains e where "cxpr_expr_parser_token_end p t = Some e" "pos_ok (lx_source (ps_lexer p)) e"
    "sp_offset e = tok_position t + token_width t"
proof -
  note s = token_start_ok [OF assms(1)]
  have "sp_offset (token_start t) + token_width t \<le> length (lx_source (ps_lexer p))"
    using assms s by (simp add: tok_ok_def)
  from scan_end_ok [OF conjunct1 [OF s] this] s show thesis
    by (auto simp: cxpr_expr_parser_token_end_def intro: that)
qed

section \<open>The parser state\<close>

abbreviation src_of :: "cxpr_expr_parser \<Rightarrow> string" where "src_of p \<equiv> lx_source (ps_lexer p)"
abbreviation tpos :: "cxpr_expr_parser \<Rightarrow> nat" where "tpos p \<equiv> tok_position (ps_current p)"

definition tok_end :: "cxpr_token \<Rightarrow> nat" where
  "tok_end t = tok_position t + (if tok_type t = CXPR_TOK_ERROR then 0 else token_width t)"

text \<open>A recorded error has a code and stands at a position of the source.\<close>

definition error_ok :: "string \<Rightarrow> cxpr_error \<Rightarrow> bool" where
  "error_ok src e \<longleftrightarrow> err_code e \<in> {CXPR_ERR_SYNTAX, CXPR_ERR_OUT_OF_MEMORY} \<and> err_position e \<le> length src \<and>
     err_line e = line_at src (err_position e) \<and> err_column e = column_at src (err_position e)"

definition pinv :: "cxpr_expr_parser \<Rightarrow> bool" where
  "pinv p \<longleftrightarrow> lx_ok (ps_lexer p) \<and> tok_ok (src_of p) (ps_current p) \<and>
     tok_end (ps_current p) \<le> lx_position (ps_lexer p) \<and>
     (current_type p = CXPR_TOK_EOF \<longrightarrow> lx_position (ps_lexer p) = length (src_of p)) \<and>
     (current_type p = CXPR_TOK_ERROR \<longrightarrow> ps_had_error p) \<and>
     (ps_had_error p \<longrightarrow> error_ok (src_of p) (ps_last_error p))"

definition prev_ok :: "cxpr_expr_parser \<Rightarrow> bool" where
  "prev_ok p \<longleftrightarrow> tok_ok (src_of p) (ps_previous p) \<and> tok_type (ps_previous p) \<noteq> CXPR_TOK_ERROR \<and>
     tok_end (ps_previous p) \<le> tpos p"

text \<open>What is left to read: nothing at the end of input, otherwise the current token and the rest.\<close>

definition left_to_read :: "cxpr_expr_parser \<Rightarrow> nat" where
  "left_to_read p = (if current_type p = CXPR_TOK_EOF then 0 else Suc (length (lx_current (ps_lexer p))))"

text \<open>\<open>p'\<close> is a later state of the same run.\<close>

definition later :: "cxpr_expr_parser \<Rightarrow> cxpr_expr_parser \<Rightarrow> bool" where
  "later p p' \<longleftrightarrow> pinv p' \<and> src_of p' = src_of p \<and> left_to_read p' \<le> left_to_read p \<and> tpos p \<le> tpos p' \<and>
     (ps_had_error p \<longrightarrow> ps_had_error p') \<and>
     (if left_to_read p' < left_to_read p then prev_ok p' \<and> tpos p \<le> tok_position (ps_previous p')
      else ps_previous p' = ps_previous p)"

lemma later_refl [simp]: "pinv p \<Longrightarrow> later p p"
  by (simp add: later_def)

lemma later_trans: "later p q \<Longrightarrow> later q r \<Longrightarrow> later p r"
  by (auto simp: later_def prev_ok_def split: if_splits)

lemma later_pinv: "later p q \<Longrightarrow> pinv q"
  by (simp add: later_def)

lemma later_set_error: "pinv p \<Longrightarrow> later p (cxpr_expr_parser_set_error p m)"
  by (auto simp: later_def pinv_def cxpr_expr_parser_set_error_def left_to_read_def prev_ok_def
      error_ok_def tok_ok_def)

lemma later_set_oom: "pinv p \<Longrightarrow> later p (set_out_of_memory p)"
  by (auto simp: later_def pinv_def set_out_of_memory_def left_to_read_def prev_ok_def
      error_ok_def tok_ok_def)

lemma later_record_null: "pinv p \<Longrightarrow> ps_had_error p \<Longrightarrow> later p (record_value_null p)"
  by (auto simp: later_def pinv_def record_value_null_def left_to_read_def prev_ok_def error_ok_def)

lemma error_flags [simp]:
  "ps_had_error (cxpr_expr_parser_set_error p m)" "ps_had_error (set_out_of_memory p)"
  "ps_had_error (record_value_null p)"
  by (simp_all add: cxpr_expr_parser_set_error_def set_out_of_memory_def record_value_null_def)

lemma raw_text_length: "length (raw_text l t) = token_width t"
  by (simp add: raw_text_def token_width_def)

lemma lexer_next_token:
  assumes ok: "lx_ok l" and n: "cxpr_lexer_next l = (t, l')"
  shows "tok_ok (lx_source l) t" "lx_position l \<le> tok_position t" "tok_end t \<le> lx_position l'"
proof -
  define m where "m = cxpr_lexer_skip_whitespace l"
  note c = lexer_next_cases [OF ok n m_def]
  have lm: "lx_le l m" using skip_whitespace_le [OF ok] by (simp add: m_def)
  have ml: "lx_le m l'" using c lx_le_refl [OF lx_le_ok [OF lm]] by auto
  have tk: "token_ok m t l'" using lexer_next_le(2) [OF ok n] by (simp add: m_def)
  note bounds = lm ml [unfolded lx_le_def lx_ok_def] lm [unfolded lx_le_def lx_ok_def]
  have all: "tok_ok (lx_source l) t \<and> lx_position l \<le> tok_position t \<and> tok_end t \<le> lx_position l'"
  proof (cases "tok_type t = CXPR_TOK_ERROR")
    case True
    with tk bounds show ?thesis by (auto simp: token_ok_def tok_ok_def tok_end_def)
  next
    case False
    with tk have raw: "raw_text m t = take (lx_position l' - lx_position m) (lx_current m)"
      and p: "tok_position t = lx_position m" "tok_line t = lx_line m" "tok_column t = lx_column m"
      by (auto simp: token_ok_def)
    have "token_width t \<le> lx_position l' - lx_position m"
      unfolding raw_text_length [of m, symmetric] raw by simp
    with False p bounds show ?thesis by (auto simp: tok_ok_def tok_end_def)
  qed
  then show "tok_ok (lx_source l) t" "lx_position l \<le> tok_position t" "tok_end t \<le> lx_position l'" by auto
qed

lemma advance_later:
  assumes p: "pinv p" and c: "current_type p \<noteq> CXPR_TOK_EOF" "current_type p \<noteq> CXPR_TOK_ERROR"
  shows "later p (cxpr_expr_parser_advance p)"
    "left_to_read (cxpr_expr_parser_advance p) < left_to_read p"
proof -
  obtain t l where n: "cxpr_lexer_next (ps_lexer p) = (t, l)" by (cases "cxpr_lexer_next (ps_lexer p)")
  have ok: "lx_ok (ps_lexer p)" using p by (simp add: pinv_def)
  note le = lexer_next_le [OF ok n] and tk = lexer_next_token [OF ok n]
  let ?q = "cxpr_expr_parser_advance p"
  have q: "ps_lexer ?q = l" "ps_current ?q = t" "ps_previous ?q = ps_current p"
    "ps_had_error ?q = (ps_had_error p \<or> tok_type t = CXPR_TOK_ERROR)"
    by (auto simp: cxpr_expr_parser_advance_def n Let_def)
  have src: "lx_source l = src_of p" using le(1) by (simp add: lx_le_def)
  have err: "ps_last_error ?q = (if tok_type t = CXPR_TOK_ERROR
      then \<lparr>err_code = CXPR_ERR_SYNTAX, err_message = tok_text t, err_position = tok_position t,
            err_line = tok_line t, err_column = tok_column t\<rparr> else ps_last_error p)"
    by (simp add: cxpr_expr_parser_advance_def n Let_def)
  have inv: "pinv ?q" using le tk src lx_le_ok p by (auto simp: pinv_def q err error_ok_def tok_ok_def)
  have rest: "length (lx_current l) < length (lx_current (ps_lexer p)) \<or> tok_type t = CXPR_TOK_EOF"
    using le(1) le(4) ok by (auto simp: lx_le_def lx_ok_def)
  then show dec: "left_to_read ?q < left_to_read p"
    using c by (auto simp: left_to_read_def q)
  have "tok_end (ps_current p) \<le> tpos ?q"
    using p tk(2) by (simp add: pinv_def q)
  then show "later p ?q" using inv dec p c src
    by (auto simp: later_def q prev_ok_def pinv_def tok_end_def)
qed

section \<open>The contract of a call\<close>

text \<open>A node lies between two offsets of the source.\<close>

definition within :: "nat \<Rightarrow> nat \<Rightarrow> cxpr_expr_ast \<Rightarrow> bool" where
  "within lo hi a \<longleftrightarrow>
     (case ast_span a of None \<Rightarrow> True
      | Some sp \<Rightarrow> lo \<le> sp_offset (span_start sp) \<and> sp_offset (span_start sp) \<le> sp_offset (span_end sp) \<and>
          sp_offset (span_end sp) \<le> hi)"

definition node_ok :: "string \<Rightarrow> cxpr_expr_ast \<Rightarrow> bool" where
  "node_ok src a \<longleftrightarrow> node_wf (ast_data a) \<and> (case ast_span a of None \<Rightarrow> True | Some sp \<Rightarrow> span_ok src sp)"

text \<open>Every node of the tree is well formed and every span it carries is a range of the source
  with the right lines and columns.\<close>

definition ast_ok :: "string \<Rightarrow> cxpr_expr_ast \<Rightarrow> bool" where
  "ast_ok src = ast_all (node_ok src)"

lemma ast_ok_Ast:
  "ast_ok src (Ast sp d) \<longleftrightarrow> node_ok src (Ast sp d) \<and> (\<forall>c \<in> set (ast_children (Ast sp d)). ast_ok src c)"
  by (simp add: ast_ok_def ast_all.simps [of _ "Ast sp d"] del: ast_children.simps)

lemma ast_ok_span: "ast_ok src a \<Longrightarrow> ast_span a = Some sp \<Longrightarrow> span_ok src sp"
  by (cases a) (auto simp: ast_ok_Ast node_ok_def)

lemma ast_ok_wf: "ast_ok src a \<Longrightarrow> ast_wf a"
proof (induction a rule: ast_induct)
  case (node a)
  then show ?case by (cases a) (auto simp: ast_ok_Ast node_ok_def simp del: ast_children.simps)
qed

lemma ast_strip_ok: "ast_wf a \<Longrightarrow> ast_ok src (ast_strip a)"
proof (induction a rule: ast_induct)
  case (node a)
  then show ?case by (cases a; cases "ast_data a") (auto simp: ast_ok_Ast node_ok_def)
qed

lemma within_strip [simp]: "within lo hi (ast_strip a)"
  by (simp add: within_def)

lemma within_mono: "within lo hi a \<Longrightarrow> lo' \<le> lo \<Longrightarrow> hi \<le> hi' \<Longrightarrow> within lo' hi' a"
  by (auto simp: within_def split: option.splits)

text \<open>Results: a NULL comes with the error flag, a value satisfies \<open>Q\<close>.\<close>

definition res_ok :: "('a \<Rightarrow> cxpr_expr_parser \<Rightarrow> bool) \<Rightarrow> cxpr_expr_parser \<Rightarrow> ('a option \<times> cxpr_expr_parser) option \<Rightarrow> bool" where
  "res_ok Q p r =
     (case r of None \<Rightarrow> False
      | Some (None, q) \<Rightarrow> later p q \<and> ps_had_error q
      | Some (Some x, q) \<Rightarrow> later p q \<and> Q x q)"

definition good_node :: "nat \<Rightarrow> cxpr_expr_ast \<Rightarrow> cxpr_expr_parser \<Rightarrow> bool" where
  "good_node lo a q \<longleftrightarrow> ast_ok (src_of q) a \<and> within lo (tpos q) a"

lemma good_node_later: "good_node lo a p \<Longrightarrow> later p q \<Longrightarrow> good_node lo a q"
  by (auto simp: good_node_def later_def intro: within_mono)

lemma res_ok_Some [simp]: "res_ok Q p (Some (Some x, q)) \<longleftrightarrow> later p q \<and> Q x q"
  by (simp add: res_ok_def)

lemma res_ok_NULL [simp]: "res_ok Q p (Some (None, q)) \<longleftrightarrow> later p q \<and> ps_had_error q"
  by (simp add: res_ok_def)

lemma res_ok_weaken: "res_ok Q p r \<Longrightarrow> (\<And>x q. later p q \<Longrightarrow> Q x q \<Longrightarrow> R x q) \<Longrightarrow> res_ok R p r"
  by (auto simp: res_ok_def split: option.splits)

lemma res_ok_later: "later p q \<Longrightarrow> res_ok Q q r \<Longrightarrow> res_ok Q p r"
  by (auto simp: res_ok_def split: option.splits dest: later_trans)

lemma res_ok_cases:
  assumes "res_ok Q p r"
  obtains (null) q where "r = Some (None, q)" "later p q" "ps_had_error q"
  | (result) x q where "r = Some (Some x, q)" "later p q" "Q x q"
proof (cases r)
  case None
  then show thesis using assms by (simp add: res_ok_def)
next
  case (Some aq)
  obtain a q where "aq = (a, q)" by (cases aq)
  with Some assms null result show thesis by (cases a) (auto simp: res_ok_def)
qed

lemma res_ok_case:
  assumes "res_ok Q p r" "\<And>x q. later p q \<Longrightarrow> Q x q \<Longrightarrow> res_ok R q (k x q)"
  shows "res_ok R p (case r of None \<Rightarrow> None | Some (None, q) \<Rightarrow> Some (None, q) | Some (Some x, q) \<Rightarrow> k x q)"
  using assms(1) by (cases rule: res_ok_cases) (auto intro: res_ok_later assms(2))

lemma res_ok_case2:
  assumes "res_ok Q p r" "\<And>x y q. later p q \<Longrightarrow> Q (x, y) q \<Longrightarrow> res_ok R q (k x y q)"
  shows "res_ok R p (case r of None \<Rightarrow> None | Some (None, q) \<Rightarrow> Some (None, q) | Some (Some (x, y), q) \<Rightarrow> k x y q)"
proof -
  have "res_ok R p (case r of None \<Rightarrow> None | Some (None, q) \<Rightarrow> Some (None, q)
      | Some (Some z, q) \<Rightarrow> (\<lambda>z q. k (fst z) (snd z) q) z q)"
    by (rule res_ok_case [OF assms(1)]) (use assms(2) in auto)
  then show ?thesis by (auto split: option.splits prod.splits)
qed

lemma or_null_ok:
  assumes "res_ok Q p r" "\<And>x q. later p q \<Longrightarrow> \<not> ps_had_error q \<Longrightarrow> Q x q \<Longrightarrow> res_ok R q (k x q)"
  shows "res_ok R p (or_null r k)"
  using assms(1) by (cases rule: res_ok_cases) (auto simp: or_null_def intro: res_ok_later assms(2))

lemma or_return_ok:
  assumes "res_ok Q p r" "\<And>x q. later p q \<Longrightarrow> \<not> ps_had_error q \<Longrightarrow> Q x q \<Longrightarrow> res_ok Q q (k x q)"
  shows "res_ok Q p (or_return r k)"
  using assms(1) by (cases rule: res_ok_cases) (auto simp: or_return_def intro: res_ok_later assms(2))

lemma if_ok: "(c \<Longrightarrow> res_ok R p a) \<Longrightarrow> (\<not> c \<Longrightarrow> res_ok R p b) \<Longrightarrow> res_ok R p (if c then a else b)"
  by simp

lemma advance_ok:
  assumes "pinv p" "current_type p = ty" "ty \<noteq> CXPR_TOK_EOF" "ty \<noteq> CXPR_TOK_ERROR"
    and "\<And>q. later p q \<Longrightarrow> left_to_read q < left_to_read p \<Longrightarrow> q = cxpr_expr_parser_advance p \<Longrightarrow> res_ok R q (k q)"
  shows "res_ok R p (k (cxpr_expr_parser_advance p))"
  using advance_later [of p] assms res_ok_later by blast

lemma expect_ok:
  assumes "pinv p" "ty \<noteq> CXPR_TOK_EOF" "ty \<noteq> CXPR_TOK_ERROR"
    and "\<And>q. later p q \<Longrightarrow> left_to_read q < left_to_read p \<Longrightarrow> res_ok R q (k q)"
  shows "res_ok R p (expect_or_null p ty m k)"
proof (cases "current_type p = ty")
  case True
  with assms have "later p (cxpr_expr_parser_advance p)"
    "left_to_read (cxpr_expr_parser_advance p) < left_to_read p" using advance_later [of p] by auto
  with True show ?thesis using res_ok_later [OF _ assms(4)]
    by (simp add: expect_or_null_def cxpr_expr_parser_expect_def cxpr_expr_parser_check_def)
next
  case False
  then show ?thesis using later_set_error [OF assms(1)]
    by (simp add: expect_or_null_def cxpr_expr_parser_expect_def cxpr_expr_parser_check_def)
qed

section \<open>Nodes built from good parts\<close>

lemma span_ok_join:
  "span_ok src f \<Longrightarrow> span_ok src l \<Longrightarrow> sp_offset (span_start f) \<le> sp_offset (span_end l) \<Longrightarrow>
   span_ok src \<lparr>span_start = span_start f, span_end = span_end l\<rparr>"
  by (simp add: span_ok_def)

lemma inherit_good:
  assumes "good_node lo x p" "good_node (tpos p) y q" "later p q" "lo \<le> tpos p"
    and "node_wf d" "\<And>sp c. c \<in> set (ast_children (Ast sp d)) \<Longrightarrow> ast_ok (src_of q) c"
  shows "good_node lo (cxpr_expr_ast_inherit_range d x y) q"
proof -
  have xq: "good_node lo x q" using assms(1,3) by (rule good_node_later)
  show ?thesis
  proof (cases "ast_span x = None \<or> ast_span y = None")
    case True
    then have "cxpr_expr_ast_inherit_range d x y = Ast None d"
      by (auto simp: cxpr_expr_ast_inherit_range_def split: option.splits)
    with assms(5,6) show ?thesis by (simp add: good_node_def ast_ok_Ast node_ok_def within_def del: ast_children.simps)
  next
    case False
    then obtain f l where s: "ast_span x = Some f" "ast_span y = Some l" by auto
    have x: "lo \<le> sp_offset (span_start f)" "sp_offset (span_start f) \<le> sp_offset (span_end f)"
      "sp_offset (span_end f) \<le> tpos p"
      using assms(1) s by (simp_all add: good_node_def within_def)
    have y: "tpos p \<le> sp_offset (span_start l)" "sp_offset (span_start l) \<le> sp_offset (span_end l)"
      "sp_offset (span_end l) \<le> tpos q"
      using assms(2) s by (simp_all add: good_node_def within_def)
    have "span_ok (src_of q) \<lparr>span_start = span_start f, span_end = span_end l\<rparr>"
      using xq assms(2) s x y ast_ok_span by (intro span_ok_join) (auto simp: good_node_def)
    then show ?thesis using s x y assms(5,6)
      by (simp add: cxpr_expr_ast_inherit_range_def good_node_def ast_ok_Ast node_ok_def within_def
          del: ast_children.simps)
  qed
qed

lemma binary_good:
  assumes "good_node lo x p" "good_node (tpos p) y q" "later p q" "lo \<le> tpos p"
  shows "good_node lo (cxpr_expr_ast_binary_new op x y) q"
  unfolding cxpr_expr_ast_binary_new_def
  using assms good_node_later [OF assms(1,3)] by (intro inherit_good) (auto simp: good_node_def)

lemma index_good:
  assumes "good_node lo x p" "good_node (tpos p) y q" "later p q" "lo \<le> tpos p"
  shows "good_node lo (cxpr_expr_ast_index_new x y) q"
  unfolding cxpr_expr_ast_index_new_def
  using assms good_node_later [OF assms(1,3)] by (intro inherit_good) (auto simp: good_node_def)

lemma ternary_good:
  assumes "good_node lo x p" "ast_ok (src_of q) y" "good_node (tpos p) z q" "later p q" "lo \<le> tpos p"
  shows "good_node lo (cxpr_expr_ast_ternary_new x y z) q"
  unfolding cxpr_expr_ast_ternary_new_def
  using assms good_node_later [OF assms(1,4)] by (intro inherit_good) (auto simp: good_node_def)

lemma unary_good: "good_node lo x q \<Longrightarrow> good_node lo (cxpr_expr_ast_unary_new op x) q"
  using ast_ok_span by (auto simp: cxpr_expr_ast_unary_new_def good_node_def ast_ok_Ast node_ok_def within_def
      split: option.splits)

lemma unspanned_good:
  assumes "node_wf d" "\<And>c. c \<in> set (ast_children (Ast None d)) \<Longrightarrow> ast_ok (src_of q) c"
  shows "good_node lo (Ast None d) q"
  using assms by (simp add: good_node_def ast_ok_Ast node_ok_def within_def del: ast_children.simps)

lemma clone_good:
  assumes "ast_ok src a"
  shows "cxpr_expr_parser_clone_ast a = Some (ast_strip a)" "good_node lo (ast_strip a) q"
  using eval_clone_strip [OF ast_ok_wf [OF assms]] ast_strip_ok [OF ast_ok_wf [OF assms]]
  by (auto simp: cxpr_expr_parser_clone_ast_def good_node_def)

section \<open>Call depth\<close>

fun rank :: "nonterm \<Rightarrow> nat" where
  "rank NT_expression = 13" | "rank NT_ternary = 12" | "rank NT_or = 11" | "rank NT_and = 10"
| "rank NT_not = 9" | "rank NT_equality = 8" | "rank NT_relational = 7" | "rank NT_arithmetic = 6"
| "rank NT_term = 5" | "rank NT_unary = 4" | "rank NT_power = 3" | "rank NT_primary = 2"
| "rank _ = 0"

fun item_rank :: "item_loop \<Rightarrow> nat" where
  "item_rank (IL_array _) = 14"
| "item_rank _ = 0"

definition cost :: "nonterm \<Rightarrow> cxpr_expr_parser \<Rightarrow> nat" where
  "cost nt p = 16 * left_to_read p + rank nt"

definition item_cost :: "item_loop \<Rightarrow> cxpr_expr_parser \<Rightarrow> nat" where
  "item_cost il p = 16 * left_to_read p + item_rank il"

fun carried :: "nonterm \<Rightarrow> cxpr_expr_ast list" where
  "carried (NT_pipe_loop l) = [l]" | "carried (NT_or_loop l) = [l]" | "carried (NT_and_loop l) = [l]"
| "carried (NT_relational_loop s _ l r) = l # r # (case s of None \<Rightarrow> [] | Some x \<Rightarrow> [x])"
| "carried (NT_arithmetic_loop l) = [l]" | "carried (NT_term_loop l) = [l]" | "carried (NT_index_loop l) = [l]"
| "carried _ = []"

definition nt_ok :: "nat \<Rightarrow> cxpr_expr_parser \<Rightarrow> nonterm \<Rightarrow> bool" where
  "nt_ok lo p nt \<longleftrightarrow> lo \<le> tpos p \<and> (\<forall>x \<in> set (carried nt). good_node lo x p)"

fun il_parts :: "item_loop \<Rightarrow> cxpr_expr_ast list" where
  "il_parts (IL_args _ xs) = xs" | "il_parts (IL_array xs) = xs" | "il_parts (IL_record _ xs) = xs"

fun il_named :: "item_loop \<Rightarrow> bool" where
  "il_named (IL_args names xs) \<longleftrightarrow> length names = length xs"
| "il_named (IL_array xs) \<longleftrightarrow> True"
| "il_named (IL_record names xs) \<longleftrightarrow> length names = length xs"

definition il_ok :: "cxpr_expr_parser \<Rightarrow> item_loop \<Rightarrow> bool" where
  "il_ok p il \<longleftrightarrow> il_named il \<and> (\<forall>x \<in> set (il_parts il). ast_ok (src_of p) x)"

definition good_items :: "bool \<Rightarrow> string option list \<times> cxpr_expr_ast list \<Rightarrow> cxpr_expr_parser \<Rightarrow> bool" where
  "good_items named r q \<longleftrightarrow> (named \<longrightarrow> length (fst r) = length (snd r)) \<and> (\<forall>x \<in> set (snd r). ast_ok (src_of q) x)"

definition is_named :: "item_loop \<Rightarrow> bool" where
  "is_named il = (case il of IL_array _ \<Rightarrow> False | _ \<Rightarrow> True)"

lemma later_left: "later p q \<Longrightarrow> left_to_read q \<le> left_to_read p"
  by (simp add: later_def)

lemma later_src: "later p q \<Longrightarrow> src_of q = src_of p"
  by (simp add: later_def)

lemma later_tpos: "later p q \<Longrightarrow> tpos p \<le> tpos q"
  by (simp add: later_def)

lemma good_node_lower: "good_node lo x p \<Longrightarrow> lo' \<le> lo \<Longrightarrow> good_node lo' x p"
  by (auto simp: good_node_def intro: within_mono)

section \<open>Every function keeps the contract its calls keep\<close>

locale parser_calls =
  fixes call :: node_calls and items :: item_calls and n :: nat
  assumes call_ok: "pinv p \<Longrightarrow> nt_ok lo p nt \<Longrightarrow> cost nt p < n \<Longrightarrow> res_ok (good_node lo) p (call nt p)"
    and items_ok: "pinv p \<Longrightarrow> il_ok p il \<Longrightarrow> item_cost il p < n \<Longrightarrow>
      res_ok (good_items (is_named il)) p (items il p)"
begin

lemma call_plain:
  assumes "pinv p" "carried nt = []" "cost nt p < n"
  shows "res_ok (good_node (tpos p)) p (call nt p)"
  using assms call_ok by (simp add: nt_ok_def)

lemma call_below:
  assumes "pinv p" "carried nt = []" "cost nt p < n" "lo \<le> tpos p"
  shows "res_ok (good_node lo) p (call nt p)"
  using assms call_ok by (simp add: nt_ok_def)

lemma call_loop:
  assumes "pinv p" "carried nt = [x]" "cost nt p < n" "lo \<le> tpos p" "good_node lo x p"
  shows "res_ok (good_node lo) p (call nt p)"
  using assms call_ok by (simp add: nt_ok_def)

lemma chain_ok:
  assumes "pinv p" "lo \<le> tpos p" "cost operand p < n" "carried operand = []"
    and loop: "\<And>x. carried (loop x) = [x]" "\<And>x. rank (loop x) \<le> rank operand"
  shows "res_ok (good_node lo) p (or_return (call operand p) (\<lambda>left q. call (loop left) q))"
proof (rule or_return_ok [OF call_below [OF assms(1,4,3,2)]])
  fix x q assume q: "later p q" "good_node lo x q"
  have "cost (loop x) q < n"
    using assms(3) later_left [OF q(1)] loop(2) [of x] by (simp add: cost_def)
  then show "res_ok (good_node lo) q (call (loop x) q)"
    using q assms(2) later_tpos [OF q(1)] by (intro call_loop [OF later_pinv [OF q(1)] loop(1)]) auto
qed

lemma binary_loop_ok:
  assumes p: "pinv p" "lo \<le> tpos p" "good_node lo left p" and cost: "16 * left_to_read p \<le> n"
    and ops: "CXPR_TOK_EOF \<notin> ops" "CXPR_TOK_ERROR \<notin> ops"
    and operand: "carried operand = []" "rank operand < 16"
    and loop: "\<And>x. carried (loop x) = [x]" "\<And>x. rank (loop x) = 0"
  shows "res_ok (good_node lo) p (binary_loop call ops operand loop left p)"
proof (cases "current_type p \<in> ops")
  case False
  with p show ?thesis by (simp add: binary_loop_def)
next
  case True
  have adv: "later p (cxpr_expr_parser_advance p)" "left_to_read (cxpr_expr_parser_advance p) < left_to_read p"
    using advance_later [OF p(1)] True ops by metis+
  let ?q = "cxpr_expr_parser_advance p"
  have c: "cost operand ?q < n" using adv(2) cost operand by (simp add: cost_def)
  have "res_ok (good_node lo) ?q (or_null (call operand ?q) (\<lambda>right p'.
          call (loop (cxpr_expr_ast_binary_new (current_type p) left right)) p'))"
  proof (rule or_null_ok [OF call_below [OF later_pinv [OF adv(1)] operand(1) c later_tpos [OF adv(1)]]])
    fix right q assume q: "later ?q q" "good_node (tpos p) right q"
    have pq: "later p q" using adv(1) q(1) by (rule later_trans)
    have "good_node lo (cxpr_expr_ast_binary_new (current_type p) left right) q"
      by (rule binary_good [OF p(3) q(2) pq p(2)])
    moreover have "cost (loop (cxpr_expr_ast_binary_new (current_type p) left right)) q < n"
      using adv(2) later_left [OF q(1)] cost loop(2) by (simp add: cost_def)
    ultimately show "res_ok (good_node lo) q (call (loop (cxpr_expr_ast_binary_new (current_type p) left right)) q)"
      using p(2) later_tpos [OF pq] by (intro call_loop [OF later_pinv [OF pq] loop(1)]) auto
  qed
  with True adv(1) show ?thesis by (auto simp: binary_loop_def intro: res_ok_later)
qed

lemma pipe_inject_ok:
  assumes "pinv p" "good_node lo stage p" "ast_ok (src_of p) piped"
  shows "res_ok (good_node lo) p (Some (cxpr_expr_parser_pipe_inject_argument p stage piped))"
proof -
  obtain sp d where s: "stage = Ast sp d" by (cases stage)
  from assms(2) have "node_wf d" "\<And>c. c \<in> set (ast_children (Ast sp d)) \<Longrightarrow> ast_ok (src_of p) c"
    by (auto simp: s good_node_def ast_ok_Ast node_ok_def simp del: ast_children.simps)
  with assms(1,3) later_set_error [OF assms(1)] show ?thesis
    by (cases d)
      (auto simp: cxpr_expr_parser_pipe_inject_argument_def s ast_new_defs intro!: unspanned_good)
qed

lemma pipe_loop_ok:
  assumes p: "pinv p" "lo \<le> tpos p" "good_node lo left p" and cost: "16 * left_to_read p \<le> n"
  shows "res_ok (good_node lo) p (pipe_loop call left p)"
proof (cases "current_type p = CXPR_TOK_PIPE")
  case False
  with p show ?thesis by (simp add: pipe_loop_def cxpr_expr_parser_check_def)
next
  case True
  let ?q = "cxpr_expr_parser_advance p"
  have adv: "later p ?q" "left_to_read ?q < left_to_read p"
    using advance_later [OF p(1)] True by simp_all
  have c: "cost NT_ternary ?q < n" using adv(2) cost by (simp add: cost_def)
  have "res_ok (good_node lo) ?q (or_null (call NT_ternary ?q) (\<lambda>stage p.
          or_null (Some (cxpr_expr_parser_pipe_inject_argument p stage left)) (\<lambda>left p. call (NT_pipe_loop left) p)))"
  proof (rule or_null_ok [OF call_plain [OF later_pinv [OF adv(1)] _ c]], simp)
    fix stage q assume q: "later ?q q" "good_node (tpos ?q) stage q"
    have pq: "later p q" using adv(1) q(1) by (rule later_trans)
    have st: "good_node lo stage q"
      using q(2) by (rule good_node_lower) (use p(2) later_tpos [OF adv(1)] in linarith)
    have l: "ast_ok (src_of q) left" using good_node_later [OF p(3) pq] by (simp add: good_node_def)
    show "res_ok (good_node lo) q (or_null (Some (cxpr_expr_parser_pipe_inject_argument q stage left))
            (\<lambda>left p. call (NT_pipe_loop left) p))"
    proof (rule or_null_ok [OF pipe_inject_ok [OF later_pinv [OF pq] st l]])
      fix x r assume r: "later q r" "good_node lo x r"
      have pr: "later p r" using pq r(1) by (rule later_trans)
      have "cost (NT_pipe_loop x) r < n"
        using adv(2) later_left [OF q(1)] later_left [OF r(1)] cost by (simp add: cost_def)
      then show "res_ok (good_node lo) r (call (NT_pipe_loop x) r)"
        using r(2) p(2) later_tpos [OF pr] by (intro call_loop [OF later_pinv [OF pr]]) auto
    qed
  qed
  with True adv(1) show ?thesis
    by (auto simp: pipe_loop_def cxpr_expr_parser_check_def intro: res_ok_later)
qed

end

context parser_calls
begin

text \<open>An operator token, then an operand.\<close>

lemma advance_call_null:
  assumes "pinv p" "current_type p \<noteq> CXPR_TOK_EOF" "current_type p \<noteq> CXPR_TOK_ERROR"
    and "carried nt = []" "rank nt < 16" "16 * left_to_read p \<le> n"
    and "\<And>x q. later p q \<Longrightarrow> left_to_read q < left_to_read p \<Longrightarrow> \<not> ps_had_error q \<Longrightarrow>
      good_node (tpos p) x q \<Longrightarrow> res_ok R q (k x q)"
  shows "res_ok R p (or_null (call nt (cxpr_expr_parser_advance p)) k)"
proof -
  let ?q = "cxpr_expr_parser_advance p"
  note adv = advance_later [OF assms(1-3)]
  have c: "cost nt ?q < n" using adv(2) assms(5,6) by (simp add: cost_def)
  have "res_ok R ?q (or_null (call nt ?q) k)"
  proof (rule or_null_ok [OF call_below [OF later_pinv [OF adv(1)] assms(4) c later_tpos [OF adv(1)]]])
    fix x r assume r: "later ?q r" "\<not> ps_had_error r" "good_node (tpos p) x r"
    show "res_ok R r (k x r)"
      using assms(7) [OF later_trans [OF adv(1) r(1)] _ r(2,3)] later_left [OF r(1)] adv(2) by simp
  qed
  with adv(1) show ?thesis by (rule res_ok_later)
qed

lemma call_null:
  assumes "pinv p" "carried nt = []" "cost nt p < n"
    and "\<And>x q. later p q \<Longrightarrow> \<not> ps_had_error q \<Longrightarrow> good_node (tpos p) x q \<Longrightarrow> res_ok R q (k x q)"
  shows "res_ok R p (or_null (call nt p) k)"
  by (rule or_null_ok [OF call_plain [OF assms(1-3)]]) (use assms(4) in blast)

lemma ternary_ok:
  assumes p: "pinv p" "lo \<le> tpos p" and cost: "cost NT_ternary p < Suc n"
  shows "res_ok (good_node lo) p (cxpr_parse_ternary call p)"
  unfolding cxpr_parse_ternary_def
proof (rule or_return_ok [OF call_below [OF p(1) _ _ p(2)]])
  show "cost NT_or p < n" using cost by (simp add: cost_def)
  fix c q assume q: "later p q" "good_node lo c q"
  note pq = later_pinv [OF q(1)]
  have n: "16 * left_to_read q + 12 \<le> n" using cost later_left [OF q(1)] by (simp add: cost_def)
  have loq: "lo \<le> tpos q" using p(2) later_tpos [OF q(1)] by simp
  show "res_ok (good_node lo) q
    (if cxpr_expr_parser_check q CXPR_TOK_QUESTION
     then or_null (call NT_expression (cxpr_expr_parser_advance q)) (\<lambda>t r.
            expect_or_null r CXPR_TOK_COLON ''Expected ':' in ternary expression'' (\<lambda>s.
              or_null (call NT_expression s) (\<lambda>f u. Some (Some (cxpr_expr_ast_ternary_new c t f), u))))
     else Some (Some c, q))"
  proof (cases "current_type q = CXPR_TOK_QUESTION")
    case False
    with q pq show ?thesis by (simp add: cxpr_expr_parser_check_def)
  next
    case True
    have "res_ok (good_node lo) q (or_null (call NT_expression (cxpr_expr_parser_advance q)) (\<lambda>t r.
            expect_or_null r CXPR_TOK_COLON ''Expected ':' in ternary expression'' (\<lambda>s.
              or_null (call NT_expression s) (\<lambda>f u. Some (Some (cxpr_expr_ast_ternary_new c t f), u)))))"
    proof (rule advance_call_null [OF pq])
      fix t r assume r: "later q r" "left_to_read r < left_to_read q" "good_node (tpos q) t r"
      show "res_ok (good_node lo) r (expect_or_null r CXPR_TOK_COLON ''Expected ':' in ternary expression'' (\<lambda>s.
              or_null (call NT_expression s) (\<lambda>f u. Some (Some (cxpr_expr_ast_ternary_new c t f), u))))"
      proof (rule expect_ok [OF later_pinv [OF r(1)]])
        fix s assume s: "later r s" "left_to_read s < left_to_read r"
        have qs: "later q s" using r(1) s(1) by (rule later_trans)
        show "res_ok (good_node lo) s
                (or_null (call NT_expression s) (\<lambda>f u. Some (Some (cxpr_expr_ast_ternary_new c t f), u)))"
        proof (rule call_null [OF later_pinv [OF qs]])
          show "cost NT_expression s < n" using n r(2) s(2) by (simp add: cost_def)
          fix f u assume u: "later s u" "good_node (tpos s) f u"
          have qu: "later q u" using qs u(1) by (rule later_trans)
          have "good_node (tpos q) f u" using u(2) later_tpos [OF qs] by (rule good_node_lower)
          moreover have "ast_ok (src_of u) t"
            using good_node_later [OF r(3) later_trans [OF s(1) u(1)]] by (simp add: good_node_def)
          ultimately have "good_node lo (cxpr_expr_ast_ternary_new c t f) u"
            using ternary_good [OF q(2) _ _ qu loq] by blast
          then show "res_ok (good_node lo) u (Some (Some (cxpr_expr_ast_ternary_new c t f), u))"
            using later_pinv [OF u(1)] by simp
        qed simp
      qed simp_all
    qed (use True n in \<open>simp_all add: cost_def\<close>)
    with True show ?thesis by (simp add: cxpr_expr_parser_check_def)
  qed
qed simp

lemma not_ok:
  assumes p: "pinv p" "lo \<le> tpos p" and cost: "cost NT_not p < Suc n"
  shows "res_ok (good_node lo) p (cxpr_parse_not call p)"
proof (cases "current_type p = CXPR_TOK_NOT")
  case True
  have "res_ok (good_node lo) p (or_null (call NT_not (cxpr_expr_parser_advance p)) (\<lambda>operand q.
          Some (Some (cxpr_expr_ast_unary_new CXPR_TOK_NOT operand), q)))"
    by (rule advance_call_null [OF p(1)])
      (use True cost p(2) in \<open>auto simp: cost_def later_pinv intro!: unary_good intro: good_node_lower\<close>)
  with True show ?thesis by (simp add: cxpr_parse_not_def cxpr_expr_parser_check_def)
next
  case False
  with call_below [OF p(1) _ _ p(2), of NT_equality] cost show ?thesis
    by (simp add: cxpr_parse_not_def cxpr_expr_parser_check_def cost_def)
qed

lemma unary_ok:
  assumes p: "pinv p" "lo \<le> tpos p" and cost: "cost NT_unary p < Suc n"
  shows "res_ok (good_node lo) p (cxpr_parse_unary call p)"
proof -
  have minus: "res_ok (good_node lo) p (or_null (call NT_unary (cxpr_expr_parser_advance p)) (\<lambda>operand q.
          Some (Some (cxpr_expr_ast_unary_new CXPR_TOK_MINUS operand), q)))" if "current_type p = CXPR_TOK_MINUS"
    by (rule advance_call_null [OF p(1)])
      (use that cost p(2) in \<open>auto simp: cost_def later_pinv intro!: unary_good intro: good_node_lower\<close>)
  have plus: "res_ok (good_node lo) p (call NT_unary (cxpr_expr_parser_advance p))" if "current_type p = CXPR_TOK_PLUS"
  proof -
    have adv: "later p (cxpr_expr_parser_advance p)" "left_to_read (cxpr_expr_parser_advance p) < left_to_read p"
      using advance_later [OF p(1)] that by simp_all
    have "cost NT_unary (cxpr_expr_parser_advance p) < n" using adv(2) cost by (simp add: cost_def)
    then show ?thesis
      using call_below [OF later_pinv [OF adv(1)]] later_tpos [OF adv(1)] p(2) adv(1)
      by (auto intro!: res_ok_later [OF adv(1)])
  qed
  from minus plus call_below [OF p(1) _ _ p(2), of NT_power] cost show ?thesis
    by (simp add: cxpr_parse_unary_def cxpr_expr_parser_check_def cost_def)
qed

text \<open>One optional right operand after the left one.\<close>

lemma optional_binary_ok:
  assumes q: "pinv q" "lo \<le> tpos q" "good_node lo left q" and n: "16 * left_to_read q \<le> n"
    and ops: "current_type q \<noteq> CXPR_TOK_EOF" "current_type q \<noteq> CXPR_TOK_ERROR"
    and nt: "carried nt = []" "rank nt < 16"
  shows "res_ok (good_node lo) q (or_null (call nt (cxpr_expr_parser_advance q)) (\<lambda>right r.
           Some (Some (cxpr_expr_ast_binary_new op left right), r)))"
  by (rule advance_call_null [OF q(1) ops nt n]) (use binary_good [OF q(3) _ _ q(2)] later_pinv in simp)

lemma equality_ok:
  assumes p: "pinv p" "lo \<le> tpos p" and cost: "cost NT_equality p < Suc n"
  shows "res_ok (good_node lo) p (cxpr_parse_equality call p)"
  unfolding cxpr_parse_equality_def
proof (rule or_return_ok [OF call_below [OF p(1) _ _ p(2)]])
  show "cost NT_relational p < n" using cost by (simp add: cost_def)
  fix x q assume q: "later p q" "good_node lo x q"
  have "16 * left_to_read q \<le> n" using cost later_left [OF q(1)] by (simp add: cost_def)
  with q p(2) later_tpos [OF q(1)] later_pinv [OF q(1)]
  show "res_ok (good_node lo) q
    (if cxpr_expr_parser_check q CXPR_TOK_EQ \<or> cxpr_expr_parser_check q CXPR_TOK_NEQ
     then or_null (call NT_relational (cxpr_expr_parser_advance q)) (\<lambda>right r.
            Some (Some (cxpr_expr_ast_binary_new (current_type q) x right), r))
     else Some (Some x, q))"
    by (auto simp: cxpr_expr_parser_check_def intro!: optional_binary_ok)
qed simp

lemma power_ok:
  assumes p: "pinv p" "lo \<le> tpos p" and cost: "cost NT_power p < Suc n"
  shows "res_ok (good_node lo) p (cxpr_parse_power call p)"
  unfolding cxpr_parse_power_def
proof (rule or_return_ok [OF call_below [OF p(1) _ _ p(2)]])
  show "cost NT_primary p < n" using cost by (simp add: cost_def)
  fix x q assume q: "later p q" "good_node lo x q"
  have "16 * left_to_read q \<le> n" using cost later_left [OF q(1)] by (simp add: cost_def)
  with q p(2) later_tpos [OF q(1)] later_pinv [OF q(1)]
  show "res_ok (good_node lo) q
    (if cxpr_expr_parser_check q CXPR_TOK_POWER
     then or_null (call NT_unary (cxpr_expr_parser_advance q)) (\<lambda>right r.
            Some (Some (cxpr_expr_ast_binary_new CXPR_TOK_POWER x right), r))
     else Some (Some x, q))"
    by (auto simp: cxpr_expr_parser_check_def intro!: optional_binary_ok)
qed simp

lemma set_membership_ok:
  assumes p: "pinv p" and left: "ast_ok (src_of p) left" and n: "16 * left_to_read p + 6 < n"
  shows "res_ok (good_node lo) p (cxpr_parse_set_membership call left negated p)"
proof -
  have "res_ok (good_node lo) p (or_null (call NT_arithmetic p) (\<lambda>array q.
      let contains = cxpr_expr_ast_call_new ''contains'' [left, array] in
      if negated then Some (Some (cxpr_expr_ast_unary_new CXPR_TOK_NOT contains), q)
      else Some (Some contains, q)))"
  proof (rule call_null [OF p])
    fix array q assume q: "later p q" "good_node (tpos p) array q"
    have "good_node lo (cxpr_expr_ast_call_new ''contains'' [left, array]) q"
      unfolding ast_new_defs
      by (rule unspanned_good) (use q(2) left later_src [OF q(1)] in \<open>auto simp: good_node_def\<close>)
    with later_pinv [OF q(1)] show "res_ok (good_node lo) q
      (let contains = cxpr_expr_ast_call_new ''contains'' [left, array] in
       if negated then Some (Some (cxpr_expr_ast_unary_new CXPR_TOK_NOT contains), q)
       else Some (Some contains, q))"
      by (simp add: Let_def unary_good)
  qed (use n in \<open>simp_all add: cost_def\<close>)
  then show ?thesis using later_set_error [OF p] by (simp add: cxpr_parse_set_membership_def)
qed

end

context parser_calls
begin

lemma relational_loop_ok:
  assumes p: "pinv p" "lo \<le> tpos p" "good_node lo left p" "good_node lo right p"
    "\<And>s. subject = Some s \<Longrightarrow> good_node lo s p" and n: "16 * left_to_read p \<le> n"
  shows "res_ok (good_node lo) p (relational_loop call subject first_op left right p)"
proof (cases "cxpr_expr_parser_is_relational_token (current_type p)")
  case False
  with p show ?thesis by (simp add: relational_loop_def)
next
  case True
  then have tok: "current_type p \<noteq> CXPR_TOK_EOF" "current_type p \<noteq> CXPR_TOK_ERROR"
    by (auto simp: cxpr_expr_parser_is_relational_token_def)
  define s where "s = (case subject of
      Some s \<Rightarrow> if cxpr_expr_parser_relational_ops_cross_bounds first_op (current_type p) then s else right
    | None \<Rightarrow> right)"
  have "ast_ok (src_of p) s" using p(4,5) by (auto simp: s_def good_node_def split: option.splits)
  note clone = clone_good [OF this]
  let ?joined = "\<lambda>r. cxpr_expr_ast_binary_new CXPR_TOK_AND left
    (cxpr_expr_ast_binary_new (current_type p) (ast_strip s) r)"
  have "res_ok (good_node lo) p (or_null (call NT_arithmetic (cxpr_expr_parser_advance p)) (\<lambda>next_right q.
          call (NT_relational_loop subject first_op (?joined next_right) next_right) q))"
  proof (rule advance_call_null [OF p(1) tok])
    fix r q assume q: "later p q" "left_to_read q < left_to_read p" "good_node (tpos p) r q"
    have loq: "lo \<le> tpos q" using p(2) later_tpos [OF q(1)] by simp
    have cmp: "good_node (tpos p) (cxpr_expr_ast_binary_new (current_type p) (ast_strip s) r) q"
      by (rule binary_good [OF clone(2) q(3) q(1)]) simp
    have "good_node lo (?joined r) q" by (rule binary_good [OF p(3) cmp q(1) p(2)])
    moreover have "good_node lo r q" using q(3) p(2) by (rule good_node_lower)
    moreover have "\<And>t. subject = Some t \<Longrightarrow> good_node lo t q" using p(5) q(1) good_node_later by blast
    ultimately have "nt_ok lo q (NT_relational_loop subject first_op (?joined r) r)"
      using loq by (auto simp: nt_ok_def split: option.splits)
    then show "res_ok (good_node lo) q (call (NT_relational_loop subject first_op (?joined r) r) q)"
      using n q(2) by (intro call_ok [OF later_pinv [OF q(1)]]) (simp_all add: cost_def)
  qed (use n in simp_all)
  with True clone(1) show ?thesis by (simp add: relational_loop_def Let_def s_def [symmetric])
qed

lemma comparison_ok:
  assumes q: "pinv q" "lo \<le> tpos q" "good_node lo left q" and n: "16 * left_to_read q \<le> n"
    and op: "cxpr_expr_parser_is_relational_token (current_type q)"
  shows "res_ok (good_node lo) q
    (or_null (call NT_arithmetic (cxpr_expr_parser_advance q)) (\<lambda>right r.
       if cxpr_expr_parser_is_subject_node left \<and> cxpr_expr_parser_is_threshold_node right
       then (case cxpr_expr_parser_clone_ast left of
               None \<Rightarrow> Some (None, set_out_of_memory r)
             | Some s \<Rightarrow> call (NT_relational_loop (Some s) op (cxpr_expr_ast_binary_new op left right) right) r)
       else call (NT_relational_loop None op (cxpr_expr_ast_binary_new op left right) right) r))"
proof (rule advance_call_null [OF q(1)])
  show "current_type q \<noteq> CXPR_TOK_EOF" "current_type q \<noteq> CXPR_TOK_ERROR"
    using op by (auto simp: cxpr_expr_parser_is_relational_token_def)
  have "ast_ok (src_of q) left" using q(3) by (simp add: good_node_def)
  note clone = clone_good [OF this]
  fix x r assume r: "later q r" "left_to_read r < left_to_read q" "good_node (tpos q) x r"
  have lor: "lo \<le> tpos r" using q(2) later_tpos [OF r(1)] by simp
  have b: "good_node lo (cxpr_expr_ast_binary_new op left x) r" by (rule binary_good [OF q(3) r(3) r(1) q(2)])
  have x: "good_node lo x r" using r(3) q(2) by (rule good_node_lower)
  have "res_ok (good_node lo) r
      (call (NT_relational_loop subject op (cxpr_expr_ast_binary_new op left x) x) r)"
    if "subject = None \<or> subject = Some (ast_strip left)" for subject
    using that b x lor clone(2) n r(2)
    by (intro call_ok [OF later_pinv [OF r(1)]]) (auto simp: nt_ok_def cost_def)
  then show "res_ok (good_node lo) r
    (if cxpr_expr_parser_is_subject_node left \<and> cxpr_expr_parser_is_threshold_node x
     then (case cxpr_expr_parser_clone_ast left of
             None \<Rightarrow> Some (None, set_out_of_memory r)
           | Some s \<Rightarrow> call (NT_relational_loop (Some s) op (cxpr_expr_ast_binary_new op left x) x) r)
     else call (NT_relational_loop None op (cxpr_expr_ast_binary_new op left x) x) r)"
    by (simp add: clone(1))
qed (use n in simp_all)

lemma peek_current: "tok_type (cxpr_expr_parser_peek_next p) = current_type (cxpr_expr_parser_advance p)"
  by (auto simp: cxpr_expr_parser_peek_next_def cxpr_lexer_peek_def cxpr_expr_parser_advance_def Let_def
      split: prod.splits)

lemma membership_ok:
  assumes q: "pinv q" "good_node lo left q" and n: "16 * left_to_read q \<le> n"
    and op: "current_type q = CXPR_TOK_IN \<or>
      current_type q = CXPR_TOK_NOT \<and> tok_type (cxpr_expr_parser_peek_next q) = CXPR_TOK_IN"
  shows "res_ok (good_node lo) q
    (if cxpr_expr_parser_check q CXPR_TOK_NOT
     then cxpr_parse_set_membership call left True (cxpr_expr_parser_advance (cxpr_expr_parser_advance q))
     else cxpr_parse_set_membership call left False (cxpr_expr_parser_advance q))"
proof -
  have step: "res_ok (good_node lo) u (cxpr_parse_set_membership call left neg (cxpr_expr_parser_advance u))"
    if "later q u" "current_type u = CXPR_TOK_IN" for u neg
  proof -
    have "later u (cxpr_expr_parser_advance u)" "left_to_read (cxpr_expr_parser_advance u) < left_to_read u"
      using advance_later [OF later_pinv [OF that(1)]] that(2) by simp_all
    note adv = this later_trans [OF that(1) this(1)]
    have "ast_ok (src_of (cxpr_expr_parser_advance u)) left"
      using good_node_later [OF q(2) adv(3)] by (simp add: good_node_def)
    from set_membership_ok [OF later_pinv [OF adv(3)] this] adv(2) later_left [OF that(1)] n
    show ?thesis by (intro res_ok_later [OF adv(1)]) simp
  qed
  show ?thesis
  proof (cases "current_type q = CXPR_TOK_NOT")
    case True
    with op have "current_type (cxpr_expr_parser_advance q) = CXPR_TOK_IN" by (simp add: peek_current)
    moreover have "later q (cxpr_expr_parser_advance q)" using advance_later(1) [OF q(1)] True by simp
    ultimately show ?thesis using step True by (auto simp: cxpr_expr_parser_check_def intro: res_ok_later)
  next
    case False
    with op step [OF later_refl [OF q(1)]] show ?thesis by (simp add: cxpr_expr_parser_check_def)
  qed
qed

lemma relational_ok:
  assumes p: "pinv p" "lo \<le> tpos p" and cost: "cost NT_relational p < Suc n"
  shows "res_ok (good_node lo) p (cxpr_parse_relational call p)"
  unfolding cxpr_parse_relational_def Let_def
proof (rule or_return_ok [OF call_below [OF p(1) _ _ p(2)]])
  show "cost NT_arithmetic p < n" using cost by (simp add: cost_def)
  fix x q assume q: "later p q" "good_node lo x q"
  have n: "16 * left_to_read q \<le> n" using cost later_left [OF q(1)] by (simp add: cost_def)
  have loq: "lo \<le> tpos q" using p(2) later_tpos [OF q(1)] by simp
  note pq = later_pinv [OF q(1)]
  note parts = comparison_ok [OF pq loq q(2) n] membership_ok [OF pq q(2) n]
  show "res_ok (good_node lo) q
    (if cxpr_expr_parser_is_relational_token (current_type q)
     then or_null (call NT_arithmetic (cxpr_expr_parser_advance q)) (\<lambda>right r.
       if cxpr_expr_parser_is_subject_node x \<and> cxpr_expr_parser_is_threshold_node right
       then (case cxpr_expr_parser_clone_ast x of
               None \<Rightarrow> Some (None, set_out_of_memory r)
             | Some s \<Rightarrow> call (NT_relational_loop (Some s) (current_type q)
                           (cxpr_expr_ast_binary_new (current_type q) x right) right) r)
       else call (NT_relational_loop None (current_type q) (cxpr_expr_ast_binary_new (current_type q) x right) right) r)
     else if cxpr_expr_parser_check q CXPR_TOK_NOT \<and> tok_type (cxpr_expr_parser_peek_next q) = CXPR_TOK_IN \<or>
             cxpr_expr_parser_check q CXPR_TOK_IN
     then if cxpr_expr_parser_check q CXPR_TOK_NOT
          then cxpr_parse_set_membership call x True (cxpr_expr_parser_advance (cxpr_expr_parser_advance q))
          else cxpr_parse_set_membership call x False (cxpr_expr_parser_advance q)
     else Some (Some x, q))"
    by (rule if_ok [OF parts(1) if_ok [OF parts(2)]])
      (use pq q(2) in \<open>auto simp: cxpr_expr_parser_check_def\<close>)
qed simp

end

lemma res_ok_strict:
  assumes "left_to_read q < left_to_read p" "res_ok Q q r"
  shows "res_ok (\<lambda>x s. Q x s \<and> left_to_read s < left_to_read p) q r"
  by (rule res_ok_weaken [OF assms(2)]) (use assms(1) later_left in fastforce)

lemma res_ok_advance:
  assumes "pinv p" "current_type p = ty" "ty \<noteq> CXPR_TOK_EOF" "ty \<noteq> CXPR_TOK_ERROR"
    and "\<And>q. later p q \<Longrightarrow> left_to_read q < left_to_read p \<Longrightarrow> q = cxpr_expr_parser_advance p \<Longrightarrow> res_ok Q q r"
  shows "res_ok (\<lambda>x s. Q x s \<and> left_to_read s < left_to_read p) p r"
proof -
  have adv: "later p (cxpr_expr_parser_advance p)" "left_to_read (cxpr_expr_parser_advance p) < left_to_read p"
    using advance_later [OF assms(1)] assms(2-4) by simp_all
  from res_ok_strict [OF adv(2) assms(5) [OF adv refl]] show ?thesis by (rule res_ok_later [OF adv(1)])
qed

lemma dotted_loop_ok:
  assumes "pinv p" "left_to_read p < k"
  shows "res_ok (\<lambda>segs q. length acc \<le> length segs \<and>
      (current_type p = CXPR_TOK_DOT \<longrightarrow> length acc < length segs)) p (dotted_loop k m acc p)"
  using assms
proof (induction k arbitrary: acc p)
  case (Suc k)
  show ?case
  proof (cases "current_type p = CXPR_TOK_DOT")
    case False
    with Suc.prems show ?thesis by (simp add: cxpr_expr_parser_check_def)
  next
    case True
    let ?q = "cxpr_expr_parser_advance p" and ?r = "cxpr_expr_parser_advance (cxpr_expr_parser_advance p)"
    have q: "later p ?q" "left_to_read ?q < left_to_read p" using advance_later [OF Suc.prems(1)] True by simp_all
    show ?thesis
    proof (cases "current_type ?q = CXPR_TOK_IDENTIFIER")
      case False
      with True q later_set_error [OF later_pinv [OF q(1)]] show ?thesis
        by (auto simp: cxpr_expr_parser_check_def Let_def intro: later_trans)
    next
      case ident: True
      have r: "later ?q ?r" "left_to_read ?r < left_to_read ?q"
        using advance_later [OF later_pinv [OF q(1)]] ident by simp_all
      note pr = later_trans [OF q(1) r(1)]
      have "left_to_read ?r < k" using Suc.prems(2) q(2) r(2) by simp
      from Suc.IH [OF later_pinv [OF pr] this, of "acc @ [tok_text (ps_current ?q)]"] True ident
      show ?thesis
        by (auto simp: cxpr_expr_parser_check_def Let_def cxpr_expr_parser_token_to_string_def
            intro!: res_ok_later [OF pr] elim!: res_ok_weaken)
    qed
  qed
qed simp

lemma dotted_segments_ok:
  assumes "pinv p" "current_type p = CXPR_TOK_DOT"
  shows "res_ok (\<lambda>segs q. 2 \<le> length segs) p (dotted_segments m name p)"
proof -
  have "left_to_read p < Suc (Suc (length (lx_current (ps_lexer p))))" by (simp add: left_to_read_def)
  from dotted_loop_ok [OF assms(1) this, of "[name]" m] show ?thesis
    unfolding dotted_segments_def by (rule res_ok_weaken) (use assms(2) in simp)
qed

lemma field_after_dot_ok:
  assumes p: "pinv p" "current_type p = CXPR_TOK_DOT" and mk: "\<And>f q. later p q \<Longrightarrow> good_node lo (mk f) q"
  shows "res_ok (good_node lo) p (field_after_dot p mk)"
proof -
  let ?q = "cxpr_expr_parser_advance p" and ?r = "cxpr_expr_parser_advance (cxpr_expr_parser_advance p)"
  have q: "later p ?q" using advance_later(1) [OF p(1)] p(2) by simp
  have "later p ?r" if "current_type ?q = CXPR_TOK_IDENTIFIER"
    using advance_later(1) [OF later_pinv [OF q]] that later_trans [OF q] by simp
  moreover have "later p (cxpr_expr_parser_set_error ?q (''Expected field name after '.'' @ [CHR 0x27]))"
    using later_set_error [OF later_pinv [OF q]] later_trans [OF q] by blast
  ultimately show ?thesis using mk
    by (simp add: field_after_dot_def Let_def cxpr_expr_parser_check_def)
qed

lemma lower_window_good:
  assumes "good_node lo a q"
  shows "good_node lo (cxpr_parse_lower_window_reduction a) q"
proof -
  obtain sp d where a: "a = Ast sp d" by (cases a)
  have ok: "node_ok (src_of q) (Ast sp d)" "\<And>c. c \<in> set (ast_children (Ast sp d)) \<Longrightarrow> ast_ok (src_of q) c"
    "within lo (tpos q) (Ast sp d)"
    using assms by (auto simp: a good_node_def ast_ok_Ast simp del: ast_children.simps)
  have built: "good_node lo (Ast sp e) q"
    if "node_wf e" "\<And>c. c \<in> set (ast_children (Ast sp e)) \<Longrightarrow> ast_ok (src_of q) c" for e
    using that ok by (auto simp: good_node_def ast_ok_Ast node_ok_def within_def simp del: ast_children.simps)
  show ?thesis
  proof (cases d)
    case (CXPR_NODE_FUNCTION_CALL name args names)
    have call: "length names = length args" "\<And>c. c \<in> set args \<Longrightarrow> ast_ok (src_of q) c"
      using ok CXPR_NODE_FUNCTION_CALL by (auto simp: node_ok_def)
    have splice: "good_node lo (splice_window sp low wargs wnames args names) q"
      if w: "args \<noteq> []" "ast_data (hd args) = CXPR_NODE_FUNCTION_CALL wname wargs wnames" for low wname wargs wnames
    proof -
      have "ast_ok (src_of q) (Ast (ast_span (hd args)) (CXPR_NODE_FUNCTION_CALL wname wargs wnames))"
        using call(2) [OF hd_in_set [OF w(1)]] w(2) by (cases "hd args") simp
      then have "length wnames = length wargs" "\<And>c. c \<in> set wargs \<Longrightarrow> ast_ok (src_of q) c"
        by (auto simp: ast_ok_Ast node_ok_def)
      moreover from this(1) have len: "length (wnames @ tl names) = length (wargs @ tl args)" using call(1) by simp
      ultimately show ?thesis using call(2) w(1) unfolding splice_window_def Let_def
        by (intro built; cases "wnames @ tl names")
          (auto split: option.splits dest: list.set_sel(2) simp del: length_append)
    qed
    show ?thesis
    proof (cases "name = ''roc'' \<and> length args = 2")
      case True
      have "good_node lo (Ast sp (CXPR_NODE_FUNCTION_CALL ''__cxpr_window_roc'' args names)) q"
        by (rule built) (use call in auto)
      with True show ?thesis by (simp add: cxpr_parse_lower_window_reduction_def a CXPR_NODE_FUNCTION_CALL)
    next
      case False
      have one: "args \<noteq> []" if "length args = 1 \<or> length args = 2" using that by auto
      from False assms splice one show ?thesis
        by (auto simp: cxpr_parse_lower_window_reduction_def a CXPR_NODE_FUNCTION_CALL
            split: option.splits cxpr_expr_data.splits)
    qed
  qed (use assms in \<open>simp_all add: cxpr_parse_lower_window_reduction_def a\<close>)
qed

context parser_calls
begin

lemma call_argument_ok:
  assumes p: "pinv p" and n: "16 * left_to_read p + 13 < n"
  shows "res_ok (\<lambda>r q. ast_ok (src_of q) (snd r)) p (cxpr_parse_call_argument call p)"
proof -
  have arg: "res_ok (\<lambda>r q. ast_ok (src_of q) (snd r)) q
      (or_null (call NT_expression q) (\<lambda>arg r. Some (Some (name, arg), r)))" if "later p q" for q and name :: "string option"
    by (rule call_null [OF later_pinv [OF that]])
      (use n later_left [OF that] in \<open>auto simp: cost_def good_node_def later_pinv\<close>)
  show ?thesis
  proof (cases "current_type p = CXPR_TOK_IDENTIFIER \<and> tok_type (cxpr_expr_parser_peek_next p) = CXPR_TOK_ASSIGN")
    case True
    let ?q = "cxpr_expr_parser_advance p"
    have adv: "later p ?q" using advance_later(1) [OF p] True by simp
    have "res_ok (\<lambda>r q. ast_ok (src_of q) (snd r)) ?q
       (expect_or_null ?q CXPR_TOK_ASSIGN ''Expected '=' after named argument'' (\<lambda>q.
          or_null (call NT_expression q) (\<lambda>arg r. Some (Some (Some (tok_text (ps_current p)), arg), r))))"
      by (rule expect_ok [OF later_pinv [OF adv]]) (use arg later_trans [OF adv] in auto)
    with True show ?thesis
      by (auto simp: cxpr_parse_call_argument_def cxpr_expr_parser_check_def cxpr_expr_parser_token_to_string_def
          intro: res_ok_later [OF adv])
  next
    case False
    then show ?thesis using arg [OF later_refl [OF p]]
      by (auto simp: cxpr_parse_call_argument_def cxpr_expr_parser_check_def)
  qed
qed

lemma argument_then_loop_ok:
  assumes p: "pinv p" and n: "16 * left_to_read p + 13 < n"
    and acc: "length names = length args" "\<And>x. x \<in> set args \<Longrightarrow> ast_ok (src_of p) x"
  shows "res_ok (good_items True) p (argument_then_loop call items names args p)"
  unfolding argument_then_loop_def
proof (rule res_ok_case2 [OF call_argument_ok [OF p n]])
  fix name :: "string option" and arg q assume q: "later p q" "ast_ok (src_of q) (snd (name, arg))"
  have "il_ok q (IL_args (names @ [name]) (args @ [arg]))"
    using q acc later_src [OF q(1)] by (auto simp: il_ok_def)
  from items_ok [OF later_pinv [OF q(1)] this] n later_left [OF q(1)]
  show "res_ok (good_items True) q (items (IL_args (names @ [name]) (args @ [arg])) q)"
    by (simp add: item_cost_def is_named_def)
qed

lemma args_end_ok:
  assumes "pinv p" "length names = length args" "\<And>x. x \<in> set args \<Longrightarrow> ast_ok (src_of p) x"
  shows "res_ok (good_items True) p (args_end names args p)"
  unfolding args_end_def
  by (rule expect_ok [OF assms(1)])
    (use assms in \<open>auto simp: good_items_def later_pinv later_src\<close>)

lemma args_loop_ok:
  assumes p: "pinv p" and n: "16 * left_to_read p \<le> n" and acc: "il_ok p (IL_args names args)"
  shows "res_ok (good_items True) p (args_loop call items names args p)"
proof (cases "current_type p = CXPR_TOK_COMMA")
  case True
  let ?q = "cxpr_expr_parser_advance p"
  have adv: "later p ?q" "left_to_read ?q < left_to_read p" using advance_later [OF p] True by simp_all
  have "res_ok (good_items True) ?q (argument_then_loop call items names args ?q)"
    by (rule argument_then_loop_ok [OF later_pinv [OF adv(1)]])
      (use adv n acc later_src [OF adv(1)] in \<open>auto simp: il_ok_def\<close>)
  with True show ?thesis by (auto simp: args_loop_def cxpr_expr_parser_check_def intro: res_ok_later [OF adv(1)])
next
  case False
  with args_end_ok [OF p] acc show ?thesis by (simp add: args_loop_def cxpr_expr_parser_check_def il_ok_def)
qed

lemma arg_list_ok:
  assumes p: "pinv p" "current_type p = CXPR_TOK_LPAREN" and n: "16 * left_to_read p \<le> n"
  shows "res_ok (good_items True) p (cxpr_expr_parser_parse_arg_list call items p)"
proof -
  let ?q = "cxpr_expr_parser_advance p"
  have adv: "later p ?q" "left_to_read ?q < left_to_read p" using advance_later [OF p(1)] p(2) by simp_all
  have "res_ok (good_items True) ?q (args_end [] [] ?q)" by (rule args_end_ok [OF later_pinv [OF adv(1)]]) simp_all
  moreover have "res_ok (good_items True) ?q (argument_then_loop call items [] [] ?q)"
    by (rule argument_then_loop_ok [OF later_pinv [OF adv(1)]]) (use adv n in simp_all)
  ultimately show ?thesis
    by (auto simp: cxpr_expr_parser_parse_arg_list_def Let_def intro: res_ok_later [OF adv(1)])
qed

lemma array_loop_ok:
  assumes p: "pinv p" and n: "16 * left_to_read p + 14 \<le> n" and acc: "\<And>x. x \<in> set elements \<Longrightarrow> ast_ok (src_of p) x"
  shows "res_ok (good_items False) p (array_loop call items elements p)"
  unfolding array_loop_def
proof (rule call_null [OF p])
  fix e q assume q: "later p q" "good_node (tpos p) e q"
  have parts: "\<And>x. x \<in> set (elements @ [e]) \<Longrightarrow> ast_ok (src_of q) x"
    using acc q later_src [OF q(1)] by (auto simp: good_node_def)
  note pq = later_pinv [OF q(1)]
  show "res_ok (good_items False) q
    (if cxpr_expr_parser_check q CXPR_TOK_COMMA
     then items (IL_array (elements @ [e])) (cxpr_expr_parser_advance q)
     else Some (Some ([], elements @ [e]), q))"
  proof (rule if_ok)
    assume "cxpr_expr_parser_check q CXPR_TOK_COMMA"
    then have adv: "later q (cxpr_expr_parser_advance q)" "left_to_read (cxpr_expr_parser_advance q) < left_to_read q"
      using advance_later [OF pq] by (simp_all add: cxpr_expr_parser_check_def)
    have "il_ok (cxpr_expr_parser_advance q) (IL_array (elements @ [e]))"
      using parts later_src [OF adv(1)] by (auto simp: il_ok_def)
    from items_ok [OF later_pinv [OF adv(1)] this] adv n later_left [OF q(1)]
    show "res_ok (good_items False) q (items (IL_array (elements @ [e])) (cxpr_expr_parser_advance q))"
      by (intro res_ok_later [OF adv(1)]) (simp add: item_cost_def is_named_def)
  qed (use parts pq in \<open>auto simp: good_items_def\<close>)
qed (use n in \<open>simp_all add: cost_def\<close>)

text \<open>The brackets around a list of items.\<close>

lemma bracketed_ok:
  assumes p: "pinv p" "current_type p = opening" "opening \<notin> {CXPR_TOK_EOF, CXPR_TOK_ERROR}"
    "closing \<notin> {CXPR_TOK_EOF, CXPR_TOK_ERROR}" and n: "16 * left_to_read p \<le> n"
    and il: "\<And>q. il_ok q il" "is_named il = named"
    and mk: "\<And>names xs q. good_items named (names, xs) q \<Longrightarrow> good_node lo (mk names xs) q"
  shows "res_ok (\<lambda>x s. good_node lo x s \<and> left_to_read s < left_to_read p) p
    (expect_or_null p opening m (\<lambda>q.
       case (if cxpr_expr_parser_check q closing then Some (Some ([], []), q) else items il q) of
         None \<Rightarrow> None
       | Some (None, r) \<Rightarrow> Some (None, r)
       | Some (Some (names, xs), r) \<Rightarrow>
           expect_or_null r closing m' (\<lambda>s. Some (Some (mk names xs), s))))"
proof (rule expect_ok [OF p(1)])
  fix q assume q: "later p q" "left_to_read q < left_to_read p"
  note pq = later_pinv [OF q(1)]
  have "res_ok (good_items named) q (items il q)"
    using items_ok [OF pq il(1)] il(2) q(2) n
    by (cases il) (auto simp: item_cost_def is_named_def)
  then have body: "res_ok (good_items named) q
      (if cxpr_expr_parser_check q closing then Some (Some ([], []), q) else items il q)"
    using pq by (simp add: good_items_def)
  show "res_ok (\<lambda>x s. good_node lo x s \<and> left_to_read s < left_to_read p) q
    (case (if cxpr_expr_parser_check q closing then Some (Some ([], []), q) else items il q) of
       None \<Rightarrow> None
     | Some (None, r) \<Rightarrow> Some (None, r)
     | Some (Some (names, xs), r) \<Rightarrow> expect_or_null r closing m' (\<lambda>s. Some (Some (mk names xs), s)))"
  proof (rule res_ok_strict [OF q(2)], rule res_ok_case2 [OF body])
    fix names xs r assume r: "later q r" "good_items named (names, xs) r"
    show "res_ok (good_node lo) r (expect_or_null r closing m' (\<lambda>s. Some (Some (mk names xs), s)))"
    proof (rule expect_ok [OF later_pinv [OF r(1)]])
      fix s assume s: "later r s"
      have "good_items named (names, xs) s" using r(2) later_src [OF s] by (simp add: good_items_def)
      with mk later_pinv [OF s] show "res_ok (good_node lo) s (Some (Some (mk names xs), s))" by simp
    qed (use p(4) in simp_all)
  qed
qed (use p(3) in simp_all)

lemma array_literal_ok:
  assumes p: "pinv p" "current_type p = CXPR_TOK_LBRACKET" and n: "16 * left_to_read p \<le> n"
  shows "res_ok (\<lambda>x s. good_node lo x s \<and> left_to_read s < left_to_read p) p (cxpr_parse_array_literal call items p)"
  unfolding cxpr_parse_array_literal_def
  by (rule bracketed_ok [OF p _ _ n, where named = False])
    (auto simp: il_ok_def is_named_def ast_new_defs good_items_def intro!: unspanned_good)

lemma record_loop_ok:
  assumes p: "pinv p" and n: "16 * left_to_read p \<le> n" and acc: "il_ok p (IL_record names vals)"
  shows "res_ok (good_items True) p (record_loop call items names vals p)"
proof (cases "current_type p = CXPR_TOK_IDENTIFIER")
  case False
  with later_set_error [OF p] show ?thesis by (simp add: record_loop_def cxpr_expr_parser_check_def)
next
  case True
  let ?q = "cxpr_expr_parser_advance p" and ?name = "tok_text (ps_current p)"
  have adv: "later p ?q" "left_to_read ?q < left_to_read p" using advance_later [OF p] True by simp_all
  note pq = later_pinv [OF adv(1)]
  have "res_ok (\<lambda>x r. ast_ok (src_of r) x) ?q (call NT_expression (cxpr_expr_parser_advance ?q))"
    if "current_type ?q = CXPR_TOK_ASSIGN \<or> current_type ?q = CXPR_TOK_COLON"
  proof -
    have r: "later ?q (cxpr_expr_parser_advance ?q)" "left_to_read (cxpr_expr_parser_advance ?q) < left_to_read ?q"
      using advance_later [OF pq] that by auto
    have "cost NT_expression (cxpr_expr_parser_advance ?q) < n" using r(2) adv(2) n by (simp add: cost_def)
    from call_plain [OF later_pinv [OF r(1)] _ this] show ?thesis
      by (intro res_ok_later [OF r(1)]) (auto simp: good_node_def elim!: res_ok_weaken)
  qed
  then have val: "res_ok (\<lambda>x r. ast_ok (src_of r) x) ?q (record_value call ?name ?q)"
    using pq by (auto simp: record_value_def cxpr_expr_parser_check_def ast_new_defs ast_ok_Ast node_ok_def)
  have fields: "res_ok (good_items True) r
      (if ps_had_error r then Some (None, r)
       else if cxpr_expr_parser_check r CXPR_TOK_COMMA
       then items (IL_record (names @ [?name]) (vals @ [v])) (cxpr_expr_parser_advance r)
       else Some (Some (map Some (names @ [?name]), vals @ [v]), r))"
    if r: "later ?q r" "ast_ok (src_of r) v" for v r
  proof -
    note pr = later_trans [OF adv(1) r(1)]
    have parts: "il_ok r (IL_record (names @ [?name]) (vals @ [v]))"
      using acc r(2) later_src [OF pr] by (auto simp: il_ok_def)
    have "res_ok (good_items True) r (items (IL_record (names @ [?name]) (vals @ [v])) (cxpr_expr_parser_advance r))"
      if "current_type r = CXPR_TOK_COMMA"
    proof -
      have s: "later r (cxpr_expr_parser_advance r)" "left_to_read (cxpr_expr_parser_advance r) < left_to_read r"
        using advance_later [OF later_pinv [OF pr]] that by simp_all
      have "il_ok (cxpr_expr_parser_advance r) (IL_record (names @ [?name]) (vals @ [v]))"
        using parts later_src [OF s(1)] by (simp add: il_ok_def)
      from items_ok [OF later_pinv [OF s(1)] this] s(2) later_left [OF r(1)] adv(2) n show ?thesis
        by (intro res_ok_later [OF s(1)]) (simp add: item_cost_def is_named_def)
    qed
    with parts later_pinv [OF pr] show ?thesis
      by (simp add: cxpr_expr_parser_check_def good_items_def il_ok_def)
  qed
  from val have "res_ok (good_items True) ?q
      (case record_value call ?name ?q of
         None \<Rightarrow> None
       | Some (None, r) \<Rightarrow> Some (None, record_value_null r)
       | Some (Some v, r) \<Rightarrow>
           if ps_had_error r then Some (None, r)
           else if cxpr_expr_parser_check r CXPR_TOK_COMMA
           then items (IL_record (names @ [?name]) (vals @ [v])) (cxpr_expr_parser_advance r)
           else Some (Some (map Some (names @ [?name]), vals @ [v]), r))"
  proof (cases rule: res_ok_cases)
    case (null r)
    then show ?thesis using later_record_null [OF later_pinv [OF null(2)] null(3)] later_trans by auto
  next
    case (result v r)
    from res_ok_later [OF result(2) fields [OF result(2,3)]] result(1) show ?thesis by (simp del: map_append)
  qed
  with True show ?thesis
    by (auto simp: record_loop_def Let_def cxpr_expr_parser_check_def cxpr_expr_parser_token_to_string_def
        simp del: map_append intro: res_ok_later [OF adv(1)])
qed

lemma record_literal_ok:
  assumes p: "pinv p" "current_type p = CXPR_TOK_LBRACE" and n: "16 * left_to_read p \<le> n"
  shows "res_ok (\<lambda>x s. good_node lo x s \<and> left_to_read s < left_to_read p) p (cxpr_parse_record_literal call items p)"
  unfolding cxpr_parse_record_literal_def
  by (rule bracketed_ok [OF p _ _ n, where named = True])
    (auto simp: il_ok_def is_named_def ast_new_defs good_items_def intro!: unspanned_good)

end

context parser_calls
begin

lemma primary_call_ok:
  assumes p: "pinv p" "current_type p = CXPR_TOK_LPAREN" and n: "16 * left_to_read p \<le> n"
    and lower: "\<And>a q. good_node lo a q \<Longrightarrow> good_node lo (lower a) q"
  shows "res_ok (good_node lo) p (primary_call call items lower name p)"
  unfolding primary_call_def
proof (rule res_ok_case2 [OF arg_list_ok [OF p n]])
  fix names args q assume q: "later p q" "good_items True (names, args) q"
  note pq = later_pinv [OF q(1)]
  have prod: "good_node lo (cxpr_expr_ast_producer_field_named_new name args names f) r"
    and call: "good_node lo (cxpr_expr_ast_call_named_new name args names) r" if "later q r" for f r
    using q(2) later_src [OF that] unfolding ast_new_defs good_items_def by (auto intro!: unspanned_good)
  show "res_ok (good_node lo) q
    (if cxpr_expr_parser_check q CXPR_TOK_DOT
     then field_after_dot q (cxpr_expr_ast_producer_field_named_new name args names)
     else Some (Some (lower (cxpr_expr_ast_call_named_new name args names)), q))"
    by (rule if_ok) (use field_after_dot_ok [OF pq _ prod] lower [OF call] pq in
        \<open>auto simp: cxpr_expr_parser_check_def\<close>)
qed

lemma primary_variable_ok:
  assumes p: "pinv p" "current_type p = CXPR_TOK_VARIABLE"
  shows "res_ok (\<lambda>x s. good_node lo x s \<and> left_to_read s < left_to_read p) p (primary_variable p)"
proof (rule res_ok_advance [OF p])
  fix q assume q: "later p q" "q = cxpr_expr_parser_advance p"
  note pq = later_pinv [OF q(1)]
  have good: "good_node lo (cxpr_expr_ast_param_new s) r" for s r
    unfolding ast_new_defs by (rule unspanned_good) simp_all
  have "res_ok (good_node lo) q
     (case dotted_segments m (tok_text (ps_current p)) q of
        None \<Rightarrow> None
      | Some (None, r) \<Rightarrow> Some (None, r)
      | Some (Some segments, r) \<Rightarrow>
          Some (Some (cxpr_expr_ast_param_new (cxpr_expr_parser_join_segments segments)), r))"
    if "current_type q = CXPR_TOK_DOT" for m
    by (rule res_ok_case [OF dotted_segments_ok [OF pq that]]) (simp add: good later_pinv)
  with good pq show "res_ok (good_node lo) q (primary_variable p)"
    by (simp add: primary_variable_def Let_def q(2) [symmetric] cxpr_expr_parser_check_def
        cxpr_expr_parser_token_to_string_def)
qed simp_all

lemma primary_identifier_ok:
  assumes p: "pinv p" "current_type p = CXPR_TOK_IDENTIFIER" and n: "16 * left_to_read p \<le> n"
  shows "res_ok (\<lambda>x s. good_node lo x s \<and> left_to_read s < left_to_read p) p (primary_identifier call items p)"
proof (rule res_ok_advance [OF p])
  fix q assume q: "later p q" "q = cxpr_expr_parser_advance p" "left_to_read q < left_to_read p"
  note pq = later_pinv [OF q(1)]
  have nq: "16 * left_to_read q \<le> n" using n q(3) by simp
  let ?name = "tok_text (ps_current p)"
  have plain: "res_ok (good_node lo) q (primary_call call items cxpr_parse_lower_window_reduction ?name q)"
    if "current_type q = CXPR_TOK_LPAREN"
    by (rule primary_call_ok [OF pq that nq lower_window_good])
  have ident: "good_node lo (cxpr_expr_ast_identifier_new ?name) q"
    unfolding ast_new_defs by (rule unspanned_good) simp_all
  have dotted: "res_ok (good_node lo) q
     (case dotted_segments m ?name q of
        None \<Rightarrow> None
      | Some (None, r) \<Rightarrow> Some (None, r)
      | Some (Some segments, r) \<Rightarrow>
          if cxpr_expr_parser_check r CXPR_TOK_LPAREN
          then primary_call call items (\<lambda>n. n) (cxpr_expr_parser_join_segments segments) r
          else if length segments = 2
          then Some (Some (cxpr_expr_ast_field_new (segments ! 0) (segments ! 1)), r)
          else Some (cxpr_expr_ast_new_chain_access segments, r))"
    if "current_type q = CXPR_TOK_DOT" for m
  proof (rule res_ok_case [OF dotted_segments_ok [OF pq that]])
    fix segments :: "string list" and r assume r: "later q r" "2 \<le> length segments"
    note pr = later_pinv [OF r(1)]
    have nr: "16 * left_to_read r \<le> n" using nq later_left [OF r(1)] by simp
    have "good_node lo (cxpr_expr_ast_field_new (segments ! 0) (segments ! 1)) r"
      "good_node lo (Ast None (CXPR_NODE_CHAIN_ACCESS segments)) r"
      unfolding ast_new_defs using r(2) by (auto intro!: unspanned_good)
    with primary_call_ok [OF pr _ nr, of lo "\<lambda>n. n"] pr r(2)
    show "res_ok (good_node lo) r
      (if cxpr_expr_parser_check r CXPR_TOK_LPAREN
       then primary_call call items (\<lambda>n. n) (cxpr_expr_parser_join_segments segments) r
       else if length segments = 2
       then Some (Some (cxpr_expr_ast_field_new (segments ! 0) (segments ! 1)), r)
       else Some (cxpr_expr_ast_new_chain_access segments, r))"
      by (simp add: cxpr_expr_parser_check_def cxpr_expr_ast_new_chain_access_def)
  qed
  from plain ident dotted pq show "res_ok (good_node lo) q (primary_identifier call items p)"
    by (simp add: primary_identifier_def Let_def q(2) [symmetric] cxpr_expr_parser_check_def
        cxpr_expr_parser_token_to_string_def)
qed simp_all

lemma primary_paren_ok:
  assumes q: "pinv q" "lo \<le> tpos q" and n: "16 * left_to_read q + 13 < n"
  shows "res_ok (good_node lo) q (primary_paren call q)"
  unfolding primary_paren_def
proof (rule call_null [OF q(1)])
  fix x r assume r: "later q r" "good_node (tpos q) x r"
  show "res_ok (good_node lo) r
    (expect_or_null r CXPR_TOK_RPAREN (''Expected closing ')'' @ [CHR 0x27]) (\<lambda>p.
      if cxpr_expr_parser_check p CXPR_TOK_DOT then field_after_dot p (cxpr_expr_ast_field_expr_new x)
      else Some (Some x, p)))"
  proof (rule expect_ok [OF later_pinv [OF r(1)]])
    fix s assume s: "later r s"
    note ps = later_pinv [OF s]
    have x: "good_node lo x s" using good_node_lower [OF good_node_later [OF r(2) s] q(2)] .
    have "good_node lo (cxpr_expr_ast_field_expr_new x f) u" if "later s u" for f u
      unfolding ast_new_defs
      by (rule unspanned_good) (use good_node_later [OF x that] in \<open>auto simp: good_node_def\<close>)
    with field_after_dot_ok [OF ps] x ps show "res_ok (good_node lo) s
      (if cxpr_expr_parser_check s CXPR_TOK_DOT then field_after_dot s (cxpr_expr_ast_field_expr_new x)
       else Some (Some x, s))"
      by (simp add: cxpr_expr_parser_check_def)
  qed simp_all
qed (use n in \<open>simp_all add: cost_def\<close>)

lemma primary_atom_ok:
  assumes p: "pinv p" "lo \<le> tpos p" and n: "16 * left_to_read p \<le> n"
  shows "res_ok (\<lambda>x s. good_node lo x s \<and> left_to_read s < left_to_read p) p (primary_atom call items p)"
proof -
  have leaf: "res_ok (\<lambda>x s. good_node lo x s \<and> left_to_read s < left_to_read p) p
      (Some (Some (Ast None d), cxpr_expr_parser_advance p))"
    if "current_type p \<noteq> CXPR_TOK_EOF" "current_type p \<noteq> CXPR_TOK_ERROR" "node_wf d" "ast_children (Ast None d) = []" for d
    using advance_later [OF p(1) that(1,2)] that(3,4) by (auto intro!: unspanned_good simp del: ast_children.simps)
  have paren: "res_ok (\<lambda>x s. good_node lo x s \<and> left_to_read s < left_to_read p) p
      (primary_paren call (cxpr_expr_parser_advance p))" if "current_type p = CXPR_TOK_LPAREN"
  proof (rule res_ok_advance [OF p(1) that])
    fix q assume q: "later p q" "left_to_read q < left_to_read p" "q = cxpr_expr_parser_advance p"
    then show "res_ok (good_node lo) q (primary_paren call (cxpr_expr_parser_advance p))"
      using primary_paren_ok [OF later_pinv [OF q(1)]] n p(2) later_tpos [OF q(1)] by simp
  qed simp_all
  show ?thesis
    using leaf [of "CXPR_NODE_NUMBER (tok_number_value (ps_current p))"]
      leaf [of "CXPR_NODE_INT64 (tok_int64_value (ps_current p))"] leaf [of "CXPR_NODE_BOOL True"]
      leaf [of "CXPR_NODE_BOOL False"] leaf [of "CXPR_NODE_STRING (tok_text (ps_current p))"]
      paren primary_variable_ok [OF p(1)] primary_identifier_ok [OF p(1) _ n]
      array_literal_ok [OF p(1) _ n] record_literal_ok [OF p(1) _ n] later_set_error [OF p(1)]
    by (cases "current_type p") (auto simp: primary_atom_def Let_def ast_new_defs)
qed

lemma index_loop_ok:
  assumes p: "pinv p" "lo \<le> tpos p" "good_node lo x p" and n: "16 * left_to_read p \<le> n"
  shows "res_ok (good_node lo) p (index_loop call x p)"
proof (cases "current_type p = CXPR_TOK_LBRACKET")
  case False
  with p show ?thesis by (simp add: index_loop_def cxpr_expr_parser_check_def)
next
  case True
  have "res_ok (good_node lo) p (or_null (call NT_expression (cxpr_expr_parser_advance p)) (\<lambda>i q.
          expect_or_null q CXPR_TOK_RBRACKET ''Expected closing ']' after index expression'' (\<lambda>r.
            call (NT_index_loop (cxpr_expr_ast_index_new x i)) r)))"
  proof (rule advance_call_null [OF p(1)])
    fix i q assume q: "later p q" "left_to_read q < left_to_read p" "good_node (tpos p) i q"
    show "res_ok (good_node lo) q (expect_or_null q CXPR_TOK_RBRACKET
        ''Expected closing ']' after index expression'' (\<lambda>r. call (NT_index_loop (cxpr_expr_ast_index_new x i)) r))"
    proof (rule expect_ok [OF later_pinv [OF q(1)]])
      fix r assume r: "later q r" "left_to_read r < left_to_read q"
      note pr = later_trans [OF q(1) r(1)]
      have "good_node lo (cxpr_expr_ast_index_new x i) r"
        by (rule index_good [OF p(3) good_node_later [OF q(3) r(1)] pr p(2)])
      then show "res_ok (good_node lo) r (call (NT_index_loop (cxpr_expr_ast_index_new x i)) r)"
        using p(2) later_tpos [OF pr] n q(2) r(2)
        by (intro call_loop [OF later_pinv [OF pr]]) (auto simp: cost_def)
    qed simp_all
  qed (use True n in simp_all)
  with True show ?thesis by (simp add: index_loop_def cxpr_expr_parser_check_def)
qed

lemma span_good:
  assumes "later p q" "left_to_read q < left_to_read p" "pinv p" "lo \<le> tpos p" "good_node lo x q"
  obtains e where "cxpr_expr_parser_token_end q (ps_previous q) = Some e"
    "good_node lo (cxpr_expr_ast_set_source_span x \<lparr>span_start = token_start (ps_current p), span_end = e\<rparr>) q"
proof -
  have prev: "prev_ok q" "tpos p \<le> tok_position (ps_previous q)" using assms(1,2) by (auto simp: later_def)
  then obtain e where e: "cxpr_expr_parser_token_end q (ps_previous q) = Some e" "pos_ok (src_of q) e"
    "sp_offset e = tok_end (ps_previous q)"
    by (auto simp: prev_ok_def tok_end_def elim!: token_end_ok)
  have st: "pos_ok (src_of q) (token_start (ps_current p))" "sp_offset (token_start (ps_current p)) = tpos p"
    using token_start_ok [of "src_of p" "ps_current p"] assms(3) later_src [OF assms(1)] by (auto simp: pinv_def)
  have b: "tpos p \<le> sp_offset e" "sp_offset e \<le> tpos q" using prev e(3) by (auto simp: prev_ok_def tok_end_def)
  have sp: "span_ok (src_of q) \<lparr>span_start = token_start (ps_current p), span_end = e\<rparr>"
    using e(2) st b by (simp add: span_ok_def)
  obtain spx d where x: "x = Ast spx d" by (cases x)
  have ch: "ast_children (Ast s d) = ast_children (Ast spx d)" for s by simp
  have "good_node lo (cxpr_expr_ast_set_source_span x \<lparr>span_start = token_start (ps_current p), span_end = e\<rparr>) q"
    using assms(4,5) sp st(2) b
    unfolding good_node_def cxpr_expr_ast_set_source_span_def x cxpr_expr_ast.sel ast_ok_Ast ch [of "Some _"]
    by (auto simp: node_ok_def within_def simp del: ast_children.simps)
  with e(1) show thesis by (rule that)
qed

lemma primary_ok:
  assumes p: "pinv p" "lo \<le> tpos p" and n: "16 * left_to_read p \<le> n"
  shows "res_ok (good_node lo) p (cxpr_parse_primary call items p)"
  unfolding cxpr_parse_primary_def
proof (rule res_ok_case [OF primary_atom_ok [OF p n]])
  fix x q assume q: "later p q" "good_node lo x q \<and> left_to_read q < left_to_read p"
  have "lo \<le> tpos q" using p(2) later_tpos [OF q(1)] by simp
  then have loop: "res_ok (good_node lo) q (call (NT_index_loop x) q)"
    using q n by (intro call_loop [OF later_pinv [OF q(1)]]) (auto simp: cost_def)
  show "res_ok (good_node lo) q
    (case call (NT_index_loop x) q of
       None \<Rightarrow> None
     | Some (None, r) \<Rightarrow> Some (None, r)
     | Some (Some node, r) \<Rightarrow>
         (case cxpr_expr_parser_token_end r (ps_previous r) of
            None \<Rightarrow> None
          | Some e \<Rightarrow> Some (Some (cxpr_expr_ast_set_source_span node
                       \<lparr>span_start = token_start (ps_current p), span_end = e\<rparr>), r)))"
  proof (rule res_ok_case [OF loop])
    fix y r assume r: "later q r" "good_node lo y r"
    have "left_to_read r < left_to_read p" using q(2) later_left [OF r(1)] by simp
    then obtain e where "cxpr_expr_parser_token_end r (ps_previous r) = Some e"
      "good_node lo (cxpr_expr_ast_set_source_span y \<lparr>span_start = token_start (ps_current p), span_end = e\<rparr>) r"
      by (rule span_good [OF later_trans [OF q(1) r(1)] _ p r(2)])
    with later_pinv [OF r(1)] show "res_ok (good_node lo) r
      (case cxpr_expr_parser_token_end r (ps_previous r) of
         None \<Rightarrow> None
       | Some e \<Rightarrow> Some (Some (cxpr_expr_ast_set_source_span y
                    \<lparr>span_start = token_start (ps_current p), span_end = e\<rparr>), r))" by simp
  qed
qed

text \<open>One more level of calls keeps the contract.\<close>

lemma step_ok:
  assumes p: "pinv p" and nt: "nt_ok lo p nt" and cost: "cost nt p < Suc n"
  shows "res_ok (good_node lo) p (parse_step call items nt p)"
proof -
  have lo: "lo \<le> tpos p" using nt by (simp add: nt_ok_def)
  have n: "16 * left_to_read p \<le> n" using cost by (simp add: cost_def)
  show ?thesis
  proof (cases nt)
    case NT_expression
    then show ?thesis using cost chain_ok [OF p lo, of NT_ternary NT_pipe_loop]
      by (simp add: parse_step_def cxpr_parse_expression_def cxpr_parse_pipe_def cost_def)
  next
    case NT_or
    then show ?thesis using cost chain_ok [OF p lo, of NT_and NT_or_loop]
      by (simp add: parse_step_def cxpr_parse_or_def cost_def)
  next
    case NT_and
    then show ?thesis using cost chain_ok [OF p lo, of NT_not NT_and_loop]
      by (simp add: parse_step_def cxpr_parse_and_def cost_def)
  next
    case NT_arithmetic
    then show ?thesis using cost chain_ok [OF p lo, of NT_term NT_arithmetic_loop]
      by (simp add: parse_step_def cxpr_parse_arithmetic_def cost_def)
  next
    case NT_term
    then show ?thesis using cost chain_ok [OF p lo, of NT_unary NT_term_loop]
      by (simp add: parse_step_def cxpr_parse_term_def cost_def)
  qed (use p lo nt n cost in \<open>auto simp: parse_step_def nt_ok_def
      intro!: pipe_loop_ok ternary_ok binary_loop_ok not_ok equality_ok relational_ok relational_loop_ok
        unary_ok power_ok primary_ok index_loop_ok\<close>)
qed

lemma items_step_ok:
  assumes p: "pinv p" and il: "il_ok p il" and cost: "item_cost il p < Suc n"
  shows "res_ok (good_items (is_named il)) p (items_step call items il p)"
  using assms args_loop_ok [OF p] array_loop_ok [OF p] record_loop_ok [OF p]
  by (cases il) (auto simp: items_step_def is_named_def item_cost_def il_ok_def)

end

lemma parse_contract: "parser_calls (parse n) (parse_items n) n"
proof (induction n)
  case 0
  show ?case by unfold_locales simp_all
next
  case (Suc n)
  show ?case
    using parser_calls.step_ok [OF Suc] parser_calls.items_step_ok [OF Suc] by unfold_locales simp_all
qed

interpretation knot: parser_calls "parse n" "parse_items n" n for n
  by (rule parse_contract)

section \<open>The public entry point\<close>

definition parser_start :: "cxpr_expr_parser \<Rightarrow> string \<Rightarrow> cxpr_expr_parser" where
  "parser_start p src = cxpr_expr_parser_advance
     (p\<lparr>ps_lexer := cxpr_lexer_init src, ps_had_error := False, ps_last_error := cxpr_error_zero\<rparr>)"

lemma parser_start_ok:
  assumes "NUL \<notin> set src"
  shows "pinv (parser_start p src)" "src_of (parser_start p src) = src"
    "left_to_read (parser_start p src) \<le> Suc (length src)"
proof -
  let ?l = "cxpr_lexer_init src"
  obtain t l where n: "cxpr_lexer_next ?l = (t, l)" by (cases "cxpr_lexer_next ?l")
  note ok = init_ok [OF assms]
  note le = lexer_next_le [OF ok n] and tk = lexer_next_token [OF ok n]
  have src: "lx_source l = src" using le(1) by (simp add: lx_le_def cxpr_lexer_init_def)
  have src0: "lx_source ?l = src" by (simp add: cxpr_lexer_init_def)
  have q: "ps_lexer (parser_start p src) = l" "ps_current (parser_start p src) = t"
    "ps_had_error (parser_start p src) = (tok_type t = CXPR_TOK_ERROR)"
    "tok_type t = CXPR_TOK_ERROR \<Longrightarrow> ps_last_error (parser_start p src) =
      \<lparr>err_code = CXPR_ERR_SYNTAX, err_message = tok_text t, err_position = tok_position t,
       err_line = tok_line t, err_column = tok_column t\<rparr>"
    by (auto simp: parser_start_def cxpr_expr_parser_advance_def n Let_def)
  show "pinv (parser_start p src)"
    using le tk src src0 lx_le_ok by (auto simp: pinv_def q error_ok_def tok_ok_def)
  show "src_of (parser_start p src) = src" using q src by simp
  have "length (lx_current l) \<le> length src" using lx_le_ok [OF le(1)] src by (auto simp: lx_ok_def)
  then show "left_to_read (parser_start p src) \<le> Suc (length src)" by (simp add: left_to_read_def q)
qed

lemma parse_start_result:
  assumes "NUL \<notin> set src"
  shows "res_ok (good_node 0) (parser_start p src)
    (parse (parser_fuel src) NT_expression (parser_start p src))"
proof (rule knot.call_below [OF parser_start_ok(1) [OF assms]])
  show "cost NT_expression (parser_start p src) < parser_fuel src"
    using parser_start_ok(3) [OF assms, of p] by (simp add: cost_def parser_fuel_def)
qed simp_all

lemma parse_outcome:
  assumes "NUL \<notin> set src"
  obtains (tree) a q where "cxpr_expr_ast_parse p src = Some (Some a, None, q)" "later (parser_start p src) q"
      "\<not> ps_had_error q" "current_type q = CXPR_TOK_EOF" "ast_ok src a"
      "parse (parser_fuel src) NT_expression (parser_start p src) = Some (Some a, q)"
      "\<not> ps_had_error (parser_start p src)"
  | (failure) q where "cxpr_expr_ast_parse p src = Some (None, Some (ps_last_error q), q)" "later (parser_start p src) q"
      "ps_had_error q"
proof (cases "ps_had_error (parser_start p src)")
  case True
  then show thesis using failure [of "parser_start p src"] parser_start_ok(1) [OF assms]
    by (simp add: cxpr_expr_ast_parse_def parser_start_def Let_def)
next
  case ok: False
  from parse_start_result [OF assms, of p] show thesis
  proof (cases rule: res_ok_cases)
    case (null q)
    with ok failure [of q] show thesis by (simp add: cxpr_expr_ast_parse_def parser_start_def Let_def)
  next
    case (result a q)
    consider "ps_had_error q" | "\<not> ps_had_error q" "current_type q \<noteq> CXPR_TOK_EOF"
      | "\<not> ps_had_error q" "current_type q = CXPR_TOK_EOF" by blast
    then show thesis
    proof cases
      case 1
      with ok result failure [of q] show thesis by (simp add: cxpr_expr_ast_parse_def parser_start_def Let_def)
    next
      case 2
      let ?m = "if cxpr_expr_parser_token_starts_primary (current_type q)
        then ''Implicit multiplication is not supported; use '*' explicitly'' else ''Unexpected token after expression''"
      have "later (parser_start p src) (cxpr_expr_parser_set_error q ?m)"
        using later_trans [OF result(2) later_set_error [OF later_pinv [OF result(2)]]] .
      with 2 ok result(1) failure [of "cxpr_expr_parser_set_error q ?m"] show thesis
        by (simp add: cxpr_expr_ast_parse_def parser_start_def Let_def cxpr_expr_parser_check_def)
    next
      case 3
      have "ast_ok src a"
        using result(2,3) parser_start_ok(2) [OF assms] later_src by (metis good_node_def)
      with 3 ok result tree [of a q] show thesis
        by (simp add: cxpr_expr_ast_parse_def parser_start_def Let_def cxpr_expr_parser_check_def)
    qed
  qed
qed

text \<open>C6: parsing always returns, whatever the parser object held before and however the
  expression is nested: the depth of the calls stays within \<open>parser_fuel\<close> and no read of the
  source is out of bounds. The caller gets either a tree and no error, with the whole input
  consumed, or NULL and an error; never both and never neither.\<close>

theorem parse_always_returns:
  assumes "NUL \<notin> set src"
  shows "\<exists>r e q. cxpr_expr_ast_parse p src = Some (r, e, q) \<and> (r = None \<longleftrightarrow> e \<noteq> None) \<and>
    (ps_had_error q \<longleftrightarrow> e \<noteq> None) \<and> (e = None \<longrightarrow> current_type q = CXPR_TOK_EOF)"
  using assms by (cases rule: parse_outcome [of src p]) auto

definition fresh_parser :: cxpr_expr_parser where
  "fresh_parser = \<lparr>ps_lexer = cxpr_lexer_init [], ps_current = cxpr_make_token CXPR_TOK_NUMBER [] 0 0 0 0,
     ps_previous = cxpr_make_token CXPR_TOK_NUMBER [] 0 0 0 0, ps_had_error = False,
     ps_last_error = cxpr_error_zero\<rparr>"

theorem parse_always_returns_witness:
  "\<exists>r e q. cxpr_expr_ast_parse fresh_parser ''f(a, [b'' = Some (r, e, q) \<and> (r = None \<longleftrightarrow> e \<noteq> None) \<and>
    (ps_had_error q \<longleftrightarrow> e \<noteq> None) \<and> (e = None \<longrightarrow> current_type q = CXPR_TOK_EOF)"
  by (rule parse_always_returns) simp

text \<open>C33: when parsing fails, the reported error has the code of a syntax error (or the
  out-of-memory code), and its position, line and column are those of a position of the source.\<close>

theorem parse_error_located:
  assumes "NUL \<notin> set src" "cxpr_expr_ast_parse p src = Some (None, Some e, q)"
  shows "err_code e \<in> {CXPR_ERR_SYNTAX, CXPR_ERR_OUT_OF_MEMORY} \<and> err_position e \<le> length src \<and>
    err_line e = line_at src (err_position e) \<and> err_column e = column_at src (err_position e)"
  using assms(1)
proof (cases rule: parse_outcome [of src p])
  case (failure q')
  have "error_ok (src_of q') (ps_last_error q')"
    using failure later_pinv [OF failure(2)] by (simp add: pinv_def)
  moreover have "src_of q' = src" using later_src [OF failure(2)] parser_start_ok(2) [OF assms(1)] by simp
  ultimately show ?thesis using failure(1) assms(2) by (simp add: error_ok_def)
qed (use assms(2) in simp)

text \<open>C21: a tree the parser returns is well formed (every argument has a name slot, every record
  field a name, every chain two segments), and every source span in it is a range of the source,
  start before end, with the lines and columns of its ends.\<close>

theorem parse_tree_well_formed:
  assumes "NUL \<notin> set src" "cxpr_expr_ast_parse p src = Some (Some a, e, q)"
  shows "ast_wf a \<and> ast_all (\<lambda>x. \<forall>sp. ast_span x = Some sp \<longrightarrow> span_ok src sp) a"
  using assms(1)
proof (cases rule: parse_outcome [of src p])
  case (tree a' q')
  have "a' = a" using tree(1) assms(2) by simp
  with tree(5) ast_ok_wf [OF tree(5)] show ?thesis
    by (auto simp: ast_ok_def node_ok_def elim!: ast_all_mono)
qed (use assms(2) in simp)

lemma parse_failure_example:
  "map_option (\<lambda>(r, e, q). (r, e)) (cxpr_expr_ast_parse fresh_parser ''a +'') =
     Some (None, Some \<lparr>err_code = CXPR_ERR_SYNTAX, err_message = ''Unexpected token'', err_position = 3,
       err_line = 1, err_column = 4\<rparr>)"
  by code_simp

theorem parse_error_located_witness:
  "\<exists>e q. cxpr_expr_ast_parse fresh_parser ''a +'' = Some (None, Some e, q) \<and> err_position e \<le> length ''a +''"
proof -
  obtain e q where "cxpr_expr_ast_parse fresh_parser ''a +'' = Some (None, Some e, q)"
    using parse_failure_example by auto
  with parse_error_located [OF _ this] show ?thesis by simp
qed

theorem parse_tree_well_formed_witness:
  "\<exists>a q. cxpr_expr_ast_parse fresh_parser ''a'' = Some (Some a, None, q) \<and> ast_wf a"
proof -
  have "map_option (\<lambda>(r, e, q). (map_option ast_strip r, e)) (cxpr_expr_ast_parse fresh_parser ''a'') =
      Some (Some (Ast None (CXPR_NODE_IDENTIFIER ''a'')), None)" by code_simp
  then obtain a q where "cxpr_expr_ast_parse fresh_parser ''a'' = Some (Some a, None, q)" by auto
  with parse_tree_well_formed [OF _ this] show ?thesis by simp
qed

text \<open>A record literal whose field value does not parse is reported as an out-of-memory
  condition, at the position of the syntax error: \<open>{a = }\<close> has nothing to do with memory.\<close>

theorem record_syntax_error_reported_as_oom:
  "map_option (\<lambda>(r, e, q). (r, e)) (cxpr_expr_ast_parse fresh_parser ''{a = }'') =
     Some (None, Some \<lparr>err_code = CXPR_ERR_OUT_OF_MEMORY, err_message = ''Out of memory'', err_position = 5,
       err_line = 1, err_column = 6\<rparr>)"
  by code_simp

end
