(* ===== verification/Cxpr_Grammar.thy ===== *)
theory Cxpr_Grammar
  imports Cxpr_Parser_Safety
begin

text \<open>
  The language the parser accepts, written as a grammar over tokens: one rule per production,
  left-recursive where the operators associate to the left. \<open>derives\<close> relates a category, the
  tokens of a phrase and its tree (without source spans). The locale \<open>sound_calls\<close> states what a
  parsing function promises about the tokens it consumes; \<open>grammar\<close> interprets it on the parser,
  and the last theorem is the refinement: what parses is derived.
\<close>

section \<open>Meaning of the composite forms\<close>

abbreviation bin :: "cxpr_token_type \<Rightarrow> cxpr_expr_ast \<Rightarrow> cxpr_expr_ast \<Rightarrow> cxpr_expr_ast" where
  "bin op l r \<equiv> Ast None (CXPR_NODE_BINARY_OP op l r)"

text \<open>
  A chain of comparisons \<open>a op1 b1 op2 b2 ...\<close> is the conjunction of the comparisons; each
  compares with the operand before it, or with the first operand \<open>a\<close> again where the chain
  started as "name against threshold" and turns round (\<open>x > lo < hi\<close>).
\<close>

fun chain_terms :: "cxpr_expr_ast option \<Rightarrow> cxpr_token_type \<Rightarrow> cxpr_expr_ast \<Rightarrow>
    (cxpr_token_type \<times> cxpr_expr_ast) list \<Rightarrow> cxpr_expr_ast list" where
  "chain_terms subj op1 prev [] = []"
| "chain_terms subj op1 prev ((op, b) # cs) =
     bin op (case subj of
               Some s \<Rightarrow> if cxpr_expr_parser_relational_ops_cross_bounds op1 op then s else prev
             | None \<Rightarrow> prev) b # chain_terms subj op1 b cs"

definition chain_subject :: "cxpr_expr_ast \<Rightarrow> cxpr_expr_ast \<Rightarrow> cxpr_expr_ast option" where
  "chain_subject a b =
     (if cxpr_expr_parser_is_subject_node a \<and> cxpr_expr_parser_is_threshold_node b then Some a else None)"

fun chain_meaning :: "cxpr_expr_ast \<Rightarrow> (cxpr_token_type \<times> cxpr_expr_ast) list \<Rightarrow> cxpr_expr_ast" where
  "chain_meaning a [] = a"
| "chain_meaning a ((op, b) # cs) = foldl (bin CXPR_TOK_AND) (bin op a b) (chain_terms (chain_subject a b) op b cs)"

text \<open>A pipe stage: the piped value becomes the first argument.\<close>

fun pipe_into :: "cxpr_expr_data \<Rightarrow> cxpr_expr_ast \<Rightarrow> cxpr_expr_ast option" where
  "pipe_into (CXPR_NODE_IDENTIFIER f) a = Some (Ast None (CXPR_NODE_FUNCTION_CALL f [a] [None]))"
| "pipe_into (CXPR_NODE_FUNCTION_CALL f args names) a =
     Some (Ast None (CXPR_NODE_FUNCTION_CALL f (a # args) (None # names)))"
| "pipe_into (CXPR_NODE_PRODUCER_ACCESS f args names field) a =
     Some (Ast None (CXPR_NODE_PRODUCER_ACCESS f (a # args) (None # names) field))"
| "pipe_into _ a = None"

definition contains_call :: "bool \<Rightarrow> cxpr_expr_ast \<Rightarrow> cxpr_expr_ast \<Rightarrow> cxpr_expr_ast" where
  "contains_call negated a b =
     (let c = Ast None (CXPR_NODE_FUNCTION_CALL ''contains'' [a, b] [None, None]) in
      if negated then Ast None (CXPR_NODE_UNARY_OP CXPR_TOK_NOT c) else c)"

section \<open>The grammar\<close>

datatype cat =
    C_expression | C_ternary | C_or | C_and | C_not | C_equality | C_relational | C_arithmetic | C_term
  | C_unary | C_power | C_primary

datatype item_kind = K_args | K_array | K_record

text \<open>\<open>.name\<close> repeated.\<close>

inductive derives_path :: "cxpr_token list \<Rightarrow> string list \<Rightarrow> bool" where
  path_nil: "derives_path [] []"
| path_snoc: "derives_path ts segs \<Longrightarrow> tok_type d = CXPR_TOK_DOT \<Longrightarrow> tok_type t = CXPR_TOK_IDENTIFIER \<Longrightarrow>
    derives_path (ts @ [d, t]) (segs @ [tok_text t])"

inductive derives :: "cat \<Rightarrow> cxpr_token list \<Rightarrow> cxpr_expr_ast \<Rightarrow> bool"
  and derives_items :: "item_kind \<Rightarrow> cxpr_token list \<Rightarrow> string option list \<Rightarrow> cxpr_expr_ast list \<Rightarrow> bool"
  and derives_args :: "cxpr_token list \<Rightarrow> string option list \<Rightarrow> cxpr_expr_ast list \<Rightarrow> bool"
  and derives_chain :: "cxpr_token list \<Rightarrow> (cxpr_token_type \<times> cxpr_expr_ast) list \<Rightarrow> bool"
where
  expr_ternary: "derives C_ternary ts a \<Longrightarrow> derives C_expression ts a"
| expr_pipe: "derives C_expression ts a \<Longrightarrow> tok_type t = CXPR_TOK_PIPE \<Longrightarrow> derives C_ternary us s \<Longrightarrow>
    pipe_into (ast_data s) a = Some b \<Longrightarrow> derives C_expression (ts @ t # us) b"
| ternary_or: "derives C_or ts a \<Longrightarrow> derives C_ternary ts a"
| ternary_if: "derives C_or ts c \<Longrightarrow> tok_type q = CXPR_TOK_QUESTION \<Longrightarrow> derives C_expression us a \<Longrightarrow>
    tok_type k = CXPR_TOK_COLON \<Longrightarrow> derives C_expression vs b \<Longrightarrow>
    derives C_ternary (ts @ q # us @ k # vs) (Ast None (CXPR_NODE_TERNARY c a b))"
| or_and: "derives C_and ts a \<Longrightarrow> derives C_or ts a"
| or_or: "derives C_or ts a \<Longrightarrow> tok_type t = CXPR_TOK_OR \<Longrightarrow> derives C_and us b \<Longrightarrow>
    derives C_or (ts @ t # us) (bin CXPR_TOK_OR a b)"
| and_not: "derives C_not ts a \<Longrightarrow> derives C_and ts a"
| and_and: "derives C_and ts a \<Longrightarrow> tok_type t = CXPR_TOK_AND \<Longrightarrow> derives C_not us b \<Longrightarrow>
    derives C_and (ts @ t # us) (bin CXPR_TOK_AND a b)"
| not_not: "tok_type t = CXPR_TOK_NOT \<Longrightarrow> derives C_not ts a \<Longrightarrow>
    derives C_not (t # ts) (Ast None (CXPR_NODE_UNARY_OP CXPR_TOK_NOT a))"
| not_equality: "derives C_equality ts a \<Longrightarrow> derives C_not ts a"
| equality_relational: "derives C_relational ts a \<Longrightarrow> derives C_equality ts a"
| equality_op: "derives C_relational ts a \<Longrightarrow> tok_type t \<in> {CXPR_TOK_EQ, CXPR_TOK_NEQ} \<Longrightarrow>
    derives C_relational us b \<Longrightarrow> derives C_equality (ts @ t # us) (bin (tok_type t) a b)"
| relational_chain: "derives C_arithmetic ts a \<Longrightarrow> derives_chain us cs \<Longrightarrow>
    derives C_relational (ts @ us) (chain_meaning a cs)"
| relational_in: "derives C_arithmetic ts a \<Longrightarrow> tok_type t = CXPR_TOK_IN \<Longrightarrow>
    derives C_arithmetic us b \<Longrightarrow> tok_type (hd us) = CXPR_TOK_LBRACKET \<Longrightarrow>
    derives C_relational (ts @ t # us) (contains_call False a b)"
| relational_not_in: "derives C_arithmetic ts a \<Longrightarrow> tok_type m = CXPR_TOK_NOT \<Longrightarrow> tok_type t = CXPR_TOK_IN \<Longrightarrow>
    derives C_arithmetic us b \<Longrightarrow> tok_type (hd us) = CXPR_TOK_LBRACKET \<Longrightarrow>
    derives C_relational (ts @ m # t # us) (contains_call True a b)"
| arithmetic_term: "derives C_term ts a \<Longrightarrow> derives C_arithmetic ts a"
| arithmetic_op: "derives C_arithmetic ts a \<Longrightarrow> tok_type t \<in> {CXPR_TOK_PLUS, CXPR_TOK_MINUS} \<Longrightarrow>
    derives C_term us b \<Longrightarrow> derives C_arithmetic (ts @ t # us) (bin (tok_type t) a b)"
| term_unary: "derives C_unary ts a \<Longrightarrow> derives C_term ts a"
| term_op: "derives C_term ts a \<Longrightarrow> tok_type t \<in> {CXPR_TOK_STAR, CXPR_TOK_SLASH, CXPR_TOK_PERCENT} \<Longrightarrow>
    derives C_unary us b \<Longrightarrow> derives C_term (ts @ t # us) (bin (tok_type t) a b)"
| unary_minus: "tok_type t = CXPR_TOK_MINUS \<Longrightarrow> derives C_unary ts a \<Longrightarrow>
    derives C_unary (t # ts) (Ast None (CXPR_NODE_UNARY_OP CXPR_TOK_MINUS a))"
| unary_plus: "tok_type t = CXPR_TOK_PLUS \<Longrightarrow> derives C_unary ts a \<Longrightarrow> derives C_unary (t # ts) a"
| unary_power: "derives C_power ts a \<Longrightarrow> derives C_unary ts a"
| power_primary: "derives C_primary ts a \<Longrightarrow> derives C_power ts a"
| power_op: "derives C_primary ts a \<Longrightarrow> tok_type t = CXPR_TOK_POWER \<Longrightarrow> derives C_unary us b \<Longrightarrow>
    derives C_power (ts @ t # us) (bin CXPR_TOK_POWER a b)"
| primary_index: "derives C_primary ts a \<Longrightarrow> tok_type l = CXPR_TOK_LBRACKET \<Longrightarrow> derives C_expression us i \<Longrightarrow>
    tok_type r = CXPR_TOK_RBRACKET \<Longrightarrow> derives C_primary (ts @ l # us @ [r]) (Ast None (CXPR_NODE_INDEX a i))"
| primary_number: "tok_type t = CXPR_TOK_NUMBER \<Longrightarrow> \<not> tok_is_int64 t \<Longrightarrow>
    derives C_primary [t] (Ast None (CXPR_NODE_NUMBER (tok_number_value t)))"
| primary_int64: "tok_type t = CXPR_TOK_NUMBER \<Longrightarrow> tok_is_int64 t \<Longrightarrow>
    derives C_primary [t] (Ast None (CXPR_NODE_INT64 (tok_int64_value t)))"
| primary_true: "tok_type t = CXPR_TOK_TRUE \<Longrightarrow> derives C_primary [t] (Ast None (CXPR_NODE_BOOL True))"
| primary_false: "tok_type t = CXPR_TOK_FALSE \<Longrightarrow> derives C_primary [t] (Ast None (CXPR_NODE_BOOL False))"
| primary_string: "tok_type t = CXPR_TOK_STRING \<Longrightarrow> derives C_primary [t] (Ast None (CXPR_NODE_STRING (tok_text t)))"
| primary_param: "tok_type t = CXPR_TOK_VARIABLE \<Longrightarrow> derives_path ts segs \<Longrightarrow>
    derives C_primary (t # ts) (Ast None (CXPR_NODE_VARIABLE (join_dots (tok_text t # segs))))"
| primary_name: "tok_type t = CXPR_TOK_IDENTIFIER \<Longrightarrow>
    derives C_primary [t] (Ast None (CXPR_NODE_IDENTIFIER (tok_text t)))"
| primary_field: "tok_type t = CXPR_TOK_IDENTIFIER \<Longrightarrow> derives_path ts [f] \<Longrightarrow>
    derives C_primary (t # ts) (Ast None (CXPR_NODE_FIELD_ACCESS (tok_text t) f))"
| primary_chain: "tok_type t = CXPR_TOK_IDENTIFIER \<Longrightarrow> derives_path ts segs \<Longrightarrow> 2 \<le> length segs \<Longrightarrow>
    derives C_primary (t # ts) (Ast None (CXPR_NODE_CHAIN_ACCESS (tok_text t # segs)))"
| primary_call: "tok_type t = CXPR_TOK_IDENTIFIER \<Longrightarrow> derives_args us names args \<Longrightarrow>
    derives C_primary (t # us) (cxpr_parse_lower_window_reduction
      (Ast None (CXPR_NODE_FUNCTION_CALL (tok_text t) args names)))"
| primary_dotted_call: "tok_type t = CXPR_TOK_IDENTIFIER \<Longrightarrow> derives_path ts segs \<Longrightarrow> segs \<noteq> [] \<Longrightarrow>
    derives_args us names args \<Longrightarrow>
    derives C_primary (t # ts @ us) (Ast None (CXPR_NODE_FUNCTION_CALL (join_dots (tok_text t # segs)) args names))"
| primary_producer: "tok_type t = CXPR_TOK_IDENTIFIER \<Longrightarrow> derives_path ts segs \<Longrightarrow> derives_args us names args \<Longrightarrow>
    derives_path vs [f] \<Longrightarrow>
    derives C_primary (t # ts @ us @ vs) (Ast None (CXPR_NODE_PRODUCER_ACCESS (join_dots (tok_text t # segs)) args names f))"
| primary_paren: "tok_type l = CXPR_TOK_LPAREN \<Longrightarrow> derives C_expression ts a \<Longrightarrow> tok_type r = CXPR_TOK_RPAREN \<Longrightarrow>
    derives C_primary (l # ts @ [r]) a"
| primary_paren_field: "tok_type l = CXPR_TOK_LPAREN \<Longrightarrow> derives C_expression ts a \<Longrightarrow> tok_type r = CXPR_TOK_RPAREN \<Longrightarrow>
    derives_path vs [f] \<Longrightarrow> derives C_primary (l # ts @ r # vs) (Ast None (CXPR_NODE_FIELD_EXPR a f))"
| primary_empty_array: "tok_type l = CXPR_TOK_LBRACKET \<Longrightarrow> tok_type r = CXPR_TOK_RBRACKET \<Longrightarrow>
    derives C_primary [l, r] (Ast None (CXPR_NODE_ARRAY []))"
| primary_array: "tok_type l = CXPR_TOK_LBRACKET \<Longrightarrow> derives_items K_array ts names es \<Longrightarrow>
    tok_type r = CXPR_TOK_RBRACKET \<Longrightarrow> derives C_primary (l # ts @ [r]) (Ast None (CXPR_NODE_ARRAY es))"
| primary_empty_record: "tok_type l = CXPR_TOK_LBRACE \<Longrightarrow> tok_type r = CXPR_TOK_RBRACE \<Longrightarrow>
    derives C_primary [l, r] (Ast None (CXPR_NODE_RECORD [] []))"
| primary_record: "tok_type l = CXPR_TOK_LBRACE \<Longrightarrow> derives_items K_record ts (map Some names) vs \<Longrightarrow>
    tok_type r = CXPR_TOK_RBRACE \<Longrightarrow> derives C_primary (l # ts @ [r]) (Ast None (CXPR_NODE_RECORD names vs))"
| args_empty: "tok_type l = CXPR_TOK_LPAREN \<Longrightarrow> tok_type r = CXPR_TOK_RPAREN \<Longrightarrow> derives_args [l, r] [] []"
| args_some: "tok_type l = CXPR_TOK_LPAREN \<Longrightarrow> derives_items K_args ts names args \<Longrightarrow>
    tok_type r = CXPR_TOK_RPAREN \<Longrightarrow> derives_args (l # ts @ [r]) names args"
| item_arg: "derives C_expression ts a \<Longrightarrow> derives_items K_args ts [None] [a]"
| item_named_arg: "tok_type t = CXPR_TOK_IDENTIFIER \<Longrightarrow> tok_type e = CXPR_TOK_ASSIGN \<Longrightarrow> derives C_expression ts a \<Longrightarrow>
    derives_items K_args (t # e # ts) [Some (tok_text t)] [a]"
| item_element: "derives C_expression ts a \<Longrightarrow> derives_items K_array ts [] [a]"
| item_field: "tok_type t = CXPR_TOK_IDENTIFIER \<Longrightarrow> tok_type e \<in> {CXPR_TOK_ASSIGN, CXPR_TOK_COLON} \<Longrightarrow>
    derives C_expression ts a \<Longrightarrow> derives_items K_record (t # e # ts) [Some (tok_text t)] [a]"
| item_short_field: "tok_type t = CXPR_TOK_IDENTIFIER \<Longrightarrow>
    derives_items K_record [t] [Some (tok_text t)] [Ast None (CXPR_NODE_IDENTIFIER (tok_text t))]"
| item_comma: "derives_items k ts ns xs \<Longrightarrow> tok_type c = CXPR_TOK_COMMA \<Longrightarrow> derives_items k us ms ys \<Longrightarrow>
    derives_items k (ts @ c # us) (ns @ ms) (xs @ ys)"
| chain_nil: "derives_chain [] []"
| chain_snoc: "derives_chain ts cs \<Longrightarrow> cxpr_expr_parser_is_relational_token (tok_type t) \<Longrightarrow>
    derives C_arithmetic us b \<Longrightarrow> derives_chain (ts @ t # us) (cs @ [(tok_type t, b)])"

section \<open>Trees without spans\<close>

lemma strip_idem [simp]: "ast_strip (ast_strip a) = ast_strip a"
proof (induction a rule: ast_induct)
  case (node a)
  then show ?case by (cases a; cases "ast_data a") auto
qed

lemma strip_inherit [simp]: "ast_strip (cxpr_expr_ast_inherit_range d x y) = ast_strip (Ast None d)"
  by (auto simp: cxpr_expr_ast_inherit_range_def split: option.splits)

lemma strip_set_span [simp]: "ast_strip (cxpr_expr_ast_set_source_span a sp) = ast_strip a"
  by (cases a) (simp add: cxpr_expr_ast_set_source_span_def)

lemma strip_new [simp]:
  "ast_strip (cxpr_expr_ast_binary_new op x y) = bin op (ast_strip x) (ast_strip y)"
  "ast_strip (cxpr_expr_ast_unary_new op x) = Ast None (CXPR_NODE_UNARY_OP op (ast_strip x))"
  "ast_strip (cxpr_expr_ast_index_new x y) = Ast None (CXPR_NODE_INDEX (ast_strip x) (ast_strip y))"
  "ast_strip (cxpr_expr_ast_ternary_new x y z) = Ast None (CXPR_NODE_TERNARY (ast_strip x) (ast_strip y) (ast_strip z))"
  by (simp_all add: ast_new_defs)

lemma data_strip:
  "ast_data (ast_strip a) =
     (case ast_data a of
        CXPR_NODE_ARRAY es \<Rightarrow> CXPR_NODE_ARRAY (map ast_strip es)
      | CXPR_NODE_RECORD ns vs \<Rightarrow> CXPR_NODE_RECORD ns (map ast_strip vs)
      | CXPR_NODE_FIELD_EXPR b f \<Rightarrow> CXPR_NODE_FIELD_EXPR (ast_strip b) f
      | CXPR_NODE_PRODUCER_ACCESS n args names f \<Rightarrow> CXPR_NODE_PRODUCER_ACCESS n (map ast_strip args) names f
      | CXPR_NODE_BINARY_OP op a b \<Rightarrow> CXPR_NODE_BINARY_OP op (ast_strip a) (ast_strip b)
      | CXPR_NODE_UNARY_OP op a \<Rightarrow> CXPR_NODE_UNARY_OP op (ast_strip a)
      | CXPR_NODE_FUNCTION_CALL n args names \<Rightarrow> CXPR_NODE_FUNCTION_CALL n (map ast_strip args) names
      | CXPR_NODE_INDEX a b \<Rightarrow> CXPR_NODE_INDEX (ast_strip a) (ast_strip b)
      | CXPR_NODE_TERNARY a b c \<Rightarrow> CXPR_NODE_TERNARY (ast_strip a) (ast_strip b) (ast_strip c)
      | d \<Rightarrow> d)"
  by (cases a; cases "ast_data a") simp_all

lemma chain_subject_strip: "chain_subject (ast_strip a) (ast_strip b) = map_option ast_strip (chain_subject a b)"
  by (auto simp: chain_subject_def cxpr_expr_parser_is_subject_node_def cxpr_expr_parser_is_threshold_node_def
      data_strip split: cxpr_expr_data.splits)

lemma strip_lower: "ast_strip (cxpr_parse_lower_window_reduction (Ast None (CXPR_NODE_FUNCTION_CALL f args names))) =
    cxpr_parse_lower_window_reduction (Ast None (CXPR_NODE_FUNCTION_CALL f (map ast_strip args) names))"
proof (cases "args = []")
  case True
  then show ?thesis by (simp add: cxpr_parse_lower_window_reduction_def)
next
  case False
  then obtain a as where args: "args = a # as" by (cases args) auto
  show ?thesis
    by (cases "ast_data a"; cases "cxpr_window_reduction_name f")
      (auto simp: cxpr_parse_lower_window_reduction_def args data_strip splice_window_def Let_def)
qed

section \<open>Consumed tokens\<close>

fun consumes :: "cxpr_expr_parser \<Rightarrow> cxpr_token list \<Rightarrow> cxpr_expr_parser \<Rightarrow> bool" where
  "consumes p [] q \<longleftrightarrow> q = p"
| "consumes p (t # ts) q \<longleftrightarrow> t = ps_current p \<and> consumes (cxpr_expr_parser_advance p) ts q"

lemma consumes_append: "consumes p (ts @ us) r \<longleftrightarrow> (\<exists>q. consumes p ts q \<and> consumes q us r)"
  by (induction ts arbitrary: p) auto

lemma consumes_trans: "consumes p ts q \<Longrightarrow> consumes q us r \<Longrightarrow> consumes p (ts @ us) r"
  by (auto simp: consumes_append)

lemma consumes_advance: "consumes p ts q \<Longrightarrow> consumes p (ts @ [ps_current q]) (cxpr_expr_parser_advance q)"
  by (simp add: consumes_append) blast

section \<open>Inversion of the control patterns\<close>

lemma or_return_SomeE:
  assumes "or_return r k = Some (Some x, q)"
  obtains (early) "r = Some (Some x, q)"
  | (cont) l p where "r = Some (Some l, p)" "k l p = Some (Some x, q)"
  using assms by (auto simp: or_return_def split: option.splits if_splits)

lemma or_null_SomeE:
  assumes "or_null r k = Some (Some x, q)"
  obtains l p where "r = Some (Some l, p)" "k l p = Some (Some x, q)"
  using assms by (auto simp: or_null_def split: option.splits if_splits)

lemma expect_SomeE:
  assumes "expect_or_null p ty m k = Some (Some x, q)"
  obtains "current_type p = ty" "k (cxpr_expr_parser_advance p) = Some (Some x, q)"
  using assms by (auto simp: expect_or_null_def cxpr_expr_parser_expect_def cxpr_expr_parser_check_def
      split: if_splits)

lemma case_SomeE:
  assumes "(case r of None \<Rightarrow> None | Some (None, p) \<Rightarrow> Some (None, p) | Some (Some l, p) \<Rightarrow> k l p) = Some (Some x, q)"
  obtains l p where "r = Some (Some l, p)" "k l p = Some (Some x, q)"
  using assms by (auto split: option.splits)

lemma case2_SomeE:
  assumes "(case r of None \<Rightarrow> None | Some (None, p) \<Rightarrow> Some (None, p) | Some (Some (l, m), p) \<Rightarrow> k l m p) = Some (Some x, q)"
  obtains l m p where "r = Some (Some (l, m), p)" "k l m p = Some (Some x, q)"
  using assms by (auto split: option.splits)

section \<open>Chains\<close>

definition last_operand :: "cxpr_expr_ast \<Rightarrow> (cxpr_token_type \<times> cxpr_expr_ast) list \<Rightarrow> cxpr_expr_ast" where
  "last_operand b cs = (if cs = [] then b else snd (last cs))"

lemma last_operand_Cons [simp]: "last_operand b (c # cs) = last_operand (snd c) cs"
  by (simp add: last_operand_def)

lemma last_operand_snoc [simp]: "last_operand b (cs @ [c]) = snd c"
  by (simp add: last_operand_def)

lemma chain_terms_snoc:
  "chain_terms s op1 prev (cs @ [(op, b)]) = chain_terms s op1 prev cs @
     [bin op (case s of Some x \<Rightarrow> if cxpr_expr_parser_relational_ops_cross_bounds op1 op then x else last_operand prev cs
              | None \<Rightarrow> last_operand prev cs) b]"
proof (induction cs arbitrary: prev)
  case (Cons c cs)
  obtain o1 b1 where "c = (o1, b1)" by (cases c)
  with Cons show ?case by (cases s) simp_all
qed (cases s; simp add: last_operand_def)

lemma chain_meaning_snoc:
  "chain_meaning a ((op1, b1) # cs @ [(op, b)]) =
     bin CXPR_TOK_AND (chain_meaning a ((op1, b1) # cs))
       (bin op (case chain_subject a b1 of
                  Some x \<Rightarrow> if cxpr_expr_parser_relational_ops_cross_bounds op1 op then x else last_operand b1 cs
                | None \<Rightarrow> last_operand b1 cs) b)"
  by (simp add: chain_terms_snoc)

lemma those_map_image:
  "those (map f xs) = Some ys \<Longrightarrow> (\<And>x y. x \<in> set xs \<Longrightarrow> f x = Some y \<Longrightarrow> g y = h x) \<Longrightarrow> map g ys = map h xs"
proof (induction xs arbitrary: ys)
  case (Cons x xs)
  then obtain y zs where "f x = Some y" "those (map f xs) = Some zs" "ys = y # zs"
    by (auto split: option.splits)
  with Cons.IH [of zs] Cons.prems(2) show ?case by simp
qed simp

lemma clone_strip: "cxpr_expr_parser_clone_ast a = Some b \<Longrightarrow> ast_strip b = ast_strip a"
  unfolding cxpr_expr_parser_clone_ast_def
proof (induction a arbitrary: b rule: ast_induct)
  case (node a)
  obtain sp d where a: "a = Ast sp d" by (cases a)
  note lists = those_map_image [where g = ast_strip and h = ast_strip]
  have one: "cxpr_eval_clone_ast c = Some e \<Longrightarrow> c \<in> set (ast_children a) \<Longrightarrow> ast_strip e = ast_strip c" for c e
    using node.IH by blast
  from node.prems show ?case
    by (cases d)
      (auto simp: a cxpr_eval_clone_ast.simps ast_new_defs Option.bind_eq_Some_conv split: if_splits
        dest!: lists [OF _ one] one)
qed

lemma derives_nonempty: "derives c ts a \<Longrightarrow> ts \<noteq> []" "derives_items k ts ns xs \<Longrightarrow> ts \<noteq> []"
  "derives_args ts ns xs \<Longrightarrow> ts \<noteq> []" "derives_chain ts cs \<Longrightarrow> True"
  by (induction rule: derives_derives_items_derives_args_derives_chain.inducts) auto

section \<open>Soundness of every function\<close>

fun nt_spec :: "nonterm \<Rightarrow> cxpr_token list \<Rightarrow> cxpr_expr_ast \<Rightarrow> bool" where
  "nt_spec NT_expression ts x \<longleftrightarrow> derives C_expression ts x"
| "nt_spec (NT_pipe_loop l) ts x \<longleftrightarrow>
     (\<forall>us. derives C_expression us (ast_strip l) \<longrightarrow> derives C_expression (us @ ts) x)"
| "nt_spec NT_ternary ts x \<longleftrightarrow> derives C_ternary ts x"
| "nt_spec NT_or ts x \<longleftrightarrow> derives C_or ts x"
| "nt_spec (NT_or_loop l) ts x \<longleftrightarrow> (\<forall>us. derives C_or us (ast_strip l) \<longrightarrow> derives C_or (us @ ts) x)"
| "nt_spec NT_and ts x \<longleftrightarrow> derives C_and ts x"
| "nt_spec (NT_and_loop l) ts x \<longleftrightarrow> (\<forall>us. derives C_and us (ast_strip l) \<longrightarrow> derives C_and (us @ ts) x)"
| "nt_spec NT_not ts x \<longleftrightarrow> derives C_not ts x"
| "nt_spec NT_equality ts x \<longleftrightarrow> derives C_equality ts x"
| "nt_spec NT_relational ts x \<longleftrightarrow> derives C_relational ts x"
| "nt_spec (NT_relational_loop s op l r) ts x \<longleftrightarrow>
     (\<forall>us a b cs. derives_chain us ((op, b) # cs) \<and> ast_strip l = chain_meaning a ((op, b) # cs) \<and>
        ast_strip r = last_operand b cs \<and> map_option ast_strip s = chain_subject a b \<longrightarrow>
        (\<exists>cs'. derives_chain (us @ ts) ((op, b) # cs') \<and> x = chain_meaning a ((op, b) # cs')))"
| "nt_spec NT_arithmetic ts x \<longleftrightarrow> derives C_arithmetic ts x"
| "nt_spec (NT_arithmetic_loop l) ts x \<longleftrightarrow>
     (\<forall>us. derives C_arithmetic us (ast_strip l) \<longrightarrow> derives C_arithmetic (us @ ts) x)"
| "nt_spec NT_term ts x \<longleftrightarrow> derives C_term ts x"
| "nt_spec (NT_term_loop l) ts x \<longleftrightarrow> (\<forall>us. derives C_term us (ast_strip l) \<longrightarrow> derives C_term (us @ ts) x)"
| "nt_spec NT_unary ts x \<longleftrightarrow> derives C_unary ts x"
| "nt_spec NT_power ts x \<longleftrightarrow> derives C_power ts x"
| "nt_spec NT_primary ts x \<longleftrightarrow> derives C_primary ts x"
| "nt_spec (NT_index_loop l) ts x \<longleftrightarrow> (\<forall>us. derives C_primary us (ast_strip l) \<longrightarrow> derives C_primary (us @ ts) x)"

fun item_spec :: "item_loop \<Rightarrow> cxpr_token list \<Rightarrow> string option list \<Rightarrow> cxpr_expr_ast list \<Rightarrow> bool" where
  "item_spec (IL_args ns xs) ts names args \<longleftrightarrow>
     (\<exists>ts' r. ts = ts' @ [r] \<and> tok_type r = CXPR_TOK_RPAREN \<and>
        (\<forall>us. derives_items K_args us ns (map ast_strip xs) \<longrightarrow>
           derives_items K_args (us @ ts') names (map ast_strip args)))"
| "item_spec (IL_array es) ts names args \<longleftrightarrow>
     (\<exists>ys. args = es @ ys \<and> derives_items K_array ts [] (map ast_strip ys))"
| "item_spec (IL_record ns vs) ts names args \<longleftrightarrow>
     (\<exists>ms ys. names = map Some (ns @ ms) \<and> args = vs @ ys \<and>
        derives_items K_record ts (map Some ms) (map ast_strip ys))"

locale sound_calls =
  fixes call :: node_calls and items :: item_calls
  assumes call_sound: "call nt p = Some (Some x, q) \<Longrightarrow> \<exists>ts. consumes p ts q \<and> nt_spec nt ts (ast_strip x)"
    and items_sound: "items il p = Some (Some (names, args), q) \<Longrightarrow>
      \<exists>ts. consumes p ts q \<and> item_spec il ts names args"
begin

lemma callE:
  assumes "call nt p = Some (Some x, q)"
  obtains ts where "consumes p ts q" "nt_spec nt ts (ast_strip x)"
  using call_sound [OF assms] by blast

text \<open>A level that parses the next one and runs a loop over it.\<close>

lemma chain_sound:
  assumes "or_return (call operand p) (\<lambda>left q. call (loop left) q) = Some (Some x, q)"
    and "\<And>ts y. nt_spec operand ts y \<Longrightarrow> derives c ts y"
    and "\<And>l ts y. nt_spec (loop l) ts y \<Longrightarrow> (\<forall>us. derives c us (ast_strip l) \<longrightarrow> derives c (us @ ts) y)"
  shows "\<exists>ts. consumes p ts q \<and> derives c ts (ast_strip x)"
  using assms(1)
proof (cases rule: or_return_SomeE)
  case early
  then show ?thesis using call_sound assms(2) by blast
next
  case (cont l r)
  from cont(1) obtain ts where ts: "consumes p ts r" "nt_spec operand ts (ast_strip l)" by (rule callE)
  from cont(2) obtain us where us: "consumes r us q" "nt_spec (loop l) us (ast_strip x)" by (rule callE)
  from ts us show ?thesis using assms(2,3) consumes_trans by blast
qed

lemma binary_loop_sound:
  assumes "binary_loop call ops operand loop left p = Some (Some x, q)"
    and op: "\<And>ts us t a b. derives c ts a \<Longrightarrow> tok_type t \<in> ops \<Longrightarrow> nt_spec operand us b \<Longrightarrow>
      derives c (ts @ t # us) (bin (tok_type t) a b)"
    and loop: "\<And>l ts y. nt_spec (loop l) ts y \<Longrightarrow> (\<forall>us. derives c us (ast_strip l) \<longrightarrow> derives c (us @ ts) y)"
  shows "\<exists>ts. consumes p ts q \<and> (\<forall>us. derives c us (ast_strip left) \<longrightarrow> derives c (us @ ts) (ast_strip x))"
proof (cases "current_type p \<in> ops")
  case False
  with assms(1) show ?thesis by (intro exI [of _ "[]"]) (simp add: binary_loop_def)
next
  case True
  with assms(1) obtain r u where r: "call operand (cxpr_expr_parser_advance p) = Some (Some r, u)"
    "call (loop (cxpr_expr_ast_binary_new (current_type p) left r)) u = Some (Some x, q)"
    by (auto simp: binary_loop_def elim: or_null_SomeE)
  from r(1) obtain us where us: "consumes (cxpr_expr_parser_advance p) us u" "nt_spec operand us (ast_strip r)"
    by (rule callE)
  from r(2) obtain vs where vs: "consumes u vs q"
    "nt_spec (loop (cxpr_expr_ast_binary_new (current_type p) left r)) vs (ast_strip x)" by (rule callE)
  have "consumes p ((ps_current p # us) @ vs) q" using us(1) vs(1) by (auto simp: consumes_append)
  moreover have "derives c (ws @ (ps_current p # us) @ vs) (ast_strip x)" if "derives c ws (ast_strip left)" for ws
    using loop [OF vs(2), THEN spec, of "ws @ ps_current p # us"] op [OF that True us(2)] by simp
  ultimately show ?thesis by blast
qed

lemma pipe_inject_sound:
  "cxpr_expr_parser_pipe_inject_argument p stage piped = (Some x, q) \<Longrightarrow>
   q = p \<and> pipe_into (ast_data (ast_strip stage)) (ast_strip piped) = Some (ast_strip x)"
  by (cases "ast_data stage") (auto simp: cxpr_expr_parser_pipe_inject_argument_def data_strip ast_new_defs)

lemma pipe_loop_sound:
  assumes "pipe_loop call left p = Some (Some x, q)"
  shows "\<exists>ts. consumes p ts q \<and> nt_spec (NT_pipe_loop left) ts (ast_strip x)"
proof (cases "current_type p = CXPR_TOK_PIPE")
  case False
  with assms show ?thesis by (intro exI [of _ "[]"]) (simp add: pipe_loop_def cxpr_expr_parser_check_def)
next
  case True
  with assms obtain stage r y u where r: "call NT_ternary (cxpr_expr_parser_advance p) = Some (Some stage, r)"
    "cxpr_expr_parser_pipe_inject_argument r stage left = (Some y, u)" "call (NT_pipe_loop y) u = Some (Some x, q)"
    by (auto simp: pipe_loop_def cxpr_expr_parser_check_def elim!: or_null_SomeE)
  note inj = pipe_inject_sound [OF r(2)]
  from r(1) obtain us where us: "consumes (cxpr_expr_parser_advance p) us r" "derives C_ternary us (ast_strip stage)"
    by (auto elim!: callE)
  from r(3) obtain vs where vs: "consumes u vs q"
    "\<And>ws. derives C_expression ws (ast_strip y) \<Longrightarrow> derives C_expression (ws @ vs) (ast_strip x)" by (auto elim!: callE)
  have "consumes p ((ps_current p # us) @ vs) q" using us(1) vs(1) inj by (auto simp: consumes_append)
  moreover have "derives C_expression (ws @ (ps_current p # us) @ vs) (ast_strip x)"
    if "derives C_expression ws (ast_strip left)" for ws
    using vs(2) [OF expr_pipe [OF that True us(2)]] inj by simp
  ultimately show ?thesis unfolding nt_spec.simps by blast
qed

lemma ternary_sound:
  assumes "cxpr_parse_ternary call p = Some (Some x, q)"
  shows "\<exists>ts. consumes p ts q \<and> derives C_ternary ts (ast_strip x)"
  using assms unfolding cxpr_parse_ternary_def
proof (cases rule: or_return_SomeE)
  case early
  then show ?thesis by (fastforce elim!: callE intro: ternary_or)
next
  case (cont c r)
  from cont(1) obtain ts where ts: "consumes p ts r" "derives C_or ts (ast_strip c)" by (auto elim!: callE)
  show ?thesis
  proof (cases "current_type r = CXPR_TOK_QUESTION")
    case False
    with cont(2) ts show ?thesis by (auto simp: cxpr_expr_parser_check_def intro: ternary_or)
  next
    case True
    with cont(2) obtain a u b where a: "call NT_expression (cxpr_expr_parser_advance r) = Some (Some a, u)"
      "current_type u = CXPR_TOK_COLON" "call NT_expression (cxpr_expr_parser_advance u) = Some (Some b, q)"
      "x = cxpr_expr_ast_ternary_new c a b"
      by (auto simp: cxpr_expr_parser_check_def elim!: or_null_SomeE expect_SomeE)
    from a(1) obtain us where us: "consumes (cxpr_expr_parser_advance r) us u" "derives C_expression us (ast_strip a)"
      by (auto elim!: callE)
    from a(3) obtain vs where vs: "consumes (cxpr_expr_parser_advance u) vs q" "derives C_expression vs (ast_strip b)"
      by (auto elim!: callE)
    have "consumes p (ts @ ps_current r # us @ ps_current u # vs) q"
      using ts(1) us(1) vs(1) by (auto simp: consumes_append)
    with ternary_if [OF ts(2) True us(2) a(2) vs(2)] a(4) show ?thesis by auto
  qed
qed

lemma not_sound:
  assumes "cxpr_parse_not call p = Some (Some x, q)"
  shows "\<exists>ts. consumes p ts q \<and> derives C_not ts (ast_strip x)"
proof (cases "current_type p = CXPR_TOK_NOT")
  case True
  with assms obtain a where a: "call NT_not (cxpr_expr_parser_advance p) = Some (Some a, q)"
    "x = cxpr_expr_ast_unary_new CXPR_TOK_NOT a"
    by (auto simp: cxpr_parse_not_def cxpr_expr_parser_check_def elim!: or_null_SomeE)
  from a(1) obtain ts where "consumes (cxpr_expr_parser_advance p) ts q" "derives C_not ts (ast_strip a)"
    by (auto elim!: callE)
  with not_not [OF True] a(2) show ?thesis by (intro exI [of _ "ps_current p # ts"]) simp
next
  case False
  with assms show ?thesis
    by (fastforce simp: cxpr_parse_not_def cxpr_expr_parser_check_def elim!: callE intro: not_equality)
qed

lemma unary_sound:
  assumes "cxpr_parse_unary call p = Some (Some x, q)"
  shows "\<exists>ts. consumes p ts q \<and> derives C_unary ts (ast_strip x)"
proof -
  consider "current_type p = CXPR_TOK_MINUS" | "current_type p = CXPR_TOK_PLUS"
    | "current_type p \<noteq> CXPR_TOK_MINUS" "current_type p \<noteq> CXPR_TOK_PLUS" by blast
  then show ?thesis
  proof cases
    case 1
    with assms obtain a where a: "call NT_unary (cxpr_expr_parser_advance p) = Some (Some a, q)"
      "x = cxpr_expr_ast_unary_new CXPR_TOK_MINUS a"
      by (auto simp: cxpr_parse_unary_def cxpr_expr_parser_check_def elim!: or_null_SomeE)
    from a(1) obtain ts where "consumes (cxpr_expr_parser_advance p) ts q" "derives C_unary ts (ast_strip a)"
      by (auto elim!: callE)
    with unary_minus [OF 1] a(2) show ?thesis by (intro exI [of _ "ps_current p # ts"]) simp
  next
    case 2
    with assms obtain ts where "consumes (cxpr_expr_parser_advance p) ts q" "derives C_unary ts (ast_strip x)"
      by (auto simp: cxpr_parse_unary_def cxpr_expr_parser_check_def elim!: callE)
    with unary_plus [OF 2] show ?thesis by (intro exI [of _ "ps_current p # ts"]) simp
  next
    case 3
    with assms show ?thesis
      by (fastforce simp: cxpr_parse_unary_def cxpr_expr_parser_check_def elim!: callE intro: unary_power)
  qed
qed

text \<open>An operand, an operator, an operand.\<close>

lemma operand_pair:
  assumes "consumes p ts r" "or_null (call nt (cxpr_expr_parser_advance r)) (\<lambda>right s.
      Some (Some (cxpr_expr_ast_binary_new op left right), s)) = Some (Some x, q)"
  obtains b us where "consumes p (ts @ ps_current r # us) q" "nt_spec nt us (ast_strip b)"
    "ast_strip x = bin op (ast_strip left) (ast_strip b)"
proof -
  from assms(2) obtain b where b: "call nt (cxpr_expr_parser_advance r) = Some (Some b, q)"
    "x = cxpr_expr_ast_binary_new op left b" by (auto elim!: or_null_SomeE)
  from b(1) obtain us where us: "consumes (cxpr_expr_parser_advance r) us q" "nt_spec nt us (ast_strip b)" by (rule callE)
  have "consumes p (ts @ ps_current r # us) q" using assms(1) us(1) by (auto simp: consumes_append)
  with us(2) b(2) show thesis by (intro that) simp_all
qed

lemma equality_sound:
  assumes "cxpr_parse_equality call p = Some (Some x, q)"
  shows "\<exists>ts. consumes p ts q \<and> derives C_equality ts (ast_strip x)"
  using assms unfolding cxpr_parse_equality_def
proof (cases rule: or_return_SomeE)
  case early
  then show ?thesis by (fastforce elim!: callE intro: equality_relational)
next
  case (cont l r)
  from cont(1) obtain ts where ts: "consumes p ts r" "derives C_relational ts (ast_strip l)" by (auto elim!: callE)
  show ?thesis
  proof (cases "current_type r \<in> {CXPR_TOK_EQ, CXPR_TOK_NEQ}")
    case False
    with cont(2) ts show ?thesis by (auto simp: cxpr_expr_parser_check_def intro: equality_relational)
  next
    case True
    with cont(2) have "or_null (call NT_relational (cxpr_expr_parser_advance r)) (\<lambda>right s.
      Some (Some (cxpr_expr_ast_binary_new (current_type r) l right), s)) = Some (Some x, q)"
      by (auto simp: cxpr_expr_parser_check_def)
    from operand_pair [OF ts(1) this] obtain b us where "consumes p (ts @ ps_current r # us) q"
      "nt_spec NT_relational us (ast_strip b)" "ast_strip x = bin (current_type r) (ast_strip l) (ast_strip b)" .
    with equality_op [OF ts(2) True] show ?thesis by auto
  qed
qed

lemma power_sound:
  assumes "cxpr_parse_power call p = Some (Some x, q)"
  shows "\<exists>ts. consumes p ts q \<and> derives C_power ts (ast_strip x)"
  using assms unfolding cxpr_parse_power_def
proof (cases rule: or_return_SomeE)
  case early
  then show ?thesis by (fastforce elim!: callE intro: power_primary)
next
  case (cont l r)
  from cont(1) obtain ts where ts: "consumes p ts r" "derives C_primary ts (ast_strip l)" by (auto elim!: callE)
  show ?thesis
  proof (cases "current_type r = CXPR_TOK_POWER")
    case False
    with cont(2) ts show ?thesis by (auto simp: cxpr_expr_parser_check_def intro: power_primary)
  next
    case True
    with cont(2) have "or_null (call NT_unary (cxpr_expr_parser_advance r)) (\<lambda>right s.
      Some (Some (cxpr_expr_ast_binary_new CXPR_TOK_POWER l right), s)) = Some (Some x, q)"
      by (simp add: cxpr_expr_parser_check_def)
    from operand_pair [OF ts(1) this] obtain b us where "consumes p (ts @ ps_current r # us) q"
      "nt_spec NT_unary us (ast_strip b)" "ast_strip x = bin CXPR_TOK_POWER (ast_strip l) (ast_strip b)" .
    with power_op [OF ts(2) True] show ?thesis by auto
  qed
qed

end

context sound_calls
begin

lemma relational_loop_sound:
  assumes "relational_loop call s op l r p = Some (Some x, q)"
  shows "\<exists>ts. consumes p ts q \<and> nt_spec (NT_relational_loop s op l r) ts (ast_strip x)"
proof (cases "cxpr_expr_parser_is_relational_token (current_type p)")
  case False
  with assms show ?thesis by (intro exI [of _ "[]"]) (auto simp: relational_loop_def)
next
  case True
  define sub where "sub = (case s of
      Some y \<Rightarrow> if cxpr_expr_parser_relational_ops_cross_bounds op (current_type p) then y else r
    | None \<Rightarrow> r)"
  from True assms obtain nl nr u where c: "cxpr_expr_parser_clone_ast sub = Some nl"
    "call NT_arithmetic (cxpr_expr_parser_advance p) = Some (Some nr, u)"
    "call (NT_relational_loop s op (cxpr_expr_ast_binary_new CXPR_TOK_AND l
        (cxpr_expr_ast_binary_new (current_type p) nl nr)) nr) u = Some (Some x, q)"
    by (auto simp: relational_loop_def Let_def sub_def [symmetric] split: option.splits elim!: or_null_SomeE)
  have nl: "ast_strip nl = ast_strip sub" using c(1) by (rule clone_strip)
  from c(2) obtain us where us: "consumes (cxpr_expr_parser_advance p) us u" "derives C_arithmetic us (ast_strip nr)"
    by (auto elim!: callE)
  from c(3) obtain vs where vs: "consumes u vs q" "nt_spec (NT_relational_loop s op (cxpr_expr_ast_binary_new CXPR_TOK_AND l
        (cxpr_expr_ast_binary_new (current_type p) nl nr)) nr) vs (ast_strip x)" by (rule callE)
  have cons: "consumes p (ps_current p # us @ vs) q" using us(1) vs(1) by (auto simp: consumes_append)
  have "\<exists>cs'. derives_chain (ws @ ps_current p # us @ vs) ((op, b) # cs') \<and> ast_strip x = chain_meaning a ((op, b) # cs')"
    if w: "derives_chain ws ((op, b) # cs)" "ast_strip l = chain_meaning a ((op, b) # cs)"
      "ast_strip r = last_operand b cs" "map_option ast_strip s = chain_subject a b" for ws a b cs
  proof -
    have "derives_chain (ws @ ps_current p # us) ((op, b) # cs @ [(current_type p, ast_strip nr)])"
      using chain_snoc [OF w(1) True us(2)] by simp
    moreover have "bin CXPR_TOK_AND (ast_strip l) (bin (current_type p) (ast_strip nl) (ast_strip nr)) =
        chain_meaning a ((op, b) # cs @ [(current_type p, ast_strip nr)])"
      unfolding chain_meaning_snoc w(2) [symmetric] w(3) [symmetric] w(4) [symmetric] nl sub_def
      by (cases s) simp_all
    ultimately show ?thesis
      using vs(2) [unfolded nt_spec.simps, rule_format, of "ws @ ps_current p # us" b "cs @ [(current_type p, ast_strip nr)]" a] w(4)
      by simp
  qed
  with cons show ?thesis unfolding nt_spec.simps by blast
qed

lemma set_membership_sound:
  assumes "cxpr_parse_set_membership call left negated p = Some (Some x, q)"
  obtains us b where "consumes p us q" "derives C_arithmetic us b" "tok_type (hd us) = CXPR_TOK_LBRACKET"
    "ast_strip x = contains_call negated (ast_strip left) b"
proof -
  from assms obtain b where b: "current_type p = CXPR_TOK_LBRACKET" "call NT_arithmetic p = Some (Some b, q)"
    "ast_strip x = contains_call negated (ast_strip left) (ast_strip b)"
    by (auto simp: cxpr_parse_set_membership_def cxpr_expr_parser_check_def Let_def contains_call_def ast_new_defs
        split: if_splits elim!: or_null_SomeE)
  from b(2) obtain us where us: "consumes p us q" "derives C_arithmetic us (ast_strip b)" by (auto elim!: callE)
  have "us \<noteq> []" using us(2) derives_nonempty by blast
  then have "hd us = ps_current p" using us(1) by (cases us) auto
  with us b show thesis by (intro that [of us "ast_strip b"]) simp_all
qed

lemma relational_sound:
  assumes "cxpr_parse_relational call p = Some (Some x, q)"
  shows "\<exists>ts. consumes p ts q \<and> derives C_relational ts (ast_strip x)"
  using assms unfolding cxpr_parse_relational_def Let_def
proof (cases rule: or_return_SomeE)
  case early
  then obtain ts where "consumes p ts q" "derives C_arithmetic ts (ast_strip x)" by (auto elim!: callE)
  with relational_chain [OF _ chain_nil] show ?thesis by fastforce
next
  case (cont l r)
  from cont(1) obtain ts where ts: "consumes p ts r" "derives C_arithmetic ts (ast_strip l)" by (auto elim!: callE)
  let ?op = "current_type r"
  consider (cmp) "cxpr_expr_parser_is_relational_token ?op"
    | (notin) "\<not> cxpr_expr_parser_is_relational_token ?op" "?op = CXPR_TOK_NOT" "tok_type (cxpr_expr_parser_peek_next r) = CXPR_TOK_IN"
    | (isin) "\<not> cxpr_expr_parser_is_relational_token ?op" "?op = CXPR_TOK_IN"
    | (plain) "x = l" "r = q"
    using cont(2) by (auto simp: cxpr_expr_parser_check_def split: if_splits)
  then show ?thesis
  proof cases
    case cmp
    with cont(2) obtain b u where b1: "call NT_arithmetic (cxpr_expr_parser_advance r) = Some (Some b, u)"
      "(if cxpr_expr_parser_is_subject_node l \<and> cxpr_expr_parser_is_threshold_node b
        then (case cxpr_expr_parser_clone_ast l of
                None \<Rightarrow> Some (None, set_out_of_memory u)
              | Some s \<Rightarrow> call (NT_relational_loop (Some s) ?op (cxpr_expr_ast_binary_new ?op l b) b) u)
        else call (NT_relational_loop None ?op (cxpr_expr_ast_binary_new ?op l b) b) u) = Some (Some x, q)"
      by (auto elim!: or_null_SomeE)
    have "\<exists>s. map_option ast_strip s = map_option ast_strip (chain_subject l b) \<and>
        call (NT_relational_loop s ?op (cxpr_expr_ast_binary_new ?op l b) b) u = Some (Some x, q)"
    proof (cases "cxpr_expr_parser_is_subject_node l \<and> cxpr_expr_parser_is_threshold_node b")
      case True
      with b1(2) obtain s where "cxpr_expr_parser_clone_ast l = Some s"
        "call (NT_relational_loop (Some s) ?op (cxpr_expr_ast_binary_new ?op l b) b) u = Some (Some x, q)"
        by (auto split: option.splits)
      with True clone_strip show ?thesis by (intro exI [of _ "Some s"]) (simp add: chain_subject_def)
    next
      case False
      with b1(2) show ?thesis by (intro exI [of _ None]) (auto simp: chain_subject_def)
    qed
    then obtain s where b: "call NT_arithmetic (cxpr_expr_parser_advance r) = Some (Some b, u)"
      "map_option ast_strip s = map_option ast_strip (chain_subject l b)"
      "call (NT_relational_loop s ?op (cxpr_expr_ast_binary_new ?op l b) b) u = Some (Some x, q)"
      using b1(1) by blast
    from b(1) obtain us where us: "consumes (cxpr_expr_parser_advance r) us u" "derives C_arithmetic us (ast_strip b)"
      by (auto elim!: callE)
    from b(3) obtain vs where vs: "consumes u vs q"
      "nt_spec (NT_relational_loop s ?op (cxpr_expr_ast_binary_new ?op l b) b) vs (ast_strip x)" by (rule callE)
    have "derives_chain (ps_current r # us) [(?op, ast_strip b)]"
      using chain_snoc [OF chain_nil cmp us(2)] by simp
    moreover have "map_option ast_strip s = chain_subject (ast_strip l) (ast_strip b)"
      using b(2) by (simp add: chain_subject_strip)
    ultimately obtain cs' where "derives_chain ((ps_current r # us) @ vs) ((?op, ast_strip b) # cs')"
      "ast_strip x = chain_meaning (ast_strip l) ((?op, ast_strip b) # cs')"
      using vs(2) [unfolded nt_spec.simps, rule_format, of "ps_current r # us" "ast_strip b" "[]" "ast_strip l"]
      by (auto simp: last_operand_def)
    with relational_chain [OF ts(2) this(1)] ts(1) us(1) vs(1) show ?thesis
      by (intro exI [of _ "ts @ (ps_current r # us) @ vs"]) (auto simp: consumes_append)
  next
    case notin
    let ?r1 = "cxpr_expr_parser_advance r"
    have in1: "current_type ?r1 = CXPR_TOK_IN" using notin(3)
      by (auto simp: cxpr_expr_parser_peek_next_def cxpr_lexer_peek_def cxpr_expr_parser_advance_def Let_def
          split: prod.splits)
    from notin cont(2) have "cxpr_parse_set_membership call l True (cxpr_expr_parser_advance ?r1) = Some (Some x, q)"
      by (simp add: cxpr_expr_parser_check_def)
    then obtain us b where us: "consumes (cxpr_expr_parser_advance ?r1) us q" "derives C_arithmetic us b"
      "tok_type (hd us) = CXPR_TOK_LBRACKET" "ast_strip x = contains_call True (ast_strip l) b"
      by (rule set_membership_sound)
    have "consumes p (ts @ ps_current r # ps_current ?r1 # us) q" using ts(1) us(1) by (auto simp: consumes_append)
    with relational_not_in [OF ts(2) notin(2) in1 us(2,3)] us(4) show ?thesis by auto
  next
    case isin
    then have "cxpr_parse_set_membership call l False (cxpr_expr_parser_advance r) = Some (Some x, q)"
      using cont(2) by (simp add: cxpr_expr_parser_check_def)
    then obtain us b where us: "consumes (cxpr_expr_parser_advance r) us q" "derives C_arithmetic us b"
      "tok_type (hd us) = CXPR_TOK_LBRACKET" "ast_strip x = contains_call False (ast_strip l) b"
      by (rule set_membership_sound)
    have "consumes p (ts @ ps_current r # us) q" using ts(1) us(1) by (auto simp: consumes_append)
    with relational_in [OF ts(2) isin(2) us(2,3)] us(4) show ?thesis by auto
  next
    case plain
    with relational_chain [OF ts(2) chain_nil] ts show ?thesis by fastforce
  qed
qed

end

lemma dotted_loop_sound:
  "dotted_loop k m acc p = Some (Some segs, q) \<Longrightarrow>
   \<exists>ts ss. consumes p ts q \<and> segs = acc @ ss \<and> (\<forall>us rs. derives_path us rs \<longrightarrow> derives_path (us @ ts) (rs @ ss))"
proof (induction k arbitrary: acc p)
  case (Suc k)
  show ?case
  proof (cases "current_type p = CXPR_TOK_DOT")
    case False
    with Suc.prems show ?thesis by (intro exI [of _ "[]"]) (simp add: cxpr_expr_parser_check_def)
  next
    case True
    let ?q = "cxpr_expr_parser_advance p"
    let ?t = "ps_current ?q"
    from Suc.prems True have id: "tok_type ?t = CXPR_TOK_IDENTIFIER"
      and rest: "dotted_loop k m (acc @ [tok_text ?t]) (cxpr_expr_parser_advance ?q) = Some (Some segs, q)"
      by (auto simp: cxpr_expr_parser_check_def Let_def cxpr_expr_parser_token_to_string_def split: if_splits)
    from Suc.IH [OF rest] obtain ts ss where ts: "consumes (cxpr_expr_parser_advance ?q) ts q"
      "segs = (acc @ [tok_text ?t]) @ ss" "\<And>us rs. derives_path us rs \<Longrightarrow> derives_path (us @ ts) (rs @ ss)" by blast
    have "derives_path (us @ ps_current p # ?t # ts) (rs @ tok_text ?t # ss)" if "derives_path us rs" for us rs
      using ts(3) [OF path_snoc [OF that True id]] by simp
    with ts show ?thesis
      by (intro exI [of _ "ps_current p # ?t # ts"] exI [of _ "tok_text ?t # ss"]) auto
  qed
qed simp

lemma dotted_segments_sound:
  assumes "dotted_segments m name p = Some (Some segs, q)"
  obtains ts ss where "consumes p ts q" "segs = name # ss" "derives_path ts ss"
  using dotted_loop_sound [OF assms [unfolded dotted_segments_def]] path_nil by fastforce

lemma field_after_dot_sound:
  assumes "field_after_dot p mk = Some (Some x, q)" "current_type p = CXPR_TOK_DOT"
  obtains ts f where "consumes p ts q" "derives_path ts [f]" "x = mk f"
proof -
  let ?t = "ps_current (cxpr_expr_parser_advance p)"
  from assms(1) have "tok_type ?t = CXPR_TOK_IDENTIFIER" "x = mk (tok_text ?t)"
    "q = cxpr_expr_parser_advance (cxpr_expr_parser_advance p)"
    by (auto simp: field_after_dot_def Let_def cxpr_expr_parser_check_def cxpr_expr_parser_token_to_string_def
        split: if_splits)
  with path_snoc [OF path_nil assms(2)] show thesis by (intro that [of "[ps_current p, ?t]"]) auto
qed

context sound_calls
begin

lemma exprE:
  assumes "call NT_expression p = Some (Some x, q)"
  obtains ts where "consumes p ts q" "derives C_expression ts (ast_strip x)"
  using assms by (auto elim!: callE)

lemma call_argument_sound:
  assumes "cxpr_parse_call_argument call p = Some (Some (name, arg), q)"
  obtains ts where "consumes p ts q" "derives_items K_args ts [name] [ast_strip arg]"
proof (cases "current_type p = CXPR_TOK_IDENTIFIER \<and> tok_type (cxpr_expr_parser_peek_next p) = CXPR_TOK_ASSIGN")
  case True
  let ?q = "cxpr_expr_parser_advance p"
  from True assms have as: "current_type ?q = CXPR_TOK_ASSIGN"
    and e: "call NT_expression (cxpr_expr_parser_advance ?q) = Some (Some arg, q)" and n: "name = Some (tok_text (ps_current p))"
    by (auto simp: cxpr_parse_call_argument_def cxpr_expr_parser_check_def Let_def
        cxpr_expr_parser_token_to_string_def elim!: expect_SomeE or_null_SomeE)
  from e obtain ts where ts: "consumes (cxpr_expr_parser_advance ?q) ts q" "derives C_expression ts (ast_strip arg)"
    by (rule exprE)
  with item_named_arg [OF conjunct1 [OF True] as] n show thesis
    by (intro that [of "ps_current p # ps_current ?q # ts"]) simp_all
next
  case False
  with assms have "call NT_expression p = Some (Some arg, q)" "name = None"
    by (auto simp: cxpr_parse_call_argument_def cxpr_expr_parser_check_def elim!: or_null_SomeE)
  with that show thesis by (auto elim!: exprE intro: item_arg)
qed

lemma argument_then_loop_sound:
  assumes "argument_then_loop call items ns xs p = Some (Some (names, args), q)"
  obtains us ts' r name a where "consumes p (us @ ts' @ [r]) q" "tok_type r = CXPR_TOK_RPAREN"
    "derives_items K_args us [name] [a]"
    "\<And>ws. derives_items K_args ws (ns @ [name]) (map ast_strip xs @ [a]) \<Longrightarrow>
       derives_items K_args (ws @ ts') names (map ast_strip args)"
proof -
  from assms obtain name arg u where a: "cxpr_parse_call_argument call p = Some (Some (name, arg), u)"
    "items (IL_args (ns @ [name]) (xs @ [arg])) u = Some (Some (names, args), q)"
    unfolding argument_then_loop_def by (rule case2_SomeE)
  from a(1) obtain us where us: "consumes p us u" "derives_items K_args us [name] [ast_strip arg]"
    by (rule call_argument_sound)
  from items_sound [OF a(2)] obtain ts' r where ts: "consumes u (ts' @ [r]) q" "tok_type r = CXPR_TOK_RPAREN"
    "\<And>ws. derives_items K_args ws (ns @ [name]) (map ast_strip xs @ [ast_strip arg]) \<Longrightarrow>
       derives_items K_args (ws @ ts') names (map ast_strip args)" by auto
  from consumes_trans [OF us(1) ts(1)] us(2) ts(2,3) show thesis by (intro that) auto
qed

lemma args_end_sound:
  "args_end ns xs p = Some (Some (names, args), q) \<Longrightarrow>
   consumes p [ps_current p] q \<and> current_type p = CXPR_TOK_RPAREN \<and> names = ns \<and> args = xs"
  by (auto simp: args_end_def elim!: expect_SomeE)

lemma args_loop_sound:
  assumes "args_loop call items ns xs p = Some (Some (names, args), q)"
  shows "\<exists>ts. consumes p ts q \<and> item_spec (IL_args ns xs) ts names args"
proof (cases "current_type p = CXPR_TOK_COMMA")
  case True
  with assms have "argument_then_loop call items ns xs (cxpr_expr_parser_advance p) = Some (Some (names, args), q)"
    by (simp add: args_loop_def cxpr_expr_parser_check_def)
  then obtain us ts' r name a where g: "consumes (cxpr_expr_parser_advance p) (us @ ts' @ [r]) q"
    "tok_type r = CXPR_TOK_RPAREN" "derives_items K_args us [name] [a]"
    "\<And>ws. derives_items K_args ws (ns @ [name]) (map ast_strip xs @ [a]) \<Longrightarrow>
       derives_items K_args (ws @ ts') names (map ast_strip args)"
    using argument_then_loop_sound by blast
  have "derives_items K_args (ws @ ps_current p # us @ ts') names (map ast_strip args)"
    if "derives_items K_args ws ns (map ast_strip xs)" for ws
    using g(4) [OF item_comma [OF that True g(3)]] by simp
  with g(1,2) show ?thesis
    by (intro exI [of _ "(ps_current p # us @ ts') @ [r]"]) auto
next
  case False
  with assms args_end_sound [of ns xs p names args q] show ?thesis
    by (intro exI [of _ "[ps_current p]"]) (auto simp: args_loop_def cxpr_expr_parser_check_def)
qed

lemma arg_list_sound:
  assumes "cxpr_expr_parser_parse_arg_list call items p = Some (Some (names, args), q)"
    "current_type p = CXPR_TOK_LPAREN"
  obtains ts where "consumes p ts q" "derives_args ts names (map ast_strip args)"
proof (cases "current_type (cxpr_expr_parser_advance p) = CXPR_TOK_RPAREN")
  case True
  with assms args_end_sound [of "[]" "[]" "cxpr_expr_parser_advance p" names args q] args_empty [OF assms(2)]
  show thesis
    by (intro that [of "[ps_current p, ps_current (cxpr_expr_parser_advance p)]"])
      (auto simp: cxpr_expr_parser_parse_arg_list_def Let_def cxpr_expr_parser_check_def)
next
  case False
  with assms have "argument_then_loop call items [] [] (cxpr_expr_parser_advance p) = Some (Some (names, args), q)"
    by (simp add: cxpr_expr_parser_parse_arg_list_def Let_def cxpr_expr_parser_check_def)
  then obtain us ts' r name a where g: "consumes (cxpr_expr_parser_advance p) (us @ ts' @ [r]) q"
    "tok_type r = CXPR_TOK_RPAREN" "derives_items K_args us [name] [a]"
    "\<And>ws. derives_items K_args ws ([] @ [name]) (map ast_strip [] @ [a]) \<Longrightarrow>
       derives_items K_args (ws @ ts') names (map ast_strip args)"
    using argument_then_loop_sound by blast
  have "derives_items K_args (us @ ts') names (map ast_strip args)" using g(3,4) by simp
  from args_some [OF assms(2) this g(2)] g(1) show thesis
    by (intro that [of "ps_current p # (us @ ts') @ [r]"]) simp_all
qed

lemma array_loop_sound:
  assumes "array_loop call items es p = Some (Some (names, args), q)"
  shows "\<exists>ts. consumes p ts q \<and> item_spec (IL_array es) ts names args"
proof -
  from assms obtain e u where e: "call NT_expression p = Some (Some e, u)"
    "(if cxpr_expr_parser_check u CXPR_TOK_COMMA
      then items (IL_array (es @ [e])) (cxpr_expr_parser_advance u)
      else Some (Some ([], es @ [e]), u)) = Some (Some (names, args), q)"
    unfolding array_loop_def by (rule or_null_SomeE)
  from e(1) obtain ts where ts: "consumes p ts u" "derives C_expression ts (ast_strip e)" by (rule exprE)
  show ?thesis
  proof (cases "current_type u = CXPR_TOK_COMMA")
    case True
    with e(2) items_sound obtain us where "consumes (cxpr_expr_parser_advance u) us q"
      "item_spec (IL_array (es @ [e])) us names args" by (fastforce simp: cxpr_expr_parser_check_def)
    then obtain ys where us: "consumes (cxpr_expr_parser_advance u) us q" "args = es @ e # ys"
      "derives_items K_array us [] (map ast_strip ys)" by auto
    have "consumes p (ts @ ps_current u # us) q" using ts(1) us(1) by (auto simp: consumes_append)
    with item_comma [OF item_element [OF ts(2)] True us(3)] us(2) show ?thesis by fastforce
  next
    case False
    with e(2) ts item_element [OF ts(2)] show ?thesis by (auto simp: cxpr_expr_parser_check_def)
  qed
qed

lemma record_loop_sound:
  assumes "record_loop call items ns vs p = Some (Some (names, args), q)"
  shows "\<exists>ts. consumes p ts q \<and> item_spec (IL_record ns vs) ts names args"
proof -
  let ?q = "cxpr_expr_parser_advance p" and ?n = "tok_text (ps_current p)"
  have id: "current_type p = CXPR_TOK_IDENTIFIER"
    using assms by (auto simp: record_loop_def cxpr_expr_parser_check_def split: if_splits)
  from assms id obtain v u where v: "record_value call ?n ?q = Some (Some v, u)"
    "(if cxpr_expr_parser_check u CXPR_TOK_COMMA
      then items (IL_record (ns @ [?n]) (vs @ [v])) (cxpr_expr_parser_advance u)
      else Some (Some (map Some (ns @ [?n]), vs @ [v]), u)) = Some (Some (names, args), q)"
    by (auto simp: record_loop_def Let_def cxpr_expr_parser_check_def cxpr_expr_parser_token_to_string_def
        simp del: map_append split: option.splits if_splits)
  obtain ts where ts: "consumes p ts u" "derives_items K_record ts [Some ?n] [ast_strip v]"
  proof (cases "current_type ?q \<in> {CXPR_TOK_ASSIGN, CXPR_TOK_COLON}")
    case True
    with v(1) have "call NT_expression (cxpr_expr_parser_advance ?q) = Some (Some v, u)"
      by (auto simp: record_value_def cxpr_expr_parser_check_def)
    then obtain us where "consumes (cxpr_expr_parser_advance ?q) us u" "derives C_expression us (ast_strip v)"
      by (rule exprE)
    with item_field [OF id True] that [of "ps_current p # ps_current ?q # us"] show thesis by simp
  next
    case False
    with v(1) item_short_field [OF id] that [of "[ps_current p]"] show thesis
      by (auto simp: record_value_def cxpr_expr_parser_check_def ast_new_defs)
  qed
  show ?thesis
  proof (cases "current_type u = CXPR_TOK_COMMA")
    case True
    with v(2) items_sound obtain us where "consumes (cxpr_expr_parser_advance u) us q"
      "item_spec (IL_record (ns @ [?n]) (vs @ [v])) us names args" by (fastforce simp: cxpr_expr_parser_check_def)
    then obtain ms ys where us: "consumes (cxpr_expr_parser_advance u) us q" "names = map Some (ns @ ?n # ms)"
      "args = vs @ v # ys" "derives_items K_record us (map Some ms) (map ast_strip ys)" by auto
    have "consumes p (ts @ ps_current u # us) q" using ts(1) us(1) by (auto simp: consumes_append)
    with item_comma [OF ts(2) True us(4)] us(2,3) show ?thesis
      by (intro exI [of _ "ts @ ps_current u # us"] conjI) (auto intro!: exI [of _ "?n # ms"] exI [of _ "v # ys"])
  next
    case False
    with v(2) ts show ?thesis
      by (intro exI [of _ ts] conjI)
        (auto simp: cxpr_expr_parser_check_def intro!: exI [of _ "[?n]"] exI [of _ "[v]"])
  qed
qed

end

context sound_calls
begin

lemma bracket_itemsE:
  assumes "(case (if cxpr_expr_parser_check p closing then Some (Some ([], []), p) else items il p) of
         None \<Rightarrow> None
       | Some (None, r) \<Rightarrow> Some (None, r)
       | Some (Some (names, xs), r) \<Rightarrow>
           expect_or_null r closing m (\<lambda>s. Some (Some (mk names xs), s))) = Some (Some x, q)"
  obtains (empty) "consumes p [ps_current p] q" "current_type p = closing" "x = mk [] []"
  | (some) ts names xs r where "consumes p (ts @ [r]) q" "item_spec il ts names xs" "tok_type r = closing" "x = mk names xs"
proof -
  from assms obtain names xs u where u: "(if cxpr_expr_parser_check p closing then Some (Some ([], []), p) else items il p) =
      Some (Some (names, xs), u)" "expect_or_null u closing m (\<lambda>s. Some (Some (mk names xs), s)) = Some (Some x, q)"
    by (rule case2_SomeE)
  from u(2) have e: "current_type u = closing" "q = cxpr_expr_parser_advance u" "x = mk names xs"
    by (auto elim!: expect_SomeE)
  show thesis
  proof (cases "current_type p = closing")
    case True
    with u(1) e show thesis by (intro empty) (auto simp: cxpr_expr_parser_check_def)
  next
    case False
    with u(1) obtain ts where "consumes p ts u" "item_spec il ts names xs"
      using items_sound by (fastforce simp: cxpr_expr_parser_check_def)
    with e consumes_advance show thesis by (intro some) auto
  qed
qed

lemma array_literal_sound:
  assumes "cxpr_parse_array_literal call items p = Some (Some x, q)"
  shows "\<exists>ts. consumes p ts q \<and> derives C_primary ts (ast_strip x)"
  using assms unfolding cxpr_parse_array_literal_def
proof (rule expect_SomeE)
  let ?q = "cxpr_expr_parser_advance p"
  assume l: "current_type p = CXPR_TOK_LBRACKET"
  assume "(case (if cxpr_expr_parser_check ?q CXPR_TOK_RBRACKET then Some (Some ([], []), ?q) else items (IL_array []) ?q) of
         None \<Rightarrow> None
       | Some (None, r) \<Rightarrow> Some (None, r)
       | Some (Some (_, xs), r) \<Rightarrow>
           expect_or_null r CXPR_TOK_RBRACKET ''Expected ']' to close array'' (\<lambda>s.
             Some (Some (cxpr_expr_ast_array_new xs), s))) = Some (Some x, q)"
  then show ?thesis
  proof (cases rule: bracket_itemsE)
    case empty
    with primary_empty_array [OF l] show ?thesis
      by (intro exI [of _ "[ps_current p, ps_current ?q]"]) (auto simp: ast_new_defs)
  next
    case (some ts names xs r)
    from some(2) have "derives_items K_array ts [] (map ast_strip xs)" by auto
    from primary_array [OF l this some(3)] some show ?thesis
      by (intro exI [of _ "ps_current p # ts @ [r]"]) (auto simp: ast_new_defs)
  qed
qed

lemma record_literal_sound:
  assumes "cxpr_parse_record_literal call items p = Some (Some x, q)"
  shows "\<exists>ts. consumes p ts q \<and> derives C_primary ts (ast_strip x)"
  using assms unfolding cxpr_parse_record_literal_def
proof (rule expect_SomeE)
  let ?q = "cxpr_expr_parser_advance p"
  assume l: "current_type p = CXPR_TOK_LBRACE"
  assume "(case (if cxpr_expr_parser_check ?q CXPR_TOK_RBRACE then Some (Some ([], []), ?q) else items (IL_record [] []) ?q) of
         None \<Rightarrow> None
       | Some (None, r) \<Rightarrow> Some (None, r)
       | Some (Some (names, xs), r) \<Rightarrow>
           expect_or_null r CXPR_TOK_RBRACE ''Expected '}' to close record'' (\<lambda>s.
             Some (Some (cxpr_expr_ast_record_new (map the names) xs), s))) = Some (Some x, q)"
  then show ?thesis
  proof (cases rule: bracket_itemsE)
    case empty
    with primary_empty_record [OF l] show ?thesis
      by (intro exI [of _ "[ps_current p, ps_current ?q]"]) (auto simp: ast_new_defs)
  next
    case (some ts names xs r)
    from some(2) obtain ms where ms: "names = map Some ms" "derives_items K_record ts (map Some ms) (map ast_strip xs)"
      by auto
    have "map the names = ms" using ms(1) by (simp add: comp_def)
    with primary_record [OF l ms(2) some(3)] some show ?thesis
      by (intro exI [of _ "ps_current p # ts @ [r]"]) (auto simp: ast_new_defs)
  qed
qed

lemma primary_call_sound:
  assumes "primary_call call items lower name p = Some (Some x, q)" "current_type p = CXPR_TOK_LPAREN"
  obtains (prod) us vs names args f where "consumes p (us @ vs) q" "derives_args us names (map ast_strip args)"
      "derives_path vs [f]" "x = cxpr_expr_ast_producer_field_named_new name args names f"
  | (plain) us names args where "consumes p us q" "derives_args us names (map ast_strip args)"
      "x = lower (cxpr_expr_ast_call_named_new name args names)"
proof -
  from assms(1) obtain names args u where u: "cxpr_expr_parser_parse_arg_list call items p = Some (Some (names, args), u)"
    "(if cxpr_expr_parser_check u CXPR_TOK_DOT
      then field_after_dot u (cxpr_expr_ast_producer_field_named_new name args names)
      else Some (Some (lower (cxpr_expr_ast_call_named_new name args names)), u)) = Some (Some x, q)"
    unfolding primary_call_def by (rule case2_SomeE)
  from u(1) assms(2) obtain us where us: "consumes p us u" "derives_args us names (map ast_strip args)"
    by (rule arg_list_sound)
  show thesis
  proof (cases "current_type u = CXPR_TOK_DOT")
    case True
    with u(2) have "field_after_dot u (cxpr_expr_ast_producer_field_named_new name args names) = Some (Some x, q)"
      by (simp add: cxpr_expr_parser_check_def)
    then obtain vs f where "consumes u vs q" "derives_path vs [f]"
      "x = cxpr_expr_ast_producer_field_named_new name args names f" by (rule field_after_dot_sound [OF _ True])
    with us consumes_trans show thesis by (intro prod) auto
  next
    case False
    with u(2) us show thesis by (intro plain) (auto simp: cxpr_expr_parser_check_def)
  qed
qed

lemma variable_sound:
  assumes "primary_variable p = Some (Some x, q)" "current_type p = CXPR_TOK_VARIABLE"
  shows "\<exists>ts. consumes p ts q \<and> derives C_primary ts (ast_strip x)"
proof (cases "current_type (cxpr_expr_parser_advance p) = CXPR_TOK_DOT")
  case True
  with assms(1) obtain segs where "dotted_segments (''Expected parameter segment after '.'' @ [CHR 0x27])
      (tok_text (ps_current p)) (cxpr_expr_parser_advance p) = Some (Some segs, q)"
    "x = cxpr_expr_ast_param_new (join_dots segs)"
    by (auto simp: primary_variable_def Let_def cxpr_expr_parser_check_def cxpr_expr_parser_token_to_string_def
        cxpr_expr_parser_join_segments_def split: option.splits)
  then obtain ts ss where "consumes (cxpr_expr_parser_advance p) ts q" "segs = tok_text (ps_current p) # ss" "derives_path ts ss"
    "x = cxpr_expr_ast_param_new (join_dots segs)" by (metis dotted_segments_sound)
  with primary_param [OF assms(2)] show ?thesis by (intro exI [of _ "ps_current p # ts"]) (auto simp: ast_new_defs)
next
  case False
  with assms(1) primary_param [OF assms(2) path_nil] show ?thesis
    by (intro exI [of _ "[ps_current p]"])
      (auto simp: primary_variable_def Let_def cxpr_expr_parser_check_def cxpr_expr_parser_token_to_string_def ast_new_defs)
qed

lemma dotted_name_sound:
  assumes id: "current_type p = CXPR_TOK_IDENTIFIER" and ts: "consumes p (ps_current p # ts) r" "derives_path ts ss" "ss \<noteq> []"
    and rest: "(if cxpr_expr_parser_check r CXPR_TOK_LPAREN
        then primary_call call items (\<lambda>n. n) (join_dots (tok_text (ps_current p) # ss)) r
        else if length (tok_text (ps_current p) # ss) = 2
        then Some (Some (cxpr_expr_ast_field_new ((tok_text (ps_current p) # ss) ! 0) ((tok_text (ps_current p) # ss) ! 1)), r)
        else Some (cxpr_expr_ast_new_chain_access (tok_text (ps_current p) # ss), r)) = Some (Some x, q)"
  shows "\<exists>us. consumes p us q \<and> derives C_primary us (ast_strip x)"
proof (cases "current_type r = CXPR_TOK_LPAREN")
  case True
  with rest have "primary_call call items (\<lambda>n. n) (join_dots (tok_text (ps_current p) # ss)) r = Some (Some x, q)"
    by (simp add: cxpr_expr_parser_check_def)
  from this True show ?thesis
  proof (cases rule: primary_call_sound)
    case (prod us vs names args f)
    with primary_producer [OF id ts(2) prod(2,3)] consumes_trans [OF ts(1) prod(1)] show ?thesis
      by (intro exI [of _ "ps_current p # ts @ us @ vs"]) (auto simp: ast_new_defs)
  next
    case (plain us names args)
    with primary_dotted_call [OF id ts(2,3) plain(2)] consumes_trans [OF ts(1) plain(1)] show ?thesis
      by (intro exI [of _ "ps_current p # ts @ us"]) (auto simp: ast_new_defs)
  qed
next
  case False
  show ?thesis
  proof (cases "length ss = 1")
    case True
    then obtain f where "ss = [f]" by (cases ss) auto
    with False rest ts primary_field [OF id] show ?thesis
      by (intro exI [of _ "ps_current p # ts"]) (auto simp: cxpr_expr_parser_check_def ast_new_defs)
  next
    case long: False
    then have "2 \<le> length ss" using ts(3) by (cases ss; cases "tl ss") auto
    with long False rest ts primary_chain [OF id ts(2)] show ?thesis
      by (intro exI [of _ "ps_current p # ts"]) (auto simp: cxpr_expr_parser_check_def ast_new_defs split: if_splits)
  qed
qed

lemma identifier_sound:
  assumes "primary_identifier call items p = Some (Some x, q)" and id: "current_type p = CXPR_TOK_IDENTIFIER"
  shows "\<exists>ts. consumes p ts q \<and> derives C_primary ts (ast_strip x)"
proof -
  let ?q = "cxpr_expr_parser_advance p" and ?n = "tok_text (ps_current p)"
  note def = primary_identifier_def Let_def cxpr_expr_parser_check_def cxpr_expr_parser_token_to_string_def
    cxpr_expr_parser_join_segments_def
  consider (call) "current_type ?q = CXPR_TOK_LPAREN" | (dot) "current_type ?q = CXPR_TOK_DOT"
    | (name) "current_type ?q \<noteq> CXPR_TOK_LPAREN" "current_type ?q \<noteq> CXPR_TOK_DOT" by blast
  then show ?thesis
  proof cases
    case call
    with assms(1) have "primary_call call items cxpr_parse_lower_window_reduction ?n ?q = Some (Some x, q)"
      by (simp add: def)
    from this call show ?thesis
    proof (cases rule: primary_call_sound)
      case (prod us vs names args f)
      with primary_producer [OF id path_nil prod(2,3)] show ?thesis
        by (intro exI [of _ "ps_current p # us @ vs"]) (auto simp: ast_new_defs)
    next
      case (plain us names args)
      with primary_call [OF id plain(2)] show ?thesis
        by (intro exI [of _ "ps_current p # us"]) (auto simp: ast_new_defs strip_lower)
    qed
  next
    case dot
    from dot assms(1) obtain segs r where segs: "dotted_segments (''Expected field name after '.'' @ [CHR 0x27]) ?n ?q =
        Some (Some segs, r)"
      "(if cxpr_expr_parser_check r CXPR_TOK_LPAREN then primary_call call items (\<lambda>n. n) (join_dots segs) r
        else if length segs = 2 then Some (Some (cxpr_expr_ast_field_new (segs ! 0) (segs ! 1)), r)
        else Some (cxpr_expr_ast_new_chain_access segs, r)) = Some (Some x, q)"
      unfolding def by (auto split: option.splits)
    from segs(1) obtain ts ss where ts: "consumes ?q ts r" "segs = ?n # ss" "derives_path ts ss"
      by (rule dotted_segments_sound)
    have "ss \<noteq> []"
    proof
      assume "ss = []"
      then have "ts = []" using ts(3) by (auto elim: derives_path.cases)
      then have "r = ?q" using ts(1) by simp
      with segs(2) dot ts(2) \<open>ss = []\<close> show False by (simp add: cxpr_expr_parser_check_def ast_new_defs)
    qed
    from dotted_name_sound [OF id _ ts(3) this segs(2) [unfolded ts(2)]] ts(1) show ?thesis by simp
  next
    case name
    with assms(1) primary_name [OF id] show ?thesis
      by (intro exI [of _ "[ps_current p]"]) (auto simp: def ast_new_defs)
  qed
qed

lemma paren_sound:
  assumes "primary_paren call (cxpr_expr_parser_advance p) = Some (Some x, q)" and l: "current_type p = CXPR_TOK_LPAREN"
  shows "\<exists>ts. consumes p ts q \<and> derives C_primary ts (ast_strip x)"
proof -
  from assms(1) obtain a u where u: "call NT_expression (cxpr_expr_parser_advance p) = Some (Some a, u)"
    "current_type u = CXPR_TOK_RPAREN"
    "(if cxpr_expr_parser_check (cxpr_expr_parser_advance u) CXPR_TOK_DOT
      then field_after_dot (cxpr_expr_parser_advance u) (cxpr_expr_ast_field_expr_new a)
      else Some (Some a, cxpr_expr_parser_advance u)) = Some (Some x, q)"
    unfolding primary_paren_def by (auto elim!: or_null_SomeE expect_SomeE)
  from u(1) obtain ts where ts: "consumes (cxpr_expr_parser_advance p) ts u" "derives C_expression ts (ast_strip a)"
    by (rule exprE)
  have c: "consumes p (ps_current p # ts @ [ps_current u]) (cxpr_expr_parser_advance u)"
    using consumes_advance [OF ts(1)] by simp
  show ?thesis
  proof (cases "current_type (cxpr_expr_parser_advance u) = CXPR_TOK_DOT")
    case True
    with u(3) obtain vs f where "consumes (cxpr_expr_parser_advance u) vs q" "derives_path vs [f]"
      "x = cxpr_expr_ast_field_expr_new a f"
      by (auto simp: cxpr_expr_parser_check_def elim!: field_after_dot_sound)
    with primary_paren_field [OF l ts(2) u(2)] consumes_trans [OF c] show ?thesis
      by (intro exI [of _ "ps_current p # ts @ ps_current u # vs"]) (fastforce simp: ast_new_defs)
  next
    case False
    with u(3) primary_paren [OF l ts(2) u(2)] c show ?thesis
      by (intro exI [of _ "ps_current p # ts @ [ps_current u]"]) (auto simp: cxpr_expr_parser_check_def)
  qed
qed

lemma atom_sound:
  assumes "primary_atom call items p = Some (Some x, q)"
  shows "\<exists>ts. consumes p ts q \<and> derives C_primary ts (ast_strip x)"
proof -
  let ?t = "ps_current p"
  have leaf: "\<exists>ts. consumes p ts q \<and> derives C_primary ts (ast_strip x)"
    if "q = cxpr_expr_parser_advance p" "derives C_primary [?t] (ast_strip x)"
    using that by (intro exI [of _ "[?t]"]) simp
  show ?thesis
  proof (cases "tok_type ?t")
    case CXPR_TOK_NUMBER
    with assms show ?thesis
      by (intro leaf) (auto simp: primary_atom_def Let_def ast_new_defs intro: primary_number primary_int64)
  next
    case CXPR_TOK_TRUE
    with assms show ?thesis by (intro leaf) (auto simp: primary_atom_def Let_def ast_new_defs intro: primary_true)
  next
    case CXPR_TOK_FALSE
    with assms show ?thesis by (intro leaf) (auto simp: primary_atom_def Let_def ast_new_defs intro: primary_false)
  next
    case CXPR_TOK_STRING
    with assms show ?thesis by (intro leaf) (auto simp: primary_atom_def Let_def ast_new_defs intro: primary_string)
  qed (use assms variable_sound identifier_sound paren_sound array_literal_sound record_literal_sound in
      \<open>auto simp: primary_atom_def Let_def\<close>)
qed

lemma index_loop_sound:
  assumes "index_loop call node p = Some (Some x, q)"
  shows "\<exists>ts. consumes p ts q \<and> nt_spec (NT_index_loop node) ts (ast_strip x)"
proof (cases "current_type p = CXPR_TOK_LBRACKET")
  case False
  with assms show ?thesis by (intro exI [of _ "[]"]) (simp add: index_loop_def cxpr_expr_parser_check_def)
next
  case True
  with assms obtain i u where i: "call NT_expression (cxpr_expr_parser_advance p) = Some (Some i, u)"
    "current_type u = CXPR_TOK_RBRACKET"
    "call (NT_index_loop (cxpr_expr_ast_index_new node i)) (cxpr_expr_parser_advance u) = Some (Some x, q)"
    by (auto simp: index_loop_def cxpr_expr_parser_check_def elim!: or_null_SomeE expect_SomeE)
  from i(1) obtain us where us: "consumes (cxpr_expr_parser_advance p) us u" "derives C_expression us (ast_strip i)"
    by (rule exprE)
  from i(3) obtain vs where vs: "consumes (cxpr_expr_parser_advance u) vs q"
    "\<And>ws. derives C_primary ws (Ast None (CXPR_NODE_INDEX (ast_strip node) (ast_strip i))) \<Longrightarrow>
       derives C_primary (ws @ vs) (ast_strip x)" by (auto elim!: callE)
  have "consumes p (ps_current p # us @ ps_current u # vs) q" using us(1) vs(1) by (auto simp: consumes_append)
  moreover have "derives C_primary (ws @ ps_current p # us @ ps_current u # vs) (ast_strip x)"
    if "derives C_primary ws (ast_strip node)" for ws
    using vs(2) [OF primary_index [OF that True us(2) i(2)]] by simp
  ultimately show ?thesis unfolding nt_spec.simps by blast
qed

lemma primary_sound:
  assumes "cxpr_parse_primary call items p = Some (Some x, q)"
  shows "\<exists>ts. consumes p ts q \<and> derives C_primary ts (ast_strip x)"
proof -
  from assms obtain a u b where a: "primary_atom call items p = Some (Some a, u)"
    "call (NT_index_loop a) u = Some (Some b, q)" "ast_strip x = ast_strip b"
    unfolding cxpr_parse_primary_def by (auto elim!: case_SomeE split: option.splits)
  from atom_sound [OF a(1)] obtain ts where "consumes p ts u" "derives C_primary ts (ast_strip a)" by blast
  moreover from a(2) obtain us where "consumes u us q"
    "\<And>ws. derives C_primary ws (ast_strip a) \<Longrightarrow> derives C_primary (ws @ us) (ast_strip b)" by (auto elim!: callE)
  ultimately show ?thesis using a(3) consumes_trans by metis
qed

lemma step_sound:
  assumes "parse_step call items nt p = Some (Some x, q)"
  shows "\<exists>ts. consumes p ts q \<and> nt_spec nt ts (ast_strip x)"
proof (cases nt)
  case NT_expression
  with assms chain_sound [of NT_ternary p NT_pipe_loop x q C_expression] show ?thesis
    by (auto simp: parse_step_def cxpr_parse_expression_def cxpr_parse_pipe_def intro: expr_ternary)
next
  case NT_or
  with assms chain_sound [of NT_and p NT_or_loop x q C_or] show ?thesis
    by (auto simp: parse_step_def cxpr_parse_or_def intro: or_and)
next
  case NT_and
  with assms chain_sound [of NT_not p NT_and_loop x q C_and] show ?thesis
    by (auto simp: parse_step_def cxpr_parse_and_def intro: and_not)
next
  case NT_arithmetic
  with assms chain_sound [of NT_term p NT_arithmetic_loop x q C_arithmetic] show ?thesis
    by (auto simp: parse_step_def cxpr_parse_arithmetic_def intro: arithmetic_term)
next
  case NT_term
  with assms chain_sound [of NT_unary p NT_term_loop x q C_term] show ?thesis
    by (auto simp: parse_step_def cxpr_parse_term_def intro: term_unary)
next
  case (NT_or_loop l)
  with assms show ?thesis using binary_loop_sound [of "{CXPR_TOK_OR}" NT_and NT_or_loop l p x q C_or]
    by (simp add: parse_step_def or_or)
next
  case (NT_and_loop l)
  with assms show ?thesis using binary_loop_sound [of "{CXPR_TOK_AND}" NT_not NT_and_loop l p x q C_and]
    by (simp add: parse_step_def and_and)
next
  case (NT_arithmetic_loop l)
  with assms show ?thesis
    using binary_loop_sound [of "{CXPR_TOK_PLUS, CXPR_TOK_MINUS}" NT_term NT_arithmetic_loop l p x q C_arithmetic]
    by (simp add: parse_step_def arithmetic_op)
next
  case (NT_term_loop l)
  with assms show ?thesis
    using binary_loop_sound [of "{CXPR_TOK_STAR, CXPR_TOK_SLASH, CXPR_TOK_PERCENT}" NT_unary NT_term_loop l p x q C_term]
    by (simp add: parse_step_def term_op)
qed (use assms pipe_loop_sound ternary_sound not_sound equality_sound relational_sound relational_loop_sound
    unary_sound power_sound primary_sound index_loop_sound in \<open>simp_all add: parse_step_def\<close>)

lemma items_step_sound:
  "items_step call items il p = Some (Some (names, args), q) \<Longrightarrow> \<exists>ts. consumes p ts q \<and> item_spec il ts names args"
  using args_loop_sound array_loop_sound record_loop_sound by (cases il) (simp_all add: items_step_def)

end

lemma parse_sound_calls: "sound_calls (parse n) (parse_items n)"
proof (induction n)
  case 0
  show ?case by unfold_locales simp_all
next
  case (Suc n)
  show ?case
    using sound_calls.step_sound [OF Suc] sound_calls.items_step_sound [OF Suc] by unfold_locales simp_all
qed

interpretation grammar: sound_calls "parse n" "parse_items n" for n
  by (rule parse_sound_calls)

section \<open>The parser implements the grammar\<close>

text \<open>The token stream of a source: what the lexer returns on its \<open>i\<close>-th call.\<close>

definition source_token :: "string \<Rightarrow> nat \<Rightarrow> cxpr_token" where
  "source_token src i = fst (cxpr_lexer_next ((lexer_rest ^^ i) (cxpr_lexer_init src)))"

lemma advance_fields:
  "ps_current (cxpr_expr_parser_advance p) = fst (cxpr_lexer_next (ps_lexer p))"
  "ps_lexer (cxpr_expr_parser_advance p) = lexer_rest (ps_lexer p)"
  by (auto simp: cxpr_expr_parser_advance_def lexer_rest_def Let_def split: prod.splits)

lemma consumes_stream:
  assumes "consumes p ts q" "ps_current p = fst (cxpr_lexer_next l)" "ps_lexer p = lexer_rest l"
  shows "(\<forall>i < length ts. ts ! i = fst (cxpr_lexer_next ((lexer_rest ^^ i) l))) \<and>
    ps_current q = fst (cxpr_lexer_next ((lexer_rest ^^ length ts) l))"
  using assms
proof (induction ts arbitrary: p l)
  case (Cons t ts)
  have "(\<forall>i < length ts. ts ! i = fst (cxpr_lexer_next ((lexer_rest ^^ i) (lexer_rest l)))) \<and>
      ps_current q = fst (cxpr_lexer_next ((lexer_rest ^^ length ts) (lexer_rest l)))"
    using Cons by (intro Cons.IH [of "cxpr_expr_parser_advance p"]) (simp_all add: advance_fields)
  moreover have "(lexer_rest ^^ Suc k) l = (lexer_rest ^^ k) (lexer_rest l)" for k
    by (simp only: funpow_Suc_right comp_apply)
  ultimately show ?case using Cons.prems by (auto simp: less_Suc_eq_0_disj simp del: funpow.simps(2))
qed simp

text \<open>C3: refinement of the grammar: whenever parsing succeeds, the tokens of the source, all of
  them up to the end of input, are derived from the start symbol of the grammar with exactly the
  tree returned (spans aside): left-associative \<open>or\<close>, \<open>and\<close>, additive and multiplicative levels,
  right-associative powers binding tighter than a leading minus, comparisons chained by
  conjunction, pipes feeding the first argument.\<close>

theorem parse_refines_grammar:
  assumes "NUL \<notin> set src" "cxpr_expr_ast_parse p src = Some (Some a, e, q)"
  shows "\<exists>ts. derives C_expression ts (ast_strip a) \<and> (\<forall>i < length ts. ts ! i = source_token src i) \<and>
    tok_type (source_token src (length ts)) = CXPR_TOK_EOF"
  using assms(1)
proof (cases rule: parse_outcome [of src p])
  case (tree a' q')
  have a: "a' = a" using tree(1) assms(2) by simp
  from grammar.call_sound [OF tree(6)] a obtain ts where ts: "consumes (parser_start p src) ts q'"
    "derives C_expression ts (ast_strip a)" by auto
  from consumes_stream [OF ts(1), of "cxpr_lexer_init src"] tree(4) ts(2) show ?thesis
    by (intro exI [of _ ts]) (simp add: source_token_def parser_start_def advance_fields)
qed (use assms(2) in simp)

theorem parse_refines_grammar_witness:
  "\<exists>a q ts. cxpr_expr_ast_parse fresh_parser ''a < b < c'' = Some (Some a, None, q) \<and>
    derives C_expression ts (ast_strip a) \<and> tok_type (source_token ''a < b < c'' (length ts)) = CXPR_TOK_EOF"
proof -
  have "map_option (\<lambda>(r, e, q). (map_option ast_strip r, e)) (cxpr_expr_ast_parse fresh_parser ''a < b < c'') =
      Some (Some (bin CXPR_TOK_AND
        (bin CXPR_TOK_LT (Ast None (CXPR_NODE_IDENTIFIER ''a'')) (Ast None (CXPR_NODE_IDENTIFIER ''b'')))
        (bin CXPR_TOK_LT (Ast None (CXPR_NODE_IDENTIFIER ''b'')) (Ast None (CXPR_NODE_IDENTIFIER ''c'')))), None)"
    by code_simp
  then obtain a q where "cxpr_expr_ast_parse fresh_parser ''a < b < c'' = Some (Some a, None, q)" by auto
  with parse_refines_grammar [OF _ this] show ?thesis by auto
qed

end
