(* ===== verification/Cxpr_References.thy ===== *)
theory Cxpr_References
  imports Cxpr_Ast
begin

text \<open>
  Name collection over expression trees (\<^verbatim>\<open>src/ast/references.c\<close>) and the traversal of call sites
  (\<^verbatim>\<open>src/ast/call_sites.c\<close>). The caller's result array is a \<open>name_list\<close>. Every walker visits the
  children in the order of \<open>walk_children\<close>; the locale \<open>collector\<close> states the step the four name
  collectors share and is interpreted on each of them.
\<close>

section \<open>Name lists\<close>

text \<open>A caller's array of \<open>max_names\<close> entries and the count of names found so far: the entries
  written are \<open>names\<close>; \<open>count\<close> goes on past the end of the array.\<close>

record 'a name_list =
  nl_names :: "'a list"
  nl_count :: nat

definition nl_empty :: "'a name_list" where
  "nl_empty = \<lparr>nl_names = [], nl_count = 0\<rparr>"

definition cxpr_name_in_array :: "'a list \<Rightarrow> nat \<Rightarrow> 'a \<Rightarrow> bool" where
  "cxpr_name_in_array names count name \<longleftrightarrow> name \<in> set (take count names)"

definition cxpr_add_unique_name :: "nat \<Rightarrow> 'a \<Rightarrow> 'a name_list \<Rightarrow> 'a name_list" where
  "cxpr_add_unique_name max_names name st =
     (let stored = (if nl_count st < max_names then nl_count st else max_names) in
      if cxpr_name_in_array (nl_names st) stored name then st
      else \<lparr>nl_names = (if nl_count st < max_names then nl_names st @ [name] else nl_names st),
            nl_count = nl_count st + 1\<rparr>)"

section \<open>Walkers\<close>

text \<open>The children the walkers of \<open>references.c\<close> visit, in order: every child except the base of a
  field access.\<close>

definition walk_children :: "cxpr_expr_ast \<Rightarrow> cxpr_expr_ast list" where
  "walk_children ast = (case ast_data ast of CXPR_NODE_FIELD_EXPR _ _ \<Rightarrow> [] | _ \<Rightarrow> ast_children ast)"

lemma walk_children_size [simp, termination_simp]: "c \<in> set (walk_children a) \<Longrightarrow> size c < size a"
  by (auto simp: walk_children_def dest: ast_children_size split: cxpr_expr_data.splits)

function cxpr_collect_references :: "nat \<Rightarrow> cxpr_expr_ast \<Rightarrow> string name_list \<Rightarrow> string name_list" where
  "cxpr_collect_references max_names ast st =
     (case cxpr_expr_ast_full_reference ast of
        Some full_ref \<Rightarrow> cxpr_add_unique_name max_names full_ref st
      | None \<Rightarrow>
          (case ast_data ast of
             CXPR_NODE_IDENTIFIER name \<Rightarrow> cxpr_add_unique_name max_names name st
           | _ \<Rightarrow> fold (cxpr_collect_references max_names) (walk_children ast) st))"
  by pat_completeness auto
termination by (relation "measure (\<lambda>(_, a, _). size a)") auto

function cxpr_collect_functions :: "nat \<Rightarrow> cxpr_expr_ast \<Rightarrow> string name_list \<Rightarrow> string name_list" where
  "cxpr_collect_functions max_names ast st =
     fold (cxpr_collect_functions max_names) (walk_children ast)
       (case ast_data ast of
          CXPR_NODE_FUNCTION_CALL name _ _ \<Rightarrow> cxpr_add_unique_name max_names name st
        | CXPR_NODE_PRODUCER_ACCESS name _ _ _ \<Rightarrow> cxpr_add_unique_name max_names name st
        | _ \<Rightarrow> st)"
  by pat_completeness auto
termination by (relation "measure (\<lambda>(_, a, _). size a)") auto

function cxpr_collect_variables :: "nat \<Rightarrow> cxpr_expr_ast \<Rightarrow> string name_list \<Rightarrow> string name_list" where
  "cxpr_collect_variables max_names ast st =
     (case ast_data ast of
        CXPR_NODE_VARIABLE name \<Rightarrow> cxpr_add_unique_name max_names name st
      | _ \<Rightarrow> fold (cxpr_collect_variables max_names) (walk_children ast) st)"
  by pat_completeness auto
termination by (relation "measure (\<lambda>(_, a, _). size a)") auto

function cxpr_collect_producer_fields ::
  "nat \<Rightarrow> cxpr_expr_ast \<Rightarrow> (string \<times> string) name_list \<Rightarrow> (string \<times> string) name_list" where
  "cxpr_collect_producer_fields max_refs ast st =
     fold (cxpr_collect_producer_fields max_refs) (walk_children ast)
       (case ast_data ast of
          CXPR_NODE_PRODUCER_ACCESS name _ _ field \<Rightarrow> cxpr_add_unique_name max_refs (name, field) st
        | _ \<Rightarrow> st)"
  by pat_completeness auto
termination by (relation "measure (\<lambda>(_, a, _). size a)") auto

function cxpr_expr_ast_contains_reference :: "cxpr_expr_ast \<Rightarrow> string \<Rightarrow> bool" where
  "cxpr_expr_ast_contains_reference ast name =
     (if name = [] then False
      else (case cxpr_expr_ast_full_reference ast of
              Some full_ref \<Rightarrow> full_ref = name
            | None \<Rightarrow>
                (case ast_data ast of
                   CXPR_NODE_IDENTIFIER n \<Rightarrow> n = name
                 | _ \<Rightarrow> list_ex (\<lambda>c. cxpr_expr_ast_contains_reference c name) (walk_children ast))))"
  by pat_completeness auto
termination by (relation "measure (\<lambda>(a, _). size a)") auto

function cxpr_expr_ast_contains_variable :: "cxpr_expr_ast \<Rightarrow> string \<Rightarrow> bool" where
  "cxpr_expr_ast_contains_variable ast name =
     (if name = [] then False
      else (case ast_data ast of
              CXPR_NODE_VARIABLE n \<Rightarrow> n = name
            | _ \<Rightarrow> list_ex (\<lambda>c. cxpr_expr_ast_contains_variable c name) (walk_children ast)))"
  by pat_completeness auto
termination by (relation "measure (\<lambda>(a, _). size a)") auto

text \<open>The functions one of whose arguments mentions a given name; \<open>variable\<close> selects parameters.\<close>

definition arg_mentions :: "bool \<Rightarrow> string \<Rightarrow> cxpr_expr_ast \<Rightarrow> bool" where
  "arg_mentions variable name arg =
     (if variable then cxpr_expr_ast_contains_variable arg name else cxpr_expr_ast_contains_reference arg name)"

function cxpr_collect_call_arg_contexts ::
  "string \<Rightarrow> bool \<Rightarrow> nat \<Rightarrow> cxpr_expr_ast \<Rightarrow> string name_list \<Rightarrow> string name_list" where
  "cxpr_collect_call_arg_contexts name variable max_names ast st =
     (case ast_data ast of
        CXPR_NODE_FUNCTION_CALL callee _ _ \<Rightarrow>
          fold (\<lambda>arg st. cxpr_collect_call_arg_contexts name variable max_names arg
                  (if arg_mentions variable name arg then cxpr_add_unique_name max_names callee st else st))
            (walk_children ast) st
      | CXPR_NODE_PRODUCER_ACCESS callee _ _ _ \<Rightarrow>
          fold (\<lambda>arg st. cxpr_collect_call_arg_contexts name variable max_names arg
                  (if arg_mentions variable name arg then cxpr_add_unique_name max_names callee st else st))
            (walk_children ast) st
      | _ \<Rightarrow> fold (cxpr_collect_call_arg_contexts name variable max_names) (walk_children ast) st)"
  by pat_completeness auto
termination by (relation "measure (\<lambda>(_, _, _, a, _). size a)") auto

declare cxpr_collect_references.simps [simp del] cxpr_collect_functions.simps [simp del]
  cxpr_collect_variables.simps [simp del] cxpr_collect_producer_fields.simps [simp del]
  cxpr_expr_ast_contains_reference.simps [simp del] cxpr_expr_ast_contains_variable.simps [simp del]
  cxpr_collect_call_arg_contexts.simps [simp del]

section \<open>Public operations\<close>

definition cxpr_expr_ast_references :: "cxpr_expr_ast \<Rightarrow> nat \<Rightarrow> string name_list" where
  "cxpr_expr_ast_references ast max_names = cxpr_collect_references max_names ast nl_empty"

definition cxpr_expr_ast_functions_used :: "cxpr_expr_ast \<Rightarrow> nat \<Rightarrow> string name_list" where
  "cxpr_expr_ast_functions_used ast max_names = cxpr_collect_functions max_names ast nl_empty"

definition cxpr_expr_ast_variables_used :: "cxpr_expr_ast \<Rightarrow> nat \<Rightarrow> string name_list" where
  "cxpr_expr_ast_variables_used ast max_names = cxpr_collect_variables max_names ast nl_empty"

definition cxpr_expr_ast_producer_fields_used :: "cxpr_expr_ast \<Rightarrow> nat \<Rightarrow> (string \<times> string) name_list" where
  "cxpr_expr_ast_producer_fields_used ast max_refs = cxpr_collect_producer_fields max_refs ast nl_empty"

definition cxpr_expr_ast_call_arg_contexts_for_reference :: "cxpr_expr_ast \<Rightarrow> string \<Rightarrow> nat \<Rightarrow> string name_list" where
  "cxpr_expr_ast_call_arg_contexts_for_reference ast reference max_names =
     cxpr_collect_call_arg_contexts reference False max_names ast nl_empty"

definition cxpr_expr_ast_call_arg_contexts_for_variable :: "cxpr_expr_ast \<Rightarrow> string \<Rightarrow> nat \<Rightarrow> string name_list" where
  "cxpr_expr_ast_call_arg_contexts_for_variable ast variable max_names =
     cxpr_collect_call_arg_contexts variable True max_names ast nl_empty"

section \<open>Specification\<close>

text \<open>The names a node contributes itself, followed by those of its children: the order in which
  the walkers meet them.\<close>

function preorder :: "(cxpr_expr_ast \<Rightarrow> 'a list) \<Rightarrow> cxpr_expr_ast \<Rightarrow> 'a list" where
  "preorder own a = own a @ concat (map (preorder own) (walk_children a))"
  by pat_completeness auto
termination by (relation "measure (\<lambda>(_, a). size a)") auto

declare preorder.simps [simp del]

definition own_reference :: "cxpr_expr_ast \<Rightarrow> string list" where
  "own_reference a =
     (case cxpr_expr_ast_full_reference a of Some r \<Rightarrow> [r]
      | None \<Rightarrow> (case ast_data a of CXPR_NODE_IDENTIFIER n \<Rightarrow> [n] | _ \<Rightarrow> []))"

definition own_function :: "cxpr_expr_ast \<Rightarrow> string list" where
  "own_function a = (case ast_data a of CXPR_NODE_FUNCTION_CALL f _ _ \<Rightarrow> [f] | CXPR_NODE_PRODUCER_ACCESS f _ _ _ \<Rightarrow> [f] | _ \<Rightarrow> [])"

definition own_variable :: "cxpr_expr_ast \<Rightarrow> string list" where
  "own_variable a = (case ast_data a of CXPR_NODE_VARIABLE n \<Rightarrow> [n] | _ \<Rightarrow> [])"

definition own_producer_field :: "cxpr_expr_ast \<Rightarrow> (string \<times> string) list" where
  "own_producer_field a = (case ast_data a of CXPR_NODE_PRODUCER_ACCESS f _ _ fl \<Rightarrow> [(f, fl)] | _ \<Rightarrow> [])"

text \<open>First occurrences, in order.\<close>

definition nub :: "'a list \<Rightarrow> 'a list" where
  "nub xs = fold (\<lambda>x acc. if x \<in> set acc then acc else acc @ [x]) xs []"

text \<open>What a caller with room for \<open>m\<close> entries gets for the occurrences \<open>xs\<close>: the first \<open>m\<close> distinct
  names, and a count that is exact when it is at most \<open>m\<close> and tells that room was missing otherwise.\<close>

definition lists_names :: "nat \<Rightarrow> 'a list \<Rightarrow> 'a name_list \<Rightarrow> bool" where
  "lists_names m xs st \<longleftrightarrow> nl_names st = take m (nub xs) \<and> length (nub xs) \<le> nl_count st \<and>
     (nl_count st \<le> m \<longrightarrow> nl_count st = length (nub xs)) \<and> (m < nl_count st \<longrightarrow> m < length (nub xs))"

lemma nub_snoc: "nub (xs @ [x]) = (if x \<in> set (nub xs) then nub xs else nub xs @ [x])"
  by (simp add: nub_def)

lemma set_nub [simp]: "set (nub xs) = set xs"
  by (induction xs rule: rev_induct) (auto simp: nub_snoc, simp add: nub_def)

lemma distinct_nub: "distinct (nub xs)"
  by (induction xs rule: rev_induct) (auto simp: nub_snoc, simp add: nub_def)

lemma add_name_lists:
  assumes "lists_names m xs st"
  shows "lists_names m (xs @ [x]) (cxpr_add_unique_name m x st)"
proof (cases "nl_count st < m")
  case True
  then have "nl_count st = length (nub xs)" "nl_names st = nub xs" using assms by (auto simp: lists_names_def)
  with True show ?thesis
    by (auto simp: lists_names_def cxpr_add_unique_name_def cxpr_name_in_array_def nub_snoc)
next
  case False
  then have "m \<le> length (nub xs)" using assms by (auto simp: lists_names_def)
  with False assms show ?thesis
    by (auto simp: lists_names_def cxpr_add_unique_name_def cxpr_name_in_array_def nub_snoc Let_def
        dest: in_set_takeD)
qed

lemma fold_add_lists: "lists_names m xs (fold (cxpr_add_unique_name m) xs nl_empty)"
proof (induction xs rule: rev_induct)
  case Nil
  show ?case by (simp add: lists_names_def nl_empty_def nub_def)
next
  case (snoc x xs)
  then show ?case by (simp add: add_name_lists)
qed

text \<open>The interface of the four collectors: a walk that adds a node's own names first.\<close>

locale collector =
  fixes own :: "cxpr_expr_ast \<Rightarrow> 'a list"
    and collect :: "nat \<Rightarrow> cxpr_expr_ast \<Rightarrow> 'a name_list \<Rightarrow> 'a name_list"
  assumes collect_step: "collect m a st = fold (collect m) (walk_children a) (fold (cxpr_add_unique_name m) (own a) st)"
begin

lemma collect_preorder: "collect m a st = fold (cxpr_add_unique_name m) (preorder own a) st"
proof (induction a arbitrary: st rule: measure_induct_rule [of size])
  case (less a)
  have "fold (collect m) cs st = fold (cxpr_add_unique_name m) (concat (map (preorder own) cs)) st"
    if "set cs \<subseteq> set (walk_children a)" for cs st
    using that less.IH [OF walk_children_size] by (induction cs arbitrary: st) auto
  then show ?case by (simp add: collect_step [of m a] preorder.simps [of own a])
qed

lemma collect_lists: "lists_names m (preorder own a) (collect m a nl_empty)"
  by (simp add: collect_preorder fold_add_lists)

end

lemma walk_children_leaf:
  "cxpr_expr_ast_full_reference a \<noteq> None \<Longrightarrow> walk_children a = []"
  "ast_data a = CXPR_NODE_IDENTIFIER n \<Longrightarrow> walk_children a = []"
  "ast_data a = CXPR_NODE_VARIABLE n \<Longrightarrow> walk_children a = []"
  by (cases a; auto simp: walk_children_def cxpr_expr_ast_full_reference_def split: cxpr_expr_data.splits)+

interpretation ref_list: collector own_reference cxpr_collect_references
  by unfold_locales
    (subst cxpr_collect_references.simps,
     auto simp: own_reference_def walk_children_leaf split: option.splits cxpr_expr_data.splits)

interpretation fun_list: collector own_function cxpr_collect_functions
  by unfold_locales
    (subst cxpr_collect_functions.simps, auto simp: own_function_def split: cxpr_expr_data.splits)

interpretation var_list: collector own_variable cxpr_collect_variables
  by unfold_locales
    (subst cxpr_collect_variables.simps,
     auto simp: own_variable_def walk_children_leaf split: cxpr_expr_data.splits)

interpretation prod_list: collector own_producer_field cxpr_collect_producer_fields
  by unfold_locales
    (subst cxpr_collect_producer_fields.simps, auto simp: own_producer_field_def split: cxpr_expr_data.splits)


lemma contains_reference_iff: "cxpr_expr_ast_contains_reference a n \<longleftrightarrow> n \<noteq> [] \<and> n \<in> set (preorder own_reference a)"
proof (induction a rule: measure_induct_rule [of size])
  case (less a)
  have IH: "list_ex (\<lambda>c. cxpr_expr_ast_contains_reference c n) (walk_children a) \<longleftrightarrow>
      n \<noteq> [] \<and> (\<exists>c \<in> set (walk_children a). n \<in> set (preorder own_reference c))"
    using less.IH [OF walk_children_size] by (auto simp: list_ex_iff)
  show ?case
    by (subst cxpr_expr_ast_contains_reference.simps, subst preorder.simps)
      (auto simp: IH own_reference_def walk_children_leaf split: option.splits cxpr_expr_data.splits)
qed

lemma contains_variable_iff: "cxpr_expr_ast_contains_variable a n \<longleftrightarrow> n \<noteq> [] \<and> n \<in> set (preorder own_variable a)"
proof (induction a rule: measure_induct_rule [of size])
  case (less a)
  have IH: "list_ex (\<lambda>c. cxpr_expr_ast_contains_variable c n) (walk_children a) \<longleftrightarrow>
      n \<noteq> [] \<and> (\<exists>c \<in> set (walk_children a). n \<in> set (preorder own_variable c))"
    using less.IH [OF walk_children_size] by (auto simp: list_ex_iff)
  show ?case
    by (subst cxpr_expr_ast_contains_variable.simps, subst preorder.simps)
      (auto simp: IH own_variable_def walk_children_leaf split: cxpr_expr_data.splits)
qed

text \<open>The membership tests agree with the listings: a non-empty name is contained in an
  expression exactly when a listing with enough room has it.\<close>

theorem contains_agrees_with_listing:
  assumes "nl_count (cxpr_expr_ast_references a m) \<le> m" "nl_count (cxpr_expr_ast_variables_used a k) \<le> k" "n \<noteq> []"
  shows "(cxpr_expr_ast_contains_reference a n \<longleftrightarrow> n \<in> set (nl_names (cxpr_expr_ast_references a m))) \<and>
    (cxpr_expr_ast_contains_variable a n \<longleftrightarrow> n \<in> set (nl_names (cxpr_expr_ast_variables_used a k)))"
  using assms ref_list.collect_lists [of m a] var_list.collect_lists [of k a]
  by (simp add: cxpr_expr_ast_references_def cxpr_expr_ast_variables_used_def lists_names_def
      contains_reference_iff contains_variable_iff)

theorem contains_agrees_with_listing_witness:
  "let a = Ast None (CXPR_NODE_BINARY_OP CXPR_TOK_PLUS (Ast None (CXPR_NODE_IDENTIFIER ''x''))
             (Ast None (CXPR_NODE_FIELD_ACCESS ''p'' ''q''))) in
   cxpr_expr_ast_contains_reference a ''p.q'' \<longleftrightarrow> ''p.q'' \<in> set (nl_names (cxpr_expr_ast_references a 8))"
  unfolding Let_def by (rule conjunct1 [OF contains_agrees_with_listing [where k = 8]]) code_simp+

text \<open>The walkers never enter the base of a field access on an expression: for \<open>(e).field\<close> no
  reference, function, parameter or producer field of \<open>e\<close> is listed, and the membership tests say
  no for every name, whatever \<open>e\<close> mentions.\<close>

theorem field_base_not_collected:
  "nl_count (cxpr_expr_ast_references (Ast sp (CXPR_NODE_FIELD_EXPR e f)) m) = 0 \<and>
   nl_count (cxpr_expr_ast_functions_used (Ast sp (CXPR_NODE_FIELD_EXPR e f)) m) = 0 \<and>
   nl_count (cxpr_expr_ast_variables_used (Ast sp (CXPR_NODE_FIELD_EXPR e f)) m) = 0 \<and>
   nl_count (cxpr_expr_ast_producer_fields_used (Ast sp (CXPR_NODE_FIELD_EXPR e f)) m) = 0 \<and>
   \<not> cxpr_expr_ast_contains_reference (Ast sp (CXPR_NODE_FIELD_EXPR e f)) n \<and>
   \<not> cxpr_expr_ast_contains_variable (Ast sp (CXPR_NODE_FIELD_EXPR e f)) n"
proof -
  note own = own_reference_def own_function_def own_variable_def own_producer_field_def cxpr_expr_ast_full_reference_def
  show ?thesis
    by (auto simp: cxpr_expr_ast_references_def cxpr_expr_ast_functions_used_def cxpr_expr_ast_variables_used_def
      cxpr_expr_ast_producer_fields_used_def contains_reference_iff contains_variable_iff lists_names_def nub_def
      ref_list.collect_preorder fun_list.collect_preorder var_list.collect_preorder prod_list.collect_preorder
      preorder.simps [of _ "Ast sp (CXPR_NODE_FIELD_EXPR e f)"] walk_children_def own nl_empty_def)
qed

section \<open>Call sites (call_sites.c)\<close>

datatype cxpr_call_site_kind = CXPR_CALL_SITE_FUNCTION | CXPR_CALL_SITE_PRODUCER

record cxpr_static_named_string_arg =
  sa_kind :: cxpr_call_site_kind
  sa_call :: cxpr_expr_ast
  sa_callee :: string
  sa_name :: string
  sa_value :: string

text \<open>A visitor returns whether to go on, and its user data.\<close>

type_synonym 'u visitor = "cxpr_static_named_string_arg \<Rightarrow> 'u \<Rightarrow> bool \<times> 'u"

text \<open>Run a visit over a list, left to right, until one returns false.\<close>

fun visit_each :: "('x \<Rightarrow> 'u \<Rightarrow> bool \<times> 'u) \<Rightarrow> 'x list \<Rightarrow> 'u \<Rightarrow> bool \<times> 'u" where
  "visit_each f [] u = (True, u)"
| "visit_each f (x # xs) u = (case f x u of (True, u') \<Rightarrow> visit_each f xs u' | (False, u') \<Rightarrow> (False, u'))"

lemma visit_each_cong [fundef_cong]:
  "xs = ys \<Longrightarrow> u = v \<Longrightarrow> (\<And>x w. x \<in> set ys \<Longrightarrow> f x w = g x w) \<Longrightarrow> visit_each f xs u = visit_each g ys v"
  by (induction xs arbitrary: ys u v) (auto split: prod.splits bool.splits)

text \<open>The argument's own entry, when it is a named string literal.\<close>

definition static_arg :: "cxpr_call_site_kind \<Rightarrow> cxpr_expr_ast \<Rightarrow> string \<Rightarrow> string option \<times> cxpr_expr_ast \<Rightarrow>
    cxpr_static_named_string_arg list" where
  "static_arg kind call callee na =
     (case (fst na, cxpr_expr_ast_string_value (snd na)) of
        (Some name, Some v) \<Rightarrow> [\<lparr>sa_kind = kind, sa_call = call, sa_callee = callee, sa_name = name, sa_value = v\<rparr>]
      | _ \<Rightarrow> [])"

lemma zip_snd_size: "x \<in> set (zip names args) \<Longrightarrow> size (snd x) < Suc (size_list size args)"
  by (metis le_imp_less_Suc order_refl prod.collapse set_zip_rightD size_list_estimation')

function cxpr_visit_static_named_string_args_node :: "'u visitor \<Rightarrow> cxpr_expr_ast \<Rightarrow> 'u \<Rightarrow> bool \<times> 'u" where
  "cxpr_visit_static_named_string_args_node visitor (Ast sp d) u =
     (case d of
        CXPR_NODE_FUNCTION_CALL callee args names \<Rightarrow>
          visit_each (\<lambda>na u.
              case visit_each visitor (static_arg CXPR_CALL_SITE_FUNCTION (Ast sp d) callee na) u of
                (False, u') \<Rightarrow> (False, u')
              | (True, u') \<Rightarrow> cxpr_visit_static_named_string_args_node visitor (snd na) u') (zip names args) u
      | CXPR_NODE_PRODUCER_ACCESS callee args names _ \<Rightarrow>
          visit_each (\<lambda>na u.
              case visit_each visitor (static_arg CXPR_CALL_SITE_PRODUCER (Ast sp d) callee na) u of
                (False, u') \<Rightarrow> (False, u')
              | (True, u') \<Rightarrow> cxpr_visit_static_named_string_args_node visitor (snd na) u') (zip names args) u
      | _ \<Rightarrow> visit_each (cxpr_visit_static_named_string_args_node visitor) (ast_children (Ast sp d)) u)"
  by pat_completeness auto
termination
  by (relation "measure (\<lambda>(_, a, _). size a)")
    (auto dest: ast_children_size zip_snd_size simp del: ast_children.simps simp: less_Suc_eq)

declare cxpr_visit_static_named_string_args_node.simps [simp del]

text \<open>The entries of an expression in the order of the traversal.\<close>

function static_args :: "cxpr_expr_ast \<Rightarrow> cxpr_static_named_string_arg list" where
  "static_args (Ast sp d) =
     (case d of
        CXPR_NODE_FUNCTION_CALL callee args names \<Rightarrow>
          concat (map (\<lambda>na. static_arg CXPR_CALL_SITE_FUNCTION (Ast sp d) callee na @ static_args (snd na)) (zip names args))
      | CXPR_NODE_PRODUCER_ACCESS callee args names _ \<Rightarrow>
          concat (map (\<lambda>na. static_arg CXPR_CALL_SITE_PRODUCER (Ast sp d) callee na @ static_args (snd na)) (zip names args))
      | _ \<Rightarrow> concat (map static_args (ast_children (Ast sp d))))"
  by pat_completeness auto
termination
  by (relation "measure size")
    (auto dest: ast_children_size zip_snd_size simp del: ast_children.simps simp: less_Suc_eq)

declare static_args.simps [simp del]

lemma visit_each_append:
  "visit_each f (xs @ ys) u = (case visit_each f xs u of (False, u') \<Rightarrow> (False, u') | (True, u') \<Rightarrow> visit_each f ys u')"
  by (induction xs arbitrary: u) (auto split: prod.splits bool.splits)

lemma visit_each_concat:
  "(\<And>x u. x \<in> set xs \<Longrightarrow> g x u = visit_each f (h x) u) \<Longrightarrow> visit_each g xs u = visit_each f (concat (map h xs)) u"
proof (induction xs arbitrary: u)
  case (Cons x xs)
  then show ?case by (auto simp: visit_each_append split: prod.splits bool.splits)
qed simp

text \<open>The traversal calls the visitor on exactly the named string arguments of the
  expression, outer calls before the calls inside their arguments, and stops at the first visit
  that returns false: it is one pass over the list \<open>static_args\<close>.\<close>

theorem visit_static_args_pass:
  "cxpr_visit_static_named_string_args_node visitor a u = visit_each visitor (static_args a) u"
proof (induction a arbitrary: u rule: measure_induct_rule [of size])
  case (less a)
  obtain sp d where a: "a = Ast sp d" by (cases a)
  have child: "cxpr_visit_static_named_string_args_node visitor c w = visit_each visitor (static_args c) w"
    if "c \<in> set (ast_children (Ast sp d))" for c w
    using less.IH [of c w] ast_children_size [OF that] by (simp add: a del: ast_children.simps)
  have plain: "visit_each (cxpr_visit_static_named_string_args_node visitor) (ast_children (Ast sp d)) u =
      visit_each visitor (concat (map static_args (ast_children (Ast sp d)))) u"
    by (rule visit_each_concat) (rule child)
  have calls: "visit_each (\<lambda>na u.
              case visit_each visitor (static_arg kind (Ast sp d) callee na) u of
                (False, u') \<Rightarrow> (False, u')
              | (True, u') \<Rightarrow> cxpr_visit_static_named_string_args_node visitor (snd na) u') (zip names args) u =
      visit_each visitor (concat (map (\<lambda>na. static_arg kind (Ast sp d) callee na @ static_args (snd na)) (zip names args))) u"
    if "ast_children (Ast sp d) = args" for kind callee names args
  proof (rule visit_each_concat)
    fix na w assume "na \<in> set (zip names args)"
    then have "snd na \<in> set (ast_children (Ast sp d))" unfolding that by (metis prod.collapse set_zip_rightD)
    from child [OF this] show "(case visit_each visitor (static_arg kind (Ast sp d) callee na) w of
                (False, u') \<Rightarrow> (False, u')
              | (True, u') \<Rightarrow> cxpr_visit_static_named_string_args_node visitor (snd na) u') =
        visit_each visitor (static_arg kind (Ast sp d) callee na @ static_args (snd na)) w"
      by (simp add: visit_each_append split: prod.splits bool.splits)
  qed
  show ?case
    by (cases d; subst a, subst a, subst cxpr_visit_static_named_string_args_node.simps, subst static_args.simps)
      (use plain calls in simp_all)
qed

section \<open>Functions that mention a name in an argument\<close>

text \<open>The callees in the order of the walk: an argument that mentions the name puts its callee
  before the callees found inside it.\<close>

function mention_sites :: "bool \<Rightarrow> string \<Rightarrow> cxpr_expr_ast \<Rightarrow> string list" where
  "mention_sites variable name a =
     concat (map (\<lambda>c. (if arg_mentions variable name c then own_function a else []) @ mention_sites variable name c)
       (walk_children a))"
  by pat_completeness auto
termination by (relation "measure (\<lambda>(_, _, a). size a)") auto

declare mention_sites.simps [simp del]

lemma collect_contexts_fold:
  "cxpr_collect_call_arg_contexts name variable m a st = fold (cxpr_add_unique_name m) (mention_sites variable name a) st"
proof (induction a arbitrary: st rule: measure_induct_rule [of size])
  case (less a)
  let ?C = "cxpr_collect_call_arg_contexts name variable m"
  have IH: "?C c w = fold (cxpr_add_unique_name m) (mention_sites variable name c) w" if "c \<in> set (walk_children a)" for c w
    using less.IH [of c w] walk_children_size [OF that] by simp
  have plain: "fold ?C cs w = fold (cxpr_add_unique_name m) (concat (map (mention_sites variable name) cs)) w"
    if "set cs \<subseteq> set (walk_children a)" for cs w
    using that IH by (induction cs arbitrary: w) auto
  have call: "fold (\<lambda>arg st. ?C arg (if arg_mentions variable name arg then cxpr_add_unique_name m f st else st)) cs w =
      fold (cxpr_add_unique_name m)
        (concat (map (\<lambda>c. (if arg_mentions variable name c then [f] else []) @ mention_sites variable name c) cs)) w"
    if "set cs \<subseteq> set (walk_children a)" for cs w f
    using that IH by (induction cs arbitrary: w) auto
  show ?case
    unfolding cxpr_collect_call_arg_contexts.simps [of name variable m a] mention_sites.simps [of variable name a]
    by (cases "ast_data a") (simp_all add: plain call own_function_def cong: if_cong)
qed

text \<open>The functions listed for a name are exactly those with an argument that mentions it, at any
  depth the walkers reach, in the order of the walk.\<close>

theorem call_arg_contexts_exact:
  "lists_names m (mention_sites False n a) (cxpr_expr_ast_call_arg_contexts_for_reference a n m) \<and>
   lists_names m (mention_sites True n a) (cxpr_expr_ast_call_arg_contexts_for_variable a n m)"
  by (simp add: cxpr_expr_ast_call_arg_contexts_for_reference_def cxpr_expr_ast_call_arg_contexts_for_variable_def
      collect_contexts_fold fold_add_lists)

end
