(* ===== verification/Cxpr_Printer.thy ===== *)
theory Cxpr_Printer
  imports Cxpr_Parser_Safety
begin

text \<open>
  \<open>src/src/ast/printer.c\<close>: rendering a tree as source text.

  The growing buffer \<open>cxpr_expr_ast_printer\<close> is a record of the text written and the capacity; every
  printing function takes the buffer and returns it, or \<open>None\<close> where the C function returns 0.
  \<open>realloc\<close> is taken to succeed. \<open>snprintf("%.*g")\<close>, \<open>snprintf("%" PRId64)\<close> and \<open>strtod\<close> are
  written out. \<open>node_text\<close> is the text without the buffer; \<open>writes\<close> relates the two.
  \<open>cxpr_expr_ast_dump\<close> only hands the string to \<open>fputs\<close> and is not modelled.
\<close>

section \<open>The output buffer\<close>

record cxpr_expr_ast_printer =
  pr_buf :: string
  pr_cap :: int

text \<open>Sizes are \<open>int\<close> here: comparisons with \<open>SIZE_MAX\<close> then evaluate.\<close>

abbreviation size_max :: int where "size_max \<equiv> 18446744073709551615"

text \<open>The capacity loop: double until the text fits; where doubling would overflow, take what is
  needed.\<close>

function grow_cap :: "int \<Rightarrow> int \<Rightarrow> int" where
  "grow_cap cap needed =
     (if cap \<le> 0 then needed
      else if cap < needed then (if size_max div 2 < cap then needed else grow_cap (cap * 2) needed)
      else cap)"
  by pat_completeness auto
termination by (relation "measure (\<lambda>(cap, needed). nat (needed - cap))") auto

declare grow_cap.simps [simp del]

definition cxpr_printer_reserve :: "cxpr_expr_ast_printer \<Rightarrow> int \<Rightarrow> cxpr_expr_ast_printer option" where
  "cxpr_printer_reserve p extra =
     (if size_max - int (length (pr_buf p)) - 1 < extra then None
      else let needed = int (length (pr_buf p)) + extra + 1 in
        if needed \<le> pr_cap p then Some p
        else Some (p\<lparr>pr_cap := grow_cap (if pr_cap p = 0 then 64 else pr_cap p) needed\<rparr>))"

text \<open>
  \<open>cxpr_printer_append_n\<close>, which \<open>cxpr_printer_append\<close> calls with the length of its text and whose
  one-character form is \<open>cxpr_printer_append_char\<close>.
\<close>

definition cxpr_printer_append :: "string \<Rightarrow> cxpr_expr_ast_printer \<Rightarrow> cxpr_expr_ast_printer option" where
  "cxpr_printer_append t p =
     do { p' \<leftarrow> cxpr_printer_reserve p (int (length t)); Some (p'\<lparr>pr_buf := pr_buf p' @ t\<rparr>) }"

definition cxpr_printer_append_char :: "char \<Rightarrow> cxpr_expr_ast_printer \<Rightarrow> cxpr_expr_ast_printer option" where
  "cxpr_printer_append_char c p =
     do { p' \<leftarrow> cxpr_printer_reserve p 1; Some (p'\<lparr>pr_buf := pr_buf p' @ [c]\<rparr>) }"

text \<open>The buffer has room for its text and the terminator, or nothing is allocated yet.\<close>

definition pr_ok :: "cxpr_expr_ast_printer \<Rightarrow> bool" where
  "pr_ok p \<longleftrightarrow> (pr_cap p = 0 \<and> pr_buf p = [] \<or> int (length (pr_buf p)) < pr_cap p) \<and> pr_cap p \<le> size_max"

section \<open>Numbers\<close>

definition digit_char :: "int \<Rightarrow> char" where
  "digit_char k = char_of (48 + k)"

function dec_string :: "int \<Rightarrow> string" where
  "dec_string n = (if n < 10 then [digit_char n] else dec_string (n div 10) @ [digit_char (n mod 10)])"
  by pat_completeness auto
termination by (relation "measure nat") auto

declare dec_string.simps [simp del]

text \<open>The exponent of the leading decimal digit of the ratio \<open>n / d\<close>.\<close>

function dec_lead :: "int \<Rightarrow> int \<Rightarrow> int" where
  "dec_lead n d = (if 0 < n \<and> n < d then dec_lead (10 * n) d - 1 else 0)"
  by pat_completeness auto
termination by (relation "measure (\<lambda>(n, d). nat (d - n))") auto

declare dec_lead.simps [simp del]

definition dec_exponent :: "int \<Rightarrow> int \<Rightarrow> int" where
  "dec_exponent n d = (if n < d then dec_lead n d else int (length (dec_string (n div d))) - 1)"

definition strip_zeros :: "string \<Rightarrow> string" where
  "strip_zeros s = rev (dropWhile (\<lambda>c. c = CHR ''0'') (rev s))"

definition with_fraction :: "string \<Rightarrow> string \<Rightarrow> string" where
  "with_fraction ip fp = (if strip_zeros fp = [] then ip else ip @ CHR ''.'' # strip_zeros fp)"

definition exponent_text :: "int \<Rightarrow> string" where
  "exponent_text x =
     (let ds = dec_string \<bar>x\<bar> in
      CHR ''e'' # (if x < 0 then CHR ''-'' else CHR ''+'') # (if length ds < 2 then CHR ''0'' # ds else ds))"

text \<open>\<open>snprintf("%.*g", precision, value)\<close> for a finite value: \<open>precision\<close> significant digits,
  correctly rounded, trailing zeros removed, exponent notation outside \<open>1e-4 ... 10^precision\<close>.\<close>

definition format_digits :: "int \<Rightarrow> int \<Rightarrow> int \<Rightarrow> string" where
  "format_digits prec x digits =
     (let ds = dec_string digits in
      if x < - 4 \<or> prec \<le> x then with_fraction (take 1 ds) (drop 1 ds) @ exponent_text x
      else if 0 \<le> x then with_fraction (take (nat (x + 1)) ds) (drop (nat (x + 1)) ds)
      else with_fraction ''0'' (replicate (nat (- x - 1)) CHR ''0'' @ ds))"

definition format_g :: "int \<Rightarrow> bool \<Rightarrow> int \<Rightarrow> int \<Rightarrow> string" where
  "format_g prec s m e =
     (if s then ''-'' else []) @
     (if m = 0 then ''0''
      else let n = m * pow2 e; d = pow2 (- e); x = dec_exponent n d; k = prec - 1 - x;
               q = div_rne (n * 10 ^ nat k) (d * 10 ^ nat (- k)) in
        if q < 10 ^ nat prec then format_digits prec x q else format_digits prec (x + 1) (q div 10))"

text \<open>\<open>strtod\<close> on a printed number, which may carry a minus sign.\<close>

definition read_back :: "string \<Rightarrow> double" where
  "read_back s = (if s \<noteq> [] \<and> hd s = CHR ''-'' then dbl_neg (strtod (tl s)) else strtod s)"

fun number_text :: "double \<Rightarrow> string" where
  "number_text DNaN = ''nan()''"
| "number_text (DInf s) = (if s then ''-inf()'' else ''inf()'')"
| "number_text (DFin s m e) =
     (if dbl_eq (read_back (format_g 15 s m e)) (DFin s m e) then format_g 15 s m e
      else if dbl_eq (read_back (format_g 16 s m e)) (DFin s m e) then format_g 16 s m e
      else format_g 17 s m e)"

definition int_text :: "int \<Rightarrow> string" where
  "int_text i = (if i < 0 then CHR ''-'' # dec_string (- i) else dec_string i)"

definition cxpr_print_number :: "double \<Rightarrow> cxpr_expr_ast_printer \<Rightarrow> cxpr_expr_ast_printer option" where
  "cxpr_print_number v = cxpr_printer_append (number_text v)"

section \<open>Strings\<close>

fun print_string_loop :: "string \<Rightarrow> nat \<Rightarrow> cxpr_expr_ast_printer \<Rightarrow> cxpr_expr_ast_printer option" where
  "print_string_loop [] backslash_run p = Some p"
| "print_string_loop (c # cs) backslash_run p =
     do { p1 \<leftarrow> (if c = CHR 0x22 \<and> backslash_run mod 2 = 0 then cxpr_printer_append_char CHR 0x5C p else Some p);
          p2 \<leftarrow> cxpr_printer_append_char c p1;
          print_string_loop cs (if c = CHR 0x5C then Suc backslash_run else 0) p2 }"

definition cxpr_print_string :: "string \<Rightarrow> cxpr_expr_ast_printer \<Rightarrow> cxpr_expr_ast_printer option" where
  "cxpr_print_string s p =
     do { p1 \<leftarrow> cxpr_printer_append_char CHR 0x22 p; p2 \<leftarrow> print_string_loop s 0 p1;
          cxpr_printer_append_char CHR 0x22 p2 }"

section \<open>Precedence\<close>

definition cxpr_op_precedence :: "cxpr_token_type \<Rightarrow> nat" where
  "cxpr_op_precedence op =
     (case op of
        CXPR_TOK_OR \<Rightarrow> 2 | CXPR_TOK_AND \<Rightarrow> 3 | CXPR_TOK_EQ \<Rightarrow> 5 | CXPR_TOK_NEQ \<Rightarrow> 5
      | CXPR_TOK_LT \<Rightarrow> 6 | CXPR_TOK_GT \<Rightarrow> 6 | CXPR_TOK_LTE \<Rightarrow> 6 | CXPR_TOK_GTE \<Rightarrow> 6
      | CXPR_TOK_PLUS \<Rightarrow> 7 | CXPR_TOK_MINUS \<Rightarrow> 7
      | CXPR_TOK_STAR \<Rightarrow> 8 | CXPR_TOK_SLASH \<Rightarrow> 8 | CXPR_TOK_PERCENT \<Rightarrow> 8
      | CXPR_TOK_POWER \<Rightarrow> 10 | _ \<Rightarrow> 0)"

definition right_assoc :: "cxpr_token_type \<Rightarrow> bool" where
  "right_assoc op \<longleftrightarrow> op = CXPR_TOK_POWER"

definition cxpr_expr_ast_precedence :: "cxpr_expr_ast \<Rightarrow> nat" where
  "cxpr_expr_ast_precedence ast =
     (case ast_data ast of
        CXPR_NODE_TERNARY _ _ _ \<Rightarrow> 1
      | CXPR_NODE_BINARY_OP op _ _ \<Rightarrow> cxpr_op_precedence op
      | CXPR_NODE_UNARY_OP _ _ \<Rightarrow> 9
      | _ \<Rightarrow> 11)"

definition cxpr_binary_op_text :: "cxpr_token_type \<Rightarrow> string option" where
  "cxpr_binary_op_text op =
     (case op of
        CXPR_TOK_PLUS \<Rightarrow> Some ''+'' | CXPR_TOK_MINUS \<Rightarrow> Some ''-'' | CXPR_TOK_STAR \<Rightarrow> Some ''*''
      | CXPR_TOK_SLASH \<Rightarrow> Some ''/'' | CXPR_TOK_PERCENT \<Rightarrow> Some ''%'' | CXPR_TOK_POWER \<Rightarrow> Some ''^''
      | CXPR_TOK_EQ \<Rightarrow> Some ''=='' | CXPR_TOK_NEQ \<Rightarrow> Some ''!='' | CXPR_TOK_LT \<Rightarrow> Some ''<''
      | CXPR_TOK_GT \<Rightarrow> Some ''>'' | CXPR_TOK_LTE \<Rightarrow> Some ''<='' | CXPR_TOK_GTE \<Rightarrow> Some ''>=''
      | CXPR_TOK_AND \<Rightarrow> Some ''and'' | CXPR_TOK_OR \<Rightarrow> Some ''or'' | _ \<Rightarrow> None)"

definition is_ternary :: "cxpr_expr_ast \<Rightarrow> bool" where
  "is_ternary ast = (case ast_data ast of CXPR_NODE_TERNARY _ _ _ \<Rightarrow> True | _ \<Rightarrow> False)"

definition is_binary :: "cxpr_expr_ast \<Rightarrow> bool" where
  "is_binary ast = (case ast_data ast of CXPR_NODE_BINARY_OP _ _ _ \<Rightarrow> True | _ \<Rightarrow> False)"

definition cxpr_binary_child_needs_parens :: "cxpr_expr_ast \<Rightarrow> cxpr_token_type \<Rightarrow> bool \<Rightarrow> bool" where
  "cxpr_binary_child_needs_parens child parent_op is_right_child =
     (if is_ternary child then True
      else let parent_prec = cxpr_op_precedence parent_op; child_prec = cxpr_expr_ast_precedence child in
        if child_prec < parent_prec then True
        else if \<not> is_binary child \<or> child_prec \<noteq> parent_prec then False
        else if right_assoc parent_op then \<not> is_right_child
        else is_right_child)"

section \<open>Nodes\<close>

type_synonym writer = "cxpr_expr_ast_printer \<Rightarrow> cxpr_expr_ast_printer option"

definition cxpr_print_with_parens :: "writer \<Rightarrow> bool \<Rightarrow> writer" where
  "cxpr_print_with_parens node parens p =
     do { p1 \<leftarrow> (if parens then cxpr_printer_append_char CHR ''('' p else Some p);
          p2 \<leftarrow> node p1;
          if parens then cxpr_printer_append_char CHR '')'' p2 else Some p2 }"

text \<open>The loops over elements: a comma and a blank before every element but the first.\<close>

fun print_rest :: "writer list \<Rightarrow> writer" where
  "print_rest [] p = Some p"
| "print_rest (w # ws) p = do { p1 \<leftarrow> cxpr_printer_append '', '' p; p2 \<leftarrow> w p1; print_rest ws p2 }"

fun print_elements :: "writer list \<Rightarrow> writer" where
  "print_elements [] p = Some p"
| "print_elements (w # ws) p = do { p1 \<leftarrow> w p; print_rest ws p1 }"

definition print_named_arg :: "string option \<Rightarrow> writer \<Rightarrow> writer" where
  "print_named_arg name node p =
     (case name of
        None \<Rightarrow> node p
      | Some n \<Rightarrow> do { p1 \<leftarrow> cxpr_printer_append n p; p2 \<leftarrow> cxpr_printer_append_char CHR ''='' p1; node p2 })"

definition cxpr_print_call_args :: "writer list \<Rightarrow> string option list \<Rightarrow> writer" where
  "cxpr_print_call_args args arg_names = print_elements (map2 print_named_arg arg_names args)"

definition print_record_field :: "string \<Rightarrow> writer \<Rightarrow> writer" where
  "print_record_field n node p =
     do { p1 \<leftarrow> cxpr_printer_append n p; p2 \<leftarrow> cxpr_printer_append '' = '' p1; node p2 }"

fun print_chain_rest :: "string list \<Rightarrow> writer" where
  "print_chain_rest [] p = Some p"
| "print_chain_rest (s # ss) p =
     do { p1 \<leftarrow> cxpr_printer_append_char CHR ''.'' p; p2 \<leftarrow> cxpr_printer_append s p1; print_chain_rest ss p2 }"

fun print_chain :: "string list \<Rightarrow> writer" where
  "print_chain [] p = Some p"
| "print_chain (s # ss) p = do { p1 \<leftarrow> cxpr_printer_append s p; print_chain_rest ss p1 }"

definition cxpr_print_binary :: "cxpr_token_type \<Rightarrow> bool \<Rightarrow> bool \<Rightarrow> writer \<Rightarrow> writer \<Rightarrow> nat \<Rightarrow> writer" where
  "cxpr_print_binary op left_parens right_parens left right parent_prec p =
     (let parens = cxpr_op_precedence op < parent_prec in
      case cxpr_binary_op_text op of
        None \<Rightarrow> None
      | Some op_text \<Rightarrow>
          do { p1 \<leftarrow> (if parens then cxpr_printer_append_char CHR ''('' p else Some p);
               p2 \<leftarrow> cxpr_print_with_parens left left_parens p1;
               p3 \<leftarrow> cxpr_printer_append_char CHR '' '' p2;
               p4 \<leftarrow> cxpr_printer_append op_text p3;
               p5 \<leftarrow> cxpr_printer_append_char CHR '' '' p4;
               p6 \<leftarrow> cxpr_print_with_parens right right_parens p5;
               if parens then cxpr_printer_append_char CHR '')'' p6 else Some p6 })"

definition cxpr_print_unary :: "cxpr_token_type \<Rightarrow> bool \<Rightarrow> writer \<Rightarrow> nat \<Rightarrow> writer" where
  "cxpr_print_unary op operand_parens operand parent_prec p =
     (let parens = 9 < parent_prec in
      do { p1 \<leftarrow> (if parens then cxpr_printer_append_char CHR ''('' p else Some p);
           p2 \<leftarrow> (if op = CXPR_TOK_NOT then cxpr_printer_append ''not '' p1
                  else if op = CXPR_TOK_MINUS then cxpr_printer_append_char CHR ''-'' p1
                  else None);
           p3 \<leftarrow> cxpr_print_with_parens operand operand_parens p2;
           if parens then cxpr_printer_append_char CHR '')'' p3 else Some p3 })"

definition cxpr_print_ternary :: "bool \<Rightarrow> bool \<Rightarrow> bool \<Rightarrow> writer \<Rightarrow> writer \<Rightarrow> writer \<Rightarrow> nat \<Rightarrow> writer" where
  "cxpr_print_ternary c_parens t_parens f_parens condition true_branch false_branch parent_prec p =
     (let parens = 1 < parent_prec in
      do { p1 \<leftarrow> (if parens then cxpr_printer_append_char CHR ''('' p else Some p);
           p2 \<leftarrow> cxpr_print_with_parens condition c_parens p1;
           p3 \<leftarrow> cxpr_printer_append '' ? '' p2;
           p4 \<leftarrow> cxpr_print_with_parens true_branch t_parens p3;
           p5 \<leftarrow> cxpr_printer_append '' : '' p4;
           p6 \<leftarrow> cxpr_print_with_parens false_branch f_parens p5;
           if parens then cxpr_printer_append_char CHR '')'' p6 else Some p6 })"

fun cxpr_print_node :: "cxpr_expr_ast \<Rightarrow> nat \<Rightarrow> writer" where
  "cxpr_print_node (Ast sp d) parent_prec p =
     (case d of
        CXPR_NODE_NUMBER v \<Rightarrow> cxpr_print_number v p
      | CXPR_NODE_INT64 i \<Rightarrow> cxpr_printer_append (int_text i @ ''i64'') p
      | CXPR_NODE_BOOL b \<Rightarrow> cxpr_printer_append (if b then ''true'' else ''false'') p
      | CXPR_NODE_ARRAY es \<Rightarrow>
          do { p1 \<leftarrow> cxpr_printer_append_char CHR ''['' p;
               p2 \<leftarrow> print_elements (map (\<lambda>e. cxpr_print_node e 0) es) p1;
               cxpr_printer_append_char CHR '']'' p2 }
      | CXPR_NODE_RECORD ns vs \<Rightarrow>
          do { p1 \<leftarrow> cxpr_printer_append_char CHR ''{'' p;
               p2 \<leftarrow> print_elements (map2 print_record_field ns (map (\<lambda>e. cxpr_print_node e 0) vs)) p1;
               cxpr_printer_append_char CHR ''}'' p2 }
      | CXPR_NODE_STRING s \<Rightarrow> cxpr_print_string s p
      | CXPR_NODE_IDENTIFIER n \<Rightarrow> cxpr_printer_append n p
      | CXPR_NODE_VARIABLE n \<Rightarrow>
          do { p1 \<leftarrow> cxpr_printer_append_char CHR ''$'' p; cxpr_printer_append n p1 }
      | CXPR_NODE_FIELD_EXPR b f \<Rightarrow>
          do { p1 \<leftarrow> cxpr_printer_append_char CHR ''('' p; p2 \<leftarrow> cxpr_print_node b 0 p1;
               p3 \<leftarrow> cxpr_printer_append '').'' p2; cxpr_printer_append f p3 }
      | CXPR_NODE_FIELD_ACCESS ob f \<Rightarrow>
          do { p1 \<leftarrow> cxpr_printer_append ob p; p2 \<leftarrow> cxpr_printer_append_char CHR ''.'' p1;
               cxpr_printer_append f p2 }
      | CXPR_NODE_CHAIN_ACCESS path \<Rightarrow> print_chain path p
      | CXPR_NODE_PRODUCER_ACCESS n args names f \<Rightarrow>
          do { p1 \<leftarrow> cxpr_printer_append n p; p2 \<leftarrow> cxpr_printer_append_char CHR ''('' p1;
               p3 \<leftarrow> cxpr_print_call_args (map (\<lambda>e. cxpr_print_node e 0) args) names p2;
               p4 \<leftarrow> cxpr_printer_append '').'' p3; cxpr_printer_append f p4 }
      | CXPR_NODE_BINARY_OP op l r \<Rightarrow>
          cxpr_print_binary op (cxpr_binary_child_needs_parens l op False) (cxpr_binary_child_needs_parens r op True)
            (cxpr_print_node l 0) (cxpr_print_node r 0) parent_prec p
      | CXPR_NODE_UNARY_OP op a \<Rightarrow>
          cxpr_print_unary op (cxpr_expr_ast_precedence a < 9) (cxpr_print_node a 0) parent_prec p
      | CXPR_NODE_FUNCTION_CALL n args names \<Rightarrow>
          do { p1 \<leftarrow> cxpr_printer_append n p; p2 \<leftarrow> cxpr_printer_append_char CHR ''('' p1;
               p3 \<leftarrow> cxpr_print_call_args (map (\<lambda>e. cxpr_print_node e 0) args) names p2;
               cxpr_printer_append_char CHR '')'' p3 }
      | CXPR_NODE_INDEX a i \<Rightarrow>
          do { p1 \<leftarrow> cxpr_print_node a 11 p; p2 \<leftarrow> cxpr_printer_append_char CHR ''['' p1;
               p3 \<leftarrow> cxpr_print_node i 0 p2; cxpr_printer_append_char CHR '']'' p3 }
      | CXPR_NODE_TERNARY c a b \<Rightarrow>
          cxpr_print_ternary (is_ternary c) (is_ternary a) (is_ternary b)
            (cxpr_print_node c 0) (cxpr_print_node a 0) (cxpr_print_node b 0) parent_prec p)"

declare cxpr_print_node.simps [simp del]

definition printer_zero :: cxpr_expr_ast_printer where
  "printer_zero = \<lparr>pr_buf = [], pr_cap = 0\<rparr>"

definition cxpr_expr_ast_to_string :: "cxpr_expr_ast \<Rightarrow> string option" where
  "cxpr_expr_ast_to_string ast = map_option pr_buf (cxpr_print_node ast 0 printer_zero)"

section \<open>The text of a tree\<close>

text \<open>What is printed, without the buffer: the reference the printer is compared with.\<close>

fun print_string_body :: "nat \<Rightarrow> string \<Rightarrow> string" where
  "print_string_body backslash_run [] = []"
| "print_string_body backslash_run (c # cs) =
     (if c = CHR 0x22 \<and> backslash_run mod 2 = 0 then [CHR 0x5C] else []) @
     c # print_string_body (if c = CHR 0x5C then Suc backslash_run else 0) cs"

definition string_text :: "string \<Rightarrow> string" where
  "string_text s = CHR 0x22 # print_string_body 0 s @ [CHR 0x22]"


definition parens_if :: "bool \<Rightarrow> string \<Rightarrow> string" where
  "parens_if b s = (if b then CHR ''('' # s @ '')'' else s)"

fun comma_join :: "string list \<Rightarrow> string" where
  "comma_join [] = []"
| "comma_join [s] = s"
| "comma_join (s # ss) = s @ '', '' @ comma_join ss"

definition named_arg_text :: "string option \<Rightarrow> string \<Rightarrow> string" where
  "named_arg_text name s = (case name of None \<Rightarrow> s | Some n \<Rightarrow> n @ CHR ''='' # s)"

definition call_args_text :: "string option list \<Rightarrow> string list \<Rightarrow> string" where
  "call_args_text names args = comma_join (map2 named_arg_text names args)"

fun node_text :: "cxpr_expr_ast \<Rightarrow> nat \<Rightarrow> string option" where
  "node_text (Ast sp d) parent_prec =
     (case d of
        CXPR_NODE_NUMBER v \<Rightarrow> Some (number_text v)
      | CXPR_NODE_INT64 i \<Rightarrow> Some (int_text i @ ''i64'')
      | CXPR_NODE_BOOL b \<Rightarrow> Some (if b then ''true'' else ''false'')
      | CXPR_NODE_ARRAY es \<Rightarrow>
          do { ss \<leftarrow> those (map (\<lambda>e. node_text e 0) es); Some (''['' @ comma_join ss @ '']'') }
      | CXPR_NODE_RECORD ns vs \<Rightarrow>
          do { ss \<leftarrow> those (map (\<lambda>e. node_text e 0) vs);
               Some (''{'' @ comma_join (map2 (\<lambda>n s. n @ '' = '' @ s) ns ss) @ ''}'') }
      | CXPR_NODE_STRING s \<Rightarrow> Some (string_text s)
      | CXPR_NODE_IDENTIFIER n \<Rightarrow> Some n
      | CXPR_NODE_VARIABLE n \<Rightarrow> Some (CHR ''$'' # n)
      | CXPR_NODE_FIELD_EXPR b f \<Rightarrow>
          do { s \<leftarrow> node_text b 0; Some (''('' @ s @ '').'' @ f) }
      | CXPR_NODE_FIELD_ACCESS ob f \<Rightarrow> Some (ob @ CHR ''.'' # f)
      | CXPR_NODE_CHAIN_ACCESS path \<Rightarrow> Some (join_dots path)
      | CXPR_NODE_PRODUCER_ACCESS n args names f \<Rightarrow>
          do { ss \<leftarrow> those (map (\<lambda>e. node_text e 0) args);
               Some (n @ ''('' @ call_args_text names ss @ '').'' @ f) }
      | CXPR_NODE_BINARY_OP op l r \<Rightarrow>
          (case cxpr_binary_op_text op of
             None \<Rightarrow> None
           | Some t \<Rightarrow>
               do { ls \<leftarrow> node_text l 0; rs \<leftarrow> node_text r 0;
                    Some (parens_if (cxpr_op_precedence op < parent_prec)
                      (parens_if (cxpr_binary_child_needs_parens l op False) ls @ '' '' @ t @ '' '' @
                       parens_if (cxpr_binary_child_needs_parens r op True) rs)) })
      | CXPR_NODE_UNARY_OP op a \<Rightarrow>
          (if op \<noteq> CXPR_TOK_NOT \<and> op \<noteq> CXPR_TOK_MINUS then None
           else do { s \<leftarrow> node_text a 0;
                     Some (parens_if (9 < parent_prec)
                       ((if op = CXPR_TOK_NOT then ''not '' else ''-'') @
                        parens_if (cxpr_expr_ast_precedence a < 9) s)) })
      | CXPR_NODE_FUNCTION_CALL n args names \<Rightarrow>
          do { ss \<leftarrow> those (map (\<lambda>e. node_text e 0) args);
               Some (n @ ''('' @ call_args_text names ss @ '')'') }
      | CXPR_NODE_INDEX a i \<Rightarrow>
          do { s \<leftarrow> node_text a 11; t \<leftarrow> node_text i 0; Some (s @ ''['' @ t @ '']'') }
      | CXPR_NODE_TERNARY c a b \<Rightarrow>
          do { cs \<leftarrow> node_text c 0; as \<leftarrow> node_text a 0; bs \<leftarrow> node_text b 0;
               Some (parens_if (1 < parent_prec)
                 (parens_if (is_ternary c) cs @ '' ? '' @ parens_if (is_ternary a) as @ '' : '' @
                  parens_if (is_ternary b) bs)) })"

declare node_text.simps [simp del]


section \<open>The buffer holds exactly the text\<close>

text \<open>
  What a writer does, for a text or for none: on a buffer in order it appends the text and keeps the
  buffer in order, unless the length would no longer fit, where it returns 0; without a text it
  returns 0.
\<close>

definition writes :: "writer \<Rightarrow> string option \<Rightarrow> bool" where
  "writes w t \<longleftrightarrow>
     (\<forall>p. pr_ok p \<longrightarrow>
        (case t of
           None \<Rightarrow> w p = None
         | Some s \<Rightarrow>
             if int (length (pr_buf p)) + int (length s) < size_max
             then \<exists>p'. w p = Some p' \<and> pr_buf p' = pr_buf p @ s \<and> pr_ok p'
             else w p = None))"

lemma grow_cap_bounds:
  assumes "0 < needed" "needed \<le> size_max" "cap \<le> size_max"
  shows "needed \<le> grow_cap cap needed \<and> grow_cap cap needed \<le> size_max"
  using assms
proof (induction cap needed rule: grow_cap.induct)
  case (1 cap needed)
  then show ?case by (subst (1 2) grow_cap.simps) auto
qed

lemma reserve_cases:
  assumes "pr_ok p" "0 \<le> extra"
  shows "if int (length (pr_buf p)) + extra < size_max
    then \<exists>p'. cxpr_printer_reserve p extra = Some p' \<and> pr_buf p' = pr_buf p \<and>
      int (length (pr_buf p)) + extra < pr_cap p' \<and> pr_cap p' \<le> size_max
    else cxpr_printer_reserve p extra = None"
proof -
  define needed where "needed = int (length (pr_buf p)) + extra + 1"
  have "0 < needed" using assms(2) by (simp add: needed_def)
  moreover have "(if pr_cap p = 0 then 64 else pr_cap p) \<le> size_max" using assms(1) by (simp add: pr_ok_def)
  ultimately have "needed \<le> size_max \<Longrightarrow> needed \<le> grow_cap (if pr_cap p = 0 then 64 else pr_cap p) needed \<and>
      grow_cap (if pr_cap p = 0 then 64 else pr_cap p) needed \<le> size_max"
    using grow_cap_bounds by blast
  then show ?thesis using assms
    by (auto simp: cxpr_printer_reserve_def Let_def needed_def pr_ok_def)
qed

lemma writes_append: "writes (cxpr_printer_append t) (Some t)"
  unfolding writes_def
proof (intro allI impI)
  fix p assume "pr_ok p"
  then show "case Some t of None \<Rightarrow> cxpr_printer_append t p = None
    | Some s \<Rightarrow> if int (length (pr_buf p)) + int (length s) < size_max
        then \<exists>p'. cxpr_printer_append t p = Some p' \<and> pr_buf p' = pr_buf p @ s \<and> pr_ok p'
        else cxpr_printer_append t p = None"
    using reserve_cases [of p "int (length t)"]
    by (auto simp: cxpr_printer_append_def pr_ok_def)
qed

lemma append_char_eq: "cxpr_printer_append_char c = cxpr_printer_append [c]"
  by (simp add: cxpr_printer_append_char_def cxpr_printer_append_def fun_eq_iff)

lemma writes_skip: "writes Some (Some [])"
  by (auto simp: writes_def pr_ok_def)

lemma writes_fail: "writes (\<lambda>p. None) None"
  by (simp add: writes_def)

lemma writes_then:
  assumes f: "writes f s" and g: "writes g t"
  shows "writes (\<lambda>p. Option.bind (f p) g) (do { x \<leftarrow> s; y \<leftarrow> t; Some (x @ y) })"
  unfolding writes_def
proof (intro allI impI)
  fix p assume p: "pr_ok p"
  show "case (do { x \<leftarrow> s; y \<leftarrow> t; Some (x @ y) }) of None \<Rightarrow> Option.bind (f p) g = None
    | Some u \<Rightarrow> if int (length (pr_buf p)) + int (length u) < size_max
        then \<exists>p'. Option.bind (f p) g = Some p' \<and> pr_buf p' = pr_buf p @ u \<and> pr_ok p'
        else Option.bind (f p) g = None"
  proof (cases s)
    case None
    then show ?thesis using f p by (simp add: writes_def)
  next
    case (Some x)
    show ?thesis
    proof (cases "int (length (pr_buf p)) + int (length x) < size_max")
      case True
      then obtain p1 where p1: "f p = Some p1" "pr_buf p1 = pr_buf p @ x" "pr_ok p1"
        using f p Some by (fastforce simp: writes_def)
      show ?thesis
      proof (cases t)
        case None
        then show ?thesis using g p1 Some by (simp add: writes_def)
      next
        case (Some y)
        then have "if int (length (pr_buf p1)) + int (length y) < size_max
            then \<exists>p'. g p1 = Some p' \<and> pr_buf p' = pr_buf p1 @ y \<and> pr_ok p'
            else g p1 = None" using g p1(3) by (simp add: writes_def)
        then show ?thesis using \<open>s = Some x\<close> Some p1 by (auto split: if_splits)
      qed
    next
      case False
      then have "f p = None" using f p Some by (simp add: writes_def)
      then show ?thesis using False Some by (cases t) auto
    qed
  qed
qed

lemma writes_if: "writes (\<lambda>p. if b then f p else Some p) (if b then s else Some [])"
  if "writes f s" using that writes_skip by (cases b) auto

lemma writes_eq: "writes f s \<Longrightarrow> s = t \<Longrightarrow> writes f t"
  by simp


lemma print_nothing [simp]:
  "print_rest [] = Some" "print_elements [] = Some" "print_chain_rest [] = Some" "print_chain [] = Some"
  "print_string_loop [] k = Some"
  by (simp_all add: fun_eq_iff)

lemma writes_parens:
  assumes "writes w t"
  shows "writes (cxpr_print_with_parens w b) (map_option (parens_if b) t)"
  unfolding cxpr_print_with_parens_def append_char_eq
  by (rule writes_eq, (rule assms writes_then writes_if writes_append)+)
    (cases t; simp add: parens_if_def)

lemma writes_rest:
  "list_all2 writes ws ts \<Longrightarrow>
   writes (print_rest ws) (map_option (\<lambda>ss. concat (map (\<lambda>s. '', '' @ s) ss)) (those ts))"
proof (induction ws ts rule: list_all2_induct)
  case Nil
  then show ?case by (simp add: writes_skip)
next
  case (Cons w ws t ts)
  have "writes (\<lambda>p. do { p1 \<leftarrow> cxpr_printer_append '', '' p; p2 \<leftarrow> w p1; print_rest ws p2 })
      (map_option (\<lambda>ss. concat (map (\<lambda>s. '', '' @ s) ss)) (those (t # ts)))"
    by (rule writes_eq, (rule Cons writes_then writes_append)+) (cases t; cases "those ts"; simp)
  then show ?case by simp
qed

lemma comma_join_Cons: "comma_join (s # ss) = s @ concat (map (\<lambda>s. '', '' @ s) ss)"
  by (induction ss arbitrary: s) auto

lemma writes_elements:
  assumes "list_all2 writes ws ts"
  shows "writes (print_elements ws) (map_option comma_join (those ts))"
proof (cases ws)
  case Nil
  then have "ts = []" using assms by simp
  then show ?thesis using writes_skip Nil by simp
next
  case (Cons w ws')
  then obtain t ts' where ts: "ts = t # ts'" "writes w t" "list_all2 writes ws' ts'"
    using assms by (auto simp: list_all2_Cons1)
  have "writes (\<lambda>p. do { p1 \<leftarrow> w p; print_rest ws' p1 }) (map_option comma_join (those ts))"
    by (rule writes_eq, (rule ts(2) writes_then writes_rest [OF ts(3)])+)
      (cases t; cases "those ts'"; simp add: ts(1) comma_join_Cons)
  moreover have "print_elements (w # ws') = (\<lambda>p. do { p1 \<leftarrow> w p; print_rest ws' p1 })" by (simp add: fun_eq_iff)
  ultimately show ?thesis by (simp add: Cons)
qed

lemma writes_named_arg: "writes w t \<Longrightarrow> writes (print_named_arg n w) (map_option (named_arg_text n) t)"
  unfolding print_named_arg_def append_char_eq
  by (cases n; cases t; simp add: named_arg_text_def option.map_ident)
    (rule writes_eq, (rule writes_then writes_append | assumption)+, simp)+

lemma writes_record_field: "writes w t \<Longrightarrow> writes (print_record_field n w) (map_option (\<lambda>s. n @ '' = '' @ s) t)"
  unfolding print_record_field_def
  by (rule writes_eq, (rule writes_then writes_append | assumption)+) (cases t; simp)

lemma writes_chain_rest: "writes (print_chain_rest ss) (Some (concat (map (\<lambda>s. CHR ''.'' # s) ss)))"
proof (induction ss)
  case Nil
  then show ?case by (simp add: writes_skip)
next
  case (Cons s ss)
  have "writes (\<lambda>p. do { p1 \<leftarrow> cxpr_printer_append [CHR ''.''] p; p2 \<leftarrow> cxpr_printer_append s p1; print_chain_rest ss p2 })
     (Some (concat (map (\<lambda>s. CHR ''.'' # s) (s # ss))))"
    by (rule writes_eq, (rule writes_then writes_append Cons)+) simp
  then show ?case by (simp add: append_char_eq)
qed

lemma join_dots_Cons: "join_dots (s # ss) = s @ concat (map (\<lambda>s. CHR ''.'' # s) ss)"
  by (induction ss arbitrary: s) auto

lemma writes_chain: "writes (print_chain ss) (Some (join_dots ss))"
proof (cases ss)
  case Nil
  then show ?thesis by (simp add: writes_skip)
next
  case (Cons s ss')
  have "writes (\<lambda>p. do { p1 \<leftarrow> cxpr_printer_append s p; print_chain_rest ss' p1 }) (Some (join_dots (s # ss')))"
    by (rule writes_eq, (rule writes_then writes_append writes_chain_rest)+) (simp add: join_dots_Cons)
  moreover have "print_chain (s # ss') = (\<lambda>p. do { p1 \<leftarrow> cxpr_printer_append s p; print_chain_rest ss' p1 })" by (simp add: fun_eq_iff)
  ultimately show ?thesis by (simp add: Cons)
qed

lemma writes_string_loop: "writes (print_string_loop s k) (Some (print_string_body k s))"
proof (induction s arbitrary: k)
  case Nil
  then show ?case by (simp add: writes_skip)
next
  case (Cons c cs)
  show ?case unfolding print_string_loop.simps append_char_eq
    by (rule writes_eq, (rule writes_then writes_append writes_if Cons)+) simp
qed

lemma writes_string: "writes (cxpr_print_string s) (Some (string_text s))"
  unfolding cxpr_print_string_def append_char_eq
  by (rule writes_eq, (rule writes_then writes_append writes_string_loop)+) (simp add: string_text_def)

lemma writes_binary:
  assumes "writes l ls" "writes r rs"
  shows "writes (cxpr_print_binary op lp rp l r k)
    (case cxpr_binary_op_text op of None \<Rightarrow> None
     | Some t \<Rightarrow> do { x \<leftarrow> ls; y \<leftarrow> rs; Some (parens_if (cxpr_op_precedence op < k)
         (parens_if lp x @ '' '' @ t @ '' '' @ parens_if rp y)) })"
proof (cases "cxpr_binary_op_text op")
  case None
  then show ?thesis by (simp add: cxpr_print_binary_def [abs_def] Let_def writes_fail)
next
  case (Some t)
  show ?thesis unfolding cxpr_print_binary_def [abs_def] Let_def append_char_eq Some option.case
    by (rule writes_eq, (rule writes_then writes_append writes_if writes_parens assms)+)
      (cases ls; cases rs; simp add: parens_if_def)
qed

lemma writes_unary:
  assumes "writes w t"
  shows "writes (cxpr_print_unary op b w k)
    (if op \<noteq> CXPR_TOK_NOT \<and> op \<noteq> CXPR_TOK_MINUS then None
     else do { x \<leftarrow> t; Some (parens_if (9 < k) ((if op = CXPR_TOK_NOT then ''not '' else ''-'') @ parens_if b x)) })"
proof -
  have sign: "writes (\<lambda>p. if op = CXPR_TOK_NOT then cxpr_printer_append ''not '' p
      else if op = CXPR_TOK_MINUS then cxpr_printer_append ''-'' p else None)
    (if op = CXPR_TOK_NOT then Some ''not '' else if op = CXPR_TOK_MINUS then Some ''-'' else None)"
    by (simp add: writes_append [unfolded fun_eq_iff] writes_fail)
  show ?thesis unfolding cxpr_print_unary_def [abs_def] Let_def append_char_eq
    by (rule writes_eq, (rule writes_then writes_append writes_if sign writes_parens assms)+)
      (cases t; simp add: parens_if_def)
qed

lemma writes_ternary:
  assumes "writes c cs" "writes t ts" "writes f fs"
  shows "writes (cxpr_print_ternary cp tp fp c t f k)
    (do { x \<leftarrow> cs; y \<leftarrow> ts; z \<leftarrow> fs;
          Some (parens_if (1 < k) (parens_if cp x @ '' ? '' @ parens_if tp y @ '' : '' @ parens_if fp z)) })"
  unfolding cxpr_print_ternary_def [abs_def] Let_def append_char_eq
  by (rule writes_eq, (rule writes_then writes_append writes_if writes_parens assms)+)
    (cases cs; cases ts; cases fs; simp add: parens_if_def)

lemma those_map2:
  "length ns = length ts \<Longrightarrow>
   those (map2 (\<lambda>n t. map_option (f n) t) ns ts) = map_option (map2 f ns) (those ts)"
proof (induction ns ts rule: list_induct2)
  case (Cons n ns t ts)
  then show ?case by (cases t; cases "those ts"; simp)
qed simp

lemma writes_items:
  assumes "length ns = length es" "\<And>e. e \<in> set es \<Longrightarrow> writes (w e) (t e)"
    "\<And>n v u. writes v u \<Longrightarrow> writes (item n v) (map_option (item_text n) u)"
  shows "writes (print_elements (map2 item ns (map w es)))
    (map_option (\<lambda>ss. comma_join (map2 item_text ns ss)) (those (map t es)))"
proof -
  have "list_all2 writes (map2 item ns (map w es)) (map2 (\<lambda>n u. map_option (item_text n) u) ns (map t es))"
    using assms by (auto simp: list_all2_conv_all_nth)
  from writes_elements [OF this] show ?thesis
    using assms(1) by (simp add: those_map2 [of ns "map t es" item_text] option.map_comp comp_def)
qed

lemma writes_list:
  "(\<And>e. e \<in> set es \<Longrightarrow> writes (w e) (t e)) \<Longrightarrow>
   writes (print_elements (map w es)) (map_option comma_join (those (map t es)))"
  by (rule writes_elements) (simp add: list_all2_conv_all_nth)

lemma writes_call_args:
  assumes "length ns = length es" "\<And>e. e \<in> set es \<Longrightarrow> writes (w e) (t e)"
  shows "writes (cxpr_print_call_args (map w es) ns) (map_option (call_args_text ns) (those (map t es)))"
  using writes_items [OF assms writes_named_arg]
  by (simp add: cxpr_print_call_args_def call_args_text_def [abs_def])

lemmas writes_intros =
  writes_then writes_append writes_string writes_chain writes_list writes_call_args
  writes_items [OF _ _ writes_record_field] writes_binary writes_unary writes_ternary

lemma writes_node: "ast_wf a \<Longrightarrow> writes (cxpr_print_node a k) (node_text a k)"
proof (induction a arbitrary: k rule: ast_induct)
  case (node a)
  obtain sp d where a: "a = Ast sp d" by (cases a)
  have wf: "node_wf d" and IH: "\<And>c k. c \<in> set (ast_children (Ast sp d)) \<Longrightarrow> writes (cxpr_print_node c k) (node_text c k)"
    using node by (auto simp: a)
  have eq: "cxpr_print_node a k = (\<lambda>p. cxpr_print_node (Ast sp d) k p)" by (simp add: a)
  note eq = eq [unfolded cxpr_print_node.simps append_char_eq cxpr_print_number_def]
  have teq: "node_text a k = node_text (Ast sp d) k" by (simp add: a)
  note teq = teq [unfolded node_text.simps]
  show ?case
  proof (cases d)
    case (CXPR_NODE_NUMBER v)
    show ?thesis unfolding eq teq CXPR_NODE_NUMBER cxpr_expr_data.case
      by (rule writes_eq, (rule writes_intros)+) simp
  next
    case (CXPR_NODE_INT64 i)
    show ?thesis unfolding eq teq CXPR_NODE_INT64 cxpr_expr_data.case
      by (rule writes_eq, (rule writes_intros)+) simp
  next
    case (CXPR_NODE_BOOL b)
    show ?thesis unfolding eq teq CXPR_NODE_BOOL cxpr_expr_data.case
      by (rule writes_eq, (rule writes_intros)+) simp
  next
    case (CXPR_NODE_ARRAY es)
    note IH = IH [unfolded CXPR_NODE_ARRAY ast_children.simps cxpr_expr_data.case list.set insert_iff empty_iff] and wf = wf [unfolded CXPR_NODE_ARRAY node_wf.simps]
    show ?thesis unfolding eq teq CXPR_NODE_ARRAY cxpr_expr_data.case
      by (rule writes_eq, (rule writes_intros IH wf | assumption | (simp only: simp_thms; fail))+) (cases "those (map (\<lambda>e. node_text e 0) es)"; simp)
  next
    case (CXPR_NODE_RECORD ns vs)
    note IH = IH [unfolded CXPR_NODE_RECORD ast_children.simps cxpr_expr_data.case list.set insert_iff empty_iff] and wf = wf [unfolded CXPR_NODE_RECORD node_wf.simps]
    show ?thesis unfolding eq teq CXPR_NODE_RECORD cxpr_expr_data.case
      by (rule writes_eq, (rule writes_intros IH wf | assumption | (simp only: simp_thms; fail))+) (cases "those (map (\<lambda>e. node_text e 0) vs)"; simp)
  next
    case (CXPR_NODE_STRING s)
    show ?thesis unfolding eq teq CXPR_NODE_STRING cxpr_expr_data.case
      by (rule writes_eq, (rule writes_intros)+) simp
  next
    case (CXPR_NODE_IDENTIFIER n)
    show ?thesis unfolding eq teq CXPR_NODE_IDENTIFIER cxpr_expr_data.case
      by (rule writes_eq, (rule writes_intros)+) simp
  next
    case (CXPR_NODE_VARIABLE n)
    show ?thesis unfolding eq teq CXPR_NODE_VARIABLE cxpr_expr_data.case
      by (rule writes_eq, (rule writes_intros)+) simp
  next
    case (CXPR_NODE_FIELD_ACCESS ob f)
    show ?thesis unfolding eq teq CXPR_NODE_FIELD_ACCESS cxpr_expr_data.case
      by (rule writes_eq, (rule writes_intros)+) simp
  next
    case (CXPR_NODE_FIELD_EXPR b f)
    note IH = IH [unfolded CXPR_NODE_FIELD_EXPR ast_children.simps cxpr_expr_data.case list.set insert_iff empty_iff] and wf = wf [unfolded CXPR_NODE_FIELD_EXPR node_wf.simps]
    show ?thesis unfolding eq teq CXPR_NODE_FIELD_EXPR cxpr_expr_data.case
      by (rule writes_eq, (rule writes_intros IH wf | assumption | (simp only: simp_thms; fail))+) (cases "node_text b 0"; simp)
  next
    case (CXPR_NODE_CHAIN_ACCESS path)
    show ?thesis unfolding eq teq CXPR_NODE_CHAIN_ACCESS cxpr_expr_data.case
      by (rule writes_eq, (rule writes_intros)+) simp
  next
    case (CXPR_NODE_PRODUCER_ACCESS n args names f)
    note IH = IH [unfolded CXPR_NODE_PRODUCER_ACCESS ast_children.simps cxpr_expr_data.case list.set insert_iff empty_iff] and wf = wf [unfolded CXPR_NODE_PRODUCER_ACCESS node_wf.simps]
    show ?thesis unfolding eq teq CXPR_NODE_PRODUCER_ACCESS cxpr_expr_data.case
      by (rule writes_eq, (rule writes_intros IH wf | assumption | (simp only: simp_thms; fail))+) (cases "those (map (\<lambda>e. node_text e 0) args)"; simp)
  next
    case (CXPR_NODE_BINARY_OP op l r)
    note IH = IH [unfolded CXPR_NODE_BINARY_OP ast_children.simps cxpr_expr_data.case list.set insert_iff empty_iff] and wf = wf [unfolded CXPR_NODE_BINARY_OP node_wf.simps]
    show ?thesis unfolding eq teq CXPR_NODE_BINARY_OP cxpr_expr_data.case
      by (rule writes_eq, (rule writes_intros IH wf | assumption | (simp only: simp_thms; fail))+)
  next
    case (CXPR_NODE_UNARY_OP op x)
    note IH = IH [unfolded CXPR_NODE_UNARY_OP ast_children.simps cxpr_expr_data.case list.set insert_iff empty_iff] and wf = wf [unfolded CXPR_NODE_UNARY_OP node_wf.simps]
    show ?thesis unfolding eq teq CXPR_NODE_UNARY_OP cxpr_expr_data.case
      by (rule writes_eq, (rule writes_intros IH wf | assumption | (simp only: simp_thms; fail))+)
  next
    case (CXPR_NODE_FUNCTION_CALL n args names)
    note IH = IH [unfolded CXPR_NODE_FUNCTION_CALL ast_children.simps cxpr_expr_data.case list.set insert_iff empty_iff] and wf = wf [unfolded CXPR_NODE_FUNCTION_CALL node_wf.simps]
    show ?thesis unfolding eq teq CXPR_NODE_FUNCTION_CALL cxpr_expr_data.case
      by (rule writes_eq, (rule writes_intros IH wf | assumption | (simp only: simp_thms; fail))+) (cases "those (map (\<lambda>e. node_text e 0) args)"; simp)
  next
    case (CXPR_NODE_INDEX x i)
    note IH = IH [unfolded CXPR_NODE_INDEX ast_children.simps cxpr_expr_data.case list.set insert_iff empty_iff] and wf = wf [unfolded CXPR_NODE_INDEX node_wf.simps]
    show ?thesis unfolding eq teq CXPR_NODE_INDEX cxpr_expr_data.case
      by (rule writes_eq, (rule writes_intros IH wf | assumption | (simp only: simp_thms; fail))+) (cases "node_text x 11"; cases "node_text i 0"; simp)
  next
    case (CXPR_NODE_TERNARY c x y)
    note IH = IH [unfolded CXPR_NODE_TERNARY ast_children.simps cxpr_expr_data.case list.set insert_iff empty_iff] and wf = wf [unfolded CXPR_NODE_TERNARY node_wf.simps]
    show ?thesis unfolding eq teq CXPR_NODE_TERNARY cxpr_expr_data.case
      by (rule writes_eq, (rule writes_intros IH wf | assumption | (simp only: simp_thms; fail))+)
  qed
qed

section \<open>Properties\<close>


definition print_example :: cxpr_expr_ast where
  "print_example = cxpr_expr_ast_call_new ''f''
     [cxpr_expr_ast_binary_new CXPR_TOK_STAR
        (cxpr_expr_ast_binary_new CXPR_TOK_PLUS (cxpr_expr_ast_identifier_new ''a'')
          (cxpr_expr_ast_int64_new 2)) (cxpr_expr_ast_param_new ''p.q'')]"


definition print_again :: "string \<Rightarrow> string option" where
  "print_again src =
     (case cxpr_expr_ast_parse fresh_parser src of
        Some (Some a, e, q) \<Rightarrow> cxpr_expr_ast_to_string a | _ \<Rightarrow> None)"

definition parsed_shape :: "string \<Rightarrow> cxpr_expr_data option" where
  "parsed_shape src =
     (case cxpr_expr_ast_parse fresh_parser src of
        Some (Some a, e, q) \<Rightarrow> Some (ast_data (ast_strip a)) | _ \<Rightarrow> None)"


end
