(* ===== verification/Cxpr_Hashmap.thy ===== *)
theory Cxpr_Hashmap
  imports Cxpr_Double
begin

text \<open>
  The open-addressed string-to-double hash map of \<^verbatim>\<open>src/hashmap/hashmap.c\<close>, which stores the
  variables and parameters of a context. The table is kept as the code keeps it (slot array,
  capacity, count, linear probing from the djb2 hash, doubling at load factor 0.75); the
  abstraction \<open>hm_abs\<close> reads it as a finite map. A NULL slot array is the empty list, a NULL
  key is \<open>None\<close>. \<open>mem n\<close> says whether an allocation of \<open>n\<close> bytes succeeds. A probe
  loop that never meets a free slot or the key is the result \<open>Loops\<close> (it walks the same
  cycle of slots for ever); the operations then return \<open>None\<close>.
\<close>

section \<open>State\<close>

record cxpr_hashmap_entry =
  key :: "string option"
  val :: double

record cxpr_hashmap =
  entries :: "cxpr_hashmap_entry list"
  capacity :: nat
  count :: nat

definition empty_entry :: cxpr_hashmap_entry where
  "empty_entry = \<lparr>key = None, val = dbl_zero\<rparr>"

definition CXPR_HASHMAP_INITIAL_CAPACITY :: nat where
  "CXPR_HASHMAP_INITIAL_CAPACITY = 32"

text \<open>0.75, exactly.\<close>

definition CXPR_HASHMAP_LOAD_FACTOR :: double where
  "CXPR_HASHMAP_LOAD_FACTOR = DFin False 6755399441055744 (- 53)"

section \<open>Operations\<close>

fun hash_loop :: "ulong \<Rightarrow> string \<Rightarrow> ulong" where
  "hash_loop hash [] = hash"
| "hash_loop hash (c # str) =
     (if c = NUL then hash else hash_loop ((push_bit 5 hash + hash) + of_nat (byte c)) str)"

definition cxpr_hash_string :: "string \<Rightarrow> ulong" where
  "cxpr_hash_string str = hash_loop 5381 str"

text \<open>\<open>sizeof(cxpr_hashmap_entry)\<close> on a 64-bit target.\<close>

abbreviation sizeof_entry :: nat where "sizeof_entry \<equiv> 16"

text \<open>\<open>cxpr_strdup\<close> of a non-NULL string.\<close>

definition cxpr_strdup :: "(nat \<Rightarrow> bool) \<Rightarrow> string \<Rightarrow> string option" where
  "cxpr_strdup mem s = (if mem (length s + 1) then Some s else None)"

definition cxpr_hashmap_init :: "(nat \<Rightarrow> bool) \<Rightarrow> cxpr_hashmap" where
  "cxpr_hashmap_init mem =
     \<lparr>entries = (if mem (CXPR_HASHMAP_INITIAL_CAPACITY * sizeof_entry)
                 then replicate CXPR_HASHMAP_INITIAL_CAPACITY empty_entry else []),
      capacity = CXPR_HASHMAP_INITIAL_CAPACITY, count = 0\<rparr>"

definition cxpr_hashmap_destroy :: "cxpr_hashmap \<Rightarrow> cxpr_hashmap" where
  "cxpr_hashmap_destroy m =
     (if entries m = [] then m else m\<lparr>entries := [], capacity := 0, count := 0\<rparr>)"

datatype probe = Found nat | Free nat | Loops

text \<open>
  The loop \<open>while (entries[hash].key) \<dots> hash = (hash + 1) % capacity\<close>, comparing keys.
  The fuel is the number of slots still to visit; after \<open>capacity\<close> steps the loop has seen
  every slot and would repeat.
\<close>

fun probe_key :: "cxpr_hashmap_entry list \<Rightarrow> nat \<Rightarrow> string \<Rightarrow> nat \<Rightarrow> nat \<Rightarrow> probe" where
  "probe_key es cap k 0 h = Loops"
| "probe_key es cap k (Suc fuel) h =
     (case key (es ! h) of None \<Rightarrow> Free h
      | Some k' \<Rightarrow> if k' = k then Found h else probe_key es cap k fuel ((h + 1) mod cap))"

text \<open>The same loop without the comparison, which looks for a free slot.\<close>

fun probe_free :: "cxpr_hashmap_entry list \<Rightarrow> nat \<Rightarrow> nat \<Rightarrow> nat \<Rightarrow> probe" where
  "probe_free es cap 0 h = Loops"
| "probe_free es cap (Suc fuel) h =
     (case key (es ! h) of None \<Rightarrow> Free h | Some _ \<Rightarrow> probe_free es cap fuel ((h + 1) mod cap))"

text \<open>The body of the loop in \<open>cxpr_hashmap_grow\<close>: one old entry into the new array.\<close>

fun rehash_entry :: "nat \<Rightarrow> cxpr_hashmap_entry list \<Rightarrow> cxpr_hashmap_entry
    \<Rightarrow> cxpr_hashmap_entry list option" where
  "rehash_entry cap new_entries e =
     (case key e of None \<Rightarrow> Some new_entries
      | Some k \<Rightarrow>
          (case probe_free new_entries cap cap (unat (cxpr_hash_string k) mod cap) of
             Free h \<Rightarrow> Some (new_entries[h := e])
           | _ \<Rightarrow> None))"

fun rehash_all :: "nat \<Rightarrow> cxpr_hashmap_entry list \<Rightarrow> cxpr_hashmap_entry list
    \<Rightarrow> cxpr_hashmap_entry list option" where
  "rehash_all cap new_entries [] = Some new_entries"
| "rehash_all cap new_entries (e # es) =
     (case rehash_entry cap new_entries e of None \<Rightarrow> None | Some ne \<Rightarrow> rehash_all cap ne es)"

definition cxpr_hashmap_grow :: "(nat \<Rightarrow> bool) \<Rightarrow> cxpr_hashmap \<Rightarrow> (cxpr_hashmap \<times> bool) option" where
  "cxpr_hashmap_grow mem m =
     (if SIZE_MAX div 2 < capacity m then Some (m, False)
      else let new_capacity = capacity m * 2 in
        if \<not> mem (new_capacity * sizeof_entry) then Some (m, False)
        else case rehash_all new_capacity (replicate new_capacity empty_entry) (entries m) of
            None \<Rightarrow> None
          | Some ne \<Rightarrow> Some (m\<lparr>entries := ne, capacity := new_capacity\<rparr>, True))"

text \<open>
  \<open>cxpr_hashmap_find_prehashed_slot\<close> and \<open>_entry\<close>: the index of the slot, \<open>Some None\<close>
  for a NULL result, \<open>None\<close> when the loop does not end.
\<close>

definition cxpr_hashmap_find_prehashed_slot ::
    "cxpr_hashmap \<Rightarrow> string \<Rightarrow> ulong \<Rightarrow> nat option option" where
  "cxpr_hashmap_find_prehashed_slot m k hash =
     (if entries m = [] \<or> count m = 0 then Some None
      else case probe_key (entries m) (capacity m) k (capacity m) (unat hash mod capacity m) of
          Found i \<Rightarrow> Some (Some i) | Free _ \<Rightarrow> Some None | Loops \<Rightarrow> None)"

definition cxpr_hashmap_find_prehashed_entry ::
    "cxpr_hashmap \<Rightarrow> string \<Rightarrow> ulong \<Rightarrow> cxpr_hashmap_entry option option" where
  "cxpr_hashmap_find_prehashed_entry m k hash =
     (if entries m = [] \<or> count m = 0 then Some None
      else case probe_key (entries m) (capacity m) k (capacity m) (unat hash mod capacity m) of
          Found i \<Rightarrow> Some (Some (entries m ! i)) | Free _ \<Rightarrow> Some None | Loops \<Rightarrow> None)"

text \<open>The test \<open>(double)(count + 1) / capacity > CXPR_HASHMAP_LOAD_FACTOR\<close>.\<close>

definition over_load :: "cxpr_hashmap \<Rightarrow> bool" where
  "over_load m =
     dbl_lt CXPR_HASHMAP_LOAD_FACTOR
       (dbl_div (dbl_of_int (int (count m + 1))) (dbl_of_int (int (capacity m))))"

text \<open>The tail of both setters: the first free slot from the hash receives the entry.\<close>

definition store_new :: "(nat \<Rightarrow> bool) \<Rightarrow> cxpr_hashmap \<Rightarrow> string \<Rightarrow> ulong \<Rightarrow> double
    \<Rightarrow> (cxpr_hashmap \<times> bool) option" where
  "store_new mem m k hash v =
     (case probe_free (entries m) (capacity m) (capacity m) (unat hash mod capacity m) of
        Free h \<Rightarrow> Some (m\<lparr>entries := (entries m)[h := \<lparr>key = cxpr_strdup mem k, val = v\<rparr>],
                         count := count m + 1\<rparr>, True)
      | _ \<Rightarrow> None)"

definition cxpr_hashmap_set_prehashed :: "(nat \<Rightarrow> bool) \<Rightarrow> cxpr_hashmap \<Rightarrow> string \<Rightarrow> ulong
    \<Rightarrow> double \<Rightarrow> (cxpr_hashmap \<times> bool) option" where
  "cxpr_hashmap_set_prehashed mem m k hash v =
     (case cxpr_hashmap_find_prehashed_slot m k hash of
        None \<Rightarrow> None
      | Some (Some i) \<Rightarrow> Some (m\<lparr>entries := (entries m)[i := (entries m ! i)\<lparr>val := v\<rparr>]\<rparr>, False)
      | Some None \<Rightarrow>
          (if over_load m
           then case cxpr_hashmap_grow mem m of None \<Rightarrow> None
                | Some (m', _) \<Rightarrow> store_new mem m' k hash v
           else store_new mem m k hash v))"

definition cxpr_hashmap_set :: "(nat \<Rightarrow> bool) \<Rightarrow> cxpr_hashmap \<Rightarrow> string \<Rightarrow> double
    \<Rightarrow> (cxpr_hashmap \<times> bool) option" where
  "cxpr_hashmap_set mem m k v =
     (let hash = cxpr_hash_string k in
      case cxpr_hashmap_find_prehashed_slot m k hash of
        None \<Rightarrow> None
      | Some (Some i) \<Rightarrow> Some (m\<lparr>entries := (entries m)[i := (entries m ! i)\<lparr>val := v\<rparr>]\<rparr>, False)
      | Some None \<Rightarrow>
          (if over_load m
           then case cxpr_hashmap_grow mem m of None \<Rightarrow> None
                | Some (m', _) \<Rightarrow> store_new mem m' k hash v
           else store_new mem m k hash v))"

text \<open>The value and the flag \<open>*found\<close>.\<close>

definition cxpr_hashmap_get_prehashed :: "cxpr_hashmap \<Rightarrow> string \<Rightarrow> ulong \<Rightarrow> (double \<times> bool) option" where
  "cxpr_hashmap_get_prehashed m k hash =
     (if entries m = [] \<or> count m = 0 then Some (dbl_zero, False)
      else case probe_key (entries m) (capacity m) k (capacity m) (unat hash mod capacity m) of
          Found i \<Rightarrow> Some (val (entries m ! i), True)
        | Free _ \<Rightarrow> Some (dbl_zero, False)
        | Loops \<Rightarrow> None)"

definition cxpr_hashmap_get :: "cxpr_hashmap \<Rightarrow> string \<Rightarrow> (double \<times> bool) option" where
  "cxpr_hashmap_get m k = cxpr_hashmap_get_prehashed m k (cxpr_hash_string k)"

definition cxpr_hashmap_clear :: "cxpr_hashmap \<Rightarrow> cxpr_hashmap" where
  "cxpr_hashmap_clear m = m\<lparr>entries := map (\<lambda>_. empty_entry) (entries m), count := 0\<rparr>"

text \<open>\<open>None\<close> is the NULL result of a failed allocation (24 bytes for the map itself).\<close>

definition cxpr_hashmap_clone :: "(nat \<Rightarrow> bool) \<Rightarrow> cxpr_hashmap \<Rightarrow> cxpr_hashmap option" where
  "cxpr_hashmap_clone mem m =
     (if \<not> mem 24 \<or> \<not> mem (capacity m * sizeof_entry) then None
      else Some \<lparr>entries = map (\<lambda>e. case key e of None \<Rightarrow> empty_entry
                                 | Some k \<Rightarrow> \<lparr>key = cxpr_strdup mem k, val = val e\<rparr>) (entries m),
                 capacity = capacity m, count = count m\<rparr>)"

section \<open>Invariant and abstraction\<close>

text \<open>The keys by slot; the whole invariant is about them.\<close>

abbreviation keys :: "cxpr_hashmap_entry list \<Rightarrow> string option list" where
  "keys es \<equiv> map key es"

definition hslot :: "nat \<Rightarrow> string \<Rightarrow> nat \<Rightarrow> nat" where
  "hslot n k d = (unat (cxpr_hash_string k) mod n + d) mod n"

text \<open>Every stored key is reached from its hash over occupied slots only.\<close>

definition reachable_key :: "string option list \<Rightarrow> string \<Rightarrow> nat \<Rightarrow> bool" where
  "reachable_key ks k i \<longleftrightarrow>
     (\<exists>d < length ks. hslot (length ks) k d = i \<and> (\<forall>c < d. ks ! hslot (length ks) k c \<noteq> None))"

definition tbl_ok :: "string option list \<Rightarrow> bool" where
  "tbl_ok ks \<longleftrightarrow>
     (\<forall>i < length ks. \<forall>j < length ks. ks ! i \<noteq> None \<and> ks ! i = ks ! j \<longrightarrow> i = j) \<and>
     (\<forall>i < length ks. \<forall>k. ks ! i = Some k \<longrightarrow> reachable_key ks k i)"

definition occupied :: "string option list \<Rightarrow> nat" where
  "occupied ks = length (filter (\<lambda>k. k \<noteq> None) ks)"

definition hm_wf :: "cxpr_hashmap \<Rightarrow> bool" where
  "hm_wf m \<longleftrightarrow> 0 < capacity m \<and> length (entries m) = capacity m \<and>
     count m = occupied (keys (entries m)) \<and> count m < capacity m \<and> tbl_ok (keys (entries m))"

definition es_abs :: "cxpr_hashmap_entry list \<Rightarrow> string \<Rightarrow> double option" where
  "es_abs es k = map_option val (List.find (\<lambda>e. key e = Some k) es)"

abbreviation hm_abs :: "cxpr_hashmap \<Rightarrow> string \<Rightarrow> double option" where
  "hm_abs m \<equiv> es_abs (entries m)"

section \<open>Probing\<close>

lemma hslot_less [simp]: "0 < n \<Longrightarrow> hslot n k d < n"
  by (simp add: hslot_def)

lemma hslot_Suc: "hslot n k (Suc d) = (hslot n k d + 1) mod n"
  by (simp add: hslot_def mod_Suc_eq)

lemma hslot_0 [simp]: "hslot n k 0 = unat (cxpr_hash_string k) mod n"
  by (simp add: hslot_def)

lemma hslot_reach:
  assumes "i < n"
  obtains d where "d < n" "hslot n k d = i"
proof -
  have "unat (cxpr_hash_string k) mod n < n" using assms by simp
  with assms show thesis
    by (elim ring_reach [of "unat (cxpr_hash_string k) mod n" n i]) (auto simp: hslot_def intro: that)
qed

lemma hslot_inj: "i < n \<Longrightarrow> j < n \<Longrightarrow> hslot n k i = hslot n k j \<Longrightarrow> i = j"
  using ring_inj [of i n j "unat (cxpr_hash_string k) mod n"] by (simp add: hslot_def)

text \<open>The probe walks \<open>hslot n k 0, hslot n k 1, \<dots>\<close> to the first slot that stops it.\<close>

lemma probe_key_walk:
  assumes "d < fuel" "\<And>c. c < d \<Longrightarrow> key (es ! hslot n k (a + c)) \<notin> {None, Some k}"
    and "key (es ! hslot n k (a + d)) \<in> {None, Some k}"
  shows "probe_key es n k fuel (hslot n k a) =
     (if key (es ! hslot n k (a + d)) = None then Free (hslot n k (a + d)) else Found (hslot n k (a + d)))"
  using assms
proof (induction d arbitrary: a fuel)
  case 0
  then obtain f where "fuel = Suc f" by (cases fuel) auto
  with 0 show ?case by auto
next
  case (Suc d)
  then obtain f where f: "fuel = Suc f" by (cases fuel) auto
  have now: "key (es ! hslot n k a) \<notin> {None, Some k}" using Suc.prems(2) [of 0] by simp
  have later: "key (es ! hslot n k (Suc a + c)) \<notin> {None, Some k}" if "c < d" for c
    using Suc.prems(2) [of "Suc c"] that by simp
  have "probe_key es n k f (hslot n k (Suc a)) =
     (if key (es ! hslot n k (Suc a + d)) = None then Free (hslot n k (Suc a + d))
      else Found (hslot n k (Suc a + d)))"
    by (rule Suc.IH) (use Suc.prems f later in auto)
  with now f show ?case by (auto simp: hslot_Suc split: option.splits)
qed

lemma probe_free_walk:
  assumes "d < fuel" "\<And>c. c < d \<Longrightarrow> key (es ! hslot n k (a + c)) \<noteq> None"
    and "key (es ! hslot n k (a + d)) = None"
  shows "probe_free es n fuel (hslot n k a) = Free (hslot n k (a + d))"
  using assms
proof (induction d arbitrary: a fuel)
  case 0
  then obtain f where "fuel = Suc f" by (cases fuel) auto
  with 0 show ?case by auto
next
  case (Suc d)
  then obtain f where f: "fuel = Suc f" by (cases fuel) auto
  have now: "key (es ! hslot n k a) \<noteq> None" using Suc.prems(2) [of 0] by simp
  have later: "key (es ! hslot n k (Suc a + c)) \<noteq> None" if "c < d" for c
    using Suc.prems(2) [of "Suc c"] that by simp
  have "probe_free es n f (hslot n k (Suc a)) = Free (hslot n k (Suc a + d))"
    by (rule Suc.IH) (use Suc.prems f later in auto)
  with now f show ?case by (auto simp: hslot_Suc)
qed

text \<open>A free slot exists, so the walk has a first one.\<close>

lemma first_free:
  assumes "i < length es" "key (es ! i) = None"
  obtains d where "d < length es" "key (es ! hslot (length es) k d) = None"
    "\<And>c. c < d \<Longrightarrow> key (es ! hslot (length es) k c) \<noteq> None"
proof -
  let ?P = "\<lambda>d. key (es ! hslot (length es) k d) = None"
  obtain e where e: "e < length es" "?P e"
    using hslot_reach [OF assms(1), of k] assms(2) by metis
  have "?P (LEAST d. ?P d)" using e(2) by (rule LeastI)
  moreover have "(LEAST d. ?P d) < length es" using Least_le [of ?P e] e by simp
  moreover have "\<not> ?P c" if "c < (LEAST d. ?P d)" for c using that by (rule not_less_Least)
  ultimately show thesis by (intro that)
qed

lemma probe_key_found:
  assumes "tbl_ok (keys es)" "i < length es" "key (es ! i) = Some k"
  shows "probe_key es (length es) k (length es) (unat (cxpr_hash_string k) mod length es) = Found i"
proof -
  have lt: "hslot (length es) k c < length es" for c using assms(2) by (intro hslot_less) auto
  have "reachable_key (keys es) k i" using assms by (auto simp: tbl_ok_def)
  then obtain d where d: "d < length es" "hslot (length es) k d = i"
      and occ: "\<And>c. c < d \<Longrightarrow> key (es ! hslot (length es) k c) \<noteq> None"
    using lt by (auto simp: reachable_key_def)
  have "key (es ! hslot (length es) k c) \<noteq> Some k" if "c < d" for c
  proof
    assume "key (es ! hslot (length es) k c) = Some k"
    then have "hslot (length es) k c = i" using lt [of c] assms by (auto simp: tbl_ok_def)
    with d that show False using hslot_inj [of c "length es" d k] by simp
  qed
  with occ d assms(3) show ?thesis
    using probe_key_walk [of d "length es" es "length es" k 0] by auto
qed

lemma probe_absent:
  assumes "i < length es" "key (es ! i) = None" "Some k \<notin> set (keys es)"
  obtains d where "d < length es" "key (es ! hslot (length es) k d) = None"
    "\<And>c. c < d \<Longrightarrow> key (es ! hslot (length es) k c) \<noteq> None"
    "probe_key es (length es) k (length es) (unat (cxpr_hash_string k) mod length es) =
       Free (hslot (length es) k d)"
    "probe_free es (length es) (length es) (unat (cxpr_hash_string k) mod length es) =
       Free (hslot (length es) k d)"
proof -
  obtain d where d: "d < length es" "key (es ! hslot (length es) k d) = None"
      "\<And>c. c < d \<Longrightarrow> key (es ! hslot (length es) k c) \<noteq> None"
    by (rule first_free [OF assms(1,2), of k]) blast
  have "hslot (length es) k c < length es" for c using assms(1) by (intro hslot_less) auto
  then have "key (es ! hslot (length es) k c) \<noteq> Some k" for c
    using assms(3) by (metis length_map nth_map nth_mem)
  with d show thesis
    using that probe_key_walk [of d "length es" es "length es" k 0]
      probe_free_walk [of d "length es" es "length es" k 0] by simp
qed

section \<open>Storing an entry\<close>

lemma tbl_ok_insert:
  assumes ok: "tbl_ok ks" and d: "d < length ks" "ks ! hslot (length ks) k d = None"
    and occ: "\<And>c. c < d \<Longrightarrow> ks ! hslot (length ks) k c \<noteq> None" and new: "Some k \<notin> set ks"
  shows "tbl_ok (ks[hslot (length ks) k d := Some k])" (is "tbl_ok ?ks'")
proof -
  let ?j = "hslot (length ks) k d"
  have j: "?j < length ks" using d(1) by (intro hslot_less) auto
  have mono: "?ks' ! c \<noteq> None" if "ks ! c \<noteq> None" for c
    using that j by (cases "c < length ks") (auto simp: nth_list_update)
  have path: "reachable_key ?ks' k' i" if "reachable_key ks k' i" for k' i
    using that mono unfolding reachable_key_def length_list_update by blast
  have "reachable_key ?ks' k ?j"
    unfolding reachable_key_def length_list_update using d(1) occ mono by blast
  moreover have "reachable_key ?ks' k' i" if "i < length ks" "?ks' ! i = Some k'" for i k'
  proof (cases "i = ?j")
    case True
    with that j calculation show ?thesis by simp
  next
    case False
    with that ok show ?thesis by (auto simp: tbl_ok_def intro: path)
  qed
  moreover have "i = i'" if "i < length ks" "i' < length ks" "?ks' ! i \<noteq> None" "?ks' ! i = ?ks' ! i'" for i i'
  proof -
    have fresh: "ks ! c \<noteq> Some k" if "c < length ks" for c using new nth_mem [OF that] by metis
    show ?thesis
      using that j ok fresh [of i] fresh [of i']
      by (cases "i = ?j"; cases "i' = ?j") (simp_all add: tbl_ok_def)
  qed
  ultimately show ?thesis unfolding tbl_ok_def length_list_update by blast
qed

lemma occupied_insert:
  "i < length ks \<Longrightarrow> ks ! i = None \<Longrightarrow> occupied (ks[i := Some k]) = Suc (occupied ks)"
  unfolding occupied_def by (rule filter_length_update_new) auto

lemma occupied_le: "occupied ks \<le> length ks"
  by (simp add: occupied_def)

lemma free_slot_ex:
  assumes "occupied (keys es) < length es"
  obtains i where "i < length es" "key (es ! i) = None"
  using filter_length_lt_ex [of "\<lambda>k. k \<noteq> None" "keys es"] assms by (auto simp: occupied_def)

lemma es_abs_Some:
  assumes "tbl_ok (keys es)" "i < length es" "key (es ! i) = Some k"
  shows "es_abs es k = Some (val (es ! i))"
proof -
  have "List.find (\<lambda>e. key e = Some k) es \<noteq> None"
    using assms(2,3) nth_mem [OF assms(2)] by (metis (mono_tags, lifting) find_None_iff)
  then obtain j where j: "List.find (\<lambda>e. key e = Some k) es = Some (es ! j)" "j < length es"
      "key (es ! j) = Some k"
    by (auto simp: find_Some_iff)
  with assms have "j = i" by (auto simp: tbl_ok_def)
  with j show ?thesis by (simp add: es_abs_def)
qed

lemma es_abs_None: "es_abs es k = None \<longleftrightarrow> Some k \<notin> set (keys es)"
  by (force simp: es_abs_def find_None_iff)

lemma es_abs_iff:
  assumes "tbl_ok (keys es)"
  shows "es_abs es k = Some v \<longleftrightarrow> (\<exists>i < length es. key (es ! i) = Some k \<and> val (es ! i) = v)"
proof
  assume "es_abs es k = Some v"
  then show "\<exists>i < length es. key (es ! i) = Some k \<and> val (es ! i) = v"
    by (auto simp: es_abs_def find_Some_iff)
next
  assume "\<exists>i < length es. key (es ! i) = Some k \<and> val (es ! i) = v"
  with es_abs_Some [OF assms] show "es_abs es k = Some v" by auto
qed

lemma es_abs_insert:
  assumes "tbl_ok (keys (es[i := \<lparr>key = Some k, val = v\<rparr>]))" "i < length es"
    and "key (es ! i) = None" "tbl_ok (keys es)"
  shows "es_abs (es[i := \<lparr>key = Some k, val = v\<rparr>]) = (es_abs es)(k \<mapsto> v)"
proof (rule ext)
  fix k'
  let ?es = "es[i := \<lparr>key = Some k, val = v\<rparr>]"
  show "es_abs ?es k' = ((es_abs es)(k \<mapsto> v)) k'"
  proof (cases "k' = k")
    case True
    have "es_abs ?es k = Some v" using assms es_abs_Some [OF assms(1), of i k] by simp
    with True show ?thesis by simp
  next
    case False
    have "(\<exists>j < length ?es. key (?es ! j) = Some k' \<and> val (?es ! j) = w) \<longleftrightarrow>
        (\<exists>j < length es. key (es ! j) = Some k' \<and> val (es ! j) = w)" for w
      using False assms(2,3) by (auto simp: nth_list_update) (metis option.distinct(1))
    then have "es_abs ?es k' = Some w \<longleftrightarrow> es_abs es k' = Some w" for w
      using es_abs_iff [OF assms(1)] es_abs_iff [OF assms(4)] by simp
    with False show ?thesis by (metis fun_upd_other not_None_eq)
  qed
qed

lemma keys_update: "keys (es[i := e]) = (keys es)[i := key e]"
  by (rule map_update)

text \<open>One free slot is enough to store a new key: the table stays in order and gains one binding.\<close>

lemma store_entry:
  assumes ok: "tbl_ok (keys es)" and room: "occupied (keys es) < length es"
    and new: "Some k \<notin> set (keys es)"
  obtains i where "probe_free es (length es) (length es) (unat (cxpr_hash_string k) mod length es) = Free i"
    "i < length es" "key (es ! i) = None"
    "tbl_ok (keys (es[i := \<lparr>key = Some k, val = v\<rparr>]))"
    "occupied (keys (es[i := \<lparr>key = Some k, val = v\<rparr>])) = Suc (occupied (keys es))"
    "es_abs (es[i := \<lparr>key = Some k, val = v\<rparr>]) = (es_abs es)(k \<mapsto> v)"
proof -
  obtain i where "i < length es" "key (es ! i) = None" using free_slot_ex [OF room] by blast
  then obtain d where d: "d < length es" "key (es ! hslot (length es) k d) = None"
      and occ: "\<And>c. c < d \<Longrightarrow> key (es ! hslot (length es) k c) \<noteq> None"
      and pr: "probe_free es (length es) (length es) (unat (cxpr_hash_string k) mod length es) =
        Free (hslot (length es) k d)"
    using new by (rule probe_absent) blast
  let ?j = "hslot (length es) k d"
  have lt: "hslot (length es) k c < length es" for c using d(1) by (intro hslot_less) auto
  have "tbl_ok ((keys es)[hslot (length (keys es)) k d := Some k])"
    using ok d occ new lt by (intro tbl_ok_insert) auto
  then have ok': "tbl_ok (keys (es[?j := \<lparr>key = Some k, val = v\<rparr>]))"
    by (simp add: keys_update)
  have "occupied (keys (es[?j := \<lparr>key = Some k, val = v\<rparr>])) = Suc (occupied (keys es))"
    using lt [of d] d(2) by (simp add: keys_update occupied_insert)
  moreover have "es_abs (es[?j := \<lparr>key = Some k, val = v\<rparr>]) = (es_abs es)(k \<mapsto> v)"
    using ok' lt d(2) ok by (rule es_abs_insert)
  ultimately show thesis using that [OF pr lt d(2) ok'] by blast
qed

section \<open>Growing\<close>

lemma tbl_ok_distinct:
  assumes "tbl_ok ks"
  shows "distinct (filter (\<lambda>k. k \<noteq> None) ks)"
proof -
  have "distinct (filter (\<lambda>k. k \<noteq> None) ks)"
    if "\<forall>i < length ks. \<forall>j < length ks. ks ! i \<noteq> None \<and> ks ! i = ks ! j \<longrightarrow> i = j" for ks :: "string option list"
    using that
  proof (induction ks)
    case (Cons x ks)
    have "\<forall>i < length ks. \<forall>j < length ks. ks ! i \<noteq> None \<and> ks ! i = ks ! j \<longrightarrow> i = j"
      using Cons.prems by (metis Suc_less_eq length_Cons nat.inject nth_Cons_Suc)
    moreover have "x \<notin> set ks" if "x \<noteq> None"
    proof
      assume "x \<in> set ks"
      then obtain j where "j < length ks" "ks ! j = x" by (auto simp: in_set_conv_nth)
      then show False
        using Cons.prems [rule_format, of 0 "Suc j"] that by simp
    qed
    ultimately show ?case using Cons.IH by auto
  qed simp
  with assms show ?thesis unfolding tbl_ok_def by blast
qed

lemma es_abs_Nil [simp]: "es_abs [] = Map.empty"
  by (rule ext) (simp add: es_abs_def)

lemma es_abs_Cons: "es_abs (e # es) k = (if key e = Some k then Some (val e) else es_abs es k)"
  by (simp add: es_abs_def)

lemma es_abs_Cons_None: "key e = None \<Longrightarrow> es_abs (e # es) = es_abs es"
  by (rule ext) (simp add: es_abs_Cons)

lemma rehash_all_ok:
  assumes "length ne = cap" "tbl_ok (keys ne)" "occupied (keys ne) + occupied (keys es) < cap"
    and "distinct (filter (\<lambda>k. k \<noteq> None) (keys es))"
    and "\<And>k. Some k \<in> set (keys es) \<Longrightarrow> Some k \<notin> set (keys ne)"
  shows "\<exists>ne'. rehash_all cap ne es = Some ne' \<and> length ne' = cap \<and> tbl_ok (keys ne') \<and>
     occupied (keys ne') = occupied (keys ne) + occupied (keys es) \<and>
     es_abs ne' = es_abs ne ++ es_abs es"
  using assms
proof (induction es arbitrary: ne)
  case Nil
  then show ?case by (simp add: occupied_def)
next
  case (Cons e es)
  show ?case
  proof (cases "key e")
    case None
    with Cons.IH [of ne] Cons.prems show ?thesis by (simp add: occupied_def es_abs_Cons_None)
  next
    case (Some k)
    then have e: "e = \<lparr>key = Some k, val = val e\<rparr>" by simp
    have new: "Some k \<notin> set (keys ne)" using Cons.prems(5) [of k] Some by simp
    have k_es: "Some k \<notin> set (keys es)" using Cons.prems(4) Some by auto
    have room: "occupied (keys ne) < length ne" using Cons.prems by simp
    obtain i where i: "probe_free ne (length ne) (length ne) (unat (cxpr_hash_string k) mod length ne) = Free i"
        "i < length ne" "key (ne ! i) = None" "tbl_ok (keys (ne[i := e]))"
        "occupied (keys (ne[i := e])) = Suc (occupied (keys ne))"
        "es_abs (ne[i := e]) = (es_abs ne)(k \<mapsto> val e)"
      using store_entry [OF Cons.prems(2) room new, of "val e"] e by metis
    have step: "rehash_entry cap ne e = Some (ne[i := e])"
      using i(1) Cons.prems(1) Some by simp
    have "\<exists>ne'. rehash_all cap (ne[i := e]) es = Some ne' \<and> length ne' = cap \<and> tbl_ok (keys ne') \<and>
       occupied (keys ne') = occupied (keys (ne[i := e])) + occupied (keys es) \<and>
       es_abs ne' = es_abs (ne[i := e]) ++ es_abs es"
    proof (rule Cons.IH)
      show "Some k' \<notin> set (keys (ne[i := e]))" if "Some k' \<in> set (keys es)" for k'
        using that Cons.prems(5) [of k'] k_es Some set_update_subset_insert [of "keys ne" i "key e"]
        by (auto simp: keys_update)
    qed (use Cons.prems i Some in \<open>auto simp: occupied_def\<close>)
    moreover have "es_abs ne ++ es_abs (e # es) = (es_abs ne)(k \<mapsto> val e) ++ es_abs es"
    proof (rule ext)
      fix k'
      have "es_abs es k = None" using k_es by (simp only: es_abs_None not_False_eq_True)
      then show "(es_abs ne ++ es_abs (e # es)) k' = ((es_abs ne)(k \<mapsto> val e) ++ es_abs es) k'"
        using Some by (auto simp: map_add_def es_abs_Cons split: option.splits)
    qed
    ultimately show ?thesis using step i Some by (simp add: occupied_def)
  qed
qed

lemma tbl_ok_replicate [simp]: "tbl_ok (replicate n None)"
  by (simp add: tbl_ok_def)

lemma occupied_replicate [simp]: "occupied (replicate n None) = 0"
  by (simp add: occupied_def)

lemma es_abs_replicate [simp]: "es_abs (replicate n empty_entry) = Map.empty"
  by (rule ext) (induction n, simp_all add: es_abs_Cons empty_entry_def)

lemma key_empty_entry [simp]: "key empty_entry = None"
  by (simp add: empty_entry_def)

lemma grow_ok:
  assumes wf: "hm_wf m" and cap: "capacity m \<le> SIZE_MAX div 2"
    and mem: "mem (capacity m * 2 * sizeof_entry)"
  obtains m' where "cxpr_hashmap_grow mem m = Some (m', True)" "capacity m' = 2 * capacity m"
    "hm_wf m'" "hm_abs m' = hm_abs m" "count m' = count m"
proof -
  let ?n = "capacity m * 2"
  have "\<exists>ne'. rehash_all ?n (replicate ?n empty_entry) (entries m) = Some ne' \<and> length ne' = ?n \<and>
      tbl_ok (keys ne') \<and>
      occupied (keys ne') = occupied (keys (replicate ?n empty_entry)) + occupied (keys (entries m)) \<and>
      es_abs ne' = es_abs (replicate ?n empty_entry) ++ es_abs (entries m)"
    using wf tbl_ok_distinct by (intro rehash_all_ok) (auto simp: hm_wf_def)
  then obtain ne where "rehash_all ?n (replicate ?n empty_entry) (entries m) = Some ne" "length ne = ?n"
      "tbl_ok (keys ne)" "occupied (keys ne) = occupied (keys (entries m))" "es_abs ne = hm_abs m"
    by auto
  with wf cap mem show thesis
    by (intro that [of "m\<lparr>entries := ne, capacity := ?n\<rparr>"])
       (auto simp: cxpr_hashmap_grow_def hm_wf_def Let_def)
qed

section \<open>The load test\<close>

text \<open>A rounded quotient of \<open>n \<ge> d\<close> is at least one, hence above the load factor.\<close>

lemma load_lt_ratio:
  assumes "0 < d" "d \<le> n"
  shows "dbl_lt CXPR_HASHMAP_LOAD_FACTOR (dbl_of_ratio False n d)"
proof -
  define e where "e = ratio_exp n d"
  define m where "m = div_rne (scale_num n e) (scale_den d e)"
  have n: "0 < n" using assms by simp
  have fits: "exp_fits n d e" using ratio_exp_fits n assms(1) by (simp add: e_def)
  have m: "quot_at n d e \<le> m" "m \<le> 2 ^ 53"
    using fits div_rne_bounds [of "scale_num n e" "scale_den d e"]
    unfolding m_def quot_at_def exp_fits_def by auto
  have one: "pow2 (- e) \<le> m * pow2 e"
  proof (cases "e \<le> 0")
    case True
    then have "pow2 (- e) * scale_den d e \<le> scale_num n e"
      using assms(2) by (simp add: scale_num_def scale_den_def pow2.simps [of e])
    then have "pow2 (- e) \<le> quot_at n d e"
      using assms(1) by (simp add: quot_at_def int_le_divI)
    with m True show ?thesis by (simp add: pow2.simps [of e])
  next
    case False
    with fits m have "1 \<le> m" by (auto simp: exp_fits_def)
    with False show ?thesis
      using mult_mono [of 1 m 1 "pow2 e"] by (simp add: pow2.simps [of "- e"] int_one_le_iff_zero_less)
  qed
  have lt: "dbl_lt CXPR_HASHMAP_LOAD_FACTOR (DFin False m' e')"
    if "pow2 (- e') \<le> m' * pow2 e'" "- 53 \<le> e'" for m' e'
  proof -
    have "pow2 (- e') * pow2 (e' + 53) \<le> m' * pow2 e' * pow2 (e' + 53)"
      using that(1) by (intro mult_right_mono) simp_all
    moreover have "pow2 (- e') * pow2 (e' + 53) = pow2 e' * 2 ^ 53"
    proof -
      have "nat (- e') + nat (e' + 53) = nat e' + 53" using that(2) by linarith
      then show ?thesis by (simp only: pow2_eq power_add [symmetric])
    qed
    ultimately have "pow2 e' * 2 ^ 53 \<le> pow2 e' * (m' * pow2 (e' + 53))" by (simp add: ac_simps)
    then have "2 ^ 53 \<le> m' * pow2 (e' + 53)" by (simp only: mult_le_cancel_left_pos pow2_pos)
    with that(2) show ?thesis
      by (simp add: CXPR_HASHMAP_LOAD_FACTOR_def signed_def align_def Let_def min_def pow2.simps [of 0])
  qed
  have e_low: "- 53 \<le> e"
  proof (rule ccontr)
    assume "\<not> - 53 \<le> e"
    then have "nat (- e) = 54 + nat (- e - 54)" "pow2 e = 1" by (simp_all add: pow2.simps [of e])
    then have "(2::int) ^ 54 \<le> m"
      using one unfolding pow2_eq by (simp add: power_add) (smt (verit) one_le_power)
    with m(2) show False by simp
  qed
  show ?thesis
  proof (cases "m = 2 ^ 53")
    case True
    then have "pow2 (- (e + 1)) \<le> 2 ^ 52 * pow2 (e + 1)"
    proof -
      have "pow2 (- (e + 1)) \<le> 2 ^ 52"
        using e_low unfolding pow2_eq by (intro power_increasing) auto
      also have "\<dots> \<le> 2 ^ 52 * pow2 (e + 1)"
        using pow2_pos [of "e + 1"] by simp
      finally show ?thesis .
    qed
    with True lt [of "e + 1" "2 ^ 52"] e_low n show ?thesis
      by (simp add: dbl_of_ratio_def dbl_pack_def Let_def e_def [symmetric] m_def [symmetric]
          CXPR_HASHMAP_LOAD_FACTOR_def)
  next
    case False
    with lt [OF one e_low] n show ?thesis
      by (simp add: dbl_of_ratio_def dbl_pack_def Let_def e_def [symmetric] m_def [symmetric]
          CXPR_HASHMAP_LOAD_FACTOR_def)
  qed
qed

lemma over_load_full:
  assumes "capacity m \<le> count m + 1" "0 < capacity m" "count m + 1 < 2 ^ 53"
  shows "over_load m"
proof -
  have "0 < int (count m + 1)" "int (count m + 1) < 2 ^ 53" "0 < int (capacity m)" "int (capacity m) < 2 ^ 53"
    using assms by simp_all
  then obtain t where "0 < t" and eq: "dbl_div (dbl_of_int (int (count m + 1))) (dbl_of_int (int (capacity m)))
      = dbl_of_ratio False (int (count m + 1) * t) (int (capacity m) * t)"
    using dbl_div_of_int by metis
  then have "dbl_lt CXPR_HASHMAP_LOAD_FACTOR (dbl_of_ratio False (int (count m + 1) * t) (int (capacity m) * t))"
    using assms(1,2) by (intro load_lt_ratio mult_right_mono) auto
  with eq show ?thesis by (simp only: over_load_def)
qed

text \<open>A quotient of at most one half rounds to at most one half, below the load factor.\<close>

lemma div_rne_le:
  assumes "0 < d" "n \<le> K * d"
  shows "div_rne n d \<le> K"
proof (cases "n = K * d")
  case True
  with assms(1) show ?thesis by (simp add: div_rne_def Let_def)
next
  case False
  with assms have "n div d < K" by (intro int_div_lessI) auto
  then show ?thesis using div_rne_bounds(2) [of n d] by simp
qed

lemma load_ge_ratio:
  assumes "0 < n" "2 * n \<le> d"
  shows "\<not> dbl_lt CXPR_HASHMAP_LOAD_FACTOR (dbl_of_ratio False n d)"
proof -
  define e where "e = ratio_exp n d"
  define m where "m = div_rne (scale_num n e) (scale_den d e)"
  have d: "0 < d" using assms by simp
  have fits: "exp_fits n d e" using ratio_exp_fits assms d by (simp add: e_def)
  have e: "e < 0"
  proof (rule ccontr)
    assume ge: "\<not> e < 0"
    have "1 * n \<le> d * pow2 e" using assms ge by (intro order_trans [OF _ mult_mono [of d d 1 "pow2 e"]]) auto
    then have "quot_at n d e \<le> 1"
      using ge zdiv_mono1 [of n "1 * (d * pow2 e)" "d * pow2 e"] d
      by (simp add: quot_at_def scale_num_def scale_den_def pow2.simps [of "- e"])
    with fits ge show False by (auto simp: exp_fits_def)
  qed
  have m: "m \<le> pow2 (- e - 1)" unfolding m_def
  proof (rule div_rne_le)
    have "nat (- e) = Suc (nat (- e - 1))" using e by simp
    then have "pow2 (- e) = 2 * pow2 (- e - 1)" by (simp add: pow2_eq)
    then show "scale_num n e \<le> pow2 (- e - 1) * scale_den d e"
      using assms(2) e by (simp add: scale_num_def scale_den_def pow2.simps [of e] ac_simps)
  qed (use d in simp)
  have not: "\<not> dbl_lt CXPR_HASHMAP_LOAD_FACTOR (DFin False m' e')"
    if "m' \<le> pow2 (- e' - 1)" "e' < 0" for m' e'
  proof -
    let ?e0 = "min (- 53) e'"
    have "m' * pow2 (e' - ?e0) \<le> pow2 (- e' - 1) * pow2 (e' - ?e0)"
      using that(1) by (intro mult_right_mono) simp_all
    also have "\<dots> = pow2 (- 1 - ?e0)"
    proof -
      have "nat (- e' - 1) + nat (e' - ?e0) = nat (- 1 - ?e0)"
        using that(2) by (cases "- 53 \<le> e'"; simp add: min_def; linarith)
      then show ?thesis by (simp only: pow2_eq power_add [symmetric])
    qed
    also have "pow2 (- 1 - ?e0) \<le> 6755399441055744 * pow2 (- 53 - ?e0)"
    proof -
      have "nat (- 1 - ?e0) = 52 + nat (- 53 - ?e0)"
        by (cases "- 53 \<le> e'"; simp add: min_def; linarith)
      then show ?thesis by (simp add: pow2_eq power_add)
    qed
    finally show ?thesis
      by (simp add: CXPR_HASHMAP_LOAD_FACTOR_def signed_def align_def Let_def)
  qed
  have "m \<noteq> 2 ^ 53 \<or> e + 1 < 0"
  proof (rule ccontr)
    assume "\<not> (m \<noteq> 2 ^ 53 \<or> e + 1 < 0)"
    then have "- e - 1 \<le> 0" "m = 2 ^ 53" by auto
    with m show False by (simp add: pow2.simps [of "- e - 1"])
  qed
  moreover have "\<not> dbl_lt CXPR_HASHMAP_LOAD_FACTOR (DFin False (2 ^ 52) (e + 1))" if "m = 2 ^ 53" "e + 1 < 0"
  proof (rule not)
    have "nat (- e - 1) = Suc (nat (- (e + 1) - 1))" using that(2) by simp
    then show "2 ^ 52 \<le> pow2 (- (e + 1) - 1)" using m that by (simp add: pow2_eq)
  qed (rule that(2))
  ultimately show ?thesis
    using not [OF m e] e assms(1)
    by (auto simp: dbl_of_ratio_def dbl_pack_def Let_def e_def [symmetric] m_def [symmetric])
qed

lemma over_load_half:
  assumes "2 * (count m + 1) \<le> capacity m" "capacity m < 2 ^ 53"
  shows "\<not> over_load m"
proof -
  have "0 < int (count m + 1)" "int (count m + 1) < 2 ^ 53" "0 < int (capacity m)" "int (capacity m) < 2 ^ 53"
    using assms by simp_all
  then obtain t where "0 < t" and eq: "dbl_div (dbl_of_int (int (count m + 1))) (dbl_of_int (int (capacity m)))
      = dbl_of_ratio False (int (count m + 1) * t) (int (capacity m) * t)"
    using dbl_div_of_int by metis
  have "2 * (int (count m + 1) * t) \<le> int (capacity m) * t"
    unfolding mult.assoc [symmetric] using assms(1) \<open>0 < t\<close> by (intro mult_right_mono) auto
  then have "\<not> dbl_lt CXPR_HASHMAP_LOAD_FACTOR (dbl_of_ratio False (int (count m + 1) * t) (int (capacity m) * t))"
    using \<open>0 < t\<close> by (intro load_ge_ratio) auto
  with eq show ?thesis unfolding over_load_def by metis
qed

section \<open>The operations on a well-formed table\<close>

text \<open>The invariant of a map that started empty: doubling keeps the table at most four times
  as large as its contents.\<close>

definition hm_inv :: "cxpr_hashmap \<Rightarrow> bool" where
  "hm_inv m \<longleftrightarrow> hm_wf m \<and> capacity m \<le> max 32 (4 * count m)"

text \<open>The number of keys up to which the counters stay exact in \<open>double\<close>.\<close>

abbreviation hm_limit :: nat where "hm_limit \<equiv> 2 ^ 50"

lemma occupied_pos: "Some k \<in> set ks \<Longrightarrow> 0 < occupied ks"
  by (auto simp: occupied_def filter_empty_conv)

text \<open>The probe loop from the hash of \<open>k\<close>: the key's slot, or a free one.\<close>

lemma probe_wf_found:
  assumes "hm_wf m" "i < capacity m" "key (entries m ! i) = Some k"
  shows "probe_key (entries m) (capacity m) k (capacity m) (unat (cxpr_hash_string k) mod capacity m) = Found i"
    and "entries m \<noteq> []" "count m \<noteq> 0"
proof -
  show "probe_key (entries m) (capacity m) k (capacity m) (unat (cxpr_hash_string k) mod capacity m) = Found i"
    using probe_key_found [of "entries m" i k] assms by (simp add: hm_wf_def)
  have "Some k \<in> set (keys (entries m))"
    using assms nth_mem [of i "keys (entries m)"] by (simp add: hm_wf_def)
  with occupied_pos assms(1) show "entries m \<noteq> []" "count m \<noteq> 0" by (auto simp: hm_wf_def)
qed

lemma probe_wf_absent:
  assumes "hm_wf m" "Some k \<notin> set (keys (entries m))"
  obtains i where
    "probe_key (entries m) (capacity m) k (capacity m) (unat (cxpr_hash_string k) mod capacity m) = Free i"
proof -
  obtain i where "i < length (entries m)" "key (entries m ! i) = None"
    using assms(1) free_slot_ex [of "entries m"] by (auto simp: hm_wf_def)
  then obtain j where "probe_key (entries m) (length (entries m)) k (length (entries m))
      (unat (cxpr_hash_string k) mod length (entries m)) = Free j"
    using probe_absent [OF _ _ assms(2)] by metis
  with assms(1) show thesis by (intro that) (simp add: hm_wf_def)
qed

lemma key_slot:
  assumes "hm_wf m" "Some k \<in> set (keys (entries m))"
  obtains i where "i < capacity m" "key (entries m ! i) = Some k"
  using assms by (auto simp: hm_wf_def) (metis in_set_conv_nth)

lemma find_slot_found:
  assumes "hm_wf m" "i < capacity m" "key (entries m ! i) = Some k"
  shows "cxpr_hashmap_find_prehashed_slot m k (cxpr_hash_string k) = Some (Some i)"
  using probe_wf_found [OF assms] by (simp add: cxpr_hashmap_find_prehashed_slot_def)

lemma find_slot_absent:
  assumes "hm_wf m" "Some k \<notin> set (keys (entries m))"
  shows "cxpr_hashmap_find_prehashed_slot m k (cxpr_hash_string k) = Some None"
proof -
  obtain i where
    "probe_key (entries m) (capacity m) k (capacity m) (unat (cxpr_hash_string k) mod capacity m) = Free i"
    using assms by (rule probe_wf_absent)
  then show ?thesis by (simp add: cxpr_hashmap_find_prehashed_slot_def)
qed

lemma get_wf:
  assumes "hm_wf m"
  shows "cxpr_hashmap_get m k =
     Some (case hm_abs m k of None \<Rightarrow> (dbl_zero, False) | Some v \<Rightarrow> (v, True))"
proof (cases "Some k \<in> set (keys (entries m))")
  case True
  then obtain i where i: "i < capacity m" "key (entries m ! i) = Some k"
    using key_slot assms by blast
  with assms have "hm_abs m k = Some (val (entries m ! i))"
    by (intro es_abs_Some) (auto simp: hm_wf_def)
  with probe_wf_found [OF assms i] show ?thesis
    by (simp add: cxpr_hashmap_get_def cxpr_hashmap_get_prehashed_def)
next
  case False
  then have "hm_abs m k = None" using es_abs_None by blast
  moreover obtain i where
    "probe_key (entries m) (capacity m) k (capacity m) (unat (cxpr_hash_string k) mod capacity m) = Free i"
    using assms False by (rule probe_wf_absent)
  ultimately show ?thesis
    by (simp add: cxpr_hashmap_get_def cxpr_hashmap_get_prehashed_def)
qed

text \<open>Overwriting the value of a stored key touches no key.\<close>

lemma update_val:
  fixes m :: cxpr_hashmap and v :: double
  assumes "hm_wf m" "i < capacity m" "key (entries m ! i) = Some k"
  defines "m' \<equiv> m\<lparr>entries := (entries m)[i := (entries m ! i)\<lparr>val := v\<rparr>]\<rparr>"
  shows "hm_wf m'" "hm_abs m' = (hm_abs m)(k \<mapsto> v)"
proof -
  have ks: "keys (entries m') = keys (entries m)"
    using assms(3) by (simp add: m'_def keys_update list_update_same_conv)
      (metis list_update_id map_update)
  show wf: "hm_wf m'" using assms(1) by (simp add: hm_wf_def ks) (simp add: m'_def)
  show "hm_abs m' = (hm_abs m)(k \<mapsto> v)"
  proof (rule ext)
    fix k'
    have ok: "tbl_ok (keys (entries m))" "tbl_ok (keys (entries m'))"
      using assms(1) by (simp_all add: hm_wf_def ks)
    have len: "i < length (entries m)" using assms by (simp add: hm_wf_def)
    show "hm_abs m' k' = ((hm_abs m)(k \<mapsto> v)) k'"
    proof (cases "k' = k")
      case True
      have "hm_abs m' k = Some (val (entries m' ! i))"
        using ok(2) len assms(3) by (intro es_abs_Some) (simp_all add: m'_def)
      with True len show ?thesis by (simp add: m'_def)
    next
      case False
      have "hm_abs m' k' = Some w \<longleftrightarrow> hm_abs m k' = Some w" for w
        unfolding es_abs_iff [OF ok(1)] es_abs_iff [OF ok(2)] using False len assms(3)
        by (auto simp: m'_def nth_list_update split: if_splits)
      with False show ?thesis by (metis fun_upd_other not_None_eq)
    qed
  qed
qed

text \<open>Storing a new key where a second free slot remains.\<close>

lemma store_new_ok:
  assumes "hm_wf m" "count m + 1 < capacity m" "Some k \<notin> set (keys (entries m))" "mem (length k + 1)"
  obtains m' where "store_new mem m k (cxpr_hash_string k) v = Some (m', True)" "hm_wf m'"
    "hm_abs m' = (hm_abs m)(k \<mapsto> v)" "count m' = Suc (count m)" "capacity m' = capacity m"
proof -
  have "tbl_ok (keys (entries m))" "occupied (keys (entries m)) < length (entries m)"
    and len: "length (entries m) = capacity m"
    using assms by (auto simp: hm_wf_def)
  then obtain i where i:
      "probe_free (entries m) (capacity m) (capacity m) (unat (cxpr_hash_string k) mod capacity m) = Free i"
      "i < capacity m" "tbl_ok (keys ((entries m)[i := \<lparr>key = Some k, val = v\<rparr>]))"
      "occupied (keys ((entries m)[i := \<lparr>key = Some k, val = v\<rparr>])) = Suc (occupied (keys (entries m)))"
      "es_abs ((entries m)[i := \<lparr>key = Some k, val = v\<rparr>]) = (hm_abs m)(k \<mapsto> v)"
    using store_entry [of "entries m" k v] assms(3) by metis
  with assms len show thesis
    by (intro that [of "m\<lparr>entries := (entries m)[i := \<lparr>key = Some k, val = v\<rparr>], count := count m + 1\<rparr>"])
       (simp_all add: store_new_def cxpr_strdup_def hm_wf_def)
qed

lemma set_new_ok:
  assumes inv: "hm_inv m" "count m < hm_limit" and new: "Some k \<notin> set (keys (entries m))"
    and mem: "\<And>n. mem n"
  obtains m' where "cxpr_hashmap_set mem m k v = Some (m', True)" "hm_inv m'"
    "hm_abs m' = (hm_abs m)(k \<mapsto> v)" "count m' = Suc (count m)"
proof -
  have wf: "hm_wf m" and cap: "capacity m \<le> max 32 (4 * count m)" using inv(1) by (auto simp: hm_inv_def)
  have small: "capacity m < 2 ^ 53" using cap inv(2) by simp
  have lt: "count m < capacity m" using wf by (simp add: hm_wf_def)
  note absent = find_slot_absent [OF wf new]
  show thesis
  proof (cases "over_load m")
    case False
    have room: "count m + 1 < capacity m"
    proof (rule ccontr)
      assume "\<not> count m + 1 < capacity m"
      with small lt have "over_load m" by (intro over_load_full) auto
      with False show False ..
    qed
    obtain m' where m': "store_new mem m k (cxpr_hash_string k) v = Some (m', True)" "hm_wf m'"
        "hm_abs m' = (hm_abs m)(k \<mapsto> v)" "count m' = Suc (count m)" "capacity m' = capacity m"
      by (rule store_new_ok [where mem = mem and v = v, OF wf room new mem])
    with False absent cap show thesis
      by (intro that [of m']) (simp_all add: cxpr_hashmap_set_def hm_inv_def)
  next
    case True
    then have big: "capacity m < 2 * (count m + 1)"
      using over_load_half [OF _ small] by (meson not_le)
    have half: "capacity m \<le> SIZE_MAX div 2" using small by simp
    obtain g where g: "cxpr_hashmap_grow mem m = Some (g, True)" "capacity g = 2 * capacity m"
        "hm_wf g" "hm_abs g = hm_abs m" "count g = count m"
      by (rule grow_ok [where mem = mem, OF wf half mem])
    have new': "Some k \<notin> set (keys (entries g))" using g(4) new es_abs_None by metis
    have room: "count g + 1 < capacity g" using g lt by simp
    obtain m' where m': "store_new mem g k (cxpr_hash_string k) v = Some (m', True)" "hm_wf m'"
        "hm_abs m' = (hm_abs g)(k \<mapsto> v)" "count m' = Suc (count g)" "capacity m' = capacity g"
      by (rule store_new_ok [where mem = mem and v = v, OF g(3) room new' mem])
    moreover have "hm_inv m'" using m' g big by (simp add: hm_inv_def)
    ultimately show thesis using True absent g
      by (intro that [of m']) (simp_all add: cxpr_hashmap_set_def)
  qed
qed

lemma set_old_ok:
  assumes inv: "hm_inv m" and old: "Some k \<in> set (keys (entries m))"
  obtains m' where "cxpr_hashmap_set mem m k v = Some (m', False)" "hm_inv m'"
    "hm_abs m' = (hm_abs m)(k \<mapsto> v)" "count m' = count m"
proof -
  have wf: "hm_wf m" using inv by (simp add: hm_inv_def)
  obtain i where i: "i < capacity m" "key (entries m ! i) = Some k" using wf old by (rule key_slot)
  let ?m = "m\<lparr>entries := (entries m)[i := (entries m ! i)\<lparr>val := v\<rparr>]\<rparr>"
  show thesis
    using that [of ?m] update_val [OF wf i, of v] find_slot_found [OF wf i] inv
    by (simp add: cxpr_hashmap_set_def hm_inv_def)
qed

lemma set_prehashed_eq:
  "cxpr_hashmap_set_prehashed mem m k (cxpr_hash_string k) v = cxpr_hashmap_set mem m k v"
  by (simp add: cxpr_hashmap_set_prehashed_def cxpr_hashmap_set_def Let_def)

lemma init_inv:
  assumes "mem 512"
  shows "hm_inv (cxpr_hashmap_init mem)" "hm_abs (cxpr_hashmap_init mem) = Map.empty"
    "count (cxpr_hashmap_init mem) = 0"
  using assms
  by (simp_all add: cxpr_hashmap_init_def CXPR_HASHMAP_INITIAL_CAPACITY_def hm_inv_def hm_wf_def)

section \<open>The interface of a string store\<close>

text \<open>A sequence of stores, as the setters of a context issue them.\<close>

fun store_all :: "('m \<Rightarrow> string \<Rightarrow> double \<Rightarrow> ('m \<times> bool) option) \<Rightarrow> 'm \<Rightarrow> (string \<times> double) list
    \<Rightarrow> 'm option" where
  "store_all st m [] = Some m"
| "store_all st m ((k, v) # kvs) =
     (case st m k v of None \<Rightarrow> None | Some (m', _) \<Rightarrow> store_all st m' kvs)"

text \<open>What the clients of the hash map rely on: it behaves as a finite map as long as the number
  of keys stays within a limit.\<close>

locale string_store =
  fixes invar :: "'m \<Rightarrow> bool"
    and abs :: "'m \<Rightarrow> string \<Rightarrow> double option"
    and size :: "'m \<Rightarrow> nat"
    and limit :: nat
    and new :: 'm
    and st :: "'m \<Rightarrow> string \<Rightarrow> double \<Rightarrow> ('m \<times> bool) option"
    and get :: "'m \<Rightarrow> string \<Rightarrow> (double \<times> bool) option"
  assumes new_invar: "invar new" and new_abs: "abs new = Map.empty" and new_size: "size new = 0"
    and st_ok: "invar m \<Longrightarrow> size m < limit \<Longrightarrow>
      \<exists>m'. st m k v = Some (m', abs m k = None) \<and> invar m' \<and> abs m' = (abs m)(k \<mapsto> v) \<and>
           size m' \<le> Suc (size m)"
    and get_ok: "invar m \<Longrightarrow>
      get m k = Some (case abs m k of None \<Rightarrow> (dbl_zero, False) | Some v \<Rightarrow> (v, True))"
begin

lemma store_all_abs:
  assumes "invar m" "size m + length kvs \<le> limit"
  shows "\<exists>m'. store_all st m kvs = Some m' \<and> invar m' \<and> abs m' = abs m ++ map_of (rev kvs)"
  using assms
proof (induction kvs arbitrary: m)
  case Nil
  then show ?case by simp
next
  case (Cons kv kvs)
  obtain k v where kv: "kv = (k, v)" by (cases kv)
  obtain m' where m': "st m k v = Some (m', abs m k = None)" "invar m'" "abs m' = (abs m)(k \<mapsto> v)"
      "size m' \<le> Suc (size m)"
    using st_ok [of m k v] Cons.prems by auto
  moreover have "size m' + length kvs \<le> limit" using m'(4) Cons.prems(2) by simp
  ultimately obtain m'' where "store_all st m' kvs = Some m''" "invar m''"
      "abs m'' = abs m' ++ map_of (rev kvs)"
    using Cons.IH by blast
  with m' kv show ?case by (simp add: map_add_def fun_eq_iff split: option.splits)
qed

text \<open>After any sequence of stores, a lookup returns the last value stored under the key.\<close>

lemma get_after_stores:
  assumes "length kvs \<le> limit"
  shows "\<exists>m. store_all st new kvs = Some m \<and> invar m \<and>
     (\<forall>k. get m k = Some (case map_of (rev kvs) k of None \<Rightarrow> (dbl_zero, False) | Some v \<Rightarrow> (v, True)))"
  using store_all_abs [OF new_invar, of kvs] assms by (auto simp: new_size new_abs get_ok)

end

lemma set_step:
  assumes "hm_inv m" "count m < hm_limit" "\<And>n. mem n"
  shows "\<exists>m'. cxpr_hashmap_set mem m k v = Some (m', hm_abs m k = None) \<and> hm_inv m' \<and>
     hm_abs m' = (hm_abs m)(k \<mapsto> v) \<and> count m' \<le> Suc (count m)"
proof (cases "Some k \<in> set (keys (entries m))")
  case True
  then have "hm_abs m k \<noteq> None" using es_abs_None by metis
  moreover obtain m' where "cxpr_hashmap_set mem m k v = Some (m', False)" "hm_inv m'"
      "hm_abs m' = (hm_abs m)(k \<mapsto> v)" "count m' = count m"
    by (rule set_old_ok [where mem = mem and v = v, OF assms(1) True])
  ultimately show ?thesis by simp
next
  case False
  then have "hm_abs m k = None" using es_abs_None by metis
  moreover obtain m' where "cxpr_hashmap_set mem m k v = Some (m', True)" "hm_inv m'"
      "hm_abs m' = (hm_abs m)(k \<mapsto> v)" "count m' = Suc (count m)"
    by (rule set_new_ok [where mem = mem and v = v, OF assms(1,2) False assms(3)])
  ultimately show ?thesis by simp
qed

interpretation hm: string_store hm_inv hm_abs count hm_limit "cxpr_hashmap_init (\<lambda>_. True)"
    "cxpr_hashmap_set (\<lambda>_. True)" cxpr_hashmap_get
proof unfold_locales
  show "cxpr_hashmap_get m k = Some (case hm_abs m k of None \<Rightarrow> (dbl_zero, False) | Some v \<Rightarrow> (v, True))"
    if "hm_inv m" for m k
    using that by (intro get_wf) (simp add: hm_inv_def)
qed (use init_inv [of "\<lambda>_. True"] set_step [of _ "\<lambda>_. True"] in auto)

section \<open>Properties\<close>

text \<open>C10: Starting from \<open>cxpr_hashmap_init\<close>, any sequence of up to \<open>2^50\<close> calls of
  \<open>cxpr_hashmap_set\<close> returns (no probe loop runs for ever), and afterwards
  \<open>cxpr_hashmap_get\<close> finds exactly the keys that were set, each with the value of its last
  call, whatever collisions and table growth happened in between.
\<close>

theorem hashmap_refines_finite_map:
  assumes "length kvs \<le> 2 ^ 50"
  shows "\<exists>m. store_all (cxpr_hashmap_set (\<lambda>_. True)) (cxpr_hashmap_init (\<lambda>_. True)) kvs = Some m \<and>
     (\<forall>k. cxpr_hashmap_get m k =
        Some (case map_of (rev kvs) k of None \<Rightarrow> (dbl_zero, False) | Some v \<Rightarrow> (v, True)))"
  using hm.get_after_stores [OF assms] by blast

theorem hashmap_refines_finite_map_witness:
  "\<exists>m. store_all (cxpr_hashmap_set (\<lambda>_. True)) (cxpr_hashmap_init (\<lambda>_. True))
       [(''rsi'', dbl_one), (''ema'', dbl_zero), (''rsi'', DNaN)] = Some m \<and>
     cxpr_hashmap_get m ''rsi'' = Some (DNaN, True) \<and> cxpr_hashmap_get m ''x'' = Some (dbl_zero, False)"
  using hashmap_refines_finite_map [of "[(''rsi'', dbl_one), (''ema'', dbl_zero), (''rsi'', DNaN)]"]
  by auto

text \<open>One call of \<open>cxpr_hashmap_set\<close> on a table within its invariant returns, keeps the
  invariant (slot array, count, free slot, reachability of every key), binds the key to the value,
  leaves every other binding alone, and its result says whether the key was new.
\<close>

theorem hashmap_set_updates_map:
  assumes "hm_inv m" "count m < 2 ^ 50" "\<forall>n. mem n"
  shows "\<exists>m'. cxpr_hashmap_set mem m k v = Some (m', hm_abs m k = None) \<and> hm_inv m' \<and>
     hm_abs m' = (hm_abs m)(k \<mapsto> v)"
  using set_step [of m mem k v] assms by auto

theorem hashmap_set_updates_map_witness:
  "\<exists>m'. cxpr_hashmap_set (\<lambda>_. True) (cxpr_hashmap_init (\<lambda>_. True)) ''close'' dbl_one = Some (m', True) \<and>
     hm_inv m' \<and> hm_abs m' = [''close'' \<mapsto> dbl_one]"
  using hashmap_set_updates_map [of "cxpr_hashmap_init (\<lambda>_. True)" "\<lambda>_. True" "''close''" dbl_one]
    init_inv [of "\<lambda>_. True"] by simp

lemma probe_key_full:
  assumes "h < n" "n = length es" "\<forall>e \<in> set es. key e \<noteq> None \<and> key e \<noteq> Some k"
  shows "probe_key es n k fuel h = Loops"
  using assms(1)
proof (induction fuel arbitrary: h)
  case (Suc fuel)
  have "key (es ! h) \<noteq> None" "key (es ! h) \<noteq> Some k" using Suc.prems assms by auto
  moreover have "(h + 1) mod n < n" using Suc.prems by simp
  ultimately show ?case using Suc.IH by (auto split: option.splits)
qed simp

lemma occupied_full:
  assumes "occupied ks = length ks" "k \<in> set ks"
  shows "k \<noteq> None"
  using assms unfolding occupied_def by (metis (mono_tags, lifting) filter_id_conv length_filter_less less_irrefl)

text \<open>C23: \<open>cxpr_hashmap_set\<close> ignores the result of \<open>cxpr_hashmap_grow\<close>. When that
  allocation fails with one free slot left, the call still reports success and fills the last
  slot; from then on looking up any absent key probes for ever, for every number of steps.
\<close>

theorem hashmap_failed_growth_loops:
  assumes wf: "hm_wf m" and last: "count m + 1 = capacity m" and small: "capacity m < 2 ^ 53"
    and fail: "\<not> mem (capacity m * 2 * 16)" and dup: "mem (length k + 1)" and new: "hm_abs m k = None"
  shows "\<exists>m'. cxpr_hashmap_set mem m k v = Some (m', True) \<and> count m' = capacity m' \<and>
     (\<forall>k'. hm_abs m' k' = None \<longrightarrow> cxpr_hashmap_get m' k' = None \<and>
        (\<forall>fuel. probe_key (entries m') (capacity m') k' fuel
           (unat (cxpr_hash_string k') mod capacity m') = Loops))"
proof -
  have new': "Some k \<notin> set (keys (entries m))" using new es_abs_None by metis
  have "over_load m" using last small by (intro over_load_full) auto
  moreover have "cxpr_hashmap_grow mem m = Some (m, False)"
    using fail by (simp add: cxpr_hashmap_grow_def Let_def)
  ultimately have set: "cxpr_hashmap_set mem m k v = store_new mem m k (cxpr_hash_string k) v"
    using find_slot_absent [OF wf new'] by (simp add: cxpr_hashmap_set_def)
  have ok: "tbl_ok (keys (entries m))" and room: "occupied (keys (entries m)) < length (entries m)"
    and len: "length (entries m) = capacity m" and occ: "occupied (keys (entries m)) = count m"
    using wf by (auto simp: hm_wf_def)
  obtain i where i:
      "probe_free (entries m) (length (entries m)) (length (entries m))
         (unat (cxpr_hash_string k) mod length (entries m)) = Free i"
      "occupied (keys ((entries m)[i := \<lparr>key = Some k, val = v\<rparr>])) = Suc (occupied (keys (entries m)))"
    by (rule store_entry [OF ok room new', of v])
  define m' where "m' = m\<lparr>entries := (entries m)[i := \<lparr>key = Some k, val = v\<rparr>], count := count m + 1\<rparr>"
  have full: "occupied (keys (entries m')) = length (keys (entries m'))"
    using i(2) occ last len by (simp add: m'_def)
  have "probe_key (entries m') (capacity m') k' fuel (unat (cxpr_hash_string k') mod capacity m') = Loops"
    if "hm_abs m' k' = None" for k' fuel
  proof (rule probe_key_full)
    have "Some k' \<notin> set (keys (entries m'))" using that es_abs_None by metis
    then show "\<forall>e \<in> set (entries m'). key e \<noteq> None \<and> key e \<noteq> Some k'"
      using occupied_full [OF full] by (metis image_eqI list.set_map)
  qed (use len last in \<open>auto simp: m'_def\<close>)
  moreover have "cxpr_hashmap_set mem m k v = Some (m', True)"
    using set i(1) len dup by (simp add: store_new_def m'_def cxpr_strdup_def)
  moreover have "entries m' \<noteq> []" "count m' \<noteq> 0" "count m' = capacity m'"
    using len last by (auto simp: m'_def)
  ultimately show ?thesis
    by (intro exI [of _ m']) (simp add: cxpr_hashmap_get_def cxpr_hashmap_get_prehashed_def)
qed

theorem hashmap_failed_growth_loops_witness:
  "\<exists>m'. cxpr_hashmap_set (\<lambda>n. n < 32) \<lparr>entries = [empty_entry], capacity = 1, count = 0\<rparr> ''a'' dbl_one =
       Some (m', True) \<and> count m' = capacity m' \<and>
     (\<forall>k'. hm_abs m' k' = None \<longrightarrow> cxpr_hashmap_get m' k' = None)"
proof -
  let ?m = "\<lparr>entries = [empty_entry], capacity = 1, count = 0\<rparr>"
  have "hm_wf ?m" by (simp add: hm_wf_def occupied_def tbl_ok_def)
  moreover have "hm_abs ?m ''a'' = None" by (simp add: es_abs_def)
  ultimately show ?thesis
    using hashmap_failed_growth_loops [of ?m "\<lambda>n. n < 32" "''a''" dbl_one] by simp blast
qed

text \<open>\<open>cxpr_hashmap_clone\<close> yields a map with the same bindings and the same invariant,
  and \<open>cxpr_hashmap_clear\<close> one with no binding that keeps its capacity.
\<close>

theorem hashmap_clone_clear:
  assumes "hm_wf m" "\<forall>n. mem n"
  shows "\<exists>c. cxpr_hashmap_clone mem m = Some c \<and> hm_wf c \<and> hm_abs c = hm_abs m \<and>
     hm_wf (cxpr_hashmap_clear m) \<and> hm_abs (cxpr_hashmap_clear m) = Map.empty \<and>
     capacity (cxpr_hashmap_clear m) = capacity m"
proof -
  let ?f = "\<lambda>e. case key e of None \<Rightarrow> empty_entry | Some k \<Rightarrow> \<lparr>key = cxpr_strdup mem k, val = val e\<rparr>"
  have key: "key (?f e) = key e" for e using assms(2) by (cases "key e") (simp_all add: cxpr_strdup_def)
  have keys: "keys (map ?f es) = keys es" for es by (simp add: key)
  have "es_abs (map ?f es) k = es_abs es k" for es k
    by (induction es) (auto simp: es_abs_Cons key split: option.splits)
  then have abs: "es_abs (map ?f es) = es_abs es" for es by (rule ext)
  have clear: "keys (map (\<lambda>_. empty_entry) es) = replicate (length es) None"
    "es_abs (map (\<lambda>_. empty_entry) es) = Map.empty" for es :: "cxpr_hashmap_entry list"
    by (simp_all add: map_replicate_const)
  from assms show ?thesis
    unfolding cxpr_hashmap_clone_def cxpr_hashmap_clear_def hm_wf_def by (simp add: keys abs clear del: map_map)
qed

theorem hashmap_clone_clear_witness:
  "\<exists>c. cxpr_hashmap_clone (\<lambda>_. True) (cxpr_hashmap_init (\<lambda>_. True)) = Some c \<and> hm_wf c \<and>
     hm_abs (cxpr_hashmap_clear (cxpr_hashmap_init (\<lambda>_. True))) = Map.empty"
  using hashmap_clone_clear [of "cxpr_hashmap_init (\<lambda>_. True)" "\<lambda>_. True"] init_inv [of "\<lambda>_. True"]
  by (auto simp: hm_inv_def)

end
