(* ===== verification/Cxpr_Value.thy ===== *)
theory Cxpr_Value
  imports Cxpr_Hashmap
begin

text \<open>
  Runtime values (\<^verbatim>\<open>include/cxpr/types.h\<close>), their deep copies (\<^verbatim>\<open>src/struct.c\<close>) and the
  typed operator algebra of \<^verbatim>\<open>src/value_ops.c\<close>: checked 64-bit integers, timestamps and
  durations in nanoseconds, field-wise struct arithmetic. The tagged union is a datatype whose
  constructors are the C constructor functions; a NULL payload pointer is \<open>None\<close>. Values are
  immutable and owned here, so freeing a value is resetting it. The three-way C result (1 handled,
  0 not handled, -1 error) is the type \<open>op_result\<close>; it has a further case for the signed
  overflow and the out-of-range \<open>llround\<close> that C leaves undefined.
\<close>

section \<open>Values\<close>

datatype cxpr_value =
    cxpr_num double
  | cxpr_bool bool
  | cxpr_struct "(string \<times> cxpr_value) list option"
  | cxpr_string "string option"
  | cxpr_null
  | cxpr_timestamp int
  | cxpr_duration int
  | cxpr_array "cxpr_value list option"
  | cxpr_int64 int

type_synonym cxpr_struct_value = "(string \<times> cxpr_value) list"
type_synonym cxpr_array_value = "cxpr_value list"

datatype cxpr_value_type =
    CXPR_VALUE_NUMBER | CXPR_VALUE_BOOL | CXPR_VALUE_STRUCT | CXPR_VALUE_STRING | CXPR_VALUE_NULL
  | CXPR_VALUE_TIMESTAMP | CXPR_VALUE_DURATION | CXPR_VALUE_ARRAY | CXPR_VALUE_INT64

fun value_type :: "cxpr_value \<Rightarrow> cxpr_value_type" where
  "value_type (cxpr_num _) = CXPR_VALUE_NUMBER"
| "value_type (cxpr_bool _) = CXPR_VALUE_BOOL"
| "value_type (cxpr_struct _) = CXPR_VALUE_STRUCT"
| "value_type (cxpr_string _) = CXPR_VALUE_STRING"
| "value_type cxpr_null = CXPR_VALUE_NULL"
| "value_type (cxpr_timestamp _) = CXPR_VALUE_TIMESTAMP"
| "value_type (cxpr_duration _) = CXPR_VALUE_DURATION"
| "value_type (cxpr_array _) = CXPR_VALUE_ARRAY"
| "value_type (cxpr_int64 _) = CXPR_VALUE_INT64"

lemma value_type_cases:
  "value_type v = CXPR_VALUE_NUMBER \<longleftrightarrow> (\<exists>d. v = cxpr_num d)"
  "value_type v = CXPR_VALUE_STRUCT \<longleftrightarrow> (\<exists>s. v = cxpr_struct s)"
  "value_type v = CXPR_VALUE_TIMESTAMP \<longleftrightarrow> (\<exists>t. v = cxpr_timestamp t)"
  "value_type v = CXPR_VALUE_DURATION \<longleftrightarrow> (\<exists>t. v = cxpr_duration t)"
  "value_type v = CXPR_VALUE_INT64 \<longleftrightarrow> (\<exists>i. v = cxpr_int64 i)"
  by (cases v; simp)+

section \<open>Deep copies\<close>

text \<open>\<open>sizeof\<close> of the structures on a 64-bit target.\<close>

abbreviation sizeof_struct_value :: nat where "sizeof_struct_value \<equiv> 24"
abbreviation sizeof_array_value :: nat where "sizeof_array_value \<equiv> 16"
abbreviation sizeof_value :: nat where "sizeof_value \<equiv> 16"
abbreviation sizeof_ptr :: nat where "sizeof_ptr \<equiv> 8"

fun cxpr_value_clone_failed :: "cxpr_value \<Rightarrow> cxpr_value \<Rightarrow> bool" where
  "cxpr_value_clone_failed (cxpr_struct (Some _)) (cxpr_struct None) = True"
| "cxpr_value_clone_failed (cxpr_string (Some _)) (cxpr_string None) = True"
| "cxpr_value_clone_failed (cxpr_array (Some _)) (cxpr_array None) = True"
| "cxpr_value_clone_failed _ _ = False"

text \<open>\<open>cxpr_value_clone\<close>, the body of \<open>cxpr_struct_value_new\<close> and of
  \<open>cxpr_array_value_new\<close> (the loops over the fields and elements last).\<close>

fun cxpr_value_clone :: "(nat \<Rightarrow> bool) \<Rightarrow> cxpr_value \<Rightarrow> cxpr_value"
  and clone_fields :: "(nat \<Rightarrow> bool) \<Rightarrow> cxpr_struct_value \<Rightarrow> cxpr_struct_value option"
  and clone_values :: "(nat \<Rightarrow> bool) \<Rightarrow> cxpr_array_value \<Rightarrow> cxpr_array_value option" where
  "cxpr_value_clone mem (cxpr_struct None) =
     cxpr_struct (if mem sizeof_struct_value then Some [] else None)"
| "cxpr_value_clone mem (cxpr_struct (Some fs)) =
     cxpr_struct
       (if \<not> mem sizeof_struct_value then None
        else if fs = [] then Some []
        else if \<not> mem (length fs * sizeof_ptr) \<or> \<not> mem (length fs * sizeof_value) then None
        else clone_fields mem fs)"
| "cxpr_value_clone mem (cxpr_string s) =
     cxpr_string (cxpr_strdup mem (case s of None \<Rightarrow> [] | Some str \<Rightarrow> str))"
| "cxpr_value_clone mem (cxpr_array None) = cxpr_array None"
| "cxpr_value_clone mem (cxpr_array (Some vs)) =
     cxpr_array
       (if \<not> mem sizeof_array_value then None
        else if vs = [] then Some []
        else if \<not> mem (length vs * sizeof_value) then None
        else clone_values mem vs)"
| "cxpr_value_clone mem v = v"
| "clone_fields mem [] = Some []"
| "clone_fields mem ((n, v) # fs) =
     (case cxpr_strdup mem n of
        None \<Rightarrow> None
      | Some n' \<Rightarrow>
          if cxpr_value_clone_failed v (cxpr_value_clone mem v) then None
          else (case clone_fields mem fs of None \<Rightarrow> None | Some r \<Rightarrow> Some ((n', cxpr_value_clone mem v) # r)))"
| "clone_values mem [] = Some []"
| "clone_values mem (v # vs) =
     (if cxpr_value_clone_failed v (cxpr_value_clone mem v) then None
      else (case clone_values mem vs of None \<Rightarrow> None | Some r \<Rightarrow> Some (cxpr_value_clone mem v # r)))"

definition cxpr_struct_value_new :: "(nat \<Rightarrow> bool) \<Rightarrow> cxpr_struct_value \<Rightarrow> cxpr_struct_value option" where
  "cxpr_struct_value_new mem fs =
     (if \<not> mem sizeof_struct_value then None
      else if fs = [] then Some []
      else if \<not> mem (length fs * sizeof_ptr) \<or> \<not> mem (length fs * sizeof_value) then None
      else clone_fields mem fs)"

definition cxpr_array_value_new :: "(nat \<Rightarrow> bool) \<Rightarrow> cxpr_array_value \<Rightarrow> cxpr_array_value option" where
  "cxpr_array_value_new mem vs =
     (if \<not> mem sizeof_array_value then None
      else if vs = [] then Some []
      else if \<not> mem (length vs * sizeof_value) then None
      else clone_values mem vs)"

text \<open>A freed value is the number zero.\<close>

definition cxpr_value_free :: "cxpr_value \<Rightarrow> cxpr_value" where
  "cxpr_value_free v = cxpr_num dbl_zero"

section \<open>The typed operator algebra\<close>

datatype cxpr_valop =
    CXPR_VALOP_ADD | CXPR_VALOP_SUB | CXPR_VALOP_MUL | CXPR_VALOP_DIV
  | CXPR_VALOP_LT | CXPR_VALOP_LTE | CXPR_VALOP_GT | CXPR_VALOP_GTE

datatype 'a op_result =
    Handled 'a
  | NotHandled
  | Failed cxpr_error_code string
  | Undefined

definition cxpr_value_op_type_error :: "string \<Rightarrow> 'a op_result" where
  "cxpr_value_op_type_error message = Failed CXPR_ERR_TYPE_MISMATCH message"

definition cxpr_value_op_div_zero :: "'a op_result" where
  "cxpr_value_op_div_zero = Failed CXPR_ERR_DIVISION_BY_ZERO ''Division by zero''"

definition out_of_memory :: "'a op_result" where
  "out_of_memory = Failed CXPR_ERR_OUT_OF_MEMORY ''Out of memory''"

definition cxpr_struct_find_field :: "cxpr_struct_value \<Rightarrow> string \<Rightarrow> cxpr_value option" where
  "cxpr_struct_find_field s name = map_of s name"

definition cxpr_value_numeric_binary_op :: "cxpr_valop \<Rightarrow> double \<Rightarrow> double \<Rightarrow> cxpr_value op_result" where
  "cxpr_value_numeric_binary_op op a b =
     (case op of
        CXPR_VALOP_ADD \<Rightarrow> Handled (cxpr_num (dbl_add a b))
      | CXPR_VALOP_SUB \<Rightarrow> Handled (cxpr_num (dbl_sub a b))
      | CXPR_VALOP_MUL \<Rightarrow> Handled (cxpr_num (dbl_mul a b))
      | CXPR_VALOP_DIV \<Rightarrow>
          if dbl_eq b dbl_zero then cxpr_value_op_div_zero else Handled (cxpr_num (dbl_div a b))
      | CXPR_VALOP_LT \<Rightarrow> Handled (cxpr_bool (dbl_lt a b))
      | CXPR_VALOP_LTE \<Rightarrow> Handled (cxpr_bool (dbl_le a b))
      | CXPR_VALOP_GT \<Rightarrow> Handled (cxpr_bool (dbl_lt b a))
      | CXPR_VALOP_GTE \<Rightarrow> Handled (cxpr_bool (dbl_le b a)))"

definition cxpr_value_is_struct_scalar_operand :: "cxpr_value \<Rightarrow> bool" where
  "cxpr_value_is_struct_scalar_operand v \<longleftrightarrow>
     value_type v \<in> {CXPR_VALUE_NUMBER, CXPR_VALUE_INT64, CXPR_VALUE_TIMESTAMP, CXPR_VALUE_DURATION}"

text \<open>C integer division truncates toward zero.\<close>

definition c_div :: "int \<Rightarrow> int \<Rightarrow> int" where
  "c_div a b = sgn a * sgn b * (\<bar>a\<bar> div \<bar>b\<bar>)"

text \<open>The \<open>__builtin_*_overflow\<close> guards: the exact result, or the error.\<close>

definition int64_checked :: "int \<Rightarrow> string \<Rightarrow> cxpr_value op_result" where
  "int64_checked i message = (if int64_range i then Handled (cxpr_int64 i) else cxpr_value_op_type_error message)"

definition int64_binary_op :: "cxpr_valop \<Rightarrow> int \<Rightarrow> int \<Rightarrow> cxpr_value op_result" where
  "int64_binary_op op a b =
     (case op of
        CXPR_VALOP_ADD \<Rightarrow> int64_checked (a + b) ''int64 addition overflow''
      | CXPR_VALOP_SUB \<Rightarrow> int64_checked (a - b) ''int64 subtraction overflow''
      | CXPR_VALOP_MUL \<Rightarrow> int64_checked (a * b) ''int64 multiplication overflow''
      | CXPR_VALOP_DIV \<Rightarrow>
          if b = 0 then cxpr_value_op_div_zero
          else if a = INT64_MIN \<and> b = - 1 then cxpr_value_op_type_error ''int64 division overflow''
          else Handled (cxpr_int64 (c_div a b))
      | CXPR_VALOP_LT \<Rightarrow> Handled (cxpr_bool (a < b))
      | CXPR_VALOP_LTE \<Rightarrow> Handled (cxpr_bool (a \<le> b))
      | CXPR_VALOP_GT \<Rightarrow> Handled (cxpr_bool (b < a))
      | CXPR_VALOP_GTE \<Rightarrow> Handled (cxpr_bool (b \<le> a)))"

text \<open>Unchecked signed 64-bit arithmetic, and \<open>(int64_t)llround(x)\<close>.\<close>

definition int64_unchecked :: "(int \<Rightarrow> cxpr_value) \<Rightarrow> int \<Rightarrow> cxpr_value op_result" where
  "int64_unchecked mk i = (if int64_range i then Handled (mk i) else Undefined)"

definition duration_llround :: "double \<Rightarrow> cxpr_value op_result" where
  "duration_llround x = (case llround x of None \<Rightarrow> Undefined | Some i \<Rightarrow> Handled (cxpr_duration i))"

text \<open>The arms of the \<open>switch\<close> at the end of \<open>cxpr_value_binary_op\<close>.\<close>

definition quoted :: "string \<Rightarrow> string" where
  "quoted op = CHR 0x27 # op @ [CHR 0x27]"

fun temporal_add :: "cxpr_value \<Rightarrow> cxpr_value \<Rightarrow> cxpr_value op_result" where
  "temporal_add (cxpr_timestamp x) (cxpr_duration y) = int64_unchecked cxpr_timestamp (x + y)"
| "temporal_add (cxpr_duration x) (cxpr_timestamp y) = int64_unchecked cxpr_timestamp (x + y)"
| "temporal_add (cxpr_duration x) (cxpr_duration y) = int64_unchecked cxpr_duration (x + y)"
| "temporal_add _ _ = cxpr_value_op_type_error
     (quoted ''+'' @ '' on temporal values requires timestamp+duration or duration+duration'')"

fun temporal_sub :: "cxpr_value \<Rightarrow> cxpr_value \<Rightarrow> cxpr_value op_result" where
  "temporal_sub (cxpr_timestamp x) (cxpr_timestamp y) = int64_unchecked cxpr_duration (x - y)"
| "temporal_sub (cxpr_timestamp x) (cxpr_duration y) = int64_unchecked cxpr_timestamp (x - y)"
| "temporal_sub (cxpr_duration x) (cxpr_duration y) = int64_unchecked cxpr_duration (x - y)"
| "temporal_sub _ _ = cxpr_value_op_type_error
     (quoted ''-'' @ '' on temporal values requires timestamp-timestamp, timestamp-duration, or duration-duration'')"

fun temporal_mul :: "cxpr_value \<Rightarrow> cxpr_value \<Rightarrow> cxpr_value op_result" where
  "temporal_mul (cxpr_duration x) (cxpr_num d) = duration_llround (dbl_mul (dbl_of_int x) d)"
| "temporal_mul (cxpr_num d) (cxpr_duration y) = duration_llround (dbl_mul d (dbl_of_int y))"
| "temporal_mul _ _ = cxpr_value_op_type_error (quoted ''*'' @ '' on temporal values requires duration*number'')"

fun temporal_div :: "cxpr_value \<Rightarrow> cxpr_value \<Rightarrow> cxpr_value op_result" where
  "temporal_div (cxpr_duration x) (cxpr_num d) =
     (if dbl_eq d dbl_zero then cxpr_value_op_div_zero else duration_llround (dbl_div (dbl_of_int x) d))"
| "temporal_div (cxpr_duration x) (cxpr_duration y) =
     (if y = 0 then cxpr_value_op_div_zero
      else Handled (cxpr_num (dbl_div (dbl_of_int x) (dbl_of_int y))))"
| "temporal_div _ _ = cxpr_value_op_type_error
     (quoted ''/'' @ '' on temporal values requires duration/number or duration/duration'')"

fun temporal_compare :: "(int \<Rightarrow> int \<Rightarrow> bool) \<Rightarrow> cxpr_value \<Rightarrow> cxpr_value \<Rightarrow> cxpr_value op_result" where
  "temporal_compare cmp (cxpr_timestamp x) (cxpr_timestamp y) = Handled (cxpr_bool (cmp x y))"
| "temporal_compare cmp (cxpr_duration x) (cxpr_duration y) = Handled (cxpr_bool (cmp x y))"
| "temporal_compare cmp _ _ = cxpr_value_op_type_error ''Comparison requires two timestamps or two durations''"

definition temporal_binary_op :: "cxpr_valop \<Rightarrow> cxpr_value \<Rightarrow> cxpr_value \<Rightarrow> cxpr_value op_result" where
  "temporal_binary_op op a b =
     (case op of
        CXPR_VALOP_ADD \<Rightarrow> temporal_add a b
      | CXPR_VALOP_SUB \<Rightarrow> temporal_sub a b
      | CXPR_VALOP_MUL \<Rightarrow> temporal_mul a b
      | CXPR_VALOP_DIV \<Rightarrow> temporal_div a b
      | CXPR_VALOP_LT \<Rightarrow> temporal_compare (\<lambda>x y. x < y) a b
      | CXPR_VALOP_LTE \<Rightarrow> temporal_compare (\<lambda>x y. x \<le> y) a b
      | CXPR_VALOP_GT \<Rightarrow> temporal_compare (\<lambda>x y. y < x) a b
      | CXPR_VALOP_GTE \<Rightarrow> temporal_compare (\<lambda>x y. y \<le> x) a b)"

definition is_temporal :: "cxpr_value \<Rightarrow> bool" where
  "is_temporal v \<longleftrightarrow> value_type v \<in> {CXPR_VALUE_TIMESTAMP, CXPR_VALUE_DURATION}"

definition is_ordering :: "cxpr_valop \<Rightarrow> bool" where
  "is_ordering op \<longleftrightarrow> op \<in> {CXPR_VALOP_LT, CXPR_VALOP_LTE, CXPR_VALOP_GT, CXPR_VALOP_GTE}"

text \<open>The payload of a struct operand, NULL for any other value.\<close>

fun struct_payload :: "cxpr_value \<Rightarrow> cxpr_struct_value option" where
  "struct_payload (cxpr_struct s) = s"
| "struct_payload _ = None"

lemma struct_payload_size: "struct_payload v = Some fs \<Longrightarrow> size_list (size_prod (\<lambda>_. 0) size) fs < size v"
  by (cases v) auto

lemma find_field_size:
  "cxpr_struct_find_field fs n = Some v \<Longrightarrow> size v < size_list (size_prod (\<lambda>_. 0) size) fs"
  unfolding cxpr_struct_find_field_def by (induction fs) (auto split: if_splits)

definition right_operand :: "cxpr_value \<Rightarrow> string \<Rightarrow> cxpr_value option" where
  "right_operand b name =
     (case struct_payload b of None \<Rightarrow> Some b | Some right \<Rightarrow> cxpr_struct_find_field right name)"

lemma right_operand_size:
  "right_operand b n = Some v \<Longrightarrow> size v \<le> size b \<and> (struct_payload b \<noteq> None \<longrightarrow> size v < size b)"
  unfolding right_operand_def
  by (auto split: option.splits dest: find_field_size intro: less_imp_le order.strict_trans [OF _ struct_payload_size])

text \<open>
  The mutually recursive operators. \<open>struct_op_loop\<close> is the loop over the fields of
  \<open>shape\<close> (the left struct, else the right one); \<open>is_left\<close> says which.
\<close>

function cxpr_value_binary_op_impl ::
    "(nat \<Rightarrow> bool) \<Rightarrow> cxpr_valop \<Rightarrow> cxpr_value \<Rightarrow> cxpr_value \<Rightarrow> cxpr_value op_result"
  and cxpr_value_struct_binary_op ::
    "(nat \<Rightarrow> bool) \<Rightarrow> cxpr_valop \<Rightarrow> cxpr_value \<Rightarrow> cxpr_value \<Rightarrow> cxpr_value op_result"
  and struct_op_loop ::
    "(nat \<Rightarrow> bool) \<Rightarrow> cxpr_valop \<Rightarrow> bool \<Rightarrow> cxpr_value \<Rightarrow> cxpr_value \<Rightarrow> cxpr_struct_value
       \<Rightarrow> cxpr_struct_value op_result"
  and cxpr_value_binary_op ::
    "(nat \<Rightarrow> bool) \<Rightarrow> cxpr_valop \<Rightarrow> cxpr_value \<Rightarrow> cxpr_value \<Rightarrow> cxpr_value op_result" where
  "cxpr_value_binary_op_impl mem op a b =
     (if value_type a = CXPR_VALUE_STRUCT \<or> value_type b = CXPR_VALUE_STRUCT
      then cxpr_value_struct_binary_op mem op a b
      else if is_temporal a \<or> is_temporal b then cxpr_value_binary_op mem op a b
      else case (a, b) of
          (cxpr_int64 x, cxpr_int64 y) \<Rightarrow> int64_binary_op op x y
        | (cxpr_num x, cxpr_num y) \<Rightarrow> cxpr_value_numeric_binary_op op x y
        | _ \<Rightarrow> NotHandled)"
| "cxpr_value_struct_binary_op mem op a b =
     (let left = struct_payload a; right = struct_payload b in
      case (if left \<noteq> None then left else right) of
        None \<Rightarrow> NotHandled
      | Some shape \<Rightarrow>
          if is_ordering op then cxpr_value_op_type_error ''Struct comparison is not supported''
          else if left = None \<and> \<not> cxpr_value_is_struct_scalar_operand a
          then cxpr_value_op_type_error ''Struct arithmetic requires scalar-compatible operands''
          else if right = None \<and> \<not> cxpr_value_is_struct_scalar_operand b
          then cxpr_value_op_type_error ''Struct arithmetic requires scalar-compatible operands''
          else if \<not> mem (max (length shape) 1 * sizeof_value) then out_of_memory
          else case struct_op_loop mem op (left \<noteq> None) a b shape of
              Handled vals \<Rightarrow>
                if right \<noteq> None \<and> length (the right) \<noteq> length shape
                then cxpr_value_op_type_error ''Struct arithmetic requires matching named fields''
                else (case cxpr_struct_value_new mem vals of
                        None \<Rightarrow> out_of_memory
                      | Some result \<Rightarrow> Handled (cxpr_struct (Some result)))
            | NotHandled \<Rightarrow> NotHandled
            | Failed c m \<Rightarrow> Failed c m
            | Undefined \<Rightarrow> Undefined)"
| "struct_op_loop mem op is_left a b fs =
     (case fs of
        [] \<Rightarrow> Handled []
      | (name, v) # rest \<Rightarrow>
          (case right_operand b name of
             None \<Rightarrow> cxpr_value_op_type_error ''Struct arithmetic requires matching named fields''
           | Some bv \<Rightarrow>
               (case cxpr_value_binary_op_impl mem op (if is_left then v else a) bv of
                  Handled w \<Rightarrow>
                    (case struct_op_loop mem op is_left a b rest of
                       Handled ws \<Rightarrow> Handled ((name, w) # ws) | r \<Rightarrow> r)
                | NotHandled \<Rightarrow>
                    cxpr_value_op_type_error ''Struct arithmetic requires numeric or compatible fields''
                | Failed c m \<Rightarrow> Failed c m
                | Undefined \<Rightarrow> Undefined)))"
| "cxpr_value_binary_op mem op a b =
     (let a_integer = (value_type a = CXPR_VALUE_INT64); b_integer = (value_type b = CXPR_VALUE_INT64);
          a_struct = (value_type a = CXPR_VALUE_STRUCT); b_struct = (value_type b = CXPR_VALUE_STRUCT) in
      if \<not> is_temporal a \<and> \<not> is_temporal b \<and> \<not> a_struct \<and> \<not> b_struct \<and> \<not> a_integer \<and> \<not> b_integer
      then NotHandled
      else if a_integer \<or> b_integer then
        (if a_integer \<and> b_integer then cxpr_value_binary_op_impl mem op a b
         else cxpr_value_op_type_error ''int64 arithmetic requires two int64 operands'')
      else if a_struct \<or> b_struct then cxpr_value_struct_binary_op mem op a b
      else temporal_binary_op op a b)"
  by pat_completeness auto
termination
proof (relation "measures
    [\<lambda>x. case x of Inl (Inl (mem, op, a, b)) \<Rightarrow> size a + size b
        | Inl (Inr (mem, op, a, b)) \<Rightarrow> size a + size b
        | Inr (Inl (mem, op, l, a, b, fs)) \<Rightarrow>
            (if l then size_list (size_prod (\<lambda>_. 0) size) fs else size a) + size b
        | Inr (Inr (mem, op, a, b)) \<Rightarrow> size a + size b,
     \<lambda>x. case x of Inl (Inl (mem, op, a, b)) \<Rightarrow>
            (if value_type a = CXPR_VALUE_INT64 \<and> value_type b = CXPR_VALUE_INT64 then 0 else 3)
        | Inl (Inr _) \<Rightarrow> 1
        | Inr (Inl (mem, op, l, a, b, fs)) \<Rightarrow> (if \<not> l \<and> struct_payload b = None then 4 else 0)
        | Inr (Inr _) \<Rightarrow> 2,
     \<lambda>x. case x of Inr (Inl (mem, op, l, a, b, fs)) \<Rightarrow> length fs | _ \<Rightarrow> 0]", goal_cases)
  case 1
  show ?case by simp
next
  case (4 mem op a b left right shape)
  then show ?case
    by (cases "struct_payload a"; cases "struct_payload b") (auto dest: struct_payload_size)
next
  case (5 mem op is_left a b fs x xs name v bv)
  then show ?case
    using right_operand_size [of b name bv] by (cases is_left) (auto simp: size_list_def)
qed (auto simp: is_temporal_def dest: struct_payload_size [OF sym] struct_payload_size split: if_splits)

declare cxpr_value_binary_op_impl.simps [simp del] cxpr_value_struct_binary_op.simps [simp del]
  struct_op_loop.simps [simp del] cxpr_value_binary_op.simps [simp del]

section \<open>Deep copies: lemmas\<close>

text \<open>Values without NULL payloads.\<close>

fun no_null :: "cxpr_value \<Rightarrow> bool" where
  "no_null (cxpr_struct s) = (case s of None \<Rightarrow> False | Some fs \<Rightarrow> list_all (\<lambda>p. no_null (snd p)) fs)"
| "no_null (cxpr_string s) = (s \<noteq> None)"
| "no_null (cxpr_array a) = (case a of None \<Rightarrow> False | Some vs \<Rightarrow> list_all no_null vs)"
| "no_null _ = True"

lemma clone_struct: "cxpr_value_clone mem (cxpr_struct (Some fs)) = cxpr_struct (cxpr_struct_value_new mem fs)"
  by (simp add: cxpr_struct_value_new_def)

lemma clone_array: "cxpr_value_clone mem (cxpr_array (Some vs)) = cxpr_array (cxpr_array_value_new mem vs)"
  by (simp add: cxpr_array_value_new_def)

lemma strdup_Some: "cxpr_strdup mem s = Some t \<Longrightarrow> t = s"
  by (simp add: cxpr_strdup_def split: if_splits)

lemma clone_failed_iff [simp]:
  "cxpr_value_clone_failed (cxpr_struct (Some x)) (cxpr_struct y) = (y = None)"
  "cxpr_value_clone_failed (cxpr_array (Some u)) (cxpr_array w) = (w = None)"
  "cxpr_value_clone_failed (cxpr_string (Some s)) (cxpr_string t) = (t = None)"
  subgoal by (cases y) simp_all
  subgoal by (cases w) simp_all
  subgoal by (cases t) simp_all
  done

lemma clone_exact:
  shows "no_null v \<Longrightarrow> \<not> cxpr_value_clone_failed v (cxpr_value_clone mem v) \<Longrightarrow> cxpr_value_clone mem v = v"
    and "list_all (\<lambda>p. no_null (snd p)) fs \<Longrightarrow> clone_fields mem fs = Some gs \<Longrightarrow> gs = fs"
    and "list_all no_null vs \<Longrightarrow> clone_values mem vs = Some ws \<Longrightarrow> ws = vs"
proof (induction mem v and mem fs and mem vs arbitrary: and gs and ws
    rule: cxpr_value_clone_clone_fields_clone_values.induct)
  case (3 mem s)
  then show ?case by (cases s; cases "cxpr_strdup mem (the s)") (auto dest: strdup_Some)
qed (auto split: option.splits if_splits dest: strdup_Some)

lemma clone_succeeds:
  assumes all: "\<And>n. mem n"
  shows "\<not> cxpr_value_clone_failed v (cxpr_value_clone mem v)"
    and "clone_fields mem fs \<noteq> None"
    and "clone_values mem vs \<noteq> None"
  using all
proof (induction mem v and mem fs and mem vs rule: cxpr_value_clone_clone_fields_clone_values.induct)
qed (auto simp: cxpr_strdup_def split: option.splits if_splits)

lemma struct_value_new_exact:
  "list_all (\<lambda>p. no_null (snd p)) fs \<Longrightarrow> cxpr_struct_value_new mem fs = Some gs \<Longrightarrow> gs = fs"
  using clone_exact(2) [of fs mem gs] by (auto simp: cxpr_struct_value_new_def split: if_splits)

lemma struct_value_new_alloc:
  "(\<And>n. mem n) \<Longrightarrow> list_all (\<lambda>p. no_null (snd p)) fs \<Longrightarrow> cxpr_struct_value_new mem fs = Some fs"
  using clone_succeeds(2) [of mem fs] struct_value_new_exact [of fs mem]
  by (fastforce simp: cxpr_struct_value_new_def split: if_splits)

section \<open>The operators: lemmas\<close>

text \<open>Well-formed values: integers in range, doubles in binary64, no NULL payload.\<close>

fun value_ok :: "cxpr_value \<Rightarrow> bool" where
  "value_ok (cxpr_num d) = dbl_wf d"
| "value_ok (cxpr_struct s) = (case s of None \<Rightarrow> False | Some fs \<Rightarrow> list_all (\<lambda>p. value_ok (snd p)) fs)"
| "value_ok (cxpr_string s) = (s \<noteq> None)"
| "value_ok (cxpr_timestamp t) = int64_range t"
| "value_ok (cxpr_duration d) = int64_range d"
| "value_ok (cxpr_array a) = (case a of None \<Rightarrow> False | Some vs \<Rightarrow> list_all value_ok vs)"
| "value_ok (cxpr_int64 i) = int64_range i"
| "value_ok _ = True"

lemma value_ok_no_null: "value_ok v \<Longrightarrow> no_null v"
  by (induction v rule: value_ok.induct) (auto simp: list_all_iff split: option.splits)

lemma fields_ok_no_null: "list_all (\<lambda>p. value_ok (snd p)) fs \<Longrightarrow> list_all (\<lambda>p. no_null (snd p)) fs"
  by (auto simp: list_all_iff value_ok_no_null)

lemma numeric_op_ok:
  "cxpr_value_numeric_binary_op op a b = Handled v \<Longrightarrow> dbl_wf a \<Longrightarrow> dbl_wf b \<Longrightarrow> value_ok v"
  by (cases op)
    (auto simp: cxpr_value_numeric_binary_op_def cxpr_value_op_div_zero_def intro: cx_wf split: if_splits)

lemma c_div_abs: "\<bar>c_div a b\<bar> = (if b = 0 then 0 else \<bar>a\<bar> div \<bar>b\<bar>)"
proof (cases "a = 0 \<or> b = 0")
  case False
  then have "\<bar>sgn a * sgn b\<bar> = 1" by (simp add: abs_mult)
  moreover have "0 \<le> \<bar>a\<bar> div \<bar>b\<bar>" by (simp add: div_int_pos_iff)
  ultimately show ?thesis using False by (simp add: c_div_def abs_mult)
qed (auto simp: c_div_def)

lemma abs_div_le: "b \<noteq> 0 \<Longrightarrow> \<bar>a\<bar> div \<bar>b\<bar> \<le> \<bar>a::int\<bar>"
  by (metis abs_ge_zero div_by_1 zdiv_mono2 abs_of_nonneg int_one_le_iff_zero_less zero_less_abs_iff zero_less_one)

lemma c_div_range:
  assumes "int64_range a" "int64_range b" "b \<noteq> 0"
  shows "int64_range (c_div a b) \<longleftrightarrow> \<not> (a = INT64_MIN \<and> b = - 1)"
proof (cases "b = 1 \<or> b = - 1")
  case True
  then have "c_div a b = (if b = 1 then a else - a)" by (auto simp: c_div_def sgn_if)
  with True assms show ?thesis by (auto simp: int64_range_def)
next
  case False
  with assms(3) have "2 \<le> \<bar>b\<bar>" by linarith
  then have "\<bar>a\<bar> div \<bar>b\<bar> \<le> \<bar>a\<bar> div 2" by (intro zdiv_mono2) auto
  then have "\<bar>c_div a b\<bar> \<le> \<bar>a\<bar> div 2" using assms(3) by (simp add: c_div_abs)
  with assms(1) have "int64_range (c_div a b)" by (auto simp: int64_range_def)
  with False show ?thesis by auto
qed

lemma int64_op_ok:
  "int64_binary_op op a b = Handled v \<Longrightarrow> int64_range a \<Longrightarrow> int64_range b \<Longrightarrow> value_ok v"
  by (cases op)
    (auto simp: int64_binary_op_def int64_checked_def cxpr_value_op_type_error_def cxpr_value_op_div_zero_def
      c_div_range split: if_splits)

lemma int64_unchecked_ok: "int64_unchecked mk i = Handled v \<Longrightarrow> v = mk i \<and> int64_range i"
  by (auto simp: int64_unchecked_def split: if_splits)

lemma duration_llround_ok: "duration_llround x = Handled v \<Longrightarrow> value_ok v"
  by (cases x) (auto simp: duration_llround_def Let_def split: if_splits option.splits)

lemmas op_failures = cxpr_value_op_type_error_def cxpr_value_op_div_zero_def out_of_memory_def

lemma temporal_add_ok: "temporal_add a b = Handled v \<Longrightarrow> value_ok v"
  by (induction a b rule: temporal_add.induct) (auto simp: op_failures dest!: int64_unchecked_ok)

lemma temporal_sub_ok: "temporal_sub a b = Handled v \<Longrightarrow> value_ok v"
  by (induction a b rule: temporal_sub.induct) (auto simp: op_failures dest!: int64_unchecked_ok)

lemma temporal_mul_ok: "temporal_mul a b = Handled v \<Longrightarrow> value_ok v"
  by (induction a b rule: temporal_mul.induct) (auto simp: op_failures dest: duration_llround_ok)

lemma temporal_div_ok: "temporal_div a b = Handled v \<Longrightarrow> value_ok v"
  by (induction a b rule: temporal_div.induct)
    (auto simp: op_failures intro!: cx_wf dest: duration_llround_ok split: if_splits)

lemma temporal_compare_ok: "temporal_compare cmp a b = Handled v \<Longrightarrow> value_ok v"
  by (induction cmp a b rule: temporal_compare.induct) (auto simp: op_failures)

lemma temporal_op_ok: "temporal_binary_op op a b = Handled v \<Longrightarrow> value_ok v"
  unfolding temporal_binary_op_def
  by (cases op)
    (auto dest: temporal_add_ok temporal_sub_ok temporal_mul_ok temporal_div_ok temporal_compare_ok)

lemma right_operand_ok: "right_operand b n = Some v \<Longrightarrow> value_ok b \<Longrightarrow> value_ok v"
  by (cases b)
    (auto simp: right_operand_def cxpr_struct_find_field_def list_all_iff split: option.splits dest!: map_of_SomeD)

lemma struct_op_loop_Nil [simp]: "struct_op_loop mem op l a b [] = Handled []"
  by (simp add: struct_op_loop.simps)

lemma struct_op_loop_Cons:
  "struct_op_loop mem op l a b ((n, v) # fs) = Handled ws \<longleftrightarrow>
     (\<exists>bv w zs. right_operand b n = Some bv \<and>
        cxpr_value_binary_op_impl mem op (if l then v else a) bv = Handled w \<and>
        struct_op_loop mem op l a b fs = Handled zs \<and> ws = (n, w) # zs)"
  unfolding struct_op_loop.simps [of mem op l a b "(n, v) # fs"]
  by (auto simp: op_failures split: option.splits op_result.splits)

lemma struct_op_loop_Handled:
  "struct_op_loop mem op l a b fs = Handled ws \<longleftrightarrow>
     list_all2 (\<lambda>(n, v) (m, w). m = n \<and> (\<exists>bv. right_operand b n = Some bv \<and>
        cxpr_value_binary_op_impl mem op (if l then v else a) bv = Handled w)) fs ws"
proof (induction fs arbitrary: ws)
  case (Cons p fs)
  obtain n v where p: "p = (n, v)" by (cases p)
  show ?case unfolding p struct_op_loop_Cons list_all2_Cons1 Cons by (cases l) auto
qed auto

lemma struct_op_Handled:
  "cxpr_value_struct_binary_op mem op a b = Handled v \<longleftrightarrow>
     (\<exists>shape ws result. (if struct_payload a \<noteq> None then struct_payload a else struct_payload b) = Some shape \<and>
       \<not> is_ordering op \<and> (struct_payload a = None \<longrightarrow> cxpr_value_is_struct_scalar_operand a) \<and>
       (struct_payload b = None \<longrightarrow> cxpr_value_is_struct_scalar_operand b) \<and>
       mem (max (length shape) 1 * sizeof_value) \<and>
       struct_op_loop mem op (struct_payload a \<noteq> None) a b shape = Handled ws \<and>
       (struct_payload b \<noteq> None \<longrightarrow> length (the (struct_payload b)) = length shape) \<and>
       cxpr_struct_value_new mem ws = Some result \<and> v = cxpr_struct (Some result))"
  unfolding cxpr_value_struct_binary_op.simps [of mem op a b] Let_def
  by (cases "if struct_payload a \<noteq> None then struct_payload a else struct_payload b")
    (auto simp: op_failures split: option.splits op_result.splits if_splits)

lemma struct_payload_ok: "struct_payload v = Some fs \<Longrightarrow> value_ok v \<Longrightarrow> list_all (\<lambda>p. value_ok (snd p)) fs"
  by (cases v) auto

lemma field_size: "(n, v) \<in> set fs \<Longrightarrow> size v < size_list (size_prod (\<lambda>_. 0) size) fs"
  by (induction fs) auto

lemma struct_loop_result:
  assumes "struct_op_loop mem op l a b fs = Handled ws" "(m, w) \<in> set ws"
  obtains v bv where "(m, v) \<in> set fs" "right_operand b m = Some bv"
    "cxpr_value_binary_op_impl mem op (if l then v else a) bv = Handled w"
proof -
  from assms(2) obtain i where i: "i < length ws" "ws ! i = (m, w)" by (auto simp: in_set_conv_nth)
  obtain n v where nv: "fs ! i = (n, v)" by (cases "fs ! i")
  have len: "length fs = length ws" using assms(1) by (simp add: struct_op_loop_Handled list_all2_lengthD)
  have "m = n \<and> (\<exists>bv. right_operand b n = Some bv \<and>
      cxpr_value_binary_op_impl mem op (if l then v else a) bv = Handled w)"
    using list_all2_nthD2 [OF assms(1) [unfolded struct_op_loop_Handled] i(1)] i(2) nv by (simp only: prod.case)
  moreover have "(n, v) \<in> set fs" using nth_mem [of i fs] i(1) len nv by simp
  ultimately show thesis using that by blast
qed

lemma struct_op_ok:
  assumes IH: "\<And>x y w. size x + size y < size a + size b \<Longrightarrow> cxpr_value_binary_op_impl mem op x y = Handled w \<Longrightarrow>
      value_ok x \<Longrightarrow> value_ok y \<Longrightarrow> value_ok w"
    and run: "cxpr_value_struct_binary_op mem op a b = Handled v" and ok: "value_ok a" "value_ok b"
  shows "value_ok v"
proof -
  from run obtain shape ws result where
    shape: "(if struct_payload a \<noteq> None then struct_payload a else struct_payload b) = Some shape"
    and loop: "struct_op_loop mem op (struct_payload a \<noteq> None) a b shape = Handled ws"
    and new: "cxpr_struct_value_new mem ws = Some result" and v: "v = cxpr_struct (Some result)"
    unfolding struct_op_Handled by blast
  have "value_ok w" if "(m, w) \<in> set ws" for m w
  proof -
    obtain x bv where x: "(m, x) \<in> set shape" and bv: "right_operand b m = Some bv"
      and w: "cxpr_value_binary_op_impl mem op (if struct_payload a \<noteq> None then x else a) bv = Handled w"
      using struct_loop_result [OF loop \<open>(m, w) \<in> set ws\<close>] by blast
    note bv_ok = right_operand_ok [OF bv ok(2)] right_operand_size [OF bv]
    show ?thesis
    proof (cases "struct_payload a")
      case None
      then have "struct_payload b \<noteq> None" using shape by simp
      with IH [OF _ w] None bv_ok ok show ?thesis by simp
    next
      case (Some fs)
      with shape x have "size x < size a" "value_ok x"
        using field_size [OF x] struct_payload_size [OF Some] struct_payload_ok [OF Some ok(1)]
        by (auto simp: list_all_iff)
      with IH [OF _ w] Some bv_ok show ?thesis by simp
    qed
  qed
  then have "list_all (\<lambda>p. value_ok (snd p)) ws" by (auto simp: list_all_iff)
  with struct_value_new_exact [OF fields_ok_no_null new] v show ?thesis by simp
qed

lemma binary_op_of_impl:
  "value_type a = CXPR_VALUE_INT64 \<longrightarrow> value_type b \<noteq> CXPR_VALUE_INT64 \<Longrightarrow>
   value_type a \<noteq> CXPR_VALUE_STRUCT \<Longrightarrow> value_type b \<noteq> CXPR_VALUE_STRUCT \<Longrightarrow>
   cxpr_value_binary_op mem op a b = Handled v \<Longrightarrow> value_ok v"
  by (auto simp: cxpr_value_binary_op.simps [of mem op a b] Let_def op_failures dest: temporal_op_ok split: if_splits)

lemma impl_ok:
  "cxpr_value_binary_op_impl mem op a b = Handled v \<Longrightarrow> value_ok a \<Longrightarrow> value_ok b \<Longrightarrow> value_ok v"
proof (induction "size a + size b" arbitrary: a b v rule: less_induct)
  case (less a b)
  note run = less.prems(1) [unfolded cxpr_value_binary_op_impl.simps [of mem op a b]]
  show ?case
  proof (cases "value_type a = CXPR_VALUE_STRUCT \<or> value_type b = CXPR_VALUE_STRUCT")
    case True
    with run have "cxpr_value_struct_binary_op mem op a b = Handled v" by simp
    from struct_op_ok [OF less.hyps this less.prems(2,3)] show ?thesis .
  next
    case no_struct: False
    show ?thesis
    proof (cases "is_temporal a \<or> is_temporal b")
      case True
      with run no_struct have "cxpr_value_binary_op mem op a b = Handled v" by simp
      then show ?thesis
        by (rule binary_op_of_impl [rotated 3]) (use True no_struct in \<open>auto simp: is_temporal_def\<close>)
    next
      case False
      with run no_struct less.prems(2,3) show ?thesis
        by (auto dest: int64_op_ok numeric_op_ok split: cxpr_value.splits)
    qed
  qed
qed

lemma value_binary_op_ok:
  assumes "cxpr_value_binary_op mem op a b = Handled v" "value_ok a" "value_ok b"
  shows "value_ok v"
  using assms struct_op_ok [of a b mem op v, OF impl_ok]
  by (auto simp: cxpr_value_binary_op.simps [of mem op a b] Let_def op_failures split: if_splits
      dest: temporal_op_ok impl_ok)

section \<open>Properties\<close>

text \<open>C27: the value operators keep values well formed. Whatever the operator, the operands and the
  allocator, a result that is returned has its integers in the 64-bit range, its doubles in binary64
  and no NULL payload at any depth.\<close>

theorem value_binary_op_invariant:
  assumes "value_ok a" "value_ok b" "cxpr_value_binary_op mem op a b = Handled v"
  shows "value_ok v"
  by (rule value_binary_op_ok [OF assms(3,1,2)])

theorem value_binary_op_invariant_witness:
  "cxpr_value_binary_op (\<lambda>n. True) CXPR_VALOP_ADD (cxpr_struct (Some [(''x'', cxpr_int64 4)])) (cxpr_struct (Some [(''x'', cxpr_int64 5)]))
     = Handled (cxpr_struct (Some [(''x'', cxpr_int64 9)])) \<and>
   value_ok (cxpr_struct (Some [(''x'', cxpr_int64 9)]))"
proof -
  let ?a = "cxpr_struct (Some [(''x'', cxpr_int64 4)])" and ?b = "cxpr_struct (Some [(''x'', cxpr_int64 5)])"
  have run: "cxpr_value_binary_op (\<lambda>n. True) CXPR_VALOP_ADD ?a ?b = Handled (cxpr_struct (Some [(''x'', cxpr_int64 9)]))"
    by code_simp
  have "value_ok ?a" "value_ok ?b" by (simp_all add: int64_range_def)
  from value_binary_op_invariant [OF this run] run show ?thesis by blast
qed

text \<open>C20: 64-bit integer arithmetic never wraps. A sum, difference or product is the exact integer
  when it fits and the type-mismatch error when it does not; a quotient by a non-zero divisor is the
  quotient truncated toward zero exactly when that quotient fits, and division by zero is its own
  error.\<close>

theorem int64_arithmetic_never_wraps:
  assumes "int64_range a" "int64_range b"
  shows "(\<forall>op r. (op, r) \<in> {(CXPR_VALOP_ADD, a + b), (CXPR_VALOP_SUB, a - b), (CXPR_VALOP_MUL, a * b)} \<longrightarrow>
      (if int64_range r then cxpr_value_binary_op mem op (cxpr_int64 a) (cxpr_int64 b) = Handled (cxpr_int64 r)
       else \<exists>m. cxpr_value_binary_op mem op (cxpr_int64 a) (cxpr_int64 b) = Failed CXPR_ERR_TYPE_MISMATCH m)) \<and>
    (if b = 0 then cxpr_value_binary_op mem CXPR_VALOP_DIV (cxpr_int64 a) (cxpr_int64 b) =
         Failed CXPR_ERR_DIVISION_BY_ZERO ''Division by zero''
     else if int64_range (c_div a b)
     then cxpr_value_binary_op mem CXPR_VALOP_DIV (cxpr_int64 a) (cxpr_int64 b) = Handled (cxpr_int64 (c_div a b))
     else \<exists>m. cxpr_value_binary_op mem CXPR_VALOP_DIV (cxpr_int64 a) (cxpr_int64 b) = Failed CXPR_ERR_TYPE_MISMATCH m) \<and>
    (b \<noteq> 0 \<longrightarrow> \<bar>a - c_div a b * b\<bar> < \<bar>b\<bar> \<and> \<bar>c_div a b * b\<bar> \<le> \<bar>a\<bar>)"
proof -
  have op: "cxpr_value_binary_op mem op (cxpr_int64 a) (cxpr_int64 b) = int64_binary_op op a b" for op
    by (simp add: cxpr_value_binary_op.simps [of mem op "cxpr_int64 a" "cxpr_int64 b"]
        cxpr_value_binary_op_impl.simps [of mem op "cxpr_int64 a" "cxpr_int64 b"] is_temporal_def)
  have "\<bar>a - c_div a b * b\<bar> < \<bar>b\<bar> \<and> \<bar>c_div a b * b\<bar> \<le> \<bar>a\<bar>" if "b \<noteq> 0"
  proof -
    define m where "m = (\<bar>a\<bar> div \<bar>b\<bar>) * \<bar>b\<bar>"
    have cd: "c_div a b * b = sgn a * m"
      using that by (simp add: c_div_def m_def ac_simps abs_sgn)
    define r where "r = \<bar>a\<bar> mod \<bar>b\<bar>"
    have "m + r = \<bar>a\<bar>" "0 \<le> r" "r < \<bar>b\<bar>" using that by (simp_all add: m_def r_def)
    moreover have "0 \<le> m" by (simp add: m_def div_int_pos_iff)
    ultimately show ?thesis unfolding cd by (cases "a = 0"; cases "0 < a") auto
  qed
  then show ?thesis
    unfolding op using c_div_range [OF assms]
    by (intro conjI; simp add: int64_binary_op_def int64_checked_def op_failures)
qed

theorem int64_arithmetic_never_wraps_witness:
  "cxpr_value_binary_op (\<lambda>n. True) CXPR_VALOP_ADD (cxpr_int64 2) (cxpr_int64 3) = Handled (cxpr_int64 5) \<and>
   (\<exists>m. cxpr_value_binary_op (\<lambda>n. True) CXPR_VALOP_ADD (cxpr_int64 INT64_MAX) (cxpr_int64 1) = Failed CXPR_ERR_TYPE_MISMATCH m)"
  using int64_arithmetic_never_wraps [of 2 3 "\<lambda>n. True"] int64_arithmetic_never_wraps [of INT64_MAX 1 "\<lambda>n. True"]
  by (simp add: int64_range_def)

text \<open>C29: timestamp and duration arithmetic is a torsor where it is defined: shifting a timestamp by
  a duration and subtracting either operand gives back the other one, and shifting by the difference
  of two timestamps leads from one to the other.\<close>

theorem temporal_shift_roundtrip:
  assumes "int64_range t" "int64_range d" "int64_range u"
    and "cxpr_value_binary_op mem CXPR_VALOP_ADD (cxpr_timestamp t) (cxpr_duration d) = Handled v"
    and "cxpr_value_binary_op mem CXPR_VALOP_SUB (cxpr_timestamp u) (cxpr_timestamp t) = Handled w"
  shows "cxpr_value_binary_op mem CXPR_VALOP_SUB v (cxpr_timestamp t) = Handled (cxpr_duration d) \<and>
    cxpr_value_binary_op mem CXPR_VALOP_SUB v (cxpr_duration d) = Handled (cxpr_timestamp t) \<and>
    cxpr_value_binary_op mem CXPR_VALOP_ADD (cxpr_timestamp t) w = Handled (cxpr_timestamp u) \<and>
    cxpr_value_binary_op mem CXPR_VALOP_ADD w (cxpr_timestamp t) = Handled (cxpr_timestamp u)"
proof -
  have v: "v = cxpr_timestamp (t + d)" and w: "w = cxpr_duration (u - t)"
    using assms(4,5) by (auto simp: cxpr_value_binary_op.simps is_temporal_def temporal_binary_op_def dest!: int64_unchecked_ok)
  show ?thesis
    using assms(1-3) by (simp add: v w cxpr_value_binary_op.simps is_temporal_def temporal_binary_op_def int64_unchecked_def)
qed

theorem temporal_shift_roundtrip_witness:
  "cxpr_value_binary_op (\<lambda>n. True) CXPR_VALOP_SUB (cxpr_timestamp 7) (cxpr_timestamp 5) = Handled (cxpr_duration 2)"
proof -
  have "cxpr_value_binary_op (\<lambda>n. True) CXPR_VALOP_ADD (cxpr_timestamp 5) (cxpr_duration 2) = Handled (cxpr_timestamp 7)"
    "cxpr_value_binary_op (\<lambda>n. True) CXPR_VALOP_SUB (cxpr_timestamp 9) (cxpr_timestamp 5) = Handled (cxpr_duration 4)"
    by code_simp+
  from temporal_shift_roundtrip [OF _ _ _ this] show ?thesis by (simp add: int64_range_def)
qed

text \<open>Unlike 64-bit integers, temporal sums and differences are not checked: the signed
  overflow is reached exactly when the exact result does not fit.\<close>

theorem temporal_overflow_unchecked:
  "(cxpr_value_binary_op mem CXPR_VALOP_ADD (cxpr_timestamp t) (cxpr_duration d) = Undefined \<longleftrightarrow> \<not> int64_range (t + d)) \<and>
   (cxpr_value_binary_op mem CXPR_VALOP_SUB (cxpr_timestamp t) (cxpr_timestamp u) = Undefined \<longleftrightarrow> \<not> int64_range (t - u)) \<and>
   (cxpr_value_binary_op mem CXPR_VALOP_ADD (cxpr_duration d) (cxpr_duration e) = Undefined \<longleftrightarrow> \<not> int64_range (d + e)) \<and>
   cxpr_value_binary_op mem CXPR_VALOP_ADD (cxpr_timestamp INT64_MAX) (cxpr_duration 1) = Undefined"
  by (simp add: cxpr_value_binary_op.simps is_temporal_def temporal_binary_op_def int64_unchecked_def)
    (simp add: int64_range_def)

text \<open>C28: arithmetic on two structs is field-wise. It succeeds exactly when the operator is not a
  comparison, both structs have the same number of fields and, for every field of the left struct,
  the field of that name in the right struct combines with it; the result has the left struct's field
  names in their order, with the combined values.\<close>

theorem struct_arithmetic_fieldwise:
  assumes "\<forall>n. mem n" "value_ok (cxpr_struct (Some ls))" "value_ok (cxpr_struct (Some rs))"
  shows "cxpr_value_binary_op mem op (cxpr_struct (Some ls)) (cxpr_struct (Some rs)) = Handled (cxpr_struct (Some fs)) \<longleftrightarrow>
    op \<in> {CXPR_VALOP_ADD, CXPR_VALOP_SUB, CXPR_VALOP_MUL, CXPR_VALOP_DIV} \<and> length rs = length ls \<and>
    list_all2 (\<lambda>(n, x) (m, z). m = n \<and>
      (\<exists>y. map_of rs n = Some y \<and> cxpr_value_binary_op_impl mem op x y = Handled z)) ls fs"
proof -
  let ?a = "cxpr_struct (Some ls)" and ?b = "cxpr_struct (Some rs)"
  have ord: "\<not> is_ordering op \<longleftrightarrow> op \<in> {CXPR_VALOP_ADD, CXPR_VALOP_SUB, CXPR_VALOP_MUL, CXPR_VALOP_DIV}"
    by (cases op) (simp_all add: is_ordering_def)
  have ro: "right_operand ?b n = map_of rs n" for n by (simp add: right_operand_def cxpr_struct_find_field_def)
  have new: "cxpr_struct_value_new mem ws = Some ws" if loop: "struct_op_loop mem op True ?a ?b ls = Handled ws" for ws
  proof -
    have "value_ok w" if mw: "(m, w) \<in> set ws" for m w
    proof -
      obtain x y where "(m, x) \<in> set ls" "right_operand ?b m = Some y" "cxpr_value_binary_op_impl mem op x y = Handled w"
        by (rule struct_loop_result [OF loop mw]) simp
      with assms(2,3) show ?thesis
        using impl_ok right_operand_ok [OF _ assms(3)] by (force simp: list_all_iff)
    qed
    then have "list_all (\<lambda>p. value_ok (snd p)) ws" by (auto simp: list_all_iff)
    with fields_ok_no_null assms(1) show ?thesis by (intro struct_value_new_alloc) auto
  qed
  have "cxpr_value_binary_op mem op ?a ?b = Handled (cxpr_struct (Some fs)) \<longleftrightarrow>
      \<not> is_ordering op \<and> length rs = length ls \<and> struct_op_loop mem op True ?a ?b ls = Handled fs"
    using assms(1) new
    by (auto simp: cxpr_value_binary_op.simps [of mem op ?a ?b] struct_op_Handled is_temporal_def)
  then show ?thesis by (simp add: ord struct_op_loop_Handled ro)
qed

theorem struct_arithmetic_fieldwise_witness:
  "cxpr_value_binary_op (\<lambda>n. True) CXPR_VALOP_MUL
     (cxpr_struct (Some [(''x'', cxpr_int64 2), (''y'', cxpr_int64 3)]))
     (cxpr_struct (Some [(''y'', cxpr_int64 5), (''x'', cxpr_int64 7)])) =
   Handled (cxpr_struct (Some [(''x'', cxpr_int64 14), (''y'', cxpr_int64 15)]))"
  by (subst struct_arithmetic_fieldwise)
    (simp_all add: int64_range_def cxpr_value_binary_op_impl.simps is_temporal_def int64_binary_op_def int64_checked_def)

text \<open>C30: a deep copy is all or nothing. Under any allocator the copy of a value without NULL
  payloads either reports failure (a NULL payload at the top) or equals the value at every depth, and
  it succeeds when every allocation does.\<close>

theorem value_clone_exact:
  assumes "no_null v"
  shows "(cxpr_value_clone_failed v (cxpr_value_clone mem v) \<or> cxpr_value_clone mem v = v) \<and>
    cxpr_value_clone (\<lambda>n. True) v = v"
  using clone_exact(1) [OF assms, of mem] clone_exact(1) [OF assms clone_succeeds(1)] by auto

theorem value_clone_exact_witness:
  "cxpr_value_clone (\<lambda>n. True) (cxpr_array (Some [cxpr_string (Some ''a''), cxpr_struct (Some [(''k'', cxpr_null)])])) =
   cxpr_array (Some [cxpr_string (Some ''a''), cxpr_struct (Some [(''k'', cxpr_null)])])"
  using value_clone_exact [of "cxpr_array (Some [cxpr_string (Some ''a''), cxpr_struct (Some [(''k'', cxpr_null)])])"
      "\<lambda>n. True"] by simp

end
