(* ===== verification/Cxpr_Ir.thy ===== *)
theory Cxpr_Ir
  imports Cxpr_Value Cxpr_Ast
begin

text \<open>
  The intermediate code of \<^verbatim>\<open>src/ir\<close>: instructions, the instruction buffer
  (\<^verbatim>\<open>program.c\<close>) and the two validators of \<^verbatim>\<open>validate.c\<close>, which decide whether a program
  may run on the unchecked executors of \<^verbatim>\<open>exec/fast.c\<close>. Both validators run one worklist
  data-flow analysis; it is written once, over the transfer function, and proved to compute a
  consistent assignment of stack shapes to instructions. The members of the union inside an
  instruction are separate fields, since an opcode reads only its own.
\<close>

section \<open>Instructions\<close>

datatype cxpr_opcode =
    CXPR_OP_PUSH_CONST | CXPR_OP_PUSH_INT64 | CXPR_OP_PUSH_BOOL | CXPR_OP_PUSH_STRING
  | CXPR_OP_BUILD_ARRAY | CXPR_OP_LOAD_LOCAL | CXPR_OP_LOAD_LOCAL_SQUARE | CXPR_OP_LOAD_VAR
  | CXPR_OP_LOAD_VAR_SQUARE | CXPR_OP_LOAD_PARAM | CXPR_OP_LOAD_PARAM_SQUARE | CXPR_OP_LOAD_FIELD
  | CXPR_OP_LOAD_FIELD_SQUARE | CXPR_OP_LOAD_NAMED_FIELD | CXPR_OP_LOAD_CHAIN
  | CXPR_OP_ADD | CXPR_OP_SUB | CXPR_OP_MUL | CXPR_OP_SQUARE | CXPR_OP_DIV | CXPR_OP_MOD
  | CXPR_OP_CMP_EQ | CXPR_OP_CMP_NEQ | CXPR_OP_CMP_LT | CXPR_OP_CMP_LTE | CXPR_OP_CMP_GT
  | CXPR_OP_CMP_GTE | CXPR_OP_NOT | CXPR_OP_NEG | CXPR_OP_SIGN | CXPR_OP_SQRT | CXPR_OP_ABS
  | CXPR_OP_FLOOR | CXPR_OP_CEIL | CXPR_OP_ROUND | CXPR_OP_POW | CXPR_OP_CLAMP
  | CXPR_OP_CALL_PRODUCER | CXPR_OP_CALL_PRODUCER_CONST | CXPR_OP_CALL_PRODUCER_CONST_FIELD
  | CXPR_OP_GET_FIELD | CXPR_OP_CALL_UNARY | CXPR_OP_CALL_BINARY | CXPR_OP_CALL_TERNARY
  | CXPR_OP_CALL_FUNC | CXPR_OP_CALL_DEFINED | CXPR_OP_CALL_AST | CXPR_OP_JUMP
  | CXPR_OP_JUMP_IF_FALSE | CXPR_OP_JUMP_IF_TRUE | CXPR_OP_LOOKBACK_PUSH | CXPR_OP_LOOKBACK_POP
  | CXPR_OP_LOOKBACK_RESOLVE | CXPR_OP_STORE_LOCAL | CXPR_OP_RETURN | CXPR_OP_INDEX

text \<open>
  A registry entry. The function pointers a program calls on numbers are functions; those that
  take trees and contexts are host code reached through the evaluator, and only their presence
  is kept here. \<open>fe_native_kind\<close> selects the member of the union of native functions. An array
  with its count is a list; the field list of a parameter is empty when the pointer is NULL.
\<close>

datatype cxpr_native_kind =
    CXPR_NATIVE_KIND_NONE | CXPR_NATIVE_KIND_NULLARY | CXPR_NATIVE_KIND_UNARY
  | CXPR_NATIVE_KIND_BINARY | CXPR_NATIVE_KIND_TERNARY

record cxpr_func_entry =
  fe_name :: string
  fe_nullary :: double
  fe_unary :: "double \<Rightarrow> double"
  fe_binary :: "double \<Rightarrow> double \<Rightarrow> double"
  fe_ternary :: "double \<Rightarrow> double \<Rightarrow> double \<Rightarrow> double"
  fe_sync_func :: "(double list \<Rightarrow> double) option"
  fe_value_func :: "(cxpr_value list \<Rightarrow> cxpr_value) option"
  fe_typed_func :: bool
  fe_has_return_type :: bool
  fe_return_type :: cxpr_value_type
  fe_ast_func :: bool
  fe_ast_func_handler :: bool
  fe_struct_producer :: bool
  fe_model_producer :: bool
  fe_native_kind :: cxpr_native_kind
  fe_min_args :: nat
  fe_max_args :: nat
  fe_param_names :: "string list"
  fe_struct_fields :: "string list option"
  fe_struct_argc :: nat
  fe_defined_body :: "cxpr_expr_ast option"
  fe_defined_param_names :: "string list"
  fe_defined_param_fields :: "string list list"
  fe_defined_return_fields :: "(string \<times> cxpr_expr_ast) list"
  fe_arg_types :: "cxpr_value_type list"

abbreviation fe_defined_return_field_count :: "cxpr_func_entry \<Rightarrow> nat" where
  "fe_defined_return_field_count e \<equiv> length (fe_defined_return_fields e)"

text \<open>The zeroed entry under a name (the copy of the name succeeds); the NULL function pointers of
  the native union are never called.\<close>

definition cxpr_registry_prepare_entry :: "string \<Rightarrow> cxpr_func_entry" where
  "cxpr_registry_prepare_entry name =
     \<lparr>fe_name = name, fe_nullary = DNaN, fe_unary = (\<lambda>a. DNaN), fe_binary = (\<lambda>a b. DNaN),
      fe_ternary = (\<lambda>a b c. DNaN), fe_sync_func = None, fe_value_func = None, fe_typed_func = False,
      fe_has_return_type = False, fe_return_type = CXPR_VALUE_NUMBER, fe_ast_func = False,
      fe_ast_func_handler = False, fe_struct_producer = False, fe_model_producer = False,
      fe_native_kind = CXPR_NATIVE_KIND_NONE, fe_min_args = 0, fe_max_args = 0, fe_param_names = [],
      fe_struct_fields = None, fe_struct_argc = 0, fe_defined_body = None, fe_defined_param_names = [],
      fe_defined_param_fields = [], fe_defined_return_fields = [], fe_arg_types = []\<rparr>"

text \<open>The registry a caller passes; \<open>None\<close> is NULL.\<close>

type_synonym cxpr_registry = "cxpr_func_entry list option"

definition cxpr_registry_find :: "cxpr_registry \<Rightarrow> string \<Rightarrow> cxpr_func_entry option" where
  "cxpr_registry_find reg name =
     (case reg of None \<Rightarrow> None | Some es \<Rightarrow> find (\<lambda>e. fe_name e = name) es)"

text \<open>The canonical parameter names; \<open>[]\<close> is the NULL result.\<close>

definition cxpr_registry_entry_param_names :: "cxpr_func_entry \<Rightarrow> string list" where
  "cxpr_registry_entry_param_names e =
     (if fe_defined_param_names e \<noteq> [] then fe_defined_param_names e else fe_param_names e)"

text \<open>\<open>in_ast\<close> is the tree an instruction borrows (\<open>ast\<close> of \<open>CALL_AST\<close>, else \<open>payload\<close>);
  \<open>in_args\<close> is the payload of constant producer arguments.\<close>

record cxpr_ir_instr =
  in_op :: cxpr_opcode
  in_name :: string
  in_hash :: ulong
  in_value :: double
  in_index :: nat
  in_func :: "cxpr_func_entry option"
  in_int64 :: int
  in_aux_name :: string
  in_ast :: "cxpr_expr_ast option"
  in_args :: "double list"

text \<open>\<open>(cxpr_ir_instr){ .op = op }\<close>.\<close>

definition plain_instr :: "cxpr_opcode \<Rightarrow> cxpr_ir_instr" where
  "plain_instr op =
     \<lparr>in_op = op, in_name = '''', in_hash = 0, in_value = dbl_zero, in_index = 0, in_func = None,
      in_int64 = 0, in_aux_name = '''', in_ast = None, in_args = []\<rparr>"

lemma plain_instr_sel [simp]:
  "in_op (plain_instr op) = op" "in_name (plain_instr op) = ''''" "in_index (plain_instr op) = 0"
  "in_func (plain_instr op) = None" "in_value (plain_instr op) = dbl_zero" "in_ast (plain_instr op) = None"
  "in_hash (plain_instr op) = 0" "in_int64 (plain_instr op) = 0" "in_aux_name (plain_instr op) = ''''"
  by (simp_all add: plain_instr_def)

type_synonym ir_code = "cxpr_ir_instr list"

definition CXPR_IR_STACK_CAPACITY :: nat where "CXPR_IR_STACK_CAPACITY = 64"

definition CXPR_MAX_CALL_ARGS :: nat where "CXPR_MAX_CALL_ARGS = 32"

text \<open>The size of the validators' work arrays, the longest program they accept.\<close>

definition validate_limit :: nat where "validate_limit = 256"

section \<open>The instruction buffer\<close>

datatype cxpr_ir_result = CXPR_IR_RESULT_UNKNOWN | CXPR_IR_RESULT_DOUBLE | CXPR_IR_RESULT_BOOL

text \<open>The count is the length of the code; \<open>ir_lookup_cache\<close> says whether the per-instruction cache
  array is allocated.\<close>

record cxpr_ir_program =
  ir_code :: "cxpr_ir_instr list"
  ir_capacity :: nat
  ir_ast :: "cxpr_expr_ast option"
  ir_lookup_cache :: bool
  ir_fast_result_kind :: cxpr_ir_result

definition cxpr_ir_program_reset :: cxpr_ir_program where
  "cxpr_ir_program_reset =
     \<lparr>ir_code = [], ir_capacity = 0, ir_ast = None, ir_lookup_cache = False,
      ir_fast_result_kind = CXPR_IR_RESULT_UNKNOWN\<rparr>"

abbreviation ir_count :: "cxpr_ir_program \<Rightarrow> nat" where "ir_count p \<equiv> length (ir_code p)"

abbreviation sizeof_instr :: nat where "sizeof_instr \<equiv> 48"

definition cxpr_ir_emit :: "(nat \<Rightarrow> bool) \<Rightarrow> cxpr_ir_program \<Rightarrow> cxpr_ir_instr
    \<Rightarrow> (cxpr_error_code \<times> string) + cxpr_ir_program" where
  "cxpr_ir_emit mem p i =
     (if ir_count p = ir_capacity p then
        (if SIZE_MAX div 2 < ir_capacity p then Inl (CXPR_ERR_OUT_OF_MEMORY, ''Out of memory'')
         else let new_capacity = (if ir_capacity p = 0 then 8 else ir_capacity p * 2) in
           if \<not> mem (new_capacity * sizeof_instr) then Inl (CXPR_ERR_OUT_OF_MEMORY, ''Out of memory'')
           else Inr (p\<lparr>ir_code := ir_code p @ [i], ir_capacity := new_capacity\<rparr>))
      else Inr (p\<lparr>ir_code := ir_code p @ [i]\<rparr>))"

definition cxpr_ir_next_index :: "cxpr_ir_program \<Rightarrow> nat" where
  "cxpr_ir_next_index p = ir_count p"

definition cxpr_ir_patch_target :: "cxpr_ir_program \<Rightarrow> nat \<Rightarrow> nat \<Rightarrow> cxpr_ir_program" where
  "cxpr_ir_patch_target p at target =
     (if ir_count p \<le> at then p
      else p\<lparr>ir_code := (ir_code p)[at := (ir_code p ! at)\<lparr>in_index := target\<rparr>]\<rparr>)"

section \<open>The worklist analysis\<close>

text \<open>
  \<open>states ! ip\<close> is the shape recorded for an instruction, \<open>None\<close> when it was not reached
  yet (\<open>SIZE_MAX\<close>, or \<open>!seen\<close>); the worklist is a stack. A new target is recorded and
  pushed, a known one must agree. \<open>cap\<close> is the explicit bound on the worklist, if the code
  checks one.
\<close>

definition wl_enqueue :: "nat option \<Rightarrow> nat \<Rightarrow> 'a \<Rightarrow> 'a option list \<Rightarrow> nat list
    \<Rightarrow> ('a option list \<times> nat list) option" where
  "wl_enqueue cap target s states wl =
     (if length states \<le> target \<or> (case cap of None \<Rightarrow> False | Some n \<Rightarrow> n \<le> length wl) then None
      else case states ! target of
          None \<Rightarrow> Some (states[target := Some s], target # wl)
        | Some s' \<Rightarrow> if s' = s then Some (states, wl) else None)"

fun wl_enqueue_all :: "nat option \<Rightarrow> (nat \<times> 'a) list \<Rightarrow> 'a option list \<Rightarrow> nat list
    \<Rightarrow> ('a option list \<times> nat list) option" where
  "wl_enqueue_all cap [] states wl = Some (states, wl)"
| "wl_enqueue_all cap ((target, s) # ts) states wl =
     (case wl_enqueue cap target s states wl of
        None \<Rightarrow> None
      | Some (states', wl') \<Rightarrow> wl_enqueue_all cap ts states' wl')"

definition unseen :: "'a option list \<Rightarrow> nat" where
  "unseen states = length (filter (\<lambda>s. s = None) states)"

lemma unseen_update:
  "i < length states \<Longrightarrow> states ! i = None \<Longrightarrow> Suc (unseen (states[i := Some s])) = unseen states"
proof (induction states arbitrary: i)
  case (Cons a states)
  then show ?case by (cases i) (auto simp: unseen_def)
qed simp

lemma wl_enqueue_measure:
  "wl_enqueue cap t s states wl = Some (states', wl') \<Longrightarrow>
     2 * unseen states' + length wl' \<le> 2 * unseen states + length wl \<and> length states' = length states"
  using unseen_update [of t states s]
  by (auto simp: wl_enqueue_def split: if_splits option.splits)

lemma wl_enqueue_all_measure:
  "wl_enqueue_all cap ts states wl = Some (states', wl') \<Longrightarrow>
     2 * unseen states' + length wl' \<le> 2 * unseen states + length wl \<and> length states' = length states"
  by (induction cap ts states wl rule: wl_enqueue_all.induct)
    (fastforce split: option.splits prod.splits dest!: wl_enqueue_measure)+

text \<open>The \<open>while (work_count > 0)\<close> loop; \<open>transfer ip s\<close> lists the successors of the
  instruction with their shapes, \<open>None\<close> when it is rejected.\<close>

function wl_loop :: "nat option \<Rightarrow> (nat \<Rightarrow> 'a \<Rightarrow> (nat \<times> 'a) list option) \<Rightarrow> 'a option list \<Rightarrow> nat list
    \<Rightarrow> 'a option list option" where
  "wl_loop cap transfer states [] = Some states"
| "wl_loop cap transfer states (ip # wl) =
     (case (if ip < length states then states ! ip else None) of
        None \<Rightarrow> None
      | Some s \<Rightarrow>
          (case transfer ip s of
             None \<Rightarrow> None
           | Some ts \<Rightarrow>
               (case wl_enqueue_all cap ts states wl of
                  None \<Rightarrow> None
                | Some (states', wl') \<Rightarrow> wl_loop cap transfer states' wl')))"
  by pat_completeness auto
termination
proof (relation "measure (\<lambda>(cap, transfer, states, wl). 2 * unseen states + length wl)", goal_cases)
  case (2 cap transfer states ip wl s ts p states' wl')
  then have "wl_enqueue_all cap ts states wl = Some (states', wl')" by simp
  from wl_enqueue_all_measure [OF this] 2(4) [symmetric] show ?case by simp
qed simp

section \<open>The validators\<close>

definition cxpr_ir_scalar_stack_effect :: "cxpr_ir_instr \<Rightarrow> (nat \<times> nat) option" where
  "cxpr_ir_scalar_stack_effect i =
     (let op = in_op i in
      if op \<in> {CXPR_OP_PUSH_CONST, CXPR_OP_PUSH_BOOL, CXPR_OP_LOAD_LOCAL, CXPR_OP_LOAD_LOCAL_SQUARE,
               CXPR_OP_LOAD_VAR, CXPR_OP_LOAD_VAR_SQUARE, CXPR_OP_LOAD_PARAM, CXPR_OP_LOAD_PARAM_SQUARE}
      then Some (0, 1)
      else if op \<in> {CXPR_OP_ADD, CXPR_OP_SUB, CXPR_OP_MUL, CXPR_OP_DIV, CXPR_OP_MOD, CXPR_OP_POW,
               CXPR_OP_CMP_EQ, CXPR_OP_CMP_NEQ, CXPR_OP_CMP_LT, CXPR_OP_CMP_LTE, CXPR_OP_CMP_GT,
               CXPR_OP_CMP_GTE, CXPR_OP_CALL_BINARY}
      then Some (2, 1)
      else if op \<in> {CXPR_OP_CLAMP, CXPR_OP_CALL_TERNARY} then Some (3, 1)
      else if op \<in> {CXPR_OP_SQUARE, CXPR_OP_NOT, CXPR_OP_NEG, CXPR_OP_SIGN, CXPR_OP_SQRT, CXPR_OP_ABS,
               CXPR_OP_FLOOR, CXPR_OP_CEIL, CXPR_OP_ROUND, CXPR_OP_CALL_UNARY, CXPR_OP_GET_FIELD}
      then Some (1, 1)
      else if op = CXPR_OP_CALL_PRODUCER_CONST_FIELD then (if 32 < in_index i then None else Some (0, 1))
      else if op \<in> {CXPR_OP_CALL_FUNC, CXPR_OP_CALL_DEFINED}
      then (if 32 < in_index i then None else Some (in_index i, 1))
      else if op \<in> {CXPR_OP_JUMP_IF_FALSE, CXPR_OP_JUMP_IF_TRUE} then Some (1, 0)
      else if op = CXPR_OP_JUMP then Some (0, 0)
      else if op = CXPR_OP_RETURN then Some (1, 0)
      else None)"

text \<open>One turn of the loop in \<open>cxpr_ir_validate_scalar_fast_program\<close>: the targets it
  records, with the depth they must have.\<close>

definition scalar_transfer :: "ir_code \<Rightarrow> nat \<Rightarrow> nat \<Rightarrow> (nat \<times> nat) list option" where
  "scalar_transfer code ip depth =
     (let i = code ! ip; n = length code in
      case cxpr_ir_scalar_stack_effect i of
        None \<Rightarrow> None
      | Some (pops, pushes) \<Rightarrow>
          if depth < pops then None
          else let next_depth = depth - pops + pushes in
            if CXPR_IR_STACK_CAPACITY < next_depth then None
            else if in_op i = CXPR_OP_RETURN then (if depth \<noteq> 1 then None else Some [])
            else if in_op i = CXPR_OP_JUMP
            then (if n \<le> in_index i then None else Some [(in_index i, next_depth)])
            else if in_op i = CXPR_OP_JUMP_IF_FALSE \<or> in_op i = CXPR_OP_JUMP_IF_TRUE
            then (if n \<le> in_index i \<or> n \<le> ip + 1 then None
                  else Some [(in_index i, next_depth), (ip + 1, next_depth)])
            else if n \<le> ip + 1 then None
            else Some [(ip + 1, next_depth)])"

definition scalar_analysis :: "ir_code \<Rightarrow> nat option list option" where
  "scalar_analysis code =
     (if code = [] \<or> validate_limit < length code then None
      else wl_loop None (scalar_transfer code) ((replicate (length code) None)[0 := Some 0]) [0])"

definition cxpr_ir_validate_scalar_fast_program :: "ir_code \<Rightarrow> bool" where
  "cxpr_ir_validate_scalar_fast_program code \<longleftrightarrow> scalar_analysis code \<noteq> None"

text \<open>The shape of the split stacks: the number of doubles and of booleans.\<close>

record cxpr_ir_fast_stack_state =
  numbers :: nat
  bools :: nat

definition cxpr_ir_bool_fast_stack_effect :: "cxpr_ir_instr \<Rightarrow> cxpr_ir_fast_stack_state
    \<Rightarrow> cxpr_ir_fast_stack_state option" where
  "cxpr_ir_bool_fast_stack_effect i s =
     (let op = in_op i; n = numbers s; b = bools s in
      if op \<in> {CXPR_OP_PUSH_CONST, CXPR_OP_LOAD_LOCAL, CXPR_OP_LOAD_LOCAL_SQUARE, CXPR_OP_LOAD_VAR,
               CXPR_OP_LOAD_VAR_SQUARE, CXPR_OP_LOAD_PARAM, CXPR_OP_LOAD_PARAM_SQUARE}
      then Some (s\<lparr>numbers := n + 1\<rparr>)
      else if op = CXPR_OP_PUSH_BOOL then Some (s\<lparr>bools := b + 1\<rparr>)
      else if op \<in> {CXPR_OP_ADD, CXPR_OP_SUB, CXPR_OP_MUL, CXPR_OP_DIV, CXPR_OP_MOD, CXPR_OP_POW}
      then (if n < 2 then None else Some (s\<lparr>numbers := n - 1\<rparr>))
      else if op \<in> {CXPR_OP_CMP_EQ, CXPR_OP_CMP_NEQ, CXPR_OP_CMP_LT, CXPR_OP_CMP_LTE, CXPR_OP_CMP_GT,
               CXPR_OP_CMP_GTE}
      then (if n < 2 then None else Some (s\<lparr>numbers := n - 2, bools := b + 1\<rparr>))
      else if op \<in> {CXPR_OP_SQUARE, CXPR_OP_NEG, CXPR_OP_SIGN, CXPR_OP_SQRT, CXPR_OP_ABS, CXPR_OP_FLOOR,
               CXPR_OP_CEIL, CXPR_OP_ROUND, CXPR_OP_CALL_UNARY}
      then (if 1 \<le> n then Some s else None)
      else if op = CXPR_OP_NOT then (if 1 \<le> b then Some s else None)
      else if op \<in> {CXPR_OP_CLAMP, CXPR_OP_CALL_TERNARY}
      then (if n < 3 then None else Some (s\<lparr>numbers := n - 2\<rparr>))
      else if op = CXPR_OP_CALL_BINARY then (if n < 2 then None else Some (s\<lparr>numbers := n - 1\<rparr>))
      else if op = CXPR_OP_CALL_FUNC then
        (if 32 < in_index i \<or> n < in_index i then None
         else case in_func i of
             None \<Rightarrow> None
           | Some f \<Rightarrow>
               if fe_value_func f \<noteq> None \<and> fe_has_return_type f \<and> fe_return_type f = CXPR_VALUE_BOOL
               then Some (s\<lparr>numbers := n - in_index i, bools := b + 1\<rparr>)
               else if \<not> fe_typed_func f then Some (s\<lparr>numbers := n - in_index i + 1\<rparr>)
               else None)
      else if op = CXPR_OP_CALL_DEFINED then
        (if 32 < in_index i \<or> n < in_index i then None
         else case in_func i of
             None \<Rightarrow> None
           | Some f \<Rightarrow>
               if fe_has_return_type f \<and> fe_return_type f = CXPR_VALUE_BOOL
               then Some (s\<lparr>numbers := n - in_index i, bools := b + 1\<rparr>)
               else if fe_has_return_type f \<and> fe_return_type f = CXPR_VALUE_NUMBER
               then Some (s\<lparr>numbers := n - in_index i + 1\<rparr>)
               else None)
      else if op \<in> {CXPR_OP_JUMP_IF_FALSE, CXPR_OP_JUMP_IF_TRUE}
      then (if b < 1 then None else Some (s\<lparr>bools := b - 1\<rparr>))
      else if op = CXPR_OP_JUMP then Some s
      else if op = CXPR_OP_RETURN then (if n \<noteq> 0 \<or> b \<noteq> 1 then None else Some (s\<lparr>bools := 0\<rparr>))
      else None)"

definition bool_transfer :: "ir_code \<Rightarrow> nat \<Rightarrow> cxpr_ir_fast_stack_state
    \<Rightarrow> (nat \<times> cxpr_ir_fast_stack_state) list option" where
  "bool_transfer code ip s =
     (let i = code ! ip in
      case cxpr_ir_bool_fast_stack_effect i s of
        None \<Rightarrow> None
      | Some s' \<Rightarrow>
          if CXPR_IR_STACK_CAPACITY < numbers s' \<or> CXPR_IR_STACK_CAPACITY < bools s' then None
          else if in_op i = CXPR_OP_RETURN then Some []
          else if in_op i = CXPR_OP_JUMP then Some [(in_index i, s')]
          else if length code \<le> ip + 1 then None
          else if in_op i = CXPR_OP_JUMP_IF_FALSE \<or> in_op i = CXPR_OP_JUMP_IF_TRUE
          then Some [(in_index i, s'), (ip + 1, s')]
          else Some [(ip + 1, s')])"

text \<open>\<open>cxpr_ir_bool_fast_enqueue\<close> is \<open>wl_enqueue (Some validate_limit)\<close>.\<close>

definition cxpr_ir_bool_fast_enqueue ::
    "nat \<Rightarrow> cxpr_ir_fast_stack_state \<Rightarrow> cxpr_ir_fast_stack_state option list \<Rightarrow> nat list
      \<Rightarrow> (cxpr_ir_fast_stack_state option list \<times> nat list) option" where
  "cxpr_ir_bool_fast_enqueue = wl_enqueue (Some validate_limit)"

definition bool_analysis :: "ir_code \<Rightarrow> cxpr_ir_fast_stack_state option list option" where
  "bool_analysis code =
     (if code = [] \<or> validate_limit < length code then None
      else wl_loop (Some validate_limit) (bool_transfer code)
             ((replicate (length code) None)[0 := Some \<lparr>numbers = 0, bools = 0\<rparr>]) [0])"

definition cxpr_ir_validate_bool_fast_program :: "ir_code \<Rightarrow> bool" where
  "cxpr_ir_validate_bool_fast_program code \<longleftrightarrow> bool_analysis code \<noteq> None"

section \<open>The analysis is consistent\<close>

text \<open>Every recorded instruction is accepted by the transfer function and its successors are
  recorded with the shapes it demands.\<close>

definition checked_at :: "(nat \<Rightarrow> 'a \<Rightarrow> (nat \<times> 'a) list option) \<Rightarrow> 'a option list \<Rightarrow> nat \<Rightarrow> 'a \<Rightarrow> bool" where
  "checked_at transfer states ip s \<longleftrightarrow>
     (\<exists>ts. transfer ip s = Some ts \<and> (\<forall>(t, u) \<in> set ts. t < length states \<and> states ! t = Some u))"

definition consistent :: "(nat \<Rightarrow> 'a \<Rightarrow> (nat \<times> 'a) list option) \<Rightarrow> 'a option list \<Rightarrow> bool" where
  "consistent transfer states \<longleftrightarrow>
     (\<forall>ip < length states. \<forall>s. states ! ip = Some s \<longrightarrow> checked_at transfer states ip s)"

definition extends :: "'a option list \<Rightarrow> 'a option list \<Rightarrow> bool" where
  "extends states states' \<longleftrightarrow> length states' = length states \<and>
     (\<forall>i < length states. states ! i \<noteq> None \<longrightarrow> states' ! i = states ! i)"

lemma extends_refl [simp]: "extends x x"
  by (simp add: extends_def)

lemma extends_trans: "extends a b \<Longrightarrow> extends b c \<Longrightarrow> extends a c"
  by (auto simp: extends_def)

lemma wl_enqueue_post:
  assumes "wl_enqueue cap t u states wl = Some (states', wl')"
  shows "extends states states' \<and> t < length states \<and> states' ! t = Some u \<and> set wl \<subseteq> set wl' \<and>
    (\<forall>i < length states. states ! i = None \<longrightarrow> states' ! i \<noteq> None \<longrightarrow> i \<in> set wl')"
  using assms by (auto simp: wl_enqueue_def extends_def nth_list_update split: if_splits option.splits)

lemma wl_enqueue_all_post:
  assumes "wl_enqueue_all cap ts states wl = Some (states', wl')"
  shows "extends states states' \<and> (\<forall>(t, u) \<in> set ts. t < length states \<and> states' ! t = Some u) \<and> set wl \<subseteq> set wl' \<and>
    (\<forall>i < length states. states ! i = None \<longrightarrow> states' ! i \<noteq> None \<longrightarrow> i \<in> set wl')"
  using assms
proof (induction cap ts states wl rule: wl_enqueue_all.induct)
  case (2 cap t u ts states wl)
  then obtain states1 wl1 where e: "wl_enqueue cap t u states wl = Some (states1, wl1)"
    and r: "wl_enqueue_all cap ts states1 wl1 = Some (states', wl')"
    by (auto split: option.splits)
  note a = wl_enqueue_post [OF e] and b = "2.IH" [OF e refl r]
  have len: "length states1 = length states" using a by (simp add: extends_def)
  have "states' ! t = Some u" using a b len by (auto simp: extends_def)
  moreover have "i \<in> set wl'" if "i < length states" "states ! i = None" "states' ! i \<noteq> None" for i
    using a b len that by (cases "states1 ! i") (auto simp: extends_def)
  ultimately show ?case using a b len extends_trans [of states states1 states'] by auto
qed auto

lemma checked_at_extends:
  "checked_at transfer states ip s \<Longrightarrow> extends states states' \<Longrightarrow> checked_at transfer states' ip s"
  unfolding checked_at_def extends_def by fastforce

lemma wl_loop_consistent:
  assumes "wl_loop cap transfer states wl = Some final"
    and "\<forall>ip < length states. \<forall>s. states ! ip = Some s \<longrightarrow> ip \<in> set wl \<or> checked_at transfer states ip s"
  shows "consistent transfer final \<and> extends states final"
  using assms
proof (induction cap transfer states wl rule: wl_loop.induct)
  case (1 cap transfer states)
  then show ?case by (auto simp: consistent_def)
next
  case (2 cap transfer states ip wl)
  then obtain s ts states' wl' where ip: "ip < length states" "states ! ip = Some s"
    and ts: "transfer ip s = Some ts" and e: "wl_enqueue_all cap ts states wl = Some (states', wl')"
    and r: "wl_loop cap transfer states' wl' = Some final"
    by (auto split: option.splits if_splits)
  note post = wl_enqueue_all_post [OF e]
  have len: "length states' = length states" using post by (simp add: extends_def)
  have here: "checked_at transfer states' ip s" using ts post len by (auto simp: checked_at_def)
  have "j \<in> set wl' \<or> checked_at transfer states' j u" if j: "j < length states'" "states' ! j = Some u" for j u
  proof (cases "states ! j")
    case None
    with post j len show ?thesis by auto
  next
    case (Some v)
    with post j len have v: "states ! j = Some u" by (auto simp: extends_def)
    with "2.prems"(2) j len have "j \<in> set (ip # wl) \<or> checked_at transfer states j u" by auto
    with here post v ip checked_at_extends show ?thesis by fastforce
  qed
  with "2.IH" [OF _ ts e refl r] ip post extends_trans show ?case by auto
qed

lemma wl_start_consistent:
  assumes "wl_loop cap transfer ((replicate n None)[0 := Some s0]) [0] = Some final" "0 < n"
  shows "consistent transfer final \<and> length final = n \<and> final ! 0 = Some s0"
proof -
  have "consistent transfer final \<and> extends ((replicate n None)[0 := Some s0]) final"
    by (rule wl_loop_consistent [OF assms(1)]) (auto simp: nth_list_update split: if_splits)
  with assms(2) show ?thesis by (auto simp: extends_def)
qed

lemma scalar_analysis_consistent:
  "scalar_analysis code = Some d \<Longrightarrow>
     consistent (scalar_transfer code) d \<and> length d = length code \<and> code \<noteq> [] \<and> d ! 0 = Some 0"
  using wl_start_consistent [of None "scalar_transfer code" "length code" 0 d]
  by (auto simp: scalar_analysis_def split: if_splits)

lemma bool_analysis_consistent:
  "bool_analysis code = Some d \<Longrightarrow>
     consistent (bool_transfer code) d \<and> length d = length code \<and> code \<noteq> [] \<and> d ! 0 = Some \<lparr>numbers = 0, bools = 0\<rparr>"
  using wl_start_consistent [of "Some validate_limit" "bool_transfer code" "length code" "\<lparr>numbers = 0, bools = 0\<rparr>" d]
  by (auto simp: bool_analysis_def split: if_splits)

end
