(* ===== verification/Cxpr_Call.thy ===== *)
theory Cxpr_Call
  imports Cxpr_Ir "HOL-Library.Multiset"
begin

text \<open>
  The binding of call arguments to parameters (\<^verbatim>\<open>src/src/call/args.c\<close>) and the checks of look-back
  offsets (\<^verbatim>\<open>src/src/lookback.c\<close>), which the compiler and the evaluators share. The slots a
  binding fills are a list of optional trees, \<open>Some\<close> where the C arrays \<open>used\<close> and \<open>out_args\<close> are
  set. The caller's \<open>out_args\<close> has \<open>CXPR_MAX_CALL_ARGS\<close> cells; a write past its end is the result
  \<open>Bind_overrun\<close>.
\<close>

section \<open>Binding arguments (call/args.c)\<close>

definition CXPR_MAX_PARAM_NAMES :: nat where "CXPR_MAX_PARAM_NAMES = 64"

definition cxpr_call_param_name_matches :: "string \<Rightarrow> string \<Rightarrow> bool" where
  "cxpr_call_param_name_matches param_name arg_name \<longleftrightarrow>
     param_name = arg_name \<or>
     param_name = ''value'' \<and> arg_name = ''condition'' \<or>
     param_name = ''mult'' \<and> arg_name = ''multiplier'' \<or>
     param_name = ''multiplier'' \<and> arg_name = ''mult'' \<or>
     param_name = ''samples'' \<and> arg_name = ''bars''"

text \<open>The search for the first matching parameter; the length of the list when there is none.\<close>

fun match_param :: "string list \<Rightarrow> string \<Rightarrow> nat" where
  "match_param [] a = 0"
| "match_param (p # ps) a = (if cxpr_call_param_name_matches p a then 0 else Suc (match_param ps a))"

text \<open>One candidate window: \<open>ps\<close> are its \<open>argc\<close> parameter names; \<open>None\<close> is \<open>candidate_ok = false\<close>.\<close>

fun bind_window :: "string list \<Rightarrow> (string option \<times> cxpr_expr_ast) list \<Rightarrow> bool \<Rightarrow> nat
    \<Rightarrow> cxpr_expr_ast option list \<Rightarrow> cxpr_expr_ast option list option" where
  "bind_window ps [] seen_named positional slots = (if None \<in> set slots then None else Some slots)"
| "bind_window ps ((None, arg) # args) seen_named positional slots =
     (if seen_named \<or> length slots \<le> positional then None
      else bind_window ps args False (positional + 1) (slots[positional := Some arg]))"
| "bind_window ps ((Some name, arg) # args) seen_named positional slots =
     (let match = match_param ps name in
      if length slots \<le> match \<or> slots ! match \<noteq> None then None
      else bind_window ps args True positional (slots[match := Some arg]))"

text \<open>The loop over the windows: \<open>params\<close> are the parameter names from \<open>window_start\<close> on.\<close>

fun cxpr_call_bind_named_window :: "(string option \<times> cxpr_expr_ast) list \<Rightarrow> string list
    \<Rightarrow> cxpr_expr_ast list option" where
  "cxpr_call_bind_named_window args params =
     (if length params < length args then None
      else case bind_window (take (length args) params) args False 0 (replicate (length args) None) of
          Some slots \<Rightarrow> Some (map the slots)
        | None \<Rightarrow> (case params of [] \<Rightarrow> None | _ # params' \<Rightarrow> cxpr_call_bind_named_window args params'))"

declare cxpr_call_bind_named_window.simps [simp del]

datatype bind_result =
    Bound "cxpr_expr_ast list"
  | Bind_error cxpr_error_code string
  | Bind_overrun

text \<open>The loop after the windows failed, over all parameters.\<close>

fun bind_all :: "string list \<Rightarrow> nat \<Rightarrow> (string option \<times> cxpr_expr_ast) list \<Rightarrow> bool \<Rightarrow> nat
    \<Rightarrow> cxpr_expr_ast option list \<Rightarrow> bind_result" where
  "bind_all ps argc [] seen_named positional slots =
     (if None \<in> set (take argc slots)
      then Bind_error CXPR_ERR_SYNTAX ''Named arguments must fill a positional prefix''
      else Bound (map the (take argc slots)))"
| "bind_all ps argc ((None, arg) # args) seen_named positional slots =
     (if seen_named then Bind_error CXPR_ERR_SYNTAX ''Positional arguments cannot follow named arguments''
      else if length slots \<le> positional then Bind_error CXPR_ERR_WRONG_ARITY ''Wrong number of arguments''
      else bind_all ps argc args False (positional + 1) (slots[positional := Some arg]))"
| "bind_all ps argc ((Some name, arg) # args) seen_named positional slots =
     (let match = match_param ps name in
      if length slots \<le> match then Bind_error CXPR_ERR_SYNTAX ''Unknown named argument''
      else if slots ! match \<noteq> None then Bind_error CXPR_ERR_SYNTAX ''Duplicate argument''
      else if CXPR_MAX_CALL_ARGS \<le> match then Bind_overrun
      else bind_all ps argc args True positional (slots[match := Some arg]))"

text \<open>The name of an argument; \<open>arg_names\<close> may be shorter than the arguments when none has a name.\<close>

definition named_args :: "string option list \<Rightarrow> cxpr_expr_ast list \<Rightarrow> (string option \<times> cxpr_expr_ast) list" where
  "named_args names args = zip (take (length args) (names @ replicate (length args) None)) args"

definition cxpr_call_bind_args :: "cxpr_func_entry \<Rightarrow> cxpr_expr_ast list \<Rightarrow> string option list \<Rightarrow> bind_result" where
  "cxpr_call_bind_args entry args arg_names =
     (let argc = length args; params = cxpr_registry_entry_param_names entry; nargs = named_args arg_names args in
      if CXPR_MAX_CALL_ARGS < argc then Bind_error CXPR_ERR_WRONG_ARITY ''Too many function arguments''
      else if \<not> cxpr_expr_ast_named_args_present arg_names then Bound args
      else if params = [] \<or> CXPR_MAX_PARAM_NAMES < length params
      then Bind_error CXPR_ERR_SYNTAX ''Named arguments are not supported for this function''
      else case cxpr_call_bind_named_window nargs params of
          Some ordered \<Rightarrow> Bound ordered
        | None \<Rightarrow> bind_all params argc nargs False 0 (replicate (length params) None))"

section \<open>Look-back offsets (lookback.c)\<close>

abbreviation UINT_MAX :: nat where "UINT_MAX \<equiv> 4294967295"

abbreviation dbl_half :: double where "dbl_half \<equiv> DFin False 4503599627370496 (- 53)"

text \<open>The double nearest to \<open>1e-9\<close>.\<close>

abbreviation dbl_1em9 :: double where "dbl_1em9 \<equiv> DFin False 4835703278458517 (- 82)"

text \<open>
  The literal offset, \<open>None\<close> for the failing return (its callers in the compiler pass no error
  object). The conversion to \<open>unsigned\<close> precedes the range check; where it is out of range, any
  \<open>unsigned\<close> it might yield is more than \<open>1e-9\<close> away, so the literal is rejected.
\<close>

definition cxpr_lookback_literal_offset :: "cxpr_expr_ast \<Rightarrow> nat option" where
  "cxpr_lookback_literal_offset index_ast =
     (case ast_data index_ast of
        CXPR_NODE_NUMBER raw \<Rightarrow>
          if \<not> isfinite raw \<or> dbl_lt raw dbl_zero then None
          else (case dbl_trunc_int (dbl_add raw dbl_half) of
              None \<Rightarrow> None
            | Some i \<Rightarrow>
                if int UINT_MAX < i \<or> dbl_lt dbl_1em9 (dbl_abs (dbl_sub raw (dbl_of_int i))) then None
                else Some (nat i))
      | _ \<Rightarrow> None)"

definition cxpr_lookback_add_unsigned :: "nat \<Rightarrow> nat \<Rightarrow> nat option" where
  "cxpr_lookback_add_unsigned base offset =
     (if UINT_MAX - base < offset then None else Some (base + offset))"

definition cxpr_lookback_add_int :: "int \<Rightarrow> nat \<Rightarrow> int option" where
  "cxpr_lookback_add_int base offset =
     (if base < 0 \<or> 2147483647 < base \<or> 2147483647 - base < int offset then None
      else Some (base + int offset))"

section \<open>Bindings are permutations\<close>

text \<open>What the slots hold, as a multiset.\<close>

definition slot_args :: "cxpr_expr_ast option list \<Rightarrow> cxpr_expr_ast multiset" where
  "slot_args slots = image_mset the (filter_mset (\<lambda>s. s \<noteq> None) (mset slots))"

lemma slot_args_simps [simp]:
  "slot_args [] = {#}" "slot_args (None # s) = slot_args s" "slot_args (Some a # s) = add_mset a (slot_args s)"
  by (auto simp: slot_args_def)

lemma slot_args_replicate [simp]: "slot_args (replicate n None) = {#}"
  by (induction n) simp_all

lemma slot_args_append [simp]: "slot_args (s @ t) = slot_args s + slot_args t"
  by (simp add: slot_args_def)

lemma slot_args_update:
  "i < length slots \<Longrightarrow> slots ! i = None \<Longrightarrow> slot_args (slots[i := Some a]) = add_mset a (slot_args slots)"
proof (induction slots arbitrary: i)
  case (Cons x slots)
  then show ?case by (cases i; cases x) auto
qed simp

lemma slot_args_full: "None \<notin> set slots \<Longrightarrow> slot_args slots = mset (map the slots)"
proof (induction slots)
  case (Cons x slots)
  then show ?case by (cases x) auto
qed simp

lemma positional_free:
  "(\<forall>i. positional \<le> i \<and> i < length slots \<longrightarrow> slots ! i = None) \<Longrightarrow>
    \<forall>i. Suc positional \<le> i \<and> i < length (slots[positional := Some a]) \<longrightarrow> slots[positional := Some a] ! i = None"
  by (simp add: nth_list_update)

lemma bind_window_mset:
  assumes "bind_window ps args seen positional slots = Some slots'"
    and "\<not> seen \<Longrightarrow> \<forall>i. positional \<le> i \<and> i < length slots \<longrightarrow> slots ! i = None"
  shows "length slots' = length slots \<and> None \<notin> set slots' \<and> slot_args slots' = slot_args slots + mset (map snd args)"
  using assms
proof (induction ps args seen positional slots rule: bind_window.induct)
  case (2 ps arg args seen positional slots)
  then have "\<not> seen" "positional < length slots" "slots ! positional = None" by (auto split: if_splits)
  with 2 positional_free [of positional slots arg] slot_args_update [of positional slots arg] show ?case by auto
next
  case (3 ps name arg args seen positional slots)
  then show ?case
    using slot_args_update [of "match_param ps name" slots arg] by (auto simp: Let_def split: if_splits)
qed (auto split: if_splits)

lemma named_window_mset:
  "cxpr_call_bind_named_window args params = Some ordered \<Longrightarrow> mset ordered = mset (map snd args)"
proof (induction args params rule: cxpr_call_bind_named_window.induct)
  case (1 args params)
  let ?b = "bind_window (take (length args) params) args False 0 (replicate (length args) None)"
  show ?case
  proof (cases ?b)
    case None
    with 1 show ?thesis
      by (cases params) (auto simp: cxpr_call_bind_named_window.simps [of args] split: if_splits)
  next
    case (Some slots)
    with 1(2) have "ordered = map the slots"
      by (simp add: cxpr_call_bind_named_window.simps [of args] split: if_splits)
    with bind_window_mset [OF Some] slot_args_full [of slots] show ?thesis by simp
  qed
qed

section \<open>Named arguments reach parameters of their name\<close>

lemma match_param_matches:
  "match_param ps n < length ps \<Longrightarrow> cxpr_call_param_name_matches (ps ! match_param ps n) n"
  by (induction ps) auto

text \<open>Every named argument is in the slot of the parameter it matches.\<close>

definition named_placed :: "string list \<Rightarrow> (string option \<times> cxpr_expr_ast) list \<Rightarrow> cxpr_expr_ast option list \<Rightarrow> bool" where
  "named_placed ps args slots \<longleftrightarrow>
     (\<forall>n a. (Some n, a) \<in> set args \<longrightarrow>
        match_param ps n < length slots \<and> slots ! match_param ps n = Some a)"

definition extends :: "cxpr_expr_ast option list \<Rightarrow> cxpr_expr_ast option list \<Rightarrow> bool" where
  "extends slots slots' \<longleftrightarrow>
     length slots' = length slots \<and> (\<forall>i < length slots. slots ! i \<noteq> None \<longrightarrow> slots' ! i = slots ! i)"

lemma extends_update:
  "extends (slots[i := Some a]) slots' \<Longrightarrow> slots ! i = None \<Longrightarrow> extends slots slots' \<and> (i < length slots \<longrightarrow> slots' ! i = Some a)"
  unfolding extends_def by (metis length_list_update nth_list_update_eq nth_list_update_neq option.distinct(1))

lemma bind_window_placed:
  assumes "bind_window ps args seen positional slots = Some slots'"
    and "\<not> seen \<Longrightarrow> \<forall>i. positional \<le> i \<and> i < length slots \<longrightarrow> slots ! i = None"
  shows "extends slots slots' \<and> named_placed ps args slots'"
  using assms
proof (induction ps args seen positional slots rule: bind_window.induct)
  case (2 ps arg args seen positional slots)
  then have "\<not> seen" "positional < length slots" "slots ! positional = None" by (auto split: if_splits)
  with 2 positional_free [of positional slots arg] extends_update [of slots positional arg slots'] show ?case
    by (auto simp: named_placed_def)
next
  case (3 ps name arg args seen positional slots)
  then have "match_param ps name < length slots" "slots ! match_param ps name = None"
      "extends (slots[match_param ps name := Some arg]) slots' \<and> named_placed ps args slots'"
    by (auto simp: Let_def split: if_splits)
  with extends_update [of slots "match_param ps name" arg slots'] show ?case
    by (auto simp: named_placed_def extends_def)
qed (auto simp: named_placed_def extends_def split: if_splits)

lemma named_placed_match:
  assumes "named_placed ps args slots" "(Some n, a) \<in> set args" "length slots \<le> length ps" "None \<notin> set slots"
  shows "\<exists>i. i < length slots \<and> map the slots ! i = a \<and> cxpr_call_param_name_matches (ps ! i) n"
proof -
  have "match_param ps n < length slots" "slots ! match_param ps n = Some a"
    using assms(1,2) by (auto simp: named_placed_def)
  with match_param_matches [of ps n] assms(3) show ?thesis by (intro exI [of _ "match_param ps n"]) simp
qed

text \<open>The named arguments of a call are where their names say, from some parameter on.\<close>

definition names_respected :: "string list \<Rightarrow> (string option \<times> cxpr_expr_ast) list \<Rightarrow> cxpr_expr_ast list \<Rightarrow> bool" where
  "names_respected params args ordered \<longleftrightarrow>
     (\<exists>start. \<forall>n a. (Some n, a) \<in> set args \<longrightarrow>
        (\<exists>i < length ordered. start + i < length params \<and> ordered ! i = a \<and>
           cxpr_call_param_name_matches (params ! (start + i)) n))"

lemma names_respected_Cons: "names_respected ps args ordered \<Longrightarrow> names_respected (p # ps) args ordered"
proof -
  assume "names_respected ps args ordered"
  then obtain start where s: "\<forall>n a. (Some n, a) \<in> set args \<longrightarrow>
        (\<exists>i < length ordered. start + i < length ps \<and> ordered ! i = a \<and>
           cxpr_call_param_name_matches (ps ! (start + i)) n)" by (auto simp: names_respected_def)
  then show ?thesis unfolding names_respected_def by (intro exI [of _ "Suc start"]) auto
qed

lemma named_window_respects:
  "cxpr_call_bind_named_window args params = Some ordered \<Longrightarrow> names_respected params args ordered"
proof (induction args params rule: cxpr_call_bind_named_window.induct)
  case (1 args params)
  let ?b = "bind_window (take (length args) params) args False 0 (replicate (length args) None)"
  show ?case
  proof (cases ?b)
    case None
    with 1 show ?thesis
      by (cases params) (auto simp: cxpr_call_bind_named_window.simps [of args] names_respected_Cons split: if_splits)
  next
    case (Some slots)
    with 1(2) have o: "ordered = map the slots" "length args \<le> length params"
      by (simp_all add: cxpr_call_bind_named_window.simps [of args] not_less split: if_splits)
    have s: "length slots = length args" "None \<notin> set slots" using bind_window_mset [OF Some] by simp_all
    have "named_placed (take (length args) params) args slots" using bind_window_placed [OF Some] by simp
    from named_placed_match [OF this] s o show ?thesis
      unfolding names_respected_def by (intro exI [of _ 0]) fastforce
  qed
qed

lemma bind_all_placed:
  assumes "bind_all ps argc args seen positional slots = Bound ordered"
    and "\<not> seen \<Longrightarrow> \<forall>i. positional \<le> i \<and> i < length slots \<longrightarrow> slots ! i = None"
  shows "\<exists>slots'. extends slots slots' \<and> named_placed ps args slots' \<and> ordered = map the (take argc slots') \<and>
    None \<notin> set (take argc slots') \<and> slot_args slots' = slot_args slots + mset (map snd args)"
  using assms
proof (induction ps argc args seen positional slots rule: bind_all.induct)
  case (1 ps argc seen positional slots)
  then show ?case by (auto simp: named_placed_def extends_def split: if_splits)
next
  case (2 ps argc arg args seen positional slots)
  then have p: "\<not> seen" "positional < length slots" "slots ! positional = None" by (auto split: if_splits)
  with 2 positional_free [of positional slots arg]
  obtain slots' where s: "extends (slots[positional := Some arg]) slots'" "named_placed ps args slots'"
      "ordered = map the (take argc slots')" "None \<notin> set (take argc slots')"
      "slot_args slots' = slot_args (slots[positional := Some arg]) + mset (map snd args)" by auto
  with p extends_update [OF s(1) p(3)] slot_args_update [OF p(2,3), of arg] show ?case
    by (intro exI [of _ slots']) (auto simp: named_placed_def)
next
  case (3 ps argc name arg args seen positional slots)
  let ?m = "match_param ps name"
  from 3 have p: "?m < length slots" "slots ! ?m = None" by (auto simp: Let_def split: if_splits)
  from 3 obtain slots' where s: "extends (slots[?m := Some arg]) slots'" "named_placed ps args slots'"
      "ordered = map the (take argc slots')" "None \<notin> set (take argc slots')"
      "slot_args slots' = slot_args (slots[?m := Some arg]) + mset (map snd args)"
    by (auto simp: Let_def split: if_splits)
  with p extends_update [OF s(1) p(2)] slot_args_update [OF p, of arg] show ?case
    by (intro exI [of _ slots']) (auto simp: named_placed_def extends_def)
qed

lemma bind_all_sound:
  assumes bind: "bind_all ps (length args) args False 0 (replicate (length ps) None) = Bound ordered"
  shows "mset ordered = mset (map snd args) \<and> names_respected ps args ordered"
proof -
  let ?n = "length args"
  obtain slots where s: "length slots = length ps" "named_placed ps args slots" "ordered = map the (take ?n slots)"
      "None \<notin> set (take ?n slots)" "slot_args slots = mset (map snd args)"
    using bind_all_placed [OF bind] by (auto simp: extends_def)
  have total: "slot_args slots = slot_args (take ?n slots) + slot_args (drop ?n slots)"
    by (metis append_take_drop_id slot_args_append)
  have front: "slot_args (take ?n slots) = mset ordered" using slot_args_full [OF s(4)] s(3) by simp
  have "size (slot_args slots) = ?n" using s(5) by (metis length_map size_mset)
  moreover have "length slots \<le> ?n \<Longrightarrow> slot_args (drop ?n slots) = {#}" by simp
  moreover have "size (mset ordered) = min (length slots) ?n" using s(3) by simp
  moreover have "size (slot_args slots) = size (mset ordered) + size (slot_args (drop ?n slots))"
    using total front by (metis size_union)
  ultimately have rest: "slot_args (drop ?n slots) = {#}"
    by (cases "length slots \<le> ?n") simp_all
  have "\<exists>i < length ordered. i < length ps \<and> ordered ! i = a \<and> cxpr_call_param_name_matches (ps ! i) n"
    if a: "(Some n, a) \<in> set args" for n a
  proof -
    let ?m = "match_param ps n"
    have m: "?m < length slots" "slots ! ?m = Some a" using s(2) a by (auto simp: named_placed_def)
    have "?m < ?n"
    proof (rule ccontr)
      assume "\<not> ?m < ?n"
      with m have "Some a \<in> set (drop ?n slots)"
        by (auto simp: in_set_conv_nth intro!: exI [of _ "?m - ?n"])
      with rest show False by (auto simp: slot_args_def)
    qed
    with m s(1,3) match_param_matches [of ps n] show ?thesis by (intro exI [of _ ?m]) simp
  qed
  then have "names_respected ps args ordered" unfolding names_respected_def by (intro exI [of _ 0]) simp
  with s(5) total front rest show ?thesis by simp
qed

lemma named_args_snd [simp]: "map snd (named_args names args) = args"
  by (simp add: named_args_def)

lemma named_args_length [simp]: "length (named_args names args) = length args"
  by (simp add: named_args_def)

lemma bind_args_sound:
  assumes "cxpr_call_bind_args entry args arg_names = Bound ordered"
  shows "mset ordered = mset args"
    and "cxpr_expr_ast_named_args_present arg_names \<Longrightarrow>
      names_respected (cxpr_registry_entry_param_names entry) (named_args arg_names args) ordered"
  using assms named_window_mset [of "named_args arg_names args"] named_window_respects [of "named_args arg_names args"]
    bind_all_sound [of "cxpr_registry_entry_param_names entry" "named_args arg_names args" ordered]
  by (auto simp: cxpr_call_bind_args_def Let_def split: if_splits option.splits)

lemma bind_args_set: "cxpr_call_bind_args entry args arg_names = Bound ordered \<Longrightarrow>
    set ordered = set args \<and> length ordered = length args"
  using bind_args_sound(1) mset_eq_setD mset_eq_length by blast

lemma bind_all_no_overrun:
  "length slots \<le> CXPR_MAX_CALL_ARGS \<Longrightarrow> bind_all ps argc args seen positional slots \<noteq> Bind_overrun"
  by (induction ps argc args seen positional slots rule: bind_all.induct) (auto simp: Let_def)

lemma bind_all_error:
  "bind_all ps argc args seen positional slots = Bind_error code message \<Longrightarrow>
    code \<in> {CXPR_ERR_SYNTAX, CXPR_ERR_WRONG_ARITY}"
  by (induction ps argc args seen positional slots rule: bind_all.induct) (auto simp: Let_def split: if_splits)

lemma bind_args_no_overrun:
  "length (cxpr_registry_entry_param_names entry) \<le> CXPR_MAX_CALL_ARGS \<Longrightarrow>
    cxpr_call_bind_args entry args arg_names \<noteq> Bind_overrun"
  using bind_all_no_overrun by (auto simp: cxpr_call_bind_args_def Let_def split: option.splits)

section \<open>Properties\<close>

definition sample_params :: "string list \<Rightarrow> cxpr_func_entry" where
  "sample_params params = (cxpr_registry_prepare_entry ''f'')\<lparr>fe_param_names := params\<rparr>"

text \<open>C16: a successful binding neither loses nor repeats an argument: the ordered arguments are a
  permutation of the written ones, the written ones themselves when none is named, and every named
  argument stands at a parameter its name matches, counted from one common starting parameter. A
  function of at most 32 parameters never makes the binding write past the caller's array.\<close>

theorem bind_args_permutes:
  assumes "length (cxpr_registry_entry_param_names entry) \<le> CXPR_MAX_CALL_ARGS"
  shows "case cxpr_call_bind_args entry args arg_names of
      Bound ordered \<Rightarrow> mset ordered = mset args \<and>
        (if cxpr_expr_ast_named_args_present arg_names
         then names_respected (cxpr_registry_entry_param_names entry) (named_args arg_names args) ordered
         else ordered = args)
    | Bind_error code message \<Rightarrow> code \<in> {CXPR_ERR_SYNTAX, CXPR_ERR_WRONG_ARITY}
    | Bind_overrun \<Rightarrow> False"
proof (cases "cxpr_call_bind_args entry args arg_names")
  case (Bound ordered)
  with bind_args_sound [OF Bound] show ?thesis
    by (auto simp: cxpr_call_bind_args_def Let_def split: if_splits)
next
  case (Bind_error code message)
  then show ?thesis
    by (auto simp: cxpr_call_bind_args_def Let_def split: if_splits option.splits dest: bind_all_error)
next
  case Bind_overrun
  with bind_args_no_overrun [OF assms] show ?thesis by blast
qed

text \<open>\<open>f(length=x, source=y)\<close> for \<open>f(source, length, offset)\<close>.\<close>

theorem bind_args_permutes_witness:
  "cxpr_call_bind_args (sample_params [''source'', ''length'', ''offset''])
     [cxpr_expr_ast_identifier_new ''x'', cxpr_expr_ast_identifier_new ''y''] [Some ''length'', Some ''source''] =
   Bound [cxpr_expr_ast_identifier_new ''y'', cxpr_expr_ast_identifier_new ''x''] \<and>
   mset [cxpr_expr_ast_identifier_new ''y'', cxpr_expr_ast_identifier_new ''x''] =
   mset [cxpr_expr_ast_identifier_new ''x'', cxpr_expr_ast_identifier_new ''y'']"
proof -
  have b: "cxpr_call_bind_args (sample_params [''source'', ''length'', ''offset''])
     [cxpr_expr_ast_identifier_new ''x'', cxpr_expr_ast_identifier_new ''y''] [Some ''length'', Some ''source''] =
   Bound [cxpr_expr_ast_identifier_new ''y'', cxpr_expr_ast_identifier_new ''x'']" by code_simp
  have "length (cxpr_registry_entry_param_names (sample_params [''source'', ''length'', ''offset''])) \<le> CXPR_MAX_CALL_ARGS"
    by code_simp
  from bind_args_permutes [OF this, of "[cxpr_expr_ast_identifier_new ''x'', cxpr_expr_ast_identifier_new ''y'']"
      "[Some ''length'', Some ''source'']"] b
  show ?thesis by simp
qed

text \<open>The bound of 32 parameters is necessary, and \<open>cxpr_registry_set_param_names\<close> does not ensure
  it. A function of 33 parameters called with the first and the last by name writes cell 32 of the
  array of 32 cells.\<close>

theorem bind_args_overruns:
  "cxpr_call_bind_args (sample_params (map (\<lambda>i. replicate i CHR ''p'') [1 ..< 34])) [a, b]
     [Some ''p'', Some (replicate 33 CHR ''p'')] = Bind_overrun"
  by code_simp

end
