(* ===== verification/Cxpr_Fold.thy ===== *)
theory Cxpr_Fold
  imports Cxpr_Call
begin

text \<open>
  The constant folder and the structural comparison of trees in \<^verbatim>\<open>src/src/ir/program.c\<close>, and the
  read-only tree predicates of \<^verbatim>\<open>src/src/ir/compile/shared.c\<close>. A folder that returns \<open>false\<close> is
  \<open>None\<close>. \<open>pow\<close> is the library function. The pointer test \<open>left == right\<close> at the start of the
  comparison is left out: the operands of a parsed operator are distinct nodes.
\<close>

section \<open>Array indices\<close>

text \<open>The test on an index value, made alike by the folder and both evaluators, and its conversion
  to \<open>size_t\<close>. The bound \<open>(double)SIZE_MAX\<close> is 2 to the 64; that value itself, whose conversion C
  leaves undefined, is kept and is beyond the end of any array.\<close>

abbreviation dbl_size_max :: double where "dbl_size_max \<equiv> DFin False 4503599627370496 12"

definition array_index :: "double \<Rightarrow> nat option" where
  "array_index d =
     (if \<not> isfinite d \<or> dbl_lt d dbl_zero \<or> \<not> dbl_eq (dbl_floor d) d \<or> dbl_lt dbl_size_max d then None
      else map_option nat (dbl_trunc_int d))"

section \<open>Constant folding\<close>

text \<open>\<open>cv\<close> is \<open>cxpr_ir_constant_typed_value\<close>, with which this function is mutually recursive.\<close>

fun cxpr_ir_constant_array_value_ast :: "(cxpr_expr_ast \<Rightarrow> cxpr_value option) \<Rightarrow> cxpr_expr_ast
    \<Rightarrow> cxpr_expr_ast option" where
  "cxpr_ir_constant_array_value_ast cv (Ast sp d) =
     (case d of
        CXPR_NODE_ARRAY es \<Rightarrow> Some (Ast sp d)
      | CXPR_NODE_INDEX target index \<Rightarrow>
          (case cxpr_ir_constant_array_value_ast cv target of
             Some (Ast _ (CXPR_NODE_ARRAY es)) \<Rightarrow>
               (case cv index of
                  Some (cxpr_num x) \<Rightarrow>
                    (case array_index x of
                       None \<Rightarrow> None
                     | Some i \<Rightarrow> if length es \<le> i then None else Some (es ! i))
                | _ \<Rightarrow> None)
           | _ \<Rightarrow> None)
      | _ \<Rightarrow> None)"

declare cxpr_ir_constant_array_value_ast.simps [simp del]

lemma size_elem: "x \<in> set xs \<Longrightarrow> size x < Suc (size_list size xs)"
  by (metis le_imp_less_Suc order_refl size_list_estimation')

lemma size_nth: "i < length xs \<Longrightarrow> size (xs ! i) < Suc (size_list size xs)"
  by (rule size_elem) simp

lemma array_value_ast_size:
  "cxpr_ir_constant_array_value_ast cv t = Some a \<Longrightarrow> size a \<le> size t"
proof (induction t arbitrary: a rule: cxpr_ir_constant_array_value_ast.induct)
  case (1 cv sp d)
  show ?case
  proof (cases d)
    case (CXPR_NODE_INDEX target index)
    with 1(2) obtain sp' es i where t: "cxpr_ir_constant_array_value_ast cv target = Some (Ast sp' (CXPR_NODE_ARRAY es))"
        "i < length es" "a = es ! i"
      by (auto simp: cxpr_ir_constant_array_value_ast.simps not_le split: option.splits cxpr_expr_ast.splits
          cxpr_expr_data.splits cxpr_value.splits if_splits)
    from 1(1) [OF CXPR_NODE_INDEX t(1)] size_elem [of a es] t CXPR_NODE_INDEX show ?thesis by simp
  qed (use 1(2) in \<open>simp_all add: cxpr_ir_constant_array_value_ast.simps\<close>)
qed

lemma array_value_ast_cong [fundef_cong]:
  assumes "t = t'" "\<And>x. size x < size t' \<Longrightarrow> cv x = cv' x"
  shows "cxpr_ir_constant_array_value_ast cv t = cxpr_ir_constant_array_value_ast cv' t'"
  using assms
proof (induction cv t arbitrary: t' rule: cxpr_ir_constant_array_value_ast.induct)
  case (1 cv sp d)
  show ?case
  proof (cases d)
    case (CXPR_NODE_INDEX target index)
    have "cxpr_ir_constant_array_value_ast cv target = cxpr_ir_constant_array_value_ast cv' target"
      using 1(1) [OF CXPR_NODE_INDEX refl] 1(2,3) CXPR_NODE_INDEX by auto
    moreover have "cv index = cv' index" using 1(2,3) CXPR_NODE_INDEX by auto
    ultimately show ?thesis using 1(2) CXPR_NODE_INDEX
      by (auto simp: cxpr_ir_constant_array_value_ast.simps split: option.split cxpr_expr_ast.split cxpr_expr_data.split)
  qed (use 1(2) in \<open>auto simp: cxpr_ir_constant_array_value_ast.simps\<close>)
qed

text \<open>The operators on folded operands; the two \<open>switch\<close>es of the binary case are one table.\<close>

fun const_unary :: "cxpr_token_type \<Rightarrow> cxpr_value \<Rightarrow> cxpr_value option" where
  "const_unary CXPR_TOK_MINUS (cxpr_num d) = Some (cxpr_num (dbl_neg d))"
| "const_unary CXPR_TOK_NOT (cxpr_bool b) = Some (cxpr_bool (\<not> b))"
| "const_unary _ _ = None"

fun const_binary :: "(double \<Rightarrow> double \<Rightarrow> double) \<Rightarrow> cxpr_token_type \<Rightarrow> cxpr_value \<Rightarrow> cxpr_value
    \<Rightarrow> cxpr_value option" where
  "const_binary pow op (cxpr_num a) (cxpr_num b) =
     (case op of
        CXPR_TOK_PLUS \<Rightarrow> Some (cxpr_num (dbl_add a b))
      | CXPR_TOK_MINUS \<Rightarrow> Some (cxpr_num (dbl_sub a b))
      | CXPR_TOK_STAR \<Rightarrow> Some (cxpr_num (dbl_mul a b))
      | CXPR_TOK_SLASH \<Rightarrow> if dbl_eq b dbl_zero then None else Some (cxpr_num (dbl_div a b))
      | CXPR_TOK_PERCENT \<Rightarrow> if dbl_eq b dbl_zero then None else Some (cxpr_num (dbl_fmod a b))
      | CXPR_TOK_POWER \<Rightarrow> if isfinite (pow a b) then Some (cxpr_num (pow a b)) else None
      | CXPR_TOK_EQ \<Rightarrow> Some (cxpr_bool (dbl_eq a b))
      | CXPR_TOK_NEQ \<Rightarrow> Some (cxpr_bool (\<not> dbl_eq a b))
      | CXPR_TOK_LT \<Rightarrow> Some (cxpr_bool (dbl_lt a b))
      | CXPR_TOK_LTE \<Rightarrow> Some (cxpr_bool (dbl_le a b))
      | CXPR_TOK_GT \<Rightarrow> Some (cxpr_bool (dbl_lt b a))
      | CXPR_TOK_GTE \<Rightarrow> Some (cxpr_bool (dbl_le b a))
      | _ \<Rightarrow> None)"
| "const_binary pow op (cxpr_bool a) (cxpr_bool b) =
     (case op of
        CXPR_TOK_AND \<Rightarrow> Some (cxpr_bool (a \<and> b))
      | CXPR_TOK_OR \<Rightarrow> Some (cxpr_bool (a \<or> b))
      | CXPR_TOK_EQ \<Rightarrow> Some (cxpr_bool (a = b))
      | CXPR_TOK_NEQ \<Rightarrow> Some (cxpr_bool (a \<noteq> b))
      | _ \<Rightarrow> None)"
| "const_binary pow op (cxpr_string a) (cxpr_string b) =
     (case op of
        CXPR_TOK_EQ \<Rightarrow> Some (cxpr_bool (a = b))
      | CXPR_TOK_NEQ \<Rightarrow> Some (cxpr_bool (a \<noteq> b))
      | _ \<Rightarrow> None)"
| "const_binary pow op _ _ = None"

text \<open>The entries a call may be folded through: a scalar function and nothing else.\<close>

definition foldable_entry :: "cxpr_func_entry \<Rightarrow> nat \<Rightarrow> (double list \<Rightarrow> double) option" where
  "foldable_entry e argc =
     (if fe_value_func e \<noteq> None \<or> fe_typed_func e \<or> fe_ast_func e \<or> fe_ast_func_handler e \<or>
         fe_struct_producer e \<or> fe_struct_fields e \<noteq> None \<or> fe_defined_body e \<noteq> None \<or>
         argc < fe_min_args e \<or> fe_max_args e < argc
      then None else fe_sync_func e)"

fun number_of :: "cxpr_value option \<Rightarrow> double option" where
  "number_of (Some (cxpr_num d)) = Some d"
| "number_of _ = None"

function cxpr_ir_constant_typed_value :: "(double \<Rightarrow> double \<Rightarrow> double) \<Rightarrow> cxpr_registry \<Rightarrow> cxpr_expr_ast
    \<Rightarrow> cxpr_value option" where
  "cxpr_ir_constant_typed_value pow reg (Ast sp d) =
     (case d of
        CXPR_NODE_NUMBER v \<Rightarrow> Some (cxpr_num v)
      | CXPR_NODE_INT64 v \<Rightarrow> Some (cxpr_int64 v)
      | CXPR_NODE_BOOL v \<Rightarrow> Some (cxpr_bool v)
      | CXPR_NODE_STRING s \<Rightarrow> Some (cxpr_string (Some s))
      | CXPR_NODE_INDEX target index \<Rightarrow>
          (case cxpr_ir_constant_array_value_ast (cxpr_ir_constant_typed_value pow reg) target of
             Some (Ast sp' (CXPR_NODE_ARRAY es)) \<Rightarrow>
               (case cxpr_ir_constant_typed_value pow reg index of
                  Some (cxpr_num x) \<Rightarrow>
                    (case array_index x of
                       None \<Rightarrow> None
                     | Some i \<Rightarrow>
                         if length es \<le> i then None
                         else (case cxpr_ir_constant_typed_value pow reg (es ! i) of
                             Some (cxpr_num v) \<Rightarrow> Some (cxpr_num v)
                           | Some (cxpr_bool v) \<Rightarrow> Some (cxpr_bool v)
                           | _ \<Rightarrow> None))
                | _ \<Rightarrow> None)
           | _ \<Rightarrow>
               if cxpr_lookback_literal_offset index = None then None
               else cxpr_ir_constant_typed_value pow reg target)
      | CXPR_NODE_UNARY_OP op a \<Rightarrow>
          (case cxpr_ir_constant_typed_value pow reg a of None \<Rightarrow> None | Some v \<Rightarrow> const_unary op v)
      | CXPR_NODE_BINARY_OP op a b \<Rightarrow>
          (case cxpr_ir_constant_typed_value pow reg a of
             None \<Rightarrow> None
           | Some v \<Rightarrow>
               (case cxpr_ir_constant_typed_value pow reg b of
                  None \<Rightarrow> None
                | Some w \<Rightarrow> const_binary pow op v w))
      | CXPR_NODE_FUNCTION_CALL name args arg_names \<Rightarrow>
          if reg = None \<or> cxpr_expr_ast_named_args_present arg_names \<or> CXPR_MAX_CALL_ARGS < length args then None
          else if name = ''if'' \<and> length args = 3 then
            (case cxpr_ir_constant_typed_value pow reg (args ! 0) of
               Some (cxpr_bool c) \<Rightarrow>
                 if c then cxpr_ir_constant_typed_value pow reg (args ! 1)
                 else cxpr_ir_constant_typed_value pow reg (args ! 2)
             | _ \<Rightarrow> None)
          else (case Option.bind (cxpr_registry_find reg name) (\<lambda>e. foldable_entry e (length args)) of
              None \<Rightarrow> None
            | Some f \<Rightarrow>
                (case those (map (\<lambda>a. number_of (cxpr_ir_constant_typed_value pow reg a)) args) of
                   None \<Rightarrow> None
                 | Some xs \<Rightarrow> if isfinite (f xs) then Some (cxpr_num (f xs)) else None))
      | CXPR_NODE_TERNARY c a b \<Rightarrow>
          (case cxpr_ir_constant_typed_value pow reg c of
             Some (cxpr_bool v) \<Rightarrow>
               if v then cxpr_ir_constant_typed_value pow reg a else cxpr_ir_constant_typed_value pow reg b
           | _ \<Rightarrow> None)
      | _ \<Rightarrow> None)"
  by pat_completeness auto
termination
  by (relation "measure (\<lambda>(pow, reg, ast). size ast)")
    (auto simp: size_nth less_SucI size_elem not_le dest!: array_value_ast_size intro: order.strict_trans2 [OF size_nth])

declare cxpr_ir_constant_typed_value.simps [simp del]

definition cxpr_ir_constant_value :: "(double \<Rightarrow> double \<Rightarrow> double) \<Rightarrow> cxpr_registry \<Rightarrow> cxpr_expr_ast
    \<Rightarrow> double option" where
  "cxpr_ir_constant_value pow reg ast = number_of (cxpr_ir_constant_typed_value pow reg ast)"

text \<open>The key of a call with constant arguments (\<^verbatim>\<open>src/src/ir/cache_key.c\<close>); \<open>hexfloat\<close> is the
  \<open>%a\<close> conversion. The buffer holds 32 characters for every number, more than \<open>%a\<close> writes, so only
  an allocation can fail: of a key longer than the local buffer, or of its copy.\<close>

definition cxpr_ir_build_struct_cache_key :: "(nat \<Rightarrow> bool) \<Rightarrow> (double \<Rightarrow> string) \<Rightarrow> string \<Rightarrow> double list
    \<Rightarrow> string option" where
  "cxpr_ir_build_struct_cache_key mem hexfloat name args =
     (let len = length name + 4 + length args * 32 in
      if args = [] then Some name
      else if 256 < len \<and> \<not> mem len then None
      else Some (name @ ''('' @ hexfloat (hd args) @ concat (map (\<lambda>x. CHR '','' # hexfloat x) (tl args)) @ '')''))"

definition cxpr_ir_build_constant_producer_key :: "(nat \<Rightarrow> bool) \<Rightarrow> (double \<Rightarrow> string)
    \<Rightarrow> (double \<Rightarrow> double \<Rightarrow> double) \<Rightarrow> cxpr_registry \<Rightarrow> string \<Rightarrow> cxpr_expr_ast list \<Rightarrow> string option" where
  "cxpr_ir_build_constant_producer_key mem hexfloat pow reg name args =
     (if CXPR_MAX_CALL_ARGS < length args then None
      else case those (map (cxpr_ir_constant_value pow reg) args) of
          None \<Rightarrow> None
        | Some values \<Rightarrow>
            (case cxpr_ir_build_struct_cache_key mem hexfloat name values of
               None \<Rightarrow> None
             | Some k \<Rightarrow>
                 if values \<noteq> [] \<and> 256 < length name + 4 + length values * 32 then Some k
                 else cxpr_strdup mem k))"

section \<open>Structural comparison\<close>

definition arg_name :: "string option list \<Rightarrow> nat \<Rightarrow> string option" where
  "arg_name names i = (if i < length names then names ! i else None)"

definition same_names :: "nat \<Rightarrow> string option list \<Rightarrow> string option list \<Rightarrow> bool" where
  "same_names n names names' \<longleftrightarrow> (\<forall>i \<in> {..<n}. arg_name names i = arg_name names' i)"

function cxpr_ir_ast_equal :: "cxpr_expr_ast \<Rightarrow> cxpr_expr_ast \<Rightarrow> bool" where
  "cxpr_ir_ast_equal (Ast sp d) (Ast sp' d') =
     (case (d, d') of
        (CXPR_NODE_NUMBER v, CXPR_NODE_NUMBER v') \<Rightarrow> dbl_eq v v'
      | (CXPR_NODE_INT64 v, CXPR_NODE_INT64 v') \<Rightarrow> v = v'
      | (CXPR_NODE_BOOL v, CXPR_NODE_BOOL v') \<Rightarrow> v = v'
      | (CXPR_NODE_IDENTIFIER n, CXPR_NODE_IDENTIFIER n') \<Rightarrow> n = n'
      | (CXPR_NODE_VARIABLE n, CXPR_NODE_VARIABLE n') \<Rightarrow> n = n'
      | (CXPR_NODE_FIELD_EXPR b f, CXPR_NODE_FIELD_EXPR b' f') \<Rightarrow> cxpr_ir_ast_equal b b' \<and> f = f'
      | (CXPR_NODE_FIELD_ACCESS ob f, CXPR_NODE_FIELD_ACCESS ob' f') \<Rightarrow>
          cxpr_expr_ast_join_with_dot ob f = cxpr_expr_ast_join_with_dot ob' f'
      | (CXPR_NODE_CHAIN_ACCESS path, CXPR_NODE_CHAIN_ACCESS path') \<Rightarrow> path = path'
      | (CXPR_NODE_PRODUCER_ACCESS n args names f, CXPR_NODE_PRODUCER_ACCESS n' args' names' f') \<Rightarrow>
          n = n' \<and> f = f' \<and> length args = length args' \<and> same_names (length args) names names' \<and>
          (\<forall>(x, y) \<in> set (zip args args'). cxpr_ir_ast_equal x y)
      | (CXPR_NODE_UNARY_OP op a, CXPR_NODE_UNARY_OP op' a') \<Rightarrow> op = op' \<and> cxpr_ir_ast_equal a a'
      | (CXPR_NODE_BINARY_OP op a b, CXPR_NODE_BINARY_OP op' a' b') \<Rightarrow>
          op = op' \<and> cxpr_ir_ast_equal a a' \<and> cxpr_ir_ast_equal b b'
      | (CXPR_NODE_FUNCTION_CALL n args names, CXPR_NODE_FUNCTION_CALL n' args' names') \<Rightarrow>
          n = n' \<and> length args = length args' \<and> same_names (length args) names names' \<and>
          (\<forall>(x, y) \<in> set (zip args args'). cxpr_ir_ast_equal x y)
      | (CXPR_NODE_INDEX a b, CXPR_NODE_INDEX a' b') \<Rightarrow> cxpr_ir_ast_equal a a' \<and> cxpr_ir_ast_equal b b'
      | (CXPR_NODE_TERNARY a b c, CXPR_NODE_TERNARY a' b' c') \<Rightarrow>
          cxpr_ir_ast_equal a a' \<and> cxpr_ir_ast_equal b b' \<and> cxpr_ir_ast_equal c c'
      | _ \<Rightarrow> False)"
  by pat_completeness auto
termination
  by (relation "measure (size \<circ> fst)") (auto dest!: zip_size_list simp: less_Suc_eq)

declare cxpr_ir_ast_equal.simps [simp del]

section \<open>Tree predicates of the compiler (shared.c)\<close>

fun cxpr_ir_ast_contains_string_literal :: "cxpr_expr_ast \<Rightarrow> bool" where
  "cxpr_ir_ast_contains_string_literal (Ast sp d) =
     (case d of
        CXPR_NODE_STRING _ \<Rightarrow> True
      | CXPR_NODE_BINARY_OP _ a b \<Rightarrow>
          cxpr_ir_ast_contains_string_literal a \<or> cxpr_ir_ast_contains_string_literal b
      | CXPR_NODE_UNARY_OP _ a \<Rightarrow> cxpr_ir_ast_contains_string_literal a
      | CXPR_NODE_FUNCTION_CALL _ args _ \<Rightarrow> list_ex cxpr_ir_ast_contains_string_literal args
      | CXPR_NODE_PRODUCER_ACCESS _ args _ _ \<Rightarrow> list_ex cxpr_ir_ast_contains_string_literal args
      | CXPR_NODE_INDEX a b \<Rightarrow>
          cxpr_ir_ast_contains_string_literal a \<or> cxpr_ir_ast_contains_string_literal b
      | CXPR_NODE_TERNARY a b c \<Rightarrow>
          cxpr_ir_ast_contains_string_literal a \<or> cxpr_ir_ast_contains_string_literal b \<or>
          cxpr_ir_ast_contains_string_literal c
      | _ \<Rightarrow> False)"

fun cxpr_ir_arg_needs_catchor_passthrough :: "cxpr_expr_ast \<Rightarrow> bool" where
  "cxpr_ir_arg_needs_catchor_passthrough (Ast sp d) =
     (case d of
        CXPR_NODE_IDENTIFIER _ \<Rightarrow> True
      | CXPR_NODE_FIELD_ACCESS _ _ \<Rightarrow> True
      | CXPR_NODE_FIELD_EXPR _ _ \<Rightarrow> True
      | CXPR_NODE_CHAIN_ACCESS _ \<Rightarrow> True
      | CXPR_NODE_FUNCTION_CALL _ _ _ \<Rightarrow> True
      | CXPR_NODE_PRODUCER_ACCESS _ _ _ _ \<Rightarrow> True
      | CXPR_NODE_INDEX _ _ \<Rightarrow> True
      | CXPR_NODE_BINARY_OP _ a b \<Rightarrow>
          cxpr_ir_arg_needs_catchor_passthrough a \<or> cxpr_ir_arg_needs_catchor_passthrough b
      | CXPR_NODE_UNARY_OP _ a \<Rightarrow> cxpr_ir_arg_needs_catchor_passthrough a
      | CXPR_NODE_TERNARY a b c \<Rightarrow>
          cxpr_ir_arg_needs_catchor_passthrough a \<or> cxpr_ir_arg_needs_catchor_passthrough b \<or>
          cxpr_ir_arg_needs_catchor_passthrough c
      | _ \<Rightarrow> False)"

declare cxpr_ir_ast_contains_string_literal.simps [simp del] cxpr_ir_arg_needs_catchor_passthrough.simps [simp del]

definition cxpr_ir_runtime_call_needs_catchor_passthrough :: "cxpr_expr_ast \<Rightarrow> bool" where
  "cxpr_ir_runtime_call_needs_catchor_passthrough ast =
     (case ast_data ast of
        CXPR_NODE_FUNCTION_CALL _ args _ \<Rightarrow> list_ex cxpr_ir_arg_needs_catchor_passthrough args
      | CXPR_NODE_PRODUCER_ACCESS _ args _ _ \<Rightarrow> list_ex cxpr_ir_arg_needs_catchor_passthrough args
      | _ \<Rightarrow> False)"

end
