(* ===== verification/Cxpr_Exec.thy ===== *)
theory Cxpr_Exec
  imports Cxpr_Ir
begin

text \<open>
  The two unchecked executors of \<^verbatim>\<open>src/ir/exec/fast.c\<close>. They keep their operands in
  fixed arrays of 64 cells and test neither overflow nor underflow; an access outside the array, a
  NULL function entry and a jump through an empty slot of the dispatch table are the outcome
  \<open>Crash\<close>. The operand stack is a list with the top first. What surrounds the executors (variable
  and parameter lookup, the call memo, expression-defined functions) is a parameter, the record
  \<open>fast_env\<close>, which threads a context of any type; host functions are reached through the
  registry entry of the instruction. One dispatch is one step; \<open>ir_run\<close> repeats it.
\<close>

section \<open>Outcomes and the surroundings\<close>

datatype ('st, 'r) outcome =
    Continue 'st
  | Return 'r 'st
  | Error cxpr_error_code string 'st
  | Crash

record 's fast_env =
  env_pow :: "double \<Rightarrow> double \<Rightarrow> double"
  env_var :: "nat \<Rightarrow> cxpr_ir_instr \<Rightarrow> 's \<Rightarrow> double option \<times> 's"
  env_param :: "nat \<Rightarrow> cxpr_ir_instr \<Rightarrow> 's \<Rightarrow> double option \<times> 's"
  env_memo_get :: "cxpr_ir_instr \<Rightarrow> 's \<Rightarrow> cxpr_value option"
  env_memo_set :: "cxpr_ir_instr \<Rightarrow> cxpr_value \<Rightarrow> 's \<Rightarrow> 's"
  env_defined :: "cxpr_ir_instr \<Rightarrow> cxpr_value list \<Rightarrow> 's \<Rightarrow> ((cxpr_error_code \<times> string) + cxpr_value) \<times> 's"

text \<open>The dispatch loop with fuel: \<open>None\<close> when it has not ended yet.\<close>

fun ir_run :: "('st \<Rightarrow> ('st, 'r) outcome) \<Rightarrow> nat \<Rightarrow> 'st \<Rightarrow> ('st, 'r) outcome option" where
  "ir_run step 0 st = None"
| "ir_run step (Suc n) st = (case step st of Continue st' \<Rightarrow> ir_run step n st' | r \<Rightarrow> Some r)"

abbreviation (input) cxpr_ir_runtime_error :: "string \<Rightarrow> 'st \<Rightarrow> ('st, 'r) outcome" where
  "cxpr_ir_runtime_error message st \<equiv> Error CXPR_ERR_SYNTAX message st"

definition unknown_message :: "string \<Rightarrow> cxpr_ir_instr \<Rightarrow> string" where
  "unknown_message prefix i =
     (if in_name i = [] then prefix
      else take 255 (prefix @ '' '' @ [CHR 0x27] @ in_name i @ [CHR 0x27]))"

definition cxpr_ir_unknown_param_message :: "cxpr_ir_instr \<Rightarrow> string" where
  "cxpr_ir_unknown_param_message i = unknown_message ''Unknown parameter variable'' i"

definition cxpr_ir_unknown_identifier_message :: "cxpr_ir_instr \<Rightarrow> string" where
  "cxpr_ir_unknown_identifier_message i = unknown_message ''Unknown identifier'' i"

section \<open>Operators shared by both executors\<close>

definition dbl_of_bool :: "bool \<Rightarrow> double" where
  "dbl_of_bool b = (if b then dbl_one else dbl_zero)"

definition dbl_nonzero :: "double \<Rightarrow> bool" where
  "dbl_nonzero x \<longleftrightarrow> \<not> dbl_eq x dbl_zero"

text \<open>\<open>(value > 0.0) - (value < 0.0)\<close>, converted to double.\<close>

definition dbl_sign :: "double \<Rightarrow> double" where
  "dbl_sign v = dbl_of_int ((if dbl_lt dbl_zero v then 1 else 0) - (if dbl_lt v dbl_zero then 1 else 0))"

definition dbl_clamp :: "double \<Rightarrow> double \<Rightarrow> double \<Rightarrow> double" where
  "dbl_clamp v lo hi =
     (let v1 = (if dbl_lt v lo then lo else v) in if dbl_lt hi v1 then hi else v1)"

fun arith_op :: "(double \<Rightarrow> double \<Rightarrow> double) \<Rightarrow> cxpr_opcode \<Rightarrow> (double \<Rightarrow> double \<Rightarrow> double) option" where
  "arith_op pow CXPR_OP_ADD = Some dbl_add"
| "arith_op pow CXPR_OP_SUB = Some dbl_sub"
| "arith_op pow CXPR_OP_MUL = Some dbl_mul"
| "arith_op pow CXPR_OP_POW = Some pow"
| "arith_op pow _ = None"

fun compare_op :: "cxpr_opcode \<Rightarrow> (double \<Rightarrow> double \<Rightarrow> bool) option" where
  "compare_op CXPR_OP_CMP_EQ = Some dbl_eq"
| "compare_op CXPR_OP_CMP_NEQ = Some (\<lambda>a b. \<not> dbl_eq a b)"
| "compare_op CXPR_OP_CMP_LT = Some dbl_lt"
| "compare_op CXPR_OP_CMP_LTE = Some dbl_le"
| "compare_op CXPR_OP_CMP_GT = Some (\<lambda>a b. dbl_lt b a)"
| "compare_op CXPR_OP_CMP_GTE = Some (\<lambda>a b. dbl_le b a)"
| "compare_op _ = None"

fun unary_op :: "cxpr_opcode \<Rightarrow> (double \<Rightarrow> double) option" where
  "unary_op CXPR_OP_SQUARE = Some (\<lambda>v. dbl_mul v v)"
| "unary_op CXPR_OP_NEG = Some dbl_neg"
| "unary_op CXPR_OP_SIGN = Some dbl_sign"
| "unary_op CXPR_OP_SQRT = Some dbl_sqrt"
| "unary_op CXPR_OP_ABS = Some dbl_abs"
| "unary_op CXPR_OP_FLOOR = Some dbl_floor"
| "unary_op CXPR_OP_CEIL = Some dbl_ceil"
| "unary_op CXPR_OP_ROUND = Some dbl_round"
| "unary_op _ = None"

text \<open>The opcodes whose slot in both dispatch tables is left out, hence NULL.\<close>

definition null_dispatch :: "cxpr_opcode \<Rightarrow> bool" where
  "null_dispatch op \<longleftrightarrow> op \<in> {CXPR_OP_PUSH_INT64, CXPR_OP_BUILD_ARRAY}"

section \<open>The scalar executor\<close>

record 's scalar_state =
  ss_ip :: nat
  ss_stack :: "double list"
  ss_locals :: "double list"
  ss_ctx :: 's

type_synonym 's scalar_out = "('s scalar_state, double) outcome"

text \<open>\<open>stack[sp++] = v\<close>, then the next dispatch.\<close>

definition ss_push :: "double \<Rightarrow> 's scalar_state \<Rightarrow> 's scalar_out" where
  "ss_push v st =
     (if CXPR_IR_STACK_CAPACITY \<le> length (ss_stack st) then Crash
      else Continue (st\<lparr>ss_stack := v # ss_stack st, ss_ip := ss_ip st + 1\<rparr>))"

text \<open>The scalar a value is pushed as, if it is one.\<close>

fun scalar_of_value :: "cxpr_value \<Rightarrow> double option" where
  "scalar_of_value (cxpr_num d) = Some d"
| "scalar_of_value (cxpr_bool b) = Some (dbl_of_bool b)"
| "scalar_of_value _ = None"

text \<open>\<open>LOAD_VAR\<close>, \<open>LOAD_PARAM\<close> and their squared forms.\<close>

definition scalar_load :: "'s fast_env \<Rightarrow> cxpr_ir_instr \<Rightarrow> bool \<Rightarrow> bool \<Rightarrow> 's scalar_state \<Rightarrow> 's scalar_out" where
  "scalar_load env i param square st =
     (let (found, ctx) = (if param then env_param env else env_var env) (ss_ip st) i (ss_ctx st);
          st' = st\<lparr>ss_ctx := ctx\<rparr> in
      case found of
        None \<Rightarrow> Error CXPR_ERR_UNKNOWN_IDENTIFIER
                 (if param then cxpr_ir_unknown_param_message i else cxpr_ir_unknown_identifier_message i) st'
      | Some v \<Rightarrow> ss_push (if square then dbl_mul v v else v) st')"

definition scalar_load_local :: "cxpr_ir_instr \<Rightarrow> bool \<Rightarrow> 's scalar_state \<Rightarrow> 's scalar_out" where
  "scalar_load_local i square st =
     (if length (ss_locals st) \<le> in_index i then cxpr_ir_runtime_error ''Unknown local variable'' st
      else let v = ss_locals st ! in_index i in ss_push (if square then dbl_mul v v else v) st)"

text \<open>\<open>DIV\<close> and \<open>MOD\<close>.\<close>

definition scalar_divide :: "(double \<Rightarrow> double \<Rightarrow> double) \<Rightarrow> string \<Rightarrow> 's scalar_state \<Rightarrow> 's scalar_out" where
  "scalar_divide f message st =
     (case ss_stack st of
        b # a # r \<Rightarrow>
          if dbl_eq b dbl_zero then Error CXPR_ERR_DIVISION_BY_ZERO message (st\<lparr>ss_stack := r\<rparr>)
          else ss_push (f a b) (st\<lparr>ss_stack := r\<rparr>)
      | _ \<Rightarrow> Crash)"

text \<open>A memoized result of a call, or the call itself and its recording.\<close>

definition scalar_memo_call :: "'s fast_env \<Rightarrow> cxpr_ir_instr \<Rightarrow> (cxpr_value \<times> string) \<Rightarrow> 's scalar_state
    \<Rightarrow> 's scalar_out" where
  "scalar_memo_call env i call st =
     (case env_memo_get env i (ss_ctx st) of
        Some m \<Rightarrow>
          (case scalar_of_value m of
             None \<Rightarrow> cxpr_ir_runtime_error ''Memoized function result is not scalar'' st
           | Some v \<Rightarrow> ss_push v st)
      | None \<Rightarrow>
          (case scalar_of_value (fst call) of
             None \<Rightarrow> cxpr_ir_runtime_error (snd call) st
           | Some v \<Rightarrow> ss_push v (st\<lparr>ss_ctx := env_memo_set env i (fst call) (ss_ctx st)\<rparr>)))"

definition scalar_call_native :: "'s fast_env \<Rightarrow> cxpr_ir_instr \<Rightarrow> 's scalar_state \<Rightarrow> 's scalar_out" where
  "scalar_call_native env i st =
     (case in_func i of
        None \<Rightarrow> Crash
      | Some f \<Rightarrow>
          (case (in_op i, ss_stack st) of
             (CXPR_OP_CALL_UNARY, a # r) \<Rightarrow>
               scalar_memo_call env i (cxpr_num (fe_unary f a), '''') (st\<lparr>ss_stack := r\<rparr>)
           | (CXPR_OP_CALL_BINARY, b # a # r) \<Rightarrow>
               scalar_memo_call env i (cxpr_num (fe_binary f a b), '''') (st\<lparr>ss_stack := r\<rparr>)
           | (CXPR_OP_CALL_TERNARY, c # b # a # r) \<Rightarrow>
               scalar_memo_call env i (cxpr_num (fe_ternary f a b c), '''') (st\<lparr>ss_stack := r\<rparr>)
           | _ \<Rightarrow> Crash))"

text \<open>\<open>CALL_FUNC\<close>: the arguments are the top \<open>index\<close> cells, the oldest first. They are
  copied to an array of 32 values; \<open>None\<close> is a write past its end, or a NULL function.\<close>

definition call_func_result :: "cxpr_func_entry \<Rightarrow> double list \<Rightarrow> cxpr_value option" where
  "call_func_result f args =
     (case fe_value_func f of
        Some vf \<Rightarrow> if CXPR_MAX_CALL_ARGS < length args then None else Some (vf (map cxpr_num args))
      | None \<Rightarrow> (case fe_sync_func f of None \<Rightarrow> None | Some sf \<Rightarrow> Some (cxpr_num (sf args))))"

definition scalar_call_func :: "'s fast_env \<Rightarrow> cxpr_ir_instr \<Rightarrow> 's scalar_state \<Rightarrow> 's scalar_out" where
  "scalar_call_func env i st =
     (case in_func i of
        None \<Rightarrow> Crash
      | Some f \<Rightarrow>
          if fe_typed_func f then cxpr_ir_runtime_error ''Typed function requires typed execution path'' st
          else if length (ss_stack st) < in_index i then Crash
          else
            let args = rev (take (in_index i) (ss_stack st));
                st' = st\<lparr>ss_stack := drop (in_index i) (ss_stack st)\<rparr> in
            case (env_memo_get env i (ss_ctx st), call_func_result f args) of
              (None, None) \<Rightarrow> Crash
            | (Some m, _) \<Rightarrow> scalar_memo_call env i (m, '''') st'
            | (None, Some v) \<Rightarrow> scalar_memo_call env i (v, ''Function did not evaluate to scalar'') st')"

definition scalar_call_defined :: "'s fast_env \<Rightarrow> cxpr_ir_instr \<Rightarrow> 's scalar_state \<Rightarrow> 's scalar_out" where
  "scalar_call_defined env i st =
     (if length (ss_stack st) < in_index i \<or> CXPR_MAX_CALL_ARGS < in_index i then Crash
      else
        let args = map cxpr_num (rev (take (in_index i) (ss_stack st)));
            (result, ctx) = env_defined env i args (ss_ctx st) in
        case result of
          Inl (code, message) \<Rightarrow> Error code message (st\<lparr>ss_ctx := ctx\<rparr>)
        | Inr v \<Rightarrow>
            let st' = st\<lparr>ss_ctx := ctx, ss_stack := drop (in_index i) (ss_stack st)\<rparr> in
            (case scalar_of_value v of
               None \<Rightarrow> Error CXPR_ERR_TYPE_MISMATCH ''Defined function returned non-scalar'' st'
             | Some d \<Rightarrow> ss_push d st'))"

text \<open>\<open>JUMP_IF_FALSE\<close> and \<open>JUMP_IF_TRUE\<close>.\<close>

definition scalar_jump_if :: "bool \<Rightarrow> cxpr_ir_instr \<Rightarrow> 's scalar_state \<Rightarrow> 's scalar_out" where
  "scalar_jump_if sense i st =
     (case ss_stack st of
        [] \<Rightarrow> Crash
      | v # r \<Rightarrow>
          Continue (st\<lparr>ss_stack := r, ss_ip := (if dbl_nonzero v = sense then in_index i else ss_ip st + 1)\<rparr>))"

definition scalar_arith :: "'s fast_env \<Rightarrow> cxpr_ir_instr \<Rightarrow> 's scalar_state \<Rightarrow> 's scalar_out option" where
  "scalar_arith env i st =
     (let binary = (\<lambda>f. case ss_stack st of b # a # r \<Rightarrow> ss_push (f a b) (st\<lparr>ss_stack := r\<rparr>) | _ \<Rightarrow> Crash);
          unary = (\<lambda>f. case ss_stack st of
              v # r \<Rightarrow> Continue (st\<lparr>ss_stack := f v # r, ss_ip := ss_ip st + 1\<rparr>) | [] \<Rightarrow> Crash) in
      case arith_op (env_pow env) (in_op i) of
        Some f \<Rightarrow> Some (binary f)
      | None \<Rightarrow>
          (case compare_op (in_op i) of
             Some c \<Rightarrow> Some (binary (\<lambda>a b. dbl_of_bool (c a b)))
           | None \<Rightarrow>
               (case unary_op (in_op i) of
                  Some f \<Rightarrow> Some (unary f)
                | None \<Rightarrow>
                    if in_op i = CXPR_OP_NOT then Some (unary (\<lambda>v. dbl_of_bool (dbl_eq v dbl_zero)))
                    else if in_op i = CXPR_OP_CLAMP then
                      Some (case ss_stack st of
                          hi # lo # v # r \<Rightarrow> ss_push (dbl_clamp v lo hi) (st\<lparr>ss_stack := r\<rparr>) | _ \<Rightarrow> Crash)
                    else if in_op i = CXPR_OP_DIV then Some (scalar_divide dbl_div ''Division by zero'' st)
                    else if in_op i = CXPR_OP_MOD then Some (scalar_divide dbl_fmod ''Modulo by zero'' st)
                    else None)))"

definition scalar_control :: "'s fast_env \<Rightarrow> cxpr_ir_instr \<Rightarrow> 's scalar_state \<Rightarrow> 's scalar_out" where
  "scalar_control env i st =
     (case in_op i of
        CXPR_OP_PUSH_CONST \<Rightarrow> ss_push (in_value i) st
      | CXPR_OP_PUSH_BOOL \<Rightarrow> ss_push (dbl_of_bool (dbl_nonzero (in_value i))) st
      | CXPR_OP_LOAD_LOCAL \<Rightarrow> scalar_load_local i False st
      | CXPR_OP_LOAD_LOCAL_SQUARE \<Rightarrow> scalar_load_local i True st
      | CXPR_OP_LOAD_VAR \<Rightarrow> scalar_load env i False False st
      | CXPR_OP_LOAD_VAR_SQUARE \<Rightarrow> scalar_load env i False True st
      | CXPR_OP_LOAD_PARAM \<Rightarrow> scalar_load env i True False st
      | CXPR_OP_LOAD_PARAM_SQUARE \<Rightarrow> scalar_load env i True True st
      | CXPR_OP_CALL_UNARY \<Rightarrow> scalar_call_native env i st
      | CXPR_OP_CALL_BINARY \<Rightarrow> scalar_call_native env i st
      | CXPR_OP_CALL_TERNARY \<Rightarrow> scalar_call_native env i st
      | CXPR_OP_CALL_FUNC \<Rightarrow> scalar_call_func env i st
      | CXPR_OP_CALL_DEFINED \<Rightarrow> scalar_call_defined env i st
      | CXPR_OP_JUMP \<Rightarrow> Continue (st\<lparr>ss_ip := in_index i\<rparr>)
      | CXPR_OP_JUMP_IF_FALSE \<Rightarrow> scalar_jump_if False i st
      | CXPR_OP_JUMP_IF_TRUE \<Rightarrow> scalar_jump_if True i st
      | CXPR_OP_STORE_LOCAL \<Rightarrow>
          if length (ss_locals st) \<le> in_index i then cxpr_ir_runtime_error ''Unknown local variable'' st
          else (case ss_stack st of
              [] \<Rightarrow> Crash
            | v # r \<Rightarrow> Continue (st\<lparr>ss_locals := (ss_locals st)[in_index i := v], ss_stack := r, ss_ip := ss_ip st + 1\<rparr>))
      | CXPR_OP_RETURN \<Rightarrow>
          (case ss_stack st of
             [v] \<Rightarrow> Return v (st\<lparr>ss_stack := []\<rparr>)
           | _ \<Rightarrow> cxpr_ir_runtime_error ''IR stack imbalance on return'' st)
      | op \<Rightarrow>
          if null_dispatch op then Crash
          else cxpr_ir_runtime_error ''Unsupported fast IR opcode'' st)"

text \<open>\<open>CXPR_FAST_DISPATCH\<close> and the label it jumps to.\<close>

definition scalar_step :: "'s fast_env \<Rightarrow> ir_code \<Rightarrow> 's scalar_state \<Rightarrow> 's scalar_out" where
  "scalar_step env code st =
     (if length code \<le> ss_ip st then cxpr_ir_runtime_error ''IR program fell off end without return'' st
      else let i = code ! ss_ip st in
        case scalar_arith env i st of Some r \<Rightarrow> r | None \<Rightarrow> scalar_control env i st)"

definition scalar_start :: "double list \<Rightarrow> 's \<Rightarrow> 's scalar_state" where
  "scalar_start locals ctx = \<lparr>ss_ip = 0, ss_stack = [], ss_locals = locals, ss_ctx = ctx\<rparr>"

definition cxpr_ir_exec_scalar_fast :: "'s fast_env \<Rightarrow> ir_code \<Rightarrow> double list \<Rightarrow> 's \<Rightarrow> nat
    \<Rightarrow> 's scalar_out option" where
  "cxpr_ir_exec_scalar_fast env code locals ctx fuel =
     (if code = [] then Some (cxpr_ir_runtime_error ''Empty IR program'' (scalar_start locals ctx))
      else ir_run (scalar_step env code) fuel (scalar_start locals ctx))"

section \<open>The boolean executor\<close>

text \<open>Numbers and booleans have separate stacks.\<close>

record 's bool_state =
  bs_ip :: nat
  bs_nstack :: "double list"
  bs_bstack :: "bool list"
  bs_locals :: "double list"
  bs_ctx :: 's

type_synonym 's bool_out = "('s bool_state, bool) outcome"

definition npush :: "double \<Rightarrow> 's bool_state \<Rightarrow> 's bool_out" where
  "npush v st =
     (if CXPR_IR_STACK_CAPACITY \<le> length (bs_nstack st) then Crash
      else Continue (st\<lparr>bs_nstack := v # bs_nstack st, bs_ip := bs_ip st + 1\<rparr>))"

definition bpush :: "bool \<Rightarrow> 's bool_state \<Rightarrow> 's bool_out" where
  "bpush v st =
     (if CXPR_IR_STACK_CAPACITY \<le> length (bs_bstack st) then Crash
      else Continue (st\<lparr>bs_bstack := v # bs_bstack st, bs_ip := bs_ip st + 1\<rparr>))"

text \<open>A result goes to the stack of its type; any other type is the error.\<close>

fun vpush :: "cxpr_value \<Rightarrow> ('s bool_state \<Rightarrow> 's bool_out) \<Rightarrow> 's bool_state \<Rightarrow> 's bool_out" where
  "vpush (cxpr_bool b) fail st = bpush b st"
| "vpush (cxpr_num d) fail st = npush d st"
| "vpush _ fail st = fail st"

definition bool_load :: "'s fast_env \<Rightarrow> cxpr_ir_instr \<Rightarrow> bool \<Rightarrow> bool \<Rightarrow> 's bool_state \<Rightarrow> 's bool_out" where
  "bool_load env i param square st =
     (let (found, ctx) = (if param then env_param env else env_var env) (bs_ip st) i (bs_ctx st);
          st' = st\<lparr>bs_ctx := ctx\<rparr> in
      case found of
        None \<Rightarrow> Error CXPR_ERR_UNKNOWN_IDENTIFIER
                 (if param then cxpr_ir_unknown_param_message i else cxpr_ir_unknown_identifier_message i) st'
      | Some v \<Rightarrow> npush (if square then dbl_mul v v else v) st')"

definition bool_load_local :: "cxpr_ir_instr \<Rightarrow> bool \<Rightarrow> 's bool_state \<Rightarrow> 's bool_out" where
  "bool_load_local i square st =
     (if length (bs_locals st) \<le> in_index i then cxpr_ir_runtime_error ''Unknown local variable'' st
      else let v = bs_locals st ! in_index i in npush (if square then dbl_mul v v else v) st)"

definition bool_divide :: "(double \<Rightarrow> double \<Rightarrow> double) \<Rightarrow> string \<Rightarrow> 's bool_state \<Rightarrow> 's bool_out" where
  "bool_divide f message st =
     (case bs_nstack st of
        b # a # r \<Rightarrow>
          if dbl_eq b dbl_zero then Error CXPR_ERR_DIVISION_BY_ZERO message (st\<lparr>bs_nstack := r\<rparr>)
          else npush (f a b) (st\<lparr>bs_nstack := r\<rparr>)
      | _ \<Rightarrow> Crash)"

text \<open>A memoized result, or a call whose result is pushed and then recorded.\<close>

definition bool_memo_call :: "'s fast_env \<Rightarrow> cxpr_ir_instr \<Rightarrow> cxpr_value \<Rightarrow> 's bool_state \<Rightarrow> 's bool_out" where
  "bool_memo_call env i call st =
     (case env_memo_get env i (bs_ctx st) of
        Some m \<Rightarrow> vpush m (cxpr_ir_runtime_error ''Memoized function result is not scalar'') st
      | None \<Rightarrow>
          if value_type call \<in> {CXPR_VALUE_NUMBER, CXPR_VALUE_BOOL}
          then vpush call (\<lambda>_. Crash) (st\<lparr>bs_ctx := env_memo_set env i call (bs_ctx st)\<rparr>)
          else cxpr_ir_runtime_error ''Function did not evaluate to scalar'' st)"

definition bool_call_native :: "'s fast_env \<Rightarrow> cxpr_ir_instr \<Rightarrow> 's bool_state \<Rightarrow> 's bool_out" where
  "bool_call_native env i st =
     (case in_func i of
        None \<Rightarrow> Crash
      | Some f \<Rightarrow>
          (case (in_op i, bs_nstack st) of
             (CXPR_OP_CALL_UNARY, a # r) \<Rightarrow>
               bool_memo_call env i (cxpr_num (fe_unary f a)) (st\<lparr>bs_nstack := r\<rparr>)
           | (CXPR_OP_CALL_BINARY, b # a # r) \<Rightarrow>
               bool_memo_call env i (cxpr_num (fe_binary f a b)) (st\<lparr>bs_nstack := r\<rparr>)
           | (CXPR_OP_CALL_TERNARY, c # b # a # r) \<Rightarrow>
               bool_memo_call env i (cxpr_num (fe_ternary f a b c)) (st\<lparr>bs_nstack := r\<rparr>)
           | _ \<Rightarrow> Crash))"

definition bool_call_func :: "'s fast_env \<Rightarrow> cxpr_ir_instr \<Rightarrow> 's bool_state \<Rightarrow> 's bool_out" where
  "bool_call_func env i st =
     (case in_func i of
        None \<Rightarrow> Crash
      | Some f \<Rightarrow>
          if fe_typed_func f then cxpr_ir_runtime_error ''Typed function requires typed execution path'' st
          else if length (bs_nstack st) < in_index i then Crash
          else
            let args = rev (take (in_index i) (bs_nstack st));
                st' = st\<lparr>bs_nstack := drop (in_index i) (bs_nstack st)\<rparr> in
            case (env_memo_get env i (bs_ctx st), call_func_result f args) of
              (None, None) \<Rightarrow> Crash
            | (Some m, _) \<Rightarrow> bool_memo_call env i m st'
            | (None, Some v) \<Rightarrow> bool_memo_call env i v st')"

definition bool_call_defined :: "'s fast_env \<Rightarrow> cxpr_ir_instr \<Rightarrow> 's bool_state \<Rightarrow> 's bool_out" where
  "bool_call_defined env i st =
     (if length (bs_nstack st) < in_index i then Crash
      else
        let args = map cxpr_num (rev (take (in_index i) (bs_nstack st)));
            st' = st\<lparr>bs_nstack := drop (in_index i) (bs_nstack st)\<rparr> in
        case env_memo_get env i (bs_ctx st) of
          Some m \<Rightarrow> vpush m (Error CXPR_ERR_TYPE_MISMATCH ''Memoized defined function returned non-scalar'') st'
        | None \<Rightarrow>
            if CXPR_MAX_CALL_ARGS < in_index i then Crash
            else let (result, ctx) = env_defined env i args (bs_ctx st) in
              case result of
                Inl (code, message) \<Rightarrow> Error code message (st\<lparr>bs_ctx := ctx\<rparr>)
              | Inr v \<Rightarrow>
                  if value_type v \<in> {CXPR_VALUE_NUMBER, CXPR_VALUE_BOOL}
                  then vpush v (\<lambda>_. Crash) (st'\<lparr>bs_ctx := env_memo_set env i v ctx\<rparr>)
                  else Error CXPR_ERR_TYPE_MISMATCH ''Defined function returned non-scalar'' (st'\<lparr>bs_ctx := ctx\<rparr>))"

definition bool_jump_if :: "bool \<Rightarrow> cxpr_ir_instr \<Rightarrow> 's bool_state \<Rightarrow> 's bool_out" where
  "bool_jump_if sense i st =
     (case bs_bstack st of
        [] \<Rightarrow> Crash
      | v # r \<Rightarrow>
          Continue (st\<lparr>bs_bstack := r, bs_ip := (if v = sense then in_index i else bs_ip st + 1)\<rparr>))"

definition bool_arith :: "'s fast_env \<Rightarrow> cxpr_ir_instr \<Rightarrow> 's bool_state \<Rightarrow> 's bool_out option" where
  "bool_arith env i st =
     (case arith_op (env_pow env) (in_op i) of
        Some f \<Rightarrow>
          Some (case bs_nstack st of b # a # r \<Rightarrow> npush (f a b) (st\<lparr>bs_nstack := r\<rparr>) | _ \<Rightarrow> Crash)
      | None \<Rightarrow>
          (case compare_op (in_op i) of
             Some c \<Rightarrow>
               Some (case bs_nstack st of b # a # r \<Rightarrow> bpush (c a b) (st\<lparr>bs_nstack := r\<rparr>) | _ \<Rightarrow> Crash)
           | None \<Rightarrow>
               (case unary_op (in_op i) of
                  Some f \<Rightarrow>
                    Some (case bs_nstack st of
                        v # r \<Rightarrow> Continue (st\<lparr>bs_nstack := f v # r, bs_ip := bs_ip st + 1\<rparr>) | [] \<Rightarrow> Crash)
                | None \<Rightarrow>
                    if in_op i = CXPR_OP_NOT then
                      Some (case bs_bstack st of
                          v # r \<Rightarrow> Continue (st\<lparr>bs_bstack := (\<not> v) # r, bs_ip := bs_ip st + 1\<rparr>) | [] \<Rightarrow> Crash)
                    else if in_op i = CXPR_OP_CLAMP then
                      Some (case bs_nstack st of
                          hi # lo # v # r \<Rightarrow> npush (dbl_clamp v lo hi) (st\<lparr>bs_nstack := r\<rparr>) | _ \<Rightarrow> Crash)
                    else if in_op i = CXPR_OP_DIV then Some (bool_divide dbl_div ''Division by zero'' st)
                    else if in_op i = CXPR_OP_MOD then Some (bool_divide dbl_fmod ''Modulo by zero'' st)
                    else None)))"

definition bool_control :: "'s fast_env \<Rightarrow> cxpr_ir_instr \<Rightarrow> 's bool_state \<Rightarrow> 's bool_out" where
  "bool_control env i st =
     (case in_op i of
        CXPR_OP_PUSH_CONST \<Rightarrow> npush (in_value i) st
      | CXPR_OP_PUSH_BOOL \<Rightarrow> bpush (dbl_nonzero (in_value i)) st
      | CXPR_OP_LOAD_LOCAL \<Rightarrow> bool_load_local i False st
      | CXPR_OP_LOAD_LOCAL_SQUARE \<Rightarrow> bool_load_local i True st
      | CXPR_OP_LOAD_VAR \<Rightarrow> bool_load env i False False st
      | CXPR_OP_LOAD_VAR_SQUARE \<Rightarrow> bool_load env i False True st
      | CXPR_OP_LOAD_PARAM \<Rightarrow> bool_load env i True False st
      | CXPR_OP_LOAD_PARAM_SQUARE \<Rightarrow> bool_load env i True True st
      | CXPR_OP_CALL_UNARY \<Rightarrow> bool_call_native env i st
      | CXPR_OP_CALL_BINARY \<Rightarrow> bool_call_native env i st
      | CXPR_OP_CALL_TERNARY \<Rightarrow> bool_call_native env i st
      | CXPR_OP_CALL_FUNC \<Rightarrow> bool_call_func env i st
      | CXPR_OP_CALL_DEFINED \<Rightarrow> bool_call_defined env i st
      | CXPR_OP_JUMP \<Rightarrow> Continue (st\<lparr>bs_ip := in_index i\<rparr>)
      | CXPR_OP_JUMP_IF_FALSE \<Rightarrow> bool_jump_if False i st
      | CXPR_OP_JUMP_IF_TRUE \<Rightarrow> bool_jump_if True i st
      | CXPR_OP_RETURN \<Rightarrow>
          (case (bs_nstack st, bs_bstack st) of
             ([], [v]) \<Rightarrow> Return v (st\<lparr>bs_bstack := []\<rparr>)
           | _ \<Rightarrow> cxpr_ir_runtime_error ''IR stack imbalance on bool return'' st)
      | op \<Rightarrow>
          if null_dispatch op then Crash
          else cxpr_ir_runtime_error ''Unsupported bool fast IR opcode'' st)"

definition bool_step :: "'s fast_env \<Rightarrow> ir_code \<Rightarrow> 's bool_state \<Rightarrow> 's bool_out" where
  "bool_step env code st =
     (if length code \<le> bs_ip st then cxpr_ir_runtime_error ''IR program fell off end without return'' st
      else let i = code ! bs_ip st in
        case bool_arith env i st of Some r \<Rightarrow> r | None \<Rightarrow> bool_control env i st)"

definition bool_start :: "double list \<Rightarrow> 's \<Rightarrow> 's bool_state" where
  "bool_start locals ctx = \<lparr>bs_ip = 0, bs_nstack = [], bs_bstack = [], bs_locals = locals, bs_ctx = ctx\<rparr>"

definition cxpr_ir_exec_bool_fast :: "'s fast_env \<Rightarrow> ir_code \<Rightarrow> double list \<Rightarrow> 's \<Rightarrow> nat \<Rightarrow> 's bool_out option" where
  "cxpr_ir_exec_bool_fast env code locals ctx fuel =
     (if code = [] then Some (cxpr_ir_runtime_error ''Empty IR program'' (bool_start locals ctx))
      else ir_run (bool_step env code) fuel (bool_start locals ctx))"

section \<open>Running a validated program\<close>

text \<open>
  The contract between a validator and an executor: a step from a state whose shape the transfer
  function accepts does not crash, and when it goes on, it goes to one of the successors the transfer
  function lists, with the shape listed there.
\<close>

locale checked_machine =
  fixes size :: nat
    and transfer :: "nat \<Rightarrow> 'a \<Rightarrow> (nat \<times> 'a) list option"
    and step :: "'st \<Rightarrow> ('st, 'r) outcome"
    and pc :: "'st \<Rightarrow> nat"
    and shape :: "'st \<Rightarrow> 'a"
    and good :: "'st \<Rightarrow> bool"
  assumes step_safe: "good st \<Longrightarrow> pc st < size \<Longrightarrow> transfer (pc st) (shape st) = Some ts \<Longrightarrow> step st \<noteq> Crash"
    and step_follows: "good st \<Longrightarrow> pc st < size \<Longrightarrow> transfer (pc st) (shape st) = Some ts \<Longrightarrow>
      step st = Continue st' \<Longrightarrow> good st' \<and> (pc st', shape st') \<in> set ts"
begin

definition on_track :: "'a option list \<Rightarrow> 'st \<Rightarrow> bool" where
  "on_track states st \<longleftrightarrow> good st \<and> pc st < size \<and> states ! pc st = Some (shape st)"

lemma on_track_transfer:
  assumes "consistent transfer states" "length states = size" "on_track states st"
  obtains ts where "transfer (pc st) (shape st) = Some ts" "\<forall>(t, u) \<in> set ts. t < size \<and> states ! t = Some u"
  using assms unfolding consistent_def checked_at_def on_track_def by blast

lemma on_track_step:
  assumes "consistent transfer states" "length states = size" "on_track states st"
  shows "step st \<noteq> Crash" "step st = Continue st' \<Longrightarrow> on_track states st'"
proof -
  obtain ts where ts: "transfer (pc st) (shape st) = Some ts" "\<forall>(t, u) \<in> set ts. t < size \<and> states ! t = Some u"
    by (rule on_track_transfer [OF assms])
  have g: "good st" "pc st < size" using assms(3) by (auto simp: on_track_def)
  show "step st \<noteq> Crash" by (rule step_safe [OF g ts(1)])
  show "on_track states st'" if "step st = Continue st'"
    using step_follows [OF g ts(1) that] ts(2) by (auto simp: on_track_def)
qed

lemma run_safe:
  assumes "consistent transfer states" "length states = size" "on_track states st"
  shows "ir_run step fuel st \<noteq> Some Crash"
  using assms(3)
proof (induction fuel arbitrary: st)
  case (Suc n)
  then show ?case using on_track_step [OF assms(1,2) Suc.prems] by (cases "step st") auto
qed simp

lemma run_ends:
  assumes "consistent transfer states" "length states = size" "on_track states st"
    and forward: "\<And>ip s ts t u. ip < size \<Longrightarrow> transfer ip s = Some ts \<Longrightarrow> (t, u) \<in> set ts \<Longrightarrow> ip < t"
    and "size - pc st \<le> fuel"
  shows "\<exists>r. ir_run step fuel st = Some r \<and> r \<noteq> Crash"
  using assms(3,5)
proof (induction fuel arbitrary: st)
  case 0
  then show ?case by (simp add: on_track_def)
next
  case (Suc n)
  note st = on_track_step [OF assms(1,2) Suc.prems(1)]
  show ?case
  proof (cases "step st")
    case (Continue st')
    obtain ts where ts: "transfer (pc st) (shape st) = Some ts" by (rule on_track_transfer [OF assms(1,2) Suc.prems(1)])
    have g: "good st" "pc st < size" using Suc.prems(1) by (auto simp: on_track_def)
    have "pc st < pc st'" using forward [OF g(2) ts] step_follows [OF g ts Continue] by blast
    with Suc.prems(2) Suc.IH [OF st(2) [OF Continue]] Continue show ?thesis by simp
  qed (use st(1) in auto)
qed

end

section \<open>The scalar executor honours its validator\<close>

text \<open>What the compiler guarantees of call instructions: the registry entry is there and has the
  function the opcode calls.\<close>

definition calls_ok :: "ir_code \<Rightarrow> bool" where
  "calls_ok code \<longleftrightarrow>
     (\<forall>i \<in> set code. in_op i \<in> {CXPR_OP_CALL_UNARY, CXPR_OP_CALL_BINARY, CXPR_OP_CALL_TERNARY, CXPR_OP_CALL_FUNC} \<longrightarrow>
        (case in_func i of
           None \<Rightarrow> False
         | Some f \<Rightarrow> in_op i = CXPR_OP_CALL_FUNC \<longrightarrow> fe_typed_func f \<or> fe_value_func f \<noteq> None \<or> fe_sync_func f \<noteq> None))"

text \<open>A step that leaves \<open>d\<close> operands and goes to the next instruction, fails, or returns.\<close>

definition ss_next :: "'s scalar_state \<Rightarrow> nat \<Rightarrow> 's scalar_out \<Rightarrow> bool" where
  "ss_next st d r \<longleftrightarrow>
     (case r of Continue st' \<Rightarrow> ss_ip st' = ss_ip st + 1 \<and> length (ss_stack st') = d | Crash \<Rightarrow> False | _ \<Rightarrow> True)"

lemma ss_next_error [simp]: "ss_next st d (Error c m st')"
  by (simp add: ss_next_def)

lemma ss_push_next:
  "length (ss_stack st') < CXPR_IR_STACK_CAPACITY \<Longrightarrow> ss_ip st' = ss_ip st \<Longrightarrow> d = Suc (length (ss_stack st')) \<Longrightarrow>
     ss_next st d (ss_push v st')"
  by (simp add: ss_next_def ss_push_def)

lemma scalar_load_next:
  "length (ss_stack st) < CXPR_IR_STACK_CAPACITY \<Longrightarrow> ss_next st (Suc (length (ss_stack st))) (scalar_load env i p q st)"
  by (auto simp: scalar_load_def Let_def intro: ss_push_next split: prod.splits option.splits)

lemma scalar_load_local_next:
  "length (ss_stack st) < CXPR_IR_STACK_CAPACITY \<Longrightarrow> ss_next st (Suc (length (ss_stack st))) (scalar_load_local i q st)"
  by (auto simp: scalar_load_local_def Let_def intro: ss_push_next)

lemma scalar_memo_call_next:
  "length (ss_stack st') < CXPR_IR_STACK_CAPACITY \<Longrightarrow> ss_ip st' = ss_ip st \<Longrightarrow> d = Suc (length (ss_stack st')) \<Longrightarrow>
     ss_next st d (scalar_memo_call env i c st')"
  by (auto simp: scalar_memo_call_def intro!: ss_push_next split: option.splits)

lemma scalar_call_func_next:
  assumes "in_func i = Some f" "fe_typed_func f \<or> fe_value_func f \<noteq> None \<or> fe_sync_func f \<noteq> None"
    and "in_index i \<le> length (ss_stack st)" "in_index i \<le> CXPR_MAX_CALL_ARGS"
    and "length (ss_stack st) - in_index i < CXPR_IR_STACK_CAPACITY"
  shows "ss_next st (Suc (length (ss_stack st) - in_index i)) (scalar_call_func env i st)"
  using assms
  by (auto simp: scalar_call_func_def call_func_result_def Let_def intro!: scalar_memo_call_next split: option.splits)

lemma scalar_call_defined_next:
  assumes "in_index i \<le> length (ss_stack st)" "in_index i \<le> CXPR_MAX_CALL_ARGS"
    and "length (ss_stack st) - in_index i < CXPR_IR_STACK_CAPACITY"
  shows "ss_next st (Suc (length (ss_stack st) - in_index i)) (scalar_call_defined env i st)"
  using assms
  by (auto simp: scalar_call_defined_def Let_def intro!: ss_push_next split: prod.splits sum.splits option.splits)

lemma stack_cases:
  "1 \<le> length xs \<Longrightarrow> \<exists>a r. xs = a # r"
  "2 \<le> length xs \<Longrightarrow> \<exists>b a r. xs = b # a # r"
  "3 \<le> length xs \<Longrightarrow> \<exists>c b a r. xs = c # b # a # r"
  by (auto simp: numeral_eq_Suc Suc_le_length_iff)

text \<open>The opcode groups of the stack-effect table.\<close>

lemma arith_op_effect:
  "arith_op pow (in_op i) \<noteq> None \<or> compare_op (in_op i) \<noteq> None \<Longrightarrow> cxpr_ir_scalar_stack_effect i = Some (2, 1)"
  by (cases "in_op i") (simp_all add: cxpr_ir_scalar_stack_effect_def)

lemma unary_op_effect: "unary_op (in_op i) \<noteq> None \<Longrightarrow> cxpr_ir_scalar_stack_effect i = Some (1, 1)"
  by (cases "in_op i") (simp_all add: cxpr_ir_scalar_stack_effect_def)

lemma scalar_arith_next:
  assumes r: "scalar_arith env i st = Some r" and e: "cxpr_ir_scalar_stack_effect i = Some (p, q)"
    and p: "p \<le> length (ss_stack st)" and cap: "length (ss_stack st) - p + q \<le> CXPR_IR_STACK_CAPACITY"
  shows "ss_next st (length (ss_stack st) - p + q) r"
proof -
  consider (two) f where "arith_op (env_pow env) (in_op i) = Some f \<or>
      arith_op (env_pow env) (in_op i) = None \<and> (\<exists>c. compare_op (in_op i) = Some c \<and> f = (\<lambda>a b. dbl_of_bool (c a b)))"
    | (one) f where "arith_op (env_pow env) (in_op i) = None" "compare_op (in_op i) = None"
        "unary_op (in_op i) = Some f \<or> unary_op (in_op i) = None \<and> in_op i = CXPR_OP_NOT \<and> f = (\<lambda>v. dbl_of_bool (dbl_eq v dbl_zero))"
    | (other) "arith_op (env_pow env) (in_op i) = None" "compare_op (in_op i) = None" "unary_op (in_op i) = None"
        "in_op i \<in> {CXPR_OP_CLAMP, CXPR_OP_DIV, CXPR_OP_MOD}"
    using r unfolding scalar_arith_def Let_def by (auto split: option.splits if_splits)
  then show ?thesis
  proof cases
    case two
    then have "p = 2" "q = 1" using e arith_op_effect [of "env_pow env" i] by auto
    moreover obtain b a s where "ss_stack st = b # a # s" using stack_cases(2) p calculation by blast
    ultimately show ?thesis
      using two r cap by (auto simp: scalar_arith_def Let_def intro!: ss_push_next)
  next
    case one
    then have "p = 1" "q = 1"
      using e unary_op_effect [of i] by (auto simp: cxpr_ir_scalar_stack_effect_def)
    moreover obtain a s where "ss_stack st = a # s" using stack_cases(1) p calculation by blast
    ultimately show ?thesis
      using one r by (auto simp: scalar_arith_def Let_def ss_next_def)
  next
    case other
    then have pq: "p = (if in_op i = CXPR_OP_CLAMP then 3 else 2)" "q = 1"
      using e by (auto simp: cxpr_ir_scalar_stack_effect_def split: if_splits)
    show ?thesis
    proof (cases "in_op i = CXPR_OP_CLAMP")
      case True
      then obtain c b a s where "ss_stack st = c # b # a # s" using stack_cases(3) p pq by fastforce
      with True pq other r cap show ?thesis by (auto simp: scalar_arith_def Let_def intro!: ss_push_next)
    next
      case False
      then obtain b a s where "ss_stack st = b # a # s" using stack_cases(2) p pq by fastforce
      with False pq other r cap show ?thesis
        by (auto simp: scalar_arith_def Let_def scalar_divide_def intro!: ss_push_next)
    qed
  qed
qed

definition is_jump :: "cxpr_opcode \<Rightarrow> bool" where
  "is_jump op \<longleftrightarrow> op \<in> {CXPR_OP_JUMP, CXPR_OP_JUMP_IF_FALSE, CXPR_OP_JUMP_IF_TRUE, CXPR_OP_RETURN}"

lemma scalar_call_native_next:
  assumes "in_op i \<in> {CXPR_OP_CALL_UNARY, CXPR_OP_CALL_BINARY, CXPR_OP_CALL_TERNARY}" "in_func i = Some f"
    and "cxpr_ir_scalar_stack_effect i = Some (p, q)"
    and "p \<le> length (ss_stack st)" and "length (ss_stack st) - p + q \<le> CXPR_IR_STACK_CAPACITY"
  shows "ss_next st (length (ss_stack st) - p + q) (scalar_call_native env i st)"
proof -
  from assms(1,3) consider "in_op i = CXPR_OP_CALL_UNARY" "p = 1" "q = 1"
    | "in_op i = CXPR_OP_CALL_BINARY" "p = 2" "q = 1" | "in_op i = CXPR_OP_CALL_TERNARY" "p = 3" "q = 1"
    by (auto simp: cxpr_ir_scalar_stack_effect_def)
  then show ?thesis
  proof cases
    case 1
    then obtain a s where "ss_stack st = a # s" using stack_cases(1) assms(4) by blast
    with 1 assms(2,5) show ?thesis by (auto simp: scalar_call_native_def intro!: scalar_memo_call_next)
  next
    case 2
    then obtain b a s where "ss_stack st = b # a # s" using stack_cases(2) assms(4) by blast
    with 2 assms(2,5) show ?thesis by (auto simp: scalar_call_native_def intro!: scalar_memo_call_next)
  next
    case 3
    then obtain c b a s where "ss_stack st = c # b # a # s" using stack_cases(3) assms(4) by blast
    with 3 assms(2,5) show ?thesis by (auto simp: scalar_call_native_def intro!: scalar_memo_call_next)
  qed
qed

lemma scalar_control_call:
  "in_op i \<in> {CXPR_OP_CALL_UNARY, CXPR_OP_CALL_BINARY, CXPR_OP_CALL_TERNARY} \<Longrightarrow>
     scalar_control env i st = scalar_call_native env i st"
  "in_op i = CXPR_OP_CALL_FUNC \<Longrightarrow> scalar_control env i st = scalar_call_func env i st"
  "in_op i = CXPR_OP_CALL_DEFINED \<Longrightarrow> scalar_control env i st = scalar_call_defined env i st"
  unfolding scalar_control_def by (elim insertE emptyE; simp) simp_all

lemma calls_ok_entry:
  assumes "calls_ok code" "i \<in> set code"
    and "in_op i \<in> {CXPR_OP_CALL_UNARY, CXPR_OP_CALL_BINARY, CXPR_OP_CALL_TERNARY, CXPR_OP_CALL_FUNC}"
  obtains f where "in_func i = Some f"
    "in_op i = CXPR_OP_CALL_FUNC \<longrightarrow> fe_typed_func f \<or> fe_value_func f \<noteq> None \<or> fe_sync_func f \<noteq> None"
  using assms unfolding calls_ok_def by (cases "in_func i") auto

lemma scalar_control_next:
  assumes op: "\<not> is_jump (in_op i)" and arith: "scalar_arith env i st = None"
    and e: "cxpr_ir_scalar_stack_effect i = Some (p, q)"
    and p: "p \<le> length (ss_stack st)" and cap: "length (ss_stack st) - p + q \<le> CXPR_IR_STACK_CAPACITY"
    and calls: "calls_ok code" "i \<in> set code"
  shows "ss_next st (length (ss_stack st) - p + q) (scalar_control env i st)"
proof (cases "in_op i \<in> {CXPR_OP_CALL_UNARY, CXPR_OP_CALL_BINARY, CXPR_OP_CALL_TERNARY}")
  case True
  then have "in_op i \<in> {CXPR_OP_CALL_UNARY, CXPR_OP_CALL_BINARY, CXPR_OP_CALL_TERNARY, CXPR_OP_CALL_FUNC}" by blast
  then obtain f where "in_func i = Some f" by (rule calls_ok_entry [OF calls])
  from scalar_call_native_next [OF True this e p cap] show ?thesis by (simp only: scalar_control_call(1) [OF True])
next
  case native: False
  show ?thesis
  proof (cases "in_op i \<in> {CXPR_OP_CALL_FUNC, CXPR_OP_CALL_DEFINED}")
    case True
    then have pq: "p = in_index i" "q = 1" "in_index i \<le> CXPR_MAX_CALL_ARGS"
      using e by (auto simp: cxpr_ir_scalar_stack_effect_def CXPR_MAX_CALL_ARGS_def split: if_splits)
    have len: "length (ss_stack st) - in_index i < CXPR_IR_STACK_CAPACITY" using cap pq by simp
    show ?thesis
    proof (cases "in_op i = CXPR_OP_CALL_FUNC")
      case True
      have "in_op i \<in> {CXPR_OP_CALL_UNARY, CXPR_OP_CALL_BINARY, CXPR_OP_CALL_TERNARY, CXPR_OP_CALL_FUNC}"
        using True by simp
      then obtain f where f: "in_func i = Some f" "fe_typed_func f \<or> fe_value_func f \<noteq> None \<or> fe_sync_func f \<noteq> None"
        using calls_ok_entry [OF calls] True by metis
      from scalar_call_func_next [OF f, of st env] p pq len show ?thesis by (simp add: scalar_control_call(2) [OF True])
    next
      case False
      with True have "in_op i = CXPR_OP_CALL_DEFINED" by simp
      with scalar_call_defined_next [of i st env] p pq len show ?thesis by (simp add: scalar_control_call(3))
    qed
  next
    case False
    then show ?thesis
      using native op arith e p cap
      by (cases "in_op i")
        (auto simp: scalar_control_def cxpr_ir_scalar_stack_effect_def is_jump_def scalar_arith_def null_dispatch_def Suc_le_eq
          intro: ss_push_next scalar_load_next scalar_load_local_next split: if_splits)
  qed
qed

lemma scalar_transfer_cases:
  assumes t: "scalar_transfer code ip d = Some ts" and i: "i = code ! ip"
  obtains p q where "cxpr_ir_scalar_stack_effect i = Some (p, q)" "p \<le> d" "d - p + q \<le> CXPR_IR_STACK_CAPACITY"
    "\<not> is_jump (in_op i) \<longrightarrow> ip + 1 < length code \<and> ts = [(ip + 1, d - p + q)]"
    "in_op i = CXPR_OP_JUMP \<longrightarrow> in_index i < length code \<and> ts = [(in_index i, d)]"
    "in_op i = CXPR_OP_JUMP_IF_FALSE \<or> in_op i = CXPR_OP_JUMP_IF_TRUE \<longrightarrow> 1 \<le> d \<and>
       in_index i < length code \<and> ip + 1 < length code \<and> ts = [(in_index i, d - 1), (ip + 1, d - 1)]"
    "in_op i = CXPR_OP_RETURN \<longrightarrow> d = 1 \<and> ts = []"
proof -
  from t obtain p q where e: "cxpr_ir_scalar_stack_effect i = Some (p, q)"
    by (auto simp: scalar_transfer_def i Let_def split: option.splits)
  from t e have b: "p \<le> d" "d - p + q \<le> CXPR_IR_STACK_CAPACITY"
    by (auto simp: scalar_transfer_def i [symmetric] Let_def split: if_splits)
  have j: "in_op i = CXPR_OP_JUMP \<Longrightarrow> p = 0 \<and> q = 0"
    "in_op i = CXPR_OP_JUMP_IF_FALSE \<or> in_op i = CXPR_OP_JUMP_IF_TRUE \<Longrightarrow> p = 1 \<and> q = 0"
    using e by (auto simp: cxpr_ir_scalar_stack_effect_def)
  show thesis
    by (rule that [OF e b]; use t e b j in \<open>auto simp: scalar_transfer_def i [symmetric] Let_def is_jump_def split: if_splits\<close>)
qed

lemma scalar_step_arith_jump: "is_jump (in_op i) \<Longrightarrow> scalar_arith env i st = None"
  unfolding is_jump_def by (elim insertE emptyE; simp add: scalar_arith_def)

lemma scalar_control_jump:
  "in_op i = CXPR_OP_JUMP \<Longrightarrow> scalar_control env i st = Continue (st\<lparr>ss_ip := in_index i\<rparr>)"
  "in_op i = CXPR_OP_JUMP_IF_FALSE \<Longrightarrow> scalar_control env i st = scalar_jump_if False i st"
  "in_op i = CXPR_OP_JUMP_IF_TRUE \<Longrightarrow> scalar_control env i st = scalar_jump_if True i st"
  "in_op i = CXPR_OP_RETURN \<Longrightarrow> scalar_control env i st = (case ss_stack st of
      [v] \<Rightarrow> Return v (st\<lparr>ss_stack := []\<rparr>) | _ \<Rightarrow> cxpr_ir_runtime_error ''IR stack imbalance on return'' st)"
  by (simp_all add: scalar_control_def)

lemma scalar_step_sound:
  assumes calls: "calls_ok code" and ip: "ss_ip st < length code"
    and t: "scalar_transfer code (ss_ip st) (length (ss_stack st)) = Some ts"
  shows "scalar_step env code st \<noteq> Crash \<and>
    (\<forall>st'. scalar_step env code st = Continue st' \<longrightarrow> (ss_ip st', length (ss_stack st')) \<in> set ts)"
proof -
  define i where "i = code ! ss_ip st"
  let ?d = "length (ss_stack st)"
  obtain p q where e: "cxpr_ir_scalar_stack_effect i = Some (p, q)" and b: "p \<le> ?d" "?d - p + q \<le> CXPR_IR_STACK_CAPACITY"
    and plain: "\<not> is_jump (in_op i) \<longrightarrow> ss_ip st + 1 < length code \<and> ts = [(ss_ip st + 1, ?d - p + q)]"
    and jump: "in_op i = CXPR_OP_JUMP \<longrightarrow> in_index i < length code \<and> ts = [(in_index i, ?d)]"
    and jump_if: "in_op i = CXPR_OP_JUMP_IF_FALSE \<or> in_op i = CXPR_OP_JUMP_IF_TRUE \<longrightarrow> 1 \<le> ?d \<and>
       in_index i < length code \<and> ss_ip st + 1 < length code \<and> ts = [(in_index i, ?d - 1), (ss_ip st + 1, ?d - 1)]"
    and ret: "in_op i = CXPR_OP_RETURN \<longrightarrow> ?d = 1 \<and> ts = []"
    by (rule scalar_transfer_cases [OF t i_def])
  have step: "scalar_step env code st = (case scalar_arith env i st of Some r \<Rightarrow> r | None \<Rightarrow> scalar_control env i st)"
    unfolding i_def scalar_step_def Let_def using ip by simp
  show ?thesis
  proof (cases "is_jump (in_op i)")
    case False
    have mem: "i \<in> set code" using ip by (simp add: i_def)
    have "ss_next st (?d - p + q) (scalar_step env code st)"
    proof (cases "scalar_arith env i st")
      case None
      from scalar_control_next [OF False None e b calls mem] show ?thesis unfolding step None by simp
    next
      case (Some r)
      from scalar_arith_next [OF Some e b] show ?thesis unfolding step Some by simp
    qed
    moreover have "ts = [(ss_ip st + 1, ?d - p + q)]" using plain False by blast
    ultimately show ?thesis by (cases "scalar_step env code st") (auto simp: ss_next_def)
  next
    case True
    then have s: "scalar_step env code st = scalar_control env i st"
      by (simp add: step scalar_step_arith_jump)
    from True consider "in_op i = CXPR_OP_JUMP" | "in_op i = CXPR_OP_JUMP_IF_FALSE" | "in_op i = CXPR_OP_JUMP_IF_TRUE"
      | "in_op i = CXPR_OP_RETURN" by (auto simp: is_jump_def)
    then show ?thesis
    proof cases
      case 1
      with jump s show ?thesis by (simp add: scalar_control_jump)
    next
      case 2
      with jump_if s show ?thesis by (cases "ss_stack st") (auto simp: scalar_control_jump scalar_jump_if_def)
    next
      case 3
      with jump_if s show ?thesis by (cases "ss_stack st") (auto simp: scalar_control_jump scalar_jump_if_def)
    next
      case 4
      with ret s show ?thesis by (auto simp: scalar_control_jump length_Suc_conv)
    qed
  qed
qed

interpretation scalar_machine: checked_machine "length code" "scalar_transfer code" "scalar_step env code" ss_ip
    "\<lambda>st. length (ss_stack st)" "\<lambda>st. calls_ok code" for env code
  by unfold_locales (use scalar_step_sound in blast)+

section \<open>The boolean executor honours its validator\<close>

abbreviation bs_shape :: "'s bool_state \<Rightarrow> cxpr_ir_fast_stack_state" where
  "bs_shape st \<equiv> \<lparr>numbers = length (bs_nstack st), bools = length (bs_bstack st)\<rparr>"

text \<open>The stack the validator expects the result of a call on, and the condition on the surroundings
  that results of calls, fresh or memoized, have the type that was declared.\<close>

definition declared_bool :: "cxpr_ir_instr \<Rightarrow> bool" where
  "declared_bool i \<longleftrightarrow>
     (case in_func i of
        None \<Rightarrow> False
      | Some f \<Rightarrow> fe_has_return_type f \<and> fe_return_type f = CXPR_VALUE_BOOL \<and>
          (in_op i = CXPR_OP_CALL_FUNC \<and> fe_value_func f \<noteq> None \<or> in_op i = CXPR_OP_CALL_DEFINED))"

definition fits :: "cxpr_ir_instr \<Rightarrow> cxpr_value \<Rightarrow> bool" where
  "fits i v \<longleftrightarrow> (value_type v = CXPR_VALUE_NUMBER \<longrightarrow> \<not> declared_bool i) \<and>
     (value_type v = CXPR_VALUE_BOOL \<longrightarrow> declared_bool i)"

definition env_typed :: "'s fast_env \<Rightarrow> ir_code \<Rightarrow> bool" where
  "env_typed env code \<longleftrightarrow>
     (\<forall>i \<in> set code. (\<forall>ctx m. env_memo_get env i ctx = Some m \<longrightarrow> fits i m) \<and>
        (\<forall>args ctx v. fst (env_defined env i args ctx) = Inr v \<longrightarrow> fits i v) \<and>
        (\<forall>f vf args. in_op i = CXPR_OP_CALL_FUNC \<longrightarrow> in_func i = Some f \<longrightarrow> fe_value_func f = Some vf \<longrightarrow> fits i (vf args)))"

definition bs_next :: "'s bool_state \<Rightarrow> cxpr_ir_fast_stack_state \<Rightarrow> 's bool_out \<Rightarrow> bool" where
  "bs_next st s r \<longleftrightarrow>
     (case r of Continue st' \<Rightarrow> bs_ip st' = bs_ip st + 1 \<and> bs_shape st' = s | Crash \<Rightarrow> False | _ \<Rightarrow> True)"

lemma bs_next_error [simp]: "bs_next st s (Error c m st')"
  by (simp add: bs_next_def)

lemma npush_next:
  "length (bs_nstack st') < CXPR_IR_STACK_CAPACITY \<Longrightarrow> bs_ip st' = bs_ip st \<Longrightarrow>
     s = \<lparr>numbers = Suc (length (bs_nstack st')), bools = length (bs_bstack st')\<rparr> \<Longrightarrow> bs_next st s (npush v st')"
  by (simp add: bs_next_def npush_def)

lemma bpush_next:
  "length (bs_bstack st') < CXPR_IR_STACK_CAPACITY \<Longrightarrow> bs_ip st' = bs_ip st \<Longrightarrow>
     s = \<lparr>numbers = length (bs_nstack st'), bools = Suc (length (bs_bstack st'))\<rparr> \<Longrightarrow> bs_next st s (bpush v st')"
  by (simp add: bs_next_def bpush_def)

lemma bool_load_next:
  "length (bs_nstack st) < CXPR_IR_STACK_CAPACITY \<Longrightarrow>
     bs_next st \<lparr>numbers = Suc (length (bs_nstack st)), bools = length (bs_bstack st)\<rparr> (bool_load env i p q st)"
  by (auto simp: bool_load_def Let_def intro!: npush_next split: prod.splits option.splits)

lemma bool_load_local_next:
  "length (bs_nstack st) < CXPR_IR_STACK_CAPACITY \<Longrightarrow>
     bs_next st \<lparr>numbers = Suc (length (bs_nstack st)), bools = length (bs_bstack st)\<rparr> (bool_load_local i q st)"
  by (auto simp: bool_load_local_def Let_def intro!: npush_next)

text \<open>The shape after a call that leaves \<open>n\<close> numbers and \<open>b\<close> booleans below its result.\<close>

definition result_shape :: "cxpr_ir_instr \<Rightarrow> nat \<Rightarrow> nat \<Rightarrow> cxpr_ir_fast_stack_state" where
  "result_shape i n b = (if declared_bool i then \<lparr>numbers = n, bools = Suc b\<rparr> else \<lparr>numbers = Suc n, bools = b\<rparr>)"

lemma vpush_next:
  assumes "fits i v" "bs_ip st' = bs_ip st" "\<And>x. bs_next st (result_shape i (length (bs_nstack st')) (length (bs_bstack st'))) (fail x)
      \<or> value_type v \<in> {CXPR_VALUE_NUMBER, CXPR_VALUE_BOOL}"
    and "numbers (result_shape i (length (bs_nstack st')) (length (bs_bstack st'))) \<le> CXPR_IR_STACK_CAPACITY"
    and "bools (result_shape i (length (bs_nstack st')) (length (bs_bstack st'))) \<le> CXPR_IR_STACK_CAPACITY"
  shows "bs_next st (result_shape i (length (bs_nstack st')) (length (bs_bstack st'))) (vpush v fail st')"
  using assms
  by (cases v) (auto simp: fits_def result_shape_def Suc_le_eq intro!: npush_next bpush_next split: if_splits)

lemma bool_memo_call_next:
  assumes m: "\<And>ctx m. env_memo_get env i ctx = Some m \<Longrightarrow> fits i m" and v: "fits i v" and ip: "bs_ip st' = bs_ip st"
    and cap: "numbers (result_shape i (length (bs_nstack st')) (length (bs_bstack st'))) \<le> CXPR_IR_STACK_CAPACITY"
      "bools (result_shape i (length (bs_nstack st')) (length (bs_bstack st'))) \<le> CXPR_IR_STACK_CAPACITY"
  shows "bs_next st (result_shape i (length (bs_nstack st')) (length (bs_bstack st'))) (bool_memo_call env i v st')"
proof (cases "env_memo_get env i (bs_ctx st')")
  case (Some x)
  then show ?thesis using vpush_next [OF m [OF Some] ip _ cap] by (simp add: bool_memo_call_def)
next
  case None
  let ?st = "st'\<lparr>bs_ctx := env_memo_set env i v (bs_ctx st')\<rparr>"
  have "value_type v \<in> {CXPR_VALUE_NUMBER, CXPR_VALUE_BOOL} \<Longrightarrow>
      bs_next st (result_shape i (length (bs_nstack ?st)) (length (bs_bstack ?st))) (vpush v (\<lambda>_. Crash) ?st)"
    using cap ip by (intro vpush_next [OF v]) auto
  with None show ?thesis by (auto simp: bool_memo_call_def)
qed

lemma bool_effect_arith:
  "arith_op pow (in_op i) \<noteq> None \<Longrightarrow> cxpr_ir_bool_fast_stack_effect i s =
     (if numbers s < 2 then None else Some (s\<lparr>numbers := numbers s - 1\<rparr>))"
  "compare_op (in_op i) \<noteq> None \<Longrightarrow> cxpr_ir_bool_fast_stack_effect i s =
     (if numbers s < 2 then None else Some (s\<lparr>numbers := numbers s - 2, bools := bools s + 1\<rparr>))"
  "unary_op (in_op i) \<noteq> None \<Longrightarrow> cxpr_ir_bool_fast_stack_effect i s = (if 1 \<le> numbers s then Some s else None)"
  by (cases "in_op i"; simp add: cxpr_ir_bool_fast_stack_effect_def Let_def)+

lemma bool_arith_next:
  assumes r: "bool_arith env i st = Some r" and e: "cxpr_ir_bool_fast_stack_effect i (bs_shape st) = Some s"
    and cap: "numbers s \<le> CXPR_IR_STACK_CAPACITY" "bools s \<le> CXPR_IR_STACK_CAPACITY"
  shows "bs_next st s r"
proof -
  consider (arith) f where "arith_op (env_pow env) (in_op i) = Some f"
    | (cmp) c where "arith_op (env_pow env) (in_op i) = None" "compare_op (in_op i) = Some c"
    | (one) f where "arith_op (env_pow env) (in_op i) = None" "compare_op (in_op i) = None" "unary_op (in_op i) = Some f"
    | (other) "arith_op (env_pow env) (in_op i) = None" "compare_op (in_op i) = None" "unary_op (in_op i) = None"
        "in_op i \<in> {CXPR_OP_NOT, CXPR_OP_CLAMP, CXPR_OP_DIV, CXPR_OP_MOD}"
    using r unfolding bool_arith_def by (auto split: option.splits if_splits)
  then show ?thesis
  proof cases
    case arith
    have "\<not> length (bs_nstack st) < 2" "s = \<lparr>numbers = length (bs_nstack st) - 1, bools = length (bs_bstack st)\<rparr>"
      using e arith bool_effect_arith(1) [of "env_pow env" i] by (auto split: if_splits)
    moreover obtain b a t where "bs_nstack st = b # a # t" using stack_cases(2) calculation(1) by (metis not_less)
    ultimately show ?thesis using arith r cap by (auto simp: bool_arith_def intro!: npush_next)
  next
    case cmp
    have "\<not> length (bs_nstack st) < 2" "s = \<lparr>numbers = length (bs_nstack st) - 2, bools = length (bs_bstack st) + 1\<rparr>"
      using e cmp bool_effect_arith(2) [of i] by (auto split: if_splits)
    moreover obtain b a t where "bs_nstack st = b # a # t" using stack_cases(2) calculation(1) by (metis not_less)
    ultimately show ?thesis using cmp r cap by (auto simp: bool_arith_def intro!: bpush_next)
  next
    case one
    have "1 \<le> length (bs_nstack st)" "s = bs_shape st" using e one bool_effect_arith(3) [of i] by (auto split: if_splits)
    moreover obtain a t where "bs_nstack st = a # t" using stack_cases(1) calculation(1) by blast
    ultimately show ?thesis using one r by (auto simp: bool_arith_def bs_next_def)
  next
    case other
    from other(4) consider "in_op i = CXPR_OP_NOT" | "in_op i = CXPR_OP_CLAMP" | "in_op i \<in> {CXPR_OP_DIV, CXPR_OP_MOD}" by blast
    then show ?thesis
    proof cases
      case 1
      then have "1 \<le> length (bs_bstack st)" "s = bs_shape st"
        using e by (auto simp: cxpr_ir_bool_fast_stack_effect_def Let_def split: if_splits)
      moreover obtain a t where "bs_bstack st = a # t" using stack_cases(1) calculation(1) by blast
      ultimately show ?thesis using 1 r by (auto simp: bool_arith_def bs_next_def)
    next
      case 2
      then have n: "\<not> length (bs_nstack st) < 3" "s = \<lparr>numbers = length (bs_nstack st) - 2, bools = length (bs_bstack st)\<rparr>"
        using e by (auto simp: cxpr_ir_bool_fast_stack_effect_def Let_def split: if_splits)
      then obtain c b a t where "bs_nstack st = c # b # a # t" using stack_cases(3) by (metis not_less)
      with n show ?thesis using 2 r cap by (auto simp: bool_arith_def intro!: npush_next)
    next
      case 3
      then have n: "\<not> length (bs_nstack st) < 2" "s = \<lparr>numbers = length (bs_nstack st) - 1, bools = length (bs_bstack st)\<rparr>"
        using e by (auto simp: cxpr_ir_bool_fast_stack_effect_def Let_def split: if_splits)
      then obtain b a t where "bs_nstack st = b # a # t" using stack_cases(2) by (metis not_less)
      with n show ?thesis using 3 r cap by (auto simp: bool_arith_def bool_divide_def intro!: npush_next)
    qed
  qed
qed

lemma bool_call_native_next:
  assumes op: "in_op i \<in> {CXPR_OP_CALL_UNARY, CXPR_OP_CALL_BINARY, CXPR_OP_CALL_TERNARY}" and f: "in_func i = Some f"
    and e: "cxpr_ir_bool_fast_stack_effect i (bs_shape st) = Some s"
    and cap: "numbers s \<le> CXPR_IR_STACK_CAPACITY" "bools s \<le> CXPR_IR_STACK_CAPACITY"
    and typed: "env_typed env code" "i \<in> set code"
  shows "bs_next st s (bool_call_native env i st)"
proof -
  let ?n = "length (bs_nstack st)" and ?b = "length (bs_bstack st)"
  have nb: "\<not> declared_bool i" using op f by (auto simp: declared_bool_def)
  have num: "fits i (cxpr_num x)" for x using nb by (simp add: fits_def)
  have memo: "\<And>ctx m. env_memo_get env i ctx = Some m \<Longrightarrow> fits i m" using typed by (auto simp: env_typed_def)
  from op consider "in_op i = CXPR_OP_CALL_UNARY" "1 \<le> ?n" "s = bs_shape st"
    | "in_op i = CXPR_OP_CALL_BINARY" "2 \<le> ?n" "s = \<lparr>numbers = ?n - 1, bools = ?b\<rparr>"
    | "in_op i = CXPR_OP_CALL_TERNARY" "3 \<le> ?n" "s = \<lparr>numbers = ?n - 2, bools = ?b\<rparr>"
    using e by (auto simp: cxpr_ir_bool_fast_stack_effect_def Let_def split: if_splits)
  then show ?thesis
  proof cases
    case 1
    then obtain a t where st: "bs_nstack st = a # t" using stack_cases(1) by blast
    have "bs_next st (result_shape i (length t) ?b) (bool_memo_call env i (cxpr_num (fe_unary f a)) (st\<lparr>bs_nstack := t\<rparr>))"
      using bool_memo_call_next [OF memo num, where st' = "st\<lparr>bs_nstack := t\<rparr>" and st = st] cap 1 st nb by (simp add: result_shape_def)
    with 1 st f nb show ?thesis by (simp add: bool_call_native_def result_shape_def)
  next
    case 2
    then obtain b a t where st: "bs_nstack st = b # a # t" using stack_cases(2) by blast
    have "bs_next st (result_shape i (length t) ?b) (bool_memo_call env i (cxpr_num (fe_binary f a b)) (st\<lparr>bs_nstack := t\<rparr>))"
      using bool_memo_call_next [OF memo num, where st' = "st\<lparr>bs_nstack := t\<rparr>" and st = st] cap 2 st nb by (simp add: result_shape_def)
    with 2 st f nb show ?thesis by (simp add: bool_call_native_def result_shape_def)
  next
    case 3
    then obtain c b a t where st: "bs_nstack st = c # b # a # t" using stack_cases(3) by blast
    have "bs_next st (result_shape i (length t) ?b) (bool_memo_call env i (cxpr_num (fe_ternary f a b c)) (st\<lparr>bs_nstack := t\<rparr>))"
      using bool_memo_call_next [OF memo num, where st' = "st\<lparr>bs_nstack := t\<rparr>" and st = st] cap 3 st nb by (simp add: result_shape_def)
    with 3 st f nb show ?thesis by (simp add: bool_call_native_def result_shape_def)
  qed
qed

text \<open>The effect of \<open>CALL_FUNC\<close> and \<open>CALL_DEFINED\<close>.\<close>

lemma bool_effect_func:
  "in_op i = CXPR_OP_CALL_FUNC \<Longrightarrow> cxpr_ir_bool_fast_stack_effect i s =
     (if 32 < in_index i \<or> numbers s < in_index i then None
      else case in_func i of
          None \<Rightarrow> None
        | Some f \<Rightarrow>
            if declared_bool i then Some (s\<lparr>numbers := numbers s - in_index i, bools := bools s + 1\<rparr>)
            else if \<not> fe_typed_func f then Some (s\<lparr>numbers := numbers s - in_index i + 1\<rparr>) else None)"
  by (cases "in_func i") (simp_all add: cxpr_ir_bool_fast_stack_effect_def declared_bool_def Let_def conj_ac)

lemma bool_effect_defined:
  "in_op i = CXPR_OP_CALL_DEFINED \<Longrightarrow> cxpr_ir_bool_fast_stack_effect i s =
     (if 32 < in_index i \<or> numbers s < in_index i then None
      else case in_func i of
          None \<Rightarrow> None
        | Some f \<Rightarrow>
            if declared_bool i then Some (s\<lparr>numbers := numbers s - in_index i, bools := bools s + 1\<rparr>)
            else if fe_has_return_type f \<and> fe_return_type f = CXPR_VALUE_NUMBER
            then Some (s\<lparr>numbers := numbers s - in_index i + 1\<rparr>) else None)"
  by (cases "in_func i") (simp_all add: cxpr_ir_bool_fast_stack_effect_def declared_bool_def Let_def)

lemma bool_effect_call:
  assumes "in_op i = CXPR_OP_CALL_FUNC \<or> in_op i = CXPR_OP_CALL_DEFINED"
    and "cxpr_ir_bool_fast_stack_effect i (bs_shape st) = Some s"
  shows "in_index i \<le> CXPR_MAX_CALL_ARGS \<and> in_index i \<le> length (bs_nstack st) \<and> in_func i \<noteq> None \<and>
    s = result_shape i (length (bs_nstack st) - in_index i) (length (bs_bstack st))"
  using assms
  by (auto simp: bool_effect_func bool_effect_defined result_shape_def CXPR_MAX_CALL_ARGS_def
      split: if_splits option.splits)

lemma bool_call_func_next:
  assumes op: "in_op i = CXPR_OP_CALL_FUNC" and e: "cxpr_ir_bool_fast_stack_effect i (bs_shape st) = Some s"
    and cap: "numbers s \<le> CXPR_IR_STACK_CAPACITY" "bools s \<le> CXPR_IR_STACK_CAPACITY"
    and typed: "env_typed env code" "i \<in> set code" and calls: "calls_ok code"
  shows "bs_next st s (bool_call_func env i st)"
proof -
  let ?st = "st\<lparr>bs_nstack := drop (in_index i) (bs_nstack st)\<rparr>"
  let ?args = "rev (take (in_index i) (bs_nstack st))"
  obtain f where f: "in_func i = Some f" "fe_typed_func f \<or> fe_value_func f \<noteq> None \<or> fe_sync_func f \<noteq> None"
    by (rule calls_ok_entry [OF calls typed(2)]) (simp_all add: op)
  have b: "in_index i \<le> CXPR_MAX_CALL_ARGS" "in_index i \<le> length (bs_nstack st)"
    and s: "s = result_shape i (length (bs_nstack ?st)) (length (bs_bstack ?st))"
    using bool_effect_call [OF _ e] op by auto
  have memo: "\<And>ctx m. env_memo_get env i ctx = Some m \<Longrightarrow> fits i m" using typed by (auto simp: env_typed_def)
  have nxt: "bs_next st s (bool_memo_call env i v ?st)" if "fits i v" for v
    using bool_memo_call_next [OF memo that, where st' = ?st and st = st] cap unfolding s by simp
  have res: "fits i v" if v: "call_func_result f ?args = Some v" for v
  proof (cases "fe_value_func f")
    case None
    with v f(1) op show ?thesis by (auto simp: call_func_result_def fits_def declared_bool_def split: option.splits)
  next
    case (Some vf)
    then have "v = vf (map cxpr_num ?args)" using v by (auto simp: call_func_result_def split: if_splits)
    with typed op f(1) Some show ?thesis by (simp add: env_typed_def)
  qed
  show ?thesis
  proof (cases "fe_typed_func f")
    case True
    with f(1) show ?thesis by (simp add: bool_call_func_def)
  next
    case False
    then have "call_func_result f ?args \<noteq> None"
      using f(2) b by (auto simp: call_func_result_def split: option.splits)
    then obtain v where v: "call_func_result f ?args = Some v" by blast
    show ?thesis
      using False f(1) b v nxt [OF res [OF v]] nxt [OF memo]
      by (cases "env_memo_get env i (bs_ctx st)") (auto simp: bool_call_func_def Let_def)
  qed
qed

lemma bool_call_defined_next:
  assumes op: "in_op i = CXPR_OP_CALL_DEFINED" and e: "cxpr_ir_bool_fast_stack_effect i (bs_shape st) = Some s"
    and cap: "numbers s \<le> CXPR_IR_STACK_CAPACITY" "bools s \<le> CXPR_IR_STACK_CAPACITY"
    and typed: "env_typed env code" "i \<in> set code"
  shows "bs_next st s (bool_call_defined env i st)"
proof -
  let ?st = "st\<lparr>bs_nstack := drop (in_index i) (bs_nstack st)\<rparr>"
  let ?args = "map cxpr_num (rev (take (in_index i) (bs_nstack st)))"
  have b: "in_index i \<le> CXPR_MAX_CALL_ARGS" "in_index i \<le> length (bs_nstack st)"
    and s: "s = result_shape i (length (bs_nstack ?st)) (length (bs_bstack ?st))"
    using bool_effect_call [OF _ e] op by auto
  show ?thesis
  proof (cases "env_memo_get env i (bs_ctx st)")
    case (Some m)
    then have "fits i m" using typed by (auto simp: env_typed_def)
    from vpush_next [OF this, where st' = ?st and st = st] cap Some b show ?thesis unfolding s by (simp add: bool_call_defined_def Let_def)
  next
    case None
    obtain r ctx where d: "env_defined env i ?args (bs_ctx st) = (r, ctx)" by fastforce
    show ?thesis
    proof (cases r)
      case (Inl p)
      with None d b show ?thesis by (cases p) (simp add: bool_call_defined_def Let_def)
    next
      case (Inr v)
      let ?st' = "?st\<lparr>bs_ctx := env_memo_set env i v ctx\<rparr>"
      have "fits i v" using typed d Inr by (auto simp: env_typed_def) (metis fst_conv)
      from vpush_next [OF this, where st' = ?st' and st = st and fail = "\<lambda>_. Crash"] cap
      have "value_type v \<in> {CXPR_VALUE_NUMBER, CXPR_VALUE_BOOL} \<Longrightarrow> bs_next st s (vpush v (\<lambda>_. Crash) ?st')"
        unfolding s by simp
      with None d b Inr show ?thesis by (auto simp: bool_call_defined_def Let_def)
    qed
  qed
qed

lemma bool_control_call:
  "in_op i \<in> {CXPR_OP_CALL_UNARY, CXPR_OP_CALL_BINARY, CXPR_OP_CALL_TERNARY} \<Longrightarrow>
     bool_control env i st = bool_call_native env i st"
  "in_op i = CXPR_OP_CALL_FUNC \<Longrightarrow> bool_control env i st = bool_call_func env i st"
  "in_op i = CXPR_OP_CALL_DEFINED \<Longrightarrow> bool_control env i st = bool_call_defined env i st"
  unfolding bool_control_def by (elim insertE emptyE; simp) simp_all

lemma bool_control_next:
  assumes op: "\<not> is_jump (in_op i)" and arith: "bool_arith env i st = None"
    and e: "cxpr_ir_bool_fast_stack_effect i (bs_shape st) = Some s"
    and cap: "numbers s \<le> CXPR_IR_STACK_CAPACITY" "bools s \<le> CXPR_IR_STACK_CAPACITY"
    and typed: "env_typed env code" "i \<in> set code" and calls: "calls_ok code"
  shows "bs_next st s (bool_control env i st)"
proof (cases "in_op i \<in> {CXPR_OP_CALL_UNARY, CXPR_OP_CALL_BINARY, CXPR_OP_CALL_TERNARY}")
  case True
  then have "in_op i \<in> {CXPR_OP_CALL_UNARY, CXPR_OP_CALL_BINARY, CXPR_OP_CALL_TERNARY, CXPR_OP_CALL_FUNC}" by blast
  then obtain f where "in_func i = Some f" by (rule calls_ok_entry [OF calls typed(2)])
  from bool_call_native_next [OF True this e cap typed] show ?thesis by (simp only: bool_control_call(1) [OF True])
next
  case native: False
  consider (func) "in_op i = CXPR_OP_CALL_FUNC" | (defined) "in_op i = CXPR_OP_CALL_DEFINED"
    | (load) "in_op i \<notin> {CXPR_OP_CALL_FUNC, CXPR_OP_CALL_DEFINED}" by blast
  then show ?thesis
  proof cases
    case func
    from bool_call_func_next [OF this e cap typed calls] show ?thesis by (simp only: bool_control_call(2) [OF func])
  next
    case defined
    from bool_call_defined_next [OF this e cap typed] show ?thesis by (simp only: bool_control_call(3) [OF defined])
  next
    case load
    then show ?thesis
      using native op arith e cap
      by (cases "in_op i")
        (auto simp: bool_control_def cxpr_ir_bool_fast_stack_effect_def Let_def is_jump_def bool_arith_def null_dispatch_def
          Suc_le_eq intro: npush_next bpush_next bool_load_next bool_load_local_next split: if_splits)
  qed
qed

lemma bool_transfer_cases:
  assumes t: "bool_transfer code ip s = Some ts" and i: "i = code ! ip"
  obtains s' where "cxpr_ir_bool_fast_stack_effect i s = Some s'"
    "numbers s' \<le> CXPR_IR_STACK_CAPACITY" "bools s' \<le> CXPR_IR_STACK_CAPACITY"
    "\<not> is_jump (in_op i) \<longrightarrow> ts = [(ip + 1, s')]"
    "in_op i = CXPR_OP_JUMP \<longrightarrow> ts = [(in_index i, s)]"
    "in_op i = CXPR_OP_JUMP_IF_FALSE \<or> in_op i = CXPR_OP_JUMP_IF_TRUE \<longrightarrow> 1 \<le> bools s \<and>
       ts = [(in_index i, s\<lparr>bools := bools s - 1\<rparr>), (ip + 1, s\<lparr>bools := bools s - 1\<rparr>)]"
    "in_op i = CXPR_OP_RETURN \<longrightarrow> numbers s = 0 \<and> bools s = 1 \<and> ts = []"
proof -
  from t obtain s' where e: "cxpr_ir_bool_fast_stack_effect i s = Some s'"
    by (auto simp: bool_transfer_def i Let_def split: option.splits)
  from t e have b: "numbers s' \<le> CXPR_IR_STACK_CAPACITY" "bools s' \<le> CXPR_IR_STACK_CAPACITY"
    by (auto simp: bool_transfer_def i [symmetric] Let_def split: if_splits)
  have j: "in_op i = CXPR_OP_JUMP \<Longrightarrow> s' = s"
    "in_op i = CXPR_OP_JUMP_IF_FALSE \<or> in_op i = CXPR_OP_JUMP_IF_TRUE \<Longrightarrow> 1 \<le> bools s \<and> s' = s\<lparr>bools := bools s - 1\<rparr>"
    "in_op i = CXPR_OP_RETURN \<Longrightarrow> numbers s = 0 \<and> bools s = 1"
    using e by (auto simp: cxpr_ir_bool_fast_stack_effect_def Let_def split: if_splits)
  show thesis
    by (rule that [OF e b]; use t e b j in \<open>auto simp: bool_transfer_def i [symmetric] Let_def is_jump_def split: if_splits\<close>)
qed

lemma bool_step_arith_jump: "is_jump (in_op i) \<Longrightarrow> bool_arith env i st = None"
  unfolding is_jump_def by (elim insertE emptyE; simp add: bool_arith_def)

lemma bool_control_jump:
  "in_op i = CXPR_OP_JUMP \<Longrightarrow> bool_control env i st = Continue (st\<lparr>bs_ip := in_index i\<rparr>)"
  "in_op i = CXPR_OP_JUMP_IF_FALSE \<Longrightarrow> bool_control env i st = bool_jump_if False i st"
  "in_op i = CXPR_OP_JUMP_IF_TRUE \<Longrightarrow> bool_control env i st = bool_jump_if True i st"
  "in_op i = CXPR_OP_RETURN \<Longrightarrow> bool_control env i st = (case (bs_nstack st, bs_bstack st) of
      ([], [v]) \<Rightarrow> Return v (st\<lparr>bs_bstack := []\<rparr>)
    | _ \<Rightarrow> cxpr_ir_runtime_error ''IR stack imbalance on bool return'' st)"
  by (simp_all add: bool_control_def)

lemma bool_step_sound:
  assumes calls: "calls_ok code" and typed: "env_typed env code" and ip: "bs_ip st < length code"
    and t: "bool_transfer code (bs_ip st) (bs_shape st) = Some ts"
  shows "bool_step env code st \<noteq> Crash \<and>
    (\<forall>st'. bool_step env code st = Continue st' \<longrightarrow> (bs_ip st', bs_shape st') \<in> set ts)"
proof -
  define i where "i = code ! bs_ip st"
  define s where "s = bs_shape st"
  obtain s' where e: "cxpr_ir_bool_fast_stack_effect i (bs_shape st) = Some s'"
    and b: "numbers s' \<le> CXPR_IR_STACK_CAPACITY" "bools s' \<le> CXPR_IR_STACK_CAPACITY"
    and plain: "\<not> is_jump (in_op i) \<longrightarrow> ts = [(bs_ip st + 1, s')]"
    and jump: "in_op i = CXPR_OP_JUMP \<longrightarrow> ts = [(in_index i, s)]"
    and jump_if: "in_op i = CXPR_OP_JUMP_IF_FALSE \<or> in_op i = CXPR_OP_JUMP_IF_TRUE \<longrightarrow> 1 \<le> bools s \<and>
       ts = [(in_index i, s\<lparr>bools := bools s - 1\<rparr>), (bs_ip st + 1, s\<lparr>bools := bools s - 1\<rparr>)]"
    and ret: "in_op i = CXPR_OP_RETURN \<longrightarrow> numbers s = 0 \<and> bools s = 1 \<and> ts = []"
    unfolding s_def by (rule bool_transfer_cases [OF t i_def])
  have step: "bool_step env code st = (case bool_arith env i st of Some r \<Rightarrow> r | None \<Rightarrow> bool_control env i st)"
    unfolding i_def bool_step_def Let_def using ip by simp
  show ?thesis
  proof (cases "is_jump (in_op i)")
    case False
    have mem: "i \<in> set code" using ip by (simp add: i_def)
    have "bs_next st s' (bool_step env code st)"
    proof (cases "bool_arith env i st")
      case None
      from bool_control_next [OF False None e b typed mem calls] show ?thesis unfolding step None by simp
    next
      case (Some r)
      from bool_arith_next [OF Some e b] show ?thesis unfolding step Some by simp
    qed
    moreover have "ts = [(bs_ip st + 1, s')]" using plain False by blast
    ultimately show ?thesis by (cases "bool_step env code st") (auto simp: bs_next_def)
  next
    case True
    then have c: "bool_step env code st = bool_control env i st" by (simp add: step bool_step_arith_jump)
    from True consider "in_op i = CXPR_OP_JUMP" | "in_op i = CXPR_OP_JUMP_IF_FALSE" | "in_op i = CXPR_OP_JUMP_IF_TRUE"
      | "in_op i = CXPR_OP_RETURN" by (auto simp: is_jump_def)
    then show ?thesis
    proof cases
      case 1
      with jump c show ?thesis by (simp add: bool_control_jump s_def)
    next
      case 2
      with jump_if c show ?thesis by (cases "bs_bstack st") (auto simp: bool_control_jump bool_jump_if_def s_def)
    next
      case 3
      with jump_if c show ?thesis by (cases "bs_bstack st") (auto simp: bool_control_jump bool_jump_if_def s_def)
    next
      case 4
      with ret c show ?thesis by (auto simp: bool_control_jump length_Suc_conv s_def)
    qed
  qed
qed

interpretation bool_machine: checked_machine "length code" "bool_transfer code" "bool_step env code" bs_ip
    bs_shape "\<lambda>st. calls_ok code \<and> env_typed env code" for env code
  by unfold_locales (use bool_step_sound in blast)+

text \<open>Programs whose jumps lead forward, as the compiler emits them.\<close>

definition jumps_forward :: "ir_code \<Rightarrow> bool" where
  "jumps_forward code \<longleftrightarrow>
     (\<forall>ip < length code. in_op (code ! ip) \<in> {CXPR_OP_JUMP, CXPR_OP_JUMP_IF_FALSE, CXPR_OP_JUMP_IF_TRUE} \<longrightarrow>
        ip < in_index (code ! ip))"

lemma scalar_transfer_forward:
  assumes "jumps_forward code" "ip < length code" "scalar_transfer code ip s = Some ts" "(t, u) \<in> set ts"
  shows "ip < t"
proof -
  have "t = ip + 1 \<or> t = in_index (code ! ip) \<and>
      in_op (code ! ip) \<in> {CXPR_OP_JUMP, CXPR_OP_JUMP_IF_FALSE, CXPR_OP_JUMP_IF_TRUE}"
    using assms(3,4) by (auto simp: scalar_transfer_def Let_def split: option.splits if_splits)
  with assms(1,2) show ?thesis unfolding jumps_forward_def by force
qed

lemma bool_transfer_forward:
  assumes "jumps_forward code" "ip < length code" "bool_transfer code ip s = Some ts" "(t, u) \<in> set ts"
  shows "ip < t"
proof -
  have "t = ip + 1 \<or> t = in_index (code ! ip) \<and>
      in_op (code ! ip) \<in> {CXPR_OP_JUMP, CXPR_OP_JUMP_IF_FALSE, CXPR_OP_JUMP_IF_TRUE}"
    using assms(3,4) by (auto simp: bool_transfer_def Let_def split: option.splits if_splits)
  with assms(1,2) show ?thesis unfolding jumps_forward_def by force
qed

lemma run_not_continue: "ir_run step n st = Some r \<Longrightarrow> r \<noteq> Continue st'"
  by (induction n arbitrary: st) (auto split: outcome.splits)

lemma run_outcomes:
  "ir_run step n st = Some r \<Longrightarrow> r \<noteq> Crash \<Longrightarrow> (\<exists>v s. r = Return v s) \<or> (\<exists>c m s. r = Error c m s)"
  using run_not_continue [of step n st r] by (cases r) auto

text \<open>What the validators promise of a run; \<open>ends\<close> says that a run has returned or reported.\<close>

definition ends :: "('st, 'r) outcome option \<Rightarrow> bool" where
  "ends r \<longleftrightarrow> (\<exists>v st. r = Some (Return v st)) \<or> (\<exists>c m st. r = Some (Error c m st))"

lemma validated_scalar_run:
  assumes "cxpr_ir_validate_scalar_fast_program code" "calls_ok code"
  shows "cxpr_ir_exec_scalar_fast env code locals ctx fuel \<noteq> Some Crash"
    and "jumps_forward code \<Longrightarrow> ends (cxpr_ir_exec_scalar_fast env code locals ctx (length code))"
proof -
  let ?s = "scalar_start locals ctx"
  obtain d where d: "scalar_analysis code = Some d"
    using assms(1) by (auto simp: cxpr_ir_validate_scalar_fast_program_def)
  note c = scalar_analysis_consistent [OF d]
  have on: "scalar_machine.on_track code d ?s"
    unfolding scalar_machine.on_track_def scalar_start_def using c assms(2) by simp
  show "cxpr_ir_exec_scalar_fast env code locals ctx fuel \<noteq> Some Crash"
    using scalar_machine.run_safe [OF _ _ on] c by (simp add: cxpr_ir_exec_scalar_fast_def)
  assume fw: "jumps_forward code"
  obtain r where r: "ir_run (scalar_step env code) (length code) ?s = Some r" "r \<noteq> Crash"
    using scalar_machine.run_ends [OF _ _ on, of "length code" env] c scalar_transfer_forward [OF fw] by auto
  with run_outcomes [OF r] c show "ends (cxpr_ir_exec_scalar_fast env code locals ctx (length code))"
    by (auto simp: cxpr_ir_exec_scalar_fast_def ends_def)
qed

lemma validated_bool_run:
  assumes "cxpr_ir_validate_bool_fast_program code" "calls_ok code" "env_typed env code"
  shows "cxpr_ir_exec_bool_fast env code locals ctx fuel \<noteq> Some Crash"
    and "jumps_forward code \<Longrightarrow> ends (cxpr_ir_exec_bool_fast env code locals ctx (length code))"
proof -
  let ?s = "bool_start locals ctx"
  obtain d where d: "bool_analysis code = Some d"
    using assms(1) by (auto simp: cxpr_ir_validate_bool_fast_program_def)
  note c = bool_analysis_consistent [OF d]
  have on: "bool_machine.on_track code env d ?s"
    unfolding bool_machine.on_track_def bool_start_def using c assms(2,3) by simp
  show "cxpr_ir_exec_bool_fast env code locals ctx fuel \<noteq> Some Crash"
    using bool_machine.run_safe [OF _ _ on] c by (simp add: cxpr_ir_exec_bool_fast_def)
  assume fw: "jumps_forward code"
  obtain r where r: "ir_run (bool_step env code) (length code) ?s = Some r" "r \<noteq> Crash"
    using bool_machine.run_ends [OF _ _ on, of "length code"] c bool_transfer_forward [OF fw] by auto
  with run_outcomes [OF r] c show "ends (cxpr_ir_exec_bool_fast env code locals ctx (length code))"
    by (auto simp: cxpr_ir_exec_bool_fast_def ends_def)
qed

section \<open>Properties\<close>

text \<open>A context with one variable, and the calls a program without functions never makes.\<close>

definition one_var_env :: "string \<Rightarrow> double \<Rightarrow> unit fast_env" where
  "one_var_env x v =
     \<lparr>env_pow = (\<lambda>a b. DNaN), env_var = (\<lambda>ip i u. (if in_name i = x then Some v else None, u)),
      env_param = (\<lambda>ip i u. (None, u)), env_memo_get = (\<lambda>i u. None), env_memo_set = (\<lambda>i v u. u),
      env_defined = (\<lambda>i args u. (Inl (CXPR_ERR_SYNTAX, ''NULL IR defined function entry''), u))\<rparr>"

text \<open>\<open>x * x + 1\<close>, and \<open>x > 0 and not (x == 1)\<close>.\<close>

definition sample_scalar :: ir_code where
  "sample_scalar =
     [(plain_instr CXPR_OP_LOAD_VAR_SQUARE)\<lparr>in_name := ''x''\<rparr>,
      (plain_instr CXPR_OP_PUSH_CONST)\<lparr>in_value := dbl_of_int 1\<rparr>,
      plain_instr CXPR_OP_ADD, plain_instr CXPR_OP_RETURN]"

definition sample_bool :: ir_code where
  "sample_bool =
     [(plain_instr CXPR_OP_LOAD_VAR)\<lparr>in_name := ''x''\<rparr>,
      plain_instr CXPR_OP_PUSH_CONST, plain_instr CXPR_OP_CMP_GT,
      (plain_instr CXPR_OP_JUMP_IF_FALSE)\<lparr>in_index := 9\<rparr>,
      (plain_instr CXPR_OP_LOAD_VAR)\<lparr>in_name := ''x''\<rparr>,
      (plain_instr CXPR_OP_PUSH_CONST)\<lparr>in_value := dbl_of_int 1\<rparr>,
      plain_instr CXPR_OP_CMP_EQ, plain_instr CXPR_OP_NOT,
      (plain_instr CXPR_OP_JUMP)\<lparr>in_index := 10\<rparr>,
      plain_instr CXPR_OP_PUSH_BOOL, plain_instr CXPR_OP_RETURN]"

lemma sample_ok:
  "cxpr_ir_validate_scalar_fast_program sample_scalar" "cxpr_ir_validate_bool_fast_program sample_bool"
  "jumps_forward sample_scalar" "jumps_forward sample_bool"
  "calls_ok sample_scalar" "calls_ok sample_bool" "env_typed (one_var_env x v) sample_bool"
proof -
  show "cxpr_ir_validate_scalar_fast_program sample_scalar" by code_simp
  show "cxpr_ir_validate_bool_fast_program sample_bool" by code_simp
  show "jumps_forward sample_scalar" "jumps_forward sample_bool"
    by (simp_all add: jumps_forward_def sample_scalar_def sample_bool_def plain_instr_def less_Suc_eq)
  show "calls_ok sample_scalar" "calls_ok sample_bool"
    by (simp_all add: calls_ok_def sample_scalar_def sample_bool_def plain_instr_def)
  show "env_typed (one_var_env x v) sample_bool"
    by (simp add: env_typed_def one_var_env_def sample_bool_def plain_instr_def)
qed





text \<open>A value function declared boolean that returns a number, and a conditional on its result.\<close>

definition lying_entry :: cxpr_func_entry where
  "lying_entry = (cxpr_registry_prepare_entry ''f'')
     \<lparr>fe_value_func := Some (\<lambda>args. cxpr_num dbl_one), fe_has_return_type := True,
      fe_return_type := CXPR_VALUE_BOOL\<rparr>"

definition lying_code :: ir_code where
  "lying_code =
     [(plain_instr CXPR_OP_CALL_FUNC)\<lparr>in_func := Some lying_entry\<rparr>,
      (plain_instr CXPR_OP_JUMP_IF_FALSE)\<lparr>in_index := 4\<rparr>,
      plain_instr CXPR_OP_PUSH_BOOL, (plain_instr CXPR_OP_JUMP)\<lparr>in_index := 5\<rparr>,
      plain_instr CXPR_OP_PUSH_BOOL, plain_instr CXPR_OP_RETURN]"


end
