(* ===== verification/Cxpr_Compile.thy ===== *)
theory Cxpr_Compile
  imports Cxpr_Fold Cxpr_Exec
begin

text \<open>
  The compiler from trees to intermediate code: \<^verbatim>\<open>src/src/ir/compile/shared.c\<close> (name resolution and
  leaf loads), \<^verbatim>\<open>infer.c\<close> (the result kind of the fast executors), \<^verbatim>\<open>node.c\<close> (the lowering of a
  node) and \<^verbatim>\<open>src/src/ir/compile.c\<close> (a whole program). A compilation takes the program built so far
  and returns it extended, or the error it reports. Bodies of expression-defined functions are
  compiled in place of their calls under a stack of substitution frames; that this ends for every
  tree and registry, recursive definitions included, is the termination proof of the lowering.
\<close>

section \<open>Surroundings, frames and emission\<close>

record compile_env =
  ce_mem :: "nat \<Rightarrow> bool"
  ce_pow :: "double \<Rightarrow> double \<Rightarrow> double"
  ce_hexfloat :: "double \<Rightarrow> string"
  ce_reg :: cxpr_registry
  ce_locals :: "string list"

text \<open>\<open>Not_a_leaf\<close> is the failure of \<open>cxpr_ir_emit_leaf_load\<close> that sets no error.\<close>

datatype compile_error = Compile_error cxpr_error_code string | Not_a_leaf | Overrun

type_synonym compile_out = "compile_error + cxpr_ir_program"

text \<open>A substitution frame binds parameter names to argument trees; a frame stands before its parent.\<close>

type_synonym cxpr_ir_subst_frames = "(string \<times> cxpr_expr_ast) list list"

definition CXPR_IR_INLINE_DEPTH_LIMIT :: nat where "CXPR_IR_INLINE_DEPTH_LIMIT = 8"

definition CXPR_IR_INFER_DEPTH_LIMIT :: nat where "CXPR_IR_INFER_DEPTH_LIMIT = 32"

definition emit :: "compile_env \<Rightarrow> cxpr_ir_instr \<Rightarrow> cxpr_ir_program \<Rightarrow> compile_out" where
  "emit env i p =
     (case cxpr_ir_emit (ce_mem env) p i of Inl (code, message) \<Rightarrow> Inl (Compile_error code message) | Inr p' \<Rightarrow> Inr p')"

definition op_only :: "compile_env \<Rightarrow> cxpr_opcode \<Rightarrow> cxpr_ir_program \<Rightarrow> compile_out" where
  "op_only env op = emit env (plain_instr op)"

definition call_ast :: "compile_env \<Rightarrow> cxpr_expr_ast \<Rightarrow> cxpr_ir_program \<Rightarrow> compile_out" where
  "call_ast env ast = emit env ((plain_instr CXPR_OP_CALL_AST)\<lparr>in_ast := Some ast\<rparr>)"

definition push_bool :: "compile_env \<Rightarrow> bool \<Rightarrow> cxpr_ir_program \<Rightarrow> compile_out" where
  "push_bool env b = emit env ((plain_instr CXPR_OP_PUSH_BOOL)\<lparr>in_value := dbl_of_bool b\<rparr>)"

definition then_compile :: "compile_out \<Rightarrow> (cxpr_ir_program \<Rightarrow> compile_out) \<Rightarrow> compile_out" where
  "then_compile r k = (case r of Inl e \<Rightarrow> Inl e | Inr p \<Rightarrow> k p)"

lemma then_compile_cong [fundef_cong]:
  "r = r' \<Longrightarrow> (\<And>p. r' = Inr p \<Longrightarrow> k p = k' p) \<Longrightarrow> then_compile r k = then_compile r' k'"
  by (cases r') (simp_all add: then_compile_def)

lemma then_compile_Inr: "then_compile r k = Inr q \<longleftrightarrow> (\<exists>p. r = Inr p \<and> k p = Inr q)"
  by (cases r) (simp_all add: then_compile_def)

text \<open>The loop over arguments or elements.\<close>

fun compile_seq :: "('a \<Rightarrow> cxpr_ir_program \<Rightarrow> compile_out) \<Rightarrow> 'a list \<Rightarrow> cxpr_ir_program \<Rightarrow> compile_out" where
  "compile_seq f [] p = Inr p"
| "compile_seq f (x # xs) p = then_compile (f x p) (compile_seq f xs)"

lemma compile_seq_cong [fundef_cong]:
  "xs = ys \<Longrightarrow> p = q \<Longrightarrow> (\<And>x r. x \<in> set ys \<Longrightarrow> f x r = g x r) \<Longrightarrow> compile_seq f xs p = compile_seq g ys q"
proof (induction xs arbitrary: ys p q)
  case (Cons x xs)
  have "compile_seq f xs = compile_seq g xs"
    by (rule ext, rule Cons.IH [OF refl refl]) (use Cons.prems in auto)
  with Cons.prems show ?case by auto
qed auto

section \<open>Name resolution and leaf loads (shared.c)\<close>

definition cxpr_ir_local_index :: "string \<Rightarrow> string list \<Rightarrow> nat option" where
  "cxpr_ir_local_index name local_names =
     (if name \<in> set local_names then Some (length (takeWhile (\<lambda>n. n \<noteq> name) local_names)) else None)"

text \<open>The argument a name stands for and the parent of the frame that owns it.\<close>

fun cxpr_ir_subst_lookup :: "cxpr_ir_subst_frames \<Rightarrow> string \<Rightarrow> (cxpr_expr_ast \<times> cxpr_ir_subst_frames) option" where
  "cxpr_ir_subst_lookup [] name = None"
| "cxpr_ir_subst_lookup (frame # parent) name =
     (case map_of frame name of
        Some arg \<Rightarrow> Some (arg, parent)
      | None \<Rightarrow> cxpr_ir_subst_lookup parent name)"

lemma subst_lookup_parent: "cxpr_ir_subst_lookup fs name = Some (arg, parent) \<Longrightarrow> length parent < length fs"
  by (induction fs) (auto split: option.splits)

function cxpr_ir_emit_leaf_load :: "compile_env \<Rightarrow> cxpr_ir_subst_frames \<Rightarrow> bool \<Rightarrow> cxpr_expr_ast
    \<Rightarrow> cxpr_ir_program \<Rightarrow> compile_out" where
  "cxpr_ir_emit_leaf_load env subst square (Ast sp d) p =
     (case d of
        CXPR_NODE_IDENTIFIER name \<Rightarrow>
          (case cxpr_ir_subst_lookup subst name of
             Some (mapped, parent) \<Rightarrow> cxpr_ir_emit_leaf_load env parent square mapped p
           | None \<Rightarrow>
               (case cxpr_ir_local_index name (ce_locals env) of
                  Some i \<Rightarrow>
                    emit env ((plain_instr (if square then CXPR_OP_LOAD_LOCAL_SQUARE else CXPR_OP_LOAD_LOCAL))
                                \<lparr>in_index := i\<rparr>) p
                | None \<Rightarrow>
                    emit env ((plain_instr (if square then CXPR_OP_LOAD_VAR_SQUARE else CXPR_OP_LOAD_VAR))
                                \<lparr>in_name := name, in_hash := cxpr_hash_string name\<rparr>) p))
      | CXPR_NODE_VARIABLE name \<Rightarrow>
          emit env ((plain_instr (if square then CXPR_OP_LOAD_PARAM_SQUARE else CXPR_OP_LOAD_PARAM))
                      \<lparr>in_name := name, in_hash := cxpr_hash_string name\<rparr>) p
      | CXPR_NODE_FIELD_ACCESS ob f \<Rightarrow>
          emit env ((plain_instr (if square then CXPR_OP_LOAD_FIELD_SQUARE else CXPR_OP_LOAD_FIELD))
                      \<lparr>in_name := cxpr_expr_ast_join_with_dot ob f,
                       in_hash := cxpr_hash_string (cxpr_expr_ast_join_with_dot ob f)\<rparr>) p
      | _ \<Rightarrow> Inl Not_a_leaf)"
  by pat_completeness auto
termination
  by (relation "measure (\<lambda>(env, subst, square, ast, p). length subst)") (auto dest: subst_lookup_parent)

declare cxpr_ir_emit_leaf_load.simps [simp del]

section \<open>The result kind (infer.c)\<close>

definition cxpr_ir_defined_is_scalar_only :: "cxpr_func_entry \<Rightarrow> bool" where
  "cxpr_ir_defined_is_scalar_only e \<longleftrightarrow>
     fe_defined_body e \<noteq> None \<and> list_all (\<lambda>fs. fs = []) (fe_defined_param_fields e)"

definition arith_tokens :: "cxpr_token_type list" where
  "arith_tokens = [CXPR_TOK_PLUS, CXPR_TOK_MINUS, CXPR_TOK_STAR, CXPR_TOK_SLASH, CXPR_TOK_PERCENT, CXPR_TOK_POWER]"

definition order_tokens :: "cxpr_token_type list" where
  "order_tokens = [CXPR_TOK_LT, CXPR_TOK_LTE, CXPR_TOK_GT, CXPR_TOK_GTE]"

definition binary_kind :: "cxpr_token_type \<Rightarrow> cxpr_ir_result \<Rightarrow> cxpr_ir_result \<Rightarrow> cxpr_ir_result" where
  "binary_kind op l r =
     (if l = CXPR_IR_RESULT_UNKNOWN \<or> r = CXPR_IR_RESULT_UNKNOWN then CXPR_IR_RESULT_UNKNOWN
      else if op \<in> set arith_tokens then
        (if l = CXPR_IR_RESULT_DOUBLE \<and> r = CXPR_IR_RESULT_DOUBLE then CXPR_IR_RESULT_DOUBLE else CXPR_IR_RESULT_UNKNOWN)
      else if op \<in> set order_tokens then
        (if l = CXPR_IR_RESULT_DOUBLE \<and> r = CXPR_IR_RESULT_DOUBLE then CXPR_IR_RESULT_BOOL else CXPR_IR_RESULT_UNKNOWN)
      else if op \<in> {CXPR_TOK_AND, CXPR_TOK_OR} then
        (if l = CXPR_IR_RESULT_BOOL \<and> r = CXPR_IR_RESULT_BOOL then CXPR_IR_RESULT_BOOL else CXPR_IR_RESULT_UNKNOWN)
      else if op \<in> {CXPR_TOK_EQ, CXPR_TOK_NEQ} then
        (if l = r then CXPR_IR_RESULT_BOOL else CXPR_IR_RESULT_UNKNOWN)
      else CXPR_IR_RESULT_UNKNOWN)"

definition cond_kind :: "cxpr_ir_result \<Rightarrow> cxpr_ir_result \<Rightarrow> cxpr_ir_result \<Rightarrow> cxpr_ir_result" where
  "cond_kind c l r = (if c = CXPR_IR_RESULT_BOOL \<and> l = r then l else CXPR_IR_RESULT_UNKNOWN)"

function cxpr_ir_infer_fast_result_kind :: "cxpr_registry \<Rightarrow> nat \<Rightarrow> cxpr_expr_ast \<Rightarrow> cxpr_ir_result" where
  "cxpr_ir_infer_fast_result_kind reg depth (Ast sp d) =
     (if CXPR_IR_INFER_DEPTH_LIMIT < depth then CXPR_IR_RESULT_UNKNOWN
      else case d of
          CXPR_NODE_NUMBER _ \<Rightarrow> CXPR_IR_RESULT_DOUBLE
        | CXPR_NODE_IDENTIFIER _ \<Rightarrow> CXPR_IR_RESULT_DOUBLE
        | CXPR_NODE_VARIABLE _ \<Rightarrow> CXPR_IR_RESULT_DOUBLE
        | CXPR_NODE_BOOL _ \<Rightarrow> CXPR_IR_RESULT_BOOL
        | CXPR_NODE_UNARY_OP op a \<Rightarrow>
            (let k = cxpr_ir_infer_fast_result_kind reg (depth + 1) a in
             if op = CXPR_TOK_MINUS \<and> k = CXPR_IR_RESULT_DOUBLE \<or> op = CXPR_TOK_NOT \<and> k = CXPR_IR_RESULT_BOOL
             then k else CXPR_IR_RESULT_UNKNOWN)
        | CXPR_NODE_BINARY_OP op a b \<Rightarrow>
            binary_kind op (cxpr_ir_infer_fast_result_kind reg (depth + 1) a)
              (cxpr_ir_infer_fast_result_kind reg (depth + 1) b)
        | CXPR_NODE_TERNARY c a b \<Rightarrow>
            cond_kind (cxpr_ir_infer_fast_result_kind reg (depth + 1) c)
              (cxpr_ir_infer_fast_result_kind reg (depth + 1) a) (cxpr_ir_infer_fast_result_kind reg (depth + 1) b)
        | CXPR_NODE_FUNCTION_CALL name args _ \<Rightarrow>
            if name = ''if'' \<and> length args = 3 then
              cond_kind (cxpr_ir_infer_fast_result_kind reg (depth + 1) (args ! 0))
                (cxpr_ir_infer_fast_result_kind reg (depth + 1) (args ! 1))
                (cxpr_ir_infer_fast_result_kind reg (depth + 1) (args ! 2))
            else (case cxpr_registry_find reg name of
                None \<Rightarrow> CXPR_IR_RESULT_UNKNOWN
              | Some e \<Rightarrow>
                  if fe_ast_func e \<or> fe_model_producer e \<or> fe_struct_fields e \<noteq> None \<and> \<not> fe_struct_producer e \<or>
                     fe_struct_producer e \<and> fe_sync_func e = None \<or> fe_typed_func e \<or>
                     \<not> list_all (\<lambda>a. cxpr_ir_infer_fast_result_kind reg (depth + 1) a = CXPR_IR_RESULT_DOUBLE) args
                  then CXPR_IR_RESULT_UNKNOWN
                  else if fe_sync_func e \<noteq> None \<and> fe_value_func e = None \<and> fe_defined_body e = None
                  then CXPR_IR_RESULT_DOUBLE
                  else if fe_value_func e \<noteq> None \<and> fe_has_return_type e
                  then (if fe_return_type e = CXPR_VALUE_BOOL then CXPR_IR_RESULT_BOOL
                        else if fe_return_type e = CXPR_VALUE_NUMBER then CXPR_IR_RESULT_DOUBLE
                        else CXPR_IR_RESULT_UNKNOWN)
                  else (case fe_defined_body e of
                      None \<Rightarrow> CXPR_IR_RESULT_UNKNOWN
                    | Some body \<Rightarrow>
                        if cxpr_ir_defined_is_scalar_only e
                        then cxpr_ir_infer_fast_result_kind reg (depth + 1) body
                        else CXPR_IR_RESULT_UNKNOWN))
        | _ \<Rightarrow> CXPR_IR_RESULT_UNKNOWN)"
  by pat_completeness auto
termination
  by (relation "measure (\<lambda>(reg, depth, ast). Suc CXPR_IR_INFER_DEPTH_LIMIT - depth)") auto

declare cxpr_ir_infer_fast_result_kind.simps [simp del]

section \<open>Lowering of one node (node.c)\<close>

definition unknown_name_message :: "string \<Rightarrow> string \<Rightarrow> string" where
  "unknown_name_message kind name = (if name = [] then kind else take 255 (kind @ '' '' @ quoted name))"

definition cxpr_ir_unknown_function_message :: "string \<Rightarrow> string" where
  "cxpr_ir_unknown_function_message = unknown_name_message ''Unknown function''"

definition cxpr_ir_is_special_builtin_name :: "string \<Rightarrow> bool" where
  "cxpr_ir_is_special_builtin_name name \<longleftrightarrow>
     name \<in> {''if'', ''sqrt'', ''abs'', ''pow'', ''sign'', ''floor'', ''ceil'', ''round'', ''clamp''}"

fun cxpr_ir_index_has_literal_array_base :: "cxpr_expr_ast \<Rightarrow> bool" where
  "cxpr_ir_index_has_literal_array_base (Ast sp d) =
     (case d of
        CXPR_NODE_INDEX target _ \<Rightarrow> cxpr_ir_index_has_literal_array_base target
      | CXPR_NODE_ARRAY _ \<Rightarrow> True
      | _ \<Rightarrow> False)"

declare cxpr_ir_index_has_literal_array_base.simps [simp del]

definition cxpr_ir_simple_lookback_target :: "cxpr_expr_ast \<Rightarrow> bool" where
  "cxpr_ir_simple_lookback_target ast =
     (case ast_data ast of
        CXPR_NODE_IDENTIFIER _ \<Rightarrow> True
      | CXPR_NODE_FIELD_ACCESS _ _ \<Rightarrow> True
      | CXPR_NODE_FIELD_EXPR _ _ \<Rightarrow> True
      | CXPR_NODE_CHAIN_ACCESS _ \<Rightarrow> True
      | CXPR_NODE_PRODUCER_ACCESS _ _ _ _ \<Rightarrow> True
      | _ \<Rightarrow> False)"

text \<open>The loop that adds up the offsets of nested look-backs.\<close>

fun flatten_lookback :: "nat \<Rightarrow> cxpr_expr_ast \<Rightarrow> nat \<times> cxpr_expr_ast" where
  "flatten_lookback offset (Ast sp d) =
     (case d of
        CXPR_NODE_INDEX target index \<Rightarrow>
          (case Option.bind (cxpr_lookback_literal_offset index) (cxpr_lookback_add_unsigned offset) of
             None \<Rightarrow> (offset, Ast sp d)
           | Some summed \<Rightarrow> flatten_lookback summed target)
      | _ \<Rightarrow> (offset, Ast sp d))"

declare flatten_lookback.simps [simp del]

lemma flatten_lookback_size: "flatten_lookback offset t = (offset', t') \<Longrightarrow> size t' \<le> size t"
proof (induction offset t arbitrary: offset' t' rule: flatten_lookback.induct)
  case (1 offset sp d)
  then show ?case
    by (fastforce simp: flatten_lookback.simps [of offset] split: cxpr_expr_data.splits option.splits)
qed

definition direct_field_body :: "cxpr_expr_ast \<Rightarrow> (string \<times> string) option" where
  "direct_field_body body =
     (case ast_data body of
        CXPR_NODE_FIELD_ACCESS ob f \<Rightarrow> Some (ob, f)
      | CXPR_NODE_CHAIN_ACCESS [ob, f] \<Rightarrow> Some (ob, f)
      | _ \<Rightarrow> None)"

text \<open>\<open>Not_a_leaf\<close> is the \<open>false\<close> that sets no error.\<close>

definition cxpr_ir_emit_defined_direct_field_call :: "compile_env \<Rightarrow> cxpr_func_entry \<Rightarrow> cxpr_expr_ast list
    \<Rightarrow> cxpr_ir_program \<Rightarrow> compile_out" where
  "cxpr_ir_emit_defined_direct_field_call env entry args p =
     (case Option.bind (fe_defined_body entry) direct_field_body of
        None \<Rightarrow> Inl Not_a_leaf
      | Some (body_param, body_field) \<Rightarrow>
          (case cxpr_ir_local_index body_param (fe_defined_param_names entry) of
             None \<Rightarrow> Inl Not_a_leaf
           | Some i \<Rightarrow>
               if length args \<le> i then Inl Not_a_leaf
               else (case ast_data (args ! i) of
                   CXPR_NODE_IDENTIFIER name \<Rightarrow>
                     let flat_key = cxpr_expr_ast_join_with_dot name body_field in
                     if 256 \<le> length flat_key then Inl Not_a_leaf
                     else emit env ((plain_instr CXPR_OP_LOAD_NAMED_FIELD)
                            \<lparr>in_name := name, in_aux_name := body_field, in_hash := cxpr_hash_string flat_key\<rparr>) p
                 | _ \<Rightarrow> Inl Not_a_leaf)))"

function cxpr_ir_defined_body_needs_ast_eval :: "cxpr_registry \<Rightarrow> nat \<Rightarrow> cxpr_expr_ast \<Rightarrow> bool" where
  "cxpr_ir_defined_body_needs_ast_eval reg depth (Ast sp d) =
     (if CXPR_IR_INLINE_DEPTH_LIMIT < depth then False
      else case d of
          CXPR_NODE_FUNCTION_CALL name args _ \<Rightarrow>
            (case cxpr_registry_find reg name of
               None \<Rightarrow> False
             | Some e \<Rightarrow>
                 fe_ast_func e \<or> fe_ast_func_handler e \<or>
                 (case fe_defined_body e of
                    None \<Rightarrow> False
                  | Some body \<Rightarrow> cxpr_ir_defined_body_needs_ast_eval reg (depth + 1) body)) \<or>
            list_ex (cxpr_ir_defined_body_needs_ast_eval reg depth) args
        | CXPR_NODE_PRODUCER_ACCESS _ args _ _ \<Rightarrow> list_ex (cxpr_ir_defined_body_needs_ast_eval reg depth) args
        | CXPR_NODE_INDEX a b \<Rightarrow>
            cxpr_ir_defined_body_needs_ast_eval reg depth a \<or> cxpr_ir_defined_body_needs_ast_eval reg depth b
        | CXPR_NODE_BINARY_OP _ a b \<Rightarrow>
            cxpr_ir_defined_body_needs_ast_eval reg depth a \<or> cxpr_ir_defined_body_needs_ast_eval reg depth b
        | CXPR_NODE_UNARY_OP _ a \<Rightarrow> cxpr_ir_defined_body_needs_ast_eval reg depth a
        | CXPR_NODE_TERNARY a b c \<Rightarrow>
            cxpr_ir_defined_body_needs_ast_eval reg depth a \<or> cxpr_ir_defined_body_needs_ast_eval reg depth b \<or>
            cxpr_ir_defined_body_needs_ast_eval reg depth c
        | CXPR_NODE_FIELD_EXPR b _ \<Rightarrow> cxpr_ir_defined_body_needs_ast_eval reg depth b
        | CXPR_NODE_ARRAY es \<Rightarrow> list_ex (cxpr_ir_defined_body_needs_ast_eval reg depth) es
        | CXPR_NODE_RECORD _ vs \<Rightarrow> list_ex (cxpr_ir_defined_body_needs_ast_eval reg depth) vs
        | _ \<Rightarrow> False)"
  by pat_completeness auto
termination
  by (relation "measures [\<lambda>(reg, depth, ast). Suc CXPR_IR_INLINE_DEPTH_LIMIT - depth, \<lambda>(reg, depth, ast). size ast]")
    (auto dest: size_elem simp: less_Suc_eq)

declare cxpr_ir_defined_body_needs_ast_eval.simps [simp del]

definition cxpr_ir_defined_call_can_inline :: "cxpr_registry \<Rightarrow> cxpr_func_entry \<Rightarrow> nat \<Rightarrow> bool" where
  "cxpr_ir_defined_call_can_inline reg entry argc =
     (case fe_defined_body entry of
        None \<Rightarrow> False
      | Some body \<Rightarrow>
          fe_defined_return_field_count entry = 0 \<and> length (fe_defined_param_names entry) = argc \<and>
          \<not> cxpr_ir_defined_body_needs_ast_eval reg 0 body \<and>
          list_all (\<lambda>fs. fs = []) (fe_defined_param_fields entry))"

text \<open>Conditionals: \<open>f\<close> compiles a tree. The jumps are emitted with target 0 and patched.\<close>

definition compile_cond :: "compile_env \<Rightarrow> (cxpr_expr_ast \<Rightarrow> cxpr_ir_program \<Rightarrow> compile_out)
    \<Rightarrow> cxpr_expr_ast \<Rightarrow> cxpr_expr_ast \<Rightarrow> cxpr_expr_ast \<Rightarrow> cxpr_ir_program \<Rightarrow> compile_out" where
  "compile_cond env f c a b p =
     then_compile (f c p) (\<lambda>p1.
     let false_jump = cxpr_ir_next_index p1 in
     then_compile (op_only env CXPR_OP_JUMP_IF_FALSE p1) (\<lambda>p2.
     then_compile (f a p2) (\<lambda>p3.
     let end_jump = cxpr_ir_next_index p3 in
     then_compile (op_only env CXPR_OP_JUMP p3) (\<lambda>p4.
     let p5 = cxpr_ir_patch_target p4 false_jump (cxpr_ir_next_index p4) in
     then_compile (f b p5) (\<lambda>p6.
     Inr (cxpr_ir_patch_target p6 end_jump (cxpr_ir_next_index p6)))))))"

definition compile_and :: "compile_env \<Rightarrow> (cxpr_expr_ast \<Rightarrow> cxpr_ir_program \<Rightarrow> compile_out)
    \<Rightarrow> cxpr_expr_ast \<Rightarrow> cxpr_expr_ast \<Rightarrow> cxpr_ir_program \<Rightarrow> compile_out" where
  "compile_and env f l r p =
     then_compile (f l p) (\<lambda>p1.
     let left_false_jump = cxpr_ir_next_index p1 in
     then_compile (op_only env CXPR_OP_JUMP_IF_FALSE p1) (\<lambda>p2.
     then_compile (f r p2) (\<lambda>p3.
     let right_false_jump = cxpr_ir_next_index p3 in
     then_compile (op_only env CXPR_OP_JUMP_IF_FALSE p3) (\<lambda>p4.
     then_compile (push_bool env True p4) (\<lambda>p5.
     let end_jump = cxpr_ir_next_index p5 in
     then_compile (op_only env CXPR_OP_JUMP p5) (\<lambda>p6.
     let p7 = cxpr_ir_patch_target p6 left_false_jump (cxpr_ir_next_index p6);
         p8 = cxpr_ir_patch_target p7 right_false_jump (cxpr_ir_next_index p7) in
     then_compile (push_bool env False p8) (\<lambda>p9.
     Inr (cxpr_ir_patch_target p9 end_jump (cxpr_ir_next_index p9)))))))))"

definition compile_or :: "compile_env \<Rightarrow> (cxpr_expr_ast \<Rightarrow> cxpr_ir_program \<Rightarrow> compile_out)
    \<Rightarrow> cxpr_expr_ast \<Rightarrow> cxpr_expr_ast \<Rightarrow> cxpr_ir_program \<Rightarrow> compile_out" where
  "compile_or env f l r p =
     then_compile (f l p) (\<lambda>p1.
     let left_true_jump = cxpr_ir_next_index p1 in
     then_compile (op_only env CXPR_OP_JUMP_IF_TRUE p1) (\<lambda>p2.
     then_compile (f r p2) (\<lambda>p3.
     let right_false_jump = cxpr_ir_next_index p3 in
     then_compile (op_only env CXPR_OP_JUMP_IF_FALSE p3) (\<lambda>p4.
     then_compile (push_bool env True p4) (\<lambda>p5.
     let end_jump = cxpr_ir_next_index p5 in
     then_compile (op_only env CXPR_OP_JUMP p5) (\<lambda>p6.
     let p7 = cxpr_ir_patch_target p6 left_true_jump (cxpr_ir_next_index p6) in
     then_compile (push_bool env True p7) (\<lambda>p8.
     let skip_false_jump = cxpr_ir_next_index p8 in
     then_compile (op_only env CXPR_OP_JUMP p8) (\<lambda>p9.
     let p10 = cxpr_ir_patch_target p9 right_false_jump (cxpr_ir_next_index p9) in
     then_compile (push_bool env False p10) (\<lambda>p11.
     let p12 = cxpr_ir_patch_target p11 end_jump (cxpr_ir_next_index p11) in
     Inr (cxpr_ir_patch_target p12 skip_false_jump (cxpr_ir_next_index p12)))))))))))"

lemma compile_cond_cong [fundef_cong]:
  assumes "c = c'" "a = a'" "b = b'" "p = p'" "\<And>x r. x \<in> {c', a', b'} \<Longrightarrow> f x r = g x r"
  shows "compile_cond env f c a b p = compile_cond env g c' a' b' p'"
  using assms by (simp add: compile_cond_def)

lemma compile_logic_cong [fundef_cong]:
  assumes "l = l'" "r = r'" "p = p'" "\<And>x q. x \<in> {l', r'} \<Longrightarrow> f x q = g x q"
  shows "compile_and env f l r p = compile_and env g l' r' p'" "compile_or env f l r p = compile_or env g l' r' p'"
  using assms by (simp_all add: compile_and_def compile_or_def)

fun binary_opcode :: "cxpr_token_type \<Rightarrow> cxpr_opcode option" where
  "binary_opcode CXPR_TOK_PLUS = Some CXPR_OP_ADD"
| "binary_opcode CXPR_TOK_MINUS = Some CXPR_OP_SUB"
| "binary_opcode CXPR_TOK_STAR = Some CXPR_OP_MUL"
| "binary_opcode CXPR_TOK_SLASH = Some CXPR_OP_DIV"
| "binary_opcode CXPR_TOK_PERCENT = Some CXPR_OP_MOD"
| "binary_opcode CXPR_TOK_POWER = Some CXPR_OP_POW"
| "binary_opcode CXPR_TOK_EQ = Some CXPR_OP_CMP_EQ"
| "binary_opcode CXPR_TOK_NEQ = Some CXPR_OP_CMP_NEQ"
| "binary_opcode CXPR_TOK_LT = Some CXPR_OP_CMP_LT"
| "binary_opcode CXPR_TOK_LTE = Some CXPR_OP_CMP_LTE"
| "binary_opcode CXPR_TOK_GT = Some CXPR_OP_CMP_GT"
| "binary_opcode CXPR_TOK_GTE = Some CXPR_OP_CMP_GTE"
| "binary_opcode _ = None"

text \<open>The intrinsics with an opcode of their own, by name and number of arguments.\<close>

definition intrinsic_opcode :: "string \<Rightarrow> nat \<Rightarrow> cxpr_opcode option" where
  "intrinsic_opcode name argc =
     (if argc = 1 then map_of [(''sqrt'', CXPR_OP_SQRT), (''abs'', CXPR_OP_ABS), (''sign'', CXPR_OP_SIGN),
          (''floor'', CXPR_OP_FLOOR), (''ceil'', CXPR_OP_CEIL), (''round'', CXPR_OP_ROUND)] name
      else if name = ''pow'' \<and> argc = 2 then Some CXPR_OP_POW
      else if name = ''clamp'' \<and> argc = 3 then Some CXPR_OP_CLAMP
      else None)"

definition native_opcode :: "cxpr_func_entry \<Rightarrow> nat \<Rightarrow> cxpr_opcode" where
  "native_opcode e argc =
     (if fe_native_kind e = CXPR_NATIVE_KIND_UNARY \<and> argc = 1 then CXPR_OP_CALL_UNARY
      else if fe_native_kind e = CXPR_NATIVE_KIND_BINARY \<and> argc = 2 then CXPR_OP_CALL_BINARY
      else if fe_native_kind e = CXPR_NATIVE_KIND_TERNARY \<and> argc = 3 then CXPR_OP_CALL_TERNARY
      else CXPR_OP_CALL_FUNC)"

definition call_instr :: "cxpr_opcode \<Rightarrow> cxpr_func_entry \<Rightarrow> cxpr_expr_ast \<Rightarrow> nat \<Rightarrow> cxpr_ir_instr" where
  "call_instr op e ast argc = (plain_instr op)\<lparr>in_func := Some e, in_ast := Some ast, in_index := argc\<rparr>"

definition get_field :: "compile_env \<Rightarrow> string \<Rightarrow> cxpr_ir_program \<Rightarrow> compile_out" where
  "get_field env field = emit env ((plain_instr CXPR_OP_GET_FIELD)\<lparr>in_name := field\<rparr>)"

text \<open>The branches for a call whose entry was found. \<open>f\<close> compiles an argument, \<open>inl\<close> a body in place
  of the call, where the inlining depth \<open>may_inline\<close>.\<close>

definition compile_known_call :: "compile_env \<Rightarrow> (cxpr_expr_ast \<Rightarrow> cxpr_ir_program \<Rightarrow> compile_out) \<Rightarrow> bool
    \<Rightarrow> (cxpr_expr_ast \<Rightarrow> cxpr_ir_program \<Rightarrow> compile_out) \<Rightarrow> cxpr_func_entry \<Rightarrow> string \<Rightarrow> cxpr_expr_ast list
    \<Rightarrow> cxpr_expr_ast \<Rightarrow> cxpr_ir_program \<Rightarrow> compile_out" where
  "compile_known_call env f may_inline inl entry name args ast p =
     (case intrinsic_opcode name (length args) of
        Some op \<Rightarrow> then_compile (compile_seq f args p) (op_only env op)
      | None \<Rightarrow>
          if fe_ast_func entry then call_ast env ast p
          else if (name = ''min'' \<or> name = ''max'') \<and> 1 \<le> length args \<and> length args \<le> 8 then
            then_compile (compile_seq f args p) (emit env (call_instr CXPR_OP_CALL_FUNC entry ast (length args)))
          else if fe_ast_func_handler entry \<and>
              (cxpr_ir_ast_contains_string_literal ast \<or> cxpr_ir_runtime_call_needs_catchor_passthrough ast)
          then call_ast env ast p
          else if (fe_sync_func entry \<noteq> None \<or> fe_value_func entry \<noteq> None \<or> fe_typed_func entry) \<and>
              fe_struct_fields entry = None \<and> fe_defined_body entry = None then
            then_compile (compile_seq f args p)
              (emit env (call_instr (native_opcode entry (length args)) entry ast (length args)))
          else if fe_struct_producer entry \<and> fe_sync_func entry = None then
            then_compile (compile_seq f args p) (\<lambda>p1.
              case cxpr_ir_build_constant_producer_key (ce_mem env) (ce_hexfloat env) (ce_pow env) (ce_reg env) name args of
                Some k \<Rightarrow> emit env ((plain_instr CXPR_OP_CALL_PRODUCER_CONST)
                  \<lparr>in_func := Some entry, in_name := k, in_index := length args\<rparr>) p1
              | None \<Rightarrow> emit env ((plain_instr CXPR_OP_CALL_PRODUCER)
                  \<lparr>in_func := Some entry, in_name := name, in_index := length args\<rparr>) p1)
          else (case cxpr_ir_emit_defined_direct_field_call env entry args p of
              Inr p1 \<Rightarrow> Inr p1
            | Inl _ \<Rightarrow>
                if 0 < fe_defined_return_field_count entry then
                  then_compile (compile_seq f args p) (emit env (call_instr CXPR_OP_CALL_DEFINED entry ast (length args)))
                else (case fe_defined_body entry of
                    None \<Rightarrow> call_ast env ast p
                  | Some body \<Rightarrow>
                      if \<not> cxpr_ir_defined_call_can_inline (ce_reg env) entry (length args) then call_ast env ast p
                      else if may_inline then inl body p
                      else
                        then_compile (compile_seq f args p)
                          (emit env (call_instr CXPR_OP_CALL_DEFINED entry ast (length args))))))"

lemma compile_known_call_cong [fundef_cong]:
  assumes "may_inline = may_inline'" "entry = entry'" "name = name'" "args = args'" "ast = ast'" "p = p'"
    and f: "\<And>x q. x \<in> set args' \<Longrightarrow> f x q = f' x q"
    and inl: "\<And>body q. may_inline' \<Longrightarrow> inl body q = inl' body q"
  shows "compile_known_call env f may_inline inl entry name args ast p =
    compile_known_call env f' may_inline' inl' entry' name' args' ast' p'"
proof -
  have s: "compile_seq f args' = compile_seq f' args'" by (intro ext compile_seq_cong) (simp_all add: f)
  show ?thesis
  proof (cases may_inline')
    case True
    then have i: "inl = inl'" by (intro ext) (simp add: inl)
    show ?thesis unfolding compile_known_call_def assms(1-6) s i by (rule refl)
  next
    case False
    then show ?thesis unfolding compile_known_call_def assms(1-6) s by (simp only: if_False)
  qed
qed

text \<open>The constant a whole node folds to, where it has an instruction.\<close>

fun constant_instr :: "cxpr_value \<Rightarrow> cxpr_ir_instr option" where
  "constant_instr (cxpr_num d) = Some ((plain_instr CXPR_OP_PUSH_CONST)\<lparr>in_value := d\<rparr>)"
| "constant_instr (cxpr_bool b) = Some ((plain_instr CXPR_OP_PUSH_BOOL)\<lparr>in_value := dbl_of_bool b\<rparr>)"
| "constant_instr (cxpr_string (Some s)) = Some ((plain_instr CXPR_OP_PUSH_STRING)\<lparr>in_name := s\<rparr>)"
| "constant_instr _ = None"

definition constant_bool :: "compile_env \<Rightarrow> cxpr_expr_ast \<Rightarrow> bool option" where
  "constant_bool env ast =
     (case cxpr_ir_constant_typed_value (ce_pow env) (ce_reg env) ast of Some (cxpr_bool b) \<Rightarrow> Some b | _ \<Rightarrow> None)"

function cxpr_ir_compile_node :: "compile_env \<Rightarrow> cxpr_ir_subst_frames \<Rightarrow> nat \<Rightarrow> cxpr_expr_ast \<Rightarrow> cxpr_ir_program
    \<Rightarrow> compile_out" where
  "cxpr_ir_compile_node env subst inline_depth (Ast sp d) p =
     (let ast = Ast sp d; reg = ce_reg env in
      case Option.bind (cxpr_ir_constant_typed_value (ce_pow env) reg ast) constant_instr of
        Some i \<Rightarrow> emit env i p
      | None \<Rightarrow>
     (case d of
        CXPR_NODE_NUMBER v \<Rightarrow> emit env ((plain_instr CXPR_OP_PUSH_CONST)\<lparr>in_value := v\<rparr>) p
      | CXPR_NODE_INT64 v \<Rightarrow> emit env ((plain_instr CXPR_OP_PUSH_INT64)\<lparr>in_int64 := v\<rparr>) p
      | CXPR_NODE_BOOL v \<Rightarrow> push_bool env v p
      | CXPR_NODE_STRING s \<Rightarrow> emit env ((plain_instr CXPR_OP_PUSH_STRING)\<lparr>in_name := s\<rparr>) p
      | CXPR_NODE_ARRAY es \<Rightarrow>
          then_compile (compile_seq (cxpr_ir_compile_node env subst inline_depth) es p)
            (emit env ((plain_instr CXPR_OP_BUILD_ARRAY)\<lparr>in_index := length es\<rparr>))
      | CXPR_NODE_RECORD ns vs \<Rightarrow> call_ast env ast p
      | CXPR_NODE_IDENTIFIER name \<Rightarrow>
          (case cxpr_ir_subst_lookup subst name of
             Some (mapped, parent) \<Rightarrow> cxpr_ir_compile_node env parent inline_depth mapped p
           | None \<Rightarrow>
               (case cxpr_ir_local_index name (ce_locals env) of
                  Some i \<Rightarrow> emit env ((plain_instr CXPR_OP_LOAD_LOCAL)\<lparr>in_index := i\<rparr>) p
                | None \<Rightarrow>
                    emit env ((plain_instr CXPR_OP_LOAD_VAR)
                      \<lparr>in_name := name, in_ast := Some ast, in_hash := cxpr_hash_string name\<rparr>) p))
      | CXPR_NODE_VARIABLE name \<Rightarrow>
          emit env ((plain_instr CXPR_OP_LOAD_PARAM)\<lparr>in_name := name, in_hash := cxpr_hash_string name\<rparr>) p
      | CXPR_NODE_FIELD_EXPR base field \<Rightarrow>
          if (case ast_data base of
                CXPR_NODE_FUNCTION_CALL n _ _ \<Rightarrow>
                  (case cxpr_registry_find reg n of None \<Rightarrow> False | Some e \<Rightarrow> fe_ast_func_handler e)
              | _ \<Rightarrow> False)
          then call_ast env ast p
          else then_compile (cxpr_ir_compile_node env subst inline_depth base p) (get_field env field)
      | CXPR_NODE_FIELD_ACCESS ob f \<Rightarrow>
          emit env ((plain_instr CXPR_OP_LOAD_FIELD)
            \<lparr>in_name := cxpr_expr_ast_join_with_dot ob f, in_ast := Some ast,
             in_hash := cxpr_hash_string (cxpr_expr_ast_join_with_dot ob f)\<rparr>) p
      | CXPR_NODE_CHAIN_ACCESS path \<Rightarrow>
          emit env ((plain_instr CXPR_OP_LOAD_CHAIN)
            \<lparr>in_name := join_dots path, in_ast := Some ast, in_hash := cxpr_hash_string (join_dots path)\<rparr>) p
      | CXPR_NODE_PRODUCER_ACCESS name args arg_names field \<Rightarrow>
          (case cxpr_registry_find reg name of
             None \<Rightarrow> Inl (Compile_error CXPR_ERR_UNKNOWN_FUNCTION (cxpr_ir_unknown_function_message name))
           | Some entry \<Rightarrow>
               if fe_ast_func_handler entry then call_ast env ast p
               else if \<not> fe_struct_producer entry \<and> \<not> fe_model_producer entry \<and> fe_defined_return_field_count entry = 0
               then Inl (Compile_error CXPR_ERR_UNKNOWN_FUNCTION (cxpr_ir_unknown_function_message name))
               else (case cxpr_call_bind_args entry args arg_names of
                   Bind_overrun \<Rightarrow> Inl Overrun
                 | Bind_error code message \<Rightarrow> Inl (Compile_error code message)
                 | Bound ordered \<Rightarrow>
                     if 0 < fe_defined_return_field_count entry \<and> \<not> fe_model_producer entry then
                       then_compile (compile_seq (cxpr_ir_compile_node env subst inline_depth) ordered p) (\<lambda>p1.
                       then_compile (emit env (call_instr CXPR_OP_CALL_DEFINED entry ast (length args)) p1)
                         (get_field env field))
                     else (case cxpr_ir_build_constant_producer_key (ce_mem env) (ce_hexfloat env) (ce_pow env) reg
                                  name ordered of
                         Some k \<Rightarrow>
                           if \<not> ce_mem env (max (length args) 1 * 8)
                           then Inl (Compile_error CXPR_ERR_OUT_OF_MEMORY ''Out of memory'')
                           else emit env ((plain_instr CXPR_OP_CALL_PRODUCER_CONST_FIELD)
                             \<lparr>in_func := Some entry, in_name := k, in_aux_name := field,
                              in_args := map (\<lambda>a. case cxpr_ir_constant_value (ce_pow env) reg a of
                                                None \<Rightarrow> dbl_zero | Some v \<Rightarrow> v) ordered,
                              in_index := length args\<rparr>) p
                       | None \<Rightarrow>
                           then_compile (compile_seq (cxpr_ir_compile_node env subst inline_depth) ordered p) (\<lambda>p1.
                           then_compile (emit env ((plain_instr CXPR_OP_CALL_PRODUCER)
                               \<lparr>in_func := Some entry, in_name := name, in_index := length args\<rparr>) p1)
                             (get_field env field)))))
      | CXPR_NODE_INDEX target index \<Rightarrow>
          if cxpr_ir_index_has_literal_array_base target then
            then_compile (cxpr_ir_compile_node env subst inline_depth target p) (\<lambda>p1.
            then_compile (cxpr_ir_compile_node env subst inline_depth index p1) (op_only env CXPR_OP_INDEX))
          else (case cxpr_lookback_literal_offset index of
              None \<Rightarrow> call_ast env ast p
            | Some literal \<Rightarrow>
                (case flatten_lookback literal target of
                   (offset, inner) \<Rightarrow>
                     if \<not> cxpr_ir_simple_lookback_target inner
                     then emit env ((plain_instr CXPR_OP_LOOKBACK_RESOLVE)\<lparr>in_index := offset, in_ast := Some inner\<rparr>) p
                     else
                       then_compile (emit env ((plain_instr CXPR_OP_LOOKBACK_PUSH)\<lparr>in_index := offset\<rparr>) p) (\<lambda>p1.
                       then_compile (cxpr_ir_compile_node env subst inline_depth inner p1)
                         (op_only env CXPR_OP_LOOKBACK_POP))))
      | CXPR_NODE_FUNCTION_CALL name args arg_names \<Rightarrow>
          if cxpr_expr_ast_named_args_present arg_names then call_ast env ast p
          else if name = ''if'' \<and> length args = 3 then
            compile_cond env (cxpr_ir_compile_node env subst inline_depth) (args ! 0) (args ! 1) (args ! 2) p
          else (case cxpr_registry_find reg name of
              None \<Rightarrow>
                if \<not> cxpr_ir_is_special_builtin_name name
                then Inl (Compile_error CXPR_ERR_UNKNOWN_FUNCTION (cxpr_ir_unknown_function_message name))
                else call_ast env ast p
            | Some entry \<Rightarrow>
                compile_known_call env (cxpr_ir_compile_node env subst inline_depth)
                  (inline_depth < CXPR_IR_INLINE_DEPTH_LIMIT)
                  (cxpr_ir_compile_node env (zip (fe_defined_param_names entry) args # subst) (inline_depth + 1))
                  entry name args ast p)
      | CXPR_NODE_BINARY_OP op l r \<Rightarrow>
          if op = CXPR_TOK_AND then
            (case constant_bool env l of
               Some b \<Rightarrow> if \<not> b then push_bool env False p else cxpr_ir_compile_node env subst inline_depth r p
             | None \<Rightarrow> compile_and env (cxpr_ir_compile_node env subst inline_depth) l r p)
          else if op = CXPR_TOK_OR then
            (case constant_bool env l of
               Some b \<Rightarrow> if b then push_bool env True p else cxpr_ir_compile_node env subst inline_depth r p
             | None \<Rightarrow> compile_or env (cxpr_ir_compile_node env subst inline_depth) l r p)
          else if op = CXPR_TOK_STAR \<and> cxpr_ir_ast_equal l r then
            (case cxpr_ir_emit_leaf_load env subst True l p of
               Inr p1 \<Rightarrow> Inr p1
             | Inl _ \<Rightarrow> then_compile (cxpr_ir_compile_node env subst inline_depth l p) (op_only env CXPR_OP_SQUARE))
          else
            then_compile (cxpr_ir_compile_node env subst inline_depth l p) (\<lambda>p1.
            then_compile (cxpr_ir_compile_node env subst inline_depth r p1) (\<lambda>p2.
            case binary_opcode op of
              Some opcode \<Rightarrow> op_only env opcode p2
            | None \<Rightarrow> Inl (Compile_error CXPR_ERR_SYNTAX
                ''IR v1 currently supports arithmetic and comparison binary operators'')))
      | CXPR_NODE_UNARY_OP op a \<Rightarrow>
          if op = CXPR_TOK_NOT then
            then_compile (cxpr_ir_compile_node env subst inline_depth a p) (op_only env CXPR_OP_NOT)
          else if op \<noteq> CXPR_TOK_MINUS
          then Inl (Compile_error CXPR_ERR_SYNTAX ''IR currently supports only unary minus and not'')
          else then_compile (cxpr_ir_compile_node env subst inline_depth a p) (op_only env CXPR_OP_NEG)
      | CXPR_NODE_TERNARY c a b \<Rightarrow>
          compile_cond env (cxpr_ir_compile_node env subst inline_depth) c a b p))"
  by pat_completeness auto
termination
proof (relation "measures [\<lambda>(env, subst, inline_depth, ast, p). CXPR_IR_INLINE_DEPTH_LIMIT - inline_depth,
      \<lambda>(env, subst, inline_depth, ast, p). length subst, \<lambda>(env, subst, inline_depth, ast, p). size ast]", goal_cases)
qed (auto simp: size_nth less_SucI size_elem dest!: bind_args_set flatten_lookback_size [OF sym]
    dest: subst_lookup_parent)

declare cxpr_ir_compile_node.simps [simp del]

section \<open>Whole programs (ir/compile.c)\<close>

definition cxpr_ir_compile_with_locals :: "compile_env \<Rightarrow> cxpr_expr_ast \<Rightarrow> compile_out" where
  "cxpr_ir_compile_with_locals env ast =
     (let program = cxpr_ir_program_reset\<lparr>ir_ast := Some ast,
            ir_fast_result_kind := cxpr_ir_infer_fast_result_kind (ce_reg env) 0 ast\<rparr> in
      then_compile (cxpr_ir_compile_node env [] 0 ast program) (\<lambda>p1.
      then_compile (op_only env CXPR_OP_RETURN p1) (\<lambda>p2.
      if \<not> ce_mem env (ir_count p2 * 40) then Inl (Compile_error CXPR_ERR_OUT_OF_MEMORY ''Out of memory'')
      else let p3 = p2\<lparr>ir_lookup_cache := True\<rparr>;
               fast = (case ir_fast_result_kind p3 of
                         CXPR_IR_RESULT_BOOL \<Rightarrow> cxpr_ir_validate_bool_fast_program (ir_code p3)
                       | CXPR_IR_RESULT_DOUBLE \<Rightarrow> cxpr_ir_validate_scalar_fast_program (ir_code p3)
                       | CXPR_IR_RESULT_UNKNOWN \<Rightarrow> True) in
           Inr (if fast then p3 else p3\<lparr>ir_fast_result_kind := CXPR_IR_RESULT_UNKNOWN\<rparr>))))"

definition cxpr_ir_compile :: "compile_env \<Rightarrow> cxpr_expr_ast \<Rightarrow> compile_out" where
  "cxpr_ir_compile env ast = cxpr_ir_compile_with_locals (env\<lparr>ce_locals := []\<rparr>) ast"

section \<open>Emitted code\<close>

text \<open>\<open>appends f P\<close>: where the compilation step \<open>f\<close> succeeds, it appends to the program a code that
  satisfies \<open>P\<close> at its position, and keeps the other fields.\<close>

definition meta :: "cxpr_ir_program \<Rightarrow> cxpr_ir_result \<times> cxpr_expr_ast option \<times> bool" where
  "meta p = (ir_fast_result_kind p, ir_ast p, ir_lookup_cache p)"

definition appends :: "(cxpr_ir_program \<Rightarrow> compile_out) \<Rightarrow> (nat \<Rightarrow> ir_code \<Rightarrow> bool) \<Rightarrow> bool" where
  "appends f P \<longleftrightarrow> (\<forall>p q. f p = Inr q \<longrightarrow> (\<exists>c. ir_code q = ir_code p @ c \<and> P (ir_count p) c) \<and> meta q = meta p)"

lemma appendsI:
  "(\<And>p q. f p = Inr q \<Longrightarrow> (\<exists>c. ir_code q = ir_code p @ c \<and> P (ir_count p) c) \<and> meta q = meta p) \<Longrightarrow> appends f P"
  by (simp add: appends_def)

lemma appendsD:
  assumes "appends f P" "f p = Inr q"
  obtains c where "ir_code q = ir_code p @ c" "P (ir_count p) c" "meta q = meta p"
  using assms unfolding appends_def by blast

lemma appends_mono: "appends f P \<Longrightarrow> (\<And>b c. P b c \<Longrightarrow> Q b c) \<Longrightarrow> appends f Q"
  unfolding appends_def by blast

lemma appends_Inl [simp]: "appends (\<lambda>p. Inl e) P"
  by (simp add: appends_def)

lemma emit_Inr: "emit env i p = Inr q \<Longrightarrow> ir_code q = ir_code p @ [i] \<and> meta q = meta p"
  by (auto simp: emit_def cxpr_ir_emit_def meta_def Let_def split: sum.splits if_splits)

lemma appends_emit: "(\<And>b. P b [i]) \<Longrightarrow> appends (emit env i) P"
  using emit_Inr by (fastforce intro!: appendsI)

lemma appends_then:
  assumes "appends f P" "appends k Q" "\<And>b c c'. P b c \<Longrightarrow> Q (b + length c) c' \<Longrightarrow> R b (c @ c')"
  shows "appends (\<lambda>p. then_compile (f p) k) R"
proof (rule appendsI)
  fix p q assume "then_compile (f p) k = Inr q"
  then obtain p1 where p1: "f p = Inr p1" "k p1 = Inr q" by (auto simp: then_compile_Inr)
  obtain c where c: "ir_code p1 = ir_code p @ c" "P (ir_count p) c" "meta p1 = meta p"
    using appendsD [OF assms(1) p1(1)] .
  obtain c' where c': "ir_code q = ir_code p1 @ c'" "Q (ir_count p1) c'" "meta q = meta p1"
    using appendsD [OF assms(2) p1(2)] .
  have "Q (ir_count p + length c) c'" using c c' by simp
  then show "(\<exists>c. ir_code q = ir_code p @ c \<and> R (ir_count p) c) \<and> meta q = meta p"
    using assms(3) [of "ir_count p" c c'] c c' by auto
qed

text \<open>A patched jump: \<open>jump_to op t\<close> is the instruction \<open>op\<close> with its target.\<close>

abbreviation jump_to :: "cxpr_opcode \<Rightarrow> nat \<Rightarrow> cxpr_ir_instr" where
  "jump_to op t \<equiv> (plain_instr op)\<lparr>in_index := t\<rparr>"

abbreviation bool_instr :: "bool \<Rightarrow> cxpr_ir_instr" where
  "bool_instr b \<equiv> (plain_instr CXPR_OP_PUSH_BOOL)\<lparr>in_value := dbl_of_bool b\<rparr>"

lemma patch_append:
  "ir_code p = c1 @ i # c2 \<Longrightarrow> n = length c1 \<Longrightarrow> ir_code (cxpr_ir_patch_target p n t) = c1 @ i\<lparr>in_index := t\<rparr> # c2"
  by (simp add: cxpr_ir_patch_target_def)

lemma patch_other [simp]:
  "meta (cxpr_ir_patch_target p a t) = meta p" "ir_count (cxpr_ir_patch_target p a t) = ir_count p"
  by (simp_all add: cxpr_ir_patch_target_def meta_def)

lemma op_only_Inr: "op_only env op p = Inr q \<Longrightarrow> ir_code q = ir_code p @ [plain_instr op] \<and> meta q = meta p"
  unfolding op_only_def by (rule emit_Inr)

lemma push_bool_Inr: "push_bool env b p = Inr q \<Longrightarrow> ir_code q = ir_code p @ [bool_instr b] \<and> meta q = meta p"
  unfolding push_bool_def by (rule emit_Inr)

text \<open>The code of the three conditional forms over the code of their parts.\<close>

definition cond_code :: "nat \<Rightarrow> ir_code \<Rightarrow> ir_code \<Rightarrow> ir_code \<Rightarrow> ir_code" where
  "cond_code base c a b =
     c @ jump_to CXPR_OP_JUMP_IF_FALSE (base + length c + length a + 2) # a @
     jump_to CXPR_OP_JUMP (base + length c + length a + length b + 2) # b"

definition and_code :: "nat \<Rightarrow> ir_code \<Rightarrow> ir_code \<Rightarrow> ir_code" where
  "and_code base l r =
     l @ jump_to CXPR_OP_JUMP_IF_FALSE (base + length l + length r + 4) # r @
     [jump_to CXPR_OP_JUMP_IF_FALSE (base + length l + length r + 4), bool_instr True,
      jump_to CXPR_OP_JUMP (base + length l + length r + 5), bool_instr False]"

definition or_code :: "nat \<Rightarrow> ir_code \<Rightarrow> ir_code \<Rightarrow> ir_code" where
  "or_code base l r =
     l @ jump_to CXPR_OP_JUMP_IF_TRUE (base + length l + length r + 4) # r @
     [jump_to CXPR_OP_JUMP_IF_FALSE (base + length l + length r + 6), bool_instr True,
      jump_to CXPR_OP_JUMP (base + length l + length r + 7), bool_instr True,
      jump_to CXPR_OP_JUMP (base + length l + length r + 7), bool_instr False]"

lemma appends_cond:
  assumes "appends (f c) C" "appends (f a) A" "appends (f b) B"
    and R: "\<And>base cc ca cb. C base cc \<Longrightarrow> A (base + length cc + 1) ca \<Longrightarrow> B (base + length cc + length ca + 2) cb
      \<Longrightarrow> R base (cond_code base cc ca cb)"
  shows "appends (compile_cond env f c a b) R"
proof (rule appendsI)
  fix p q assume "compile_cond env f c a b p = Inr q"
  then obtain p1 p2 p3 p4 p6 where p: "f c p = Inr p1" "op_only env CXPR_OP_JUMP_IF_FALSE p1 = Inr p2"
      "f a p2 = Inr p3" "op_only env CXPR_OP_JUMP p3 = Inr p4"
      "f b (cxpr_ir_patch_target p4 (ir_count p1) (ir_count p4)) = Inr p6"
      "q = cxpr_ir_patch_target p6 (ir_count p3) (ir_count p6)"
    by (auto simp: compile_cond_def then_compile_Inr cxpr_ir_next_index_def Let_def)
  let ?p5 = "cxpr_ir_patch_target p4 (ir_count p1) (ir_count p4)"
  obtain cc where cc: "ir_code p1 = ir_code p @ cc" "C (ir_count p) cc" "meta p1 = meta p"
    using appendsD [OF assms(1) p(1)] .
  note p2 = op_only_Inr [OF p(2)]
  obtain ca where ca: "ir_code p3 = ir_code p2 @ ca" "A (ir_count p2) ca" "meta p3 = meta p2"
    using appendsD [OF assms(2) p(3)] .
  note p4 = op_only_Inr [OF p(4)]
  have c4: "ir_code p4 = ir_code p1 @ plain_instr CXPR_OP_JUMP_IF_FALSE # ca @ [plain_instr CXPR_OP_JUMP]"
    using p2 ca(1) p4 by simp
  note c5 = patch_append [OF c4 refl, of "ir_count p4"]
  obtain cb where cb: "ir_code p6 = ir_code ?p5 @ cb" "B (ir_count ?p5) cb" "meta p6 = meta ?p5"
    using appendsD [OF assms(3) p(5)] .
  have c6: "ir_code p6 = (ir_code p1 @ jump_to CXPR_OP_JUMP_IF_FALSE (ir_count p4) # ca) @ plain_instr CXPR_OP_JUMP # cb"
    using cb(1) c5 by simp
  have "ir_code q = (ir_code p1 @ jump_to CXPR_OP_JUMP_IF_FALSE (ir_count p4) # ca) @ jump_to CXPR_OP_JUMP (ir_count p6) # cb"
    unfolding p(6) by (rule patch_append [OF c6]) (use ca(1) p2 in simp)
  then have q: "ir_code q = ir_code p @ cond_code (ir_count p) cc ca cb"
    using cc(1) c4 c6 by (simp add: cond_code_def)
  have "R (ir_count p) (cond_code (ir_count p) cc ca cb)"
    by (rule R [OF cc(2)]) (use ca(2) cb(2) p2 cc(1) c4 in \<open>simp_all add: add.assoc\<close>)
  with q have "\<exists>c. ir_code q = ir_code p @ c \<and> R (ir_count p) c" by blast
  moreover have "meta q = meta p" using cc(3) p2 ca(3) p4 cb(3) p(6) by simp
  ultimately show "(\<exists>c. ir_code q = ir_code p @ c \<and> R (ir_count p) c) \<and> meta q = meta p" by blast
qed

lemma appends_and:
  assumes "appends (f l) P" "appends (f r) Q"
    and R: "\<And>base cl cr. P base cl \<Longrightarrow> Q (base + length cl + 1) cr \<Longrightarrow> R base (and_code base cl cr)"
  shows "appends (compile_and env f l r) R"
proof (rule appendsI)
  fix p q assume "compile_and env f l r p = Inr q"
  then obtain p1 p2 p3 p4 p5 p6 p9 where p: "f l p = Inr p1" "op_only env CXPR_OP_JUMP_IF_FALSE p1 = Inr p2"
      "f r p2 = Inr p3" "op_only env CXPR_OP_JUMP_IF_FALSE p3 = Inr p4" "push_bool env True p4 = Inr p5"
      "op_only env CXPR_OP_JUMP p5 = Inr p6"
      "push_bool env False (cxpr_ir_patch_target (cxpr_ir_patch_target p6 (ir_count p1) (ir_count p6)) (ir_count p3) (ir_count p6)) = Inr p9"
      "q = cxpr_ir_patch_target p9 (ir_count p5) (ir_count p9)"
    by (auto simp: compile_and_def then_compile_Inr cxpr_ir_next_index_def Let_def)
  obtain cl where cl: "ir_code p1 = ir_code p @ cl" "P (ir_count p) cl" "meta p1 = meta p"
    using appendsD [OF assms(1) p(1)] .
  note p2 = op_only_Inr [OF p(2)]
  obtain cr where cr: "ir_code p3 = ir_code p2 @ cr" "Q (ir_count p2) cr" "meta p3 = meta p2"
    using appendsD [OF assms(2) p(3)] .
  note p456 = op_only_Inr [OF p(4)] push_bool_Inr [OF p(5)] op_only_Inr [OF p(6)]
  let ?t = "ir_count p6"
  have c6: "ir_code p6 = ir_code p1 @ plain_instr CXPR_OP_JUMP_IF_FALSE # cr @
      [plain_instr CXPR_OP_JUMP_IF_FALSE, bool_instr True, plain_instr CXPR_OP_JUMP]"
    using p2 cr(1) p456 by simp
  have c7: "ir_code (cxpr_ir_patch_target p6 (ir_count p1) ?t) = (ir_code p1 @ jump_to CXPR_OP_JUMP_IF_FALSE ?t # cr) @
      plain_instr CXPR_OP_JUMP_IF_FALSE # [bool_instr True, plain_instr CXPR_OP_JUMP]"
    using patch_append [OF c6 refl, of ?t] by simp
  have c8: "ir_code (cxpr_ir_patch_target (cxpr_ir_patch_target p6 (ir_count p1) ?t) (ir_count p3) ?t) =
      (ir_code p1 @ jump_to CXPR_OP_JUMP_IF_FALSE ?t # cr) @
      jump_to CXPR_OP_JUMP_IF_FALSE ?t # [bool_instr True, plain_instr CXPR_OP_JUMP]"
    by (rule patch_append [OF c7]) (use cr(1) p2 in simp)
  have c9: "ir_code p9 = (ir_code p1 @ jump_to CXPR_OP_JUMP_IF_FALSE ?t # cr @ [jump_to CXPR_OP_JUMP_IF_FALSE ?t, bool_instr True]) @
      plain_instr CXPR_OP_JUMP # [bool_instr False]"
    using push_bool_Inr [OF p(7)] c8 by simp
  have "ir_code q = (ir_code p1 @ jump_to CXPR_OP_JUMP_IF_FALSE ?t # cr @ [jump_to CXPR_OP_JUMP_IF_FALSE ?t, bool_instr True]) @
      jump_to CXPR_OP_JUMP (ir_count p9) # [bool_instr False]"
    unfolding p(8) by (rule patch_append [OF c9]) (use cr(1) p2 p456 in simp)
  then have q: "ir_code q = ir_code p @ and_code (ir_count p) cl cr"
    using cl(1) c6 c9 by (simp add: and_code_def)
  have "R (ir_count p) (and_code (ir_count p) cl cr)"
    by (rule R [OF cl(2)]) (use cr(2) p2 cl(1) in simp)
  with q have "\<exists>c. ir_code q = ir_code p @ c \<and> R (ir_count p) c" by blast
  moreover have "meta q = meta p" using cl(3) p2 cr(3) p456 push_bool_Inr [OF p(7)] p(8) by simp
  ultimately show "(\<exists>c. ir_code q = ir_code p @ c \<and> R (ir_count p) c) \<and> meta q = meta p" by blast
qed

lemma appends_or:
  assumes "appends (f l) P" "appends (f r) Q"
    and R: "\<And>base cl cr. P base cl \<Longrightarrow> Q (base + length cl + 1) cr \<Longrightarrow> R base (or_code base cl cr)"
  shows "appends (compile_or env f l r) R"
proof (rule appendsI)
  fix p q assume "compile_or env f l r p = Inr q"
  then obtain p1 p2 p3 p4 p5 p6 p8 p9 p11 where p: "f l p = Inr p1" "op_only env CXPR_OP_JUMP_IF_TRUE p1 = Inr p2"
      "f r p2 = Inr p3" "op_only env CXPR_OP_JUMP_IF_FALSE p3 = Inr p4" "push_bool env True p4 = Inr p5"
      "op_only env CXPR_OP_JUMP p5 = Inr p6"
      "push_bool env True (cxpr_ir_patch_target p6 (ir_count p1) (ir_count p6)) = Inr p8"
      "op_only env CXPR_OP_JUMP p8 = Inr p9"
      "push_bool env False (cxpr_ir_patch_target p9 (ir_count p3) (ir_count p9)) = Inr p11"
      "q = cxpr_ir_patch_target (cxpr_ir_patch_target p11 (ir_count p5) (ir_count p11)) (ir_count p8) (ir_count p11)"
    by (auto simp: compile_or_def then_compile_Inr cxpr_ir_next_index_def Let_def)
  obtain cl where cl: "ir_code p1 = ir_code p @ cl" "P (ir_count p) cl" "meta p1 = meta p"
    using appendsD [OF assms(1) p(1)] .
  note p2 = op_only_Inr [OF p(2)]
  obtain cr where cr: "ir_code p3 = ir_code p2 @ cr" "Q (ir_count p2) cr" "meta p3 = meta p2"
    using appendsD [OF assms(2) p(3)] .
  note p456 = op_only_Inr [OF p(4)] push_bool_Inr [OF p(5)] op_only_Inr [OF p(6)]
  let ?t = "ir_count p6"
  have c6: "ir_code p6 = ir_code p1 @ plain_instr CXPR_OP_JUMP_IF_TRUE # cr @
      [plain_instr CXPR_OP_JUMP_IF_FALSE, bool_instr True, plain_instr CXPR_OP_JUMP]"
    using p2 cr(1) p456 by simp
  have c9: "ir_code p9 = (ir_code p1 @ jump_to CXPR_OP_JUMP_IF_TRUE ?t # cr) @ plain_instr CXPR_OP_JUMP_IF_FALSE #
      [bool_instr True, plain_instr CXPR_OP_JUMP, bool_instr True, plain_instr CXPR_OP_JUMP]"
    using patch_append [OF c6 refl, of ?t] push_bool_Inr [OF p(7)] op_only_Inr [OF p(8)] by simp
  have c10: "ir_code (cxpr_ir_patch_target p9 (ir_count p3) (ir_count p9)) =
      (ir_code p1 @ jump_to CXPR_OP_JUMP_IF_TRUE ?t # cr) @ jump_to CXPR_OP_JUMP_IF_FALSE (ir_count p9) #
      [bool_instr True, plain_instr CXPR_OP_JUMP, bool_instr True, plain_instr CXPR_OP_JUMP]"
    by (rule patch_append [OF c9]) (use cr(1) p2 in simp)
  have c11: "ir_code p11 = (ir_code p1 @ jump_to CXPR_OP_JUMP_IF_TRUE ?t # cr @
        [jump_to CXPR_OP_JUMP_IF_FALSE (ir_count p9), bool_instr True]) @ plain_instr CXPR_OP_JUMP #
      [bool_instr True, plain_instr CXPR_OP_JUMP, bool_instr False]"
    using push_bool_Inr [OF p(9)] c10 by simp
  let ?e = "ir_count p11"
  have c12: "ir_code (cxpr_ir_patch_target p11 (ir_count p5) ?e) = (ir_code p1 @ jump_to CXPR_OP_JUMP_IF_TRUE ?t # cr @
        [jump_to CXPR_OP_JUMP_IF_FALSE (ir_count p9), bool_instr True, jump_to CXPR_OP_JUMP ?e, bool_instr True]) @
      plain_instr CXPR_OP_JUMP # [bool_instr False]"
    using patch_append [OF c11, of "ir_count p5" ?e] cr(1) p2 p456 by simp
  have "ir_code q = (ir_code p1 @ jump_to CXPR_OP_JUMP_IF_TRUE ?t # cr @
        [jump_to CXPR_OP_JUMP_IF_FALSE (ir_count p9), bool_instr True, jump_to CXPR_OP_JUMP ?e, bool_instr True]) @
      jump_to CXPR_OP_JUMP ?e # [bool_instr False]"
    unfolding p(10) by (rule patch_append [OF c12]) (use cr(1) p2 p456 push_bool_Inr [OF p(7)] c6 in simp)
  then have q: "ir_code q = ir_code p @ or_code (ir_count p) cl cr"
    using cl(1) c6 c9 c11 by (simp add: or_code_def)
  have "R (ir_count p) (or_code (ir_count p) cl cr)"
    by (rule R [OF cl(2)]) (use cr(2) p2 cl(1) in simp)
  with q have "\<exists>c. ir_code q = ir_code p @ c \<and> R (ir_count p) c" by blast
  moreover have "meta q = meta p"
    using cl(3) p2 cr(3) p456 push_bool_Inr [OF p(7)] op_only_Inr [OF p(8)] push_bool_Inr [OF p(9)] p(10) by simp
  ultimately show "(\<exists>c. ir_code q = ir_code p @ c \<and> R (ir_count p) c) \<and> meta q = meta p" by blast
qed

section \<open>Jumps and calls of emitted code\<close>

text \<open>
  The jumps of appended code lead forward and stay within it or just past its end, it does not
  return, and what it calls is a registered function. The exception is the call emitted for \<open>min\<close>
  and \<open>max\<close>, whose entry need not have a function to call.
\<close>

definition jump_ops :: "cxpr_opcode set" where
  "jump_ops = {CXPR_OP_JUMP, CXPR_OP_JUMP_IF_FALSE, CXPR_OP_JUMP_IF_TRUE}"

definition native_call_ops :: "cxpr_opcode set" where
  "native_call_ops = {CXPR_OP_CALL_UNARY, CXPR_OP_CALL_BINARY, CXPR_OP_CALL_TERNARY, CXPR_OP_CALL_FUNC}"

definition jumps_within :: "nat \<Rightarrow> ir_code \<Rightarrow> bool" where
  "jumps_within base c \<longleftrightarrow>
     (\<forall>k < length c. in_op (c ! k) \<in> jump_ops \<longrightarrow>
        base + k < in_index (c ! k) \<and> in_index (c ! k) \<le> base + length c)"

definition callable :: "cxpr_func_entry \<Rightarrow> bool" where
  "callable e \<longleftrightarrow> fe_typed_func e \<or> fe_value_func e \<noteq> None \<or> fe_sync_func e \<noteq> None"

definition extremum_entry :: "cxpr_registry \<Rightarrow> cxpr_func_entry \<Rightarrow> bool" where
  "extremum_entry reg e \<longleftrightarrow> cxpr_registry_find reg ''min'' = Some e \<or> cxpr_registry_find reg ''max'' = Some e"

definition instr_ok :: "cxpr_registry \<Rightarrow> cxpr_ir_instr \<Rightarrow> bool" where
  "instr_ok reg i \<longleftrightarrow> in_op i \<noteq> CXPR_OP_RETURN \<and>
     (in_op i \<in> native_call_ops \<longrightarrow> (\<exists>e. in_func i = Some e \<and> (callable e \<or> extremum_entry reg e)))"

definition seg_ok :: "cxpr_registry \<Rightarrow> nat \<Rightarrow> ir_code \<Rightarrow> bool" where
  "seg_ok reg base c \<longleftrightarrow> jumps_within base c \<and> list_all (instr_ok reg) c"

lemma jumps_within_iff:
  "jumps_within base (c @ c') \<longleftrightarrow>
     (\<forall>k < length c. in_op (c ! k) \<in> jump_ops \<longrightarrow>
        base + k < in_index (c ! k) \<and> in_index (c ! k) \<le> base + length c + length c') \<and>
     jumps_within (base + length c) c'" (is "?L = ?R")
proof
  assume L: ?L
  have 1: "base + k < in_index (c ! k) \<and> in_index (c ! k) \<le> base + length c + length c'"
    if "k < length c" "in_op (c ! k) \<in> jump_ops" for k
    using L that by (auto simp: jumps_within_def nth_append dest!: spec [of _ k])
  have 2: "base + length c + k < in_index (c' ! k) \<and> in_index (c' ! k) \<le> base + length c + length c'"
    if "k < length c'" "in_op (c' ! k) \<in> jump_ops" for k
    using L that by (auto simp: jumps_within_def nth_append add.assoc dest!: spec [of _ "length c + k"])
  from 1 2 show ?R by (auto simp: jumps_within_def)
next
  assume R: ?R
  show ?L
    unfolding jumps_within_def
  proof (intro allI impI)
    fix k assume k: "k < length (c @ c')" "in_op ((c @ c') ! k) \<in> jump_ops"
    show "base + k < in_index ((c @ c') ! k) \<and> in_index ((c @ c') ! k) \<le> base + length (c @ c')"
    proof (cases "k < length c")
      case True
      with R k show ?thesis by (auto simp: nth_append add.assoc)
    next
      case False
      then have "k - length c < length c'" "base + length c + (k - length c) = base + k" using k by auto
      with R k False show ?thesis by (force simp: jumps_within_def nth_append)
    qed
  qed
qed

lemma jumps_within_mono:
  "jumps_within base c \<Longrightarrow> k < length c \<Longrightarrow> in_op (c ! k) \<in> jump_ops \<Longrightarrow> base + length c \<le> m \<Longrightarrow>
    base + k < in_index (c ! k) \<and> in_index (c ! k) \<le> m"
  unfolding jumps_within_def by (meson order_trans)

lemma jumps_within_single [simp]:
  "jumps_within base [i] \<longleftrightarrow> (in_op i \<in> jump_ops \<longrightarrow> in_index i = base + 1)" "jumps_within base []"
  by (auto simp: jumps_within_def)

lemma seg_ok_append: "seg_ok reg base c \<Longrightarrow> seg_ok reg (base + length c) c' \<Longrightarrow> seg_ok reg base (c @ c')"
  by (auto simp: seg_ok_def jumps_within_iff dest: jumps_within_mono)

text \<open>A jump in front of a code, over at least itself and at most to the end.\<close>

lemma seg_ok_jump:
  assumes "op \<in> jump_ops" "base < t" "t \<le> base + Suc (length c)" "seg_ok reg (Suc base) c"
  shows "seg_ok reg base (jump_to op t # c)"
proof -
  have "instr_ok reg (jump_to op t)" using assms(1) by (auto simp: instr_ok_def jump_ops_def native_call_ops_def)
  moreover have "jumps_within base ([jump_to op t] @ c)"
    unfolding jumps_within_iff using assms by (simp add: seg_ok_def)
  ultimately show ?thesis using assms(4) by (simp add: seg_ok_def)
qed

lemma seg_ok_plain:
  "in_op i \<notin> jump_ops \<Longrightarrow> instr_ok reg i \<Longrightarrow> seg_ok reg (Suc base) c \<Longrightarrow> seg_ok reg base (i # c)"
  using seg_ok_append [of reg base "[i]" c] by (simp add: seg_ok_def)

lemma seg_ok_Nil [simp]: "seg_ok reg base []"
  by (simp add: seg_ok_def)

lemma bool_instr_ok [simp]: "CXPR_OP_PUSH_BOOL \<notin> jump_ops" "instr_ok reg (bool_instr b)"
  by (simp_all add: jump_ops_def instr_ok_def native_call_ops_def)

lemma jump_ops_mem [simp]:
  "CXPR_OP_JUMP \<in> jump_ops" "CXPR_OP_JUMP_IF_FALSE \<in> jump_ops" "CXPR_OP_JUMP_IF_TRUE \<in> jump_ops"
  by (simp_all add: jump_ops_def)

lemma seg_ok_cond:
  assumes "seg_ok reg base c" "seg_ok reg (base + length c + 1) a" "seg_ok reg (base + length c + length a + 2) b"
  shows "seg_ok reg base (cond_code base c a b)"
  unfolding cond_code_def
proof (rule seg_ok_append [OF assms(1)], rule seg_ok_jump)
  show "seg_ok reg (Suc (base + length c)) (a @ jump_to CXPR_OP_JUMP (base + length c + length a + length b + 2) # b)"
    by (rule seg_ok_append, use assms in simp, rule seg_ok_jump) (use assms in \<open>simp_all add: add.assoc\<close>)
qed simp_all

lemma seg_ok_and:
  assumes "seg_ok reg base l" "seg_ok reg (base + length l + 1) r"
  shows "seg_ok reg base (and_code base l r)"
  unfolding and_code_def
proof (rule seg_ok_append [OF assms(1)], rule seg_ok_jump)
  show "seg_ok reg (Suc (base + length l)) (r @ [jump_to CXPR_OP_JUMP_IF_FALSE (base + length l + length r + 4),
      bool_instr True, jump_to CXPR_OP_JUMP (base + length l + length r + 5), bool_instr False])"
    by (rule seg_ok_append, use assms in simp) (rule seg_ok_jump seg_ok_plain seg_ok_Nil | simp)+
qed simp_all

lemma seg_ok_or:
  assumes "seg_ok reg base l" "seg_ok reg (base + length l + 1) r"
  shows "seg_ok reg base (or_code base l r)"
  unfolding or_code_def
proof (rule seg_ok_append [OF assms(1)], rule seg_ok_jump)
  show "seg_ok reg (Suc (base + length l)) (r @ [jump_to CXPR_OP_JUMP_IF_FALSE (base + length l + length r + 6),
      bool_instr True, jump_to CXPR_OP_JUMP (base + length l + length r + 7), bool_instr True,
      jump_to CXPR_OP_JUMP (base + length l + length r + 7), bool_instr False])"
    by (rule seg_ok_append, use assms in simp) (rule seg_ok_jump seg_ok_plain seg_ok_Nil | simp)+
qed simp_all

text \<open>The compilation steps, each with \<open>seg_ok\<close>.\<close>

lemma seg_emit: "in_op i \<notin> jump_ops \<Longrightarrow> instr_ok reg i \<Longrightarrow> appends (emit env i) (seg_ok reg)"
  by (rule appends_emit) (simp add: seg_ok_plain)

lemma seg_op [simp, intro]:
  "op \<notin> jump_ops \<Longrightarrow> op \<noteq> CXPR_OP_RETURN \<Longrightarrow> op \<notin> native_call_ops \<Longrightarrow> appends (op_only env op) (seg_ok reg)"
  unfolding op_only_def by (rule seg_emit) (simp_all add: instr_ok_def)

lemma seg_then [intro]:
  "appends f (seg_ok reg) \<Longrightarrow> appends k (seg_ok reg) \<Longrightarrow> appends (\<lambda>p. then_compile (f p) k) (seg_ok reg)"
  by (rule appends_then [where P = "seg_ok reg" and Q = "seg_ok reg"]) (auto intro: seg_ok_append)

lemma seg_seq:
  "(\<And>x. x \<in> set xs \<Longrightarrow> appends (f x) (seg_ok reg)) \<Longrightarrow> appends (compile_seq f xs) (seg_ok reg)"
proof (induction xs)
  case Nil
  then show ?case by (auto intro!: appendsI exI [of _ "[]"])
next
  case (Cons x xs)
  then have "appends (\<lambda>p. then_compile (f x p) (compile_seq f xs)) (seg_ok reg)" by (intro seg_then) auto
  then show ?case by simp
qed

lemma seg_cond:
  "appends (f c) (seg_ok reg) \<Longrightarrow> appends (f a) (seg_ok reg) \<Longrightarrow> appends (f b) (seg_ok reg) \<Longrightarrow>
    appends (compile_cond env f c a b) (seg_ok reg)"
  by (rule appends_cond [where C = "seg_ok reg" and A = "seg_ok reg" and B = "seg_ok reg"]) (auto intro: seg_ok_cond)

lemma seg_logic:
  assumes "appends (f l) (seg_ok reg)" "appends (f r) (seg_ok reg)"
  shows "appends (compile_and env f l r) (seg_ok reg)" "appends (compile_or env f l r) (seg_ok reg)"
  by (rule appends_and [where P = "seg_ok reg" and Q = "seg_ok reg"]; use assms in \<open>auto intro: seg_ok_and\<close>)
    (rule appends_or [where P = "seg_ok reg" and Q = "seg_ok reg"]; use assms in \<open>auto intro: seg_ok_or\<close>)

text \<open>Instructions that neither jump nor return nor call a native function.\<close>

lemma seg_inert [intro]:
  "in_op i \<notin> jump_ops \<union> native_call_ops \<union> {CXPR_OP_RETURN} \<Longrightarrow> appends (emit env i) (seg_ok reg)"
  by (rule seg_emit) (simp_all add: instr_ok_def)

lemmas op_set_defs = jump_ops_def native_call_ops_def

lemma seg_inert_steps [simp, intro]:
  "appends (call_ast env ast) (seg_ok reg)" "appends (push_bool env b) (seg_ok reg)"
  "appends (get_field env f) (seg_ok reg)"
  by (auto simp: call_ast_def push_bool_def get_field_def op_set_defs)

lemma seg_call:
  "callable e \<or> extremum_entry reg e \<Longrightarrow> op \<in> native_call_ops \<Longrightarrow>
    appends (emit env (call_instr op e ast n)) (seg_ok reg)"
  by (rule seg_emit) (auto simp: call_instr_def instr_ok_def op_set_defs)

lemma seg_call_defined: "appends (emit env (call_instr CXPR_OP_CALL_DEFINED e ast n)) (seg_ok reg)"
  by (rule seg_inert) (simp add: call_instr_def op_set_defs)

lemma appends_ext: "(\<And>p. f p = g p) \<Longrightarrow> appends g P \<Longrightarrow> appends f P"
  by (simp add: appends_def)

text \<open>A choice that does not depend on the program is made before the step.\<close>

lemma appends_choice [simp]:
  "appends (\<lambda>p. if b then f p else g p) P = (if b then appends f P else appends g P)"
  "appends (\<lambda>p. case x of None \<Rightarrow> f p | Some y \<Rightarrow> h y p) P = (case x of None \<Rightarrow> appends f P | Some y \<Rightarrow> appends (h y) P)"
  "appends (\<lambda>p. case pr of (u, v) \<Rightarrow> k u v p) P = (case pr of (u, v) \<Rightarrow> appends (k u v) P)"
  "appends (\<lambda>p. case r of Bound xs \<Rightarrow> m xs p | Bind_error c s \<Rightarrow> n c s p | Bind_overrun \<Rightarrow> f p) P =
     (case r of Bound xs \<Rightarrow> appends (m xs) P | Bind_error c s \<Rightarrow> appends (n c s) P | Bind_overrun \<Rightarrow> appends f P)"
  by (simp_all split: option.split prod.split bind_result.split)

lemma seg_leaf: "appends (cxpr_ir_emit_leaf_load env subst square ast) (seg_ok reg)"
proof (induction env subst square ast "undefined :: cxpr_ir_program" rule: cxpr_ir_emit_leaf_load.induct)
  case (1 env subst square sp d)
  have "appends (cxpr_ir_emit_leaf_load env parent square mapped) (seg_ok reg)"
    if "d = CXPR_NODE_IDENTIFIER name" "cxpr_ir_subst_lookup subst name = Some (mapped, parent)" for name mapped parent
    using 1 [OF that(1,2) refl] .
  then show ?case
    by (intro appends_ext [OF cxpr_ir_emit_leaf_load.simps])
      (cases d; auto simp: op_set_defs split: option.split intro!: seg_inert)
qed

lemma seg_direct_field: "appends (cxpr_ir_emit_defined_direct_field_call env e args) (seg_ok reg)"
proof (rule appends_ext [OF cxpr_ir_emit_defined_direct_field_call_def])
  have "appends (\<lambda>p. case d of
      CXPR_NODE_IDENTIFIER name \<Rightarrow>
        let flat_key = cxpr_expr_ast_join_with_dot name f in
        if 256 \<le> length flat_key then Inl Not_a_leaf
        else emit env ((plain_instr CXPR_OP_LOAD_NAMED_FIELD)
               \<lparr>in_name := name, in_aux_name := f, in_hash := cxpr_hash_string flat_key\<rparr>) p
    | _ \<Rightarrow> Inl Not_a_leaf) (seg_ok reg)" for d f
    by (cases d) (auto simp: Let_def op_set_defs intro!: seg_inert)
  then show "appends (\<lambda>p. case Option.bind (fe_defined_body e) direct_field_body of
        None \<Rightarrow> Inl Not_a_leaf
      | Some (body_param, body_field) \<Rightarrow>
          (case cxpr_ir_local_index body_param (fe_defined_param_names e) of
             None \<Rightarrow> Inl Not_a_leaf
           | Some i \<Rightarrow>
               if length args \<le> i then Inl Not_a_leaf
               else (case ast_data (args ! i) of
                   CXPR_NODE_IDENTIFIER name \<Rightarrow>
                     let flat_key = cxpr_expr_ast_join_with_dot name body_field in
                     if 256 \<le> length flat_key then Inl Not_a_leaf
                     else emit env ((plain_instr CXPR_OP_LOAD_NAMED_FIELD)
                            \<lparr>in_name := name, in_aux_name := body_field, in_hash := cxpr_hash_string flat_key\<rparr>) p
                 | _ \<Rightarrow> Inl Not_a_leaf))) (seg_ok reg)"
    by (auto split: option.split prod.split)
qed

text \<open>An alternative step where the first one fails.\<close>

lemma seg_or_else:
  "appends f P \<Longrightarrow> appends g P \<Longrightarrow> appends (\<lambda>p. case f p of Inr q \<Rightarrow> Inr q | Inl e \<Rightarrow> g p) P"
  unfolding appends_def by (auto split: sum.splits)

text \<open>The order in which the recursion of the lowering descends.\<close>

definition lowering_order :: "((cxpr_ir_subst_frames \<times> nat \<times> cxpr_expr_ast) \<times> (cxpr_ir_subst_frames \<times> nat \<times> cxpr_expr_ast)) set" where
  "lowering_order = measures [\<lambda>(subst, depth, ast). CXPR_IR_INLINE_DEPTH_LIMIT - depth,
     \<lambda>(subst, depth, ast). length subst, \<lambda>(subst, depth, ast). size ast]"

lemma lowering_induct [case_names step]:
  fixes P :: "cxpr_ir_subst_frames \<Rightarrow> nat \<Rightarrow> cxpr_expr_ast \<Rightarrow> bool"
  assumes "\<And>subst depth ast.
      (\<And>x. size x < size ast \<Longrightarrow> P subst depth x) \<Longrightarrow>
      (\<And>parent x. length parent < length subst \<Longrightarrow> P parent depth x) \<Longrightarrow>
      (\<And>subst' x. depth < CXPR_IR_INLINE_DEPTH_LIMIT \<Longrightarrow> P subst' (depth + 1) x) \<Longrightarrow> P subst depth ast"
  shows "P subst depth ast"
proof -
  have "wf lowering_order" by (simp add: lowering_order_def)
  have "case x of (subst, depth, ast) \<Rightarrow> P subst depth ast" for x
  proof (induction x rule: wf_induct_rule [OF \<open>wf lowering_order\<close>, case_names less])
    case (less x)
    obtain subst depth ast where x: "x = (subst, depth, ast)" by (cases x)
    have "P subst depth ast"
    proof (rule assms)
      show "P subst depth y" if "size y < size ast" for y
        using less [of "(subst, depth, y)"] that by (simp add: x lowering_order_def)
      show "P parent depth y" if "length parent < length subst" for parent y
        using less [of "(parent, depth, y)"] that by (simp add: x lowering_order_def)
      show "P subst' (depth + 1) y" if "depth < CXPR_IR_INLINE_DEPTH_LIMIT" for subst' y
        using less [of "(subst', depth + 1, y)"] that diff_less_mono2 [of depth "Suc depth"] by (simp add: x lowering_order_def)
    qed
    with x show ?case by simp
  qed
  from this [of "(subst, depth, ast)"] show ?thesis by simp
qed

lemma native_opcode_mem [simp]: "native_opcode e n \<in> native_call_ops"
  by (simp add: native_opcode_def native_call_ops_def)

lemma intrinsic_opcode_inert:
  "intrinsic_opcode name n = Some op \<Longrightarrow> op \<notin> jump_ops \<and> op \<notin> native_call_ops \<and> op \<noteq> CXPR_OP_RETURN"
  by (auto simp: intrinsic_opcode_def op_set_defs split: if_splits)

lemma binary_opcode_inert:
  "binary_opcode t = Some op \<Longrightarrow> op \<notin> jump_ops \<and> op \<notin> native_call_ops \<and> op \<noteq> CXPR_OP_RETURN"
  by (cases t) (auto simp: op_set_defs)

lemma constant_instr_inert:
  "constant_instr v = Some i \<Longrightarrow> in_op i \<notin> jump_ops \<union> native_call_ops \<union> {CXPR_OP_RETURN}"
  by (cases v rule: constant_instr.cases) (auto simp: op_set_defs)

lemma appends_ifI: "(b \<Longrightarrow> appends f P) \<Longrightarrow> (\<not> b \<Longrightarrow> appends g P) \<Longrightarrow> appends (\<lambda>p. if b then f p else g p) P"
  by simp

lemma appends_optI:
  "(x = None \<Longrightarrow> appends f P) \<Longrightarrow> (\<And>y. x = Some y \<Longrightarrow> appends (h y) P) \<Longrightarrow>
    appends (\<lambda>p. case x of None \<Rightarrow> f p | Some y \<Rightarrow> h y p) P"
  by (simp split: option.split)

lemma seg_known_call:
  assumes find: "cxpr_registry_find (ce_reg env) name = Some entry"
    and f: "\<And>x. x \<in> set args \<Longrightarrow> appends (f x) (seg_ok (ce_reg env))"
    and inl: "\<And>body. may_inline \<Longrightarrow> appends (inl body) (seg_ok (ce_reg env))"
  shows "appends (compile_known_call env f may_inline inl entry name args ast) (seg_ok (ce_reg env))"
proof -
  let ?ok = "seg_ok (ce_reg env)"
  have args: "appends (compile_seq f args) ?ok" by (rule seg_seq) (rule f)
  note call = seg_then [OF args seg_call] seg_then [OF args seg_call_defined]
  have producer: "appends (\<lambda>p. then_compile (compile_seq f args p) (\<lambda>p1.
      case cxpr_ir_build_constant_producer_key (ce_mem env) (ce_hexfloat env) (ce_pow env) (ce_reg env) name args of
        Some k \<Rightarrow> emit env ((plain_instr CXPR_OP_CALL_PRODUCER_CONST)
          \<lparr>in_func := Some entry, in_name := k, in_index := length args\<rparr>) p1
      | None \<Rightarrow> emit env ((plain_instr CXPR_OP_CALL_PRODUCER)
          \<lparr>in_func := Some entry, in_name := name, in_index := length args\<rparr>) p1)) ?ok"
    by (intro seg_then args) (auto simp: op_set_defs split: option.split intro!: seg_inert)
  have intrinsic: "appends (\<lambda>p. then_compile (compile_seq f args p) (op_only env op)) ?ok"
    if "intrinsic_opcode name (length args) = Some op" for op
    using intrinsic_opcode_inert [OF that] by (intro seg_then args seg_op) simp_all
  have extremum: "extremum_entry (ce_reg env) entry" if "name = ''min'' \<or> name = ''max''"
    using that find by (auto simp: extremum_entry_def)
  have func: "CXPR_OP_CALL_FUNC \<in> native_call_ops" by (simp add: native_call_ops_def)
  have defined: "appends (\<lambda>p. then_compile (compile_seq f args p) (emit env (call_instr CXPR_OP_CALL_DEFINED entry ast n))) ?ok" for n
    by (intro seg_then args seg_call_defined)
  have native: "appends (\<lambda>p. then_compile (compile_seq f args p) (emit env (call_instr (native_opcode entry n) entry ast n))) ?ok"
    if "(fe_sync_func entry \<noteq> None \<or> fe_value_func entry \<noteq> None \<or> fe_typed_func entry) \<and>
      fe_struct_fields entry = None \<and> fe_defined_body entry = None" for n
    by (rule seg_then [OF args seg_call]) (use that in \<open>auto simp: callable_def\<close>)
  have minmax: "appends (\<lambda>p. then_compile (compile_seq f args p) (emit env (call_instr CXPR_OP_CALL_FUNC entry ast n))) ?ok"
    if "(name = ''min'' \<or> name = ''max'') \<and> 1 \<le> length args \<and> length args \<le> 8" for n
    by (rule seg_then [OF args seg_call]) (use that extremum func in auto)
  show ?thesis
    by (rule appends_ext [OF compile_known_call_def])
      (intro appends_optI appends_ifI seg_or_else seg_direct_field seg_inert_steps defined producer; (erule intrinsic native minmax inl)?)
qed

lemma compile_node_segment:
  "appends (cxpr_ir_compile_node env subst depth ast) (seg_ok (ce_reg env))"
proof (induction subst depth ast rule: lowering_induct)
  case (step subst depth ast)
  obtain sp d where ast: "ast = Ast sp d" by (cases ast)
  let ?f = "cxpr_ir_compile_node env subst depth" and ?ok = "seg_ok (ce_reg env)"
  have sub: "appends (?f x) ?ok" if "size x < size ast" for x using step(1) [OF that] .
  have seq: "appends (compile_seq ?f xs) ?ok" if "\<And>x. x \<in> set xs \<Longrightarrow> size x < size ast" for xs
    using that by (auto intro: seg_seq sub)
  note inert = op_set_defs seg_inert seg_call_defined seg_direct_field seg_leaf
  show ?case
  proof (cases "Option.bind (cxpr_ir_constant_typed_value (ce_pow env) (ce_reg env) (Ast sp d)) constant_instr")
    case (Some i)
    then have "in_op i \<notin> jump_ops \<union> native_call_ops \<union> {CXPR_OP_RETURN}"
      by (auto simp: bind_eq_Some_conv dest!: constant_instr_inert)
    with Some show ?thesis
      unfolding ast by (intro appends_ext [OF cxpr_ir_compile_node.simps]) (simp add: Let_def seg_inert)
  next
    case None
    note unf = appends_ext [OF cxpr_ir_compile_node.simps]
    note parts [simp] = Let_def ast size_elem less_SucI size_nth op_set_defs
    note steps = seg_then seg_inert seg_call_defined seg_call sub seq
    show ?thesis
    proof (cases d)
      case (CXPR_NODE_ARRAY es)
      with None show ?thesis unfolding ast by (intro unf) (auto intro!: steps)
    next
      case (CXPR_NODE_IDENTIFIER name)
      with None show ?thesis unfolding ast
        by (intro unf) (auto split: option.split intro!: seg_inert step(2) dest: subst_lookup_parent)
    next
      case (CXPR_NODE_FIELD_EXPR base f)
      with None show ?thesis unfolding ast by (intro unf) (auto intro!: steps)
    next
      case (CXPR_NODE_PRODUCER_ACCESS name args names f)
      with None show ?thesis unfolding ast
        by (intro unf) (auto split: option.split bind_result.split intro!: steps dest: bind_args_set)
    next
      case (CXPR_NODE_BINARY_OP op l r)
      have star: "appends (\<lambda>p. case cxpr_ir_emit_leaf_load env subst True l p of Inr q \<Rightarrow> Inr q
            | Inl e \<Rightarrow> then_compile (?f l p) (op_only env CXPR_OP_SQUARE)) ?ok"
        by (intro seg_or_else seg_leaf steps) (auto simp: CXPR_NODE_BINARY_OP)
      have plain: "appends (\<lambda>p. then_compile (?f l p) (\<lambda>p1. then_compile (?f r p1) (\<lambda>p2.
            case binary_opcode op of Some opcode \<Rightarrow> op_only env opcode p2
            | None \<Rightarrow> Inl (Compile_error CXPR_ERR_SYNTAX
                ''IR v1 currently supports arithmetic and comparison binary operators'')))) ?ok"
        by (intro seg_then) (auto simp: CXPR_NODE_BINARY_OP split: option.split dest: binary_opcode_inert intro!: steps)
      show ?thesis unfolding ast
        using None star plain CXPR_NODE_BINARY_OP
        by (intro unf) (auto split: option.split intro!: sub seg_logic)
    next
      case (CXPR_NODE_UNARY_OP op a)
      with None show ?thesis unfolding ast by (intro unf) (auto intro!: steps)
    next
      case (CXPR_NODE_FUNCTION_CALL name args names)
      have cond: "appends (compile_cond env ?f (args ! 0) (args ! 1) (args ! 2)) ?ok" if "length args = 3"
        using that by (intro seg_cond sub) (auto simp: CXPR_NODE_FUNCTION_CALL)
      have known: "appends (compile_known_call env ?f (depth < CXPR_IR_INLINE_DEPTH_LIMIT)
          (cxpr_ir_compile_node env subst' (depth + 1)) entry name args (Ast sp d)) ?ok"
        if "cxpr_registry_find (ce_reg env) name = Some entry" for entry subst'
        by (rule seg_known_call [OF that], rule sub, simp add: CXPR_NODE_FUNCTION_CALL, rule step(3))
      show ?thesis unfolding ast
        using None CXPR_NODE_FUNCTION_CALL cond known by (intro unf) (auto split: option.split)
    next
      case (CXPR_NODE_INDEX target index)
      with None show ?thesis unfolding ast
        by (intro unf) (auto split: option.split prod.split intro!: steps dest: flatten_lookback_size)
    next
      case (CXPR_NODE_TERNARY c a b)
      with None show ?thesis unfolding ast by (intro unf) (auto intro!: seg_cond sub)
    qed (unfold ast, insert None, (rule unf, simp add: seg_inert)+)
  qed
qed

lemma compile_program_shape:
  assumes "cxpr_ir_compile_with_locals env ast = Inr prog"
  shows "\<exists>c. ir_code prog = c @ [plain_instr CXPR_OP_RETURN] \<and> seg_ok (ce_reg env) 0 c"
    and "ir_fast_result_kind prog = CXPR_IR_RESULT_DOUBLE \<Longrightarrow> cxpr_ir_validate_scalar_fast_program (ir_code prog)"
    and "ir_fast_result_kind prog = CXPR_IR_RESULT_BOOL \<Longrightarrow> cxpr_ir_validate_bool_fast_program (ir_code prog)"
proof -
  let ?p = "cxpr_ir_program_reset\<lparr>ir_ast := Some ast,
      ir_fast_result_kind := cxpr_ir_infer_fast_result_kind (ce_reg env) 0 ast\<rparr>"
  obtain p1 p2 where p: "cxpr_ir_compile_node env [] 0 ast ?p = Inr p1" "op_only env CXPR_OP_RETURN p1 = Inr p2"
      and code: "ir_code prog = ir_code p2"
      and kind: "ir_fast_result_kind prog = CXPR_IR_RESULT_DOUBLE \<longrightarrow> cxpr_ir_validate_scalar_fast_program (ir_code p2)"
        "ir_fast_result_kind prog = CXPR_IR_RESULT_BOOL \<longrightarrow> cxpr_ir_validate_bool_fast_program (ir_code p2)"
    using assms
    by (auto simp: cxpr_ir_compile_with_locals_def then_compile_Inr Let_def split: if_splits cxpr_ir_result.splits)
  obtain c where "ir_code p1 = ir_code ?p @ c" "seg_ok (ce_reg env) (ir_count ?p) c"
    using appendsD [OF compile_node_segment p(1)] .
  with op_only_Inr [OF p(2)] code
  show "\<exists>c. ir_code prog = c @ [plain_instr CXPR_OP_RETURN] \<and> seg_ok (ce_reg env) 0 c"
    by (auto simp: cxpr_ir_program_reset_def)
  show "ir_fast_result_kind prog = CXPR_IR_RESULT_DOUBLE \<Longrightarrow> cxpr_ir_validate_scalar_fast_program (ir_code prog)"
    "ir_fast_result_kind prog = CXPR_IR_RESULT_BOOL \<Longrightarrow> cxpr_ir_validate_bool_fast_program (ir_code prog)"
    using kind code by simp_all
qed

lemma seg_ok_jumps_forward:
  assumes "seg_ok reg 0 c" "in_op i \<notin> jump_ops"
  shows "jumps_forward (c @ [i])"
  unfolding jumps_forward_def
proof (intro allI impI)
  fix ip assume ip: "ip < length (c @ [i])"
    "in_op ((c @ [i]) ! ip) \<in> {CXPR_OP_JUMP, CXPR_OP_JUMP_IF_FALSE, CXPR_OP_JUMP_IF_TRUE}"
  then have "ip < length c" using assms(2) by (cases "ip = length c") (auto simp: nth_append jump_ops_def)
  with assms(1) ip(2) show "ip < in_index ((c @ [i]) ! ip)"
    by (auto simp: seg_ok_def jumps_within_def jump_ops_def nth_append)
qed

text \<open>The entries of \<open>min\<close> and \<open>max\<close>, if registered, have a function to call.\<close>

definition extrema_callable :: "cxpr_registry \<Rightarrow> bool" where
  "extrema_callable reg \<longleftrightarrow>
     (case cxpr_registry_find reg ''min'' of None \<Rightarrow> True | Some e \<Rightarrow> callable e) \<and>
     (case cxpr_registry_find reg ''max'' of None \<Rightarrow> True | Some e \<Rightarrow> callable e)"

lemma seg_ok_calls_ok:
  assumes "seg_ok reg 0 c" "extrema_callable reg" "in_op i \<notin> native_call_ops"
  shows "calls_ok (c @ [i])"
proof -
  have "callable e" if "extremum_entry reg e" for e
    using assms(2) that by (auto simp: extrema_callable_def extremum_entry_def)
  then have key: "\<exists>e. in_func j = Some e \<and> callable e" if "j \<in> set c" "in_op j \<in> native_call_ops" for j
    using assms(1) that by (auto simp: seg_ok_def list_all_iff instr_ok_def)
  show ?thesis
    unfolding calls_ok_def
  proof (intro ballI impI)
    fix j assume j: "j \<in> set (c @ [i])"
      "in_op j \<in> {CXPR_OP_CALL_UNARY, CXPR_OP_CALL_BINARY, CXPR_OP_CALL_TERNARY, CXPR_OP_CALL_FUNC}"
    then have "j \<in> set c" "in_op j \<in> native_call_ops" using assms(3) by (auto simp: native_call_ops_def)
    with key obtain e where "in_func j = Some e" "callable e" by blast
    then show "case in_func j of None \<Rightarrow> False
        | Some f \<Rightarrow> in_op j = CXPR_OP_CALL_FUNC \<longrightarrow> fe_typed_func f \<or> fe_value_func f \<noteq> None \<or> fe_sync_func f \<noteq> None"
      by (simp add: callable_def)
  qed
qed

lemma compiled_code_ok:
  assumes "cxpr_ir_compile_with_locals env ast = Inr prog"
  shows "jumps_forward (ir_code prog)" "extrema_callable (ce_reg env) \<Longrightarrow> calls_ok (ir_code prog)"
  using compile_program_shape(1) [OF assms] seg_ok_jumps_forward seg_ok_calls_ok
  by (auto simp: op_set_defs)

text \<open>For evaluation: the size limit compared as an integer.\<close>

lemma cxpr_ir_emit_code [code]:
  "cxpr_ir_emit mem p i =
     (if ir_count p = ir_capacity p then
        (if 9223372036854775807 < int (ir_capacity p) then Inl (CXPR_ERR_OUT_OF_MEMORY, ''Out of memory'')
         else let new_capacity = (if ir_capacity p = 0 then 8 else ir_capacity p * 2) in
           if \<not> mem (new_capacity * sizeof_instr) then Inl (CXPR_ERR_OUT_OF_MEMORY, ''Out of memory'')
           else Inr (p\<lparr>ir_code := ir_code p @ [i], ir_capacity := new_capacity\<rparr>))
      else Inr (p\<lparr>ir_code := ir_code p @ [i]\<rparr>))"
proof -
  have "SIZE_MAX div 2 < ir_capacity p \<longleftrightarrow> 9223372036854775807 < int (ir_capacity p)"
    by (simp only: nat_less_as_int) simp
  then show ?thesis unfolding cxpr_ir_emit_def by presburger
qed

section \<open>Properties\<close>

text \<open>Surroundings in which allocation succeeds, for the samples below.\<close>

definition sample_env :: "cxpr_func_entry list \<Rightarrow> compile_env" where
  "sample_env es =
     \<lparr>ce_mem = (\<lambda>n. True), ce_pow = (\<lambda>a b. DNaN), ce_hexfloat = (\<lambda>x. ''''), ce_reg = Some es, ce_locals = []\<rparr>"

abbreviation ident :: "string \<Rightarrow> cxpr_expr_ast" where "ident n \<equiv> cxpr_expr_ast_identifier_new n"

definition sample_call :: "string \<Rightarrow> cxpr_expr_ast list \<Rightarrow> cxpr_expr_ast" where
  "sample_call name args = Ast None (CXPR_NODE_FUNCTION_CALL name args (map (\<lambda>a. None) args))"

definition defined_entry :: "string \<Rightarrow> string list \<Rightarrow> cxpr_expr_ast \<Rightarrow> cxpr_func_entry" where
  "defined_entry name params body =
     (cxpr_registry_prepare_entry name)
       \<lparr>fe_min_args := length params, fe_max_args := length params, fe_defined_body := Some body,
        fe_defined_param_names := params, fe_defined_param_fields := map (\<lambda>p. []) params\<rparr>"

text \<open>\<open>twice(a) => a + a\<close> and the expression \<open>twice(x) / 2 > x ? 1 : x * x\<close>.\<close>

definition twice_entry :: cxpr_func_entry where
  "twice_entry = defined_entry ''twice'' [''a''] (cxpr_expr_ast_binary_new CXPR_TOK_PLUS (ident ''a'') (ident ''a''))"

definition sample_ast :: cxpr_expr_ast where
  "sample_ast = Ast None (CXPR_NODE_TERNARY
     (cxpr_expr_ast_binary_new CXPR_TOK_GT
        (cxpr_expr_ast_binary_new CXPR_TOK_SLASH (sample_call ''twice'' [ident ''x''])
           (cxpr_expr_ast_number_new (dbl_of_int 2))) (ident ''x''))
     (cxpr_expr_ast_number_new dbl_one) (cxpr_expr_ast_binary_new CXPR_TOK_STAR (ident ''x'') (ident ''x'')))"



text \<open>\<open>min(a, b) => a < b ? a : b\<close>, defined by an expression.\<close>

definition min_entry :: cxpr_func_entry where
  "min_entry = defined_entry ''min'' [''a'', ''b''] (Ast None (CXPR_NODE_TERNARY
     (cxpr_expr_ast_binary_new CXPR_TOK_LT (ident ''a'') (ident ''b'')) (ident ''a'') (ident ''b'')))"


text \<open>\<open>pick(s, i) => s[i]\<close>.\<close>

definition pick_entry :: cxpr_func_entry where
  "pick_entry = defined_entry ''pick'' [''s'', ''i''] (Ast None (CXPR_NODE_INDEX (ident ''s'') (ident ''i'')))"

text \<open>A body compiled in place of its call loses the arguments wherever it falls back on the tree
  evaluator. With \<open>pick(s, i) => s[i]\<close> in an otherwise empty registry, every call compiles to the same
  two instructions, the evaluation of the tree \<open>s[i]\<close> and a return: the arguments do not occur in
  the code.\<close>

theorem inlined_index_drops_arguments:
  "case cxpr_ir_compile (sample_env [pick_entry]) (sample_call ''pick'' [a, b]) of
     Inr p \<Rightarrow> ir_code p = [(plain_instr CXPR_OP_CALL_AST)\<lparr>in_ast := fe_defined_body pick_entry\<rparr>,
                           plain_instr CXPR_OP_RETURN]
   | Inl _ \<Rightarrow> False"
  by (simp add: sample_env_def sample_call_def pick_entry_def defined_entry_def cxpr_registry_prepare_entry_def
      cxpr_ir_compile_def cxpr_ir_compile_with_locals_def Let_def cxpr_ir_compile_node.simps
      cxpr_ir_constant_typed_value.simps cxpr_expr_ast_named_args_present_def cxpr_registry_find_def foldable_entry_def
      compile_known_call_def intrinsic_opcode_def cxpr_ir_emit_defined_direct_field_call_def direct_field_body_def
      cxpr_ir_defined_call_can_inline_def cxpr_ir_defined_body_needs_ast_eval.simps cxpr_expr_ast_identifier_new_def
      cxpr_ir_index_has_literal_array_base.simps cxpr_lookback_literal_offset_def CXPR_IR_INLINE_DEPTH_LIMIT_def
      call_ast_def emit_def cxpr_ir_emit_code cxpr_ir_program_reset_def op_only_def then_compile_def
      cxpr_ir_constant_array_value_ast.simps
      split: cxpr_ir_result.split)

end
