(* ===== verification/Cxpr_Memo.thy ===== *)
theory Cxpr_Memo
  imports Cxpr_Fold
begin

text \<open>
  The memo of one evaluation pass (\<^verbatim>\<open>src/src/eval/helpers/cache.c\<close>): the structural hash and comparison
  of trees, which calls may be memoized, and the operations on the memo of a context. The memo holds
  borrowed trees; the comparison of two pointers that are equal, which skips the structural one, makes
  a difference only for a tree with a NaN literal, which no source text yields.
\<close>

section \<open>Structural hash\<close>

definition cxpr_eval_hash_mix :: "ulong \<Rightarrow> ulong \<Rightarrow> ulong" where
  "cxpr_eval_hash_mix hash v = xor hash (v + 0x9e3779b9 + push_bit 6 hash + drop_bit 2 hash)"

fun cxpr_eval_hash_string :: "ulong \<Rightarrow> string \<Rightarrow> ulong" where
  "cxpr_eval_hash_string hash [] = hash"
| "cxpr_eval_hash_string hash (c # text) =
     (if c = NUL then hash else cxpr_eval_hash_string (xor hash (of_nat (byte c)) * 1099511628211) text)"

text \<open>The bits of a double; a NaN stands for any of its encodings.\<close>

definition dbl_bits :: "double \<Rightarrow> ulong" where
  "dbl_bits x =
     (case x of
        DNaN \<Rightarrow> 0x7ff8000000000000
      | DInf s \<Rightarrow> (if s then 0xfff0000000000000 else 0x7ff0000000000000)
      | DFin s m e \<Rightarrow>
          (if s then 0x8000000000000000 else 0) +
          word_of_int (if 4503599627370496 \<le> m then (e + 1075) * 4503599627370496 + (m - 4503599627370496) else m))"

text \<open>The enumerators of \<open>cxpr_expr_ast_kind\<close> and \<open>cxpr_token_type\<close>.\<close>

definition node_kind :: "cxpr_expr_data \<Rightarrow> ulong" where
  "node_kind d =
     (case d of
        CXPR_NODE_NUMBER _ \<Rightarrow> 0 | CXPR_NODE_INT64 _ \<Rightarrow> 1 | CXPR_NODE_BOOL _ \<Rightarrow> 2 | CXPR_NODE_ARRAY _ \<Rightarrow> 3
      | CXPR_NODE_RECORD _ _ \<Rightarrow> 4 | CXPR_NODE_STRING _ \<Rightarrow> 5 | CXPR_NODE_IDENTIFIER _ \<Rightarrow> 6
      | CXPR_NODE_VARIABLE _ \<Rightarrow> 7 | CXPR_NODE_FIELD_ACCESS _ _ \<Rightarrow> 8 | CXPR_NODE_FIELD_EXPR _ _ \<Rightarrow> 8
      | CXPR_NODE_CHAIN_ACCESS _ \<Rightarrow> 9 | CXPR_NODE_PRODUCER_ACCESS _ _ _ _ \<Rightarrow> 10
      | CXPR_NODE_BINARY_OP _ _ _ \<Rightarrow> 11 | CXPR_NODE_UNARY_OP _ _ \<Rightarrow> 12 | CXPR_NODE_FUNCTION_CALL _ _ _ \<Rightarrow> 13
      | CXPR_NODE_INDEX _ _ \<Rightarrow> 14 | CXPR_NODE_TERNARY _ _ _ \<Rightarrow> 15)"

definition token_types :: "cxpr_token_type list" where
  "token_types =
     [CXPR_TOK_NUMBER, CXPR_TOK_IDENTIFIER, CXPR_TOK_VARIABLE, CXPR_TOK_TRUE, CXPR_TOK_FALSE, CXPR_TOK_STRING,
      CXPR_TOK_PLUS, CXPR_TOK_MINUS, CXPR_TOK_STAR, CXPR_TOK_SLASH, CXPR_TOK_PERCENT, CXPR_TOK_POWER,
      CXPR_TOK_ASSIGN, CXPR_TOK_EQ, CXPR_TOK_NEQ, CXPR_TOK_LT, CXPR_TOK_GT, CXPR_TOK_LTE, CXPR_TOK_GTE,
      CXPR_TOK_AND, CXPR_TOK_OR, CXPR_TOK_NOT, CXPR_TOK_IN, CXPR_TOK_LPAREN, CXPR_TOK_RPAREN, CXPR_TOK_LBRACKET,
      CXPR_TOK_RBRACKET, CXPR_TOK_LBRACE, CXPR_TOK_RBRACE, CXPR_TOK_COMMA, CXPR_TOK_DOT, CXPR_TOK_PIPE,
      CXPR_TOK_QUESTION, CXPR_TOK_COLON, CXPR_TOK_EOF, CXPR_TOK_ERROR]"

definition token_code :: "cxpr_token_type \<Rightarrow> ulong" where
  "token_code t = of_nat (length (takeWhile (\<lambda>u. u \<noteq> t) token_types))"

text \<open>One argument of a call: its name, \<open>''''\<close> for NULL, then its tree.\<close>

definition hash_arg :: "ulong \<Rightarrow> string option \<times> ulong \<Rightarrow> ulong" where
  "hash_arg hash arg =
     (case arg of (n, h) \<Rightarrow> cxpr_eval_hash_mix (cxpr_eval_hash_string hash (case n of None \<Rightarrow> '''' | Some s \<Rightarrow> s)) h)"

fun cxpr_eval_ast_hash :: "cxpr_expr_ast \<Rightarrow> ulong" where
  "cxpr_eval_ast_hash (Ast sp d) =
     (let hash = cxpr_eval_hash_mix 1469598103934665603 (node_kind d) in
      case d of
        CXPR_NODE_NUMBER v \<Rightarrow> cxpr_eval_hash_mix hash (dbl_bits v)
      | CXPR_NODE_INT64 v \<Rightarrow> cxpr_eval_hash_mix hash (word_of_int v)
      | CXPR_NODE_BOOL v \<Rightarrow> cxpr_eval_hash_mix hash (if v then 1 else 0)
      | CXPR_NODE_ARRAY es \<Rightarrow>
          cxpr_eval_hash_mix (foldl cxpr_eval_hash_mix hash (map cxpr_eval_ast_hash es)) (of_nat (length es))
      | CXPR_NODE_RECORD ns vs \<Rightarrow>
          cxpr_eval_hash_mix (foldl hash_arg hash (zip (map Some ns) (map cxpr_eval_ast_hash vs))) (of_nat (length vs))
      | CXPR_NODE_STRING s \<Rightarrow> cxpr_eval_hash_string hash s
      | CXPR_NODE_IDENTIFIER n \<Rightarrow> cxpr_eval_hash_string hash n
      | CXPR_NODE_VARIABLE n \<Rightarrow> cxpr_eval_hash_string hash n
      | CXPR_NODE_FIELD_ACCESS ob f \<Rightarrow>
          cxpr_eval_hash_string (cxpr_eval_hash_string (cxpr_eval_hash_mix hash 0) ob) f
      | CXPR_NODE_FIELD_EXPR b f \<Rightarrow>
          cxpr_eval_hash_string (cxpr_eval_hash_mix hash (cxpr_eval_ast_hash b)) f
      | CXPR_NODE_CHAIN_ACCESS path \<Rightarrow>
          cxpr_eval_hash_mix (foldl cxpr_eval_hash_string hash path) (of_nat (length path))
      | CXPR_NODE_PRODUCER_ACCESS n args names f \<Rightarrow>
          cxpr_eval_hash_mix (foldl hash_arg (cxpr_eval_hash_string (cxpr_eval_hash_string hash n) f)
            (zip (map (arg_name names) [0 ..< length args]) (map cxpr_eval_ast_hash args))) (of_nat (length args))
      | CXPR_NODE_BINARY_OP op a b \<Rightarrow>
          cxpr_eval_hash_mix (cxpr_eval_hash_mix (cxpr_eval_hash_mix hash (token_code op)) (cxpr_eval_ast_hash a))
            (cxpr_eval_ast_hash b)
      | CXPR_NODE_UNARY_OP op a \<Rightarrow>
          cxpr_eval_hash_mix (cxpr_eval_hash_mix hash (token_code op)) (cxpr_eval_ast_hash a)
      | CXPR_NODE_FUNCTION_CALL n args names \<Rightarrow>
          cxpr_eval_hash_mix (foldl hash_arg (cxpr_eval_hash_string hash n)
            (zip (map (arg_name names) [0 ..< length args]) (map cxpr_eval_ast_hash args))) (of_nat (length args))
      | CXPR_NODE_INDEX a b \<Rightarrow>
          cxpr_eval_hash_mix (cxpr_eval_hash_mix hash (cxpr_eval_ast_hash a)) (cxpr_eval_ast_hash b)
      | CXPR_NODE_TERNARY a b c \<Rightarrow>
          cxpr_eval_hash_mix (cxpr_eval_hash_mix (cxpr_eval_hash_mix hash (cxpr_eval_ast_hash a)) (cxpr_eval_ast_hash b))
            (cxpr_eval_ast_hash c))"

declare cxpr_eval_ast_hash.simps [simp del]

section \<open>Structural comparison\<close>

function cxpr_eval_ast_equal :: "cxpr_expr_ast \<Rightarrow> cxpr_expr_ast \<Rightarrow> bool" where
  "cxpr_eval_ast_equal (Ast sp d) (Ast sp' d') =
     (case (d, d') of
        (CXPR_NODE_NUMBER v, CXPR_NODE_NUMBER v') \<Rightarrow> dbl_eq v v'
      | (CXPR_NODE_INT64 v, CXPR_NODE_INT64 v') \<Rightarrow> v = v'
      | (CXPR_NODE_BOOL v, CXPR_NODE_BOOL v') \<Rightarrow> v = v'
      | (CXPR_NODE_ARRAY es, CXPR_NODE_ARRAY es') \<Rightarrow>
          length es = length es' \<and> (\<forall>(x, y) \<in> set (zip es es'). cxpr_eval_ast_equal x y)
      | (CXPR_NODE_RECORD ns vs, CXPR_NODE_RECORD ns' vs') \<Rightarrow>
          length vs = length vs' \<and> take (length vs) ns = take (length vs) ns' \<and>
          (\<forall>(x, y) \<in> set (zip vs vs'). cxpr_eval_ast_equal x y)
      | (CXPR_NODE_STRING s, CXPR_NODE_STRING s') \<Rightarrow> s = s'
      | (CXPR_NODE_IDENTIFIER n, CXPR_NODE_IDENTIFIER n') \<Rightarrow> n = n'
      | (CXPR_NODE_VARIABLE n, CXPR_NODE_VARIABLE n') \<Rightarrow> n = n'
      | (CXPR_NODE_FIELD_ACCESS ob f, CXPR_NODE_FIELD_ACCESS ob' f') \<Rightarrow> ob = ob' \<and> f = f'
      | (CXPR_NODE_FIELD_EXPR b f, CXPR_NODE_FIELD_EXPR b' f') \<Rightarrow> cxpr_eval_ast_equal b b' \<and> f = f'
      | (CXPR_NODE_CHAIN_ACCESS path, CXPR_NODE_CHAIN_ACCESS path') \<Rightarrow> path = path'
      | (CXPR_NODE_PRODUCER_ACCESS n args names f, CXPR_NODE_PRODUCER_ACCESS n' args' names' f') \<Rightarrow>
          n = n' \<and> f = f' \<and> length args = length args' \<and> same_names (length args) names names' \<and>
          (\<forall>(x, y) \<in> set (zip args args'). cxpr_eval_ast_equal x y)
      | (CXPR_NODE_BINARY_OP op a b, CXPR_NODE_BINARY_OP op' a' b') \<Rightarrow>
          op = op' \<and> cxpr_eval_ast_equal a a' \<and> cxpr_eval_ast_equal b b'
      | (CXPR_NODE_UNARY_OP op a, CXPR_NODE_UNARY_OP op' a') \<Rightarrow> op = op' \<and> cxpr_eval_ast_equal a a'
      | (CXPR_NODE_FUNCTION_CALL n args names, CXPR_NODE_FUNCTION_CALL n' args' names') \<Rightarrow>
          n = n' \<and> length args = length args' \<and> same_names (length args) names names' \<and>
          (\<forall>(x, y) \<in> set (zip args args'). cxpr_eval_ast_equal x y)
      | (CXPR_NODE_INDEX a b, CXPR_NODE_INDEX a' b') \<Rightarrow> cxpr_eval_ast_equal a a' \<and> cxpr_eval_ast_equal b b'
      | (CXPR_NODE_TERNARY a b c, CXPR_NODE_TERNARY a' b' c') \<Rightarrow>
          cxpr_eval_ast_equal a a' \<and> cxpr_eval_ast_equal b b' \<and> cxpr_eval_ast_equal c c'
      | _ \<Rightarrow> False)"
  by pat_completeness auto
termination
  by (relation "measure (size \<circ> fst)") (auto dest!: zip_size_list simp: less_Suc_eq)

declare cxpr_eval_ast_equal.simps [simp del]

section \<open>The memo\<close>

definition cxpr_eval_ast_memoable :: "cxpr_registry \<Rightarrow> cxpr_expr_ast \<Rightarrow> bool" where
  "cxpr_eval_ast_memoable reg ast =
     (case ast_data ast of
        CXPR_NODE_FUNCTION_CALL name _ _ \<Rightarrow>
          (case cxpr_registry_find reg name of
             None \<Rightarrow> False
           | Some e \<Rightarrow>
               \<not> (fe_ast_func_handler e \<or> fe_ast_func e) \<and>
               \<not> (fe_struct_producer e \<and> fe_sync_func e = None \<and> fe_value_func e = None))
      | _ \<Rightarrow> False)"

record cxpr_eval_memo_entry =
  me_ast :: cxpr_expr_ast
  me_hash :: ulong
  me_value :: cxpr_value

record cxpr_eval_memo =
  memo_entries :: "cxpr_eval_memo_entry list"
  memo_capacity :: nat
  memo_depth :: nat

abbreviation sizeof_memo_entry :: nat where "sizeof_memo_entry \<equiv> 32"

definition cxpr_eval_memo_get :: "cxpr_eval_memo \<Rightarrow> cxpr_expr_ast \<Rightarrow> ulong \<Rightarrow> cxpr_value option" where
  "cxpr_eval_memo_get m ast hash =
     (if memo_depth m = 0 then None
      else map_option me_value (find (\<lambda>e. me_hash e = hash \<and> cxpr_eval_ast_equal (me_ast e) ast) (memo_entries m)))"

definition cxpr_eval_memo_set :: "(nat \<Rightarrow> bool) \<Rightarrow> cxpr_expr_ast \<Rightarrow> ulong \<Rightarrow> cxpr_value \<Rightarrow> cxpr_eval_memo
    \<Rightarrow> cxpr_eval_memo \<times> bool" where
  "cxpr_eval_memo_set mem ast hash v m =
     (if memo_depth m = 0 then (m, False)
      else if value_type v \<noteq> CXPR_VALUE_NUMBER \<and> value_type v \<noteq> CXPR_VALUE_BOOL then (m, True)
      else let full = (length (memo_entries m) = memo_capacity m);
               next_cap = (if memo_capacity m = 0 then 64 else memo_capacity m * 2);
               entry = \<lparr>me_ast = ast, me_hash = hash, me_value = v\<rparr> in
        if full \<and> \<not> mem (next_cap * sizeof_memo_entry) then (m, False)
        else (m\<lparr>memo_capacity := (if full then next_cap else memo_capacity m),
                memo_entries := memo_entries m @ [entry]\<rparr>, True))"

definition cxpr_eval_memo_clear :: "cxpr_eval_memo \<Rightarrow> cxpr_eval_memo" where
  "cxpr_eval_memo_clear m = m\<lparr>memo_entries := [], memo_depth := 0\<rparr>"

definition cxpr_eval_memo_enter :: "cxpr_eval_memo \<Rightarrow> cxpr_eval_memo" where
  "cxpr_eval_memo_enter m =
     (let m1 = (if memo_depth m = 0 then m\<lparr>memo_entries := []\<rparr> else m) in m1\<lparr>memo_depth := memo_depth m1 + 1\<rparr>)"

definition cxpr_eval_memo_leave :: "cxpr_eval_memo \<Rightarrow> cxpr_eval_memo" where
  "cxpr_eval_memo_leave m =
     (if memo_depth m = 0 then m
      else let m1 = m\<lparr>memo_depth := memo_depth m - 1\<rparr> in if memo_depth m1 = 0 then m1\<lparr>memo_entries := []\<rparr> else m1)"

section \<open>Equal trees have equal hashes\<close>

text \<open>A literal of a source text is a non-negative double in canonical form.\<close>

definition literal_ok :: "double \<Rightarrow> bool" where
  "literal_ok x \<longleftrightarrow> dbl_wf x \<and> (case x of DNaN \<Rightarrow> True | DInf s \<Rightarrow> \<not> s | DFin s m e \<Rightarrow> \<not> s)"

lemma aligned_eq:
  fixes m n e f :: int
  assumes "m * pow2 (e - min e f) = n * pow2 (f - min e f)" "m < 2 ^ 53" "2 ^ 52 \<le> n \<or> f = - 1074" "- 1074 \<le> e" "e \<le> f"
  shows "m = n \<and> e = f"
proof (cases "e = f")
  case True
  with assms(1) show ?thesis by (simp add: pow2_eq)
next
  case False
  with assms(5) have "(2::int) ^ 1 \<le> 2 ^ nat (f - e)" by (intro power_increasing) auto
  moreover have m: "m = n * 2 ^ nat (f - e)" using assms(1,5) by (simp add: pow2_eq)
  moreover have n: "2 ^ 52 \<le> n" using assms(3-5) False by linarith
  ultimately have "2 ^ 52 * 2 \<le> m" using mult_mono [of "2 ^ 52" n 2 "2 ^ nat (f - e)"] by simp
  with assms(2) show ?thesis by simp
qed

lemma dbl_eq_literals:
  assumes "dbl_eq x y" "literal_ok x" "literal_ok y"
  shows "x = y"
proof (cases "(x, y)" rule: dbl_eq.cases)
  case (6 s m e t n f)
  with assms have a: "m * pow2 (e - min e f) = n * pow2 (f - min e f)" "\<not> s" "\<not> t"
      "0 \<le> m" "m < 2 ^ 53" "0 \<le> n" "n < 2 ^ 53" "- 1074 \<le> e" "- 1074 \<le> f" "2 ^ 52 \<le> n \<or> f = - 1074" "2 ^ 52 \<le> m \<or> e = - 1074"
    by (auto simp: literal_ok_def dbl_wf_def align_def signed_def Let_def)
  show ?thesis
  proof (cases "e \<le> f")
    case True
    with a aligned_eq [of m e f n] 6 show ?thesis by simp
  next
    case False
    with a aligned_eq [of n f e m] 6 show ?thesis by (simp add: min.commute)
  qed
qed (use assms in \<open>auto simp: literal_ok_def\<close>)

text \<open>All literals of a tree.\<close>

definition literals_ok :: "cxpr_expr_ast \<Rightarrow> bool" where
  "literals_ok = ast_all (\<lambda>a. case ast_data a of CXPR_NODE_NUMBER v \<Rightarrow> literal_ok v | _ \<Rightarrow> True)"

lemma literals_ok_node:
  "literals_ok (Ast sp d) \<longleftrightarrow>
     (case d of CXPR_NODE_NUMBER v \<Rightarrow> literal_ok v | _ \<Rightarrow> True) \<and> (\<forall>c \<in> set (ast_children (Ast sp d)). literals_ok c)"
  by (simp add: literals_ok_def ast_all.simps [of _ "Ast sp d"] del: ast_children.simps)

lemma map_zip_cong:
  "length xs = length ys \<Longrightarrow> (\<And>x y. (x, y) \<in> set (zip xs ys) \<Longrightarrow> f x = f y) \<Longrightarrow> map f xs = map f ys"
  by (induction xs ys rule: list_induct2) auto

lemma same_names_map: "same_names n names names' \<Longrightarrow> map (arg_name names) [0 ..< n] = map (arg_name names') [0 ..< n]"
  by (simp add: same_names_def)

lemma zip_take_names:
  "take (length ys) ns = take (length ys) ns' \<Longrightarrow> zip (map Some ns) ys = zip (map Some ns') ys"
proof (induction ys arbitrary: ns ns')
  case (Cons y ys)
  show ?case by (cases ns; cases ns') (use Cons.prems in \<open>auto intro!: Cons.IH\<close>)
qed simp

lemma find_snoc: "find P (xs @ [x]) = (case find P xs of Some y \<Rightarrow> Some y | None \<Rightarrow> if P x then Some x else None)"
  by (induction xs) auto

lemma equal_trees_hash:
  "cxpr_eval_ast_equal a b \<Longrightarrow> literals_ok a \<Longrightarrow> literals_ok b \<Longrightarrow> cxpr_eval_ast_hash a = cxpr_eval_ast_hash b"
proof (induction a arbitrary: b rule: measure_induct_rule [of size])
  case (less a)
  obtain sp d sp' d' where ab: "a = Ast sp d" "b = Ast sp' d'" by (cases a, cases b)
  have args: "map cxpr_eval_ast_hash xs = map cxpr_eval_ast_hash ys"
    if "length xs = length ys" "\<forall>(x, y) \<in> set (zip xs ys). cxpr_eval_ast_equal x y"
      "\<forall>x \<in> set xs. literals_ok x \<and> size x < size a" "\<forall>y \<in> set ys. literals_ok y" for xs ys
  proof (rule map_zip_cong [OF that(1)])
    fix x y assume "(x, y) \<in> set (zip xs ys)"
    with that(2-4) show "cxpr_eval_ast_hash x = cxpr_eval_ast_hash y"
      by (intro less.IH) (auto dest: set_zip_leftD set_zip_rightD)
  qed
  have kid: "cxpr_eval_ast_hash x = cxpr_eval_ast_hash y"
    if "cxpr_eval_ast_equal x y" "size x < size a" "literals_ok x" "literals_ok y" for x y
    using less.IH [OF that(2) that(1) that(3) that(4)] .
  have small: "\<forall>c \<in> set (ast_children a). size c < size a" using ast_children_size by blast
  note defs = ab cxpr_eval_ast_equal.simps cxpr_eval_ast_hash.simps literals_ok_node node_kind_def Let_def
  show ?case
  proof (cases d)
    case (CXPR_NODE_ARRAY es)
    with less.prems small args show ?thesis by (cases d') (auto simp: defs)
  next
    case (CXPR_NODE_RECORD ns vs)
    then obtain ns' vs' where d': "d' = CXPR_NODE_RECORD ns' vs'" using less.prems by (cases d') (auto simp: defs)
    with CXPR_NODE_RECORD less.prems small args [of vs vs'] have "map cxpr_eval_ast_hash vs = map cxpr_eval_ast_hash vs'"
      "take (length (map cxpr_eval_ast_hash vs)) ns = take (length (map cxpr_eval_ast_hash vs)) ns'" "length vs = length vs'"
      by (auto simp: defs)
    with zip_take_names [OF this(2)] CXPR_NODE_RECORD d' show ?thesis by (simp add: defs)
  next
    case (CXPR_NODE_PRODUCER_ACCESS n args' names f)
    with less.prems small args [of args'] show ?thesis by (cases d') (auto simp: defs simp del: map_eq_conv dest!: same_names_map)
  next
    case (CXPR_NODE_FUNCTION_CALL n args' names)
    with less.prems small args [of args'] show ?thesis by (cases d') (auto simp: defs simp del: map_eq_conv dest!: same_names_map)
  next
    case (CXPR_NODE_NUMBER v)
    with less.prems show ?thesis by (cases d') (auto simp: defs dest: dbl_eq_literals)
  next
    case (CXPR_NODE_FIELD_EXPR b f)
    with less.prems show ?thesis by (cases d') (auto simp: defs dest!: kid)
  next
    case (CXPR_NODE_BINARY_OP op l r)
    with less.prems show ?thesis by (cases d') (auto simp: defs dest!: kid)
  next
    case (CXPR_NODE_UNARY_OP op l)
    with less.prems show ?thesis by (cases d') (auto simp: defs dest!: kid)
  next
    case (CXPR_NODE_INDEX l r)
    with less.prems show ?thesis by (cases d') (auto simp: defs dest!: kid)
  next
    case (CXPR_NODE_TERNARY c l r)
    with less.prems show ?thesis by (cases d') (auto simp: defs dest!: kid)
  qed (use less.prems in \<open>cases d'; simp add: defs\<close>)+
qed

section \<open>Properties\<close>

text \<open>C17: within a pass the memo is a map on trees up to structural equality. For trees with the
  literals of source texts, storing a number or boolean makes the lookup of every equal tree return
  it, unless an earlier entry already answers, and changes no other lookup; outside a pass, and after
  the outermost pass ended, nothing is found.\<close>

theorem memo_structural_map:
  assumes "literals_ok ast" "literals_ok ast'"
    and "cxpr_eval_memo_set mem ast (cxpr_eval_ast_hash ast) v m = (m', True)"
    and "value_type v \<in> {CXPR_VALUE_NUMBER, CXPR_VALUE_BOOL}"
  shows "cxpr_eval_memo_get m' ast' (cxpr_eval_ast_hash ast') =
      (case cxpr_eval_memo_get m ast' (cxpr_eval_ast_hash ast') of
         Some w \<Rightarrow> Some w
       | None \<Rightarrow> if cxpr_eval_ast_equal ast ast' then Some v else None) \<and>
    cxpr_eval_memo_get (cxpr_eval_memo_clear m') ast' h = None \<and>
    (memo_depth m' = 1 \<longrightarrow> cxpr_eval_memo_get (cxpr_eval_memo_leave m') ast' h = None)"
proof -
  have m': "memo_entries m' = memo_entries m @ [\<lparr>me_ast = ast, me_hash = cxpr_eval_ast_hash ast, me_value = v\<rparr>]"
      "memo_depth m' = memo_depth m" "memo_depth m \<noteq> 0"
    using assms(3,4) by (auto simp: cxpr_eval_memo_set_def Let_def split: if_splits)
  have "cxpr_eval_ast_hash ast = cxpr_eval_ast_hash ast'" if "cxpr_eval_ast_equal ast ast'"
    using equal_trees_hash [OF that] assms(1,2) by blast
  then show ?thesis
    unfolding cxpr_eval_memo_get_def cxpr_eval_memo_clear_def cxpr_eval_memo_leave_def Let_def m'
    using m'(3) by (auto simp: find_snoc split: option.split)
qed

text \<open>\<open>f(1.5)\<close> and a second copy of it.\<close>

definition sample_memo_call :: "cxpr_source_span option \<Rightarrow> cxpr_expr_ast" where
  "sample_memo_call sp = Ast sp (CXPR_NODE_FUNCTION_CALL ''f'' [Ast sp (CXPR_NODE_NUMBER (DFin False 6755399441055744 (- 52)))] [])"

theorem memo_structural_map_witness:
  "case cxpr_eval_memo_set (\<lambda>n. True) (sample_memo_call None) (cxpr_eval_ast_hash (sample_memo_call None)) (cxpr_bool True)
      \<lparr>memo_entries = [], memo_capacity = 0, memo_depth = 1\<rparr> of
     (m', ok) \<Rightarrow> ok \<and> cxpr_eval_memo_get m' (sample_memo_call None) (cxpr_eval_ast_hash (sample_memo_call None)) =
       Some (cxpr_bool True)"
proof -
  let ?a = "sample_memo_call None" and ?m = "\<lparr>memo_entries = [], memo_capacity = 0, memo_depth = 1\<rparr>"
  have lit: "literals_ok ?a"
    by (simp add: sample_memo_call_def literals_ok_node literal_ok_def dbl_wf_def)
  obtain m' where set: "cxpr_eval_memo_set (\<lambda>n. True) ?a (cxpr_eval_ast_hash ?a) (cxpr_bool True) ?m = (m', True)"
    by (simp add: cxpr_eval_memo_set_def)
  have "cxpr_eval_ast_equal ?a ?a" by code_simp
  with memo_structural_map [OF lit lit set] set show ?thesis by (simp add: cxpr_eval_memo_get_def)
qed

end
