(* ===== verification/Cxpr_Tree.thy ===== *)
theory Cxpr_Tree
  imports Cxpr_Compile Cxpr_Memo Cxpr_References
begin

text \<open>
  The tree evaluator: \<^verbatim>\<open>src/src/eval/tree.c\<close>, \<^verbatim>\<open>calls.c\<close>, \<^verbatim>\<open>calls/producer.c\<close>, the helpers \<^verbatim>\<open>base.c\<close>,
  \<^verbatim>\<open>constants.c\<close> and \<open>cxpr_eval_struct_result\<close> of \<^verbatim>\<open>cache.c\<close>, with \<^verbatim>\<open>registry/call.c\<close> and the
  selection of index capabilities of \<^verbatim>\<open>registry/index.c\<close>. A context and its parents are a list of
  frames of any type; the operations on them and the host's functions are the fields of the record
  \<open>eval_env\<close>. Every function takes the error object as it finds it and returns it, because some
  callers go on after an error. The evaluator calls itself on subtrees, on bodies of defined functions
  and on rewritten trees, so it has fuel, one unit for each level of the recursion; \<open>Stuck\<close> is running
  out of it, and undefined behaviour. The caches inside tree nodes (entries, keys, field indices)
  are left out: each stores the result of a function of the tree and the registry. Ownership of
  values is not modelled.
\<close>

section \<open>Surroundings\<close>

datatype eval_err = Ok | Err cxpr_error_code string | Stuck

type_synonym 'f ev = "cxpr_value \<times> 'f list \<times> eval_err"

type_synonym 'f evaluator = "cxpr_expr_ast \<Rightarrow> 'f list \<Rightarrow> eval_err \<Rightarrow> 'f ev"

text \<open>The first group are the operations of the context component, the second the host's functions:
  handlers that take trees, producers of structs, typed functions, the index capabilities (target
  name and identity of resolver and user data) with their resolvers, and the look-back resolver.\<close>

record 'f eval_env =
  ev_mem :: "nat \<Rightarrow> bool"
  ev_pow :: "double \<Rightarrow> double \<Rightarrow> double"
  ev_hexfloat :: "double \<Rightarrow> string"
  ev_reg :: cxpr_registry
  ev_get_typed :: "string \<Rightarrow> 'f list \<Rightarrow> cxpr_value option \<times> 'f list"
  ev_get_param_typed :: "string \<Rightarrow> 'f list \<Rightarrow> cxpr_value option \<times> 'f list"
  ev_get :: "string \<Rightarrow> 'f list \<Rightarrow> double option \<times> 'f list"
  ev_get_param :: "string \<Rightarrow> 'f list \<Rightarrow> double option \<times> 'f list"
  ev_get_field :: "string \<Rightarrow> string \<Rightarrow> 'f list \<Rightarrow> cxpr_value option \<times> 'f list"
  ev_get_struct :: "string \<Rightarrow> 'f list \<Rightarrow> cxpr_struct_value option"
  ev_get_cached_struct :: "string \<Rightarrow> 'f list \<Rightarrow> cxpr_struct_value option"
  ev_set_cached_struct :: "string \<Rightarrow> cxpr_struct_value \<Rightarrow> 'f list \<Rightarrow> 'f list"
  ev_scope :: "'f list \<Rightarrow> (string \<Rightarrow> cxpr_value option) option"
  ev_overlay_new :: "'f list \<Rightarrow> ('f \<times> 'f list) option"
  ev_overlay_free :: "'f \<Rightarrow> 'f list \<Rightarrow> 'f list"
  ev_set :: "string \<Rightarrow> double \<Rightarrow> 'f \<Rightarrow> 'f"
  ev_set_value :: "string \<Rightarrow> cxpr_value \<Rightarrow> 'f \<Rightarrow> 'f"
  ev_set_struct :: "string \<Rightarrow> cxpr_struct_value \<Rightarrow> 'f \<Rightarrow> 'f"
  ev_copy_prefixed :: "string \<Rightarrow> string \<Rightarrow> 'f list \<Rightarrow> 'f \<Rightarrow> bool \<times> 'f"
  ev_memo :: "'f list \<Rightarrow> cxpr_eval_memo"
  ev_set_memo :: "cxpr_eval_memo \<Rightarrow> 'f list \<Rightarrow> 'f list"
  ev_lookback_offset :: "'f list \<Rightarrow> double"
  ev_ast_func_handler :: "cxpr_func_entry \<Rightarrow> 'f evaluator"
  ev_ast_func :: "cxpr_func_entry \<Rightarrow> 'f evaluator"
  ev_model_producer :: "cxpr_func_entry \<Rightarrow> 'f evaluator"
  ev_struct_producer :: "cxpr_func_entry \<Rightarrow> double list \<Rightarrow> cxpr_value list"
  ev_typed_func :: "cxpr_func_entry \<Rightarrow> cxpr_value list \<Rightarrow> cxpr_value"
  ev_capabilities :: "(string \<times> nat) list"
  ev_resolve :: "nat \<Rightarrow> cxpr_expr_ast \<Rightarrow> int \<Rightarrow> 'f list \<Rightarrow> eval_err \<Rightarrow> bool \<times> 'f ev"
  ev_resolver :: "(cxpr_expr_ast \<Rightarrow> cxpr_expr_ast \<Rightarrow> 'f list \<Rightarrow> eval_err \<Rightarrow> bool \<times> 'f ev) option"

section \<open>Errors and values (base.c)\<close>

definition cxpr_eval_error :: "cxpr_error_code \<Rightarrow> string \<Rightarrow> 'f list \<Rightarrow> 'f ev" where
  "cxpr_eval_error code message cs = (cxpr_num DNaN, cs, Err code message)"

abbreviation eval_oom :: "'f list \<Rightarrow> 'f ev" where
  "eval_oom cs \<equiv> cxpr_eval_error CXPR_ERR_OUT_OF_MEMORY ''Out of memory'' cs"

definition eval_stuck :: "'f list \<Rightarrow> 'f ev" where "eval_stuck cs = (cxpr_num DNaN, cs, Stuck)"

text \<open>A call followed by \<open>if (err && err->code != CXPR_OK) return cxpr_num(NAN)\<close>.\<close>

definition eval_then :: "'f ev \<Rightarrow> (cxpr_value \<Rightarrow> 'f list \<Rightarrow> 'f ev) \<Rightarrow> 'f ev" where
  "eval_then r k = (case r of (v, cs, e) \<Rightarrow> if e = Ok then k v cs else (cxpr_num DNaN, cs, e))"

text \<open>\<open>cxpr_require_type\<close> and the failing return after it.\<close>

definition cxpr_require_type :: "cxpr_value \<Rightarrow> cxpr_value_type \<Rightarrow> string \<Rightarrow> 'f list \<Rightarrow> 'f ev \<Rightarrow> 'f ev" where
  "cxpr_require_type v t message cs k =
     (if value_type v \<noteq> t then cxpr_eval_error CXPR_ERR_TYPE_MISMATCH message cs else k)"

definition cxpr_struct_get_field :: "(nat \<Rightarrow> bool) \<Rightarrow> cxpr_struct_value option \<Rightarrow> string \<Rightarrow> cxpr_value option" where
  "cxpr_struct_get_field mem s field =
     (case s of None \<Rightarrow> None | Some fs \<Rightarrow> map_option (cxpr_value_clone mem) (map_of fs field))"

text \<open>The outcome of a value operator.\<close>

fun lift_op :: "cxpr_value op_result \<Rightarrow> 'f list \<Rightarrow> 'f ev" where
  "lift_op (Handled v) cs = (v, cs, Ok)"
| "lift_op (Failed code message) cs = cxpr_eval_error code message cs"
| "lift_op NotHandled cs = eval_stuck cs"
| "lift_op Undefined cs = eval_stuck cs"

definition cxpr_eval_unknown_function_message :: "string \<Rightarrow> string" where
  "cxpr_eval_unknown_function_message = unknown_name_message ''Unknown function''"

definition cxpr_eval_unknown_identifier_message :: "string \<Rightarrow> string" where
  "cxpr_eval_unknown_identifier_message = unknown_name_message ''Unknown identifier''"

definition cxpr_eval_unknown_parameter_message :: "string \<Rightarrow> string" where
  "cxpr_eval_unknown_parameter_message name =
     (if name = [] then ''Unknown parameter variable''
      else take 255 (''Unknown parameter variable '' @ quoted (CHR ''$'' # name)))"

definition cxpr_eval_unknown_field_message :: "string \<Rightarrow> string" where
  "cxpr_eval_unknown_field_message = unknown_name_message ''Unknown field access''"

section \<open>Operators on values (tree.c)\<close>

text \<open>\<open>None\<close> is the failing return; \<open>Some None\<close> a comparison of NULL strings.\<close>

definition cxpr_eval_values_equal :: "cxpr_value \<Rightarrow> cxpr_value \<Rightarrow> bool option option" where
  "cxpr_eval_values_equal l r =
     (if value_type l \<noteq> value_type r then None
      else case l of
          cxpr_num a \<Rightarrow> Some (Some (case r of cxpr_num b \<Rightarrow> dbl_eq a b | _ \<Rightarrow> False))
        | cxpr_string a \<Rightarrow>
            Some (case r of cxpr_string b \<Rightarrow> if a = None \<or> b = None then None else Some (a = b) | _ \<Rightarrow> None)
        | cxpr_struct _ \<Rightarrow> None
        | cxpr_array _ \<Rightarrow> None
        | _ \<Rightarrow> Some (Some (l = r)))"

fun cxpr_tok_to_arith_valop :: "cxpr_token_type \<Rightarrow> cxpr_valop option" where
  "cxpr_tok_to_arith_valop CXPR_TOK_PLUS = Some CXPR_VALOP_ADD"
| "cxpr_tok_to_arith_valop CXPR_TOK_MINUS = Some CXPR_VALOP_SUB"
| "cxpr_tok_to_arith_valop CXPR_TOK_STAR = Some CXPR_VALOP_MUL"
| "cxpr_tok_to_arith_valop CXPR_TOK_SLASH = Some CXPR_VALOP_DIV"
| "cxpr_tok_to_arith_valop _ = None"

text \<open>A value operator whose refusal is a type error.\<close>

definition or_type_error :: "cxpr_value op_result \<Rightarrow> string \<Rightarrow> cxpr_value op_result" where
  "or_type_error r message = (case r of NotHandled \<Rightarrow> Failed CXPR_ERR_TYPE_MISMATCH message | _ \<Rightarrow> r)"

definition cxpr_eval_arithmetic_op :: "(nat \<Rightarrow> bool) \<Rightarrow> (double \<Rightarrow> double \<Rightarrow> double) \<Rightarrow> cxpr_token_type
    \<Rightarrow> cxpr_value \<Rightarrow> cxpr_value \<Rightarrow> cxpr_value op_result" where
  "cxpr_eval_arithmetic_op mem pow op l r =
     (case (l, r) of
        (cxpr_num a, cxpr_num b) \<Rightarrow>
          if (op = CXPR_TOK_SLASH \<or> op = CXPR_TOK_PERCENT) \<and> dbl_eq b dbl_zero
          then Failed CXPR_ERR_DIVISION_BY_ZERO (if op = CXPR_TOK_SLASH then ''Division by zero'' else ''Modulo by zero'')
          else Handled (cxpr_num
            (case op of
               CXPR_TOK_PLUS \<Rightarrow> dbl_add a b
             | CXPR_TOK_MINUS \<Rightarrow> dbl_sub a b
             | CXPR_TOK_STAR \<Rightarrow> dbl_mul a b
             | CXPR_TOK_SLASH \<Rightarrow> dbl_div a b
             | CXPR_TOK_PERCENT \<Rightarrow> dbl_fmod a b
             | _ \<Rightarrow> pow a b))
      | _ \<Rightarrow>
          or_type_error
            (case cxpr_tok_to_arith_valop op of None \<Rightarrow> NotHandled | Some vop \<Rightarrow> cxpr_value_binary_op mem vop l r)
            ''Arithmetic requires double operands'')"

definition cxpr_eval_comparison_op :: "(nat \<Rightarrow> bool) \<Rightarrow> cxpr_token_type \<Rightarrow> cxpr_value \<Rightarrow> cxpr_value
    \<Rightarrow> cxpr_value op_result" where
  "cxpr_eval_comparison_op mem op l r =
     (case (l, r) of
        (cxpr_num a, cxpr_num b) \<Rightarrow>
          Handled (cxpr_bool
            (case op of
               CXPR_TOK_LT \<Rightarrow> dbl_lt a b
             | CXPR_TOK_LTE \<Rightarrow> dbl_le a b
             | CXPR_TOK_GT \<Rightarrow> dbl_lt b a
             | _ \<Rightarrow> dbl_le b a))
      | _ \<Rightarrow>
          or_type_error
            (cxpr_value_binary_op mem
              (case op of CXPR_TOK_LT \<Rightarrow> CXPR_VALOP_LT | CXPR_TOK_LTE \<Rightarrow> CXPR_VALOP_LTE
                 | CXPR_TOK_GT \<Rightarrow> CXPR_VALOP_GT | _ \<Rightarrow> CXPR_VALOP_GTE) l r)
            ''Comparison requires double operands'')"

definition cxpr_eval_equality_op :: "cxpr_token_type \<Rightarrow> cxpr_value \<Rightarrow> cxpr_value \<Rightarrow> cxpr_value op_result" where
  "cxpr_eval_equality_op op l r =
     (case cxpr_eval_values_equal l r of
        None \<Rightarrow> Failed CXPR_ERR_TYPE_MISMATCH ''Equality requires matching scalar types''
      | Some None \<Rightarrow> Undefined
      | Some (Some equal) \<Rightarrow> Handled (cxpr_bool (if op = CXPR_TOK_EQ then equal else \<not> equal)))"

definition cxpr_eval_binary_values :: "(nat \<Rightarrow> bool) \<Rightarrow> (double \<Rightarrow> double \<Rightarrow> double) \<Rightarrow> cxpr_token_type
    \<Rightarrow> cxpr_value \<Rightarrow> cxpr_value \<Rightarrow> cxpr_value op_result" where
  "cxpr_eval_binary_values mem pow op l r =
     (if op \<in> set arith_tokens then cxpr_eval_arithmetic_op mem pow op l r
      else if op \<in> set order_tokens then cxpr_eval_comparison_op mem op l r
      else if op \<in> {CXPR_TOK_EQ, CXPR_TOK_NEQ} then cxpr_eval_equality_op op l r
      else Failed CXPR_ERR_SYNTAX ''Unknown binary operator'')"

definition unary_value :: "cxpr_token_type \<Rightarrow> cxpr_value \<Rightarrow> cxpr_value op_result" where
  "unary_value op v =
     (case op of
        CXPR_TOK_MINUS \<Rightarrow>
          (case v of
             cxpr_int64 i \<Rightarrow>
               if i = - 9223372036854775808 then Failed CXPR_ERR_TYPE_MISMATCH ''int64 negation overflow''
               else Handled (cxpr_int64 (- i))
           | cxpr_num d \<Rightarrow> Handled (cxpr_num (dbl_neg d))
           | _ \<Rightarrow> Failed CXPR_ERR_TYPE_MISMATCH ''Unary minus requires double'')
      | CXPR_TOK_NOT \<Rightarrow>
          (case v of
             cxpr_bool b \<Rightarrow> Handled (cxpr_bool (\<not> b))
           | _ \<Rightarrow> Failed CXPR_ERR_TYPE_MISMATCH ''Logical not requires bool'')
      | _ \<Rightarrow> Failed CXPR_ERR_SYNTAX ''Unknown unary operator'')"

definition cxpr_eval_binary_op :: "'f eval_env \<Rightarrow> 'f evaluator \<Rightarrow> cxpr_token_type \<Rightarrow> cxpr_expr_ast \<Rightarrow> cxpr_expr_ast
    \<Rightarrow> 'f list \<Rightarrow> eval_err \<Rightarrow> 'f ev" where
  "cxpr_eval_binary_op env ev op l r cs e =
     eval_then (ev l cs e) (\<lambda>left cs1.
       if op = CXPR_TOK_AND \<or> op = CXPR_TOK_OR then
         cxpr_require_type left CXPR_VALUE_BOOL ''Logical operators require bool'' cs1
           (if left = cxpr_bool (op = CXPR_TOK_OR) then (left, cs1, Ok)
            else eval_then (ev r cs1 Ok) (\<lambda>right cs2.
              cxpr_require_type right CXPR_VALUE_BOOL ''Logical operators require bool'' cs2 (right, cs2, Ok)))
       else eval_then (ev r cs1 Ok) (\<lambda>right cs2.
         lift_op (cxpr_eval_binary_values (ev_mem env) (ev_pow env) op left right) cs2))"

definition cxpr_eval_unary_op :: "'f evaluator \<Rightarrow> cxpr_token_type \<Rightarrow> cxpr_expr_ast \<Rightarrow> 'f list \<Rightarrow> eval_err \<Rightarrow> 'f ev" where
  "cxpr_eval_unary_op ev op a cs e = eval_then (ev a cs e) (\<lambda>v cs1. lift_op (unary_value op v) cs1)"

definition cxpr_eval_ternary_op :: "'f evaluator \<Rightarrow> cxpr_expr_ast \<Rightarrow> cxpr_expr_ast \<Rightarrow> cxpr_expr_ast \<Rightarrow> 'f list
    \<Rightarrow> eval_err \<Rightarrow> 'f ev" where
  "cxpr_eval_ternary_op ev c a b cs e =
     eval_then (ev c cs e) (\<lambda>v cs1.
       cxpr_require_type v CXPR_VALUE_BOOL ''Ternary condition must be bool'' cs1
         (ev (if v = cxpr_bool True then a else b) cs1 Ok))"

section \<open>Constants and producer keys (constants.c)\<close>

text \<open>The two folders differ in whether a parameter counts as a constant; \<open>param\<close> looks one up.\<close>

definition constant_binary :: "(double \<Rightarrow> double \<Rightarrow> double) \<Rightarrow> cxpr_token_type \<Rightarrow> double \<Rightarrow> double \<Rightarrow> double option" where
  "constant_binary pow op a b =
     (case op of
        CXPR_TOK_PLUS \<Rightarrow> Some (dbl_add a b)
      | CXPR_TOK_MINUS \<Rightarrow> Some (dbl_sub a b)
      | CXPR_TOK_STAR \<Rightarrow> Some (dbl_mul a b)
      | CXPR_TOK_SLASH \<Rightarrow> if dbl_eq b dbl_zero then None else Some (dbl_div a b)
      | CXPR_TOK_PERCENT \<Rightarrow> if dbl_eq b dbl_zero then None else Some (dbl_fmod a b)
      | CXPR_TOK_POWER \<Rightarrow> Some (pow a b)
      | _ \<Rightarrow> None)"

fun cxpr_eval_constant_double :: "(double \<Rightarrow> double \<Rightarrow> double) \<Rightarrow> cxpr_expr_ast \<Rightarrow> double option" where
  "cxpr_eval_constant_double pow (Ast sp d) =
     (case d of
        CXPR_NODE_NUMBER v \<Rightarrow> Some v
      | CXPR_NODE_UNARY_OP op a \<Rightarrow>
          if op \<noteq> CXPR_TOK_MINUS then None else map_option dbl_neg (cxpr_eval_constant_double pow a)
      | CXPR_NODE_BINARY_OP op a b \<Rightarrow>
          do { x \<leftarrow> cxpr_eval_constant_double pow a; y \<leftarrow> cxpr_eval_constant_double pow b;
               constant_binary pow op x y }
      | CXPR_NODE_TERNARY c a b \<Rightarrow>
          do { x \<leftarrow> cxpr_eval_constant_double pow c;
               (if \<not> dbl_eq x dbl_zero then cxpr_eval_constant_double pow a else cxpr_eval_constant_double pow b) }
      | _ \<Rightarrow> None)"

fun cxpr_eval_const_or_param_double :: "'f eval_env \<Rightarrow> cxpr_expr_ast \<Rightarrow> 'f list \<Rightarrow> double option \<times> 'f list" where
  "cxpr_eval_const_or_param_double env (Ast sp d) cs =
     (case d of
        CXPR_NODE_VARIABLE name \<Rightarrow> ev_get_param env name cs
      | CXPR_NODE_NUMBER v \<Rightarrow> (Some v, cs)
      | CXPR_NODE_UNARY_OP op a \<Rightarrow>
          if op \<noteq> CXPR_TOK_MINUS then (None, cs)
          else (case cxpr_eval_const_or_param_double env a cs of (x, cs1) \<Rightarrow> (map_option dbl_neg x, cs1))
      | CXPR_NODE_BINARY_OP op a b \<Rightarrow>
          (case cxpr_eval_const_or_param_double env a cs of
             (None, cs1) \<Rightarrow> (None, cs1)
           | (Some x, cs1) \<Rightarrow>
               (case cxpr_eval_const_or_param_double env b cs1 of
                  (None, cs2) \<Rightarrow> (None, cs2)
                | (Some y, cs2) \<Rightarrow> (constant_binary (ev_pow env) op x y, cs2)))
      | CXPR_NODE_TERNARY c a b \<Rightarrow>
          (case cxpr_eval_const_or_param_double env c cs of
             (None, cs1) \<Rightarrow> (None, cs1)
           | (Some x, cs1) \<Rightarrow>
               if \<not> dbl_eq x dbl_zero then cxpr_eval_const_or_param_double env a cs1
               else cxpr_eval_const_or_param_double env b cs1)
      | _ \<Rightarrow> (None, cs))"

declare cxpr_eval_constant_double.simps [simp del] cxpr_eval_const_or_param_double.simps [simp del]

text \<open>The loop that stops at the first argument that is no constant.\<close>

fun const_or_params :: "'f eval_env \<Rightarrow> cxpr_expr_ast list \<Rightarrow> 'f list \<Rightarrow> double list option \<times> 'f list" where
  "const_or_params env [] cs = (Some [], cs)"
| "const_or_params env (a # args) cs =
     (case cxpr_eval_const_or_param_double env a cs of
        (None, cs1) \<Rightarrow> (None, cs1)
      | (Some x, cs1) \<Rightarrow>
          (case const_or_params env args cs1 of (xs, cs2) \<Rightarrow> (map_option (\<lambda>ys. x # ys) xs, cs2)))"

definition cxpr_build_struct_cache_key :: "'f eval_env \<Rightarrow> string \<Rightarrow> double list \<Rightarrow> string option" where
  "cxpr_build_struct_cache_key env name args =
     (let len = length name + 4 + length args * 32 in
      if args = [] then Some name
      else if 256 < len \<and> \<not> ev_mem env len then None
      else Some (name @ ''('' @ ev_hexfloat env (hd args) @ concat (map (\<lambda>x. CHR '','' # ev_hexfloat env x) (tl args)) @ '')''))"

text \<open>The key kept in the node: the heap buffer itself, or a copy of the local one.\<close>

definition stored_key :: "'f eval_env \<Rightarrow> string \<Rightarrow> double list \<Rightarrow> string option" where
  "stored_key env name values =
     (case cxpr_build_struct_cache_key env name values of
        None \<Rightarrow> None
      | Some k \<Rightarrow>
          if values \<noteq> [] \<and> 256 < length name + 4 + length values * 32 then Some k
          else cxpr_strdup (ev_mem env) k)"

definition cxpr_eval_prepare_const_key_for_call :: "'f eval_env \<Rightarrow> string \<Rightarrow> cxpr_expr_ast list
    \<Rightarrow> string option list \<Rightarrow> string option" where
  "cxpr_eval_prepare_const_key_for_call env name args arg_names =
     (if cxpr_expr_ast_named_args_present arg_names \<or> CXPR_MAX_CALL_ARGS < length args then None
      else case those (map (cxpr_eval_constant_double (ev_pow env)) args) of
          None \<Rightarrow> None
        | Some values \<Rightarrow> stored_key env name values)"

text \<open>A scalar argument: the number, read only where the error object is clear.\<close>

definition cxpr_eval_scalar_arg :: "'f evaluator \<Rightarrow> cxpr_expr_ast \<Rightarrow> 'f list \<Rightarrow> eval_err \<Rightarrow> double \<times> 'f list \<times> eval_err" where
  "cxpr_eval_scalar_arg ev a cs e =
     (case ev a cs e of
        (v, cs1, Ok) \<Rightarrow>
          (case v of
             cxpr_num d \<Rightarrow> (d, cs1, Ok)
           | _ \<Rightarrow> (DNaN, cs1, Err CXPR_ERR_TYPE_MISMATCH ''Expected double argument''))
      | (v, cs1, e1) \<Rightarrow> (DNaN, cs1, e1))"

text \<open>The loop of \<open>cxpr_eval_scalar_arg\<close> that stops at an error, and, with \<open>fin\<close>, at a number that is not
  finite.\<close>

fun scalar_args :: "bool \<Rightarrow> 'f evaluator \<Rightarrow> cxpr_expr_ast list \<Rightarrow> 'f list \<Rightarrow> eval_err
    \<Rightarrow> double list option \<times> 'f list \<times> eval_err" where
  "scalar_args fin ev [] cs e = (Some [], cs, e)"
| "scalar_args fin ev (a # args) cs e =
     (case cxpr_eval_scalar_arg ev a cs e of
        (d, cs1, e1) \<Rightarrow>
          if e1 \<noteq> Ok \<or> fin \<and> \<not> isfinite d then (None, cs1, e1)
          else (case scalar_args fin ev args cs1 e1 of
              (ds, cs2, e2) \<Rightarrow> (map_option (\<lambda>xs. d # xs) ds, cs2, e2)))"

definition cxpr_eval_prepare_const_key_for_producer :: "'f eval_env \<Rightarrow> 'f evaluator \<Rightarrow> string \<Rightarrow> cxpr_expr_ast list
    \<Rightarrow> string option list \<Rightarrow> cxpr_expr_ast list \<Rightarrow> 'f list \<Rightarrow> eval_err \<Rightarrow> string option \<times> 'f list \<times> eval_err" where
  "cxpr_eval_prepare_const_key_for_producer env ev name args arg_names ordered cs e =
     (let consts = (if cxpr_expr_ast_named_args_present arg_names then None
                    else those (map (cxpr_eval_constant_double (ev_pow env)) args)) in
      if CXPR_MAX_CALL_ARGS < length args then (None, cs, e)
      else case consts of
          Some values \<Rightarrow> (stored_key env name values, cs, e)
        | None \<Rightarrow>
            (case const_or_params env ordered cs of
               (params, cs1) \<Rightarrow>
                 (case (if ordered = [] then None else params) of
                    Some values \<Rightarrow> (cxpr_build_struct_cache_key env name values, cs1, e)
                  | None \<Rightarrow>
                      if ev_reg env = None then (None, cs1, e)
                      else (case scalar_args True ev ordered cs1 e of
                          (None, cs2, e2) \<Rightarrow> (None, cs2, e2)
                        | (Some values, cs2, e2) \<Rightarrow> (cxpr_build_struct_cache_key env name values, cs2, e2)))))"

section \<open>Producers (cache.c, calls.c, calls/producer.c)\<close>

definition CXPR_MAX_PRODUCER_FIELDS :: nat where "CXPR_MAX_PRODUCER_FIELDS = 64"

text \<open>\<open>None\<close> is the NULL result.\<close>

definition cxpr_eval_struct_result :: "'f eval_env \<Rightarrow> 'f evaluator \<Rightarrow> cxpr_func_entry \<Rightarrow> string \<Rightarrow> cxpr_expr_ast list
    \<Rightarrow> string option \<Rightarrow> 'f list \<Rightarrow> eval_err \<Rightarrow> cxpr_struct_value option \<times> 'f list \<times> eval_err" where
  "cxpr_eval_struct_result env ev entry name args key_hint cs e =
     (let argc = length args; names = (case fe_struct_fields entry of None \<Rightarrow> [] | Some fs \<Rightarrow> fs) in
      if \<not> fe_struct_producer entry
      then (None, cs, Err CXPR_ERR_UNKNOWN_FUNCTION (cxpr_eval_unknown_function_message name))
      else if argc < fe_min_args entry \<or> fe_max_args entry < argc
      then (None, cs, Err CXPR_ERR_WRONG_ARITY ''Wrong number of arguments'')
      else if CXPR_MAX_CALL_ARGS < argc \<or> CXPR_MAX_PRODUCER_FIELDS < length names
      then (None, cs, Err CXPR_ERR_SYNTAX ''Producer arity too large'')
      else (case scalar_args False ev args cs e of
          (None, cs1, e1) \<Rightarrow> (None, cs1, e1)
        | (Some values, cs1, e1) \<Rightarrow>
            (case (if key_hint = None then cxpr_build_struct_cache_key env name values else key_hint) of
               None \<Rightarrow> (None, cs1, Err CXPR_ERR_OUT_OF_MEMORY ''Out of memory'')
             | Some k \<Rightarrow>
                 (case ev_get_cached_struct env k cs1 of
                    Some s \<Rightarrow> (Some s, cs1, e1)
                  | None \<Rightarrow>
                      (case cxpr_struct_value_new (ev_mem env) (zip names (ev_struct_producer env entry values)) of
                         None \<Rightarrow> (None, cs1, Err CXPR_ERR_OUT_OF_MEMORY ''Out of memory'')
                       | Some produced \<Rightarrow>
                           let cs2 = ev_set_cached_struct env k produced cs1 in
                           (ev_get_cached_struct env k cs2, cs2, e1))))))"

definition cxpr_eval_struct_producer :: "'f eval_env \<Rightarrow> 'f evaluator \<Rightarrow> cxpr_func_entry \<Rightarrow> string \<Rightarrow> string
    \<Rightarrow> cxpr_expr_ast list \<Rightarrow> 'f list \<Rightarrow> eval_err \<Rightarrow> 'f ev" where
  "cxpr_eval_struct_producer env ev entry name field args cs e =
     (if \<not> fe_struct_producer entry then cxpr_eval_error CXPR_ERR_UNKNOWN_IDENTIFIER ''Unknown field access'' cs
      else case cxpr_eval_struct_result env ev entry name args None cs e of
          (produced, cs1, e1) \<Rightarrow>
            if e1 \<noteq> Ok then (cxpr_num DNaN, cs1, e1)
            else (case cxpr_struct_get_field (ev_mem env) produced field of
                None \<Rightarrow> cxpr_eval_error CXPR_ERR_UNKNOWN_IDENTIFIER ''Unknown field access'' cs1
              | Some v \<Rightarrow> (v, cs1, e1)))"

text \<open>Setting a parameter of a defined function in its overlay.\<close>

definition bind_value :: "'f eval_env \<Rightarrow> string \<Rightarrow> cxpr_value \<Rightarrow> 'f \<Rightarrow> 'f" where
  "bind_value env p v tmp = (case v of cxpr_num d \<Rightarrow> ev_set env p d tmp | _ \<Rightarrow> ev_set_value env p v tmp)"

fun bind_params :: "'f eval_env \<Rightarrow> 'f evaluator \<Rightarrow> (string \<times> cxpr_expr_ast) list \<Rightarrow> 'f \<Rightarrow> 'f list \<Rightarrow> eval_err
    \<Rightarrow> 'f option \<times> 'f list \<times> eval_err" where
  "bind_params env ev [] tmp cs e = (Some tmp, cs, e)"
| "bind_params env ev ((p, a) # rest) tmp cs e =
     (case ev a cs e of
        (v, cs1, Ok) \<Rightarrow> bind_params env ev rest (bind_value env p v tmp) cs1 Ok
      | (v, cs1, e1) \<Rightarrow> (None, ev_overlay_free env tmp cs1, e1))"

text \<open>A body evaluated in its overlay, which is then freed.\<close>

definition in_overlay :: "'f eval_env \<Rightarrow> 'f evaluator \<Rightarrow> cxpr_expr_ast \<Rightarrow> 'f \<Rightarrow> 'f list \<Rightarrow> eval_err \<Rightarrow> 'f ev" where
  "in_overlay env ev body tmp cs e =
     (case ev body (tmp # cs) e of (v, fs, e1) \<Rightarrow> (v, ev_overlay_free env (hd fs) (tl fs), e1))"

fun eval_fields :: "'f evaluator \<Rightarrow> (string \<times> cxpr_expr_ast) list \<Rightarrow> 'f list \<Rightarrow> eval_err
    \<Rightarrow> cxpr_struct_value option \<times> 'f list \<times> eval_err" where
  "eval_fields ev [] fs e = (Some [], fs, e)"
| "eval_fields ev ((n, body) # rest) fs e =
     (case ev body fs e of
        (v, fs1, Ok) \<Rightarrow>
          (case eval_fields ev rest fs1 Ok of (vs, fs2, e2) \<Rightarrow> (map_option (\<lambda>xs. (n, v) # xs) vs, fs2, e2))
      | (v, fs1, e1) \<Rightarrow> (None, fs1, e1))"

text \<open>The record a function with return fields yields; \<open>None\<close> where the C code returns early.\<close>

definition defined_record :: "'f eval_env \<Rightarrow> 'f evaluator \<Rightarrow> cxpr_func_entry \<Rightarrow> cxpr_expr_ast list \<Rightarrow> 'f list
    \<Rightarrow> eval_err \<Rightarrow> cxpr_struct_value option \<times> 'f list \<times> eval_err" where
  "defined_record env ev entry ordered cs e =
     (let oom = Err CXPR_ERR_OUT_OF_MEMORY ''Out of memory'' in
      case ev_overlay_new env cs of
        None \<Rightarrow> (None, cs, oom)
      | Some (tmp, cs0) \<Rightarrow>
          (case bind_params env ev (zip (fe_defined_param_names entry) ordered) tmp cs0 e of
             (None, cs1, e1) \<Rightarrow> (None, cs1, e1)
           | (Some tmp1, cs1, e1) \<Rightarrow>
               if \<not> ev_mem env (fe_defined_return_field_count entry * sizeof_value)
               then (None, ev_overlay_free env tmp1 cs1, oom)
               else (case eval_fields ev (fe_defined_return_fields entry) (tmp1 # cs1) e1 of
                   (vs, fs, e2) \<Rightarrow>
                     let cs2 = ev_overlay_free env (hd fs) (tl fs) in
                     (case vs of
                        None \<Rightarrow> (None, cs2, e2)
                      | Some fvs \<Rightarrow>
                          (case cxpr_struct_value_new (ev_mem env) fvs of
                             None \<Rightarrow> (None, cs2, oom)
                           | Some record \<Rightarrow> (Some record, cs2, e2))))))"

definition cxpr_eval_bind_call_args :: "cxpr_func_entry \<Rightarrow> cxpr_expr_ast list \<Rightarrow> string option list \<Rightarrow> 'f list
    \<Rightarrow> (cxpr_expr_ast list \<Rightarrow> 'f ev) \<Rightarrow> 'f ev" where
  "cxpr_eval_bind_call_args entry args arg_names cs k =
     (case cxpr_call_bind_args entry args arg_names of
        Bound ordered \<Rightarrow> k ordered
      | Bind_error code message \<Rightarrow> cxpr_eval_error code message cs
      | Bind_overrun \<Rightarrow> eval_stuck cs)"

definition cxpr_eval_cached_producer_access :: "'f eval_env \<Rightarrow> 'f evaluator \<Rightarrow> cxpr_expr_ast \<Rightarrow> string \<Rightarrow> cxpr_expr_ast list
    \<Rightarrow> string option list \<Rightarrow> string \<Rightarrow> 'f list \<Rightarrow> eval_err \<Rightarrow> 'f ev" where
  "cxpr_eval_cached_producer_access env ev ast name args arg_names field cs e =
     (case cxpr_registry_find (ev_reg env) name of
        None \<Rightarrow> cxpr_eval_error CXPR_ERR_UNKNOWN_FUNCTION (cxpr_eval_unknown_function_message name) cs
      | Some entry \<Rightarrow>
          if \<not> fe_struct_producer entry \<and> \<not> fe_model_producer entry \<and> fe_defined_return_field_count entry = 0
          then cxpr_eval_error CXPR_ERR_UNKNOWN_FUNCTION (cxpr_eval_unknown_function_message name) cs
          else cxpr_eval_bind_call_args entry args arg_names cs (\<lambda>ordered.
            if fe_model_producer entry then ev_model_producer env entry ast cs e
            else if 0 < fe_defined_return_field_count entry then
              (case defined_record env ev entry ordered cs e of
                 (None, cs1, e1) \<Rightarrow> (cxpr_num DNaN, cs1, e1)
               | (Some record, cs1, e1) \<Rightarrow>
                   (case cxpr_struct_get_field (ev_mem env) (Some record) field of
                      None \<Rightarrow> cxpr_eval_error CXPR_ERR_UNKNOWN_IDENTIFIER ''Unknown field access'' cs1
                    | Some v \<Rightarrow> (cxpr_value_clone (ev_mem env) v, cs1, e1)))
            else
              (case cxpr_eval_prepare_const_key_for_producer env ev name args arg_names ordered cs e of
                 (const_key, cs1, e1) \<Rightarrow>
                   (case (case Option.bind const_key (\<lambda>k. ev_get_cached_struct env k cs1) of
                            Some s \<Rightarrow> (Some s, cs1, e1)
                          | None \<Rightarrow> cxpr_eval_struct_result env ev entry name ordered const_key cs1 e1) of
                      (produced, cs2, e2) \<Rightarrow>
                        if e2 \<noteq> Ok then (cxpr_num DNaN, cs2, e2)
                        else (case produced of
                            None \<Rightarrow> eval_stuck cs2
                          | Some s \<Rightarrow>
                              (case cxpr_struct_get_field (ev_mem env) (Some s) field of
                                 None \<Rightarrow> cxpr_eval_error CXPR_ERR_UNKNOWN_IDENTIFIER ''Unknown field access'' cs2
                               | Some v \<Rightarrow> (v, cs2, e2)))))))"

section \<open>Defined functions (calls.c)\<close>

definition cxpr_eval_wrap_defined_function_error :: "cxpr_func_entry \<Rightarrow> 'f ev \<Rightarrow> 'f ev" where
  "cxpr_eval_wrap_defined_function_error entry r =
     (case r of
        (v, cs, Err code message) \<Rightarrow>
          (v, cs, Err code (take 1023 (''Function '' @ quoted (fe_name entry) @ '' eval failed: '' @ take 511 message)))
      | _ \<Rightarrow> r)"

definition cxpr_eval_defined_arg_for_name :: "cxpr_func_entry \<Rightarrow> cxpr_expr_ast list \<Rightarrow> string \<Rightarrow> cxpr_expr_ast option" where
  "cxpr_eval_defined_arg_for_name entry ordered name = map_of (zip (fe_defined_param_names entry) ordered) name"

text \<open>\<open>ctx\<close> is consulted for the struct, then for the number under the flat key.\<close>

definition cxpr_eval_defined_overlay_direct_field :: "'f eval_env \<Rightarrow> cxpr_func_entry \<Rightarrow> cxpr_expr_ast list \<Rightarrow> 'f list
    \<Rightarrow> cxpr_value option \<times> 'f list" where
  "cxpr_eval_defined_overlay_direct_field env entry ordered cs =
     (case Option.bind (fe_defined_body entry) direct_field_body of
        None \<Rightarrow> (None, cs)
      | Some (body_param, body_field) \<Rightarrow>
          (case cxpr_eval_defined_arg_for_name entry ordered body_param of
             Some (Ast _ (CXPR_NODE_IDENTIFIER arg)) \<Rightarrow>
               (let s = (case ev_get_struct env arg cs of None \<Rightarrow> ev_get_cached_struct env arg cs | Some s \<Rightarrow> Some s);
                    k = cxpr_expr_ast_join_with_dot arg body_field in
                case cxpr_struct_get_field (ev_mem env) s body_field of
                  Some v \<Rightarrow> (Some v, cs)
                | None \<Rightarrow>
                    if 256 \<le> length k then (None, cs)
                    else (case ev_get env k cs of (d, cs1) \<Rightarrow> (map_option cxpr_num d, cs1)))
           | _ \<Rightarrow> (None, cs)))"

definition cxpr_eval_defined_call_can_inline_struct_args :: "'f eval_env \<Rightarrow> cxpr_func_entry \<Rightarrow> cxpr_expr_ast list
    \<Rightarrow> 'f list \<Rightarrow> bool" where
  "cxpr_eval_defined_call_can_inline_struct_args env entry ordered cs \<longleftrightarrow>
     fe_defined_body entry \<noteq> None \<and> fe_defined_return_field_count entry = 0 \<and>
     list_all (\<lambda>(fs, arg). fs = [] \<or>
         (case ast_data arg of
            CXPR_NODE_IDENTIFIER name \<Rightarrow> ev_get_struct env name cs \<noteq> None \<or> ev_get_cached_struct env name cs \<noteq> None
          | _ \<Rightarrow> False))
       (zip (fe_defined_param_fields entry) ordered)"

definition cxpr_eval_defined_inline_arg_is_stable :: "cxpr_expr_ast \<Rightarrow> bool" where
  "cxpr_eval_defined_inline_arg_is_stable ast =
     (case ast_data ast of
        CXPR_NODE_IDENTIFIER _ \<Rightarrow> True
      | CXPR_NODE_VARIABLE _ \<Rightarrow> True
      | CXPR_NODE_NUMBER _ \<Rightarrow> True
      | CXPR_NODE_BOOL _ \<Rightarrow> True
      | CXPR_NODE_STRING _ \<Rightarrow> True
      | _ \<Rightarrow> False)"

definition cxpr_eval_defined_call_can_inline_value_args :: "cxpr_func_entry \<Rightarrow> cxpr_expr_ast list \<Rightarrow> bool" where
  "cxpr_eval_defined_call_can_inline_value_args entry ordered \<longleftrightarrow>
     fe_defined_body entry \<noteq> None \<and> fe_defined_return_field_count entry = 0 \<and>
     list_all (\<lambda>fs. fs = []) (fe_defined_param_fields entry) \<and> list_all cxpr_eval_defined_inline_arg_is_stable ordered"

definition cxpr_eval_clone_chain_with_replaced_root :: "string list \<Rightarrow> cxpr_expr_ast \<Rightarrow> cxpr_expr_ast option" where
  "cxpr_eval_clone_chain_with_replaced_root path root_arg =
     (case ast_data root_arg of
        CXPR_NODE_IDENTIFIER name \<Rightarrow> cxpr_expr_ast_new_chain_access (name # tl path)
      | _ \<Rightarrow>
          if length path = 2
          then map_option (\<lambda>base. cxpr_expr_ast_field_expr_new base (path ! 1)) (cxpr_eval_clone_ast root_arg)
          else cxpr_eval_clone_ast (Ast None (CXPR_NODE_CHAIN_ACCESS path)))"

definition field_of_arg :: "cxpr_expr_ast \<Rightarrow> string \<Rightarrow> cxpr_expr_ast option" where
  "field_of_arg arg f =
     (case ast_data arg of
        CXPR_NODE_IDENTIFIER name \<Rightarrow> Some (cxpr_expr_ast_field_new name f)
      | _ \<Rightarrow> map_option (\<lambda>base. cxpr_expr_ast_field_expr_new base f) (cxpr_eval_clone_ast arg))"

text \<open>\<open>bnd\<close> gives the argument of a parameter name.\<close>

fun substitute_args :: "(string \<Rightarrow> cxpr_expr_ast option) \<Rightarrow> cxpr_expr_ast \<Rightarrow> cxpr_expr_ast option" where
  "substitute_args bnd (Ast sp d) =
     (case d of
        CXPR_NODE_IDENTIFIER name \<Rightarrow>
          cxpr_eval_clone_ast (case bnd name of None \<Rightarrow> Ast sp d | Some arg \<Rightarrow> arg)
      | CXPR_NODE_FIELD_ACCESS ob f \<Rightarrow>
          (case bnd ob of
             None \<Rightarrow> cxpr_eval_clone_ast (Ast sp d)
           | Some arg \<Rightarrow> field_of_arg arg f)
      | CXPR_NODE_CHAIN_ACCESS path \<Rightarrow>
          (case bnd (hd path) of
             None \<Rightarrow> cxpr_eval_clone_ast (Ast sp d)
           | Some arg \<Rightarrow> cxpr_eval_clone_chain_with_replaced_root path arg)
      | CXPR_NODE_FIELD_EXPR b f \<Rightarrow>
          map_option (\<lambda>base. cxpr_expr_ast_field_expr_new base f) (substitute_args bnd b)
      | CXPR_NODE_ARRAY es \<Rightarrow> map_option cxpr_expr_ast_array_new (those (map (substitute_args bnd) es))
      | CXPR_NODE_RECORD ns vs \<Rightarrow> map_option (cxpr_expr_ast_record_new ns) (those (map (substitute_args bnd) vs))
      | CXPR_NODE_UNARY_OP op a \<Rightarrow> map_option (cxpr_expr_ast_unary_new op) (substitute_args bnd a)
      | CXPR_NODE_BINARY_OP op a b \<Rightarrow>
          do { a' \<leftarrow> substitute_args bnd a; b' \<leftarrow> substitute_args bnd b; Some (cxpr_expr_ast_binary_new op a' b') }
      | CXPR_NODE_FUNCTION_CALL name args names \<Rightarrow>
          map_option (\<lambda>args'. cxpr_expr_ast_call_named_new name args' names) (those (map (substitute_args bnd) args))
      | CXPR_NODE_PRODUCER_ACCESS name args names f \<Rightarrow>
          map_option (\<lambda>args'. cxpr_expr_ast_producer_field_named_new name args' names f)
            (those (map (substitute_args bnd) args))
      | CXPR_NODE_INDEX a b \<Rightarrow>
          do { a' \<leftarrow> substitute_args bnd a; b' \<leftarrow> substitute_args bnd b; Some (cxpr_expr_ast_index_new a' b') }
      | CXPR_NODE_TERNARY a b c \<Rightarrow>
          do { a' \<leftarrow> substitute_args bnd a; b' \<leftarrow> substitute_args bnd b; c' \<leftarrow> substitute_args bnd c;
               Some (cxpr_expr_ast_ternary_new a' b' c') }
      | _ \<Rightarrow> cxpr_eval_clone_ast (Ast sp d))"

declare substitute_args.simps [simp del]

definition cxpr_eval_substitute_defined_args :: "cxpr_func_entry \<Rightarrow> cxpr_expr_ast list \<Rightarrow> cxpr_expr_ast
    \<Rightarrow> cxpr_expr_ast option" where
  "cxpr_eval_substitute_defined_args entry ordered = substitute_args (cxpr_eval_defined_arg_for_name entry ordered)"

definition eval_inlined :: "'f evaluator \<Rightarrow> cxpr_func_entry \<Rightarrow> cxpr_expr_ast list \<Rightarrow> cxpr_expr_ast \<Rightarrow> 'f list \<Rightarrow> eval_err
    \<Rightarrow> 'f ev" where
  "eval_inlined ev entry ordered body cs e =
     (case cxpr_eval_substitute_defined_args entry ordered body of
        None \<Rightarrow> eval_oom cs
      | Some inlined \<Rightarrow> cxpr_eval_wrap_defined_function_error entry (ev inlined cs e))"

text \<open>One argument of the overlay evaluation: a struct, a number or the numbers under a prefix are
  taken over from the context, anything else is evaluated.\<close>

definition overlay_arg :: "'f eval_env \<Rightarrow> 'f evaluator \<Rightarrow> string \<Rightarrow> cxpr_expr_ast \<Rightarrow> 'f \<Rightarrow> 'f list \<Rightarrow> eval_err
    \<Rightarrow> 'f option \<times> 'f list \<times> eval_err" where
  "overlay_arg env ev p arg tmp cs e =
     (let evaluate = (\<lambda>tmp cs. bind_params env ev [(p, arg)] tmp cs e) in
      case ast_data arg of
        CXPR_NODE_IDENTIFIER name \<Rightarrow>
          (case (case ev_get_struct env name cs of None \<Rightarrow> ev_get_cached_struct env name cs | Some s \<Rightarrow> Some s) of
             Some s \<Rightarrow> (Some (ev_set_struct env p s tmp), cs, e)
           | None \<Rightarrow>
               (case ev_get env name cs of
                  (Some d, cs1) \<Rightarrow> (Some (ev_set env p d tmp), cs1, e)
                | (None, cs1) \<Rightarrow>
                    (case ev_copy_prefixed env name p cs1 tmp of
                       (True, tmp1) \<Rightarrow> (Some tmp1, cs1, e)
                     | (False, tmp1) \<Rightarrow> evaluate tmp1 cs1)))
      | _ \<Rightarrow> evaluate tmp cs)"

fun overlay_args :: "'f eval_env \<Rightarrow> 'f evaluator \<Rightarrow> (string \<times> cxpr_expr_ast) list \<Rightarrow> 'f \<Rightarrow> 'f list \<Rightarrow> eval_err
    \<Rightarrow> 'f option \<times> 'f list \<times> eval_err" where
  "overlay_args env ev [] tmp cs e = (Some tmp, cs, e)"
| "overlay_args env ev ((p, a) # rest) tmp cs e =
     (case overlay_arg env ev p a tmp cs e of
        (None, cs1, e1) \<Rightarrow> (None, cs1, e1)
      | (Some tmp1, cs1, e1) \<Rightarrow> overlay_args env ev rest tmp1 cs1 e1)"

definition cxpr_eval_defined_with_overlay :: "'f eval_env \<Rightarrow> 'f evaluator \<Rightarrow> cxpr_func_entry \<Rightarrow> cxpr_expr_ast
    \<Rightarrow> cxpr_expr_ast list \<Rightarrow> 'f list \<Rightarrow> eval_err \<Rightarrow> 'f ev" where
  "cxpr_eval_defined_with_overlay env ev entry body ordered cs e =
     (case cxpr_eval_defined_overlay_direct_field env entry ordered cs of
        (Some v, cs1) \<Rightarrow> (v, cs1, e)
      | (None, cs1) \<Rightarrow>
          (case ev_overlay_new env cs1 of
             None \<Rightarrow> eval_oom cs1
           | Some (tmp, cs2) \<Rightarrow>
               (case overlay_args env ev (zip (fe_defined_param_names entry) ordered) tmp cs2 e of
                  (None, cs3, e3) \<Rightarrow> (cxpr_num DNaN, cs3, e3)
                | (Some tmp1, cs3, e3) \<Rightarrow>
                    cxpr_eval_wrap_defined_function_error entry (in_overlay env ev body tmp1 cs3 e3))))"

text \<open>The number a field of a struct argument is set to; \<open>None\<close> is a missing field.\<close>

definition struct_field_number :: "'f eval_env \<Rightarrow> cxpr_struct_value option option \<Rightarrow> string \<Rightarrow> string \<Rightarrow> 'f list
    \<Rightarrow> cxpr_value option \<times> 'f list" where
  "struct_field_number env struct_arg arg f cs =
     (case struct_arg of
        Some s \<Rightarrow> (cxpr_struct_get_field (ev_mem env) s f, cs)
      | None \<Rightarrow>
          (case ev_get_field env arg f cs of
             (Some v, cs1) \<Rightarrow> (Some v, cs1)
           | (None, cs1) \<Rightarrow>
               (case ev_get env (take 255 (arg @ ''.'' @ f)) cs1 of
                  (Some d, cs2) \<Rightarrow> (Some (cxpr_num d), cs2)
                | (None, cs2) \<Rightarrow>
                    (case ev_get env (take 255 (arg @ ''_'' @ f)) cs2 of
                       (d, cs3) \<Rightarrow> (map_option cxpr_num d, cs3)))))"

fun struct_param_fields :: "'f eval_env \<Rightarrow> cxpr_struct_value option option \<Rightarrow> string \<Rightarrow> string \<Rightarrow> string list \<Rightarrow> 'f \<Rightarrow> 'f list
    \<Rightarrow> eval_err \<Rightarrow> 'f option \<times> 'f list \<times> eval_err" where
  "struct_param_fields env struct_arg arg p [] tmp cs e = (Some tmp, cs, e)"
| "struct_param_fields env struct_arg arg p (f # fs) tmp cs e =
     (case struct_field_number env struct_arg arg f cs of
        (None, cs1) \<Rightarrow>
          (None, ev_overlay_free env tmp cs1, Err CXPR_ERR_UNKNOWN_IDENTIFIER ''Unknown struct field'')
      | (Some (cxpr_num d), cs1) \<Rightarrow>
          struct_param_fields env struct_arg arg p fs (ev_set env (take 255 (p @ ''.'' @ f)) d tmp) cs1 e
      | (Some v, cs1) \<Rightarrow>
          (None, ev_overlay_free env tmp cs1,
           Err CXPR_ERR_TYPE_MISMATCH ''Struct function arguments must be scalar doubles''))"

text \<open>The loop over the parameters of which some have declared fields.\<close>

definition struct_param :: "'f eval_env \<Rightarrow> 'f evaluator \<Rightarrow> string \<Rightarrow> string list \<Rightarrow> cxpr_expr_ast \<Rightarrow> 'f \<Rightarrow> 'f list
    \<Rightarrow> eval_err \<Rightarrow> 'f option \<times> 'f list \<times> eval_err" where
  "struct_param env ev p fs arg tmp cs e =
     (if fs = [] then bind_params env ev [(p, arg)] tmp cs e
      else case ast_data arg of
          CXPR_NODE_IDENTIFIER name \<Rightarrow> struct_param_fields env None name p fs tmp cs e
        | _ \<Rightarrow>
            (case ev arg cs e of
               (v, cs1, Ok) \<Rightarrow>
                 (case v of
                    cxpr_struct s \<Rightarrow> struct_param_fields env (Some s) '''' p fs tmp cs1 Ok
                  | _ \<Rightarrow> (None, ev_overlay_free env tmp cs1,
                          Err CXPR_ERR_TYPE_MISMATCH ''Struct argument must be a struct''))
             | (v, cs1, e1) \<Rightarrow> (None, ev_overlay_free env tmp cs1, e1)))"

fun struct_params :: "'f eval_env \<Rightarrow> 'f evaluator \<Rightarrow> (string \<times> string list \<times> cxpr_expr_ast) list \<Rightarrow> 'f \<Rightarrow> 'f list
    \<Rightarrow> eval_err \<Rightarrow> 'f option \<times> 'f list \<times> eval_err" where
  "struct_params env ev [] tmp cs e = (Some tmp, cs, e)"
| "struct_params env ev ((p, fs, arg) # rest) tmp cs e =
     (case struct_param env ev p fs arg tmp cs e of
        (None, cs1, e1) \<Rightarrow> (None, cs1, e1)
      | (Some tmp1, cs1, e1) \<Rightarrow> struct_params env ev rest tmp1 cs1 e1)"

text \<open>Whether an identifier among the arguments names no number; the search stops there.\<close>

fun needs_passthrough :: "'f eval_env \<Rightarrow> cxpr_expr_ast list \<Rightarrow> 'f list \<Rightarrow> bool \<times> 'f list" where
  "needs_passthrough env [] cs = (False, cs)"
| "needs_passthrough env (a # args) cs =
     (case ast_data a of
        CXPR_NODE_IDENTIFIER name \<Rightarrow>
          (case ev_get env name cs of
             (None, cs1) \<Rightarrow> (True, cs1)
           | (Some _, cs1) \<Rightarrow> needs_passthrough env args cs1)
      | _ \<Rightarrow> needs_passthrough env args cs)"

text \<open>The code after the parameters were bound with \<open>scalar_only\<close> still true is not reachable: the
  branch before it either returned or cleared the flag. A NULL body is dereferenced only by
  \<open>cxpr_eval_node\<close>, which reports it.\<close>

definition cxpr_eval_defined_function :: "'f eval_env \<Rightarrow> 'f evaluator \<Rightarrow> cxpr_func_entry \<Rightarrow> cxpr_expr_ast list
    \<Rightarrow> string option list \<Rightarrow> 'f list \<Rightarrow> eval_err \<Rightarrow> 'f ev" where
  "cxpr_eval_defined_function env ev entry args arg_names cs e =
     (if length args \<noteq> length (fe_defined_param_names entry)
      then cxpr_eval_error CXPR_ERR_WRONG_ARITY ''Wrong number of arguments'' cs
      else cxpr_eval_bind_call_args entry args arg_names cs (\<lambda>ordered.
        if 0 < fe_defined_return_field_count entry then
          (case defined_record env ev entry ordered cs e of
             (None, cs1, e1) \<Rightarrow> (cxpr_num DNaN, cs1, e1)
           | (Some record, cs1, e1) \<Rightarrow> (cxpr_struct (Some record), cs1, e1))
        else case fe_defined_body entry of
            None \<Rightarrow> cxpr_eval_error CXPR_ERR_SYNTAX ''NULL AST node'' cs
          | Some body \<Rightarrow>
        if cxpr_eval_defined_call_can_inline_value_args entry ordered then eval_inlined ev entry ordered body cs e
        else if list_all (\<lambda>fs. fs = []) (fe_defined_param_fields entry) then
          (case needs_passthrough env ordered cs of
             (True, cs1) \<Rightarrow> cxpr_eval_defined_with_overlay env ev entry body ordered cs1 e
           | (False, cs1) \<Rightarrow>
               (case ev_overlay_new env cs1 of
                  None \<Rightarrow> eval_oom cs1
                | Some (tmp, cs2) \<Rightarrow>
                    (case bind_params env ev (zip (fe_defined_param_names entry) ordered) tmp cs2 e of
                       (None, cs3, e3) \<Rightarrow> (cxpr_num DNaN, cs3, e3)
                     | (Some tmp1, cs3, e3) \<Rightarrow>
                         cxpr_eval_wrap_defined_function_error entry (in_overlay env ev body tmp1 cs3 e3))))
        else
          (case cxpr_eval_defined_overlay_direct_field env entry ordered cs of
             (Some v, cs1) \<Rightarrow> (v, cs1, e)
           | (None, cs1) \<Rightarrow>
               if cxpr_eval_defined_call_can_inline_struct_args env entry ordered cs1
               then eval_inlined ev entry ordered body cs1 e
               else (case ev_overlay_new env cs1 of
                   None \<Rightarrow> eval_oom cs1
                 | Some (tmp, cs2) \<Rightarrow>
                     (case struct_params env ev
                             (zip (fe_defined_param_names entry) (zip (fe_defined_param_fields entry) ordered)) tmp cs2 e of
                        (None, cs3, e3) \<Rightarrow> (cxpr_num DNaN, cs3, e3)
                      | (Some tmp1, cs3, e3) \<Rightarrow>
                          cxpr_eval_wrap_defined_function_error entry (in_overlay env ev body tmp1 cs3 e3))))))"

section \<open>Field and chain access (tree.c)\<close>

definition cxpr_eval_struct_field_value :: "'f eval_env \<Rightarrow> cxpr_struct_value option \<Rightarrow> string \<Rightarrow> 'f list \<Rightarrow> eval_err
    \<Rightarrow> 'f ev" where
  "cxpr_eval_struct_field_value env s field cs e =
     (case s of
        None \<Rightarrow> cxpr_eval_error CXPR_ERR_TYPE_MISMATCH ''Field access requires a struct base'' cs
      | Some fs \<Rightarrow>
          (case map_of fs field of
             None \<Rightarrow> cxpr_eval_error CXPR_ERR_UNKNOWN_IDENTIFIER (cxpr_eval_unknown_field_message field) cs
           | Some v \<Rightarrow> (cxpr_value_clone (ev_mem env) v, cs, e)))"

definition no_struct_prefix :: "'f list \<Rightarrow> 'f ev" where
  "no_struct_prefix cs = cxpr_eval_error CXPR_ERR_UNKNOWN_IDENTIFIER ''Expression-scope chain has no struct prefix'' cs"

definition field_in_context :: "'f eval_env \<Rightarrow> 'f evaluator \<Rightarrow> string \<Rightarrow> string \<Rightarrow> 'f list \<Rightarrow> eval_err \<Rightarrow> 'f ev" where
  "field_in_context env ev ob field cs e =
     (case ev_get_field env ob field cs of
        (Some v, cs1) \<Rightarrow> (v, cs1, e)
      | (None, cs1) \<Rightarrow>
          (case ev_get env (cxpr_expr_ast_join_with_dot ob field) cs1 of
             (Some d, cs2) \<Rightarrow> (cxpr_num d, cs2, e)
           | (None, cs2) \<Rightarrow>
               (case cxpr_registry_find (ev_reg env) ob of
                  Some producer \<Rightarrow>
                    if fe_struct_producer producer
                    then eval_then (cxpr_eval_struct_producer env ev producer ob field [] cs2 e) (\<lambda>v cs3. (v, cs3, Ok))
                    else cxpr_eval_error CXPR_ERR_UNKNOWN_IDENTIFIER
                           (cxpr_eval_unknown_field_message (cxpr_expr_ast_join_with_dot ob field)) cs2
                | None \<Rightarrow>
                    cxpr_eval_error CXPR_ERR_UNKNOWN_IDENTIFIER
                      (cxpr_eval_unknown_field_message (cxpr_expr_ast_join_with_dot ob field)) cs2)))"

text \<open>The access to \<open>ob.field\<close> without a base expression.\<close>

definition cxpr_eval_field_access :: "'f eval_env \<Rightarrow> 'f evaluator \<Rightarrow> string \<Rightarrow> string \<Rightarrow> 'f list \<Rightarrow> eval_err \<Rightarrow> 'f ev" where
  "cxpr_eval_field_access env ev ob field cs e =
     (case ev_scope env cs of
        None \<Rightarrow> field_in_context env ev ob field cs e
      | Some scope \<Rightarrow>
          (case scope (cxpr_expr_ast_join_with_dot ob field) of
             Some v \<Rightarrow> (v, cs, e)
           | None \<Rightarrow>
               (case scope ob of
                  Some (cxpr_struct s) \<Rightarrow> cxpr_eval_struct_field_value env s field cs e
                | Some _ \<Rightarrow> no_struct_prefix cs
                | None \<Rightarrow> field_in_context env ev ob field cs e)))"

text \<open>The access to a field of a base expression.\<close>

definition eval_field_of_base :: "'f eval_env \<Rightarrow> 'f evaluator \<Rightarrow> cxpr_expr_ast \<Rightarrow> string \<Rightarrow> 'f list \<Rightarrow> eval_err \<Rightarrow> 'f ev" where
  "eval_field_of_base env ev base field cs e =
     (let plain = eval_then (ev base cs e) (\<lambda>v cs1.
            case v of
              cxpr_struct s \<Rightarrow> cxpr_eval_struct_field_value env s field cs1 Ok
            | _ \<Rightarrow> cxpr_eval_error CXPR_ERR_TYPE_MISMATCH ''Field access requires a struct base'' cs1) in
      case ast_data base of
        CXPR_NODE_FUNCTION_CALL name args arg_names \<Rightarrow>
          (case cxpr_registry_find (ev_reg env) name of
             Some entry \<Rightarrow>
               if fe_struct_producer entry \<or> fe_model_producer entry \<or> 0 < fe_defined_return_field_count entry
               then cxpr_eval_cached_producer_access env ev
                      (Ast None (CXPR_NODE_PRODUCER_ACCESS name args arg_names field)) name args arg_names field cs e
               else plain
           | None \<Rightarrow> plain)
      | _ \<Rightarrow> plain)"

fun walk_fields :: "'f eval_env \<Rightarrow> string \<Rightarrow> cxpr_struct_value \<Rightarrow> string list \<Rightarrow> 'f list \<Rightarrow> eval_err \<Rightarrow> 'f ev" where
  "walk_fields env full_key s [] cs e = cxpr_eval_error CXPR_ERR_UNKNOWN_IDENTIFIER ''Unknown field access'' cs"
| "walk_fields env full_key s (seg # rest) cs e =
     (case map_of s seg of
        None \<Rightarrow> cxpr_eval_error CXPR_ERR_UNKNOWN_IDENTIFIER (cxpr_eval_unknown_field_message full_key) cs
      | Some v \<Rightarrow>
          if rest = [] then (cxpr_value_clone (ev_mem env) v, cs, e)
          else (case v of
              cxpr_struct (Some s') \<Rightarrow> walk_fields env full_key s' rest cs e
            | cxpr_struct None \<Rightarrow> eval_stuck cs
            | _ \<Rightarrow> cxpr_eval_error CXPR_ERR_TYPE_MISMATCH ''Chain access requires struct intermediates'' cs))"

text \<open>The proper prefixes of a path that fit the buffer of 512 bytes, shortest first, with the rest
  of the path; an empty first segment stops the loop.\<close>

definition chain_prefixes :: "string list \<Rightarrow> (string \<times> string list) list" where
  "chain_prefixes path =
     (if hd path = [] then []
      else takeWhile (\<lambda>(p, rest). length p < 512)
             (map (\<lambda>i. (join_dots (take i path), drop i path)) [1 ..< length path]))"

definition chain_in_context :: "'f eval_env \<Rightarrow> string list \<Rightarrow> 'f list \<Rightarrow> eval_err \<Rightarrow> 'f ev" where
  "chain_in_context env path cs e =
     (let unknown = (\<lambda>cs. cxpr_eval_error CXPR_ERR_UNKNOWN_IDENTIFIER (cxpr_eval_unknown_identifier_message (hd path)) cs) in
      case ev_get_struct env (hd path) cs of
        Some s \<Rightarrow> walk_fields env (join_dots path) s (tl path) cs e
      | None \<Rightarrow>
          (case ev_get_typed env (hd path) cs of
             (Some (cxpr_struct (Some s)), cs1) \<Rightarrow> walk_fields env (join_dots path) s (tl path) cs1 e
           | (_, cs1) \<Rightarrow> unknown cs1))"

definition cxpr_eval_chain_access :: "'f eval_env \<Rightarrow> string list \<Rightarrow> 'f list \<Rightarrow> eval_err \<Rightarrow> 'f ev" where
  "cxpr_eval_chain_access env path cs e =
     (case ev_scope env cs of
        None \<Rightarrow> chain_in_context env path cs e
      | Some scope \<Rightarrow>
          (case scope (join_dots path) of
             Some v \<Rightarrow> (v, cs, e)
           | None \<Rightarrow>
               (case find (\<lambda>(p, rest). case scope p of Some (cxpr_struct _) \<Rightarrow> True | _ \<Rightarrow> False) (chain_prefixes path) of
                  Some (p, rest) \<Rightarrow>
                    (case scope p of
                       Some (cxpr_struct (Some s)) \<Rightarrow> walk_fields env (join_dots path) s rest cs e
                     | _ \<Rightarrow> eval_stuck cs)
                | None \<Rightarrow>
                    if list_ex (\<lambda>(p, rest). scope p \<noteq> None) (chain_prefixes path) then no_struct_prefix cs
                    else chain_in_context env path cs e)))"

section \<open>Indexing (tree.c, registry/index.c)\<close>

definition cxpr_eval_array_index :: "'f eval_env \<Rightarrow> 'f evaluator \<Rightarrow> cxpr_value \<Rightarrow> cxpr_expr_ast \<Rightarrow> 'f list \<Rightarrow> eval_err
    \<Rightarrow> 'f ev" where
  "cxpr_eval_array_index env ev array index_ast cs e =
     (case array of
        cxpr_array (Some vs) \<Rightarrow>
          eval_then (ev index_ast cs e) (\<lambda>iv cs1.
            case (case iv of cxpr_num d \<Rightarrow> array_index d | _ \<Rightarrow> None) of
              None \<Rightarrow> cxpr_eval_error CXPR_ERR_INVALID_INDEX ''Array index must be a finite non-negative integer'' cs1
            | Some i \<Rightarrow>
                if length vs \<le> i
                then cxpr_eval_error CXPR_ERR_INDEX_OUT_OF_RANGE ''Array index is out of range'' cs1
                else let v = cxpr_value_clone (ev_mem env) (vs ! i) in
                  if cxpr_value_clone_failed (vs ! i) v then eval_oom cs1 else (v, cs1, Ok))
      | _ \<Rightarrow> cxpr_eval_error CXPR_ERR_TYPE_MISMATCH ''Index target is not an array'' cs)"

text \<open>The selected capability, \<open>None\<close> if there is none; the flag is \<open>*handled\<close>.\<close>

definition cxpr_registry_find_index_capability :: "'f eval_env \<Rightarrow> string \<Rightarrow> nat option" where
  "cxpr_registry_find_index_capability env target = map_of (ev_capabilities env) target"

fun select_candidates :: "nat option \<Rightarrow> nat option list \<Rightarrow> nat option \<times> bool \<times> eval_err option" where
  "select_candidates selected [] = (selected, selected \<noteq> None, None)"
| "select_candidates selected (None # cands) = select_candidates selected cands"
| "select_candidates None (Some c # cands) = select_candidates (Some c) cands"
| "select_candidates (Some s) (Some c # cands) =
     (if s \<noteq> c then (None, True, Some (Err CXPR_ERR_TYPE_MISMATCH ''Index target references multiple capabilities''))
      else select_candidates (Some s) cands)"

definition cxpr_registry_select_index_capability :: "'f eval_env \<Rightarrow> cxpr_expr_ast \<Rightarrow> eval_err \<Rightarrow> nat option \<times> bool \<times> eval_err" where
  "cxpr_registry_select_index_capability env target e =
     (if ev_reg env = None then (None, False, e)
      else case ast_data target of
          CXPR_NODE_IDENTIFIER name \<Rightarrow>
            (let c = cxpr_registry_find_index_capability env name in (c, c \<noteq> None, e))
        | _ \<Rightarrow>
            (let n = nl_count (cxpr_expr_ast_references target 0) in
             if n = 0 then (None, False, e)
             else if \<not> ev_mem env (n * sizeof_ptr)
             then (None, True, Err CXPR_ERR_OUT_OF_MEMORY ''Failed to allocate index capability references'')
             else case select_candidates None
                    (map (cxpr_registry_find_index_capability env) (nl_names (cxpr_expr_ast_references target n))) of
                 (selected, handled, err) \<Rightarrow> (selected, handled, case err of None \<Rightarrow> e | Some e' \<Rightarrow> e')))"

text \<open>The flag says whether the target was resolved.\<close>

definition cxpr_registry_resolve_index_capability :: "'f eval_env \<Rightarrow> cxpr_expr_ast \<Rightarrow> int \<Rightarrow> 'f list \<Rightarrow> eval_err
    \<Rightarrow> bool \<times> 'f ev" where
  "cxpr_registry_resolve_index_capability env target index cs e =
     (case cxpr_registry_select_index_capability env target e of
        (None, handled, e1) \<Rightarrow> (False, cxpr_num DNaN, cs, e1)
      | (Some c, handled, e1) \<Rightarrow>
          (case ev_resolve env c target index cs e1 of
             (True, v, cs1, e2) \<Rightarrow> (e2 = Ok, v, cs1, e2)
           | (False, v, cs1, Ok) \<Rightarrow>
               (False, v, cs1, Err CXPR_ERR_TYPE_MISMATCH ''Index capability failed to resolve its owned target'')
           | (False, v, cs1, e2) \<Rightarrow> (False, v, cs1, e2)))"

abbreviation dbl_int64_max :: double where "dbl_int64_max \<equiv> DFin False 4503599627370496 11"

text \<open>The bound \<open>(double)INT64_MAX\<close> is 2 to the 63; the conversion of that value itself is undefined.\<close>

definition capability_index_ok :: "cxpr_value \<Rightarrow> int option option" where
  "capability_index_ok v =
     (case v of
        cxpr_num d \<Rightarrow>
          if \<not> isfinite d \<or> dbl_lt d dbl_zero \<or> \<not> dbl_eq (dbl_floor d) d \<or> dbl_lt dbl_int64_max d then None
          else if dbl_eq d dbl_int64_max then Some None
          else Some (dbl_trunc_int d)
      | _ \<Rightarrow> None)"

definition eval_capability :: "'f eval_env \<Rightarrow> 'f evaluator \<Rightarrow> cxpr_expr_ast \<Rightarrow> cxpr_expr_ast \<Rightarrow> 'f list \<Rightarrow> eval_err
    \<Rightarrow> 'f ev" where
  "eval_capability env ev target index cs e =
     eval_then (ev index cs e) (\<lambda>iv cs1.
       case capability_index_ok iv of
         None \<Rightarrow> cxpr_eval_error CXPR_ERR_INVALID_INDEX ''Index must be a finite non-negative integer'' cs1
       | Some None \<Rightarrow> eval_stuck cs1
       | Some (Some i) \<Rightarrow>
           (case cxpr_registry_resolve_index_capability env target i cs1 Ok of
              (True, r) \<Rightarrow> r
            | (False, _, cs2, e2) \<Rightarrow> (cxpr_num DNaN, cs2, e2)))"

text \<open>The target and index after flattening nested literal offsets.\<close>

definition flattened :: "cxpr_expr_ast \<Rightarrow> cxpr_expr_ast \<Rightarrow> cxpr_expr_ast \<times> cxpr_expr_ast" where
  "flattened target index =
     (case cxpr_lookback_literal_offset index of
        None \<Rightarrow> (target, index)
      | Some offset \<Rightarrow>
          (case flatten_lookback offset target of
             (summed, inner) \<Rightarrow>
               if inner = target then (target, index)
               else (inner, cxpr_expr_ast_number_new (dbl_of_int (int summed)))))"

text \<open>The look-back resolver takes the flattened target only if all levels could be flattened.\<close>

definition is_index :: "cxpr_expr_ast \<Rightarrow> bool" where
  "is_index ast = (case ast_data ast of CXPR_NODE_INDEX _ _ \<Rightarrow> True | _ \<Rightarrow> False)"

definition is_identifier :: "cxpr_expr_ast \<Rightarrow> bool" where
  "is_identifier ast = (case ast_data ast of CXPR_NODE_IDENTIFIER _ \<Rightarrow> True | _ \<Rightarrow> False)"

text \<open>The last resort of an index: a capability of a compound target, or the error.\<close>

definition eval_index_fallback :: "'f eval_env \<Rightarrow> 'f evaluator \<Rightarrow> cxpr_expr_ast \<Rightarrow> cxpr_expr_ast \<Rightarrow> 'f list \<Rightarrow> eval_err
    \<Rightarrow> 'f ev" where
  "eval_index_fallback env ev cap_target cap_index cs e =
     (let fails = cxpr_eval_error CXPR_ERR_TYPE_MISMATCH ''Index target is not indexable'' cs in
      if is_identifier cap_target then fails
      else (case cxpr_registry_select_index_capability env cap_target e of
          (Some c, _, e1) \<Rightarrow> eval_capability env ev cap_target cap_index cs e1
        | (None, True, e1) \<Rightarrow> (cxpr_num DNaN, cs, e1)
        | (None, False, e1) \<Rightarrow> fails))"

text \<open>The target is neither an array nor owned by a capability chosen first: the target itself is
  evaluated, an error of it is dropped where there is a look-back resolver, and the resolver asked.\<close>

definition eval_index_of_target :: "'f eval_env \<Rightarrow> 'f evaluator \<Rightarrow> cxpr_expr_ast \<Rightarrow> cxpr_expr_ast \<Rightarrow> cxpr_expr_ast
    \<Rightarrow> cxpr_expr_ast \<Rightarrow> 'f list \<Rightarrow> eval_err \<Rightarrow> 'f ev" where
  "eval_index_of_target env ev target index cap_target cap_index cs e =
     (let resolver = (if ev_reg env = None then None else ev_resolver env) in
      case ev target cs e of
        (v, cs1, e1) \<Rightarrow>
          if e1 = Stuck then eval_stuck cs1
          else if e1 = Ok \<and> value_type v = CXPR_VALUE_ARRAY then cxpr_eval_array_index env ev v index cs1 Ok
          else if e1 \<noteq> Ok \<and> resolver = None then (cxpr_num DNaN, cs1, e1)
          else (case resolver of
              None \<Rightarrow> eval_index_fallback env ev cap_target cap_index cs1 Ok
            | Some resolve \<Rightarrow>
                (case (case flattened target index of
                         (inner, flat) \<Rightarrow> if is_index inner then (target, index) else (inner, flat)) of
                   (t, i) \<Rightarrow>
                     (case resolve t i cs1 Ok of
                        (True, r) \<Rightarrow> r
                      | (False, v2, cs2, e2) \<Rightarrow>
                          if e2 \<noteq> Ok then (cxpr_num DNaN, cs2, e2)
                          else eval_index_fallback env ev cap_target cap_index cs2 Ok))))"

definition eval_index :: "'f eval_env \<Rightarrow> 'f evaluator \<Rightarrow> cxpr_expr_ast \<Rightarrow> cxpr_expr_ast \<Rightarrow> 'f list \<Rightarrow> eval_err \<Rightarrow> 'f ev" where
  "eval_index env ev target index cs e =
     (let (runtime, cs0) =
        (case ast_data target of
           CXPR_NODE_IDENTIFIER name \<Rightarrow> ev_get_typed env name cs
         | _ \<Rightarrow> (None, cs));
          (cap_target, cap_index) = flattened target index in
      case runtime of
        Some (cxpr_array a) \<Rightarrow> cxpr_eval_array_index env ev (cxpr_array a) index cs0 e
      | _ \<Rightarrow>
          (case (if is_identifier cap_target \<or> ev_reg env = None \<or> ev_resolver env = None
                 then cxpr_registry_select_index_capability env cap_target e else (None, False, e)) of
             (None, True, e1) \<Rightarrow> (cxpr_num DNaN, cs0, e1)
           | (Some c, _, e1) \<Rightarrow> eval_capability env ev cap_target cap_index cs0 e1
           | (None, False, e1) \<Rightarrow> eval_index_of_target env ev target index cap_target cap_index cs0 e1))"

section \<open>Calls through the registry (registry/call.c)\<close>

definition cxpr_registry_call_typed :: "'f eval_env \<Rightarrow> string \<Rightarrow> cxpr_value list \<Rightarrow> 'f list \<Rightarrow> 'f ev" where
  "cxpr_registry_call_typed env name args cs =
     (let argc = length args in
      case cxpr_registry_find (ev_reg env) name of
        None \<Rightarrow> cxpr_eval_error CXPR_ERR_UNKNOWN_FUNCTION (cxpr_eval_unknown_function_message name) cs
      | Some entry \<Rightarrow>
          if fe_sync_func entry = None \<and> fe_value_func entry = None \<and> \<not> fe_typed_func entry
          then cxpr_eval_error CXPR_ERR_UNKNOWN_FUNCTION (cxpr_eval_unknown_function_message name) cs
          else if argc < fe_min_args entry \<or> fe_max_args entry < argc
          then cxpr_eval_error CXPR_ERR_WRONG_ARITY ''Wrong number of arguments'' cs
          else if \<not> list_all (\<lambda>(v, t). value_type v = t) (zip args (fe_arg_types entry))
          then cxpr_eval_error CXPR_ERR_TYPE_MISMATCH ''Function argument type mismatch'' cs
          else if fe_typed_func entry then (ev_typed_func env entry args, cs, Ok)
          else (case fe_value_func entry of
              Some f \<Rightarrow> (f args, cs, Ok)
            | None \<Rightarrow>
                if CXPR_MAX_CALL_ARGS < argc
                then cxpr_eval_error CXPR_ERR_WRONG_ARITY ''Too many function arguments'' cs
                else (case those (map (number_of \<circ> Some) args) of
                    None \<Rightarrow> cxpr_eval_error CXPR_ERR_TYPE_MISMATCH ''Function arguments must be numbers'' cs
                  | Some ds \<Rightarrow>
                      (case fe_sync_func entry of
                         None \<Rightarrow> eval_stuck cs
                       | Some f \<Rightarrow> (cxpr_num (f ds), cs, Ok)))))"

section \<open>Function calls and the evaluator (tree.c)\<close>

fun eval_args :: "'f evaluator \<Rightarrow> cxpr_expr_ast list \<Rightarrow> 'f list \<Rightarrow> eval_err
    \<Rightarrow> cxpr_value list option \<times> 'f list \<times> eval_err" where
  "eval_args ev [] cs e = (Some [], cs, e)"
| "eval_args ev (a # args) cs e =
     (case ev a cs e of
        (v, cs1, Ok) \<Rightarrow> (case eval_args ev args cs1 Ok of (vs, cs2, e2) \<Rightarrow> (map_option (\<lambda>ws. v # ws) vs, cs2, e2))
      | (v, cs1, e1) \<Rightarrow> (None, cs1, e1))"

text \<open>The fields of the struct arguments of a legacy struct function, at most 32 numbers.\<close>

fun struct_arg_numbers :: "'f eval_env \<Rightarrow> string \<Rightarrow> string list \<Rightarrow> nat \<Rightarrow> 'f list
    \<Rightarrow> ((cxpr_error_code \<times> string) + double list) \<times> 'f list" where
  "struct_arg_numbers env name [] out cs = (Inr [], cs)"
| "struct_arg_numbers env name (f # fs) out cs =
     (if 32 \<le> out then (Inr [], cs)
      else case ev_get_field env name f cs of
          (None, cs1) \<Rightarrow> (Inl (CXPR_ERR_UNKNOWN_IDENTIFIER, ''Unknown struct field''), cs1)
        | (Some (cxpr_num d), cs1) \<Rightarrow>
            (case struct_arg_numbers env name fs (out + 1) cs1 of
               (Inl err, cs2) \<Rightarrow> (Inl err, cs2)
             | (Inr ds, cs2) \<Rightarrow> (Inr (d # ds), cs2))
        | (Some v, cs1) \<Rightarrow>
            (Inl (CXPR_ERR_TYPE_MISMATCH, ''Struct function arguments must be scalar doubles''), cs1))"

fun struct_args_numbers :: "'f eval_env \<Rightarrow> string list \<Rightarrow> cxpr_expr_ast list \<Rightarrow> nat \<Rightarrow> 'f list
    \<Rightarrow> ((cxpr_error_code \<times> string) + double list) \<times> 'f list" where
  "struct_args_numbers env names [] out cs = (Inr [], cs)"
| "struct_args_numbers env names (a # args) out cs =
     (if 32 \<le> out then (Inr [], cs)
      else case ast_data a of
          CXPR_NODE_IDENTIFIER name \<Rightarrow>
            (case struct_arg_numbers env name names out cs of
               (Inl err, cs1) \<Rightarrow> (Inl err, cs1)
             | (Inr ds, cs1) \<Rightarrow>
                 (case struct_args_numbers env names args (out + length ds) cs1 of
                    (Inl err, cs2) \<Rightarrow> (Inl err, cs2)
                  | (Inr ds', cs2) \<Rightarrow> (Inr (ds @ ds'), cs2)))
        | _ \<Rightarrow> (Inl (CXPR_ERR_SYNTAX, ''Struct argument must be an identifier''), cs))"

definition eval_struct_call :: "'f eval_env \<Rightarrow> cxpr_func_entry \<Rightarrow> (double list \<Rightarrow> double) \<Rightarrow> string list
    \<Rightarrow> cxpr_expr_ast list \<Rightarrow> 'f list \<Rightarrow> eval_err \<Rightarrow> 'f ev" where
  "eval_struct_call env entry f names ordered cs e =
     (if length ordered \<noteq> fe_struct_argc entry
      then cxpr_eval_error CXPR_ERR_WRONG_ARITY ''Wrong number of struct arguments'' cs
      else case struct_args_numbers env names ordered 0 cs of
          (Inl (code, message), cs1) \<Rightarrow> cxpr_eval_error code message cs1
        | (Inr ds, cs1) \<Rightarrow> (cxpr_num (f ds), cs1, e))"

text \<open>The native functions of two and three arguments evaluate all of them before the error object
  is looked at.\<close>

definition eval_native_args :: "'f evaluator \<Rightarrow> cxpr_expr_ast list \<Rightarrow> 'f list \<Rightarrow> eval_err \<Rightarrow> double list \<times> 'f list \<times> eval_err" where
  "eval_native_args ev args cs e =
     fold (\<lambda>a (ds, cs, e). case cxpr_eval_scalar_arg ev a cs e of (d, cs1, e1) \<Rightarrow> (ds @ [d], cs1, e1)) args ([], cs, e)"

definition eval_native :: "'f evaluator \<Rightarrow> cxpr_expr_ast list \<Rightarrow> (double list \<Rightarrow> double) \<Rightarrow> 'f list \<Rightarrow> eval_err \<Rightarrow> 'f ev" where
  "eval_native ev args f cs e =
     (case eval_native_args ev args cs e of
        (ds, cs1, e1) \<Rightarrow> if e1 = Ok then (cxpr_num (f ds), cs1, Ok) else (cxpr_num DNaN, cs1, e1))"

text \<open>What is left of a call whose arguments are in order and whose entry is neither a producer nor
  defined by an expression.\<close>

definition eval_plain_call :: "'f eval_env \<Rightarrow> 'f evaluator \<Rightarrow> cxpr_func_entry \<Rightarrow> string \<Rightarrow> cxpr_expr_ast list \<Rightarrow> 'f list
    \<Rightarrow> eval_err \<Rightarrow> 'f ev" where
  "eval_plain_call env ev entry name ordered cs e =
     (let argc = length ordered; kind = fe_native_kind entry in
      if name = ''if'' \<and> argc = 3 then
        eval_then (ev (ordered ! 0) cs e) (\<lambda>c cs1.
          case c of
            cxpr_bool b \<Rightarrow> ev (ordered ! (if b then 1 else 2)) cs1 Ok
          | _ \<Rightarrow> cxpr_eval_error CXPR_ERR_TYPE_MISMATCH ''if() condition must be bool'' cs1)
      else if argc < fe_min_args entry \<or> fe_max_args entry < argc
      then cxpr_eval_error CXPR_ERR_WRONG_ARITY ''Wrong number of arguments'' cs
      else if kind = CXPR_NATIVE_KIND_NULLARY \<and> argc = 0 then (cxpr_num (fe_nullary entry), cs, e)
      else if kind = CXPR_NATIVE_KIND_UNARY \<and> argc = 1
      then eval_native ev ordered (\<lambda>ds. fe_unary entry (ds ! 0)) cs e
      else if kind = CXPR_NATIVE_KIND_BINARY \<and> argc = 2
      then eval_native ev ordered (\<lambda>ds. fe_binary entry (ds ! 0) (ds ! 1)) cs e
      else if kind = CXPR_NATIVE_KIND_TERNARY \<and> argc = 3
      then eval_native ev ordered (\<lambda>ds. fe_ternary entry (ds ! 0) (ds ! 1) (ds ! 2)) cs e
      else if CXPR_MAX_CALL_ARGS < argc
      then cxpr_eval_error CXPR_ERR_WRONG_ARITY ''Too many function arguments'' cs
      else (case eval_args ev ordered cs e of
          (None, cs1, e1) \<Rightarrow> (cxpr_num DNaN, cs1, e1)
        | (Some vs, cs1, e1) \<Rightarrow> cxpr_registry_call_typed env name vs cs1))"

text \<open>\<open>produced\<close> as a value, or the early return.\<close>

definition produced_value :: "cxpr_struct_value option \<times> 'f list \<times> eval_err \<Rightarrow> 'f ev" where
  "produced_value r = (case r of (s, cs, e) \<Rightarrow> if e = Ok then (cxpr_struct s, cs, e) else (cxpr_num DNaN, cs, e))"

definition eval_call :: "'f eval_env \<Rightarrow> 'f evaluator \<Rightarrow> cxpr_expr_ast \<Rightarrow> string \<Rightarrow> cxpr_expr_ast list \<Rightarrow> string option list
    \<Rightarrow> 'f list \<Rightarrow> eval_err \<Rightarrow> 'f ev" where
  "eval_call env ev ast name args arg_names cs e =
     (case cxpr_registry_find (ev_reg env) name of
        None \<Rightarrow> cxpr_eval_error CXPR_ERR_UNKNOWN_FUNCTION (cxpr_eval_unknown_function_message name) cs
      | Some entry \<Rightarrow>
          let pure_producer = (fe_struct_producer entry \<and> fe_sync_func entry = None \<and> fe_value_func entry = None) in
          if fe_ast_func_handler entry then ev_ast_func_handler env entry ast cs e
          else if fe_ast_func entry then ev_ast_func env entry ast cs e
          else if pure_producer \<and> \<not> cxpr_expr_ast_named_args_present arg_names then
            (let const_key = cxpr_eval_prepare_const_key_for_call env name args arg_names in
             case Option.bind const_key (\<lambda>k. ev_get_cached_struct env k cs) of
               Some s \<Rightarrow> (cxpr_struct (Some s), cs, e)
             | None \<Rightarrow> produced_value (cxpr_eval_struct_result env ev entry name args const_key cs e))
          else cxpr_eval_bind_call_args entry args arg_names cs (\<lambda>ordered.
            if fe_model_producer entry then ev_model_producer env entry ast cs e
            else if fe_defined_body entry \<noteq> None \<or> 0 < fe_defined_return_field_count entry
            then cxpr_eval_defined_function env ev entry args arg_names cs e
            else if pure_producer
            then produced_value (cxpr_eval_struct_result env ev entry name ordered None cs e)
            else case (fe_struct_fields entry, fe_sync_func entry) of
                (Some names, Some f) \<Rightarrow>
                  if fe_struct_producer entry then eval_plain_call env ev entry name ordered cs e
                  else eval_struct_call env entry f names ordered cs e
              | _ \<Rightarrow> eval_plain_call env ev entry name ordered cs e))"

text \<open>Record literals: each value sees the fields before it.\<close>

fun eval_record :: "'f eval_env \<Rightarrow> 'f evaluator \<Rightarrow> (string \<times> cxpr_expr_ast) list \<Rightarrow> 'f list \<Rightarrow> eval_err
    \<Rightarrow> cxpr_struct_value option \<times> 'f list \<times> eval_err" where
  "eval_record env ev [] fs e = (Some [], fs, e)"
| "eval_record env ev ((n, a) # rest) fs e =
     (case ev a fs e of
        (v, fs1, Ok) \<Rightarrow>
          (case eval_record env ev rest (ev_set_value env n v (hd fs1) # tl fs1) Ok of
             (vs, fs2, e2) \<Rightarrow> (map_option (\<lambda>ws. (n, v) # ws) vs, fs2, e2))
      | (v, fs1, e1) \<Rightarrow> (None, fs1, e1))"

definition cxpr_eval_node_uncached :: "'f eval_env \<Rightarrow> 'f evaluator \<Rightarrow> 'f evaluator" where
  "cxpr_eval_node_uncached env ev ast cs e =
     (case ast_data ast of
        CXPR_NODE_NUMBER v \<Rightarrow> (cxpr_num v, cs, e)
      | CXPR_NODE_INT64 v \<Rightarrow> (cxpr_int64 v, cs, e)
      | CXPR_NODE_BOOL v \<Rightarrow> (cxpr_bool v, cs, e)
      | CXPR_NODE_ARRAY es \<Rightarrow>
          if es \<noteq> [] \<and> \<not> ev_mem env (length es * sizeof_value) then eval_oom cs
          else (case eval_args ev es cs e of
              (None, cs1, e1) \<Rightarrow> (cxpr_num DNaN, cs1, e1)
            | (Some vs, cs1, e1) \<Rightarrow>
                (case cxpr_array_value_new (ev_mem env) vs of
                   None \<Rightarrow> eval_oom cs1
                 | Some array \<Rightarrow> (cxpr_array (Some array), cs1, e1)))
      | CXPR_NODE_RECORD ns vs \<Rightarrow>
          if vs = [] then
            (case cxpr_struct_value_new (ev_mem env) [] of None \<Rightarrow> eval_oom cs | Some s \<Rightarrow> (cxpr_struct (Some s), cs, e))
          else if \<not> ev_mem env (length vs * sizeof_value) then eval_oom cs
          else (case ev_overlay_new env cs of
              None \<Rightarrow> eval_oom cs
            | Some (record_ctx, cs0) \<Rightarrow>
                (case eval_record env ev (zip ns vs) (record_ctx # cs0) e of
                   (fvs, fs, e1) \<Rightarrow>
                     let cs1 = ev_overlay_free env (hd fs) (tl fs) in
                     (case fvs of
                        None \<Rightarrow> (cxpr_num DNaN, cs1, e1)
                      | Some ps \<Rightarrow>
                          (case cxpr_struct_value_new (ev_mem env) ps of
                             None \<Rightarrow> eval_oom cs1
                           | Some s \<Rightarrow> (cxpr_struct (Some s), cs1, e1)))))
      | CXPR_NODE_STRING s \<Rightarrow> (cxpr_string (Some s), cs, e)
      | CXPR_NODE_IDENTIFIER name \<Rightarrow>
          (case ev_get_typed env name cs of
             (Some v, cs1) \<Rightarrow> (v, cs1, e)
           | (None, cs1) \<Rightarrow>
               cxpr_eval_error CXPR_ERR_UNKNOWN_IDENTIFIER (cxpr_eval_unknown_identifier_message name) cs1)
      | CXPR_NODE_VARIABLE name \<Rightarrow>
          (case ev_get_param_typed env name cs of
             (Some v, cs1) \<Rightarrow> (v, cs1, e)
           | (None, cs1) \<Rightarrow>
               cxpr_eval_error CXPR_ERR_UNKNOWN_IDENTIFIER (cxpr_eval_unknown_parameter_message name) cs1)
      | CXPR_NODE_FIELD_ACCESS ob f \<Rightarrow> cxpr_eval_field_access env ev ob f cs e
      | CXPR_NODE_FIELD_EXPR base f \<Rightarrow> eval_field_of_base env ev base f cs e
      | CXPR_NODE_CHAIN_ACCESS path \<Rightarrow> cxpr_eval_chain_access env path cs e
      | CXPR_NODE_INDEX target index \<Rightarrow> eval_index env ev target index cs e
      | CXPR_NODE_BINARY_OP op l r \<Rightarrow> cxpr_eval_binary_op env ev op l r cs e
      | CXPR_NODE_UNARY_OP op a \<Rightarrow> cxpr_eval_unary_op ev op a cs e
      | CXPR_NODE_FUNCTION_CALL name args arg_names \<Rightarrow> eval_call env ev ast name args arg_names cs e
      | CXPR_NODE_PRODUCER_ACCESS name args arg_names field \<Rightarrow>
          (case cxpr_registry_find (ev_reg env) name of
             None \<Rightarrow> cxpr_eval_error CXPR_ERR_UNKNOWN_FUNCTION (cxpr_eval_unknown_function_message name) cs
           | Some entry \<Rightarrow>
               if fe_ast_func_handler entry then ev_ast_func_handler env entry ast cs e
               else eval_then (cxpr_eval_cached_producer_access env ev ast name args arg_names field cs e)
                      (\<lambda>v cs1. (v, cs1, Ok)))
      | CXPR_NODE_TERNARY c a b \<Rightarrow> cxpr_eval_ternary_op ev c a b cs e)"

text \<open>Each level of recursion costs one unit of fuel.\<close>

fun cxpr_eval_node :: "'f eval_env \<Rightarrow> nat \<Rightarrow> 'f evaluator" where
  "cxpr_eval_node env 0 ast cs e = eval_stuck cs"
| "cxpr_eval_node env (Suc fuel) ast cs e =
     (let uncached = cxpr_eval_node_uncached env (cxpr_eval_node env fuel) ast cs e; hash = cxpr_eval_ast_hash ast in
      if e = Stuck then eval_stuck cs
      else if \<not> dbl_eq (ev_lookback_offset env cs) dbl_zero \<or> \<not> cxpr_eval_ast_memoable (ev_reg env) ast then uncached
      else (case cxpr_eval_memo_get (ev_memo env cs) ast hash of
          Some v \<Rightarrow> (v, cs, e)
        | None \<Rightarrow>
            (case uncached of
               (v, cs1, Ok) \<Rightarrow>
                 (v, ev_set_memo env (fst (cxpr_eval_memo_set (ev_mem env) ast hash v (ev_memo env cs1))) cs1, Ok)
             | r \<Rightarrow> r)))"

declare cxpr_eval_node.simps [simp del]

end
