(* ===== verification/Cxpr_Analyze.thy ===== *)
theory Cxpr_Analyze
  imports Cxpr_Tree Cxpr_Parser
begin

text \<open>
  Analysis of expressions before compilation: fixed durations and \<open>resample\<close> calls
  (\<^verbatim>\<open>src/src/resample.c\<close>) and the walk that counts nodes, collects facts about a tree and checks its
  calls against the registry (\<^verbatim>\<open>src/src/ast/analyze.c\<close>). The error object is never NULL here. Counters of
  type \<open>unsigned\<close> are words of 32 bits.
\<close>

section \<open>Fixed durations\<close>

abbreviation UINT64_MAX :: int where "UINT64_MAX \<equiv> 18446744073709551615"

definition set_error :: "cxpr_error_code \<Rightarrow> string \<Rightarrow> cxpr_error" where
  "set_error code message = cxpr_error_zero\<lparr>err_code := code, err_message := message\<rparr>"

definition locate_error :: "cxpr_error \<Rightarrow> cxpr_expr_ast \<Rightarrow> cxpr_error" where
  "locate_error e ast =
     (case ast_span ast of
        None \<Rightarrow> e
      | Some span \<Rightarrow> e\<lparr>err_position := sp_offset (span_start span), err_line := sp_line (span_start span),
                       err_column := sp_column (span_start span)\<rparr>)"

definition parse_unit :: "string \<Rightarrow> int option" where
  "parse_unit = map_of [(''ns'', 1), (''us'', 1000), (''ms'', 1000000), (''s'', 1000000000),
     (''m'', 60000000000), (''h'', 3600000000000), (''d'', 86400000000000)]"

record cxpr_resample_interval =
  duration_ns :: int
  canonical :: string

text \<open>The loop over the digits: the count and the text behind them, \<open>None\<close> where the count overflows.\<close>

fun duration_digits :: "int \<Rightarrow> string \<Rightarrow> (int \<times> string) option" where
  "duration_digits n [] = Some (n, [])"
| "duration_digits n (c # cs) =
     (if isdigit c then
        (if (UINT64_MAX - digit_val c) div 10 < n then None else duration_digits (n * 10 + digit_val c) cs)
      else Some (n, c # cs))"

text \<open>\<open>printf\<close> of an unsigned integer.\<close>

fun decimal :: "nat \<Rightarrow> string" where
  "decimal n = (if n < 10 then [char_of (48 + n)] else decimal (n div 10) @ [char_of (48 + n mod 10)])"

declare decimal.simps [simp del]

definition CXPR_RESAMPLE_CANONICAL_CAPACITY :: nat where "CXPR_RESAMPLE_CANONICAL_CAPACITY = 32"

definition cxpr_parse_fixed_duration :: "string \<Rightarrow> cxpr_error + cxpr_resample_interval" where
  "cxpr_parse_fixed_duration text =
     (if text = [] then Inl (set_error CXPR_ERR_SYNTAX ''Fixed duration must be a positive integer and unit'')
      else case duration_digits 0 text of
        None \<Rightarrow> Inl (set_error CXPR_ERR_SYNTAX ''Fixed duration overflows'')
      | Some (n, unit) \<Rightarrow>
          if unit = text \<or> n = 0
          then Inl (set_error CXPR_ERR_SYNTAX ''Fixed duration must be greater than zero'')
          else (case parse_unit unit of
              None \<Rightarrow> Inl (set_error CXPR_ERR_SYNTAX
                ''Unsupported fixed-duration unit; expected ns, us, ms, s, m, h, or d'')
            | Some factor \<Rightarrow>
                if INT64_MAX div factor < n
                then Inl (set_error CXPR_ERR_SYNTAX ''Fixed duration overflows nanoseconds'')
                else let written = decimal (nat n) @ unit in
                  if CXPR_RESAMPLE_CANONICAL_CAPACITY \<le> length written
                  then Inl (set_error CXPR_ERR_SYNTAX ''Canonical fixed duration is too long'')
                  else Inr \<lparr>duration_ns = n * factor, canonical = written\<rparr>))"

section \<open>Calls of resample\<close>

record cxpr_resample_call =
  rc_source :: cxpr_expr_ast
  rc_every :: cxpr_resample_interval

text \<open>\<open>name_of i\<close> is the name of argument \<open>i\<close>, if it has one.\<close>

definition cxpr_resample_call_parse :: "cxpr_expr_ast \<Rightarrow> cxpr_error + cxpr_resample_call" where
  "cxpr_resample_call_parse ast =
     (case ast_data ast of
        CXPR_NODE_FUNCTION_CALL name args arg_names \<Rightarrow>
          if name \<noteq> ''resample'' then Inl (set_error CXPR_ERR_TYPE_MISMATCH ''Expected a resample call'')
          else if length args \<noteq> 2 then Inl (set_error CXPR_ERR_WRONG_ARITY ''resample expects source and every'')
          else
            let name_of = (\<lambda>i. if i < length arg_names then arg_names ! i else None);
                source = args ! 0; interval = args ! 1 in
            if name_of 0 \<noteq> None \<or> name_of 1 \<noteq> None \<and> name_of 1 \<noteq> Some ''every''
            then Inl (set_error CXPR_ERR_SYNTAX
              ''resample accepts a positional source and positional or named every argument'')
            else (case ast_data interval of
                CXPR_NODE_STRING text \<Rightarrow>
                  (case cxpr_parse_fixed_duration text of
                     Inl e \<Rightarrow> Inl (locate_error e interval)
                   | Inr every \<Rightarrow>
                       (let ok = Inr \<lparr>rc_source = source, rc_every = every\<rparr> in
                        case ast_data source of
                          CXPR_NODE_IDENTIFIER _ \<Rightarrow> ok
                        | CXPR_NODE_FIELD_ACCESS _ _ \<Rightarrow> ok
                        | CXPR_NODE_FIELD_EXPR _ _ \<Rightarrow> ok
                        | CXPR_NODE_CHAIN_ACCESS _ \<Rightarrow> ok
                        | CXPR_NODE_PRODUCER_ACCESS _ _ _ _ \<Rightarrow> ok
                        | CXPR_NODE_FUNCTION_CALL _ _ _ \<Rightarrow> ok
                        | _ \<Rightarrow> Inl (locate_error (set_error CXPR_ERR_TYPE_MISMATCH
                            ''resample source must be a provider/source-capable expression'') source)))
              | _ \<Rightarrow> Inl (locate_error (set_error CXPR_ERR_TYPE_MISMATCH
                  ''resample every must be a compile-time string literal'') interval))
      | _ \<Rightarrow> Inl (set_error CXPR_ERR_TYPE_MISMATCH ''Expected a resample call''))"

text \<open>The number an index is known to have: a literal, or the operand of a unary operator negated.\<close>

definition literal_index :: "cxpr_expr_ast \<Rightarrow> double option" where
  "literal_index index =
     (case ast_data index of
        CXPR_NODE_NUMBER v \<Rightarrow> Some v
      | CXPR_NODE_UNARY_OP _ a \<Rightarrow> (case ast_data a of CXPR_NODE_NUMBER v \<Rightarrow> Some (dbl_neg v) | _ \<Rightarrow> None)
      | _ \<Rightarrow> None)"

definition resample_index_error :: "cxpr_expr_ast \<Rightarrow> cxpr_expr_ast \<Rightarrow> cxpr_error option" where
  "resample_index_error target index =
     (case ast_data target of
        CXPR_NODE_FUNCTION_CALL name _ _ \<Rightarrow>
          (case (if name = ''resample'' then literal_index index else None) of
             Some v \<Rightarrow>
               if \<not> isfinite v \<or> dbl_lt v dbl_zero \<or> \<not> dbl_eq (dbl_floor v) v \<or> dbl_lt (dbl_of_int (int UINT_MAX)) v
               then Some (set_error CXPR_ERR_INVALID_INDEX ''resample index must be a finite non-negative integer'')
               else None
           | None \<Rightarrow> None)
      | _ \<Rightarrow> None)"

text \<open>The first error of the trees in the list, in order.\<close>

fun first_error :: "('a \<Rightarrow> cxpr_error option) \<Rightarrow> 'a list \<Rightarrow> cxpr_error option" where
  "first_error f [] = None"
| "first_error f (x # xs) = (case f x of Some e \<Rightarrow> Some e | None \<Rightarrow> first_error f xs)"

lemma first_error_cong [fundef_cong]:
  "xs = ys \<Longrightarrow> (\<And>x. x \<in> set ys \<Longrightarrow> f x = g x) \<Longrightarrow> first_error f xs = first_error g ys"
  by (induction xs arbitrary: ys) (auto split: option.split)

lemma first_error_None: "first_error f xs = None \<longleftrightarrow> (\<forall>x \<in> set xs. f x = None)"
  by (induction xs) (auto split: option.splits)

text \<open>\<open>Some e\<close> is the failing return with the error. A field access with a base, an index, the operators, calls
  and composites visit their children in order.\<close>

function cxpr_resample_validate_ast :: "cxpr_expr_ast \<Rightarrow> cxpr_error option" where
  "cxpr_resample_validate_ast ast =
     (case (case ast_data ast of
              CXPR_NODE_FUNCTION_CALL name _ _ \<Rightarrow>
                if name = ''resample'' then (case cxpr_resample_call_parse ast of Inl e \<Rightarrow> Some e | Inr _ \<Rightarrow> None) else None
            | CXPR_NODE_INDEX target index \<Rightarrow> resample_index_error target index
            | _ \<Rightarrow> None) of
        Some e \<Rightarrow> Some e
      | None \<Rightarrow> first_error cxpr_resample_validate_ast (ast_children ast))"
  by pat_completeness auto
termination by (relation "measure size") (auto dest: ast_children_size)

declare cxpr_resample_validate_ast.simps [simp del]

section \<open>The walk\<close>

datatype cxpr_expr_type = CXPR_EXPR_UNKNOWN | CXPR_EXPR_BOOL | CXPR_EXPR_NUMBER | CXPR_EXPR_STRUCT

type_synonym uint32 = "32 word"

record cxpr_analysis =
  result_type :: cxpr_expr_type
  is_constant :: bool
  is_predicate :: bool
  uses_variables :: bool
  uses_parameters :: bool
  uses_functions :: bool
  uses_expressions :: bool
  uses_field_access :: bool
  can_short_circuit :: bool
  node_count :: uint32
  max_depth :: uint32
  max_lookback_depth :: uint32
  reference_count :: nat
  function_count :: nat
  parameter_count :: nat
  field_path_count :: nat
  has_unknown_functions :: bool
  first_unknown_function :: "string option"
  has_unsupported_codegen_nodes :: bool
  first_unsupported_codegen_node :: "string option"

definition analysis_zero :: cxpr_analysis where
  "analysis_zero =
     \<lparr>result_type = CXPR_EXPR_UNKNOWN, is_constant = False, is_predicate = False, uses_variables = False,
      uses_parameters = False, uses_functions = False, uses_expressions = False, uses_field_access = False,
      can_short_circuit = False, node_count = 0, max_depth = 0, max_lookback_depth = 0, reference_count = 0,
      function_count = 0, parameter_count = 0, field_path_count = 0, has_unknown_functions = False,
      first_unknown_function = None, has_unsupported_codegen_nodes = False, first_unsupported_codegen_node = None\<rparr>"

definition cxpr_expr_ast_unknown_function_message :: "string \<Rightarrow> string" where
  "cxpr_expr_ast_unknown_function_message = unknown_name_message ''Unknown function''"

fun cxpr_expr_type_from_value :: "cxpr_value_type \<Rightarrow> cxpr_expr_type" where
  "cxpr_expr_type_from_value CXPR_VALUE_BOOL = CXPR_EXPR_BOOL"
| "cxpr_expr_type_from_value CXPR_VALUE_STRUCT = CXPR_EXPR_STRUCT"
| "cxpr_expr_type_from_value _ = CXPR_EXPR_NUMBER"

definition cxpr_expr_ast_note_unsupported_codegen :: "string \<Rightarrow> cxpr_analysis \<Rightarrow> cxpr_analysis" where
  "cxpr_expr_ast_note_unsupported_codegen kind out =
     (if has_unsupported_codegen_nodes out then out
      else out\<lparr>has_unsupported_codegen_nodes := True, first_unsupported_codegen_node := Some kind\<rparr>)"

text \<open>\<open>cxpr_call_bind_args\<close> with a NULL array of arguments: the check alone, which writes nothing.\<close>

fun check_all :: "string list \<Rightarrow> nat \<Rightarrow> string option list \<Rightarrow> bool \<Rightarrow> nat \<Rightarrow> bool list
    \<Rightarrow> (cxpr_error_code \<times> string) option" where
  "check_all ps argc [] seen_named positional used =
     (if False \<in> set (take argc used)
      then Some (CXPR_ERR_SYNTAX, ''Named arguments must fill a positional prefix'') else None)"
| "check_all ps argc (None # nms) seen_named positional used =
     (if seen_named then Some (CXPR_ERR_SYNTAX, ''Positional arguments cannot follow named arguments'')
      else if length used \<le> positional then Some (CXPR_ERR_WRONG_ARITY, ''Wrong number of arguments'')
      else check_all ps argc nms False (positional + 1) (used[positional := True]))"
| "check_all ps argc (Some name # nms) seen_named positional used =
     (let match = match_param ps name in
      if length used \<le> match then Some (CXPR_ERR_SYNTAX, ''Unknown named argument'')
      else if used ! match then Some (CXPR_ERR_SYNTAX, ''Duplicate argument'')
      else check_all ps argc nms True positional (used[match := True]))"

definition check_binding :: "cxpr_func_entry \<Rightarrow> cxpr_expr_ast list \<Rightarrow> string option list
    \<Rightarrow> (cxpr_error_code \<times> string) option" where
  "check_binding entry args arg_names =
     (let argc = length args; params = cxpr_registry_entry_param_names entry; nargs = named_args arg_names args in
      if CXPR_MAX_CALL_ARGS < argc then Some (CXPR_ERR_WRONG_ARITY, ''Too many function arguments'')
      else if \<not> cxpr_expr_ast_named_args_present arg_names then None
      else if params = [] \<or> CXPR_MAX_PARAM_NAMES < length params
      then Some (CXPR_ERR_SYNTAX, ''Named arguments are not supported for this function'')
      else if cxpr_call_bind_named_window nargs params \<noteq> None then None
      else check_all params argc (map fst nargs) False 0 (replicate (length params) False))"

text \<open>The checks of a call against the registry, for function calls and producers alike.\<close>

definition check_call :: "cxpr_registry \<Rightarrow> string \<Rightarrow> cxpr_expr_ast list \<Rightarrow> string option list \<Rightarrow> cxpr_error + cxpr_func_entry option" where
  "check_call reg name args arg_names =
     (if reg = None then Inr None
      else case cxpr_registry_find reg name of
        None \<Rightarrow> Inl (set_error CXPR_ERR_UNKNOWN_FUNCTION (cxpr_expr_ast_unknown_function_message name))
      | Some entry \<Rightarrow>
          if length args < fe_min_args entry \<or> fe_max_args entry < length args
          then Inl (set_error CXPR_ERR_WRONG_ARITY ''Wrong number of arguments'')
          else (case (if cxpr_expr_ast_named_args_present arg_names then check_binding entry args arg_names else None) of
              Some (code, message) \<Rightarrow> Inl (set_error code message)
            | None \<Rightarrow> Inr (Some entry)))"

text \<open>The type of a node, the analysis so far, and the error of the failing return.\<close>

type_synonym analyzed = "cxpr_expr_type \<times> cxpr_analysis \<times> cxpr_error option"

text \<open>A visit whose failure ends the caller.\<close>

definition an_then :: "analyzed \<Rightarrow> (cxpr_expr_type \<Rightarrow> cxpr_analysis \<Rightarrow> analyzed) \<Rightarrow> analyzed" where
  "an_then r k = (case r of (t, out, None) \<Rightarrow> k t out | (t, out, Some e) \<Rightarrow> (CXPR_EXPR_UNKNOWN, out, Some e))"

lemma an_then_cong [fundef_cong]:
  "r = r' \<Longrightarrow> (\<And>t out. r' = (t, out, None) \<Longrightarrow> k t out = k' t out) \<Longrightarrow> an_then r k = an_then r' k'"
  by (cases r') (auto simp: an_then_def split: option.split)

text \<open>The loop over arguments, elements and fields; the type is that of the first.\<close>

fun analyze_list :: "(cxpr_expr_ast \<Rightarrow> cxpr_analysis \<Rightarrow> analyzed) \<Rightarrow> cxpr_expr_ast list \<Rightarrow> cxpr_analysis \<Rightarrow> analyzed" where
  "analyze_list visit [] out = (CXPR_EXPR_UNKNOWN, out, None)"
| "analyze_list visit (a # as) out =
     an_then (visit a out) (\<lambda>t out1. an_then (analyze_list visit as out1) (\<lambda>_ out2. (t, out2, None)))"

lemma analyze_list_cong [fundef_cong]:
  assumes "as = bs" "out = out'" "\<And>a out. a \<in> set bs \<Longrightarrow> f a out = g a out"
  shows "analyze_list f as out = analyze_list g bs out'"
proof -
  have "analyze_list f bs out' = analyze_list g bs out'"
    using assms(3) by (induction bs arbitrary: out') (simp_all cong: an_then_cong)
  with assms(1,2) show ?thesis by simp
qed

text \<open>What an index adds to the look-back depth.\<close>

definition index_depth :: "cxpr_expr_ast \<Rightarrow> uint32 \<Rightarrow> cxpr_analysis \<Rightarrow> uint32 \<times> cxpr_analysis" where
  "index_depth index depth out =
     (case (case ast_data index of
              CXPR_NODE_NUMBER v \<Rightarrow> if isfinite v \<and> dbl_le dbl_zero v \<and> dbl_eq (dbl_floor v) v then Some v else None
            | _ \<Rightarrow> None) of
        Some v \<Rightarrow>
          if dbl_le v (dbl_of_int (uint (- 1 - depth)))
          then let d = depth + (case dbl_trunc_int v of Some i \<Rightarrow> of_int i | None \<Rightarrow> 0) in
               (d, if max_lookback_depth out < d then out\<lparr>max_lookback_depth := d\<rparr> else out)
          else (depth, out)
      | None \<Rightarrow> (depth, if max_lookback_depth out < 512 then out\<lparr>max_lookback_depth := 512\<rparr> else out))"

function cxpr_expr_ast_analyze_node :: "cxpr_registry \<Rightarrow> uint32 \<Rightarrow> uint32 \<Rightarrow> cxpr_expr_ast \<Rightarrow> cxpr_analysis \<Rightarrow> analyzed" where
  "cxpr_expr_ast_analyze_node reg depth lookback (Ast sp d) out0 =
     (let out = out0\<lparr>max_depth := max (max_depth out0) depth, node_count := node_count out0 + 1\<rparr> in
      case d of
        CXPR_NODE_NUMBER _ \<Rightarrow> (CXPR_EXPR_NUMBER, out, None)
      | CXPR_NODE_INT64 _ \<Rightarrow> (CXPR_EXPR_NUMBER, out, None)
      | CXPR_NODE_BOOL _ \<Rightarrow> (CXPR_EXPR_BOOL, out, None)
      | CXPR_NODE_ARRAY es \<Rightarrow>
          an_then (analyze_list (cxpr_expr_ast_analyze_node reg (depth + 1) lookback) es (cxpr_expr_ast_note_unsupported_codegen ''array'' out))
            (\<lambda>_ out1. (CXPR_EXPR_UNKNOWN, out1, None))
      | CXPR_NODE_RECORD _ vs \<Rightarrow>
          an_then (analyze_list (cxpr_expr_ast_analyze_node reg (depth + 1) lookback) vs (cxpr_expr_ast_note_unsupported_codegen ''record'' out))
            (\<lambda>_ out1. (CXPR_EXPR_UNKNOWN, out1, None))
      | CXPR_NODE_STRING _ \<Rightarrow> (CXPR_EXPR_UNKNOWN, out, None)
      | CXPR_NODE_IDENTIFIER _ \<Rightarrow> (CXPR_EXPR_NUMBER, out\<lparr>uses_variables := True, is_constant := False\<rparr>, None)
      | CXPR_NODE_VARIABLE _ \<Rightarrow> (CXPR_EXPR_NUMBER, out\<lparr>uses_parameters := True, is_constant := False\<rparr>, None)
      | CXPR_NODE_FIELD_ACCESS _ _ \<Rightarrow>
          (CXPR_EXPR_UNKNOWN,
           (cxpr_expr_ast_note_unsupported_codegen ''field_access'' out)\<lparr>uses_field_access := True, is_constant := False\<rparr>, None)
      | CXPR_NODE_FIELD_EXPR base _ \<Rightarrow>
          an_then (cxpr_expr_ast_analyze_node reg (depth + 1) lookback base
              ((cxpr_expr_ast_note_unsupported_codegen ''field_access'' out)\<lparr>uses_field_access := True, is_constant := False\<rparr>))
            (\<lambda>_ out1. (CXPR_EXPR_UNKNOWN, out1, None))
      | CXPR_NODE_CHAIN_ACCESS _ \<Rightarrow>
          (CXPR_EXPR_UNKNOWN,
           (cxpr_expr_ast_note_unsupported_codegen ''chain_access'' out)\<lparr>uses_field_access := True, is_constant := False\<rparr>, None)
      | CXPR_NODE_PRODUCER_ACCESS name args arg_names _ \<Rightarrow>
          an_then (analyze_list (cxpr_expr_ast_analyze_node reg (depth + 1) lookback) args
              ((cxpr_expr_ast_note_unsupported_codegen ''producer_access'' out)\<lparr>uses_functions := True,
                 uses_field_access := True, is_constant := False\<rparr>))
            (\<lambda>_ out1. case check_call reg name args arg_names of
               Inl e \<Rightarrow> (CXPR_EXPR_UNKNOWN,
                 if err_code e = CXPR_ERR_UNKNOWN_FUNCTION
                 then out1\<lparr>has_unknown_functions := True, first_unknown_function := Some name\<rparr> else out1, Some e)
             | Inr None \<Rightarrow> (CXPR_EXPR_UNKNOWN, out1, None)
             | Inr (Some entry) \<Rightarrow>
                 (CXPR_EXPR_UNKNOWN, if fe_defined_body entry \<noteq> None then out1\<lparr>uses_expressions := True\<rparr> else out1, None))
      | CXPR_NODE_BINARY_OP op left right \<Rightarrow>
          an_then (cxpr_expr_ast_analyze_node reg (depth + 1) lookback left out) (\<lambda>_ out1. an_then (cxpr_expr_ast_analyze_node reg (depth + 1) lookback right out1) (\<lambda>_ out2.
            if op \<in> {CXPR_TOK_AND, CXPR_TOK_OR} then (CXPR_EXPR_BOOL, out2\<lparr>can_short_circuit := True\<rparr>, None)
            else if op \<in> {CXPR_TOK_EQ, CXPR_TOK_NEQ, CXPR_TOK_LT, CXPR_TOK_GT, CXPR_TOK_LTE, CXPR_TOK_GTE, CXPR_TOK_IN}
            then (CXPR_EXPR_BOOL, out2, None)
            else (CXPR_EXPR_NUMBER, out2, None)))
      | CXPR_NODE_UNARY_OP op a \<Rightarrow>
          an_then (cxpr_expr_ast_analyze_node reg (depth + 1) lookback a out) (\<lambda>t out1. (if op = CXPR_TOK_NOT then CXPR_EXPR_BOOL else t, out1, None))
      | CXPR_NODE_FUNCTION_CALL name args arg_names \<Rightarrow>
          an_then (analyze_list (cxpr_expr_ast_analyze_node reg (depth + 1) lookback) args (out\<lparr>uses_functions := True, is_constant := False\<rparr>)) (\<lambda>t out1.
            if name = ''resample'' then
              (case cxpr_resample_call_parse (Ast sp d) of
                 Inl e \<Rightarrow> (CXPR_EXPR_UNKNOWN, out1, Some e)
               | Inr _ \<Rightarrow> (t, out1, None))
            else case check_call reg name args arg_names of
               Inl e \<Rightarrow> (CXPR_EXPR_UNKNOWN,
                 if err_code e = CXPR_ERR_UNKNOWN_FUNCTION
                 then out1\<lparr>has_unknown_functions := True, first_unknown_function := Some name\<rparr> else out1, Some e)
             | Inr None \<Rightarrow> (CXPR_EXPR_UNKNOWN, out1, None)
             | Inr (Some entry) \<Rightarrow>
                 (if fe_has_return_type entry then cxpr_expr_type_from_value (fe_return_type entry) else CXPR_EXPR_UNKNOWN,
                  if fe_defined_body entry \<noteq> None then out1\<lparr>uses_expressions := True\<rparr> else out1, None))
      | CXPR_NODE_INDEX target index \<Rightarrow>
          (case index_depth index lookback (out\<lparr>is_constant := False\<rparr>) of
             (lookback', out1) \<Rightarrow>
               an_then (cxpr_expr_ast_analyze_node reg (depth + 1) lookback' target out1) (\<lambda>_ out2.
               an_then (cxpr_expr_ast_analyze_node reg (depth + 1) 0 index out2) (\<lambda>_ out3. (CXPR_EXPR_UNKNOWN, out3, None))))
      | CXPR_NODE_TERNARY c a b \<Rightarrow>
          an_then (cxpr_expr_ast_analyze_node reg (depth + 1) lookback c (out\<lparr>can_short_circuit := True\<rparr>)) (\<lambda>_ out1.
          an_then (cxpr_expr_ast_analyze_node reg (depth + 1) lookback a out1) (\<lambda>ta out2. an_then (cxpr_expr_ast_analyze_node reg (depth + 1) lookback b out2) (\<lambda>tb out3.
            (if ta = tb then ta else CXPR_EXPR_UNKNOWN, out3, None)))))"
  by pat_completeness auto
termination
  by (relation "measure (\<lambda>(reg, depth, lookback, ast, out). size ast)")
    (auto simp: size_elem less_SucI)

declare cxpr_expr_ast_analyze_node.simps [simp del]

definition cxpr_analyze :: "cxpr_expr_ast \<Rightarrow> cxpr_registry \<Rightarrow> cxpr_analysis \<times> cxpr_error option" where
  "cxpr_analyze ast reg =
     (case cxpr_expr_ast_analyze_node reg 1 0 ast (analysis_zero\<lparr>is_constant := True\<rparr>) of
        (t, out, e) \<Rightarrow>
          (let refs = cxpr_expr_ast_references ast 256 in
           (out\<lparr>result_type := t, is_predicate := (t = CXPR_EXPR_BOOL),
                reference_count := nl_count refs,
                function_count := nl_count (cxpr_expr_ast_functions_used ast 256),
                parameter_count := nl_count (cxpr_expr_ast_variables_used ast 256),
                field_path_count := length (filter (\<lambda>r. CHR ''.'' \<in> set r) (nl_names refs))\<rparr>, e)))"

text \<open>\<open>None\<close> is a parser that does not return, which does not happen.\<close>

definition cxpr_analyze_expr :: "cxpr_expr_parser \<Rightarrow> string \<Rightarrow> cxpr_registry
    \<Rightarrow> (cxpr_analysis option \<times> cxpr_error option) option" where
  "cxpr_analyze_expr parser expression reg =
     (case cxpr_expr_ast_parse parser expression of
        None \<Rightarrow> None
      | Some (None, e, _) \<Rightarrow> Some (None, e)
      | Some (Some ast, _, _) \<Rightarrow> (case cxpr_analyze ast reg of (out, e) \<Rightarrow> Some (Some out, e)))"

section \<open>Durations are exact\<close>

lemma digits_value_ge: "0 \<le> a \<Longrightarrow> \<forall>c \<in> set ds. isdigit c \<Longrightarrow> a \<le> digits_value a ds"
proof (induction ds arbitrary: a)
  case (Cons c ds)
  then have "0 \<le> digit_val c" by (simp add: digit_val_def isdigit_def)
  with Cons.IH [of "10 * a + digit_val c"] Cons.prems show ?case by simp
qed simp

lemma digits_value_snoc: "digits_value a (ds @ [c]) = 10 * digits_value a ds + digit_val c"
  by (induction ds arbitrary: a) auto

lemma duration_digits_eq:
  assumes "0 \<le> n" "n \<le> UINT64_MAX"
  shows "duration_digits n str =
    (let v = digits_value n (takeWhile isdigit str) in if v \<le> UINT64_MAX then Some (v, dropWhile isdigit str) else None)"
  using assms
proof (induction str arbitrary: n)
  case (Cons c cs)
  show ?case
  proof (cases "isdigit c")
    case True
    then have d: "0 \<le> digit_val c" "digit_val c \<le> 9" by (auto simp: digit_val_def isdigit_def)
    have over: "(UINT64_MAX - digit_val c) div 10 < n \<longleftrightarrow> UINT64_MAX < n * 10 + digit_val c" by presburger
    have swap: "n * 10 + digit_val c = 10 * n + digit_val c" by simp
    show ?thesis
    proof (cases "UINT64_MAX < n * 10 + digit_val c")
      case True
      moreover have "10 * n + digit_val c \<le> digits_value (10 * n + digit_val c) (takeWhile isdigit cs)"
        by (rule digits_value_ge) (use d Cons.prems in \<open>auto dest: set_takeWhileD\<close>)
      ultimately show ?thesis using \<open>isdigit c\<close> over by (simp add: Let_def)
    next
      case False
      with Cons.IH [of "n * 10 + digit_val c"] Cons.prems d \<open>isdigit c\<close> over show ?thesis
        by (simp add: swap Let_def)
    qed
  qed (use Cons.prems in simp)
qed simp

lemma digit_char: "k < 10 \<Longrightarrow> isdigit (char_of (48 + k)) \<and> digit_val (char_of (48 + k)) = int k" for k :: nat
  by (simp add: isdigit_def digit_val_def of_char_of)

lemma decimal_digits: "decimal n \<noteq> [] \<and> (\<forall>c \<in> set (decimal n). isdigit c) \<and> digits_value 0 (decimal n) = int n"
proof (induction n rule: decimal.induct)
  case (1 n)
  show ?case
  proof (cases "n < 10")
    case True with digit_char [of n] show ?thesis by (simp add: decimal.simps [of n])
  next
    case False
    then have
      "decimal n = decimal (n div 10) @ [char_of (48 + n mod 10)]" by (simp add: decimal.simps [of n])
    moreover have "10 * int (n div 10) + int (n mod 10) = int n" using mult_div_mod_eq [of 10 "int n"] by (simp add: of_nat_div of_nat_mod)
    ultimately show ?thesis using 1 [OF False] digit_char [of "n mod 10"] by (simp add: digits_value_snoc)
  qed
qed

lemma decimal_length: "n < 10 ^ k \<Longrightarrow> 0 < k \<Longrightarrow> length (decimal n) \<le> k"
proof (induction n arbitrary: k rule: decimal.induct)
  case (1 n)
  show ?case
  proof (cases "n < 10")
    case False
    with "1.prems" obtain k' where k: "k = Suc k'" "0 < k'" by (cases k; cases "k - 1") auto
    then have "n div 10 < 10 ^ k'" using "1.prems" by (simp add: less_mult_imp_div_less mult.commute)
    with 1(1) [OF False this k(2)] False k show ?thesis by (simp add: decimal.simps [of n])
  qed (use "1.prems" in \<open>simp add: decimal.simps [of n]\<close>)
qed

lemma divides_bound:
  fixes m n f :: int
  assumes f: "0 < f"
  shows "m div f < n \<longleftrightarrow> m < n * f"
proof
  have m: "m = (m div f) * f + m mod f" "0 \<le> m mod f" "m mod f < f" using f by simp_all
  show "m < n * f" if "m div f < n"
  proof -
    have "(m div f + 1) * f \<le> n * f" by (rule mult_right_mono) (use that f in auto)
    moreover have "m < (m div f + 1) * f" using m(1,3) unfolding distrib_right by linarith
    ultimately show ?thesis by linarith
  qed
  show "m div f < n" if "m < n * f"
  proof (rule ccontr)
    assume "\<not> m div f < n"
    then have "n * f \<le> (m div f) * f" by (intro mult_right_mono) (use f in auto)
    with m that show False by linarith
  qed
qed

lemma unit_ok: "parse_unit u = Some f \<Longrightarrow> u \<noteq> [] \<and> \<not> isdigit (hd u) \<and> 0 < f \<and> length u \<le> 2"
  by (auto simp: parse_unit_def isdigit_def split: if_splits)

text \<open>What a str denotes, and the interval the parser returns for it.\<close>

lemma duration_accepted:
  assumes "ds \<noteq> []" "\<forall>c \<in> set ds. isdigit c" "parse_unit u = Some f" "0 < digits_value 0 ds" "digits_value 0 ds * f \<le> INT64_MAX"
  shows "cxpr_parse_fixed_duration (ds @ u) =
    Inr \<lparr>duration_ns = digits_value 0 ds * f, canonical = decimal (nat (digits_value 0 ds)) @ u\<rparr>"
proof -
  let ?n = "digits_value 0 ds"
  have u: "u \<noteq> []" "\<not> isdigit (hd u)" "0 < f" "length u \<le> 2" using unit_ok [OF assms(3)] by auto
  then have split: "takeWhile isdigit (ds @ u) = ds" "dropWhile isdigit (ds @ u) = u"
    using assms(2) by (cases u; simp)+
  have "?n \<le> ?n * f" using assms(4) u(3) by simp
  then have small: "?n \<le> UINT64_MAX" "nat ?n < 10 ^ 20" using assms(5) by simp_all
  have "length (decimal (nat ?n)) \<le> 20" by (rule decimal_length) (use small in auto)
  with u(4) have "length (decimal (nat ?n) @ u) < 32" by simp
  moreover have "duration_digits 0 (ds @ u) = Some (?n, u)"
    using small by (simp add: duration_digits_eq split Let_def)
  moreover have "\<not> INT64_MAX div f < ?n" using assms(5) u(3) by (simp add: divides_bound)
  ultimately show ?thesis
    using assms u(1) unfolding cxpr_parse_fixed_duration_def
    by (simp add: CXPR_RESAMPLE_CANONICAL_CAPACITY_def Let_def)
qed

lemma duration_parsed:
  assumes "cxpr_parse_fixed_duration str = Inr iv"
  shows "\<exists>ds u f. str = ds @ u \<and> ds \<noteq> [] \<and> (\<forall>c \<in> set ds. isdigit c) \<and> parse_unit u = Some f \<and> 0 < digits_value 0 ds \<and>
    digits_value 0 ds * f \<le> INT64_MAX"
proof -
  let ?ds = "takeWhile isdigit str" and ?u = "dropWhile isdigit str"
  have str: "str = ?ds @ ?u" and dig: "\<forall>c \<in> set ?ds. isdigit c" by (auto dest: set_takeWhileD)
  have run: "duration_digits 0 str =
      (if digits_value 0 ?ds \<le> UINT64_MAX then Some (digits_value 0 ?ds, ?u) else None)"
    by (simp add: duration_digits_eq Let_def)
  from assms obtain f where f: "parse_unit ?u = Some f" "?u \<noteq> str" "digits_value 0 ?ds \<noteq> 0" "\<not> INT64_MAX div f < digits_value 0 ?ds"
    unfolding cxpr_parse_fixed_duration_def run
    by (cases "parse_unit ?u") (simp_all split: if_splits)
  moreover have "0 \<le> digits_value 0 ?ds" using digits_value_ge [of 0 ?ds] dig by simp
  moreover have "?ds \<noteq> []" using f(2) str by (metis append_Nil)
  ultimately show ?thesis
    using str dig unit_ok [OF f(1)] divides_bound [of f INT64_MAX "digits_value 0 ?ds"]
    by (intro exI [of _ ?ds] exI [of _ ?u] exI [of _ f]) linarith
qed

section \<open>The analysis\<close>

text \<open>The calls the analysis accepts, and the nodes that make an expression depend on its surroundings.\<close>

definition call_ok :: "cxpr_registry \<Rightarrow> cxpr_expr_ast \<Rightarrow> bool" where
  "call_ok reg ast =
     (case ast_data ast of
        CXPR_NODE_FUNCTION_CALL name args arg_names \<Rightarrow>
          if name = ''resample'' then (case cxpr_resample_call_parse ast of Inl _ \<Rightarrow> False | Inr _ \<Rightarrow> True)
          else (case check_call reg name args arg_names of Inl _ \<Rightarrow> False | Inr _ \<Rightarrow> True)
      | CXPR_NODE_PRODUCER_ACCESS name args arg_names _ \<Rightarrow>
          (case check_call reg name args arg_names of Inl _ \<Rightarrow> False | Inr _ \<Rightarrow> True)
      | _ \<Rightarrow> True)"

fun constant_node :: "cxpr_expr_ast \<Rightarrow> bool" where
  "constant_node (Ast sp d) =
     (case d of
        CXPR_NODE_NUMBER _ \<Rightarrow> True
      | CXPR_NODE_INT64 _ \<Rightarrow> True
      | CXPR_NODE_BOOL _ \<Rightarrow> True
      | CXPR_NODE_STRING _ \<Rightarrow> True
      | CXPR_NODE_ARRAY _ \<Rightarrow> True
      | CXPR_NODE_RECORD _ _ \<Rightarrow> True
      | CXPR_NODE_BINARY_OP _ _ _ \<Rightarrow> True
      | CXPR_NODE_UNARY_OP _ _ \<Rightarrow> True
      | CXPR_NODE_TERNARY _ _ _ \<Rightarrow> True
      | _ \<Rightarrow> False)"

function tree_nodes :: "cxpr_expr_ast \<Rightarrow> nat" where
  "tree_nodes ast = Suc (sum_list (map tree_nodes (ast_children ast)))"
  by pat_completeness auto
termination by (relation "measure size") (auto dest: ast_children_size)

declare tree_nodes.simps [simp del]

text \<open>What a visit of a list of trees does to the analysis, when \<open>ok\<close> decides about the node itself.\<close>

definition visits :: "cxpr_registry \<Rightarrow> bool \<Rightarrow> cxpr_expr_ast list \<Rightarrow> cxpr_analysis \<Rightarrow> analyzed \<Rightarrow> bool" where
  "visits reg ok ts out r \<longleftrightarrow>
     (case r of (_, out', e) \<Rightarrow>
        (e = None \<longleftrightarrow> ok \<and> (\<forall>t \<in> set ts. ast_all (call_ok reg) t)) \<and>
        (e = None \<longrightarrow> node_count out' = node_count out + of_nat (sum_list (map tree_nodes ts)) \<and>
           (is_constant out' \<longleftrightarrow> is_constant out \<and> (\<forall>t \<in> set ts. ast_all constant_node t))))"

lemma visits_end:
  "node_count out' = node_count out \<Longrightarrow> is_constant out' = is_constant out \<Longrightarrow> (e = None \<longleftrightarrow> ok) \<Longrightarrow> visits reg ok [] out (t, out', e)"
  by (simp add: visits_def)

lemma visits_append:
  assumes "visits reg True ts out r" "\<And>ty out1. visits reg ok ts' out1 (k ty out1)"
  shows "visits reg ok (ts @ ts') out (an_then r k)"
proof -
  obtain ty out1 e where r: "r = (ty, out1, e)" by (cases r)
  show ?thesis
  proof (cases e)
    case None
    with assms r assms(2) [of out1 ty] show ?thesis by (auto simp: visits_def an_then_def split: prod.splits)
  next
    case Some
    with assms(1) r show ?thesis by (auto simp: visits_def an_then_def)
  qed
qed

lemmas visits_cons = visits_append [of _ "[t]" for t, simplified]
lemmas visits_all = visits_append [of _ _ _ _ _ "[]", simplified]

lemma visits_list:
  assumes "\<And>t out. t \<in> set ts \<Longrightarrow> visits reg True [t] out (visit t out)"
  shows "visits reg True ts out (analyze_list visit ts out)"
  using assms
proof (induction ts arbitrary: out)
  case (Cons t ts)
  show ?case
    unfolding analyze_list.simps by (intro visits_cons visits_all visits_end) (use Cons in auto)
qed (simp add: visits_def)

text \<open>A node is accepted if its children are and it is itself.\<close>

lemma visits_node:
  assumes "visits reg (call_ok reg ast) (ast_children ast) out1 r" "node_count out1 = node_count out + 1"
    and "is_constant out1 \<longleftrightarrow> is_constant out \<and> constant_node ast"
  shows "visits reg True [ast] out r"
  using assms tree_nodes.simps [of ast] ast_all.simps [of "call_ok reg" ast] ast_all.simps [of constant_node ast]
  by (auto simp: visits_def split: prod.splits)

lemma note_simps [simp]:
  "node_count (cxpr_expr_ast_note_unsupported_codegen k out) = node_count out"
  "is_constant (cxpr_expr_ast_note_unsupported_codegen k out) = is_constant out"
  by (simp_all add: cxpr_expr_ast_note_unsupported_codegen_def)

lemma index_depth_simps:
  "index_depth index l out = (l', out1) \<Longrightarrow> node_count out1 = node_count out \<and> is_constant out1 = is_constant out"
  by (auto simp: index_depth_def Let_def split: option.splits if_splits)

lemma analyze_visits: "visits reg True [t] out (cxpr_expr_ast_analyze_node reg depth lookback t out)"
proof (induction t arbitrary: depth lookback out rule: ast_induct)
  case (node a)
  obtain sp d where a: "a = Ast sp d" by (cases a)
  note unfold = cxpr_expr_ast_analyze_node.simps a call_ok_def Let_def
  note steps = visits_cons visits_end and loop = visits_all visits_list visits_end
  let ?out = "out\<lparr>max_depth := max (max_depth out) depth, node_count := node_count out + 1\<rparr>"
  let ?visit = "cxpr_expr_ast_analyze_node reg (depth + 1) lookback"
  show ?case
  proof (cases d)
    case (CXPR_NODE_INDEX target index)
    obtain l' out1 where i: "index_depth index lookback (?out\<lparr>is_constant := False\<rparr>) = (l', out1)" by fastforce
    have "visits reg (call_ok reg a) (ast_children a) out1 (cxpr_expr_ast_analyze_node reg depth lookback a out)"
      using node CXPR_NODE_INDEX i by (auto simp: unfold intro!: steps)
    then show ?thesis by (rule visits_node) (use index_depth_simps [OF i] CXPR_NODE_INDEX in \<open>auto simp: a\<close>)
  next
    case (CXPR_NODE_FUNCTION_CALL name args arg_names)
    have "visits reg (call_ok reg a) (ast_children a) (?out\<lparr>uses_functions := True, is_constant := False\<rparr>)
        (cxpr_expr_ast_analyze_node reg depth lookback a out)"
      using node CXPR_NODE_FUNCTION_CALL by (auto simp: unfold intro!: loop split: sum.split option.split if_splits)
    then show ?thesis by (rule visits_node) (use CXPR_NODE_FUNCTION_CALL in \<open>auto simp: a\<close>)
  next
    case (CXPR_NODE_PRODUCER_ACCESS name args arg_names f)
    have "visits reg (call_ok reg a) (ast_children a)
        ((cxpr_expr_ast_note_unsupported_codegen ''producer_access'' ?out)\<lparr>uses_functions := True,
           uses_field_access := True, is_constant := False\<rparr>) (cxpr_expr_ast_analyze_node reg depth lookback a out)"
      using node CXPR_NODE_PRODUCER_ACCESS by (auto simp: unfold intro!: loop split: sum.split option.split if_splits)
    then show ?thesis by (rule visits_node) (use CXPR_NODE_PRODUCER_ACCESS in \<open>auto simp: a\<close>)
  next
    case (CXPR_NODE_FIELD_EXPR base f)
    have "visits reg (call_ok reg a) (ast_children a)
        ((cxpr_expr_ast_note_unsupported_codegen ''field_access'' ?out)\<lparr>uses_field_access := True, is_constant := False\<rparr>)
        (cxpr_expr_ast_analyze_node reg depth lookback a out)"
      using node CXPR_NODE_FIELD_EXPR by (auto simp: unfold intro!: steps)
    then show ?thesis by (rule visits_node) (use CXPR_NODE_FIELD_EXPR in \<open>auto simp: a\<close>)
  next
    case (CXPR_NODE_ARRAY es)
    have "visits reg (call_ok reg a) (ast_children a) (cxpr_expr_ast_note_unsupported_codegen ''array'' ?out)
        (cxpr_expr_ast_analyze_node reg depth lookback a out)"
      using node CXPR_NODE_ARRAY by (auto simp: unfold intro!: loop)
    then show ?thesis by (rule visits_node) (use CXPR_NODE_ARRAY in \<open>auto simp: a\<close>)
  next
    case (CXPR_NODE_RECORD ns vs)
    have "visits reg (call_ok reg a) (ast_children a) (cxpr_expr_ast_note_unsupported_codegen ''record'' ?out)
        (cxpr_expr_ast_analyze_node reg depth lookback a out)"
      using node CXPR_NODE_RECORD by (auto simp: unfold intro!: loop)
    then show ?thesis by (rule visits_node) (use CXPR_NODE_RECORD in \<open>auto simp: a\<close>)
  next
    case (CXPR_NODE_TERNARY c x y)
    have "visits reg (call_ok reg a) (ast_children a) (?out\<lparr>can_short_circuit := True\<rparr>)
        (cxpr_expr_ast_analyze_node reg depth lookback a out)"
      using node CXPR_NODE_TERNARY by (auto simp: unfold intro!: steps)
    then show ?thesis by (rule visits_node) (use CXPR_NODE_TERNARY in \<open>auto simp: a\<close>)
  next
    case (CXPR_NODE_BINARY_OP op l r)
    have "visits reg (call_ok reg a) (ast_children a) ?out (cxpr_expr_ast_analyze_node reg depth lookback a out)"
      using node CXPR_NODE_BINARY_OP by (auto simp: unfold intro!: steps)
    then show ?thesis by (rule visits_node) (use CXPR_NODE_BINARY_OP in \<open>auto simp: a\<close>)
  next
    case (CXPR_NODE_UNARY_OP op x)
    have "visits reg (call_ok reg a) (ast_children a) ?out (cxpr_expr_ast_analyze_node reg depth lookback a out)"
      using node CXPR_NODE_UNARY_OP by (auto simp: unfold intro!: steps)
    then show ?thesis by (rule visits_node) (use CXPR_NODE_UNARY_OP in \<open>auto simp: a\<close>)
  qed (auto simp: unfold visits_def tree_nodes.simps [of "Ast sp _"] ast_all.simps [of _ "Ast sp _"])
qed

section \<open>Properties\<close>

text \<open>C19: fixed durations are parsed exactly. A text is accepted if and only if it is a run of digits followed by
  one of the seven units, denotes a positive number, and its length in nanoseconds fits \<open>int64_t\<close>; the
  interval is that length and the text without leading zeros, and this canonical text parses to the same
  interval again. Neither overflow check rejects a duration that fits, whatever the number of leading zeros.\<close>

theorem fixed_duration_exact:
  "(cxpr_parse_fixed_duration s = Inr iv \<longleftrightarrow>
     (\<exists>ds u f. s = ds @ u \<and> ds \<noteq> [] \<and> (\<forall>c \<in> set ds. isdigit c) \<and> parse_unit u = Some f \<and>
        0 < digits_value 0 ds \<and> digits_value 0 ds * f \<le> INT64_MAX \<and>
        iv = \<lparr>duration_ns = digits_value 0 ds * f, canonical = decimal (nat (digits_value 0 ds)) @ u\<rparr>)) \<and>
   (cxpr_parse_fixed_duration s = Inr iv \<longrightarrow> cxpr_parse_fixed_duration (canonical iv) = Inr iv)"
proof
  show iff: "cxpr_parse_fixed_duration s = Inr iv \<longleftrightarrow>
     (\<exists>ds u f. s = ds @ u \<and> ds \<noteq> [] \<and> (\<forall>c \<in> set ds. isdigit c) \<and> parse_unit u = Some f \<and>
        0 < digits_value 0 ds \<and> digits_value 0 ds * f \<le> INT64_MAX \<and>
        iv = \<lparr>duration_ns = digits_value 0 ds * f, canonical = decimal (nat (digits_value 0 ds)) @ u\<rparr>)"
    (is "_ \<longleftrightarrow> ?R")
  proof
    assume p: "cxpr_parse_fixed_duration s = Inr iv"
    from duration_parsed [OF p] obtain ds u f where
      d: "s = ds @ u" "ds \<noteq> []" "\<forall>c \<in> set ds. isdigit c" "parse_unit u = Some f" "0 < digits_value 0 ds" "digits_value 0 ds * f \<le> INT64_MAX"
      by blast
    with p duration_accepted [OF d(2-6)] show ?R
      by (intro exI [of _ ds] exI [of _ u] exI [of _ f]) simp
  next
    assume ?R
    then show "cxpr_parse_fixed_duration s = Inr iv" using duration_accepted by auto
  qed
  show "cxpr_parse_fixed_duration s = Inr iv \<longrightarrow> cxpr_parse_fixed_duration (canonical iv) = Inr iv"
  proof
    assume "cxpr_parse_fixed_duration s = Inr iv"
    with iff obtain ds u f where d: "parse_unit u = Some f" "0 < digits_value 0 ds" "digits_value 0 ds * f \<le> INT64_MAX"
      and iv: "iv = \<lparr>duration_ns = digits_value 0 ds * f, canonical = decimal (nat (digits_value 0 ds)) @ u\<rparr>" by blast
    note dec = decimal_digits [of "nat (digits_value 0 ds)"]
    show "cxpr_parse_fixed_duration (canonical iv) = Inr iv"
      using duration_accepted [of "decimal (nat (digits_value 0 ds))" u f] dec d by (simp add: iv)
  qed
qed

theorem fixed_duration_exact_witness:
  "cxpr_parse_fixed_duration ''0090m'' = Inr \<lparr>duration_ns = 5400000000000, canonical = ''90m''\<rparr> \<and>
   cxpr_parse_fixed_duration ''90m'' = Inr \<lparr>duration_ns = 5400000000000, canonical = ''90m''\<rparr>"
proof
  show one: "cxpr_parse_fixed_duration ''0090m'' = Inr \<lparr>duration_ns = 5400000000000, canonical = ''90m''\<rparr>" by code_simp
  then show "cxpr_parse_fixed_duration ''90m'' = Inr \<lparr>duration_ns = 5400000000000, canonical = ''90m''\<rparr>"
    using fixed_duration_exact [of "''0090m''" "\<lparr>duration_ns = 5400000000000, canonical = ''90m''\<rparr>"] by simp
qed

text \<open>C18: the analysis accepts an expression exactly when all its calls are good, at every depth: a call of
  \<open>resample\<close> that is well formed, any other call, with a registry, of a registered function with a number of
  arguments in its range and names that bind. For an accepted expression the node count is the
  number of its nodes, modulo the range of \<open>unsigned\<close>, and it is reported constant exactly when it consists of
  literals, composites and operators alone.\<close>

theorem analyze_exact:
  "case cxpr_analyze t reg of (out, e) \<Rightarrow>
     (e = None \<longleftrightarrow> ast_all (call_ok reg) t) \<and>
     (e = None \<longrightarrow> node_count out = of_nat (tree_nodes t) \<and> (is_constant out \<longleftrightarrow> ast_all constant_node t))"
  using analyze_visits [of reg t "analysis_zero\<lparr>is_constant := True\<rparr>" 1 0]
  by (auto simp: cxpr_analyze_def visits_def Let_def analysis_zero_def split: prod.splits)

definition sum_ast :: cxpr_expr_ast where
  "sum_ast = Ast None (CXPR_NODE_BINARY_OP CXPR_TOK_PLUS (Ast None (CXPR_NODE_NUMBER dbl_one)) (Ast None (CXPR_NODE_NUMBER dbl_one)))"

definition unknown_ast :: cxpr_expr_ast where
  "unknown_ast = Ast None (CXPR_NODE_UNARY_OP CXPR_TOK_MINUS (Ast None (CXPR_NODE_FUNCTION_CALL ''f'' [] [])))"

theorem analyze_exact_witness:
  "snd (cxpr_analyze sum_ast (Some [])) = None \<and> node_count (fst (cxpr_analyze sum_ast (Some []))) = 3 \<and>
   is_constant (fst (cxpr_analyze sum_ast (Some []))) \<and> snd (cxpr_analyze unknown_ast (Some [])) \<noteq> None"
proof -
  have "ast_all (call_ok (Some [])) sum_ast" "ast_all constant_node sum_ast" "tree_nodes sum_ast = 3"
      "\<not> ast_all (call_ok (Some [])) unknown_ast"
    by (simp_all add: sum_ast_def unknown_ast_def ast_all.simps [of _ "Ast sp d" for sp d]
        tree_nodes.simps [of "Ast sp d" for sp d] call_ok_def check_call_def cxpr_registry_find_def)
  then show ?thesis
    using analyze_exact [of "Some []" sum_ast] analyze_exact [of "Some []" unknown_ast]
    by (auto split: prod.splits)
qed

end
