(* ===== verification/Cxpr_Order.thy ===== *)
theory Cxpr_Order
  imports Cxpr_Prelude
begin

text \<open>
  Dependency order of named expressions: the cycle search and the topological sort of
  \<^verbatim>\<open>src/src/expression/expression.c\<close>, over the dependency test \<open>dep\<close> of \<open>n\<close> numbered expressions. \<open>dep i j\<close> says
  that expression \<open>i\<close> refers to expression \<open>j\<close>. The marks of the search are 0 for a node that was not
  visited, 1 for one on the current path and 2 for one that is done.
\<close>

section \<open>The algorithms\<close>

text \<open>The loop over the successors of \<open>node\<close>; \<open>visit\<close> is the search one level deeper.\<close>

fun dfs_loop :: "(nat \<Rightarrow> nat list \<Rightarrow> bool \<times> nat list) \<Rightarrow> (nat \<Rightarrow> nat \<Rightarrow> bool) \<Rightarrow> nat \<Rightarrow> nat list \<Rightarrow> nat list
    \<Rightarrow> bool \<times> nat list" where
  "dfs_loop visit dep node [] visited = (False, visited)"
| "dfs_loop visit dep node (i # is) visited =
     (if i = node \<or> \<not> dep node i then dfs_loop visit dep node is visited
      else if visited ! i = 1 then (True, visited)
      else if visited ! i = 0 then
        (case visit i visited of (True, v) \<Rightarrow> (True, v) | (False, v) \<Rightarrow> dfs_loop visit dep node is v)
      else dfs_loop visit dep node is visited)"

text \<open>The first argument counts the levels that are left, \<open>max_depth + 1 - depth\<close>.\<close>

primrec cxpr_expression_dfs_cycle :: "nat \<Rightarrow> (nat \<Rightarrow> nat \<Rightarrow> bool) \<Rightarrow> nat \<Rightarrow> nat \<Rightarrow> nat list \<Rightarrow> bool \<times> nat list" where
  "cxpr_expression_dfs_cycle 0 dep n node visited = (True, visited)"
| "cxpr_expression_dfs_cycle (Suc left) dep n node visited =
     (let v1 = visited[node := 1] in
      if dep node node then (True, v1)
      else case dfs_loop (cxpr_expression_dfs_cycle left dep n) dep node [0 ..< n] v1 of
          (True, v2) \<Rightarrow> (True, v2)
        | (False, v2) \<Rightarrow> (False, v2[node := 2]))"

fun dfs_all :: "(nat \<Rightarrow> nat \<Rightarrow> bool) \<Rightarrow> nat \<Rightarrow> nat list \<Rightarrow> nat list \<Rightarrow> bool" where
  "dfs_all dep n [] visited = False"
| "dfs_all dep n (i # is) visited =
     (if visited ! i = 0 then
        (case cxpr_expression_dfs_cycle (n + 1) dep n i visited of (True, _) \<Rightarrow> True | (False, v) \<Rightarrow> dfs_all dep n is v)
      else dfs_all dep n is visited)"

definition in_degree :: "(nat \<Rightarrow> nat \<Rightarrow> bool) \<Rightarrow> nat \<Rightarrow> nat \<Rightarrow> nat" where
  "in_degree dep n i = length (filter (\<lambda>j. i \<noteq> j \<and> dep i j) [0 ..< n])"

text \<open>The loop that takes \<open>node\<close> off the dependents; the decrement is that of \<open>size_t\<close>.\<close>

fun release :: "(nat \<Rightarrow> nat \<Rightarrow> bool) \<Rightarrow> nat \<Rightarrow> nat list \<Rightarrow> nat list \<Rightarrow> nat list \<Rightarrow> nat list \<times> nat list" where
  "release dep node [] deg queue = (deg, queue)"
| "release dep node (i # is) deg queue =
     (if i \<noteq> node \<and> dep i node then
        (let d = (if deg ! i = 0 then SIZE_MAX else deg ! i - 1) in
         release dep node is (deg[i := d]) (if d = 0 then queue @ [i] else queue))
      else release dep node is deg queue)"

text \<open>The main loop. \<open>queue\<close> holds what was written to the queue array of \<open>n\<close> cells, of which \<open>front\<close> were
  read; \<open>None\<close> is a write past its end.\<close>

function kahn :: "(nat \<Rightarrow> nat \<Rightarrow> bool) \<Rightarrow> nat \<Rightarrow> nat list \<Rightarrow> nat list \<Rightarrow> nat \<Rightarrow> nat list \<Rightarrow> nat list option" where
  "kahn dep n deg queue front order =
     (if n < length queue then None
      else if length queue \<le> front then Some order
      else let node = queue ! front in
        case release dep node [0 ..< n] deg queue of
          (deg', queue') \<Rightarrow> kahn dep n deg' queue' (front + 1) (order @ [node]))"
  by pat_completeness auto
termination by (relation "measure (\<lambda>(dep, n, deg, queue, front, order). n - front)") auto

declare kahn.simps [simp del]

text \<open>The order, or an error; \<open>Sort_silent\<close> is the failure of an allocation that is not reported. \<open>mem k\<close>
  says whether the allocation with number \<open>k\<close> succeeds: the degrees, the marks, the queue and the order.\<close>

datatype topo_result = Sorted "nat list" | Sort_error cxpr_error_code string | Sort_silent | Sort_overrun

definition topo_sort :: "(nat \<Rightarrow> bool) \<Rightarrow> (nat \<Rightarrow> nat \<Rightarrow> bool) \<Rightarrow> nat \<Rightarrow> topo_result" where
  "topo_sort mem dep n =
     (let deg = map (in_degree dep n) [0 ..< n] in
      if n = 0 then Sorted []
      else if \<not> mem 0 then Sort_error CXPR_ERR_OUT_OF_MEMORY ''Out of memory''
      else if \<not> mem 1 then Sort_silent
      else if dfs_all dep n [0 ..< n] (replicate n 0)
      then Sort_error CXPR_ERR_CIRCULAR_DEPENDENCY ''Circular dependency detected''
      else if \<not> mem 2 \<or> \<not> mem 3 then Sort_silent
      else case kahn dep n deg (filter (\<lambda>i. deg ! i = 0) [0 ..< n]) 0 [] of
          None \<Rightarrow> Sort_overrun
        | Some order \<Rightarrow>
            if length order \<noteq> n
            then Sort_error CXPR_ERR_CIRCULAR_DEPENDENCY ''Circular dependency detected''
            else Sorted order)"

section \<open>The cycle search\<close>

definition edges :: "(nat \<Rightarrow> nat \<Rightarrow> bool) \<Rightarrow> nat \<Rightarrow> (nat \<times> nat) set" where
  "edges dep n = {(i, j). i < n \<and> j < n \<and> dep i j}"

definition grey :: "nat \<Rightarrow> nat list \<Rightarrow> nat set" where
  "grey n v = {i. i < n \<and> v ! i = 1}"

text \<open>What a search without a cycle does to the marks: it finishes some unvisited nodes, none of
  which depends on itself.\<close>

definition advances :: "(nat \<Rightarrow> nat \<Rightarrow> bool) \<Rightarrow> nat \<Rightarrow> nat list \<Rightarrow> nat list \<Rightarrow> bool" where
  "advances dep n v v' \<longleftrightarrow> length v' = length v \<and>
     (\<forall>i<n. v' ! i = v ! i \<or> v ! i = 0 \<and> v' ! i = 2 \<and> \<not> dep i i)"

lemma advances_refl [simp]: "advances dep n v v"
  by (simp add: advances_def)

lemma advances_trans: "advances dep n u v \<Longrightarrow> advances dep n v w \<Longrightarrow> advances dep n u w"
  unfolding advances_def by (metis zero_neq_numeral)

lemma advances_grey: "advances dep n v v' \<Longrightarrow> grey n v' = grey n v"
  by (fastforce simp: advances_def grey_def)

lemma grey_update: "node < n \<Longrightarrow> length v = n \<Longrightarrow> grey n (v[node := 1]) = insert node (grey n v)"
  by (auto simp: grey_def nth_list_update)

text \<open>A search step either finds a cycle or advances; \<open>node\<close> was not visited and every node on the
  path reaches it.\<close>

definition step_ok :: "(nat \<Rightarrow> nat \<Rightarrow> bool) \<Rightarrow> nat \<Rightarrow> nat list \<Rightarrow> bool \<times> nat list \<Rightarrow> bool" where
  "step_ok dep n v r \<longleftrightarrow> (case r of (True, _) \<Rightarrow> \<not> acyclic (edges dep n) | (False, v') \<Rightarrow> advances dep n v v')"

lemma dfs_loop_ok:
  assumes "\<And>i u. i < n \<Longrightarrow> dep node i \<Longrightarrow> advances dep n v u \<Longrightarrow> u ! i = 0 \<Longrightarrow> step_ok dep n u (visit i u) \<and> (\<forall>w. visit i u = (False, w) \<longrightarrow> w ! i = 2)"
    and "node < n" "\<forall>g \<in> grey n v. (g, node) \<in> (edges dep n)\<^sup>*" "set is \<subseteq> {..<n}" "advances dep n v u"
  shows "step_ok dep n v (dfs_loop visit dep node is u)"
  using assms(4,5)
proof (induction "is" arbitrary: u)
  case (Cons i "is")
  then have i: "i < n" by simp
  show ?case
  proof (cases "i = node \<or> \<not> dep node i")
    case False
    have grey: "u ! i = 1 \<Longrightarrow> \<not> acyclic (edges dep n)"
    proof -
      assume "u ! i = 1"
      then have "i \<in> grey n v" using advances_grey [OF Cons.prems(2)] i by (auto simp: grey_def)
      with assms(3) have "(i, node) \<in> (edges dep n)\<^sup>*" by blast
      moreover have "(node, i) \<in> edges dep n" using False i assms(2) by (simp add: edges_def)
      ultimately show ?thesis by (meson acyclic_def rtrancl_into_trancl1)
    qed
    show ?thesis
    proof (cases "u ! i = 0")
      case True
      from assms(1) [OF i _ Cons.prems(2) True] False have ok: "step_ok dep n u (visit i u)" by simp
      obtain b w where r: "visit i u = (b, w)" by fastforce
      show ?thesis
      proof (cases b)
        case True with ok r False \<open>u ! i = 0\<close> show ?thesis by (simp add: step_ok_def)
      next
        case b: False
        with ok r have "advances dep n u w" by (simp add: step_ok_def)
        with Cons.IH [of w] Cons.prems advances_trans r b False \<open>u ! i = 0\<close> show ?thesis by auto
      qed
    next
      case False
      with grey Cons \<open>\<not> (i = node \<or> \<not> dep node i)\<close> show ?thesis by (auto simp: step_ok_def)
    qed
  qed (use Cons in simp)
qed (simp add: step_ok_def)

lemma dfs_cycle_ok:
  assumes "node < n" "length v = n" "v ! node = 0" "\<forall>g \<in> grey n v. (g, node) \<in> (edges dep n)\<^sup>*"
    and "n < card (grey n v) + left"
  shows "step_ok dep n v (cxpr_expression_dfs_cycle left dep n node v) \<and>
    (\<forall>w. cxpr_expression_dfs_cycle left dep n node v = (False, w) \<longrightarrow> w ! node = 2)"
  using assms
proof (induction left arbitrary: node v)
  case 0
  have "card (grey n v) \<le> card {..<n}" by (rule card_mono) (auto simp: grey_def)
  with 0 show ?case by simp
next
  case (Suc left)
  let ?v = "v[node := 1]"
  have grey: "grey n ?v = insert node (grey n v)" by (rule grey_update) (use Suc.prems in auto)
  have fin: "finite (grey n v)" "node \<notin> grey n v" using Suc.prems(3) by (auto simp: grey_def)
  show ?case
  proof (cases "dep node node")
    case True
    then have "(node, node) \<in> edges dep n" using Suc.prems by (simp add: edges_def)
    then have "\<not> acyclic (edges dep n)" by (meson acyclic_def r_into_trancl')
    with True show ?thesis by (simp add: step_ok_def Let_def)
  next
    case False
    have loop: "step_ok dep n ?v (dfs_loop (cxpr_expression_dfs_cycle left dep n) dep node [0 ..< n] ?v)"
    proof (rule dfs_loop_ok)
      fix i u assume i: "i < n" "dep node i" "advances dep n ?v u" "u ! i = 0"
      have "(node, i) \<in> edges dep n" using i Suc.prems by (simp add: edges_def)
      then have reach: "\<forall>g \<in> grey n u. (g, i) \<in> (edges dep n)\<^sup>*"
        using advances_grey [OF i(3)] grey Suc.prems(4) by (auto intro: rtrancl_into_rtrancl)
      have "n < card (grey n u) + left" using advances_grey [OF i(3)] grey fin Suc.prems(5) by simp
      moreover have "length u = n" using i(3) Suc.prems(2) by (simp add: advances_def)
      ultimately show "step_ok dep n u (cxpr_expression_dfs_cycle left dep n i u) \<and>
          (\<forall>w. cxpr_expression_dfs_cycle left dep n i u = (False, w) \<longrightarrow> w ! i = 2)"
        using Suc.IH i(1,4) reach by blast
    qed (use Suc.prems grey in auto)
    obtain b w where r: "dfs_loop (cxpr_expression_dfs_cycle left dep n) dep node [0 ..< n] ?v = (b, w)" by fastforce
    show ?thesis
    proof (cases b)
      case True with loop r False show ?thesis by (simp add: step_ok_def Let_def)
    next
      case b: False
      with loop r have adv: "advances dep n ?v w" by (simp add: step_ok_def)
      then have "advances dep n v (w[node := 2])"
        using Suc.prems False by (auto simp: advances_def nth_list_update split: if_splits)
      moreover have "length w = n" using adv Suc.prems(2) by (simp add: advances_def)
      ultimately show ?thesis using r b False Suc.prems(1) by (simp add: step_ok_def Let_def)
    qed
  qed
qed

lemma dfs_all_ok:
  assumes "set is \<subseteq> {..<n}" "length v = n" "grey n v = {}" "\<forall>i<n. v ! i \<noteq> 0 \<longrightarrow> \<not> dep i i"
  shows "if dfs_all dep n is v then \<not> acyclic (edges dep n) else \<forall>i \<in> set is. \<not> dep i i"
  using assms
proof (induction "is" arbitrary: v)
  case (Cons i "is")
  then have i: "i < n" by simp
  show ?case
  proof (cases "v ! i = 0")
    case True
    obtain b w where r: "cxpr_expression_dfs_cycle (n + 1) dep n i v = (b, w)" by fastforce
    have ok: "step_ok dep n v (b, w)" "\<not> b \<Longrightarrow> w ! i = 2"
      using dfs_cycle_ok [of i n v dep "n + 1"] Cons.prems i True r by auto
    show ?thesis
    proof (cases b)
      case True with ok r \<open>v ! i = 0\<close> show ?thesis by (simp add: step_ok_def)
    next
      case False
      with ok(1) have adv: "advances dep n v w" by (simp add: step_ok_def)
      then have "\<forall>k<n. w ! k \<noteq> 0 \<longrightarrow> \<not> dep k k" using Cons.prems(4) by (metis advances_def)
      moreover from this ok(2) False i have "\<not> dep i i" by simp
      ultimately show ?thesis
        using Cons.IH [of w] Cons.prems adv advances_grey [OF adv] r False True by (auto simp: advances_def)
    qed
  next
    case False
    with Cons i show ?thesis by auto
  qed
qed simp

section \<open>The sort\<close>

text \<open>What \<open>release\<close> does, for distinct indices and dependents of positive degree.\<close>

lemma release_result:
  assumes "distinct is" "\<forall>i \<in> set is. i < length deg" "\<forall>i \<in> set is. i \<noteq> node \<and> dep i node \<longrightarrow> 0 < deg ! i"
  shows "case release dep node is deg queue of
    (deg', queue') \<Rightarrow> length deg' = length deg \<and>
      (\<forall>i < length deg. deg' ! i = (if i \<in> set is \<and> i \<noteq> node \<and> dep i node then deg ! i - 1 else deg ! i)) \<and>
      queue' = queue @ filter (\<lambda>i. i \<noteq> node \<and> dep i node \<and> deg ! i = 1) is"
  using assms
proof (induction "is" arbitrary: deg queue)
  case (Cons i "is")
  show ?case
  proof (cases "i \<noteq> node \<and> dep i node")
    case True
    let ?deg = "deg[i := deg ! i - 1]" and ?queue = "if deg ! i = 1 then queue @ [i] else queue"
    have pos: "0 < deg ! i" "i < length deg" using Cons.prems True by auto
    have same: "?deg ! k = deg ! k" if "k \<in> set is" for k using Cons.prems(1) that by (metis distinct.simps(2) nth_list_update_neq)
    have "release dep node (i # is) deg queue = release dep node is ?deg ?queue"
      using True pos by (auto simp: Let_def)
    moreover have "filter (\<lambda>k. k \<noteq> node \<and> dep k node \<and> ?deg ! k = 1) is = filter (\<lambda>k. k \<noteq> node \<and> dep k node \<and> deg ! k = 1) is"
      by (rule filter_cong [OF refl]) (simp only: same)
    moreover have "\<forall>k \<in> set is. k \<noteq> node \<and> dep k node \<longrightarrow> 0 < ?deg ! k" using Cons.prems(3) same by simp
    ultimately show ?thesis
      using Cons.IH [of ?deg ?queue] Cons.prems True pos
      by (auto simp: nth_list_update split: prod.splits)
  next
    case False
    then have "release dep node (i # is) deg queue = release dep node is deg queue" by auto
    moreover have "(k \<in> set (i # is) \<and> k \<noteq> node \<and> dep k node) = (k \<in> set is \<and> k \<noteq> node \<and> dep k node)" for k
      using False by auto
    ultimately show ?thesis using Cons.IH [of deg queue] Cons.prems False by (auto split: prod.splits)
  qed
qed simp

text \<open>The nodes that are not yet in the order and on which a node depends.\<close>

definition waits_for :: "(nat \<Rightarrow> nat \<Rightarrow> bool) \<Rightarrow> nat \<Rightarrow> nat set \<Rightarrow> nat \<Rightarrow> nat set" where
  "waits_for dep n ready i = {j. j < n \<and> j \<noteq> i \<and> dep i j \<and> j \<notin> ready}"

definition kahn_inv :: "(nat \<Rightarrow> nat \<Rightarrow> bool) \<Rightarrow> nat \<Rightarrow> nat list \<Rightarrow> nat list \<Rightarrow> nat \<Rightarrow> nat list \<Rightarrow> bool" where
  "kahn_inv dep n deg queue front order \<longleftrightarrow>
     order = take front queue \<and> front \<le> length queue \<and> distinct queue \<and> set queue \<subseteq> {..<n} \<and> length deg = n \<and>
     (\<forall>i<n. deg ! i = card (waits_for dep n (set order) i)) \<and>
     (\<forall>i<n. i \<in> set queue \<longleftrightarrow> deg ! i = 0) \<and>
     (\<forall>k<length order. waits_for dep n (set (take k order)) (order ! k) = {})"

lemma finite_waits [simp]: "finite (waits_for dep n d i)"
  by (simp add: waits_for_def)

lemma in_degree_card: "in_degree dep n i = card (waits_for dep n {} i)"
proof -
  have "waits_for dep n {} i = set (filter (\<lambda>j. i \<noteq> j \<and> dep i j) [0 ..< n])" by (auto simp: waits_for_def)
  then have "card (waits_for dep n {} i) = card (set (filter (\<lambda>j. i \<noteq> j \<and> dep i j) [0 ..< n]))" by (rule arg_cong)
  also have "\<dots> = length (filter (\<lambda>j. i \<noteq> j \<and> dep i j) [0 ..< n])" by (rule distinct_card) simp
  finally show ?thesis by (simp add: in_degree_def)
qed

lemma kahn_inv_start:
  "kahn_inv dep n (map (in_degree dep n) [0 ..< n])
     (filter (\<lambda>i. map (in_degree dep n) [0 ..< n] ! i = 0) [0 ..< n]) 0 []"
  by (auto simp: kahn_inv_def in_degree_card)

lemma waits_insert:
  assumes "node < n" "node \<notin> d"
  shows "waits_for dep n (insert node d) i = waits_for dep n d i - {node}"
    "node \<in> waits_for dep n d i \<longleftrightarrow> i \<noteq> node \<and> dep i node"
  using assms by (auto simp: waits_for_def)

lemma kahn_inv_step:
  assumes inv: "kahn_inv dep n deg queue front order" and front: "front < length queue"
    and r: "release dep (queue ! front) [0 ..< n] deg queue = (deg', queue')"
  shows "kahn_inv dep n deg' queue' (front + 1) (order @ [queue ! front])"
proof -
  let ?node = "queue ! front"
  note I = inv [unfolded kahn_inv_def]
  have mem: "?node \<in> set queue" using front by simp
  then have node: "?node < n" "deg ! ?node = 0" using I by auto
  have new: "?node \<notin> set order" using I front by (auto simp: in_set_conv_nth nth_eq_iff_index_eq)
  have pos: "0 < deg ! i" if "i < n" "i \<noteq> ?node" "dep i ?node" for i
    using I that waits_insert(2) [OF node(1) new, of dep i] by (metis card_gt_0_iff empty_iff finite_waits)
  have rel: "length deg' = n" "\<forall>i<n. deg' ! i = (if i \<noteq> ?node \<and> dep i ?node then deg ! i - 1 else deg ! i)"
      "queue' = queue @ filter (\<lambda>i. i \<noteq> ?node \<and> dep i ?node \<and> deg ! i = 1) [0 ..< n]"
    using release_result [of "[0 ..< n]" deg ?node dep queue] I pos r by auto
  have order: "set (order @ [?node]) = insert ?node (set order)" by simp
  have deg: "\<forall>i<n. deg' ! i = card (waits_for dep n (set (order @ [?node])) i)"
    using I rel(2) waits_insert [OF node(1) new, of dep] unfolding order by (simp add: card_Diff_singleton_if)
  have zero: "\<forall>i<n. i \<in> set queue' \<longleftrightarrow> deg' ! i = 0"
  proof (intro allI impI)
    fix i assume i: "i < n"
    have q: "i \<in> set queue \<longleftrightarrow> deg ! i = 0" using I i by blast
    show "i \<in> set queue' \<longleftrightarrow> deg' ! i = 0" using rel i q pos [OF i] by auto
  qed
  have "take (front + 1) queue' = order @ [?node]" using I rel(3) front by (simp add: take_Suc_conv_app_nth)
  moreover have "distinct queue'" using I rel(3) by (auto simp: distinct_append)
  moreover have "set queue' \<subseteq> {..<n}" using I rel(3) by auto
  moreover have "waits_for dep n (set order) ?node = {}" using I node by (metis card_0_eq finite_waits)
  ultimately show ?thesis
    using I rel(1) deg zero front unfolding kahn_inv_def
    by (auto simp: nth_append less_Suc_eq rel(3))
qed

lemma kahn_inv_bound: "kahn_inv dep n deg queue front order \<Longrightarrow> length queue \<le> n"
  using card_mono [of "{..<n}" "set queue"] by (simp add: kahn_inv_def distinct_card)

lemma kahn_result:
  "kahn_inv dep n deg queue front order \<Longrightarrow>
   \<exists>deg' queue' order'. kahn_inv dep n deg' queue' (length queue') order' \<and> kahn dep n deg queue front order = Some order'"
proof (induction dep n deg queue front order rule: kahn.induct)
  case (1 dep n deg queue front order)
  have bound: "\<not> n < length queue" using kahn_inv_bound [OF "1.prems"] by simp
  show ?case
  proof (cases "length queue \<le> front")
    case True
    with "1.prems" have "front = length queue" by (simp add: kahn_inv_def)
    with True bound "1.prems" show ?thesis by (subst kahn.simps) auto
  next
    case False
    obtain deg' queue' where r: "release dep (queue ! front) [0 ..< n] deg queue = (deg', queue')" by fastforce
    with False "1.prems" have "kahn_inv dep n deg' queue' (front + 1) (order @ [queue ! front])"
      using kahn_inv_step by auto
    from "1.IH" [OF bound False refl r [symmetric] this] False bound r show ?thesis
      by (subst kahn.simps) (simp add: Let_def)
  qed
qed

text \<open>Nodes that wait for one another form a cycle.\<close>

lemma waiting_cycle:
  assumes "R \<subseteq> {..<n}" "R \<noteq> {}" "\<forall>i \<in> R. \<exists>j \<in> R. dep i j"
  shows "\<not> acyclic (edges dep n)"
proof
  assume "acyclic (edges dep n)"
  moreover have "finite (edges dep n)"
    by (rule finite_subset [of _ "{..<n} \<times> {..<n}"]) (auto simp: edges_def)
  ultimately have "wf ((edges dep n)\<inverse>)" by (rule finite_acyclic_wf_converse [rotated])
  then obtain z where "z \<in> R" "\<And>y. (y, z) \<in> (edges dep n)\<inverse> \<Longrightarrow> y \<notin> R"
    using assms(2) by (metis all_not_in_conv wf_eq_minimal)
  with assms(1,3) show False by (auto simp: edges_def)
qed

text \<open>An order of all nodes in which every node comes after the nodes it depends on.\<close>

definition dependency_order :: "(nat \<Rightarrow> nat \<Rightarrow> bool) \<Rightarrow> nat \<Rightarrow> nat list \<Rightarrow> bool" where
  "dependency_order dep n order \<longleftrightarrow> distinct order \<and> set order = {..<n} \<and>
     (\<forall>k < n. \<forall>j < n. dep (order ! k) j \<longrightarrow> j \<in> set (take k order))"

lemma dependency_order_acyclic:
  assumes "dependency_order dep n order"
  shows "acyclic (edges dep n)"
proof -
  have len: "length order = n" using assms distinct_card [of order] by (simp add: dependency_order_def)
  let ?pos = "\<lambda>i. THE k. k < n \<and> order ! k = i"
  have pos: "?pos (order ! k) = k" if "k < n" for k
    using that assms len by (intro the_equality) (auto simp: dependency_order_def nth_eq_iff_index_eq)
  have "?pos j < ?pos i" if "(i, j) \<in> edges dep n" for i j
  proof -
    from that have ij: "i < n" "j < n" "dep i j" by (auto simp: edges_def)
    then obtain k where k: "k < n" "order ! k = i" using assms len by (metis dependency_order_def in_set_conv_nth lessThan_iff)
    with ij assms have "j \<in> set (take k order)" by (auto simp: dependency_order_def)
    then obtain m where "m < k" "order ! m = j" using k len by (auto simp: in_set_conv_nth)
    with k pos show ?thesis by (metis order.strict_trans)
  qed
  then have "edges dep n \<subseteq> (measure ?pos)\<inverse>" by auto
  then show ?thesis by (metis acyclic_converse acyclic_subset wf_acyclic wf_measure)
qed

lemma sorted_order:
  assumes "kahn_inv dep n deg queue (length queue) order" "length order = n" "\<forall>i<n. \<not> dep i i"
  shows "dependency_order dep n order"
proof -
  note I = assms(1) [unfolded kahn_inv_def]
  have "order = queue" using I by simp
  then have dist: "distinct order" "set order \<subseteq> {..<n}" using I by auto
  then have ord: "set order = {..<n}" using card_subset_eq [of "{..<n}" "set order"] distinct_card [of order] assms(2) by simp
  moreover have "j \<in> set (take k order)" if "k < n" "j < n" "dep (order ! k) j" for k j
  proof -
    have "order ! k < n" using that(1) ord assms(2) nth_mem by blast
    then have "j \<noteq> order ! k" using assms(3) that(3) by metis
    then show ?thesis using I that assms(2) by (auto simp: waits_for_def)
  qed
  ultimately show ?thesis using dist by (simp add: dependency_order_def)
qed

lemma unsorted_cycle:
  assumes "kahn_inv dep n deg queue (length queue) order" "length order \<noteq> n"
  shows "\<not> acyclic (edges dep n)"
proof (rule waiting_cycle)
  note I = assms(1) [unfolded kahn_inv_def]
  have q: "order = queue" using I by simp
  show "{..<n} - set order \<noteq> {}"
  proof
    assume "{..<n} - set order = {}"
    then have "set order = {..<n}" using I q by auto
    then show False using assms(2) I q distinct_card [of order] by simp
  qed
  show "\<forall>i \<in> {..<n} - set order. \<exists>j \<in> {..<n} - set order. dep i j"
  proof
    fix i assume i: "i \<in> {..<n} - set order"
    then have "deg ! i \<noteq> 0" using I q by auto
    then have "waits_for dep n (set order) i \<noteq> {}" using I i by auto
    then show "\<exists>j \<in> {..<n} - set order. dep i j" by (auto simp: waits_for_def)
  qed
qed auto

text \<open>Every outcome of the sort, allocation failures included.\<close>

lemma topo_sort_outcome:
  "case topo_sort mem dep n of
      Sorted order \<Rightarrow> dependency_order dep n order \<and> acyclic (edges dep n)
    | Sort_error code message \<Rightarrow> code = CXPR_ERR_CIRCULAR_DEPENDENCY \<and> \<not> acyclic (edges dep n) \<or> \<not> mem 0
    | Sort_silent \<Rightarrow> \<not> (mem 1 \<and> mem 2 \<and> mem 3)
    | Sort_overrun \<Rightarrow> False"
proof -
  let ?deg = "map (in_degree dep n) [0 ..< n]"
  have dfs: "if dfs_all dep n [0 ..< n] (replicate n 0) then \<not> acyclic (edges dep n) else \<forall>i \<in> set [0 ..< n]. \<not> dep i i"
    by (rule dfs_all_ok) (auto simp: grey_def)
  obtain deg queue order where inv: "kahn_inv dep n deg queue (length queue) order"
      and run: "kahn dep n ?deg (filter (\<lambda>i. ?deg ! i = 0) [0 ..< n]) 0 [] = Some order"
    using kahn_result [OF kahn_inv_start] by blast
  have zero: "dependency_order dep 0 []" by (simp add: dependency_order_def)
  show ?thesis
  proof (cases "dfs_all dep n [0 ..< n] (replicate n 0)")
    case True
    then have "n \<noteq> 0" by (intro notI) simp
    with True dfs show ?thesis by (simp add: topo_sort_def Let_def)
  next
    case False
    with dfs have irrefl: "\<forall>i<n. \<not> dep i i" by simp
    show ?thesis
      using False run sorted_order [OF inv _ irrefl] unsorted_cycle [OF inv] dependency_order_acyclic [of dep n]
        zero by (auto simp: topo_sort_def Let_def)
  qed
qed

section \<open>Properties\<close>

text \<open>C15: the dependency sort is correct and complete. With memory for its arrays it never writes past
  them, and it returns an order exactly when the dependencies have no cycle, an expression that refers to itself
  included; the order contains every expression once and each one after those it refers to. Otherwise
  it reports a circular dependency.\<close>

theorem topo_sort_correct:
  assumes "\<forall>k. mem k"
  shows "case topo_sort mem dep n of
      Sorted order \<Rightarrow> dependency_order dep n order \<and> acyclic (edges dep n)
    | Sort_error code message \<Rightarrow> code = CXPR_ERR_CIRCULAR_DEPENDENCY \<and> \<not> acyclic (edges dep n)
    | _ \<Rightarrow> False"
  using topo_sort_outcome [of dep n mem] assms by (auto split: topo_result.splits)

theorem topo_sort_correct_witness:
  "topo_sort (\<lambda>_. True) (\<lambda>i j. (i, j) \<in> {(0, 2), (2, 1)}) 3 = Sorted [1, 2, 0] \<and>
   dependency_order (\<lambda>i j. (i, j) \<in> {(0, 2), (2, 1)}) 3 [1, 2, 0]"
proof -
  have "topo_sort (\<lambda>_. True) (\<lambda>i j. (i, j) \<in> {(0, 2), (2, 1)}) 3 = Sorted [1, 2, 0]" by code_simp
  with topo_sort_correct [of "\<lambda>_. True" "\<lambda>i j. (i, j) \<in> {(0, 2), (2, 1)}" 3] show ?thesis by simp
qed

end
