(* ===== verification/Cxpr_Typed.thy ===== *)
theory Cxpr_Typed
  imports Cxpr_Tree
begin

text \<open>
  The typed executor of intermediate code: \<^verbatim>\<open>src/src/ir/exec/typed.c\<close>, its lookups (\<^verbatim>\<open>lookup.c\<close>) and
  calls (\<^verbatim>\<open>calls.c\<close>), and the stack helpers of \<^verbatim>\<open>src/src/ir/program.c\<close>. Unlike the fast executors it
  checks its stack of 64 values. One dispatch is one step on \<open>typed_state\<close>; \<open>ir_run\<close> repeats it. The
  surroundings are those of the tree evaluator and, in \<open>typed_env\<close>, the fuel the executor grants the
  evaluator, the public evaluation entry (\<open>cxpr_eval_ast\<close>), the cached scalar lookup of an
  instruction and the parameter lookups by kind. Ownership of stack values is not modelled.
\<close>

section \<open>Surroundings, state and stack (program.c, lookup.c)\<close>

record 'f typed_env =
  tx_env :: "'f eval_env"
  tx_fuel :: nat
  tx_eval_ast :: "cxpr_expr_ast option \<Rightarrow> 'f list \<Rightarrow> 'f ev"
  tx_scalar :: "nat \<Rightarrow> cxpr_ir_instr \<Rightarrow> bool \<Rightarrow> 'f list \<Rightarrow> double option \<times> 'f list"
  tx_prehashed :: "string \<Rightarrow> ulong \<Rightarrow> 'f list \<Rightarrow> double option"
  tx_param_bool :: "string \<Rightarrow> 'f list \<Rightarrow> bool option"
  tx_param_string :: "string \<Rightarrow> 'f list \<Rightarrow> string option"

record 'f typed_state =
  ty_ip :: nat
  ty_stack :: "cxpr_value list"
  ty_lookback :: "nat list"
  ty_offset :: nat
  ty_depth :: nat
  ty_frames :: "'f list"

type_synonym 'f typed_out = "('f typed_state, cxpr_value) outcome"

definition cxpr_ir_stack_push :: "cxpr_value \<Rightarrow> 'f typed_state \<Rightarrow> 'f typed_out" where
  "cxpr_ir_stack_push v st =
     (if CXPR_IR_STACK_CAPACITY \<le> length (ty_stack st) then cxpr_ir_runtime_error ''IR stack overflow'' st
      else Continue (st\<lparr>ty_stack := v # ty_stack st, ty_ip := ty_ip st + 1\<rparr>))"

definition cxpr_ir_push_squared :: "cxpr_value \<Rightarrow> 'f typed_state \<Rightarrow> 'f typed_out" where
  "cxpr_ir_push_squared v st =
     (case v of
        cxpr_num d \<Rightarrow> cxpr_ir_stack_push (cxpr_num (dbl_mul d d)) st
      | _ \<Rightarrow> Error CXPR_ERR_TYPE_MISMATCH ''Square operation requires double operand'' st)"

definition cxpr_ir_require_stack :: "nat \<Rightarrow> 'f typed_state \<Rightarrow> 'f typed_out \<Rightarrow> 'f typed_out" where
  "cxpr_ir_require_stack need st k =
     (if length (ty_stack st) < need then cxpr_ir_runtime_error ''IR stack underflow'' st else k)"

definition cxpr_ir_pop1 :: "'f typed_state \<Rightarrow> (cxpr_value \<Rightarrow> 'f typed_state \<Rightarrow> 'f typed_out) \<Rightarrow> 'f typed_out" where
  "cxpr_ir_pop1 st k =
     (case ty_stack st of
        a # rest \<Rightarrow> k a (st\<lparr>ty_stack := rest\<rparr>)
      | _ \<Rightarrow> cxpr_ir_runtime_error ''IR stack underflow'' st)"

text \<open>\<open>left\<close> is below \<open>right\<close>.\<close>

definition cxpr_ir_pop2 :: "'f typed_state \<Rightarrow> (cxpr_value \<Rightarrow> cxpr_value \<Rightarrow> 'f typed_state \<Rightarrow> 'f typed_out) \<Rightarrow> 'f typed_out" where
  "cxpr_ir_pop2 st k =
     (case ty_stack st of
        right # left # rest \<Rightarrow> k left right (st\<lparr>ty_stack := rest\<rparr>)
      | _ \<Rightarrow> cxpr_ir_runtime_error ''IR stack underflow'' st)"

definition cxpr_ir_require_type :: "cxpr_value \<Rightarrow> cxpr_value_type \<Rightarrow> string \<Rightarrow> 'f typed_state \<Rightarrow> 'f typed_out
    \<Rightarrow> 'f typed_out" where
  "cxpr_ir_require_type v t message st k =
     (if value_type v \<noteq> t then Error CXPR_ERR_TYPE_MISMATCH message st else k)"

definition cxpr_ir_make_not_found :: "string \<Rightarrow> 'f typed_state \<Rightarrow> 'f typed_out" where
  "cxpr_ir_make_not_found message st = Error CXPR_ERR_UNKNOWN_IDENTIFIER message st"

text \<open>A call that may set the error object, followed by the failing return.\<close>

definition ty_then :: "'f ev \<Rightarrow> 'f typed_state \<Rightarrow> (cxpr_value \<Rightarrow> 'f typed_state \<Rightarrow> 'f typed_out) \<Rightarrow> 'f typed_out" where
  "ty_then r st k =
     (case r of
        (v, cs, Ok) \<Rightarrow> k v (st\<lparr>ty_frames := cs\<rparr>)
      | (v, cs, Err code message) \<Rightarrow> Error code message (st\<lparr>ty_frames := cs\<rparr>)
      | (v, cs, Stuck) \<Rightarrow> Crash)"

text \<open>The arguments on the stack in their order, and the state without them.\<close>

definition ty_args :: "nat \<Rightarrow> 'f typed_state \<Rightarrow> cxpr_value list" where
  "ty_args n st = rev (take n (ty_stack st))"

definition ty_drop :: "nat \<Rightarrow> 'f typed_state \<Rightarrow> 'f typed_state" where
  "ty_drop n st = st\<lparr>ty_stack := drop n (ty_stack st)\<rparr>"

section \<open>Lookups (lookup.c)\<close>

definition cxpr_ir_unknown_lookup_message :: "string \<Rightarrow> string \<Rightarrow> string" where
  "cxpr_ir_unknown_lookup_message kind name =
     take 511 (''Unknown '' @ kind @ (if name = [] then '''' else '' '' @ quoted name))"

definition ir_error :: "cxpr_error_code \<Rightarrow> string \<Rightarrow> 'f list \<Rightarrow> 'f ev" where
  "ir_error code message cs = (cxpr_num DNaN, cs, Err code message)"

abbreviation ir_not_found :: "string \<Rightarrow> 'f list \<Rightarrow> 'f ev" where
  "ir_not_found \<equiv> ir_error CXPR_ERR_UNKNOWN_IDENTIFIER"

abbreviation ir_fails :: "string \<Rightarrow> 'f list \<Rightarrow> 'f ev" where
  "ir_fails \<equiv> ir_error CXPR_ERR_SYNTAX"

definition cxpr_ir_load_variable_typed :: "'f typed_env \<Rightarrow> nat \<Rightarrow> cxpr_ir_instr \<Rightarrow> 'f list \<Rightarrow> cxpr_value option \<times> 'f list" where
  "cxpr_ir_load_variable_typed tx ip i cs =
     (case Option.bind (ev_scope (tx_env tx) cs) (\<lambda>scope. scope (in_name i)) of
        Some v \<Rightarrow> (Some v, cs)
      | None \<Rightarrow>
          (case ev_get_typed (tx_env tx) (in_name i) cs of
             (Some v, cs1) \<Rightarrow> (Some v, cs1)
           | (None, cs1) \<Rightarrow> (case tx_scalar tx ip i False cs1 of (d, cs2) \<Rightarrow> (map_option cxpr_num d, cs2))))"

definition cxpr_ir_call_producer_cached :: "'f typed_env \<Rightarrow> cxpr_func_entry \<Rightarrow> string \<Rightarrow> string option \<Rightarrow> cxpr_value list
    \<Rightarrow> 'f list \<Rightarrow> 'f ev" where
  "cxpr_ir_call_producer_cached tx entry name cache_key stack_args cs =
     (let env = tx_env tx; argc = length stack_args;
          names = (case fe_struct_fields entry of None \<Rightarrow> [] | Some fs \<Rightarrow> fs) in
      if \<not> fe_struct_producer entry then ir_fails ''Invalid producer opcode'' cs
      else if argc < fe_min_args entry \<or> fe_max_args entry < argc
      then ir_error CXPR_ERR_WRONG_ARITY ''Wrong number of arguments'' cs
      else if CXPR_MAX_CALL_ARGS < argc \<or> CXPR_MAX_PRODUCER_FIELDS < length names
      then ir_fails ''Producer arity too large'' cs
      else case Option.bind cache_key (\<lambda>k. ev_get_cached_struct env k cs) of
          Some s \<Rightarrow> (cxpr_struct (Some s), cs, Ok)
        | None \<Rightarrow>
            (case those (map (number_of \<circ> Some) stack_args) of
               None \<Rightarrow> ir_error CXPR_ERR_TYPE_MISMATCH ''Producer arguments must be doubles'' cs
             | Some args \<Rightarrow>
                 (case (if cache_key = None
                        then cxpr_ir_build_struct_cache_key (ev_mem env) (ev_hexfloat env) name args else cache_key) of
                    None \<Rightarrow> ir_error CXPR_ERR_OUT_OF_MEMORY ''Out of memory'' cs
                  | Some k \<Rightarrow>
                      (case ev_get_cached_struct env k cs of
                         Some s \<Rightarrow> (cxpr_struct (Some s), cs, Ok)
                       | None \<Rightarrow>
                           (case cxpr_struct_value_new (ev_mem env) (zip names (ev_struct_producer env entry args)) of
                              None \<Rightarrow> ir_error CXPR_ERR_OUT_OF_MEMORY ''Out of memory'' cs
                            | Some produced \<Rightarrow>
                                let cs1 = ev_set_cached_struct env k produced cs in
                                (cxpr_struct (ev_get_cached_struct env k cs1), cs1, Ok))))))"

definition cxpr_ir_struct_get_field :: "'f typed_env \<Rightarrow> cxpr_struct_value option \<Rightarrow> string \<Rightarrow> cxpr_value option" where
  "cxpr_ir_struct_get_field tx s field = cxpr_struct_get_field (ev_mem (tx_env tx)) s field"

definition field_of_produced :: "'f typed_env \<Rightarrow> string \<Rightarrow> 'f ev \<Rightarrow> 'f ev" where
  "field_of_produced tx field r =
     (case r of
        (v, cs, Ok) \<Rightarrow>
          (case v of
             cxpr_struct s \<Rightarrow>
               (case cxpr_ir_struct_get_field tx s field of
                  None \<Rightarrow> ir_not_found ''Unknown field access'' cs
                | Some w \<Rightarrow> (w, cs, Ok))
           | _ \<Rightarrow> ir_fails ''Field access requires struct operand'' cs)
      | (v, cs, e) \<Rightarrow> (cxpr_num DNaN, cs, e))"

definition cxpr_ir_call_producer_field_cached :: "'f typed_env \<Rightarrow> cxpr_func_entry \<Rightarrow> string \<Rightarrow> string option
    \<Rightarrow> cxpr_value list \<Rightarrow> string \<Rightarrow> 'f list \<Rightarrow> 'f ev" where
  "cxpr_ir_call_producer_field_cached tx entry name cache_key args field cs =
     field_of_produced tx field (cxpr_ir_call_producer_cached tx entry name cache_key args cs)"

definition cxpr_ir_call_producer_const_field :: "'f typed_env \<Rightarrow> cxpr_func_entry \<Rightarrow> string \<Rightarrow> double list \<Rightarrow> nat
    \<Rightarrow> string \<Rightarrow> 'f list \<Rightarrow> 'f ev" where
  "cxpr_ir_call_producer_const_field tx entry cache_key const_args argc field cs =
     (let env = tx_env tx; names = (case fe_struct_fields entry of None \<Rightarrow> [] | Some fs \<Rightarrow> fs) in
      if \<not> fe_struct_producer entry then ir_fails ''Invalid producer opcode'' cs
      else if argc < fe_min_args entry \<or> fe_max_args entry < argc
      then ir_error CXPR_ERR_WRONG_ARITY ''Wrong number of arguments'' cs
      else if CXPR_MAX_CALL_ARGS < argc \<or> CXPR_MAX_PRODUCER_FIELDS < length names
      then ir_fails ''Producer arity too large'' cs
      else case (case ev_get_cached_struct env cache_key cs of
                   Some s \<Rightarrow> Some (Some s, cs)
                 | None \<Rightarrow>
                     (case cxpr_struct_value_new (ev_mem env) (zip names (ev_struct_producer env entry const_args)) of
                        None \<Rightarrow> None
                      | Some produced \<Rightarrow>
                          let cs1 = ev_set_cached_struct env cache_key produced cs in
                          Some (ev_get_cached_struct env cache_key cs1, cs1))) of
          None \<Rightarrow> ir_error CXPR_ERR_OUT_OF_MEMORY ''Out of memory'' cs
        | Some (s, cs1) \<Rightarrow>
            (case cxpr_ir_struct_get_field tx s field of
               None \<Rightarrow> ir_not_found ''Unknown field access'' cs1
             | Some v \<Rightarrow> (v, cs1, Ok)))"

text \<open>The field access \<open>root.field\<close>, split at the first dot.\<close>

definition cxpr_ir_load_field_value :: "'f typed_env \<Rightarrow> cxpr_ir_instr \<Rightarrow> 'f list \<Rightarrow> 'f ev" where
  "cxpr_ir_load_field_value tx i cs =
     (let env = tx_env tx; name = in_name i; root = takeWhile (\<lambda>c. c \<noteq> CHR ''.'') name;
          rest = dropWhile (\<lambda>c. c \<noteq> CHR ''.'') name; field = tl rest;
          flat = (\<lambda>cs. case tx_prehashed tx name (in_hash i) cs of
                    Some d \<Rightarrow> (cxpr_num d, cs, Ok)
                  | None \<Rightarrow> ir_not_found (cxpr_ir_unknown_lookup_message ''field access'' name) cs) in
      if rest = [] then ir_fails ''Malformed field access'' cs
      else if root = [] \<or> 128 \<le> length root then ir_fails ''Field access root too long'' cs
      else case Option.bind (ev_scope env cs) (\<lambda>scope. scope name) of
          Some v \<Rightarrow> (v, cs, Ok)
        | None \<Rightarrow>
            if (case Option.bind (ev_scope env cs) (\<lambda>scope. scope root) of
                  None \<Rightarrow> False | Some v \<Rightarrow> value_type v \<noteq> CXPR_VALUE_STRUCT)
            then ir_not_found ''Expression-scope chain has no struct prefix'' cs
            else (case ev_get_field env root field cs of
                (Some v, cs1) \<Rightarrow> (v, cs1, Ok)
              | (None, cs1) \<Rightarrow>
                  (case cxpr_registry_find (ev_reg env) root of
                     None \<Rightarrow> flat cs1
                   | Some producer \<Rightarrow>
                       if \<not> (fe_struct_producer producer \<and> fe_min_args producer = 0 \<and> fe_max_args producer = 0)
                       then flat cs1
                       else (case cxpr_ir_call_producer_cached tx producer root None [] cs1 of
                           (cxpr_struct s, cs2, Ok) \<Rightarrow>
                             (case cxpr_ir_struct_get_field tx s field of Some v \<Rightarrow> (v, cs2, Ok) | None \<Rightarrow> flat cs2)
                         | (v, cs2, Ok) \<Rightarrow>
                             (case ev_get_field env root field cs2 of (Some w, cs3) \<Rightarrow> (w, cs3, Ok) | (None, cs3) \<Rightarrow> flat cs3)
                         | (v, cs2, e2) \<Rightarrow> (cxpr_num DNaN, cs2, e2)))))"

definition cxpr_ir_load_named_field_value :: "'f typed_env \<Rightarrow> cxpr_ir_instr \<Rightarrow> 'f list \<Rightarrow> 'f ev" where
  "cxpr_ir_load_named_field_value tx i cs =
     (let flat_key = cxpr_expr_ast_join_with_dot (in_name i) (in_aux_name i) in
      case ev_get_field (tx_env tx) (in_name i) (in_aux_name i) cs of
        (Some v, cs1) \<Rightarrow> (v, cs1, Ok)
      | (None, cs1) \<Rightarrow>
          if 256 \<le> length flat_key then ir_fails ''Field access root too long'' cs1
          else (case tx_prehashed tx flat_key (in_hash i) cs1 of
              Some d \<Rightarrow> (cxpr_num d, cs1, Ok)
            | None \<Rightarrow> ir_not_found (cxpr_ir_unknown_lookup_message ''field access'' (in_name i)) cs1))"

text \<open>The segments of a dotted name: all of them, and those \<open>strtok\<close> yields, without the empty ones.\<close>

fun split_dots :: "string \<Rightarrow> string list" where
  "split_dots [] = [[]]"
| "split_dots (c # s) =
     (if c = CHR ''.'' then [] # split_dots s
      else case split_dots s of [] \<Rightarrow> [[c]] | seg # segs \<Rightarrow> (c # seg) # segs)"

text \<open>The walk through the fields of a struct, along the segments of a scoped name (\<open>scoped\<close>) or of a
  tokenized one; an unknown segment is reported with the text from it on, or by itself.\<close>

fun chain_walk :: "'f typed_env \<Rightarrow> bool \<Rightarrow> cxpr_struct_value \<Rightarrow> string list \<Rightarrow> 'f list \<Rightarrow> 'f ev" where
  "chain_walk tx scoped s [] cs = ir_fails ''Malformed chain access'' cs"
| "chain_walk tx scoped s (seg # rest) cs =
     (if scoped \<and> seg = [] then ir_fails ''Malformed chain access'' cs
      else case map_of s seg of
          None \<Rightarrow>
            ir_not_found (cxpr_ir_unknown_lookup_message ''identifier'' (if scoped then join_dots (seg # rest) else seg)) cs
        | Some v \<Rightarrow>
            if rest = [] then (cxpr_value_clone (ev_mem (tx_env tx)) v, cs, Ok)
            else (case v of
                cxpr_struct (Some s') \<Rightarrow> chain_walk tx scoped s' rest cs
              | cxpr_struct None \<Rightarrow> (cxpr_num DNaN, cs, Stuck)
              | _ \<Rightarrow> ir_error CXPR_ERR_TYPE_MISMATCH ''Chained access requires struct intermediate'' cs))"

text \<open>The proper prefixes of a path, longest first, with the rest.\<close>

definition dotted_prefixes :: "string list \<Rightarrow> (string \<times> string list) list" where
  "dotted_prefixes path = rev (map (\<lambda>i. (join_dots (take i path), drop i path)) [1 ..< length path])"

definition chain_in_frames :: "'f typed_env \<Rightarrow> string \<Rightarrow> 'f list \<Rightarrow> 'f ev" where
  "chain_in_frames tx name cs =
     (let env = tx_env tx in
      case filter (\<lambda>seg. seg \<noteq> []) (split_dots name) of
        [] \<Rightarrow> ir_fails ''Malformed chain access'' cs
      | seg # rest \<Rightarrow>
          (case ev_get_struct env seg cs of
             Some s \<Rightarrow> chain_walk tx False s rest cs
           | None \<Rightarrow>
               (case ev_get_typed env seg cs of
                  (Some (cxpr_struct (Some s)), cs1) \<Rightarrow> chain_walk tx False s rest cs1
                | (Some (cxpr_struct None), cs1) \<Rightarrow>
                    (if rest = [] then ir_fails ''Malformed chain access'' cs1 else (cxpr_num DNaN, cs1, Stuck))
                | (_, cs1) \<Rightarrow> ir_not_found (cxpr_ir_unknown_lookup_message ''identifier'' seg) cs1)))"

definition cxpr_ir_load_chain_value :: "'f typed_env \<Rightarrow> cxpr_ir_instr \<Rightarrow> 'f list \<Rightarrow> 'f ev" where
  "cxpr_ir_load_chain_value tx i cs =
     (let env = tx_env tx; name = in_name i; prefixes = dotted_prefixes (split_dots name) in
      if \<not> ev_mem env (length name + 1) then ir_error CXPR_ERR_OUT_OF_MEMORY ''Out of memory'' cs
      else case ev_scope env cs of
          None \<Rightarrow> chain_in_frames tx name cs
        | Some scope \<Rightarrow>
            (case find (\<lambda>(p, rest). p \<noteq> [] \<and> (case scope p of Some (cxpr_struct _) \<Rightarrow> True | _ \<Rightarrow> False)) prefixes of
               Some (p, rest) \<Rightarrow>
                 (case scope p of
                    Some (cxpr_struct (Some s)) \<Rightarrow> chain_walk tx True s rest cs
                  | _ \<Rightarrow> if hd rest = [] then ir_fails ''Malformed chain access'' cs else (cxpr_num DNaN, cs, Stuck))
             | None \<Rightarrow>
                 if list_ex (\<lambda>(p, rest). scope p \<noteq> None) prefixes
                 then ir_not_found ''Expression-scope chain has no struct prefix'' cs
                 else chain_in_frames tx name cs))"

section \<open>Look-back resolution (typed.c)\<close>

text \<open>The flag is the result of the C function; the error object is clear on entry.\<close>

definition cxpr_ir_resolve_lookback_target :: "'f typed_env \<Rightarrow> cxpr_expr_ast \<Rightarrow> nat \<Rightarrow> 'f list \<Rightarrow> bool \<times> 'f ev" where
  "cxpr_ir_resolve_lookback_target tx target offset cs =
     (let env = tx_env tx; index = cxpr_expr_ast_number_new (dbl_of_int (int offset)); none = cxpr_num DNaN;
          runtime = (case ast_data target of CXPR_NODE_IDENTIFIER name \<Rightarrow> ev_get_typed env name cs | _ \<Rightarrow> (None, cs));
          last = (\<lambda>cs. case ev_resolver env of None \<Rightarrow> (False, none, cs, Ok) | Some f \<Rightarrow> f target index cs Ok);
          capability = (\<lambda>cs.
            if 9223372036854775807 < int offset then last cs
            else case cxpr_registry_resolve_index_capability env target (int offset) cs Ok of
                (True, r) \<Rightarrow> (True, r)
              | (False, v, cs1, e1) \<Rightarrow>
                  if fst (snd (cxpr_registry_select_index_capability env target Ok)) \<or> e1 \<noteq> Ok then (False, v, cs1, e1)
                  else last cs1) in
      if ev_reg env = None then (False, none, cs, Ok)
      else case runtime of
          (Some (cxpr_array a), cs1) \<Rightarrow>
            (case a of
               Some vs \<Rightarrow>
                 if length vs \<le> offset
                 then (False, none, cs1, Err CXPR_ERR_INVALID_INDEX ''Array index out of range'')
                 else (True, cxpr_value_clone (ev_mem env) (vs ! offset), cs1, Ok)
             | None \<Rightarrow> (False, none, cs1, Err CXPR_ERR_INVALID_INDEX ''Array index out of range''))
        | (_, cs1) \<Rightarrow>
            (case (if is_identifier target then None else ev_resolver env) of
               None \<Rightarrow> capability cs1
             | Some f \<Rightarrow>
                 (case f target index cs1 Ok of
                    (True, v, cs2, e2) \<Rightarrow> (e2 = Ok, v, cs2, e2)
                  | (False, v, cs2, e2) \<Rightarrow> if e2 \<noteq> Ok then (False, v, cs2, e2) else capability cs2)))"

text \<open>The tree a load instruction stands for, where it does not borrow one.\<close>

definition lookback_tree :: "cxpr_ir_instr \<Rightarrow> cxpr_expr_ast option" where
  "lookback_tree i =
     (let name = in_name i in
      if in_op i \<in> {CXPR_OP_LOAD_VAR, CXPR_OP_LOAD_VAR_SQUARE} then Some (Ast None (CXPR_NODE_IDENTIFIER name))
      else if in_op i \<in> {CXPR_OP_LOAD_FIELD, CXPR_OP_LOAD_FIELD_SQUARE} then
        (let root = takeWhile (\<lambda>c. c \<noteq> CHR ''.'') name; rest = dropWhile (\<lambda>c. c \<noteq> CHR ''.'') name in
         if 256 \<le> length name \<or> rest = [] \<or> root = [] \<or> tl rest = [] then None
         else Some (Ast None (CXPR_NODE_FIELD_ACCESS root (tl rest))))
      else if in_op i = CXPR_OP_LOAD_NAMED_FIELD
      then Some (Ast None (CXPR_NODE_FIELD_ACCESS name (in_aux_name i)))
      else if in_op i = CXPR_OP_LOAD_CHAIN then
        (let segments = filter (\<lambda>seg. seg \<noteq> []) (split_dots name) in
         if 512 \<le> length name \<or> 32 < length segments \<or> length segments < 2 then None
         else Some (Ast None (CXPR_NODE_CHAIN_ACCESS segments)))
      else None)"

definition cxpr_ir_resolve_lookback_instr :: "'f typed_env \<Rightarrow> cxpr_ir_instr \<Rightarrow> nat \<Rightarrow> 'f list \<Rightarrow> bool \<times> 'f ev" where
  "cxpr_ir_resolve_lookback_instr tx i offset cs =
     (case (case in_ast i of Some a \<Rightarrow> Some a | None \<Rightarrow> lookback_tree i) of
        None \<Rightarrow> (False, cxpr_num DNaN, cs, Ok)
      | Some target \<Rightarrow> cxpr_ir_resolve_lookback_target tx target offset cs)"

text \<open>The resolution as a value: a failure without an error is an error of its own.\<close>

definition resolved :: "bool \<times> 'f ev \<Rightarrow> 'f ev" where
  "resolved r =
     (case r of
        (True, v, cs, e) \<Rightarrow> (v, cs, e)
      | (False, v, cs, Ok) \<Rightarrow> ir_fails ''Lookback resolver failed'' cs
      | (False, v, cs, e) \<Rightarrow> (cxpr_num DNaN, cs, e))"

definition resolve_loaded :: "'f typed_env \<Rightarrow> cxpr_ir_instr \<Rightarrow> 'f typed_state \<Rightarrow> 'f ev \<Rightarrow> 'f ev" where
  "resolve_loaded tx i st direct =
     (if 0 < ty_depth st then resolved (cxpr_ir_resolve_lookback_instr tx i (ty_offset st) (ty_frames st)) else direct)"

definition lookback_resolve :: "'f typed_env \<Rightarrow> cxpr_ir_instr \<Rightarrow> 'f typed_state \<Rightarrow> 'f ev" where
  "lookback_resolve tx i st =
     (let env = tx_env tx; cs = ty_frames st; offset = ty_offset st + in_index i;
          index = cxpr_expr_ast_number_new (dbl_of_int (int offset)) in
      case in_ast i of
        None \<Rightarrow> ir_fails ''Index requires registry capability or lookback resolver'' cs
      | Some target \<Rightarrow>
          if ev_reg env = None \<or> ev_resolver env = None \<and> ev_capabilities env = []
          then ir_fails ''Index requires registry capability or lookback resolver'' cs
          else if SIZE_MAX < offset then ir_fails ''Lookback offset overflow'' cs
          else
            (let runtime = (case ast_data target of
                   CXPR_NODE_IDENTIFIER name \<Rightarrow>
                     (case ev_get_typed env name cs of
                        (Some (cxpr_array (Some vs)), cs1) \<Rightarrow>
                          if offset < length vs then (True, cxpr_value_clone (ev_mem env) (vs ! offset), cs1, Ok)
                          else (False, cxpr_num DNaN, cs1, Err CXPR_ERR_INVALID_INDEX ''Array index out of range'')
                      | (Some (cxpr_array None), cs1) \<Rightarrow>
                          (False, cxpr_num DNaN, cs1, Err CXPR_ERR_INVALID_INDEX ''Array index out of range'')
                      | (_, cs1) \<Rightarrow> (False, cxpr_num DNaN, cs1, Ok))
                 | _ \<Rightarrow>
                     (case ev_resolver env of
                        None \<Rightarrow> (False, cxpr_num DNaN, cs, Ok)
                      | Some f \<Rightarrow> f target index cs Ok)) in
             case runtime of
               (False, v, cs1, Ok) \<Rightarrow>
                 (case cxpr_registry_resolve_index_capability env target
                         (if offset < 9223372036854775808 then int offset else int offset - 18446744073709551616) cs1 Ok of
                    (True, r) \<Rightarrow> r
                  | (False, v2, cs2, e2) \<Rightarrow>
                      (case ev_resolver env of
                         Some f \<Rightarrow>
                           if is_identifier target \<and> \<not> fst (snd (cxpr_registry_select_index_capability env target Ok))
                           then resolved (f target index cs2 e2) else resolved (False, v2, cs2, e2)
                       | None \<Rightarrow> resolved (False, v2, cs2, e2)))
             | (False, v, cs1, e1) \<Rightarrow>
                 (case ev_resolver env of
                    Some f \<Rightarrow> if is_identifier target then resolved (f target index cs1 e1) else resolved (False, v, cs1, e1)
                  | None \<Rightarrow> resolved (False, v, cs1, e1))
             | (True, r) \<Rightarrow> r))"

section \<open>Calls (calls.c)\<close>

definition cxpr_ir_call_instr_memoable :: "cxpr_ir_instr \<Rightarrow> bool" where
  "cxpr_ir_call_instr_memoable i =
     (case (in_func i, in_ast i) of
        (Some f, Some (Ast _ (CXPR_NODE_FUNCTION_CALL _ _ _))) \<Rightarrow>
          \<not> fe_ast_func_handler f \<and> \<not> fe_ast_func f \<and>
          \<not> (fe_struct_producer f \<and> fe_sync_func f = None \<and> fe_value_func f = None)
      | _ \<Rightarrow> False)"

definition cxpr_ir_call_memo_get :: "'f typed_env \<Rightarrow> cxpr_ir_instr \<Rightarrow> 'f list \<Rightarrow> cxpr_value option" where
  "cxpr_ir_call_memo_get tx i cs =
     (case in_ast i of
        Some ast \<Rightarrow>
          if cxpr_ir_call_instr_memoable i
          then cxpr_eval_memo_get (ev_memo (tx_env tx) cs) ast (cxpr_eval_ast_hash ast) else None
      | None \<Rightarrow> None)"

definition cxpr_ir_call_memo_set :: "'f typed_env \<Rightarrow> cxpr_ir_instr \<Rightarrow> cxpr_value \<Rightarrow> 'f list \<Rightarrow> 'f list" where
  "cxpr_ir_call_memo_set tx i v cs =
     (let env = tx_env tx in
      case in_ast i of
        Some ast \<Rightarrow>
          if cxpr_ir_call_instr_memoable i
          then ev_set_memo env (fst (cxpr_eval_memo_set (ev_mem env) ast (cxpr_eval_ast_hash ast) v (ev_memo env cs))) cs
          else cs
      | None \<Rightarrow> cs)"

text \<open>The bodies of return fields go through the public evaluation entry.\<close>

definition ir_evaluator :: "'f typed_env \<Rightarrow> 'f evaluator" where
  "ir_evaluator tx ast cs e = tx_eval_ast tx (Some ast) cs"

text \<open>The numbers under \<open>root.field\<close> or \<open>root_field\<close>, for a struct parameter given a name that is no struct.\<close>

fun ir_copy_fields :: "'f typed_env \<Rightarrow> string \<Rightarrow> string \<Rightarrow> string list \<Rightarrow> 'f \<Rightarrow> 'f list \<Rightarrow> 'f option \<times> 'f list \<times> eval_err" where
  "ir_copy_fields tx root p [] tmp cs = (Some tmp, cs, Ok)"
| "ir_copy_fields tx root p (f # fs) tmp cs =
     (case (case ev_get (tx_env tx) (take 255 (root @ ''.'' @ f)) cs of
              (Some d, cs1) \<Rightarrow> (Some d, cs1)
            | (None, cs1) \<Rightarrow> ev_get (tx_env tx) (take 255 (root @ ''_'' @ f)) cs1) of
        (None, cs1) \<Rightarrow>
          (None, ev_overlay_free (tx_env tx) tmp cs1, Err CXPR_ERR_UNKNOWN_IDENTIFIER ''Unknown struct field'')
      | (Some d, cs1) \<Rightarrow> ir_copy_fields tx root p fs (ev_set (tx_env tx) (take 255 (p @ ''.'' @ f)) d tmp) cs1)"

fun ir_bind_args :: "'f typed_env \<Rightarrow> (string \<times> string list \<times> cxpr_value \<times> cxpr_expr_ast option) list \<Rightarrow> 'f \<Rightarrow> 'f list
    \<Rightarrow> 'f option \<times> 'f list \<times> eval_err" where
  "ir_bind_args tx [] tmp cs = (Some tmp, cs, Ok)"
| "ir_bind_args tx ((p, fs, v, arg) # rest) tmp cs =
     (case (if fs \<noteq> [] \<and> value_type v \<noteq> CXPR_VALUE_STRUCT \<and> (case arg of None \<Rightarrow> False | Some a \<Rightarrow> is_identifier a)
            then ir_copy_fields tx (case ast_data (the arg) of CXPR_NODE_IDENTIFIER n \<Rightarrow> n | _ \<Rightarrow> '''') p fs tmp cs
            else (Some (bind_value (tx_env tx) p v tmp), cs, Ok)) of
        (None, cs1, e1) \<Rightarrow> (None, cs1, e1)
      | (Some tmp1, cs1, e1) \<Rightarrow> ir_bind_args tx rest tmp1 cs1)"

definition call_args_of :: "cxpr_expr_ast option \<Rightarrow> nat \<Rightarrow> cxpr_expr_ast option list" where
  "call_args_of call n =
     (case map_option ast_data call of
        Some (CXPR_NODE_FUNCTION_CALL _ args _) \<Rightarrow> take n (map Some args @ replicate n None)
      | _ \<Rightarrow> replicate n None)"

definition ir_defined_record :: "'f typed_env \<Rightarrow> cxpr_func_entry \<Rightarrow> cxpr_expr_ast option \<Rightarrow> cxpr_value list \<Rightarrow> 'f list \<Rightarrow> 'f ev" where
  "ir_defined_record tx entry call args cs =
     (let env = tx_env tx; oom = ir_error CXPR_ERR_OUT_OF_MEMORY ''Out of memory'' in
      case ev_overlay_new env cs of
        None \<Rightarrow> oom cs
      | Some (tmp, cs0) \<Rightarrow>
          (case ir_bind_args tx (zip (fe_defined_param_names entry)
                  (zip (fe_defined_param_fields entry) (zip args (call_args_of call (length args))))) tmp cs0 of
             (None, cs1, e1) \<Rightarrow> (cxpr_num DNaN, cs1, e1)
           | (Some tmp1, cs1, e1) \<Rightarrow>
               if \<not> ev_mem env (fe_defined_return_field_count entry * sizeof_value)
               then oom (ev_overlay_free env tmp1 cs1)
               else (case eval_fields (ir_evaluator tx) (fe_defined_return_fields entry) (tmp1 # cs1) Ok of
                   (vs, fs, e2) \<Rightarrow>
                     let cs2 = ev_overlay_free env (hd fs) (tl fs) in
                     (case vs of
                        None \<Rightarrow> (cxpr_num DNaN, cs2, e2)
                      | Some fvs \<Rightarrow>
                          (case cxpr_struct_value_new (ev_mem env) fvs of
                             None \<Rightarrow> oom cs2
                           | Some record \<Rightarrow> (cxpr_struct (Some record), cs2, Ok))))))"

text \<open>The compiler gives every \<open>CALL_DEFINED\<close> of a function with a body the call it stands for, so the
  branch for a NULL call is left out with the cached program it would run.\<close>

definition cxpr_ir_call_defined_scalar :: "'f typed_env \<Rightarrow> cxpr_func_entry \<Rightarrow> cxpr_expr_ast option \<Rightarrow> cxpr_value list
    \<Rightarrow> 'f list \<Rightarrow> 'f ev" where
  "cxpr_ir_call_defined_scalar tx entry call args cs =
     (if fe_defined_body entry = None \<and> fe_defined_return_field_count entry = 0
      then ir_fails ''NULL IR defined function entry'' cs
      else if length args \<noteq> length (fe_defined_param_names entry)
      then ir_error CXPR_ERR_WRONG_ARITY ''Wrong number of arguments'' cs
      else if 0 < fe_defined_return_field_count entry then ir_defined_record tx entry call args cs
      else case map_option ast_data call of
          Some (CXPR_NODE_FUNCTION_CALL _ call_args arg_names) \<Rightarrow>
            cxpr_eval_defined_function (tx_env tx) (cxpr_eval_node (tx_env tx) (tx_fuel tx)) entry call_args arg_names cs Ok
        | _ \<Rightarrow> (cxpr_num DNaN, cs, Stuck))"


definition cxpr_ir_call_producer :: "'f typed_env \<Rightarrow> cxpr_func_entry \<Rightarrow> string \<Rightarrow> cxpr_value list \<Rightarrow> 'f list \<Rightarrow> 'f ev" where
  "cxpr_ir_call_producer tx entry name args cs = cxpr_ir_call_producer_cached tx entry name None args cs"

definition cxpr_ir_call_producer_field :: "'f typed_env \<Rightarrow> cxpr_func_entry \<Rightarrow> string \<Rightarrow> cxpr_value list \<Rightarrow> string
    \<Rightarrow> 'f list \<Rightarrow> 'f ev" where
  "cxpr_ir_call_producer_field tx entry name args field cs =
     cxpr_ir_call_producer_field_cached tx entry name None args field cs"

section \<open>Operators (typed.c)\<close>

fun arith_valop :: "cxpr_opcode \<Rightarrow> cxpr_valop option" where
  "arith_valop CXPR_OP_ADD = Some CXPR_VALOP_ADD"
| "arith_valop CXPR_OP_SUB = Some CXPR_VALOP_SUB"
| "arith_valop CXPR_OP_MUL = Some CXPR_VALOP_MUL"
| "arith_valop CXPR_OP_DIV = Some CXPR_VALOP_DIV"
| "arith_valop _ = None"

definition typed_arithmetic :: "(nat \<Rightarrow> bool) \<Rightarrow> (double \<Rightarrow> double \<Rightarrow> double) \<Rightarrow> cxpr_opcode \<Rightarrow> cxpr_value \<Rightarrow> cxpr_value
    \<Rightarrow> cxpr_value op_result" where
  "typed_arithmetic mem pow op a b =
     (case (a, b) of
        (cxpr_num x, cxpr_num y) \<Rightarrow>
          if op = CXPR_OP_DIV \<and> dbl_eq y dbl_zero then Failed CXPR_ERR_DIVISION_BY_ZERO ''Division by zero''
          else if op = CXPR_OP_MOD \<and> dbl_eq y dbl_zero then Failed CXPR_ERR_DIVISION_BY_ZERO ''Modulo by zero''
          else Handled (cxpr_num
            (case op of
               CXPR_OP_ADD \<Rightarrow> dbl_add x y
             | CXPR_OP_SUB \<Rightarrow> dbl_sub x y
             | CXPR_OP_MUL \<Rightarrow> dbl_mul x y
             | CXPR_OP_DIV \<Rightarrow> dbl_div x y
             | CXPR_OP_MOD \<Rightarrow> dbl_fmod x y
             | _ \<Rightarrow> pow x y))
      | _ \<Rightarrow>
          or_type_error
            (case arith_valop op of None \<Rightarrow> NotHandled | Some vop \<Rightarrow> cxpr_value_binary_op mem vop a b)
            ''Arithmetic requires double operands'')"

definition typed_equality :: "cxpr_opcode \<Rightarrow> cxpr_value \<Rightarrow> cxpr_value \<Rightarrow> cxpr_value op_result" where
  "typed_equality op a b =
     (if value_type a \<noteq> value_type b \<or> value_type a \<in> {CXPR_VALUE_STRUCT, CXPR_VALUE_ARRAY}
      then Failed CXPR_ERR_TYPE_MISMATCH ''Equality requires matching scalar operands''
      else case (a, b) of
          (cxpr_num x, cxpr_num y) \<Rightarrow> Handled (cxpr_bool (dbl_eq x y = (op = CXPR_OP_CMP_EQ)))
        | (cxpr_string x, cxpr_string y) \<Rightarrow>
            if x = None \<or> y = None then Undefined else Handled (cxpr_bool ((x = y) = (op = CXPR_OP_CMP_EQ)))
        | _ \<Rightarrow> Handled (cxpr_bool ((a = b) = (op = CXPR_OP_CMP_EQ))))"

definition typed_comparison :: "(nat \<Rightarrow> bool) \<Rightarrow> cxpr_opcode \<Rightarrow> cxpr_value \<Rightarrow> cxpr_value \<Rightarrow> cxpr_value op_result" where
  "typed_comparison mem op a b =
     (case (a, b) of
        (cxpr_num x, cxpr_num y) \<Rightarrow>
          Handled (cxpr_bool
            (case op of
               CXPR_OP_CMP_LT \<Rightarrow> dbl_lt x y
             | CXPR_OP_CMP_LTE \<Rightarrow> dbl_le x y
             | CXPR_OP_CMP_GT \<Rightarrow> dbl_lt y x
             | _ \<Rightarrow> dbl_le y x))
      | _ \<Rightarrow>
          or_type_error
            (cxpr_value_binary_op mem
              (case op of CXPR_OP_CMP_LT \<Rightarrow> CXPR_VALOP_LT | CXPR_OP_CMP_LTE \<Rightarrow> CXPR_VALOP_LTE
                 | CXPR_OP_CMP_GT \<Rightarrow> CXPR_VALOP_GT | _ \<Rightarrow> CXPR_VALOP_GTE) a b)
            ''Comparison requires double operands'')"

text \<open>The operator of two stack values an opcode stands for.\<close>

definition typed_binary :: "'f typed_env \<Rightarrow> cxpr_opcode \<Rightarrow> (cxpr_value \<Rightarrow> cxpr_value \<Rightarrow> cxpr_value op_result) option" where
  "typed_binary tx op =
     (if op \<in> {CXPR_OP_ADD, CXPR_OP_SUB, CXPR_OP_MUL, CXPR_OP_DIV, CXPR_OP_MOD, CXPR_OP_POW}
      then Some (typed_arithmetic (ev_mem (tx_env tx)) (ev_pow (tx_env tx)) op)
      else if op \<in> {CXPR_OP_CMP_EQ, CXPR_OP_CMP_NEQ} then Some (typed_equality op)
      else if op \<in> {CXPR_OP_CMP_LT, CXPR_OP_CMP_LTE, CXPR_OP_CMP_GT, CXPR_OP_CMP_GTE}
      then Some (typed_comparison (ev_mem (tx_env tx)) op)
      else None)"

text \<open>\<open>SQUARE\<close>, \<open>NOT\<close>, \<open>NEG\<close> and the numeric intrinsics.\<close>

definition typed_unary :: "cxpr_opcode \<Rightarrow> (cxpr_value \<Rightarrow> cxpr_value op_result) option" where
  "typed_unary op =
     (if op = CXPR_OP_NOT then
        Some (\<lambda>a. case a of cxpr_bool b \<Rightarrow> Handled (cxpr_bool (\<not> b))
                | _ \<Rightarrow> Failed CXPR_ERR_TYPE_MISMATCH ''Logical not requires bool operand'')
      else case unary_op op of
          None \<Rightarrow> None
        | Some f \<Rightarrow>
            Some (\<lambda>a. case a of
                cxpr_num d \<Rightarrow> Handled (cxpr_num (f d))
              | cxpr_int64 i \<Rightarrow>
                  if op \<noteq> CXPR_OP_NEG
                  then Failed CXPR_ERR_TYPE_MISMATCH
                         (if op = CXPR_OP_SQUARE then ''Square operation requires double operand''
                          else ''Numeric intrinsic requires double operand'')
                  else if i = - 9223372036854775808 then Failed CXPR_ERR_SYNTAX ''int64 negation overflow''
                  else Handled (cxpr_int64 (- i))
              | _ \<Rightarrow> Failed CXPR_ERR_TYPE_MISMATCH
                         (if op = CXPR_OP_SQUARE then ''Square operation requires double operand''
                          else ''Numeric intrinsic requires double operand'')))"

fun push_result :: "cxpr_value op_result \<Rightarrow> 'f typed_state \<Rightarrow> 'f typed_out" where
  "push_result (Handled v) st = cxpr_ir_stack_push v st"
| "push_result (Failed code message) st = Error code message st"
| "push_result NotHandled st = Crash"
| "push_result Undefined st = Crash"

text \<open>\<open>INDEX\<close>: the element is cloned, and a clone whose pointer is NULL is an allocation failure.\<close>

definition typed_index :: "(nat \<Rightarrow> bool) \<Rightarrow> cxpr_value \<Rightarrow> cxpr_value \<Rightarrow> cxpr_value op_result" where
  "typed_index mem a b =
     (case a of
        cxpr_array (Some vs) \<Rightarrow>
          (case (case b of cxpr_num d \<Rightarrow> array_index d | _ \<Rightarrow> None) of
             None \<Rightarrow> Failed CXPR_ERR_INVALID_INDEX ''Array index must be a finite non-negative integer''
           | Some n \<Rightarrow>
               if length vs \<le> n then Failed CXPR_ERR_INDEX_OUT_OF_RANGE ''Array index is out of range''
               else let v = cxpr_value_clone mem (vs ! n) in
                 if v \<in> {cxpr_array None, cxpr_struct None, cxpr_string None}
                 then Failed CXPR_ERR_OUT_OF_MEMORY ''Out of memory'' else Handled v)
      | _ \<Rightarrow> Failed CXPR_ERR_TYPE_MISMATCH ''Index target is not an array'')"

definition typed_clamp :: "'f typed_state \<Rightarrow> 'f typed_out" where
  "typed_clamp st =
     cxpr_ir_pop2 st (\<lambda>lo hi st1. cxpr_ir_pop1 st1 (\<lambda>a st2.
       case (a, lo, hi) of
         (cxpr_num x, cxpr_num l, cxpr_num h) \<Rightarrow> cxpr_ir_stack_push (cxpr_num (dbl_clamp x l h)) st2
       | _ \<Rightarrow> Error CXPR_ERR_TYPE_MISMATCH ''clamp() requires double operands'' st2))"

definition typed_build_array :: "'f typed_env \<Rightarrow> cxpr_ir_instr \<Rightarrow> 'f typed_state \<Rightarrow> 'f typed_out" where
  "typed_build_array tx i st =
     cxpr_ir_require_stack (in_index i) st
       (case cxpr_array_value_new (ev_mem (tx_env tx)) (ty_args (in_index i) st) of
          None \<Rightarrow> Error CXPR_ERR_OUT_OF_MEMORY ''Out of memory'' (ty_drop (in_index i) st)
        | Some vs \<Rightarrow> cxpr_ir_stack_push (cxpr_array (Some vs)) (ty_drop (in_index i) st))"


section \<open>Loads and calls of the loop (typed.c)\<close>

definition push_loaded :: "bool \<Rightarrow> cxpr_value \<Rightarrow> 'f typed_state \<Rightarrow> 'f typed_out" where
  "push_loaded square = (if square then cxpr_ir_push_squared else cxpr_ir_stack_push)"

definition typed_load_local :: "double list \<Rightarrow> cxpr_ir_instr \<Rightarrow> bool \<Rightarrow> 'f typed_state \<Rightarrow> 'f typed_out" where
  "typed_load_local locals i square st =
     (if length locals \<le> in_index i then cxpr_ir_runtime_error ''Unknown local variable'' st
      else push_loaded square (cxpr_num (locals ! in_index i)) st)"

definition typed_load_var :: "'f typed_env \<Rightarrow> cxpr_ir_instr \<Rightarrow> bool \<Rightarrow> 'f typed_state \<Rightarrow> 'f typed_out" where
  "typed_load_var tx i square st =
     ty_then
       (resolve_loaded tx i st
         (case cxpr_ir_load_variable_typed tx (ty_ip st) i (ty_frames st) of
            (None, cs) \<Rightarrow> ir_not_found (cxpr_ir_unknown_identifier_message i) cs
          | (Some v, cs) \<Rightarrow> (v, cs, Ok)))
       st (push_loaded square)"

definition typed_load_param :: "'f typed_env \<Rightarrow> cxpr_ir_instr \<Rightarrow> bool \<Rightarrow> 'f typed_state \<Rightarrow> 'f typed_out" where
  "typed_load_param tx i square st =
     (let cs = ty_frames st;
          number = (case tx_scalar tx (ty_ip st) i True cs of
              (None, cs1) \<Rightarrow> ir_not_found (cxpr_ir_unknown_param_message i) cs1
            | (Some d, cs1) \<Rightarrow> (cxpr_num d, cs1, Ok)) in
      ty_then
        (if square then number
         else case tx_param_bool tx (in_name i) cs of
             Some b \<Rightarrow> (cxpr_bool b, cs, Ok)
           | None \<Rightarrow>
               (case tx_param_string tx (in_name i) cs of
                  Some s \<Rightarrow> (cxpr_string (Some s), cs, Ok)
                | None \<Rightarrow> number))
        st (push_loaded square))"

text \<open>The native functions: the operands are checked before the memo is asked.\<close>

definition native_value :: "cxpr_func_entry \<Rightarrow> cxpr_value list \<Rightarrow> cxpr_value option" where
  "native_value f args =
     (case args of
        [cxpr_num a] \<Rightarrow> Some (cxpr_num (fe_unary f a))
      | [cxpr_num a, cxpr_num b] \<Rightarrow> Some (cxpr_num (fe_binary f a b))
      | [cxpr_num a, cxpr_num b, cxpr_num c] \<Rightarrow> Some (cxpr_num (fe_ternary f a b c))
      | _ \<Rightarrow> None)"

definition typed_call_native :: "'f typed_env \<Rightarrow> cxpr_ir_instr \<Rightarrow> nat \<Rightarrow> 'f typed_state \<Rightarrow> 'f typed_out" where
  "typed_call_native tx i n st =
     cxpr_ir_require_stack n st
       (let args = ty_args n st; st1 = ty_drop n st in
        if \<not> list_all (\<lambda>v. value_type v = CXPR_VALUE_NUMBER) args
        then Error CXPR_ERR_TYPE_MISMATCH ''Function arguments must be doubles'' st1
        else case cxpr_ir_call_memo_get tx i (ty_frames st) of
            Some v \<Rightarrow> cxpr_ir_stack_push v st1
          | None \<Rightarrow>
              (case Option.bind (in_func i) (\<lambda>f. native_value f args) of
                 None \<Rightarrow> Crash
               | Some v \<Rightarrow>
                   cxpr_ir_stack_push v (st1\<lparr>ty_frames := cxpr_ir_call_memo_set tx i v (ty_frames st)\<rparr>)))"

definition typed_call_func :: "'f typed_env \<Rightarrow> cxpr_ir_instr \<Rightarrow> 'f typed_state \<Rightarrow> 'f typed_out" where
  "typed_call_func tx i st =
     cxpr_ir_require_stack (in_index i) st
       (let args = ty_args (in_index i) st; st1 = ty_drop (in_index i) st in
        if CXPR_MAX_CALL_ARGS < in_index i then cxpr_ir_runtime_error ''Too many function arguments'' st
        else case cxpr_ir_call_memo_get tx i (ty_frames st) of
            Some v \<Rightarrow> cxpr_ir_stack_push v st1
          | None \<Rightarrow>
              (case in_func i of
                 None \<Rightarrow> Crash
               | Some f \<Rightarrow>
                   ty_then (cxpr_registry_call_typed (tx_env tx) (fe_name f) args (ty_frames st)) st1
                     (\<lambda>v st2. cxpr_ir_stack_push v
                        (st2\<lparr>ty_frames := cxpr_ir_call_memo_set tx i v (ty_frames st2)\<rparr>))))"

definition typed_call_defined :: "'f typed_env \<Rightarrow> cxpr_ir_instr \<Rightarrow> 'f typed_state \<Rightarrow> 'f typed_out" where
  "typed_call_defined tx i st =
     cxpr_ir_require_stack (in_index i) st
       (let args = ty_args (in_index i) st; st1 = ty_drop (in_index i) st in
        case cxpr_ir_call_memo_get tx i (ty_frames st) of
          Some v \<Rightarrow> cxpr_ir_stack_push v st1
        | None \<Rightarrow>
            ty_then
              (case in_func i of
                 None \<Rightarrow> ir_fails ''NULL IR defined function entry'' (ty_frames st)
               | Some f \<Rightarrow> cxpr_ir_call_defined_scalar tx f (in_ast i) args (ty_frames st))
              st1
              (\<lambda>v st2. cxpr_ir_stack_push v
                 (st2\<lparr>ty_frames := cxpr_ir_call_memo_set tx i v (ty_frames st2)\<rparr>)))"

text \<open>A producer followed by \<open>GET_FIELD\<close> gives the field at once, and both instructions are passed.\<close>

definition typed_call_producer :: "'f typed_env \<Rightarrow> ir_code \<Rightarrow> cxpr_ir_instr \<Rightarrow> 'f typed_state \<Rightarrow> 'f typed_out" where
  "typed_call_producer tx code i st =
     cxpr_ir_require_stack (in_index i) st
       (let args = ty_args (in_index i) st; st1 = ty_drop (in_index i) st; cs = ty_frames st; next = ty_ip st + 1 in
        case in_func i of
          None \<Rightarrow> if in_op i = CXPR_OP_CALL_PRODUCER then Error CXPR_ERR_SYNTAX ''Invalid producer opcode'' st1 else Crash
        | Some f \<Rightarrow>
            if next < length code \<and> in_op (code ! next) = CXPR_OP_GET_FIELD then
              ty_then
                (if in_op i = CXPR_OP_CALL_PRODUCER
                 then cxpr_ir_call_producer_field tx f (in_name i) args (in_name (code ! next)) cs
                 else cxpr_ir_call_producer_field_cached tx f (fe_name f) (Some (in_name i)) args (in_name (code ! next)) cs)
                st1 (\<lambda>v st2. cxpr_ir_stack_push v (st2\<lparr>ty_ip := next\<rparr>))
            else
              ty_then
                (if in_op i = CXPR_OP_CALL_PRODUCER then cxpr_ir_call_producer tx f (in_name i) args cs
                 else cxpr_ir_call_producer_cached tx f (fe_name f) (Some (in_name i)) args cs)
                st1 cxpr_ir_stack_push)"

definition typed_get_field :: "'f typed_env \<Rightarrow> cxpr_ir_instr \<Rightarrow> 'f typed_state \<Rightarrow> 'f typed_out" where
  "typed_get_field tx i st =
     cxpr_ir_pop1 st (\<lambda>a st1.
       case a of
         cxpr_struct s \<Rightarrow>
           (case cxpr_ir_struct_get_field tx s (in_name i) of
              None \<Rightarrow> cxpr_ir_make_not_found ''Unknown field access'' st1
            | Some v \<Rightarrow> cxpr_ir_stack_push v st1)
       | _ \<Rightarrow> Error CXPR_ERR_TYPE_MISMATCH ''Field access requires struct operand'' st1)"

definition typed_call_ast :: "'f typed_env \<Rightarrow> cxpr_ir_instr \<Rightarrow> 'f typed_state \<Rightarrow> 'f typed_out" where
  "typed_call_ast tx i st =
     ty_then
       (if 0 < ty_depth st then
          resolved (case in_ast i of
             None \<Rightarrow> (False, cxpr_num DNaN, ty_frames st, Ok)
           | Some ast \<Rightarrow> cxpr_ir_resolve_lookback_target tx ast (ty_offset st) (ty_frames st))
        else tx_eval_ast tx (in_ast i) (ty_frames st))
       st cxpr_ir_stack_push"

section \<open>Control and the loop (typed.c)\<close>

definition typed_jump_if :: "bool \<Rightarrow> cxpr_ir_instr \<Rightarrow> 'f typed_state \<Rightarrow> 'f typed_out" where
  "typed_jump_if sense i st =
     cxpr_ir_pop1 st (\<lambda>a st1.
       case a of
         cxpr_bool b \<Rightarrow> Continue (st1\<lparr>ty_ip := (if b = sense then in_index i else ty_ip st + 1)\<rparr>)
       | _ \<Rightarrow> Error CXPR_ERR_TYPE_MISMATCH ''Conditional jump requires bool operand'' st1)"

definition typed_lookback_push :: "cxpr_ir_instr \<Rightarrow> 'f typed_state \<Rightarrow> 'f typed_out" where
  "typed_lookback_push i st =
     (if CXPR_IR_STACK_CAPACITY \<le> length (ty_lookback st)
      then cxpr_ir_runtime_error ''Lookback offset stack overflow'' st
      else if SIZE_MAX < ty_offset st + in_index i then cxpr_ir_runtime_error ''Lookback offset overflow'' st
      else Continue (st\<lparr>ty_lookback := ty_offset st # ty_lookback st, ty_offset := ty_offset st + in_index i,
                       ty_depth := ty_depth st + 1, ty_ip := ty_ip st + 1\<rparr>))"

definition typed_lookback_pop :: "'f typed_state \<Rightarrow> 'f typed_out" where
  "typed_lookback_pop st =
     (case ty_lookback st of
        [] \<Rightarrow> cxpr_ir_runtime_error ''Lookback offset stack underflow'' st
      | offset # rest \<Rightarrow>
          if ty_depth st = 0 then cxpr_ir_runtime_error ''Lookback depth underflow'' st
          else Continue (st\<lparr>ty_lookback := rest, ty_offset := offset, ty_depth := ty_depth st - 1,
                           ty_ip := ty_ip st + 1\<rparr>))"

definition typed_return :: "'f typed_state \<Rightarrow> 'f typed_out" where
  "typed_return st =
     cxpr_ir_pop1 st (\<lambda>v st1.
       if ty_stack st1 \<noteq> [] then cxpr_ir_runtime_error ''IR stack not empty at return'' st1 else Return v st1)"

definition typed_loads :: "'f typed_env \<Rightarrow> double list \<Rightarrow> cxpr_ir_instr \<Rightarrow> 'f typed_state \<Rightarrow> 'f typed_out option" where
  "typed_loads tx locals i st =
     (let direct = (\<lambda>load. ty_then (resolve_loaded tx i st (load (ty_frames st))) st) in
      case in_op i of
        CXPR_OP_PUSH_CONST \<Rightarrow> Some (cxpr_ir_stack_push (cxpr_num (in_value i)) st)
      | CXPR_OP_PUSH_INT64 \<Rightarrow> Some (cxpr_ir_stack_push (cxpr_int64 (in_int64 i)) st)
      | CXPR_OP_PUSH_BOOL \<Rightarrow> Some (cxpr_ir_stack_push (cxpr_bool (dbl_nonzero (in_value i))) st)
      | CXPR_OP_PUSH_STRING \<Rightarrow> Some (cxpr_ir_stack_push (cxpr_string (Some (in_name i))) st)
      | CXPR_OP_LOAD_LOCAL \<Rightarrow> Some (typed_load_local locals i False st)
      | CXPR_OP_LOAD_LOCAL_SQUARE \<Rightarrow> Some (typed_load_local locals i True st)
      | CXPR_OP_LOAD_VAR \<Rightarrow> Some (typed_load_var tx i False st)
      | CXPR_OP_LOAD_VAR_SQUARE \<Rightarrow> Some (typed_load_var tx i True st)
      | CXPR_OP_LOAD_PARAM \<Rightarrow> Some (typed_load_param tx i False st)
      | CXPR_OP_LOAD_PARAM_SQUARE \<Rightarrow> Some (typed_load_param tx i True st)
      | CXPR_OP_LOAD_FIELD \<Rightarrow> Some (direct (cxpr_ir_load_field_value tx i) cxpr_ir_stack_push)
      | CXPR_OP_LOAD_FIELD_SQUARE \<Rightarrow> Some (direct (cxpr_ir_load_field_value tx i) cxpr_ir_push_squared)
      | CXPR_OP_LOAD_NAMED_FIELD \<Rightarrow> Some (direct (cxpr_ir_load_named_field_value tx i) cxpr_ir_stack_push)
      | CXPR_OP_LOAD_CHAIN \<Rightarrow> Some (direct (cxpr_ir_load_chain_value tx i) cxpr_ir_stack_push)
      | _ \<Rightarrow> None)"

definition typed_operators :: "'f typed_env \<Rightarrow> cxpr_ir_instr \<Rightarrow> 'f typed_state \<Rightarrow> 'f typed_out option" where
  "typed_operators tx i st =
     (case typed_binary tx (in_op i) of
        Some f \<Rightarrow> Some (cxpr_ir_pop2 st (\<lambda>a b. push_result (f a b)))
      | None \<Rightarrow>
          (case typed_unary (in_op i) of
             Some f \<Rightarrow> Some (cxpr_ir_pop1 st (\<lambda>a. push_result (f a)))
           | None \<Rightarrow>
               (case in_op i of
                  CXPR_OP_CLAMP \<Rightarrow> Some (typed_clamp st)
                | CXPR_OP_INDEX \<Rightarrow> Some (cxpr_ir_pop2 st (\<lambda>a b. push_result (typed_index (ev_mem (tx_env tx)) a b)))
                | CXPR_OP_BUILD_ARRAY \<Rightarrow> Some (typed_build_array tx i st)
                | CXPR_OP_GET_FIELD \<Rightarrow> Some (typed_get_field tx i st)
                | _ \<Rightarrow> None)))"

definition typed_control :: "'f typed_env \<Rightarrow> ir_code \<Rightarrow> cxpr_ir_instr \<Rightarrow> 'f typed_state \<Rightarrow> 'f typed_out" where
  "typed_control tx code i st =
     (case in_op i of
        CXPR_OP_CALL_UNARY \<Rightarrow> typed_call_native tx i 1 st
      | CXPR_OP_CALL_BINARY \<Rightarrow> typed_call_native tx i 2 st
      | CXPR_OP_CALL_TERNARY \<Rightarrow> typed_call_native tx i 3 st
      | CXPR_OP_CALL_FUNC \<Rightarrow> typed_call_func tx i st
      | CXPR_OP_CALL_DEFINED \<Rightarrow> typed_call_defined tx i st
      | CXPR_OP_CALL_PRODUCER \<Rightarrow> typed_call_producer tx code i st
      | CXPR_OP_CALL_PRODUCER_CONST \<Rightarrow> typed_call_producer tx code i st
      | CXPR_OP_CALL_PRODUCER_CONST_FIELD \<Rightarrow>
          ty_then
            (case in_func i of
               None \<Rightarrow> ir_fails ''Invalid producer opcode'' (ty_frames st)
             | Some f \<Rightarrow> cxpr_ir_call_producer_const_field tx f (in_name i) (in_args i) (in_index i) (in_aux_name i) (ty_frames st))
            st cxpr_ir_stack_push
      | CXPR_OP_CALL_AST \<Rightarrow> typed_call_ast tx i st
      | CXPR_OP_JUMP \<Rightarrow> Continue (st\<lparr>ty_ip := in_index i\<rparr>)
      | CXPR_OP_JUMP_IF_FALSE \<Rightarrow> typed_jump_if False i st
      | CXPR_OP_JUMP_IF_TRUE \<Rightarrow> typed_jump_if True i st
      | CXPR_OP_LOOKBACK_PUSH \<Rightarrow> typed_lookback_push i st
      | CXPR_OP_LOOKBACK_POP \<Rightarrow> typed_lookback_pop st
      | CXPR_OP_LOOKBACK_RESOLVE \<Rightarrow> ty_then (lookback_resolve tx i st) st cxpr_ir_stack_push
      | CXPR_OP_RETURN \<Rightarrow> typed_return st
      | CXPR_OP_STORE_LOCAL \<Rightarrow> cxpr_ir_runtime_error ''STORE_LOCAL requires scalar fast execution'' st
      | _ \<Rightarrow> cxpr_ir_runtime_error ''Unsupported IR opcode'' st)"

definition typed_step :: "'f typed_env \<Rightarrow> ir_code \<Rightarrow> double list \<Rightarrow> 'f typed_state \<Rightarrow> 'f typed_out" where
  "typed_step tx code locals st =
     (if length code \<le> ty_ip st then cxpr_ir_runtime_error ''IR program fell off end without return'' st
      else let i = code ! ty_ip st in
        case typed_loads tx locals i st of
          Some r \<Rightarrow> r
        | None \<Rightarrow> (case typed_operators tx i st of Some r \<Rightarrow> r | None \<Rightarrow> typed_control tx code i st))"

definition typed_start :: "'f list \<Rightarrow> 'f typed_state" where
  "typed_start cs = \<lparr>ty_ip = 0, ty_stack = [], ty_lookback = [], ty_offset = 0, ty_depth = 0, ty_frames = cs\<rparr>"

definition cxpr_ir_exec_typed :: "'f typed_env \<Rightarrow> ir_code \<Rightarrow> double list \<Rightarrow> 'f list \<Rightarrow> nat \<Rightarrow> 'f typed_out option" where
  "cxpr_ir_exec_typed tx code locals cs fuel =
     (if code = [] then Some (cxpr_ir_runtime_error ''Empty IR program'' (typed_start cs))
      else ir_run (typed_step tx code locals) fuel (typed_start cs))"

end
