(* ===== verification/Cxpr_Maps.thy ===== *)
theory Cxpr_Maps
  imports Cxpr_Value
begin

text \<open>
  The struct map and the array map of \<^verbatim>\<open>src/src/struct.c\<close> (lines 155-534), which hold the struct and
  array bindings of a context: open addressing with linear probing, growth at load factor 0.75 and
  removal by storing the rest of the probe cluster again. The two C implementations are the same
  text over two value types, so the operations are written once for a value type and named for
  both. A NULL entry array is the empty list. \<open>mem n\<close> says whether an allocation of \<open>n\<close> bytes
  succeeds; a probe loop that never ends is the result \<open>None\<close>. The invariant on the names by slot
  (\<open>tbl_ok\<close>, \<open>reachable_key\<close>, \<open>hslot\<close>) is the one of the hash map.
\<close>

section \<open>State\<close>

record 'v map_entry =
  me_name :: "string option"
  me_value :: "'v option"

record 'v named_map =
  nm_entries :: "'v map_entry list"
  nm_capacity :: nat
  nm_count :: nat

type_synonym cxpr_struct_map = "cxpr_struct_value named_map"
type_synonym cxpr_array_map = "cxpr_array_value named_map"

definition free_entry :: "'v map_entry" where
  "free_entry = \<lparr>me_name = None, me_value = None\<rparr>"

abbreviation names :: "'v map_entry list \<Rightarrow> string option list" where
  "names es \<equiv> map me_name es"

section \<open>Operations\<close>

text \<open>The probe loop, over the names of the slots: the first slot that is free or holds the name.
  The fuel is the number of slots still to visit; \<open>None\<close> is a loop that does not end.\<close>

fun probe_name :: "string option list \<Rightarrow> nat \<Rightarrow> string \<Rightarrow> nat \<Rightarrow> nat \<Rightarrow> nat option" where
  "probe_name ks cap name 0 h = None"
| "probe_name ks cap name (Suc fuel) h =
     (if ks ! h = None \<or> ks ! h = Some name then Some h
      else probe_name ks cap name fuel ((h + 1) mod cap))"

text \<open>The index of the slot; \<open>Some None\<close> is the NULL result on an unallocated map.\<close>

definition map_find_slot :: "'v named_map \<Rightarrow> string \<Rightarrow> nat option option" where
  "map_find_slot m name =
     (if nm_entries m = [] \<or> nm_capacity m = 0 then Some None
      else map_option Some (probe_name (names (nm_entries m)) (nm_capacity m) name (nm_capacity m)
             (unat (cxpr_hash_string name) mod nm_capacity m)))"

fun probe_empty :: "string option list \<Rightarrow> nat \<Rightarrow> nat \<Rightarrow> nat \<Rightarrow> nat option" where
  "probe_empty ks cap 0 h = None"
| "probe_empty ks cap (Suc fuel) h =
     (if ks ! h = None then Some h else probe_empty ks cap fuel ((h + 1) mod cap))"

fun map_rehash :: "nat \<Rightarrow> 'v map_entry list \<Rightarrow> 'v map_entry list \<Rightarrow> 'v map_entry list option" where
  "map_rehash cap new_entries [] = Some new_entries"
| "map_rehash cap new_entries (e # es) =
     (case me_name e of
        None \<Rightarrow> map_rehash cap new_entries es
      | Some k \<Rightarrow>
          (case probe_empty (names new_entries) cap cap (unat (cxpr_hash_string k) mod cap) of
             None \<Rightarrow> None
           | Some h \<Rightarrow> map_rehash cap (new_entries[h := e]) es))"

abbreviation sizeof_map_entry :: nat where "sizeof_map_entry \<equiv> 16"

definition map_grow :: "(nat \<Rightarrow> bool) \<Rightarrow> 'v named_map \<Rightarrow> ('v named_map \<times> bool) option" where
  "map_grow mem m =
     (if SIZE_MAX div 2 < nm_capacity m then Some (m, False)
      else let new_capacity = nm_capacity m * 2 in
        if \<not> mem (new_capacity * sizeof_map_entry) then Some (m, False)
        else (case map_rehash new_capacity (replicate new_capacity free_entry) (nm_entries m) of
                None \<Rightarrow> None
              | Some es \<Rightarrow> Some (m\<lparr>nm_entries := es, nm_capacity := new_capacity\<rparr>, True)))"

definition map_init :: "'v named_map" where
  "map_init = \<lparr>nm_entries = [], nm_capacity = 0, nm_count = 0\<rparr>"

definition map_destroy :: "'v named_map \<Rightarrow> 'v named_map" where
  "map_destroy m = (if nm_entries m = [] then m else map_init)"

definition map_clear :: "'v named_map \<Rightarrow> 'v named_map" where
  "map_clear m = m\<lparr>nm_entries := map (\<lambda>_. free_entry) (nm_entries m), nm_count := 0\<rparr>"

definition map_over_load :: "'v named_map \<Rightarrow> bool" where
  "map_over_load m =
     dbl_lt CXPR_HASHMAP_LOAD_FACTOR
       (dbl_div (dbl_of_int (int (nm_count m + 1))) (dbl_of_int (int (nm_capacity m))))"

text \<open>Growth where the load asks for it; \<open>False\<close> where it was needed and failed.\<close>

definition map_make_room :: "(nat \<Rightarrow> bool) \<Rightarrow> 'v named_map \<Rightarrow> ('v named_map \<times> bool) option" where
  "map_make_room mem m = (if map_over_load m then map_grow mem m else Some (m, True))"

text \<open>A store of an owned copy (NULL where copying failed) under a name.\<close>

definition map_store :: "(nat \<Rightarrow> bool) \<Rightarrow> 'v option \<Rightarrow> 'v named_map \<Rightarrow> string \<Rightarrow> 'v named_map option" where
  "map_store mem copy m name =
     (case copy of
        None \<Rightarrow> Some m
      | Some c \<Rightarrow>
          if nm_entries m = [] \<and> \<not> mem (CXPR_HASHMAP_INITIAL_CAPACITY * sizeof_map_entry)
          then Some (m\<lparr>nm_capacity := 0\<rparr>)
          else
            let m1 = (if nm_entries m = []
                      then m\<lparr>nm_entries := replicate CXPR_HASHMAP_INITIAL_CAPACITY free_entry,
                             nm_capacity := CXPR_HASHMAP_INITIAL_CAPACITY\<rparr> else m) in
            (case map_make_room mem m1 of
               None \<Rightarrow> None
             | Some (m2, False) \<Rightarrow> Some m2
             | Some (m2, True) \<Rightarrow>
                 (case map_find_slot m2 name of
                    None \<Rightarrow> None
                  | Some None \<Rightarrow> None
                  | Some (Some i) \<Rightarrow>
                      if me_name (nm_entries m2 ! i) \<noteq> None
                      then Some (m2\<lparr>nm_entries := (nm_entries m2)[i := (nm_entries m2 ! i)\<lparr>me_value := Some c\<rparr>]\<rparr>)
                      else (case cxpr_strdup mem name of
                              None \<Rightarrow> Some m2
                            | Some n \<Rightarrow>
                                Some (m2\<lparr>nm_entries := (nm_entries m2)[i := \<lparr>me_name = Some n, me_value = Some c\<rparr>],
                                         nm_count := nm_count m2 + 1\<rparr>)))))"

text \<open>The loop after a removal: every entry of the rest of the cluster is taken out and stored
  again.\<close>

fun map_reinsert :: "nat \<Rightarrow> 'v named_map \<Rightarrow> nat \<Rightarrow> 'v named_map option" where
  "map_reinsert 0 m index = None"
| "map_reinsert (Suc fuel) m index =
     (case me_name (nm_entries m ! index) of
        None \<Rightarrow> Some m
      | Some k \<Rightarrow>
          let displaced = nm_entries m ! index;
              m1 = m\<lparr>nm_entries := (nm_entries m)[index := free_entry], nm_count := nm_count m - 1\<rparr> in
          (case map_find_slot m1 k of
             Some (Some t) \<Rightarrow>
               map_reinsert fuel
                 (m1\<lparr>nm_entries := (nm_entries m1)[t := displaced], nm_count := nm_count m1 + 1\<rparr>)
                 ((index + 1) mod nm_capacity m)
           | _ \<Rightarrow> None))"

definition map_remove :: "'v named_map \<Rightarrow> string \<Rightarrow> 'v named_map option" where
  "map_remove m name =
     (case map_find_slot m name of
        None \<Rightarrow> None
      | Some None \<Rightarrow> Some m
      | Some (Some i) \<Rightarrow>
          if me_name (nm_entries m ! i) = None then Some m
          else map_reinsert (nm_capacity m + 1)
                 (m\<lparr>nm_entries := (nm_entries m)[i := free_entry], nm_count := nm_count m - 1\<rparr>)
                 ((i + 1) mod nm_capacity m))"

text \<open>The entry with the name; the outer \<open>None\<close> is a probe that does not end.\<close>

definition map_get :: "'v named_map \<Rightarrow> string \<Rightarrow> 'v map_entry option option" where
  "map_get m name =
     (case map_find_slot m name of
        None \<Rightarrow> None
      | Some None \<Rightarrow> Some None
      | Some (Some i) \<Rightarrow>
          Some (if me_name (nm_entries m ! i) = None then None else Some (nm_entries m ! i)))"

definition map_lookup :: "'v named_map \<Rightarrow> string \<Rightarrow> 'v option option" where
  "map_lookup m name =
     (case map_get m name of
        None \<Rightarrow> None
      | Some None \<Rightarrow> Some None
      | Some (Some e) \<Rightarrow> Some (me_value e))"

text \<open>The loop of a clone over the source slots, with the copy function of the values; the flag is
  the result.\<close>

fun map_clone_loop :: "(nat \<Rightarrow> bool) \<Rightarrow> ('v \<Rightarrow> 'v option) \<Rightarrow> 'v named_map \<Rightarrow> 'v map_entry list
    \<Rightarrow> ('v named_map \<times> bool) option" where
  "map_clone_loop mem copy dst [] = Some (dst, True)"
| "map_clone_loop mem copy dst (e # es) =
     (case me_name e of
        None \<Rightarrow> map_clone_loop mem copy dst es
      | Some k \<Rightarrow>
          (case copy (the (me_value e)) of
             None \<Rightarrow> Some (dst, False)
           | Some c \<Rightarrow>
               (case map_make_room mem dst of
                  None \<Rightarrow> None
                | Some (d, False) \<Rightarrow> Some (d, False)
                | Some (d, True) \<Rightarrow>
                    (case map_find_slot d k of
                       Some (Some i) \<Rightarrow>
                         (case cxpr_strdup mem k of
                            None \<Rightarrow> Some (d\<lparr>nm_entries := (nm_entries d)[i := \<lparr>me_name = None, me_value = Some c\<rparr>]\<rparr>, False)
                          | Some n \<Rightarrow>
                              map_clone_loop mem copy
                                (d\<lparr>nm_entries := (nm_entries d)[i := \<lparr>me_name = Some n, me_value = Some c\<rparr>],
                                   nm_count := nm_count d + 1\<rparr>) es)
                     | _ \<Rightarrow> None))))"

definition map_clone :: "(nat \<Rightarrow> bool) \<Rightarrow> ('v \<Rightarrow> 'v option) \<Rightarrow> 'v named_map
    \<Rightarrow> ('v named_map \<times> bool) option" where
  "map_clone mem copy src =
     (if nm_entries src = [] \<or> nm_count src = 0 then Some (map_init, True)
      else if \<not> mem (CXPR_HASHMAP_INITIAL_CAPACITY * sizeof_map_entry)
      then Some (map_init\<lparr>nm_capacity := CXPR_HASHMAP_INITIAL_CAPACITY\<rparr>, False)
      else map_clone_loop mem copy
             (map_init\<lparr>nm_capacity := CXPR_HASHMAP_INITIAL_CAPACITY,
                nm_entries := replicate CXPR_HASHMAP_INITIAL_CAPACITY free_entry\<rparr>) (nm_entries src))"

section \<open>The two instances\<close>

definition cxpr_struct_map_find_slot :: "cxpr_struct_map \<Rightarrow> string \<Rightarrow> nat option option" where
  "cxpr_struct_map_find_slot = map_find_slot"

definition cxpr_struct_map_grow :: "(nat \<Rightarrow> bool) \<Rightarrow> cxpr_struct_map \<Rightarrow> (cxpr_struct_map \<times> bool) option" where
  "cxpr_struct_map_grow = map_grow"

definition cxpr_struct_map_init :: cxpr_struct_map where
  "cxpr_struct_map_init = map_init"

definition cxpr_struct_map_destroy :: "cxpr_struct_map \<Rightarrow> cxpr_struct_map" where
  "cxpr_struct_map_destroy = map_destroy"

definition cxpr_struct_map_clear :: "cxpr_struct_map \<Rightarrow> cxpr_struct_map" where
  "cxpr_struct_map_clear = map_clear"

definition cxpr_struct_map_clone :: "(nat \<Rightarrow> bool) \<Rightarrow> cxpr_struct_map \<Rightarrow> (cxpr_struct_map \<times> bool) option" where
  "cxpr_struct_map_clone mem = map_clone mem (cxpr_struct_value_new mem)"

definition cxpr_struct_map_get :: "cxpr_struct_map \<Rightarrow> string \<Rightarrow> cxpr_struct_value map_entry option option" where
  "cxpr_struct_map_get = map_get"

definition cxpr_context_store_struct ::
  "(nat \<Rightarrow> bool) \<Rightarrow> cxpr_struct_map \<Rightarrow> string \<Rightarrow> cxpr_struct_value \<Rightarrow> cxpr_struct_map option" where
  "cxpr_context_store_struct mem m name v = map_store mem (cxpr_struct_value_new mem v) m name"

definition cxpr_context_remove_struct :: "cxpr_struct_map \<Rightarrow> string \<Rightarrow> cxpr_struct_map option" where
  "cxpr_context_remove_struct = map_remove"

definition cxpr_context_lookup_struct_map :: "cxpr_struct_map \<Rightarrow> string \<Rightarrow> cxpr_struct_value option option" where
  "cxpr_context_lookup_struct_map = map_lookup"

definition cxpr_array_map_find_slot :: "cxpr_array_map \<Rightarrow> string \<Rightarrow> nat option option" where
  "cxpr_array_map_find_slot = map_find_slot"

definition cxpr_array_map_grow :: "(nat \<Rightarrow> bool) \<Rightarrow> cxpr_array_map \<Rightarrow> (cxpr_array_map \<times> bool) option" where
  "cxpr_array_map_grow = map_grow"

definition cxpr_array_map_init :: cxpr_array_map where
  "cxpr_array_map_init = map_init"

definition cxpr_array_map_destroy :: "cxpr_array_map \<Rightarrow> cxpr_array_map" where
  "cxpr_array_map_destroy = map_destroy"

definition cxpr_array_map_clear :: "cxpr_array_map \<Rightarrow> cxpr_array_map" where
  "cxpr_array_map_clear = map_clear"

definition cxpr_array_map_clone :: "(nat \<Rightarrow> bool) \<Rightarrow> cxpr_array_map \<Rightarrow> (cxpr_array_map \<times> bool) option" where
  "cxpr_array_map_clone mem = map_clone mem (cxpr_array_value_new mem)"

definition cxpr_array_map_get :: "cxpr_array_map \<Rightarrow> string \<Rightarrow> cxpr_array_value map_entry option option" where
  "cxpr_array_map_get = map_get"

definition cxpr_context_store_array ::
  "(nat \<Rightarrow> bool) \<Rightarrow> cxpr_array_map \<Rightarrow> string \<Rightarrow> cxpr_array_value \<Rightarrow> cxpr_array_map option" where
  "cxpr_context_store_array mem m name v = map_store mem (cxpr_array_value_new mem v) m name"

definition cxpr_context_remove_array :: "cxpr_array_map \<Rightarrow> string \<Rightarrow> cxpr_array_map option" where
  "cxpr_context_remove_array = map_remove"

definition cxpr_context_lookup_array_map :: "cxpr_array_map \<Rightarrow> string \<Rightarrow> cxpr_array_value option option" where
  "cxpr_context_lookup_array_map = map_lookup"

section \<open>Invariant and abstraction\<close>

definition distinct_names :: "string option list \<Rightarrow> bool" where
  "distinct_names ks \<longleftrightarrow> (\<forall>i < length ks. \<forall>j < length ks. ks ! i \<noteq> None \<and> ks ! i = ks ! j \<longrightarrow> i = j)"

lemma tbl_ok_iff:
  "tbl_ok ks \<longleftrightarrow> distinct_names ks \<and> (\<forall>i < length ks. \<forall>k. ks ! i = Some k \<longrightarrow> reachable_key ks k i)"
  by (auto simp: tbl_ok_def distinct_names_def)

lemma distinct_namesD:
  "distinct_names ks \<Longrightarrow> i < length ks \<Longrightarrow> j < length ks \<Longrightarrow> ks ! i \<noteq> None \<Longrightarrow> ks ! i = ks ! j \<Longrightarrow> i = j"
  unfolding distinct_names_def by blast

lemma distinct_names_clear: "distinct_names ks \<Longrightarrow> distinct_names (ks[i := None])"
  unfolding distinct_names_def length_list_update
proof (intro allI impI)
  fix a b
  assume d: "\<forall>i<length ks. \<forall>j<length ks. ks ! i \<noteq> None \<and> ks ! i = ks ! j \<longrightarrow> i = j"
    and ab: "a < length ks" "b < length ks" "ks[i := None] ! a \<noteq> None \<and> ks[i := None] ! a = ks[i := None] ! b"
  then have "a \<noteq> i" "b \<noteq> i" by auto
  then have "ks ! a \<noteq> None \<and> ks ! a = ks ! b" using ab(3) by (metis nth_list_update_neq)
  with d ab show "a = b" by blast
qed

lemma distinct_names_fill:
  assumes "distinct_names ks" "Some k \<notin> set ks"
  shows "distinct_names (ks[t := Some k])"
  unfolding distinct_names_def length_list_update
proof (intro allI impI)
  fix a b
  assume ab: "a < length ks" "b < length ks" "ks[t := Some k] ! a \<noteq> None \<and> ks[t := Some k] ! a = ks[t := Some k] ! b"
  have fresh: "ks ! c \<noteq> Some k" if "c < length ks" for c using assms(2) nth_mem [OF that] by metis
  show "a = b"
  proof (cases "a = t \<or> b = t")
    case True
    with ab fresh [of a] fresh [of b] show ?thesis by (cases "a = t"; cases "b = t") auto
  next
    case False
    then have "ks ! a \<noteq> None \<and> ks ! a = ks ! b" using ab(3) by (metis nth_list_update_neq)
    with assms(1) ab show ?thesis unfolding distinct_names_def by blast
  qed
qed

definition nm_wf :: "'v named_map \<Rightarrow> bool" where
  "nm_wf m \<longleftrightarrow>
     (nm_entries m = [] \<and> nm_capacity m = 0 \<and> nm_count m = 0) \<or>
     (0 < nm_capacity m \<and> length (nm_entries m) = nm_capacity m \<and>
      nm_count m = occupied (names (nm_entries m)) \<and> nm_count m < nm_capacity m \<and>
      tbl_ok (names (nm_entries m)) \<and>
      (\<forall>e \<in> set (nm_entries m). me_name e \<noteq> None \<longrightarrow> me_value e \<noteq> None))"

definition bindings :: "'v map_entry list \<Rightarrow> (string \<times> 'v) set" where
  "bindings es = {(k, v). \<exists>e \<in> set es. me_name e = Some k \<and> me_value e = Some v}"

definition nm_abs :: "'v named_map \<Rightarrow> string \<Rightarrow> 'v option" where
  "nm_abs m k = Option.bind (List.find (\<lambda>e. me_name e = Some k) (nm_entries m)) me_value"

lemma abs_bindings:
  assumes "distinct_names (names (nm_entries m))"
  shows "nm_abs m k = Some v \<longleftrightarrow> (k, v) \<in> bindings (nm_entries m)"
proof
  assume "nm_abs m k = Some v"
  then show "(k, v) \<in> bindings (nm_entries m)"
    by (auto simp: nm_abs_def bindings_def find_Some_iff bind_eq_Some_conv)
next
  assume "(k, v) \<in> bindings (nm_entries m)"
  then obtain i where i: "i < length (nm_entries m)" "me_name (nm_entries m ! i) = Some k" "me_value (nm_entries m ! i) = Some v"
    by (auto simp: bindings_def in_set_conv_nth)
  have "List.find (\<lambda>e. me_name e = Some k) (nm_entries m) = Some (nm_entries m ! i)"
    unfolding find_Some_iff
  proof (intro exI [of _ i] conjI allI impI)
    fix j assume "j < i"
    then show "me_name (nm_entries m ! j) \<noteq> Some k"
      using assms i(1,2) unfolding distinct_names_def by (metis length_map less_irrefl less_trans nth_map option.distinct(1))
  qed (use i in auto)
  with i(3) show "nm_abs m k = Some v" by (simp add: nm_abs_def)
qed

lemma abs_eqI:
  assumes "distinct_names (names (nm_entries m))" "\<And>k v. (k, v) \<in> bindings (nm_entries m) \<longleftrightarrow> f k = Some v"
  shows "nm_abs m = f"
proof (rule ext)
  fix k
  have "nm_abs m k = Some v \<longleftrightarrow> f k = Some v" for v using abs_bindings [OF assms(1)] assms(2) by simp
  then show "nm_abs m k = f k" by (metis option.exhaust)
qed

lemma abs_empty [simp]: "nm_entries m = [] \<Longrightarrow> nm_abs m = Map.empty"
  by (simp add: nm_abs_def fun_eq_iff)

section \<open>Probing\<close>

lemma probe_name_walk:
  assumes "d < fuel" "\<And>c. c < d \<Longrightarrow> ks ! hslot n k (a + c) \<notin> {None, Some k}"
    and "ks ! hslot n k (a + d) \<in> {None, Some k}"
  shows "probe_name ks n k fuel (hslot n k a) = Some (hslot n k (a + d))"
  using assms
proof (induction d arbitrary: a fuel)
  case 0
  then obtain f where "fuel = Suc f" by (cases fuel) auto
  with 0 show ?case by auto
next
  case (Suc d)
  then obtain f where f: "fuel = Suc f" by (cases fuel) auto
  have now: "ks ! hslot n k a \<notin> {None, Some k}" using Suc.prems(2) [of 0] by simp
  have later: "ks ! hslot n k (Suc a + c) \<notin> {None, Some k}" if "c < d" for c
    using Suc.prems(2) [of "Suc c"] that by simp
  have "probe_name ks n k f (hslot n k (Suc a)) = Some (hslot n k (Suc a + d))"
    by (rule Suc.IH) (use Suc.prems f later in auto)
  with now f show ?case by (auto simp: hslot_Suc)
qed

lemma probe_empty_eq:
  assumes "Some k \<notin> set ks" "length ks = n" "h < n"
  shows "probe_empty ks n fuel h = probe_name ks n k fuel h"
  using assms(3)
proof (induction fuel arbitrary: h)
  case (Suc fuel)
  have "ks ! h \<noteq> Some k" using assms Suc.prems nth_mem by metis
  moreover have "(h + 1) mod n < n" using Suc.prems by simp
  ultimately show ?case using Suc.IH by simp
qed simp

text \<open>The two outcomes on a table in order: the slot of the name, or the first free slot.\<close>

lemma probe_name_found:
  assumes "tbl_ok ks" "i < length ks" "ks ! i = Some k"
  shows "probe_name ks (length ks) k (length ks) (unat (cxpr_hash_string k) mod length ks) = Some i"
proof -
  have "reachable_key ks k i" using assms unfolding tbl_ok_iff by blast
  then obtain d where d: "d < length ks" "hslot (length ks) k d = i"
      and occ: "\<And>c. c < d \<Longrightarrow> ks ! hslot (length ks) k c \<noteq> None"
    unfolding reachable_key_def by blast
  have "ks ! hslot (length ks) k c \<noteq> Some k" if "c < d" for c
  proof
    assume "ks ! hslot (length ks) k c = Some k"
    moreover have "hslot (length ks) k c < length ks" using assms(2) by (intro hslot_less) auto
    ultimately have "hslot (length ks) k c = i" using assms unfolding tbl_ok_iff distinct_names_def by (metis option.distinct(1))
    with d that show False using hslot_inj [of c "length ks" d k] by simp
  qed
  with occ d assms(3) show ?thesis
    using probe_name_walk [of d "length ks" ks "length ks" k 0] by auto
qed

lemma probe_name_free:
  assumes "i < length ks" "ks ! i = None" "Some k \<notin> set ks"
  obtains d where "d < length ks" "ks ! hslot (length ks) k d = None"
    "\<And>c. c < d \<Longrightarrow> ks ! hslot (length ks) k c \<noteq> None"
    "probe_name ks (length ks) k (length ks) (unat (cxpr_hash_string k) mod length ks) = Some (hslot (length ks) k d)"
proof -
  let ?P = "\<lambda>d. ks ! hslot (length ks) k d = None"
  obtain e where e: "e < length ks" "?P e"
    using hslot_reach [OF assms(1), of k] assms(2) by metis
  define d where "d = (LEAST d. ?P d)"
  have d: "?P d" "d \<le> e" "\<And>c. c < d \<Longrightarrow> \<not> ?P c"
    using LeastI [of ?P, OF e(2)] Least_le [of ?P, OF e(2)] not_less_Least [of _ ?P] by (auto simp: d_def)
  have "hslot (length ks) k c < length ks" for c using assms(1) by (intro hslot_less) auto
  then have "ks ! hslot (length ks) k c \<noteq> Some k" for c using assms(3) nth_mem by metis
  with d e(1) show thesis
    using that [of d] probe_name_walk [of d "length ks" ks "length ks" k 0] by simp
qed

section \<open>Closing the gap after a removal\<close>

lemma hslot_shift: "hslot n k c = (i + j) mod n \<Longrightarrow> hslot n k (c + t) = (i + (j + t)) mod n"
proof (induction t)
  case (Suc t)
  then have "hslot n k (c + Suc t) = ((i + (j + t)) mod n + 1) mod n" by (simp add: hslot_Suc)
  then show ?case by (simp add: mod_Suc_eq)
qed simp

text \<open>A probe path that enters a cluster cannot leave it: what it reaches beyond slot \<open>j\<close> of the
  cluster lies in the rest of the cluster.\<close>

lemma path_in_cluster:
  assumes "hslot n k c = (i + j) mod n" "c < d" "j \<le> L"
    and occ: "\<And>t. c \<le> t \<Longrightarrow> t < d \<Longrightarrow> ks ! hslot n k t \<noteq> None"
    and "ks ! hslot n k d \<noteq> None" "ks ! ((i + L) mod n) = None"
  shows "hslot n k d \<in> (\<lambda>c. (i + c) mod n) ` {j + 1..<L}"
proof -
  have sh: "hslot n k (c + t) = (i + (j + t)) mod n" for t by (rule hslot_shift) (rule assms(1))
  have "\<not> L - j \<le> d - c"
  proof
    assume le: "L - j \<le> d - c"
    have "ks ! hslot n k (c + (L - j)) = None" using sh [of "L - j"] assms(3,6) by simp
    moreover have "ks ! hslot n k (c + (L - j)) \<noteq> None"
      using occ [of "c + (L - j)"] assms(2,5) le by (cases "L - j = d - c") auto
    ultimately show False by simp
  qed
  then have "j + (d - c) \<in> {j + 1..<L}" using assms(2,3) by auto
  moreover have "hslot n k d = (i + (j + (d - c))) mod n" using sh [of "d - c"] assms(2) by simp
  ultimately show ?thesis by blast
qed

text \<open>
  The state of the loop over the cluster behind slot \<open>i\<close>, before position \<open>j\<close> of it: positions
  \<open>j\<close> to \<open>L - 1\<close> are still occupied, position \<open>L\<close> is free, and every name is reached from its
  hash, but the names still to be stored again may be cut off by free slots before \<open>j\<close>.
\<close>

definition gap_ok :: "string option list \<Rightarrow> nat \<Rightarrow> nat \<Rightarrow> nat \<Rightarrow> bool" where
  "gap_ok ks i j L \<longleftrightarrow>
     (let n = length ks; p = (\<lambda>c. (i + c) mod n) in
      i < n \<and> j \<le> L \<and> L < n \<and> (\<forall>c \<in> {j..<L}. ks ! p c \<noteq> None) \<and> ks ! p L = None \<and> distinct_names ks \<and>
      (\<forall>q < n. \<forall>k. ks ! q = Some k \<longrightarrow>
         (\<exists>d < n. hslot n k d = q \<and>
           (\<forall>c < d. ks ! hslot n k c \<noteq> None \<or> q \<in> p ` {j..<L} \<and> hslot n k c \<in> p ` {0..<j}))))"

lemma gap_done: "gap_ok ks i L L \<Longrightarrow> tbl_ok ks"
  by (simp add: gap_ok_def tbl_ok_iff reachable_key_def Let_def)

lemma gap_start:
  assumes ok: "tbl_ok ks" and i: "i < length ks" "ks ! i \<noteq> None" and free: "f < length ks" "ks ! f = None"
  shows "\<exists>L. 1 \<le> L \<and> gap_ok (ks[i := None]) i 1 L"
proof -
  let ?n = "length ks" and ?ks = "ks[i := None]"
  let ?p = "\<lambda>c. (i + c) mod length ks"
  let ?Q = "\<lambda>c. 1 \<le> c \<and> ks ! ?p c = None"
  obtain e where e: "e < ?n" "?p e = f" using ring_reach [OF i(1) free(1)] by metis
  then have "?Q e" using free i by (cases e) auto
  define L where "L = (LEAST c. ?Q c)"
  have L: "?Q L" "L \<le> e" "\<And>c. c < L \<Longrightarrow> \<not> ?Q c"
    using LeastI [of ?Q, OF \<open>?Q e\<close>] Least_le [of ?Q, OF \<open>?Q e\<close>] not_less_Least [of _ ?Q] by (auto simp: L_def)
  have pi: "?p c \<noteq> i" if "1 \<le> c" "c < ?n" for c
  proof
    assume "?p c = i"
    then have "c = 0" using that i(1) by (intro ring_inj [of c ?n 0 i]) auto
    with that show False by simp
  qed
  have dist: "distinct_names ?ks"
    using ok distinct_names_clear by (simp add: tbl_ok_iff)
  have "\<exists>d < ?n. hslot ?n k d = q \<and> (\<forall>c < d. ?ks ! hslot ?n k c \<noteq> None \<or> q \<in> ?p ` {1..<L} \<and> hslot ?n k c \<in> ?p ` {0..<1})"
    if q: "q < ?n" "?ks ! q = Some k" for q k
  proof -
    have kq: "ks ! q = Some k" "q \<noteq> i" using q i(1) by (cases "q = i"; simp)+
    then obtain d where d: "d < ?n" "hslot ?n k d = q" "\<And>c. c < d \<Longrightarrow> ks ! hslot ?n k c \<noteq> None"
      using ok q(1) unfolding tbl_ok_iff reachable_key_def by blast
    have "q \<in> ?p ` {1..<L}" if "c < d" "hslot ?n k c = i" for c
      using path_in_cluster [of ?n k c i 0 d L ks] that d kq L i(1) by simp
    then show ?thesis using d i(1)
      by (intro exI [of _ d]) (auto simp: nth_list_update)
  qed
  moreover have "?ks ! ?p c \<noteq> None" if "c \<in> {1..<L}" for c
    using that L pi [of c] e(1) by simp
  moreover have "?ks ! ?p L = None" using L e(1) pi [of L] by simp
  moreover have "L < ?n" using L(2) e(1) by simp
  ultimately have "gap_ok ?ks i 1 L"
    using i(1) L(1) dist unfolding gap_ok_def Let_def length_list_update by blast
  with L(1) show ?thesis by blast
qed

lemma gap_step:
  fixes ks :: "string option list"
  assumes gap: "gap_ok ks i j L" and j: "j < L" and k: "ks ! ((i + j) mod length ks) = Some k"
  defines "ks1 \<equiv> ks[(i + j) mod length ks := None]"
  obtains t where
    "probe_name ks1 (length ks) k (length ks) (unat (cxpr_hash_string k) mod length ks) = Some t"
    "t < length ks" "ks1 ! t = None" "gap_ok (ks1[t := Some k]) i (j + 1) L"
proof -
  define n where "n = length ks"
  define p where "p = (\<lambda>c. (i + c) mod n)"
  note k = k [folded n_def] and ks1 = ks1_def [folded n_def]
  have g: "i < n" "L < n" "\<And>c. j \<le> c \<Longrightarrow> c < L \<Longrightarrow> ks ! p c \<noteq> None" "ks ! p L = None" "distinct_names ks"
    and reach: "\<And>q k. q < n \<Longrightarrow> ks ! q = Some k \<Longrightarrow> \<exists>d < n. hslot n k d = q \<and>
        (\<forall>c < d. ks ! hslot n k c \<noteq> None \<or> q \<in> p ` {j..<L} \<and> hslot n k c \<in> p ` {0..<j})"
    using gap by (auto simp: gap_ok_def Let_def n_def p_def)
  have n0: "0 < n" using g(1) by simp
  have pl: "p c < n" for c using n0 by (simp add: p_def)
  have inj: "c = c'" if "p c = p c'" "c < n" "c' < n" for c c'
    using that ring_inj [of c n c' i] by (simp add: p_def)
  have hl: "hslot n k' c < n" for k' c using n0 by simp
  have len: "length ks1 = n" by (simp add: ks1 n_def)
  have pj: "ks ! p j = Some k" using k by (simp add: p_def)
  have ks1_at: "ks1 ! q = (if q = p j then None else ks ! q)" if "q < n" for q
    using that pl [of j] by (simp add: ks1 p_def n_def nth_list_update)
  have absent: "Some k \<notin> set ks1"
  proof
    assume "Some k \<in> set ks1"
    then obtain q where q: "q < n" "ks1 ! q = Some k" using len by (metis in_set_conv_nth)
    then have "q \<noteq> p j" "ks ! q = Some k" using ks1_at by (auto split: if_splits)
    with q(1) pj pl [of j] g(5) show False unfolding distinct_names_def n_def by (metis option.distinct(1))
  qed
  obtain d where d: "d < n" "hslot n k d = p j" and dh: "\<And>c. c < d \<Longrightarrow> ks ! hslot n k c \<noteq> None \<or> hslot n k c \<in> p ` {0..<j}"
    using reach [OF pl pj] by blast
  have "p j < length ks1" "ks1 ! p j = None" using pl ks1_at len by auto
  then obtain e where e: "e < n" "ks1 ! hslot n k e = None" "\<And>c. c < e \<Longrightarrow> ks1 ! hslot n k c \<noteq> None"
      and pr: "probe_name ks1 n k n (unat (cxpr_hash_string k) mod n) = Some (hslot n k e)"
    using absent unfolding len [symmetric] by (rule probe_name_free) blast
  define t where "t = hslot n k e"
  have "e \<le> d" using e(3) [of d] \<open>ks1 ! p j = None\<close> d(2) by (metis not_le)
  have t: "t \<in> p ` {0..<j + 1}"
  proof (cases "e = d")
    case True
    then show ?thesis using d(2) by (auto simp: t_def)
  next
    case False
    then have "e < d" using \<open>e \<le> d\<close> by simp
    then have "t \<noteq> p j" using hslot_inj [of e n d k] d e(1) by (auto simp: t_def)
    then have "ks ! t = None" using e(2) ks1_at [of t] hl by (simp add: t_def)
    then have "t \<in> p ` {0..<j}" using dh [OF \<open>e < d\<close>] by (simp add: t_def)
    then show ?thesis by auto
  qed
  have tn: "t < n" using hl by (simp add: t_def)
  let ?ks = "ks1[t := Some k]"
  have at: "?ks ! q = (if q = t then Some k else ks1 ! q)" if "q < n" for q
    using that len by (simp add: nth_list_update)
  have keep: "?ks ! q \<noteq> None" if "q < n" "ks1 ! q \<noteq> None" for q using that at by simp
  have beyond: "?ks ! p c = ks ! p c" if "j + 1 \<le> c" "c < n" for c
  proof -
    have "p c \<noteq> t" using t that inj [of c] g(2) j by fastforce
    moreover have "p c \<noteq> p j" using that inj [of c j] g(2) j by auto
    ultimately show ?thesis using at [OF pl] ks1_at [OF pl] by simp
  qed
  have "\<exists>d < n. hslot n k' d = q \<and> (\<forall>c < d. ?ks ! hslot n k' c \<noteq> None \<or> q \<in> p ` {j + 1..<L} \<and> hslot n k' c \<in> p ` {0..<j + 1})"
    if q: "q < n" "?ks ! q = Some k'" for q k'
  proof (cases "q = t")
    case True
    then have "k' = k" using q at by simp
    then show ?thesis using e keep hl True by (intro exI [of _ e]) (simp add: t_def)
  next
    case False
    then have kq: "ks ! q = Some k'" "q \<noteq> p j" using q at ks1_at by (auto split: if_splits)
    obtain d' where d': "d' < n" "hslot n k' d' = q"
        "\<And>c. c < d' \<Longrightarrow> ks ! hslot n k' c \<noteq> None \<or> q \<in> p ` {j..<L} \<and> hslot n k' c \<in> p ` {0..<j}"
      using reach [OF q(1) kq(1)] by blast
    have "?ks ! hslot n k' c \<noteq> None \<or> q \<in> p ` {j + 1..<L} \<and> hslot n k' c \<in> p ` {0..<j + 1}" if c: "c < d'" for c
    proof (cases "q \<in> p ` {j..<L}")
      case True
      then obtain x where x: "q = p x" "j \<le> x" "x < L" by auto
      then have "x \<noteq> j" using kq(2) by auto
      then have rest: "q \<in> p ` {j + 1..<L}" using x by auto
      show ?thesis
        using d'(3) [OF c] keep [OF hl] ks1_at [OF hl] rest by (cases "hslot n k' c = p j") auto
    next
      case False
      then have occ: "\<And>c. c < d' \<Longrightarrow> ks ! hslot n k' c \<noteq> None" using d'(3) by blast
      have "hslot n k' c \<noteq> p j"
      proof
        assume "hslot n k' c = p j"
        then have "q \<in> p ` {j + 1..<L}"
          using path_in_cluster [of n k' c i j d' L ks] c occ d'(2) kq(1) g(4) j by (simp add: p_def)
        with False show False by auto
      qed
      then show ?thesis using occ [OF c] keep [OF hl] ks1_at [OF hl] by simp
    qed
    then show ?thesis using d' by blast
  qed
  moreover have "distinct_names ?ks"
    using distinct_names_fill [OF distinct_names_clear [OF g(5)]] absent by (simp add: ks1)
  ultimately have "gap_ok ?ks i (j + 1) L"
    using g j beyond len by (simp add: gap_ok_def Let_def p_def del: not_None_eq)
  with pr tn e(2) show thesis using that [of t] by (simp add: t_def n_def)
qed

section \<open>Moving and clearing entries\<close>

text \<open>What the operations on one table keep of another: size, and the values of named entries.\<close>

definition tbl_wf :: "'v named_map \<Rightarrow> bool" where
  "tbl_wf m \<longleftrightarrow> length (nm_entries m) = nm_capacity m \<and> nm_count m = occupied (names (nm_entries m)) \<and>
     (\<forall>e \<in> set (nm_entries m). me_name e \<noteq> None \<longrightarrow> me_value e \<noteq> None)"

lemma nm_wf_alt:
  "nm_wf m \<longleftrightarrow> m = map_init\<lparr>nm_entries := nm_entries m\<rparr> \<and> nm_entries m = [] \<or>
     0 < nm_capacity m \<and> tbl_wf m \<and> nm_count m < nm_capacity m \<and> tbl_ok (names (nm_entries m))"
  by (cases m) (auto simp: nm_wf_def tbl_wf_def map_init_def)

lemma names_update [simp]: "names (es[i := e]) = (names es)[i := me_name e]"
  by (rule map_update)

lemma free_entry_name [simp]: "me_name free_entry = None"
  by (simp add: free_entry_def)

lemma occupied_clear:
  assumes "i < length ks" "ks ! i \<noteq> None"
  shows "occupied ks = Suc (occupied (ks[i := None]))"
proof -
  obtain k where "ks ! i = Some k" using assms(2) by auto
  then have "ks = (ks[i := None])[i := Some k]" by (metis list_update_id list_update_overwrite)
  then show ?thesis using occupied_insert [of i "ks[i := None]" k] assms(1) by simp
qed

lemma bindings_nth:
  "(k, v) \<in> bindings es \<longleftrightarrow> (\<exists>i < length es. me_name (es ! i) = Some k \<and> me_value (es ! i) = Some v)"
  by (simp add: bindings_def) (metis in_set_conv_nth)

lemma bindings_clear:
  assumes "distinct_names (names es)" "i < length es" "me_name (es ! i) = Some k"
  shows "bindings (es[i := free_entry]) = {b \<in> bindings es. fst b \<noteq> k}"
proof (rule set_eqI)
  fix b :: "string \<times> 'a"
  obtain k' v' where b: "b = (k', v')" by (cases b)
  have "j = i \<longleftrightarrow> k' = k" if "j < length es" "me_name (es ! j) = Some k'" for j
    using distinct_namesD [OF assms(1), of j i] that assms(2,3) by auto
  then have "(\<exists>j < length es. j \<noteq> i \<and> me_name (es ! j) = Some k' \<and> me_value (es ! j) = Some v') \<longleftrightarrow>
      (\<exists>j < length es. me_name (es ! j) = Some k' \<and> me_value (es ! j) = Some v') \<and> k' \<noteq> k" by metis
  moreover have "(\<exists>j < length es. j \<noteq> i \<and> me_name (es ! j) = Some k' \<and> me_value (es ! j) = Some v') \<longleftrightarrow>
      (k', v') \<in> bindings (es[i := free_entry])"
  proof -
    have "me_name (es[i := free_entry] ! j) = Some k' \<and> me_value (es[i := free_entry] ! j) = Some v' \<longleftrightarrow>
        j \<noteq> i \<and> me_name (es ! j) = Some k' \<and> me_value (es ! j) = Some v'" if "j < length es" for j
      using that by (cases "j = i") simp_all
    then show ?thesis unfolding bindings_nth length_list_update by blast
  qed
  ultimately show "b \<in> bindings (es[i := free_entry]) \<longleftrightarrow> b \<in> {b \<in> bindings es. fst b \<noteq> k}"
    by (simp add: b bindings_nth)
qed

lemma bindings_fill:
  assumes "t < length es" "me_name (es ! t) = None" "me_name e = Some k" "me_value e = Some v"
  shows "bindings (es[t := e]) = insert (k, v) (bindings es)"
proof (rule set_eqI)
  fix b :: "string \<times> 'a"
  obtain k' v' where b: "b = (k', v')" by (cases b)
  have "j \<noteq> t" if "me_name (es ! j) = Some k'" for j using that assms(2) by auto
  then have "(\<exists>j < length es. j \<noteq> t \<and> me_name (es ! j) = Some k' \<and> me_value (es ! j) = Some v') \<longleftrightarrow>
      (k', v') \<in> bindings es" unfolding bindings_nth by blast
  moreover have "(k', v') \<in> bindings (es[t := e]) \<longleftrightarrow>
      (\<exists>j < length es. j \<noteq> t \<and> me_name (es ! j) = Some k' \<and> me_value (es ! j) = Some v') \<or> k' = k \<and> v' = v"
    unfolding bindings_nth using assms(1,3,4) by (auto simp: nth_list_update)
  ultimately show "b \<in> bindings (es[t := e]) \<longleftrightarrow> b \<in> insert (k, v) (bindings es)" by (auto simp: b)
qed

lemma insert_back:
  fixes k :: 'a and v :: 'b
  assumes "(k, v) \<in> B" "\<And>w. (k, w) \<in> B \<Longrightarrow> w = v"
  shows "insert (k, v) {b \<in> B. fst b \<noteq> k} = B"
proof (rule set_eqI)
  fix b :: "'a \<times> 'b"
  obtain k' w where b: "b = (k', w)" by (cases b)
  have "(k, w) \<in> B \<longleftrightarrow> w = v" using assms by blast
  then show "b \<in> insert (k, v) {b \<in> B. fst b \<noteq> k} \<longleftrightarrow> b \<in> B" by (cases "k' = k") (simp_all add: b)
qed

lemma distinct_bindings:
  assumes "distinct_names (names es)" "(k, v) \<in> bindings es" "(k, w) \<in> bindings es"
  shows "v = w"
proof -
  obtain a b where ab: "a < length es" "b < length es" "me_name (es ! a) = Some k" "me_value (es ! a) = Some v"
      "me_name (es ! b) = Some k" "me_value (es ! b) = Some w"
    using assms(2,3) by (auto simp: bindings_def in_set_conv_nth)
  then have "a = b" using distinct_namesD [OF assms(1), of a b] by simp
  with ab show ?thesis by simp
qed

lemma reinsert_ok:
  assumes "gap_ok (names (nm_entries m)) i j L" "tbl_wf m" "L - j < fuel"
  shows "\<exists>m'. map_reinsert fuel m ((i + j) mod nm_capacity m) = Some m' \<and> tbl_wf m' \<and>
    tbl_ok (names (nm_entries m')) \<and> nm_capacity m' = nm_capacity m \<and> nm_count m' = nm_count m \<and>
    bindings (nm_entries m') = bindings (nm_entries m)"
  using assms
proof (induction fuel arbitrary: m j)
  case (Suc fuel)
  let ?es = "nm_entries m" and ?x = "(i + j) mod nm_capacity m"
  have len: "length ?es = nm_capacity m" using Suc.prems(2) by (simp add: tbl_wf_def)
  have le: "j \<le> L" and i: "i < nm_capacity m" using Suc.prems(1) len by (auto simp: gap_ok_def Let_def)
  then have x: "?x < length ?es" using len by auto
  show ?case
  proof (cases "j = L")
    case True
    then have "me_name (?es ! ?x) = None" using Suc.prems(1) x len by (simp add: gap_ok_def Let_def)
    with Suc.prems gap_done True show ?thesis by auto
  next
    case False
    then have j: "j < L" using le by simp
    obtain k where k: "me_name (?es ! ?x) = Some k"
      using Suc.prems(1) j x len by (fastforce simp: gap_ok_def Let_def)
    obtain v where v: "me_value (?es ! ?x) = Some v"
      using Suc.prems(2) k x unfolding tbl_wf_def by (metis nth_mem option.exhaust option.distinct(1))
    let ?m1 = "m\<lparr>nm_entries := ?es[?x := free_entry], nm_count := nm_count m - 1\<rparr>"
    obtain t where t: "probe_name ((names ?es)[?x := None]) (nm_capacity m) k (nm_capacity m)
          (unat (cxpr_hash_string k) mod nm_capacity m) = Some t"
        "t < nm_capacity m" "(names ?es)[?x := None] ! t = None" "gap_ok ((names ?es)[?x := None, t := Some k]) i (j + 1) L"
      using gap_step [OF Suc.prems(1) j, of k] k x len by auto
    let ?m2 = "?m1\<lparr>nm_entries := (nm_entries ?m1)[t := ?es ! ?x], nm_count := nm_count ?m1 + 1\<rparr>"
    have slot: "map_find_slot ?m1 k = Some (Some t)"
      using t(1) x i by (auto simp: map_find_slot_def)
    have step: "map_reinsert (Suc fuel) m ?x = map_reinsert fuel ?m2 ((i + (j + 1)) mod nm_capacity ?m2)"
      using k slot by (simp add: Let_def mod_Suc_eq)
    have t1: "me_name (?es[?x := free_entry] ! t) = None"
      using t(2,3) len by (metis free_entry_name length_list_update names_update nth_map)
    have occ: "occupied (names ?es) = Suc (occupied ((names ?es)[?x := None]))"
      using x k by (intro occupied_clear) auto
    have dist: "distinct_names (names ?es)" using Suc.prems(1) by (simp add: gap_ok_def Let_def)
    have mem: "(k, v) \<in> bindings ?es" using k v x by (auto simp: bindings_def)
    have "bindings (?es[?x := free_entry, t := ?es ! ?x]) = insert (k, v) (bindings (?es[?x := free_entry]))"
      using t(2) len by (intro bindings_fill [OF _ t1 k v]) simp
    also have "\<dots> = insert (k, v) {b \<in> bindings ?es. fst b \<noteq> k}" using bindings_clear [OF dist x k] by simp
    also have "\<dots> = bindings ?es" using mem distinct_bindings [OF dist _ mem] by (rule insert_back)
    finally have b: "bindings (nm_entries ?m2) = bindings ?es" by simp
    have "gap_ok (names (nm_entries ?m2)) i (j + 1) L" using t(4) k by simp
    moreover have "tbl_wf ?m2"
      unfolding tbl_wf_def
    proof (intro conjI ballI impI)
      have "occupied ((names ?es)[?x := None, t := Some k]) = occupied (names ?es)"
        using occupied_insert [of t "(names ?es)[?x := None]" k] t(2,3) len occ by simp
      then show "nm_count ?m2 = occupied (names (nm_entries ?m2))"
        using Suc.prems(2) k occ by (simp add: tbl_wf_def)
    next
      fix e assume "e \<in> set (nm_entries ?m2)" "me_name e \<noteq> None"
      then have "e \<in> set ?es"
        using set_update_subset_insert [of "?es[?x := free_entry]" t "?es ! ?x"]
          set_update_subset_insert [of ?es ?x free_entry] nth_mem [OF x] by auto
      then show "me_value e \<noteq> None" using Suc.prems(2) \<open>me_name e \<noteq> None\<close> by (simp add: tbl_wf_def)
    qed (use len in simp)
    moreover have "L - (j + 1) < fuel" using Suc.prems(3) j by simp
    ultimately show ?thesis using Suc.IH [of ?m2 "j + 1"] step b occ Suc.prems(2)
      by (simp add: tbl_wf_def)
  qed
qed simp

declare map_reinsert.simps [simp del]

section \<open>Lookup and removal\<close>

lemma abs_name:
  assumes "distinct_names (names (nm_entries m))" "i < length (nm_entries m)" "me_name (nm_entries m ! i) = Some k"
  shows "nm_abs m k = me_value (nm_entries m ! i)"
proof -
  have "me_name (nm_entries m ! j) = Some k \<longleftrightarrow> j = i" if "j < length (nm_entries m)" for j
    using distinct_namesD [OF assms(1), of j i] that assms(2,3) by auto
  then have "nm_abs m k = Some v \<longleftrightarrow> me_value (nm_entries m ! i) = Some v" for v
    unfolding abs_bindings [OF assms(1)] bindings_nth using assms(2) by blast
  then show ?thesis by (metis option.exhaust)
qed

lemma abs_absent: "Some k \<notin> set (names (nm_entries m)) \<Longrightarrow> nm_abs m k = None"
  by (auto simp: nm_abs_def find_None_iff bind_eq_None_conv image_iff)

lemma table_free_slot:
  assumes "occupied ks < length ks"
  obtains f where "f < length ks" "ks ! f = None"
  using filter_length_lt_ex [of "\<lambda>k. k \<noteq> None" ks] assms by (auto simp: occupied_def)

text \<open>The slot found on an allocated table: the one with the name, or a free one when the name is
  absent.\<close>

lemma find_slot_cases:
  assumes "nm_wf m" "nm_entries m \<noteq> []"
  obtains (named) i where "map_find_slot m k = Some (Some i)" "i < nm_capacity m" "me_name (nm_entries m ! i) = Some k"
  | (free) i where "map_find_slot m k = Some (Some i)" "i < nm_capacity m" "me_name (nm_entries m ! i) = None"
      "Some k \<notin> set (names (nm_entries m))" "tbl_ok ((names (nm_entries m))[i := Some k])"
proof -
  let ?ks = "names (nm_entries m)"
  have wf: "0 < nm_capacity m" "length ?ks = nm_capacity m" "tbl_ok ?ks" "occupied ?ks < length ?ks"
    using assms by (auto simp: nm_wf_def)
  have slot: "map_find_slot m k = map_option Some (probe_name ?ks (length ?ks) k (length ?ks) (unat (cxpr_hash_string k) mod length ?ks))"
    using assms(2) wf(1,2) by (simp add: map_find_slot_def)
  show thesis
  proof (cases "Some k \<in> set ?ks")
    case True
    then obtain i where "i < length ?ks" "?ks ! i = Some k" by (metis in_set_conv_nth)
    with probe_name_found [OF wf(3)] slot wf(2) named show thesis by simp
  next
    case False
    obtain f where "f < length ?ks" "?ks ! f = None" using wf(4) by (rule table_free_slot)
    then obtain d where d: "d < length ?ks" "?ks ! hslot (length ?ks) k d = None"
        "\<And>c. c < d \<Longrightarrow> ?ks ! hslot (length ?ks) k c \<noteq> None"
        "probe_name ?ks (length ?ks) k (length ?ks) (unat (cxpr_hash_string k) mod length ?ks) = Some (hslot (length ?ks) k d)"
      using False by (rule probe_name_free) blast
    have "tbl_ok (?ks[hslot (length ?ks) k d := Some k])"
      using wf(3) d(1,2,3) False by (rule tbl_ok_insert)
    moreover have "hslot (length ?ks) k d < length ?ks" using wf(1,2) by (intro hslot_less) simp
    ultimately show thesis using free [of "hslot (length ?ks) k d"] slot d(2,4) wf(2) False by simp
  qed
qed

lemma map_lookup_ok:
  assumes "nm_wf m"
  shows "map_lookup m k = Some (nm_abs m k)"
proof (cases "nm_entries m = []")
  case True
  then show ?thesis by (simp add: map_lookup_def map_get_def map_find_slot_def)
next
  case False
  have dist: "distinct_names (names (nm_entries m))" "length (nm_entries m) = nm_capacity m"
    using assms False by (auto simp: nm_wf_def tbl_ok_iff)
  show ?thesis using assms False
  proof (cases rule: find_slot_cases [where k = k])
    case (named i)
    then show ?thesis using abs_name [OF dist(1), of i k] dist(2) by (simp add: map_lookup_def map_get_def)
  next
    case (free i)
    then show ?thesis using abs_absent [of k m] by (simp add: map_lookup_def map_get_def)
  qed
qed

lemma map_remove_ok:
  assumes wf: "nm_wf m"
  shows "\<exists>m'. map_remove m k = Some m' \<and> nm_wf m' \<and> nm_abs m' = (nm_abs m)(k := None) \<and>
    nm_count m' \<le> nm_count m \<and> nm_capacity m' = nm_capacity m"
proof (cases "nm_entries m = []")
  case True
  then show ?thesis using wf by (auto simp: map_remove_def map_find_slot_def)
next
  case False
  have m: "0 < nm_capacity m" "tbl_wf m" "nm_count m < nm_capacity m" "tbl_ok (names (nm_entries m))"
    using wf False by (auto simp: nm_wf_alt)
  have len: "length (nm_entries m) = nm_capacity m" using m(2) by (simp add: tbl_wf_def)
  have dist: "distinct_names (names (nm_entries m))" using m(4) by (simp add: tbl_ok_iff)
  show ?thesis using wf False
  proof (cases rule: find_slot_cases [where k = k])
    case (free i)
    then have "map_remove m k = Some m" by (simp add: map_remove_def)
    moreover have "(nm_abs m)(k := None) = nm_abs m" using abs_absent [OF free(4)] by (simp add: fun_upd_idem)
    ultimately show ?thesis using wf by simp
  next
    case (named i)
    let ?m = "m\<lparr>nm_entries := (nm_entries m)[i := free_entry], nm_count := nm_count m - 1\<rparr>"
    have i: "i < length (nm_entries m)" using named(2) len by simp
    obtain f where f: "f < length (names (nm_entries m))" "names (nm_entries m) ! f = None"
      using table_free_slot [of "names (nm_entries m)"] m(2,3) by (auto simp: tbl_wf_def)
    obtain L where L: "1 \<le> L" "gap_ok ((names (nm_entries m))[i := None]) i 1 L"
      using gap_start [OF m(4) _ _ f, of i] i named(3) by auto
    have occ: "occupied (names (nm_entries m)) = Suc (occupied ((names (nm_entries m))[i := None]))"
      using occupied_clear [of i "names (nm_entries m)"] i named(3) by simp
    have "gap_ok (names (nm_entries ?m)) i 1 L" using L(2) by simp
    moreover have "tbl_wf ?m"
      using m(2) occ set_update_subset_insert [of "nm_entries m" i free_entry] by (auto simp: tbl_wf_def)
    moreover have "L - 1 < nm_capacity m + 1" using L(2) len by (auto simp: gap_ok_def Let_def)
    ultimately obtain m' where m': "map_reinsert (nm_capacity m + 1) ?m ((i + 1) mod nm_capacity m) = Some m'"
        "tbl_wf m'" "tbl_ok (names (nm_entries m'))" "nm_capacity m' = nm_capacity m" "nm_count m' = nm_count m - 1"
        "bindings (nm_entries m') = bindings ((nm_entries m)[i := free_entry])"
      using reinsert_ok [of ?m i 1 L "nm_capacity m + 1"] by auto
    have "map_remove m k = Some m'" using named m'(1) by (simp add: map_remove_def)
    moreover have "nm_count m - 1 < nm_capacity m" using m(3) by linarith
    then have "nm_wf m'" using m' m by (simp add: nm_wf_alt)
    moreover have "nm_abs m' = (nm_abs m)(k := None)"
      using m'(3,6) bindings_clear [OF dist i named(3)] abs_bindings [OF dist]
      by (intro abs_eqI) (auto simp: tbl_ok_iff)
    ultimately show ?thesis using m'(4,5) by simp
  qed
qed

section \<open>Growing and storing\<close>

lemma names_free [simp]: "names (replicate n free_entry) = replicate n None"
  by (simp add: map_replicate)

lemma bindings_free [simp]: "bindings (replicate n free_entry) = {}" "bindings [] = {}"
  by (auto simp: bindings_def)

lemma bindings_Cons: "bindings (e # es) =
    (case (me_name e, me_value e) of (Some k, Some v) \<Rightarrow> insert (k, v) (bindings es) | _ \<Rightarrow> bindings es)"
  by (auto simp: bindings_def split: option.splits)

lemma map_rehash_ok:
  assumes "length ne = cap" "tbl_ok (names ne)" "occupied (names ne) + occupied (names es) < cap"
    and "distinct (filter (\<lambda>k. k \<noteq> None) (names es))"
    and "\<And>k. Some k \<in> set (names es) \<Longrightarrow> Some k \<notin> set (names ne)"
    and "\<forall>e \<in> set es \<union> set ne. me_name e \<noteq> None \<longrightarrow> me_value e \<noteq> None"
  shows "\<exists>ne'. map_rehash cap ne es = Some ne' \<and> length ne' = cap \<and> tbl_ok (names ne') \<and>
     occupied (names ne') = occupied (names ne) + occupied (names es) \<and>
     bindings ne' = bindings ne \<union> bindings es \<and> (\<forall>e \<in> set ne'. me_name e \<noteq> None \<longrightarrow> me_value e \<noteq> None)"
  using assms
proof (induction es arbitrary: ne)
  case Nil
  then show ?case by (simp add: occupied_def)
next
  case (Cons e es)
  show ?case
  proof (cases "me_name e")
    case None
    with Cons.IH [of ne] Cons.prems show ?thesis by (simp add: occupied_def bindings_Cons)
  next
    case (Some k)
    then obtain v where v: "me_value e = Some v" using Cons.prems(6) by auto
    have new: "Some k \<notin> set (names ne)" using Cons.prems(5) [of k] Some by simp
    have k_es: "Some k \<notin> set (names es)" using Cons.prems(4) Some by auto
    have "occupied (names ne) < length (names ne)" using Cons.prems(1,3) by simp
    then obtain f where "f < length (names ne)" "names ne ! f = None" by (rule table_free_slot)
    then obtain d where d: "d < length (names ne)" "names ne ! hslot (length (names ne)) k d = None"
        "\<And>c. c < d \<Longrightarrow> names ne ! hslot (length (names ne)) k c \<noteq> None"
        and pr: "probe_name (names ne) (length (names ne)) k (length (names ne))
          (unat (cxpr_hash_string k) mod length (names ne)) = Some (hslot (length (names ne)) k d)"
      using new by (rule probe_name_free) blast
    define t where "t = hslot cap k d"
    have cap: "length (names ne) = cap" "0 < cap" using Cons.prems(1,3) by auto
    have t: "t < length ne" "me_name (ne ! t) = None" using d(2) cap Cons.prems(1) by (auto simp: t_def)
    have pe: "probe_empty (names ne) cap cap (unat (cxpr_hash_string k) mod cap) = Some t"
      using probe_empty_eq [OF new cap(1)] pr cap by (simp add: t_def)
    have ok: "tbl_ok (names (ne[t := e]))" using tbl_ok_insert [OF Cons.prems(2) d new] Some cap by (simp add: t_def)
    have occ: "occupied (names (ne[t := e])) = Suc (occupied (names ne))" using t Some by (simp add: occupied_insert)
    have b: "bindings (ne[t := e]) = insert (k, v) (bindings ne)" using t Some v by (rule bindings_fill)
    have sub: "set (ne[t := e]) \<subseteq> insert e (set ne)" by (rule set_update_subset_insert)
    have "\<exists>ne'. map_rehash cap (ne[t := e]) es = Some ne' \<and> length ne' = cap \<and> tbl_ok (names ne') \<and>
       occupied (names ne') = occupied (names (ne[t := e])) + occupied (names es) \<and>
       bindings ne' = bindings (ne[t := e]) \<union> bindings es \<and> (\<forall>e \<in> set ne'. me_name e \<noteq> None \<longrightarrow> me_value e \<noteq> None)"
    proof (rule Cons.IH)
      show "Some k' \<notin> set (names (ne[t := e]))" if "Some k' \<in> set (names es)" for k'
        using that Cons.prems(5) [of k'] k_es Some set_update_subset_insert [of "names ne" t "me_name e"] by auto
      show "\<forall>e \<in> set es \<union> set (ne[t := e]). me_name e \<noteq> None \<longrightarrow> me_value e \<noteq> None"
        using sub Cons.prems(6) by (metis UnE UnI1 UnI2 insertE list.set_intros(1) list.set_intros(2) subsetD)
    qed (use Cons.prems ok occ Some in \<open>auto simp: occupied_def\<close>)
    then show ?thesis using Some pe occ b v by (auto simp: occupied_def bindings_Cons)
  qed
qed

lemma grow_map_ok:
  assumes wf: "nm_wf m" "nm_entries m \<noteq> []"
  shows "\<exists>m' b. map_grow mem m = Some (m', b) \<and> nm_wf m' \<and> nm_entries m' \<noteq> [] \<and> nm_abs m' = nm_abs m \<and>
     nm_count m' = nm_count m \<and> (b \<longrightarrow> nm_capacity m' = 2 * nm_capacity m) \<and> (\<not> b \<longrightarrow> m' = m) \<and>
     ((\<forall>n. mem n) \<and> nm_capacity m \<le> SIZE_MAX div 2 \<longrightarrow> b)"
proof (cases "SIZE_MAX div 2 < nm_capacity m \<or> \<not> mem (nm_capacity m * 2 * sizeof_map_entry)")
  case True
  then have "map_grow mem m = Some (m, False)" by (auto simp: map_grow_def Let_def)
  moreover have "\<not> ((\<forall>n. mem n) \<and> nm_capacity m \<le> SIZE_MAX div 2)" using True by (metis leD)
  ultimately show ?thesis using wf by blast
next
  case False
  let ?n = "nm_capacity m * 2"
  have m: "0 < nm_capacity m" "tbl_wf m" "nm_count m < nm_capacity m" "tbl_ok (names (nm_entries m))"
    using wf by (auto simp: nm_wf_alt)
  have len: "length (nm_entries m) = nm_capacity m" and occ: "nm_count m = occupied (names (nm_entries m))"
    and vals: "\<forall>e \<in> set (nm_entries m). me_name e \<noteq> None \<longrightarrow> me_value e \<noteq> None" using m(2) by (auto simp: tbl_wf_def)
  then obtain ne where ne: "map_rehash ?n (replicate ?n free_entry) (nm_entries m) = Some ne" "length ne = ?n"
      "tbl_ok (names ne)" "occupied (names ne) = occupied (names (nm_entries m))" "bindings ne = bindings (nm_entries m)"
      "\<forall>e \<in> set ne. me_name e \<noteq> None \<longrightarrow> me_value e \<noteq> None"
    using map_rehash_ok [of "replicate ?n free_entry" ?n "nm_entries m"] tbl_ok_distinct [OF m(4)] m(3) vals len by (auto simp: occ)
  let ?m = "m\<lparr>nm_entries := ne, nm_capacity := ?n\<rparr>"
  have "map_grow mem m = Some (?m, True)" using False ne(1) by (simp add: map_grow_def Let_def)
  moreover have "nm_wf ?m" using ne m by (simp add: nm_wf_alt tbl_wf_def)
  moreover have "nm_abs ?m = nm_abs m"
  proof (rule abs_eqI)
    show "distinct_names (names (nm_entries ?m))" using ne(3) by (simp add: tbl_ok_iff)
    have dist: "distinct_names (names (nm_entries m))" using m(4) by (simp add: tbl_ok_iff)
    show "(k, v) \<in> bindings (nm_entries ?m) \<longleftrightarrow> nm_abs m k = Some v" for k v
      unfolding abs_bindings [OF dist] by (simp add: ne(5))
  qed
  moreover have "ne \<noteq> []" using ne(2) m(1) by auto
  ultimately show ?thesis by (intro exI [of _ ?m] exI [of _ True]) simp
qed

definition nm_inv :: "'v named_map \<Rightarrow> bool" where
  "nm_inv m \<longleftrightarrow> nm_wf m \<and> nm_capacity m \<le> 2 ^ 52"

abbreviation as_hashmap :: "'v named_map \<Rightarrow> cxpr_hashmap" where
  "as_hashmap m \<equiv> \<lparr>entries = [], capacity = nm_capacity m, count = nm_count m\<rparr>"

lemma over_load_eq: "map_over_load m = over_load (as_hashmap m)"
  by (simp add: map_over_load_def over_load_def)

text \<open>After making room, an allocated map either has a free slot to spare or could not grow.\<close>

lemma make_room_ok:
  assumes inv: "nm_inv m" "nm_entries m \<noteq> []" "nm_count m < hm_limit"
  shows "\<exists>m' b. map_make_room mem m = Some (m', b) \<and> nm_inv m' \<and> nm_entries m' \<noteq> [] \<and> nm_abs m' = nm_abs m \<and>
     nm_count m' = nm_count m \<and> (b \<longrightarrow> nm_count m' + 1 < nm_capacity m') \<and> ((\<forall>n. mem n) \<longrightarrow> b)"
proof -
  have wf: "nm_wf m" "0 < nm_capacity m" "nm_count m < nm_capacity m" "nm_capacity m \<le> 2 ^ 52"
    using inv by (auto simp: nm_inv_def nm_wf_def)
  show ?thesis
  proof (cases "map_over_load m")
    case True
    have "\<not> 2 * (nm_count m + 1) \<le> nm_capacity m"
      using True over_load_half [of "as_hashmap m"] wf(4) by (auto simp: over_load_eq)
    then have small: "nm_capacity m \<le> 2 ^ 51" using inv(3) by simp
    obtain m' b where "map_grow mem m = Some (m', b)" "nm_wf m'" "nm_entries m' \<noteq> []" "nm_abs m' = nm_abs m"
        "nm_count m' = nm_count m" "b \<longrightarrow> nm_capacity m' = 2 * nm_capacity m" "\<not> b \<longrightarrow> m' = m"
        "(\<forall>n. mem n) \<and> nm_capacity m \<le> SIZE_MAX div 2 \<longrightarrow> b"
      using grow_map_ok [OF wf(1) inv(2), of mem] by blast
    with True wf small inv show ?thesis by (cases b) (auto simp: map_make_room_def nm_inv_def)
  next
    case False
    then have "\<not> nm_capacity m \<le> nm_count m + 1"
      using over_load_full [of "as_hashmap m"] wf(2) inv(3) by (auto simp: over_load_eq)
    then have "nm_count m + 1 < nm_capacity m" by simp
    with False inv show ?thesis by (auto simp: map_make_room_def)
  qed
qed

lemma nm_inv_alloc:
  assumes "nm_inv m"
  defines "m1 \<equiv> (if nm_entries m = [] then m\<lparr>nm_entries := replicate CXPR_HASHMAP_INITIAL_CAPACITY free_entry,
                   nm_capacity := CXPR_HASHMAP_INITIAL_CAPACITY\<rparr> else m)"
  shows "nm_inv m1" "nm_entries m1 \<noteq> []" "nm_abs m1 = nm_abs m" "nm_count m1 = nm_count m"
proof -
  show "nm_inv m1" "nm_entries m1 \<noteq> []" "nm_count m1 = nm_count m"
    using assms by (auto simp: m1_def nm_inv_def nm_wf_def CXPR_HASHMAP_INITIAL_CAPACITY_def)
  show "nm_abs m1 = nm_abs m"
    by (auto simp: m1_def nm_abs_def CXPR_HASHMAP_INITIAL_CAPACITY_def fun_eq_iff find_None_iff bind_eq_None_conv)
qed

text \<open>Writing into the slot found: the value of a name already there, or a new entry.\<close>

lemma overwrite_ok:
  fixes m :: "'v named_map" and c :: 'v
  assumes inv: "nm_inv m" and i: "i < nm_capacity m" "me_name (nm_entries m ! i) = Some k"
  defines "m' \<equiv> m\<lparr>nm_entries := (nm_entries m)[i := (nm_entries m ! i)\<lparr>me_value := Some c\<rparr>]\<rparr>"
  shows "nm_inv m'" "nm_abs m' = (nm_abs m)(k \<mapsto> c)"
proof -
  have m: "tbl_wf m" "nm_count m < nm_capacity m" "tbl_ok (names (nm_entries m))" "length (nm_entries m) = nm_capacity m"
    using inv i by (auto simp: nm_inv_def nm_wf_alt tbl_wf_def map_init_def)
  have ks: "names (nm_entries m') = names (nm_entries m)"
    using i m(4) by (simp add: m'_def) (metis list_update_id map_update)
  have "tbl_wf m'"
    using m(1) set_update_subset_insert [of "nm_entries m" i "(nm_entries m ! i)\<lparr>me_value := Some c\<rparr>"] ks
    by (fastforce simp: tbl_wf_def m'_def)
  then show "nm_inv m'" using inv i ks m by (simp add: nm_inv_def nm_wf_alt m'_def)
  have dist: "distinct_names (names (nm_entries m))" using m(3) by (simp add: tbl_ok_iff)
  have il: "i < length (nm_entries m)" using i m(4) by simp
  let ?es = "nm_entries m"
  have "bindings (?es[i := free_entry, i := (?es ! i)\<lparr>me_value := Some c\<rparr>]) = insert (k, c) (bindings (?es[i := free_entry]))"
    by (rule bindings_fill) (use il i in auto)
  then have "bindings (nm_entries m') = insert (k, c) {b \<in> bindings ?es. fst b \<noteq> k}"
    by (simp add: m'_def bindings_clear [OF dist il i(2)])
  then show "nm_abs m' = (nm_abs m)(k \<mapsto> c)"
    using dist ks abs_bindings [OF dist] by (intro abs_eqI) (auto split: if_splits)
qed

lemma fresh_entry_ok:
  fixes m :: "'v named_map" and c :: 'v
  assumes inv: "nm_inv m" and room: "nm_count m + 1 < nm_capacity m"
    and i: "i < nm_capacity m" "me_name (nm_entries m ! i) = None" "Some k \<notin> set (names (nm_entries m))"
      "tbl_ok ((names (nm_entries m))[i := Some k])"
  defines "m' \<equiv> m\<lparr>nm_entries := (nm_entries m)[i := \<lparr>me_name = Some k, me_value = Some c\<rparr>], nm_count := nm_count m + 1\<rparr>"
  shows "nm_inv m'" "nm_abs m' = (nm_abs m)(k \<mapsto> c)"
proof -
  have m: "tbl_wf m" "tbl_ok (names (nm_entries m))" "length (nm_entries m) = nm_capacity m"
    using inv i by (auto simp: nm_inv_def nm_wf_alt tbl_wf_def map_init_def)
  have il: "i < length (nm_entries m)" using i m(3) by simp
  have "tbl_wf m'"
    using m(1) set_update_subset_insert [of "nm_entries m" i "\<lparr>me_name = Some k, me_value = Some c\<rparr>"] il i(2)
    by (auto simp: tbl_wf_def m'_def occupied_insert)
  then show "nm_inv m'" using inv i(4) room by (simp add: nm_inv_def nm_wf_alt m'_def)
  have dist: "distinct_names (names (nm_entries m))" using m(2) by (simp add: tbl_ok_iff)
  have "bindings (nm_entries m') = insert (k, c) (bindings (nm_entries m))"
    unfolding m'_def by (simp, rule bindings_fill) (use il i(2) in auto)
  moreover have "(k, v) \<notin> bindings (nm_entries m)" for v
    using i(3) by (force simp: bindings_def)
  ultimately show "nm_abs m' = (nm_abs m)(k \<mapsto> c)"
    using abs_bindings [OF dist] i(4) by (intro abs_eqI) (auto simp: tbl_ok_iff m'_def split: if_splits)
qed

lemma map_store_ok:
  assumes inv: "nm_inv m" "nm_count m < hm_limit"
  shows "\<exists>m'. map_store mem (Some c) m k = Some m' \<and> nm_inv m' \<and> nm_count m' \<le> nm_count m + 1 \<and>
    (nm_abs m' = (nm_abs m)(k \<mapsto> c) \<or> nm_abs m' = nm_abs m) \<and>
    ((\<forall>n. mem n) \<longrightarrow> nm_abs m' = (nm_abs m)(k \<mapsto> c))"
proof (cases "nm_entries m = [] \<and> \<not> mem (CXPR_HASHMAP_INITIAL_CAPACITY * sizeof_map_entry)")
  case True
  then have "map_store mem (Some c) m k = Some (m\<lparr>nm_capacity := 0\<rparr>)" by (simp add: map_store_def)
  moreover have "nm_inv (m\<lparr>nm_capacity := 0\<rparr>)" using True inv by (auto simp: nm_inv_def nm_wf_def)
  moreover have "nm_abs (m\<lparr>nm_capacity := 0\<rparr>) = nm_abs m" by (simp add: nm_abs_def fun_eq_iff)
  ultimately show ?thesis using True by auto
next
  case False
  define m1 where "m1 = (if nm_entries m = [] then m\<lparr>nm_entries := replicate CXPR_HASHMAP_INITIAL_CAPACITY free_entry,
                   nm_capacity := CXPR_HASHMAP_INITIAL_CAPACITY\<rparr> else m)"
  note m1 = nm_inv_alloc [OF inv(1), folded m1_def]
  obtain m2 b where m2: "map_make_room mem m1 = Some (m2, b)" "nm_inv m2" "nm_entries m2 \<noteq> []" "nm_abs m2 = nm_abs m"
      "nm_count m2 = nm_count m" "b \<longrightarrow> nm_count m2 + 1 < nm_capacity m2" "(\<forall>n. mem n) \<longrightarrow> b"
    using make_room_ok [OF m1(1,2) _, of mem] inv(2) unfolding m1(3,4) by blast
  have unf: "map_store mem (Some c) m k =
     (if \<not> b then Some m2
      else (case map_find_slot m2 k of
              None \<Rightarrow> None
            | Some None \<Rightarrow> None
            | Some (Some i) \<Rightarrow>
                if me_name (nm_entries m2 ! i) \<noteq> None
                then Some (m2\<lparr>nm_entries := (nm_entries m2)[i := (nm_entries m2 ! i)\<lparr>me_value := Some c\<rparr>]\<rparr>)
                else (case cxpr_strdup mem k of
                        None \<Rightarrow> Some m2
                      | Some n \<Rightarrow>
                          Some (m2\<lparr>nm_entries := (nm_entries m2)[i := \<lparr>me_name = Some n, me_value = Some c\<rparr>],
                                   nm_count := nm_count m2 + 1\<rparr>))))"
    using m2(1) by (cases b) (simp_all add: map_store_def if_not_P [OF False] m1_def [symmetric] Let_def del: not_None_eq)
  have wf: "nm_wf m2" using m2(2) by (simp add: nm_inv_def)
  show ?thesis
  proof (cases b)
    case False
    then have "map_store mem (Some c) m k = Some m2" using unf by simp
    with m2 False show ?thesis by auto
  next
    case True
    show ?thesis using wf m2(3)
    proof (cases rule: find_slot_cases [where k = k])
      case (named i)
      then have "map_store mem (Some c) m k =
          Some (m2\<lparr>nm_entries := (nm_entries m2)[i := (nm_entries m2 ! i)\<lparr>me_value := Some c\<rparr>]\<rparr>)"
        using unf True by simp
      with overwrite_ok [OF m2(2) named(2,3), of c] m2(4,5) show ?thesis by simp
    next
      case (free i)
      show ?thesis
      proof (cases "mem (length k + 1)")
        case True
        then have "map_store mem (Some c) m k =
          Some (m2\<lparr>nm_entries := (nm_entries m2)[i := \<lparr>me_name = Some k, me_value = Some c\<rparr>], nm_count := nm_count m2 + 1\<rparr>)"
          using unf \<open>b\<close> free by (simp add: cxpr_strdup_def)
        with fresh_entry_ok [OF m2(2) _ free(2,3,4,5), of c] m2(4,5,6) \<open>b\<close> show ?thesis by simp
      next
        case no: False
        then have "map_store mem (Some c) m k = Some m2"
          using unf \<open>b\<close> free by (simp add: cxpr_strdup_def)
        with m2 no show ?thesis by auto
      qed
    qed
  qed
qed

lemma map_clear_ok:
  assumes "nm_inv m"
  shows "nm_inv (map_clear m)" "nm_abs (map_clear m) = Map.empty" "nm_count (map_clear m) = 0"
proof -
  have "map_clear m = m\<lparr>nm_entries := replicate (length (nm_entries m)) free_entry, nm_count := 0\<rparr>"
    by (simp add: map_clear_def map_replicate_const)
  then show "nm_inv (map_clear m)" using assms
    by (cases "nm_entries m = []") (auto simp: nm_inv_def nm_wf_def)
  show "nm_abs (map_clear m) = Map.empty" "nm_count (map_clear m) = 0"
    by (auto simp: map_clear_def nm_abs_def fun_eq_iff find_None_iff bind_eq_None_conv)
qed

lemma map_init_ok: "nm_inv map_init" "nm_abs map_init = Map.empty" "nm_count map_init = 0"
  by (simp_all add: nm_inv_def nm_wf_def map_init_def)

lemma remove_inv:
  assumes "nm_inv m"
  shows "\<exists>m'. map_remove m k = Some m' \<and> nm_inv m' \<and> nm_abs m' = (nm_abs m)(k := None) \<and> nm_count m' \<le> nm_count m"
  using map_remove_ok [of m k] assms by (auto simp: nm_inv_def)

section \<open>Clones\<close>

lemma clone_loop_ok:
  assumes mem: "\<forall>n. mem n" and d: "nm_inv d" "nm_entries d \<noteq> []" "nm_count d + occupied (names es) \<le> hm_limit"
    and es: "distinct (filter (\<lambda>k. k \<noteq> None) (names es))" "\<And>k. Some k \<in> set (names es) \<Longrightarrow> nm_abs d k = None"
      "\<forall>e \<in> set es. me_name e \<noteq> None \<longrightarrow> (\<exists>v. me_value e = Some v \<and> copy v = Some v)"
  shows "\<exists>d'. map_clone_loop mem copy d es = Some (d', True) \<and> nm_inv d' \<and> nm_count d' = nm_count d + occupied (names es) \<and>
    (\<forall>k v. nm_abs d' k = Some v \<longleftrightarrow> nm_abs d k = Some v \<or> (k, v) \<in> bindings es)"
  using d es
proof (induction es arbitrary: d)
  case Nil
  then show ?case by (simp add: occupied_def)
next
  case (Cons e es)
  show ?case
  proof (cases "me_name e")
    case None
    with Cons.IH [of d] Cons.prems show ?thesis by (simp add: occupied_def bindings_Cons)
  next
    case (Some k)
    then obtain v where v: "me_value e = Some v" "copy v = Some v" using Cons.prems(6) by auto
    have lim: "nm_count d < hm_limit" using Cons.prems(3) Some by (simp add: occupied_def)
    obtain d1 where d1: "map_make_room mem d = Some (d1, True)" "nm_inv d1" "nm_entries d1 \<noteq> []" "nm_abs d1 = nm_abs d"
        "nm_count d1 = nm_count d" "nm_count d1 + 1 < nm_capacity d1"
      using make_room_ok [OF Cons.prems(1,2) lim, of mem] mem by auto
    have wf: "nm_wf d1" using d1(2) by (simp add: nm_inv_def)
    have dist: "distinct_names (names (nm_entries d1))" "length (nm_entries d1) = nm_capacity d1"
        "\<forall>e \<in> set (nm_entries d1). me_name e \<noteq> None \<longrightarrow> me_value e \<noteq> None"
      using wf d1(3) by (auto simp: nm_wf_def tbl_ok_iff)
    obtain i where i: "map_find_slot d1 k = Some (Some i)" "i < nm_capacity d1" "me_name (nm_entries d1 ! i) = None"
        "Some k \<notin> set (names (nm_entries d1))" "tbl_ok ((names (nm_entries d1))[i := Some k])"
      using wf d1(3)
    proof (cases rule: find_slot_cases [where k = k])
      case (named i)
      then have "nm_abs d k = me_value (nm_entries d1 ! i)" using abs_name [OF dist(1), of i k] dist(2) d1(4) by simp
      moreover have "me_value (nm_entries d1 ! i) \<noteq> None" using dist(2,3) named(2,3) by (metis nth_mem option.distinct(1))
      ultimately show ?thesis using Cons.prems(5) [of k] Some by simp
    qed (use that in blast)
    let ?d = "d1\<lparr>nm_entries := (nm_entries d1)[i := \<lparr>me_name = Some k, me_value = Some v\<rparr>], nm_count := nm_count d1 + 1\<rparr>"
    have step: "map_clone_loop mem copy d (e # es) = map_clone_loop mem copy ?d es"
      using Some v d1(1) i(1) mem by (simp add: cxpr_strdup_def)
    note ok = fresh_entry_ok [OF d1(2,6) i(2-5), of v]
    have k_es: "Some k \<notin> set (names es)" using Cons.prems(4) Some by auto
    have "\<exists>d'. map_clone_loop mem copy ?d es = Some (d', True) \<and> nm_inv d' \<and> nm_count d' = nm_count ?d + occupied (names es) \<and>
      (\<forall>k v. nm_abs d' k = Some v \<longleftrightarrow> nm_abs ?d k = Some v \<or> (k, v) \<in> bindings es)"
    proof (rule Cons.IH)
      show "nm_abs ?d k' = None" if "Some k' \<in> set (names es)" for k'
        using that k_es ok(2) d1(4) Cons.prems(5) [of k'] by auto
    qed (use ok(1) d1 Cons.prems Some in \<open>auto simp: occupied_def\<close>)
    moreover have "nm_abs ?d k' = Some w \<longleftrightarrow> nm_abs d k' = Some w \<or> (k', w) = (k, v)" for k' w
      using ok(2) d1(4) Cons.prems(5) [of k] Some by auto
    ultimately show ?thesis using step d1(5) Some v by (auto simp: occupied_def bindings_Cons)
  qed
qed

lemma map_clone_ok:
  fixes m :: "'v named_map"
  assumes mem: "\<forall>n. mem n" and m: "nm_inv m" "nm_count m \<le> hm_limit"
    and vals: "\<And>k v. nm_abs m k = Some v \<Longrightarrow> copy v = Some v"
  shows "\<exists>m'. map_clone mem copy m = Some (m', True) \<and> nm_inv m' \<and> nm_abs m' = nm_abs m \<and> nm_count m' = nm_count m"
proof (cases "nm_entries m = [] \<or> nm_count m = 0")
  case True
  have "nm_abs m k = None" for k
  proof (rule abs_absent)
    show "Some k \<notin> set (names (nm_entries m))"
      using True m(1) occupied_pos [of k "names (nm_entries m)"] by (auto simp: nm_inv_def nm_wf_def)
  qed
  then have "nm_abs m = Map.empty" by (rule ext)
  then show ?thesis using True m map_init_ok by (auto simp: map_clone_def nm_inv_def nm_wf_def)
next
  case False
  define d0 :: "'v named_map" where "d0 = map_init\<lparr>nm_capacity := CXPR_HASHMAP_INITIAL_CAPACITY, nm_entries := replicate CXPR_HASHMAP_INITIAL_CAPACITY free_entry\<rparr>"
  have wf: "tbl_ok (names (nm_entries m))" "nm_count m = occupied (names (nm_entries m))" "distinct_names (names (nm_entries m))"
      "\<forall>e \<in> set (nm_entries m). me_name e \<noteq> None \<longrightarrow> me_value e \<noteq> None"
    using m(1) False by (auto simp: nm_inv_def nm_wf_def tbl_ok_iff)
  have d: "nm_inv d0" "nm_entries d0 \<noteq> []" "nm_abs d0 = Map.empty" "nm_count d0 = 0"
    using nm_inv_alloc [OF map_init_ok(1)] map_init_ok(2,3) by (simp_all add: d0_def map_init_def CXPR_HASHMAP_INITIAL_CAPACITY_def)
  have copies: "\<exists>v. me_value e = Some v \<and> copy v = Some v" if e: "e \<in> set (nm_entries m)" "me_name e \<noteq> None" for e
  proof -
    obtain k v where kv: "me_name e = Some k" "me_value e = Some v" using e wf(4) by fastforce
    then have "(k, v) \<in> bindings (nm_entries m)" using e(1) by (auto simp: bindings_def)
    then have "nm_abs m k = Some v" using abs_bindings [OF wf(3)] by simp
    with vals kv show ?thesis by blast
  qed
  have "\<exists>d'. map_clone_loop mem copy d0 (nm_entries m) = Some (d', True) \<and> nm_inv d' \<and>
      nm_count d' = nm_count d0 + occupied (names (nm_entries m)) \<and>
      (\<forall>k v. nm_abs d' k = Some v \<longleftrightarrow> nm_abs d0 k = Some v \<or> (k, v) \<in> bindings (nm_entries m))"
    by (rule clone_loop_ok [OF mem d(1,2)]) (use d wf m(2) copies tbl_ok_distinct [OF wf(1)] in auto)
  then obtain d' where d': "map_clone_loop mem copy d0 (nm_entries m) = Some (d', True)" "nm_inv d'" "nm_count d' = nm_count m"
      "\<And>k v. nm_abs d' k = Some v \<longleftrightarrow> (k, v) \<in> bindings (nm_entries m)" using d(3,4) wf(2) by auto
  have "nm_abs d' k = nm_abs m k" for k
    using d'(4) abs_bindings [OF wf(3), of k] by (metis option.exhaust)
  then have "nm_abs d' = nm_abs m" by (rule ext)
  moreover have "map_clone mem copy m = Some (d', True)" using False mem d'(1) by (simp add: map_clone_def d0_def)
  ultimately show ?thesis using d'(2,3) by blast
qed

section \<open>The interface of a named map\<close>

datatype 'v map_command = Store string 'v | Remove string

fun apply_command :: "('m \<Rightarrow> string \<Rightarrow> 'v \<Rightarrow> 'm option) \<Rightarrow> ('m \<Rightarrow> string \<Rightarrow> 'm option) \<Rightarrow> 'm \<Rightarrow> 'v map_command \<Rightarrow> 'm option" where
  "apply_command st rm m (Store k v) = st m k v"
| "apply_command st rm m (Remove k) = rm m k"

fun run_commands :: "('m \<Rightarrow> string \<Rightarrow> 'v \<Rightarrow> 'm option) \<Rightarrow> ('m \<Rightarrow> string \<Rightarrow> 'm option) \<Rightarrow> 'm \<Rightarrow> 'v map_command list \<Rightarrow> 'm option" where
  "run_commands st rm m [] = Some m"
| "run_commands st rm m (c # cs) =
     (case apply_command st rm m c of None \<Rightarrow> None | Some m' \<Rightarrow> run_commands st rm m' cs)"

text \<open>What the commands mean on a finite map.\<close>

fun command_meaning :: "(string \<Rightarrow> 'v option) \<Rightarrow> 'v map_command \<Rightarrow> (string \<Rightarrow> 'v option)" where
  "command_meaning f (Store k v) = f(k \<mapsto> v)"
| "command_meaning f (Remove k) = f(k := None)"

fun stored_values :: "'v map_command list \<Rightarrow> 'v list" where
  "stored_values [] = []"
| "stored_values (Store k v # cs) = v # stored_values cs"
| "stored_values (Remove k # cs) = stored_values cs"

locale named_store =
  fixes invar :: "'m \<Rightarrow> bool"
    and abs :: "'m \<Rightarrow> string \<Rightarrow> 'v option"
    and size :: "'m \<Rightarrow> nat"
    and limit :: nat
    and good :: "'v \<Rightarrow> bool"
    and new :: 'm
    and st :: "'m \<Rightarrow> string \<Rightarrow> 'v \<Rightarrow> 'm option"
    and rm :: "'m \<Rightarrow> string \<Rightarrow> 'm option"
    and get :: "'m \<Rightarrow> string \<Rightarrow> 'v option option"
  assumes new_ok: "invar new" "abs new = Map.empty" "size new = 0"
    and st_ok: "invar m \<Longrightarrow> size m < limit \<Longrightarrow> good v \<Longrightarrow>
      \<exists>m'. st m k v = Some m' \<and> invar m' \<and> abs m' = (abs m)(k \<mapsto> v) \<and> size m' \<le> Suc (size m)"
    and rm_ok: "invar m \<Longrightarrow> \<exists>m'. rm m k = Some m' \<and> invar m' \<and> abs m' = (abs m)(k := None) \<and> size m' \<le> size m"
    and get_ok: "invar m \<Longrightarrow> get m k = Some (abs m k)"
begin

lemma run_ok:
  assumes "invar m" "size m + length cs \<le> limit" "list_all good (stored_values cs)"
  shows "\<exists>m'. run_commands st rm m cs = Some m' \<and> invar m' \<and> abs m' = foldl command_meaning (abs m) cs"
  using assms
proof (induction cs arbitrary: m)
  case (Cons c cs)
  have "\<exists>m'. apply_command st rm m c = Some m' \<and> invar m' \<and> abs m' = command_meaning (abs m) c \<and> size m' \<le> Suc (size m)"
  proof (cases c)
    case (Store k v)
    then show ?thesis using st_ok [OF Cons.prems(1), of v k] Cons.prems by simp
  next
    case (Remove k)
    then show ?thesis using rm_ok [OF Cons.prems(1), of k] by auto
  qed
  then obtain m' where m': "apply_command st rm m c = Some m'" "invar m'" "abs m' = command_meaning (abs m) c" "size m' \<le> Suc (size m)"
    by blast
  have "list_all good (stored_values cs)" using Cons.prems(3) by (cases c) auto
  with Cons.IH [OF m'(2)] Cons.prems(2) m' show ?case by auto
qed simp

lemma get_after_commands:
  assumes "length cs \<le> limit" "list_all good (stored_values cs)"
  shows "\<exists>m. run_commands st rm new cs = Some m \<and> (\<forall>k. get m k = Some (foldl command_meaning Map.empty cs k))"
  using run_ok [of new cs] assms new_ok get_ok by fastforce

end

lemma array_value_new_alloc:
  "(\<And>n. mem n) \<Longrightarrow> list_all no_null vs \<Longrightarrow> cxpr_array_value_new mem vs = Some vs"
  using clone_succeeds(3) [of mem vs] clone_exact(3) [of vs mem] by (auto simp: cxpr_array_value_new_def)

interpretation structs: named_store nm_inv nm_abs nm_count hm_limit "list_all (\<lambda>p. no_null (snd p))"
    cxpr_struct_map_init "cxpr_context_store_struct (\<lambda>_. True)" cxpr_context_remove_struct cxpr_context_lookup_struct_map
proof unfold_locales
  fix m :: cxpr_struct_map and k and v :: cxpr_struct_value
  assume "nm_inv m"
  then show "cxpr_context_lookup_struct_map m k = Some (nm_abs m k)"
    by (simp add: cxpr_context_lookup_struct_map_def map_lookup_ok nm_inv_def)
  show "\<exists>m'. cxpr_context_remove_struct m k = Some m' \<and> nm_inv m' \<and> nm_abs m' = (nm_abs m)(k := None) \<and> nm_count m' \<le> nm_count m"
    using remove_inv [OF \<open>nm_inv m\<close>] by (simp add: cxpr_context_remove_struct_def)
  assume "nm_count m < hm_limit" "list_all (\<lambda>p. no_null (snd p)) v"
  then show "\<exists>m'. cxpr_context_store_struct (\<lambda>_. True) m k v = Some m' \<and> nm_inv m' \<and> nm_abs m' = (nm_abs m)(k \<mapsto> v) \<and>
      nm_count m' \<le> Suc (nm_count m)"
    using map_store_ok [OF \<open>nm_inv m\<close>, of "\<lambda>_. True" v k] struct_value_new_alloc [of "\<lambda>_. True" v]
    by (auto simp: cxpr_context_store_struct_def)
qed (simp_all add: cxpr_struct_map_init_def map_init_ok)

interpretation arrays: named_store nm_inv nm_abs nm_count hm_limit "list_all no_null"
    cxpr_array_map_init "cxpr_context_store_array (\<lambda>_. True)" cxpr_context_remove_array cxpr_context_lookup_array_map
proof unfold_locales
  fix m :: cxpr_array_map and k and v :: cxpr_array_value
  assume "nm_inv m"
  then show "cxpr_context_lookup_array_map m k = Some (nm_abs m k)"
    by (simp add: cxpr_context_lookup_array_map_def map_lookup_ok nm_inv_def)
  show "\<exists>m'. cxpr_context_remove_array m k = Some m' \<and> nm_inv m' \<and> nm_abs m' = (nm_abs m)(k := None) \<and> nm_count m' \<le> nm_count m"
    using remove_inv [OF \<open>nm_inv m\<close>] by (simp add: cxpr_context_remove_array_def)
  assume "nm_count m < hm_limit" "list_all no_null v"
  then show "\<exists>m'. cxpr_context_store_array (\<lambda>_. True) m k v = Some m' \<and> nm_inv m' \<and> nm_abs m' = (nm_abs m)(k \<mapsto> v) \<and>
      nm_count m' \<le> Suc (nm_count m)"
    using map_store_ok [OF \<open>nm_inv m\<close>, of "\<lambda>_. True" v k] array_value_new_alloc [of "\<lambda>_. True" v]
    by (auto simp: cxpr_context_store_array_def)
qed (simp_all add: cxpr_array_map_init_def map_init_ok)

section \<open>Properties\<close>

text \<open>C13: any sequence of up to \<open>2^50\<close> stores and removals on a fresh struct map or array map
  returns, and afterwards every lookup gives what the same commands leave in a finite map: the
  removal, which closes the gap by storing the rest of the probe cluster again, loses and revives
  no other binding.\<close>

theorem named_maps_refine_finite_maps:
  assumes "length cs \<le> 2 ^ 50" "length ds \<le> 2 ^ 50"
    and "list_all (list_all (\<lambda>p. no_null (snd p))) (stored_values cs)" "list_all (list_all no_null) (stored_values ds)"
  shows "\<exists>m a. run_commands (cxpr_context_store_struct (\<lambda>_. True)) cxpr_context_remove_struct cxpr_struct_map_init cs = Some m \<and>
    run_commands (cxpr_context_store_array (\<lambda>_. True)) cxpr_context_remove_array cxpr_array_map_init ds = Some a \<and>
    (\<forall>k. cxpr_context_lookup_struct_map m k = Some (foldl command_meaning Map.empty cs k) \<and>
         cxpr_context_lookup_array_map a k = Some (foldl command_meaning Map.empty ds k))"
  using structs.get_after_commands [OF assms(1,3)] arrays.get_after_commands [OF assms(2,4)] by blast

theorem named_maps_refine_finite_maps_witness:
  "\<exists>m a. run_commands (cxpr_context_store_struct (\<lambda>_. True)) cxpr_context_remove_struct cxpr_struct_map_init
      [Store ''a'' [], Store ''b'' [(''x'', cxpr_bool True)], Remove ''a''] = Some m \<and>
    run_commands (cxpr_context_store_array (\<lambda>_. True)) cxpr_context_remove_array cxpr_array_map_init [] = Some a \<and>
    cxpr_context_lookup_struct_map m ''a'' = Some None \<and>
    cxpr_context_lookup_struct_map m ''b'' = Some (Some [(''x'', cxpr_bool True)])"
  using named_maps_refine_finite_maps [of "[Store ''a'' [], Store ''b'' [(''x'', cxpr_bool True)], Remove ''a'']" "[]"]
  by auto

text \<open>Whatever allocations fail, storing a struct keeps the map in order and either binds the
  name to a copy or leaves every binding as it was, and it always returns; so no failed growth can
  fill the table up and make a probe run for ever.\<close>

theorem struct_store_failure_atomic:
  assumes "nm_inv m" "nm_count m < 2 ^ 50" "list_all (\<lambda>p. no_null (snd p)) v"
  shows "\<exists>m'. cxpr_context_store_struct mem m k v = Some m' \<and> nm_inv m' \<and>
    (nm_abs m' = (nm_abs m)(k \<mapsto> v) \<or> nm_abs m' = nm_abs m) \<and>
    (\<forall>k'. cxpr_context_lookup_struct_map m' k' = Some (nm_abs m' k'))"
proof (cases "cxpr_struct_value_new mem v")
  case None
  then show ?thesis
    using assms(1) structs.get_ok by (auto simp: cxpr_context_store_struct_def map_store_def)
next
  case (Some c)
  then have "c = v" using struct_value_new_exact assms(3) by blast
  with map_store_ok [OF assms(1,2), of mem v k] Some structs.get_ok show ?thesis
    by (auto simp: cxpr_context_store_struct_def)
qed

theorem struct_store_failure_atomic_witness:
  "\<exists>m'. cxpr_context_store_struct (\<lambda>n. n < 100) cxpr_struct_map_init ''s'' [] = Some m' \<and> nm_inv m' \<and>
    nm_abs m' = Map.empty"
proof -
  have "cxpr_context_store_struct (\<lambda>n. n < 100) cxpr_struct_map_init ''s'' [] = Some cxpr_struct_map_init" by code_simp
  moreover have "\<exists>m'. cxpr_context_store_struct (\<lambda>n. n < 100) cxpr_struct_map_init ''s'' [] = Some m' \<and> nm_inv m' \<and>
    (nm_abs m' = (nm_abs cxpr_struct_map_init)(''s'' \<mapsto> []) \<or> nm_abs m' = nm_abs cxpr_struct_map_init) \<and>
    (\<forall>k'. cxpr_context_lookup_struct_map m' k' = Some (nm_abs m' k'))"
    by (rule struct_store_failure_atomic) (simp_all add: cxpr_struct_map_init_def map_init_ok)
  ultimately show ?thesis by (auto simp: cxpr_struct_map_init_def map_init_ok)
qed

end
