(* ===== verification/Cxpr_Context.thy ===== *)
theory Cxpr_Context
  imports Cxpr_Maps "HOL-Library.Monad_Syntax"
begin

text \<open>
  The evaluation context of \<^verbatim>\<open>src/src/context/\<close>: \<open>cache.c\<close> (the two lookup caches of a number table),
  \<open>values.c\<close> (bindings of numbers, booleans, integers, strings; the look-back offset), \<open>structs.c\<close>
  (structs, typed lookups over the parents), \<open>lifecycle.c\<close> (creation, overlays and their pool, clones,
  clearing) and \<open>slot.c\<close> (slots bound to a variable for repeated writes). A context is a record; a
  context with its parents is the list of their states, the context first. Pointers that the code
  compares are addresses: of the caller's string (\<open>cs_addr\<close>) and of the slot array of a table
  (\<open>ht_base\<close>); where the code allocates a slot array, the address \<open>calloc\<close> returns is an argument.
  \<open>mem n\<close> says whether an allocation of \<open>n\<close> bytes succeeds. An attached evaluator is the function
  from a name to the result it holds. The result \<open>None\<close> is a probe loop that does not end.
  The theorems are in \<open>Cxpr_Bindings\<close>.
\<close>

section \<open>State\<close>

text \<open>A C string as an argument: the pointer and the text it points to.\<close>

record cstring =
  cs_addr :: nat
  cs_text :: string

text \<open>One bucket of a lookup cache. \<open>key_ref\<close> is the address of the caller's string in the pointer
  cache, and the key of the entry (compared as text) in the hash cache; an address 0 is NULL.\<close>

record 'k cxpr_context_entry_cache =
  ec_key_ref :: "'k option"
  ec_hash :: ulong
  ec_slot :: nat
  ec_entries_base :: nat

definition CXPR_CONTEXT_ENTRY_CACHE_SIZE :: nat where
  "CXPR_CONTEXT_ENTRY_CACHE_SIZE = 64"

definition empty_bucket :: "'k cxpr_context_entry_cache" where
  "empty_bucket = \<lparr>ec_key_ref = None, ec_hash = 0, ec_slot = 0, ec_entries_base = 0\<rparr>"

definition cxpr_context_clear_entry_cache :: "'k cxpr_context_entry_cache list" where
  "cxpr_context_clear_entry_cache = replicate CXPR_CONTEXT_ENTRY_CACHE_SIZE empty_bucket"

text \<open>The hash map of the variables or of the parameters with the address of its slot array, its two
  caches and its version counter.\<close>

record hashed_table =
  ht_map :: cxpr_hashmap
  ht_base :: nat
  ht_cache :: "string cxpr_context_entry_cache list"
  ht_ptr_cache :: "nat cxpr_context_entry_cache list"
  ht_version :: ulong

text \<open>The growing arrays of named booleans, integers and strings; the count is the length.\<close>

record 'v small_map =
  sm_entries :: "(string \<times> 'v) list"
  sm_capacity :: nat

type_synonym cxpr_bool_map = "bool small_map"
type_synonym cxpr_int64_map = "int small_map"
type_synonym cxpr_string_map = "string small_map"

record cxpr_context =
  cx_variables :: hashed_table
  cx_params :: hashed_table
  cx_bools :: cxpr_bool_map
  cx_bool_params :: cxpr_bool_map
  cx_int64s :: cxpr_int64_map
  cx_int64_params :: cxpr_int64_map
  cx_strings :: cxpr_string_map
  cx_string_params :: cxpr_string_map
  cx_structs :: cxpr_struct_map
  cx_cached_structs :: cxpr_struct_map
  cx_arrays :: cxpr_array_map
  cx_array_params :: cxpr_array_map
  cx_memo_count :: nat
  cx_memo_depth :: nat
  cx_memo_allocated :: bool
  cx_expression_scope :: "(string \<Rightarrow> cxpr_value option) option"

section \<open>Lookup caches (cache.c)\<close>

definition cxpr_context_cache_bucket :: "ulong \<Rightarrow> nat" where
  "cxpr_context_cache_bucket hash = unat hash mod CXPR_CONTEXT_ENTRY_CACHE_SIZE"

definition cxpr_context_pointer_cache_bucket :: "cstring \<Rightarrow> nat" where
  "cxpr_context_pointer_cache_bucket name = cs_addr name div 16 mod CXPR_CONTEXT_ENTRY_CACHE_SIZE"

text \<open>Entries are slot indices; \<open>None\<close> is NULL.\<close>

definition cxpr_context_lookup_pointer_cached_entry :: "hashed_table \<Rightarrow> cstring \<Rightarrow> nat option" where
  "cxpr_context_lookup_pointer_cached_entry t name =
     (let bucket = ht_ptr_cache t ! cxpr_context_pointer_cache_bucket name in
      if ec_entries_base bucket = ht_base t \<and> ec_key_ref bucket = Some (cs_addr name) \<and>
         key (entries (ht_map t) ! ec_slot bucket) = Some (cs_text name)
      then Some (ec_slot bucket) else None)"

text \<open>The outer \<open>None\<close> is a probe that does not end.\<close>

definition cxpr_context_lookup_cached_entry ::
  "hashed_table \<Rightarrow> string \<Rightarrow> ulong \<Rightarrow> (nat option \<times> hashed_table) option" where
  "cxpr_context_lookup_cached_entry t k hash =
     (let i = cxpr_context_cache_bucket hash; bucket = ht_cache t ! i in
      if ec_entries_base bucket = ht_base t \<and> ec_hash bucket = hash \<and> ec_key_ref bucket = Some k
      then Some (Some (ec_slot bucket), t)
      else (case cxpr_hashmap_find_prehashed_slot (ht_map t) k hash of
              None \<Rightarrow> None
            | Some (Some s) \<Rightarrow>
                Some (Some s, t\<lparr>ht_cache := (ht_cache t)[i :=
                  \<lparr>ec_key_ref = key (entries (ht_map t) ! s), ec_hash = hash, ec_slot = s,
                   ec_entries_base = ht_base t\<rparr>]\<rparr>)
            | Some None \<Rightarrow> Some (None, t\<lparr>ht_cache := (ht_cache t)[i := empty_bucket]\<rparr>)))"

definition cxpr_context_refresh_cache :: "hashed_table \<Rightarrow> string \<Rightarrow> ulong \<Rightarrow> hashed_table option" where
  "cxpr_context_refresh_cache t k hash =
     map_option (\<lambda>entry.
       t\<lparr>ht_cache := (ht_cache t)[cxpr_context_cache_bucket hash :=
         (case entry of
            None \<Rightarrow> \<lparr>ec_key_ref = None, ec_hash = hash, ec_slot = 0, ec_entries_base = 0\<rparr>
          | Some s \<Rightarrow> \<lparr>ec_key_ref = key (entries (ht_map t) ! s), ec_hash = hash, ec_slot = s,
                       ec_entries_base = ht_base t\<rparr>)]\<rparr>)
     (cxpr_hashmap_find_prehashed_slot (ht_map t) k hash)"

definition cxpr_context_refresh_pointer_cache :: "hashed_table \<Rightarrow> cstring \<Rightarrow> nat option \<Rightarrow> hashed_table" where
  "cxpr_context_refresh_pointer_cache t name entry =
     (case entry of
        None \<Rightarrow> t
      | Some s \<Rightarrow>
          t\<lparr>ht_ptr_cache := (ht_ptr_cache t)[cxpr_context_pointer_cache_bucket name :=
            \<lparr>ec_key_ref = Some (cs_addr name), ec_hash = 0, ec_slot = s, ec_entries_base = ht_base t\<rparr>]\<rparr>)"

section \<open>Small maps (values.c)\<close>

fun assoc_put :: "string \<Rightarrow> 'v \<Rightarrow> (string \<times> 'v) list \<Rightarrow> (string \<times> 'v) list" where
  "assoc_put k v [] = []"
| "assoc_put k v ((k', w) # ps) = (if k' = k then (k', v) # ps else (k', w) # assoc_put k v ps)"

fun assoc_del :: "string \<Rightarrow> (string \<times> 'v) list \<Rightarrow> (string \<times> 'v) list" where
  "assoc_del k [] = []"
| "assoc_del k ((k', w) # ps) = (if k' = k then ps else (k', w) # assoc_del k ps)"

definition small_init :: "'v small_map" where
  "small_init = \<lparr>sm_entries = [], sm_capacity = 0\<rparr>"

text \<open>\<open>esize\<close> is the size of an entry; the flag is the result.\<close>

definition small_set :: "(nat \<Rightarrow> bool) \<Rightarrow> nat \<Rightarrow> 'v small_map \<Rightarrow> string \<Rightarrow> 'v \<Rightarrow> 'v small_map \<times> bool" where
  "small_set mem esize m name v =
     (if map_of (sm_entries m) name \<noteq> None
      then (m\<lparr>sm_entries := assoc_put name v (sm_entries m)\<rparr>, True)
      else
        let full = (length (sm_entries m) = sm_capacity m);
            new_capacity = (if sm_capacity m = 0 then 8 else sm_capacity m * 2);
            m1 = (if full then m\<lparr>sm_capacity := new_capacity\<rparr> else m) in
        if full \<and> \<not> mem (new_capacity * esize) then (m, False)
        else (case cxpr_strdup mem name of
                None \<Rightarrow> (m1, False)
              | Some n \<Rightarrow> (m1\<lparr>sm_entries := sm_entries m1 @ [(n, v)]\<rparr>, True)))"

definition small_remove :: "'v small_map \<Rightarrow> string \<Rightarrow> 'v small_map" where
  "small_remove m name = m\<lparr>sm_entries := assoc_del name (sm_entries m)\<rparr>"

definition small_get :: "'v small_map \<Rightarrow> string \<Rightarrow> 'v option" where
  "small_get m name = map_of (sm_entries m) name"

definition cxpr_bool_map_set :: "(nat \<Rightarrow> bool) \<Rightarrow> cxpr_bool_map \<Rightarrow> string \<Rightarrow> bool \<Rightarrow> cxpr_bool_map \<times> bool" where
  "cxpr_bool_map_set mem = small_set mem 16"

definition cxpr_bool_map_remove :: "cxpr_bool_map \<Rightarrow> string \<Rightarrow> cxpr_bool_map" where
  "cxpr_bool_map_remove = small_remove"

definition cxpr_bool_map_get :: "cxpr_bool_map \<Rightarrow> string \<Rightarrow> bool option" where
  "cxpr_bool_map_get = small_get"

definition cxpr_int64_map_set :: "(nat \<Rightarrow> bool) \<Rightarrow> cxpr_int64_map \<Rightarrow> string \<Rightarrow> int \<Rightarrow> cxpr_int64_map \<times> bool" where
  "cxpr_int64_map_set mem = small_set mem 16"

definition cxpr_int64_map_remove :: "cxpr_int64_map \<Rightarrow> string \<Rightarrow> cxpr_int64_map" where
  "cxpr_int64_map_remove = small_remove"

definition cxpr_int64_map_get :: "cxpr_int64_map \<Rightarrow> string \<Rightarrow> int option" where
  "cxpr_int64_map_get = small_get"

definition cxpr_string_map_set ::
  "(nat \<Rightarrow> bool) \<Rightarrow> cxpr_string_map \<Rightarrow> string \<Rightarrow> string option \<Rightarrow> cxpr_string_map \<times> bool" where
  "cxpr_string_map_set mem m name v =
     (case cxpr_strdup mem (case v of None \<Rightarrow> [] | Some s \<Rightarrow> s) of
        None \<Rightarrow> (m, False)
      | Some value_copy \<Rightarrow> small_set mem 16 m name value_copy)"

definition cxpr_string_map_remove :: "cxpr_string_map \<Rightarrow> string \<Rightarrow> cxpr_string_map" where
  "cxpr_string_map_remove = small_remove"

definition cxpr_string_map_get :: "cxpr_string_map \<Rightarrow> string \<Rightarrow> string option" where
  "cxpr_string_map_get = small_get"

section \<open>Number bindings (values.c)\<close>

definition ht_write :: "hashed_table \<Rightarrow> nat \<Rightarrow> double \<Rightarrow> hashed_table" where
  "ht_write t s v =
     t\<lparr>ht_map := (ht_map t)\<lparr>entries := (entries (ht_map t))[s := (entries (ht_map t) ! s)\<lparr>val := v\<rparr>]\<rparr>\<rparr>"

text \<open>\<open>new_base\<close> is the address \<open>calloc\<close> returns, should the table grow.\<close>

definition cxpr_context_set_hashed ::
  "(nat \<Rightarrow> bool) \<Rightarrow> nat \<Rightarrow> hashed_table \<Rightarrow> cstring \<Rightarrow> ulong \<Rightarrow> double \<Rightarrow> hashed_table option" where
  "cxpr_context_set_hashed mem new_base t name hash v =
     (case cxpr_context_lookup_pointer_cached_entry t name of
        Some s \<Rightarrow> Some (ht_write t s v)
      | None \<Rightarrow>
          (case cxpr_context_lookup_cached_entry t (cs_text name) hash of
             None \<Rightarrow> None
           | Some (Some s, t1) \<Rightarrow> Some (ht_write (cxpr_context_refresh_pointer_cache t1 name (Some s)) s v)
           | Some (None, t1) \<Rightarrow>
               do { (m, is_new) \<leftarrow> cxpr_hashmap_set_prehashed mem (ht_map t1) (cs_text name) hash v;
                    let t2 = t1\<lparr>ht_map := m,
                                ht_base := (if capacity m \<noteq> capacity (ht_map t1) then new_base else ht_base t1),
                                ht_version := (if is_new then ht_version t1 + 1 else ht_version t1)\<rparr>;
                    t3 \<leftarrow> cxpr_context_refresh_cache t2 (cs_text name) hash;
                    entry \<leftarrow> cxpr_hashmap_find_prehashed_slot (ht_map t3) (cs_text name) hash;
                    Some (cxpr_context_refresh_pointer_cache t3 name entry) }))"

text \<open>The number bound to a name in one table, through the caches.\<close>

definition ht_get :: "hashed_table \<Rightarrow> cstring \<Rightarrow> (double option \<times> hashed_table) option" where
  "ht_get t name =
     (case cxpr_context_lookup_pointer_cached_entry t name of
        Some s \<Rightarrow> Some (Some (val (entries (ht_map t) ! s)), t)
      | None \<Rightarrow>
          (case cxpr_context_lookup_cached_entry t (cs_text name) (cxpr_hash_string (cs_text name)) of
             None \<Rightarrow> None
           | Some (Some s, t1) \<Rightarrow>
               Some (Some (val (entries (ht_map t1) ! s)), cxpr_context_refresh_pointer_cache t1 name (Some s))
           | Some (None, t1) \<Rightarrow> Some (None, t1)))"

section \<open>Variables\<close>

text \<open>The removals that precede a binding of another kind.\<close>

definition drop_bool :: "string \<Rightarrow> cxpr_context \<Rightarrow> cxpr_context" where
  "drop_bool name c = c\<lparr>cx_bools := cxpr_bool_map_remove (cx_bools c) name\<rparr>"

definition drop_int64 :: "string \<Rightarrow> cxpr_context \<Rightarrow> cxpr_context" where
  "drop_int64 name c = c\<lparr>cx_int64s := cxpr_int64_map_remove (cx_int64s c) name\<rparr>"

definition drop_string :: "string \<Rightarrow> cxpr_context \<Rightarrow> cxpr_context" where
  "drop_string name c = c\<lparr>cx_strings := cxpr_string_map_remove (cx_strings c) name\<rparr>"

definition drop_array :: "string \<Rightarrow> cxpr_context \<Rightarrow> cxpr_context option" where
  "drop_array name c = map_option (\<lambda>m. c\<lparr>cx_arrays := m\<rparr>) (cxpr_context_remove_array (cx_arrays c) name)"

definition drop_struct :: "string \<Rightarrow> cxpr_context \<Rightarrow> cxpr_context option" where
  "drop_struct name c = map_option (\<lambda>m. c\<lparr>cx_structs := m\<rparr>) (cxpr_context_remove_struct (cx_structs c) name)"

text \<open>\<open>if (set) ctx->variables_version++;\<close> and the same for the parameters.\<close>

definition bump_variables :: "bool \<Rightarrow> cxpr_context \<Rightarrow> cxpr_context" where
  "bump_variables b c = (if b then c\<lparr>cx_variables := (cx_variables c)\<lparr>ht_version := ht_version (cx_variables c) + 1\<rparr>\<rparr> else c)"

definition bump_params :: "bool \<Rightarrow> cxpr_context \<Rightarrow> cxpr_context" where
  "bump_params b c = (if b then c\<lparr>cx_params := (cx_params c)\<lparr>ht_version := ht_version (cx_params c) + 1\<rparr>\<rparr> else c)"

definition cxpr_context_set_prehashed ::
  "(nat \<Rightarrow> bool) \<Rightarrow> nat \<Rightarrow> cxpr_context \<Rightarrow> cstring \<Rightarrow> ulong \<Rightarrow> double \<Rightarrow> cxpr_context option" where
  "cxpr_context_set_prehashed mem new_base c name hash v =
     do { c1 \<leftarrow> drop_array (cs_text name) (drop_string (cs_text name) (drop_int64 (cs_text name) (drop_bool (cs_text name) c)));
          c2 \<leftarrow> drop_struct (cs_text name) c1;
          t \<leftarrow> cxpr_context_set_hashed mem new_base (cx_variables c2) name hash v;
          Some (c2\<lparr>cx_variables := t\<rparr>) }"

definition cxpr_context_set :: "(nat \<Rightarrow> bool) \<Rightarrow> nat \<Rightarrow> cxpr_context \<Rightarrow> cstring \<Rightarrow> double \<Rightarrow> cxpr_context option" where
  "cxpr_context_set mem new_base c name v =
     cxpr_context_set_prehashed mem new_base c name (cxpr_hash_string (cs_text name)) v"

definition cxpr_context_set_bool :: "(nat \<Rightarrow> bool) \<Rightarrow> cxpr_context \<Rightarrow> string \<Rightarrow> bool \<Rightarrow> cxpr_context option" where
  "cxpr_context_set_bool mem c name v =
     do { c1 \<leftarrow> drop_array name (drop_int64 name (drop_string name c));
          c2 \<leftarrow> drop_struct name c1;
          let (m, stored) = cxpr_bool_map_set mem (cx_bools c2) name v;
          Some (bump_variables stored (c2\<lparr>cx_bools := m\<rparr>)) }"

definition cxpr_context_set_int64 :: "(nat \<Rightarrow> bool) \<Rightarrow> cxpr_context \<Rightarrow> string \<Rightarrow> int \<Rightarrow> cxpr_context option" where
  "cxpr_context_set_int64 mem c name v =
     do { c1 \<leftarrow> drop_array name (drop_string name (drop_bool name c));
          c2 \<leftarrow> drop_struct name c1;
          let (m, stored) = cxpr_int64_map_set mem (cx_int64s c2) name v;
          Some (bump_variables stored (c2\<lparr>cx_int64s := m\<rparr>)) }"

text \<open>No removal of an integer here.\<close>

definition cxpr_context_set_string ::
  "(nat \<Rightarrow> bool) \<Rightarrow> cxpr_context \<Rightarrow> string \<Rightarrow> string option \<Rightarrow> cxpr_context option" where
  "cxpr_context_set_string mem c name v =
     do { c1 \<leftarrow> drop_array name (drop_bool name c);
          c2 \<leftarrow> drop_struct name c1;
          let (m, stored) = cxpr_string_map_set mem (cx_strings c2) name v;
          Some (bump_variables stored (c2\<lparr>cx_strings := m\<rparr>)) }"

definition cxpr_context_set_struct ::
  "(nat \<Rightarrow> bool) \<Rightarrow> cxpr_context \<Rightarrow> string \<Rightarrow> cxpr_struct_value option \<Rightarrow> cxpr_context option" where
  "cxpr_context_set_struct mem c name v =
     (case v of
        None \<Rightarrow> Some c
      | Some s \<Rightarrow> map_option (\<lambda>m. c\<lparr>cx_structs := m\<rparr>) (cxpr_context_store_struct mem (cx_structs c) name s))"

definition cxpr_context_set_cached_struct ::
  "(nat \<Rightarrow> bool) \<Rightarrow> cxpr_context \<Rightarrow> string \<Rightarrow> cxpr_struct_value \<Rightarrow> cxpr_context option" where
  "cxpr_context_set_cached_struct mem c name s =
     map_option (\<lambda>m. c\<lparr>cx_cached_structs := m\<rparr>) (cxpr_context_store_struct mem (cx_cached_structs c) name s)"

definition cxpr_context_set_value ::
  "(nat \<Rightarrow> bool) \<Rightarrow> nat \<Rightarrow> cxpr_context \<Rightarrow> cstring \<Rightarrow> cxpr_value \<Rightarrow> cxpr_context option" where
  "cxpr_context_set_value mem new_base c name v =
     (case v of
        cxpr_num d \<Rightarrow> cxpr_context_set mem new_base c name d
      | cxpr_bool b \<Rightarrow> cxpr_context_set_bool mem c (cs_text name) b
      | cxpr_int64 i \<Rightarrow> cxpr_context_set_int64 mem c (cs_text name) i
      | cxpr_string s \<Rightarrow> cxpr_context_set_string mem c (cs_text name) s
      | cxpr_struct s \<Rightarrow>
          do { c1 \<leftarrow> drop_array (cs_text name) (drop_string (cs_text name) (drop_bool (cs_text name) c));
               cxpr_context_set_struct mem c1 (cs_text name) s }
      | cxpr_array None \<Rightarrow> Some c
      | cxpr_array (Some a) \<Rightarrow>
          do { c1 \<leftarrow> drop_struct (cs_text name) (drop_string (cs_text name) (drop_bool (cs_text name) c));
               m \<leftarrow> cxpr_context_store_array mem (cx_arrays c1) (cs_text name) a;
               Some (bump_variables True (c1\<lparr>cx_arrays := m\<rparr>)) }
      | _ \<Rightarrow> Some c)"

text \<open>The loop over an entry array, with the address of each growth.\<close>

fun cxpr_context_set_array ::
  "(nat \<Rightarrow> bool) \<Rightarrow> cxpr_context \<Rightarrow> (nat \<times> cstring \<times> double) list \<Rightarrow> cxpr_context option" where
  "cxpr_context_set_array mem c [] = Some c"
| "cxpr_context_set_array mem c ((new_base, name, v) # es) =
     do { c1 \<leftarrow> cxpr_context_set mem new_base c name v; cxpr_context_set_array mem c1 es }"

section \<open>Parameters\<close>

definition drop_bool_param :: "string \<Rightarrow> cxpr_context \<Rightarrow> cxpr_context" where
  "drop_bool_param name c = c\<lparr>cx_bool_params := cxpr_bool_map_remove (cx_bool_params c) name\<rparr>"

definition drop_int64_param :: "string \<Rightarrow> cxpr_context \<Rightarrow> cxpr_context" where
  "drop_int64_param name c = c\<lparr>cx_int64_params := cxpr_int64_map_remove (cx_int64_params c) name\<rparr>"

definition drop_string_param :: "string \<Rightarrow> cxpr_context \<Rightarrow> cxpr_context" where
  "drop_string_param name c = c\<lparr>cx_string_params := cxpr_string_map_remove (cx_string_params c) name\<rparr>"

definition drop_array_param :: "string \<Rightarrow> cxpr_context \<Rightarrow> cxpr_context option" where
  "drop_array_param name c =
     map_option (\<lambda>m. c\<lparr>cx_array_params := m\<rparr>) (cxpr_context_remove_array (cx_array_params c) name)"

definition cxpr_context_set_param_prehashed ::
  "(nat \<Rightarrow> bool) \<Rightarrow> nat \<Rightarrow> cxpr_context \<Rightarrow> cstring \<Rightarrow> ulong \<Rightarrow> double \<Rightarrow> cxpr_context option" where
  "cxpr_context_set_param_prehashed mem new_base c name hash v =
     do { c1 \<leftarrow> drop_array_param (cs_text name)
                 (drop_string_param (cs_text name) (drop_int64_param (cs_text name) (drop_bool_param (cs_text name) c)));
          c2 \<leftarrow> drop_struct (cs_text name) c1;
          t \<leftarrow> cxpr_context_set_hashed mem new_base (cx_params c2) name hash v;
          Some (c2\<lparr>cx_params := t\<rparr>) }"

definition cxpr_context_set_param ::
  "(nat \<Rightarrow> bool) \<Rightarrow> nat \<Rightarrow> cxpr_context \<Rightarrow> cstring \<Rightarrow> double \<Rightarrow> cxpr_context option" where
  "cxpr_context_set_param mem new_base c name v =
     cxpr_context_set_param_prehashed mem new_base c name (cxpr_hash_string (cs_text name)) v"

fun cxpr_context_set_param_array ::
  "(nat \<Rightarrow> bool) \<Rightarrow> cxpr_context \<Rightarrow> (nat \<times> cstring \<times> double) list \<Rightarrow> cxpr_context option" where
  "cxpr_context_set_param_array mem c [] = Some c"
| "cxpr_context_set_param_array mem c ((new_base, name, v) # es) =
     do { c1 \<leftarrow> cxpr_context_set_param mem new_base c name v; cxpr_context_set_param_array mem c1 es }"

definition cxpr_context_set_param_bool :: "(nat \<Rightarrow> bool) \<Rightarrow> cxpr_context \<Rightarrow> string \<Rightarrow> bool \<Rightarrow> cxpr_context option" where
  "cxpr_context_set_param_bool mem c name v =
     do { c1 \<leftarrow> drop_array_param name (drop_int64_param name (drop_string_param name c));
          c2 \<leftarrow> drop_struct name c1;
          let (m, stored) = cxpr_bool_map_set mem (cx_bool_params c2) name v;
          Some (bump_params stored (c2\<lparr>cx_bool_params := m\<rparr>)) }"

definition cxpr_context_set_param_int64 :: "(nat \<Rightarrow> bool) \<Rightarrow> cxpr_context \<Rightarrow> string \<Rightarrow> int \<Rightarrow> cxpr_context" where
  "cxpr_context_set_param_int64 mem c name v =
     (let c1 = drop_string_param name (drop_bool_param name c);
          (m, stored) = cxpr_int64_map_set mem (cx_int64_params c1) name v in
      bump_params stored (c1\<lparr>cx_int64_params := m\<rparr>))"

definition cxpr_context_set_param_string ::
  "(nat \<Rightarrow> bool) \<Rightarrow> cxpr_context \<Rightarrow> string \<Rightarrow> string option \<Rightarrow> cxpr_context option" where
  "cxpr_context_set_param_string mem c name v =
     do { c1 \<leftarrow> drop_array_param name (drop_bool_param name c);
          c2 \<leftarrow> drop_struct name c1;
          let (m, stored) = cxpr_string_map_set mem (cx_string_params c2) name v;
          Some (bump_params stored (c2\<lparr>cx_string_params := m\<rparr>)) }"

definition cxpr_context_set_param_value ::
  "(nat \<Rightarrow> bool) \<Rightarrow> nat \<Rightarrow> cxpr_context \<Rightarrow> cstring \<Rightarrow> cxpr_value \<Rightarrow> cxpr_context option" where
  "cxpr_context_set_param_value mem new_base c name v =
     (case v of
        cxpr_num d \<Rightarrow> cxpr_context_set_param mem new_base c name d
      | cxpr_bool b \<Rightarrow> cxpr_context_set_param_bool mem c (cs_text name) b
      | cxpr_int64 i \<Rightarrow> Some (cxpr_context_set_param_int64 mem c (cs_text name) i)
      | cxpr_string s \<Rightarrow> cxpr_context_set_param_string mem c (cs_text name) s
      | cxpr_struct s \<Rightarrow>
          do { c1 \<leftarrow> drop_array_param (cs_text name) (drop_string_param (cs_text name) (drop_bool_param (cs_text name) c));
               (case s of
                  None \<Rightarrow> Some c1
                | Some fs \<Rightarrow>
                    do { m \<leftarrow> cxpr_context_store_struct mem (cx_structs c1) (cs_text name) fs;
                         Some (bump_params True (c1\<lparr>cx_structs := m\<rparr>)) }) }
      | cxpr_array None \<Rightarrow> Some c
      | cxpr_array (Some a) \<Rightarrow>
          do { c1 \<leftarrow> drop_struct (cs_text name) (drop_string_param (cs_text name) (drop_bool_param (cs_text name) c));
               m \<leftarrow> cxpr_context_store_array mem (cx_array_params c1) (cs_text name) a;
               Some (bump_params True (c1\<lparr>cx_array_params := m\<rparr>)) }
      | _ \<Rightarrow> Some c)"

section \<open>Lookups over the parents (structs.c, values.c)\<close>

text \<open>
  A context and its parents are the list of their states, the context first. A lookup returns the
  value where one is found, and the contexts with their caches as the lookup left them.
\<close>

type_synonym frames = "cxpr_context list"

fun cxpr_context_get_bool :: "frames \<Rightarrow> string \<Rightarrow> bool option" where
  "cxpr_context_get_bool [] name = None"
| "cxpr_context_get_bool (c # cs) name =
     (case cxpr_bool_map_get (cx_bools c) name of
        Some b \<Rightarrow> Some b
      | None \<Rightarrow> cxpr_context_get_bool cs name)"

fun cxpr_context_get_string :: "frames \<Rightarrow> string \<Rightarrow> string option" where
  "cxpr_context_get_string [] name = None"
| "cxpr_context_get_string (c # cs) name =
     (case cxpr_string_map_get (cx_strings c) name of
        Some s \<Rightarrow> Some s
      | None \<Rightarrow> cxpr_context_get_string cs name)"

fun cxpr_context_get_param_bool :: "frames \<Rightarrow> string \<Rightarrow> bool option" where
  "cxpr_context_get_param_bool [] name = None"
| "cxpr_context_get_param_bool (c # cs) name =
     (case cxpr_bool_map_get (cx_bool_params c) name of
        Some b \<Rightarrow> Some b
      | None \<Rightarrow> cxpr_context_get_param_bool cs name)"

fun cxpr_context_get_param_string :: "frames \<Rightarrow> string \<Rightarrow> string option" where
  "cxpr_context_get_param_string [] name = None"
| "cxpr_context_get_param_string (c # cs) name =
     (case cxpr_string_map_get (cx_string_params c) name of
        Some s \<Rightarrow> Some s
      | None \<Rightarrow> cxpr_context_get_param_string cs name)"

fun cxpr_context_get_struct :: "frames \<Rightarrow> string \<Rightarrow> cxpr_struct_value option option" where
  "cxpr_context_get_struct [] name = Some None"
| "cxpr_context_get_struct (c # cs) name =
     (case cxpr_context_lookup_struct_map (cx_structs c) name of
        None \<Rightarrow> None
      | Some (Some s) \<Rightarrow> Some (Some s)
      | Some None \<Rightarrow> cxpr_context_get_struct cs name)"

fun cxpr_context_get_cached_struct :: "frames \<Rightarrow> string \<Rightarrow> cxpr_struct_value option option" where
  "cxpr_context_get_cached_struct [] name = Some None"
| "cxpr_context_get_cached_struct (c # cs) name =
     (case cxpr_context_lookup_struct_map (cx_cached_structs c) name of
        None \<Rightarrow> None
      | Some (Some s) \<Rightarrow> Some (Some s)
      | Some None \<Rightarrow> cxpr_context_get_cached_struct cs name)"

text \<open>The bindings of one context that need no cache, in the order of the lookup before the numbers:
  the results of the attached evaluator, booleans, integers, strings, arrays.\<close>

definition early_binding :: "(nat \<Rightarrow> bool) \<Rightarrow> cxpr_context \<Rightarrow> string \<Rightarrow> cxpr_value option option" where
  "early_binding mem c name =
     (case Option.bind (cx_expression_scope c) (\<lambda>f. f name) of
        Some v \<Rightarrow> Some (Some v)
      | None \<Rightarrow>
     (case cxpr_bool_map_get (cx_bools c) name of
        Some b \<Rightarrow> Some (Some (cxpr_bool b))
      | None \<Rightarrow>
     (case cxpr_int64_map_get (cx_int64s c) name of
        Some i \<Rightarrow> Some (Some (cxpr_int64 i))
      | None \<Rightarrow>
     (case cxpr_string_map_get (cx_strings c) name of
        Some s \<Rightarrow> Some (Some (cxpr_string (Some s)))
      | None \<Rightarrow>
          map_option (map_option (\<lambda>vs. cxpr_array (cxpr_array_value_new mem vs)))
            (cxpr_context_lookup_array_map (cx_arrays c) name)))))"

text \<open>The bindings looked at after the numbers.\<close>

definition late_binding :: "(nat \<Rightarrow> bool) \<Rightarrow> cxpr_context \<Rightarrow> string \<Rightarrow> cxpr_value option option" where
  "late_binding mem c name =
     (case cxpr_context_lookup_struct_map (cx_structs c) name of
        None \<Rightarrow> None
      | Some (Some s) \<Rightarrow> Some (Some (cxpr_struct (cxpr_struct_value_new mem s)))
      | Some None \<Rightarrow>
          map_option (map_option (\<lambda>s. cxpr_struct (cxpr_struct_value_new mem s)))
            (cxpr_context_lookup_struct_map (cx_cached_structs c) name))"

fun cxpr_context_get_typed ::
  "(nat \<Rightarrow> bool) \<Rightarrow> frames \<Rightarrow> cstring \<Rightarrow> (cxpr_value option \<times> frames) option" where
  "cxpr_context_get_typed mem [] name = Some (None, [])"
| "cxpr_context_get_typed mem (c # cs) name =
     do { early \<leftarrow> early_binding mem c (cs_text name);
          (case early of
             Some v \<Rightarrow> Some (Some v, c # cs)
           | None \<Rightarrow>
               do { (number, t) \<leftarrow> ht_get (cx_variables c) name;
                    let c' = c\<lparr>cx_variables := t\<rparr>;
                    (case number of
                       Some d \<Rightarrow> Some (Some (cxpr_num d), c' # cs)
                     | None \<Rightarrow>
                         do { late \<leftarrow> late_binding mem c' (cs_text name);
                              (case late of
                                 Some v \<Rightarrow> Some (Some v, c' # cs)
                               | None \<Rightarrow>
                                   do { (r, cs') \<leftarrow> cxpr_context_get_typed mem cs name;
                                        Some (r, c' # cs') }) }) }) }"

text \<open>The number and \<open>*found\<close>; \<open>has_found\<close> says whether the caller passed a flag. Without one the result
  is 0.0 whatever the lookup found.\<close>

definition cxpr_context_get ::
  "(nat \<Rightarrow> bool) \<Rightarrow> bool \<Rightarrow> frames \<Rightarrow> cstring \<Rightarrow> ((double \<times> bool) \<times> frames) option" where
  "cxpr_context_get mem has_found cs name =
     map_option (\<lambda>(r, cs'). (case r of
                               Some (cxpr_num d) \<Rightarrow> if has_found then (d, True) else (dbl_zero, False)
                             | Some (cxpr_bool b) \<Rightarrow>
                                 if has_found then (if b then dbl_of_int 1 else dbl_zero, True) else (dbl_zero, False)
                             | _ \<Rightarrow> (dbl_zero, False), cs'))
       (cxpr_context_get_typed mem cs name)"

fun cxpr_context_get_param :: "frames \<Rightarrow> cstring \<Rightarrow> (double option \<times> frames) option" where
  "cxpr_context_get_param [] name = Some (None, [])"
| "cxpr_context_get_param (c # cs) name =
     do { (number, t) \<leftarrow> ht_get (cx_params c) name;
          let c' = c\<lparr>cx_params := t\<rparr>;
          (case number of
             Some d \<Rightarrow> Some (Some d, c' # cs)
           | None \<Rightarrow> do { (r, cs') \<leftarrow> cxpr_context_get_param cs name; Some (r, c' # cs') }) }"

text \<open>A parameter \<open>root.field\<close> with exactly one dot, read from the struct \<open>root\<close>.\<close>

definition dotted_param :: "(nat \<Rightarrow> bool) \<Rightarrow> cxpr_context \<Rightarrow> string \<Rightarrow> cxpr_value option option" where
  "dotted_param mem c name =
     (let root = takeWhile (\<lambda>ch. ch \<noteq> CHR ''.'') name; rest = dropWhile (\<lambda>ch. ch \<noteq> CHR ''.'') name in
      if rest \<noteq> [] \<and> CHR ''.'' \<notin> set (tl rest) \<and> root \<noteq> [] \<and> length root < 256
      then (case cxpr_context_lookup_struct_map (cx_structs c) root of
              None \<Rightarrow> None
            | Some None \<Rightarrow> Some None
            | Some (Some s) \<Rightarrow> Some (map_option (cxpr_value_clone mem) (map_of s (tl rest))))
      else Some None)"

definition early_param :: "(nat \<Rightarrow> bool) \<Rightarrow> cxpr_context \<Rightarrow> string \<Rightarrow> cxpr_value option option" where
  "early_param mem c name =
     (case cxpr_bool_map_get (cx_bool_params c) name of
        Some b \<Rightarrow> Some (Some (cxpr_bool b))
      | None \<Rightarrow>
     (case cxpr_int64_map_get (cx_int64_params c) name of
        Some i \<Rightarrow> Some (Some (cxpr_int64 i))
      | None \<Rightarrow>
     (case cxpr_string_map_get (cx_string_params c) name of
        Some s \<Rightarrow> Some (Some (cxpr_string (Some s)))
      | None \<Rightarrow>
     (case cxpr_context_lookup_array_map (cx_array_params c) name of
        None \<Rightarrow> None
      | Some (Some vs) \<Rightarrow> Some (Some (cxpr_array (cxpr_array_value_new mem vs)))
      | Some None \<Rightarrow>
     (case cxpr_context_lookup_struct_map (cx_structs c) name of
        None \<Rightarrow> None
      | Some (Some s) \<Rightarrow> Some (Some (cxpr_struct (cxpr_struct_value_new mem s)))
      | Some None \<Rightarrow> dotted_param mem c name)))))"

text \<open>The numbers are those of all contexts up to the root, before the other kinds of the parents.\<close>

fun cxpr_context_get_param_typed ::
  "(nat \<Rightarrow> bool) \<Rightarrow> frames \<Rightarrow> cstring \<Rightarrow> (cxpr_value option \<times> frames) option" where
  "cxpr_context_get_param_typed mem [] name = Some (None, [])"
| "cxpr_context_get_param_typed mem (c # cs) name =
     do { early \<leftarrow> early_param mem c (cs_text name);
          (case early of
             Some v \<Rightarrow> Some (Some v, c # cs)
           | None \<Rightarrow>
               (case cxpr_context_get_param (c # cs) name of
                  None \<Rightarrow> None
                | Some (Some d, fs) \<Rightarrow> Some (Some (cxpr_num d), fs)
                | Some (None, []) \<Rightarrow> Some (None, [])
                | Some (None, c' # cs') \<Rightarrow>
                    do { (r, cs'') \<leftarrow> cxpr_context_get_param_typed mem cs name; Some (r, c' # cs'') })) }"

definition cxpr_context_get_field ::
  "(nat \<Rightarrow> bool) \<Rightarrow> frames \<Rightarrow> cstring \<Rightarrow> string \<Rightarrow> (cxpr_value option \<times> frames) option" where
  "cxpr_context_get_field mem cs name field =
     (case cxpr_context_get_struct cs (cs_text name) of
        None \<Rightarrow> None
      | Some (Some s) \<Rightarrow> Some (map_option (cxpr_value_clone mem) (map_of s field), cs)
      | Some None \<Rightarrow>
          do { (root, cs') \<leftarrow> cxpr_context_get_typed mem cs name;
               Some (case root of
                       Some (cxpr_struct (Some s)) \<Rightarrow> map_option (cxpr_value_clone mem) (map_of s field)
                     | _ \<Rightarrow> None, cs') })"

text \<open>\<open>key_addr\<close> is the address of the local buffer of 256 bytes the keys are printed into.\<close>

fun set_field_numbers ::
  "(nat \<Rightarrow> bool) \<Rightarrow> nat \<Rightarrow> string \<Rightarrow> cxpr_context \<Rightarrow> (nat \<times> string \<times> double) list \<Rightarrow> cxpr_context option" where
  "set_field_numbers mem key_addr prefix c [] = Some c"
| "set_field_numbers mem key_addr prefix c ((new_base, field, v) # fs) =
     do { c1 \<leftarrow> cxpr_context_set mem new_base c
                 \<lparr>cs_addr = key_addr, cs_text = take 255 (prefix @ CHR ''.'' # field)\<rparr> v;
          set_field_numbers mem key_addr prefix c1 fs }"

definition cxpr_context_set_fields ::
  "(nat \<Rightarrow> bool) \<Rightarrow> nat \<Rightarrow> cxpr_context \<Rightarrow> string \<Rightarrow> (nat \<times> string \<times> double) list \<Rightarrow> cxpr_context option" where
  "cxpr_context_set_fields mem key_addr c prefix fs =
     do { c1 \<leftarrow> set_field_numbers mem key_addr prefix c fs;
          (if \<not> mem (length fs * sizeof_value) then Some c1
           else (case cxpr_struct_value_new mem (map (\<lambda>(_, field, v). (field, cxpr_num v)) fs) of
                   None \<Rightarrow> Some c1
                 | Some s \<Rightarrow> cxpr_context_set_struct mem c1 prefix (Some s))) }"

section \<open>Life cycle (lifecycle.c)\<close>

abbreviation sizeof_context :: nat where "sizeof_context \<equiv> 8552"

text \<open>A table over a slot array at address \<open>base\<close>, its caches zeroed.\<close>

definition fresh_table :: "cxpr_hashmap \<Rightarrow> nat \<Rightarrow> ulong \<Rightarrow> hashed_table" where
  "fresh_table m base version =
     \<lparr>ht_map = m, ht_base = base, ht_cache = cxpr_context_clear_entry_cache,
      ht_ptr_cache = cxpr_context_clear_entry_cache, ht_version = version\<rparr>"

text \<open>\<open>vbase\<close> and \<open>pbase\<close> are the addresses of the two slot arrays.\<close>

definition cxpr_context_new :: "(nat \<Rightarrow> bool) \<Rightarrow> nat \<Rightarrow> nat \<Rightarrow> cxpr_context option" where
  "cxpr_context_new mem vbase pbase =
     (if \<not> mem sizeof_context then None
      else Some \<lparr>cx_variables = fresh_table (cxpr_hashmap_init mem) vbase 1,
                 cx_params = fresh_table (cxpr_hashmap_init mem) pbase 1,
                 cx_bools = small_init, cx_bool_params = small_init,
                 cx_int64s = small_init, cx_int64_params = small_init,
                 cx_strings = small_init, cx_string_params = small_init,
                 cx_structs = cxpr_struct_map_init, cx_cached_structs = cxpr_struct_map_init,
                 cx_arrays = cxpr_array_map_init, cx_array_params = cxpr_array_map_init,
                 cx_memo_count = 0, cx_memo_depth = 0, cx_memo_allocated = False,
                 cx_expression_scope = None\<rparr>)"

text \<open>The free list of empty overlays of a thread, with its counter.\<close>

record overlay_cache =
  cxpr_overlay_context_cache :: "cxpr_context list"
  cxpr_overlay_context_cache_count :: nat

definition CXPR_OVERLAY_CONTEXT_CACHE_MAX :: nat where
  "CXPR_OVERLAY_CONTEXT_CACHE_MAX = 64"

text \<open>The parent pointer is the position of the context in the list of frames, so a reset leaves it out.\<close>

definition cxpr_context_reset_empty_overlay :: "cxpr_context \<Rightarrow> cxpr_context" where
  "cxpr_context_reset_empty_overlay c =
     c\<lparr>cx_memo_count := 0, cx_memo_depth := 0,
       cx_variables := (cx_variables c)\<lparr>ht_version := 1\<rparr>, cx_params := (cx_params c)\<lparr>ht_version := 1\<rparr>,
       cx_expression_scope := None\<rparr>"

text \<open>A small map or named map has a NULL entry array where its capacity is 0.\<close>

definition cxpr_context_can_cache_empty_overlay :: "bool \<Rightarrow> cxpr_context \<Rightarrow> bool" where
  "cxpr_context_can_cache_empty_overlay has_parent c \<longleftrightarrow>
     has_parent \<and>
     ht_version (cx_variables c) = 1 \<and> ht_version (cx_params c) = 1 \<and>
     count (ht_map (cx_variables c)) = 0 \<and> count (ht_map (cx_params c)) = 0 \<and>
     sm_entries (cx_bools c) = [] \<and> sm_entries (cx_bool_params c) = [] \<and>
     sm_capacity (cx_bools c) = 0 \<and> sm_capacity (cx_bool_params c) = 0 \<and>
     sm_capacity (cx_int64s c) = 0 \<and> sm_capacity (cx_int64_params c) = 0 \<and>
     sm_entries (cx_strings c) = [] \<and> sm_entries (cx_string_params c) = [] \<and>
     sm_capacity (cx_strings c) = 0 \<and> sm_capacity (cx_string_params c) = 0 \<and>
     nm_count (cx_structs c) = 0 \<and> nm_count (cx_cached_structs c) = 0 \<and>
     nm_entries (cx_structs c) = [] \<and> nm_entries (cx_cached_structs c) = [] \<and>
     nm_count (cx_arrays c) = 0 \<and> nm_count (cx_array_params c) = 0 \<and>
     nm_entries (cx_arrays c) = [] \<and> nm_entries (cx_array_params c) = [] \<and>
     cx_memo_count c = 0 \<and> cx_memo_depth c = 0 \<and> \<not> cx_memo_allocated c \<and>
     cx_expression_scope c = None"

definition cxpr_context_overlay_new ::
  "(nat \<Rightarrow> bool) \<Rightarrow> nat \<Rightarrow> nat \<Rightarrow> overlay_cache \<Rightarrow> cxpr_context option \<times> overlay_cache" where
  "cxpr_context_overlay_new mem vbase pbase cache =
     (case cxpr_overlay_context_cache cache of
        c # cs \<Rightarrow> (Some (cxpr_context_reset_empty_overlay c),
                   \<lparr>cxpr_overlay_context_cache = cs,
                    cxpr_overlay_context_cache_count = cxpr_overlay_context_cache_count cache - 1\<rparr>)
      | [] \<Rightarrow> (cxpr_context_new mem vbase pbase, cache))"

definition cxpr_context_free :: "bool \<Rightarrow> cxpr_context \<Rightarrow> overlay_cache \<Rightarrow> overlay_cache" where
  "cxpr_context_free has_parent c cache =
     (if cxpr_context_can_cache_empty_overlay has_parent c \<and>
         cxpr_overlay_context_cache_count cache < CXPR_OVERLAY_CONTEXT_CACHE_MAX
      then \<lparr>cxpr_overlay_context_cache =
              cxpr_context_reset_empty_overlay c # cxpr_overlay_context_cache cache,
            cxpr_overlay_context_cache_count = cxpr_overlay_context_cache_count cache + 1\<rparr>
      else cache)"

definition cxpr_thread_cleanup :: "overlay_cache \<Rightarrow> overlay_cache" where
  "cxpr_thread_cleanup cache = \<lparr>cxpr_overlay_context_cache = [], cxpr_overlay_context_cache_count = 0\<rparr>"

definition cxpr_context_set_expression_scope ::
  "cxpr_context \<Rightarrow> (string \<Rightarrow> cxpr_value option) option \<Rightarrow> cxpr_context" where
  "cxpr_context_set_expression_scope c evaluator = c\<lparr>cx_expression_scope := evaluator\<rparr>"

definition cxpr_context_clear_expression_scope :: "cxpr_context \<Rightarrow> cxpr_context" where
  "cxpr_context_clear_expression_scope c = c\<lparr>cx_expression_scope := None\<rparr>"

text \<open>The copy of a small map; \<open>None\<close> where an allocation fails.\<close>

fun clone_pairs :: "(nat \<Rightarrow> bool) \<Rightarrow> ('v \<Rightarrow> 'v option) \<Rightarrow> (string \<times> 'v) list \<Rightarrow> (string \<times> 'v) list option" where
  "clone_pairs mem copy [] = Some []"
| "clone_pairs mem copy ((name, v) # ps) =
     do { n \<leftarrow> cxpr_strdup mem name; w \<leftarrow> copy v; qs \<leftarrow> clone_pairs mem copy ps; Some ((n, w) # qs) }"

definition small_clone :: "(nat \<Rightarrow> bool) \<Rightarrow> ('v \<Rightarrow> 'v option) \<Rightarrow> 'v small_map \<Rightarrow> 'v small_map option" where
  "small_clone mem copy m =
     (if sm_entries m = [] then Some small_init
      else if \<not> mem (length (sm_entries m) * 16) then None
      else map_option (\<lambda>ps. \<lparr>sm_entries = ps, sm_capacity = length (sm_entries m)\<rparr>)
             (clone_pairs mem copy (sm_entries m)))"

text \<open>A copy that must succeed before the next is tried; the inner \<open>None\<close> is the NULL result.\<close>

definition or_fail :: "'m option option \<Rightarrow> ('m \<Rightarrow> 'c option option) \<Rightarrow> 'c option option" where
  "or_fail r f = (case r of None \<Rightarrow> None | Some None \<Rightarrow> Some None | Some (Some m) \<Rightarrow> f m)"

definition checked :: "('m \<times> bool) option \<Rightarrow> 'm option option" where
  "checked r = map_option (\<lambda>(m, ok). if ok then Some m else None) r"

text \<open>The parts of a clone whose copy fails without an endless loop.\<close>

definition clone_small_maps :: "(nat \<Rightarrow> bool) \<Rightarrow> cxpr_context \<Rightarrow> cxpr_context \<Rightarrow> cxpr_context option" where
  "clone_small_maps mem c clone =
     do { b \<leftarrow> small_clone mem Some (cx_bools c);
          bp \<leftarrow> small_clone mem Some (cx_bool_params c);
          i \<leftarrow> small_clone mem Some (cx_int64s c);
          ip \<leftarrow> small_clone mem Some (cx_int64_params c);
          s \<leftarrow> small_clone mem (cxpr_strdup mem) (cx_strings c);
          sp \<leftarrow> small_clone mem (cxpr_strdup mem) (cx_string_params c);
          Some (clone\<lparr>cx_bools := b, cx_bool_params := bp, cx_int64s := i, cx_int64_params := ip,
                      cx_strings := s, cx_string_params := sp\<rparr>) }"

definition cxpr_context_clone ::
  "(nat \<Rightarrow> bool) \<Rightarrow> nat \<Rightarrow> nat \<Rightarrow> cxpr_context \<Rightarrow> cxpr_context option option" where
  "cxpr_context_clone mem vbase pbase c =
     (if \<not> mem sizeof_context then Some None
      else or_fail (Some (cxpr_hashmap_clone mem (ht_map (cx_variables c)))) (\<lambda>var_clone.
           or_fail (Some (cxpr_hashmap_clone mem (ht_map (cx_params c)))) (\<lambda>param_clone.
           or_fail (checked (cxpr_struct_map_clone mem (cx_structs c))) (\<lambda>structs.
           or_fail (checked (cxpr_struct_map_clone mem (cx_cached_structs c))) (\<lambda>cached_structs.
           or_fail (checked (cxpr_array_map_clone mem (cx_arrays c))) (\<lambda>arrays.
           or_fail (checked (cxpr_array_map_clone mem (cx_array_params c))) (\<lambda>array_params.
             Some (clone_small_maps mem c
               \<lparr>cx_variables = fresh_table var_clone vbase (ht_version (cx_variables c)),
                cx_params = fresh_table param_clone pbase (ht_version (cx_params c)),
                cx_bools = small_init, cx_bool_params = small_init,
                cx_int64s = small_init, cx_int64_params = small_init,
                cx_strings = small_init, cx_string_params = small_init,
                cx_structs = structs, cx_cached_structs = cached_structs,
                cx_arrays = arrays, cx_array_params = array_params,
                cx_memo_count = 0, cx_memo_depth = 0, cx_memo_allocated = False,
                cx_expression_scope = cx_expression_scope c\<rparr>))))))))"

definition clear_table :: "hashed_table \<Rightarrow> hashed_table" where
  "clear_table t =
     \<lparr>ht_map = cxpr_hashmap_clear (ht_map t), ht_base = ht_base t, ht_cache = cxpr_context_clear_entry_cache,
      ht_ptr_cache = cxpr_context_clear_entry_cache, ht_version = ht_version t + 1\<rparr>"

definition small_clear :: "'v small_map \<Rightarrow> 'v small_map" where
  "small_clear m = m\<lparr>sm_entries := []\<rparr>"

definition cxpr_context_clear :: "cxpr_context \<Rightarrow> cxpr_context" where
  "cxpr_context_clear c =
     c\<lparr>cx_variables := clear_table (cx_variables c), cx_params := clear_table (cx_params c),
       cx_bools := small_clear (cx_bools c), cx_bool_params := small_clear (cx_bool_params c),
       cx_int64s := small_clear (cx_int64s c), cx_int64_params := small_clear (cx_int64_params c),
       cx_strings := small_clear (cx_strings c), cx_string_params := small_clear (cx_string_params c),
       cx_structs := cxpr_struct_map_clear (cx_structs c),
       cx_cached_structs := cxpr_struct_map_clear (cx_cached_structs c),
       cx_arrays := cxpr_array_map_clear (cx_arrays c),
       cx_array_params := cxpr_array_map_clear (cx_array_params c),
       cx_memo_count := 0, cx_memo_depth := 0\<rparr>"

definition cxpr_context_clear_cached_structs :: "cxpr_context \<Rightarrow> cxpr_context" where
  "cxpr_context_clear_cached_structs c =
     c\<lparr>cx_cached_structs := cxpr_struct_map_clear (cx_cached_structs c), cx_memo_count := 0, cx_memo_depth := 0\<rparr>"

section \<open>Bound slots (slot.c)\<close>

text \<open>\<open>_ptr\<close> as the index of the entry it points into, \<open>None\<close> the NULL pointer.\<close>

record cxpr_context_slot =
  sl_ptr :: "nat option"
  sl_base :: nat

definition null_slot :: cxpr_context_slot where
  "null_slot = \<lparr>sl_ptr = None, sl_base = 0\<rparr>"

definition cxpr_context_slot_bind :: "cxpr_context \<Rightarrow> string \<Rightarrow> (cxpr_context_slot \<times> bool) option" where
  "cxpr_context_slot_bind c name =
     map_option (\<lambda>entry. case entry of
                           None \<Rightarrow> (null_slot, False)
                         | Some s \<Rightarrow> (\<lparr>sl_ptr = Some s, sl_base = ht_base (cx_variables c)\<rparr>, True))
       (cxpr_hashmap_find_prehashed_slot (ht_map (cx_variables c)) name (cxpr_hash_string name))"

text \<open>The binding loop, over the names still to bind; one failure clears all slots.\<close>

fun bind_names :: "cxpr_context \<Rightarrow> string list \<Rightarrow> (cxpr_context_slot list option) option" where
  "bind_names c [] = Some (Some [])"
| "bind_names c (name # ns) =
     do { (slot, ok) \<leftarrow> cxpr_context_slot_bind c name;
          if ok then map_option (map_option (\<lambda>ss. slot # ss)) (bind_names c ns) else Some None }"

definition cxpr_context_slots_bind :: "cxpr_context \<Rightarrow> string list \<Rightarrow> (cxpr_context_slot list \<times> bool) option" where
  "cxpr_context_slots_bind c ns =
     map_option (\<lambda>r. case r of None \<Rightarrow> (replicate (length ns) null_slot, False) | Some ss \<Rightarrow> (ss, True))
       (bind_names c ns)"

definition cxpr_context_slot_valid :: "cxpr_context \<Rightarrow> cxpr_context_slot \<Rightarrow> bool" where
  "cxpr_context_slot_valid c slot \<longleftrightarrow> sl_ptr slot \<noteq> None \<and> sl_base slot = ht_base (cx_variables c)"

text \<open>The write goes to the array the slot was bound in; \<open>None\<close> is a write to NULL or to a freed array.\<close>

definition cxpr_context_slot_set :: "cxpr_context \<Rightarrow> cxpr_context_slot \<Rightarrow> double \<Rightarrow> cxpr_context option" where
  "cxpr_context_slot_set c slot v =
     (case sl_ptr slot of
        Some s \<Rightarrow> if sl_base slot = ht_base (cx_variables c)
                  then Some (c\<lparr>cx_variables := ht_write (cx_variables c) s v\<rparr>) else None
      | None \<Rightarrow> None)"

fun cxpr_context_slots_set :: "cxpr_context \<Rightarrow> (cxpr_context_slot \<times> double) list \<Rightarrow> cxpr_context option" where
  "cxpr_context_slots_set c [] = Some c"
| "cxpr_context_slots_set c ((slot, v) # ps) =
     do { c1 \<leftarrow> cxpr_context_slot_set c slot v; cxpr_context_slots_set c1 ps }"

definition cxpr_context_slot_get :: "cxpr_context \<Rightarrow> cxpr_context_slot \<Rightarrow> double option" where
  "cxpr_context_slot_get c slot =
     (case sl_ptr slot of
        Some s \<Rightarrow> if sl_base slot = ht_base (cx_variables c)
                  then Some (val (entries (ht_map (cx_variables c)) ! s)) else None
      | None \<Rightarrow> None)"

section \<open>The look-back offset (values.c)\<close>

definition CXPR_CONTEXT_HISTORY_OFFSET_KEY :: string where
  "CXPR_CONTEXT_HISTORY_OFFSET_KEY = ''__cxpr_engine_lookback_offset''"

text \<open>The key is a string constant of the library at address \<open>key_addr\<close>.\<close>

definition cxpr_context_set_history_offset ::
  "(nat \<Rightarrow> bool) \<Rightarrow> nat \<Rightarrow> nat \<Rightarrow> cxpr_context \<Rightarrow> nat \<Rightarrow> cxpr_context option" where
  "cxpr_context_set_history_offset mem key_addr new_base c offset =
     (if dbl_lt (dbl_of_int 9007199254740992) (dbl_of_int (int offset)) then Some c
      else cxpr_context_set mem new_base c
             \<lparr>cs_addr = key_addr, cs_text = CXPR_CONTEXT_HISTORY_OFFSET_KEY\<rparr> (dbl_of_int (int offset)))"

definition cxpr_context_history_offset ::
  "(nat \<Rightarrow> bool) \<Rightarrow> nat \<Rightarrow> frames \<Rightarrow> (nat option \<times> frames) option" where
  "cxpr_context_history_offset mem key_addr cs =
     map_option (\<lambda>((d, found), cs').
          (if \<not> found \<or> dbl_lt d dbl_zero \<or> \<not> isfinite d \<or> \<not> dbl_eq (dbl_floor d) d \<or>
              dbl_lt (dbl_of_int 18446744073709551615) d then None
           else map_option nat (dbl_trunc_int d), cs'))
       (cxpr_context_get mem True cs \<lparr>cs_addr = key_addr, cs_text = CXPR_CONTEXT_HISTORY_OFFSET_KEY\<rparr>)"

end
