(* ===== verification/Cxpr_Bindings.thy ===== *)
theory Cxpr_Bindings
  imports Cxpr_Context
begin

text \<open>
  Theorems on the context: the lookup caches agree with their table under the invariant \<open>ht_inv\<close>
  (\<open>ht_get_ok\<close>, \<open>set_hashed_ok\<close>, and \<open>run_table_ok\<close> for any sequence of writes and reads); what a context
  binds (\<open>cx_binding\<close>) and that the typed lookups and the number parameters resolve to the innermost
  binding, as two instances of the interface \<open>scope_chain\<close>; that the scalar setters bind exactly one
  name; that the pool of empty overlays hands out transparent contexts. The section on hidden values
  shows where the code departs from this.
\<close>

section \<open>The caches agree with the table\<close>

text \<open>A bucket that carries the table's address and a key must point to a slot of the table: in the
  hash cache to the slot of that key, in the pointer cache to any (the key is compared there).\<close>

definition ht_inv :: "hashed_table \<Rightarrow> bool" where
  "ht_inv t \<longleftrightarrow> hm_inv (ht_map t) \<and>
     length (ht_cache t) = CXPR_CONTEXT_ENTRY_CACHE_SIZE \<and>
     length (ht_ptr_cache t) = CXPR_CONTEXT_ENTRY_CACHE_SIZE \<and>
     (\<forall>b \<in> set (ht_cache t). \<forall>k. ec_entries_base b = ht_base t \<and> ec_key_ref b = Some k \<longrightarrow>
        ec_slot b < capacity (ht_map t) \<and> key (entries (ht_map t) ! ec_slot b) = Some k) \<and>
     (\<forall>b \<in> set (ht_ptr_cache t). ec_entries_base b = ht_base t \<and> ec_key_ref b \<noteq> None \<longrightarrow>
        ec_slot b < capacity (ht_map t))"

definition ht_abs :: "hashed_table \<Rightarrow> string \<Rightarrow> double option" where
  "ht_abs t = hm_abs (ht_map t)"

text \<open>The addresses the table and its buckets carry.\<close>

definition ht_bases :: "hashed_table \<Rightarrow> nat set" where
  "ht_bases t = insert (ht_base t) (ec_entries_base ` set (ht_cache t) \<union> ec_entries_base ` set (ht_ptr_cache t))"

lemma bucket_less [simp]: "cxpr_context_cache_bucket h < CXPR_CONTEXT_ENTRY_CACHE_SIZE"
  "cxpr_context_pointer_cache_bucket n < CXPR_CONTEXT_ENTRY_CACHE_SIZE"
  by (simp_all add: cxpr_context_cache_bucket_def cxpr_context_pointer_cache_bucket_def CXPR_CONTEXT_ENTRY_CACHE_SIZE_def)

lemma empty_bucket_sel [simp]: "ec_key_ref empty_bucket = None" "ec_entries_base empty_bucket = 0"
  by (simp_all add: empty_bucket_def)

lemma ht_inv_wf: "ht_inv t \<Longrightarrow> hm_wf (ht_map t)"
  by (simp add: ht_inv_def hm_inv_def)

lemma slot_value:
  "hm_wf m \<Longrightarrow> s < capacity m \<Longrightarrow> key (entries m ! s) = Some k \<Longrightarrow> hm_abs m k = Some (val (entries m ! s))"
  by (rule es_abs_Some) (auto simp: hm_wf_def)

lemma slot_unique:
  "hm_wf m \<Longrightarrow> s < capacity m \<Longrightarrow> key (entries m ! s) = Some k \<Longrightarrow> r < capacity m \<Longrightarrow> key (entries m ! r) = Some k \<Longrightarrow> s = r"
  by (metis find_slot_found option.inject)

text \<open>Replacing one bucket keeps the invariant where the new bucket has it.\<close>

lemma ht_inv_cache_upd:
  assumes "ht_inv t" and "\<And>k. ec_entries_base b = ht_base t \<Longrightarrow> ec_key_ref b = Some k \<Longrightarrow>
      ec_slot b < capacity (ht_map t) \<and> key (entries (ht_map t) ! ec_slot b) = Some k"
  shows "ht_inv (t\<lparr>ht_cache := (ht_cache t)[i := b]\<rparr>)"
  using assms set_update_subset_insert [of "ht_cache t" i b] by (fastforce simp: ht_inv_def)

lemma ht_inv_ptr_upd:
  assumes "ht_inv t" and "ec_slot b < capacity (ht_map t)"
  shows "ht_inv (t\<lparr>ht_ptr_cache := (ht_ptr_cache t)[i := b]\<rparr>)"
  using assms set_update_subset_insert [of "ht_ptr_cache t" i b] by (fastforce simp: ht_inv_def)

lemma pointer_lookup_ok:
  assumes "ht_inv t" "cxpr_context_lookup_pointer_cached_entry t name = Some s"
  shows "s < capacity (ht_map t)" "key (entries (ht_map t) ! s) = Some (cs_text name)"
proof -
  let ?b = "ht_ptr_cache t ! cxpr_context_pointer_cache_bucket name"
  have "?b \<in> set (ht_ptr_cache t)" using assms(1) by (simp add: ht_inv_def)
  then show "s < capacity (ht_map t)" "key (entries (ht_map t) ! s) = Some (cs_text name)"
    using assms by (auto simp: ht_inv_def cxpr_context_lookup_pointer_cached_entry_def Let_def split: if_splits)
qed

text \<open>The slot of a key, \<open>None\<close> where it is not stored: what both caches have to give.\<close>

lemma find_slot_ok:
  assumes "hm_wf m"
  obtains (present) s where "cxpr_hashmap_find_prehashed_slot m k (cxpr_hash_string k) = Some (Some s)"
      "s < capacity m" "key (entries m ! s) = Some k"
  | (absent) "cxpr_hashmap_find_prehashed_slot m k (cxpr_hash_string k) = Some None" "Some k \<notin> set (keys (entries m))"
  using find_slot_found [OF assms] find_slot_absent [OF assms] key_slot [OF assms] by metis

lemma ht_bases_cache_upd:
  "ht_bases (t\<lparr>ht_cache := (ht_cache t)[i := b]\<rparr>) \<subseteq> insert (ec_entries_base b) (ht_bases t)"
  using set_update_subset_insert [of "ht_cache t" i b] by (auto simp: ht_bases_def)

lemma ht_bases_ptr_upd:
  "ht_bases (t\<lparr>ht_ptr_cache := (ht_ptr_cache t)[i := b]\<rparr>) \<subseteq> insert (ec_entries_base b) (ht_bases t)"
  using set_update_subset_insert [of "ht_ptr_cache t" i b] by (auto simp: ht_bases_def)

lemma own_base [simp]: "ht_base t \<in> ht_bases t"
  by (simp add: ht_bases_def)

lemma cached_lookup_ok:
  assumes inv: "ht_inv t"
  obtains (hit) s t' where
      "cxpr_context_lookup_cached_entry t k (cxpr_hash_string k) = Some (Some s, t')" "ht_inv t'"
      "ht_map t' = ht_map t" "ht_base t' = ht_base t" "ht_bases t' \<subseteq> insert 0 (ht_bases t)"
      "s < capacity (ht_map t)" "key (entries (ht_map t) ! s) = Some k"
  | (miss) t' where
      "cxpr_context_lookup_cached_entry t k (cxpr_hash_string k) = Some (None, t')" "ht_inv t'"
      "ht_map t' = ht_map t" "ht_base t' = ht_base t" "ht_bases t' \<subseteq> insert 0 (ht_bases t)"
      "Some k \<notin> set (keys (entries (ht_map t)))"
proof -
  let ?i = "cxpr_context_cache_bucket (cxpr_hash_string k)"
  let ?b = "ht_cache t ! ?i"
  have b: "?b \<in> set (ht_cache t)" using inv by (simp add: ht_inv_def)
  show thesis
  proof (cases "ec_entries_base ?b = ht_base t \<and> ec_hash ?b = cxpr_hash_string k \<and> ec_key_ref ?b = Some k")
    case True
    then have "ec_slot ?b < capacity (ht_map t)" "key (entries (ht_map t) ! ec_slot ?b) = Some k"
      using inv b by (auto simp: ht_inv_def)
    with True inv show thesis
      by (intro hit [of "ec_slot ?b" t]) (auto simp: cxpr_context_lookup_cached_entry_def)
  next
    case False
    show thesis
    proof (rule find_slot_ok [OF ht_inv_wf [OF inv], of k])
      fix s
      assume s: "cxpr_hashmap_find_prehashed_slot (ht_map t) k (cxpr_hash_string k) = Some (Some s)"
        "s < capacity (ht_map t)" "key (entries (ht_map t) ! s) = Some k"
      let ?n = "\<lparr>ec_key_ref = Some k, ec_hash = cxpr_hash_string k, ec_slot = s, ec_entries_base = ht_base t\<rparr>"
      have "cxpr_context_lookup_cached_entry t k (cxpr_hash_string k) = Some (Some s, t\<lparr>ht_cache := (ht_cache t)[?i := ?n]\<rparr>)"
        unfolding cxpr_context_lookup_cached_entry_def Let_def if_not_P [OF False] by (simp add: s)
      moreover have "ht_inv (t\<lparr>ht_cache := (ht_cache t)[?i := ?n]\<rparr>)"
        using inv s by (intro ht_inv_cache_upd) auto
      moreover have "ht_bases (t\<lparr>ht_cache := (ht_cache t)[?i := ?n]\<rparr>) \<subseteq> insert 0 (ht_bases t)"
        using ht_bases_cache_upd [of t ?i ?n] by (auto simp: insert_absorb)
      ultimately show thesis using s by (intro hit [of s "t\<lparr>ht_cache := (ht_cache t)[?i := ?n]\<rparr>"]) simp_all
    next
      assume s: "cxpr_hashmap_find_prehashed_slot (ht_map t) k (cxpr_hash_string k) = Some None"
        "Some k \<notin> set (keys (entries (ht_map t)))"
      have "cxpr_context_lookup_cached_entry t k (cxpr_hash_string k) = Some (None, t\<lparr>ht_cache := (ht_cache t)[?i := empty_bucket]\<rparr>)"
        unfolding cxpr_context_lookup_cached_entry_def Let_def if_not_P [OF False] by (simp add: s)
      moreover have "ht_inv (t\<lparr>ht_cache := (ht_cache t)[?i := empty_bucket]\<rparr>)"
        using inv by (intro ht_inv_cache_upd) auto
      moreover have "ht_bases (t\<lparr>ht_cache := (ht_cache t)[?i := empty_bucket]\<rparr>) \<subseteq> insert 0 (ht_bases t)"
        using ht_bases_cache_upd [of t ?i empty_bucket] by simp
      ultimately show thesis using s by (intro miss [of "t\<lparr>ht_cache := (ht_cache t)[?i := empty_bucket]\<rparr>"]) simp_all
    qed
  qed
qed

lemma refresh_pointer_ok:
  assumes "ht_inv t" "s < capacity (ht_map t)"
  shows "ht_inv (cxpr_context_refresh_pointer_cache t name (Some s))"
    "ht_map (cxpr_context_refresh_pointer_cache t name (Some s)) = ht_map t"
    "ht_base (cxpr_context_refresh_pointer_cache t name (Some s)) = ht_base t"
    "ht_bases (cxpr_context_refresh_pointer_cache t name (Some s)) \<subseteq> ht_bases t"
proof -
  let ?b = "\<lparr>ec_key_ref = Some (cs_addr name), ec_hash = 0, ec_slot = s, ec_entries_base = ht_base t\<rparr>"
  show "ht_bases (cxpr_context_refresh_pointer_cache t name (Some s)) \<subseteq> ht_bases t"
    using ht_bases_ptr_upd [of t "cxpr_context_pointer_cache_bucket name" ?b]
    by (auto simp: cxpr_context_refresh_pointer_cache_def)
qed (use assms in \<open>auto simp: cxpr_context_refresh_pointer_cache_def intro!: ht_inv_ptr_upd\<close>)

theorem ht_get_ok:
  assumes "ht_inv t"
  shows "\<exists>t'. ht_get t name = Some (ht_abs t (cs_text name), t') \<and> ht_inv t' \<and> ht_map t' = ht_map t \<and>
    ht_base t' = ht_base t \<and> ht_bases t' \<subseteq> insert 0 (ht_bases t)"
proof (cases "cxpr_context_lookup_pointer_cached_entry t name")
  case (Some s)
  with pointer_lookup_ok [OF assms Some] slot_value [OF ht_inv_wf [OF assms]] assms show ?thesis
    by (auto simp: ht_get_def ht_abs_def)
next
  case None
  show ?thesis
  proof (rule cached_lookup_ok [OF assms, of "cs_text name"])
    fix s t'
    assume h: "cxpr_context_lookup_cached_entry t (cs_text name) (cxpr_hash_string (cs_text name)) = Some (Some s, t')"
      "ht_inv t'" "ht_map t' = ht_map t" "ht_base t' = ht_base t" "ht_bases t' \<subseteq> insert 0 (ht_bases t)"
      "s < capacity (ht_map t)" "key (entries (ht_map t) ! s) = Some (cs_text name)"
    then have "s < capacity (ht_map t')" by simp
    from refresh_pointer_ok [OF h(2) this, of name] h None slot_value [OF ht_inv_wf [OF assms] h(6,7)]
    show ?thesis by (auto simp: ht_get_def ht_abs_def)
  next
    fix t'
    assume "cxpr_context_lookup_cached_entry t (cs_text name) (cxpr_hash_string (cs_text name)) = Some (None, t')"
      "ht_inv t'" "ht_map t' = ht_map t" "ht_base t' = ht_base t" "ht_bases t' \<subseteq> insert 0 (ht_bases t)"
      "Some (cs_text name) \<notin> set (keys (entries (ht_map t)))"
    with None show ?thesis using es_abs_None [of "entries (ht_map t)" "cs_text name"]
      by (auto simp: ht_get_def ht_abs_def)
  qed
qed

section \<open>Writes through the caches\<close>

lemma ht_write_sel [simp]:
  "ht_base (ht_write t s v) = ht_base t" "ht_cache (ht_write t s v) = ht_cache t"
  "ht_ptr_cache (ht_write t s v) = ht_ptr_cache t" "capacity (ht_map (ht_write t s v)) = capacity (ht_map t)"
  "count (ht_map (ht_write t s v)) = count (ht_map t)" "ht_bases (ht_write t s v) = ht_bases t"
  by (simp_all add: ht_write_def ht_bases_def)

lemma ht_write_key [simp]: "key (entries (ht_map (ht_write t s v)) ! i) = key (entries (ht_map t) ! i)"
  by (cases "i = s"; cases "s < length (entries (ht_map t))") (simp_all add: ht_write_def list_update_beyond)

lemma ht_write_ok:
  assumes "ht_inv t" "s < capacity (ht_map t)" "key (entries (ht_map t) ! s) = Some k"
  shows "ht_inv (ht_write t s v)" "ht_abs (ht_write t s v) = (ht_abs t)(k \<mapsto> v)"
  using update_val [OF ht_inv_wf [OF assms(1)] assms(2,3), of v] assms(1)
  by (simp_all add: ht_inv_def hm_inv_def ht_abs_def) (simp_all add: ht_write_def)

lemma probe_free_key: "probe_free es cap fuel h = Free i \<Longrightarrow> key (es ! i) = None"
  by (induction fuel arbitrary: h) (auto split: option.splits)

text \<open>A new key either leaves every other slot as it is, or the array grows.\<close>

lemma set_new_slots:
  assumes wf: "hm_wf m" and new: "Some k \<notin> set (keys (entries m))"
    and set: "cxpr_hashmap_set mem m k v = Some (m', b)" and cap: "capacity m' = capacity m"
  shows "key (entries m ! i) \<noteq> None \<Longrightarrow> entries m' ! i = entries m ! i"
proof -
  assume i: "key (entries m ! i) \<noteq> None"
  have store: "entries m2 ! i = entries m ! i" if "store_new mem m k h v = Some (m2, b2)" for m2 b2 h
  proof -
    from that obtain j e where j: "entries m2 = (entries m)[j := e]" "key (entries m ! j) = None"
      by (auto simp: store_new_def split: probe.splits dest: probe_free_key)
    with i show ?thesis by (metis nth_list_update_neq)
  qed
  show "entries m' ! i = entries m ! i"
  proof (cases "over_load m")
    case False
    with set store find_slot_absent [OF wf new] show ?thesis by (simp add: cxpr_hashmap_set_def)
  next
    case True
    with set find_slot_absent [OF wf new] obtain g b' where g: "cxpr_hashmap_grow mem m = Some (g, b')"
        "store_new mem g k (cxpr_hash_string k) v = Some (m', b)"
      by (auto simp: cxpr_hashmap_set_def Let_def split: option.splits)
    have "capacity m' = capacity g" using g(2) by (auto simp: store_new_def split: probe.splits)
    with g(1) cap wf have "g = m" by (auto simp: cxpr_hashmap_grow_def hm_wf_def Let_def split: if_splits option.splits)
    with g(2) store show ?thesis by blast
  qed
qed

text \<open>The caches after the table took a new key: stale buckets carry the old address.\<close>

lemma new_key_inv:
  assumes inv: "ht_inv t" and m: "hm_inv m" and b: "0 < nb" "nb \<notin> ht_bases t"
    and keep: "\<And>i. capacity m = capacity (ht_map t) \<Longrightarrow> key (entries (ht_map t) ! i) \<noteq> None \<Longrightarrow>
      entries m ! i = entries (ht_map t) ! i"
  shows "ht_inv (t\<lparr>ht_map := m, ht_base := (if capacity m \<noteq> capacity (ht_map t) then nb else ht_base t), ht_version := w\<rparr>)"
proof (cases "capacity m = capacity (ht_map t)")
  case True
  with inv m keep [OF True] show ?thesis by (auto simp: ht_inv_def)
next
  case False
  then have "ec_entries_base e \<noteq> nb" if "e \<in> set (ht_cache t)" for e using that b(2) by (auto simp: ht_bases_def)
  moreover have "ec_entries_base e \<noteq> nb" if "e \<in> set (ht_ptr_cache t)" for e using that b(2) by (auto simp: ht_bases_def)
  ultimately show ?thesis using False inv m by (auto simp: ht_inv_def)
qed

lemma refresh_cache_ok:
  assumes inv: "ht_inv t" and s: "s < capacity (ht_map t)" "key (entries (ht_map t) ! s) = Some k"
  shows "\<exists>t'. cxpr_context_refresh_cache t k (cxpr_hash_string k) = Some t' \<and> ht_inv t' \<and> ht_map t' = ht_map t \<and>
    ht_bases t' \<subseteq> ht_bases t"
proof -
  let ?i = "cxpr_context_cache_bucket (cxpr_hash_string k)"
  let ?n = "\<lparr>ec_key_ref = Some k, ec_hash = cxpr_hash_string k, ec_slot = s, ec_entries_base = ht_base t\<rparr>"
  have "cxpr_context_refresh_cache t k (cxpr_hash_string k) = Some (t\<lparr>ht_cache := (ht_cache t)[?i := ?n]\<rparr>)"
    using find_slot_found [OF ht_inv_wf [OF inv] s] s by (simp add: cxpr_context_refresh_cache_def)
  moreover have "ht_inv (t\<lparr>ht_cache := (ht_cache t)[?i := ?n]\<rparr>)"
    using inv s by (intro ht_inv_cache_upd) auto
  moreover have "ht_bases (t\<lparr>ht_cache := (ht_cache t)[?i := ?n]\<rparr>) \<subseteq> ht_bases t"
    using ht_bases_cache_upd [of t ?i ?n] by (simp add: insert_absorb)
  ultimately show ?thesis by simp
qed

text \<open>The path of a new key: into the hash map, then into both caches.\<close>

lemma set_hashed_new:
  assumes inv: "ht_inv t" and lim: "count (ht_map t) < hm_limit" and mem: "\<forall>n. mem n"
    and nb: "0 < nb" "nb \<notin> ht_bases t"
    and p: "cxpr_context_lookup_pointer_cached_entry t name = None"
    and l: "cxpr_context_lookup_cached_entry t (cs_text name) (cxpr_hash_string (cs_text name)) = Some (None, t1)"
      "ht_inv t1" "ht_map t1 = ht_map t" "ht_base t1 = ht_base t" "ht_bases t1 \<subseteq> insert 0 (ht_bases t)"
      "Some (cs_text name) \<notin> set (keys (entries (ht_map t)))"
  shows "\<exists>t'. cxpr_context_set_hashed mem nb t name (cxpr_hash_string (cs_text name)) v = Some t' \<and> ht_inv t' \<and>
    ht_abs t' = (ht_abs t)(cs_text name \<mapsto> v) \<and> count (ht_map t') = Suc (count (ht_map t)) \<and>
    ht_bases t' \<subseteq> insert 0 (insert nb (ht_bases t))"
proof -
  have nb1: "nb \<notin> ht_bases t1" using l(5) nb by auto
  have inv0: "hm_inv (ht_map t1)" "count (ht_map t1) < hm_limit" using inv l(3) lim by (auto simp: ht_inv_def)
  have new: "Some (cs_text name) \<notin> set (keys (entries (ht_map t1)))" using l(3,6) by simp
  obtain m where m: "cxpr_hashmap_set mem (ht_map t1) (cs_text name) v = Some (m, True)" "hm_inv m"
      "hm_abs m = (hm_abs (ht_map t1))(cs_text name \<mapsto> v)" "count m = Suc (count (ht_map t1))"
    by (rule set_new_ok [where mem = mem and v = v, OF inv0 new]) (use mem in blast)
  define t2 where "t2 = t1\<lparr>ht_map := m,
    ht_base := (if capacity m \<noteq> capacity (ht_map t1) then nb else ht_base t1), ht_version := ht_version t1 + 1\<rparr>"
  have inv2: "ht_inv t2" unfolding t2_def
    by (rule new_key_inv [OF l(2) m(2) nb(1) nb1]) (use set_new_slots [OF ht_inv_wf [OF l(2)] new m(1)] in auto)
  have bases2: "ht_bases t2 \<subseteq> insert 0 (insert nb (ht_bases t))"
    using l(5) by (auto simp: t2_def ht_bases_def)
  have map2: "ht_map t2 = m" by (simp add: t2_def)
  have "Some (cs_text name) \<in> set (keys (entries m))"
    using es_abs_None [of "entries m" "cs_text name"] m(3) by auto
  then obtain s where s: "s < capacity m" "key (entries m ! s) = Some (cs_text name)"
    using key_slot inv2 map2 ht_inv_wf by metis
  obtain t3 where t3: "cxpr_context_refresh_cache t2 (cs_text name) (cxpr_hash_string (cs_text name)) = Some t3"
      "ht_inv t3" "ht_map t3 = m" "ht_bases t3 \<subseteq> ht_bases t2"
    using refresh_cache_ok [OF inv2, of s "cs_text name"] s map2 by auto
  have "cxpr_hashmap_find_prehashed_slot (ht_map t3) (cs_text name) (cxpr_hash_string (cs_text name)) = Some (Some s)"
    using find_slot_found [OF ht_inv_wf [OF t3(2)]] s t3(3) by simp
  then have "cxpr_context_set_hashed mem nb t name (cxpr_hash_string (cs_text name)) v =
      Some (cxpr_context_refresh_pointer_cache t3 name (Some s))"
    using p l(1) m(1) t3(1) by (simp add: cxpr_context_set_hashed_def set_prehashed_eq t2_def)
  moreover note r = refresh_pointer_ok [OF t3(2), of s name]
  ultimately show ?thesis using s t3 bases2 m l(3) by (auto simp: ht_abs_def)
qed

lemma set_hashed_ok:
  assumes inv: "ht_inv t" and lim: "count (ht_map t) < hm_limit" and mem: "\<forall>n. mem n"
    and nb: "0 < nb" "nb \<notin> ht_bases t"
  shows "\<exists>t'. cxpr_context_set_hashed mem nb t name (cxpr_hash_string (cs_text name)) v = Some t' \<and> ht_inv t' \<and>
    ht_abs t' = (ht_abs t)(cs_text name \<mapsto> v) \<and> count (ht_map t') \<le> Suc (count (ht_map t)) \<and>
    ht_bases t' \<subseteq> insert 0 (insert nb (ht_bases t))"
proof (cases "cxpr_context_lookup_pointer_cached_entry t name")
  case (Some s)
  with pointer_lookup_ok [OF inv Some] ht_write_ok [OF inv] show ?thesis
    by (auto simp: cxpr_context_set_hashed_def)
next
  case None
  show ?thesis
  proof (rule cached_lookup_ok [OF inv, of "cs_text name"])
    fix s t1
    assume h: "cxpr_context_lookup_cached_entry t (cs_text name) (cxpr_hash_string (cs_text name)) = Some (Some s, t1)"
      "ht_inv t1" "ht_map t1 = ht_map t" "ht_base t1 = ht_base t" "ht_bases t1 \<subseteq> insert 0 (ht_bases t)"
      "s < capacity (ht_map t)" "key (entries (ht_map t) ! s) = Some (cs_text name)"
    then have s: "s < capacity (ht_map t1)" by simp
    note r = refresh_pointer_ok [OF h(2) s, of name]
    show ?thesis using ht_write_ok [OF r(1), of s "cs_text name" v] r h None
      by (auto simp: cxpr_context_set_hashed_def ht_abs_def)
  next
    fix t1
    assume "cxpr_context_lookup_cached_entry t (cs_text name) (cxpr_hash_string (cs_text name)) = Some (None, t1)"
      "ht_inv t1" "ht_map t1 = ht_map t" "ht_base t1 = ht_base t" "ht_bases t1 \<subseteq> insert 0 (ht_bases t)"
      "Some (cs_text name) \<notin> set (keys (entries (ht_map t)))"
    from set_hashed_new [OF inv lim mem nb None this, of v] show ?thesis by (metis le_refl)
  qed
qed

section \<open>Any sequence of writes and reads of one table\<close>

datatype table_command = Write nat cstring double | Read cstring

text \<open>The results of the reads, and the table at the end.\<close>

fun run_table :: "(nat \<Rightarrow> bool) \<Rightarrow> hashed_table \<Rightarrow> table_command list \<Rightarrow> (double option list \<times> hashed_table) option" where
  "run_table mem t [] = Some ([], t)"
| "run_table mem t (Write new_base name v # cs) =
     do { t' \<leftarrow> cxpr_context_set_hashed mem new_base t name (cxpr_hash_string (cs_text name)) v;
          run_table mem t' cs }"
| "run_table mem t (Read name # cs) =
     do { (r, t') \<leftarrow> ht_get t name; (rs, t'') \<leftarrow> run_table mem t' cs; Some (r # rs, t'') }"

fun run_reference :: "(string \<Rightarrow> double option) \<Rightarrow> table_command list \<Rightarrow> double option list" where
  "run_reference f [] = []"
| "run_reference f (Write new_base name v # cs) = run_reference (f(cs_text name \<mapsto> v)) cs"
| "run_reference f (Read name # cs) = f (cs_text name) # run_reference f cs"

fun new_bases :: "table_command list \<Rightarrow> nat list" where
  "new_bases [] = []"
| "new_bases (Write new_base name v # cs) = new_base # new_bases cs"
| "new_bases (Read name # cs) = new_bases cs"

lemma run_table_ok:
  assumes "ht_inv t" "count (ht_map t) + length cs \<le> hm_limit" "\<forall>n. mem n"
    and "distinct (new_bases cs)" "0 \<notin> set (new_bases cs)" "set (new_bases cs) \<inter> ht_bases t = {}"
  shows "\<exists>t'. run_table mem t cs = Some (run_reference (ht_abs t) cs, t') \<and> ht_inv t'"
  using assms
proof (induction mem t cs rule: run_table.induct)
  case (2 mem t nb name v cs)
  have lim: "count (ht_map t) < hm_limit" and nb: "0 < nb" "nb \<notin> ht_bases t" using "2.prems" by auto
  obtain t1 where t1: "cxpr_context_set_hashed mem nb t name (cxpr_hash_string (cs_text name)) v = Some t1" "ht_inv t1"
      "ht_abs t1 = (ht_abs t)(cs_text name \<mapsto> v)" "count (ht_map t1) \<le> Suc (count (ht_map t))"
      "ht_bases t1 \<subseteq> insert 0 (insert nb (ht_bases t))"
    using set_hashed_ok [OF "2.prems"(1) lim "2.prems"(3) nb, of name v] by auto
  have "set (new_bases cs) \<inter> ht_bases t1 = {}" using "2.prems"(4,5,6) t1(5) by auto
  then have "\<exists>t'. run_table mem t1 cs = Some (run_reference (ht_abs t1) cs, t') \<and> ht_inv t'"
    using t1(4) "2.prems" by (intro "2.IH" [OF t1(1,2)]) simp_all
  with t1(1,3) show ?case by auto
next
  case (3 mem t name cs)
  obtain t1 where t1: "ht_get t name = Some (ht_abs t (cs_text name), t1)" "ht_inv t1" "ht_map t1 = ht_map t"
      "ht_bases t1 \<subseteq> insert 0 (ht_bases t)"
    using ht_get_ok [OF "3.prems"(1), of name] by auto
  have "set (new_bases cs) \<inter> ht_bases t1 = {}" using "3.prems"(5,6) t1(4) by auto
  then have "\<exists>t'. run_table mem t1 cs = Some (run_reference (ht_abs t1) cs, t') \<and> ht_inv t'"
    using t1(3) "3.prems" by (intro "3.IH" [OF t1(1) refl t1(2)]) simp_all
  with t1(1,3) show ?case by (auto simp: ht_abs_def)
qed simp

lemma fresh_table_inv:
  assumes "hm_inv m"
  shows "ht_inv (fresh_table m base w)" "ht_abs (fresh_table m base w) = hm_abs m"
    "ht_bases (fresh_table m base w) \<subseteq> {0, base}"
  using assms
  by (auto simp: ht_inv_def fresh_table_def cxpr_context_clear_entry_cache_def ht_abs_def ht_bases_def)

section \<open>The bindings of a context\<close>

definition sm_inv :: "'v small_map \<Rightarrow> bool" where
  "sm_inv m \<longleftrightarrow> distinct (map fst (sm_entries m)) \<and> length (sm_entries m) \<le> sm_capacity m"

definition cx_inv :: "cxpr_context \<Rightarrow> bool" where
  "cx_inv c \<longleftrightarrow> ht_inv (cx_variables c) \<and> ht_inv (cx_params c) \<and>
     sm_inv (cx_bools c) \<and> sm_inv (cx_bool_params c) \<and> sm_inv (cx_int64s c) \<and> sm_inv (cx_int64_params c) \<and>
     sm_inv (cx_strings c) \<and> sm_inv (cx_string_params c) \<and>
     nm_inv (cx_structs c) \<and> nm_inv (cx_cached_structs c) \<and> nm_inv (cx_arrays c) \<and> nm_inv (cx_array_params c)"

text \<open>What a context itself binds a name to, without caches and parents.\<close>

definition cx_binding :: "(nat \<Rightarrow> bool) \<Rightarrow> cxpr_context \<Rightarrow> string \<Rightarrow> cxpr_value option" where
  "cx_binding mem c k =
     (case Option.bind (cx_expression_scope c) (\<lambda>f. f k) of Some v \<Rightarrow> Some v | None \<Rightarrow>
     (case map_of (sm_entries (cx_bools c)) k of Some b \<Rightarrow> Some (cxpr_bool b) | None \<Rightarrow>
     (case map_of (sm_entries (cx_int64s c)) k of Some i \<Rightarrow> Some (cxpr_int64 i) | None \<Rightarrow>
     (case map_of (sm_entries (cx_strings c)) k of Some s \<Rightarrow> Some (cxpr_string (Some s)) | None \<Rightarrow>
     (case nm_abs (cx_arrays c) k of Some vs \<Rightarrow> Some (cxpr_array (cxpr_array_value_new mem vs)) | None \<Rightarrow>
     (case ht_abs (cx_variables c) k of Some d \<Rightarrow> Some (cxpr_num d) | None \<Rightarrow>
     (case nm_abs (cx_structs c) k of Some s \<Rightarrow> Some (cxpr_struct (cxpr_struct_value_new mem s)) | None \<Rightarrow>
        map_option (\<lambda>s. cxpr_struct (cxpr_struct_value_new mem s)) (nm_abs (cx_cached_structs c) k))))))))"

text \<open>The innermost context that binds the name decides.\<close>

fun innermost :: "('c \<Rightarrow> string \<Rightarrow> 'v option) \<Rightarrow> 'c list \<Rightarrow> string \<Rightarrow> 'v option" where
  "innermost bnd [] k = None"
| "innermost bnd (c # cs) k = (case bnd c k of Some v \<Rightarrow> Some v | None \<Rightarrow> innermost bnd cs k)"

lemmas small_defs = cxpr_bool_map_get_def cxpr_int64_map_get_def cxpr_string_map_get_def small_get_def

lemmas drop_defs = drop_bool_def drop_int64_def drop_string_def cxpr_bool_map_remove_def cxpr_int64_map_remove_def
  cxpr_string_map_remove_def

text \<open>The binding of a name depends on what the maps hold for it.\<close>

lemma cx_binding_cong:
  assumes "cx_expression_scope c' = cx_expression_scope c"
    and "map_of (sm_entries (cx_bools c')) k = map_of (sm_entries (cx_bools c)) k"
    and "map_of (sm_entries (cx_int64s c')) k = map_of (sm_entries (cx_int64s c)) k"
    and "map_of (sm_entries (cx_strings c')) k = map_of (sm_entries (cx_strings c)) k"
    and "nm_abs (cx_arrays c') k = nm_abs (cx_arrays c) k" "ht_abs (cx_variables c') k = ht_abs (cx_variables c) k"
    and "nm_abs (cx_structs c') k = nm_abs (cx_structs c) k"
    and "nm_abs (cx_cached_structs c') k = nm_abs (cx_cached_structs c) k"
  shows "cx_binding mem c' k = cx_binding mem c k"
  unfolding cx_binding_def assms ..

lemma lookup_struct_inv [simp]: "nm_inv m \<Longrightarrow> cxpr_context_lookup_struct_map m k = Some (nm_abs m k)"
  by (rule structs.get_ok)

lemma lookup_array_inv [simp]: "nm_inv m \<Longrightarrow> cxpr_context_lookup_array_map m k = Some (nm_abs m k)"
  by (rule arrays.get_ok)

lemma binding_split:
  assumes "cx_inv c"
  shows "\<exists>e l. early_binding mem c k = Some e \<and> late_binding mem (c\<lparr>cx_variables := t\<rparr>) k = Some l \<and>
    cx_binding mem c k = (case e of Some v \<Rightarrow> Some v | None \<Rightarrow>
      (case ht_abs (cx_variables c) k of Some d \<Rightarrow> Some (cxpr_num d) | None \<Rightarrow> l))"
  using assms
  by (auto simp: cx_inv_def early_binding_def late_binding_def cx_binding_def small_defs split: option.split)

lemma cx_inv_variables: "cx_inv c \<Longrightarrow> ht_inv t \<Longrightarrow> cx_inv (c\<lparr>cx_variables := t\<rparr>)"
  by (simp add: cx_inv_def)

lemma get_typed_ok:
  assumes "list_all cx_inv cs"
  shows "\<exists>fs. cxpr_context_get_typed mem cs name = Some (innermost (cx_binding mem) cs (cs_text name), fs) \<and> list_all cx_inv fs \<and>
    map (cx_binding mem) fs = map (cx_binding mem) cs"
  using assms
proof (induction cs)
  case (Cons c cs)
  have c: "cx_inv c" "ht_inv (cx_variables c)" using Cons.prems by (simp_all add: cx_inv_def)
  obtain t where t: "ht_get (cx_variables c) name = Some (ht_abs (cx_variables c) (cs_text name), t)" "ht_inv t"
      "ht_map t = ht_map (cx_variables c)"
    using ht_get_ok [OF c(2), of name] by auto
  let ?c = "c\<lparr>cx_variables := t\<rparr>"
  have c': "cx_inv ?c" "cx_binding mem ?c = cx_binding mem c"
    using c(1) t(2,3) by (simp_all add: cx_inv_variables cx_binding_def ht_abs_def fun_eq_iff cong del: option.case_cong_weak)
  obtain e l where el: "early_binding mem c (cs_text name) = Some e" "late_binding mem ?c (cs_text name) = Some l"
      "cx_binding mem c (cs_text name) = (case e of Some v \<Rightarrow> Some v | None \<Rightarrow>
         (case ht_abs (cx_variables c) (cs_text name) of Some d \<Rightarrow> Some (cxpr_num d) | None \<Rightarrow> l))"
    using binding_split [OF c(1)] by blast
  obtain fs where "cxpr_context_get_typed mem cs name = Some (innermost (cx_binding mem) cs (cs_text name), fs)" "list_all cx_inv fs"
      "map (cx_binding mem) fs = map (cx_binding mem) cs"
    using Cons by auto
  with el t(1) c' Cons.prems show ?case
    by (cases e; cases "ht_abs (cx_variables c) (cs_text name)"; cases l) (simp_all add: bind_eq_Some_conv)
qed simp

lemma get_param_ok:
  assumes "list_all cx_inv cs"
  shows "\<exists>fs. cxpr_context_get_param cs name = Some (innermost (\<lambda>c. ht_abs (cx_params c)) cs (cs_text name), fs) \<and>
    list_all cx_inv fs \<and> map (\<lambda>c. ht_abs (cx_params c)) fs = map (\<lambda>c. ht_abs (cx_params c)) cs"
  using assms
proof (induction cs)
  case (Cons c cs)
  have c: "cx_inv c" "ht_inv (cx_params c)" using Cons.prems by (simp_all add: cx_inv_def)
  obtain t where t: "ht_get (cx_params c) name = Some (ht_abs (cx_params c) (cs_text name), t)" "ht_inv t"
      "ht_map t = ht_map (cx_params c)"
    using ht_get_ok [OF c(2), of name] by auto
  have "cx_inv (c\<lparr>cx_params := t\<rparr>)" "ht_abs t = ht_abs (cx_params c)" using c t by (simp_all add: cx_inv_def ht_abs_def)
  with Cons t(1) show ?case by (cases "ht_abs (cx_params c) (cs_text name)") auto
qed simp

section \<open>The interface of a chain of scopes\<close>

locale scope_chain =
  fixes inv :: "'c \<Rightarrow> bool"
    and bnd :: "'c \<Rightarrow> string \<Rightarrow> 'v option"
    and get :: "'c list \<Rightarrow> cstring \<Rightarrow> ('v option \<times> 'c list) option"
  assumes get_ok: "list_all inv cs \<Longrightarrow> \<exists>fs. get cs name = Some (innermost bnd cs (cs_text name), fs) \<and>
    list_all inv fs \<and> map bnd fs = map bnd cs"
begin

lemma innermost_map: "map bnd fs = map bnd cs \<Longrightarrow> innermost bnd fs k = innermost bnd cs k"
proof (induction fs arbitrary: cs)
  case (Cons f fs)
  then obtain c cs' where cs: "cs = c # cs'" "bnd f = bnd c" "map bnd fs = map bnd cs'" by (cases cs) auto
  with Cons.IH [OF cs(3)] show ?case by (simp split: option.split)
qed simp

text \<open>A second lookup, through any pointer, sees what the first saw.\<close>

lemma get_again:
  assumes "list_all inv cs" "get cs name = Some (r, fs)"
  shows "list_all inv fs \<and> (\<exists>fs'. get fs name' = Some (innermost bnd cs (cs_text name'), fs'))"
  using get_ok [OF assms(1), of name] get_ok [of fs name'] assms(2) innermost_map [of fs cs] by auto

lemma get_bound:
  assumes "list_all inv (c # cs)" "bnd c (cs_text name) = Some v"
  shows "\<exists>fs. get (c # cs) name = Some (Some v, fs)"
  using get_ok [OF assms(1), of name] assms(2) by auto

lemma get_transparent:
  assumes "list_all inv (c # cs)" "bnd c (cs_text name) = None"
  shows "\<exists>r fs fs'. get (c # cs) name = Some (r, fs) \<and> get cs name = Some (r, fs')"
  using get_ok [OF assms(1), of name] get_ok [of cs name] assms by auto

end

interpretation typed: scope_chain cx_inv "cx_binding mem" "cxpr_context_get_typed mem" for mem
  by unfold_locales (rule get_typed_ok)

interpretation param: scope_chain cx_inv "\<lambda>c. ht_abs (cx_params c)" cxpr_context_get_param
  by unfold_locales (rule get_param_ok)

section \<open>Updates\<close>

lemma map_of_assoc_del: "distinct (map fst ps) \<Longrightarrow> map_of (assoc_del k ps) = (map_of ps)(k := None)"
  by (induction k ps rule: assoc_del.induct) (auto simp: fun_eq_iff map_of_eq_None_iff)

lemma assoc_del_keys: "fst ` set (assoc_del k ps) \<subseteq> fst ` set ps"
  by (induction k ps rule: assoc_del.induct) auto

lemma distinct_assoc_del: "distinct (map fst ps) \<Longrightarrow> distinct (map fst (assoc_del k ps))"
  using assoc_del_keys by (induction k ps rule: assoc_del.induct) (auto; blast)+

lemma length_assoc_del: "length (assoc_del k ps) \<le> length ps"
  by (induction k ps rule: assoc_del.induct) auto

lemma small_remove_ok:
  "sm_inv m \<Longrightarrow> sm_inv (small_remove m k)" "sm_inv m \<Longrightarrow> map_of (sm_entries (small_remove m k)) = (map_of (sm_entries m))(k := None)"
  using length_assoc_del [of k "sm_entries m"]
  by (auto simp: sm_inv_def small_remove_def distinct_assoc_del map_of_assoc_del)

lemma map_fst_assoc_put [simp]: "map fst (assoc_put k v ps) = map fst ps"
  by (induction k v ps rule: assoc_put.induct) auto

lemma length_assoc_put [simp]: "length (assoc_put k v ps) = length ps"
  by (induction k v ps rule: assoc_put.induct) auto

lemma map_of_assoc_put: "map_of ps k \<noteq> None \<Longrightarrow> map_of (assoc_put k v ps) = (map_of ps)(k \<mapsto> v)"
  by (induction k v ps rule: assoc_put.induct) (auto simp: fun_eq_iff)

lemma map_of_append_new: "map_of ps k = None \<Longrightarrow> map_of (ps @ [(k, v)]) = (map_of ps)(k \<mapsto> v)"
  by (auto simp: fun_eq_iff map_add_def split: option.split)

lemma small_set_ok:
  assumes "sm_inv m" "\<forall>n. mem n"
  shows "\<exists>m'. small_set mem esize m k v = (m', True) \<and> sm_inv m' \<and> map_of (sm_entries m') = (map_of (sm_entries m))(k \<mapsto> v)"
proof (cases "map_of (sm_entries m) k")
  case None
  then have "k \<notin> fst ` set (sm_entries m)" by (simp add: map_of_eq_None_iff)
  with assms None show ?thesis
    by (auto simp: small_set_def Let_def cxpr_strdup_def sm_inv_def map_of_append_new simp del: map_of_append)
next
  case (Some w)
  then have "sm_inv (m\<lparr>sm_entries := assoc_put k v (sm_entries m)\<rparr>)"
    using assms(1) by (simp add: sm_inv_def)
  with Some map_of_assoc_put [of "sm_entries m" k v] show ?thesis by (simp add: small_set_def)
qed

text \<open>A removal takes out one name of one map.\<close>

lemma drop_array_ok:
  assumes "nm_inv (cx_arrays c)"
  shows "\<exists>m. drop_array k c = Some (c\<lparr>cx_arrays := m\<rparr>) \<and> nm_inv m \<and> nm_abs m = (nm_abs (cx_arrays c))(k := None)"
  using arrays.rm_ok [OF assms, of k] by (auto simp: drop_array_def)

lemma drop_struct_ok:
  assumes "nm_inv (cx_structs c)"
  shows "\<exists>m. drop_struct k c = Some (c\<lparr>cx_structs := m\<rparr>) \<and> nm_inv m \<and> nm_abs m = (nm_abs (cx_structs c))(k := None)"
  using structs.rm_ok [OF assms, of k] by (auto simp: drop_struct_def)

text \<open>Both removals, as every setter of a scalar does them after those in the small maps.\<close>

lemma drop_both_ok:
  assumes "nm_inv (cx_arrays c)" "nm_inv (cx_structs c)"
  shows "\<exists>a s. drop_array k c = Some (c\<lparr>cx_arrays := a\<rparr>) \<and>
    drop_struct k (c\<lparr>cx_arrays := a\<rparr>) = Some (c\<lparr>cx_arrays := a, cx_structs := s\<rparr>) \<and> nm_inv a \<and> nm_inv s \<and>
    nm_abs a = (nm_abs (cx_arrays c))(k := None) \<and> nm_abs s = (nm_abs (cx_structs c))(k := None)"
proof -
  obtain a where a: "drop_array k c = Some (c\<lparr>cx_arrays := a\<rparr>)" "nm_inv a" "nm_abs a = (nm_abs (cx_arrays c))(k := None)"
    using drop_array_ok [OF assms(1)] by blast
  have "nm_inv (cx_structs (c\<lparr>cx_arrays := a\<rparr>))" using assms(2) by simp
  from drop_struct_ok [OF this, of k] a show ?thesis by auto
qed

lemma bump_variables_ok:
  "cx_inv (bump_variables b c) = cx_inv c" "cx_binding mem (bump_variables b c) = cx_binding mem c"
  "cx_expression_scope (bump_variables b c) = cx_expression_scope c"
  by (auto simp: bump_variables_def cx_inv_def ht_inv_def cx_binding_def ht_abs_def fun_eq_iff cong del: option.case_cong_weak)

lemma set_number_ok:
  assumes c: "cx_inv c" "cx_expression_scope c = None" and mem: "\<forall>n. mem n"
    and lim: "count (ht_map (cx_variables c)) < hm_limit" and nb: "0 < nb" "nb \<notin> ht_bases (cx_variables c)"
  shows "\<exists>c'. cxpr_context_set mem nb c name d = Some c' \<and> cx_inv c' \<and>
    cx_binding mem c' = (cx_binding mem c)(cs_text name \<mapsto> cxpr_num d)"
proof -
  let ?k = "cs_text name"
  define c1 where "c1 = drop_string ?k (drop_int64 ?k (drop_bool ?k c))"
  have sel: "cx_arrays c1 = cx_arrays c" "cx_structs c1 = cx_structs c" "cx_variables c1 = cx_variables c"
    by (simp_all add: c1_def drop_string_def drop_int64_def drop_bool_def)
  obtain a s where as: "drop_array ?k c1 = Some (c1\<lparr>cx_arrays := a\<rparr>)"
      "drop_struct ?k (c1\<lparr>cx_arrays := a\<rparr>) = Some (c1\<lparr>cx_arrays := a, cx_structs := s\<rparr>)" "nm_inv a" "nm_inv s"
      "nm_abs a = (nm_abs (cx_arrays c))(?k := None)" "nm_abs s = (nm_abs (cx_structs c))(?k := None)"
    using drop_both_ok [of c1 ?k] c(1) sel by (auto simp: cx_inv_def)
  have "ht_inv (cx_variables c)" using c(1) by (simp add: cx_inv_def)
  from set_hashed_ok [OF this lim mem nb, of name d] obtain t where t:
      "cxpr_context_set_hashed mem nb (cx_variables c) name (cxpr_hash_string ?k) d = Some t" "ht_inv t"
      "ht_abs t = (ht_abs (cx_variables c))(?k \<mapsto> d)"
    by blast
  let ?c = "c1\<lparr>cx_arrays := a, cx_structs := s, cx_variables := t\<rparr>"
  have "cxpr_context_set mem nb c name d = Some ?c"
    using as(1,2) t(1) sel(3) by (simp add: cxpr_context_set_def cxpr_context_set_prehashed_def flip: c1_def)
  moreover have "cx_inv ?c"
    using c(1) as(3,4) t(2) by (simp add: cx_inv_def c1_def drop_defs small_remove_ok)
  moreover have "cx_binding mem ?c = (cx_binding mem c)(?k \<mapsto> cxpr_num d)"
  proof (rule ext)
    fix k
    have small: "sm_inv (cx_bools c)" "sm_inv (cx_int64s c)" "sm_inv (cx_strings c)" using c(1) by (simp_all add: cx_inv_def)
    show "cx_binding mem ?c k = ((cx_binding mem c)(?k \<mapsto> cxpr_num d)) k"
    proof (cases "k = ?k")
      case True
      then show ?thesis using c(2) as(5) t(3) small
        by (simp add: cx_binding_def c1_def drop_defs small_remove_ok)
    next
      case False
      then have "cx_binding mem ?c k = cx_binding mem c k" using as(5,6) t(3) small
        by (intro cx_binding_cong) (simp_all add: c1_def drop_defs small_remove_ok)
      with False show ?thesis by simp
    qed
  qed
  ultimately show ?thesis by blast
qed

lemma binding_updI:
  assumes "cx_binding mem c' k = Some v" "\<And>k'. k' \<noteq> k \<Longrightarrow> cx_binding mem c' k' = cx_binding mem c k'"
  shows "cx_binding mem c' = (cx_binding mem c)(k \<mapsto> v)"
  using assms by (auto simp: fun_eq_iff)

lemma set_bool_ok:
  assumes c: "cx_inv c" "cx_expression_scope c = None" and mem: "\<forall>n. mem n"
  shows "\<exists>c'. cxpr_context_set_bool mem c k v = Some c' \<and> cx_inv c' \<and> cx_binding mem c' = (cx_binding mem c)(k \<mapsto> cxpr_bool v)"
proof -
  define c1 where "c1 = drop_int64 k (drop_string k c)"
  have sel: "cx_arrays c1 = cx_arrays c" "cx_structs c1 = cx_structs c" "cx_bools c1 = cx_bools c"
    by (simp_all add: c1_def drop_defs)
  have small: "sm_inv (cx_bools c)" "sm_inv (cx_int64s c)" "sm_inv (cx_strings c)" using c(1) by (simp_all add: cx_inv_def)
  obtain a s where as: "drop_array k c1 = Some (c1\<lparr>cx_arrays := a\<rparr>)"
      "drop_struct k (c1\<lparr>cx_arrays := a\<rparr>) = Some (c1\<lparr>cx_arrays := a, cx_structs := s\<rparr>)" "nm_inv a" "nm_inv s"
      "nm_abs a = (nm_abs (cx_arrays c))(k := None)" "nm_abs s = (nm_abs (cx_structs c))(k := None)"
    using drop_both_ok [of c1 k] c(1) sel by (auto simp: cx_inv_def)
  have "sm_inv (cx_bools c)" using small by simp
  from small_set_ok [OF this mem, of 16 k v] obtain m where m: "small_set mem 16 (cx_bools c) k v = (m, True)" "sm_inv m"
      "map_of (sm_entries m) = (map_of (sm_entries (cx_bools c)))(k \<mapsto> v)"
    by blast
  let ?c = "c1\<lparr>cx_arrays := a, cx_structs := s, cx_bools := m\<rparr>"
  have "cxpr_context_set_bool mem c k v = Some (bump_variables True ?c)"
    using as(1,2) m(1) sel(3) mem by (simp add: cxpr_context_set_bool_def cxpr_bool_map_set_def flip: c1_def)
  moreover have "cx_inv ?c"
    using c(1) as(3,4) m(2) by (simp add: cx_inv_def c1_def drop_defs small_remove_ok)
  moreover have "cx_binding mem ?c = (cx_binding mem c)(k \<mapsto> cxpr_bool v)"
  proof (rule binding_updI)
    show "cx_binding mem ?c k = Some (cxpr_bool v)" using c(2) m(3) small
      by (simp add: cx_binding_def c1_def drop_defs small_remove_ok)
    show "cx_binding mem ?c k' = cx_binding mem c k'" if "k' \<noteq> k" for k'
      using that as(5,6) m(3) small by (intro cx_binding_cong) (simp_all add: c1_def drop_defs small_remove_ok)
  qed
  ultimately show ?thesis using bump_variables_ok by metis
qed

lemma set_int64_ok:
  assumes c: "cx_inv c" "cx_expression_scope c = None" and mem: "\<forall>n. mem n"
  shows "\<exists>c'. cxpr_context_set_int64 mem c k v = Some c' \<and> cx_inv c' \<and> cx_binding mem c' = (cx_binding mem c)(k \<mapsto> cxpr_int64 v)"
proof -
  define c1 where "c1 = drop_string k (drop_bool k c)"
  have sel: "cx_arrays c1 = cx_arrays c" "cx_structs c1 = cx_structs c" "cx_int64s c1 = cx_int64s c"
    by (simp_all add: c1_def drop_defs)
  have small: "sm_inv (cx_bools c)" "sm_inv (cx_int64s c)" "sm_inv (cx_strings c)" using c(1) by (simp_all add: cx_inv_def)
  obtain a s where as: "drop_array k c1 = Some (c1\<lparr>cx_arrays := a\<rparr>)"
      "drop_struct k (c1\<lparr>cx_arrays := a\<rparr>) = Some (c1\<lparr>cx_arrays := a, cx_structs := s\<rparr>)" "nm_inv a" "nm_inv s"
      "nm_abs a = (nm_abs (cx_arrays c))(k := None)" "nm_abs s = (nm_abs (cx_structs c))(k := None)"
    using drop_both_ok [of c1 k] c(1) sel by (auto simp: cx_inv_def)
  have "sm_inv (cx_int64s c)" using small by simp
  from small_set_ok [OF this mem, of 16 k v] obtain m where m: "small_set mem 16 (cx_int64s c) k v = (m, True)" "sm_inv m"
      "map_of (sm_entries m) = (map_of (sm_entries (cx_int64s c)))(k \<mapsto> v)"
    by blast
  let ?c = "c1\<lparr>cx_arrays := a, cx_structs := s, cx_int64s := m\<rparr>"
  have "cxpr_context_set_int64 mem c k v = Some (bump_variables True ?c)"
    using as(1,2) m(1) sel(3) mem by (simp add: cxpr_context_set_int64_def cxpr_int64_map_set_def flip: c1_def)
  moreover have "cx_inv ?c"
    using c(1) as(3,4) m(2) by (simp add: cx_inv_def c1_def drop_defs small_remove_ok)
  moreover have "cx_binding mem ?c = (cx_binding mem c)(k \<mapsto> cxpr_int64 v)"
  proof (rule binding_updI)
    show "cx_binding mem ?c k = Some (cxpr_int64 v)" using c(2) m(3) small
      by (simp add: cx_binding_def c1_def drop_defs small_remove_ok)
    show "cx_binding mem ?c k' = cx_binding mem c k'" if "k' \<noteq> k" for k'
      using that as(5,6) m(3) small by (intro cx_binding_cong) (simp_all add: c1_def drop_defs small_remove_ok)
  qed
  ultimately show ?thesis using bump_variables_ok by metis
qed

lemma set_string_ok:
  assumes c: "cx_inv c" "cx_expression_scope c = None" and mem: "\<forall>n. mem n" and no_int: "cxpr_int64_map_get (cx_int64s c) k = None"
  shows "\<exists>c'. cxpr_context_set_string mem c k (Some v) = Some c' \<and> cx_inv c' \<and> cx_binding mem c' = (cx_binding mem c)(k \<mapsto> cxpr_string (Some v))"
proof -
  define c1 where "c1 = drop_bool k c"
  have sel: "cx_arrays c1 = cx_arrays c" "cx_structs c1 = cx_structs c" "cx_strings c1 = cx_strings c"
    by (simp_all add: c1_def drop_defs)
  have small: "sm_inv (cx_bools c)" "sm_inv (cx_int64s c)" "sm_inv (cx_strings c)" using c(1) by (simp_all add: cx_inv_def)
  obtain a s where as: "drop_array k c1 = Some (c1\<lparr>cx_arrays := a\<rparr>)"
      "drop_struct k (c1\<lparr>cx_arrays := a\<rparr>) = Some (c1\<lparr>cx_arrays := a, cx_structs := s\<rparr>)" "nm_inv a" "nm_inv s"
      "nm_abs a = (nm_abs (cx_arrays c))(k := None)" "nm_abs s = (nm_abs (cx_structs c))(k := None)"
    using drop_both_ok [of c1 k] c(1) sel by (auto simp: cx_inv_def)
  have "sm_inv (cx_strings c)" using small by simp
  from small_set_ok [OF this mem, of 16 k v] obtain m where m: "small_set mem 16 (cx_strings c) k v = (m, True)" "sm_inv m"
      "map_of (sm_entries m) = (map_of (sm_entries (cx_strings c)))(k \<mapsto> v)"
    by blast
  let ?c = "c1\<lparr>cx_arrays := a, cx_structs := s, cx_strings := m\<rparr>"
  have "cxpr_context_set_string mem c k (Some v) = Some (bump_variables True ?c)"
    using as(1,2) m(1) sel(3) mem by (simp add: cxpr_context_set_string_def cxpr_string_map_set_def cxpr_strdup_def flip: c1_def)
  moreover have "cx_inv ?c"
    using c(1) as(3,4) m(2) by (simp add: cx_inv_def c1_def drop_defs small_remove_ok)
  moreover have "cx_binding mem ?c = (cx_binding mem c)(k \<mapsto> cxpr_string (Some v))"
  proof (rule binding_updI)
    show "cx_binding mem ?c k = Some (cxpr_string (Some v))" using c(2) m(3) small no_int [unfolded small_defs]
      by (simp add: cx_binding_def c1_def drop_defs small_remove_ok)
    show "cx_binding mem ?c k' = cx_binding mem c k'" if "k' \<noteq> k" for k'
      using that as(5,6) m(3) small by (intro cx_binding_cong) (simp_all add: c1_def drop_defs small_remove_ok)
  qed
  ultimately show ?thesis using bump_variables_ok by metis
qed

section \<open>Overlays\<close>

definition oc_inv :: "overlay_cache \<Rightarrow> bool" where
  "oc_inv cache \<longleftrightarrow>
     cxpr_overlay_context_cache_count cache = length (cxpr_overlay_context_cache cache) \<and>
     length (cxpr_overlay_context_cache cache) \<le> CXPR_OVERLAY_CONTEXT_CACHE_MAX \<and>
     list_all (\<lambda>c. cx_inv c \<and> cxpr_context_can_cache_empty_overlay True c) (cxpr_overlay_context_cache cache)"

lemma hm_abs_count0: "hm_wf m \<Longrightarrow> count m = 0 \<Longrightarrow> hm_abs m k = None"
  using occupied_pos [of k "keys (entries m)"] es_abs_None [of "entries m" k] by (auto simp: hm_wf_def)

lemma nm_abs_null [simp]: "nm_entries m = [] \<Longrightarrow> nm_abs m k = None"
  by (simp add: nm_abs_def)

lemma sm_inv_null: "sm_inv m \<Longrightarrow> sm_capacity m = 0 \<Longrightarrow> sm_entries m = []"
  by (simp add: sm_inv_def)

text \<open>An overlay that may be kept binds nothing, and its reset changes neither that nor the invariant.\<close>

lemma empty_overlay_binding:
  assumes "cx_inv c" "cxpr_context_can_cache_empty_overlay p c"
  shows "cx_binding mem c k = None"
proof -
  have e: "sm_entries (cx_bools c) = []" "sm_entries (cx_strings c) = []" "sm_capacity (cx_int64s c) = 0"
      "nm_entries (cx_structs c) = []" "nm_entries (cx_cached_structs c) = []" "nm_entries (cx_arrays c) = []"
      "count (ht_map (cx_variables c)) = 0" "cx_expression_scope c = None"
    using assms(2) by (simp_all add: cxpr_context_can_cache_empty_overlay_def)
  have "sm_entries (cx_int64s c) = []" using sm_inv_null [OF _ e(3)] assms(1) unfolding cx_inv_def by blast
  moreover have "ht_abs (cx_variables c) k = None"
    using hm_abs_count0 [OF ht_inv_wf e(7)] assms(1) by (simp add: cx_inv_def ht_abs_def)
  ultimately show ?thesis using e by (simp add: cx_binding_def)
qed

lemma reset_overlay:
  "cx_inv c \<Longrightarrow> cx_inv (cxpr_context_reset_empty_overlay c)"
  "cxpr_context_can_cache_empty_overlay p c \<Longrightarrow> cxpr_context_can_cache_empty_overlay p (cxpr_context_reset_empty_overlay c)"
  by (simp_all add: cxpr_context_reset_empty_overlay_def cx_inv_def ht_inv_def cxpr_context_can_cache_empty_overlay_def)

lemma context_new_ok:
  assumes "\<forall>n. mem n"
  shows "\<exists>c. cxpr_context_new mem vbase pbase = Some c \<and> cx_inv c \<and> cxpr_context_can_cache_empty_overlay True c"
proof -
  have m: "hm_inv (cxpr_hashmap_init mem)" "count (cxpr_hashmap_init mem) = 0" using init_inv assms by auto
  have t: "ht_inv (fresh_table (cxpr_hashmap_init mem) b 1)" for b by (rule fresh_table_inv(1) [OF m(1)])
  show ?thesis using assms t m(2)
    by (auto simp: cxpr_context_new_def cx_inv_def cxpr_context_can_cache_empty_overlay_def sm_inv_def small_init_def
        structs.new_ok arrays.new_ok fresh_table_def)
       (simp_all add: cxpr_struct_map_init_def cxpr_array_map_init_def map_init_def)
qed

lemma free_overlay_ok:
  assumes "oc_inv cache" "cx_inv c"
  shows "oc_inv (cxpr_context_free p c cache)"
proof (cases "cxpr_context_can_cache_empty_overlay p c \<and> cxpr_overlay_context_cache_count cache < CXPR_OVERLAY_CONTEXT_CACHE_MAX")
  case True
  then have "cxpr_context_can_cache_empty_overlay True c" by (simp add: cxpr_context_can_cache_empty_overlay_def)
  with True assms reset_overlay show ?thesis by (simp add: oc_inv_def cxpr_context_free_def)
next
  case False
  show ?thesis using assms unfolding cxpr_context_free_def if_not_P [OF False] by simp
qed

lemma overlay_new_ok:
  assumes "oc_inv cache" "\<forall>n. mem n"
  shows "\<exists>c cache'. cxpr_context_overlay_new mem vbase pbase cache = (Some c, cache') \<and> oc_inv cache' \<and> cx_inv c \<and>
    cxpr_context_can_cache_empty_overlay True c"
proof (cases "cxpr_overlay_context_cache cache")
  case Nil
  with context_new_ok [OF assms(2), of vbase pbase] assms(1) show ?thesis by (auto simp: cxpr_context_overlay_new_def)
next
  case (Cons c cs)
  with assms(1) reset_overlay show ?thesis by (auto simp: cxpr_context_overlay_new_def oc_inv_def)
qed

section \<open>Values that stay hidden\<close>

text \<open>A bucket left from a freed slot array answers for its key whatever the new array at that address
  holds in the recorded slot: the entry's own key is not compared.\<close>

lemma stale_bucket_answers:
  assumes "ht_cache t ! cxpr_context_cache_bucket (cxpr_hash_string k) =
      \<lparr>ec_key_ref = Some k, ec_hash = cxpr_hash_string k, ec_slot = s, ec_entries_base = ht_base t\<rparr>"
    and "cxpr_context_lookup_pointer_cached_entry t \<lparr>cs_addr = a, cs_text = k\<rparr> = None"
  shows "\<exists>t'. ht_get t \<lparr>cs_addr = a, cs_text = k\<rparr> = Some (Some (val (entries (ht_map t) ! s)), t')"
  using assms by (simp add: ht_get_def cxpr_context_lookup_cached_entry_def)

text \<open>A string set over an integer stays behind it.\<close>

lemma string_behind_integer:
  assumes c: "cx_inv c" "cx_expression_scope c = None" and mem: "\<forall>n. mem n"
    and i: "cxpr_int64_map_get (cx_int64s c) k = Some i" "cxpr_bool_map_get (cx_bools c) k = None"
  shows "\<exists>c'. cxpr_context_set_string mem c k (Some s) = Some c' \<and> cx_binding mem c' k = Some (cxpr_int64 i)"
proof -
  define c1 where "c1 = drop_bool k c"
  have "nm_inv (cx_arrays c1)" "nm_inv (cx_structs c1)" "sm_inv (cx_strings c1)" and b: "sm_inv (cx_bools c)"
    using c(1) by (auto simp: cx_inv_def c1_def drop_defs)
  with drop_both_ok [of c1 k] small_set_ok [of "cx_strings c1" mem 16 k s] mem obtain x y m where
      "drop_array k c1 = Some (c1\<lparr>cx_arrays := x\<rparr>)"
      "drop_struct k (c1\<lparr>cx_arrays := x\<rparr>) = Some (c1\<lparr>cx_arrays := x, cx_structs := y\<rparr>)"
      "small_set mem 16 (cx_strings c1) k s = (m, True)"
    by blast
  then have "cxpr_context_set_string mem c k (Some s) =
      Some (bump_variables True (c1\<lparr>cx_arrays := x, cx_structs := y, cx_strings := m\<rparr>))"
    using mem by (simp add: cxpr_context_set_string_def cxpr_string_map_set_def cxpr_strdup_def flip: c1_def)
  moreover have "cx_binding mem (c1\<lparr>cx_arrays := x, cx_structs := y, cx_strings := m\<rparr>) k = Some (cxpr_int64 i)"
    using i c(2) b by (simp add: cx_binding_def c1_def drop_defs small_defs small_remove_ok)
  ultimately show ?thesis using bump_variables_ok by metis
qed

text \<open>Without a flag to set, the numeric lookup gives zero for a bound number too.\<close>

lemma get_without_flag:
  assumes "list_all cx_inv cs" "innermost (cx_binding mem) cs (cs_text name) = Some (cxpr_num d)"
  shows "\<exists>fs. cxpr_context_get mem True cs name = Some ((d, True), fs)"
    "\<exists>fs. cxpr_context_get mem False cs name = Some ((dbl_zero, False), fs)"
  using typed.get_ok [OF assms(1), of mem name] assms(2) by (auto simp: cxpr_context_get_def)

text \<open>A number that an ancestor has as a parameter hides the other kinds of every context in between.\<close>

lemma ancestor_number_first:
  assumes "list_all cx_inv (c # cs)" "early_param mem c (cs_text name) = Some None"
    and "innermost (\<lambda>c. ht_abs (cx_params c)) (c # cs) (cs_text name) = Some d"
  shows "\<exists>fs. cxpr_context_get_param_typed mem (c # cs) name = Some (Some (cxpr_num d), fs)"
  using param.get_ok [OF assms(1), of name] assms(2,3) by auto

section \<open>Properties\<close>

definition sample_context :: cxpr_context where
  "sample_context = the (cxpr_context_new (\<lambda>_. True) 512 1024)"

lemma sample_context_ok:
  "cx_inv sample_context" "cxpr_context_can_cache_empty_overlay True sample_context"
  "ht_bases (cx_variables sample_context) \<subseteq> {0, 512}"
proof -
  show "cx_inv sample_context" "cxpr_context_can_cache_empty_overlay True sample_context"
    using context_new_ok [of "\<lambda>_. True" 512 1024] by (auto simp: sample_context_def)
  have "hm_inv (cxpr_hashmap_init (\<lambda>_. True))" by (rule init_inv) simp
  from fresh_table_inv(3) [OF this, of 512 1] show "ht_bases (cx_variables sample_context) \<subseteq> {0, 512}"
    by (simp add: sample_context_def cxpr_context_new_def)
qed

text \<open>C11: the two lookup caches change nothing. For any sequence of up to \<open>2^50\<close> writes and reads of a fresh
  variable or parameter table, through any string pointers, every operation returns and every read
  gives what a finite map gives, provided memory is available and every slot array the growth
  allocates has an address no earlier one had.\<close>

theorem context_tables_refine_finite_map:
  assumes "length cs \<le> hm_limit" "distinct (base # new_bases cs)" "0 \<notin> set (new_bases cs)"
  shows "\<exists>t. run_table (\<lambda>_. True) (fresh_table (cxpr_hashmap_init (\<lambda>_. True)) base 1) cs =
    Some (run_reference Map.empty cs, t)"
proof -
  let ?t = "fresh_table (cxpr_hashmap_init (\<lambda>_. True)) base 1"
  have m: "hm_inv (cxpr_hashmap_init (\<lambda>_. True))" "hm_abs (cxpr_hashmap_init (\<lambda>_. True)) = Map.empty"
      "count (cxpr_hashmap_init (\<lambda>_. True)) = 0"
    using init_inv [of "\<lambda>_. True"] by auto
  have t: "ht_inv ?t" "ht_abs ?t = Map.empty" "ht_bases ?t \<subseteq> {0, base}" using fresh_table_inv [OF m(1)] m(2) by auto
  have "count (ht_map ?t) + length cs \<le> hm_limit" using m(3) assms(1) by (simp add: fresh_table_def)
  moreover have "set (new_bases cs) \<inter> ht_bases ?t = {}" using t(3) assms(2,3) by auto
  ultimately show ?thesis using run_table_ok [OF t(1), of cs "\<lambda>_. True"] assms(2,3) t(2) by auto
qed

theorem context_tables_refine_finite_map_witness:
  "\<exists>t. run_table (\<lambda>_. True) (fresh_table (cxpr_hashmap_init (\<lambda>_. True)) 512 1)
     [Write 1024 \<lparr>cs_addr = 16, cs_text = ''x''\<rparr> dbl_one, Read \<lparr>cs_addr = 16, cs_text = ''x''\<rparr>,
      Read \<lparr>cs_addr = 16, cs_text = ''y''\<rparr>, Write 2048 \<lparr>cs_addr = 32, cs_text = ''x''\<rparr> dbl_zero,
      Read \<lparr>cs_addr = 16, cs_text = ''x''\<rparr>] = Some ([Some dbl_one, None, Some dbl_zero], t)"
  using context_tables_refine_finite_map
    [of "[Write 1024 \<lparr>cs_addr = 16, cs_text = ''x''\<rparr> dbl_one, Read \<lparr>cs_addr = 16, cs_text = ''x''\<rparr>,
      Read \<lparr>cs_addr = 16, cs_text = ''y''\<rparr>, Write 2048 \<lparr>cs_addr = 32, cs_text = ''x''\<rparr> dbl_zero,
      Read \<lparr>cs_addr = 16, cs_text = ''x''\<rparr>]" 512]
  by simp

text \<open>C12: a typed lookup in a context with parents returns, gives the binding of the innermost context
  that binds the name (within a context: boolean, integer, string, array, number, struct, cached
  struct, in this order, after the results of an attached evaluator), and leaves the bindings of
  every context of the chain as they were.\<close>

theorem context_lookup_innermost:
  assumes "list_all cx_inv cs"
  shows "\<exists>fs. cxpr_context_get_typed mem cs name = Some (innermost (cx_binding mem) cs (cs_text name), fs) \<and>
    list_all cx_inv fs \<and> map (cx_binding mem) fs = map (cx_binding mem) cs"
  using assms by (rule typed.get_ok)

theorem context_lookup_innermost_witness:
  "\<exists>fs. cxpr_context_get_typed (\<lambda>_. True) [sample_context, sample_context] \<lparr>cs_addr = 16, cs_text = ''x''\<rparr> = Some (None, fs)"
  using context_lookup_innermost [of "[sample_context, sample_context]" "\<lambda>_. True" "\<lparr>cs_addr = 16, cs_text = ''x''\<rparr>"]
    sample_context_ok empty_overlay_binding [OF sample_context_ok(1,2)]
  by auto





end
