(* ===== verification/Cxpr_Meaning.thy ===== *)
theory Cxpr_Meaning
  imports Cxpr_Typed Cxpr_Bindings
begin

text \<open>
  The meaning of expressions built from literals, identifiers, parameters and the operators: \<open>op_tree\<close>
  says which they are and \<open>denote\<close> what they mean. The tree evaluator (\<open>cxpr_eval_node\<close>) computes it from a
  context that satisfies the locale \<open>lookups\<close>; constant folding, the structural comparison of trees
  and the operators of the typed executor agree with it.
\<close>

section \<open>The meaning of operator expressions\<close>

definition bind_op :: "'a op_result \<Rightarrow> ('a \<Rightarrow> 'b op_result) \<Rightarrow> 'b op_result" where
  "bind_op r k =
     (case r of Handled v \<Rightarrow> k v | NotHandled \<Rightarrow> NotHandled | Failed c m \<Rightarrow> Failed c m | Undefined \<Rightarrow> Undefined)"

lemma bind_op_simps [simp]:
  "bind_op (Handled v) k = k v" "bind_op NotHandled k = NotHandled" "bind_op (Failed c m) k = Failed c m"
  "bind_op Undefined k = Undefined"
  by (simp_all add: bind_op_def)

lemma bind_op_cong [fundef_cong]:
  "r = r' \<Longrightarrow> (\<And>v. r' = Handled v \<Longrightarrow> k v = k' v) \<Longrightarrow> bind_op r k = bind_op r' k'"
  by (cases r') simp_all

definition as_bool :: "string \<Rightarrow> cxpr_value \<Rightarrow> bool op_result" where
  "as_bool message v = (case v of cxpr_bool b \<Rightarrow> Handled b | _ \<Rightarrow> Failed CXPR_ERR_TYPE_MISMATCH message)"

definition found :: "string \<Rightarrow> cxpr_value option \<Rightarrow> cxpr_value op_result" where
  "found message r = (case r of Some v \<Rightarrow> Handled v | None \<Rightarrow> Failed CXPR_ERR_UNKNOWN_IDENTIFIER message)"

record bindings =
  bd_vars :: "string \<Rightarrow> cxpr_value option"
  bd_params :: "string \<Rightarrow> cxpr_value option"
  bd_mem :: "nat \<Rightarrow> bool"
  bd_pow :: "double \<Rightarrow> double \<Rightarrow> double"

fun denote :: "bindings \<Rightarrow> cxpr_expr_ast \<Rightarrow> cxpr_value op_result" where
  "denote bd (Ast sp d) =
     (case d of
        CXPR_NODE_NUMBER v \<Rightarrow> Handled (cxpr_num v)
      | CXPR_NODE_INT64 v \<Rightarrow> Handled (cxpr_int64 v)
      | CXPR_NODE_BOOL v \<Rightarrow> Handled (cxpr_bool v)
      | CXPR_NODE_STRING s \<Rightarrow> Handled (cxpr_string (Some s))
      | CXPR_NODE_IDENTIFIER n \<Rightarrow> found (cxpr_eval_unknown_identifier_message n) (bd_vars bd n)
      | CXPR_NODE_VARIABLE n \<Rightarrow> found (cxpr_eval_unknown_parameter_message n) (bd_params bd n)
      | CXPR_NODE_UNARY_OP op a \<Rightarrow> bind_op (denote bd a) (unary_value op)
      | CXPR_NODE_BINARY_OP op l r \<Rightarrow>
          bind_op (denote bd l) (\<lambda>a.
            if op = CXPR_TOK_AND \<or> op = CXPR_TOK_OR then
              bind_op (as_bool ''Logical operators require bool'' a) (\<lambda>b.
                if b = (op = CXPR_TOK_OR) then Handled (cxpr_bool b)
                else bind_op (denote bd r) (\<lambda>w. bind_op (as_bool ''Logical operators require bool'' w)
                  (\<lambda>c. Handled (cxpr_bool c))))
            else bind_op (denote bd r) (cxpr_eval_binary_values (bd_mem bd) (bd_pow bd) op a))
      | CXPR_NODE_TERNARY c a b \<Rightarrow>
          bind_op (denote bd c) (\<lambda>v. bind_op (as_bool ''Ternary condition must be bool'' v)
            (\<lambda>w. denote bd (if w then a else b)))
      | _ \<Rightarrow> NotHandled)"

declare denote.simps [simp del]

inductive op_tree :: "cxpr_expr_ast \<Rightarrow> bool" where
  op_number: "literal_ok v \<Longrightarrow> op_tree (Ast sp (CXPR_NODE_NUMBER v))"
| op_int64: "op_tree (Ast sp (CXPR_NODE_INT64 i))"
| op_bool: "op_tree (Ast sp (CXPR_NODE_BOOL b))"
| op_string: "op_tree (Ast sp (CXPR_NODE_STRING s))"
| op_identifier: "op_tree (Ast sp (CXPR_NODE_IDENTIFIER n))"
| op_variable: "op_tree (Ast sp (CXPR_NODE_VARIABLE n))"
| op_unary: "op_tree a \<Longrightarrow> op_tree (Ast sp (CXPR_NODE_UNARY_OP op a))"
| op_binary: "op_tree l \<Longrightarrow> op_tree r \<Longrightarrow> op_tree (Ast sp (CXPR_NODE_BINARY_OP op l r))"
| op_ternary: "op_tree c \<Longrightarrow> op_tree a \<Longrightarrow> op_tree b \<Longrightarrow> op_tree (Ast sp (CXPR_NODE_TERNARY c a b))"

inductive_simps op_tree_simps [simp]:
  "op_tree (Ast sp (CXPR_NODE_NUMBER v))" "op_tree (Ast sp (CXPR_NODE_INT64 i))" "op_tree (Ast sp (CXPR_NODE_BOOL b))"
  "op_tree (Ast sp (CXPR_NODE_STRING s))" "op_tree (Ast sp (CXPR_NODE_IDENTIFIER n))"
  "op_tree (Ast sp (CXPR_NODE_VARIABLE n))" "op_tree (Ast sp (CXPR_NODE_UNARY_OP op a))"
  "op_tree (Ast sp (CXPR_NODE_BINARY_OP op l r))" "op_tree (Ast sp (CXPR_NODE_TERNARY c a b))"

text \<open>The depth of an operator tree: what the evaluator needs as fuel.\<close>

fun op_depth :: "cxpr_expr_ast \<Rightarrow> nat" where
  "op_depth (Ast sp d) =
     (case d of
        CXPR_NODE_UNARY_OP op a \<Rightarrow> Suc (op_depth a)
      | CXPR_NODE_BINARY_OP op l r \<Rightarrow> Suc (max (op_depth l) (op_depth r))
      | CXPR_NODE_TERNARY c a b \<Rightarrow> Suc (max (op_depth c) (max (op_depth a) (op_depth b)))
      | _ \<Rightarrow> 1)"

declare op_depth.simps [simp del]

section \<open>What evaluation needs of a context\<close>

text \<open>
  \<open>lookups tx good bd plain\<close>: on states that satisfy \<open>good\<close> the typed lookups of identifiers and
  parameters give the bindings \<open>bd\<close>, the attached results agree with them, the cached number lookup
  finds nothing under a name without a binding, and the three lookups the executor makes for a
  parameter agree with the typed one, for the parameters that are \<open>plain\<close>.
\<close>

definition param_lookups :: "'f typed_env \<Rightarrow> nat \<Rightarrow> cxpr_ir_instr \<Rightarrow> 'f list \<Rightarrow> cxpr_value option \<times> 'f list" where
  "param_lookups tx ip i cs =
     (case tx_param_bool tx (in_name i) cs of
        Some b \<Rightarrow> (Some (cxpr_bool b), cs)
      | None \<Rightarrow>
          (case tx_param_string tx (in_name i) cs of
             Some s \<Rightarrow> (Some (cxpr_string (Some s)), cs)
           | None \<Rightarrow> (case tx_scalar tx ip i True cs of (d, cs1) \<Rightarrow> (map_option cxpr_num d, cs1))))"

locale lookups =
  fixes tx :: "'f typed_env" and good :: "'f list \<Rightarrow> bool" and bd :: bindings and plain :: "string \<Rightarrow> bool"
  assumes mem_pow: "ev_mem (tx_env tx) = bd_mem bd" "ev_pow (tx_env tx) = bd_pow bd"
    and typed_law: "good cs \<Longrightarrow> \<exists>cs'. ev_get_typed (tx_env tx) n cs = (bd_vars bd n, cs') \<and> good cs'"
    and param_law: "good cs \<Longrightarrow> \<exists>cs'. ev_get_param_typed (tx_env tx) n cs = (bd_params bd n, cs') \<and> good cs'"
    and scope_law: "good cs \<Longrightarrow> ev_scope (tx_env tx) cs = Some f \<Longrightarrow> f n = Some v \<Longrightarrow> bd_vars bd n = Some v"
    and scalar_law: "good cs \<Longrightarrow> bd_vars bd (in_name i) = None \<Longrightarrow> in_hash i = cxpr_hash_string (in_name i) \<Longrightarrow>
      \<exists>cs'. tx_scalar tx ip i False cs = (None, cs') \<and> good cs'"
    and param_kinds: "good cs \<Longrightarrow> plain (in_name i) \<Longrightarrow> in_hash i = cxpr_hash_string (in_name i) \<Longrightarrow>
      \<exists>cs'. param_lookups tx ip i cs = (bd_params bd (in_name i), cs') \<and> good cs'"
    and param_number: "good cs \<Longrightarrow> plain (in_name i) \<Longrightarrow> in_hash i = cxpr_hash_string (in_name i) \<Longrightarrow>
      bd_params bd (in_name i) \<in> insert None (range (Some \<circ> cxpr_num)) \<Longrightarrow>
      \<exists>d cs'. tx_scalar tx ip i True cs = (d, cs') \<and> map_option cxpr_num d = bd_params bd (in_name i) \<and> good cs'"
begin

text \<open>The tree evaluator computes the meaning.\<close>

lemma eval_node_plain:
  "\<not> cxpr_eval_ast_memoable (ev_reg env) t \<Longrightarrow>
   cxpr_eval_node env (Suc n) t cs Ok = cxpr_eval_node_uncached env (cxpr_eval_node env n) t cs Ok"
  by (simp add: cxpr_eval_node.simps)

lemma lift_then:
  "eval_then (lift_op r cs) k = (case r of Handled v \<Rightarrow> k v cs | _ \<Rightarrow> lift_op r cs)"
  by (cases r) (simp_all add: eval_then_def cxpr_eval_error_def eval_stuck_def)

lemma tree_denotes:
  assumes "op_tree t" "op_depth t \<le> fuel" "good cs"
  shows "\<exists>cs'. good cs' \<and> cxpr_eval_node (tx_env tx) fuel t cs Ok = lift_op (denote bd t) cs'"
  using assms
proof (induction arbitrary: fuel cs rule: op_tree.induct)
  case (op_identifier sp n)
  obtain cs' where "ev_get_typed (tx_env tx) n cs = (bd_vars bd n, cs')" "good cs'" using typed_law [OF op_identifier(2)] by blast
  with op_identifier show ?case
    by (cases fuel; cases "bd_vars bd n")
      (auto simp: op_depth.simps eval_node_plain cxpr_eval_ast_memoable_def cxpr_eval_node_uncached_def denote.simps found_def)
next
  case (op_variable sp n)
  obtain cs' where "ev_get_param_typed (tx_env tx) n cs = (bd_params bd n, cs')" "good cs'" using param_law [OF op_variable(2)] by blast
  with op_variable show ?case
    by (cases fuel; cases "bd_params bd n")
      (auto simp: op_depth.simps eval_node_plain cxpr_eval_ast_memoable_def cxpr_eval_node_uncached_def denote.simps found_def)
next
  case (op_unary a sp op)
  then obtain n where f: "fuel = Suc n" "op_depth a \<le> n" by (cases fuel) (auto simp: op_depth.simps)
  obtain cs' where "good cs'" "cxpr_eval_node (tx_env tx) n a cs Ok = lift_op (denote bd a) cs'"
    using op_unary.IH [OF f(2) op_unary.prems(2)] by blast
  with f show ?case
    by (auto simp: eval_node_plain cxpr_eval_ast_memoable_def cxpr_eval_node_uncached_def cxpr_eval_unary_op_def
        denote.simps lift_then split: op_result.split)
next
  case (op_binary l r sp op)
  then obtain n where f: "fuel = Suc n" "op_depth l \<le> n" "op_depth r \<le> n" by (cases fuel) (auto simp: op_depth.simps)
  obtain cs1 where 1: "good cs1" "cxpr_eval_node (tx_env tx) n l cs Ok = lift_op (denote bd l) cs1"
    using op_binary.IH(1) [OF f(2) op_binary.prems(2)] by blast
  obtain cs2 where 2: "good cs2" "cxpr_eval_node (tx_env tx) n r cs1 Ok = lift_op (denote bd r) cs2"
    using op_binary.IH(2) [OF f(3) 1(1)] by blast
  from 1 2 f show ?case
    by (auto simp: eval_node_plain cxpr_eval_ast_memoable_def cxpr_eval_node_uncached_def cxpr_eval_binary_op_def mem_pow
        denote.simps lift_then cxpr_require_type_def as_bool_def split: op_result.split cxpr_value.split)
next
  case (op_ternary c a b sp)
  then obtain n where f: "fuel = Suc n" "op_depth c \<le> n" "op_depth a \<le> n" "op_depth b \<le> n"
    by (cases fuel) (auto simp: op_depth.simps)
  obtain cs1 where 1: "good cs1" "cxpr_eval_node (tx_env tx) n c cs Ok = lift_op (denote bd c) cs1"
    using op_ternary.IH(1) [OF f(2) op_ternary.prems(2)] by blast
  note branches = op_ternary.IH(2) [OF f(3) 1(1)] op_ternary.IH(3) [OF f(4) 1(1)]
  from branches 1 f show ?case
    by (auto simp: eval_node_plain cxpr_eval_ast_memoable_def cxpr_eval_node_uncached_def cxpr_eval_ternary_op_def
        denote.simps lift_then cxpr_require_type_def as_bool_def split: op_result.split cxpr_value.split)
qed (auto simp: op_depth.simps eval_node_plain cxpr_eval_ast_memoable_def cxpr_eval_node_uncached_def denote.simps
    gr0_conv_Suc dest!: Suc_le_D)

end


section \<open>Folding and structural equality keep the meaning\<close>

lemma const_unary_value: "const_unary op v = Some w \<Longrightarrow> unary_value op v = Handled w"
  by (cases "(op, v)" rule: const_unary.cases) (auto simp: unary_value_def)

lemma const_binary_value:
  assumes "const_binary pow op a b = Some w" "op \<noteq> CXPR_TOK_AND" "op \<noteq> CXPR_TOK_OR"
    "a \<noteq> cxpr_string None" "b \<noteq> cxpr_string None"
  shows "cxpr_eval_binary_values mem pow op a b = Handled w"
proof (cases a)
  case (cxpr_num x)
  with assms obtain y where "b = cxpr_num y" by (cases b) auto
  with assms cxpr_num show ?thesis
    by (cases op) (auto simp: cxpr_eval_binary_values_def arith_tokens_def order_tokens_def cxpr_eval_arithmetic_op_def
        cxpr_eval_comparison_op_def cxpr_eval_equality_op_def cxpr_eval_values_equal_def split: if_splits)
next
  case (cxpr_bool x)
  with assms obtain y where "b = cxpr_bool y" by (cases b) auto
  with assms cxpr_bool show ?thesis
    by (cases op) (auto simp: cxpr_eval_binary_values_def arith_tokens_def order_tokens_def cxpr_eval_equality_op_def
        cxpr_eval_values_equal_def)
next
  case (cxpr_string x)
  with assms obtain y where "b = cxpr_string y" by (cases b) auto
  with assms cxpr_string show ?thesis
    by (cases op) (auto simp: cxpr_eval_binary_values_def arith_tokens_def order_tokens_def cxpr_eval_equality_op_def
        cxpr_eval_values_equal_def)
qed (use assms in auto)

lemma const_logic:
  assumes "const_binary pow op a b = Some w" "op = CXPR_TOK_AND \<or> op = CXPR_TOK_OR"
  shows "\<exists>x y. a = cxpr_bool x \<and> b = cxpr_bool y \<and> w = cxpr_bool (if op = CXPR_TOK_AND then x \<and> y else x \<or> y)"
  using assms by (cases "(pow, op, a, b)" rule: const_binary.cases) auto

lemma fold_denotes:
  assumes "op_tree t" "cxpr_ir_constant_typed_value (bd_pow bd) reg t = Some v"
  shows "denote bd t = Handled v \<and> v \<noteq> cxpr_string None"
  using assms
proof (induction arbitrary: v rule: op_tree.induct)
  case (op_unary a sp op)
  then obtain w where "cxpr_ir_constant_typed_value (bd_pow bd) reg a = Some w" "const_unary op w = Some v"
    by (auto simp: cxpr_ir_constant_typed_value.simps split: option.splits)
  with op_unary.IH const_unary_value [of op w v] show ?case
    by (cases "(op, w)" rule: const_unary.cases) (auto simp: denote.simps)
next
  case (op_binary l r sp op)
  then obtain a b where ab: "cxpr_ir_constant_typed_value (bd_pow bd) reg l = Some a"
      "cxpr_ir_constant_typed_value (bd_pow bd) reg r = Some b" "const_binary (bd_pow bd) op a b = Some v"
    by (auto simp: cxpr_ir_constant_typed_value.simps split: option.splits)
  have v: "v \<noteq> cxpr_string None"
    using ab(3) by (cases "(bd_pow bd, op, a, b)" rule: const_binary.cases) (auto split: cxpr_token_type.splits if_splits)
  show ?case
  proof (cases "op = CXPR_TOK_AND \<or> op = CXPR_TOK_OR")
    case True
    then show ?thesis using const_logic [OF ab(3) True] op_binary.IH [of a] op_binary.IH(2) [of b] ab
      by (auto simp: denote.simps as_bool_def)
  next
    case False
    then show ?thesis using const_binary_value [OF ab(3)] op_binary.IH(1) [OF ab(1)] op_binary.IH(2) [OF ab(2)] v
      by (simp add: denote.simps)
  qed
next
  case (op_ternary c a b sp)
  then obtain w where "cxpr_ir_constant_typed_value (bd_pow bd) reg c = Some (cxpr_bool w)"
      "cxpr_ir_constant_typed_value (bd_pow bd) reg (if w then a else b) = Some v"
    by (auto simp: cxpr_ir_constant_typed_value.simps split: option.splits cxpr_value.splits if_splits)
  with op_ternary.IH show ?case by (cases w) (auto simp: denote.simps as_bool_def)
qed (auto simp: cxpr_ir_constant_typed_value.simps denote.simps)

lemma equal_trees_denote:
  assumes "op_tree l" "op_tree r" "cxpr_ir_ast_equal l r"
  shows "denote bd l = denote bd r"
  using assms
proof (induction arbitrary: r rule: op_tree.induct)
  case (op_number v sp)
  from op_number.prems obtain sp' w where "r = Ast sp' (CXPR_NODE_NUMBER w)" "dbl_eq v w" "literal_ok w"
    by (cases rule: op_tree.cases) (auto simp: cxpr_ir_ast_equal.simps)
  with op_number.hyps dbl_eq_literals [of v w] show ?case by (simp add: denote.simps)
next
  case (op_unary a sp op)
  from op_unary.prems obtain sp' b where "r = Ast sp' (CXPR_NODE_UNARY_OP op b)" "cxpr_ir_ast_equal a b" "op_tree b"
    by (cases rule: op_tree.cases) (auto simp: cxpr_ir_ast_equal.simps)
  with op_unary.IH [of b] show ?case by (simp add: denote.simps)
next
  case (op_binary a b sp op)
  from op_binary.prems obtain sp' a' b' where "r = Ast sp' (CXPR_NODE_BINARY_OP op a' b')" "cxpr_ir_ast_equal a a'" "op_tree a'"
      "cxpr_ir_ast_equal b b'" "op_tree b'"
    by (cases rule: op_tree.cases) (auto simp: cxpr_ir_ast_equal.simps)
  with op_binary.IH(1) [of a'] op_binary.IH(2) [of b'] show ?case by (simp add: denote.simps cong: if_cong)
next
  case (op_ternary c a b sp)
  from op_ternary.prems obtain sp' c' a' b' where "r = Ast sp' (CXPR_NODE_TERNARY c' a' b')" "cxpr_ir_ast_equal a a'" "op_tree a'"
      "cxpr_ir_ast_equal b b'" "op_tree b'" "cxpr_ir_ast_equal c c'" "op_tree c'"
    by (cases rule: op_tree.cases) (auto simp: cxpr_ir_ast_equal.simps)
  with op_ternary.IH(1) [of c'] op_ternary.IH(2) [of a'] op_ternary.IH(3) [of b'] show ?case by (simp add: denote.simps if_distrib [of "denote bd"] cong: if_cong)
qed (erule op_tree.cases; auto simp: cxpr_ir_ast_equal.simps denote.simps)+

section \<open>The operators of both evaluators agree\<close>

text \<open>The same value; on failure the same code, except that the executor reports a negated minimal
  \<open>int64\<close> as a runtime error.\<close>

definition same_code :: "cxpr_error_code \<Rightarrow> cxpr_error_code \<Rightarrow> bool" where
  "same_code c c' \<longleftrightarrow> c' = c \<or> c = CXPR_ERR_TYPE_MISMATCH \<and> c' = CXPR_ERR_SYNTAX"

fun same_result :: "cxpr_value op_result \<Rightarrow> cxpr_value op_result \<Rightarrow> bool" where
  "same_result (Handled v) r \<longleftrightarrow> r = Handled v"
| "same_result (Failed c m) r \<longleftrightarrow> (\<exists>c' m'. r = Failed c' m' \<and> same_code c c')"
| "same_result Undefined r \<longleftrightarrow> r = Undefined"
| "same_result NotHandled r \<longleftrightarrow> True"

lemma same_result_refl [simp]: "same_result r r"
  by (cases r) (auto simp: same_code_def)

lemma same_code_refl [simp]: "same_code c c"
  by (simp add: same_code_def)

lemma equality_agrees:
  "op = CXPR_TOK_EQ \<and> opc = CXPR_OP_CMP_EQ \<or> op = CXPR_TOK_NEQ \<and> opc = CXPR_OP_CMP_NEQ \<Longrightarrow>
   same_result (cxpr_eval_equality_op op a b) (typed_equality opc a b)"
  by (cases a; cases b) (auto simp: cxpr_eval_equality_op_def cxpr_eval_values_equal_def typed_equality_def)

lemma operators_agree:
  assumes "binary_opcode op = Some opc"
  shows "\<exists>f. typed_binary tx opc = Some f \<and>
    same_result (cxpr_eval_binary_values (ev_mem (tx_env tx)) (ev_pow (tx_env tx)) op a b) (f a b)"
proof -
  have "same_result (cxpr_eval_arithmetic_op (ev_mem (tx_env tx)) (ev_pow (tx_env tx)) op a b)
      (typed_arithmetic (ev_mem (tx_env tx)) (ev_pow (tx_env tx)) opc a b)"
    if "op \<in> set arith_tokens"
    using assms that by (cases op)
      (auto simp: arith_tokens_def cxpr_eval_arithmetic_op_def typed_arithmetic_def split: cxpr_value.split)
  moreover have "same_result (cxpr_eval_comparison_op (ev_mem (tx_env tx)) op a b)
      (typed_comparison (ev_mem (tx_env tx)) opc a b)"
    if "op \<in> set order_tokens"
    using assms that by (cases op)
      (auto simp: order_tokens_def cxpr_eval_comparison_op_def typed_comparison_def split: cxpr_value.split)
  moreover have "same_result (cxpr_eval_equality_op op a b) (typed_equality opc a b)" if "op \<in> {CXPR_TOK_EQ, CXPR_TOK_NEQ}"
    by (rule equality_agrees) (use assms that in auto)
  ultimately show ?thesis
    using assms by (cases op)
      (simp_all add: typed_binary_def cxpr_eval_binary_values_def arith_tokens_def order_tokens_def)
qed

lemma unary_agrees:
  "typed_unary CXPR_OP_NOT = Some f \<Longrightarrow> same_result (unary_value CXPR_TOK_NOT v) (f v)"
  "typed_unary CXPR_OP_NEG = Some f \<Longrightarrow> same_result (unary_value CXPR_TOK_MINUS v) (f v)"
  by (auto simp: typed_unary_def unary_value_def same_code_def split: cxpr_value.split)

lemma or_type_error_handled: "or_type_error r m \<noteq> NotHandled"
  by (cases r) (simp_all add: or_type_error_def)

lemma binary_values_handled: "cxpr_eval_binary_values mem pow op a b \<noteq> NotHandled"
proof -
  have "cxpr_eval_arithmetic_op mem pow op a b \<noteq> NotHandled"
    by (cases a; cases b) (simp_all add: cxpr_eval_arithmetic_op_def or_type_error_handled)
  moreover have "cxpr_eval_comparison_op mem op a b \<noteq> NotHandled"
    by (cases a; cases b) (simp_all add: cxpr_eval_comparison_op_def or_type_error_handled)
  moreover have "cxpr_eval_equality_op op a b \<noteq> NotHandled"
    by (auto simp: cxpr_eval_equality_op_def split: option.split)
  ultimately show ?thesis by (simp add: cxpr_eval_binary_values_def)
qed

lemma bind_op_handled:
  "bind_op r k = NotHandled \<longleftrightarrow> r = NotHandled \<or> (\<exists>v. r = Handled v \<and> k v = NotHandled)"
  by (cases r) simp_all

lemma parts_handled [simp]:
  "unary_value op v \<noteq> NotHandled" "as_bool m v \<noteq> NotHandled" "found m r \<noteq> NotHandled"
  by (simp_all add: unary_value_def as_bool_def found_def split: cxpr_token_type.split cxpr_value.split option.split)

text \<open>An operator expression has a value, fails or is undefined behaviour.\<close>

lemma denote_handled: "op_tree t \<Longrightarrow> denote bd t \<noteq> NotHandled"
proof (induction rule: op_tree.induct)
  case (op_binary l r sp op)
  then show ?case
    by (cases "op = CXPR_TOK_AND \<or> op = CXPR_TOK_OR")
      (simp_all add: denote.simps bind_op_handled binary_values_handled)
qed (simp_all add: denote.simps bind_op_handled)

end
