(* ===== verification/Cxpr_Equiv.thy ===== *)
theory Cxpr_Equiv
  imports Cxpr_Meaning
begin

text \<open>
  Compiled programs compute what the tree evaluator computes: the code \<open>cxpr_ir_compile\<close> emits for
  an operator expression, run by \<open>cxpr_ir_exec_typed\<close>, gives the meaning of the expression. Where the
  code disagrees with itself, the condition \<open>lowers\<close> says so, and closed theorems show the disagreement.
\<close>


section \<open>Running a piece of code\<close>

text \<open>\<open>placed code b c\<close>: the code \<open>c\<close> stands in the program from index \<open>b\<close> on.\<close>

fun placed :: "ir_code \<Rightarrow> nat \<Rightarrow> ir_code \<Rightarrow> bool" where
  "placed code b [] \<longleftrightarrow> True"
| "placed code b (i # c) \<longleftrightarrow> b < length code \<and> code ! b = i \<and> placed code (Suc b) c"

lemma placed_append [simp]: "placed code b (c @ c') \<longleftrightarrow> placed code b c \<and> placed code (b + length c) c'"
  by (induction c arbitrary: b) auto

lemma placed_self: "placed (pre @ c @ post) (length pre) c"
proof (induction c arbitrary: pre)
  case (Cons i c)
  from Cons.IH [of "pre @ [i]"] show ?case by simp
qed simp

text \<open>Within \<open>m\<close> dispatches the loop reaches a state, or ends.\<close>

definition evolves :: "('st \<Rightarrow> ('st, 'r) outcome) \<Rightarrow> nat \<Rightarrow> 'st \<Rightarrow> ('st, 'r) outcome \<Rightarrow> bool" where
  "evolves step m st out \<longleftrightarrow>
     (\<exists>n \<le> m. \<forall>k. ir_run step (n + k) st = (case out of Continue st' \<Rightarrow> ir_run step k st' | r \<Rightarrow> Some r))"

lemma evolves_step: "step st = out \<Longrightarrow> evolves step 1 st out"
  unfolding evolves_def by (rule exI [of _ 1]) (auto split: outcome.split)

lemma evolves_le: "evolves step m st out \<Longrightarrow> m \<le> n \<Longrightarrow> evolves step n st out"
  unfolding evolves_def by (meson order_trans)

lemma evolves_now: "step st = out \<Longrightarrow> 1 \<le> n \<Longrightarrow> evolves step n st out"
  by (rule evolves_le [OF evolves_step])

lemma evolves_then:
  assumes "evolves step m st (Continue st1)" "evolves step m' st1 out" "m + m' \<le> n"
  shows "evolves step n st out"
proof -
  from assms(1,2) obtain i j where ij: "i \<le> m" "j \<le> m'" "\<And>k. ir_run step (i + k) st = ir_run step k st1"
      "\<And>k. ir_run step (j + k) st1 = (case out of Continue st' \<Rightarrow> ir_run step k st' | r \<Rightarrow> Some r)"
    unfolding evolves_def by auto
  have "ir_run step (i + j + k) st = (case out of Continue st' \<Rightarrow> ir_run step k st' | r \<Rightarrow> Some r)" for k
    using ij(3) [of "j + k"] ij(4) [of k] by (simp add: add.assoc)
  with ij(1,2) assms(3) show ?thesis
    unfolding evolves_def by (intro exI [of _ "i + j"]) simp
qed

text \<open>The state at an instruction: its index, the stack and the frames; the look-back registers stay.\<close>

definition at :: "'f typed_state \<Rightarrow> nat \<Rightarrow> cxpr_value list \<Rightarrow> 'f list \<Rightarrow> 'f typed_state" where
  "at st ip s cs = st\<lparr>ty_ip := ip, ty_stack := s, ty_frames := cs\<rparr>"

lemma at_simps [simp]:
  "ty_ip (at st ip s cs) = ip" "ty_stack (at st ip s cs) = s" "ty_frames (at st ip s cs) = cs"
  "ty_depth (at st ip s cs) = ty_depth st"
  "(at st ip s cs)\<lparr>ty_ip := ip'\<rparr> = at st ip' s cs" "(at st ip s cs)\<lparr>ty_stack := s'\<rparr> = at st ip s' cs"
  "(at st ip s cs)\<lparr>ty_frames := cs'\<rparr> = at st ip s cs'"
  by (simp_all add: at_def)

lemma at_start: "typed_start cs = at (typed_start cs) 0 [] cs"
  by (simp add: at_def typed_start_def)

abbreviation typed_at :: "'f typed_env \<Rightarrow> ir_code \<Rightarrow> 'f typed_state \<Rightarrow> nat \<Rightarrow> cxpr_value list \<Rightarrow> 'f list \<Rightarrow> 'f typed_out" where
  "typed_at tx code st ip s cs \<equiv> typed_step tx code [] (at st ip s cs)"

lemma plain_sel [simp]:
  "in_op (plain_instr op) = op" "in_index (plain_instr op) = 0" "in_name (plain_instr op) = ''''"
  by (simp_all add: plain_instr_def)

lemma step_push:
  assumes "ip < length code" "typed_loads tx [] (code ! ip) (at st ip s cs) = Some (cxpr_ir_stack_push v (at st ip s cs'))"
    "length s < CXPR_IR_STACK_CAPACITY"
  shows "typed_at tx code st ip s cs = Continue (at st (Suc ip) (v # s) cs')"
  using assms by (simp add: typed_step_def Let_def cxpr_ir_stack_push_def)

lemma nonzero_of_bool [simp]: "dbl_nonzero (dbl_of_bool b) = b"
  by (cases b) (simp_all add: dbl_nonzero_def dbl_of_bool_def, code_simp+)

lemma step_bool:
  "ip < length code \<Longrightarrow> code ! ip = bool_instr b \<Longrightarrow> length s < CXPR_IR_STACK_CAPACITY \<Longrightarrow>
   typed_at tx code st ip s cs = Continue (at st (Suc ip) (cxpr_bool b # s) cs)"
  by (rule step_push) (simp_all add: typed_loads_def)

lemma step_jump:
  "ip < length code \<Longrightarrow> code ! ip = jump_to CXPR_OP_JUMP t \<Longrightarrow> typed_at tx code st ip s cs = Continue (at st t s cs)"
  by (simp add: typed_step_def Let_def typed_loads_def typed_operators_def typed_binary_def typed_unary_def typed_control_def)

lemma step_jump_if:
  assumes "ip < length code" "code ! ip = jump_to (if sense then CXPR_OP_JUMP_IF_TRUE else CXPR_OP_JUMP_IF_FALSE) t"
  shows "typed_at tx code st ip (v # s) cs =
    (case v of cxpr_bool b \<Rightarrow> Continue (at st (if b = sense then t else Suc ip) s cs)
     | _ \<Rightarrow> Error CXPR_ERR_TYPE_MISMATCH ''Conditional jump requires bool operand'' (at st ip s cs))"
  using assms
  by (cases sense; cases v) (simp_all add: typed_step_def Let_def typed_loads_def typed_operators_def typed_binary_def
      typed_unary_def typed_control_def typed_jump_if_def cxpr_ir_pop1_def)

lemma step_unary:
  assumes "ip < length code" "typed_unary (in_op (code ! ip)) = Some f"
  shows "typed_at tx code st ip (v # s) cs = push_result (f v) (at st ip s cs)"
proof -
  have "typed_loads tx [] (code ! ip) (at st ip (v # s) cs) = None" "typed_binary tx (in_op (code ! ip)) = None"
    using assms(2) by (cases "in_op (code ! ip)"; simp add: typed_unary_def typed_loads_def typed_binary_def)+
  with assms show ?thesis by (simp add: typed_step_def Let_def typed_operators_def cxpr_ir_pop1_def)
qed

lemma step_binary:
  assumes "ip < length code" "typed_binary tx (in_op (code ! ip)) = Some f"
  shows "typed_at tx code st ip (b # a # s) cs = push_result (f a b) (at st ip s cs)"
proof -
  have "typed_loads tx [] (code ! ip) (at st ip (b # a # s) cs) = None"
    using assms(2) by (cases "in_op (code ! ip)") (simp_all add: typed_loads_def typed_binary_def)
  with assms show ?thesis by (simp add: typed_step_def Let_def typed_operators_def cxpr_ir_pop2_def)
qed


section \<open>Code that computes a meaning\<close>

text \<open>Within \<open>m\<close> dispatches a run comes to \<open>ip'\<close> with the value \<open>r\<close> pushed on \<open>s'\<close>, fails as \<open>r\<close> does,
  or crashes where \<open>r\<close> is undefined.\<close>

definition continues :: "'f typed_env \<Rightarrow> ('f list \<Rightarrow> bool) \<Rightarrow> ir_code \<Rightarrow> 'f typed_state \<Rightarrow> nat \<Rightarrow> cxpr_value list \<Rightarrow> 'f list
    \<Rightarrow> nat \<Rightarrow> nat \<Rightarrow> cxpr_value list \<Rightarrow> cxpr_value op_result \<Rightarrow> bool" where
  "continues tx good code st ip s cs m ip' s' r \<longleftrightarrow>
     (case r of
        Handled w \<Rightarrow> \<exists>cs'. good cs' \<and> evolves (typed_step tx code []) m (at st ip s cs) (Continue (at st ip' (w # s') cs'))
      | Failed e msg \<Rightarrow> \<exists>e' msg' st'. same_code e e' \<and> evolves (typed_step tx code []) m (at st ip s cs) (Error e' msg' st')
      | Undefined \<Rightarrow> evolves (typed_step tx code []) m (at st ip s cs) Crash
      | NotHandled \<Rightarrow> True)"

lemma continues_vacuous [simp]: "continues tx good code st ip s cs m ip' s' NotHandled"
  by (simp add: continues_def)

text \<open>\<open>yields tx good r need b c\<close>: run from its first instruction on a stack with room for \<open>need\<close> values,
  outside look-back, the code \<open>c\<close> placed at \<open>b\<close> pushes the value \<open>r\<close> and ends after its last
  instruction, fails as \<open>r\<close> does or crashes where \<open>r\<close> is undefined, in at most as many dispatches as it has instructions.\<close>

definition yields :: "'f typed_env \<Rightarrow> ('f list \<Rightarrow> bool) \<Rightarrow> cxpr_value op_result \<Rightarrow> nat \<Rightarrow> nat \<Rightarrow> ir_code \<Rightarrow> bool" where
  "yields tx good r need b c \<longleftrightarrow>
     (\<forall>code st s cs. placed code b c \<longrightarrow> ty_depth st = 0 \<longrightarrow> good cs \<longrightarrow> length s + need \<le> CXPR_IR_STACK_CAPACITY \<longrightarrow>
        continues tx good code st b s cs (length c) (b + length c) s r)"

lemma yields_more: "yields tx good r need b c \<Longrightarrow> need \<le> need' \<Longrightarrow> yields tx good r need' b c"
  unfolding yields_def by auto

lemma yieldsI:
  assumes "\<And>code st s cs. placed code b c \<Longrightarrow> ty_depth st = 0 \<Longrightarrow> good cs \<Longrightarrow> length s + need \<le> CXPR_IR_STACK_CAPACITY \<Longrightarrow>
    continues tx good code st b s cs (length c) (b + length c) s r"
  shows "yields tx good r need b c"
  using assms by (simp add: yields_def)

lemma yieldsD:
  "yields tx good r need b c \<Longrightarrow> placed code b c \<Longrightarrow> ty_depth st = 0 \<Longrightarrow> good cs \<Longrightarrow>
   length s + need \<le> CXPR_IR_STACK_CAPACITY \<Longrightarrow> ip = b + length c \<Longrightarrow> continues tx good code st b s cs (length c) ip s r"
  by (simp add: yields_def)

text \<open>A run that passes a part with result \<open>r\<close> and goes on as \<open>k\<close> says.\<close>

lemma continues_bind:
  assumes "continues tx good code st ip s cs m ip1 s1 r" "m + m' \<le> n"
    and "\<And>v cs1. r = Handled v \<Longrightarrow> good cs1 \<Longrightarrow> continues tx good code st ip1 (v # s1) cs1 m' ip' s' (k v)"
  shows "continues tx good code st ip s cs n ip' s' (bind_op r k)"
proof (cases r)
  case (Handled v)
  with assms(1) obtain cs1 where 1: "good cs1"
      "evolves (typed_step tx code []) m (at st ip s cs) (Continue (at st ip1 (v # s1) cs1))"
    by (auto simp: continues_def)
  with assms(2) assms(3) [OF Handled 1(1)] Handled show ?thesis
    by (cases "k v") (auto simp: continues_def intro: evolves_then)
next
  case (Failed e msg)
  with assms(1,2) show ?thesis by (fastforce simp: continues_def dest: evolves_le [of _ m _ _ n])
next
  case Undefined
  with assms(1,2) show ?thesis by (auto simp: continues_def elim: evolves_le)
qed simp

text \<open>A dispatch that goes on to another state.\<close>

lemma continues_step:
  assumes "typed_at tx code st ip s cs = Continue (at st ip1 s1 cs1)" "m + 1 \<le> n"
    and "continues tx good code st ip1 s1 cs1 m ip' s' r"
  shows "continues tx good code st ip s cs n ip' s' r"
  using assms evolves_then [OF evolves_step [of "typed_step tx code []", OF assms(1)]]
  by (cases r) (fastforce simp: continues_def)+

lemma continues_value:
  "typed_at tx code st ip s cs = Continue (at st ip' (v # s') cs') \<Longrightarrow> good cs' \<Longrightarrow> 1 \<le> n \<Longrightarrow>
   continues tx good code st ip s cs n ip' s' (Handled v)"
  unfolding continues_def by (auto dest: evolves_now)

lemma continues_error:
  "typed_at tx code st ip s cs = Error e' m' st' \<Longrightarrow> same_code e e' \<Longrightarrow> 1 \<le> n \<Longrightarrow>
   continues tx good code st ip s cs n ip' s' (Failed e m)"
  unfolding continues_def by (simp, metis evolves_now One_nat_def)

lemma continues_crash:
  "typed_at tx code st ip s cs = Crash \<Longrightarrow> 1 \<le> n \<Longrightarrow> continues tx good code st ip s cs n ip' s' Undefined"
  unfolding continues_def by (auto intro: evolves_now)

lemma continues_result:
  assumes "typed_at tx code st ip s cs = push_result r' (at st ip s' cs)" "same_result r r'" "good cs"
    "length s' < CXPR_IR_STACK_CAPACITY"
  shows "continues tx good code st ip s cs 1 (Suc ip) s' r"
  using assms
  by (cases r) (auto simp: cxpr_ir_stack_push_def intro!: continues_value continues_error continues_crash)

lemma yields_unary:
  assumes "yields tx good r need b c" "0 < need" "typed_unary (in_op i) = Some f" "\<And>v. same_result (g v) (f v)"
  shows "yields tx good (bind_op r g) need b (c @ [i])"
proof (rule yieldsI)
  fix code cs and s :: "cxpr_value list" and st :: "'a typed_state"
  assume a: "placed code b (c @ [i])" "ty_depth st = 0" "good cs" "length s + need \<le> CXPR_IR_STACK_CAPACITY"
  show "continues tx good code st b s cs (length (c @ [i])) (b + length (c @ [i])) s (bind_op r g)"
  proof (rule continues_bind)
    show "continues tx good code st b s cs (length c) (b + length c) s r"
      by (rule yieldsD [OF assms(1)]) (use a in simp_all)
    show "continues tx good code st (b + length c) (v # s) cs1 1 (b + length (c @ [i])) s (g v)" if "good cs1" for v cs1
      using continues_result [of tx code st "b + length c" "v # s" cs1 "f v" s "g v" good] that a assms(2,4)
        step_unary [of "b + length c" code f tx st v s cs1] assms(3) by simp
  qed simp
qed

lemma yields_binary:
  assumes "yields tx good rl n b cl" "yields tx good rr n' (b + length cl) cr" "n \<le> need" "Suc n' \<le> need"
    "typed_binary tx (in_op i) = Some f" "\<And>v w. same_result (g v w) (f v w)"
  shows "yields tx good (bind_op rl (\<lambda>v. bind_op rr (g v))) need b (cl @ cr @ [i])"
proof (rule yieldsI)
  fix code cs and s :: "cxpr_value list" and st :: "'a typed_state"
  assume a: "placed code b (cl @ cr @ [i])" "ty_depth st = 0" "good cs" "length s + need \<le> CXPR_IR_STACK_CAPACITY"
  show "continues tx good code st b s cs (length (cl @ cr @ [i])) (b + length (cl @ cr @ [i])) s
      (bind_op rl (\<lambda>v. bind_op rr (g v)))"
  proof (rule continues_bind [where m' = "length cr + 1"], rule yieldsD [OF assms(1)])
    fix v cs1 assume "good cs1"
    show "continues tx good code st (b + length cl) (v # s) cs1 (length cr + 1) (b + length (cl @ cr @ [i])) s (bind_op rr (g v))"
    proof (rule continues_bind, rule yieldsD [OF assms(2)])
      fix w cs2 assume "good cs2"
      with a assms(4,5,6) show "continues tx good code st (b + length cl + length cr) (w # v # s) cs2 1 (b + length (cl @ cr @ [i])) s (g v w)"
        using continues_result [of tx code st "b + length cl + length cr" "w # v # s" cs2 "f v w" s "g v w" good]
          step_binary [of "b + length cl + length cr" code tx f st w v s cs2] by (simp add: add.assoc)
    qed (use a assms(4) \<open>good cs1\<close> in simp_all)
  qed (use a assms(3) in simp_all)
qed

lemma continues_le:
  "continues tx good code st ip s cs m ip' s' r \<Longrightarrow> m \<le> n \<Longrightarrow> continues tx good code st ip s cs n ip' s' r"
  by (cases r) (fastforce simp: continues_def dest: evolves_le [of _ m _ _ n])+

lemma bind_op_Handled: "bind_op r Handled = r"
  by (cases r) simp_all

text \<open>A conditional jump on the value of the part before it.\<close>

lemma continues_jump_if:
  assumes "ip < length code" "code ! ip = jump_to (if sense then CXPR_OP_JUMP_IF_TRUE else CXPR_OP_JUMP_IF_FALSE) t"
    and "\<And>w. v = cxpr_bool w \<Longrightarrow> continues tx good code st (if w = sense then t else Suc ip) s cs m ip' s' (k w)" "m + 1 \<le> n"
  shows "continues tx good code st ip (v # s) cs n ip' s' (bind_op (as_bool msg v) k)"
proof (cases "\<exists>w. v = cxpr_bool w")
  case True
  then obtain w where w: "v = cxpr_bool w" by blast
  show ?thesis unfolding w as_bool_def
    using continues_step [OF _ assms(4) assms(3) [OF w]] step_jump_if [OF assms(1,2), of tx st v s cs] w by simp
next
  case False
  then show ?thesis
    using step_jump_if [OF assms(1,2), of tx st v s cs] assms(4)
    by (cases v) (auto simp: as_bool_def intro: continues_error)
qed

lemma jump_if_ops [simp]: "(if False then CXPR_OP_JUMP_IF_TRUE else CXPR_OP_JUMP_IF_FALSE) = CXPR_OP_JUMP_IF_FALSE"
  by simp

lemma yields_cond:
  assumes "yields tx good rc need b cc" "yields tx good ra need (b + length cc + 1) ca"
    "yields tx good rb need (b + length cc + length ca + 2) cb"
  shows "yields tx good (bind_op rc (\<lambda>v. bind_op (as_bool msg v) (\<lambda>w. if w then ra else rb))) need b (cond_code b cc ca cb)"
proof (rule yieldsI)
  fix code cs and s :: "cxpr_value list" and st :: "'a typed_state"
  assume a: "placed code b (cond_code b cc ca cb)" "ty_depth st = 0" "good cs" "length s + need \<le> CXPR_IR_STACK_CAPACITY"
  let ?j = "b + length cc" and ?e = "b + length (cond_code b cc ca cb)"
  show "continues tx good code st b s cs (length (cond_code b cc ca cb)) ?e s
      (bind_op rc (\<lambda>v. bind_op (as_bool msg v) (\<lambda>w. if w then ra else rb)))"
  proof (rule continues_bind, rule yieldsD [OF assms(1)])
    fix v cs1 assume cs1: "good cs1"
    show "continues tx good code st ?j (v # s) cs1 (length ca + length cb + 2) ?e s
        (bind_op (as_bool msg v) (\<lambda>w. if w then ra else rb))"
    proof (rule continues_jump_if [where sense = False and m = "length ca + length cb + 1"])
      fix w
      have "continues tx good code st (?j + 1) s cs1 (length ca + 1) ?e s (bind_op ra Handled)"
        by (rule continues_bind [where m' = 1], rule yieldsD [OF assms(2)], use a cs1 in \<open>simp_all add: cond_code_def\<close>)
          (rule continues_value, rule step_jump, simp_all)
      then have "continues tx good code st (?j + 1) s cs1 (length ca + length cb + 1) ?e s ra"
        by (simp add: bind_op_Handled continues_le)
      moreover have "continues tx good code st (?j + length ca + 2) s cs1 (length cb) ?e s rb"
        by (rule yieldsD [OF assms(3)]) (use a cs1 in \<open>simp_all add: cond_code_def\<close>)
      ultimately show "continues tx good code st (if w = False then ?j + length ca + 2 else Suc ?j) s cs1
          (length ca + length cb + 1) ?e s (if w then ra else rb)"
        by (auto intro: continues_le)
    qed (use a in \<open>simp_all add: cond_code_def\<close>)
  qed (use a in \<open>simp_all add: cond_code_def\<close>)
qed

text \<open>The tail that turns the right operand of a logical operator into a boolean.\<close>

lemma continues_logic_tail:
  assumes "\<And>cs1. good cs1 \<Longrightarrow> continues tx good code st ip s cs1 m jp s rr" "good cs" "length s < CXPR_IR_STACK_CAPACITY"
    "jp + 2 < length code" "code ! jp = jump_to CXPR_OP_JUMP_IF_FALSE f" "code ! (jp + 1) = bool_instr True"
    "code ! (jp + 2) = jump_to CXPR_OP_JUMP e" "f < length code" "code ! f = bool_instr False" "e = Suc f" "m + 3 \<le> n"
  shows "continues tx good code st ip s cs n e s
    (bind_op rr (\<lambda>u. bind_op (as_bool msg u) (\<lambda>c. Handled (cxpr_bool c))))"
proof (rule continues_bind [OF assms(1) [OF assms(2)]])
  fix u cs1 assume cs1: "good cs1"
  show "continues tx good code st jp (u # s) cs1 3 e s (bind_op (as_bool msg u) (\<lambda>c. Handled (cxpr_bool c)))"
  proof (rule continues_jump_if [where sense = False and m = 2 and t = f])
    fix w
    have s1: "typed_at tx code st (jp + 1) s cs1 = Continue (at st (jp + 2) (cxpr_bool True # s) cs1)"
      using step_bool [of "jp + 1" code True s tx st cs1] assms(3-10) by simp
    have s2: "typed_at tx code st (jp + 2) (cxpr_bool True # s) cs1 = Continue (at st e (cxpr_bool True # s) cs1)"
      using step_jump [of "jp + 2" code e tx st] assms(3-10) by simp
    have "continues tx good code st (jp + 1) s cs1 2 e s (Handled (cxpr_bool True))"
      by (rule continues_step [where m = 1, OF s1 _ continues_value [where good = good, OF s2 cs1]]) simp_all
    moreover have "typed_at tx code st f s cs1 = Continue (at st e (cxpr_bool False # s) cs1)"
      using step_bool [of f code False s tx st cs1] assms(3-10) by simp
    then have "continues tx good code st f s cs1 2 e s (Handled (cxpr_bool False))"
      using cs1 by (intro continues_value) auto
    ultimately show "continues tx good code st (if w = False then f else Suc jp) s cs1 2 e s (Handled (cxpr_bool w))"
      by (cases w) simp_all
  qed (use assms(3-11) in simp_all)
qed (use assms(3-11) in simp_all)

lemma yields_and:
  assumes "yields tx good rl need b cl" "yields tx good rr need (b + length cl + 1) cr" "0 < need"
  shows "yields tx good (bind_op rl (\<lambda>v. bind_op (as_bool msg v) (\<lambda>w. if w = False then Handled (cxpr_bool w)
     else bind_op rr (\<lambda>u. bind_op (as_bool msg u) (\<lambda>c. Handled (cxpr_bool c)))))) need b (and_code b cl cr)"
proof (rule yieldsI)
  fix code cs and s :: "cxpr_value list" and st :: "'a typed_state"
  assume a: "placed code b (and_code b cl cr)" "ty_depth st = 0" "good cs" "length s + need \<le> CXPR_IR_STACK_CAPACITY"
  let ?j = "b + length cl" and ?e = "b + length (and_code b cl cr)"
    and ?t = "bind_op rr (\<lambda>u. bind_op (as_bool msg u) (\<lambda>c. Handled (cxpr_bool c)))"
  show "continues tx good code st b s cs (length (and_code b cl cr)) ?e s
      (bind_op rl (\<lambda>v. bind_op (as_bool msg v) (\<lambda>w. if w = False then Handled (cxpr_bool w) else ?t)))"
  proof (rule continues_bind, rule yieldsD [OF assms(1)])
    fix v cs1 assume cs1: "good cs1"
    show "continues tx good code st ?j (v # s) cs1 (length cr + 4) ?e s
        (bind_op (as_bool msg v) (\<lambda>w. if w = False then Handled (cxpr_bool w) else ?t))"
    proof (rule continues_jump_if [where sense = False and m = "length cr + 3"])
      fix w
      have "typed_at tx code st (?j + length cr + 4) s cs1 = Continue (at st ?e (cxpr_bool False # s) cs1)"
        using step_bool [of "?j + length cr + 4" code False s tx st cs1] a assms(3) by (simp add: and_code_def eval_nat_numeral add.assoc)
      then have "continues tx good code st (?j + length cr + 4) s cs1 (length cr + 3) ?e s (Handled (cxpr_bool False))"
        using cs1 by (intro continues_value) auto
      moreover have "continues tx good code st (?j + 1) s cs1 (length cr + 3) ?e s ?t"
        by (rule continues_logic_tail [where jp = "?j + 1 + length cr" and f = "?j + length cr + 4"], rule yieldsD [OF assms(2)])
          (use a cs1 assms(3) in \<open>simp_all add: and_code_def eval_nat_numeral add.assoc\<close>)
      ultimately show "continues tx good code st (if w = False then ?j + length cr + 4 else Suc ?j) s cs1
          (length cr + 3) ?e s (if w = False then Handled (cxpr_bool w) else ?t)"
        by (cases w) simp_all
    qed (use a in \<open>simp_all add: and_code_def eval_nat_numeral add.assoc\<close>)
  qed (use a in \<open>simp_all add: and_code_def eval_nat_numeral add.assoc\<close>)
qed

lemma yields_or:
  assumes "yields tx good rl need b cl" "yields tx good rr need (b + length cl + 1) cr" "0 < need"
  shows "yields tx good (bind_op rl (\<lambda>v. bind_op (as_bool msg v) (\<lambda>w. if w then Handled (cxpr_bool w)
     else bind_op rr (\<lambda>u. bind_op (as_bool msg u) (\<lambda>c. Handled (cxpr_bool c)))))) need b (or_code b cl cr)"
proof (rule yieldsI)
  fix code cs and s :: "cxpr_value list" and st :: "'a typed_state"
  assume a: "placed code b (or_code b cl cr)" "ty_depth st = 0" "good cs" "length s + need \<le> CXPR_IR_STACK_CAPACITY"
  let ?j = "b + length cl" and ?e = "b + length (or_code b cl cr)"
    and ?t = "bind_op rr (\<lambda>u. bind_op (as_bool msg u) (\<lambda>c. Handled (cxpr_bool c)))"
  show "continues tx good code st b s cs (length (or_code b cl cr)) ?e s
      (bind_op rl (\<lambda>v. bind_op (as_bool msg v) (\<lambda>w. if w then Handled (cxpr_bool w) else ?t)))"
  proof (rule continues_bind, rule yieldsD [OF assms(1)])
    fix v cs1 assume cs1: "good cs1"
    show "continues tx good code st ?j (v # s) cs1 (length cr + 6) ?e s
        (bind_op (as_bool msg v) (\<lambda>w. if w then Handled (cxpr_bool w) else ?t))"
    proof (rule continues_jump_if [where sense = True and m = "length cr + 5"])
      fix w
      have s: "typed_at tx code st (?j + length cr + 4) s cs1 = Continue (at st (?j + length cr + 5) (cxpr_bool True # s) cs1)"
        "typed_at tx code st (?j + length cr + 5) (cxpr_bool True # s) cs1 = Continue (at st ?e (cxpr_bool True # s) cs1)"
        using step_bool [of "?j + length cr + 4" code True s tx st cs1] step_jump [of "?j + length cr + 5" code ?e tx st]
          a assms(3) by (simp_all add: or_code_def eval_nat_numeral add.assoc)
      have "continues tx good code st (?j + length cr + 4) s cs1 (length cr + 5) ?e s (Handled (cxpr_bool True))"
        by (rule continues_step [where m = 1, OF s(1) _ continues_value [where good = good, OF s(2) cs1]]) simp_all
      moreover have "continues tx good code st (?j + 1) s cs1 (length cr + 5) ?e s ?t"
        by (rule continues_logic_tail [where jp = "?j + 1 + length cr" and f = "?j + length cr + 6"], rule yieldsD [OF assms(2)])
          (use a cs1 assms(3) in \<open>simp_all add: or_code_def eval_nat_numeral add.assoc\<close>)
      ultimately show "continues tx good code st (if w = True then ?j + length cr + 4 else Suc ?j) s cs1
          (length cr + 5) ?e s (if w then Handled (cxpr_bool w) else ?t)"
        by (cases w) simp_all
    qed (use a in \<open>simp_all add: or_code_def eval_nat_numeral add.assoc\<close>)
  qed (use a in \<open>simp_all add: or_code_def eval_nat_numeral add.assoc\<close>)
qed


section \<open>Leaves\<close>

lemma yields_push:
  assumes "\<And>st. typed_loads tx [] i st = Some (cxpr_ir_stack_push v st)"
  shows "yields tx good (Handled v) 1 b [i]"
proof (rule yieldsI)
  fix code cs and s :: "cxpr_value list" and st :: "'a typed_state"
  assume a: "placed code b [i]" "good cs" "length s + 1 \<le> CXPR_IR_STACK_CAPACITY"
  then have "typed_at tx code st b s cs = Continue (at st (Suc b) (v # s) cs)"
    using step_push [of b code tx st s cs v cs] assms by auto
  with a show "continues tx good code st b s cs (length [i]) (b + length [i]) s (Handled v)"
    by (auto intro: continues_value)
qed

lemma constant_push:
  "constant_instr v = Some i \<Longrightarrow> yields tx good (Handled v) 1 b [i]"
  by (rule yields_push) (cases v rule: constant_instr.cases; auto simp: typed_loads_def)

definition square_value :: "cxpr_value \<Rightarrow> cxpr_value op_result" where
  "square_value v =
     (case v of cxpr_num d \<Rightarrow> Handled (cxpr_num (dbl_mul d d))
      | _ \<Rightarrow> Failed CXPR_ERR_TYPE_MISMATCH ''Square operation requires double operand'')"

abbreviation load_instr :: "cxpr_opcode \<Rightarrow> string \<Rightarrow> cxpr_expr_ast option \<Rightarrow> cxpr_ir_instr" where
  "load_instr op n a \<equiv> (plain_instr op)\<lparr>in_name := n, in_ast := a, in_hash := cxpr_hash_string n\<rparr>"

text \<open>A load of a value that was found, or was not.\<close>

lemma yields_load:
  assumes step: "\<And>st cs. ty_depth st = 0 \<Longrightarrow> good cs \<Longrightarrow> ty_frames st = cs \<Longrightarrow>
      \<exists>cs'. good cs' \<and> typed_loads tx [] i st =
        Some (ty_then (case x of None \<Rightarrow> ir_not_found m' cs' | Some v \<Rightarrow> (v, cs', Ok)) st (push_loaded square))"
  shows "yields tx good (bind_op (found m x) (if square then square_value else Handled)) 1 b [i]"
proof (rule yieldsI)
  fix code cs and s :: "cxpr_value list" and st :: "'a typed_state"
  assume a: "placed code b [i]" "ty_depth st = 0" "good cs" "length s + 1 \<le> CXPR_IR_STACK_CAPACITY"
  obtain cs' where cs': "good cs'" "typed_at tx code st b s cs =
      ty_then (case x of None \<Rightarrow> ir_not_found m' cs' | Some v \<Rightarrow> (v, cs', Ok)) (at st b s cs) (push_loaded square)"
    using step [of "at st b s cs" cs] a by (auto simp: typed_step_def)
  show "continues tx good code st b s cs (length [i]) (b + length [i]) s
      (bind_op (found m x) (if square then square_value else Handled))"
  proof (cases x)
    case None
    with cs'(2) have "\<exists>st'. typed_at tx code st b s cs = Error CXPR_ERR_UNKNOWN_IDENTIFIER m' st'"
      by (auto simp: ty_then_def ir_error_def)
    with None show ?thesis by (auto simp: found_def intro: continues_error)
  next
    case (Some v)
    with cs'(2) have "typed_at tx code st b s cs = push_loaded square v (at st b s cs')"
      by (simp add: ty_then_def)
    with Some a cs'(1) show ?thesis
      by (cases square; cases v) (auto simp: found_def push_loaded_def square_value_def cxpr_ir_push_squared_def
          cxpr_ir_stack_push_def intro!: continues_value continues_error)
  qed
qed

context lookups
begin

lemma load_variable:
  assumes "good cs" "in_hash i = cxpr_hash_string (in_name i)"
  shows "\<exists>cs'. good cs' \<and> cxpr_ir_load_variable_typed tx ip i cs = (bd_vars bd (in_name i), cs')"
proof (cases "Option.bind (ev_scope (tx_env tx) cs) (\<lambda>scope. scope (in_name i))")
  case (Some v)
  then have "bd_vars bd (in_name i) = Some v" using scope_law [OF assms(1)] by (auto simp: bind_eq_Some_conv)
  with Some assms(1) show ?thesis by (auto simp: cxpr_ir_load_variable_typed_def)
next
  case None
  obtain cs1 where 1: "ev_get_typed (tx_env tx) (in_name i) cs = (bd_vars bd (in_name i), cs1)" "good cs1"
    using typed_law [OF assms(1)] by blast
  show ?thesis
  proof (cases "bd_vars bd (in_name i)")
    case None': None
    obtain cs2 where "tx_scalar tx ip i False cs1 = (None, cs2)" "good cs2"
      using scalar_law [OF 1(2) None' assms(2)] by blast
    with None None' 1 show ?thesis by (simp add: cxpr_ir_load_variable_typed_def)
  next
    case (Some v)
    with None 1 show ?thesis by (simp add: cxpr_ir_load_variable_typed_def)
  qed
qed

lemma yields_load_var:
  "yields tx good (bind_op (found m (bd_vars bd n)) (if square then square_value else Handled)) 1 b
     [load_instr (if square then CXPR_OP_LOAD_VAR_SQUARE else CXPR_OP_LOAD_VAR) n a]"
proof (rule yields_load)
  let ?i = "load_instr (if square then CXPR_OP_LOAD_VAR_SQUARE else CXPR_OP_LOAD_VAR) n a"
  fix cs and st :: "'f typed_state"
  assume st: "ty_depth st = 0" "good cs" "ty_frames st = cs"
  obtain cs' where "good cs'" "cxpr_ir_load_variable_typed tx (ty_ip st) ?i cs = (bd_vars bd n, cs')"
    using load_variable [OF st(2), of ?i "ty_ip st"] by auto
  with st show "\<exists>cs'. good cs' \<and> typed_loads tx [] ?i st =
      Some (ty_then (case bd_vars bd n of None \<Rightarrow> ir_not_found (cxpr_ir_unknown_identifier_message ?i) cs' | Some v \<Rightarrow> (v, cs', Ok))
        st (push_loaded square))"
    by (cases square) (auto simp: typed_loads_def typed_load_var_def resolve_loaded_def)
qed

lemma yields_load_param:
  assumes "plain n" "square \<Longrightarrow> bd_params bd n \<in> insert None (range (Some \<circ> cxpr_num))"
  shows "yields tx good (bind_op (found m (bd_params bd n)) (if square then square_value else Handled)) 1 b
     [load_instr (if square then CXPR_OP_LOAD_PARAM_SQUARE else CXPR_OP_LOAD_PARAM) n None]"
proof (rule yields_load)
  let ?i = "load_instr (if square then CXPR_OP_LOAD_PARAM_SQUARE else CXPR_OP_LOAD_PARAM) n None"
  fix cs and st :: "'f typed_state"
  assume st: "ty_depth st = 0" "good cs" "ty_frames st = cs"
  show "\<exists>cs'. good cs' \<and> typed_loads tx [] ?i st =
      Some (ty_then (case bd_params bd n of None \<Rightarrow> ir_not_found (cxpr_ir_unknown_param_message ?i) cs' | Some v \<Rightarrow> (v, cs', Ok))
        st (push_loaded square))"
  proof (cases square)
    case True
    then obtain d cs' where "tx_scalar tx (ty_ip st) ?i True cs = (d, cs')" "map_option cxpr_num d = bd_params bd n" "good cs'"
      using param_number [OF st(2), of ?i "ty_ip st"] assms by auto
    with True st show ?thesis
      by (cases d) (auto simp: typed_loads_def typed_load_param_def dest!: sym [of "map_option _ _"] sym [of "Some _"])
  next
    case False
    obtain cs' where "param_lookups tx (ty_ip st) ?i cs = (bd_params bd n, cs')" "good cs'"
      using param_kinds [OF st(2), of ?i "ty_ip st"] assms by auto
    with False st show ?thesis
      by (auto simp: typed_loads_def typed_load_param_def param_lookups_def Let_def split: option.splits prod.splits)
  qed
qed

end


section \<open>Compiled code computes the meaning\<close>

text \<open>
  The conditions under which lowering keeps the meaning, at every node of the tree: a parameter is
  \<open>plain\<close>; the operand of a product of equal trees, which is compiled to a square, is a number where it
  has a value; and the right operand of a logical operator whose left operand was folded away is a
  boolean where it has a value. \<open>regards\<close> is the last two on a meaning.
\<close>

definition regards :: "cxpr_value_type \<Rightarrow> cxpr_value op_result \<Rightarrow> bool" where
  "regards t r \<longleftrightarrow> (case r of Handled v \<Rightarrow> value_type v = t | _ \<Rightarrow> True)"

fun lowers :: "bindings \<Rightarrow> (string \<Rightarrow> bool) \<Rightarrow> cxpr_registry \<Rightarrow> cxpr_expr_ast \<Rightarrow> bool" where
  "lowers bd plain reg (Ast sp d) =
     (case d of
        CXPR_NODE_VARIABLE n \<Rightarrow> plain n
      | CXPR_NODE_UNARY_OP op a \<Rightarrow> lowers bd plain reg a
      | CXPR_NODE_BINARY_OP op l r \<Rightarrow>
          lowers bd plain reg l \<and> lowers bd plain reg r \<and>
          (op = CXPR_TOK_STAR \<and> cxpr_ir_ast_equal l r \<longrightarrow> regards CXPR_VALUE_NUMBER (denote bd l)) \<and>
          (op \<in> {CXPR_TOK_AND, CXPR_TOK_OR} \<and>
           cxpr_ir_constant_typed_value (bd_pow bd) reg l = Some (cxpr_bool (op = CXPR_TOK_AND)) \<longrightarrow>
           regards CXPR_VALUE_BOOL (denote bd r))
      | CXPR_NODE_TERNARY c a b \<Rightarrow> lowers bd plain reg c \<and> lowers bd plain reg a \<and> lowers bd plain reg b
      | _ \<Rightarrow> True)"

declare lowers.simps [simp del]

text \<open>The stack a compiled operator tree needs.\<close>

fun op_need :: "cxpr_expr_ast \<Rightarrow> nat" where
  "op_need (Ast sp d) =
     (case d of
        CXPR_NODE_UNARY_OP op a \<Rightarrow> op_need a
      | CXPR_NODE_BINARY_OP op l r \<Rightarrow>
          max (op_need l) (if op = CXPR_TOK_AND \<or> op = CXPR_TOK_OR then op_need r else Suc (op_need r))
      | CXPR_NODE_TERNARY c a b \<Rightarrow> max (op_need c) (max (op_need a) (op_need b))
      | _ \<Rightarrow> 1)"

declare op_need.simps [simp del]

lemma op_need_pos: "op_tree t \<Longrightarrow> 0 < op_need t"
  by (induction rule: op_tree.induct) (auto simp: op_need.simps less_max_iff_disj)

lemma bind_op_cases: "bind_op r k = bind_op r k' \<longleftrightarrow> (\<forall>v. r = Handled v \<longrightarrow> k v = k' v)"
  by (cases r) auto

lemma appends_yields_more:
  "appends f (yields tx good r n) \<Longrightarrow> n \<le> n' \<Longrightarrow> appends f (yields tx good r n')"
  by (erule appends_mono) (rule yields_more)

lemma leaf_appends:
  "(\<And>b. yields tx good r 1 b [i]) \<Longrightarrow> 0 < need \<Longrightarrow> appends (emit env i) (yields tx good r need)"
  by (rule appends_emit) (rule yields_more, auto)

lemma square_meaning:
  assumes "denote bd l = denote bd r" "regards CXPR_VALUE_NUMBER (denote bd l)"
  shows "denote bd (Ast sp (CXPR_NODE_BINARY_OP CXPR_TOK_STAR l r)) = bind_op (denote bd l) square_value"
proof (cases "denote bd r")
  case (Handled v)
  with assms obtain d where "v = cxpr_num d" by (cases v) (auto simp: regards_def)
  with Handled assms(1) show ?thesis
    by (simp add: denote.simps square_value_def cxpr_eval_binary_values_def arith_tokens_def cxpr_eval_arithmetic_op_def)
qed (use assms(1) in \<open>simp_all add: denote.simps\<close>)

lemma square_op: "\<exists>f. typed_unary CXPR_OP_SQUARE = Some f \<and> (\<forall>v. same_result (square_value v) (f v))"
  by (simp add: typed_unary_def square_value_def split: cxpr_value.split)

lemma folded_logic:
  assumes "denote bd l = Handled (cxpr_bool (op = CXPR_TOK_AND))" "op = CXPR_TOK_AND \<or> op = CXPR_TOK_OR"
    "regards CXPR_VALUE_BOOL (denote bd r)"
  shows "denote bd (Ast sp (CXPR_NODE_BINARY_OP op l r)) = denote bd r"
proof (cases "denote bd r")
  case (Handled v)
  with assms(3) obtain b where "v = cxpr_bool b" by (cases v) (auto simp: regards_def)
  with Handled assms(1,2) show ?thesis by (auto simp: denote.simps as_bool_def)
qed (use assms(1,2) in \<open>auto simp: denote.simps as_bool_def\<close>)

lemma constant_bool_denotes:
  "op_tree l \<Longrightarrow> ce_pow env = bd_pow bd \<Longrightarrow> constant_bool env l = Some b \<Longrightarrow> denote bd l = Handled (cxpr_bool b)"
  using fold_denotes [of l bd "ce_reg env" "cxpr_bool b"]
  by (auto simp: constant_bool_def split: option.splits cxpr_value.splits)

context lookups
begin

text \<open>The square of a leaf has an instruction of its own; another operand is computed and squared.\<close>

lemma leaf_load_yields:
  assumes "op_tree l" "lowers bd plain reg l" "regards CXPR_VALUE_NUMBER (denote bd l)" "ce_locals env = []" "0 < need"
  shows "appends (cxpr_ir_emit_leaf_load env [] True l) (yields tx good (bind_op (denote bd l) square_value) need)"
  using assms(1)
proof cases
  case (op_identifier sp n)
  show ?thesis unfolding op_identifier
    using leaf_appends [OF yields_load_var [where square = True and a = None], OF assms(5)] assms(4)
    by (intro appends_ext [OF cxpr_ir_emit_leaf_load.simps]) (simp add: cxpr_ir_local_index_def denote.simps plain_instr_def)
next
  case (op_variable sp n)
  have "bd_params bd n \<in> insert None (range (Some \<circ> cxpr_num))"
    using assms(3) op_variable by (cases "bd_params bd n"; cases "the (bd_params bd n)")
      (auto simp: regards_def denote.simps found_def)
  moreover have "plain n" using assms(2) op_variable by (simp add: lowers.simps)
  ultimately show ?thesis unfolding op_variable
    using leaf_appends [OF yields_load_param [where square = True], OF _ _ assms(5)]
    by (intro appends_ext [OF cxpr_ir_emit_leaf_load.simps]) (simp add: denote.simps plain_instr_def)
qed (hypsubst, intro appends_ext [OF cxpr_ir_emit_leaf_load.simps], simp)+

end

abbreviation folded :: "compile_env \<Rightarrow> cxpr_expr_ast \<Rightarrow> cxpr_ir_instr option" where
  "folded env t \<equiv> Option.bind (cxpr_ir_constant_typed_value (ce_pow env) (ce_reg env) t) constant_instr"

lemma folded_yields:
  assumes "op_tree t" "ce_pow env = bd_pow bd" "folded env t = Some i" "0 < need"
  shows "appends (cxpr_ir_compile_node env subst depth t) (yields tx good (denote bd t) need)"
proof -
  obtain sp d where t: "t = Ast sp d" by (cases t)
  obtain v where v: "cxpr_ir_constant_typed_value (bd_pow bd) (ce_reg env) t = Some v" "constant_instr v = Some i"
    using assms(2,3) by (auto simp: bind_eq_Some_conv)
  have "denote bd t = Handled v" using fold_denotes [OF assms(1) v(1)] by simp
  then have "appends (emit env i) (yields tx good (denote bd t) need)"
    using leaf_appends [OF constant_push [OF v(2)] assms(4)] by simp
  with assms(3) show ?thesis unfolding t by (intro appends_ext [OF cxpr_ir_compile_node.simps]) simp
qed

lemma folded_or:
  assumes "op_tree t" "ce_pow env = bd_pow bd" "0 < need"
    and "folded env t = None \<Longrightarrow> appends (cxpr_ir_compile_node env subst depth t) (yields tx good (denote bd t) need)"
  shows "appends (cxpr_ir_compile_node env subst depth t) (yields tx good (denote bd t) need)"
proof (cases "folded env t")
  case (Some i)
  show ?thesis by (rule folded_yields [OF assms(1,2) Some assms(3)])
qed (rule assms(4))

lemma appends_op: "appends (op_only env opc) (\<lambda>b c. c = [plain_instr opc])"
  unfolding op_only_def by (rule appends_emit) simp

lemma compile_then_unary:
  assumes "appends f (yields tx good r need)" "0 < need" "typed_unary opc = Some g" "\<And>v. same_result (h v) (g v)"
  shows "appends (\<lambda>p. then_compile (f p) (op_only env opc)) (yields tx good (bind_op r h) need)"
  by (rule appends_then [OF assms(1) appends_op]) (use assms(2-) in \<open>auto intro: yields_unary\<close>)

lemma compile_then_binary:
  assumes "appends f (yields tx good rl n)" "appends f' (yields tx good rr n')" "n \<le> need" "Suc n' \<le> need"
    "typed_binary tx opc = Some g" "\<And>v w. same_result (h v w) (g v w)"
  shows "appends (\<lambda>p. then_compile (f p) (\<lambda>p1. then_compile (f' p1) (op_only env opc)))
    (yields tx good (bind_op rl (\<lambda>v. bind_op rr (h v))) need)"
proof (rule appends_then [OF assms(1)])
  show "appends (\<lambda>p1. then_compile (f' p1) (op_only env opc))
      (\<lambda>b c. \<exists>cr. yields tx good rr n' b cr \<and> c = cr @ [plain_instr opc])"
    by (rule appends_then [OF assms(2) appends_op]) auto
qed (use assms(3-) in \<open>auto intro!: yields_binary\<close>)

context lookups
begin

lemma unary_yields:
  assumes "appends (cxpr_ir_compile_node env subst depth a) (yields tx good (denote bd a) need)" "0 < need"
    "folded env (Ast sp (CXPR_NODE_UNARY_OP op a)) = None"
  shows "appends (cxpr_ir_compile_node env subst depth (Ast sp (CXPR_NODE_UNARY_OP op a)))
    (yields tx good (denote bd (Ast sp (CXPR_NODE_UNARY_OP op a))) need)"
proof -
  obtain f g where fg: "typed_unary CXPR_OP_NOT = Some f" "typed_unary CXPR_OP_NEG = Some g"
    by (simp add: typed_unary_def)
  have "denote bd (Ast sp (CXPR_NODE_UNARY_OP op a)) = bind_op (denote bd a) (unary_value op)" by (simp add: denote.simps)
  with assms(3) show ?thesis
    using compile_then_unary [OF assms(1,2) fg(1) unary_agrees(1) [OF fg(1)]]
      compile_then_unary [OF assms(1,2) fg(2) unary_agrees(2) [OF fg(2)]]
    by (intro appends_ext [OF cxpr_ir_compile_node.simps]) (auto simp: Let_def)
qed

lemma arith_yields:
  assumes IH: "appends (cxpr_ir_compile_node env subst depth l) (yields tx good (denote bd l) (op_need l))"
    "appends (cxpr_ir_compile_node env subst depth r) (yields tx good (denote bd r) (op_need r))"
    and op: "op \<noteq> CXPR_TOK_AND" "op \<noteq> CXPR_TOK_OR"
  shows "appends (\<lambda>p. then_compile (cxpr_ir_compile_node env subst depth l p) (\<lambda>p1.
      then_compile (cxpr_ir_compile_node env subst depth r p1) (\<lambda>p2.
        case binary_opcode op of Some opcode \<Rightarrow> op_only env opcode p2
        | None \<Rightarrow> Inl (Compile_error CXPR_ERR_SYNTAX ''IR v1 currently supports arithmetic and comparison binary operators''))))
    (yields tx good (denote bd (Ast sp (CXPR_NODE_BINARY_OP op l r))) (op_need (Ast sp (CXPR_NODE_BINARY_OP op l r))))"
proof (cases "binary_opcode op")
  case None
  then show ?thesis by (auto intro!: appendsI simp: then_compile_Inr)
next
  case (Some opc)
  let ?h = "cxpr_eval_binary_values (bd_mem bd) (bd_pow bd) op"
  obtain f where f: "typed_binary tx opc = Some f" using operators_agree [OF Some] by blast
  then have "same_result (?h v w) (f v w)" for v w
    using operators_agree [OF Some, of tx v w] by (auto simp: mem_pow)
  from compile_then_binary [OF IH _ _ f this, of "op_need (Ast sp (CXPR_NODE_BINARY_OP op l r))" env] Some op show ?thesis
    by (simp add: op_need.simps denote.simps)
qed

lemma logic_yields:
  assumes IH: "appends (f l) (yields tx good (denote bd l) need)" "appends (f r) (yields tx good (denote bd r) need)" "0 < need"
  shows "appends (compile_and env f l r) (yields tx good (denote bd (Ast sp (CXPR_NODE_BINARY_OP CXPR_TOK_AND l r))) need)"
    and "appends (compile_or env f l r) (yields tx good (denote bd (Ast sp (CXPR_NODE_BINARY_OP CXPR_TOK_OR l r))) need)"
proof -
  let ?m = "''Logical operators require bool''"
  let ?r = "bind_op (denote bd r) (\<lambda>u. bind_op (as_bool ?m u) (\<lambda>c. Handled (cxpr_bool c)))"
  have and_eq: "denote bd (Ast sp (CXPR_NODE_BINARY_OP CXPR_TOK_AND l r)) =
      bind_op (denote bd l) (\<lambda>v. bind_op (as_bool ?m v) (\<lambda>w. if w = False then Handled (cxpr_bool w) else ?r))"
    and or_eq: "denote bd (Ast sp (CXPR_NODE_BINARY_OP CXPR_TOK_OR l r)) =
      bind_op (denote bd l) (\<lambda>v. bind_op (as_bool ?m v) (\<lambda>w. if w then Handled (cxpr_bool w) else ?r))"
    by (simp_all add: denote.simps)
  show "appends (compile_and env f l r) (yields tx good (denote bd (Ast sp (CXPR_NODE_BINARY_OP CXPR_TOK_AND l r))) need)"
    unfolding and_eq by (rule appends_and [OF IH(1,2)], rule yields_and [OF _ _ IH(3)])
  show "appends (compile_or env f l r) (yields tx good (denote bd (Ast sp (CXPR_NODE_BINARY_OP CXPR_TOK_OR l r))) need)"
    unfolding or_eq by (rule appends_or [OF IH(1,2)], rule yields_or [OF _ _ IH(3)])
qed

lemma binary_yields:
  fixes l r sp op
  defines "t \<equiv> Ast sp (CXPR_NODE_BINARY_OP op l r)"
  assumes IH: "appends (cxpr_ir_compile_node env [] depth l) (yields tx good (denote bd l) (op_need l))"
    "appends (cxpr_ir_compile_node env [] depth r) (yields tx good (denote bd r) (op_need r))"
    and trees: "op_tree l" "op_tree r" "lowers bd plain (ce_reg env) t"
    and env: "ce_locals env = []" "ce_pow env = bd_pow bd" and none: "folded env t = None"
  shows "appends (cxpr_ir_compile_node env [] depth t) (yields tx good (denote bd t) (op_need t))"
proof -
  let ?f = "cxpr_ir_compile_node env [] depth"
  note unf = appends_ext [OF cxpr_ir_compile_node.simps]
  have need: "0 < op_need t" using trees op_need_pos [of t] by (simp add: t_def)
  have more: "appends (?f l) (yields tx good (denote bd l) (op_need t))" "appends (?f r) (yields tx good (denote bd r) (op_need t))"
    by (rule appends_yields_more [OF IH(1)], simp add: t_def op_need.simps)
      (rule appends_yields_more [OF IH(2)], auto simp: t_def op_need.simps)
  consider (logic) "op = CXPR_TOK_AND \<or> op = CXPR_TOK_OR"
    | (square) "op = CXPR_TOK_STAR" "cxpr_ir_ast_equal l r"
    | (plain) "op \<noteq> CXPR_TOK_AND" "op \<noteq> CXPR_TOK_OR" "\<not> (op = CXPR_TOK_STAR \<and> cxpr_ir_ast_equal l r)"
    by blast
  then show ?thesis
  proof cases
    case logic
    show ?thesis
    proof (cases "constant_bool env l")
      case None
      with logic none logic_yields [of ?f, OF more need] show ?thesis
        unfolding t_def by (intro unf) (auto simp: Let_def)
    next
      case (Some b)
      note left = constant_bool_denotes [OF trees(1) env(2) Some]
      have const: "cxpr_ir_constant_typed_value (bd_pow bd) (ce_reg env) l = Some (cxpr_bool b)"
        using Some env(2) by (auto simp: constant_bool_def split: option.splits cxpr_value.splits)
      show ?thesis
      proof (cases "b = (op = CXPR_TOK_AND)")
        case True
        have "denote bd t = denote bd r" unfolding t_def
          by (rule folded_logic) (use left True logic const trees(3) in \<open>auto simp: t_def lowers.simps\<close>)
        with logic none Some True more(2) show ?thesis unfolding t_def by (intro unf) (auto simp: Let_def)
      next
        case False
        have "denote bd t = Handled (cxpr_bool b)" using left False logic by (auto simp: t_def denote.simps as_bool_def)
        moreover have "appends (push_bool env b) (yields tx good (Handled (cxpr_bool b)) (op_need t))"
          unfolding push_bool_def by (rule leaf_appends [OF constant_push need]) simp
        ultimately show ?thesis using logic none Some False unfolding t_def by (intro unf) (auto simp: Let_def)
      qed
    qed
  next
    case square
    have num: "regards CXPR_VALUE_NUMBER (denote bd l)" using trees(3) square by (simp add: t_def lowers.simps)
    have low: "lowers bd plain (ce_reg env) l" using trees(3) by (simp add: t_def lowers.simps)
    have sq: "denote bd t = bind_op (denote bd l) square_value"
      unfolding t_def square(1) by (rule square_meaning [OF equal_trees_denote [OF trees(1,2) square(2)] num])
    obtain g where g: "typed_unary CXPR_OP_SQUARE = Some g" "\<And>v. same_result (square_value v) (g v)"
      using square_op by blast
    have "appends (\<lambda>p. case cxpr_ir_emit_leaf_load env [] True l p of Inr q \<Rightarrow> Inr q
        | Inl e \<Rightarrow> then_compile (?f l p) (op_only env CXPR_OP_SQUARE)) (yields tx good (denote bd t) (op_need t))"
      unfolding sq
      by (rule seg_or_else [OF leaf_load_yields [OF trees(1) low num env(1) need] compile_then_unary [OF more(1) need g]])
    with square none show ?thesis unfolding t_def by (intro unf) (simp add: Let_def)
  next
    case plain
    with none arith_yields [OF IH plain(1,2)] show ?thesis unfolding t_def by (intro unf) (auto simp: Let_def)
  qed
qed

lemma compile_yields:
  assumes "op_tree t" "lowers bd plain (ce_reg env) t" "ce_locals env = []" "ce_pow env = bd_pow bd"
  shows "appends (cxpr_ir_compile_node env [] depth t) (yields tx good (denote bd t) (op_need t))"
proof -
  note unf = appends_ext [OF cxpr_ir_compile_node.simps]
  from assms(1,2) show ?thesis
  proof (induction rule: op_tree.induct)
    case (op_int64 sp i)
    have "yields tx good (Handled (cxpr_int64 i)) 1 b [(plain_instr CXPR_OP_PUSH_INT64)\<lparr>in_int64 := i\<rparr>]" for b
      by (rule yields_push) (simp add: typed_loads_def)
    then show ?case
      by (intro unf) (simp add: cxpr_ir_constant_typed_value.simps denote.simps op_need.simps leaf_appends)
  next
    case (op_identifier sp n)
    show ?case using leaf_appends [OF yields_load_var [where square = False and n = n], of 1] assms(3)
      by (intro unf) (simp add: cxpr_ir_constant_typed_value.simps cxpr_ir_local_index_def denote.simps op_need.simps bind_op_Handled)
  next
    case (op_variable sp n)
    then show ?case using leaf_appends [OF yields_load_param [where square = False and n = n], of 1]
      by (intro unf) (simp add: cxpr_ir_constant_typed_value.simps denote.simps op_need.simps bind_op_Handled lowers.simps plain_instr_def)
  next
    case (op_unary a sp op)
    let ?t = "Ast sp (CXPR_NODE_UNARY_OP op a)"
    have IH: "appends (cxpr_ir_compile_node env [] depth a) (yields tx good (denote bd a) (op_need ?t))" and need: "0 < op_need ?t"
      using op_unary op_need_pos by (simp_all add: lowers.simps op_need.simps)
    show ?case by (rule folded_or [OF _ assms(4) need], simp add: op_unary.hyps) (rule unary_yields [OF IH need])
  next
    case (op_binary l r sp op)
    let ?t = "Ast sp (CXPR_NODE_BINARY_OP op l r)"
    have need: "0 < op_need ?t" by (rule op_need_pos) (simp add: op_binary.hyps)
    have IH: "appends (cxpr_ir_compile_node env [] depth l) (yields tx good (denote bd l) (op_need l))"
      "appends (cxpr_ir_compile_node env [] depth r) (yields tx good (denote bd r) (op_need r))"
      using op_binary by (simp_all add: lowers.simps)
    show ?case
      by (rule folded_or [OF _ assms(4) need], simp add: op_binary.hyps)
        (rule binary_yields [OF IH op_binary.hyps op_binary.prems assms(3,4)])
  next
    case (op_ternary c a b sp)
    let ?t = "Ast sp (CXPR_NODE_TERNARY c a b)" and ?f = "cxpr_ir_compile_node env [] depth"
    have need: "0 < op_need ?t" by (rule op_need_pos) (simp add: op_ternary.hyps)
    have IH: "appends (?f x) (yields tx good (denote bd x) (op_need ?t))" if "x \<in> {c, a, b}" for x
      by (rule appends_yields_more [of _ _ _ _ "op_need x"])
        (use op_ternary that in \<open>auto simp: lowers.simps op_need.simps\<close>)
    have "denote bd ?t = bind_op (denote bd c) (\<lambda>v. bind_op (as_bool ''Ternary condition must be bool'' v)
        (\<lambda>w. if w then denote bd a else denote bd b))"
      by (simp add: denote.simps if_distrib [of "denote bd"])
    moreover have "appends (compile_cond env ?f c a b)
        (yields tx good (bind_op (denote bd c) (\<lambda>v. bind_op (as_bool ''Ternary condition must be bool'' v)
          (\<lambda>w. if w then denote bd a else denote bd b))) (op_need ?t))"
      by (rule appends_cond [of ?f c "yields tx good (denote bd c) (op_need ?t)" a "yields tx good (denote bd a) (op_need ?t)"
            b "yields tx good (denote bd b) (op_need ?t)", OF IH IH IH]) (simp, simp, simp, rule yields_cond)
    ultimately have cond: "appends (compile_cond env ?f c a b) (yields tx good (denote bd ?t) (op_need ?t))" by simp
    show ?case
      by (rule folded_or [OF _ assms(4) need], simp add: op_ternary.hyps) (rule unf, use cond in \<open>simp add: Let_def\<close>)
  qed (rule folded_or [OF _ assms(4)]; simp add: cxpr_ir_constant_typed_value.simps op_need.simps)+
qed

end

text \<open>The whole program: it returns the value, fails as the meaning does, or is undefined as it is.\<close>

definition outcome_agrees :: "cxpr_value op_result \<Rightarrow> 'f typed_out option \<Rightarrow> bool" where
  "outcome_agrees r out \<longleftrightarrow>
     (case r of
        Handled v \<Rightarrow> \<exists>st. out = Some (Return v st)
      | Failed e m \<Rightarrow> \<exists>e' m' st. same_code e e' \<and> out = Some (Error e' m' st)
      | Undefined \<Rightarrow> out = Some Crash
      | NotHandled \<Rightarrow> False)"

lemma step_return:
  "ip < length code \<Longrightarrow> code ! ip = plain_instr CXPR_OP_RETURN \<Longrightarrow> typed_at tx code st ip [v] cs = Return v (at st ip [] cs)"
  by (simp add: typed_step_def Let_def typed_loads_def typed_operators_def typed_binary_def typed_unary_def typed_control_def
      typed_return_def cxpr_ir_pop1_def)

lemma evolves_ends:
  assumes "evolves step m st out" "\<And>st'. out \<noteq> Continue st'" "m \<le> fuel"
  shows "ir_run step fuel st = Some out"
proof -
  obtain n where n: "n \<le> m" "\<And>k. ir_run step (n + k) st = (case out of Continue st' \<Rightarrow> ir_run step k st' | r \<Rightarrow> Some r)"
    using assms(1) unfolding evolves_def by blast
  with n(2) [of "fuel - n"] assms(2,3) show ?thesis by (cases out) auto
qed

context lookups
begin

lemma compiled_meaning:
  assumes t: "op_tree t" "lowers bd plain (ce_reg env) t" "op_need t \<le> CXPR_IR_STACK_CAPACITY"
    and compiled: "cxpr_ir_compile env t = Inr prog" "ce_pow env = bd_pow bd"
    and run: "good cs" "length (ir_code prog) \<le> fuel"
  shows "outcome_agrees (denote bd t) (cxpr_ir_exec_typed tx (ir_code prog) [] cs fuel)"
proof -
  let ?env = "env\<lparr>ce_locals := []\<rparr>" and ?st = "typed_start cs"
  let ?p = "cxpr_ir_program_reset\<lparr>ir_ast := Some t, ir_fast_result_kind := cxpr_ir_infer_fast_result_kind (ce_reg ?env) 0 t\<rparr>"
  obtain p1 p2 where p: "cxpr_ir_compile_node ?env [] 0 t ?p = Inr p1" "op_only ?env CXPR_OP_RETURN p1 = Inr p2"
      "ir_code prog = ir_code p2"
    using compiled(1) by (auto simp: cxpr_ir_compile_def cxpr_ir_compile_with_locals_def then_compile_Inr Let_def split: if_splits)
  obtain c where c: "ir_code p1 = ir_code ?p @ c" "yields tx good (denote bd t) (op_need t) (ir_count ?p) c"
    using appendsD [OF compile_yields [OF t(1), of ?env] p(1)] t(2) compiled(2) by auto
  have code: "ir_code prog = c @ [plain_instr CXPR_OP_RETURN]"
    using c(1) op_only_Inr [OF p(2)] p(3) by (simp add: cxpr_ir_program_reset_def)
  have "continues tx good (ir_code prog) ?st 0 [] cs (length c) (length c) [] (denote bd t)"
    using yieldsD [OF c(2), of "ir_code prog" ?st cs "[]" "length c"] placed_self [of "[]" c] run(1) t(3)
    by (simp add: code cxpr_ir_program_reset_def typed_start_def)
  moreover have "evolves (typed_step tx (ir_code prog) []) (length c + 1) (at ?st 0 [] cs) (Return v (at ?st (length c) [] cs'))"
    if "evolves (typed_step tx (ir_code prog) []) (length c) (at ?st 0 [] cs) (Continue (at ?st (length c) [v] cs'))" for v cs'
    by (rule evolves_then [OF that evolves_step [of "typed_step tx (ir_code prog) []", OF step_return]]) (simp_all add: code)
  moreover have "cxpr_ir_exec_typed tx (ir_code prog) [] cs fuel = ir_run (typed_step tx (ir_code prog) []) fuel (at ?st 0 [] cs)"
    unfolding cxpr_ir_exec_typed_def using at_start [of cs] code by simp
  ultimately show ?thesis
    using run(2) denote_handled [OF t(1), of bd] evolves_ends [of "typed_step tx (ir_code prog) []" _ "at ?st 0 [] cs" _ fuel]
    by (cases "denote bd t") (fastforce simp: continues_def outcome_agrees_def code)+
qed

end

end
