(* ===== verification/Cxpr_Agree.thy ===== *)
theory Cxpr_Agree
  imports Cxpr_Equiv
begin

text \<open>The two evaluators on the program's own context. The lookups of the tree evaluator and of the typed
  executor are instantiated with the operations of \<open>src/src/context\<close>, the interface \<open>lookups\<close> is
  interpreted on them, and the agreement of compiled code with the tree evaluator follows for every
  expression of operators over variables and parameters. The end of the theory shows where the two
  evaluators differ outside that fragment and where the tree evaluator loses an error.\<close>



section \<open>Contexts\<close>

text \<open>
  \<open>cxpr_ir_lookup_cached_scalar\<close> of \<^verbatim>\<open>src/src/ir/program.c\<close> on an empty lookup cache: the number an
  instruction loads. The compiler zeroes the cache of every instruction and a run executes each
  instruction at most once, so every load of the first run of a program takes this path. The outer
  \<open>None\<close> is a probe that does not end, as in the tables.
\<close>

fun scalar_walk :: "bool \<Rightarrow> string \<Rightarrow> ulong \<Rightarrow> frames \<Rightarrow> double option option" where
  "scalar_walk param name hash [] = Some None"
| "scalar_walk param name hash (c # cs) =
     (case cxpr_hashmap_find_prehashed_entry (ht_map (if param then cx_params c else cx_variables c)) name hash of
        None \<Rightarrow> None
      | Some e \<Rightarrow>
          (case (if param then None else cxpr_bool_map_get (cx_bools c) name, e) of
             (Some b, _) \<Rightarrow> Some (Some (dbl_of_bool b))
           | (None, Some entry) \<Rightarrow> Some (Some (val entry))
           | (None, None) \<Rightarrow> scalar_walk param name hash cs))"

definition cxpr_ir_lookup_cached_scalar :: "bool \<Rightarrow> string \<Rightarrow> ulong \<Rightarrow> frames \<Rightarrow> double option option" where
  "cxpr_ir_lookup_cached_scalar param name hash cs =
     (case cs of
        [] \<Rightarrow> None
      | c # parents \<Rightarrow>
          (case (if param then None else Option.bind (cx_expression_scope c) (\<lambda>scope. scope name)) of
             Some v \<Rightarrow> Some (scalar_of_value v)
           | None \<Rightarrow>
               (case (if param then None else cxpr_bool_map_get (cx_bools c) name) of
                  Some b \<Rightarrow> Some (Some (dbl_of_bool b))
                | None \<Rightarrow>
                    if (\<not> param \<or> sm_entries (cx_bools c) = []) \<and> parents = [] \<and> cx_expression_scope c = None
                    then map_option (map_option val)
                           (cxpr_hashmap_find_prehashed_entry (ht_map (if param then cx_params c else cx_variables c)) name hash)
                    else scalar_walk param name hash cs)))"

text \<open>The surroundings of both evaluators on contexts: \<open>addr\<close> gives the address of a name in the tree
  or the program. A lookup that does not end is sent to "not found"; on contexts that satisfy their
  invariant none does.\<close>

definition context_eval_env :: "(string \<Rightarrow> nat) \<Rightarrow> cxpr_context eval_env \<Rightarrow> cxpr_context eval_env" where
  "context_eval_env addr env =
     env\<lparr>ev_get_typed := \<lambda>n cs. case cxpr_context_get_typed (ev_mem env) cs \<lparr>cs_addr = addr n, cs_text = n\<rparr> of
           Some r \<Rightarrow> r | None \<Rightarrow> (None, cs),
         ev_get_param_typed := \<lambda>n cs. case cxpr_context_get_param_typed (ev_mem env) cs \<lparr>cs_addr = addr n, cs_text = n\<rparr> of
           Some r \<Rightarrow> r | None \<Rightarrow> (None, cs),
         ev_scope := \<lambda>cs. case cs of [] \<Rightarrow> None | c # _ \<Rightarrow> cx_expression_scope c\<rparr>"

definition context_typed_env :: "(string \<Rightarrow> nat) \<Rightarrow> cxpr_context typed_env \<Rightarrow> cxpr_context typed_env" where
  "context_typed_env addr tx =
     tx\<lparr>tx_env := context_eval_env addr (tx_env tx),
        tx_scalar := \<lambda>ip i param cs. case cxpr_ir_lookup_cached_scalar param (in_name i) (in_hash i) cs of
          Some r \<Rightarrow> (r, cs) | None \<Rightarrow> (None, cs),
        tx_param_bool := \<lambda>n cs. cxpr_context_get_param_bool cs n,
        tx_param_string := \<lambda>n cs. cxpr_context_get_param_string cs n\<rparr>"

text \<open>What a chain of contexts binds a parameter to.\<close>

fun param_value :: "(nat \<Rightarrow> bool) \<Rightarrow> frames \<Rightarrow> string \<Rightarrow> cxpr_value option" where
  "param_value mem [] k = None"
| "param_value mem (c # cs) k =
     (case early_param mem c k of
        Some (Some v) \<Rightarrow> Some v
      | _ \<Rightarrow>
          (case innermost (\<lambda>c. ht_abs (cx_params c)) (c # cs) k of
             Some d \<Rightarrow> Some (cxpr_num d)
           | None \<Rightarrow> param_value mem cs k))"

definition context_bindings :: "cxpr_context eval_env \<Rightarrow> frames \<Rightarrow> bindings" where
  "context_bindings env cs =
     \<lparr>bd_vars = innermost (cx_binding (ev_mem env)) cs, bd_params = param_value (ev_mem env) cs,
      bd_mem = ev_mem env, bd_pow = ev_pow env\<rparr>"

text \<open>A parameter both evaluators read alike: no context of the chain binds it to an integer, an array
  or a struct, and all that bind it bind it to the same kind.\<close>

definition plain_frame :: "(nat \<Rightarrow> bool) \<Rightarrow> string \<Rightarrow> cxpr_context \<Rightarrow> bool" where
  "plain_frame mem n c \<longleftrightarrow>
     cxpr_int64_map_get (cx_int64_params c) n = None \<and> cxpr_context_lookup_array_map (cx_array_params c) n = Some None \<and>
     cxpr_context_lookup_struct_map (cx_structs c) n = Some None \<and> dotted_param mem c n = Some None"

definition plain_param :: "(nat \<Rightarrow> bool) \<Rightarrow> frames \<Rightarrow> string \<Rightarrow> bool" where
  "plain_param mem cs n \<longleftrightarrow>
     (let bool_param = (\<lambda>c. cxpr_bool_map_get (cx_bool_params c) n = None);
          string_param = (\<lambda>c. cxpr_string_map_get (cx_string_params c) n = None);
          number_param = (\<lambda>c. ht_abs (cx_params c) n = None) in
      list_all (plain_frame mem n) cs \<and>
      (list_all bool_param cs \<and> list_all string_param cs \<or> list_all number_param cs) \<and>
      (list_all bool_param cs \<or> list_all string_param cs))"

text \<open>Lookups change only caches.\<close>

definition same_frame :: "cxpr_context \<Rightarrow> cxpr_context \<Rightarrow> bool" where
  "same_frame c c' \<longleftrightarrow> (\<exists>t p. c' = c\<lparr>cx_variables := t, cx_params := p\<rparr> \<and> ht_map t = ht_map (cx_variables c) \<and>
     ht_map p = ht_map (cx_params c))"

lemma same_frame_refl [simp]: "same_frame c c"
  unfolding same_frame_def by (intro exI [of _ "cx_variables c"] exI [of _ "cx_params c"]) simp

lemma same_frame_trans: "same_frame a b \<Longrightarrow> same_frame b c \<Longrightarrow> same_frame a c"
  unfolding same_frame_def by (auto, blast)

lemma same_frame_update:
  "ht_map t = ht_map (cx_variables c) \<Longrightarrow> same_frame c (c\<lparr>cx_variables := t\<rparr>)"
  "ht_map t = ht_map (cx_params c) \<Longrightarrow> same_frame c (c\<lparr>cx_params := t\<rparr>)"
  unfolding same_frame_def by (metis (no_types) cxpr_context.surjective cxpr_context.update_convs(1,2))+

lemma same_frames_refl [simp]: "list_all2 same_frame cs cs"
  by (simp add: list_all2_same)

lemma same_frame_views:
  assumes "same_frame c c'"
  shows "cx_binding mem c' = cx_binding mem c" "early_param mem c' = early_param mem c"
    "ht_abs (cx_params c') = ht_abs (cx_params c)" "cx_bool_params c' = cx_bool_params c"
    "cx_string_params c' = cx_string_params c" "plain_frame mem n c' = plain_frame mem n c"
    "cx_expression_scope c' = cx_expression_scope c"
  using assms
  by (auto simp: same_frame_def cx_binding_def early_param_def dotted_param_def plain_frame_def ht_abs_def fun_eq_iff Let_def
      cong: if_cong cong del: option.case_cong_weak)

lemma same_frames_views:
  assumes "list_all2 same_frame cs cs'"
  shows "innermost (cx_binding mem) cs' = innermost (cx_binding mem) cs"
    "innermost (\<lambda>c. ht_abs (cx_params c)) cs' = innermost (\<lambda>c. ht_abs (cx_params c)) cs"
    "param_value mem cs' = param_value mem cs" "plain_param mem cs' = plain_param mem cs"
proof -
  show inner: "innermost (cx_binding mem) cs' = innermost (cx_binding mem) cs"
    using assms by (induction rule: list_all2_induct) (auto simp: same_frame_views fun_eq_iff split: option.split)
  show numbers: "innermost (\<lambda>c. ht_abs (cx_params c)) cs' = innermost (\<lambda>c. ht_abs (cx_params c)) cs"
    using assms by (induction rule: list_all2_induct) (auto simp: same_frame_views fun_eq_iff split: option.split)
  show "param_value mem cs' = param_value mem cs"
    using assms
  proof (induction rule: list_all2_induct)
    case (Cons c cs c' cs')
    have "innermost (\<lambda>c. ht_abs (cx_params c)) cs' = innermost (\<lambda>c. ht_abs (cx_params c)) cs"
      using Cons(2) by (induction rule: list_all2_induct) (auto simp: same_frame_views fun_eq_iff split: option.split)
    with Cons show ?case by (auto simp: same_frame_views fun_eq_iff split: option.split)
  qed simp
  have "list_all P cs' = list_all P cs" if "\<And>c c'. same_frame c c' \<Longrightarrow> P c' = P c" for P
    using assms by (induction rule: list_all2_induct) (auto simp: that)
  then show "plain_param mem cs' = plain_param mem cs"
    by (simp add: plain_param_def fun_eq_iff same_frame_views Let_def)
qed


section \<open>Context lookups satisfy the interface\<close>

lemma find_entry_ok:
  assumes "hm_wf m"
  shows "\<exists>e. cxpr_hashmap_find_prehashed_entry m k (cxpr_hash_string k) = Some e \<and> map_option val e = hm_abs m k"
  using get_wf [OF assms, of k]
  by (auto simp: cxpr_hashmap_get_def cxpr_hashmap_get_prehashed_def cxpr_hashmap_find_prehashed_entry_def
      split: if_splits option.splits probe.splits)

lemma early_param_ok: "cx_inv c \<Longrightarrow> \<exists>e. early_param mem c k = Some e"
  by (auto simp: cx_inv_def early_param_def dotted_param_def Let_def split: option.split)

lemma get_typed_frames:
  assumes "list_all cx_inv cs" "cxpr_context_get_typed mem cs name = Some (r, fs)"
  shows "list_all2 same_frame cs fs"
  using assms
proof (induction cs arbitrary: r fs)
  case (Cons c cs)
  have c: "cx_inv c" "ht_inv (cx_variables c)" using Cons.prems by (simp_all add: cx_inv_def)
  obtain t where t: "ht_get (cx_variables c) name = Some (ht_abs (cx_variables c) (cs_text name), t)" "ht_map t = ht_map (cx_variables c)"
    using ht_get_ok [OF c(2), of name] by auto
  note [simp] = same_frame_update(1) [OF t(2)]
  from Cons.prems(2) t(1) Cons.IH Cons.prems(1) show ?case
    by (auto simp: bind_eq_Some_conv Let_def split: option.splits)
qed simp

lemma get_param_frames:
  assumes "list_all cx_inv cs" "cxpr_context_get_param cs name = Some (r, fs)"
  shows "list_all2 same_frame cs fs"
  using assms
proof (induction cs arbitrary: r fs)
  case (Cons c cs)
  have c: "ht_inv (cx_params c)" using Cons.prems by (simp add: cx_inv_def)
  obtain t where t: "ht_get (cx_params c) name = Some (ht_abs (cx_params c) (cs_text name), t)" "ht_map t = ht_map (cx_params c)"
    using ht_get_ok [OF c, of name] by auto
  note [simp] = same_frame_update(2) [OF t(2)]
  from Cons.prems(2) t(1) Cons.IH Cons.prems(1) show ?case
    by (auto simp: bind_eq_Some_conv Let_def split: option.splits)
qed simp

lemma get_param_typed_ok:
  assumes "list_all cx_inv cs"
  shows "\<exists>fs. cxpr_context_get_param_typed mem cs name = Some (param_value mem cs (cs_text name), fs) \<and>
    list_all cx_inv fs \<and> list_all2 same_frame cs fs"
  using assms
proof (induction cs)
  case (Cons c cs)
  obtain e where e: "early_param mem c (cs_text name) = Some e" using Cons.prems early_param_ok [of c mem "cs_text name"] by auto
  obtain gs where gs: "cxpr_context_get_param (c # cs) name =
      Some (innermost (\<lambda>c. ht_abs (cx_params c)) (c # cs) (cs_text name), gs)" "list_all cx_inv gs"
    using param.get_ok [OF Cons.prems, of name] by auto
  note same = get_param_frames [OF Cons.prems gs(1)]
  then obtain c' gs' where g: "gs = c' # gs'" "same_frame c c'" "list_all2 same_frame cs gs'"
    by (auto simp: list_all2_Cons1)
  obtain fs where "cxpr_context_get_param_typed mem cs name = Some (param_value mem cs (cs_text name), fs)" "list_all cx_inv fs"
      "list_all2 same_frame cs fs"
    using Cons by auto
  with e gs g Cons.prems same show ?case
    by (cases e; cases "innermost (\<lambda>c. ht_abs (cx_params c)) (c # cs) (cs_text name)") auto
qed simp

lemma innermost_None: "innermost bnd cs k = None \<longleftrightarrow> list_all (\<lambda>c. bnd c k = None) cs"
  by (induction cs) (auto split: option.split)

lemma binding_None:
  assumes "cx_binding mem c k = None"
  shows "Option.bind (cx_expression_scope c) (\<lambda>f. f k) = None" "cxpr_bool_map_get (cx_bools c) k = None"
    "ht_abs (cx_variables c) k = None"
  using assms by (auto simp: cx_binding_def small_defs split: option.splits)

text \<open>The number lookup of an instruction, for a name without a binding and for a parameter.\<close>

lemma scalar_walk_params:
  "list_all cx_inv cs \<Longrightarrow> scalar_walk True k (cxpr_hash_string k) cs = Some (innermost (\<lambda>c. ht_abs (cx_params c)) cs k)"
proof (induction cs)
  case (Cons c cs)
  have "hm_wf (ht_map (cx_params c))" using Cons.prems ht_inv_wf by (auto simp: cx_inv_def)
  from find_entry_ok [OF this, of k] Cons show ?case by (auto simp: ht_abs_def split: option.split)
qed simp

lemma scalar_walk_absent:
  "list_all cx_inv cs \<Longrightarrow> innermost (cx_binding mem) cs k = None \<Longrightarrow> scalar_walk False k (cxpr_hash_string k) cs = Some None"
proof (induction cs)
  case (Cons c cs)
  have "hm_wf (ht_map (cx_variables c))" using Cons.prems ht_inv_wf by (auto simp: cx_inv_def)
  from find_entry_ok [OF this, of k] Cons binding_None [of mem c k] show ?case by (auto simp: ht_abs_def split: option.splits)
qed simp

lemma lookup_scalar_absent:
  assumes "list_all cx_inv cs" "cs \<noteq> []" "innermost (cx_binding mem) cs k = None"
  shows "cxpr_ir_lookup_cached_scalar False k (cxpr_hash_string k) cs = Some None"
proof -
  obtain c ps where cs: "cs = c # ps" using assms(2) by (cases cs) auto
  have c: "cx_binding mem c k = None" "hm_wf (ht_map (cx_variables c))"
    using assms ht_inv_wf by (auto simp: cs cx_inv_def split: option.splits)
  from find_entry_ok [OF c(2), of k] binding_None [OF c(1)] scalar_walk_absent [OF assms(1,3)] show ?thesis
    by (auto simp: cxpr_ir_lookup_cached_scalar_def cs ht_abs_def simp del: scalar_walk.simps)
qed

lemma lookup_scalar_param:
  assumes "list_all cx_inv cs" "cs \<noteq> []"
  shows "cxpr_ir_lookup_cached_scalar True k (cxpr_hash_string k) cs = Some (innermost (\<lambda>c. ht_abs (cx_params c)) cs k)"
proof -
  obtain c ps where cs: "cs = c # ps" using assms(2) by (cases cs) auto
  have "hm_wf (ht_map (cx_params c))" using assms ht_inv_wf by (auto simp: cs cx_inv_def)
  from find_entry_ok [OF this, of k] scalar_walk_params [OF assms(1), of k] show ?thesis
    by (auto simp: cxpr_ir_lookup_cached_scalar_def cs ht_abs_def simp del: scalar_walk.simps split: option.splits)
qed

text \<open>A plain parameter: of one kind in the whole chain.\<close>

lemma plain_early:
  "plain_frame mem n c \<Longrightarrow> early_param mem c n =
     Some (case cxpr_bool_map_get (cx_bool_params c) n of Some b \<Rightarrow> Some (cxpr_bool b)
       | None \<Rightarrow> map_option (\<lambda>s. cxpr_string (Some s)) (cxpr_string_map_get (cx_string_params c) n))"
  by (auto simp: plain_frame_def early_param_def split: option.split)

lemma param_bool_None:
  "cxpr_context_get_param_bool cs n = None \<longleftrightarrow> list_all (\<lambda>c. cxpr_bool_map_get (cx_bool_params c) n = None) cs"
  by (induction cs) (auto split: option.split)

lemma param_string_None:
  "cxpr_context_get_param_string cs n = None \<longleftrightarrow> list_all (\<lambda>c. cxpr_string_map_get (cx_string_params c) n = None) cs"
  by (induction cs) (auto split: option.split)

lemma plain_numbers:
  assumes "list_all (plain_frame mem n) cs" "cxpr_context_get_param_bool cs n = None" "cxpr_context_get_param_string cs n = None"
  shows "param_value mem cs n = map_option cxpr_num (innermost (\<lambda>c. ht_abs (cx_params c)) cs n)"
  using assms
proof (induction cs)
  case (Cons c cs)
  then show ?case using plain_early [of mem n c] by (auto split: option.splits)
qed simp

lemma plain_texts:
  assumes "list_all (plain_frame mem n) cs" "innermost (\<lambda>c. ht_abs (cx_params c)) cs n = None"
    "cxpr_context_get_param_bool cs n = None \<or> cxpr_context_get_param_string cs n = None"
  shows "param_value mem cs n = (case cxpr_context_get_param_bool cs n of Some b \<Rightarrow> Some (cxpr_bool b)
    | None \<Rightarrow> map_option (\<lambda>s. cxpr_string (Some s)) (cxpr_context_get_param_string cs n))"
  using assms
proof (induction cs)
  case (Cons c cs)
  then show ?case using plain_early [of mem n c] by (auto split: option.splits)
qed simp


text \<open>The contexts of one evaluation: they satisfy the invariant and differ from those it started with
  in their caches only.\<close>

definition good_frames :: "frames \<Rightarrow> frames \<Rightarrow> bool" where
  "good_frames cs0 cs \<longleftrightarrow> cs0 \<noteq> [] \<and> list_all cx_inv cs0 \<and> list_all cx_inv cs \<and> list_all2 same_frame cs0 cs"

lemma good_frames_views:
  assumes "good_frames cs0 cs"
  shows "innermost (cx_binding mem) cs = innermost (cx_binding mem) cs0"
    "innermost (\<lambda>c. ht_abs (cx_params c)) cs = innermost (\<lambda>c. ht_abs (cx_params c)) cs0"
    "param_value mem cs = param_value mem cs0" "plain_param mem cs = plain_param mem cs0"
  using assms same_frames_views by (auto simp: good_frames_def)

lemma good_frames_next:
  assumes "good_frames cs0 cs" "list_all cx_inv fs" "list_all2 same_frame cs fs"
  shows "good_frames cs0 fs"
  using assms list_all2_trans [of same_frame same_frame same_frame cs0 cs fs] same_frame_trans by (auto simp: good_frames_def)

lemma plain_param_lookups:
  assumes "list_all cx_inv cs" "cs \<noteq> []" "plain_param mem cs (in_name i)" "in_hash i = cxpr_hash_string (in_name i)"
  shows "param_lookups (context_typed_env addr tx) ip i cs = (param_value mem cs (in_name i), cs)"
proof -
  let ?n = "in_name i"
  have plain: "list_all (plain_frame mem ?n) cs"
      "cxpr_context_get_param_bool cs ?n = None \<and> cxpr_context_get_param_string cs ?n = None \<or>
       innermost (\<lambda>c. ht_abs (cx_params c)) cs ?n = None"
      "cxpr_context_get_param_bool cs ?n = None \<or> cxpr_context_get_param_string cs ?n = None"
    using assms(3) by (auto simp: plain_param_def param_bool_None param_string_None innermost_None Let_def)
  have "param_lookups (context_typed_env addr tx) ip i cs =
      (case cxpr_context_get_param_bool cs ?n of Some b \<Rightarrow> Some (cxpr_bool b)
       | None \<Rightarrow> (case cxpr_context_get_param_string cs ?n of Some s \<Rightarrow> Some (cxpr_string (Some s))
         | None \<Rightarrow> map_option cxpr_num (innermost (\<lambda>c. ht_abs (cx_params c)) cs ?n)), cs)"
    using lookup_scalar_param [OF assms(1,2), of ?n] assms(4)
    by (simp add: param_lookups_def context_typed_env_def split: option.split)
  with plain_numbers [OF plain(1)] plain_texts [OF plain(1)] plain(2,3) show ?thesis
    by (auto split: option.splits)
qed

lemma plain_param_number:
  assumes "list_all cx_inv cs" "cs \<noteq> []" "plain_param mem cs n"
    "param_value mem cs n \<in> insert None (range (Some \<circ> cxpr_num))"
  shows "map_option cxpr_num (innermost (\<lambda>c. ht_abs (cx_params c)) cs n) = param_value mem cs n"
proof -
  have plain: "list_all (plain_frame mem n) cs"
      "cxpr_context_get_param_bool cs n = None \<and> cxpr_context_get_param_string cs n = None \<or>
       innermost (\<lambda>c. ht_abs (cx_params c)) cs n = None"
      "cxpr_context_get_param_bool cs n = None \<or> cxpr_context_get_param_string cs n = None"
    using assms(3) by (auto simp: plain_param_def param_bool_None param_string_None innermost_None Let_def)
  with plain_numbers [OF plain(1)] plain_texts [OF plain(1)] assms(4) show ?thesis
    by (cases "cxpr_context_get_param_bool cs n"; cases "cxpr_context_get_param_string cs n") auto
qed

lemma context_lookups:
  fixes tx :: "cxpr_context typed_env"
  shows "lookups (context_typed_env addr tx) (good_frames cs0) (context_bindings (tx_env tx) cs0)
    (plain_param (ev_mem (tx_env tx)) cs0)"
proof
  let ?tx = "context_typed_env addr tx" and ?bd = "context_bindings (tx_env tx) cs0" and ?mem = "ev_mem (tx_env tx)"
  note defs = context_typed_env_def context_eval_env_def context_bindings_def
  show "ev_mem (tx_env ?tx) = bd_mem ?bd" "ev_pow (tx_env ?tx) = bd_pow ?bd" by (simp_all add: defs)
  fix cs :: frames and n :: string and i :: cxpr_ir_instr and ip :: nat
  assume cs: "good_frames cs0 cs"
  then have good: "list_all cx_inv cs" "cs \<noteq> []" by (auto simp: good_frames_def)
  note views = good_frames_views [OF cs]
  let ?name = "\<lparr>cs_addr = addr n, cs_text = n\<rparr>"
  obtain fs where fs: "cxpr_context_get_typed ?mem cs ?name = Some (innermost (cx_binding ?mem) cs n, fs)" "list_all cx_inv fs"
    using typed.get_ok [OF good(1), of ?mem ?name] by auto
  show "\<exists>cs'. ev_get_typed (tx_env ?tx) n cs = (bd_vars ?bd n, cs') \<and> good_frames cs0 cs'"
    using fs good_frames_next [OF cs fs(2) get_typed_frames [OF good(1) fs(1)]] views by (simp add: defs)
  obtain gs where gs: "cxpr_context_get_param_typed ?mem cs ?name = Some (param_value ?mem cs n, gs)" "list_all cx_inv gs"
      "list_all2 same_frame cs gs"
    using get_param_typed_ok [OF good(1), of ?mem ?name] by auto
  show "\<exists>cs'. ev_get_param_typed (tx_env ?tx) n cs = (bd_params ?bd n, cs') \<and> good_frames cs0 cs'"
    using gs good_frames_next [OF cs gs(2,3)] views by (simp add: defs)
  show "bd_vars ?bd n = Some v" if "ev_scope (tx_env ?tx) cs = Some f" "f n = Some v" for f v
    using that good(2) views(1) [symmetric] by (cases cs) (simp_all add: defs cx_binding_def)
  show "\<exists>cs'. tx_scalar ?tx ip i False cs = (None, cs') \<and> good_frames cs0 cs'"
    if "bd_vars ?bd (in_name i) = None" "in_hash i = cxpr_hash_string (in_name i)"
    using lookup_scalar_absent [OF good, of ?mem "in_name i"] that views cs by (simp add: defs)
  show "\<exists>cs'. param_lookups ?tx ip i cs = (bd_params ?bd (in_name i), cs') \<and> good_frames cs0 cs'"
    if "plain_param ?mem cs0 (in_name i)" "in_hash i = cxpr_hash_string (in_name i)"
    using plain_param_lookups [OF good, of ?mem i addr tx ip] that views cs by (simp add: context_bindings_def)
  show "\<exists>d cs'. tx_scalar ?tx ip i True cs = (d, cs') \<and> map_option cxpr_num d = bd_params ?bd (in_name i) \<and> good_frames cs0 cs'"
    if "plain_param ?mem cs0 (in_name i)" "in_hash i = cxpr_hash_string (in_name i)"
      "bd_params ?bd (in_name i) \<in> insert None (range (Some \<circ> cxpr_num))"
    using lookup_scalar_param [OF good, of "in_name i"] plain_param_number [OF good, of ?mem "in_name i"] that views cs
    by (simp add: defs)
qed

interpretation ctx: lookups "context_typed_env addr tx" "good_frames cs0" "context_bindings (tx_env tx) cs0"
    "plain_param (ev_mem (tx_env tx)) cs0" for addr tx cs0
  by (rule context_lookups)


section \<open>Properties\<close>

text \<open>What the typed executor's outcome says about a result of the tree evaluator.\<close>

definition same_outcome :: "'f ev \<Rightarrow> 'f typed_out option \<Rightarrow> bool" where
  "same_outcome r out \<longleftrightarrow>
     (case r of
        (v, _, Ok) \<Rightarrow> \<exists>st. out = Some (Return v st)
      | (_, _, Err e m) \<Rightarrow> \<exists>e' m' st. same_code e e' \<and> out = Some (Error e' m' st)
      | (_, _, Stuck) \<Rightarrow> out = Some Crash)"




text \<open>Samples: the expression \<open>2 < 3 and not (4 == 5) ? 2 * 3 : x\<close> on \<open>int64\<close> literals, which are not folded,
  and surroundings with the compiler's power function.\<close>

abbreviation int_ast :: "int \<Rightarrow> cxpr_expr_ast" where "int_ast i \<equiv> Ast None (CXPR_NODE_INT64 i)"

abbreviation op_ast :: "cxpr_token_type \<Rightarrow> cxpr_expr_ast \<Rightarrow> cxpr_expr_ast \<Rightarrow> cxpr_expr_ast" where
  "op_ast op l r \<equiv> Ast None (CXPR_NODE_BINARY_OP op l r)"

definition choice_ast :: cxpr_expr_ast where
  "choice_ast = Ast None (CXPR_NODE_TERNARY
     (op_ast CXPR_TOK_AND (op_ast CXPR_TOK_LT (int_ast 2) (int_ast 3))
       (Ast None (CXPR_NODE_UNARY_OP CXPR_TOK_NOT (op_ast CXPR_TOK_EQ (int_ast 4) (int_ast 5)))))
     (op_ast CXPR_TOK_STAR (int_ast 2) (int_ast 3)) (Ast None (CXPR_NODE_IDENTIFIER ''x'')))"

definition sample_tx :: "cxpr_context typed_env \<Rightarrow> cxpr_context typed_env" where
  "sample_tx tx = tx\<lparr>tx_env := (tx_env tx)\<lparr>ev_pow := ce_pow (sample_env [])\<rparr>\<rparr>"

lemma choice_ok:
  "op_tree choice_ast" "op_depth choice_ast = 5" "op_need choice_ast = 2" "lowers bd plain reg choice_ast"
  by (simp_all add: choice_ast_def op_depth.simps op_need.simps lowers.simps cxpr_ir_ast_equal.simps
      cxpr_ir_constant_typed_value.simps)



section \<open>Where the code disagrees with itself\<close>

text \<open>\<open>true and 5\<close> and \<open>3 * 3\<close> on \<open>int64\<close>.\<close>

definition and_ast :: cxpr_expr_ast where
  "and_ast = op_ast CXPR_TOK_AND (Ast None (CXPR_NODE_BOOL True)) (Ast None (CXPR_NODE_NUMBER (dbl_of_int 5)))"

definition square_ast :: cxpr_expr_ast where
  "square_ast = op_ast CXPR_TOK_STAR (int_ast 3) (int_ast 3)"


text \<open>A native function of two arguments that returns the second, and a function without arguments.\<close>

definition second_entry :: cxpr_func_entry where
  "second_entry = (cxpr_registry_prepare_entry ''second'')
     \<lparr>fe_native_kind := CXPR_NATIVE_KIND_BINARY, fe_binary := (\<lambda>a b. b), fe_min_args := 2, fe_max_args := 2,
      fe_sync_func := Some (\<lambda>xs. xs ! 1)\<rparr>"

definition seven_entry :: cxpr_func_entry where
  "seven_entry = (cxpr_registry_prepare_entry ''seven'')\<lparr>fe_sync_func := Some (\<lambda>xs. dbl_of_int 7)\<rparr>"

definition no_memo :: cxpr_eval_memo where
  "no_memo = \<lparr>memo_entries = [], memo_capacity = 0, memo_depth = 0\<rparr>"

definition div_zero_ast :: cxpr_expr_ast where
  "div_zero_ast = op_ast CXPR_TOK_SLASH (Ast None (CXPR_NODE_NUMBER dbl_one)) (Ast None (CXPR_NODE_NUMBER dbl_zero))"

lemma sample_entries [simp]:
  "cxpr_registry_find (Some [second_entry, seven_entry]) ''second'' = Some second_entry"
  "cxpr_registry_find (Some [second_entry, seven_entry]) ''seven'' = Some seven_entry"
  by (simp_all add: cxpr_registry_find_def second_entry_def seven_entry_def cxpr_registry_prepare_entry_def)

lemma sample_entry_fields [simp]:
  "\<not> fe_ast_func_handler second_entry" "\<not> fe_ast_func second_entry" "\<not> fe_struct_producer second_entry"
  "\<not> fe_model_producer second_entry" "fe_defined_body second_entry = None" "fe_defined_return_fields second_entry = []"
  "fe_struct_fields second_entry = None" "fe_min_args second_entry = 2" "fe_max_args second_entry = 2"
  "fe_native_kind second_entry = CXPR_NATIVE_KIND_BINARY" "fe_binary second_entry a b = b"
  "\<not> fe_ast_func_handler seven_entry" "\<not> fe_ast_func seven_entry" "\<not> fe_struct_producer seven_entry"
  "\<not> fe_model_producer seven_entry" "fe_defined_body seven_entry = None" "fe_defined_return_fields seven_entry = []"
  "fe_struct_fields seven_entry = None" "fe_min_args seven_entry = 0" "fe_max_args seven_entry = 0"
  "fe_native_kind seven_entry = CXPR_NATIVE_KIND_NONE" "fe_sync_func seven_entry = Some (\<lambda>xs. dbl_of_int 7)"
  "fe_value_func seven_entry = None" "\<not> fe_typed_func seven_entry" "fe_arg_types seven_entry = []"
  by (simp_all add: second_entry_def seven_entry_def cxpr_registry_prepare_entry_def)

lemma eval_call_sample:
  assumes "ev_reg env = Some [second_entry, seven_entry]"
  shows "eval_call env ev t ''seven'' [] [] cs e = (cxpr_num (dbl_of_int 7), cs, Ok)"
    "eval_call env ev t ''second'' [a, b] [None, None] cs e = eval_native ev [a, b] (\<lambda>ds. ds ! 1) cs e"
  using assms
  by (simp_all add: eval_call_def cxpr_eval_bind_call_args_def eval_plain_call_def Let_def cxpr_registry_call_typed_def
      cxpr_call_bind_args_def cxpr_expr_ast_named_args_present_def CXPR_MAX_CALL_ARGS_def)

text \<open>An empty memo: the node evaluator differs from the uncached one in the memo it stores.\<close>

lemma eval_node_no_memo:
  assumes "\<forall>cs. ev_memo env cs = no_memo" "e \<noteq> Stuck" "cxpr_eval_node_uncached env (cxpr_eval_node env n) t cs e = (v, cs', e')"
  shows "\<exists>cs1. cxpr_eval_node env (Suc n) t cs e = (v, cs1, e')"
proof -
  have "cxpr_eval_memo_get no_memo t h = None" for t h by (simp add: cxpr_eval_memo_get_def no_memo_def)
  then show ?thesis using assms by (auto simp: cxpr_eval_node.simps Let_def split: eval_err.splits)
qed


end
