(* ===== verification/Cxpr_Typecheck.thy ===== *)
theory Cxpr_Typecheck
  imports Cxpr_Agree Cxpr_Printer
begin

text \<open>
  The static type checker (\<^verbatim>\<open>src/src/typecheck.c\<close>): inference of a type for every node with located
  errors, and its soundness for the tree evaluator. The error object is never NULL here. The index
  capabilities are those of the evaluator's surroundings, with the declared result type of the entry
  for a target name as a parameter.
\<close>

section \<open>Types and errors\<close>

text \<open>\<open>CXPR_STATIC t\<close> is the static type with the value of \<open>t\<close>; \<open>CXPR_STATIC_ERROR\<close> is the left summand
  of a result.\<close>

datatype cxpr_typecheck_static_type = CXPR_STATIC_UNKNOWN | CXPR_STATIC cxpr_value_type

type_synonym checked = "cxpr_error + cxpr_typecheck_static_type"

fun cxpr_typecheck_type_name :: "cxpr_typecheck_static_type \<Rightarrow> string" where
  "cxpr_typecheck_type_name CXPR_STATIC_UNKNOWN = ''unknown''"
| "cxpr_typecheck_type_name (CXPR_STATIC t) =
     (case t of
        CXPR_VALUE_NUMBER \<Rightarrow> ''number''
      | CXPR_VALUE_BOOL \<Rightarrow> ''bool''
      | CXPR_VALUE_STRUCT \<Rightarrow> ''struct''
      | CXPR_VALUE_STRING \<Rightarrow> ''string''
      | CXPR_VALUE_NULL \<Rightarrow> ''null''
      | CXPR_VALUE_TIMESTAMP \<Rightarrow> ''timestamp''
      | CXPR_VALUE_DURATION \<Rightarrow> ''duration''
      | CXPR_VALUE_ARRAY \<Rightarrow> ''array''
      | CXPR_VALUE_INT64 \<Rightarrow> ''int64'')"

fun cxpr_typecheck_op_name :: "cxpr_token_type \<Rightarrow> string" where
  "cxpr_typecheck_op_name CXPR_TOK_PLUS = ''+''"
| "cxpr_typecheck_op_name CXPR_TOK_MINUS = ''-''"
| "cxpr_typecheck_op_name CXPR_TOK_STAR = ''*''"
| "cxpr_typecheck_op_name CXPR_TOK_SLASH = ''/''"
| "cxpr_typecheck_op_name CXPR_TOK_PERCENT = ''%''"
| "cxpr_typecheck_op_name CXPR_TOK_POWER = ''^''"
| "cxpr_typecheck_op_name CXPR_TOK_LT = ''<''"
| "cxpr_typecheck_op_name CXPR_TOK_LTE = ''<=''"
| "cxpr_typecheck_op_name CXPR_TOK_GT = ''>''"
| "cxpr_typecheck_op_name CXPR_TOK_GTE = ''>=''"
| "cxpr_typecheck_op_name CXPR_TOK_EQ = ''==''"
| "cxpr_typecheck_op_name CXPR_TOK_NEQ = ''!=''"
| "cxpr_typecheck_op_name CXPR_TOK_AND = ''and''"
| "cxpr_typecheck_op_name CXPR_TOK_OR = ''or''"
| "cxpr_typecheck_op_name CXPR_TOK_NOT = ''not''"
| "cxpr_typecheck_op_name _ = ''operator''"

text \<open>The error at the start of a node's source text, where it has one.\<close>

definition error_at :: "cxpr_expr_ast \<Rightarrow> string \<Rightarrow> cxpr_error" where
  "error_at node message =
     (let e = cxpr_error_zero\<lparr>err_code := CXPR_ERR_TYPE_MISMATCH, err_message := message\<rparr> in
      case ast_span node of
        None \<Rightarrow> e
      | Some span \<Rightarrow> e\<lparr>err_position := sp_offset (span_start span), err_line := sp_line (span_start span),
                       err_column := sp_column (span_start span)\<rparr>)"

definition cxpr_typecheck_error :: "string \<Rightarrow> string \<Rightarrow> string \<Rightarrow> cxpr_expr_ast \<Rightarrow> cxpr_typecheck_static_type \<Rightarrow> cxpr_error + 'a" where
  "cxpr_typecheck_error op expected role node actual =
     Inl (error_at node (take 511
       (''type error: '' @ [CHR 0x27] @ op @ [CHR 0x27] @ '' requires '' @ expected @ '', but '' @ role @ '' '' @ [CHR 0x27] @
        (case cxpr_expr_ast_to_string node of None \<Rightarrow> ''<expr>'' | Some s \<Rightarrow> s) @ [CHR 0x27] @ '' has type '' @
        cxpr_typecheck_type_name actual)))"

definition cxpr_typecheck_struct_shape_error :: "string \<Rightarrow> cxpr_error + 'a" where
  "cxpr_typecheck_struct_shape_error op =
     Inl (cxpr_error_zero\<lparr>err_code := CXPR_ERR_TYPE_MISMATCH,
       err_message := take 255 (''type error: '' @ [CHR 0x27] @ op @ [CHR 0x27] @ '' requires matching struct fields'')\<rparr>)"

definition cxpr_typecheck_field_error :: "string \<Rightarrow> cxpr_expr_ast \<Rightarrow> cxpr_error + 'a" where
  "cxpr_typecheck_field_error field node =
     Inl (error_at node (take 255 (''type error: record has no field '' @ [CHR 0x27] @ field @ [CHR 0x27])))"

section \<open>Records and operand types\<close>

definition cxpr_typecheck_record_has_field :: "cxpr_expr_ast \<Rightarrow> string \<Rightarrow> bool" where
  "cxpr_typecheck_record_has_field record field =
     (case ast_data record of CXPR_NODE_RECORD ns vals \<Rightarrow> field \<in> set ns | _ \<Rightarrow> False)"

definition cxpr_typecheck_record_field :: "cxpr_expr_ast \<Rightarrow> string \<Rightarrow> cxpr_expr_ast option" where
  "cxpr_typecheck_record_field record field =
     (case ast_data record of CXPR_NODE_RECORD ns vals \<Rightarrow> map_of (zip ns vals) field | _ \<Rightarrow> None)"

definition cxpr_typecheck_record_shapes_match :: "cxpr_expr_ast \<Rightarrow> cxpr_expr_ast \<Rightarrow> bool" where
  "cxpr_typecheck_record_shapes_match left right =
     (case (ast_data left, ast_data right) of
        (CXPR_NODE_RECORD lnames _, CXPR_NODE_RECORD rnames _) \<Rightarrow>
          length lnames = length rnames \<and> list_all (cxpr_typecheck_record_has_field right) lnames
      | _ \<Rightarrow> True)"

definition cxpr_typecheck_is_numeric :: "cxpr_typecheck_static_type \<Rightarrow> bool" where
  "cxpr_typecheck_is_numeric t \<longleftrightarrow> t \<in> {CXPR_STATIC CXPR_VALUE_NUMBER, CXPR_STATIC CXPR_VALUE_INT64, CXPR_STATIC_UNKNOWN}"

definition cxpr_typecheck_is_struct_arithmetic_operand :: "cxpr_typecheck_static_type \<Rightarrow> bool" where
  "cxpr_typecheck_is_struct_arithmetic_operand t \<longleftrightarrow>
     t \<in> {CXPR_STATIC CXPR_VALUE_NUMBER, CXPR_STATIC CXPR_VALUE_INT64, CXPR_STATIC CXPR_VALUE_STRUCT, CXPR_STATIC_UNKNOWN}"

definition cxpr_typecheck_is_bool :: "cxpr_typecheck_static_type \<Rightarrow> bool" where
  "cxpr_typecheck_is_bool t \<longleftrightarrow> t \<in> {CXPR_STATIC CXPR_VALUE_BOOL, CXPR_STATIC_UNKNOWN}"

definition cxpr_typecheck_join :: "cxpr_typecheck_static_type \<Rightarrow> cxpr_typecheck_static_type \<Rightarrow> cxpr_expr_ast \<Rightarrow> checked" where
  "cxpr_typecheck_join a b node =
     (if a = b then Inr a
      else if a = CXPR_STATIC_UNKNOWN then Inr b
      else if b = CXPR_STATIC_UNKNOWN then Inr a
      else cxpr_typecheck_error ''?:'' ''branches with matching types'' ''ternary branch'' node b)"

section \<open>Inference\<close>

definition check_then :: "cxpr_error + 'a \<Rightarrow> ('a \<Rightarrow> cxpr_error + 'b) \<Rightarrow> cxpr_error + 'b" where
  "check_then r k = (case r of Inl e \<Rightarrow> Inl e | Inr a \<Rightarrow> k a)"

lemma check_then_simps [simp]: "check_then (Inl e) k = Inl e" "check_then (Inr a) k = k a"
  by (simp_all add: check_then_def)

lemma check_then_cong [fundef_cong]:
  "r = r' \<Longrightarrow> (\<And>a. r' = Inr a \<Longrightarrow> k a = k' a) \<Longrightarrow> check_then r k = check_then r' k'"
  by (cases r') simp_all

lemma check_then_Inr: "check_then r k = Inr b \<longleftrightarrow> (\<exists>a. r = Inr a \<and> k a = Inr b)"
  by (cases r) simp_all

text \<open>The position a literal index selects. The code compares the index with the count as a double,
  which for counts below 2 to the 53 is the comparison of the integers.\<close>

definition static_index :: "cxpr_expr_ast \<Rightarrow> nat \<Rightarrow> nat option" where
  "static_index index n =
     (case ast_data index of
        CXPR_NODE_NUMBER v \<Rightarrow> (case array_index v of Some i \<Rightarrow> if i < n then Some i else None | None \<Rightarrow> None)
      | _ \<Rightarrow> None)"

lemma static_index_less: "static_index index n = Some i \<Longrightarrow> i < n"
  by (auto simp: static_index_def split: cxpr_expr_data.splits option.splits if_splits)

function cxpr_typecheck_resolve_static_index_value :: "cxpr_expr_ast \<Rightarrow> cxpr_expr_ast" where
  "cxpr_typecheck_resolve_static_index_value (Ast sp d) =
     (case d of
        CXPR_NODE_INDEX target index \<Rightarrow>
          (case ast_data (cxpr_typecheck_resolve_static_index_value target) of
             CXPR_NODE_ARRAY es \<Rightarrow>
               (case static_index index (length es) of None \<Rightarrow> Ast sp d | Some i \<Rightarrow> es ! i)
           | _ \<Rightarrow> Ast sp d)
      | _ \<Rightarrow> Ast sp d)"
  by pat_completeness auto
termination by (relation "measure size") auto

declare cxpr_typecheck_resolve_static_index_value.simps [simp del]

text \<open>The loop over the elements of an array whose index is not known; \<open>infer\<close> is the inference.\<close>

fun element_type :: "(cxpr_expr_ast \<Rightarrow> checked) \<Rightarrow> cxpr_typecheck_static_type \<Rightarrow> cxpr_expr_ast list \<Rightarrow> checked" where
  "element_type infer t [] = Inr t"
| "element_type infer t (e # es) =
     check_then (infer e) (\<lambda>current.
       if current = CXPR_STATIC_UNKNOWN then element_type infer t es
       else if t = CXPR_STATIC_UNKNOWN then element_type infer current es
       else if t \<noteq> current then Inr CXPR_STATIC_UNKNOWN
       else element_type infer t es)"

definition cxpr_typecheck_infer_array_element :: "(cxpr_expr_ast \<Rightarrow> checked) \<Rightarrow> cxpr_expr_ast list \<Rightarrow> cxpr_expr_ast \<Rightarrow> checked" where
  "cxpr_typecheck_infer_array_element infer es index =
     (case static_index index (length es) of
        Some i \<Rightarrow> infer (es ! i)
      | None \<Rightarrow> element_type infer CXPR_STATIC_UNKNOWN es)"

text \<open>The operator of \<open>cxpr_typecheck_infer_binary\<close> on operands whose types are known.\<close>

definition binary_type :: "cxpr_token_type \<Rightarrow> cxpr_expr_ast \<Rightarrow> cxpr_expr_ast \<Rightarrow> cxpr_typecheck_static_type
    \<Rightarrow> cxpr_typecheck_static_type \<Rightarrow> checked" where
  "binary_type op left right lt rt =
     (let name = cxpr_typecheck_op_name op;
          number = CXPR_STATIC CXPR_VALUE_NUMBER; int64 = CXPR_STATIC CXPR_VALUE_INT64; struct = CXPR_STATIC CXPR_VALUE_STRUCT;
          operands = (\<lambda>ok expected result.
            if \<not> ok lt then cxpr_typecheck_error name expected ''left operand'' left lt
            else if \<not> ok rt then cxpr_typecheck_error name expected ''right operand'' right rt
            else result) in
      if op \<in> {CXPR_TOK_PLUS, CXPR_TOK_MINUS, CXPR_TOK_STAR, CXPR_TOK_SLASH} then
        operands cxpr_typecheck_is_struct_arithmetic_operand ''number or struct operands''
          (if \<not> cxpr_typecheck_record_shapes_match left right then cxpr_typecheck_struct_shape_error name
           else if lt = struct \<or> rt = struct then Inr struct
           else if lt = int64 \<and> rt = int64 then Inr int64
           else if lt \<noteq> CXPR_STATIC_UNKNOWN \<and> rt \<noteq> CXPR_STATIC_UNKNOWN \<and> lt \<noteq> rt
           then cxpr_typecheck_error name ''matching numeric types'' ''right operand'' right rt
           else Inr (if lt = int64 \<or> rt = int64 then int64 else number))
      else if op \<in> {CXPR_TOK_PERCENT, CXPR_TOK_POWER} then
        operands cxpr_typecheck_is_numeric ''number operands'' (Inr number)
      else if op \<in> {CXPR_TOK_LT, CXPR_TOK_LTE, CXPR_TOK_GT, CXPR_TOK_GTE} then
        operands cxpr_typecheck_is_numeric ''number operands'' (Inr (CXPR_STATIC CXPR_VALUE_BOOL))
      else if op \<in> {CXPR_TOK_EQ, CXPR_TOK_NEQ} then
        (if lt \<noteq> CXPR_STATIC_UNKNOWN \<and> rt \<noteq> CXPR_STATIC_UNKNOWN \<and> lt \<noteq> rt
         then cxpr_typecheck_error name ''matching operand types'' ''right operand'' right rt
         else Inr (CXPR_STATIC CXPR_VALUE_BOOL))
      else if op \<in> {CXPR_TOK_AND, CXPR_TOK_OR} then
        operands cxpr_typecheck_is_bool ''bool operands'' (Inr (CXPR_STATIC CXPR_VALUE_BOOL))
      else Inr CXPR_STATIC_UNKNOWN)"

text \<open>The loop over the arguments of a call, which are numbered from \<open>i\<close>.\<close>

definition expected_index :: "cxpr_func_entry \<Rightarrow> string option list \<Rightarrow> nat \<Rightarrow> nat" where
  "expected_index entry arg_names i =
     (case (if i < length arg_names then arg_names ! i else None) of
        None \<Rightarrow> i
      | Some n \<Rightarrow>
          (let params = cxpr_registry_entry_param_names entry; p = length (takeWhile (\<lambda>m. m \<noteq> n) params) in
           if p < length params then p else i))"

fun check_args :: "(cxpr_expr_ast \<Rightarrow> checked) \<Rightarrow> string \<Rightarrow> cxpr_func_entry option \<Rightarrow> string option list \<Rightarrow> nat
    \<Rightarrow> cxpr_expr_ast list \<Rightarrow> cxpr_error + unit" where
  "check_args infer name entry arg_names i [] = Inr ()"
| "check_args infer name entry arg_names i (a # args) =
     check_then (infer a) (\<lambda>t.
       if name \<in> {''any'', ''all''} \<and> \<not> cxpr_typecheck_is_bool t
       then cxpr_typecheck_error name ''bool argument'' ''argument'' a t
       else check_then
         (case entry of
            None \<Rightarrow> Inr ()
          | Some e \<Rightarrow>
              (let k = expected_index e arg_names i; expected = CXPR_STATIC (fe_arg_types e ! k) in
               if k < length (fe_arg_types e) \<and> t \<noteq> CXPR_STATIC_UNKNOWN \<and> t \<noteq> expected
               then cxpr_typecheck_error name (cxpr_typecheck_type_name expected) ''argument'' a t
               else Inr ()))
         (\<lambda>_. check_args infer name entry arg_names (i + 1) args))"

definition cxpr_typecheck_infer_call :: "cxpr_registry \<Rightarrow> (cxpr_expr_ast \<Rightarrow> checked) \<Rightarrow> string \<Rightarrow> cxpr_expr_ast list
    \<Rightarrow> string option list \<Rightarrow> checked" where
  "cxpr_typecheck_infer_call reg infer name args arg_names =
     (if name = ''if'' \<and> length args = 3 then
        check_then (infer (args ! 0)) (\<lambda>c.
          if \<not> cxpr_typecheck_is_bool c \<and> \<not> cxpr_typecheck_is_numeric c
          then cxpr_typecheck_error name ''bool or number condition'' ''condition'' (args ! 0) c
          else check_then (infer (args ! 1)) (\<lambda>a. check_then (infer (args ! 2)) (\<lambda>b.
            cxpr_typecheck_join a b (args ! 2))))
      else let entry = cxpr_registry_find reg name in
        check_then (check_args infer name entry arg_names 0 args) (\<lambda>_.
          Inr (case entry of
                 None \<Rightarrow> CXPR_STATIC_UNKNOWN
               | Some e \<Rightarrow> if fe_has_return_type e then CXPR_STATIC (fe_return_type e) else CXPR_STATIC_UNKNOWN)))"

text \<open>The declared result type of the capability that was selected: the entry of the identifier, or of
  the first reference of the target that has one.\<close>

definition capability_type :: "'f eval_env \<Rightarrow> (string \<Rightarrow> cxpr_value_type) \<Rightarrow> cxpr_expr_ast \<Rightarrow> cxpr_value_type" where
  "capability_type env result_type target =
     (case ast_data target of
        CXPR_NODE_IDENTIFIER name \<Rightarrow> result_type name
      | _ \<Rightarrow>
          (case find (\<lambda>n. cxpr_registry_find_index_capability env n \<noteq> None)
                  (nl_names (cxpr_expr_ast_references target (nl_count (cxpr_expr_ast_references target 0)))) of
             Some n \<Rightarrow> result_type n
           | None \<Rightarrow> CXPR_VALUE_NULL))"

definition selected_type :: "'f eval_env \<Rightarrow> (string \<Rightarrow> cxpr_value_type) \<Rightarrow> cxpr_expr_ast \<Rightarrow> cxpr_error + cxpr_value_type option" where
  "selected_type env result_type target =
     (case cxpr_registry_select_index_capability env target Ok of
        (Some c, _, _) \<Rightarrow> Inr (Some (capability_type env result_type target))
      | (None, handled, e) \<Rightarrow>
          if handled
          then Inl (case e of
                      Err code message \<Rightarrow> cxpr_error_zero\<lparr>err_code := code, err_message := message\<rparr>
                    | _ \<Rightarrow> cxpr_error_zero)
          else Inr None)"

lemma element_type_cong [fundef_cong]:
  "t = t' \<Longrightarrow> es = es' \<Longrightarrow> (\<And>x. x \<in> set es' \<Longrightarrow> f x = g x) \<Longrightarrow> element_type f t es = element_type g t' es'"
  by (induction es arbitrary: t t' es') (auto intro!: check_then_cong)

lemma infer_array_element_cong [fundef_cong]:
  assumes "es = es'" "index = index'" "\<And>x. x \<in> set es' \<Longrightarrow> f x = g x"
  shows "cxpr_typecheck_infer_array_element f es index = cxpr_typecheck_infer_array_element g es' index'"
  using assms element_type_cong [OF refl assms(1,3)]
  by (auto simp: cxpr_typecheck_infer_array_element_def dest!: static_index_less split: option.splits)

lemma check_args_cong [fundef_cong]:
  "name = name' \<Longrightarrow> entry = entry' \<Longrightarrow> arg_names = arg_names' \<Longrightarrow> i = i' \<Longrightarrow> args = args' \<Longrightarrow>
   (\<And>x. x \<in> set args' \<Longrightarrow> f x = g x) \<Longrightarrow>
   check_args f name entry arg_names i args = check_args g name' entry' arg_names' i' args'"
  by (induction args arbitrary: i i' args') (auto intro!: check_then_cong)

lemma infer_call_cong [fundef_cong]:
  assumes "reg = reg'" "name = name'" "args = args'" "arg_names = arg_names'" "\<And>x. x \<in> set args' \<Longrightarrow> f x = g x"
  shows "cxpr_typecheck_infer_call reg f name args arg_names = cxpr_typecheck_infer_call reg' g name' args' arg_names'"
proof -
  have "f (args' ! k) = g (args' ! k)" if "length args' = 3" "k < 3" for k using assms(5) that by simp
  moreover have "check_args f name' entry arg_names' 0 args' = check_args g name' entry arg_names' 0 args'" for entry
    by (rule check_args_cong) (simp_all add: assms(5))
  ultimately show ?thesis unfolding cxpr_typecheck_infer_call_def assms(1-4) by (auto intro!: check_then_cong)
qed

text \<open>The loop over the fields of a record.\<close>

fun check_fields :: "(cxpr_expr_ast \<Rightarrow> checked) \<Rightarrow> cxpr_expr_ast list \<Rightarrow> cxpr_error + unit" where
  "check_fields infer [] = Inr ()"
| "check_fields infer (v # vs) = check_then (infer v) (\<lambda>_. check_fields infer vs)"

lemma check_fields_cong [fundef_cong]:
  "vs = vs' \<Longrightarrow> (\<And>x. x \<in> set vs' \<Longrightarrow> f x = g x) \<Longrightarrow> check_fields f vs = check_fields g vs'"
  by (induction vs arbitrary: vs') (auto intro!: check_then_cong)

lemma resolved_size: "size (cxpr_typecheck_resolve_static_index_value t) \<le> size t"
proof (induction t rule: cxpr_typecheck_resolve_static_index_value.induct)
  case (1 sp d)
  show ?case
  proof (cases d)
    case (CXPR_NODE_INDEX target index)
    let ?r = "cxpr_typecheck_resolve_static_index_value target"
    have "size (es ! i) \<le> size (Ast sp d)" if es: "ast_data ?r = CXPR_NODE_ARRAY es" and i: "i < length es" for es i
    proof -
      have "size (es ! i) < size ?r" using size_nth [OF i] es by (cases ?r) simp
      with 1 [OF CXPR_NODE_INDEX] CXPR_NODE_INDEX show ?thesis by simp
    qed
    with CXPR_NODE_INDEX show ?thesis
      by (auto simp: cxpr_typecheck_resolve_static_index_value.simps dest!: static_index_less
          split: cxpr_expr_data.splits option.splits)
  qed (simp_all add: cxpr_typecheck_resolve_static_index_value.simps)
qed

lemma resolved_field_size:
  assumes "cxpr_typecheck_record_field (cxpr_typecheck_resolve_static_index_value t) f = Some v"
  shows "size v < size t"
proof -
  have "size v < size (cxpr_typecheck_resolve_static_index_value t)"
    using assms by (cases "cxpr_typecheck_resolve_static_index_value t")
      (auto simp: cxpr_typecheck_record_field_def size_elem less_SucI dest!: map_of_SomeD set_zip_rightD
        split: cxpr_expr_data.splits)
  with resolved_size [of t] show ?thesis by simp
qed

lemma resolved_elem_size:
  assumes "ast_data (cxpr_typecheck_resolve_static_index_value t) = CXPR_NODE_ARRAY es" "x \<in> set es"
  shows "size x < size t"
proof -
  have "size x < size (cxpr_typecheck_resolve_static_index_value t)"
    using assms by (cases "cxpr_typecheck_resolve_static_index_value t") (auto simp: size_elem less_SucI)
  with resolved_size [of t] show ?thesis by simp
qed

function cxpr_typecheck_infer :: "'f eval_env \<Rightarrow> (string \<Rightarrow> cxpr_value_type) \<Rightarrow> cxpr_expr_ast \<Rightarrow> checked" where
  "cxpr_typecheck_infer env result_type (Ast sp d) =
     (case d of
        CXPR_NODE_NUMBER _ \<Rightarrow> Inr (CXPR_STATIC CXPR_VALUE_NUMBER)
      | CXPR_NODE_INT64 _ \<Rightarrow> Inr (CXPR_STATIC CXPR_VALUE_INT64)
      | CXPR_NODE_BOOL _ \<Rightarrow> Inr (CXPR_STATIC CXPR_VALUE_BOOL)
      | CXPR_NODE_STRING _ \<Rightarrow> Inr (CXPR_STATIC CXPR_VALUE_STRING)
      | CXPR_NODE_ARRAY _ \<Rightarrow> Inr (CXPR_STATIC CXPR_VALUE_ARRAY)
      | CXPR_NODE_RECORD ns vals \<Rightarrow>
          check_then (check_fields (cxpr_typecheck_infer env result_type) vals) (\<lambda>_. Inr (CXPR_STATIC CXPR_VALUE_STRUCT))
      | CXPR_NODE_FIELD_EXPR base field \<Rightarrow>
          check_then (cxpr_typecheck_infer env result_type base) (\<lambda>t.
            case ast_data (cxpr_typecheck_resolve_static_index_value base) of
              CXPR_NODE_RECORD _ _ \<Rightarrow>
                (case cxpr_typecheck_record_field (cxpr_typecheck_resolve_static_index_value base) field of
                   None \<Rightarrow> cxpr_typecheck_field_error field (Ast sp d)
                 | Some v \<Rightarrow> cxpr_typecheck_infer env result_type v)
            | _ \<Rightarrow>
                (case ast_data base of
                   CXPR_NODE_NUMBER _ \<Rightarrow> cxpr_typecheck_error ''.'' ''record operand'' ''base'' base t
                 | CXPR_NODE_BOOL _ \<Rightarrow> cxpr_typecheck_error ''.'' ''record operand'' ''base'' base t
                 | CXPR_NODE_STRING _ \<Rightarrow> cxpr_typecheck_error ''.'' ''record operand'' ''base'' base t
                 | CXPR_NODE_ARRAY _ \<Rightarrow> cxpr_typecheck_error ''.'' ''record operand'' ''base'' base t
                 | _ \<Rightarrow> Inr CXPR_STATIC_UNKNOWN))
      | CXPR_NODE_BINARY_OP op left right \<Rightarrow>
          check_then (cxpr_typecheck_infer env result_type left) (\<lambda>lt.
          check_then (cxpr_typecheck_infer env result_type right) (\<lambda>rt. binary_type op left right lt rt))
      | CXPR_NODE_UNARY_OP op a \<Rightarrow>
          check_then (cxpr_typecheck_infer env result_type a) (\<lambda>t.
            if op = CXPR_TOK_MINUS then
              (if cxpr_typecheck_is_numeric t then Inr (CXPR_STATIC CXPR_VALUE_NUMBER)
               else cxpr_typecheck_error ''-'' ''number operand'' ''operand'' a t)
            else if op = CXPR_TOK_NOT then
              (if cxpr_typecheck_is_bool t then Inr (CXPR_STATIC CXPR_VALUE_BOOL)
               else cxpr_typecheck_error ''not'' ''bool operand'' ''operand'' a t)
            else Inr CXPR_STATIC_UNKNOWN)
      | CXPR_NODE_FUNCTION_CALL name args arg_names \<Rightarrow>
          cxpr_typecheck_infer_call (ev_reg env) (cxpr_typecheck_infer env result_type) name args arg_names
      | CXPR_NODE_INDEX target index \<Rightarrow>
          check_then (cxpr_typecheck_infer env result_type index) (\<lambda>t.
            if \<not> cxpr_typecheck_is_numeric t
            then cxpr_typecheck_error ''[]'' ''number index'' ''index expression'' index t
            else check_then (selected_type env result_type target) (\<lambda>selected.
              case selected of
                Some s \<Rightarrow> Inr (CXPR_STATIC s)
              | None \<Rightarrow>
                  (case ast_data (cxpr_typecheck_resolve_static_index_value target) of
                     CXPR_NODE_ARRAY es \<Rightarrow>
                       cxpr_typecheck_infer_array_element (cxpr_typecheck_infer env result_type) es index
                   | _ \<Rightarrow>
                       check_then (cxpr_typecheck_infer env result_type target) (\<lambda>_. Inr CXPR_STATIC_UNKNOWN))))
      | CXPR_NODE_TERNARY c a b \<Rightarrow>
          check_then (cxpr_typecheck_infer env result_type c) (\<lambda>t.
            if \<not> cxpr_typecheck_is_bool t
            then cxpr_typecheck_error ''?:'' ''bool condition'' ''condition'' c t
            else check_then (cxpr_typecheck_infer env result_type a) (\<lambda>ta.
              check_then (cxpr_typecheck_infer env result_type b) (\<lambda>tb. cxpr_typecheck_join ta tb b)))
      | _ \<Rightarrow> Inr CXPR_STATIC_UNKNOWN)"
  by pat_completeness auto
termination
  by (relation "measure (\<lambda>(env, result_type, ast). size ast)")
    (auto simp: size_elem less_SucI dest!: resolved_field_size dest: resolved_elem_size)

declare cxpr_typecheck_infer.simps [simp del]

text \<open>The entry points. The inner option is the type written to \<open>out_type\<close>, if any.\<close>

definition cxpr_typecheck :: "'f eval_env \<Rightarrow> (string \<Rightarrow> cxpr_value_type) \<Rightarrow> cxpr_expr_ast \<Rightarrow> cxpr_error + cxpr_value_type option" where
  "cxpr_typecheck env result_type ast =
     check_then (cxpr_typecheck_infer env result_type ast) (\<lambda>t.
       Inr (case t of CXPR_STATIC_UNKNOWN \<Rightarrow> None | CXPR_STATIC s \<Rightarrow> Some s))"

definition cxpr_typecheck_bool_root :: "'f eval_env \<Rightarrow> (string \<Rightarrow> cxpr_value_type) \<Rightarrow> cxpr_expr_ast \<Rightarrow> cxpr_error + unit" where
  "cxpr_typecheck_bool_root env result_type ast =
     check_then (cxpr_typecheck_infer env result_type ast) (\<lambda>t.
       if cxpr_typecheck_is_bool t then Inr ()
       else cxpr_typecheck_error ''bool root'' ''bool expression'' ''root'' ast t)"

section \<open>Soundness\<close>

text \<open>The checker does not know the types of names and lets them stand for any type. \<open>settled\<close> says, of those unknown
  types only, that reading them as numbers fits their uses: none is used as a boolean, and where two types have to
  be the same the other is a number or unknown too. It also says that no \<open>int64\<close> literal occurs.\<close>

fun reading :: "cxpr_typecheck_static_type \<Rightarrow> cxpr_value_type" where
  "reading CXPR_STATIC_UNKNOWN = CXPR_VALUE_NUMBER"
| "reading (CXPR_STATIC t) = t"

fun settled :: "'f eval_env \<Rightarrow> (string \<Rightarrow> cxpr_value_type) \<Rightarrow> cxpr_expr_ast \<Rightarrow> bool" where
  "settled env result_type (Ast sp d) =
     (let type = cxpr_typecheck_infer env result_type;
          known = (\<lambda>t. type t \<noteq> Inr CXPR_STATIC_UNKNOWN);
          fits = (\<lambda>a b. known a \<or> type b \<in> {Inr CXPR_STATIC_UNKNOWN, Inr (CXPR_STATIC CXPR_VALUE_NUMBER)}) in
      case d of
        CXPR_NODE_INT64 _ \<Rightarrow> False
      | CXPR_NODE_UNARY_OP op a \<Rightarrow>
          settled env result_type a \<and> (op = CXPR_TOK_MINUS \<or> op = CXPR_TOK_NOT \<and> known a)
      | CXPR_NODE_BINARY_OP op l r \<Rightarrow>
          settled env result_type l \<and> settled env result_type r \<and>
          (if op \<in> {CXPR_TOK_AND, CXPR_TOK_OR} then known l \<and> known r
           else if op \<in> {CXPR_TOK_EQ, CXPR_TOK_NEQ} then fits l r \<and> fits r l
           else op \<in> set arith_tokens \<union> set order_tokens)
      | CXPR_NODE_TERNARY c a b \<Rightarrow>
          settled env result_type c \<and> settled env result_type a \<and> settled env result_type b \<and>
          known c \<and> fits a b \<and> fits b a
      | _ \<Rightarrow> True)"

declare settled.simps [simp del]

text \<open>Every name of an operator expression that has a binding is bound to a number.\<close>

fun numeric_names :: "bindings \<Rightarrow> cxpr_expr_ast \<Rightarrow> bool" where
  "numeric_names bd (Ast sp d) =
     (case d of
        CXPR_NODE_IDENTIFIER n \<Rightarrow> (case bd_vars bd n of None \<Rightarrow> True | Some v \<Rightarrow> value_type v = CXPR_VALUE_NUMBER)
      | CXPR_NODE_VARIABLE n \<Rightarrow> (case bd_params bd n of None \<Rightarrow> True | Some v \<Rightarrow> value_type v = CXPR_VALUE_NUMBER)
      | CXPR_NODE_UNARY_OP op a \<Rightarrow> numeric_names bd a
      | CXPR_NODE_BINARY_OP op l r \<Rightarrow> numeric_names bd l \<and> numeric_names bd r
      | CXPR_NODE_TERNARY c a b \<Rightarrow> numeric_names bd c \<and> numeric_names bd a \<and> numeric_names bd b
      | _ \<Rightarrow> True)"

text \<open>The results a settled expression of a type may have.\<close>

fun well_typed :: "cxpr_value_type \<Rightarrow> cxpr_value op_result \<Rightarrow> bool" where
  "well_typed t (Handled v) \<longleftrightarrow> value_type v = t \<and> v \<noteq> cxpr_string None"
| "well_typed t (Failed c m) \<longleftrightarrow> c \<in> {CXPR_ERR_DIVISION_BY_ZERO, CXPR_ERR_UNKNOWN_IDENTIFIER}"
| "well_typed t _ \<longleftrightarrow> False"

abbreviation scalar_types :: "cxpr_value_type set" where
  "scalar_types \<equiv> {CXPR_VALUE_NUMBER, CXPR_VALUE_BOOL, CXPR_VALUE_STRING}"

lemma well_typed_bind:
  assumes "well_typed t r" "\<And>v. value_type v = t \<Longrightarrow> v \<noteq> cxpr_string None \<Longrightarrow> well_typed u (k v)"
  shows "well_typed u (bind_op r k)"
  using assms by (cases r) simp_all

lemma scalar_value_cases:
  "value_type v = CXPR_VALUE_NUMBER \<longleftrightarrow> (\<exists>d. v = cxpr_num d)" "value_type v = CXPR_VALUE_BOOL \<longleftrightarrow> (\<exists>b. v = cxpr_bool b)"
  "value_type v = CXPR_VALUE_STRING \<longleftrightarrow> (\<exists>s. v = cxpr_string s)"
  by (cases v; simp)+

lemma arith_well_typed:
  "op \<in> set arith_tokens \<Longrightarrow> well_typed CXPR_VALUE_NUMBER (cxpr_eval_binary_values mem pow op (cxpr_num a) (cxpr_num b))"
  by (simp add: cxpr_eval_binary_values_def cxpr_eval_arithmetic_op_def)

lemma order_well_typed:
  "op \<in> set order_tokens \<Longrightarrow> well_typed CXPR_VALUE_BOOL (cxpr_eval_binary_values mem pow op (cxpr_num a) (cxpr_num b))"
  by (auto simp: cxpr_eval_binary_values_def cxpr_eval_comparison_op_def arith_tokens_def order_tokens_def)

lemma equality_well_typed:
  assumes "op \<in> {CXPR_TOK_EQ, CXPR_TOK_NEQ}" "value_type v = value_type w" "value_type v \<in> scalar_types"
    and "v \<noteq> cxpr_string None" "w \<noteq> cxpr_string None"
  shows "well_typed CXPR_VALUE_BOOL (cxpr_eval_binary_values mem pow op v w)"
  using assms
  by (cases v; cases w) (auto simp: cxpr_eval_binary_values_def cxpr_eval_equality_op_def cxpr_eval_values_equal_def
      arith_tokens_def order_tokens_def)

lemma binary_type_scalar:
  assumes "binary_type op l r lt rt = Inr s" "reading lt \<in> scalar_types" "reading rt \<in> scalar_types"
  shows "op \<in> set arith_tokens \<Longrightarrow> reading lt = CXPR_VALUE_NUMBER \<and> reading rt = CXPR_VALUE_NUMBER \<and> reading s = CXPR_VALUE_NUMBER"
    "op \<in> set order_tokens \<Longrightarrow> reading lt = CXPR_VALUE_NUMBER \<and> reading rt = CXPR_VALUE_NUMBER \<and> reading s = CXPR_VALUE_BOOL"
    "op \<in> {CXPR_TOK_EQ, CXPR_TOK_NEQ, CXPR_TOK_AND, CXPR_TOK_OR} \<Longrightarrow> reading s = CXPR_VALUE_BOOL"
  using assms
  by (cases lt; cases rt; auto simp: binary_type_def cxpr_typecheck_error_def cxpr_typecheck_struct_shape_error_def
      cxpr_typecheck_is_struct_arithmetic_operand_def cxpr_typecheck_is_numeric_def cxpr_typecheck_is_bool_def
      arith_tokens_def order_tokens_def Let_def split: if_splits)+

lemma bool_known: "cxpr_typecheck_is_bool t \<Longrightarrow> t \<noteq> CXPR_STATIC_UNKNOWN \<Longrightarrow> reading t = CXPR_VALUE_BOOL"
  by (auto simp: cxpr_typecheck_is_bool_def)

text \<open>What the checker has tested when it accepts the operands of a connective, of an equality and the branches of
  a ternary operator.\<close>

lemma binary_type_logic:
  "binary_type op l r lt rt = Inr s \<Longrightarrow> op \<in> {CXPR_TOK_AND, CXPR_TOK_OR} \<Longrightarrow> cxpr_typecheck_is_bool lt \<and> cxpr_typecheck_is_bool rt"
  by (auto simp: binary_type_def cxpr_typecheck_error_def Let_def split: if_splits)

lemma binary_type_equality:
  "binary_type op l r lt rt = Inr s \<Longrightarrow> op \<in> {CXPR_TOK_EQ, CXPR_TOK_NEQ} \<Longrightarrow>
   lt = rt \<or> lt = CXPR_STATIC_UNKNOWN \<or> rt = CXPR_STATIC_UNKNOWN"
  by (auto simp: binary_type_def cxpr_typecheck_error_def Let_def split: if_splits)

lemma join_types:
  "cxpr_typecheck_join ta tb b = Inr s \<Longrightarrow> ta = tb \<or> ta = CXPR_STATIC_UNKNOWN \<or> tb = CXPR_STATIC_UNKNOWN"
  by (auto simp: cxpr_typecheck_join_def cxpr_typecheck_error_def split: if_splits)

lemma unary_type_scalar:
  assumes "cxpr_typecheck_infer env result_type (Ast sp (CXPR_NODE_UNARY_OP op a)) = Inr s"
    and "settled env result_type (Ast sp (CXPR_NODE_UNARY_OP op a))"
    and "cxpr_typecheck_infer env result_type a = Inr u" "reading u \<in> scalar_types"
  shows "reading s \<in> scalar_types"
    "value_type v = reading u \<Longrightarrow> well_typed (reading s) (unary_value op v)"
  using assms
  by (cases u; auto simp: cxpr_typecheck_infer.simps settled.simps unary_value_def scalar_value_cases
      cxpr_typecheck_is_numeric_def cxpr_typecheck_is_bool_def cxpr_typecheck_error_def split: if_splits)+

lemma join_reading: "reading ta = reading tb \<Longrightarrow> cxpr_typecheck_join ta tb b = Inr s \<Longrightarrow> reading s = reading ta"
  by (cases ta; cases tb) (auto simp: cxpr_typecheck_join_def cxpr_typecheck_error_def split: if_splits)

lemma logic_well_typed:
  assumes "well_typed CXPR_VALUE_BOOL l" "well_typed CXPR_VALUE_BOOL r"
  shows "well_typed CXPR_VALUE_BOOL
    (bind_op l (\<lambda>a. bind_op (as_bool m a) (\<lambda>b. if b = sense then Handled (cxpr_bool b)
       else bind_op r (\<lambda>w. bind_op (as_bool m' w) (\<lambda>c. Handled (cxpr_bool c))))))"
  by (rule well_typed_bind [OF assms(1)])
    (auto simp: scalar_value_cases as_bool_def intro!: well_typed_bind [OF assms(2)])

lemma binary_well_typed:
  assumes "binary_type op l r lt rt = Inr s" "reading lt \<in> scalar_types" "reading rt \<in> scalar_types"
    and "well_typed (reading lt) dl" "well_typed (reading rt) dr"
    and "if op \<in> {CXPR_TOK_EQ, CXPR_TOK_NEQ} then reading lt = reading rt else op \<in> set arith_tokens \<union> set order_tokens"
  shows "well_typed (reading s) (bind_op dl (\<lambda>a. bind_op dr (cxpr_eval_binary_values mem pow op a)))"
proof (rule well_typed_bind [OF assms(4)], rule well_typed_bind [OF assms(5)])
  fix v w assume vw: "value_type v = reading lt" "v \<noteq> cxpr_string None" "value_type w = reading rt" "w \<noteq> cxpr_string None"
  from assms(6) consider "op \<in> {CXPR_TOK_EQ, CXPR_TOK_NEQ}" "reading lt = reading rt" | "op \<in> set arith_tokens" | "op \<in> set order_tokens"
    by (auto split: if_splits)
  then show "well_typed (reading s) (cxpr_eval_binary_values mem pow op v w)"
  proof cases
    case 1
    then have "reading s = CXPR_VALUE_BOOL" using binary_type_scalar(3) [OF assms(1-3)] by auto
    with 1 vw assms(2) show ?thesis using equality_well_typed [of op v w] by simp
  next
    case 2
    with binary_type_scalar(1) [OF assms(1-3)] vw show ?thesis by (auto simp: scalar_value_cases arith_well_typed)
  next
    case 3
    with binary_type_scalar(2) [OF assms(1-3)] vw show ?thesis by (auto simp: scalar_value_cases order_well_typed)
  qed
qed

lemma settled_sound:
  assumes "op_tree t" "cxpr_typecheck_infer env result_type t = Inr s" "settled env result_type t"
    and "numeric_names bd t"
  shows "reading s \<in> scalar_types \<and> well_typed (reading s) (denote bd t)"
  using assms
proof (induction arbitrary: s rule: op_tree.induct)
  case (op_identifier sp n)
  then show ?case by (cases "bd_vars bd n") (fastforce simp: cxpr_typecheck_infer.simps denote.simps found_def)+
next
  case (op_variable sp n)
  then show ?case by (cases "bd_params bd n") (fastforce simp: cxpr_typecheck_infer.simps denote.simps found_def)+
next
  case (op_unary a sp op)
  from op_unary.prems obtain u where u: "cxpr_typecheck_infer env result_type a = Inr u" and a: "settled env result_type a" "numeric_names bd a"
    by (auto simp: cxpr_typecheck_infer.simps settled.simps check_then_Inr)
  from op_unary.IH [OF this] have ih: "reading u \<in> scalar_types" "well_typed (reading u) (denote bd a)" by auto
  note step = unary_type_scalar [OF op_unary.prems(1,2) u ih(1)]
  show ?case using step(1) well_typed_bind [OF ih(2) step(2)] by (simp add: denote.simps)
next
  case (op_binary l r sp op)
  from op_binary.prems obtain lt rt where
      lt: "cxpr_typecheck_infer env result_type l = Inr lt" "settled env result_type l" "numeric_names bd l"
      and rt: "cxpr_typecheck_infer env result_type r = Inr rt" "settled env result_type r" "numeric_names bd r"
      and s: "binary_type op l r lt rt = Inr s"
    by (auto simp: cxpr_typecheck_infer.simps settled.simps check_then_Inr Let_def)
  from op_binary.IH(1) [OF lt] op_binary.IH(2) [OF rt] have
      ihl: "reading lt \<in> scalar_types" "well_typed (reading lt) (denote bd l)"
      and ihr: "reading rt \<in> scalar_types" "well_typed (reading rt) (denote bd r)" by auto
  note types = binary_type_scalar [OF s ihl(1) ihr(1)]
  show ?case
  proof (cases "op \<in> {CXPR_TOK_AND, CXPR_TOK_OR}")
    case True
    then have "reading lt = CXPR_VALUE_BOOL" "reading rt = CXPR_VALUE_BOOL"
      using op_binary.prems(2) lt rt binary_type_logic [OF s] by (auto simp: settled.simps Let_def intro!: bool_known)
    with ihl ihr logic_well_typed [of "denote bd l" "denote bd r"] types(3) True show ?thesis
      by (auto simp: denote.simps)
  next
    case False
    then have use: "if op \<in> {CXPR_TOK_EQ, CXPR_TOK_NEQ} then reading lt = reading rt else op \<in> set arith_tokens \<union> set order_tokens"
      using op_binary.prems(2) lt rt binary_type_equality [OF s] by (auto simp: settled.simps Let_def split: if_splits)
    then have "reading s \<in> scalar_types" using types by (auto split: if_splits)
    with binary_well_typed [OF s ihl(1) ihr(1) ihl(2) ihr(2) use] False show ?thesis by (auto simp: denote.simps)
  qed
next
  case (op_ternary c a b sp)
  from op_ternary.prems obtain tc ta tb where
      tc: "cxpr_typecheck_infer env result_type c = Inr tc" "settled env result_type c" "numeric_names bd c"
      and ta: "cxpr_typecheck_infer env result_type a = Inr ta" "settled env result_type a" "numeric_names bd a"
      and tb: "cxpr_typecheck_infer env result_type b = Inr tb" "settled env result_type b" "numeric_names bd b"
      and s: "cxpr_typecheck_join ta tb b = Inr s" and cond: "cxpr_typecheck_is_bool tc"
    by (auto simp: cxpr_typecheck_infer.simps settled.simps check_then_Inr cxpr_typecheck_error_def Let_def split: if_splits)
  then have read: "reading tc = CXPR_VALUE_BOOL" "reading ta = reading tb"
    using op_ternary.prems(2) join_types [OF s] by (auto simp: settled.simps Let_def intro!: bool_known)
  with op_ternary.IH(1) [OF tc] op_ternary.IH(2) [OF ta] op_ternary.IH(3) [OF tb] join_reading [OF read(2) s] show ?case
    by (auto simp: denote.simps scalar_value_cases as_bool_def intro!: well_typed_bind [of CXPR_VALUE_BOOL])
qed (auto simp: cxpr_typecheck_infer.simps denote.simps settled.simps)

section \<open>Properties\<close>


text \<open>Samples: \<open>2 < 3 and not (1 == 5) ? 2 * 3 : 4 / 0\<close>, \<open>- i\<close> and \<open>i < 2.0\<close> for the \<open>int64\<close> literal \<open>i = 5\<close>.\<close>

abbreviation num_ast :: "int \<Rightarrow> cxpr_expr_ast" where "num_ast i \<equiv> Ast None (CXPR_NODE_NUMBER (dbl_of_int i))"

definition typed_ast :: cxpr_expr_ast where
  "typed_ast = Ast None (CXPR_NODE_TERNARY
     (op_ast CXPR_TOK_AND (op_ast CXPR_TOK_LT (num_ast 2) (num_ast 3))
       (Ast None (CXPR_NODE_UNARY_OP CXPR_TOK_NOT (op_ast CXPR_TOK_EQ (num_ast 1) (num_ast 5)))))
     (op_ast CXPR_TOK_STAR (num_ast 2) (num_ast 3)) (op_ast CXPR_TOK_SLASH (num_ast 4) (num_ast 0)))"

definition minus_ast :: cxpr_expr_ast where
  "minus_ast = Ast None (CXPR_NODE_UNARY_OP CXPR_TOK_MINUS (int_ast 5))"

definition mixed_ast :: cxpr_expr_ast where
  "mixed_ast = op_ast CXPR_TOK_LT (int_ast 5) (num_ast 2)"

lemma literal_ok_small: "literal_ok (dbl_of_int 0)" "literal_ok (dbl_of_int 1)" "literal_ok (dbl_of_int 2)" "literal_ok (dbl_of_int 3)"
    "literal_ok (dbl_of_int 4)" "literal_ok (dbl_of_int 5)"
  by code_simp+

lemma typed_ok:
  "op_tree typed_ast" "op_depth typed_ast = 5" "numeric_names bd typed_ast"
  "cxpr_typecheck cenv result_type typed_ast = Inr (Some CXPR_VALUE_NUMBER)" "settled cenv result_type typed_ast"
  by (simp_all add: typed_ast_def op_depth.simps literal_ok_small cxpr_typecheck_def cxpr_typecheck_infer.simps settled.simps
      binary_type_def cxpr_typecheck_is_numeric_def cxpr_typecheck_is_bool_def cxpr_typecheck_join_def
      cxpr_typecheck_is_struct_arithmetic_operand_def cxpr_typecheck_record_shapes_match_def arith_tokens_def order_tokens_def)


text \<open>Without the condition on \<open>int64\<close> literals the checker is wrong: it reports a number for the
  negation of an integer, which evaluates to an integer, and it accepts a comparison of an integer with a
  number, which evaluates to a type error.\<close>

lemma typecheck_misses_int64:
  "cxpr_typecheck cenv result_type minus_ast = Inr (Some CXPR_VALUE_NUMBER) \<and>
   cxpr_eval_node env 2 minus_ast cs Ok = (cxpr_int64 (- 5), cs, Ok) \<and>
   cxpr_typecheck cenv result_type mixed_ast = Inr (Some CXPR_VALUE_BOOL) \<and>
   cxpr_eval_node env 2 mixed_ast cs Ok =
     (cxpr_num DNaN, cs, Err CXPR_ERR_TYPE_MISMATCH ''int64 arithmetic requires two int64 operands'')"
proof (intro conjI)
  note check = minus_ast_def mixed_ast_def cxpr_typecheck_def cxpr_typecheck_infer.simps binary_type_def cxpr_typecheck_is_numeric_def
  note eval = minus_ast_def mixed_ast_def numeral_2_eq_2 cxpr_eval_node.simps cxpr_eval_ast_memoable_def cxpr_eval_node_uncached_def
    cxpr_eval_binary_op_def cxpr_eval_unary_op_def unary_value_def eval_then_def cxpr_require_type_def cxpr_eval_error_def
  show "cxpr_typecheck cenv result_type minus_ast = Inr (Some CXPR_VALUE_NUMBER)" by (simp add: check)
  show "cxpr_eval_node env 2 minus_ast cs Ok = (cxpr_int64 (- 5), cs, Ok)" by (simp add: eval)
  show "cxpr_typecheck cenv result_type mixed_ast = Inr (Some CXPR_VALUE_BOOL)" by (simp add: check)
  have "cxpr_eval_binary_values (ev_mem env) (ev_pow env) CXPR_TOK_LT (cxpr_int64 5) (cxpr_num (dbl_of_int 2)) =
      Failed CXPR_ERR_TYPE_MISMATCH ''int64 arithmetic requires two int64 operands''"
    unfolding cxpr_eval_binary_values_def by code_simp
  then show "cxpr_eval_node env 2 mixed_ast cs Ok =
      (cxpr_num DNaN, cs, Err CXPR_ERR_TYPE_MISMATCH ''int64 arithmetic requires two int64 operands'')" by (simp add: eval)
qed

end
