(* ===== verification/Cxpr_Suite.thy ===== *)
theory Cxpr_Suite
  imports Cxpr_Analyze Cxpr_Order Cxpr_Typecheck
begin

text \<open>
  Sets of named expressions (\<^verbatim>\<open>src/src/expression/expression.c\<close>, \<^verbatim>\<open>evaluator.c\<close>): registration, dependency
  order, compilation (\<open>cxpr_expr_compile\<close> of \<^verbatim>\<open>src/src/ir/program.c\<close>) and a run that makes the result of
  every expression visible to those after it, through \<open>cxpr_expr_compiled_eval_value\<close> of
  \<^verbatim>\<open>src/src/ir/exec/api.c\<close>. The executors and the tree evaluator are those of the other theories, with their
  surroundings as parameters. Copies of names and texts succeed; growth, sort and value clones may fail.
\<close>

section \<open>State\<close>

record cxpr_expression_entry =
  ex_name :: string
  ex_expression :: string
  ex_ast :: cxpr_expr_ast
  ex_program :: "cxpr_ir_program option"
  ex_result :: cxpr_value
  ex_evaluated :: bool
  ex_struct_prefix :: bool

record cxpr_evaluator =
  es_expressions :: "cxpr_expression_entry list"
  es_capacity :: nat
  es_eval_order :: "nat list"
  es_compiled :: bool
  es_registry :: cxpr_registry
  es_parser :: cxpr_expr_parser

abbreviation es_count :: "cxpr_evaluator \<Rightarrow> nat" where "es_count ev \<equiv> length (es_expressions ev)"

text \<open>\<open>Suite_silent\<close> is a failing return that sets no error.\<close>

datatype suite_status = Suite_ok | Suite_error cxpr_error | Suite_silent | Suite_undefined

section \<open>Names and dependencies (expression.c)\<close>

definition cxpr_expression_find :: "cxpr_evaluator \<Rightarrow> string \<Rightarrow> nat option" where
  "cxpr_expression_find ev name =
     (let i = length (takeWhile (\<lambda>e. ex_name e \<noteq> name) (es_expressions ev)) in
      if i < es_count ev then Some i else None)"

definition cxpr_expression_reference_matches_name :: "string \<Rightarrow> string \<Rightarrow> bool" where
  "cxpr_expression_reference_matches_name reference name \<longleftrightarrow>
     reference = name \<or>
     take (length name) reference = name \<and> length name < length reference \<and> reference ! length name = CHR ''.''"

text \<open>The result of the lookup and \<open>found\<close>.\<close>

definition cxpr_expression_lookup_typed_result :: "cxpr_evaluator \<Rightarrow> string \<Rightarrow> cxpr_value option" where
  "cxpr_expression_lookup_typed_result ev name =
     (case cxpr_expression_find ev name of
        None \<Rightarrow> None
      | Some i \<Rightarrow> if ex_evaluated (es_expressions ev ! i) then Some (ex_result (es_expressions ev ! i)) else None)"

text \<open>The first 256 references of an expression.\<close>

definition entry_references :: "cxpr_evaluator \<Rightarrow> nat \<Rightarrow> string list" where
  "entry_references ev i = nl_names (cxpr_expr_ast_references (ex_ast (es_expressions ev ! i)) 256)"

definition cxpr_expression_depends_on :: "cxpr_evaluator \<Rightarrow> nat \<Rightarrow> nat \<Rightarrow> bool" where
  "cxpr_expression_depends_on ev i j \<longleftrightarrow>
     list_ex (\<lambda>r. cxpr_expression_reference_matches_name r (ex_name (es_expressions ev ! j))) (entry_references ev i)"

definition cxpr_expression_topo_sort :: "(nat \<Rightarrow> bool) \<Rightarrow> cxpr_evaluator \<Rightarrow> cxpr_evaluator \<times> suite_status" where
  "cxpr_expression_topo_sort mem ev =
     (if es_count ev = 0 then (ev, Suite_ok)
      else case topo_sort mem (cxpr_expression_depends_on ev) (es_count ev) of
        Sorted order \<Rightarrow> (ev\<lparr>es_eval_order := order\<rparr>, Suite_ok)
      | Sort_error code message \<Rightarrow> (ev, Suite_error (set_error code message))
      | Sort_silent \<Rightarrow> (ev, Suite_silent)
      | Sort_overrun \<Rightarrow> (ev, Suite_undefined))"

section \<open>Errors (expression.c, evaluator.c)\<close>

fun cxpr_error_string :: "cxpr_error_code \<Rightarrow> string" where
  "cxpr_error_string CXPR_OK = ''OK''"
| "cxpr_error_string CXPR_ERR_SYNTAX = ''Syntax error''"
| "cxpr_error_string CXPR_ERR_UNKNOWN_IDENTIFIER = ''Unknown identifier''"
| "cxpr_error_string CXPR_ERR_UNKNOWN_FUNCTION = ''Unknown function''"
| "cxpr_error_string CXPR_ERR_WRONG_ARITY = ''Wrong number of arguments''"
| "cxpr_error_string CXPR_ERR_DIVISION_BY_ZERO = ''Division by zero''"
| "cxpr_error_string CXPR_ERR_CIRCULAR_DEPENDENCY = ''Circular dependency''"
| "cxpr_error_string CXPR_ERR_TYPE_MISMATCH = ''Type mismatch''"
| "cxpr_error_string CXPR_ERR_OUT_OF_MEMORY = ''Out of memory''"
| "cxpr_error_string _ = ''Unknown error''"

definition cxpr_expression_wrap_compile_error :: "cxpr_expression_entry \<Rightarrow> cxpr_error \<Rightarrow> cxpr_error" where
  "cxpr_expression_wrap_compile_error entry e =
     (if err_code e = CXPR_OK then e
      else e\<lparr>err_message := take 511 (''Expression '' @ quoted (ex_name entry) @ '': '' @ take 383 (err_message e))\<rparr>)"

definition cxpr_expression_wrap_eval_error :: "cxpr_expression_entry \<Rightarrow> cxpr_error \<Rightarrow> cxpr_error" where
  "cxpr_expression_wrap_eval_error entry e =
     (if err_code e = CXPR_OK then e
      else e\<lparr>err_message := take 1023 (''Expression '' @ quoted (ex_name entry) @ '' eval failed: '' @
        take 383 (err_message e) @ ''; expr: '' @ ex_expression entry)\<rparr>)"

section \<open>Registration (expression.c, evaluator.c)\<close>

abbreviation sizeof_expression_entry :: nat where "sizeof_expression_entry \<equiv> 56"
abbreviation sizeof_evaluator :: nat where "sizeof_evaluator \<equiv> 64"

definition CXPR_EXPRESSION_INITIAL_CAPACITY :: nat where "CXPR_EXPRESSION_INITIAL_CAPACITY = 32"

text \<open>\<open>parser\<close> is what the parser component returns for a new parser.\<close>

definition cxpr_evaluator_new :: "(nat \<Rightarrow> bool) \<Rightarrow> cxpr_expr_parser option \<Rightarrow> cxpr_registry \<Rightarrow> cxpr_evaluator option" where
  "cxpr_evaluator_new mem parser reg =
     (if \<not> mem sizeof_evaluator \<or> \<not> mem (CXPR_EXPRESSION_INITIAL_CAPACITY * sizeof_expression_entry) then None
      else map_option (\<lambda>p. \<lparr>es_expressions = [], es_capacity = CXPR_EXPRESSION_INITIAL_CAPACITY, es_eval_order = [],
             es_compiled = False, es_registry = reg, es_parser = p\<rparr>) parser)"

definition cxpr_evaluator_grow :: "(nat \<Rightarrow> bool) \<Rightarrow> cxpr_evaluator \<Rightarrow> cxpr_evaluator option" where
  "cxpr_evaluator_grow mem ev =
     (if SIZE_MAX div 2 < es_capacity ev \<or> \<not> mem (es_capacity ev * 2 * sizeof_expression_entry) then None
      else Some (ev\<lparr>es_capacity := es_capacity ev * 2\<rparr>))"

definition cxpr_evaluator_reserve_for_entry :: "(nat \<Rightarrow> bool) \<Rightarrow> cxpr_evaluator \<Rightarrow> cxpr_evaluator option" where
  "cxpr_evaluator_reserve_for_entry mem ev =
     (if es_capacity ev \<le> es_count ev then cxpr_evaluator_grow mem ev else Some ev)"

definition cxpr_evaluator_truncate :: "nat \<Rightarrow> cxpr_evaluator \<Rightarrow> cxpr_evaluator" where
  "cxpr_evaluator_truncate n ev =
     (if es_count ev \<le> n then ev else ev\<lparr>es_expressions := take n (es_expressions ev), es_compiled := False\<rparr>)"

text \<open>The outer \<open>None\<close> is a parser that does not return; the error is \<open>None\<close> on success.\<close>

definition cxpr_expression_add :: "(nat \<Rightarrow> bool) \<Rightarrow> string \<Rightarrow> string \<Rightarrow> cxpr_evaluator \<Rightarrow> (cxpr_evaluator \<times> cxpr_error option) option" where
  "cxpr_expression_add mem name expression ev =
     (case cxpr_expr_ast_parse (es_parser ev) expression of
        None \<Rightarrow> None
      | Some (None, e, p) \<Rightarrow> Some (ev\<lparr>es_parser := p\<rparr>, Some (case e of None \<Rightarrow> cxpr_error_zero | Some e \<Rightarrow> e))
      | Some (Some ast, _, p) \<Rightarrow>
          (case cxpr_evaluator_reserve_for_entry mem (ev\<lparr>es_parser := p\<rparr>) of
             None \<Rightarrow> Some (ev\<lparr>es_parser := p\<rparr>, Some (set_error CXPR_ERR_OUT_OF_MEMORY ''Out of memory''))
           | Some ev1 \<Rightarrow>
               Some (ev1\<lparr>es_expressions := es_expressions ev1 @
                        [\<lparr>ex_name = name, ex_expression = expression, ex_ast = ast, ex_program = None,
                          ex_result = cxpr_num dbl_zero, ex_evaluated = False, ex_struct_prefix = False\<rparr>],
                      es_compiled := False\<rparr>, None)))"

fun add_all :: "(nat \<Rightarrow> bool) \<Rightarrow> nat \<Rightarrow> (string \<times> string) list \<Rightarrow> cxpr_evaluator \<Rightarrow> (cxpr_evaluator \<times> cxpr_error option) option" where
  "add_all mem start [] ev = Some (ev, None)"
| "add_all mem start ((name, expression) # defs) ev =
     (case cxpr_expression_add mem name expression ev of
        None \<Rightarrow> None
      | Some (ev1, Some e) \<Rightarrow> Some (cxpr_evaluator_truncate start ev1, Some e)
      | Some (ev1, None) \<Rightarrow> add_all mem start defs ev1)"

definition cxpr_expressions_add :: "(nat \<Rightarrow> bool) \<Rightarrow> (string \<times> string) list \<Rightarrow> cxpr_evaluator \<Rightarrow> (cxpr_evaluator \<times> cxpr_error option) option" where
  "cxpr_expressions_add mem defs ev = add_all mem (es_count ev) defs ev"

section \<open>Compilation (program.c, evaluator.c)\<close>

text \<open>The surroundings of a set: the allocations of the sort, what the compiler and the checker ask for, and
  those of the executors.\<close>

record suite_env =
  su_sort_mem :: "nat \<Rightarrow> bool"
  su_compile :: compile_env
  su_result_type :: "string \<Rightarrow> cxpr_value_type"
  su_fast :: "frames fast_env"
  su_typed :: "cxpr_context typed_env"
  su_fuel :: nat

abbreviation su_env :: "suite_env \<Rightarrow> cxpr_context eval_env" where "su_env su \<equiv> tx_env (su_typed su)"

text \<open>The registry of a set reaches the checker, the compiler and the evaluators.\<close>

definition with_registry :: "cxpr_registry \<Rightarrow> suite_env \<Rightarrow> suite_env" where
  "with_registry reg su =
     su\<lparr>su_compile := (su_compile su)\<lparr>ce_reg := reg\<rparr>, su_typed := (su_typed su)\<lparr>tx_env := (su_env su)\<lparr>ev_reg := reg\<rparr>\<rparr>\<rparr>"

abbreviation sizeof_expr_compiled :: nat where "sizeof_expr_compiled \<equiv> 64"

text \<open>The cached verdict of the checker is its verdict for the same registry, so the cache is left out.\<close>

definition cxpr_expr_compile :: "suite_env \<Rightarrow> cxpr_expr_ast \<Rightarrow> suite_status + cxpr_ir_program" where
  "cxpr_expr_compile su ast =
     (case cxpr_typecheck (su_env su) (su_result_type su) ast of
        Inl e \<Rightarrow> Inl (Suite_error e)
      | Inr _ \<Rightarrow>
          (case (if ce_mem (su_compile su) sizeof_expr_compiled then cxpr_expr_ast_clone ast else None) of
             None \<Rightarrow> Inl (Suite_error (set_error CXPR_ERR_OUT_OF_MEMORY ''Out of memory''))
           | Some owned \<Rightarrow>
               (case cxpr_ir_compile (su_compile su) owned of
                  Inr p \<Rightarrow> Inr p
                | Inl (Compile_error code message) \<Rightarrow> Inl (Suite_error (set_error code message))
                | Inl Not_a_leaf \<Rightarrow> Inl Suite_silent
                | Inl Overrun \<Rightarrow> Inl Suite_undefined)))"

definition wrap_status :: "(cxpr_error \<Rightarrow> cxpr_error) \<Rightarrow> suite_status \<Rightarrow> suite_status" where
  "wrap_status f s = (case s of Suite_error e \<Rightarrow> Suite_error (f e) | _ \<Rightarrow> s)"

text \<open>The loop over the entries: those before a failing one have new programs, those behind it their old ones.\<close>

fun compile_entries :: "suite_env \<Rightarrow> cxpr_registry \<Rightarrow> cxpr_expression_entry list \<Rightarrow> cxpr_expression_entry list \<times> suite_status" where
  "compile_entries su reg [] = ([], Suite_ok)"
| "compile_entries su reg (entry # es) =
     (let bare = entry\<lparr>ex_program := None\<rparr>; wrap = cxpr_expression_wrap_compile_error entry in
      case snd (cxpr_analyze (ex_ast entry) reg) of
        Some e \<Rightarrow> (bare # es, Suite_error (wrap e))
      | None \<Rightarrow>
          (case cxpr_expr_compile su (ex_ast entry) of
             Inl s \<Rightarrow> (bare # es, wrap_status wrap s)
           | Inr p \<Rightarrow> (case compile_entries su reg es of (es', s) \<Rightarrow> (entry\<lparr>ex_program := Some p\<rparr> # es', s))))"

definition cxpr_expression_entry_used_as_struct_prefix :: "cxpr_evaluator \<Rightarrow> nat \<Rightarrow> bool" where
  "cxpr_expression_entry_used_as_struct_prefix ev i \<longleftrightarrow>
     (let name = ex_name (es_expressions ev ! i) in
      i < es_count ev \<and> name \<noteq> [] \<and>
      list_ex (\<lambda>k. k \<noteq> i \<and> list_ex (\<lambda>r. take (length name) r = name \<and> length name < length r \<and> r ! length name = CHR ''.'')
        (entry_references ev k)) [0 ..< es_count ev])"

definition cxpr_evaluator_compile :: "suite_env \<Rightarrow> cxpr_evaluator \<Rightarrow> cxpr_evaluator \<times> suite_status" where
  "cxpr_evaluator_compile su ev =
     (case cxpr_expression_topo_sort (su_sort_mem su) ev of
        (ev1, Suite_ok) \<Rightarrow>
          (case compile_entries (with_registry (es_registry ev1) su) (es_registry ev1) (es_expressions ev1) of
             (es, Suite_ok) \<Rightarrow>
               (let ev2 = ev1\<lparr>es_expressions := es\<rparr> in
                (ev2\<lparr>es_expressions := map (\<lambda>i. (es ! i)\<lparr>ex_struct_prefix := cxpr_expression_entry_used_as_struct_prefix ev2 i\<rparr>)
                       [0 ..< length es], es_compiled := True\<rparr>, Suite_ok))
           | (es, s) \<Rightarrow> (ev1\<lparr>es_expressions := es, es_compiled := False\<rparr>, s))
      | (ev1, s) \<Rightarrow> (ev1, s))"

section \<open>Evaluation of a program (exec/api.c)\<close>

text \<open>The value, contexts and error of a run; a crash and the end of the fuel are \<open>Stuck\<close>.\<close>

fun run_result :: "('st \<Rightarrow> frames) \<Rightarrow> ('r \<Rightarrow> cxpr_value) \<Rightarrow> frames \<Rightarrow> ('st, 'r) outcome option \<Rightarrow> cxpr_context ev" where
  "run_result ctx value cs (Some (Return r st)) = (value r, ctx st, Ok)"
| "run_result ctx value cs (Some (Error code message st)) = (cxpr_num DNaN, ctx st, Err code message)"
| "run_result ctx value cs _ = eval_stuck cs"

definition cxpr_ir_program_is_bare_identifier :: "ir_code \<Rightarrow> bool" where
  "cxpr_ir_program_is_bare_identifier code \<longleftrightarrow>
     length code = 2 \<and> in_op (code ! 0) = CXPR_OP_LOAD_VAR \<and> in_op (code ! 1) = CXPR_OP_RETURN"

text \<open>The second attempt of a failed fast run: the typed executor, whose error is not reported.\<close>

definition typed_retry :: "cxpr_context ev \<Rightarrow> (frames \<Rightarrow> cxpr_context ev) \<Rightarrow> cxpr_context ev" where
  "typed_retry fast typed =
     (case fast of
        (v, cs, Err code message) \<Rightarrow>
          (case typed cs of
             (w, cs1, Ok) \<Rightarrow> (w, cs1, Ok)
           | (w, cs1, Err _ _) \<Rightarrow> (cxpr_num DNaN, cs1, Err code message)
           | (w, cs1, Stuck) \<Rightarrow> eval_stuck cs1)
      | r \<Rightarrow> r)"

definition cxpr_expr_compiled_eval_value :: "suite_env \<Rightarrow> cxpr_ir_program \<Rightarrow> frames \<Rightarrow> cxpr_context ev" where
  "cxpr_expr_compiled_eval_value su prog cs =
     (let code = ir_code prog;
          typed = (\<lambda>cs. run_result ty_frames (\<lambda>v. v) cs (cxpr_ir_exec_typed (su_typed su) code [] cs (su_fuel su)));
          scalar = (\<lambda>cs. run_result ss_ctx cxpr_num cs (cxpr_ir_exec_scalar_fast (su_fast su) code [] cs (su_fuel su)));
          bool = (\<lambda>cs. run_result bs_ctx cxpr_bool cs (cxpr_ir_exec_bool_fast (su_fast su) code [] cs (su_fuel su))) in
      case ir_fast_result_kind prog of
        CXPR_IR_RESULT_DOUBLE \<Rightarrow>
          (case (if cxpr_ir_program_is_bare_identifier code then typed cs else (cxpr_num DNaN, cs, Err CXPR_ERR_SYNTAX [])) of
             (v, cs1, Ok) \<Rightarrow> (v, cs1, Ok)
           | (v, cs1, Stuck) \<Rightarrow> eval_stuck cs1
           | (v, cs1, Err _ _) \<Rightarrow> typed_retry (scalar cs1) typed)
      | CXPR_IR_RESULT_BOOL \<Rightarrow> bool cs
      | CXPR_IR_RESULT_UNKNOWN \<Rightarrow> typed cs)"

section \<open>The run (evaluator.c)\<close>

text \<open>The struct a producer call yields for an entry other expressions read fields of: \<open>None\<close> where the entry is no
  such call. The \<open>bool\<close> is false where the code returns at once, with the error as it stands.\<close>

definition cxpr_expression_eval_struct_alias :: "suite_env \<Rightarrow> cxpr_registry \<Rightarrow> cxpr_expr_ast \<Rightarrow> frames
    \<Rightarrow> (bool \<times> cxpr_context ev) option" where
  "cxpr_expression_eval_struct_alias su reg ast cs =
     (case ast_data ast of
        CXPR_NODE_FUNCTION_CALL name args arg_names \<Rightarrow>
          (case (if reg = None then None else cxpr_registry_find reg name) of
             None \<Rightarrow> None
           | Some fn \<Rightarrow>
               if \<not> fe_struct_producer fn then None
               else (case cxpr_call_bind_args fn args arg_names of
                   Bind_error code message \<Rightarrow> Some (False, cxpr_num DNaN, cs, Err code message)
                 | Bind_overrun \<Rightarrow> Some (False, eval_stuck cs)
                 | Bound ordered \<Rightarrow>
                     (case cxpr_eval_struct_result (su_env su) (cxpr_eval_node (su_env su) (tx_fuel (su_typed su))) fn name
                             ordered None cs Ok of
                        (Some s, cs1, Ok) \<Rightarrow> Some (True, cxpr_struct (Some s), cs1, Ok)
                      | (_, cs1, e) \<Rightarrow> Some (False, cxpr_num DNaN, cs1, e))))
      | _ \<Rightarrow> None)"

definition eval_entry :: "suite_env \<Rightarrow> cxpr_registry \<Rightarrow> cxpr_expression_entry \<Rightarrow> frames \<Rightarrow> bool \<times> cxpr_context ev" where
  "eval_entry su reg entry cs =
     (case (if ex_struct_prefix entry then cxpr_expression_eval_struct_alias su reg (ex_ast entry) cs else None) of
        Some r \<Rightarrow> r
      | None \<Rightarrow>
          (True, case ex_program entry of
             Some p \<Rightarrow> cxpr_expr_compiled_eval_value su p cs
           | None \<Rightarrow> tx_eval_ast (su_typed su) (Some (ex_ast entry)) cs))"

text \<open>The pointer to the set in the context: its lookups see the results of the moment.\<close>

definition in_scope :: "(string \<Rightarrow> cxpr_value option) option \<Rightarrow> frames \<Rightarrow> frames" where
  "in_scope scope cs = (case cs of [] \<Rightarrow> [] | c # ps \<Rightarrow> cxpr_context_set_expression_scope c scope # ps)"

text \<open>\<open>cxpr_expression_result_clone\<close> and the two assignments behind it, or the error.\<close>

definition store_result :: "(nat \<Rightarrow> bool) \<Rightarrow> cxpr_value \<Rightarrow> cxpr_expression_entry \<Rightarrow> cxpr_expression_entry \<times> cxpr_error option" where
  "store_result mem v entry =
     (let e = cxpr_expression_wrap_eval_error entry in
      if value_type v = CXPR_VALUE_INT64
      then (entry, Some (e (set_error CXPR_ERR_TYPE_MISMATCH ''Expression result has unsupported value type'')))
      else if cxpr_value_clone_failed v (cxpr_value_clone mem v)
      then (entry\<lparr>ex_result := cxpr_value_clone mem v\<rparr>, Some (e (set_error CXPR_ERR_OUT_OF_MEMORY ''Out of memory'')))
      else (entry\<lparr>ex_result := cxpr_value_clone mem v, ex_evaluated := True\<rparr>, None))"

fun eval_loop :: "suite_env \<Rightarrow> nat list \<Rightarrow> cxpr_evaluator \<Rightarrow> frames \<Rightarrow> cxpr_evaluator \<times> frames \<times> suite_status" where
  "eval_loop su [] ev cs = (ev, cs, Suite_ok)"
| "eval_loop su (i # is) ev cs =
     (let entry = es_expressions ev ! i in
      if es_count ev \<le> i then (ev, cs, Suite_undefined)
      else case eval_entry su (es_registry ev) entry (in_scope (Some (cxpr_expression_lookup_typed_result ev)) cs) of
        (_, _, cs1, Stuck) \<Rightarrow> (ev, cs1, Suite_undefined)
      | (wrapped, _, cs1, Err code message) \<Rightarrow>
          (ev, cs1, Suite_error ((if wrapped then cxpr_expression_wrap_eval_error entry else id) (set_error code message)))
      | (False, _, cs1, Ok) \<Rightarrow> (ev, cs1, Suite_error cxpr_error_zero)
      | (True, v, cs1, Ok) \<Rightarrow>
          (case store_result (ev_mem (su_env su)) v entry of
             (entry', Some e) \<Rightarrow> (ev\<lparr>es_expressions := (es_expressions ev)[i := entry']\<rparr>, cs1, Suite_error e)
           | (entry', None) \<Rightarrow> eval_loop su is (ev\<lparr>es_expressions := (es_expressions ev)[i := entry']\<rparr>) cs1))"

definition clear_results :: "cxpr_evaluator \<Rightarrow> cxpr_evaluator" where
  "clear_results ev = ev\<lparr>es_expressions := map (\<lambda>e. e\<lparr>ex_evaluated := False, ex_result := cxpr_num dbl_zero\<rparr>) (es_expressions ev)\<rparr>"

definition cxpr_evaluator_eval :: "suite_env \<Rightarrow> cxpr_evaluator \<Rightarrow> frames \<Rightarrow> cxpr_evaluator \<times> frames \<times> suite_status" where
  "cxpr_evaluator_eval su ev cs =
     (case cs of
        [] \<Rightarrow> (ev, cs, Suite_error (set_error CXPR_ERR_SYNTAX ''NULL argument''))
      | c # ps \<Rightarrow>
          if \<not> es_compiled ev then (ev, cs, Suite_error (set_error CXPR_ERR_SYNTAX ''Evaluator not compiled''))
          else
            let su' = with_registry (es_registry ev) su;
                env = su_env su';
                cs0 = cxpr_context_clear_cached_structs c # ps;
                cs1 = ev_set_memo env (cxpr_eval_memo_enter (cxpr_eval_memo_clear (ev_memo env cs0))) cs0 in
            case eval_loop su' (es_eval_order ev) (clear_results ev) cs1 of
              (ev', cs2, s) \<Rightarrow>
                (ev', in_scope (cx_expression_scope c) (ev_set_memo env (cxpr_eval_memo_leave (ev_memo env cs2)) cs2), s))"

text \<open>The queries.\<close>

definition cxpr_expression_get_double :: "cxpr_evaluator \<Rightarrow> string \<Rightarrow> double option" where
  "cxpr_expression_get_double ev name =
     (case cxpr_expression_lookup_typed_result ev name of Some (cxpr_num d) \<Rightarrow> Some d | _ \<Rightarrow> None)"

definition cxpr_expression_get_bool :: "cxpr_evaluator \<Rightarrow> string \<Rightarrow> bool option" where
  "cxpr_expression_get_bool ev name =
     (case cxpr_expression_lookup_typed_result ev name of Some (cxpr_bool b) \<Rightarrow> Some b | _ \<Rightarrow> None)"

definition cxpr_expression_instruction_count_at :: "cxpr_evaluator \<Rightarrow> nat \<Rightarrow> nat" where
  "cxpr_expression_instruction_count_at ev i =
     (if es_count ev \<le> i then 0 else case ex_program (es_expressions ev ! i) of None \<Rightarrow> 0 | Some p \<Rightarrow> ir_count p)"

definition cxpr_expression_instruction_count :: "cxpr_evaluator \<Rightarrow> string \<Rightarrow> nat option" where
  "cxpr_expression_instruction_count ev name =
     map_option (cxpr_expression_instruction_count_at ev) (cxpr_expression_find ev name)"

definition cxpr_expression_total_instruction_count :: "cxpr_evaluator \<Rightarrow> nat" where
  "cxpr_expression_total_instruction_count ev =
     sum_list (map (cxpr_expression_instruction_count_at ev) [0 ..< es_count ev])"

text \<open>The names written to the caller's array, and the number of expressions.\<close>

definition cxpr_expression_eval_order :: "cxpr_evaluator \<Rightarrow> nat \<Rightarrow> string list \<times> nat" where
  "cxpr_expression_eval_order ev max_names =
     (if \<not> es_compiled ev then ([], 0)
      else (map (\<lambda>i. ex_name (es_expressions ev ! i)) (take max_names (es_eval_order ev)), length (es_eval_order ev)))"

section \<open>Lookup by name\<close>

lemma find_name:
  assumes "distinct (map ex_name (es_expressions ev))" "i < es_count ev"
  shows "cxpr_expression_find ev (ex_name (es_expressions ev ! i)) = Some i"
proof -
  let ?es = "es_expressions ev"
  have "ex_name (?es ! j) \<noteq> ex_name (?es ! i)" if "j < i" for j
    using nth_eq_iff_index_eq [OF assms(1), of j i] that assms(2) by simp
  then have "takeWhile (\<lambda>e. ex_name e \<noteq> ex_name (?es ! i)) ?es = take i ?es"
    using assms(2) by (intro takeWhile_eq_take_P_nth) auto
  then show ?thesis using assms(2) by (simp add: cxpr_expression_find_def Let_def)
qed

section \<open>Dependency order of a compiled set\<close>

text \<open>The invariant of a set: its evaluation order mentions only its expressions; that of a compiled set is a
  dependency order of all of them.\<close>

definition suite_inv :: "cxpr_evaluator \<Rightarrow> bool" where
  "suite_inv ev \<longleftrightarrow> set (es_eval_order ev) \<subseteq> {..<es_count ev} \<and>
     (es_compiled ev \<longrightarrow> dependency_order (cxpr_expression_depends_on ev) (es_count ev) (es_eval_order ev))"

text \<open>What compiling and running never change of an entry.\<close>

definition same_source :: "cxpr_expression_entry list \<Rightarrow> cxpr_expression_entry list \<Rightarrow> bool" where
  "same_source = list_all2 (\<lambda>e e'. ex_name e' = ex_name e \<and> ex_expression e' = ex_expression e \<and> ex_ast e' = ex_ast e)"

lemma same_source_refl [simp]: "same_source es es"
  by (simp add: same_source_def list_all2_same)

lemma same_source_depends:
  assumes "same_source (es_expressions ev) (es_expressions ev')" "i < es_count ev" "j < es_count ev"
  shows "cxpr_expression_depends_on ev' i j = cxpr_expression_depends_on ev i j"
  using assms by (simp add: same_source_def list_all2_conv_all_nth cxpr_expression_depends_on_def entry_references_def)

lemma dependency_order_cong:
  assumes "\<And>i j. i < n \<Longrightarrow> j < n \<Longrightarrow> dep' i j = dep i j"
  shows "dependency_order dep' n order = dependency_order dep n order"
proof -
  have "order ! k < n" if "distinct order" "set order = {..<n}" "k < n" for k
    using that distinct_card [of order] nth_mem [of k order] by (simp add: subset_iff)
  then show ?thesis using assms unfolding dependency_order_def by (metis (no_types, lifting))
qed

lemma same_source_inv:
  assumes "suite_inv ev" "same_source (es_expressions ev) (es_expressions ev')" "es_eval_order ev' = es_eval_order ev"
    and "es_compiled ev' \<Longrightarrow> es_compiled ev"
  shows "suite_inv ev'"
proof -
  have len: "es_count ev' = es_count ev" using assms(2) by (simp add: same_source_def list_all2_lengthD)
  have "dependency_order (cxpr_expression_depends_on ev') (es_count ev) (es_eval_order ev) =
      dependency_order (cxpr_expression_depends_on ev) (es_count ev) (es_eval_order ev)"
    by (rule dependency_order_cong) (rule same_source_depends [OF assms(2)])
  with assms len show ?thesis by (simp add: suite_inv_def)
qed

lemma compile_entries_source: "same_source es (fst (compile_entries su reg es))"
proof (induction es)
  case (Cons e es)
  have refl: "list_all2 (\<lambda>e e'. ex_name e' = ex_name e \<and> ex_expression e' = ex_expression e \<and> ex_ast e' = ex_ast e) es es"
    by (simp add: list_all2_same)
  show ?case
    using Cons refl by (auto simp: same_source_def Let_def split: option.split sum.split prod.splits)
qed (simp add: same_source_def)

lemma topo_sort_suite:
  assumes "cxpr_expression_topo_sort mem ev = (ev1, s)"
  shows "es_expressions ev1 = es_expressions ev" "es_registry ev1 = es_registry ev"
    "s \<noteq> Suite_ok \<Longrightarrow> ev1 = ev" "s \<noteq> Suite_undefined"
    "s = Suite_ok \<Longrightarrow> suite_inv ev \<Longrightarrow> dependency_order (cxpr_expression_depends_on ev) (es_count ev) (es_eval_order ev1)"
  using assms topo_sort_outcome [of "cxpr_expression_depends_on ev" "es_count ev" mem]
  by (auto simp: cxpr_expression_topo_sort_def suite_inv_def dependency_order_def split: if_splits topo_result.splits)

lemma same_source_trans: "same_source a b \<Longrightarrow> same_source b c \<Longrightarrow> same_source a c"
  unfolding same_source_def by (rule list_all2_trans) auto

text \<open>A compilation keeps names and trees, and a successful one leaves a dependency order.\<close>

lemma compile_inv:
  assumes "suite_inv ev" "cxpr_evaluator_compile su ev = (ev', s)"
  shows "same_source (es_expressions ev) (es_expressions ev') \<and> suite_inv ev' \<and> (s = Suite_ok \<longrightarrow> es_compiled ev')"
proof -
  obtain ev1 s1 where sort: "cxpr_expression_topo_sort (su_sort_mem su) ev = (ev1, s1)" by fastforce
  note t = topo_sort_suite [OF sort]
  show ?thesis
  proof (cases "s1 = Suite_ok")
    case False
    with sort assms t(3) show ?thesis by (cases s1) (auto simp: cxpr_evaluator_compile_def)
  next
    case True
    note order = t(5) [OF True assms(1)]
    obtain es s2 where run: "compile_entries (with_registry (es_registry ev1) su) (es_registry ev1) (es_expressions ev1) = (es, s2)"
      by fastforce
    have src: "same_source (es_expressions ev) es"
      using compile_entries_source [of "es_expressions ev1" "with_registry (es_registry ev1) su" "es_registry ev1"] run t(1) by simp
    then have len: "length es = es_count ev" by (simp add: same_source_def list_all2_lengthD)
    let ?marked = "map (\<lambda>i. (es ! i)\<lparr>ex_struct_prefix := cxpr_expression_entry_used_as_struct_prefix (ev1\<lparr>es_expressions := es\<rparr>) i\<rparr>)
      [0 ..< length es]"
    have "same_source es ?marked" by (simp add: same_source_def list_all2_conv_all_nth)
    with src have marked: "same_source (es_expressions ev) ?marked" by (rule same_source_trans)
    define ev2 where "ev2 = ev\<lparr>es_eval_order := es_eval_order ev1, es_compiled := True\<rparr>"
    have "cxpr_expression_depends_on ev2 = cxpr_expression_depends_on ev"
      by (simp add: fun_eq_iff cxpr_expression_depends_on_def entry_references_def ev2_def)
    with order have inv2: "suite_inv ev2" by (simp add: suite_inv_def ev2_def dependency_order_def)
    have "cxpr_evaluator_compile su ev = (if s2 = Suite_ok then (ev1\<lparr>es_expressions := ?marked, es_compiled := True\<rparr>, Suite_ok)
        else (ev1\<lparr>es_expressions := es, es_compiled := False\<rparr>, s2))"
      unfolding cxpr_evaluator_compile_def sort True by (cases s2) (simp_all add: run Let_def)
    with assms(2) have "ev' = (if s2 = Suite_ok then ev1\<lparr>es_expressions := ?marked, es_compiled := True\<rparr>
        else ev1\<lparr>es_expressions := es, es_compiled := False\<rparr>)" "s = s2"
      by (simp_all only: prod.inject simp_thms if_True if_False split: if_splits)
    then show ?thesis
      using same_source_inv [OF inv2, of ev'] src marked by (auto simp: ev2_def)
  qed
qed

section \<open>The run\<close>

text \<open>The entry \<open>i\<close> of the final set \<open>fin\<close> holds the value its evaluation gave, in a scope \<open>scope\<close>.\<close>

definition evaluated_in :: "suite_env \<Rightarrow> cxpr_evaluator \<Rightarrow> nat \<Rightarrow> (string \<Rightarrow> cxpr_value option) \<Rightarrow> bool" where
  "evaluated_in su fin i scope \<longleftrightarrow>
     (\<exists>cs cs' v. eval_entry su (es_registry fin) (es_expressions fin ! i) (in_scope (Some scope) cs) = (True, v, cs', Ok) \<and>
        ex_result (es_expressions fin ! i) = cxpr_value_clone (ev_mem (su_env su)) v \<and> ex_evaluated (es_expressions fin ! i))"

text \<open>What an evaluation may change of an entry.\<close>

definition same_entry :: "cxpr_expression_entry \<Rightarrow> cxpr_expression_entry \<Rightarrow> bool" where
  "same_entry e e' \<longleftrightarrow> ex_name e' = ex_name e \<and> ex_expression e' = ex_expression e \<and> ex_ast e' = ex_ast e \<and>
     ex_program e' = ex_program e \<and> ex_struct_prefix e' = ex_struct_prefix e"

lemma eval_entry_same: "same_entry e e' \<Longrightarrow> eval_entry su reg e' = eval_entry su reg e"
  by (simp add: same_entry_def eval_entry_def fun_eq_iff split: option.split)

lemma same_entry_refl [simp]: "same_entry e e"
  by (simp add: same_entry_def)

lemma same_entry_trans: "same_entry a b \<Longrightarrow> same_entry b c \<Longrightarrow> same_entry a c"
  by (simp add: same_entry_def)

lemma store_result_cases:
  assumes "store_result mem v e = (e', x)"
  shows "same_entry e e'" "x = None \<Longrightarrow> ex_evaluated e' \<and> ex_result e' = cxpr_value_clone mem v"
    "x \<noteq> None \<Longrightarrow> ex_evaluated e' = ex_evaluated e"
  using assms by (auto simp: store_result_def same_entry_def Let_def split: if_splits)

text \<open>One iteration ends the run with the entry still not evaluated, or stores its value and goes on.\<close>

abbreviation set_entry :: "nat \<Rightarrow> cxpr_expression_entry \<Rightarrow> cxpr_evaluator \<Rightarrow> cxpr_evaluator" where
  "set_entry i e ev \<equiv> ev\<lparr>es_expressions := (es_expressions ev)[i := e]\<rparr>"

lemma eval_loop_cases:
  assumes "eval_loop su (i # is) ev cs = (fin, cs', s)"
  obtains (stop) entry where "fin = set_entry i entry ev" "same_entry (es_expressions ev ! i) entry"
      "ex_evaluated entry = ex_evaluated (es_expressions ev ! i)" "s \<noteq> Suite_ok"
  | (go) v cs1 entry where "i < es_count ev"
      "eval_entry su (es_registry ev) (es_expressions ev ! i) (in_scope (Some (cxpr_expression_lookup_typed_result ev)) cs) = (True, v, cs1, Ok)"
      "same_entry (es_expressions ev ! i) entry" "ex_evaluated entry" "ex_result entry = cxpr_value_clone (ev_mem (su_env su)) v"
      "eval_loop su is (set_entry i entry ev) cs1 = (fin, cs', s)"
proof -
  let ?entry = "es_expressions ev ! i"
  obtain w v cs1 e where step: "eval_entry su (es_registry ev) ?entry (in_scope (Some (cxpr_expression_lookup_typed_result ev)) cs) = (w, v, cs1, e)"
    by (metis surj_pair)
  obtain entry x where st: "store_result (ev_mem (su_env su)) v ?entry = (entry, x)" by fastforce
  note stored = store_result_cases [OF st]
  have same: "ev = set_entry i ?entry ev" by simp
  show thesis
  proof (cases "i < es_count ev \<and> w \<and> e = Ok \<and> x = None")
    case True
    with assms step st have "eval_loop su is (set_entry i entry ev) cs1 = (fin, cs', s)" by (simp add: Let_def)
    with True step stored show thesis by (intro go) auto
  next
    case False
    then have "(fin = ev \<or> fin = set_entry i entry ev \<and> x \<noteq> None) \<and> s \<noteq> Suite_ok"
      using assms step st by (cases "i < es_count ev"; cases e; cases w; cases x) (auto simp: Let_def)
    then show thesis using stored stop [of ?entry] stop [of entry] same by auto
  qed
qed

text \<open>Entries outside the list stay as they are, the others keep their source.\<close>

definition keeps :: "nat set \<Rightarrow> cxpr_evaluator \<Rightarrow> cxpr_evaluator \<Rightarrow> bool" where
  "keeps is ev ev' \<longleftrightarrow> es_count ev' = es_count ev \<and> es_registry ev' = es_registry ev \<and> es_eval_order ev' = es_eval_order ev \<and>
     es_compiled ev' = es_compiled ev \<and>
     (\<forall>j < es_count ev. same_entry (es_expressions ev ! j) (es_expressions ev' ! j) \<and>
        (j \<notin> is \<longrightarrow> es_expressions ev' ! j = es_expressions ev ! j))"

lemma keeps_refl [simp]: "keeps is ev ev"
  by (simp add: keeps_def)

lemma keeps_set_entry: "same_entry (es_expressions ev ! i) e \<Longrightarrow> i \<in> is \<Longrightarrow> keeps is ev (set_entry i e ev)"
  by (simp add: keeps_def) (metis nth_list_update_eq nth_list_update_neq same_entry_refl)

lemma keeps_trans: "keeps is a b \<Longrightarrow> keeps js b c \<Longrightarrow> js \<subseteq> is \<Longrightarrow> keeps is a c"
  unfolding keeps_def by (auto intro: same_entry_trans)

lemma eval_loop_keeps: "eval_loop su is ev cs = (fin, cs', s) \<Longrightarrow> keeps (set is) ev fin"
proof (induction "is" arbitrary: ev cs)
  case (Cons i "is")
  from Cons.prems show ?case
  proof (cases rule: eval_loop_cases)
    case (stop entry)
    then show ?thesis by (simp add: keeps_set_entry)
  next
    case (go v cs1 entry)
    from keeps_set_entry [OF go(3), of "set (i # is)"] Cons.IH [OF go(6)] show ?thesis by (auto intro: keeps_trans)
  qed
qed simp

text \<open>After a complete loop every entry holds its value, evaluated in the scope of a state that differs from the final
  one only in entries of the list from that one on.\<close>

lemma eval_loop_complete:
  assumes "eval_loop su is ev cs = (fin, cs', Suite_ok)" "distinct is" "k < length is"
  shows "\<exists>mid. evaluated_in su fin (is ! k) (cxpr_expression_lookup_typed_result mid) \<and>
    keeps (set (take k is)) ev mid \<and> keeps (set (drop k is)) mid fin"
  using assms
proof (induction "is" arbitrary: ev cs k)
  case (Cons i "is")
  from Cons.prems(1) show ?case
  proof (cases rule: eval_loop_cases)
    case (go v cs1 entry)
    let ?ev = "set_entry i entry ev"
    note kept = eval_loop_keeps [OF go(6)]
    have first: "keeps {i} ev ?ev" by (rule keeps_set_entry [OF go(3)]) simp
    show ?thesis
    proof (cases k)
      case 0
      have "es_expressions fin ! i = entry" "es_registry fin = es_registry ev" using kept go(1) Cons.prems(2) by (auto simp: keeps_def)
      then have "evaluated_in su fin i (cxpr_expression_lookup_typed_result ev)"
        using go(2,4,5) eval_entry_same [OF go(3)] unfolding evaluated_in_def by metis
      moreover have "keeps (set (i # is)) ev fin" by (rule keeps_trans [OF _ kept]) (use go(3) in \<open>auto intro: keeps_set_entry\<close>)
      ultimately show ?thesis using 0 by auto
    next
      case (Suc m)
      with Cons.prems(2,3) Cons.IH [OF go(6), of m] obtain mid where
        mid: "evaluated_in su fin (is ! m) (cxpr_expression_lookup_typed_result mid)" "keeps (set (take m is)) ?ev mid" "keeps (set (drop m is)) mid fin"
        by auto
      have "keeps (insert i (set (take m is))) ev mid"
        by (rule keeps_trans [OF _ mid(2)]) (use go(3) in \<open>auto intro: keeps_set_entry\<close>)
      with mid Suc show ?thesis by auto
    qed
  qed simp
qed simp

text \<open>After an error, exactly a proper prefix of the list was evaluated.\<close>

lemma eval_loop_stopped:
  assumes "eval_loop su is ev cs = (fin, cs', s)" "s \<noteq> Suite_ok" "distinct is" "set is \<subseteq> {..<es_count ev}"
    and "\<forall>j \<in> set is. \<not> ex_evaluated (es_expressions ev ! j)"
  shows "\<exists>k < length is. \<forall>m < length is. ex_evaluated (es_expressions fin ! (is ! m)) \<longleftrightarrow> m < k"
  using assms
proof (induction "is" arbitrary: ev cs)
  case (Cons i "is")
  from Cons.prems(1) show ?case
  proof (cases rule: eval_loop_cases)
    case (stop entry)
    have "\<not> ex_evaluated (es_expressions fin ! j)" if "j \<in> set (i # is)" for j
      using that stop Cons.prems(4,5) by (cases "j = i") auto
    then show ?thesis using nth_mem [of _ "i # is"] by (intro exI [of _ 0]) auto
  next
    case (go v cs1 entry)
    have "\<forall>j \<in> set is. \<not> ex_evaluated (es_expressions (set_entry i entry ev) ! j)" using Cons.prems(3,5) by simp (metis nth_list_update_neq)
    with Cons.IH [OF go(6)] Cons.prems obtain k where
      k: "k < length is" "\<forall>m < length is. ex_evaluated (es_expressions fin ! (is ! m)) \<longleftrightarrow> m < k" by auto
    have "es_expressions fin ! i = entry" using eval_loop_keeps [OF go(6)] go(1) Cons.prems(3) by (auto simp: keeps_def)
    then have "ex_evaluated (es_expressions fin ! ((i # is) ! m)) \<longleftrightarrow> m < Suc k" if "m < length (i # is)" for m
      using that go(4) k(2) by (cases m) auto
    with k(1) show ?thesis by (intro exI [of _ "Suc k"]) auto
  qed
qed simp

section \<open>Registration\<close>

lemma suite_inv_cong:
  assumes "suite_inv ev" "es_expressions ev' = es_expressions ev" "es_eval_order ev' = es_eval_order ev"
    and "es_compiled ev' \<Longrightarrow> es_compiled ev"
  shows "suite_inv ev'"
  by (rule same_source_inv [OF assms(1)]) (use assms in auto)

lemma add_step:
  assumes "cxpr_expression_add mem name expression ev = Some (ev', e)"
  shows "es_eval_order ev' = es_eval_order ev"
    "e \<noteq> None \<Longrightarrow> es_expressions ev' = es_expressions ev \<and> es_compiled ev' = es_compiled ev"
    "e = None \<Longrightarrow> \<not> es_compiled ev' \<and> (\<exists>entry. ex_name entry = name \<and> ex_expression entry = expression \<and>
       es_expressions ev' = es_expressions ev @ [entry])"
  using assms
  by (auto simp: cxpr_expression_add_def cxpr_evaluator_reserve_for_entry_def cxpr_evaluator_grow_def
      split: option.splits if_splits)

text \<open>The pairs of name and text of a set.\<close>

abbreviation es_defs :: "cxpr_evaluator \<Rightarrow> (string \<times> string) list" where
  "es_defs ev \<equiv> map (\<lambda>e. (ex_name e, ex_expression e)) (es_expressions ev)"

text \<open>All expressions are added or none: after an error the set is what it was.\<close>

lemma add_all_atomic:
  assumes "add_all mem (es_count ev) defs ev1 = Some (ev', e)" "suite_inv ev"
    and "es_expressions ev1 = es_expressions ev @ new" "es_eval_order ev1 = es_eval_order ev"
    and "es_compiled ev1 \<Longrightarrow> new = [] \<and> es_compiled ev"
  shows "suite_inv ev' \<and> (case e of None \<Rightarrow> es_defs ev' = es_defs ev1 @ defs | Some _ \<Rightarrow> es_expressions ev' = es_expressions ev)"
  using assms
proof (induction defs arbitrary: ev1 new)
  case Nil
  have "suite_inv ev1"
  proof (cases "es_compiled ev1")
    case True with Nil.prems show ?thesis by (intro suite_inv_cong [of ev ev1]) auto
  next
    case False
    with Nil.prems(2-4) show ?thesis by (auto simp: suite_inv_def)
  qed
  with Nil.prems(1) show ?case by simp
next
  case (Cons d defs)
  obtain name expression where d: "d = (name, expression)" by (cases d)
  obtain ev2 e2 where add: "cxpr_expression_add mem name expression ev1 = Some (ev2, e2)"
    using Cons.prems(1) by (auto simp: d split: option.splits)
  note step = add_step [OF add]
  show ?case
  proof (cases e2)
    case (Some x)
    let ?t = "cxpr_evaluator_truncate (es_count ev) ev2"
    have r: "ev' = ?t" "e = Some x" using Cons.prems(1) add Some by (auto simp: d)
    have "es_expressions ?t = es_expressions ev" "es_eval_order ?t = es_eval_order ev" "es_compiled ?t \<Longrightarrow> es_compiled ev"
      using step(1,2) Some Cons.prems(3-5) by (auto simp: cxpr_evaluator_truncate_def split: if_splits)
    with suite_inv_cong [of ev ?t] Cons.prems(2) r show ?thesis by simp
  next
    case None
    with step(3) obtain entry where entry: "ex_name entry = name" "ex_expression entry = expression"
        "es_expressions ev2 = es_expressions ev @ (new @ [entry])" "\<not> es_compiled ev2"
      using Cons.prems(3) by auto
    have "add_all mem (es_count ev) defs ev2 = Some (ev', e)" using Cons.prems(1) add None by (simp add: d)
    from Cons.IH [OF this Cons.prems(2) entry(3)] step(1) Cons.prems(3,4) entry show ?thesis
      by (auto simp: d split: option.splits)
  qed
qed

section \<open>A run of a compiled set\<close>

lemma keeps_names: "keeps is ev ev' \<Longrightarrow> map ex_name (es_expressions ev') = map ex_name (es_expressions ev)"
  by (rule nth_equalityI) (auto simp: keeps_def same_entry_def)

lemma keeps_source: "keeps is ev ev' \<Longrightarrow> same_source (es_expressions ev) (es_expressions ev')"
  by (auto simp: keeps_def same_source_def same_entry_def list_all2_conv_all_nth)

lemma lookup_evaluated:
  assumes "distinct (map ex_name (es_expressions ev))" "i < es_count ev" "ex_evaluated (es_expressions ev ! i)"
  shows "cxpr_expression_lookup_typed_result ev (ex_name (es_expressions ev ! i)) = Some (ex_result (es_expressions ev ! i))"
  using find_name [OF assms(1,2)] assms(3) by (simp add: cxpr_expression_lookup_typed_result_def)

lemma loop_scopes:
  assumes "eval_loop su order ev cs = (fin, cs', Suite_ok)" "dependency_order (cxpr_expression_depends_on ev) (es_count ev) order"
    and "distinct (map ex_name (es_expressions ev))" "i < es_count ev"
  shows "\<exists>scope. evaluated_in su fin i scope \<and>
    (\<forall>j < es_count ev. cxpr_expression_depends_on ev i j \<longrightarrow>
       scope (ex_name (es_expressions ev ! j)) = Some (ex_result (es_expressions fin ! j)))"
proof -
  note D = assms(2) [unfolded dependency_order_def]
  have len: "length order = es_count ev" using D distinct_card [of order] by simp
  have evald: "ex_evaluated (es_expressions fin ! j)" if j: "j < es_count ev" for j
  proof -
    obtain m where "m < length order" "order ! m = j" using D j by (metis in_set_conv_nth lessThan_iff)
    with eval_loop_complete [OF assms(1), of m] D show ?thesis by (auto simp: evaluated_in_def)
  qed
  obtain k where k: "k < length order" "order ! k = i" using D assms(4) by (metis in_set_conv_nth lessThan_iff)
  with eval_loop_complete [OF assms(1), of k] D obtain mid where
    mid: "evaluated_in su fin i (cxpr_expression_lookup_typed_result mid)" "keeps (set (take k order)) ev mid" "keeps (set (drop k order)) mid fin"
    by auto
  have n: "es_count mid = es_count ev" using mid(2) by (simp add: keeps_def)
  have "cxpr_expression_lookup_typed_result mid (ex_name (es_expressions ev ! j)) = Some (ex_result (es_expressions fin ! j))"
    if j: "j < es_count ev" "cxpr_expression_depends_on ev i j" for j
  proof -
    have "j \<in> set (take k order)" using D k j len by auto
    then have "j \<notin> set (drop k order)" using D set_take_disj_set_drop_if_distinct [of order k k] by blast
    then have same: "es_expressions mid ! j = es_expressions fin ! j" using mid(3) j(1) n by (simp add: keeps_def)
    have "ex_name (es_expressions mid ! j) = ex_name (es_expressions ev ! j)" using mid(2) j(1) by (simp add: keeps_def same_entry_def)
    moreover have "distinct (map ex_name (es_expressions mid))" using keeps_names [OF mid(2)] assms(3) by simp
    ultimately show ?thesis using lookup_evaluated [of mid j] evald [OF j(1)] j(1) same n by simp
  qed
  with mid(1) show ?thesis by blast
qed

lemma run_complete:
  assumes "suite_inv ev" "es_compiled ev" "distinct (map ex_name (es_expressions ev))"
    and "cxpr_evaluator_eval su ev (c # ps) = (fin, cs', s)"
  shows "keeps UNIV ev fin \<and>
    (if s = Suite_ok
     then \<forall>i < es_count ev. \<exists>scope. evaluated_in (with_registry (es_registry ev) su) fin i scope \<and>
       (\<forall>j < es_count ev. cxpr_expression_depends_on ev i j \<longrightarrow>
          scope (ex_name (es_expressions ev ! j)) = Some (ex_result (es_expressions fin ! j)))
     else \<exists>k < es_count ev. \<forall>m < es_count ev. ex_evaluated (es_expressions fin ! (es_eval_order ev ! m)) \<longleftrightarrow> m < k)"
proof -
  let ?ev = "clear_results ev" and ?order = "es_eval_order ev" and ?su = "with_registry (es_registry ev) su"
  obtain cs1 cs2 where loop: "eval_loop ?su ?order ?ev cs1 = (fin, cs2, s)"
    using assms(2,4) by (auto simp: cxpr_evaluator_eval_def Let_def split: prod.splits)
  have clear: "keeps UNIV ev ?ev" by (auto simp: keeps_def clear_results_def same_entry_def)
  have n: "es_count ?ev = es_count ev" by (simp add: clear_results_def)
  have order: "dependency_order (cxpr_expression_depends_on ev) (es_count ev) ?order" using assms(1,2) by (simp add: suite_inv_def)
  have dep: "cxpr_expression_depends_on ?ev i j = cxpr_expression_depends_on ev i j" if "i < es_count ev" "j < es_count ev" for i j
    using same_source_depends [OF keeps_source [OF clear] that] .
  then have order': "dependency_order (cxpr_expression_depends_on ?ev) (es_count ?ev) ?order"
    using dependency_order_cong [of "es_count ev" "cxpr_expression_depends_on ?ev" "cxpr_expression_depends_on ev"] order n by simp
  have names: "ex_name (es_expressions ?ev ! j) = ex_name (es_expressions ev ! j)" if "j < es_count ev" for j
    using that by (simp add: clear_results_def)
  have "keeps UNIV ev fin" using keeps_trans [OF clear eval_loop_keeps [OF loop]] by simp
  moreover have "\<exists>k < es_count ev. \<forall>m < es_count ev. ex_evaluated (es_expressions fin ! (?order ! m)) \<longleftrightarrow> m < k" if "s \<noteq> Suite_ok"
  proof -
    have "length ?order = es_count ev" using order distinct_card [of ?order] by (simp add: dependency_order_def)
    moreover have "\<forall>j \<in> set ?order. \<not> ex_evaluated (es_expressions ?ev ! j)" using order by (auto simp: clear_results_def dependency_order_def)
    ultimately show ?thesis using eval_loop_stopped [OF loop that] order n by (simp add: dependency_order_def)
  qed
  moreover have "distinct (map ex_name (es_expressions ?ev))" using keeps_names [OF clear] assms(3) by simp
  ultimately show ?thesis using loop_scopes [of ?su ?order ?ev cs1 fin cs2] loop order' n dep names by simp
qed

section \<open>Properties\<close>


text \<open>Sample surroundings: lookups find what the scope holds and nothing else, and every host function
  is absent. The set defines \<open>b\<close> as \<open>not a\<close> before \<open>a\<close> as \<open>true\<close>.\<close>

definition scope_lookup :: "string \<Rightarrow> frames \<Rightarrow> cxpr_value option \<times> frames" where
  "scope_lookup n cs = ((case cs of [] \<Rightarrow> None | c # _ \<Rightarrow> Option.bind (cx_expression_scope c) (\<lambda>f. f n)), cs)"

definition sample_eval_env :: "cxpr_context eval_env" where
  "sample_eval_env =
     \<lparr>ev_mem = \<lambda>_. True, ev_pow = \<lambda>x y. x, ev_hexfloat = \<lambda>_. [], ev_reg = Some [],
      ev_get_typed = scope_lookup, ev_get_param_typed = \<lambda>n cs. (None, cs), ev_get = \<lambda>n cs. (None, cs),
      ev_get_param = \<lambda>n cs. (None, cs), ev_get_field = \<lambda>r f cs. (None, cs), ev_get_struct = \<lambda>n cs. None,
      ev_get_cached_struct = \<lambda>n cs. None, ev_set_cached_struct = \<lambda>n s cs. cs,
      ev_scope = \<lambda>cs. case cs of [] \<Rightarrow> None | c # _ \<Rightarrow> cx_expression_scope c,
      ev_overlay_new = \<lambda>cs. None, ev_overlay_free = \<lambda>c cs. cs, ev_set = \<lambda>n d c. c, ev_set_value = \<lambda>n v c. c,
      ev_set_struct = \<lambda>n s c. c, ev_copy_prefixed = \<lambda>a b cs c. (False, c), ev_memo = \<lambda>_. no_memo,
      ev_set_memo = \<lambda>m cs. cs, ev_lookback_offset = \<lambda>_. dbl_zero, ev_ast_func_handler = \<lambda>f t cs e. eval_stuck cs,
      ev_ast_func = \<lambda>f t cs e. eval_stuck cs, ev_model_producer = \<lambda>f t cs e. eval_stuck cs,
      ev_struct_producer = \<lambda>f ds. [], ev_typed_func = \<lambda>f vs. cxpr_num DNaN, ev_capabilities = [],
      ev_resolve = \<lambda>k t i cs e. (False, eval_stuck cs), ev_resolver = None\<rparr>"

definition sample_suite_env :: suite_env where
  "sample_suite_env =
     \<lparr>su_sort_mem = \<lambda>_. True,
      su_compile = \<lparr>ce_mem = \<lambda>_. True, ce_pow = \<lambda>x y. x, ce_hexfloat = \<lambda>_. [], ce_reg = Some [], ce_locals = []\<rparr>,
      su_result_type = \<lambda>_. CXPR_VALUE_NUMBER,
      su_fast = \<lparr>env_pow = \<lambda>x y. x, env_var = \<lambda>ip i cs. (None, cs), env_param = \<lambda>ip i cs. (None, cs),
        env_memo_get = \<lambda>i cs. None, env_memo_set = \<lambda>i v cs. cs, env_defined = \<lambda>i vs cs. (Inr (cxpr_num DNaN), cs)\<rparr>,
      su_typed = \<lparr>tx_env = sample_eval_env, tx_fuel = 5, tx_eval_ast = \<lambda>t cs. eval_stuck cs,
        tx_scalar = \<lambda>ip i param cs. (None, cs), tx_prehashed = \<lambda>n h cs. None, tx_param_bool = \<lambda>n cs. None,
        tx_param_string = \<lambda>n cs. None\<rparr>,
      su_fuel = 10\<rparr>"

definition sample_defs :: "(string \<times> string) list" where
  "sample_defs = [(''b'', ''not a''), (''a'', ''true'')]"

definition sample_suite :: cxpr_evaluator where
  "sample_suite = fst (the (cxpr_expressions_add (\<lambda>_. True) sample_defs (the (cxpr_evaluator_new (\<lambda>_. True) (Some fresh_parser) (Some [])))))"

definition sample_compiled :: cxpr_evaluator where
  "sample_compiled = fst (cxpr_evaluator_compile sample_suite_env sample_suite)"

definition sample_run :: "cxpr_evaluator \<times> frames \<times> suite_status" where
  "sample_run = cxpr_evaluator_eval sample_suite_env sample_compiled [sample_context]"

lemma sample_steps:
  "map_option snd (cxpr_expressions_add (\<lambda>_. True) sample_defs (the (cxpr_evaluator_new (\<lambda>_. True) (Some fresh_parser) (Some [])))) =
     Some None"
  "snd (cxpr_evaluator_compile sample_suite_env sample_suite) = Suite_ok"
  "snd (snd sample_run) = Suite_ok"
  "map ex_result (es_expressions (fst sample_run)) = [cxpr_bool False, cxpr_bool True]"
  "cxpr_expression_depends_on (fst sample_run) 0 1"
  by code_simp+


text \<open>The fast executor reads a boolean as a number: with \<open>a\<close> bound to \<open>true\<close> the compiled \<open>a + 1\<close> gives 2, where the
  tree evaluator reports a type error. The lookup is that of an instruction, \<open>cxpr_ir_lookup_cached_scalar\<close>.\<close>

definition scope_suite_env :: suite_env where
  "scope_suite_env = sample_suite_env\<lparr>su_fast := (su_fast sample_suite_env)\<lparr>env_var := \<lambda>ip i cs.
     (case cxpr_ir_lookup_cached_scalar False (in_name i) (in_hash i) cs of Some r \<Rightarrow> (r, cs) | None \<Rightarrow> (None, cs))\<rparr>\<rparr>"

definition bool_sum_ast :: cxpr_expr_ast where
  "bool_sum_ast = op_ast CXPR_TOK_PLUS (Ast None (CXPR_NODE_IDENTIFIER ''a'')) (Ast None (CXPR_NODE_NUMBER dbl_one))"

definition bool_frames :: frames where
  "bool_frames = in_scope (Some (\<lambda>n. if n = ''a'' then Some (cxpr_bool True) else None)) [sample_context]"

lemma fast_adds_boolean:
  "case cxpr_expr_compile scope_suite_env bool_sum_ast of
     Inl _ \<Rightarrow> False
   | Inr p \<Rightarrow> (case cxpr_expr_compiled_eval_value scope_suite_env p bool_frames of
       (v, _, e) \<Rightarrow> v = cxpr_num (dbl_of_int 2) \<and> e = Ok)"
  "case cxpr_eval_node sample_eval_env 3 bool_sum_ast bool_frames Ok of
     (_, _, e) \<Rightarrow> (case e of Err code _ \<Rightarrow> code = CXPR_ERR_TYPE_MISMATCH | _ \<Rightarrow> False)"
  by code_simp+

end
