(* ===== verification/Spec2Isabelle.thy ===== *)
theory Spec2Isabelle
  imports Cxpr_Grammar Cxpr_References Cxpr_Printer Cxpr_Suite
begin

text \<open>
  \<^bold>\<open>A verification of the core of the \<^verbatim>\<open>cxpr\<close> expression engine\<close>

  \<^verbatim>\<open>cxpr\<close> is a C library that parses expressions (arithmetic, comparisons, calls, records, arrays,
  pipes), analyses and prints their trees, compiles them to a stack-machine IR and executes the IR
  against tables of variables. The theories follow the pipeline, one or more per component; every
  definition carries the name of the C function it translates where it translates one.

  \<^bold>\<open>The parts and their theories\<close>

  \<^item> \<open>Cxpr_Prelude\<close>: C characters and bytes, size limits, the collections of rewrite rules, the
    lemmas on lists and options the components share.
  \<^item> \<open>Cxpr_Double\<close>: IEEE binary64 values as sign, mantissa and exponent with correctly rounded
    arithmetic, comparisons and conversions; what the sources use of C's \<open>double\<close>.
  \<^item> \<open>Cxpr_Hashmap\<close> (\<^verbatim>\<open>src/src/hashmap/hashmap.c\<close>): the open-addressing table from strings to doubles
    behind every context. The allocator is a parameter; a probe that never ends is an explicit
    outcome. Shown: a table implements a finite map, stores update exactly one key, growth and clone
    keep the invariant, and what happens when growth fails.
  \<^item> \<open>Cxpr_Lexer\<close> (\<^verbatim>\<open>src/src/lexer/lexer.c\<close>): the tokenizer over a NUL-free source. Shown: positions,
    lines and columns stay right, the lexemes are exactly the consumed text, end of input is reached,
    and the values of numeric literals.
  \<^item> \<open>Cxpr_Ast\<close> (\<^verbatim>\<open>src/src/ast/construct.c\<close>, \<^verbatim>\<open>inspect.c\<close>, \<^verbatim>\<open>src/src/eval/helpers/clone.c\<close>): the tree with
    its spans, the constructors, accessors and deep clones. Shown: a clone is the same tree.
  \<^item> \<open>Cxpr_Parser\<close> (\<^verbatim>\<open>src/src/parser/*.c\<close>): the recursive-descent parser. Each C function is a
    definition over a table of the calls it makes (\<open>node_calls\<close>, \<open>item_calls\<close>); \<open>parse\<close> and
    \<open>parse_items\<close> tie the knot with a bound on the call depth.
  \<^item> \<open>Cxpr_Parser_Safety\<close>: the contract of a parsing call as the locale \<open>parser_calls\<close>, proved for the
    knot by interpretation. Shown: the parser always returns within the depth bound
    \<open>16 * (length + 2)\<close> (at most 16 nested calls happen between two consumed tokens), errors are
    located inside the source, trees are well formed and their spans are ranges of the source.
  \<^item> \<open>Cxpr_Grammar\<close>: the language as inductively defined derivations from tokens to trees, and the
    refinement: the parser returns only trees the grammar derives from the whole token sequence
    (locale \<open>sound_calls\<close>, interpreted on the knot).
  \<^item> \<open>Cxpr_References\<close> (\<^verbatim>\<open>src/src/ast/references.c\<close>, \<^verbatim>\<open>call_sites.c\<close>): the collectors of names, fields
    and call contexts and the visitor of static string arguments. The four collectors share the
    locale \<open>collector\<close>. Shown: each lists exactly the names of the tree in order of occurrence, the
    containment tests agree, and where they miss a subtree.
  \<^item> \<open>Cxpr_Printer\<close> (\<^verbatim>\<open>src/src/ast/printer.c\<close>): rendering with a growing buffer. Shown: the buffer holds
    exactly the text of the tree; and expressions that do not survive printing and parsing.
  \<^item> \<open>Cxpr_Value\<close> (\<^verbatim>\<open>src/src/value_ops.c\<close>, \<^verbatim>\<open>src/src/struct.c\<close>): typed values, their operators and deep
    copies; signed overflow is an explicit outcome. Shown: operators keep values well formed, int64
    arithmetic is exact or an error, struct arithmetic is field-wise, clones are exact.
  \<^item> \<open>Cxpr_Maps\<close> (\<^verbatim>\<open>src/src/struct.c\<close>): the struct and array maps of a context, with removal by storing
    the rest of the probe cluster again. Both are instances of the locale \<open>named_store\<close>. Shown: any
    sequence of stores and removals implements a finite map; a failed allocation changes no binding.
  \<^item> \<open>Cxpr_Context\<close> and \<open>Cxpr_Bindings\<close> (\<^verbatim>\<open>src/src/context/*.c\<close>): a context with its tables, lookup
    caches, parents, overlays, clones and bound slots, and the theorems on it. Lookups over the
    parents are instances of the locale \<open>scope_chain\<close>. Shown: the caches never change a result as
    long as slot arrays do not reuse an address, lookups find the innermost binding, the scalar
    setters bind exactly one name, pooled overlays are transparent; and four places where the code
    departs from what its names or its header promise.
  \<^item> \<open>Cxpr_Ir\<close> (\<^verbatim>\<open>src/src/ir/program.c\<close>, \<^verbatim>\<open>validate.c\<close>): the instruction buffer and the two worklist
    validators of the unchecked executors.
  \<^item> \<open>Cxpr_Exec\<close> (\<^verbatim>\<open>src/src/ir/exec/fast.c\<close>): both unchecked executors, opcode by opcode, where leaving
    a stack or the dispatch table is an explicit crash. Shown: validated programs never crash, and
    end when their jumps lead forward.
  \<^item> \<open>Cxpr_Call\<close> (\<^verbatim>\<open>src/src/call/args.c\<close>, \<^verbatim>\<open>src/src/lookback.c\<close>): binding of named arguments to the
    parameters of a function, and literal look-back offsets. Shown: a binding is a permutation of the
    arguments that respects their names; and the signature length from which it writes past its array.
  \<^item> \<open>Cxpr_Fold\<close> (\<^verbatim>\<open>src/src/ir/program.c\<close>, \<^verbatim>\<open>cache_key.c\<close>, \<^verbatim>\<open>compile/shared.c\<close>): constant folding,
    structural equality of trees, keys of constant producer calls and the tree predicates of the
    compiler.
  \<^item> \<open>Cxpr_Compile\<close> (\<^verbatim>\<open>src/src/ir/compile/*.c\<close>, \<^verbatim>\<open>src/src/ir/compile.c\<close>): the compiler from trees to IR,
    with substitution frames for inlined bodies. \<open>appends\<close> states what a compilation step adds to a
    program. Shown: what is released for a fast executor never crashes there and ends; and two
    definitions the compiler lowers wrongly.
  \<^item> \<open>Cxpr_Memo\<close> (\<^verbatim>\<open>src/src/eval/helpers/cache.c\<close>): structural hash, structural equality and the memo
    of call results. Shown: the memo is a map on trees up to structural equality.
  \<^item> \<open>Cxpr_Tree\<close> (\<^verbatim>\<open>src/src/eval/tree.c\<close>, \<^verbatim>\<open>calls.c\<close>, \<^verbatim>\<open>calls/producer.c\<close>, \<^verbatim>\<open>helpers/*.c\<close>,
    \<^verbatim>\<open>src/src/registry/call.c\<close>, \<^verbatim>\<open>index.c\<close>): the tree evaluator. The context is the record \<open>eval_env\<close> of
    the lookups and updates the evaluator makes, over a list of frames; host callbacks are fields of it
    or of the registry entries. Each level of recursion costs one unit of fuel; what would be undefined
    behaviour and running out of fuel is \<open>Stuck\<close>.
  \<^item> \<open>Cxpr_Typed\<close> (\<^verbatim>\<open>src/src/ir/exec/typed.c\<close>, \<^verbatim>\<open>lookup.c\<close>, \<^verbatim>\<open>calls.c\<close>): the checked executor over tagged
    values, every opcode.
  \<^item> \<open>Cxpr_Meaning\<close>: the meaning \<open>denote\<close> of expressions built from literals, identifiers, parameters and
    operators (\<open>op_tree\<close>), the contract \<open>lookups\<close> a context owes to both evaluators, and what folding and
    the operators of both evaluators do to that meaning. Fuel \<open>op_depth t\<close>, the depth of the tree, is
    enough for the tree evaluator.
  \<^item> \<open>Cxpr_Equiv\<close>: compiled code computes the meaning, by induction over the compiler: \<open>yields\<close> says that a
    piece of code, wherever it is placed, pushes the meaning of its expression or fails as it does.
  \<^item> \<open>Cxpr_Agree\<close>: the contract interpreted on the contexts of \<open>Cxpr_Context\<close>, and the theorems: the tree
    evaluator implements the meaning, compiled programs agree with the tree evaluator and need one
    dispatch per instruction, and where the two evaluators differ or lose an error.
  \<^item> \<open>Cxpr_Typecheck\<close> (\<^verbatim>\<open>src/src/typecheck.c\<close>): static types with located errors. Shown: an operator expression the
    checker accepts evaluates to a value of the reported type, or fails by a division by zero or an
    unbound name; and what the checker misses for \<open>int64\<close>.
  \<^item> \<open>Cxpr_Analyze\<close> (\<^verbatim>\<open>src/src/ast/analyze.c\<close>, \<^verbatim>\<open>src/src/resample.c\<close>): durations, \<open>resample\<close> calls and the analysis
    of an expression. Shown: durations are exact and canonical, and the analysis accepts exactly the
    expressions whose calls are all good.
  \<^item> \<open>Cxpr_Order\<close> (\<^verbatim>\<open>src/src/expression/expression.c\<close>): cycle search and dependency sort. Shown: an order exactly
    when there is no cycle.
  \<^item> \<open>Cxpr_Suite\<close> (\<^verbatim>\<open>src/src/expression/*.c\<close>, \<open>cxpr_expr_compile\<close> and \<open>cxpr_expr_compiled_eval_value\<close>): sets of
    named expressions from registration to the run, composed of parser, references, analysis, checker,
    compiler, sort and executors. Shown: a run evaluates every expression after those it refers to, or
    stops at the first that fails.

  \<^bold>\<open>Conventions\<close>

  State is passed explicitly as records named after the C structs. Errors are values. Loops are
  recursive functions; where a loop has no structural measure it has fuel, and a theorem shows that
  the fuel suffices. Memory: in the hashmap, the value clones, the maps and the context allocation
  failure is a parameter, as in the compiler and the evaluators;
  in the tree constructors, the parser and the printer allocation is taken to succeed. Pointers
  to trees become values, because the sources never alias a child they later change.

  \<^bold>\<open>Not modelled\<close>

  Registration of functions and the built-in functions (an entry is a value with its callbacks), the
  lookup caches of IR instructions beyond their empty state, the inline caches of tree nodes, the
  release of owned values, aliases, series and windows, bulk evaluation, the
  document and model languages, the engine and the providers. The generated C of the code generators
  has no meaning here without a C semantics.
  Snapshots, JSON and dumping are output only.
\<close>

end
